(* ===== verification/Ebus_Prelude.thy ===== *)
theory Ebus_Prelude
  imports Main "HOL-Library.Word"
begin

text \<open>
  Shared vocabulary of the development: the byte type of the Go sources, the exhaustive
  check of a byte predicate, a run of a deterministic step function over a list of inputs,
  and the interface of a step function with an invariant.  Every component theory imports
  this one.
\<close>

unbundle bit_operations_syntax

named_theorems machine_simps \<open>step functions of the modelled state machines\<close>
named_theorems codec_simps \<open>definitions of encoders and decoders\<close>

section \<open>Bytes\<close>

type_synonym byte = "8 word"

abbreviation byte_of_nat :: "nat \<Rightarrow> byte" where
  "byte_of_nat n \<equiv> word_of_nat n"

definition all_bytes :: "byte list" where
  "all_bytes = map word_of_nat [0..<256]"

lemma unat_byte_less [simp]: "unat (b :: byte) < 256"
  using unsigned_less [of b] by simp

lemma unat_byte_le_255 [simp]: "unat (b :: byte) \<le> 255"
  using unat_byte_less [of b] by linarith

lemma set_all_bytes [simp]: "set all_bytes = UNIV"
proof -
  have "b \<in> set all_bytes" for b :: byte
  proof -
    have "b = word_of_nat (unat b)" by simp
    moreover have "unat b \<in> set [0..<256]" by simp
    ultimately show ?thesis unfolding all_bytes_def by (metis image_eqI set_map)
  qed
  then show ?thesis by blast
qed

text \<open>A statement about every byte is a finite conjunction, which the kernel evaluates.\<close>

lemma byte_exhaustive: "(\<forall>b :: byte. P b) \<longleftrightarrow> list_all P all_bytes"
  by (simp add: list_all_iff)

lemma byte_exhaustive2:
  "(\<forall>a b :: byte. P a b) \<longleftrightarrow> list_all (\<lambda>a. list_all (P a) all_bytes) all_bytes"
  by (simp add: list_all_iff)

lemma all_bytes_nth [simp]: "all_bytes ! unat b = b"
  by (simp add: all_bytes_def)

lemma length_all_bytes [simp]: "length all_bytes = 256"
  by (simp add: all_bytes_def)

lemma unat_byte_of_nat [simp]: "n < 256 \<Longrightarrow> unat (byte_of_nat n) = n"
  by (simp add: unat_of_nat)

lemma byte_of_nat_inj: "m < 256 \<Longrightarrow> n < 256 \<Longrightarrow> byte_of_nat m = byte_of_nat n \<Longrightarrow> m = n"
  by (metis unat_byte_of_nat)

section \<open>Runs of a deterministic step function\<close>

text \<open>
  An incremental component of the Go code (a decoder, a parser, a protocol machine) is a
  step function that takes the state and one input and returns the next state and one
  output.  \<open>run_machine\<close> feeds a list of inputs and collects the outputs.
\<close>

fun run_machine :: "('s \<Rightarrow> 'i \<Rightarrow> 's \<times> 'o) \<Rightarrow> 's \<Rightarrow> 'i list \<Rightarrow> 's \<times> 'o list" where
  "run_machine step s [] = (s, [])"
| "run_machine step s (i # is) =
     (let (s', out) = step s i; (s'', outs) = run_machine step s' is in (s'', out # outs))"

abbreviation run_state :: "('s \<Rightarrow> 'i \<Rightarrow> 's \<times> 'o) \<Rightarrow> 's \<Rightarrow> 'i list \<Rightarrow> 's" where
  "run_state step s is \<equiv> fst (run_machine step s is)"

abbreviation run_out :: "('s \<Rightarrow> 'i \<Rightarrow> 's \<times> 'o) \<Rightarrow> 's \<Rightarrow> 'i list \<Rightarrow> 'o list" where
  "run_out step s is \<equiv> snd (run_machine step s is)"

lemma run_state_Cons [simp]:
  "run_state step s (i # is) = run_state step (fst (step s i)) is"
  by (simp add: Let_def split: prod.splits)

lemma run_out_Cons [simp]:
  "run_out step s (i # is) = snd (step s i) # run_out step (fst (step s i)) is"
  by (simp add: Let_def split: prod.splits)

declare run_machine.simps(2) [simp del]

lemma run_machine_append:
  "run_machine step s (xs @ ys) =
     (run_state step (run_state step s xs) ys, run_out step s xs @ run_out step (run_state step s xs) ys)"
  by (induction xs arbitrary: s) (simp_all add: prod_eq_iff)

lemma run_state_append [simp]:
  "run_state step s (xs @ ys) = run_state step (run_state step s xs) ys"
  by (simp add: run_machine_append)

lemma run_out_append [simp]:
  "run_out step s (xs @ ys) = run_out step s xs @ run_out step (run_state step s xs) ys"
  by (simp add: run_machine_append)

lemma length_run_out [simp]: "length (run_out step s xs) = length xs"
  by (induction xs arbitrary: s) simp_all

section \<open>Interface: a step function with an invariant\<close>

text \<open>
  What the development asks of every state machine: an initial state, a step function and
  an invariant the step function keeps.  A client learns that the invariant holds after
  every prefix of every run.
\<close>

locale invariant_machine =
  fixes step :: "'s \<Rightarrow> 'i \<Rightarrow> 's \<times> 'o"
    and init :: "'s"
    and inv :: "'s \<Rightarrow> bool"
  assumes inv_init: "inv init"
    and inv_step: "inv s \<Longrightarrow> inv (fst (step s i))"
begin

lemma inv_run: "inv s \<Longrightarrow> inv (run_state step s is)"
  by (induction "is" arbitrary: s) (simp_all add: inv_step)

lemma inv_reachable: "inv (run_state step init is)"
  by (rule inv_run) (rule inv_init)

lemma inv_prefix: "inv (run_state step init (take n is))"
  by (rule inv_reachable)

end

section \<open>List and map lemmas\<close>

text \<open>An association list over bytes as a 256-entry array, for evaluation on every byte at once.\<close>

definition alist_table :: "(byte \<times> 'v) list \<Rightarrow> 'v option list" where
  "alist_table al = foldr (\<lambda>(k, v) t. t[unat k := Some v]) al (replicate 256 None)"

lemma length_alist_table [simp]: "length (alist_table al) = 256"
  by (induction al) (auto simp: alist_table_def)

lemma map_of_alist_table: "map_of al b = alist_table al ! unat b"
proof (induction al)
  case Nil
  then show ?case by (simp add: alist_table_def)
next
  case (Cons p al)
  have len: "length (foldr (\<lambda>(k, v) t. t[unat k := Some v]) al (replicate 256 None)) = 256"
    using length_alist_table [of al] by (simp add: alist_table_def)
  show ?case
    using Cons.IH by (cases p) (auto simp: alist_table_def nth_list_update len word_unat_eq_iff)
qed

text \<open>A map filled entry by entry, later entries winning, is the association list read backwards.\<close>

lemma foldl_map_upd:
  "foldl (\<lambda>m x. m(f x \<mapsto> g x)) m0 xs = m0 ++ map_of (rev (map (\<lambda>x. (f x, g x)) xs))"
  by (induction xs rule: rev_induct) (auto simp: fun_eq_iff map_add_def)

lemma list_all_upt: "list_all P [0..<n] \<longleftrightarrow> (\<forall>i<n. P i)"
  by (auto simp: list_all_iff)

lemma take_Suc_nth: "n < length xs \<Longrightarrow> take (Suc n) xs = take n xs @ [xs ! n]"
  by (rule take_Suc_conv_app_nth)

end
