(* ===== verification/Ebus_Errors.thy ===== *)
theory Ebus_Errors
  imports Ebus_Prelude
begin

text \<open>
  Go errors as the repository builds them (sentinels, \<open>fmt.Errorf\<close> with \<open>%w\<close>, joined errors)
  and the error taxonomy of \<open>errors/errors.go\<close>: sentinels, normalised codes, categories,
  retriability and the three predicates \<open>IsTransient\<close>, \<open>IsDefinitive\<close>, \<open>IsFatal\<close>.
\<close>

section \<open>Error values\<close>

text \<open>The package-level sentinels of \<open>errors/errors.go\<close>.\<close>

datatype sentinel =
    ErrBusCollision | ErrTimeout | ErrCRCMismatch | ErrNACK | ErrNoSuchDevice
  | ErrRetryExhausted | ErrInvalidPayload | ErrTransportClosed | ErrAdapterReset
  | ErrAdapterHostError | ErrQueueFull

fun sentinel_message :: "sentinel \<Rightarrow> string" where
  "sentinel_message ErrBusCollision = ''ebus: bus collision during arbitration''"
| "sentinel_message ErrTimeout = ''ebus: no response within timeout window''"
| "sentinel_message ErrCRCMismatch = ''ebus: CRC validation failed''"
| "sentinel_message ErrNACK = ''ebus: target returned NACK''"
| "sentinel_message ErrNoSuchDevice = ''ebus: no device responded at address''"
| "sentinel_message ErrRetryExhausted = ''ebus: retries exhausted''"
| "sentinel_message ErrInvalidPayload = ''ebus: payload does not match expected schema''"
| "sentinel_message ErrTransportClosed = ''ebus: transport connection closed''"
| "sentinel_message ErrAdapterReset = ''ebus: adapter reset during operation''"
| "sentinel_message ErrAdapterHostError = ''ebus: adapter host-side protocol error''"
| "sentinel_message ErrQueueFull = ''ebus: send queue at capacity''"

text \<open>
  A Go \<open>error\<close> value: a sentinel, an error value of another package identified by its
  message (\<open>Opaque\<close>), \<open>fmt.Errorf\<close> with one \<open>%w\<close> verb (the text before and after the wrapped
  error), several wrapped errors (\<open>errors.Join\<close>, several \<open>%w\<close>), and the unexported marker
  type \<open>echoMismatchEmittedError\<close> of \<open>protocol/bus.go\<close>.
\<close>

datatype go_error =
    Sentinel sentinel
  | Opaque string
  | Wrap string go_error string
  | Joined "go_error list"
  | EchoMismatchEmitted go_error

text \<open>\<open>err.Error()\<close>; \<open>errors.Join\<close> separates the messages by newlines.\<close>

fun error_message :: "go_error \<Rightarrow> string" where
  "error_message (Sentinel s) = sentinel_message s"
| "error_message (Opaque m) = m"
| "error_message (Wrap pre e post) = pre @ error_message e @ post"
| "error_message (Joined es) =
     (case es of [] \<Rightarrow> []
      | e # es' \<Rightarrow> error_message e @ concat (map (\<lambda>x. CHR 0x0A # error_message x) es'))"
| "error_message (EchoMismatchEmitted e) = error_message e"

text \<open>\<open>errors.Is(err, target)\<close> for a sentinel target: pre-order search of the wrap tree.\<close>

fun errors_Is :: "go_error \<Rightarrow> sentinel \<Rightarrow> bool" where
  "errors_Is (Sentinel s) t \<longleftrightarrow> s = t"
| "errors_Is (Opaque m) t \<longleftrightarrow> False"
| "errors_Is (Wrap pre e post) t \<longleftrightarrow> errors_Is e t"
| "errors_Is (Joined es) t \<longleftrightarrow> list_ex (\<lambda>e. errors_Is e t) es"
| "errors_Is (EchoMismatchEmitted e) t \<longleftrightarrow> errors_Is e t"

text \<open>
  The same search for an error value of another package, such as \<open>context.Canceled\<close>, which is known
  by its message.
\<close>

fun errors_Is_opaque :: "go_error \<Rightarrow> string \<Rightarrow> bool" where
  "errors_Is_opaque (Sentinel s) t \<longleftrightarrow> False"
| "errors_Is_opaque (Opaque m) t \<longleftrightarrow> m = t"
| "errors_Is_opaque (Wrap pre e post) t \<longleftrightarrow> errors_Is_opaque e t"
| "errors_Is_opaque (Joined es) t \<longleftrightarrow> list_ex (\<lambda>e. errors_Is_opaque e t) es"
| "errors_Is_opaque (EchoMismatchEmitted e) t \<longleftrightarrow> errors_Is_opaque e t"

text \<open>A possibly nil error is an option; \<open>errors.Is(nil, target)\<close> is false.\<close>

definition err_is :: "go_error option \<Rightarrow> sentinel \<Rightarrow> bool" where
  "err_is err t = (case err of None \<Rightarrow> False | Some e \<Rightarrow> errors_Is e t)"

lemma err_is_simps [simp]:
  "err_is None t = False"
  "err_is (Some e) t = errors_Is e t"
  by (simp_all add: err_is_def)

text \<open>A chain with at most one wrapped error per node: no joined error inside.\<close>

fun linear_error :: "go_error \<Rightarrow> bool" where
  "linear_error (Sentinel s) = True"
| "linear_error (Opaque m) = True"
| "linear_error (Wrap pre e post) = linear_error e"
| "linear_error (Joined es) = False"
| "linear_error (EchoMismatchEmitted e) = linear_error e"

type_synonym 'a result = "go_error + 'a"

section \<open>Codes, categories, mapping\<close>

datatype code =
    CodeUnknown | CodeInvalidPayload | CodeNoSuchDevice | CodeNACK | CodeTimeout
  | CodeBusCollision | CodeRetryExhausted | CodeCRCMismatch | CodeTransportClosed
  | CodeAdapterReset | CodeAdapterHostError | CodeQueueFull

datatype category =
  CategoryUnknown | CategoryInvalid | CategoryTransient | CategoryDefinitive | CategoryFatal

datatype source_layer =
  SourceLayerUnknown | SourceLayerEbusgo | SourceLayerEbusreg | SourceLayerGateway

record error_mapping =
  em_code :: code
  em_category :: category
  em_retriable :: bool
  em_source_layer :: source_layer

definition NormalizeErrorCode :: "go_error option \<Rightarrow> code" where
  "NormalizeErrorCode err =
     (if err_is err ErrInvalidPayload then CodeInvalidPayload
      else if err_is err ErrNoSuchDevice then CodeNoSuchDevice
      else if err_is err ErrNACK then CodeNACK
      else if err_is err ErrTimeout then CodeTimeout
      else if err_is err ErrBusCollision then CodeBusCollision
      else if err_is err ErrRetryExhausted then CodeRetryExhausted
      else if err_is err ErrCRCMismatch then CodeCRCMismatch
      else if err_is err ErrTransportClosed then CodeTransportClosed
      else if err_is err ErrAdapterReset then CodeAdapterReset
      else if err_is err ErrAdapterHostError then CodeAdapterHostError
      else if err_is err ErrQueueFull then CodeQueueFull
      else CodeUnknown)"

fun categoryForCode :: "code \<Rightarrow> category" where
  "categoryForCode CodeInvalidPayload = CategoryInvalid"
| "categoryForCode CodeQueueFull = CategoryInvalid"
| "categoryForCode CodeNoSuchDevice = CategoryDefinitive"
| "categoryForCode CodeNACK = CategoryDefinitive"
| "categoryForCode CodeAdapterHostError = CategoryDefinitive"
| "categoryForCode CodeTimeout = CategoryTransient"
| "categoryForCode CodeBusCollision = CategoryTransient"
| "categoryForCode CodeRetryExhausted = CategoryTransient"
| "categoryForCode CodeCRCMismatch = CategoryTransient"
| "categoryForCode CodeAdapterReset = CategoryTransient"
| "categoryForCode CodeTransportClosed = CategoryFatal"
| "categoryForCode CodeUnknown = CategoryUnknown"

definition NormalizeErrorCategory :: "go_error option \<Rightarrow> category" where
  "NormalizeErrorCategory err = categoryForCode (NormalizeErrorCode err)"

text \<open>
  \<open>strings.TrimSpace\<close> and \<open>strings.ToLower\<close> on ASCII text: the six ASCII spaces are trimmed at
  both ends and the letters A--Z are lowered.  The source labels compared against are ASCII;
  the Unicode spaces and letters of the Go functions are outside the model.
\<close>

definition is_ascii_space :: "char \<Rightarrow> bool" where
  "is_ascii_space c \<longleftrightarrow> c \<in> {CHR 0x09, CHR 0x0A, CHR 0x0B, CHR 0x0C, CHR 0x0D, CHR 0x20}"

definition trim_space :: "string \<Rightarrow> string" where
  "trim_space s = rev (dropWhile is_ascii_space (rev (dropWhile is_ascii_space s)))"

definition to_lower_char :: "char \<Rightarrow> char" where
  "to_lower_char c =
     (let n = (of_char c :: nat) in if 65 \<le> n \<and> n \<le> 90 then char_of (n + 32) else c)"

definition to_lower :: "string \<Rightarrow> string" where
  "to_lower = map to_lower_char"

definition NormalizeSourceLayer :: "string \<Rightarrow> source_layer" where
  "NormalizeSourceLayer source =
     (let s = to_lower (trim_space source) in
      if s \<in> {''ebusgo'', ''ebus-go'', ''ebus_go''} then SourceLayerEbusgo
      else if s \<in> {''ebusreg'', ''ebus-reg'', ''ebus_reg'', ''registry''} then SourceLayerEbusreg
      else if s \<in> {''gateway'', ''api'', ''graphql'', ''mcp''} then SourceLayerGateway
      else SourceLayerUnknown)"

definition NormalizeErrorMapping :: "go_error option \<Rightarrow> string \<Rightarrow> error_mapping" where
  "NormalizeErrorMapping err source =
     (let code = NormalizeErrorCode err;
          category = categoryForCode code;
          normalizedSource = trim_space source;
          layer = NormalizeSourceLayer normalizedSource;
          layer' = (if code \<noteq> CodeUnknown \<and> normalizedSource = [] then SourceLayerEbusgo else layer)
      in \<lparr>em_code = code, em_category = category,
          em_retriable = (category = CategoryTransient), em_source_layer = layer'\<rparr>)"

definition IsTransient :: "go_error option \<Rightarrow> bool" where
  "IsTransient err \<longleftrightarrow>
     err_is err ErrBusCollision \<or> err_is err ErrTimeout \<or> err_is err ErrCRCMismatch \<or>
     err_is err ErrRetryExhausted \<or> err_is err ErrAdapterReset"

definition IsDefinitive :: "go_error option \<Rightarrow> bool" where
  "IsDefinitive err \<longleftrightarrow>
     err_is err ErrNoSuchDevice \<or> err_is err ErrNACK \<or> err_is err ErrAdapterHostError \<or>
     err_is err ErrInvalidPayload"

definition IsFatal :: "go_error option \<Rightarrow> bool" where
  "IsFatal err \<longleftrightarrow> err_is err ErrTransportClosed"

section \<open>Lemmas\<close>

text \<open>The sentinel at the end of a linear chain, if there is one.\<close>

fun root_sentinel :: "go_error \<Rightarrow> sentinel option" where
  "root_sentinel (Sentinel s) = Some s"
| "root_sentinel (Opaque m) = None"
| "root_sentinel (Wrap pre e post) = root_sentinel e"
| "root_sentinel (Joined es) = None"
| "root_sentinel (EchoMismatchEmitted e) = root_sentinel e"

lemma errors_Is_root: "linear_error e \<Longrightarrow> errors_Is e t \<longleftrightarrow> root_sentinel e = Some t"
  by (induction e) auto

lemma linear_category:
  assumes "linear_error e"
  shows "NormalizeErrorCategory (Some e) =
    (case root_sentinel e of None \<Rightarrow> CategoryUnknown
     | Some s \<Rightarrow> (if s \<in> {ErrInvalidPayload, ErrQueueFull} then CategoryInvalid
         else if s \<in> {ErrNoSuchDevice, ErrNACK, ErrAdapterHostError} then CategoryDefinitive
         else if s = ErrTransportClosed then CategoryFatal else CategoryTransient))"
proof (cases "root_sentinel e")
  case None
  then show ?thesis
    by (simp add: NormalizeErrorCategory_def NormalizeErrorCode_def errors_Is_root [OF assms])
next
  case (Some s)
  then show ?thesis
    by (cases s) (simp_all add: NormalizeErrorCategory_def NormalizeErrorCode_def
        errors_Is_root [OF assms])
qed

lemma wrap_category [simp]:
  "NormalizeErrorCategory (Some (Wrap pre e post)) = NormalizeErrorCategory (Some e)"
  by (simp add: NormalizeErrorCategory_def NormalizeErrorCode_def)

text \<open>
  for every error chain without joined errors, the normalised mapping calls the error
  retriable exactly when \<open>IsTransient\<close> holds, puts it in the fatal category exactly when
  \<open>IsFatal\<close> holds, and a definitive category implies \<open>IsDefinitive\<close>; wrapping changes none of them.
\<close>

theorem mapping_agrees_with_predicates:
  assumes "linear_error e"
  shows "(em_retriable (NormalizeErrorMapping (Some (Wrap pre e post)) src) \<longleftrightarrow> IsTransient (Some e)) \<and>
    (em_category (NormalizeErrorMapping (Some (Wrap pre e post)) src) = CategoryFatal
       \<longleftrightarrow> IsFatal (Some e)) \<and>
    (em_category (NormalizeErrorMapping (Some (Wrap pre e post)) src) = CategoryDefinitive
       \<longrightarrow> IsDefinitive (Some e))"
proof -
  have cat: "em_category (NormalizeErrorMapping (Some (Wrap pre e post)) src)
      = NormalizeErrorCategory (Some e)"
    "em_retriable (NormalizeErrorMapping (Some (Wrap pre e post)) src)
      \<longleftrightarrow> NormalizeErrorCategory (Some e) = CategoryTransient"
    using wrap_category [of pre e post]
    by (simp_all add: NormalizeErrorMapping_def Let_def NormalizeErrorCategory_def)
  show ?thesis
  proof (cases "root_sentinel e")
    case None
    with assms show ?thesis
      by (simp add: cat linear_category IsTransient_def IsFatal_def IsDefinitive_def errors_Is_root)
  next
    case (Some s)
    with assms show ?thesis
      by (cases s) (simp_all add: cat linear_category IsTransient_def IsFatal_def
          IsDefinitive_def errors_Is_root)
  qed
qed

theorem mapping_agrees_with_predicates_witness:
  "linear_error (Sentinel ErrTimeout) \<and>
   em_retriable (NormalizeErrorMapping (Some (Wrap ''bus send timeout: '' (Sentinel ErrTimeout) [])) ''gateway'')"
  using mapping_agrees_with_predicates
    [of "Sentinel ErrTimeout" "''bus send timeout: ''" "[]" "''gateway''"]
  by (simp add: IsTransient_def)

end
