(* ===== verification/Addressing.thy ===== *)
theory Addressing
  imports Ebus_Errors
begin

text \<open>
  eBUS addresses: the docs-owned table of the 25 source addresses
  (\<open>protocol/source_address_selection.go\<close>), the lookups derived from it
  (\<open>canonical_address_table.go\<close>, \<open>companion.go\<close>, \<open>address_class.go\<close>), frame types and frames
  (\<open>protocol.go\<close>) and the frame-type addressing contract (\<open>validate_frame_addressing.go\<close>).
\<close>

section \<open>Symbols, frame types and frames\<close>

definition AddressBroadcast :: byte where "AddressBroadcast = 0xFE"
definition SymbolEscape :: byte where "SymbolEscape = 0xA9"
definition SymbolSyn :: byte where "SymbolSyn = 0xAA"
definition SymbolAck :: byte where "SymbolAck = 0x00"
definition SymbolNack :: byte where "SymbolNack = 0xFF"

lemmas symbol_defs =
  AddressBroadcast_def SymbolEscape_def SymbolSyn_def SymbolAck_def SymbolNack_def

text \<open>\<open>FrameType\<close> is a \<open>uint8\<close> in Go; the values beyond the four constants are \<open>FrameTypeOther\<close>.\<close>

datatype frame_type =
    FrameTypeUnknown
  | FrameTypeBroadcast
  | FrameTypeInitiatorTarget
  | FrameTypeInitiatorInitiator
  | FrameTypeOther byte

record frame =
  Source :: byte
  Target :: byte
  Primary :: byte
  Secondary :: byte
  Data :: "byte list"
  FrameType :: frame_type

definition initiatorPartIndex :: "byte \<Rightarrow> byte" where
  "initiatorPartIndex bits =
     (if bits = 0x0 then 1 else if bits = 0x1 then 2 else if bits = 0x3 then 3
      else if bits = 0x7 then 4 else if bits = 0xF then 5 else 0)"

definition IsInitiatorCapableAddress :: "byte \<Rightarrow> bool" where
  "IsInitiatorCapableAddress addr \<longleftrightarrow>
     initiatorPartIndex (addr AND 0x0F) > 0 \<and> initiatorPartIndex (drop_bit 4 (addr AND 0xF0)) > 0"

definition isValidAddress :: "byte \<Rightarrow> bool" where
  "isValidAddress addr \<longleftrightarrow> addr \<noteq> SymbolEscape \<and> addr \<noteq> SymbolSyn"

definition FrameTypeForTarget :: "byte \<Rightarrow> frame_type" where
  "FrameTypeForTarget tgt =
     (if tgt = AddressBroadcast then FrameTypeBroadcast
      else if \<not> isValidAddress tgt then FrameTypeUnknown
      else if IsInitiatorCapableAddress tgt then FrameTypeInitiatorInitiator
      else FrameTypeInitiatorTarget)"

definition Frame_Type :: "frame \<Rightarrow> frame_type" where
  "Frame_Type f = FrameTypeForTarget (Target f)"

definition EffectiveFrameType :: "frame \<Rightarrow> frame_type" where
  "EffectiveFrameType f =
     (if FrameType f \<noteq> FrameTypeUnknown then FrameType f else FrameTypeForTarget (Target f))"

section \<open>The source-address table\<close>

text \<open>The priority class is a Go string type: \<open>p0\<close> to \<open>p4\<close>, or any other text.\<close>

datatype priority_index =
    SourceAddressPriorityP0 | SourceAddressPriorityP1 | SourceAddressPriorityP2
  | SourceAddressPriorityP3 | SourceAddressPriorityP4
  | SourceAddressPriorityOther string

datatype source_description =
    DescriptionPCModem
  | DescriptionHeatingRegulator
  | DescriptionHeatingCircuitRegulator1
  | DescriptionHeatingCircuitRegulator2
  | DescriptionHeatingCircuitRegulator3
  | DescriptionHandheldProgrammerRemote
  | DescriptionBusInterfaceClimateRegulator
  | DescriptionBusInterface
  | DescriptionCombustionController1
  | DescriptionCombustionController2
  | DescriptionCombustionController3
  | DescriptionCombustionController4
  | DescriptionCombustionController5
  | DescriptionNotPreallocated
  | DescriptionClockRadioClockModule
  | DescriptionPC

record table_row =
  row_Source :: byte
  row_PriorityIndex :: priority_index
  row_ArbitrationNibble :: byte
  row_OfficialDescriptionSummary :: string
  row_CanonicalDescription :: source_description
  row_FreeUse :: bool
  row_RecommendedFor :: string
  row_Companion :: byte

abbreviation address_row ::
    "byte \<Rightarrow> priority_index \<Rightarrow> byte \<Rightarrow> string \<Rightarrow> source_description \<Rightarrow> bool \<Rightarrow> string \<Rightarrow> byte \<Rightarrow> table_row" where
  "address_row s p n d c f r k \<equiv>
     \<lparr>row_Source = s, row_PriorityIndex = p, row_ArbitrationNibble = n,
      row_OfficialDescriptionSummary = d, row_CanonicalDescription = c, row_FreeUse = f,
      row_RecommendedFor = r, row_Companion = k\<rparr>"

definition sourceAddressTableV1 :: "table_row list" where
  "sourceAddressTableV1 =
    [address_row 0x00 SourceAddressPriorityP0 0x0 ''PC/Modem'' DescriptionPCModem False ''none'' 0x05,
     address_row 0x10 SourceAddressPriorityP0 0x0 ''Heating controller'' DescriptionHeatingRegulator False ''none'' 0x15,
     address_row 0x30 SourceAddressPriorityP0 0x0 ''Heating circuit controller 1'' DescriptionHeatingCircuitRegulator1 False ''none'' 0x35,
     address_row 0x70 SourceAddressPriorityP0 0x0 ''Heating circuit controller 2'' DescriptionHeatingCircuitRegulator2 False ''none'' 0x75,
     address_row 0xF0 SourceAddressPriorityP0 0x0 ''Heating circuit controller 3'' DescriptionHeatingCircuitRegulator3 False ''none'' 0xF5,
     address_row 0x01 SourceAddressPriorityP1 0x1 ''Hand programmer / Remote control'' DescriptionHandheldProgrammerRemote False ''none'' 0x06,
     address_row 0x11 SourceAddressPriorityP1 0x1 ''Bus interface / Climate controller'' DescriptionBusInterfaceClimateRegulator False ''none'' 0x16,
     address_row 0x31 SourceAddressPriorityP1 0x1 ''Bus interface'' DescriptionBusInterface False ''none'' 0x36,
     address_row 0x71 SourceAddressPriorityP1 0x1 ''Heating controller'' DescriptionHeatingRegulator False ''none'' 0x76,
     address_row 0xF1 SourceAddressPriorityP1 0x1 ''Heating controller'' DescriptionHeatingRegulator False ''none'' 0xF6,
     address_row 0x03 SourceAddressPriorityP2 0x3 ''Burner controller 1'' DescriptionCombustionController1 False ''none'' 0x08,
     address_row 0x13 SourceAddressPriorityP2 0x3 ''Burner controller 2'' DescriptionCombustionController2 False ''none'' 0x18,
     address_row 0x33 SourceAddressPriorityP2 0x3 ''Burner controller 3'' DescriptionCombustionController3 False ''none'' 0x38,
     address_row 0x73 SourceAddressPriorityP2 0x3 ''Burner controller 4'' DescriptionCombustionController4 False ''none'' 0x78,
     address_row 0xF3 SourceAddressPriorityP2 0x3 ''Burner controller 5'' DescriptionCombustionController5 False ''none'' 0xF8,
     address_row 0x07 SourceAddressPriorityP3 0x7 ''empty'' DescriptionNotPreallocated True ''none'' 0x0C,
     address_row 0x17 SourceAddressPriorityP3 0x7 ''Heating controller recommendation'' DescriptionNotPreallocated True ''Heating regulator'' 0x1C,
     address_row 0x37 SourceAddressPriorityP3 0x7 ''Heating controller recommendation'' DescriptionNotPreallocated True ''Heating regulator'' 0x3C,
     address_row 0x77 SourceAddressPriorityP3 0x7 ''Heating controller recommendation'' DescriptionNotPreallocated True ''Heating regulator'' 0x7C,
     address_row 0xF7 SourceAddressPriorityP3 0x7 ''Heating controller recommendation'' DescriptionNotPreallocated True ''Heating regulator'' 0xFC,
     address_row 0x0F SourceAddressPriorityP4 0xF ''Clock module / Radio clock module'' DescriptionClockRadioClockModule False ''none'' 0x14,
     address_row 0x1F SourceAddressPriorityP4 0xF ''Burner controller 6 recommendation'' DescriptionNotPreallocated True ''Combustion controller 6'' 0x24,
     address_row 0x3F SourceAddressPriorityP4 0xF ''Burner controller 7 recommendation'' DescriptionNotPreallocated True ''Combustion controller 7'' 0x44,
     address_row 0x7F SourceAddressPriorityP4 0xF ''Burner controller 8 recommendation'' DescriptionNotPreallocated True ''Combustion controller 8'' 0x84,
     address_row 0xFF SourceAddressPriorityP4 0xF ''PC'' DescriptionPC False ''none'' 0x04]"

definition helianthusGatewayDefaultPolicyV1 :: "byte list" where
  "helianthusGatewayDefaultPolicyV1 =
     [0xFF, 0x7F, 0x3F, 0x1F, 0xF7, 0x77, 0x37, 0x17, 0x07, 0x11, 0x31, 0x00]"

definition CompanionAddressForSource :: "byte \<Rightarrow> byte" where
  "CompanionAddressForSource source = source + 0x05"

definition LookupSourceAddress :: "byte \<Rightarrow> table_row option" where
  "LookupSourceAddress source = find (\<lambda>row. row_Source row = source) sourceAddressTableV1"

fun sourceAddressPriorityRank :: "priority_index \<Rightarrow> int" where
  "sourceAddressPriorityRank SourceAddressPriorityP0 = 0"
| "sourceAddressPriorityRank SourceAddressPriorityP1 = 1"
| "sourceAddressPriorityRank SourceAddressPriorityP2 = 2"
| "sourceAddressPriorityRank SourceAddressPriorityP3 = 3"
| "sourceAddressPriorityRank SourceAddressPriorityP4 = 4"
| "sourceAddressPriorityRank (SourceAddressPriorityOther p) = 255"

definition OfficialSourceAddressArbitrationRank :: "byte \<Rightarrow> int option" where
  "OfficialSourceAddressArbitrationRank source =
     (case LookupSourceAddress source of None \<Rightarrow> None
      | Some row \<Rightarrow> Some (sourceAddressPriorityRank (row_PriorityIndex row)))"

definition CompareOfficialSourceAddressArbitration :: "byte \<Rightarrow> byte \<Rightarrow> int option" where
  "CompareOfficialSourceAddressArbitration a b =
     (case OfficialSourceAddressArbitrationRank a of None \<Rightarrow> None
      | Some aRank \<Rightarrow>
        (case OfficialSourceAddressArbitrationRank b of None \<Rightarrow> None
         | Some bRank \<Rightarrow>
             if aRank < bRank then Some (-1) else if aRank > bRank then Some 1
             else if a < b then Some (-1) else if a > b then Some 1 else Some 0))"

section \<open>Maps built at package initialisation\<close>

text \<open>The four maps of \<open>canonical_address_table.go\<close>, filled row by row as its \<open>init\<close> does.\<close>

definition canonicalSourceToCompanion :: "byte \<rightharpoonup> byte" where
  "canonicalSourceToCompanion =
     foldl (\<lambda>m row. m(row_Source row \<mapsto> row_Companion row)) Map.empty sourceAddressTableV1"

definition canonicalCompanionToSource :: "byte \<rightharpoonup> byte" where
  "canonicalCompanionToSource =
     foldl (\<lambda>m row. m(row_Companion row \<mapsto> row_Source row)) Map.empty sourceAddressTableV1"

definition canonicalSourceTier :: "byte \<rightharpoonup> priority_index" where
  "canonicalSourceTier =
     foldl (\<lambda>m row. m(row_Source row \<mapsto> row_PriorityIndex row)) Map.empty sourceAddressTableV1"

definition canonicalSourceFreeUse :: "byte \<rightharpoonup> bool" where
  "canonicalSourceFreeUse =
     foldl (\<lambda>m row. m(row_Source row \<mapsto> row_FreeUse row)) Map.empty sourceAddressTableV1"

definition CompanionOfSource :: "byte \<Rightarrow> byte option" where
  "CompanionOfSource source = canonicalSourceToCompanion source"

definition SourceOfCompanion :: "byte \<Rightarrow> byte option" where
  "SourceOfCompanion companion = canonicalCompanionToSource companion"

definition IsCanonicalSource :: "byte \<Rightarrow> bool" where
  "IsCanonicalSource addr \<longleftrightarrow> canonicalSourceToCompanion addr \<noteq> None"

definition IsCanonicalCompanion :: "byte \<Rightarrow> bool" where
  "IsCanonicalCompanion addr \<longleftrightarrow> canonicalCompanionToSource addr \<noteq> None"

definition SourceTier :: "byte \<Rightarrow> priority_index option" where
  "SourceTier source = canonicalSourceTier source"

definition IsFreeUseSource :: "byte \<Rightarrow> bool option" where
  "IsFreeUseSource source = canonicalSourceFreeUse source"

definition Companion :: "byte \<Rightarrow> byte option" where
  "Companion addr =
     (case CompanionOfSource addr of Some companion \<Rightarrow> Some companion
      | None \<Rightarrow> (case SourceOfCompanion addr of Some source \<Rightarrow> Some source | None \<Rightarrow> None))"

section \<open>Address classes\<close>

datatype address_class =
  AddressClassReserved | AddressClassMaster | AddressClassSlave | AddressClassBroadcast

fun AddressClass_String :: "address_class \<Rightarrow> string" where
  "AddressClass_String AddressClassMaster = ''master''"
| "AddressClass_String AddressClassSlave = ''slave''"
| "AddressClass_String AddressClassBroadcast = ''broadcast''"
| "AddressClass_String AddressClassReserved = ''reserved''"

text \<open>The 256-entry array and the writes of \<open>init\<close>, in the order of the source.\<close>

definition addressClassTable :: "address_class list" where
  "addressClassTable =
     (let t0 = replicate 256 AddressClassSlave;
          t1 = foldl (\<lambda>t row. t[unat (row_Source row) := AddressClassMaster]) t0 sourceAddressTableV1
      in t1[unat (0xFE :: byte) := AddressClassBroadcast,
            unat (0xAA :: byte) := AddressClassReserved,
            unat (0xA9 :: byte) := AddressClassReserved])"

definition AddressClassOf :: "byte \<Rightarrow> address_class" where
  "AddressClassOf addr = addressClassTable ! unat addr"

section \<open>The addressing contract\<close>

text \<open>
  The rejections of \<open>ValidateFrameAddressing\<close>.  Every one is a Go error that wraps
  \<open>ErrInvalidFrameAddress\<close>; the constructor is the clause and its arguments are what the
  message prints.
\<close>

datatype address_reject =
    FrameTypeUnknownReject
  | SelfAddressed byte
  | SrcReserved byte
  | DstReserved byte
  | SrcNotMaster frame_type byte address_class
  | DstNotSlave byte address_class
  | DstNotMaster byte address_class
  | DstNotBroadcast byte address_class
  | UnsupportedFrameType byte

definition ValidateFrameAddressing :: "frame_type \<Rightarrow> byte \<Rightarrow> byte \<Rightarrow> address_reject option" where
  "ValidateFrameAddressing ft src dst =
     (if ft = FrameTypeUnknown then Some FrameTypeUnknownReject
      else if src = dst then Some (SelfAddressed src)
      else let srcClass = AddressClassOf src; dstClass = AddressClassOf dst in
      if srcClass = AddressClassReserved then Some (SrcReserved src)
      else if dstClass = AddressClassReserved then Some (DstReserved dst)
      else (case ft of
          FrameTypeInitiatorTarget \<Rightarrow>
            if srcClass \<noteq> AddressClassMaster then Some (SrcNotMaster ft src srcClass)
            else if dstClass \<noteq> AddressClassSlave then Some (DstNotSlave dst dstClass)
            else None
        | FrameTypeInitiatorInitiator \<Rightarrow>
            if srcClass \<noteq> AddressClassMaster then Some (SrcNotMaster ft src srcClass)
            else if dstClass \<noteq> AddressClassMaster then Some (DstNotMaster dst dstClass)
            else None
        | FrameTypeBroadcast \<Rightarrow>
            if srcClass \<noteq> AddressClassMaster then Some (SrcNotMaster ft src srcClass)
            else if dstClass \<noteq> AddressClassBroadcast then Some (DstNotBroadcast dst dstClass)
            else None
        | FrameTypeOther n \<Rightarrow> Some (UnsupportedFrameType n)
        | FrameTypeUnknown \<Rightarrow> Some FrameTypeUnknownReject))"

definition Frame_Validate :: "frame \<Rightarrow> address_reject option" where
  "Frame_Validate f = ValidateFrameAddressing (EffectiveFrameType f) (Source f) (Target f)"

section \<open>The tables against the address arithmetic\<close>

text \<open>The class of an address by its nibbles, without the table.\<close>

definition class_by_nibbles :: "byte \<Rightarrow> address_class" where
  "class_by_nibbles addr =
     (if \<not> isValidAddress addr then AddressClassReserved
      else if addr = AddressBroadcast then AddressClassBroadcast
      else if IsInitiatorCapableAddress addr then AddressClassMaster
      else AddressClassSlave)"

text \<open>The companion by adding or subtracting five, without the table.\<close>

definition companion_by_arithmetic :: "byte \<Rightarrow> byte option" where
  "companion_by_arithmetic addr =
     (if IsInitiatorCapableAddress addr then Some (addr + 5)
      else if IsInitiatorCapableAddress (addr - 5) then Some (addr - 5)
      else None)"

lemma addressClassTable_nibbles: "addressClassTable = map class_by_nibbles all_bytes"
  by code_simp

lemma AddressClassOf_nibbles: "AddressClassOf addr = class_by_nibbles addr"
  by (simp add: AddressClassOf_def addressClassTable_nibbles)

definition companion_alist :: "(byte \<times> byte) list" where
  "companion_alist = rev (map (\<lambda>row. (row_Source row, row_Companion row)) sourceAddressTableV1)"

definition source_alist :: "(byte \<times> byte) list" where
  "source_alist = rev (map (\<lambda>row. (row_Companion row, row_Source row)) sourceAddressTableV1)"

lemma companion_alist_code [code]:
  "companion_alist =
    [(0xFF, 0x04), (0x7F, 0x84), (0x3F, 0x44), (0x1F, 0x24), (0x0F, 0x14), (0xF7, 0xFC), (0x77,
     0x7C), (0x37, 0x3C), (0x17, 0x1C), (0x07, 0x0C), (0xF3, 0xF8), (0x73, 0x78), (0x33, 0x38),
     (0x13, 0x18), (0x03, 0x08), (0xF1, 0xF6), (0x71, 0x76), (0x31, 0x36), (0x11, 0x16), (0x01,
     0x06), (0xF0, 0xF5), (0x70, 0x75), (0x30, 0x35), (0x10, 0x15), (0x00, 0x05)]"
  unfolding companion_alist_def sourceAddressTableV1_def by simp

lemma source_alist_code [code]:
  "source_alist =
    [(0x04, 0xFF), (0x84, 0x7F), (0x44, 0x3F), (0x24, 0x1F), (0x14, 0x0F), (0xFC, 0xF7), (0x7C,
     0x77), (0x3C, 0x37), (0x1C, 0x17), (0x0C, 0x07), (0xF8, 0xF3), (0x78, 0x73), (0x38, 0x33),
     (0x18, 0x13), (0x08, 0x03), (0xF6, 0xF1), (0x76, 0x71), (0x36, 0x31), (0x16, 0x11), (0x06,
     0x01), (0xF5, 0xF0), (0x75, 0x70), (0x35, 0x30), (0x15, 0x10), (0x05, 0x00)]"
  unfolding source_alist_def sourceAddressTableV1_def by simp

definition plus_five :: "byte \<Rightarrow> byte option" where
  "plus_five a = (if IsInitiatorCapableAddress a then Some (a + 5) else None)"

definition minus_five :: "byte \<Rightarrow> byte option" where
  "minus_five a = (if IsInitiatorCapableAddress (a - 5) then Some (a - 5) else None)"

lemma companion_table: "alist_table companion_alist = map plus_five all_bytes"
  by code_simp

lemma source_table: "alist_table source_alist = map minus_five all_bytes"
  by code_simp

lemma CompanionOfSource_arithmetic: "CompanionOfSource a = plus_five a"
  by (simp add: CompanionOfSource_def canonicalSourceToCompanion_def foldl_map_upd
      companion_alist_def [symmetric] map_of_alist_table companion_table)

lemma SourceOfCompanion_arithmetic: "SourceOfCompanion a = minus_five a"
  by (simp add: SourceOfCompanion_def canonicalCompanionToSource_def foldl_map_upd
      source_alist_def [symmetric] map_of_alist_table source_table)

lemma Companion_arithmetic: "Companion addr = companion_by_arithmetic addr"
  by (simp add: Companion_def companion_by_arithmetic_def CompanionOfSource_arithmetic
      SourceOfCompanion_arithmetic plus_five_def minus_five_def)

definition companion_involutive_at :: "byte \<Rightarrow> bool" where
  "companion_involutive_at a =
     (case companion_by_arithmetic a of None \<Rightarrow> True
      | Some b \<Rightarrow> companion_by_arithmetic b = Some a \<and>
          (class_by_nibbles a = AddressClassMaster \<and> class_by_nibbles b = AddressClassSlave \<or>
           class_by_nibbles a = AddressClassSlave \<and> class_by_nibbles b = AddressClassMaster))"

lemma companion_involutive_everywhere: "list_all companion_involutive_at all_bytes"
  by code_simp

lemma companion_involutive: "companion_involutive_at a"
  using companion_involutive_everywhere by (simp add: list_all_iff)

lemma class_by_nibbles_cases:
  "class_by_nibbles a = AddressClassReserved \<longleftrightarrow> \<not> isValidAddress a"
  "class_by_nibbles a = AddressClassBroadcast \<longleftrightarrow> a = AddressBroadcast"
  by (auto simp: class_by_nibbles_def isValidAddress_def symbol_defs)

lemma broadcast_not_initiator: "\<not> IsInitiatorCapableAddress AddressBroadcast"
  by (simp add: IsInitiatorCapableAddress_def symbol_defs initiatorPartIndex_def)

lemma reserved_not_initiator: "IsInitiatorCapableAddress a \<Longrightarrow> isValidAddress a"
  by (auto simp: IsInitiatorCapableAddress_def isValidAddress_def symbol_defs initiatorPartIndex_def)

lemma not_initiator [simp]:
  "\<not> IsInitiatorCapableAddress 0xA9" "\<not> IsInitiatorCapableAddress 0xAA"
  "\<not> IsInitiatorCapableAddress 0xFE"
  by (simp_all add: IsInitiatorCapableAddress_def initiatorPartIndex_def)

lemma class_master_iff: "class_by_nibbles a = AddressClassMaster \<longleftrightarrow> IsInitiatorCapableAddress a"
  using broadcast_not_initiator reserved_not_initiator by (auto simp: class_by_nibbles_def)

lemma class_slave_iff: "class_by_nibbles a = AddressClassSlave \<longleftrightarrow>
    isValidAddress a \<and> a \<noteq> AddressBroadcast \<and> \<not> IsInitiatorCapableAddress a"
  by (auto simp: class_by_nibbles_def)

lemma FrameTypeForTarget_class:
  "FrameTypeForTarget t =
     (case class_by_nibbles t of AddressClassReserved \<Rightarrow> FrameTypeUnknown
      | AddressClassMaster \<Rightarrow> FrameTypeInitiatorInitiator
      | AddressClassSlave \<Rightarrow> FrameTypeInitiatorTarget
      | AddressClassBroadcast \<Rightarrow> FrameTypeBroadcast)"
  by (auto simp: FrameTypeForTarget_def class_by_nibbles_def isValidAddress_def symbol_defs)

section \<open>Properties\<close>

text \<open>
  the 256-entry class table built at start-up agrees with the nibble arithmetic on every
  byte, and splits the address space into 25 master, 228 slave, 1 broadcast and 2 reserved
  addresses.
\<close>

theorem address_class_partition:
  "AddressClassOf = class_by_nibbles \<and>
   count_list addressClassTable AddressClassMaster = 25 \<and>
   count_list addressClassTable AddressClassSlave = 228 \<and>
   count_list addressClassTable AddressClassBroadcast = 1 \<and>
   count_list addressClassTable AddressClassReserved = 2"
proof (intro conjI)
  show "AddressClassOf = class_by_nibbles"
    by (rule ext) (rule AddressClassOf_nibbles)
qed (code_simp+)

text \<open>
  the companion lookup equals the plus/minus five arithmetic of the previous
  implementation on every byte, is its own inverse, and always pairs a master address with a
  slave address.
\<close>

theorem companion_pairs:
  "Companion a = companion_by_arithmetic a \<and>
   (Companion a = Some b \<longrightarrow>
      Companion b = Some a \<and>
      {AddressClassOf a, AddressClassOf b} = {AddressClassMaster, AddressClassSlave})"
proof -
  have "companion_involutive_at a" by (rule companion_involutive)
  then show ?thesis
    by (auto simp: companion_involutive_at_def Companion_arithmetic AddressClassOf_nibbles
        split: option.splits)
qed

theorem companion_pairs_witness:
  "Companion 0xFF = Some 0x04 \<and> Companion 0x04 = Some 0xFF"
proof -
  have "Companion 0xFF = Some 0x04" unfolding Companion_arithmetic by code_simp
  then show ?thesis using companion_pairs [of "0xFF" "0x04"] by simp
qed

text \<open>
  C35: a frame passes the addressing contract exactly when its source is initiator capable,
  it does not address itself, and its effective frame type is the one its destination class
  calls for: a slave for initiator-target, a master for initiator-initiator, 0xFE for
  broadcast.
\<close>

theorem Validate_accepts_iff:
  "Frame_Validate f = None \<longleftrightarrow>
     IsInitiatorCapableAddress (Source f) \<and> Source f \<noteq> Target f \<and>
     (EffectiveFrameType f = FrameTypeInitiatorTarget \<and> AddressClassOf (Target f) = AddressClassSlave \<or>
      EffectiveFrameType f = FrameTypeInitiatorInitiator \<and> IsInitiatorCapableAddress (Target f) \<or>
      EffectiveFrameType f = FrameTypeBroadcast \<and> Target f = AddressBroadcast)"
  by (cases "EffectiveFrameType f")
    (auto simp: Frame_Validate_def ValidateFrameAddressing_def Let_def AddressClassOf_nibbles
      class_master_iff class_by_nibbles_cases class_slave_iff isValidAddress_def symbol_defs)

text \<open>
  A frame that leaves its frame type open is checked against the type derived from its
  target, which never disagrees with the target's class: it is rejected only for a source that
  is not initiator capable, a reserved target or self-addressing.
\<close>

theorem Validate_derived_type:
  assumes "FrameType f = FrameTypeUnknown"
  shows "Frame_Validate f = None \<longleftrightarrow>
    IsInitiatorCapableAddress (Source f) \<and> isValidAddress (Target f) \<and> Source f \<noteq> Target f"
proof -
  have "EffectiveFrameType f = FrameTypeForTarget (Target f)"
    using assms by (simp add: EffectiveFrameType_def)
  then show ?thesis
    unfolding Frame_Validate_def ValidateFrameAddressing_def
    by (cases "class_by_nibbles (Target f)")
      (auto simp: Let_def AddressClassOf_nibbles FrameTypeForTarget_class class_master_iff
        class_by_nibbles_cases reserved_not_initiator class_slave_iff isValidAddress_def symbol_defs)
qed

theorem Validate_derived_type_witness:
  "Frame_Validate \<lparr>Source = 0x31, Target = 0x08, Primary = 0xB5, Secondary = 0x09,
     Data = [0x24], FrameType = FrameTypeUnknown\<rparr> = None"
  using Validate_derived_type
    [of "\<lparr>Source = 0x31, Target = 0x08, Primary = 0xB5, Secondary = 0x09,
          Data = [0x24], FrameType = FrameTypeUnknown\<rparr>"]
  by (simp add: IsInitiatorCapableAddress_def initiatorPartIndex_def isValidAddress_def symbol_defs)

end
