(* ===== verification/Telegram_Fsm.thy ===== *)
theory Telegram_Fsm
  imports Addressing
begin

text \<open>
  The per-telegram phase machine of \<open>protocol/telegram_fsm/fsm.go\<close>: its states, the decision
  for every byte, one definition per \<open>feed\<close> handler, and the event-driven entries.
\<close>

section \<open>States and decisions\<close>

datatype telegram_state =
    StateIdle | StateArbitrating | StateMasterHeader | StateMasterData | StateMasterCRC
  | StateWaitMasterAck | StateMasterRetx | StateSlaveLength | StateSlaveData | StateSlaveCRC
  | StateWaitSlaveAck | StateSlaveRetx | StateWaitTerminatorSyn | StateAborted
  | StatePassiveTracking

fun State_String :: "telegram_state \<Rightarrow> string" where
  "State_String StateIdle = ''IDLE''"
| "State_String StateArbitrating = ''ARBITRATING''"
| "State_String StateMasterHeader = ''MASTER_HEADER''"
| "State_String StateMasterData = ''MASTER_DATA''"
| "State_String StateMasterCRC = ''MASTER_CRC''"
| "State_String StateWaitMasterAck = ''WAIT_MASTER_ACK''"
| "State_String StateMasterRetx = ''MASTER_RETX''"
| "State_String StateSlaveLength = ''SLAVE_LENGTH''"
| "State_String StateSlaveData = ''SLAVE_DATA''"
| "State_String StateSlaveCRC = ''SLAVE_CRC''"
| "State_String StateWaitSlaveAck = ''WAIT_SLAVE_ACK''"
| "State_String StateSlaveRetx = ''SLAVE_RETX''"
| "State_String StateWaitTerminatorSyn = ''WAIT_TERMINATOR_SYN''"
| "State_String StateAborted = ''ABORTED''"
| "State_String StatePassiveTracking = ''PASSIVE_TRACKING''"

definition IsTerminal :: "telegram_state \<Rightarrow> bool" where
  "IsTerminal s \<longleftrightarrow> s = StateAborted"

datatype decision = DecisionForward | DecisionDropAaInjection | DecisionProtocolFault

fun Decision_String :: "decision \<Rightarrow> string" where
  "Decision_String DecisionForward = ''forward''"
| "Decision_String DecisionDropAaInjection = ''drop_aa_injection''"
| "Decision_String DecisionProtocolFault = ''protocol_fault''"

section \<open>The machine\<close>

record machine =
  m_state :: telegram_state
  masterNN :: byte
  masterBytesConsumed :: byte
  masterDest :: byte
  masterRetxCount :: byte
  slaveNN :: byte
  slaveRetxCount :: byte
  m_passive :: bool

definition MaxRetxPerPhase :: byte where "MaxRetxPerPhase = 1"
definition BroadcastDestination :: byte where "BroadcastDestination = 0xFE"
definition ACKByte :: byte where "ACKByte = 0x00"
definition NACKByte :: byte where "NACKByte = 0xFF"
definition SynByte :: byte where "SynByte = 0xAA"

definition NewMachine :: machine where
  "NewMachine = \<lparr>m_state = StateIdle, masterNN = 0, masterBytesConsumed = 0, masterDest = 0,
     masterRetxCount = 0, slaveNN = 0, slaveRetxCount = 0, m_passive = False\<rparr>"

definition Machine_State :: "machine \<Rightarrow> telegram_state" where
  "Machine_State m =
     (if m_passive m \<and> m_state m \<noteq> StateIdle \<and> \<not> IsTerminal (m_state m)
      then StatePassiveTracking else m_state m)"

definition InternalState :: "machine \<Rightarrow> telegram_state" where
  "InternalState m = m_state m"

definition IsPassive :: "machine \<Rightarrow> bool" where
  "IsPassive m = m_passive m"

definition ResetToIdle :: "machine \<Rightarrow> machine" where
  "ResetToIdle m = m\<lparr>m_state := StateIdle, masterNN := 0, masterBytesConsumed := 0,
     masterDest := 0, masterRetxCount := 0, slaveNN := 0, slaveRetxCount := 0, m_passive := False\<rparr>"

definition EnterArbitrating :: "machine \<Rightarrow> machine" where
  "EnterArbitrating m = m\<lparr>m_state := StateArbitrating, m_passive := False\<rparr>"

definition EnterPassiveTracking :: "machine \<Rightarrow> machine" where
  "EnterPassiveTracking m = m\<lparr>m_state := StateMasterHeader, masterBytesConsumed := 1,
     masterNN := 0, masterDest := 0, masterRetxCount := 0, slaveNN := 0, slaveRetxCount := 0,
     m_passive := True\<rparr>"

section \<open>The handlers\<close>

type_synonym feed_result = "machine \<times> decision"

definition feedIdle :: "machine \<Rightarrow> byte \<Rightarrow> bool \<Rightarrow> feed_result" where
  "feedIdle m b wasEscaped = (m, DecisionForward)"

definition transitionAfterArbitrating :: "machine \<Rightarrow> byte \<Rightarrow> machine" where
  "transitionAfterArbitrating m b = m\<lparr>m_state := StateMasterHeader, masterBytesConsumed := 1\<rparr>"

definition feedArbitrating :: "machine \<Rightarrow> byte \<Rightarrow> bool \<Rightarrow> feed_result" where
  "feedArbitrating m b wasEscaped =
     (if b = SynByte \<and> \<not> wasEscaped then (m, DecisionDropAaInjection)
      else (transitionAfterArbitrating m b, DecisionForward))"

text \<open>The tail of \<open>feedMasterHeader\<close>: count the byte and leave the header after the fifth one.\<close>

definition header_advance :: "machine \<Rightarrow> machine" where
  "header_advance m =
     (let m' = m\<lparr>masterBytesConsumed := masterBytesConsumed m + 1\<rparr> in
      if masterBytesConsumed m' \<ge> 5 then
        (if masterNN m' = 0
         then m'\<lparr>m_state := StateMasterCRC, masterBytesConsumed := 0\<rparr>
         else m'\<lparr>m_state := StateMasterData, masterBytesConsumed := 0\<rparr>)
      else m')"

definition feedMasterHeader :: "machine \<Rightarrow> byte \<Rightarrow> bool \<Rightarrow> feed_result" where
  "feedMasterHeader m b wasEscaped =
     (if b = SynByte \<and> \<not> wasEscaped then (m, DecisionDropAaInjection)
      else if masterBytesConsumed m = 1 then (header_advance (m\<lparr>masterDest := b\<rparr>), DecisionForward)
      else if masterBytesConsumed m = 4 then
        (if b > 16 then (m\<lparr>masterNN := b, m_state := StateAborted\<rparr>, DecisionProtocolFault)
         else (header_advance (m\<lparr>masterNN := b\<rparr>), DecisionForward))
      else (header_advance m, DecisionForward))"

definition feedMasterData :: "machine \<Rightarrow> byte \<Rightarrow> bool \<Rightarrow> feed_result" where
  "feedMasterData m b wasEscaped =
     (if b = SynByte \<and> \<not> wasEscaped then (m, DecisionDropAaInjection)
      else let m' = m\<lparr>masterBytesConsumed := masterBytesConsumed m + 1\<rparr> in
        (if masterBytesConsumed m' \<ge> masterNN m'
         then m'\<lparr>m_state := StateMasterCRC, masterBytesConsumed := 0\<rparr> else m', DecisionForward))"

definition feedMasterCRC :: "machine \<Rightarrow> byte \<Rightarrow> bool \<Rightarrow> feed_result" where
  "feedMasterCRC m b wasEscaped =
     (if b = SynByte \<and> \<not> wasEscaped then (m, DecisionDropAaInjection)
      else (if masterDest m = BroadcastDestination
            then m\<lparr>m_state := StateWaitTerminatorSyn\<rparr>
            else m\<lparr>m_state := StateWaitMasterAck\<rparr>, DecisionForward))"

definition feedWaitMasterAck :: "machine \<Rightarrow> byte \<Rightarrow> bool \<Rightarrow> feed_result" where
  "feedWaitMasterAck m b wasEscaped =
     (if b = SynByte \<and> \<not> wasEscaped then (m, DecisionDropAaInjection)
      else if b = ACKByte
        then (m\<lparr>m_state := StateSlaveLength, masterBytesConsumed := 0\<rparr>, DecisionForward)
      else if b = NACKByte then
        (if masterRetxCount m < MaxRetxPerPhase
         then (m\<lparr>masterRetxCount := masterRetxCount m + 1, m_state := StateMasterRetx\<rparr>, DecisionForward)
         else (m\<lparr>m_state := StateAborted\<rparr>, DecisionForward))
      else (m\<lparr>m_state := StateAborted\<rparr>, DecisionProtocolFault))"

definition feedMasterRetx :: "machine \<Rightarrow> byte \<Rightarrow> bool \<Rightarrow> feed_result" where
  "feedMasterRetx m b wasEscaped =
     (if b = SynByte \<and> \<not> wasEscaped then (m, DecisionDropAaInjection)
      else (m\<lparr>m_state := StateMasterHeader, masterBytesConsumed := 1, masterNN := 0,
              masterDest := 0\<rparr>, DecisionForward))"

definition feedSlaveLength :: "machine \<Rightarrow> byte \<Rightarrow> bool \<Rightarrow> feed_result" where
  "feedSlaveLength m b wasEscaped =
     (if b = SynByte \<and> \<not> wasEscaped then (m, DecisionDropAaInjection)
      else if b > 16 then (m\<lparr>m_state := StateAborted\<rparr>, DecisionProtocolFault)
      else let m' = m\<lparr>slaveNN := b\<rparr> in
        (if b = 0 then m'\<lparr>m_state := StateSlaveCRC, masterBytesConsumed := 0\<rparr>
         else m'\<lparr>m_state := StateSlaveData, masterBytesConsumed := 0\<rparr>, DecisionForward))"

definition feedSlaveData :: "machine \<Rightarrow> byte \<Rightarrow> bool \<Rightarrow> feed_result" where
  "feedSlaveData m b wasEscaped =
     (if b = SynByte \<and> \<not> wasEscaped then (m, DecisionDropAaInjection)
      else let m' = m\<lparr>masterBytesConsumed := masterBytesConsumed m + 1\<rparr> in
        (if masterBytesConsumed m' \<ge> slaveNN m'
         then m'\<lparr>m_state := StateSlaveCRC, masterBytesConsumed := 0\<rparr> else m', DecisionForward))"

definition feedSlaveCRC :: "machine \<Rightarrow> byte \<Rightarrow> bool \<Rightarrow> feed_result" where
  "feedSlaveCRC m b wasEscaped =
     (if b = SynByte \<and> \<not> wasEscaped then (m, DecisionDropAaInjection)
      else (m\<lparr>m_state := StateWaitSlaveAck\<rparr>, DecisionForward))"

definition feedWaitSlaveAck :: "machine \<Rightarrow> byte \<Rightarrow> bool \<Rightarrow> feed_result" where
  "feedWaitSlaveAck m b wasEscaped =
     (if b = SynByte \<and> \<not> wasEscaped then (m, DecisionDropAaInjection)
      else if b = ACKByte then (m\<lparr>m_state := StateWaitTerminatorSyn\<rparr>, DecisionForward)
      else if b = NACKByte then
        (if slaveRetxCount m < MaxRetxPerPhase
         then (m\<lparr>slaveRetxCount := slaveRetxCount m + 1, m_state := StateSlaveRetx\<rparr>, DecisionForward)
         else (m\<lparr>m_state := StateAborted\<rparr>, DecisionForward))
      else (m\<lparr>m_state := StateAborted\<rparr>, DecisionProtocolFault))"

definition feedSlaveRetx :: "machine \<Rightarrow> byte \<Rightarrow> bool \<Rightarrow> feed_result" where
  "feedSlaveRetx m b wasEscaped =
     (if b = SynByte \<and> \<not> wasEscaped then (m, DecisionDropAaInjection)
      else if b > 16 then (m\<lparr>m_state := StateAborted\<rparr>, DecisionProtocolFault)
      else let m' = m\<lparr>slaveNN := b\<rparr>;
               m'' = (if b = 0 then m'\<lparr>m_state := StateSlaveCRC\<rparr> else m'\<lparr>m_state := StateSlaveData\<rparr>)
           in (m''\<lparr>masterBytesConsumed := 0\<rparr>, DecisionForward))"

definition feedWaitTerminatorSyn :: "machine \<Rightarrow> byte \<Rightarrow> bool \<Rightarrow> feed_result" where
  "feedWaitTerminatorSyn m b wasEscaped =
     (if b = SynByte \<and> \<not> wasEscaped then (ResetToIdle m, DecisionForward)
      else (m\<lparr>m_state := StateAborted\<rparr>, DecisionProtocolFault))"

definition Machine_Feed :: "machine \<Rightarrow> byte \<Rightarrow> bool \<Rightarrow> feed_result" where
  "Machine_Feed m b wasEscaped =
     (case m_state m of
        StateIdle \<Rightarrow> feedIdle m b wasEscaped
      | StateArbitrating \<Rightarrow> feedArbitrating m b wasEscaped
      | StateMasterHeader \<Rightarrow> feedMasterHeader m b wasEscaped
      | StateMasterData \<Rightarrow> feedMasterData m b wasEscaped
      | StateMasterCRC \<Rightarrow> feedMasterCRC m b wasEscaped
      | StateWaitMasterAck \<Rightarrow> feedWaitMasterAck m b wasEscaped
      | StateMasterRetx \<Rightarrow> feedMasterRetx m b wasEscaped
      | StateSlaveLength \<Rightarrow> feedSlaveLength m b wasEscaped
      | StateSlaveData \<Rightarrow> feedSlaveData m b wasEscaped
      | StateSlaveCRC \<Rightarrow> feedSlaveCRC m b wasEscaped
      | StateWaitSlaveAck \<Rightarrow> feedWaitSlaveAck m b wasEscaped
      | StateSlaveRetx \<Rightarrow> feedSlaveRetx m b wasEscaped
      | StateWaitTerminatorSyn \<Rightarrow> feedWaitTerminatorSyn m b wasEscaped
      | StateAborted \<Rightarrow> (m, DecisionProtocolFault)
      | StatePassiveTracking \<Rightarrow> (m, DecisionProtocolFault))"

lemmas telegram_handlers [machine_simps] =
  Machine_Feed_def feedIdle_def feedArbitrating_def transitionAfterArbitrating_def
  feedMasterHeader_def header_advance_def feedMasterData_def feedMasterCRC_def
  feedWaitMasterAck_def feedMasterRetx_def feedSlaveLength_def feedSlaveData_def
  feedSlaveCRC_def feedWaitSlaveAck_def feedSlaveRetx_def feedWaitTerminatorSyn_def Let_def

lemmas telegram_consts [machine_simps] =
  MaxRetxPerPhase_def BroadcastDestination_def ACKByte_def NACKByte_def SynByte_def

text \<open>Everything a caller can do to a machine, as one event type.\<close>

datatype machine_event = FeedByte byte bool | Arbitrate | TrackPassive | ResetEvent

fun machine_step :: "machine \<Rightarrow> machine_event \<Rightarrow> machine \<times> decision option" where
  "machine_step m (FeedByte b e) = (case Machine_Feed m b e of (m', d) \<Rightarrow> (m', Some d))"
| "machine_step m Arbitrate = (EnterArbitrating m, None)"
| "machine_step m TrackPassive = (EnterPassiveTracking m, None)"
| "machine_step m ResetEvent = (ResetToIdle m, None)"

section \<open>Invariant\<close>

text \<open>
  Counters stay within their phase: at most one retransmission of each side, one to four
  header bytes counted inside the header, fewer data bytes than announced inside a data
  phase, announced lengths of at most 16, and nothing remembered in the idle state.
\<close>

definition machine_inv :: "machine \<Rightarrow> bool" where
  "machine_inv m \<longleftrightarrow>
     m_state m \<noteq> StatePassiveTracking \<and>
     masterRetxCount m \<le> 1 \<and> slaveRetxCount m \<le> 1 \<and> slaveNN m \<le> 16 \<and>
     (m_state m = StateIdle \<longrightarrow> m = NewMachine) \<and>
     (m_state m = StateMasterHeader \<longrightarrow>
        1 \<le> masterBytesConsumed m \<and> masterBytesConsumed m \<le> 4) \<and>
     (m_state m = StateMasterData \<longrightarrow>
        masterBytesConsumed m < masterNN m \<and> masterNN m \<le> 16) \<and>
     (m_state m = StateSlaveData \<longrightarrow> masterBytesConsumed m < slaveNN m) \<and>
     (m_state m = StateMasterRetx \<longrightarrow> masterRetxCount m = 1) \<and>
     (m_state m = StateSlaveRetx \<longrightarrow> slaveRetxCount m = 1)"

lemma header_counts: "1 \<le> c \<and> c \<le> 4 \<longleftrightarrow> c = 1 \<or> c = 2 \<or> c = 3 \<or> c = (4 :: byte)"
proof -
  have "list_all (\<lambda>c. (1 \<le> c \<and> c \<le> 4) = (c = 1 \<or> c = 2 \<or> c = 3 \<or> c = (4 :: byte))) all_bytes"
    by code_simp
  then show ?thesis by (simp add: list_all_iff)
qed

lemma byte_less_one [simp]: "(c :: byte) < 1 \<longleftrightarrow> c = 0"
  by (simp add: word_less_nat_alt unat_eq_0)

lemma byte_le_one: "(c :: byte) \<le> 1 \<longleftrightarrow> c = 0 \<or> c = 1"
proof -
  have "list_all (\<lambda>c. (c \<le> 1) = (c = 0 \<or> c = (1 :: byte))) all_bytes" by code_simp
  then show ?thesis by (simp add: list_all_iff)
qed

lemma byte_gt_zero: "(0 :: byte) < c \<longleftrightarrow> c \<noteq> 0"
  by (auto simp: word_gt_0)

lemma machine_inv_Feed:
  assumes "machine_inv m"
  shows "machine_inv (fst (Machine_Feed m b e))"
proof (cases "m_state m")
  case StateMasterHeader
  then have "masterBytesConsumed m = 1 \<or> masterBytesConsumed m = 2 \<or>
      masterBytesConsumed m = 3 \<or> masterBytesConsumed m = 4"
    using assms by (auto simp: machine_inv_def header_counts)
  with StateMasterHeader assms show ?thesis
    by (elim disjE) (auto simp: machine_inv_def machine_simps byte_gt_zero not_less)
qed (use assms in \<open>auto simp: machine_inv_def machine_simps ResetToIdle_def NewMachine_def
      byte_gt_zero not_less not_le byte_le_one\<close>)

lemma machine_inv_step: "machine_inv m \<Longrightarrow> machine_inv (fst (machine_step m ev))"
proof (cases ev)
  case (FeedByte b e)
  then show "machine_inv m \<Longrightarrow> ?thesis"
    using machine_inv_Feed [of m b e] by (cases "Machine_Feed m b e") simp
qed (auto simp: machine_inv_def EnterArbitrating_def EnterPassiveTracking_def ResetToIdle_def
    NewMachine_def)

interpretation telegram_machine: invariant_machine machine_step NewMachine machine_inv
proof unfold_locales
  show "machine_inv NewMachine" by (simp add: machine_inv_def NewMachine_def)
qed (rule machine_inv_step)

section \<open>How many bytes a telegram can take\<close>

text \<open>
  An upper bound of the bytes, injected 0xAA aside, that the machine still accepts before the
  telegram ends: the rest of the current phase, the retransmissions that are left, the whole
  response phase and the terminator.
\<close>

definition slave_retx_left :: "machine \<Rightarrow> nat" where
  "slave_retx_left m = (if slaveRetxCount m = 0 then 19 else 0)"

definition master_retx_left :: "machine \<Rightarrow> nat" where
  "master_retx_left m = (if masterRetxCount m = 0 then 23 else 0)"

definition telegram_budget :: "machine \<Rightarrow> nat" where
  "telegram_budget m =
     (let resp = 20 + slave_retx_left m; req = master_retx_left m + resp in
      case m_state m of
        StateIdle \<Rightarrow> 0
      | StateAborted \<Rightarrow> 0
      | StatePassiveTracking \<Rightarrow> 0
      | StateWaitTerminatorSyn \<Rightarrow> 1
      | StateWaitSlaveAck \<Rightarrow> 2 + slave_retx_left m
      | StateSlaveCRC \<Rightarrow> 3 + slave_retx_left m
      | StateSlaveData \<Rightarrow> 3 + (unat (slaveNN m) - unat (masterBytesConsumed m)) + slave_retx_left m
      | StateSlaveLength \<Rightarrow> resp
      | StateSlaveRetx \<Rightarrow> resp
      | StateWaitMasterAck \<Rightarrow> 1 + req
      | StateMasterCRC \<Rightarrow> 2 + req
      | StateMasterData \<Rightarrow> 2 + (unat (masterNN m) - unat (masterBytesConsumed m)) + req
      | StateMasterHeader \<Rightarrow> 18 + (5 - unat (masterBytesConsumed m)) + req
      | StateMasterRetx \<Rightarrow> 23 + req
      | StateArbitrating \<Rightarrow> 23 + req)"

definition in_telegram :: "machine \<Rightarrow> bool" where
  "in_telegram m \<longleftrightarrow> m_state m \<noteq> StateIdle \<and> m_state m \<noteq> StateAborted"

lemmas budget_defs = telegram_budget_def slave_retx_left_def master_retx_left_def Let_def

lemma unat_le16: "n \<le> (16 :: byte) \<Longrightarrow> unat n \<le> 16"
  by (simp add: word_le_nat_alt)

lemma count_next:
  fixes c n :: byte
  assumes "unat c + Suc k = unat n"
  shows "unat (c + 1) = unat c + 1 \<and> (n \<le> c + 1 \<longleftrightarrow> k = 0)"
proof -
  have "unat c + 1 < 256" using assms unat_byte_less [of n] by linarith
  then have "unat (c + 1) = unat c + 1" by (simp add: unat_word_ariths)
  then show ?thesis using assms by (auto simp: word_le_nat_alt)
qed

lemma count_step:
  fixes c n :: byte
  assumes "c < n"
  shows "unat n - unat (c + 1) < unat n - unat c"
proof -
  have "unat c < unat n" using assms by (simp add: word_less_nat_alt)
  then have "unat c + Suc (unat n - unat c - 1) = unat n" by simp
  from count_next [OF this] show ?thesis using \<open>unat c < unat n\<close> by simp
qed

lemma budget_decreases:
  assumes "machine_inv m" and "in_telegram m"
    and "Machine_Feed m b e = (m', d)" and "d \<noteq> DecisionDropAaInjection"
  shows "telegram_budget m' < telegram_budget m"
proof (cases "m_state m")
  case StateMasterHeader
  then have "masterBytesConsumed m = 1 \<or> masterBytesConsumed m = 2 \<or>
      masterBytesConsumed m = 3 \<or> masterBytesConsumed m = 4"
    using assms by (auto simp: machine_inv_def header_counts)
  with StateMasterHeader assms show ?thesis
    by (elim disjE)
      (auto simp: machine_simps budget_defs not_less dest!: unat_le16 split: if_splits)
next
  case StateMasterData
  then show ?thesis
    using assms count_step [of "masterBytesConsumed m" "masterNN m"]
    by (auto simp: machine_simps budget_defs machine_inv_def word_less_nat_alt split: if_splits)
next
  case StateSlaveData
  then show ?thesis
    using assms count_step [of "masterBytesConsumed m" "slaveNN m"]
    by (auto simp: machine_simps budget_defs machine_inv_def word_less_nat_alt split: if_splits)
qed (use assms in \<open>auto simp: machine_simps budget_defs machine_inv_def in_telegram_def
      ResetToIdle_def not_less dest!: unat_le16 split: if_splits\<close>)

section \<open>Injected 0xAA bytes are invisible\<close>

abbreviation telegram_step :: "machine \<Rightarrow> byte \<times> bool \<Rightarrow> machine \<times> decision" where
  "telegram_step m p \<equiv> Machine_Feed m (fst p) (snd p)"

definition raw_syn :: "byte \<times> bool \<Rightarrow> bool" where
  "raw_syn p \<longleftrightarrow> fst p = SynByte \<and> \<not> snd p"

text \<open>The phases in which a raw 0xAA is an injection.\<close>

definition filtering :: "machine \<Rightarrow> bool" where
  "filtering m \<longleftrightarrow> m_state m \<notin>
     {StateIdle, StateWaitTerminatorSyn, StateAborted, StatePassiveTracking}"

lemma raw_syn_dropped:
  "filtering m \<Longrightarrow> raw_syn p \<Longrightarrow> telegram_step m p = (m, DecisionDropAaInjection)"
  by (cases "m_state m") (auto simp: machine_simps filtering_def raw_syn_def)

lemma drop_only_raw_syn:
  "telegram_step m p = (m', DecisionDropAaInjection) \<Longrightarrow> filtering m \<and> raw_syn p \<and> m' = m"
  by (cases "m_state m") (auto simp: machine_simps filtering_def raw_syn_def split: if_splits)

text \<open>A run whose states all filter injections and whose bytes are all forwarded.\<close>

fun clean_run :: "machine \<Rightarrow> (byte \<times> bool) list \<Rightarrow> bool" where
  "clean_run m [] \<longleftrightarrow> filtering m"
| "clean_run m (p # ps) \<longleftrightarrow>
     filtering m \<and> snd (telegram_step m p) = DecisionForward \<and> clean_run (fst (telegram_step m p)) ps"

lemma clean_run_append:
  "clean_run m (xs @ ys) \<longleftrightarrow> clean_run m xs \<and> clean_run (run_state telegram_step m xs) ys"
  by (induction xs arbitrary: m) (auto, cases ys, auto)

definition forwarded :: "(byte \<times> bool) list \<Rightarrow> decision list \<Rightarrow> (byte \<times> bool) list" where
  "forwarded ps ds = map fst (filter (\<lambda>x. snd x = DecisionForward) (zip ps ds))"

lemma injection_transparent:
  "clean_run m (filter (\<lambda>p. \<not> raw_syn p) ws) \<Longrightarrow>
   run_state telegram_step m ws = run_state telegram_step m (filter (\<lambda>p. \<not> raw_syn p) ws) \<and>
   forwarded ws (run_out telegram_step m ws) = filter (\<lambda>p. \<not> raw_syn p) ws"
proof (induction ws arbitrary: m)
  case Nil
  then show ?case by (simp add: forwarded_def)
next
  case (Cons p ws)
  show ?case
  proof (cases "raw_syn p")
    case True
    have "filtering m"
      using Cons.prems True by (cases "filter (\<lambda>p. \<not> raw_syn p) ws") auto
    then have "telegram_step m p = (m, DecisionDropAaInjection)"
      using True by (rule raw_syn_dropped)
    with Cons True show ?thesis by (simp add: forwarded_def)
  next
    case False
    with Cons show ?thesis by (simp add: forwarded_def)
  qed
qed

section \<open>A well-formed telegram\<close>

lemma clean_master_data:
  "m_state m = StateMasterData \<Longrightarrow> ps \<noteq> [] \<Longrightarrow> list_all (\<lambda>p. \<not> raw_syn p) ps \<Longrightarrow>
   unat (masterBytesConsumed m) + length ps = unat (masterNN m) \<Longrightarrow>
   clean_run m ps \<and>
   run_state telegram_step m ps = m\<lparr>m_state := StateMasterCRC, masterBytesConsumed := 0\<rparr>"
proof (induction ps arbitrary: m)
  case Nil
  then show ?case by simp
next
  case (Cons p ps)
  let ?c = "masterBytesConsumed m" and ?n = "masterNN m"
  have c1: "unat (?c + 1) = unat ?c + 1" and ge: "?n \<le> ?c + 1 \<longleftrightarrow> ps = []"
    using Cons.prems(4) count_next [of ?c "length ps" ?n] by auto
  show ?case
  proof (cases "ps = []")
    case True
    with Cons.prems ge show ?thesis by (auto simp: machine_simps raw_syn_def filtering_def)
  next
    case False
    let ?m = "m\<lparr>masterBytesConsumed := ?c + 1\<rparr>"
    have "clean_run ?m ps \<and>
        run_state telegram_step ?m ps = ?m\<lparr>m_state := StateMasterCRC, masterBytesConsumed := 0\<rparr>"
      using False Cons.prems c1 by (intro Cons.IH) auto
    moreover have "telegram_step m p = (?m, DecisionForward)"
      using False ge Cons.prems by (auto simp: machine_simps raw_syn_def)
    ultimately show ?thesis using Cons.prems by (simp add: filtering_def)
  qed
qed

lemma clean_slave_data:
  "m_state m = StateSlaveData \<Longrightarrow> ps \<noteq> [] \<Longrightarrow> list_all (\<lambda>p. \<not> raw_syn p) ps \<Longrightarrow>
   unat (masterBytesConsumed m) + length ps = unat (slaveNN m) \<Longrightarrow>
   clean_run m ps \<and>
   run_state telegram_step m ps = m\<lparr>m_state := StateSlaveCRC, masterBytesConsumed := 0\<rparr>"
proof (induction ps arbitrary: m)
  case Nil
  then show ?case by simp
next
  case (Cons p ps)
  let ?c = "masterBytesConsumed m" and ?n = "slaveNN m"
  have c1: "unat (?c + 1) = unat ?c + 1" and ge: "?n \<le> ?c + 1 \<longleftrightarrow> ps = []"
    using Cons.prems(4) count_next [of ?c "length ps" ?n] by auto
  show ?case
  proof (cases "ps = []")
    case True
    with Cons.prems ge show ?thesis by (auto simp: machine_simps raw_syn_def filtering_def)
  next
    case False
    let ?m = "m\<lparr>masterBytesConsumed := ?c + 1\<rparr>"
    have "clean_run ?m ps \<and>
        run_state telegram_step ?m ps = ?m\<lparr>m_state := StateSlaveCRC, masterBytesConsumed := 0\<rparr>"
      using False Cons.prems c1 by (intro Cons.IH) auto
    moreover have "telegram_step m p = (?m, DecisionForward)"
      using False ge Cons.prems by (auto simp: machine_simps raw_syn_def)
    ultimately show ?thesis using Cons.prems by (simp add: filtering_def)
  qed
qed

text \<open>
  The bytes of an initiator-target telegram up to the target's CRC, as the machine sees them
  between the arbitration and the initiator's final acknowledge.
\<close>

definition telegram_body ::
    "byte \<Rightarrow> byte \<Rightarrow> byte \<Rightarrow> byte \<Rightarrow> byte list \<Rightarrow> byte \<Rightarrow> byte list \<Rightarrow> byte \<Rightarrow> byte list" where
  "telegram_body QQ ZZ PB SB D crc R crc' =
     [QQ, ZZ, PB, SB, byte_of_nat (length D)] @ D @ [crc, ACKByte] @
     byte_of_nat (length R) # R @ [crc']"

lemma small_length: "length D \<le> 16 \<Longrightarrow>
    unat (byte_of_nat (length D)) = length D \<and> \<not> byte_of_nat (length D) > 16 \<and>
    (byte_of_nat (length D) = 0 \<longleftrightarrow> D = [])"
  by (auto simp: word_less_nat_alt not_less unat_eq_0 [symmetric] simp flip: unat_eq_0)

lemma header_step:
  "m_state m = StateMasterHeader \<Longrightarrow> \<not> raw_syn p \<Longrightarrow> masterBytesConsumed m = 1 \<Longrightarrow>
     telegram_step m p = (m\<lparr>masterDest := fst p, masterBytesConsumed := 2\<rparr>, DecisionForward)"
  "m_state m = StateMasterHeader \<Longrightarrow> \<not> raw_syn p \<Longrightarrow> masterBytesConsumed m = 2 \<Longrightarrow>
     telegram_step m p = (m\<lparr>masterBytesConsumed := 3\<rparr>, DecisionForward)"
  "m_state m = StateMasterHeader \<Longrightarrow> \<not> raw_syn p \<Longrightarrow> masterBytesConsumed m = 3 \<Longrightarrow>
     telegram_step m p = (m\<lparr>masterBytesConsumed := 4\<rparr>, DecisionForward)"
  "m_state m = StateMasterHeader \<Longrightarrow> \<not> raw_syn p \<Longrightarrow> masterBytesConsumed m = 4 \<Longrightarrow> \<not> fst p > 16 \<Longrightarrow>
     telegram_step m p =
       (m\<lparr>m_state := (if fst p = 0 then StateMasterCRC else StateMasterData),
          masterNN := fst p, masterBytesConsumed := 0\<rparr>, DecisionForward)"
  by (auto simp: machine_simps raw_syn_def)

lemma arbitrating_step:
  "m_state m = StateArbitrating \<Longrightarrow> \<not> raw_syn p \<Longrightarrow>
   telegram_step m p = (m\<lparr>m_state := StateMasterHeader, masterBytesConsumed := 1\<rparr>, DecisionForward)"
  by (auto simp: machine_simps raw_syn_def)

lemma clean_header:
  assumes "m_state m = StateArbitrating" and "list_all (\<lambda>p. \<not> raw_syn p) [q, z, pb, sb, n]"
    and "\<not> fst n > 16"
  shows "clean_run m [q, z, pb, sb, n] \<and>
    run_state telegram_step m [q, z, pb, sb, n] =
      m\<lparr>m_state := (if fst n = 0 then StateMasterCRC else StateMasterData),
        masterDest := fst z, masterNN := fst n, masterBytesConsumed := 0\<rparr>"
  using assms by (simp add: arbitrating_step header_step filtering_def)

lemma clean_request:
  assumes "m_state m = StateArbitrating" and "list_all (\<lambda>p. \<not> raw_syn p) ([q, z, pb, sb, n] @ D)"
    and "fst n = byte_of_nat (length D)" and "length D \<le> 16"
  shows "clean_run m ([q, z, pb, sb, n] @ D) \<and>
    run_state telegram_step m ([q, z, pb, sb, n] @ D) =
      m\<lparr>m_state := StateMasterCRC, masterDest := fst z, masterNN := fst n, masterBytesConsumed := 0\<rparr>"
proof -
  have len: "unat (fst n) = length D" "\<not> fst n > 16" "fst n = 0 \<longleftrightarrow> D = []"
    using small_length [OF assms(4)] assms(3) by auto
  have "clean_run m [q, z, pb, sb, n]"
    "run_state telegram_step m [q, z, pb, sb, n] =
      m\<lparr>m_state := (if fst n = 0 then StateMasterCRC else StateMasterData),
        masterDest := fst z, masterNN := fst n, masterBytesConsumed := 0\<rparr>" (is "_ = ?m")
    using clean_header [of m q z pb sb n] assms len by auto
  moreover have "clean_run ?m D \<and> run_state telegram_step ?m D =
      m\<lparr>m_state := StateMasterCRC, masterDest := fst z, masterNN := fst n, masterBytesConsumed := 0\<rparr>"
  proof (cases "D = []")
    case True
    then show ?thesis using len by (simp add: filtering_def)
  next
    case False
    then show ?thesis
      using clean_master_data [of ?m D] assms(2) len by simp
  qed
  ultimately show ?thesis by (simp only: clean_run_append run_state_append)
qed

lemma clean_crc_ack:
  assumes "m_state m = StateMasterCRC" and "masterDest m \<noteq> BroadcastDestination"
    and "list_all (\<lambda>p. \<not> raw_syn p) [c, a]" and "fst a = ACKByte"
  shows "clean_run m [c, a] \<and>
    run_state telegram_step m [c, a] = m\<lparr>m_state := StateSlaveLength, masterBytesConsumed := 0\<rparr>"
  using assms by (auto simp: machine_simps raw_syn_def filtering_def)

lemma clean_response:
  assumes "m_state m = StateSlaveLength" and "list_all (\<lambda>p. \<not> raw_syn p) (n # R @ [c])"
    and "fst n = byte_of_nat (length R)" and "length R \<le> 16"
  shows "clean_run m (n # R @ [c]) \<and>
    run_state telegram_step m (n # R @ [c]) =
      m\<lparr>m_state := StateWaitSlaveAck, slaveNN := fst n, masterBytesConsumed := 0\<rparr>"
proof -
  have len: "unat (fst n) = length R" "\<not> fst n > 16" "fst n = 0 \<longleftrightarrow> R = []"
    using small_length [OF assms(4)] assms(3) by auto
  let ?m = "m\<lparr>m_state := (if fst n = 0 then StateSlaveCRC else StateSlaveData),
      slaveNN := fst n, masterBytesConsumed := 0\<rparr>"
  let ?m' = "m\<lparr>m_state := StateSlaveCRC, slaveNN := fst n, masterBytesConsumed := 0\<rparr>"
  have "clean_run m [n] \<and> run_state telegram_step m [n] = ?m"
    using assms len by (auto simp: machine_simps raw_syn_def filtering_def)
  moreover have "clean_run ?m R \<and> run_state telegram_step ?m R = ?m'"
  proof (cases "R = []")
    case True
    then show ?thesis using len by (simp add: filtering_def)
  next
    case False
    then show ?thesis using clean_slave_data [of ?m R] assms(2) len by simp
  qed
  moreover have "clean_run ?m' [c] \<and> run_state telegram_step ?m' [c] =
      m\<lparr>m_state := StateWaitSlaveAck, slaveNN := fst n, masterBytesConsumed := 0\<rparr>"
    using assms by (auto simp: machine_simps raw_syn_def filtering_def)
  ultimately have "clean_run m ([n] @ R @ [c]) \<and> run_state telegram_step m ([n] @ R @ [c]) =
      m\<lparr>m_state := StateWaitSlaveAck, slaveNN := fst n, masterBytesConsumed := 0\<rparr>"
    by (simp only: clean_run_append run_state_append)
  then show ?thesis by simp
qed

lemma clean_body:
  assumes "m_state m = StateArbitrating" and "list_all (\<lambda>p. \<not> raw_syn p) ps"
    and "map fst ps = telegram_body QQ ZZ PB SB D crc R crc'"
    and "length D \<le> 16" and "length R \<le> 16" and "ZZ \<noteq> BroadcastDestination"
  shows "clean_run m ps \<and> m_state (run_state telegram_step m ps) = StateWaitSlaveAck"
proof -
  obtain q z pb sb n D' c a n' R' c' where
    ps: "ps = ([q, z, pb, sb, n] @ D') @ [c, a] @ n' # R' @ [c']"
    and parts: "fst z = ZZ" "fst n = byte_of_nat (length D)" "map fst D' = D" "fst a = ACKByte"
      "fst n' = byte_of_nat (length R)" "map fst R' = R"
    using assms(3) unfolding telegram_body_def
    by (auto simp: map_eq_append_conv map_eq_Cons_conv append_eq_map_conv Cons_eq_map_conv)
  have lens: "length D' = length D" "length R' = length R" using parts by auto
  let ?m = "m\<lparr>m_state := StateMasterCRC, masterDest := fst z, masterNN := fst n, masterBytesConsumed := 0\<rparr>"
  let ?m' = "?m\<lparr>m_state := StateSlaveLength, masterBytesConsumed := 0\<rparr>"
  have "clean_run m ([q, z, pb, sb, n] @ D') \<and> run_state telegram_step m ([q, z, pb, sb, n] @ D') = ?m"
    using assms ps parts lens by (intro clean_request) auto
  moreover have "clean_run ?m [c, a] \<and> run_state telegram_step ?m [c, a] = ?m'"
    using assms ps parts by (intro clean_crc_ack) auto
  moreover have "clean_run ?m' (n' # R' @ [c']) \<and> run_state telegram_step ?m' (n' # R' @ [c']) =
      ?m'\<lparr>m_state := StateWaitSlaveAck, slaveNN := fst n', masterBytesConsumed := 0\<rparr>"
    using assms ps parts lens by (intro clean_response) auto
  ultimately show ?thesis
    unfolding ps clean_run_append run_state_append by simp
qed

section \<open>Properties\<close>

text \<open>
  C31: whatever sequence of bytes, arbitration grants, passive entries and resets a caller
  produces, each side retransmits at most once per telegram, no announced length above 16 is
  ever counted against, data phases never run past their announced length, and the idle state
  remembers nothing.
\<close>

theorem telegram_invariant: "machine_inv (run_state machine_step NewMachine evs)"
  by (rule telegram_machine.inv_reachable)

text \<open>
  C25: a telegram cannot go on for ever.  From any reachable state, once the machine has been
  fed 85 bytes that are not raw 0xAA, it has been idle or aborted at some point.
\<close>

theorem telegram_bounded:
  assumes "length (filter (\<lambda>p. \<not> raw_syn p) ws) \<ge> 85"
  shows "\<exists>k \<le> length ws.
    \<not> in_telegram (run_state telegram_step (run_state machine_step NewMachine evs) (take k ws))"
proof -
  have "machine_inv m \<Longrightarrow> telegram_budget m \<le> length (filter (\<lambda>p. \<not> raw_syn p) ws) \<Longrightarrow>
      \<exists>k \<le> length ws. \<not> in_telegram (run_state telegram_step m (take k ws))" for m
  proof (induction ws arbitrary: m)
    case Nil
    then show ?case
      by (cases "m_state m") (auto simp: in_telegram_def budget_defs machine_inv_def)
  next
    case (Cons p ws)
    let ?m = "fst (telegram_step m p)"
    show ?case
    proof (cases "in_telegram m")
      case False
      then show ?thesis by (intro exI [of _ 0]) simp
    next
      case True
      have "telegram_budget ?m \<le> length (filter (\<lambda>p. \<not> raw_syn p) ws)"
      proof (cases "snd (telegram_step m p) = DecisionDropAaInjection")
        case drop: True
        then have "raw_syn p" "?m = m"
          using drop_only_raw_syn [of m p ?m] by (auto simp: prod_eq_iff)
        with Cons.prems show ?thesis by simp
      next
        case False
        then have "telegram_budget ?m < telegram_budget m"
          using budget_decreases [OF Cons.prems(1) True, of "fst p" "snd p" ?m] by (simp add: prod_eq_iff)
        with Cons.prems show ?thesis by (simp split: if_splits)
      qed
      moreover have "machine_inv ?m" using Cons.prems(1) by (rule machine_inv_Feed)
      ultimately obtain k where "k \<le> length ws"
        "\<not> in_telegram (run_state telegram_step ?m (take k ws))"
        using Cons.IH by blast
      then show ?thesis by (intro exI [of _ "Suc k"]) simp
    qed
  qed
  moreover have "machine_inv (run_state machine_step NewMachine evs)"
    by (rule telegram_machine.inv_reachable)
  moreover have "telegram_budget m \<le> 85" if "machine_inv m" for m
  proof -
    have "unat (slaveNN m) \<le> 16" using that by (auto simp: machine_inv_def unat_le16)
    then show ?thesis using that
      by (cases "m_state m") (auto simp: budget_defs machine_inv_def dest: unat_le16)
  qed
  ultimately show ?thesis using assms by (meson order_trans)
qed

theorem telegram_bounded_witness:
  "\<exists>k \<le> 85. \<not> in_telegram
     (run_state telegram_step (run_state machine_step NewMachine [Arbitrate]) (take k (replicate 85 (0x10, False))))"
  using telegram_bounded [of "replicate 85 (0x10, False)" "[Arbitrate]"]
  by (simp add: raw_syn_def SynByte_def)

text \<open>
  C22: an initiator-target telegram with at most 16 request and 16 response bytes is followed
  to its end whatever raw 0xAA bytes the adapter injects into it: exactly the injected bytes
  are dropped, every telegram byte is forwarded, and the final acknowledge and the terminator
  SYN bring the machine back to its initial state.
\<close>

theorem telegram_with_injections:
  assumes "map fst (filter (\<lambda>p. \<not> raw_syn p) ws) = telegram_body QQ ZZ PB SB D crc R crc'"
    and "length D \<le> 16" and "length R \<le> 16" and "ZZ \<noteq> BroadcastDestination"
  shows "let r = run_machine telegram_step (EnterArbitrating NewMachine) ws in
    forwarded ws (snd r) = filter (\<lambda>p. \<not> raw_syn p) ws \<and>
    run_machine telegram_step (fst r) [(ACKByte, False), (SynByte, False)] =
      (NewMachine, [DecisionForward, DecisionForward])"
proof -
  let ?m = "EnterArbitrating NewMachine"
  have arb: "m_state ?m = StateArbitrating" by (simp add: EnterArbitrating_def)
  have "list_all (\<lambda>p. \<not> raw_syn p) (filter (\<lambda>p. \<not> raw_syn p) ws)" by (simp add: list_all_iff)
  note body = clean_body [OF arb this assms]
  note skip = injection_transparent [OF body [THEN conjunct1]]
  have "m_state (run_state telegram_step ?m ws) = StateWaitSlaveAck"
    using body skip by simp
  then have "run_machine telegram_step (run_state telegram_step ?m ws) [(ACKByte, False), (SynByte, False)]
      = (NewMachine, [DecisionForward, DecisionForward])"
    by (simp add: prod_eq_iff machine_simps ResetToIdle_def NewMachine_def)
  then show ?thesis using skip by (simp add: Let_def)
qed

definition sample_telegram :: "(byte \<times> bool) list" where
  "sample_telegram = map (\<lambda>b. (b, False))
     [0x31, 0xAA, 0x08, 0xB5, 0x09, 0xAA, 0xAA, 0x01, 0x24, 0x5C, 0x00, 0x01, 0xAA, 0x77, 0x3A]"

theorem telegram_with_injections_witness:
  "fst (run_machine telegram_step
     (fst (run_machine telegram_step (EnterArbitrating NewMachine) sample_telegram))
     [(ACKByte, False), (SynByte, False)]) = NewMachine"
proof -
  have "map fst (filter (\<lambda>p. \<not> raw_syn p) sample_telegram)
      = telegram_body 0x31 0x08 0xB5 0x09 [0x24] 0x5C [0x77] 0x3A"
    by (simp add: sample_telegram_def raw_syn_def SynByte_def telegram_body_def ACKByte_def)
  from telegram_with_injections [OF this] show ?thesis
    by (simp add: BroadcastDestination_def Let_def)
qed

end
