(* ===== verification/Crc8.thy ===== *)
theory Crc8
  imports Ebus_Prelude
begin

text \<open>
  The table-driven eBUS CRC-8 of \<open>internal/crc/crc.go\<close>, shown equal to the bitwise remainder
  modulo the polynomial x^8 + x^7 + x^4 + x^3 + x + 1 (0x9B), and its error detection.
\<close>

section \<open>The lookup table and the update\<close>

definition lookupTable :: "byte list" where
  "lookupTable =
    [0x00, 0x9b, 0xad, 0x36, 0xc1, 0x5a, 0x6c, 0xf7, 0x19, 0x82, 0xb4, 0x2f, 0xd8, 0x43, 0x75, 0xee,
     0x32, 0xa9, 0x9f, 0x04, 0xf3, 0x68, 0x5e, 0xc5, 0x2b, 0xb0, 0x86, 0x1d, 0xea, 0x71, 0x47, 0xdc,
     0x64, 0xff, 0xc9, 0x52, 0xa5, 0x3e, 0x08, 0x93, 0x7d, 0xe6, 0xd0, 0x4b, 0xbc, 0x27, 0x11, 0x8a,
     0x56, 0xcd, 0xfb, 0x60, 0x97, 0x0c, 0x3a, 0xa1, 0x4f, 0xd4, 0xe2, 0x79, 0x8e, 0x15, 0x23, 0xb8,
     0xc8, 0x53, 0x65, 0xfe, 0x09, 0x92, 0xa4, 0x3f, 0xd1, 0x4a, 0x7c, 0xe7, 0x10, 0x8b, 0xbd, 0x26,
     0xfa, 0x61, 0x57, 0xcc, 0x3b, 0xa0, 0x96, 0x0d, 0xe3, 0x78, 0x4e, 0xd5, 0x22, 0xb9, 0x8f, 0x14,
     0xac, 0x37, 0x01, 0x9a, 0x6d, 0xf6, 0xc0, 0x5b, 0xb5, 0x2e, 0x18, 0x83, 0x74, 0xef, 0xd9, 0x42,
     0x9e, 0x05, 0x33, 0xa8, 0x5f, 0xc4, 0xf2, 0x69, 0x87, 0x1c, 0x2a, 0xb1, 0x46, 0xdd, 0xeb, 0x70,
     0x0b, 0x90, 0xa6, 0x3d, 0xca, 0x51, 0x67, 0xfc, 0x12, 0x89, 0xbf, 0x24, 0xd3, 0x48, 0x7e, 0xe5,
     0x39, 0xa2, 0x94, 0x0f, 0xf8, 0x63, 0x55, 0xce, 0x20, 0xbb, 0x8d, 0x16, 0xe1, 0x7a, 0x4c, 0xd7,
     0x6f, 0xf4, 0xc2, 0x59, 0xae, 0x35, 0x03, 0x98, 0x76, 0xed, 0xdb, 0x40, 0xb7, 0x2c, 0x1a, 0x81,
     0x5d, 0xc6, 0xf0, 0x6b, 0x9c, 0x07, 0x31, 0xaa, 0x44, 0xdf, 0xe9, 0x72, 0x85, 0x1e, 0x28, 0xb3,
     0xc3, 0x58, 0x6e, 0xf5, 0x02, 0x99, 0xaf, 0x34, 0xda, 0x41, 0x77, 0xec, 0x1b, 0x80, 0xb6, 0x2d,
     0xf1, 0x6a, 0x5c, 0xc7, 0x30, 0xab, 0x9d, 0x06, 0xe8, 0x73, 0x45, 0xde, 0x29, 0xb2, 0x84, 0x1f,
     0xa7, 0x3c, 0x0a, 0x91, 0x66, 0xfd, 0xcb, 0x50, 0xbe, 0x25, 0x13, 0x88, 0x7f, 0xe4, 0xd2, 0x49,
     0x95, 0x0e, 0x38, 0xa3, 0x54, 0xcf, 0xf9, 0x62, 0x8c, 0x17, 0x21, 0xba, 0x4d, 0xd6, 0xe0, 0x7b]"

text \<open>The table has 256 entries, so indexing it by a byte never fails.\<close>

definition table_at :: "byte \<Rightarrow> byte" where
  "table_at i = lookupTable ! unat i"

definition Update :: "byte \<Rightarrow> byte \<Rightarrow> byte" where
  "Update crc value = table_at crc XOR value"

definition Sum :: "byte list \<Rightarrow> byte" where
  "Sum data = foldl Update 0 data"

section \<open>The bitwise reference\<close>

text \<open>
  One step of the shift register of the generator polynomial: the register is shifted left
  and reduced by 0x9B when the bit of weight x^7 leaves it, then the next message bit enters.
\<close>

definition shift_reg :: "byte \<Rightarrow> byte" where
  "shift_reg r = (if bit r 7 then push_bit 1 r XOR 0x9B else push_bit 1 r)"

definition poly_bit :: "byte \<Rightarrow> bool \<Rightarrow> byte" where
  "poly_bit r b = shift_reg r XOR (if b then 1 else 0)"

definition bits_msb :: "byte \<Rightarrow> bool list" where
  "bits_msb v = map (bit v) [7, 6, 5, 4, 3, 2, 1, 0]"

definition poly_remainder :: "byte list \<Rightarrow> byte" where
  "poly_remainder data = foldl poly_bit 0 (concat (map bits_msb data))"

section \<open>Lemmas on the shift register\<close>

lemma shift_reg_xor: "shift_reg (a XOR b) = shift_reg a XOR shift_reg b"
proof -
  have "push_bit 1 (a XOR b) = push_bit 1 a XOR push_bit 1 b"
    by (rule push_bit_xor)
  then show ?thesis
    by (simp add: shift_reg_def bit_xor_iff xor.assoc xor.left_commute xor.commute)
qed

lemma shift_reg_0 [simp]: "shift_reg 0 = 0"
  by (simp add: shift_reg_def)

lemma funpow_shift_reg_xor:
  "(shift_reg ^^ n) (a XOR b) = (shift_reg ^^ n) a XOR (shift_reg ^^ n) b"
  by (induction n) (simp_all add: shift_reg_xor)

lemma foldl_poly_bit:
  "foldl poly_bit c bs = (shift_reg ^^ length bs) c XOR foldl poly_bit 0 bs"
proof (induction bs rule: rev_induct)
  case Nil
  then show ?case by simp
next
  case (snoc b bs)
  have "foldl poly_bit c (bs @ [b])
      = shift_reg ((shift_reg ^^ length bs) c XOR foldl poly_bit 0 bs) XOR (if b then 1 else 0)"
    by (simp only: foldl_append foldl.simps snoc.IH) (simp only: poly_bit_def)
  also have "\<dots> = (shift_reg ^^ length (bs @ [b])) c XOR foldl poly_bit 0 (bs @ [b])"
    by (simp add: shift_reg_xor xor.assoc poly_bit_def [of "foldl poly_bit 0 bs"])
  finally show ?case .
qed

text \<open>Eight steps of the register, written out, for evaluation.\<close>

definition shift8 :: "byte \<Rightarrow> byte" where
  "shift8 c = shift_reg (shift_reg (shift_reg (shift_reg
     (shift_reg (shift_reg (shift_reg (shift_reg c)))))))"

lemma shift8_funpow: "shift8 c = (shift_reg ^^ 8) c"
  by (simp add: shift8_def numeral_eq_Suc)

lemma lookupTable_shift8: "lookupTable = map shift8 all_bytes"
  by code_simp

definition value_of_bits :: "byte \<Rightarrow> byte" where
  "value_of_bits v = foldl poly_bit 0 (bits_msb v)"

lemma map_value_of_bits: "map value_of_bits all_bytes = all_bytes"
  by code_simp

lemma bits_msb_value: "foldl poly_bit 0 (bits_msb v) = v"
proof -
  have "value_of_bits v = v"
    using map_value_of_bits by (metis UNIV_I map_eq_conv map_ident set_all_bytes)
  then show ?thesis by (simp add: value_of_bits_def)
qed

lemma length_bits_msb [simp]: "length (bits_msb v) = 8"
  by (simp add: bits_msb_def)

lemma table_at_eq: "table_at c = (shift_reg ^^ 8) c"
proof -
  have "all_bytes ! unat c = c" and "unat c < length all_bytes"
    by (simp_all add: all_bytes_def)
  then show ?thesis
    by (simp add: table_at_def lookupTable_shift8 shift8_funpow)
qed

lemma Update_poly: "Update c v = foldl poly_bit c (bits_msb v)"
  by (simp only: Update_def table_at_eq foldl_poly_bit [of c] length_bits_msb
      bits_msb_value)

section \<open>Interface: a linear, invertible checksum step\<close>

text \<open>
  What error detection needs of a checksum step: the new value is a linear, injective image
  of the old one, exclusive-or the new symbol.
\<close>

locale xor_checksum =
  fixes upd :: "byte \<Rightarrow> byte \<Rightarrow> byte"
    and adv :: "byte \<Rightarrow> byte"
  assumes upd_split: "upd c v = adv c XOR v"
    and adv_xor: "adv (a XOR b) = adv a XOR adv b"
    and adv_inj: "adv a = adv b \<Longrightarrow> a = b"
begin

lemma xor_cancel_right: "(a XOR v = b XOR v) \<longleftrightarrow> a = (b :: byte)"
  by (metis xor.assoc xor.right_neutral xor_self_eq)

lemma xor_cancel_left: "(v XOR a = v XOR b) \<longleftrightarrow> a = (b :: byte)"
  by (metis xor.assoc xor.left_neutral xor_self_eq)

lemma upd_inj_state: "upd c v = upd d v \<Longrightarrow> c = d"
  by (simp add: upd_split xor_cancel_right adv_inj)

lemma upd_inj_symbol: "upd c v = upd c w \<Longrightarrow> v = w"
  by (simp add: upd_split xor_cancel_left)

lemma foldl_upd_inj: "foldl upd c xs = foldl upd d xs \<Longrightarrow> c = d"
  by (induction xs arbitrary: c d) (auto dest: upd_inj_state)

lemma single_symbol_detected:
  "v \<noteq> w \<Longrightarrow> foldl upd c (xs @ v # ys) \<noteq> foldl upd c (xs @ w # ys)"
  by (auto dest: foldl_upd_inj upd_inj_symbol)

lemma foldl_upd_linear:
  "length xs = length ys \<Longrightarrow>
   foldl upd (c XOR d) (map2 (XOR) xs ys) = foldl upd c xs XOR foldl upd d ys"
proof (induction xs ys arbitrary: c d rule: list_induct2)
  case Nil
  then show ?case by simp
next
  case (Cons x xs y ys)
  have "upd (c XOR d) (x XOR y) = upd c x XOR upd d y"
    by (simp add: upd_split adv_xor xor.assoc xor.left_commute)
  then show ?case using Cons.IH by simp
qed

end

lemma shift_reg_kernel: "\<forall>r. shift_reg r = 0 \<longrightarrow> r = 0"
  unfolding byte_exhaustive by code_simp

lemma shift_reg_inj: "shift_reg a = shift_reg b \<Longrightarrow> a = b"
proof -
  assume "shift_reg a = shift_reg b"
  then have "shift_reg (a XOR b) = 0" by (simp add: shift_reg_xor)
  then have "a XOR b = 0" using shift_reg_kernel by blast
  then show "a = b" by (metis xor.assoc xor.left_neutral xor.right_neutral xor_self_eq)
qed

lemma funpow_shift_reg_inj: "(shift_reg ^^ n) a = (shift_reg ^^ n) b \<Longrightarrow> a = b"
  by (induction n) (auto dest: shift_reg_inj)

interpretation ebus_crc: xor_checksum Update table_at
proof unfold_locales
  show "Update c v = table_at c XOR v" for c v by (simp add: Update_def)
  show "table_at (a XOR b) = table_at a XOR table_at b" for a b
    by (simp only: table_at_eq funpow_shift_reg_xor)
  show "a = b" if "table_at a = table_at b" for a b
    using that by (simp only: table_at_eq) (rule funpow_shift_reg_inj)
qed

section \<open>Properties\<close>

text \<open>
  C3: the table-driven checksum of \<open>crc.Sum\<close> is the remainder of the message polynomial, taken
  bit by bit, modulo the eBUS generator polynomial 0x9B.
\<close>

theorem Sum_is_poly_remainder: "Sum data = poly_remainder data"
proof -
  have "foldl Update c data = foldl poly_bit c (concat (map bits_msb data))" for c
    by (induction data arbitrary: c) (simp_all add: Update_poly)
  then show ?thesis by (simp add: Sum_def poly_remainder_def)
qed

text \<open>
  corrupting a single byte of a message, whatever the position and the two values, changes
  its CRC-8.
\<close>

theorem Sum_detects_single_byte:
  assumes "v \<noteq> w"
  shows "Sum (xs @ v # ys) \<noteq> Sum (xs @ w # ys)"
  unfolding Sum_def using assms by (rule ebus_crc.single_symbol_detected)

theorem Sum_detects_single_byte_witness:
  "(0x10 :: byte) \<noteq> 0x11 \<and> Sum ([0x31] @ 0x10 # [0x07]) \<noteq> Sum ([0x31] @ 0x11 # [0x07])"
  using Sum_detects_single_byte [of "0x10" "0x11" "[0x31]" "[0x07]"] by simp

end
