(* ===== verification/Wire_Escape.thy ===== *)
theory Wire_Escape
  imports Crc8 Addressing
begin

text \<open>
  Byte stuffing on the wire.  Sender side: the CRC over logical bytes (\<open>protocol.CRC\<close>),
  \<open>EscapeBytes\<close> and \<open>EncodeSlaveResponse\<close> (\<open>protocol/slave_encode.go\<close>).  Receiver side: the
  stateful \<open>EbusEscapeDecoder\<close> of \<open>transport/ebus_escape.go\<close> with its absorption of injected
  0xAA bytes and its wall-clock cap.
\<close>

section \<open>Sender side\<close>

definition crc_symbol :: "byte \<Rightarrow> byte \<Rightarrow> byte" where
  "crc_symbol value b =
     (if b = SymbolEscape then Update (Update value SymbolEscape) 0x00
      else if b = SymbolSyn then Update (Update value SymbolEscape) 0x01
      else Update value b)"

definition CRC :: "byte list \<Rightarrow> byte" where
  "CRC data = foldl crc_symbol 0 data"

definition escape_symbol :: "byte \<Rightarrow> byte list" where
  "escape_symbol b =
     (if b = SymbolEscape then [SymbolEscape, 0x00]
      else if b = SymbolSyn then [SymbolEscape, 0x01]
      else [b])"

definition EscapeBytes :: "byte list \<Rightarrow> byte list" where
  "EscapeBytes raw = foldl (\<lambda>escaped b. escaped @ escape_symbol b) [] raw"

definition EncodeSlaveResponse :: "byte list \<Rightarrow> byte list result" where
  "EncodeSlaveResponse data =
     (if length data > 255
      then Inl (Wrap ''target response data length exceeds 255: '' (Sentinel ErrInvalidPayload) [])
      else let segment = byte_of_nat (length data) # data;
               segment' = segment @ [CRC segment]
           in Inr (EscapeBytes segment'))"

section \<open>Receiver side: the escape decoder\<close>

text \<open>
  A \<open>time.Time\<close> is its distance from the zero time in nanoseconds, so the zero time is 0;
  \<open>Sub\<close> saturates at the bounds of \<open>int64\<close>.
\<close>

type_synonym go_time = int

definition time_sub :: "go_time \<Rightarrow> go_time \<Rightarrow> int" where
  "time_sub a b = max (- (2 ^ 63)) (min (2 ^ 63 - 1) (a - b))"

definition MaxAaAbsorptionsPerEscapePair :: int where
  "MaxAaAbsorptionsPerEscapePair = 8"

definition EscapePendingTimeout :: int where
  "EscapePendingTimeout = 32 * 1000000"

datatype admin_event_kind =
    AdminEventNone | AdminEventEscapePendingTimeout
  | AdminEventEscapeRecovery | AdminEventEscapeBudgetExhausted

fun AdminEventKind_String :: "admin_event_kind \<Rightarrow> string" where
  "AdminEventKind_String AdminEventNone = ''none''"
| "AdminEventKind_String AdminEventEscapePendingTimeout = ''escape_pending_timeout''"
| "AdminEventKind_String AdminEventEscapeRecovery = ''escape_decoder_recovery''"
| "AdminEventKind_String AdminEventEscapeBudgetExhausted = ''escape_budget_exhausted''"

record admin_event =
  ae_Kind :: admin_event_kind
  ae_Duration :: int
  ae_Absorbed :: int

definition no_admin :: admin_event where
  "no_admin = \<lparr>ae_Kind = AdminEventNone, ae_Duration = 0, ae_Absorbed = 0\<rparr>"

record escape_decoder =
  escape :: bool
  leadObservedAt :: go_time
  absorbedCount :: int

definition escape_normal :: escape_decoder where
  "escape_normal = \<lparr>escape = False, leadObservedAt = 0, absorbedCount = 0\<rparr>"

text \<open>What one \<open>Feed\<close> returns: the decoded byte, \<open>ok\<close>, \<open>wasEscaped\<close> and the admin event.\<close>

type_synonym feed_out = "byte \<times> bool \<times> bool \<times> admin_event"

definition feedNormal :: "escape_decoder \<Rightarrow> byte \<Rightarrow> go_time \<Rightarrow> escape_decoder \<times> feed_out" where
  "feedNormal d raw now =
     (if raw = 0xA9
      then (d\<lparr>escape := True, leadObservedAt := now, absorbedCount := 0\<rparr>, (0, False, False, no_admin))
      else (d, (raw, True, False, no_admin)))"

definition pending_elapsed :: "escape_decoder \<Rightarrow> go_time \<Rightarrow> int" where
  "pending_elapsed d now = (if leadObservedAt d \<noteq> 0 then time_sub now (leadObservedAt d) else 0)"

definition clear_pending :: "escape_decoder \<Rightarrow> escape_decoder" where
  "clear_pending d = d\<lparr>escape := False, leadObservedAt := 0, absorbedCount := 0\<rparr>"

definition feedPending :: "escape_decoder \<Rightarrow> byte \<Rightarrow> go_time \<Rightarrow> escape_decoder \<times> feed_out" where
  "feedPending d raw now =
     (if leadObservedAt d \<noteq> 0 \<and> time_sub now (leadObservedAt d) > EscapePendingTimeout
      then (case feedNormal (clear_pending d) raw now of (d', decoded, ok, wasEscaped, _) \<Rightarrow>
              (d', (decoded, ok, wasEscaped,
                \<lparr>ae_Kind = AdminEventEscapePendingTimeout,
                 ae_Duration = time_sub now (leadObservedAt d), ae_Absorbed = absorbedCount d\<rparr>)))
      else if raw = 0x01 then (clear_pending d, (0xAA, True, True, no_admin))
      else if raw = 0x00 then (clear_pending d, (0xA9, True, True, no_admin))
      else if raw = 0xAA then
        (if absorbedCount d < MaxAaAbsorptionsPerEscapePair
         then (d\<lparr>absorbedCount := absorbedCount d + 1\<rparr>, (0, False, False, no_admin))
         else (clear_pending d, (0, False, False,
           \<lparr>ae_Kind = AdminEventEscapeBudgetExhausted,
            ae_Duration = pending_elapsed d now, ae_Absorbed = absorbedCount d\<rparr>)))
      else (clear_pending d, (0, False, False,
        \<lparr>ae_Kind = AdminEventEscapeRecovery,
         ae_Duration = pending_elapsed d now, ae_Absorbed = absorbedCount d\<rparr>)))"

definition Feed :: "escape_decoder \<Rightarrow> byte \<times> go_time \<Rightarrow> escape_decoder \<times> feed_out" where
  "Feed d inp =
     (case inp of (raw, now) \<Rightarrow> if escape d then feedPending d raw now else feedNormal d raw now)"

definition Push :: "escape_decoder \<Rightarrow> byte \<Rightarrow> escape_decoder \<times> (byte \<times> bool \<times> bool) result" where
  "Push d raw =
     (case Feed d (raw, 0) of (d', decoded, ok, wasEscaped, admin) \<Rightarrow>
        (d', case ae_Kind admin of
            AdminEventEscapeRecovery \<Rightarrow>
              Inl (Opaque ''ebus escape: not a valid pair (expected 0x00 or 0x01)'')
          | AdminEventEscapeBudgetExhausted \<Rightarrow>
              Inl (Opaque ''ebus escape: AA-injection budget (8) exhausted in pending state'')
          | _ \<Rightarrow> Inr (decoded, ok, wasEscaped)))"

definition escape_Reset :: "escape_decoder \<Rightarrow> escape_decoder" where
  "escape_Reset d = clear_pending d"

definition HasPendingEscape :: "escape_decoder \<Rightarrow> bool" where
  "HasPendingEscape d = escape d"

definition AbsorbedCount :: "escape_decoder \<Rightarrow> int" where
  "AbsorbedCount d = absorbedCount d"

lemmas feed_defs [machine_simps] =
  Feed_def feedNormal_def feedPending_def clear_pending_def escape_normal_def no_admin_def
  pending_elapsed_def MaxAaAbsorptionsPerEscapePair_def EscapePendingTimeout_def

section \<open>Invariant of the decoder\<close>

text \<open>
  The absorption counter never leaves 0..8, and outside a pair nothing is remembered.
\<close>

definition decoder_inv :: "escape_decoder \<Rightarrow> bool" where
  "decoder_inv d \<longleftrightarrow>
     0 \<le> absorbedCount d \<and> absorbedCount d \<le> 8 \<and>
     (\<not> escape d \<longrightarrow> leadObservedAt d = 0 \<and> absorbedCount d = 0)"

lemma decoder_inv_Feed: "decoder_inv d \<Longrightarrow> decoder_inv (fst (Feed d inp))"
  by (cases inp) (auto simp: decoder_inv_def machine_simps)

interpretation escape_machine: invariant_machine Feed escape_normal decoder_inv
proof unfold_locales
  show "decoder_inv escape_normal" by (simp add: decoder_inv_def escape_normal_def)
qed (rule decoder_inv_Feed)

lemma decoder_inv_normal: "decoder_inv d \<Longrightarrow> \<not> escape d \<Longrightarrow> d = escape_normal"
  by (cases d) (simp add: decoder_inv_def escape_normal_def)

section \<open>Sender lemmas\<close>

lemma EscapeBytes_concat: "EscapeBytes raw = concat (map escape_symbol raw)"
proof -
  have "foldl (\<lambda>escaped b. escaped @ escape_symbol b) acc raw = acc @ concat (map escape_symbol raw)"
    for acc by (induction raw arbitrary: acc) simp_all
  then show ?thesis by (simp add: EscapeBytes_def)
qed

lemma EscapeBytes_simps [simp]:
  "EscapeBytes [] = []"
  "EscapeBytes (b # bs) = escape_symbol b @ EscapeBytes bs"
  "EscapeBytes (xs @ ys) = EscapeBytes xs @ EscapeBytes ys"
  by (simp_all add: EscapeBytes_concat)

lemma crc_symbol_foldl: "crc_symbol v b = foldl Update v (escape_symbol b)"
  by (simp add: crc_symbol_def escape_symbol_def)

section \<open>Noisy wire images\<close>

text \<open>
  A wire image of a list of logical bytes as an adapter may deliver it: every byte that needs
  stuffing is a pair, up to eight injected 0xAA bytes may stand between the lead and the
  completion, and a completed pair stays within the wall-clock cap (a zero lead time means no
  clock, as \<open>Push\<close> uses it).
\<close>

definition in_time :: "go_time \<Rightarrow> go_time \<Rightarrow> bool" where
  "in_time t0 t \<longleftrightarrow> t0 = 0 \<or> time_sub t t0 \<le> EscapePendingTimeout"

definition completion :: "byte \<Rightarrow> byte" where
  "completion b = (if b = 0xA9 then 0x00 else 0x01)"

inductive noisy_wire :: "byte list \<Rightarrow> (byte \<times> go_time) list \<Rightarrow> bool" where
  noisy_Nil: "noisy_wire [] []"
| noisy_plain: "noisy_wire xs ws \<Longrightarrow> b \<noteq> 0xA9 \<Longrightarrow> b \<noteq> 0xAA \<Longrightarrow> noisy_wire (b # xs) ((b, t) # ws)"
| noisy_pair: "noisy_wire xs ws \<Longrightarrow> b = 0xA9 \<or> b = 0xAA \<Longrightarrow> length ts \<le> 8 \<Longrightarrow>
    list_all (in_time t0) ts \<Longrightarrow> in_time t0 t1 \<Longrightarrow>
    noisy_wire (b # xs) ((0xA9, t0) # map (\<lambda>t. (0xAA, t)) ts @ (completion b, t1) # ws)"

text \<open>The bytes a run of the decoder hands on, each with its provenance flag.\<close>

definition emitted :: "feed_out list \<Rightarrow> (byte \<times> bool) list" where
  "emitted outs = map (\<lambda>(b, _, e, _). (b, e)) (filter (\<lambda>(_, ok, _, _). ok) outs)"

definition quiet :: "feed_out list \<Rightarrow> bool" where
  "quiet outs = list_all (\<lambda>(_, _, _, a). ae_Kind a = AdminEventNone) outs"

lemma emitted_simps [simp]:
  "emitted [] = []"
  "emitted ((b, ok, e, a) # outs) = (if ok then (b, e) # emitted outs else emitted outs)"
  "emitted (xs @ ys) = emitted xs @ emitted ys"
  by (simp_all add: emitted_def)

lemma quiet_simps [simp]:
  "quiet []"
  "quiet ((b, ok, e, a) # outs) \<longleftrightarrow> ae_Kind a = AdminEventNone \<and> quiet outs"
  "quiet (xs @ ys) \<longleftrightarrow> quiet xs \<and> quiet ys"
  by (simp_all add: quiet_def)

definition pending :: "go_time \<Rightarrow> int \<Rightarrow> escape_decoder" where
  "pending t0 n = \<lparr>escape = True, leadObservedAt = t0, absorbedCount = n\<rparr>"

lemma Feed_lead: "Feed escape_normal (0xA9, t0) = (pending t0 0, (0, False, False, no_admin))"
  by (simp add: machine_simps pending_def)

lemma Feed_plain: "b \<noteq> 0xA9 \<Longrightarrow> Feed escape_normal (b, t) = (escape_normal, (b, True, False, no_admin))"
  by (simp add: machine_simps)

lemma Feed_absorb:
  "in_time t0 t \<Longrightarrow> n < 8 \<Longrightarrow>
   Feed (pending t0 n) (0xAA, t) = (pending t0 (n + 1), (0, False, False, no_admin))"
  by (auto simp: machine_simps pending_def in_time_def)

lemma Feed_complete:
  "in_time t0 t \<Longrightarrow> b = 0xA9 \<or> b = 0xAA \<Longrightarrow>
   Feed (pending t0 n) (completion b, t) = (escape_normal, (b, True, True, no_admin))"
  by (auto simp: machine_simps pending_def in_time_def completion_def)

lemma absorb_run:
  "list_all (in_time t0) ts \<Longrightarrow> n + int (length ts) \<le> 8 \<Longrightarrow>
   run_state Feed (pending t0 n) (map (\<lambda>t. (0xAA, t)) ts) = pending t0 (n + int (length ts)) \<and>
   emitted (run_out Feed (pending t0 n) (map (\<lambda>t. (0xAA, t)) ts)) = [] \<and>
   quiet (run_out Feed (pending t0 n) (map (\<lambda>t. (0xAA, t)) ts))"
proof (induction ts arbitrary: n)
  case Nil
  then show ?case by simp
next
  case (Cons t ts)
  from Cons.prems have "in_time t0 t" "n < 8" by auto
  then have "Feed (pending t0 n) (0xAA, t) = (pending t0 (n + 1), (0, False, False, no_admin))"
    by (rule Feed_absorb)
  with Cons.IH [of "n + 1"] Cons.prems show ?case
    by (simp add: no_admin_def add.assoc)
qed

lemma noisy_decode:
  "noisy_wire xs ws \<Longrightarrow>
   emitted (run_out Feed escape_normal ws) = map (\<lambda>b. (b, b = 0xA9 \<or> b = 0xAA)) xs \<and>
   quiet (run_out Feed escape_normal ws) \<and> run_state Feed escape_normal ws = escape_normal"
proof (induction rule: noisy_wire.induct)
  case noisy_Nil
  then show ?case by simp
next
  case (noisy_plain xs ws b t)
  then show ?case by (simp add: Feed_plain no_admin_def)
next
  case (noisy_pair xs ws b ts t0 t1)
  have "0 + int (length ts) \<le> 8" using noisy_pair.hyps by simp
  note absorbed = absorb_run [OF \<open>list_all (in_time t0) ts\<close> this]
  have "Feed (pending t0 (int (length ts))) (completion b, t1)
      = (escape_normal, (b, True, True, no_admin))"
    using noisy_pair.hyps by (intro Feed_complete) auto
  with absorbed noisy_pair show ?case
    by (auto simp: Feed_lead no_admin_def)
qed

lemma noisy_EscapeBytes: "noisy_wire xs (map (\<lambda>w. (w, 0)) (EscapeBytes xs))"
proof (induction xs)
  case Nil
  show ?case by (simp add: noisy_Nil)
next
  case (Cons b xs)
  then show ?case
    using noisy_pair [OF Cons, of b "[]" 0 0] noisy_plain [OF Cons, of b 0]
    by (auto simp: escape_symbol_def symbol_defs in_time_def completion_def)
qed

section \<open>Properties\<close>

text \<open>
  \<open>protocol.CRC\<close> on logical bytes is the plain CRC-8 of the escaped wire bytes.
\<close>

theorem CRC_is_Sum_of_wire: "CRC data = Sum (EscapeBytes data)"
proof -
  have "foldl crc_symbol v data = foldl Update v (EscapeBytes data)" for v
    by (induction data arbitrary: v) (simp_all add: crc_symbol_foldl)
  then show ?thesis by (simp add: CRC_def Sum_def)
qed

text \<open>
  C4: from its initial state the decoder turns every noisy wire image (stuffed pairs, up to
  eight injected 0xAA bytes inside each pair, pairs within 32 ms) back into exactly the
  logical bytes, flags exactly the stuffed ones as escaped, raises no admin event and ends
  outside a pair.
\<close>

theorem decoder_recovers_noisy_wire:
  assumes "noisy_wire xs ws"
  shows "emitted (run_out Feed escape_normal ws) = map (\<lambda>b. (b, b = 0xA9 \<or> b = 0xAA)) xs \<and>
    quiet (run_out Feed escape_normal ws) \<and> run_state Feed escape_normal ws = escape_normal"
  using assms by (rule noisy_decode)

theorem decoder_recovers_noisy_wire_witness:
  "emitted (run_out Feed escape_normal
     [(0x10, 5), (0xA9, 7), (0xAA, 8), (0xAA, 9), (0x01, 10)]) = [(0x10, False), (0xAA, True)]"
proof -
  have "noisy_wire [0xAA] ((0xA9, 7) # map (\<lambda>t. (0xAA, t)) [8, 9] @ (completion 0xAA, 10) # [])"
    by (intro noisy_pair noisy_Nil)
      (simp_all add: in_time_def time_sub_def EscapePendingTimeout_def)
  then have "noisy_wire [0xAA] [(0xA9, 7), (0xAA, 8), (0xAA, 9), (0x01, 10)]"
    by (simp add: completion_def)
  then have "noisy_wire [0x10, 0xAA] [(0x10, 5), (0xA9, 7), (0xAA, 8), (0xAA, 9), (0x01, 10)]"
    by (rule noisy_plain) simp_all
  from decoder_recovers_noisy_wire [OF this] show ?thesis by simp
qed

text \<open>
  a target response of at most 255 bytes is always encoded, a longer one is always
  refused, and decoding the encoded segment gives the length byte, the data and the CRC of
  both.
\<close>

theorem slave_response_roundtrip:
  "(case EncodeSlaveResponse data of
      Inl e \<Rightarrow> length data > 255 \<and> errors_Is e ErrInvalidPayload
    | Inr wire \<Rightarrow> length data \<le> 255 \<and>
        map fst (emitted (run_out Feed escape_normal (map (\<lambda>w. (w, 0)) wire)))
          = byte_of_nat (length data) # data @ [CRC (byte_of_nat (length data) # data)])"
  using noisy_decode [OF noisy_EscapeBytes, of
      "byte_of_nat (length data) # data @ [CRC (byte_of_nat (length data) # data)]"]
  by (simp add: EncodeSlaveResponse_def Let_def comp_def)

text \<open>
  provenance.  A byte the decoder marks as escaped is 0xA9 or 0xAA and completes a
  pending pair; a byte it marks as raw is the wire byte itself and never 0xA9.  While a pair
  is pending no raw byte passes unless the 32 ms cap has expired, so an injected wire SYN is
  never handed on as data.
\<close>

theorem Feed_provenance:
  assumes "Feed d (raw, now) = (d', decoded, True, e, a)"
  shows "(e \<longrightarrow> HasPendingEscape d \<and> decoded \<in> {0xA9, 0xAA} \<and> raw = completion decoded) \<and>
    (\<not> e \<longrightarrow> decoded = raw \<and> raw \<noteq> 0xA9 \<and>
       (HasPendingEscape d \<longrightarrow> ae_Kind a = AdminEventEscapePendingTimeout))"
  using assms by (auto simp: machine_simps HasPendingEscape_def completion_def split: if_splits)

theorem Feed_provenance_witness:
  "Feed (pending 5 2) (0x01, 9) = (escape_normal, 0xAA, True, True, no_admin) \<and>
   HasPendingEscape (pending 5 2) \<and> (0x01 :: byte) = completion 0xAA"
proof -
  have "Feed (pending 5 2) (0x01, 9) = (escape_normal, 0xAA, True, True, no_admin)"
    by (simp add: machine_simps pending_def time_sub_def)
  with Feed_provenance [OF this] show ?thesis by simp
qed

text \<open>
  The absorption budget.  After a lead byte, the ninth 0xAA within the time cap drops the
  whole pair: nothing is emitted, the decoder is back outside a pair, and the last event is
  the budget-exhausted event with eight absorbed bytes.
\<close>

theorem absorption_budget_exhausts:
  assumes "list_all (in_time t0) (ts @ [t])" and "length ts = 8"
  shows "let r = run_machine Feed escape_normal ((0xA9, t0) # map (\<lambda>t. (0xAA, t)) (ts @ [t])) in
    fst r = escape_normal \<and> emitted (snd r) = [] \<and>
    (case last (snd r) of (_, _, _, a) \<Rightarrow>
       ae_Kind a = AdminEventEscapeBudgetExhausted \<and> ae_Absorbed a = 8)"
proof -
  have absorbed: "run_state Feed (pending t0 0) (map (\<lambda>t. (0xAA, t)) ts) = pending t0 8"
    "emitted (run_out Feed (pending t0 0) (map (\<lambda>t. (0xAA, t)) ts)) = []"
    using absorb_run [of t0 ts 0] assms by auto
  have "\<exists>a. Feed (pending t0 8) (0xAA, t) = (escape_normal, (0, False, False, a)) \<and>
      ae_Kind a = AdminEventEscapeBudgetExhausted \<and> ae_Absorbed a = 8"
    using assms by (auto simp: machine_simps pending_def in_time_def)
  then obtain a where
    "Feed (pending t0 8) (0xAA, t) = (escape_normal, (0, False, False, a))"
    "ae_Kind a = AdminEventEscapeBudgetExhausted" "ae_Absorbed a = 8" by blast
  with absorbed show ?thesis
    by (simp add: Let_def Feed_lead)
qed

theorem absorption_budget_exhausts_witness:
  "fst (run_machine Feed escape_normal ((0xA9, 1) # map (\<lambda>t. (0xAA, t)) ([2,3,4,5,6,7,8,9] @ [10])))
     = escape_normal"
  using absorption_budget_exhausts [of 1 "[2,3,4,5,6,7,8,9]" 10]
  by (simp add: in_time_def time_sub_def EscapePendingTimeout_def Let_def)

end
