(* ===== verification/Responder.thy ===== *)
theory Responder
  imports Wire_Escape
begin

text \<open>
  The local responder lane, \<open>protocol/responder\<close>: the ACK / response / final-ACK machine
  (\<open>fsm.go\<close>), the inbound frame decoder (\<open>frame_decoder.go\<close>), the address filter in front of
  the machine (\<open>dispatcher.go\<close>) and the ACK timing harness (\<open>timing_harness.go\<close>).
\<close>

section \<open>The responder machine\<close>

datatype responder_state =
    Responder_StateIdle | Responder_StateAckReceived
  | Responder_StateNackReceived | Responder_StateResponseSent

fun responder_State_String :: "responder_state \<Rightarrow> string" where
  "responder_State_String Responder_StateIdle = ''StateIdle''"
| "responder_State_String Responder_StateAckReceived = ''StateAckReceived''"
| "responder_State_String Responder_StateNackReceived = ''StateNackReceived''"
| "responder_State_String Responder_StateResponseSent = ''StateResponseSent''"

definition ErrInvalidTransition :: go_error where
  "ErrInvalidTransition = Opaque ''responder: invalid FSM transition''"

definition ErrRetriesExhausted :: go_error where
  "ErrRetriesExhausted = Opaque ''responder: retries exhausted''"

definition DefaultMaxNackRetries :: int where
  "DefaultMaxNackRetries = 3"

record responder_fsm =
  fsm_state :: responder_state
  retries :: int
  MaxNackRetries :: int

definition NewFSM :: responder_fsm where
  "NewFSM = \<lparr>fsm_state = Responder_StateIdle, retries = 0, MaxNackRetries = DefaultMaxNackRetries\<rparr>"

text \<open>Every transition returns the state it leaves the machine in and a possibly nil error.\<close>

type_synonym fsm_out = "responder_state \<times> go_error option"

definition OnInboundFrame :: "responder_fsm \<Rightarrow> bool \<Rightarrow> responder_fsm \<times> fsm_out" where
  "OnInboundFrame f crcOk =
     (if fsm_state f \<noteq> Responder_StateIdle then (f, (fsm_state f, Some ErrInvalidTransition))
      else let f' = (if crcOk then f\<lparr>fsm_state := Responder_StateAckReceived, retries := 0\<rparr>
                     else (f\<lparr>fsm_state := Responder_StateNackReceived\<rparr>)\<lparr>fsm_state := Responder_StateIdle\<rparr>)
           in (f', (fsm_state f', None)))"

definition OnEmitResponse :: "responder_fsm \<Rightarrow> responder_fsm \<times> fsm_out" where
  "OnEmitResponse f =
     (if fsm_state f \<noteq> Responder_StateAckReceived then (f, (fsm_state f, Some ErrInvalidTransition))
      else let f' = f\<lparr>fsm_state := Responder_StateResponseSent\<rparr> in (f', (fsm_state f', None)))"

definition OnInitiatorFinalAck :: "responder_fsm \<Rightarrow> responder_fsm \<times> fsm_out" where
  "OnInitiatorFinalAck f =
     (if fsm_state f \<noteq> Responder_StateResponseSent then (f, (fsm_state f, Some ErrInvalidTransition))
      else let f' = f\<lparr>fsm_state := Responder_StateIdle, retries := 0\<rparr> in (f', (fsm_state f', None)))"

definition OnInitiatorNack :: "responder_fsm \<Rightarrow> responder_fsm \<times> fsm_out" where
  "OnInitiatorNack f =
     (if fsm_state f \<noteq> Responder_StateResponseSent then (f, (fsm_state f, Some ErrInvalidTransition))
      else if retries f \<ge> MaxNackRetries f then
        (let f' = f\<lparr>fsm_state := Responder_StateIdle\<rparr> in (f', (fsm_state f', Some ErrRetriesExhausted)))
      else let f' = f\<lparr>retries := retries f + 1, fsm_state := Responder_StateAckReceived\<rparr>
           in (f', (fsm_state f', None)))"

definition FSM_Reset :: "responder_fsm \<Rightarrow> responder_fsm" where
  "FSM_Reset f = f\<lparr>fsm_state := Responder_StateIdle, retries := 0\<rparr>"

text \<open>The calls a client makes, as inputs of one step function.\<close>

datatype responder_event = InboundFrame bool | EmitResponse | FinalAck | InitiatorNack | ResetFSM

fun responder_step :: "responder_fsm \<Rightarrow> responder_event \<Rightarrow> responder_fsm \<times> fsm_out" where
  "responder_step f (InboundFrame crcOk) = OnInboundFrame f crcOk"
| "responder_step f EmitResponse = OnEmitResponse f"
| "responder_step f FinalAck = OnInitiatorFinalAck f"
| "responder_step f InitiatorNack = OnInitiatorNack f"
| "responder_step f ResetFSM = (FSM_Reset f, (Responder_StateIdle, None))"

lemmas responder_defs [machine_simps] =
  OnInboundFrame_def OnEmitResponse_def OnInitiatorFinalAck_def OnInitiatorNack_def FSM_Reset_def

section \<open>The frame decoder\<close>

record decoded_frame =
  df_Source :: byte
  df_Target :: byte
  df_Primary :: byte
  df_Secondary :: byte
  df_Payload :: "byte list"
  df_CRC :: byte

definition ErrFrameTooShort :: go_error where
  "ErrFrameTooShort = Opaque ''responder: frame too short''"

definition ErrLengthMismatch :: go_error where
  "ErrLengthMismatch = Opaque ''responder: NN length mismatch''"

definition ErrBadCRC :: go_error where
  "ErrBadCRC = Opaque ''responder: bad CRC''"

definition Decode :: "byte list \<Rightarrow> decoded_frame result" where
  "Decode frame =
     (if length frame < 6 then Inl ErrFrameTooShort
      else let nn = unat (frame ! 4); want = 5 + nn + 1 in
        if length frame \<noteq> want then Inl ErrLengthMismatch
        else let crcByte = frame ! (want - 1); body = take (want - 1) frame in
          if CRC body \<noteq> crcByte then Inl ErrBadCRC
          else Inr \<lparr>df_Source = frame ! 0, df_Target = frame ! 1, df_Primary = frame ! 2,
                    df_Secondary = frame ! 3, df_Payload = take nn (drop 5 frame), df_CRC = crcByte\<rparr>)"

section \<open>The dispatcher\<close>

text \<open>The bound machine may be nil; the drop counter is a \<open>uint64\<close> and wraps.\<close>

record dispatcher =
  localAddr :: byte
  d_fsm :: "responder_fsm option"
  dropped :: "64 word"

definition NewLocalResponderDispatcher :: "byte \<Rightarrow> responder_fsm option \<Rightarrow> dispatcher" where
  "NewLocalResponderDispatcher addr fsm = \<lparr>localAddr = addr, d_fsm = fsm, dropped = 0\<rparr>"

definition Dispatcher_Handle :: "dispatcher \<Rightarrow> decoded_frame \<Rightarrow> dispatcher \<times> (bool \<times> go_error option)" where
  "Dispatcher_Handle d frame =
     (if df_Target frame \<noteq> localAddr d then (d\<lparr>dropped := dropped d + 1\<rparr>, (False, None))
      else case d_fsm d of
             None \<Rightarrow> (d, (True, None))
           | Some fsm \<Rightarrow>
               (case OnInboundFrame fsm True of (fsm', _, err) \<Rightarrow>
                  (d\<lparr>d_fsm := Some fsm'\<rparr>,
                   case err of Some e \<Rightarrow> (False, Some e) | None \<Rightarrow> (True, None))))"

section \<open>The timing harness\<close>

definition responderAckBudget :: int where
  "responderAckBudget = 15 * 1000000"

record timing_harness =
  inboundCRCAt :: go_time
  ackEmitAt :: go_time
  haveInboundAt :: bool
  haveAckAt :: bool

definition NewTimingHarness :: timing_harness where
  "NewTimingHarness = \<lparr>inboundCRCAt = 0, ackEmitAt = 0, haveInboundAt = False, haveAckAt = False\<rparr>"

text \<open>The clock of the harness is read only for a zero time; \<open>now\<close> is what it returns.\<close>

definition MarkInboundCRCOk :: "go_time \<Rightarrow> timing_harness \<Rightarrow> go_time \<Rightarrow> timing_harness" where
  "MarkInboundCRCOk now h at =
     h\<lparr>inboundCRCAt := (if at = 0 then now else at), haveInboundAt := True\<rparr>"

definition MarkAckEmit :: "go_time \<Rightarrow> timing_harness \<Rightarrow> go_time \<Rightarrow> timing_harness" where
  "MarkAckEmit now h at =
     h\<lparr>ackEmitAt := (if at = 0 then now else at), haveAckAt := True\<rparr>"

definition Elapsed :: "timing_harness \<Rightarrow> int \<times> bool" where
  "Elapsed h =
     (if \<not> haveInboundAt h \<or> \<not> haveAckAt h then (0, False)
      else (time_sub (ackEmitAt h) (inboundCRCAt h), True))"

definition WithinBudget :: "timing_harness \<Rightarrow> bool" where
  "WithinBudget h =
     (let (elapsed, ok) = Elapsed h in
      if \<not> ok then False else if elapsed < 0 then False else elapsed \<le> responderAckBudget)"

definition TimingHarness_Reset :: "timing_harness \<Rightarrow> timing_harness" where
  "TimingHarness_Reset h =
     h\<lparr>inboundCRCAt := 0, ackEmitAt := 0, haveInboundAt := False, haveAckAt := False\<rparr>"

section \<open>Invariant of the machine\<close>

text \<open>
  The transient state is never observable, the retry counter stays within the budget, and a
  budget is never changed by a transition.
\<close>

definition responder_inv :: "int \<Rightarrow> responder_fsm \<Rightarrow> bool" where
  "responder_inv N f \<longleftrightarrow>
     fsm_state f \<noteq> Responder_StateNackReceived \<and> MaxNackRetries f = N \<and>
     0 \<le> retries f \<and> retries f \<le> max 0 N"

definition fsm_with_budget :: "int \<Rightarrow> responder_fsm" where
  "fsm_with_budget N = NewFSM\<lparr>MaxNackRetries := N\<rparr>"

lemma responder_inv_step: "responder_inv N f \<Longrightarrow> responder_inv N (fst (responder_step f e))"
  by (cases e) (auto simp: responder_inv_def machine_simps Let_def)

interpretation responder_machine:
  invariant_machine responder_step "fsm_with_budget N" "responder_inv N" for N
proof unfold_locales
  show "responder_inv N (fsm_with_budget N)"
    by (simp add: responder_inv_def fsm_with_budget_def NewFSM_def)
qed (rule responder_inv_step)

section \<open>Lemmas\<close>

lemma nack_round:
  assumes "fsm_state f = Responder_StateResponseSent" and "retries f < MaxNackRetries f"
  shows "run_machine responder_step f [InitiatorNack, EmitResponse] =
    (f\<lparr>retries := retries f + 1\<rparr>,
     [(Responder_StateAckReceived, None), (Responder_StateResponseSent, None)])"
  using assms by (simp add: prod_eq_iff machine_simps Let_def)

text \<open>\<open>k\<close> refused responses, each sent again.\<close>

definition nack_rounds :: "nat \<Rightarrow> responder_event list" where
  "nack_rounds k = concat (replicate k [InitiatorNack, EmitResponse])"

definition round_answers :: "nat \<Rightarrow> fsm_out list" where
  "round_answers k = concat (replicate k
     [(Responder_StateAckReceived, None), (Responder_StateResponseSent, None)])"

lemma nack_rounds_run:
  assumes "fsm_state f = Responder_StateResponseSent" and "retries f + int k \<le> MaxNackRetries f"
  shows "run_machine responder_step f (nack_rounds k) = (f\<lparr>retries := retries f + int k\<rparr>, round_answers k)"
  using assms
proof (induction k arbitrary: f)
  case 0
  then show ?case by (simp add: nack_rounds_def round_answers_def)
next
  case (Suc k)
  have split: "nack_rounds (Suc k) = [InitiatorNack, EmitResponse] @ nack_rounds k"
    "round_answers (Suc k) =
       [(Responder_StateAckReceived, None), (Responder_StateResponseSent, None)] @ round_answers k"
    by (simp_all add: nack_rounds_def round_answers_def)
  let ?f = "f\<lparr>retries := retries f + 1\<rparr>"
  have "run_machine responder_step f [InitiatorNack, EmitResponse] =
      (?f, [(Responder_StateAckReceived, None), (Responder_StateResponseSent, None)])"
    using Suc.prems by (intro nack_round) auto
  moreover have "run_machine responder_step ?f (nack_rounds k) =
      (?f\<lparr>retries := retries ?f + int k\<rparr>, round_answers k)"
    using Suc.prems by (intro Suc.IH) auto
  ultimately show ?case
    unfolding split run_machine_append by (simp add: add.assoc)
qed

text \<open>The bytes a frame stands for: header, length, payload.\<close>

definition frame_body :: "decoded_frame \<Rightarrow> byte list" where
  "frame_body f = [df_Source f, df_Target f, df_Primary f, df_Secondary f,
     byte_of_nat (length (df_Payload f))] @ df_Payload f"

lemma Decode_body:
  assumes "length (df_Payload f) \<le> 255"
  shows "Decode (frame_body f @ [c]) = (if CRC (frame_body f) = c then Inr (f\<lparr>df_CRC := c\<rparr>) else Inl ErrBadCRC)"
proof -
  let ?w = "frame_body f @ [c]" and ?n = "length (df_Payload f)"
  have len: "length (frame_body f) = 5 + ?n" by (simp add: frame_body_def)
  have nn: "unat (?w ! 4) = ?n" using assms by (simp add: frame_body_def)
  have "take (5 + ?n) ?w = frame_body f" "?w ! (5 + ?n) = c"
    using len by (simp_all add: nth_append)
  moreover have "take ?n (drop 5 ?w) = df_Payload f" "?w ! 0 = df_Source f" "?w ! 1 = df_Target f"
    "?w ! 2 = df_Primary f" "?w ! 3 = df_Secondary f" by (simp_all add: frame_body_def)
  ultimately show ?thesis using nn len by (simp add: Decode_def Let_def)
qed

lemma Decode_length:
  "(Decode w = Inl ErrFrameTooShort \<longleftrightarrow> length w < 6) \<and>
   (Decode w = Inl ErrLengthMismatch \<longleftrightarrow> 6 \<le> length w \<and> length w \<noteq> 6 + unat (w ! 4))"
  by (auto simp: Decode_def Let_def ErrFrameTooShort_def ErrLengthMismatch_def ErrBadCRC_def)

lemma well_formed_split:
  assumes "6 \<le> length w" and "length w = 6 + unat (w ! 4)"
  shows "\<exists>f c. w = frame_body f @ [c] \<and> length (df_Payload f) \<le> 255 \<and> df_CRC f = c"
proof -
  let ?nn = "unat (w ! 4)"
  let ?f = "\<lparr>df_Source = w ! 0, df_Target = w ! 1, df_Primary = w ! 2, df_Secondary = w ! 3,
             df_Payload = take ?nn (drop 5 w), df_CRC = w ! (5 + ?nn)\<rparr>"
  have len: "length (df_Payload ?f) = ?nn" using assms by simp
  have "frame_body ?f @ [w ! (5 + ?nn)] = w"
  proof (rule nth_equalityI)
    show "length (frame_body ?f @ [w ! (5 + ?nn)]) = length w"
      using assms len by (simp add: frame_body_def)
    fix i assume "i < length (frame_body ?f @ [w ! (5 + ?nn)])"
    then have "i < 6 + ?nn" using len by (simp add: frame_body_def)
    then consider "i = 0" | "i = 1" | "i = 2" | "i = 3" | "i = 4" | "5 \<le> i" "i < 5 + ?nn" | "i = 5 + ?nn"
      by linarith
    then show "(frame_body ?f @ [w ! (5 + ?nn)]) ! i = w ! i"
      using assms len by cases (auto simp: frame_body_def nth_append nth_Cons')
  qed
  moreover have "length (df_Payload ?f) \<le> 255" using len by simp
  ultimately show ?thesis by (metis decoded_frame.select_convs(6))
qed

lemma Decode_iff:
  "Decode w = Inr f \<longleftrightarrow>
     length (df_Payload f) \<le> 255 \<and> df_CRC f = CRC (frame_body f) \<and> w = frame_body f @ [df_CRC f]"
  (is "?L \<longleftrightarrow> ?R")
proof
  assume L: ?L
  then have "6 \<le> length w" "length w = 6 + unat (w ! 4)"
    by (auto simp: Decode_def Let_def split: if_splits)
  from well_formed_split [OF this] obtain g c where
    g: "w = frame_body g @ [c]" "length (df_Payload g) \<le> 255" "df_CRC g = c" by blast
  with L Decode_body [OF g(2), of c] have "CRC (frame_body g) = c" "f = g\<lparr>df_CRC := c\<rparr>"
    by (auto split: if_splits)
  with g show ?R by (cases g) (simp add: frame_body_def)
next
  assume ?R
  then show ?L using Decode_body [of f "df_CRC f"] by simp
qed

text \<open>
  \<open>protocol.CRC\<close> stuffs reserved symbols before it updates, so on logical bytes it separates two
  symbols when neither is reserved.
\<close>

lemma crc_symbol_inj_state: "crc_symbol c v = crc_symbol d v \<Longrightarrow> c = d"
  by (auto simp: crc_symbol_def split: if_splits dest!: ebus_crc.upd_inj_state)

lemma crc_symbol_inj_plain:
  "crc_symbol c v = crc_symbol c w \<Longrightarrow> {v, w} \<inter> {SymbolEscape, SymbolSyn} = {} \<Longrightarrow> v = w"
  by (auto simp: crc_symbol_def dest: ebus_crc.upd_inj_symbol)

lemma foldl_crc_symbol_inj: "foldl crc_symbol c xs = foldl crc_symbol d xs \<Longrightarrow> c = d"
  by (induction xs arbitrary: c d) (auto dest: crc_symbol_inj_state)

lemma CRC_single_byte:
  assumes "CRC (xs @ v # ys) = CRC (xs @ w # ys)" and "{v, w} \<inter> {SymbolEscape, SymbolSyn} = {}"
  shows "v = w"
proof -
  let ?c = "foldl crc_symbol 0 xs"
  have "foldl crc_symbol (crc_symbol ?c v) ys = foldl crc_symbol (crc_symbol ?c w) ys"
    using assms(1) by (simp add: CRC_def)
  then have "crc_symbol ?c v = crc_symbol ?c w" by (rule foldl_crc_symbol_inj)
  then show ?thesis using assms(2) by (rule crc_symbol_inj_plain)
qed

text \<open>The dispatcher over a sequence of frames: counter, machine and answers.\<close>

lemma dispatcher_state_busy:
  assumes "d_fsm d = Some f" and "fsm_state f = Responder_StateAckReceived"
  shows "run_state Dispatcher_Handle d fs =
    d\<lparr>dropped := dropped d + word_of_nat (length (filter (\<lambda>x. df_Target x \<noteq> localAddr d) fs))\<rparr>"
  using assms by (induction fs arbitrary: d) (auto simp: Dispatcher_Handle_def machine_simps)

lemma dispatcher_state_idle:
  assumes "d_fsm d = Some f" and "fsm_state f = Responder_StateIdle"
  shows "run_state Dispatcher_Handle d fs =
    d\<lparr>dropped := dropped d + word_of_nat (length (filter (\<lambda>x. df_Target x \<noteq> localAddr d) fs)),
      d_fsm := Some (if list_ex (\<lambda>x. df_Target x = localAddr d) fs
                     then f\<lparr>fsm_state := Responder_StateAckReceived, retries := 0\<rparr> else f)\<rparr>"
  using assms
proof (induction fs arbitrary: d)
  case Nil
  then show ?case by simp
next
  case (Cons x fs)
  let ?g = "f\<lparr>fsm_state := Responder_StateAckReceived, retries := 0\<rparr>"
  show ?case
  proof (cases "df_Target x = localAddr d")
    case True
    then have "fst (Dispatcher_Handle d x) = d\<lparr>d_fsm := Some ?g\<rparr>"
      using Cons.prems by (simp add: Dispatcher_Handle_def machine_simps)
    then show ?thesis
      using True dispatcher_state_busy [of "d\<lparr>d_fsm := Some ?g\<rparr>" ?g fs] by simp
  next
    case False
    then show ?thesis using Cons by (simp add: Dispatcher_Handle_def)
  qed
qed

lemma dispatcher_answers:
  assumes "d_fsm d = Some f" and "i < length fs"
  shows "run_out Dispatcher_Handle d fs ! i =
    (if df_Target (fs ! i) \<noteq> localAddr d then (False, None)
     else if fsm_state f = Responder_StateIdle \<and> (\<forall>j < i. df_Target (fs ! j) \<noteq> localAddr d) then (True, None)
     else (False, Some ErrInvalidTransition))"
  using assms
proof (induction fs arbitrary: d f i)
  case (Cons x fs)
  show ?case
  proof (cases i)
    case 0
    then show ?thesis using Cons.prems by (simp add: Dispatcher_Handle_def machine_simps)
  next
    case (Suc k)
    let ?d = "fst (Dispatcher_Handle d x)"
    have "\<exists>g. d_fsm ?d = Some g \<and> localAddr ?d = localAddr d \<and>
      (fsm_state g = Responder_StateIdle \<longleftrightarrow>
         fsm_state f = Responder_StateIdle \<and> df_Target x \<noteq> localAddr d)"
      using Cons.prems
      by (cases "df_Target x = localAddr d"; cases "fsm_state f = Responder_StateIdle")
        (simp_all add: Dispatcher_Handle_def machine_simps)
    then obtain g where g: "d_fsm ?d = Some g" "localAddr ?d = localAddr d"
      "fsm_state g = Responder_StateIdle \<longleftrightarrow>
         fsm_state f = Responder_StateIdle \<and> df_Target x \<noteq> localAddr d" by blast
    show ?thesis
      using Cons.IH [OF g(1), of k] Cons.prems Suc g by (simp add: All_less_Suc2)
  qed
qed simp

definition sample_frame :: "byte \<Rightarrow> decoded_frame" where
  "sample_frame zz = \<lparr>df_Source = 0x10, df_Target = zz, df_Primary = 0xB5, df_Secondary = 0x09,
     df_Payload = [], df_CRC = 0\<rparr>"

section \<open>Properties\<close>

text \<open>
  \<open>FrameDecoder.Decode\<close> accepts exactly the images of frames: it returns a frame if and only
  if the input is the header, the length byte, the payload and the matching CRC of that frame.
  The two length errors are returned exactly on inputs shorter than six bytes and on inputs
  whose length is not the one byte NN announces; what is left is the CRC error.
\<close>

theorem Decode_accepts_iff:
  "(Decode w = Inr f \<longleftrightarrow> length (df_Payload f) \<le> 255 \<and> df_CRC f = CRC (frame_body f) \<and>
      w = frame_body f @ [df_CRC f]) \<and>
   (Decode w = Inl ErrFrameTooShort \<longleftrightarrow> length w < 6) \<and>
   (Decode w = Inl ErrLengthMismatch \<longleftrightarrow> 6 \<le> length w \<and> length w \<noteq> 6 + unat (w ! 4)) \<and>
   (case Decode w of Inl e \<Rightarrow> e \<in> {ErrFrameTooShort, ErrLengthMismatch, ErrBadCRC} | Inr _ \<Rightarrow> True)"
  using Decode_iff [of w f] Decode_length [of w] by (auto simp: Decode_def Let_def)

text \<open>
  Of a frame the decoder accepts, any change of one payload byte to another byte is refused
  with the CRC error when neither byte is one of the two reserved symbols.
\<close>

theorem Decode_detects_payload_byte:
  assumes "Decode w = Inr f" and "i < length (df_Payload f)"
    and "b \<noteq> df_Payload f ! i"
    and "{b, df_Payload f ! i} \<inter> {SymbolEscape, SymbolSyn} = {}"
  shows "Decode (w[5 + i := b]) = Inl ErrBadCRC"
proof -
  from assms(1) have f: "length (df_Payload f) \<le> 255" "df_CRC f = CRC (frame_body f)"
    "w = frame_body f @ [df_CRC f]" by (auto simp: Decode_iff)
  let ?g = "f\<lparr>df_Payload := (df_Payload f)[i := b]\<rparr>"
  let ?xs = "take (5 + i) (frame_body f)" and ?ys = "drop (5 + Suc i) (frame_body f)"
  have len: "5 + i < length (frame_body f)" using assms(2) by (simp add: frame_body_def)
  have w': "w[5 + i := b] = frame_body ?g @ [df_CRC f]"
    using assms(2) f(3) by (simp add: frame_body_def list_update_append)
  have "frame_body f ! (5 + i) = df_Payload f ! i" by (simp add: frame_body_def)
  with id_take_nth_drop [OF len] have "frame_body f = ?xs @ df_Payload f ! i # ?ys" by simp
  moreover have "frame_body ?g = (frame_body f)[5 + i := b]" by (simp add: frame_body_def)
  then have "frame_body ?g = ?xs @ b # ?ys" using upd_conv_take_nth_drop [OF len] by simp
  ultimately have "CRC (frame_body ?g) \<noteq> CRC (frame_body f)"
    using CRC_single_byte [of ?xs b ?ys "df_Payload f ! i"] assms(3,4) by metis
  then show ?thesis unfolding w' using Decode_body [of ?g "df_CRC f"] f by simp
qed

theorem Decode_detects_payload_byte_witness:
  "Decode ([0x10, 0x08, 0xB5, 0x09, 0x02, 0x29, 0x01, CRC [0x10, 0x08, 0xB5, 0x09, 0x02, 0x29, 0x01]][5 + 1 := 0x03])
     = Inl ErrBadCRC"
proof -
  let ?f = "\<lparr>df_Source = 0x10, df_Target = 0x08, df_Primary = 0xB5, df_Secondary = 0x09,
    df_Payload = [0x29, 0x01], df_CRC = CRC [0x10, 0x08, 0xB5, 0x09, 0x02, 0x29, 0x01]\<rparr>"
  have "Decode [0x10, 0x08, 0xB5, 0x09, 0x02, 0x29, 0x01, CRC [0x10, 0x08, 0xB5, 0x09, 0x02, 0x29, 0x01]] = Inr ?f"
    by (simp add: Decode_iff frame_body_def)
  from Decode_detects_payload_byte [OF this, of 1 "0x03"] show ?thesis
    by (simp add: symbol_defs)
qed

text \<open>
  with a budget of \<open>N\<close> retries the responder sends a response exactly \<open>N + 1\<close> times.  In
  every reachable state that has a response on the wire, the machine accepts exactly the
  remaining retries, one ACK-to-response round per refusal, and the next refusal aborts to idle
  with \<open>ErrRetriesExhausted\<close>; after that the machine takes the next frame with a full budget.
\<close>

theorem responder_retry_budget:
  assumes "f = run_state responder_step (fsm_with_budget (int N)) es"
    and "fsm_state f = Responder_StateResponseSent"
  shows "let r = run_machine responder_step f (nack_rounds (N - nat (retries f)) @ [InitiatorNack]) in
    snd r = round_answers (N - nat (retries f)) @ [(Responder_StateIdle, Some ErrRetriesExhausted)] \<and>
    run_machine responder_step (fst r) [InboundFrame True] =
      (f\<lparr>fsm_state := Responder_StateAckReceived, retries := 0\<rparr>, [(Responder_StateAckReceived, None)])"
proof -
  have "responder_inv (int N) f" unfolding assms(1) by (rule responder_machine.inv_reachable)
  then have inv: "MaxNackRetries f = int N" "0 \<le> retries f" "retries f \<le> int N"
    by (auto simp: responder_inv_def)
  let ?k = "N - nat (retries f)"
  have k: "retries f + int ?k = int N" using inv by linarith
  with nack_rounds_run [OF assms(2), of ?k] inv have
    "run_machine responder_step f (nack_rounds ?k) = (f\<lparr>retries := int N\<rparr>, round_answers ?k)" by simp
  then show ?thesis
    using assms(2) inv by (simp add: Let_def prod_eq_iff machine_simps)
qed

theorem responder_retry_budget_witness:
  "run_out responder_step
     (run_state responder_step (fsm_with_budget (int 2)) [InboundFrame True, EmitResponse])
     (nack_rounds 2 @ [InitiatorNack])
   = round_answers 2 @ [(Responder_StateIdle, Some ErrRetriesExhausted)]"
  using responder_retry_budget [OF refl, of 2 "[InboundFrame True, EmitResponse]"]
  by (simp add: Let_def machine_simps fsm_with_budget_def NewFSM_def)

text \<open>
  bus hygiene of the dispatcher over any sequence of decoded frames.  A frame for another
  address is answered neither way, counted, and leaves the machine alone; of the frames for the
  local address the first is accepted, and every later one is refused with
  \<open>ErrInvalidTransition\<close>, because the machine waits for its response to be sent.
\<close>

theorem dispatcher_hygiene:
  assumes "d_fsm d = Some f" and "fsm_state f = Responder_StateIdle"
  shows "fst (run_machine Dispatcher_Handle d fs) =
      d\<lparr>dropped := dropped d + word_of_nat (length (filter (\<lambda>x. df_Target x \<noteq> localAddr d) fs)),
        d_fsm := Some (if list_ex (\<lambda>x. df_Target x = localAddr d) fs
                       then f\<lparr>fsm_state := Responder_StateAckReceived, retries := 0\<rparr> else f)\<rparr> \<and>
    (\<forall>i < length fs. snd (run_machine Dispatcher_Handle d fs) ! i =
       (if df_Target (fs ! i) \<noteq> localAddr d then (False, None)
        else if \<forall>j < i. df_Target (fs ! j) \<noteq> localAddr d then (True, None)
        else (False, Some ErrInvalidTransition)))"
  using dispatcher_state_idle [OF assms] dispatcher_answers [OF assms(1)] assms(2) by simp

theorem dispatcher_hygiene_witness:
  "snd (run_machine Dispatcher_Handle (NewLocalResponderDispatcher 0x08 (Some NewFSM))
     [sample_frame 0x15, sample_frame 0x08, sample_frame 0x08]) ! 2 = (False, Some ErrInvalidTransition)"
proof -
  let ?d = "NewLocalResponderDispatcher 0x08 (Some NewFSM)"
  let ?fs = "[sample_frame 0x15, sample_frame 0x08, sample_frame 0x08]"
  have d: "d_fsm ?d = Some NewFSM" "fsm_state NewFSM = Responder_StateIdle"
    by (simp_all add: NewLocalResponderDispatcher_def NewFSM_def)
  have "\<not> (\<forall>j < (2 :: nat). df_Target (?fs ! j) \<noteq> localAddr ?d)"
    by (simp add: NewLocalResponderDispatcher_def sample_frame_def exI [of _ 1])
  moreover have "df_Target (?fs ! 2) = localAddr ?d"
    by (simp add: NewLocalResponderDispatcher_def sample_frame_def)
  ultimately show ?thesis
    using dispatcher_hygiene [OF d, THEN conjunct2, rule_format, of 2 ?fs] by simp
qed

text \<open>
  The timing verdict.  The harness reports a response within budget exactly when both marks
  were set and the ACK came no earlier than the CRC and at most 15 ms after it; a reset harness
  reports false, and a clock is consulted only for a mark at the zero time.
\<close>

theorem WithinBudget_iff:
  "(WithinBudget h \<longleftrightarrow> haveInboundAt h \<and> haveAckAt h \<and>
     inboundCRCAt h \<le> ackEmitAt h \<and> ackEmitAt h - inboundCRCAt h \<le> 15000000) \<and>
   \<not> WithinBudget (TimingHarness_Reset h) \<and>
   (let h' = MarkAckEmit n1 (MarkInboundCRCOk n0 h t0) t1 in
    inboundCRCAt h' = (if t0 = 0 then n0 else t0) \<and> ackEmitAt h' = (if t1 = 0 then n1 else t1) \<and>
    haveInboundAt h' \<and> haveAckAt h')"
  by (auto simp: WithinBudget_def Elapsed_def time_sub_def responderAckBudget_def
      TimingHarness_Reset_def MarkAckEmit_def MarkInboundCRCOk_def Let_def)

end
