(* ===== verification/Go_Values.thy ===== *)
theory Go_Values
  imports Complex_Main Ebus_Errors
begin

text \<open>
  The Go values the data types exchange: dynamically typed values (\<open>any\<close>), fixed-width integers,
  IEEE-754 floats and little-endian byte order (\<open>encoding/binary\<close>), with the conversions of
  \<open>types/helpers.go\<close>.
\<close>

section \<open>Floats\<close>

text \<open>
  A \<open>float32\<close> is its bit pattern.  A \<open>float64\<close> is not-a-number, an infinity (with its sign), the
  negative zero, or a finite number given by its value; every finite number is dyadic, and all
  arithmetic the code does on it (scaling by 16 or 256 in range, rounding, comparing) is exact.
\<close>

type_synonym float32 = "32 word"

datatype float64 = F64_NaN | F64_Inf bool | F64_NegZero | F64_Fin rat

definition f32_exponent :: "float32 \<Rightarrow> int" where
  "f32_exponent b = uint (drop_bit 23 b AND 0xFF)"

definition f32_mantissa :: "float32 \<Rightarrow> int" where
  "f32_mantissa b = uint (b AND 0x7FFFFF)"

definition f32_negative :: "float32 \<Rightarrow> bool" where
  "f32_negative b = bit b 31"

definition f32_is_NaN :: "float32 \<Rightarrow> bool" where
  "f32_is_NaN b \<longleftrightarrow> f32_exponent b = 255 \<and> f32_mantissa b \<noteq> 0"

definition f32_is_Inf :: "float32 \<Rightarrow> bool" where
  "f32_is_Inf b \<longleftrightarrow> f32_exponent b = 255 \<and> f32_mantissa b = 0"

definition pow2 :: "int \<Rightarrow> rat" where
  "pow2 e = (if 0 \<le> e then 2 ^ nat e else 1 / 2 ^ nat (- e))"

text \<open>\<open>float64(v)\<close> of a \<open>float32\<close> is exact.\<close>

definition f32_to_f64 :: "float32 \<Rightarrow> float64" where
  "f32_to_f64 b =
     (if f32_is_NaN b then F64_NaN
      else if f32_is_Inf b then F64_Inf (f32_negative b)
      else let m = f32_mantissa b; e = f32_exponent b;
               a = (if e = 0 then of_int m * pow2 (- 149) else of_int (m + 2 ^ 23) * pow2 (e - 150))
           in if f32_negative b then (if a = 0 then F64_NegZero else F64_Fin (- a)) else F64_Fin a)"

text \<open>\<open>math.Round\<close>: to the nearest integer, halves away from zero.\<close>

definition math_Round :: "rat \<Rightarrow> int" where
  "math_Round x = (if 0 \<le> x then \<lfloor>x + 1 / 2\<rfloor> else - \<lfloor>- x + 1 / 2\<rfloor>)"

text \<open>Round to nearest, ties to even: the rounding of Go's float conversions.\<close>

definition round_half_even :: "rat \<Rightarrow> int" where
  "round_half_even x =
     (let n = \<lfloor>x\<rfloor>; r = x - of_int n in
      if r < 1 / 2 then n else if r > 1 / 2 then n + 1 else if even n then n else n + 1)"

text \<open>The binary exponent of a positive number, from \<open>e\<close> down to the least normal one of \<open>float32\<close>.\<close>

fun f32_exp_from :: "nat \<Rightarrow> rat \<Rightarrow> int" where
  "f32_exp_from 0 x = - 126"
| "f32_exp_from (Suc k) x = (if pow2 (int k - 125) \<le> x then int k - 125 else f32_exp_from k x)"

text \<open>
  \<open>float32(v)\<close> of a \<open>float64\<close>: with exponent \<open>e\<close> and rounded significand \<open>m\<close> the bit pattern is
  \<open>(e + 126) * 2^23 + m\<close>, which carries into the exponent by itself; beyond the largest finite
  pattern the result is infinity.
\<close>

definition f64_to_f32 :: "float64 \<Rightarrow> float32" where
  "f64_to_f32 v =
     (case v of F64_NaN \<Rightarrow> 0x7FC00000
      | F64_Inf neg \<Rightarrow> (if neg then 0xFF800000 else 0x7F800000)
      | F64_NegZero \<Rightarrow> 0x80000000
      | F64_Fin x \<Rightarrow>
          (let a = \<bar>x\<bar>; e = f32_exp_from 253 a; m = round_half_even (a * pow2 (23 - e));
               bits = min (255 * 2 ^ 23) ((e + 126) * 2 ^ 23 + m);
               sgn = (if x < 0 then 0x80000000 else 0)
           in sgn OR word_of_int bits))"

text \<open>\<open>float64(i)\<close> of an integer: 53 significant bits, nearest, ties to even.\<close>

definition int_to_f64 :: "int \<Rightarrow> float64" where
  "int_to_f64 i =
     (if \<bar>i\<bar> < 2 ^ 53 then F64_Fin (of_int i)
      else let k = (if \<bar>i\<bar> < 2 ^ 54 then 1 else if \<bar>i\<bar> < 2 ^ 55 then 2 else if \<bar>i\<bar> < 2 ^ 56 then 3
                    else if \<bar>i\<bar> < 2 ^ 57 then 4 else if \<bar>i\<bar> < 2 ^ 58 then 5 else if \<bar>i\<bar> < 2 ^ 59 then 6
                    else if \<bar>i\<bar> < 2 ^ 60 then 7 else if \<bar>i\<bar> < 2 ^ 61 then 8 else if \<bar>i\<bar> < 2 ^ 62 then 9
                    else if \<bar>i\<bar> < 2 ^ 63 then 10 else 11)
           in F64_Fin (of_int (round_half_even (of_int i / 2 ^ k) * 2 ^ k)))"

section \<open>Dynamically typed values\<close>

text \<open>\<open>int\<close> and \<open>uint\<close> are 64 bits wide; strings and every other dynamic type are \<open>A_other\<close>.\<close>

datatype go_any =
    A_nil
  | A_int "64 word" | A_int8 "8 word" | A_int16 "16 word" | A_int32 "32 word" | A_int64 "64 word"
  | A_uint "64 word" | A_uint8 "8 word" | A_uint16 "16 word" | A_uint32 "32 word" | A_uint64 "64 word"
  | A_float32 float32 | A_float64 float64
  | A_bools "bool list" | A_bytes "byte list" | A_ints "64 word list"
  | A_string string
  | A_other string

definition maxInt64AsUint :: "64 word" where
  "maxInt64AsUint = drop_bit 1 (NOT 0)"

fun toInt64 :: "go_any \<Rightarrow> int option" where
  "toInt64 (A_int v) = Some (sint v)"
| "toInt64 (A_int8 v) = Some (sint v)"
| "toInt64 (A_int16 v) = Some (sint v)"
| "toInt64 (A_int32 v) = Some (sint v)"
| "toInt64 (A_int64 v) = Some (sint v)"
| "toInt64 (A_uint v) = (if v > maxInt64AsUint then None else Some (sint v))"
| "toInt64 (A_uint8 v) = Some (uint v)"
| "toInt64 (A_uint16 v) = Some (uint v)"
| "toInt64 (A_uint32 v) = Some (uint v)"
| "toInt64 (A_uint64 v) = (if v > maxInt64AsUint then None else Some (sint v))"
| "toInt64 _ = None"

fun toFloat64 :: "go_any \<Rightarrow> float64 option" where
  "toFloat64 (A_float32 v) = Some (f32_to_f64 v)"
| "toFloat64 (A_float64 v) = Some v"
| "toFloat64 (A_int v) = Some (int_to_f64 (sint v))"
| "toFloat64 (A_int8 v) = Some (int_to_f64 (sint v))"
| "toFloat64 (A_int16 v) = Some (int_to_f64 (sint v))"
| "toFloat64 (A_int32 v) = Some (int_to_f64 (sint v))"
| "toFloat64 (A_int64 v) = Some (int_to_f64 (sint v))"
| "toFloat64 (A_uint v) = Some (int_to_f64 (uint v))"
| "toFloat64 (A_uint8 v) = Some (int_to_f64 (uint v))"
| "toFloat64 (A_uint16 v) = Some (int_to_f64 (uint v))"
| "toFloat64 (A_uint32 v) = Some (int_to_f64 (uint v))"
| "toFloat64 (A_uint64 v) = Some (int_to_f64 (uint v))"
| "toFloat64 _ = None"

section \<open>Little-endian integers\<close>

definition le_uint16 :: "byte list \<Rightarrow> 16 word" where
  "le_uint16 bs = ucast (bs ! 0) OR push_bit 8 (ucast (bs ! 1))"

definition le_uint32 :: "byte list \<Rightarrow> 32 word" where
  "le_uint32 bs = ucast (bs ! 0) OR push_bit 8 (ucast (bs ! 1)) OR
     push_bit 16 (ucast (bs ! 2)) OR push_bit 24 (ucast (bs ! 3))"

definition put_uint16 :: "16 word \<Rightarrow> byte list" where
  "put_uint16 u = [ucast u, ucast (drop_bit 8 u)]"

definition put_uint32 :: "32 word \<Rightarrow> byte list" where
  "put_uint32 u = [ucast u, ucast (drop_bit 8 u), ucast (drop_bit 16 u), ucast (drop_bit 24 u)]"

lemma bit_byte_high [simp]: "8 \<le> n \<Longrightarrow> \<not> bit (b :: byte) n"
  using bit_imp_le_length [of b n] by auto

lemma le_put_uint16 [simp]: "le_uint16 (put_uint16 u @ rest) = u"
  by (rule bit_word_eqI) (auto simp: le_uint16_def put_uint16_def bit_simps)

lemma put_le_uint16: "put_uint16 (le_uint16 (a # b # rest)) = [a, b]"
  by (auto simp: le_uint16_def put_uint16_def bit_simps intro!: bit_word_eqI)

lemma le_put_uint32 [simp]: "le_uint32 (put_uint32 u @ rest) = u"
proof (rule bit_word_eqI)
  fix n assume "n < LENGTH(32)"
  then consider "n < 8" | "8 \<le> n" "n < 16" | "16 \<le> n" "n < 24" | "24 \<le> n" "n < 32" by fastforce
  then show "bit (le_uint32 (put_uint32 u @ rest)) n \<longleftrightarrow> bit u n"
    by cases (auto simp: le_uint32_def put_uint32_def bit_simps)
qed

lemma put_le_uint32: "put_uint32 (le_uint32 (a # b # c # d # rest)) = [a, b, c, d]"
  by (auto simp: le_uint32_def put_uint32_def bit_simps intro!: bit_word_eqI)

lemma length_put [simp]: "length (put_uint16 u) = 2" "length (put_uint32 w) = 4"
  by (simp_all add: put_uint16_def put_uint32_def)

lemma le_put_uint16' [simp]: "le_uint16 (put_uint16 u) = u"
  using le_put_uint16 [of u "[]"] by simp

lemma le_put_uint32' [simp]: "le_uint32 (put_uint32 u) = u"
  using le_put_uint32 [of u "[]"] by simp

section \<open>Integer lemmas\<close>

lemma sint_of_int_16: "- 32768 \<le> n \<Longrightarrow> n < 32768 \<Longrightarrow> sint (word_of_int n :: 16 word) = n"
  by (simp add: sint_sbintrunc' signed_take_bit_int_eq_self)

lemma sint_of_int_8: "- 128 \<le> n \<Longrightarrow> n < 128 \<Longrightarrow> sint (word_of_int n :: 8 word) = n"
  by (simp add: sint_sbintrunc' signed_take_bit_int_eq_self)

lemma uint_of_int_16: "0 \<le> n \<Longrightarrow> n < 65536 \<Longrightarrow> uint (word_of_int n :: 16 word) = n"
  by (simp add: uint_word_of_int)

lemma word_of_int_sint: "word_of_int (sint w) = (w :: 'a :: len word)"
  by (metis scast_eq scast_id)

lemma sint_range_8: "- 128 \<le> sint (b :: 8 word) \<and> sint b \<le> 127"
  using sint_ge [of b] sint_lt [of b] by auto

lemma sint_range_16: "- 32768 \<le> sint (b :: 16 word) \<and> sint b \<le> 32767"
  using sint_ge [of b] sint_lt [of b] by auto

lemma math_Round_of_int [simp]: "math_Round (of_int n) = n"
proof -
  have "\<lfloor>of_int n + 1 / 2 :: rat\<rfloor> = n" "\<lfloor>- of_int n + 1 / 2 :: rat\<rfloor> = - n" by linarith+
  then show ?thesis by (simp add: math_Round_def)
qed

end
