(* ===== verification/Data_Types.thy ===== *)
theory Data_Types
  imports Go_Values
begin

text \<open>
  The secondary data types of \<open>types/\<close>: BCD, DATA1b, WORD, DATA2b, DATA2c, EXP and BITFIELD, each
  with \<open>Decode\<close>, \<open>Encode\<close>, \<open>Size\<close> and \<open>ReplacementValue\<close>, the laws every one of them keeps
  (locale \<open>ebus_codec\<close>), and the decoding of a structured payload (\<open>types/structured.go\<close>).
\<close>

section \<open>Values\<close>

record go_value =
  v_Value :: go_any
  v_Valid :: bool

abbreviation unset_value :: go_value where
  "unset_value \<equiv> \<lparr>v_Value = A_nil, v_Valid = False\<rparr>"

abbreviation set_value :: "go_any \<Rightarrow> go_value" where
  "set_value v \<equiv> \<lparr>v_Value = v, v_Valid = True\<rparr>"

abbreviation invalid_payload :: "'a result" where
  "invalid_payload \<equiv> Inl (Sentinel ErrInvalidPayload)"

text \<open>The Go interface \<open>DataType\<close>: a value of it is its four methods.\<close>

record data_type =
  dt_Decode :: "byte list \<Rightarrow> go_value result"
  dt_Encode :: "go_any \<Rightarrow> byte list result"
  dt_Size :: int
  dt_ReplacementValue :: "byte list"

section \<open>BCD\<close>

definition BCD_Decode :: "byte list \<Rightarrow> go_value result" where
  "BCD_Decode payload =
     (if length payload < 1 then invalid_payload
      else let raw = payload ! 0 in
        if raw = 0xFF then Inr unset_value
        else let tens = drop_bit 4 raw; ones = raw AND 0x0F in
          if tens > 9 \<or> ones > 9 then invalid_payload
          else Inr (set_value (A_uint8 (tens * 10 + ones))))"

definition BCD_Encode :: "go_any \<Rightarrow> byte list result" where
  "BCD_Encode value =
     (case toInt64 value of
        None \<Rightarrow> invalid_payload
      | Some i \<Rightarrow>
          if i < 0 \<or> i > 99 then invalid_payload
          else let tens = word_of_int (i div 10) :: byte; ones = word_of_int (i mod 10) :: byte
               in Inr [push_bit 4 tens OR ones])"

definition BCD :: data_type where
  "BCD = \<lparr>dt_Decode = BCD_Decode, dt_Encode = BCD_Encode, dt_Size = 1, dt_ReplacementValue = [0xFF]\<rparr>"

section \<open>DATA1b\<close>

definition DATA1b_Decode :: "byte list \<Rightarrow> go_value result" where
  "DATA1b_Decode payload =
     (if length payload < 1 then invalid_payload
      else let b = payload ! 0 in
        if b = 0x80 then Inr unset_value else Inr (set_value (A_int8 b)))"

definition DATA1b_Encode :: "go_any \<Rightarrow> byte list result" where
  "DATA1b_Encode value =
     (case toInt64 value of
        None \<Rightarrow> invalid_payload
      | Some i \<Rightarrow>
          if i < -127 \<or> i > 127 then invalid_payload
          else if i = -128 then invalid_payload
          else Inr [word_of_int i])"

definition DATA1b :: data_type where
  "DATA1b = \<lparr>dt_Decode = DATA1b_Decode, dt_Encode = DATA1b_Encode, dt_Size = 1, dt_ReplacementValue = [0x80]\<rparr>"

section \<open>WORD\<close>

definition WORD_Decode :: "byte list \<Rightarrow> go_value result" where
  "WORD_Decode payload =
     (if length payload < 2 then invalid_payload
      else let raw = le_uint16 payload in
        if raw = 0xFFFF then Inr unset_value else Inr (set_value (A_uint16 raw)))"

definition WORD_Encode :: "go_any \<Rightarrow> byte list result" where
  "WORD_Encode value =
     (case toInt64 value of
        None \<Rightarrow> invalid_payload
      | Some i \<Rightarrow>
          if i < 0 \<or> i > 65534 then invalid_payload
          else let u = word_of_int i :: 16 word in Inr (put_uint16 u))"

definition WORD :: data_type where
  "WORD = \<lparr>dt_Decode = WORD_Decode, dt_Encode = WORD_Encode, dt_Size = 2, dt_ReplacementValue = [0xFF, 0xFF]\<rparr>"

section \<open>DATA2b and DATA2c\<close>

text \<open>
  The two files \<open>data2b.go\<close> and \<open>data2c.go\<close> are the same code with divisor 256 and 16.  The
  tolerance is the \<open>float64\<close> nearest to 1e-9.
\<close>

definition data2_epsilon :: rat where
  "data2_epsilon = 4835703278458517 / 2 ^ 82"

definition data2_Decode :: "rat \<Rightarrow> byte list \<Rightarrow> go_value result" where
  "data2_Decode divisor payload =
     (if length payload < 2 then invalid_payload
      else let raw = le_uint16 payload in
        if raw = 0x8000 then Inr unset_value
        else Inr (set_value (A_float64 (F64_Fin (of_int (sint raw) / divisor)))))"

definition f64_finite :: "float64 \<Rightarrow> rat option" where
  "f64_finite f = (case f of F64_NaN \<Rightarrow> None | F64_Inf _ \<Rightarrow> None | F64_NegZero \<Rightarrow> Some 0 | F64_Fin x \<Rightarrow> Some x)"

definition data2_Encode :: "rat \<Rightarrow> go_any \<Rightarrow> byte list result" where
  "data2_Encode divisor value =
     (case toFloat64 value of
        None \<Rightarrow> invalid_payload
      | Some f \<Rightarrow> (case f64_finite f of
          None \<Rightarrow> invalid_payload
        | Some x \<Rightarrow>
            if x < of_int (-32767) / divisor \<or> x > of_int 32767 / divisor then invalid_payload
            else let scaled = x * divisor; rounded = math_Round scaled in
              if \<bar>scaled - of_int rounded\<bar> > data2_epsilon then invalid_payload
              else let intValue = rounded in
                if intValue < -32767 \<or> intValue > 32767 then invalid_payload
                else if intValue = -32768 then invalid_payload
                else let u = word_of_int intValue :: 16 word in Inr [ucast u, ucast (drop_bit 8 u)]))"

definition DATA2b_Decode :: "byte list \<Rightarrow> go_value result" where "DATA2b_Decode = data2_Decode 256"
definition DATA2b_Encode :: "go_any \<Rightarrow> byte list result" where "DATA2b_Encode = data2_Encode 256"
definition DATA2c_Decode :: "byte list \<Rightarrow> go_value result" where "DATA2c_Decode = data2_Decode 16"
definition DATA2c_Encode :: "go_any \<Rightarrow> byte list result" where "DATA2c_Encode = data2_Encode 16"

definition DATA2b :: data_type where
  "DATA2b = \<lparr>dt_Decode = DATA2b_Decode, dt_Encode = DATA2b_Encode, dt_Size = 2, dt_ReplacementValue = [0x00, 0x80]\<rparr>"

definition DATA2c :: data_type where
  "DATA2c = \<lparr>dt_Decode = DATA2c_Decode, dt_Encode = DATA2c_Encode, dt_Size = 2, dt_ReplacementValue = [0x00, 0x80]\<rparr>"

section \<open>EXP\<close>

definition EXP_Decode :: "byte list \<Rightarrow> go_value result" where
  "EXP_Decode payload =
     (if length payload < 4 then invalid_payload
      else let raw = le_uint32 payload in
        if raw = 0x7FC00000 then Inr unset_value
        else if f32_is_NaN raw \<or> f32_is_Inf raw then Inr unset_value
        else Inr (set_value (A_float32 raw)))"

definition EXP_finish :: "float32 \<Rightarrow> byte list result" where
  "EXP_finish f32 =
     (if f32_is_NaN f32 \<or> f32_is_Inf f32 then invalid_payload
      else if f32 = 0x7FC00000 then invalid_payload
      else Inr (put_uint32 f32))"

definition EXP_Encode :: "go_any \<Rightarrow> byte list result" where
  "EXP_Encode value =
     (case value of
        A_float32 v \<Rightarrow> if f32_is_NaN v \<or> f32_is_Inf v then invalid_payload else EXP_finish v
      | A_float64 v \<Rightarrow>
          if f64_finite v = None then invalid_payload
          else let f32 = f64_to_f32 v in if f32_is_Inf f32 then invalid_payload else EXP_finish f32
      | _ \<Rightarrow> invalid_payload)"

definition EXP :: data_type where
  "EXP = \<lparr>dt_Decode = EXP_Decode, dt_Encode = EXP_Encode, dt_Size = 4, dt_ReplacementValue = [0x00, 0x00, 0xC0, 0x7F]\<rparr>"

section \<open>BITFIELD\<close>

definition bitfieldIsReplacement :: "byte list \<Rightarrow> bool" where
  "bitfieldIsReplacement data = (if data = [] then False else list_all (\<lambda>b. b = 0xFF) data)"

definition BITFIELD_ReplacementValue :: "int \<Rightarrow> byte list" where
  "BITFIELD_ReplacementValue SizeBytes = (if SizeBytes \<le> 0 then [] else replicate (nat SizeBytes) 0xFF)"

definition byte_bits :: "byte \<Rightarrow> bool list" where
  "byte_bits value = map (\<lambda>i. value AND push_bit i 1 \<noteq> 0) [0..<8]"

definition BITFIELD_Decode :: "int \<Rightarrow> byte list \<Rightarrow> go_value result" where
  "BITFIELD_Decode SizeBytes payload =
     (if SizeBytes \<le> 0 \<or> int (length payload) < SizeBytes then invalid_payload
      else let segment = take (nat SizeBytes) payload in
        if bitfieldIsReplacement segment then Inr unset_value
        else Inr (set_value (A_bools (concat (map byte_bits segment)))))"

definition set_flag :: "byte list \<Rightarrow> nat \<times> bool \<Rightarrow> byte list" where
  "set_flag out p =
     (case p of (i, flag) \<Rightarrow>
        if flag then out[i div 8 := out ! (i div 8) OR push_bit (i mod 8) 1] else out)"

definition encodeFromUint64 :: "int \<Rightarrow> 64 word \<Rightarrow> byte list result" where
  "encodeFromUint64 SizeBytes value =
     (if SizeBytes \<le> 0 then invalid_payload
      else if SizeBytes > 8 then invalid_payload
      else let bitCount = nat SizeBytes * 8 in
        if bitCount < 64 \<and> value > push_bit bitCount 1 - 1 then invalid_payload
        else let out = map (\<lambda>i. ucast (drop_bit (8 * i) value)) [0..<nat SizeBytes] in
          if bitfieldIsReplacement out then invalid_payload else Inr out)"

definition BITFIELD_Encode :: "int \<Rightarrow> go_any \<Rightarrow> byte list result" where
  "BITFIELD_Encode SizeBytes value =
     (if SizeBytes \<le> 0 then invalid_payload
      else case value of
        A_bools v \<Rightarrow>
          if int (length v) \<noteq> SizeBytes * 8 then invalid_payload
          else let out = foldl set_flag (replicate (nat SizeBytes) 0) (enumerate 0 v) in
            if bitfieldIsReplacement out then invalid_payload else Inr out
      | A_bytes v \<Rightarrow>
          if int (length v) \<noteq> SizeBytes then invalid_payload
          else if bitfieldIsReplacement v then invalid_payload else Inr v
      | A_uint64 v \<Rightarrow> encodeFromUint64 SizeBytes v
      | _ \<Rightarrow> (case toInt64 value of
                None \<Rightarrow> invalid_payload
              | Some i \<Rightarrow> if i < 0 then invalid_payload else encodeFromUint64 SizeBytes (word_of_int i)))"

definition BITFIELD :: "int \<Rightarrow> data_type" where
  "BITFIELD SizeBytes = \<lparr>dt_Decode = BITFIELD_Decode SizeBytes, dt_Encode = BITFIELD_Encode SizeBytes,
     dt_Size = SizeBytes, dt_ReplacementValue = BITFIELD_ReplacementValue SizeBytes\<rparr>"

section \<open>Structured payloads\<close>

record typed_field =
  fld_Name :: string
  fld_Type :: "data_type option"

text \<open>The verb \<open>%q\<close> on a printable name.\<close>

definition go_quote :: "string \<Rightarrow> string" where
  "go_quote s = CHR 0x22 # s @ [CHR 0x22]"

fun decode_fields_from :: "byte list \<Rightarrow> nat \<Rightarrow> (string \<rightharpoonup> go_value) \<Rightarrow> typed_field list \<Rightarrow> (string \<rightharpoonup> go_value) result" where
  "decode_fields_from payload offset values [] = Inr values"
| "decode_fields_from payload offset values (fld # fs) =
     (let err = (\<lambda>what e. Inl (Wrap (''field '' @ go_quote (fld_Name fld) @ what) e [])) in
      case fld_Type fld of
        None \<Rightarrow> err '' missing type: '' (Sentinel ErrInvalidPayload)
      | Some ty \<Rightarrow>
          let size = dt_Size ty in
          if size \<le> 0 then err '' invalid size: '' (Sentinel ErrInvalidPayload)
          else if int offset + size > int (length payload) then err '' short payload: '' (Sentinel ErrInvalidPayload)
          else case dt_Decode ty (take (nat size) (drop offset payload)) of
                 Inl e \<Rightarrow> err '' decode: '' e
               | Inr value \<Rightarrow>
                   decode_fields_from payload (offset + nat size) (values(fld_Name fld \<mapsto> value)) fs)"

definition DecodeFields :: "byte list \<Rightarrow> typed_field list \<Rightarrow> (string \<rightharpoonup> go_value) result" where
  "DecodeFields payload fs = decode_fields_from payload 0 Map.empty fs"

definition TotalSize :: "typed_field list \<Rightarrow> int" where
  "TotalSize fs =
     foldl (\<lambda>total fld. case fld_Type fld of None \<Rightarrow> total
       | Some ty \<Rightarrow> (let size = dt_Size ty in if size > 0 then total + size else total)) 0 fs"

section \<open>Interface: the laws of a data type\<close>

locale ebus_codec =
  fixes ty :: data_type
  assumes size_pos: "0 < dt_Size ty"
    and encode_decode: "dt_Encode ty v = Inr bs \<Longrightarrow>
      int (length bs) = dt_Size ty \<and> (\<exists>w. dt_Decode ty bs = Inr (set_value w))"
    and decode_encode: "dt_Decode ty bs = Inr (set_value w) \<Longrightarrow> dt_Encode ty w = Inr (take (nat (dt_Size ty)) bs)"
    and decode_replacement: "int (length (dt_ReplacementValue ty)) = dt_Size ty \<and>
      dt_Decode ty (dt_ReplacementValue ty) = Inr unset_value"
    and decode_prefix: "int (length bs) = dt_Size ty \<Longrightarrow> dt_Decode ty (bs @ rest) = dt_Decode ty bs"
    and decode_short: "int (length bs) < dt_Size ty \<Longrightarrow> dt_Decode ty bs = invalid_payload"
    and decode_shape: "dt_Decode ty bs \<in> {invalid_payload, Inr unset_value} \<union> range (\<lambda>w. Inr (set_value w))"
    and encode_error: "dt_Encode ty v = Inl e \<Longrightarrow> e = Sentinel ErrInvalidPayload"
begin

lemma roundtrip:
  assumes "dt_Encode ty v = Inr bs"
  shows "\<exists>w. dt_Decode ty (bs @ rest) = Inr (set_value w) \<and> dt_Encode ty w = Inr bs"
proof -
  obtain w where w: "int (length bs) = dt_Size ty" "dt_Decode ty bs = Inr (set_value w)"
    using encode_decode [OF assms] by blast
  then have "nat (dt_Size ty) = length bs" by linarith
  then show ?thesis using decode_encode [OF w(2)] decode_prefix [OF w(1)] w(2) by auto
qed

lemma never_encodes_replacement: "dt_Encode ty v \<noteq> Inr (dt_ReplacementValue ty)"
  using encode_decode [of v "dt_ReplacementValue ty"] decode_replacement by auto

lemma decode_injective:
  "dt_Decode ty bs = Inr (set_value w) \<Longrightarrow> dt_Decode ty bs' = Inr (set_value w) \<Longrightarrow>
   take (nat (dt_Size ty)) bs = take (nat (dt_Size ty)) bs'"
  using decode_encode [of bs w] decode_encode [of bs' w] by simp

end

section \<open>Every data type keeps the laws\<close>

lemma Nil_or_Cons: "\<not> length xs < 1 \<Longrightarrow> \<exists>a ys. xs = a # ys"
  by (cases xs) auto

lemma two_or_more: "\<not> length xs < 2 \<Longrightarrow> \<exists>a b ys. xs = a # b # ys"
  by (cases xs; cases "tl xs") auto

lemma four_or_more:
  assumes "\<not> length xs < 4"
  shows "\<exists>a b c d ys. xs = a # b # c # d # ys"
proof -
  obtain a b r where r: "xs = a # b # r" using two_or_more [of xs] assms by auto
  then obtain c d ys where "r = c # d # ys" using two_or_more [of r] assms by auto
  with r show ?thesis by blast
qed

text \<open>BCD, by evaluation on every byte and every number up to 99.\<close>

definition bcd_byte_ok :: "byte \<Rightarrow> bool" where
  "bcd_byte_ok b = (case BCD_Decode [b] of Inl _ \<Rightarrow> True
     | Inr x \<Rightarrow> if v_Valid x then BCD_Encode (v_Value x) = Inr [b] else True)"

definition bcd_number :: "nat \<Rightarrow> byte" where
  "bcd_number i = push_bit 4 (word_of_int (int i div 10)) OR word_of_int (int i mod 10)"

definition bcd_number_ok :: "nat \<Rightarrow> bool" where
  "bcd_number_ok i = (BCD_Decode [bcd_number i] = Inr (set_value (A_uint8 (word_of_nat i))))"

lemma bcd_byte_ok_all: "list_all bcd_byte_ok all_bytes"
  by code_simp

lemma bcd_number_ok_all: "list_all bcd_number_ok [0..<100]"
  by code_simp

lemma BCD_Decode_Cons: "BCD_Decode (b # bs) = BCD_Decode [b]"
  by (simp add: BCD_Decode_def)

lemma BCD_Encode_eq:
  "BCD_Encode v = Inr bs \<longleftrightarrow> (\<exists>i < 100. toInt64 v = Some (int i) \<and> bs = [bcd_number i])"
proof (cases "toInt64 v")
  case (Some i)
  have "(\<exists>k < 100. i = int k) \<longleftrightarrow> 0 \<le> i \<and> i < 100" by (auto intro!: exI [of _ "nat i"])
  then show ?thesis
    using Some by (auto simp: BCD_Encode_def bcd_number_def Let_def not_less split: if_splits)
qed (simp add: BCD_Encode_def)

interpretation bcd: ebus_codec BCD
proof unfold_locales
  fix v bs w rest e
  show "0 < dt_Size BCD" by (simp add: BCD_def)
  show "int (length bs) = dt_Size BCD \<and> (\<exists>w. dt_Decode BCD bs = Inr (set_value w))"
    if "dt_Encode BCD v = Inr bs"
  proof -
    from that obtain i where i: "i < 100" "bs = [bcd_number i]" by (auto simp: BCD_def BCD_Encode_eq)
    have "bcd_number_ok i" using bcd_number_ok_all i(1) by (simp only: list_all_upt)
    then show ?thesis using i(2) by (simp add: BCD_def bcd_number_ok_def)
  qed
  show "dt_Encode BCD w = Inr (take (nat (dt_Size BCD)) bs)" if "dt_Decode BCD bs = Inr (set_value w)"
  proof (cases bs)
    case Nil
    then show ?thesis using that by (simp add: BCD_def BCD_Decode_def)
  next
    case (Cons b rest)
    have "bcd_byte_ok b" using bcd_byte_ok_all by (simp add: list_all_iff)
    then show ?thesis using that Cons by (simp add: BCD_def bcd_byte_ok_def BCD_Decode_Cons [of b rest])
  qed
  show "int (length (dt_ReplacementValue BCD)) = dt_Size BCD \<and>
      dt_Decode BCD (dt_ReplacementValue BCD) = Inr unset_value"
    by (simp add: BCD_def BCD_Decode_def)
  show "dt_Decode BCD (bs @ rest) = dt_Decode BCD bs" if "int (length bs) = dt_Size BCD"
    using that by (cases bs) (simp_all add: BCD_def BCD_Decode_def)
  show "dt_Decode BCD bs = invalid_payload" if "int (length bs) < dt_Size BCD"
    using that by (simp add: BCD_def BCD_Decode_def)
  show "dt_Decode BCD bs \<in> {invalid_payload, Inr unset_value} \<union> range (\<lambda>w. Inr (set_value w))"
    by (auto simp: BCD_def BCD_Decode_def Let_def)
  show "e = Sentinel ErrInvalidPayload" if "dt_Encode BCD v = Inl e"
    using that by (auto simp: BCD_def BCD_Encode_def Let_def split: option.splits if_splits)
qed

interpretation data1b: ebus_codec DATA1b
proof unfold_locales
  fix v bs w rest e
  show "0 < dt_Size DATA1b" by (simp add: DATA1b_def)
  show "int (length bs) = dt_Size DATA1b \<and> (\<exists>w. dt_Decode DATA1b bs = Inr (set_value w))"
    if "dt_Encode DATA1b v = Inr bs"
  proof -
    from that obtain i where i: "- 127 \<le> i" "i \<le> 127" "bs = [word_of_int i]"
      by (auto simp: DATA1b_def DATA1b_Encode_def not_less split: option.splits if_splits)
    then have "sint (word_of_int i :: byte) = i" by (intro sint_of_int_8) auto
    then have "word_of_int i \<noteq> (0x80 :: byte)" using i(1) by auto
    then show ?thesis using i(3) by (simp add: DATA1b_def DATA1b_Decode_def)
  qed
  show "dt_Encode DATA1b w = Inr (take (nat (dt_Size DATA1b)) bs)"
    if "dt_Decode DATA1b bs = Inr (set_value w)"
  proof -
    from that obtain b rest where b: "bs = b # rest" "b \<noteq> 0x80" "w = A_int8 b"
      using Nil_or_Cons [of bs] by (auto simp: DATA1b_def DATA1b_Decode_def Let_def split: if_splits)
    have "sint b \<noteq> - 128"
    proof
      assume "sint b = - 128"
      then have "b = word_of_int (- 128)" by (metis word_of_int_sint)
      then show False using b(2) by simp
    qed
    then have "- 127 \<le> sint b" "sint b \<le> 127" using sint_range_8 [of b] by linarith+
    then show ?thesis using b by (simp add: DATA1b_def DATA1b_Encode_def)
  qed
  show "int (length (dt_ReplacementValue DATA1b)) = dt_Size DATA1b \<and>
      dt_Decode DATA1b (dt_ReplacementValue DATA1b) = Inr unset_value"
    by (simp add: DATA1b_def DATA1b_Decode_def)
  show "dt_Decode DATA1b (bs @ rest) = dt_Decode DATA1b bs" if "int (length bs) = dt_Size DATA1b"
    using that by (cases bs) (simp_all add: DATA1b_def DATA1b_Decode_def)
  show "dt_Decode DATA1b bs = invalid_payload" if "int (length bs) < dt_Size DATA1b"
    using that by (simp add: DATA1b_def DATA1b_Decode_def)
  show "dt_Decode DATA1b bs \<in> {invalid_payload, Inr unset_value} \<union> range (\<lambda>w. Inr (set_value w))"
    by (auto simp: DATA1b_def DATA1b_Decode_def Let_def)
  show "e = Sentinel ErrInvalidPayload" if "dt_Encode DATA1b v = Inl e"
    using that by (auto simp: DATA1b_def DATA1b_Encode_def split: option.splits if_splits)
qed

interpretation word16: ebus_codec WORD
proof unfold_locales
  fix v bs w rest e
  show "0 < dt_Size WORD" by (simp add: WORD_def)
  show "int (length bs) = dt_Size WORD \<and> (\<exists>w. dt_Decode WORD bs = Inr (set_value w))"
    if "dt_Encode WORD v = Inr bs"
  proof -
    from that obtain i where i: "0 \<le> i" "i \<le> 65534" "bs = put_uint16 (word_of_int i)"
      by (auto simp: WORD_def WORD_Encode_def Let_def not_less split: option.splits if_splits)
    then have "uint (word_of_int i :: 16 word) = i" by (intro uint_of_int_16) auto
    then have "word_of_int i \<noteq> (0xFFFF :: 16 word)" using i(2) by auto
    then show ?thesis using i(3) by (simp add: WORD_def WORD_Decode_def Let_def)
  qed
  show "dt_Encode WORD w = Inr (take (nat (dt_Size WORD)) bs)" if "dt_Decode WORD bs = Inr (set_value w)"
  proof -
    from that obtain a b r where b: "bs = a # b # r" "le_uint16 bs \<noteq> 0xFFFF" "w = A_uint16 (le_uint16 bs)"
      using two_or_more [of bs] by (auto simp: WORD_def WORD_Decode_def Let_def split: if_splits)
    have "uint (le_uint16 bs) < 65536" using uint_lt2p [of "le_uint16 bs"] by simp
    moreover have "uint (le_uint16 bs) \<noteq> 65535"
    proof
      assume "uint (le_uint16 bs) = 65535"
      then have "le_uint16 bs = word_of_int 65535" by (metis word_of_int_uint)
      then show False using b(2) by simp
    qed
    ultimately show ?thesis
      using b put_le_uint16 [of a b r] by (simp add: WORD_def WORD_Encode_def Let_def)
  qed
  show "int (length (dt_ReplacementValue WORD)) = dt_Size WORD \<and>
      dt_Decode WORD (dt_ReplacementValue WORD) = Inr unset_value"
    by (simp add: WORD_def WORD_Decode_def le_uint16_def)
  show "dt_Decode WORD (bs @ rest) = dt_Decode WORD bs" if "int (length bs) = dt_Size WORD"
    using that by (simp add: WORD_def WORD_Decode_def le_uint16_def nth_append)
  show "dt_Decode WORD bs = invalid_payload" if "int (length bs) < dt_Size WORD"
    using that by (simp add: WORD_def WORD_Decode_def)
  show "dt_Decode WORD bs \<in> {invalid_payload, Inr unset_value} \<union> range (\<lambda>w. Inr (set_value w))"
    by (auto simp: WORD_def WORD_Decode_def Let_def)
  show "e = Sentinel ErrInvalidPayload" if "dt_Encode WORD v = Inl e"
    using that by (auto simp: WORD_def WORD_Encode_def Let_def split: option.splits if_splits)
qed

text \<open>The scaled types, for any positive divisor.\<close>

definition data2_type :: "rat \<Rightarrow> data_type" where
  "data2_type d = \<lparr>dt_Decode = data2_Decode d, dt_Encode = data2_Encode d, dt_Size = 2,
     dt_ReplacementValue = [0x00, 0x80]\<rparr>"

lemma data2_types: "DATA2b = data2_type 256" "DATA2c = data2_type 16"
  by (simp_all add: DATA2b_def DATA2c_def data2_type_def DATA2b_Decode_def DATA2b_Encode_def
      DATA2c_Decode_def DATA2c_Encode_def)

lemma data2_Encode_eq:
  "data2_Encode d v = Inr bs \<longleftrightarrow> (\<exists>f x n. toFloat64 v = Some f \<and> f64_finite f = Some x \<and>
     of_int (-32767) / d \<le> x \<and> x \<le> of_int 32767 / d \<and> n = math_Round (x * d) \<and>
     \<bar>x * d - of_int n\<bar> \<le> data2_epsilon \<and> - 32767 \<le> n \<and> n \<le> 32767 \<and> bs = put_uint16 (word_of_int n))"
  by (auto simp: data2_Encode_def put_uint16_def Let_def not_less split: option.splits if_splits)

lemma data2_Encode_exact:
  assumes "0 < d" and "- 32767 \<le> n" and "n \<le> 32767"
  shows "data2_Encode d (A_float64 (F64_Fin (of_int n / d))) = Inr (put_uint16 (word_of_int n))"
proof -
  have "of_int (- 32767) / d \<le> of_int n / d" "of_int n / d \<le> of_int 32767 / d"
    using assms by (simp_all only: divide_le_cancel of_int_le_iff) auto
  moreover have "of_int n / d * d = of_int n" using assms(1) by simp
  ultimately show ?thesis
    unfolding data2_Encode_eq using assms
    by (intro exI [of _ "F64_Fin (of_int n / d)"] exI [of _ "of_int n / d"] exI [of _ n])
      (simp add: f64_finite_def data2_epsilon_def)
qed

lemma data2_codec:
  assumes "0 < d"
  shows "ebus_codec (data2_type d)"
proof unfold_locales
  fix v bs w rest e
  show "0 < dt_Size (data2_type d)" by (simp add: data2_type_def)
  show "int (length bs) = dt_Size (data2_type d) \<and> (\<exists>w. dt_Decode (data2_type d) bs = Inr (set_value w))"
    if "dt_Encode (data2_type d) v = Inr bs"
  proof -
    from that obtain n where n: "- 32767 \<le> n" "n \<le> 32767" "bs = put_uint16 (word_of_int n)"
      by (auto simp: data2_type_def data2_Encode_eq)
    then have "sint (word_of_int n :: 16 word) = n" by (intro sint_of_int_16) auto
    then have "word_of_int n \<noteq> (0x8000 :: 16 word)" using n(1) by auto
    then show ?thesis using n(3) by (simp add: data2_type_def data2_Decode_def Let_def)
  qed
  show "dt_Encode (data2_type d) w = Inr (take (nat (dt_Size (data2_type d))) bs)"
    if "dt_Decode (data2_type d) bs = Inr (set_value w)"
  proof -
    from that obtain a b r where b: "bs = a # b # r" "le_uint16 bs \<noteq> 0x8000"
      "w = A_float64 (F64_Fin (of_int (sint (le_uint16 bs)) / d))"
      using two_or_more [of bs] by (auto simp: data2_type_def data2_Decode_def Let_def split: if_splits)
    have "sint (le_uint16 bs) \<noteq> - 32768"
    proof
      assume "sint (le_uint16 bs) = - 32768"
      then have "le_uint16 bs = word_of_int (- 32768)" by (metis word_of_int_sint)
      then show False using b(2) by simp
    qed
    then have "- 32767 \<le> sint (le_uint16 bs)" "sint (le_uint16 bs) \<le> 32767"
      using sint_range_16 [of "le_uint16 bs"] by linarith+
    then show ?thesis
      using b(1,3) put_le_uint16 [of a b r] by (simp add: data2_type_def data2_Encode_exact [OF assms] word_of_int_sint del: of_int_sint)
  qed
  show "int (length (dt_ReplacementValue (data2_type d))) = dt_Size (data2_type d) \<and>
      dt_Decode (data2_type d) (dt_ReplacementValue (data2_type d)) = Inr unset_value"
    by (simp add: data2_type_def data2_Decode_def le_uint16_def)
  show "dt_Decode (data2_type d) (bs @ rest) = dt_Decode (data2_type d) bs"
    if "int (length bs) = dt_Size (data2_type d)"
    using that by (simp add: data2_type_def data2_Decode_def le_uint16_def nth_append)
  show "dt_Decode (data2_type d) bs = invalid_payload" if "int (length bs) < dt_Size (data2_type d)"
    using that by (simp add: data2_type_def data2_Decode_def)
  show "dt_Decode (data2_type d) bs \<in> {invalid_payload, Inr unset_value} \<union> range (\<lambda>w. Inr (set_value w))"
    by (auto simp: data2_type_def data2_Decode_def Let_def)
  show "e = Sentinel ErrInvalidPayload" if "dt_Encode (data2_type d) v = Inl e"
    using that by (auto simp: data2_type_def data2_Encode_def Let_def split: option.splits if_splits)
qed

interpretation data2b: ebus_codec DATA2b
  unfolding data2_types by (rule data2_codec) simp

interpretation data2c: ebus_codec DATA2c
  unfolding data2_types by (rule data2_codec) simp

lemma EXP_finish_eq:
  "EXP_finish b = Inr bs \<longleftrightarrow> \<not> f32_is_NaN b \<and> \<not> f32_is_Inf b \<and> b \<noteq> 0x7FC00000 \<and> bs = put_uint32 b"
  by (auto simp: EXP_finish_def)

interpretation exp32: ebus_codec EXP
proof unfold_locales
  fix v bs w rest e
  show "0 < dt_Size EXP" by (simp add: EXP_def)
  show "int (length bs) = dt_Size EXP \<and> (\<exists>w. dt_Decode EXP bs = Inr (set_value w))"
    if "dt_Encode EXP v = Inr bs"
  proof -
    from that obtain b where "EXP_finish b = Inr bs"
      by (auto simp: EXP_def EXP_Encode_def Let_def split: go_any.splits if_splits)
    then show ?thesis by (auto simp: EXP_finish_eq EXP_def EXP_Decode_def Let_def)
  qed
  show "dt_Encode EXP w = Inr (take (nat (dt_Size EXP)) bs)" if "dt_Decode EXP bs = Inr (set_value w)"
  proof -
    from that obtain a b c d r where "bs = a # b # c # d # r" "w = A_float32 (le_uint32 bs)"
      "\<not> f32_is_NaN (le_uint32 bs)" "\<not> f32_is_Inf (le_uint32 bs)" "le_uint32 bs \<noteq> 0x7FC00000"
      using four_or_more [of bs] by (auto simp: EXP_def EXP_Decode_def Let_def split: if_splits)
    then show ?thesis
      using put_le_uint32 [of a b c d r] by (simp add: EXP_def EXP_Encode_def EXP_finish_def)
  qed
  show "int (length (dt_ReplacementValue EXP)) = dt_Size EXP \<and>
      dt_Decode EXP (dt_ReplacementValue EXP) = Inr unset_value"
    by (simp add: EXP_def EXP_Decode_def le_uint32_def)
  show "dt_Decode EXP (bs @ rest) = dt_Decode EXP bs" if "int (length bs) = dt_Size EXP"
    using that by (simp add: EXP_def EXP_Decode_def le_uint32_def nth_append)
  show "dt_Decode EXP bs = invalid_payload" if "int (length bs) < dt_Size EXP"
    using that by (simp add: EXP_def EXP_Decode_def)
  show "dt_Decode EXP bs \<in> {invalid_payload, Inr unset_value} \<union> range (\<lambda>w. Inr (set_value w))"
    by (auto simp: EXP_def EXP_Decode_def Let_def)
  show "e = Sentinel ErrInvalidPayload" if "dt_Encode EXP v = Inl e"
    using that by (auto simp: EXP_def EXP_Encode_def EXP_finish_def Let_def split: go_any.splits if_splits)
qed

text \<open>Bit fields: the flags written one by one are the bits of the bytes.\<close>

lemma length_foldl_set_flag [simp]: "length (foldl set_flag out ps) = length out"
  by (induction ps arbitrary: out) (auto simp: set_flag_def split: prod.splits)

lemma bit_set_flag:
  assumes "m < length out" and "b < 8"
  shows "bit (set_flag out (i, flag) ! m) b \<longleftrightarrow> bit (out ! m) b \<or> (flag \<and> i div 8 = m \<and> i mod 8 = b)"
proof -
  have "push_bit (i mod 8) (1 :: byte) = push_bit (i mod 8) 1" ..
  have "bit (push_bit (i mod 8) 1 :: byte) b \<longleftrightarrow> i mod 8 = b"
    using assms(2) by (auto simp: bit_simps)
  then show ?thesis
    using assms by (cases "i div 8 = m") (auto simp: set_flag_def bit_simps nth_list_update)
qed

lemma bit_foldl_set_flag:
  assumes "m < length out" and "b < 8"
  shows "bit (foldl set_flag out (enumerate j v) ! m) b \<longleftrightarrow>
    bit (out ! m) b \<or> (\<exists>i < length v. v ! i \<and> (j + i) div 8 = m \<and> (j + i) mod 8 = b)"
  using assms
proof (induction v arbitrary: out j)
  case (Cons flag v)
  have len: "length (set_flag out (j, flag)) = length out"
    using length_foldl_set_flag [of out "[(j, flag)]"] by simp
  have "(\<exists>i < length (flag # v). (flag # v) ! i \<and> (j + i) div 8 = m \<and> (j + i) mod 8 = b) \<longleftrightarrow>
      (flag \<and> j div 8 = m \<and> j mod 8 = b) \<or> (\<exists>i < length v. v ! i \<and> (Suc j + i) div 8 = m \<and> (Suc j + i) mod 8 = b)"
    by (simp add: Ex_less_Suc2)
  then show ?case
    using Cons.IH [of "set_flag out (j, flag)" "Suc j"] Cons.prems len bit_set_flag [OF Cons.prems, of j flag]
    by (simp add: disj_assoc)
qed simp

lemma length_byte_bits [simp]: "length (byte_bits v) = 8"
  by (simp add: byte_bits_def)

lemma byte_bits_nth: "b < 8 \<Longrightarrow> byte_bits v ! b \<longleftrightarrow> bit v b"
  by (simp add: byte_bits_def and_exp_eq_0_iff_not_bit push_bit_eq_mult)

lemma concat_byte_bits:
  "length (concat (map byte_bits seg)) = 8 * length seg"
  "i < 8 * length seg \<Longrightarrow> concat (map byte_bits seg) ! i \<longleftrightarrow> bit (seg ! (i div 8)) (i mod 8)"
proof (induction seg arbitrary: i)
  case (Cons v seg)
  { case 1
    show ?case using Cons.IH(1) by simp
  next
    case 2
    show ?case
    proof (cases "i < 8")
      case True
      then show ?thesis by (simp add: nth_append byte_bits_nth)
    next
      case False
      then have "i div 8 = Suc ((i - 8) div 8)" "i mod 8 = (i - 8) mod 8"
        by (simp_all add: le_div_geq le_mod_geq)
      then show ?thesis using False 2 Cons.IH(2) [of "i - 8"] by (simp add: nth_append)
    qed }
qed simp_all

lemma set_flags_byte_bits:
  "foldl set_flag (replicate (length seg) 0) (enumerate 0 (concat (map byte_bits seg))) = seg"
proof (rule nth_equalityI)
  show "length (foldl set_flag (replicate (length seg) 0) (enumerate 0 (concat (map byte_bits seg)))) = length seg"
    by simp
  fix m assume "m < length (foldl set_flag (replicate (length seg) 0) (enumerate 0 (concat (map byte_bits seg))))"
  then have m: "m < length seg" by simp
  show "foldl set_flag (replicate (length seg) 0) (enumerate 0 (concat (map byte_bits seg))) ! m = seg ! m"
  proof (rule bit_word_eqI)
    fix b assume "b < LENGTH(8)"
    then have b: "b < 8" by simp
    have "8 * m + b < 8 * length seg" using m b by linarith
    moreover have "(8 * m + b) div 8 = m" "(8 * m + b) mod 8 = b" using b by auto
    ultimately show "bit (foldl set_flag (replicate (length seg) 0) (enumerate 0 (concat (map byte_bits seg))) ! m) b
        = bit (seg ! m) b"
      using m b by (auto simp: bit_foldl_set_flag concat_byte_bits intro!: exI [of _ "8 * m + b"])
  qed
qed

lemma BITFIELD_Encode_shape:
  assumes "BITFIELD_Encode n v = Inr bs"
  shows "0 < n \<and> int (length bs) = n \<and> \<not> bitfieldIsReplacement bs"
  using assms
  by (auto simp: BITFIELD_Encode_def encodeFromUint64_def Let_def split: if_splits go_any.splits option.splits)

lemma bitfield_codec:
  assumes "0 < n"
  shows "ebus_codec (BITFIELD n)"
proof unfold_locales
  fix v bs w rest e
  show "0 < dt_Size (BITFIELD n)" using assms by (simp add: BITFIELD_def)
  show "int (length bs) = dt_Size (BITFIELD n) \<and> (\<exists>w. dt_Decode (BITFIELD n) bs = Inr (set_value w))"
    if "dt_Encode (BITFIELD n) v = Inr bs"
    using BITFIELD_Encode_shape [of n v bs] that by (auto simp: BITFIELD_def BITFIELD_Decode_def)
  show "dt_Encode (BITFIELD n) w = Inr (take (nat (dt_Size (BITFIELD n))) bs)"
    if "dt_Decode (BITFIELD n) bs = Inr (set_value w)"
  proof -
    let ?seg = "take (nat n) bs"
    from that have d: "n \<le> int (length bs)" "\<not> bitfieldIsReplacement ?seg"
      "w = A_bools (concat (map byte_bits ?seg))"
      by (auto simp: BITFIELD_def BITFIELD_Decode_def Let_def split: if_splits)
    then have "length ?seg = nat n" by simp
    then show ?thesis
      using d assms set_flags_byte_bits [of ?seg] concat_byte_bits(1) [of ?seg]
      by (simp add: BITFIELD_def BITFIELD_Encode_def)
  qed
  show "int (length (dt_ReplacementValue (BITFIELD n))) = dt_Size (BITFIELD n) \<and>
      dt_Decode (BITFIELD n) (dt_ReplacementValue (BITFIELD n)) = Inr unset_value"
    using assms by (simp add: BITFIELD_def BITFIELD_Decode_def BITFIELD_ReplacementValue_def
        bitfieldIsReplacement_def list_all_iff)
  show "dt_Decode (BITFIELD n) (bs @ rest) = dt_Decode (BITFIELD n) bs" if "int (length bs) = dt_Size (BITFIELD n)"
    using that by (simp add: BITFIELD_def BITFIELD_Decode_def)
  show "dt_Decode (BITFIELD n) bs = invalid_payload" if "int (length bs) < dt_Size (BITFIELD n)"
    using that by (simp add: BITFIELD_def BITFIELD_Decode_def)
  show "dt_Decode (BITFIELD n) bs \<in> {invalid_payload, Inr unset_value} \<union> range (\<lambda>w. Inr (set_value w))"
    by (auto simp: BITFIELD_def BITFIELD_Decode_def Let_def)
  show "e = Sentinel ErrInvalidPayload" if "dt_Encode (BITFIELD n) v = Inl e"
    using that by (auto simp: BITFIELD_def BITFIELD_Encode_def encodeFromUint64_def Let_def
        split: if_splits go_any.splits option.splits)
qed

interpretation bitfield: ebus_codec "BITFIELD (int (Suc k))" for k
  by (rule bitfield_codec) simp

section \<open>Structured payloads: lemmas\<close>

definition library_type :: "data_type \<Rightarrow> bool" where
  "library_type ty \<longleftrightarrow> ty \<in> {BCD, DATA1b, WORD, DATA2b, DATA2c, EXP} \<or> (\<exists>n > 0. ty = BITFIELD n)"

lemma library_codec: "library_type ty \<Longrightarrow> ebus_codec ty"
  using bcd.ebus_codec_axioms data1b.ebus_codec_axioms word16.ebus_codec_axioms
    data2b.ebus_codec_axioms data2c.ebus_codec_axioms exp32.ebus_codec_axioms bitfield_codec
  by (auto simp: library_type_def)

lemma TotalSize_simps:
  "TotalSize [] = 0"
  "TotalSize (fs @ [fld]) = TotalSize fs +
     (case fld_Type fld of None \<Rightarrow> 0 | Some ty \<Rightarrow> max 0 (dt_Size ty))"
  by (auto simp: TotalSize_def Let_def split: option.splits)

lemma TotalSize_Cons:
  "TotalSize (fld # fs) = (case fld_Type fld of None \<Rightarrow> 0 | Some ty \<Rightarrow> max 0 (dt_Size ty)) + TotalSize fs"
proof (induction fs rule: rev_induct)
  case Nil
  show ?case using TotalSize_simps(2) [of "[]" fld] by (simp add: TotalSize_simps(1))
next
  case (snoc g fs)
  then show ?case using TotalSize_simps(2) [of "fld # fs" g] by (simp add: TotalSize_simps(2))
qed

text \<open>One field of a structured payload: its name, its type and the bytes it occupies.\<close>

type_synonym segment = "string \<times> data_type \<times> byte list"

definition segment_field :: "segment \<Rightarrow> typed_field" where
  "segment_field s = (case s of (name, ty, _) \<Rightarrow> \<lparr>fld_Name = name, fld_Type = Some ty\<rparr>)"

definition segment_bytes :: "segment \<Rightarrow> byte list" where
  "segment_bytes s = (case s of (_, _, bs) \<Rightarrow> bs)"

definition encodes :: "segment \<Rightarrow> bool" where
  "encodes s = (case s of (_, ty, bs) \<Rightarrow> library_type ty \<and> (\<exists>v. dt_Encode ty v = Inr bs))"

lemma encodes_decode:
  assumes "encodes (name, ty, bs)"
  shows "\<exists>w. dt_Decode ty bs = Inr (set_value w) \<and> dt_Encode ty w = Inr bs"
    and "int (length bs) = dt_Size ty" and "0 < dt_Size ty"
proof -
  from assms obtain v where ty: "library_type ty" and v: "dt_Encode ty v = Inr bs"
    by (auto simp: encodes_def)
  note codec = library_codec [OF ty]
  show "\<exists>w. dt_Decode ty bs = Inr (set_value w) \<and> dt_Encode ty w = Inr bs"
    using ebus_codec.roundtrip [OF codec v, of "[]"] by simp
  show "int (length bs) = dt_Size ty" using ebus_codec.encode_decode [OF codec v] by blast
  show "0 < dt_Size ty" using ebus_codec.size_pos [OF codec] .
qed

lemma decode_fields_segments:
  assumes "\<forall>s \<in> set segs. encodes s" and "length pre = offset"
  shows "\<exists>vs. decode_fields_from (pre @ concat (map segment_bytes segs) @ rest) offset m (map segment_field segs)
      = Inr (m ++ map_of (rev (zip (map fst segs) (map set_value vs)))) \<and>
    list_all2 (\<lambda>s w. case s of (_, ty, bs) \<Rightarrow> dt_Encode ty w = Inr bs) segs vs"
  using assms
proof (induction segs arbitrary: pre offset m)
  case Nil
  then show ?case by (intro exI [of _ "[]"]) simp
next
  case (Cons s segs)
  obtain name ty bs where s: "s = (name, ty, bs)" by (cases s)
  have enc: "encodes (name, ty, bs)" using Cons.prems(1) s by simp
  obtain w where w: "dt_Decode ty bs = Inr (set_value w)" "dt_Encode ty w = Inr bs"
    using encodes_decode(1) [OF enc] by blast
  note size = encodes_decode(2,3) [OF enc]
  have nat: "nat (dt_Size ty) = length bs" using size by linarith
  let ?payload = "pre @ concat (map segment_bytes (s # segs)) @ rest"
  have split: "?payload = (pre @ bs) @ concat (map segment_bytes segs) @ rest"
    by (simp add: s segment_bytes_def)
  have "length (pre @ bs) = offset + length bs" using Cons.prems(2) by simp
  moreover have "\<forall>s \<in> set segs. encodes s" using Cons.prems(1) by simp
  ultimately obtain vs where vs:
    "decode_fields_from ((pre @ bs) @ concat (map segment_bytes segs) @ rest) (offset + length bs)
       (m(name \<mapsto> set_value w)) (map segment_field segs)
     = Inr (m(name \<mapsto> set_value w) ++ map_of (rev (zip (map fst segs) (map set_value vs))))"
    "list_all2 (\<lambda>s w. case s of (_, ty, bs) \<Rightarrow> dt_Encode ty w = Inr bs) segs vs"
    using Cons.IH [of "pre @ bs" "offset + length bs" "m(name \<mapsto> set_value w)"] by blast
  have "take (length bs) (drop offset ?payload) = bs"
    using Cons.prems(2) by (simp add: s segment_bytes_def)
  moreover have "int offset + dt_Size ty \<le> int (length ?payload)"
    using Cons.prems(2) size(1) by (simp add: s segment_bytes_def)
  ultimately have "decode_fields_from ?payload offset m (map segment_field (s # segs)) =
      decode_fields_from ?payload (offset + length bs) (m(name \<mapsto> set_value w)) (map segment_field segs)"
    using size(2) w(1) nat by (simp add: s segment_field_def Let_def)
  then show ?case
    using vs w(2) unfolding split by (intro exI [of _ "w # vs"]) (simp add: s)
qed

lemma decode_fields_ok:
  assumes "decode_fields_from payload offset m fs = Inr vals" and "offset \<le> length payload"
  shows "int offset + TotalSize fs \<le> int (length payload) \<and> dom vals = dom m \<union> fld_Name ` set fs"
  using assms
proof (induction payload offset m fs rule: decode_fields_from.induct)
  case (1 payload offset m)
  then show ?case by (simp add: TotalSize_simps)
next
  case (2 payload offset m fld fs)
  from "2.prems" obtain ty x where ty: "fld_Type fld = Some ty" "0 < dt_Size ty"
    "int offset + dt_Size ty \<le> int (length payload)"
    "dt_Decode ty (take (nat (dt_Size ty)) (drop offset payload)) = Inr x"
    "decode_fields_from payload (offset + nat (dt_Size ty)) (m(fld_Name fld \<mapsto> x)) fs = Inr vals"
    by (auto simp: Let_def split: option.splits if_splits sum.splits)
  have "offset + nat (dt_Size ty) \<le> length payload" using ty(2,3) by linarith
  with "2.IH" [OF refl ty(1) refl _ _ ty(4,5)] ty show ?case
    by (auto simp: TotalSize_Cons)
qed

section \<open>Properties\<close>



text \<open>
  encoding a float as DATA2b moves it by at most the tolerance of the code divided by 256,
  and a value is accepted exactly when such a grid point exists within the signed 16-bit range
  without the replacement value.
\<close>

theorem DATA2b_Encode_accuracy:
  "(\<exists>bs. DATA2b_Encode (A_float64 (F64_Fin x)) = Inr bs) \<longleftrightarrow>
     - 32767 / 256 \<le> x \<and> x \<le> 32767 / 256 \<and>
     (\<exists>n. \<bar>x * 256 - of_int n\<bar> \<le> data2_epsilon \<and> - 32767 \<le> n \<and> n \<le> 32767 \<and>
       DATA2b_Encode (A_float64 (F64_Fin x)) = Inr (put_uint16 (word_of_int n)) \<and>
       DATA2b_Decode (put_uint16 (word_of_int n)) = Inr (set_value (A_float64 (F64_Fin (of_int n / 256)))))"
proof
  assume "\<exists>bs. DATA2b_Encode (A_float64 (F64_Fin x)) = Inr bs"
  then obtain n where n: "of_int (- 32767) / 256 \<le> x" "x \<le> of_int 32767 / 256"
    "\<bar>x * 256 - of_int n\<bar> \<le> data2_epsilon" "- 32767 \<le> n" "n \<le> 32767"
    "DATA2b_Encode (A_float64 (F64_Fin x)) = Inr (put_uint16 (word_of_int n))"
    by (auto simp: DATA2b_Encode_def data2_Encode_eq f64_finite_def)
  have s: "sint (word_of_int n :: 16 word) = n" using n by (intro sint_of_int_16) auto
  then have "word_of_int n \<noteq> (0x8000 :: 16 word)" using n(4) by auto
  then have "DATA2b_Decode (put_uint16 (word_of_int n)) = Inr (set_value (A_float64 (F64_Fin (of_int n / 256))))"
    using s by (simp add: DATA2b_Decode_def data2_Decode_def Let_def del: of_int_sint)
  with n show "- 32767 / 256 \<le> x \<and> x \<le> 32767 / 256 \<and>
     (\<exists>n. \<bar>x * 256 - of_int n\<bar> \<le> data2_epsilon \<and> - 32767 \<le> n \<and> n \<le> 32767 \<and>
       DATA2b_Encode (A_float64 (F64_Fin x)) = Inr (put_uint16 (word_of_int n)) \<and>
       DATA2b_Decode (put_uint16 (word_of_int n)) = Inr (set_value (A_float64 (F64_Fin (of_int n / 256)))))"
    by auto
qed blast

text \<open>
  Structured payloads.  The concatenation of encoded fields, followed by anything, decodes
  field by field: every name is bound to a valid value that encodes back to its own bytes (for
  distinct names), and nothing else is bound.  Whatever the fields, a success means the payload
  had room for all of them, and binds exactly their names.
\<close>

theorem DecodeFields_segments:
  assumes "\<forall>s \<in> set segs. encodes s" and "distinct (map fst segs)"
  shows "\<exists>vals. DecodeFields (concat (map segment_bytes segs) @ rest) (map segment_field segs) = Inr vals \<and>
    dom vals = fst ` set segs \<and>
    (\<forall>(name, ty, bs) \<in> set segs. \<exists>w. vals name = Some (set_value w) \<and> dt_Encode ty w = Inr bs) \<and>
    TotalSize (map segment_field segs) = int (length (concat (map segment_bytes segs))) \<and>
    (\<forall>payload fs vals'. DecodeFields payload fs = Inr vals' \<longrightarrow>
       TotalSize fs \<le> int (length payload) \<and> dom vals' = fld_Name ` set fs)"
proof -
  from decode_fields_segments [OF assms(1), of "[]" 0 rest Map.empty] obtain vs where vs:
    "DecodeFields (concat (map segment_bytes segs) @ rest) (map segment_field segs)
      = Inr (map_of (rev (zip (map fst segs) (map set_value vs))))"
    "list_all2 (\<lambda>s w. case s of (_, ty, bs) \<Rightarrow> dt_Encode ty w = Inr bs) segs vs"
    by (auto simp: DecodeFields_def)
  have len: "length vs = length segs" using vs(2) by (simp add: list_all2_lengthD)
  let ?al = "zip (map fst segs) (map set_value vs)"
  have keys: "map fst ?al = map fst segs" using len by simp
  have m: "map_of (rev ?al) = map_of ?al"
    using assms(2) keys by (subst map_of_inject_set) (simp_all flip: rev_map)
  have dom: "dom (map_of ?al) = fst ` set segs"
    using keys by (metis dom_map_of_conv_image_fst set_map)
  have bound: "\<exists>w. map_of ?al name = Some (set_value w) \<and> dt_Encode ty w = Inr bs"
    if "(name, ty, bs) \<in> set segs" for name ty bs
  proof -
    from that obtain i where i: "i < length segs" "segs ! i = (name, ty, bs)" by (metis in_set_conv_nth)
    then have "(name, set_value (vs ! i)) \<in> set ?al" using len by (auto simp: set_zip intro!: exI [of _ i])
    then have "map_of ?al name = Some (set_value (vs ! i))"
      using assms(2) keys by (intro map_of_is_SomeI) simp_all
    moreover have "dt_Encode ty (vs ! i) = Inr bs" using vs(2) i by (auto simp: list_all2_conv_all_nth)
    ultimately show ?thesis by blast
  qed
  have total: "TotalSize (map segment_field segs) = int (length (concat (map segment_bytes segs)))"
    using assms(1)
  proof (induction segs)
    case (Cons s segs)
    obtain name ty bs where s: "s = (name, ty, bs)" by (cases s)
    then have "int (length bs) = dt_Size ty" "0 < dt_Size ty"
      using Cons.prems encodes_decode(2,3) [of name ty bs] by auto
    then show ?case
      using Cons s by (simp add: TotalSize_Cons segment_field_def segment_bytes_def)
  qed (simp add: TotalSize_simps)
  have "TotalSize fs \<le> int (length payload) \<and> dom vals' = fld_Name ` set fs"
    if "DecodeFields payload fs = Inr vals'" for payload fs vals'
    using decode_fields_ok [of payload 0 Map.empty fs vals'] that by (simp add: DecodeFields_def)
  then show ?thesis
    using vs(1) m dom bound total by (intro exI [of _ "map_of ?al"]) auto
qed

theorem DecodeFields_segments_witness:
  "\<exists>vals. DecodeFields (concat (map segment_bytes [(''temp'', DATA1b, [0x15]), (''count'', WORD, [0x34, 0x12])]) @ [0x99])
     (map segment_field [(''temp'', DATA1b, [0x15]), (''count'', WORD, [0x34, 0x12])]) = Inr vals"
proof -
  have "dt_Encode DATA1b (A_int8 0x15) = Inr [0x15]" by (simp add: DATA1b_def DATA1b_Encode_def)
  moreover have "dt_Encode WORD (A_uint16 0x1234) = Inr [0x34, 0x12]"
    by (simp add: WORD_def WORD_Encode_def put_uint16_def)
  ultimately have "\<forall>s \<in> set [(''temp'', DATA1b, [0x15]), (''count'', WORD, [0x34, 0x12])]. encodes s"
    by (auto simp: encodes_def library_type_def)
  from DecodeFields_segments [OF this, of "[0x99]"] show ?thesis by auto
qed

end
