(* ===== verification/L7_Types.thy ===== *)
theory L7_Types
  imports Go_Values
begin

text \<open>
  The L7 primitives of the cross-vendor namespace, \<open>protocol/ebus_standard/types\<close>: BYTE, CHAR,
  CHARSigned, CHARText, BCD, BCDComposite, DATA1c and RawPayload with their structured errors,
  and the length-dependent branch selector (\<open>selector.go\<close>).
\<close>

section \<open>Errors and values\<close>

datatype l7_code =
    ErrCodeTruncatedPayload | ErrCodeOverlongPayload | ErrCodeOutOfRange | ErrCodeInvalidNibble
  | ErrCodeAmbiguousSelector | ErrCodeUnknownSelector | ErrCodeInvalidRoundTrip
  | ErrCodeEncodesReplacement | ErrCodeFixedWidthExceeded | ErrCodeInvalidArgument

record decode_error =
  de_Code :: l7_code
  de_Message :: string

definition newDecodeError :: "l7_code \<Rightarrow> string \<Rightarrow> decode_error" where
  "newDecodeError code message = \<lparr>de_Code = code, de_Message = message\<rparr>"

text \<open>\<open>Value\<close>; the \<open>any\<close> in it is a plain value or, for a composite, the slice of part values.\<close>

datatype l7_value = L7_Value
    (l7_Raw: "byte list") (l7_Val: l7_payload) (l7_Valid: bool) (l7_Replacement: bool)
    (l7_Err: "decode_error option")
  and l7_payload = L7_any go_any | L7_parts "l7_value list"

abbreviation l7_ok :: "byte list \<Rightarrow> go_any \<Rightarrow> l7_value" where
  "l7_ok raw v \<equiv> L7_Value raw (L7_any v) True False None"

abbreviation l7_repl :: "byte list \<Rightarrow> l7_value" where
  "l7_repl raw \<equiv> L7_Value raw (L7_any A_nil) False True None"

abbreviation l7_fail :: "byte list \<Rightarrow> l7_code \<Rightarrow> string \<Rightarrow> l7_value" where
  "l7_fail raw c m \<equiv> L7_Value raw (L7_any A_nil) False False (Some (newDecodeError c m))"

definition IsError :: "l7_value \<Rightarrow> bool" where
  "IsError v \<longleftrightarrow> l7_Err v \<noteq> None"

type_synonym l7_encoded = "decode_error + byte list"

abbreviation l7_refuse :: "l7_code \<Rightarrow> string \<Rightarrow> l7_encoded" where
  "l7_refuse c m \<equiv> Inl (newDecodeError c m)"

text \<open>The \<open>toFloat64\<close> of this package: integers go through \<open>toInt64\<close>.\<close>

definition l7_toFloat64 :: "go_any \<Rightarrow> float64 option" where
  "l7_toFloat64 v =
     (case v of A_float32 t \<Rightarrow> Some (f32_to_f64 t) | A_float64 t \<Rightarrow> Some t
      | _ \<Rightarrow> (case toInt64 v of Some i \<Rightarrow> Some (int_to_f64 i) | None \<Rightarrow> None))"

section \<open>Single-octet primitives\<close>

definition BYTE_Decode :: "byte list \<Rightarrow> l7_value" where
  "BYTE_Decode payload =
     (if length payload = 0 then l7_fail [] ErrCodeTruncatedPayload ''BYTE requires 1 byte''
      else if length payload > 1 then l7_fail payload ErrCodeOverlongPayload ''BYTE consumes exactly 1 byte''
      else l7_ok payload (A_uint8 (payload ! 0)))"

definition BYTE_Encode :: "go_any \<Rightarrow> l7_encoded" where
  "BYTE_Encode value =
     (case toInt64 value of
        None \<Rightarrow> l7_refuse ErrCodeInvalidArgument ''BYTE.Encode requires an integer''
      | Some i \<Rightarrow> if i < 0 \<or> i > 255 then l7_refuse ErrCodeOutOfRange ''BYTE value must be in [0,255]''
                  else Inr [word_of_int i])"

definition CHAR_Decode :: "byte list \<Rightarrow> l7_value" where
  "CHAR_Decode payload =
     (if length payload = 0 then l7_fail [] ErrCodeTruncatedPayload ''CHAR requires 1 byte''
      else if length payload > 1 then l7_fail payload ErrCodeOverlongPayload ''CHAR consumes exactly 1 byte''
      else l7_ok payload (A_uint8 (payload ! 0)))"

definition CHAR_Encode :: "go_any \<Rightarrow> l7_encoded" where
  "CHAR_Encode value =
     (case toInt64 value of
        None \<Rightarrow> l7_refuse ErrCodeInvalidArgument ''CHAR.Encode requires an integer''
      | Some i \<Rightarrow> if i < 0 \<or> i > 255 then l7_refuse ErrCodeOutOfRange ''CHAR value must be in [0,255]''
                  else Inr [word_of_int i])"

definition CHARSigned_Decode :: "byte list \<Rightarrow> l7_value" where
  "CHARSigned_Decode payload =
     (if length payload = 0 then l7_fail [] ErrCodeTruncatedPayload ''CHARSigned requires 1 byte''
      else if length payload > 1 then l7_fail payload ErrCodeOverlongPayload ''CHARSigned consumes exactly 1 byte''
      else l7_ok payload (A_int8 (payload ! 0)))"

definition CHARSigned_Encode :: "go_any \<Rightarrow> l7_encoded" where
  "CHARSigned_Encode value =
     (case toInt64 value of
        None \<Rightarrow> l7_refuse ErrCodeInvalidArgument ''CHARSigned.Encode requires an integer''
      | Some i \<Rightarrow> if i < -128 \<or> i > 127 then l7_refuse ErrCodeOutOfRange ''CHARSigned value must be in [-128,127]''
                  else Inr [word_of_int i])"

section \<open>Text\<close>

record char_text =
  ct_Width :: int
  ct_Pad :: "byte option"

definition string_bytes :: "string \<Rightarrow> byte list" where
  "string_bytes s = map (\<lambda>c. word_of_nat (of_char c)) s"

definition byte_char :: "byte \<Rightarrow> char" where
  "byte_char b = char_of (unat b)"

definition hex_digit :: "nat \<Rightarrow> char" where
  "hex_digit n = (if n < 10 then char_of (48 + n) else char_of (55 + n))"

text \<open>A printable byte as itself, any other as backslash, x and two upper-case hex digits.\<close>

definition display_byte :: "byte \<Rightarrow> string" where
  "display_byte b =
     (if b \<ge> 0x20 \<and> b \<le> 0x7E then [byte_char b]
      else [CHR 0x5C, CHR ''x'', hex_digit (unat b div 16), hex_digit (unat b mod 16)])"

definition is_padding :: "char_text \<Rightarrow> byte \<Rightarrow> bool" where
  "is_padding c b = (case ct_Pad c of Some p \<Rightarrow> b = p | None \<Rightarrow> b = 0x00 \<or> b = 0x20)"

text \<open>The loop that moves \<open>end\<close> down over trailing padding.\<close>

fun strip_end :: "char_text \<Rightarrow> byte list \<Rightarrow> nat \<Rightarrow> nat" where
  "strip_end c raw 0 = 0"
| "strip_end c raw (Suc n) = (if is_padding c (raw ! n) then strip_end c raw n else Suc n)"

definition CHARText_Decode :: "char_text \<Rightarrow> byte list \<Rightarrow> l7_value" where
  "CHARText_Decode c payload =
     (if ct_Width c \<le> 0 then l7_fail [] ErrCodeInvalidArgument ''CHARText.Width must be > 0''
      else if int (length payload) < ct_Width c
        then l7_fail payload ErrCodeTruncatedPayload ''CHARText requires exactly Width bytes''
      else if int (length payload) > ct_Width c
        then l7_fail payload ErrCodeOverlongPayload ''CHARText consumes exactly Width bytes''
      else let raw = payload; e = strip_end c raw (length raw)
           in l7_ok raw (A_string (concat (map display_byte (take e raw)))))"

definition CHARText_Encode :: "char_text \<Rightarrow> go_any \<Rightarrow> l7_encoded" where
  "CHARText_Encode c value =
     (if ct_Width c \<le> 0 then l7_refuse ErrCodeInvalidArgument ''CHARText.Width must be > 0''
      else let input = (case value of A_string v \<Rightarrow> Some (string_bytes v) | A_bytes v \<Rightarrow> Some v | _ \<Rightarrow> None) in
        case input of
          None \<Rightarrow> l7_refuse ErrCodeInvalidArgument ''CHARText.Encode requires string or []byte''
        | Some data \<Rightarrow>
            if int (length data) > ct_Width c
            then l7_refuse ErrCodeFixedWidthExceeded ''CHARText input longer than Width''
            else let pad = (case ct_Pad c of Some p \<Rightarrow> p | None \<Rightarrow> 0x20)
                 in Inr (data @ replicate (nat (ct_Width c) - length data) pad))"

section \<open>BCD\<close>

definition decodeSingleBCD :: "byte \<Rightarrow> byte list \<Rightarrow> l7_value" where
  "decodeSingleBCD b raw =
     (if b = 0xFF then l7_repl raw
      else let tens = drop_bit 4 b; ones = b AND 0x0F in
        if tens > 9 \<or> ones > 9 then l7_fail raw ErrCodeInvalidNibble ''BCD nibble greater than 9''
        else l7_ok raw (A_int (ucast tens * 10 + ucast ones)))"

definition l7_BCD_Decode :: "byte list \<Rightarrow> l7_value" where
  "l7_BCD_Decode payload =
     (if length payload = 0 then l7_fail [] ErrCodeTruncatedPayload ''BCD requires 1 byte''
      else if length payload > 1 then l7_fail payload ErrCodeOverlongPayload ''BCD consumes exactly 1 byte''
      else decodeSingleBCD (payload ! 0) payload)"

definition bcd_byte :: "int \<Rightarrow> byte" where
  "bcd_byte i = push_bit 4 (word_of_int (i div 10)) OR word_of_int (i mod 10)"

definition l7_BCD_Encode :: "go_any \<Rightarrow> l7_encoded" where
  "l7_BCD_Encode value =
     (case toInt64 value of
        None \<Rightarrow> l7_refuse ErrCodeInvalidArgument ''BCD.Encode requires an integer''
      | Some i \<Rightarrow> if i < 0 \<or> i > 99 then l7_refuse ErrCodeOutOfRange ''BCD value must be in [0,99]''
                  else Inr [bcd_byte i])"

text \<open>\<open>firstErr\<close> is the error of the first part that has one.\<close>

definition BCDComposite_Decode :: "string list \<Rightarrow> byte list \<Rightarrow> l7_value" where
  "BCDComposite_Decode Components payload =
     (let width = length Components in
      if length payload < width
      then l7_fail payload ErrCodeTruncatedPayload ''BCDComposite payload shorter than Components''
      else if length payload > width
      then l7_fail payload ErrCodeOverlongPayload ''BCDComposite payload longer than Components''
      else let parts = map (\<lambda>b. decodeSingleBCD b [b]) payload;
               firstErr = (case filter (\<lambda>p. l7_Err p \<noteq> None) parts of [] \<Rightarrow> None | p # _ \<Rightarrow> l7_Err p);
               anyReplacement = list_ex l7_Replacement parts in
        if firstErr \<noteq> None then L7_Value payload (L7_parts parts) False False firstErr
        else if anyReplacement then L7_Value payload (L7_parts parts) False True None
        else L7_Value payload (L7_parts parts) True False None)"

fun composite_bytes :: "int list \<Rightarrow> l7_encoded" where
  "composite_bytes [] = Inr []"
| "composite_bytes (v # vs) =
     (if v < 0 \<or> v > 99 then l7_refuse ErrCodeOutOfRange ''BCDComposite component out of [0,99]''
      else case composite_bytes vs of Inl e \<Rightarrow> Inl e | Inr out \<Rightarrow> Inr (bcd_byte v # out))"

definition BCDComposite_Encode :: "string list \<Rightarrow> go_any \<Rightarrow> l7_encoded" where
  "BCDComposite_Encode Components value =
     (case value of
        A_ints ints \<Rightarrow>
          if length ints \<noteq> length Components
          then l7_refuse ErrCodeInvalidArgument ''BCDComposite.Encode arity does not match Components''
          else composite_bytes (map sint ints)
      | _ \<Rightarrow> l7_refuse ErrCodeInvalidArgument ''BCDComposite.Encode requires []int'')"

section \<open>DATA1c\<close>

definition DATA1c_Decode :: "byte list \<Rightarrow> l7_value" where
  "DATA1c_Decode payload =
     (if length payload = 0 then l7_fail [] ErrCodeTruncatedPayload ''DATA1c requires 1 byte''
      else if length payload > 1 then l7_fail payload ErrCodeOverlongPayload ''DATA1c consumes exactly 1 byte''
      else let raw = payload ! 0 in
        if raw = 0xFF then l7_repl payload
        else l7_ok payload (A_float64 (F64_Fin (of_int (uint raw) / 2))))"

definition DATA1c_finite_Encode :: "rat \<Rightarrow> l7_encoded" where
  "DATA1c_finite_Encode f =
     (if f < 0 then l7_refuse ErrCodeOutOfRange ''DATA1c value must be non-negative''
      else if f > 127 then
        (if f = 127 + 1 / 2
         then l7_refuse ErrCodeEncodesReplacement ''DATA1c 127.5 would encode to 0xFF replacement''
         else l7_refuse ErrCodeOutOfRange
           ''DATA1c value must be <= 127 (or exactly 127.5 rejected as replacement)'')
      else let raw = f * 2 in
        if raw - of_int \<lfloor>raw\<rfloor> \<noteq> 0
        then l7_refuse ErrCodeInvalidRoundTrip ''DATA1c value does not align to a 0.5 half-unit''
        else if raw = 255
        then l7_refuse ErrCodeEncodesReplacement ''DATA1c encoded byte would be 0xFF replacement''
        else Inr [word_of_int \<lfloor>raw\<rfloor>])"

definition DATA1c_Encode :: "go_any \<Rightarrow> l7_encoded" where
  "DATA1c_Encode value =
     (case l7_toFloat64 value of
        None \<Rightarrow> l7_refuse ErrCodeInvalidArgument ''DATA1c.Encode requires a numeric value''
      | Some f \<Rightarrow> (case f of
          F64_NaN \<Rightarrow> l7_refuse ErrCodeOutOfRange ''DATA1c value must be finite (NaN/Inf rejected)''
        | F64_Inf _ \<Rightarrow> l7_refuse ErrCodeOutOfRange ''DATA1c value must be finite (NaN/Inf rejected)''
        | F64_NegZero \<Rightarrow> DATA1c_finite_Encode 0
        | F64_Fin x \<Rightarrow> DATA1c_finite_Encode x))"

section \<open>Raw payloads\<close>

record raw_payload =
  rp_MinLen :: int
  rp_MaxLen :: int

definition RawPayload_Decode :: "raw_payload \<Rightarrow> byte list \<Rightarrow> l7_value" where
  "RawPayload_Decode r payload =
     (let n = int (length payload) in
      if n < rp_MinLen r then l7_fail payload ErrCodeTruncatedPayload ''raw payload shorter than MinLen''
      else if n > rp_MaxLen r then l7_fail payload ErrCodeOverlongPayload ''raw payload longer than MaxLen''
      else l7_ok payload (A_bytes payload))"

definition RawPayload_Encode :: "raw_payload \<Rightarrow> go_any \<Rightarrow> l7_encoded" where
  "RawPayload_Encode r value =
     (let input = (case value of A_bytes v \<Rightarrow> Some v | A_string v \<Rightarrow> Some (string_bytes v) | _ \<Rightarrow> None) in
      case input of
        None \<Rightarrow> l7_refuse ErrCodeInvalidArgument ''RawPayload.Encode requires []byte or string''
      | Some data \<Rightarrow>
          if int (length data) < rp_MinLen r
          then l7_refuse ErrCodeTruncatedPayload ''raw payload shorter than MinLen''
          else if int (length data) > rp_MaxLen r
          then l7_refuse ErrCodeOverlongPayload ''raw payload longer than MaxLen''
          else Inr data)"

section \<open>The length-dependent selector\<close>

record selector_input =
  si_PB :: byte
  si_SB :: byte
  si_Direction :: string
  si_Role :: string
  si_LengthPrefix :: int
  si_Payload :: "byte list"
  si_SelectorDecoderID :: string

text \<open>\<open>Match\<close> is a function of the catalog, nil when the length bounds are the only selector.\<close>

record branch =
  br_Name :: string
  br_MinLen :: int
  br_MaxLen :: int
  br_AllowsRawTail :: bool
  br_Match :: "(selector_input \<Rightarrow> bool) option"

record selector_result =
  sr_Selected :: string
  sr_Err :: "decode_error option"

definition selector_fail :: "l7_code \<Rightarrow> string \<Rightarrow> selector_result" where
  "selector_fail c m = \<lparr>sr_Selected = [], sr_Err = Some (newDecodeError c m)\<rparr>"

definition window_fits :: "selector_input \<Rightarrow> branch \<Rightarrow> bool" where
  "window_fits inp br \<longleftrightarrow>
     \<not> si_LengthPrefix inp < br_MinLen br \<and> \<not> si_LengthPrefix inp > br_MaxLen br"

text \<open>The loop that evaluates the predicates; it returns early on a truncated buffer.\<close>

fun match_loop :: "selector_input \<Rightarrow> branch list \<Rightarrow> decode_error + branch list" where
  "match_loop inp [] = Inr []"
| "match_loop inp (br # brs) =
     (let continue = (\<lambda>keep. case match_loop inp brs of
            Inl e \<Rightarrow> Inl e | Inr ms \<Rightarrow> Inr (if keep then br # ms else ms)) in
      case br_Match br of
        None \<Rightarrow> continue True
      | Some f \<Rightarrow>
          if int (length (si_Payload inp)) < br_MinLen br
          then Inl (newDecodeError ErrCodeTruncatedPayload ''payload shorter than branch MinLen'')
          else if int (length (si_Payload inp)) < si_LengthPrefix inp
          then Inl (newDecodeError ErrCodeTruncatedPayload ''payload shorter than declared LengthPrefix'')
          else continue (f inp))"

definition Select :: "branch list \<Rightarrow> selector_input \<Rightarrow> selector_result" where
  "Select Branches inp =
     (let windowFit = filter (window_fits inp) Branches in
      if windowFit = [] then
        (let allTooShort = Branches \<noteq> [] \<and> list_all (\<lambda>br. \<not> si_LengthPrefix inp \<ge> br_MinLen br) Branches;
             allTooLong = Branches \<noteq> [] \<and> list_all (\<lambda>br. \<not> si_LengthPrefix inp \<le> br_MaxLen br) Branches in
         if allTooShort
         then selector_fail ErrCodeTruncatedPayload ''declared length shorter than any branch MinLen''
         else if allTooLong
         then selector_fail ErrCodeOverlongPayload ''declared length longer than any branch MaxLen''
         else selector_fail ErrCodeUnknownSelector ''no branch matches selector inputs'')
      else case match_loop inp windowFit of
        Inl e \<Rightarrow> \<lparr>sr_Selected = [], sr_Err = Some e\<rparr>
      | Inr matches \<Rightarrow>
          if matches \<noteq> [] \<and> int (length (si_Payload inp)) < si_LengthPrefix inp
          then selector_fail ErrCodeTruncatedPayload ''payload shorter than declared length''
          else case matches of
            [] \<Rightarrow> selector_fail ErrCodeUnknownSelector ''no branch matches selector inputs''
          | [winner] \<Rightarrow>
              if \<not> br_AllowsRawTail winner \<and> int (length (si_Payload inp)) > si_LengthPrefix inp
              then selector_fail ErrCodeOverlongPayload ''payload buffer longer than declared LengthPrefix''
              else \<lparr>sr_Selected = br_Name winner, sr_Err = None\<rparr>
          | _ \<Rightarrow> selector_fail ErrCodeAmbiguousSelector ''multiple branches match the same selector inputs'')"

section \<open>Interface: the laws of an L7 codec\<close>

text \<open>
  The contract stated with \<open>Value\<close> and \<open>Codec\<close>: the raw bytes are kept, exactly one of valid,
  replacement and error holds, the length bounds decide truncated and overlong, and what is
  encoded decodes as valid.
\<close>

definition one_outcome :: "l7_value \<Rightarrow> bool" where
  "one_outcome v \<longleftrightarrow>
     (l7_Valid v \<and> \<not> l7_Replacement v \<and> l7_Err v = None) \<or>
     (\<not> l7_Valid v \<and> l7_Replacement v \<and> l7_Err v = None) \<or>
     (\<not> l7_Valid v \<and> \<not> l7_Replacement v \<and> l7_Err v \<noteq> None)"

locale l7_codec =
  fixes dec :: "byte list \<Rightarrow> l7_value"
    and enc :: "go_any \<Rightarrow> l7_encoded"
    and lo :: int and hi :: int
  assumes raw_kept: "l7_Raw (dec p) = p"
    and outcome: "one_outcome (dec p)"
    and truncated: "int (length p) < lo \<Longrightarrow> map_option de_Code (l7_Err (dec p)) = Some ErrCodeTruncatedPayload"
    and overlong: "lo \<le> int (length p) \<Longrightarrow> hi < int (length p) \<Longrightarrow>
      map_option de_Code (l7_Err (dec p)) = Some ErrCodeOverlongPayload"
    and encoded_valid: "enc v = Inr bs \<Longrightarrow> lo \<le> int (length bs) \<and> int (length bs) \<le> hi \<and> l7_Valid (dec bs)"
begin

lemma valid_in_bounds: "l7_Valid (dec p) \<Longrightarrow> lo \<le> int (length p) \<and> int (length p) \<le> hi"
  using truncated [of p] overlong [of p] outcome [of p] by (force simp: one_outcome_def)

end

text \<open>A primitive is lossless: a valid value encodes back to its bytes, and an invalid one is unset.\<close>

locale l7_primitive = l7_codec +
  assumes lossless: "l7_Valid (dec p) \<Longrightarrow> \<exists>a. l7_Val (dec p) = L7_any a \<and> enc a = Inr p"
    and unset: "\<not> l7_Valid (dec p) \<Longrightarrow> l7_Val (dec p) = L7_any A_nil"
begin

lemma roundtrip:
  assumes "enc v = Inr bs"
  shows "\<exists>w. dec bs = l7_ok bs w \<and> enc w = Inr bs"
proof -
  have valid: "l7_Valid (dec bs)" using encoded_valid [OF assms] by blast
  obtain w where "l7_Val (dec bs) = L7_any w" "enc w = Inr bs" using lossless [OF valid] by blast
  then show ?thesis
    using valid raw_kept [of bs] outcome [of bs] by (cases "dec bs") (auto simp: one_outcome_def)
qed

lemma valid_injective:
  "l7_Valid (dec p) \<Longrightarrow> l7_Valid (dec p') \<Longrightarrow> l7_Val (dec p) = l7_Val (dec p') \<Longrightarrow> p = p'"
  using lossless [of p] lossless [of p'] by auto

end

section \<open>The primitives keep the laws\<close>

lemma one_byte: "length p \<noteq> 0 \<Longrightarrow> \<not> length p > 1 \<Longrightarrow> \<exists>b. p = [b]"
  by (cases p; cases "tl p") auto

lemma uint_of_int_8: "0 \<le> i \<Longrightarrow> i < 256 \<Longrightarrow> uint (word_of_int i :: byte) = i"
  by (simp add: uint_word_of_int)

lemma uint_byte_bound [simp]: "\<not> 255 < uint (b :: byte)"
  using uint_lt2p [of b] by simp

lemmas l7_simps = newDecodeError_def one_outcome_def

interpretation l7_byte: l7_primitive BYTE_Decode BYTE_Encode 1 1
proof unfold_locales
  fix p v bs
  show "\<exists>a. l7_Val (BYTE_Decode p) = L7_any a \<and> BYTE_Encode a = Inr p" if "l7_Valid (BYTE_Decode p)"
    using that one_byte [of p] by (auto simp: BYTE_Decode_def BYTE_Encode_def split: if_splits)
qed (auto simp: BYTE_Decode_def BYTE_Encode_def l7_simps split: if_splits option.splits)

interpretation l7_char: l7_primitive CHAR_Decode CHAR_Encode 1 1
proof unfold_locales
  fix p v bs
  show "\<exists>a. l7_Val (CHAR_Decode p) = L7_any a \<and> CHAR_Encode a = Inr p" if "l7_Valid (CHAR_Decode p)"
    using that one_byte [of p] by (auto simp: CHAR_Decode_def CHAR_Encode_def split: if_splits)
qed (auto simp: CHAR_Decode_def CHAR_Encode_def l7_simps split: if_splits option.splits)

interpretation l7_char_signed: l7_primitive CHARSigned_Decode CHARSigned_Encode 1 1
proof unfold_locales
  fix p v bs
  show "\<exists>a. l7_Val (CHARSigned_Decode p) = L7_any a \<and> CHARSigned_Encode a = Inr p"
    if "l7_Valid (CHARSigned_Decode p)"
    using that one_byte [of p] sint_range_8
    by (fastforce simp: CHARSigned_Decode_def CHARSigned_Encode_def not_less word_of_int_sint split: if_splits)
qed (auto simp: CHARSigned_Decode_def CHARSigned_Encode_def l7_simps split: if_splits option.splits)

lemma strip_end_le: "strip_end c raw n \<le> n"
  by (induction n) auto

interpretation l7_text: l7_codec
  "CHARText_Decode \<lparr>ct_Width = int (Suc k), ct_Pad = pad\<rparr>" "CHARText_Encode \<lparr>ct_Width = int (Suc k), ct_Pad = pad\<rparr>"
  "int (Suc k)" "int (Suc k)" for k pad
  by unfold_locales
    (auto simp: CHARText_Decode_def CHARText_Encode_def l7_simps Let_def split: if_splits option.splits go_any.splits)

interpretation l7_raw: l7_primitive "RawPayload_Decode r" "RawPayload_Encode r" "rp_MinLen r" "rp_MaxLen r" for r
  by unfold_locales
    (auto simp: RawPayload_Decode_def RawPayload_Encode_def l7_simps Let_def
      split: if_splits option.splits go_any.splits)

text \<open>BCD by evaluation on every byte and every number up to 99.\<close>

definition l7_bcd_byte_ok :: "byte \<Rightarrow> bool" where
  "l7_bcd_byte_ok b = (case decodeSingleBCD b [b] of L7_Value raw v ok rep e \<Rightarrow>
     if ok then (case v of L7_any a \<Rightarrow> l7_BCD_Encode a = Inr [b] | _ \<Rightarrow> False) else v = L7_any A_nil)"

definition l7_bcd_number_ok :: "nat \<Rightarrow> bool" where
  "l7_bcd_number_ok i = (decodeSingleBCD (bcd_byte (int i)) [bcd_byte (int i)]
     = l7_ok [bcd_byte (int i)] (A_int (word_of_nat i)))"

lemma l7_bcd_byte_ok_all: "list_all l7_bcd_byte_ok all_bytes"
  by code_simp

lemma l7_bcd_number_ok_all: "list_all l7_bcd_number_ok [0..<100]"
  by code_simp

lemma decodeSingleBCD_number:
  assumes "0 \<le> i" and "i \<le> 99"
  shows "decodeSingleBCD (bcd_byte i) [bcd_byte i] = l7_ok [bcd_byte i] (A_int (word_of_int i))"
proof -
  have "l7_bcd_number_ok (nat i)" using l7_bcd_number_ok_all assms by (simp add: list_all_upt)
  then show ?thesis using assms by (simp add: l7_bcd_number_ok_def)
qed

lemma decodeSingleBCD_shape:
  "l7_Raw (decodeSingleBCD b raw) = raw \<and> one_outcome (decodeSingleBCD b raw) \<and>
   (\<not> l7_Valid (decodeSingleBCD b raw) \<longrightarrow> l7_Val (decodeSingleBCD b raw) = L7_any A_nil)"
  by (auto simp: decodeSingleBCD_def l7_simps Let_def)

lemma decodeSingleBCD_lossless:
  assumes "l7_Valid (decodeSingleBCD b [b])"
  shows "\<exists>a. l7_Val (decodeSingleBCD b [b]) = L7_any a \<and> l7_BCD_Encode a = Inr [b]"
proof -
  have "l7_bcd_byte_ok b" using l7_bcd_byte_ok_all by (simp add: list_all_iff)
  then show ?thesis
    using assms by (cases "decodeSingleBCD b [b]") (auto simp: l7_bcd_byte_ok_def split: l7_payload.splits)
qed

interpretation l7_bcd: l7_primitive l7_BCD_Decode l7_BCD_Encode 1 1
proof unfold_locales
  fix p v bs
  show "\<exists>a. l7_Val (l7_BCD_Decode p) = L7_any a \<and> l7_BCD_Encode a = Inr p" if "l7_Valid (l7_BCD_Decode p)"
    using that one_byte [of p] decodeSingleBCD_lossless
    by (auto simp: l7_BCD_Decode_def split: if_splits)
  show "1 \<le> int (length bs) \<and> int (length bs) \<le> 1 \<and> l7_Valid (l7_BCD_Decode bs)"
    if "l7_BCD_Encode v = Inr bs"
    using that decodeSingleBCD_number
    by (auto simp: l7_BCD_Decode_def l7_BCD_Encode_def not_less split: if_splits option.splits)
qed (use decodeSingleBCD_shape in \<open>auto simp: l7_BCD_Decode_def l7_simps split: if_splits option.splits\<close>)

lemma DATA1c_finite_Encode_eq:
  "DATA1c_finite_Encode x = Inr bs \<longleftrightarrow> (\<exists>n. 0 \<le> n \<and> n \<le> 254 \<and> x = of_int n / 2 \<and> bs = [word_of_int n])"
proof
  assume *: "DATA1c_finite_Encode x = Inr bs"
  then have x: "0 \<le> x" "x \<le> 127" "x * 2 = of_int \<lfloor>x * 2\<rfloor>" "bs = [word_of_int \<lfloor>x * 2\<rfloor>]"
    by (auto simp: DATA1c_finite_Encode_def Let_def not_less split: if_splits)
  let ?n = "\<lfloor>x * 2\<rfloor>"
  have "0 \<le> ?n" using x(1) by simp
  moreover have "?n \<le> 254"
  proof -
    have "(of_int ?n :: rat) \<le> of_int 254" unfolding x(3) [symmetric] using x(2) by simp
    then show ?thesis by (simp only: of_int_le_iff)
  qed
  moreover have "x = of_int ?n / 2" using x(3) by simp
  ultimately show "\<exists>n. 0 \<le> n \<and> n \<le> 254 \<and> x = of_int n / 2 \<and> bs = [word_of_int n]" using x(4) by blast
next
  assume "\<exists>n. 0 \<le> n \<and> n \<le> 254 \<and> x = of_int n / 2 \<and> bs = [word_of_int n]"
  then obtain n where n: "0 \<le> n" "n \<le> 254" "x = of_int n / 2" "bs = [word_of_int n]" by blast
  have "(0 :: rat) \<le> of_int n" "(of_int n :: rat) \<le> of_int 254" using n by (simp_all only: of_int_le_iff of_int_0_le_iff)
  then have "0 \<le> x" "x \<le> 127" "x * 2 = of_int n" "x * 2 \<noteq> 255" using n(3) by auto
  then show "DATA1c_finite_Encode x = Inr bs"
    using n(4) by (auto simp: DATA1c_finite_Encode_def Let_def)
qed

interpretation l7_data1c: l7_primitive DATA1c_Decode DATA1c_Encode 1 1
proof unfold_locales
  fix p v bs
  show "\<exists>a. l7_Val (DATA1c_Decode p) = L7_any a \<and> DATA1c_Encode a = Inr p" if "l7_Valid (DATA1c_Decode p)"
  proof -
    from that obtain b where b: "p = [b]" "b \<noteq> 0xFF"
      using one_byte [of p] by (auto simp: DATA1c_Decode_def Let_def split: if_splits)
    have "uint b \<noteq> 255"
    proof
      assume "uint b = 255"
      then have "b = word_of_int 255" by (metis word_of_int_uint)
      then show False using b(2) by simp
    qed
    then have "uint b \<le> 254" using uint_byte_bound [of b] by linarith
    then have "DATA1c_finite_Encode (of_int (uint b) / 2) = Inr [b]"
      unfolding DATA1c_finite_Encode_eq by (intro exI [of _ "uint b"]) simp
    then show ?thesis
      using b by (auto simp: DATA1c_Decode_def DATA1c_Encode_def l7_toFloat64_def simp del: of_int_uint)
  qed
  show "1 \<le> int (length bs) \<and> int (length bs) \<le> 1 \<and> l7_Valid (DATA1c_Decode bs)" if "DATA1c_Encode v = Inr bs"
  proof -
    from that obtain x where "DATA1c_finite_Encode x = Inr bs"
      by (auto simp: DATA1c_Encode_def split: option.splits float64.splits)
    then obtain n where n: "0 \<le> n" "n \<le> 254" "bs = [word_of_int n]" by (auto simp: DATA1c_finite_Encode_eq)
    then have "uint (word_of_int n :: byte) = n" by (intro uint_of_int_8) auto
    then have "word_of_int n \<noteq> (0xFF :: byte)" using n(2) by auto
    then show ?thesis using n(3) by (simp add: DATA1c_Decode_def Let_def)
  qed
qed (auto simp: DATA1c_Decode_def l7_simps Let_def split: if_splits)

section \<open>Lemmas for composites, text and the selector\<close>

lemma composite_bytes_eq:
  "composite_bytes vs = (if list_all (\<lambda>v. 0 \<le> v \<and> v \<le> 99) vs then Inr (map bcd_byte vs)
     else l7_refuse ErrCodeOutOfRange ''BCDComposite component out of [0,99]'')"
  by (induction vs) (auto simp: not_less)

lemma composite_parts:
  assumes "list_all (\<lambda>v. 0 \<le> v \<and> v \<le> 99) (map sint ints)"
  shows "map (\<lambda>b. decodeSingleBCD b [b]) (map bcd_byte (map sint ints)) =
    map (\<lambda>i. l7_ok [bcd_byte (sint i)] (A_int i)) ints"
  using assms by (induction ints) (simp_all add: decodeSingleBCD_number word_of_int_sint)

definition printable :: "char \<Rightarrow> bool" where
  "printable c \<longleftrightarrow> 32 \<le> (of_char c :: nat) \<and> (of_char c :: nat) \<le> 126"

lemma display_printable:
  assumes "printable c"
  shows "display_byte (word_of_nat (of_char c)) = [c]"
proof -
  have u: "unat (word_of_nat (of_char c) :: byte) = of_char c"
    using assms by (intro unat_byte_of_nat) (simp add: printable_def)
  have "(word_of_nat (of_char c) :: byte) \<ge> 0x20" "(word_of_nat (of_char c) :: byte) \<le> 0x7E"
    using assms u by (simp_all add: word_le_nat_alt printable_def)
  then show ?thesis using u by (simp add: display_byte_def byte_char_def)
qed

lemma display_string: "list_all printable s \<Longrightarrow> concat (map display_byte (string_bytes s)) = s"
  by (induction s) (simp_all add: string_bytes_def display_printable)

lemma strip_end_append: "n \<le> length xs \<Longrightarrow> strip_end c (xs @ [x]) n = strip_end c xs n"
  by (induction n) (simp_all add: nth_append)

lemma strip_end_pad:
  assumes "list_all (is_padding c) pads" and "data = [] \<or> \<not> is_padding c (last data)"
  shows "strip_end c (data @ pads) (length data + length pads) = length data"
  using assms(1)
proof (induction pads rule: rev_induct)
  case Nil
  show ?case
  proof (cases data rule: rev_cases)
    case (snoc ys y)
    then show ?thesis using assms(2) by (simp add: nth_append)
  qed simp
next
  case (snoc x pads)
  then show ?case
    using strip_end_append [of "length data + length pads" "data @ pads" c x]
    by (simp add: nth_append)
qed

text \<open>What a branch must satisfy to be a candidate, and the selection by candidates.\<close>

definition eligible :: "selector_input \<Rightarrow> branch \<Rightarrow> bool" where
  "eligible inp br \<longleftrightarrow> br_MinLen br \<le> si_LengthPrefix inp \<and> si_LengthPrefix inp \<le> br_MaxLen br \<and>
     (case br_Match br of None \<Rightarrow> True | Some f \<Rightarrow> f inp)"

lemma match_loop_truncated:
  assumes "list_all (window_fits inp) brs" and "int (length (si_Payload inp)) < si_LengthPrefix inp"
  shows "case match_loop inp brs of
      Inl e \<Rightarrow> de_Code e = ErrCodeTruncatedPayload | Inr ms \<Rightarrow> ms = brs"
  using assms by (induction brs) (auto simp: newDecodeError_def Let_def split: option.splits sum.splits)

lemma match_loop_complete:
  assumes "list_all (window_fits inp) brs" and "si_LengthPrefix inp \<le> int (length (si_Payload inp))"
  shows "match_loop inp brs = Inr (filter (eligible inp) brs)"
  using assms
  by (induction brs) (auto simp: Let_def window_fits_def eligible_def not_less split: option.splits)

lemma filter_eligible_window: "filter (eligible inp) (filter (window_fits inp) brs) = filter (eligible inp) brs"
  by (induction brs) (auto simp: eligible_def window_fits_def)

definition outcome_code :: "selector_result \<Rightarrow> l7_code + string" where
  "outcome_code r = (case sr_Err r of Some e \<Rightarrow> Inl (de_Code e) | None \<Rightarrow> Inr (sr_Selected r))"

section \<open>Properties\<close>

text \<open>The primitives behind one interface, as the \<open>Codec\<close> interface of the package.\<close>

datatype l7_prim = P_BYTE | P_CHAR | P_CHARSigned | P_BCD | P_DATA1c | P_Raw raw_payload

fun prim_Decode :: "l7_prim \<Rightarrow> byte list \<Rightarrow> l7_value" where
  "prim_Decode P_BYTE = BYTE_Decode"
| "prim_Decode P_CHAR = CHAR_Decode"
| "prim_Decode P_CHARSigned = CHARSigned_Decode"
| "prim_Decode P_BCD = l7_BCD_Decode"
| "prim_Decode P_DATA1c = DATA1c_Decode"
| "prim_Decode (P_Raw r) = RawPayload_Decode r"

fun prim_Encode :: "l7_prim \<Rightarrow> go_any \<Rightarrow> l7_encoded" where
  "prim_Encode P_BYTE = BYTE_Encode"
| "prim_Encode P_CHAR = CHAR_Encode"
| "prim_Encode P_CHARSigned = CHARSigned_Encode"
| "prim_Encode P_BCD = l7_BCD_Encode"
| "prim_Encode P_DATA1c = DATA1c_Encode"
| "prim_Encode (P_Raw r) = RawPayload_Encode r"

lemma prim_codec: "\<exists>lo hi. l7_primitive (prim_Decode t) (prim_Encode t) lo hi"
  using l7_byte.l7_primitive_axioms l7_char.l7_primitive_axioms l7_char_signed.l7_primitive_axioms
    l7_bcd.l7_primitive_axioms l7_data1c.l7_primitive_axioms l7_raw.l7_primitive_axioms
  by (cases t) auto

text \<open>
  the contract of the L7 primitives.  A decode keeps the raw bytes and ends in exactly one
  of valid, replacement and error; a valid value encodes back to its bytes and an invalid one is
  unset; whatever is encoded decodes as valid, to a value with the same encoding.
\<close>

theorem l7_primitives_lossless:
  "l7_Raw (prim_Decode t p) = p \<and> one_outcome (prim_Decode t p) \<and>
   (if l7_Valid (prim_Decode t p)
    then \<exists>a. l7_Val (prim_Decode t p) = L7_any a \<and> prim_Encode t a = Inr p
    else l7_Val (prim_Decode t p) = L7_any A_nil) \<and>
   (case prim_Encode t v of
      Inl _ \<Rightarrow> True
    | Inr bs \<Rightarrow> \<exists>w. prim_Decode t bs = l7_ok bs w \<and> prim_Encode t w = Inr bs)"
proof -
  obtain lo hi where codec: "l7_primitive (prim_Decode t) (prim_Encode t) lo hi" using prim_codec by blast
  then have base: "l7_codec (prim_Decode t) (prim_Encode t) lo hi" by (simp add: l7_primitive_def)
  have "case prim_Encode t v of Inl _ \<Rightarrow> True
      | Inr bs \<Rightarrow> \<exists>w. prim_Decode t bs = l7_ok bs w \<and> prim_Encode t w = Inr bs"
    using l7_primitive.roundtrip [OF codec, of v] by (auto split: sum.splits)
  then show ?thesis
    using l7_codec.raw_kept [OF base, of p] l7_codec.outcome [OF base, of p]
      l7_primitive.lossless [OF codec, of p] l7_primitive.unset [OF codec, of p] by auto
qed

text \<open>
  A composite of BCD numbers round-trips component by component, and its encoder refuses
  exactly wrong arity and components outside 0 to 99.
\<close>

theorem BCDComposite_roundtrip:
  "(case BCDComposite_Encode cs (A_ints ints) of
      Inl e \<Rightarrow> (de_Code e = ErrCodeInvalidArgument \<and> length ints \<noteq> length cs) \<or>
        (de_Code e = ErrCodeOutOfRange \<and> length ints = length cs \<and> \<not> list_all (\<lambda>v. 0 \<le> v \<and> v \<le> 99) (map sint ints))
    | Inr bs \<Rightarrow> BCDComposite_Decode cs bs =
        L7_Value bs (L7_parts (map (\<lambda>i. l7_ok [bcd_byte (sint i)] (A_int i)) ints)) True False None)"
proof (cases "length ints = length cs \<and> list_all (\<lambda>v. 0 \<le> v \<and> v \<le> 99) (map sint ints)")
  case True
  have none: "filter (\<lambda>p. l7_Err p \<noteq> None) (map (\<lambda>i. l7_ok [bcd_byte (sint i)] (A_int i)) ints) = []"
    "\<not> list_ex l7_Replacement (map (\<lambda>i. l7_ok [bcd_byte (sint i)] (A_int i)) ints)"
    by (simp_all add: filter_empty_conv list_ex_iff)
  have "BCDComposite_Encode cs (A_ints ints) = Inr (map bcd_byte (map sint ints))"
    using True by (simp add: BCDComposite_Encode_def composite_bytes_eq del: map_map)
  moreover have "BCDComposite_Decode cs (map bcd_byte (map sint ints)) =
      L7_Value (map bcd_byte (map sint ints)) (L7_parts (map (\<lambda>i. l7_ok [bcd_byte (sint i)] (A_int i)) ints)) True False None"
    using True none by (simp add: BCDComposite_Decode_def Let_def composite_parts del: map_map)
  ultimately show ?thesis by simp
next
  case False
  then show ?thesis
    by (auto simp: BCDComposite_Encode_def composite_bytes_eq newDecodeError_def split: if_splits)
qed

text \<open>
  The documentation of \<open>Value\<close> says that the value is unset when \<open>Valid\<close> is false; a composite with
  a replacement component keeps its parts.
\<close>

lemma BCDComposite_keeps_parts:
  "\<not> l7_Valid (BCDComposite_Decode [''day''] [0xFF]) \<and>
   l7_Val (BCDComposite_Decode [''day''] [0xFF]) = L7_parts [l7_repl [0xFF]]"
  by (simp add: BCDComposite_Decode_def decodeSingleBCD_def)

text \<open>
  text round trip.  Printable text that fits the field and does not end in padding is
  displayed unchanged after encoding and decoding, whatever pad byte the field declares.
\<close>

theorem CHARText_roundtrip:
  assumes "list_all printable s" and "int (length s) \<le> ct_Width c" and "0 < ct_Width c"
    and "s = [] \<or> \<not> is_padding c (last (string_bytes s))"
  shows "\<exists>bs. CHARText_Encode c (A_string s) = Inr bs \<and> int (length bs) = ct_Width c \<and>
    CHARText_Decode c bs = l7_ok bs (A_string s)"
proof -
  let ?pad = "case ct_Pad c of Some p \<Rightarrow> p | None \<Rightarrow> 0x20"
  let ?pads = "replicate (nat (ct_Width c) - length s) ?pad"
  let ?bs = "string_bytes s @ ?pads"
  have len: "length (string_bytes s) = length s" by (simp add: string_bytes_def)
  have enc: "CHARText_Encode c (A_string s) = Inr ?bs"
    using assms(2,3) len by (simp add: CHARText_Encode_def Let_def)
  have width: "int (length ?bs) = ct_Width c" using assms(2,3) len by simp
  have "list_all (is_padding c) ?pads" by (auto simp: list_all_iff is_padding_def split: option.splits)
  moreover have "string_bytes s = [] \<or> \<not> is_padding c (last (string_bytes s))"
    using assms(4) by (auto simp: string_bytes_def)
  ultimately have "strip_end c ?bs (length ?bs) = length (string_bytes s)"
    using strip_end_pad [of c ?pads "string_bytes s"] by simp
  then have "CHARText_Decode c ?bs = l7_ok ?bs (A_string s)"
    using width assms(1,3) by (simp add: CHARText_Decode_def Let_def display_string)
  then show ?thesis using enc width by blast
qed

theorem CHARText_roundtrip_witness:
  "\<exists>bs. CHARText_Encode \<lparr>ct_Width = 5, ct_Pad = Some 0xFF\<rparr> (A_string ''VR 70'') = Inr bs \<and>
     CHARText_Decode \<lparr>ct_Width = 5, ct_Pad = Some 0xFF\<rparr> bs = l7_ok bs (A_string ''VR 70'')"
  using CHARText_roundtrip [of "''VR 70''" "\<lparr>ct_Width = 5, ct_Pad = Some 0xFF\<rparr>"]
  by (auto simp: printable_def is_padding_def string_bytes_def)

text \<open>
  The selector.  With no branch whose window holds the declared length it reports truncated
  when every window starts above it, overlong when every window ends below it, and unknown
  otherwise.  With such a branch a buffer shorter than the declared length is always truncated;
  otherwise the candidates decide: none is unknown, one is selected unless the buffer is too long
  for it, several are ambiguous.
\<close>

theorem Select_by_candidates:
  "outcome_code (Select brs inp) =
    (if \<not> list_ex (window_fits inp) brs then
       (if brs \<noteq> [] \<and> list_all (\<lambda>b. si_LengthPrefix inp < br_MinLen b) brs then Inl ErrCodeTruncatedPayload
        else if brs \<noteq> [] \<and> list_all (\<lambda>b. br_MaxLen b < si_LengthPrefix inp) brs then Inl ErrCodeOverlongPayload
        else Inl ErrCodeUnknownSelector)
     else if int (length (si_Payload inp)) < si_LengthPrefix inp then Inl ErrCodeTruncatedPayload
     else case filter (eligible inp) brs of
         [] \<Rightarrow> Inl ErrCodeUnknownSelector
       | [b] \<Rightarrow> if br_AllowsRawTail b \<or> int (length (si_Payload inp)) = si_LengthPrefix inp
                then Inr (br_Name b) else Inl ErrCodeOverlongPayload
       | _ \<Rightarrow> Inl ErrCodeAmbiguousSelector)"
proof -
  let ?w = "filter (window_fits inp) brs" and ?n = "int (length (si_Payload inp))"
  have all: "list_all (window_fits inp) ?w" by (simp add: list_all_iff)
  have empty: "?w = [] \<longleftrightarrow> \<not> list_ex (window_fits inp) brs" by (auto simp: filter_empty_conv list_ex_iff)
  consider "?w = []" | "?w \<noteq> []" "?n < si_LengthPrefix inp" | "?w \<noteq> []" "si_LengthPrefix inp \<le> ?n" by linarith
  then show ?thesis
  proof cases
    case 1
    then show ?thesis using empty
      by (simp add: Select_def outcome_code_def selector_fail_def newDecodeError_def not_le Let_def)
  next
    case 2
    then show ?thesis using match_loop_truncated [OF all] empty
      by (auto simp: Select_def outcome_code_def selector_fail_def newDecodeError_def Let_def split: sum.splits)
  next
    case 3
    then have m: "match_loop inp ?w = Inr (filter (eligible inp) brs)"
      using match_loop_complete [OF all] filter_eligible_window [of inp brs] by simp
    show ?thesis
      using 3 empty
      by (auto simp: Select_def m outcome_code_def selector_fail_def newDecodeError_def Let_def split: list.splits)
  qed
qed

end
