(* ===== verification/Bus_Events.thy ===== *)
theory Bus_Events
  imports Wire_Escape
begin

text \<open>
  The observable side of the bus engine: event and outcome vocabulary (\<open>protocol/observer.go\<close>),
  the classification of errors into outcomes and retry reasons, and the delivery of events to an
  observer that may fail or panic (\<open>protocol/bus.go\<close>, from \<open>emitAttemptComplete\<close> to the end).  The
  state of the engine and the operations of its transport are declared here as well, because
  every emission is a step of that state.
\<close>

section \<open>Vocabulary\<close>

datatype bus_event_kind =
    BusEventArbitration | BusEventTX | BusEventRX | BusEventACK | BusEventNACK | BusEventTimeout
  | BusEventCRCMismatch | BusEventEchoMismatch | BusEventRetry | BusEventAttemptComplete
  | BusEventRequestComplete | BusEventObserverFault | BusEventAdapterReset

datatype bus_outcome =
    BusOutcomeUnknown | BusOutcomeSuccess | BusOutcomeTimeout | BusOutcomeNACK
  | BusOutcomeCRCMismatch | BusOutcomeEchoMismatch | BusOutcomeCollision
  | BusOutcomeObserverFault | BusOutcomeAdapterReset

datatype bus_retry_reason =
    BusRetryReasonUnknown | BusRetryReasonTimeout | BusRetryReasonNACK | BusRetryReasonCRCMismatch
  | BusRetryReasonCollision | BusRetryReasonAdapterReset

text \<open>\<open>BusEvent\<close> without its wall-clock duration.\<close>

record bus_event =
  ev_Kind :: bus_event_kind
  ev_FrameType :: frame_type
  ev_Outcome :: bus_outcome
  ev_Retry :: bus_retry_reason
  ev_Initiator :: byte
  ev_Byte :: byte
  ev_ByteKnown :: bool
  ev_EchoWasEscaped :: bool
  ev_Attempt :: "16 word"
  ev_TimeoutRetries :: "16 word"
  ev_NACKRetries :: "16 word"
  ev_Request :: frame
  ev_Response :: frame
  ev_HasRequest :: bool
  ev_HasResponse :: bool

definition zero_frame :: frame where
  "zero_frame = \<lparr>Source = 0, Target = 0, Primary = 0, Secondary = 0, Data = [], FrameType = FrameTypeUnknown\<rparr>"

text \<open>The composite literal \<open>BusEvent{Kind: k, Outcome: o}\<close>: everything else is the zero value.\<close>

definition event :: "bus_event_kind \<Rightarrow> bus_outcome \<Rightarrow> bus_event" where
  "event k o' = \<lparr>ev_Kind = k, ev_FrameType = FrameTypeUnknown, ev_Outcome = o', ev_Retry = BusRetryReasonUnknown,
     ev_Initiator = 0, ev_Byte = 0, ev_ByteKnown = False, ev_EchoWasEscaped = False, ev_Attempt = 0,
     ev_TimeoutRetries = 0, ev_NACKRetries = 0, ev_Request = zero_frame, ev_Response = zero_frame,
     ev_HasRequest = False, ev_HasResponse = False\<rparr>"

record retry_policy =
  TimeoutRetries :: int
  NACKRetries :: int

text \<open>
  An observer answers an event with nil, an error or a panic; what it answers may depend on every
  event it was given before.
\<close>

datatype observer_reply = ObserverNil | ObserverError go_error | ObserverPanic string

type_synonym observer = "bus_event list \<Rightarrow> bus_event \<Rightarrow> observer_reply"

record bus_config =
  cfg_InitiatorTarget :: retry_policy
  cfg_InitiatorInitiator :: retry_policy
  cfg_Observer :: "observer option"
  cfg_ReconnectRetries :: int
  cfg_ReconnectDelay :: int

definition DefaultBusConfig :: bus_config where
  "DefaultBusConfig = \<lparr>cfg_InitiatorTarget = \<lparr>TimeoutRetries = 0, NACKRetries = 1\<rparr>,
     cfg_InitiatorInitiator = \<lparr>TimeoutRetries = 0, NACKRetries = 1\<rparr>, cfg_Observer = None,
     cfg_ReconnectRetries = 3, cfg_ReconnectDelay = 2 * 1000000000\<rparr>"

record bus_retry_envelope =
  env_InitiatorTarget :: retry_policy
  env_InitiatorInitiator :: retry_policy
  env_CollisionResyncSYNCount :: int

definition CollisionRetryResyncSYNCount :: int where "CollisionRetryResyncSYNCount = 2"

definition RetryEnvelope :: "bus_config \<Rightarrow> bus_retry_envelope" where
  "RetryEnvelope c = \<lparr>env_InitiatorTarget = cfg_InitiatorTarget c,
     env_InitiatorInitiator = cfg_InitiatorInitiator c,
     env_CollisionResyncSYNCount = CollisionRetryResyncSYNCount\<rparr>"

definition DefaultRetryEnvelope :: bus_retry_envelope where
  "DefaultRetryEnvelope = RetryEnvelope DefaultBusConfig"

section \<open>Transport and engine state\<close>

datatype collision_recovery_decision = CollisionRecoveryRetry | CollisionRecoveryAbandon

datatype sleep_end = Slept | SleepRunDone go_error | SleepRequestDone go_error

text \<open>
  What the engine asks of its surroundings while it serves one request.  \<open>'t\<close> is the state of the
  transport and of everything else outside; every operation may change it.  The optional
  interfaces a transport may implement are options, as type assertions see them.  \<open>env_reqErr\<close>
  and \<open>env_runErr\<close> are \<open>Err()\<close> of the request and run contexts, \<open>env_sleep\<close> a select over a timer
  and the two contexts.
\<close>

record 't transport_ops =
  op_ReadByte :: "'t \<Rightarrow> 't \<times> byte result"
  op_Write :: "'t \<Rightarrow> byte list \<Rightarrow> 't \<times> int result"
  op_BytesAreUnescaped :: "bool option"
  op_ReadByteWithEscape :: "('t \<Rightarrow> 't \<times> (byte \<times> bool) result) option"
  op_StartArbitration :: "('t \<Rightarrow> byte \<Rightarrow> 't \<times> go_error option) option"
  op_ArbitrationSendsSource :: "bool option"
  op_SignalStructuralSyn :: "('t \<Rightarrow> 't) option"
  op_Reconnect :: "('t \<Rightarrow> 't \<times> go_error option) option"
  op_CollisionRecovery :: "(('t \<Rightarrow> 't \<times> 64 word) \<times> ('t \<Rightarrow> 64 word \<Rightarrow> collision_recovery_decision \<Rightarrow> 't)) option"
  env_reqErr :: "'t \<Rightarrow> 't \<times> go_error option"
  env_runErr :: "'t \<Rightarrow> 't \<times> go_error option"
  env_sleep :: "'t \<Rightarrow> int \<Rightarrow> 't \<times> sleep_end"

text \<open>What does not change while the engine runs.\<close>

record 't bus_static =
  bs_ops :: "'t transport_ops"
  bs_config :: bus_config
  bs_unescaped :: bool

definition unescaped_flag :: "'t transport_ops \<Rightarrow> bool" where
  "unescaped_flag ops = (case op_BytesAreUnescaped ops of Some b \<Rightarrow> b | None \<Rightarrow> False)"

record observer_fault =
  of_Count :: "64 word"
  of_LastKind :: "bus_event_kind option"
  of_LastOutcome :: bus_outcome
  of_LastPanic :: bool
  of_LastError :: string

text \<open>Bytes on the wire as the engine sees them; the history is kept for the statements only.\<close>

datatype wire_io = Wrote byte | Got byte bool

record 't bus =
  b_world :: 't
  b_wire :: "wire_io list"
  b_events :: "bus_event list"
  b_observerFault :: observer_fault
  payloadAaAutoSynAbsorbed :: "64 word"
  payloadAaAutoSynRecovered :: "64 word"
  payloadAaAutoSynDrainExhausted :: "64 word"
  activeEchoWaits :: "32 word"
  round9AbsorbEntered :: "64 word"

definition new_bus_state :: "'t \<Rightarrow> 't bus" where
  "new_bus_state w = \<lparr>b_world = w, b_wire = [], b_events = [],
     b_observerFault = \<lparr>of_Count = 0, of_LastKind = None, of_LastOutcome = BusOutcomeUnknown,
       of_LastPanic = False, of_LastError = []\<rparr>,
     payloadAaAutoSynAbsorbed = 0, payloadAaAutoSynRecovered = 0, payloadAaAutoSynDrainExhausted = 0,
     activeEchoWaits = 0, round9AbsorbEntered = 0\<rparr>"

section \<open>Classification of errors\<close>

definition containsSubstring :: "string \<Rightarrow> string \<Rightarrow> bool" where
  "containsSubstring value needle =
     (length needle \<le> length value \<and>
      list_ex (\<lambda>i. take (length needle) (drop i value) = needle) [0..<length value - length needle + 1])"

definition stringsContains :: "string \<Rightarrow> string \<Rightarrow> bool" where
  "stringsContains value needle \<longleftrightarrow>
     length needle > 0 \<and> length value \<ge> length needle \<and> (value = needle \<or> containsSubstring value needle)"

definition containsEchoMismatch :: "go_error option \<Rightarrow> bool" where
  "containsEchoMismatch err =
     (case err of None \<Rightarrow> False | Some e \<Rightarrow> stringsContains (error_message e) ''echo mismatch'')"

definition busOutcomeFromError :: "go_error option \<Rightarrow> bus_outcome" where
  "busOutcomeFromError err =
     (if err = None then BusOutcomeSuccess
      else if err_is err ErrTimeout then BusOutcomeTimeout
      else if err_is err ErrNACK then BusOutcomeNACK
      else if err_is err ErrCRCMismatch then BusOutcomeCRCMismatch
      else if err_is err ErrBusCollision
        then (if containsEchoMismatch err then BusOutcomeEchoMismatch else BusOutcomeCollision)
      else if err_is err ErrAdapterReset then BusOutcomeAdapterReset
      else BusOutcomeUnknown)"

definition busRetryReasonFromError :: "go_error option \<Rightarrow> bus_retry_reason" where
  "busRetryReasonFromError err =
     (case busOutcomeFromError err of
        BusOutcomeTimeout \<Rightarrow> BusRetryReasonTimeout
      | BusOutcomeNACK \<Rightarrow> BusRetryReasonNACK
      | BusOutcomeCRCMismatch \<Rightarrow> BusRetryReasonCRCMismatch
      | BusOutcomeCollision \<Rightarrow> BusRetryReasonCollision
      | BusOutcomeEchoMismatch \<Rightarrow> BusRetryReasonCollision
      | BusOutcomeAdapterReset \<Rightarrow> BusRetryReasonAdapterReset
      | _ \<Rightarrow> BusRetryReasonUnknown)"

text \<open>\<open>errors.As\<close> for the marker type: pre-order search of the wrap tree.\<close>

fun echoMismatchAlreadyEmitted :: "go_error \<Rightarrow> bool" where
  "echoMismatchAlreadyEmitted (Sentinel s) = False"
| "echoMismatchAlreadyEmitted (Opaque m) = False"
| "echoMismatchAlreadyEmitted (Wrap pre e post) = echoMismatchAlreadyEmitted e"
| "echoMismatchAlreadyEmitted (Joined es) = list_ex echoMismatchAlreadyEmitted es"
| "echoMismatchAlreadyEmitted (EchoMismatchEmitted e) = True"

section \<open>Delivery\<close>

definition callObserver :: "observer \<Rightarrow> 't bus \<Rightarrow> bus_event \<Rightarrow> 't bus \<times> (go_error \<times> bool) option" where
  "callObserver ob b ev =
     (b\<lparr>b_events := b_events b @ [ev]\<rparr>,
      case ob (b_events b) ev of
        ObserverNil \<Rightarrow> None
      | ObserverError e \<Rightarrow> Some (e, False)
      | ObserverPanic m \<Rightarrow> Some (Opaque (''observer panic: '' @ m), True))"

definition recordObserverFault :: "'t bus \<Rightarrow> bus_event \<Rightarrow> go_error \<times> bool \<Rightarrow> 't bus" where
  "recordObserverFault b ev res =
     b\<lparr>b_observerFault := (b_observerFault b)
        \<lparr>of_Count := of_Count (b_observerFault b) + 1, of_LastKind := Some (ev_Kind ev),
         of_LastOutcome := ev_Outcome ev, of_LastPanic := snd res, of_LastError := error_message (fst res)\<rparr>\<rparr>"

definition emitObserverEvent :: "'t bus_static \<Rightarrow> 't bus \<Rightarrow> bus_event \<Rightarrow> 't bus" where
  "emitObserverEvent st b ev =
     (case cfg_Observer (bs_config st) of
        None \<Rightarrow> b
      | Some ob \<Rightarrow>
          (case callObserver ob b ev of
             (b1, None) \<Rightarrow> b1
           | (b1, Some res) \<Rightarrow>
               let b2 = recordObserverFault b1 ev res in
               if ev_Kind ev = BusEventObserverFault then b2
               else fst (callObserver ob b2
                 ((event BusEventObserverFault BusOutcomeObserverFault)
                    \<lparr>ev_FrameType := ev_FrameType ev, ev_Attempt := ev_Attempt ev,
                     ev_Initiator := ev_Initiator ev, ev_Request := ev_Request ev,
                     ev_Response := ev_Response ev, ev_HasRequest := ev_HasRequest ev,
                     ev_HasResponse := ev_HasResponse ev\<rparr>))))"

definition with_response :: "frame option \<Rightarrow> bus_event \<Rightarrow> bus_event" where
  "with_response response ev =
     (case response of None \<Rightarrow> ev | Some r \<Rightarrow> ev\<lparr>ev_Response := r, ev_HasResponse := True\<rparr>)"

definition emitAttemptComplete ::
  "'t bus_static \<Rightarrow> 't bus \<Rightarrow> frame \<Rightarrow> frame option \<Rightarrow> frame_type \<Rightarrow> 16 word \<Rightarrow> 't bus" where
  "emitAttemptComplete st b request response frameType attempt =
     emitObserverEvent st b (with_response response
       ((event BusEventAttemptComplete BusOutcomeSuccess)
          \<lparr>ev_FrameType := frameType, ev_Attempt := attempt, ev_Request := request, ev_HasRequest := True\<rparr>))"

definition emitRequestComplete ::
  "'t bus_static \<Rightarrow> 't bus \<Rightarrow> frame \<Rightarrow> frame option \<Rightarrow> frame_type \<Rightarrow> 16 word \<Rightarrow> 16 word \<Rightarrow> 16 word \<Rightarrow> go_error option \<Rightarrow> 't bus" where
  "emitRequestComplete st b request response frameType attempt timeoutRetries nackRetries err =
     emitObserverEvent st b (with_response response
       ((event BusEventRequestComplete (busOutcomeFromError err))
          \<lparr>ev_FrameType := frameType, ev_Attempt := attempt, ev_TimeoutRetries := timeoutRetries,
           ev_NACKRetries := nackRetries, ev_Request := request, ev_HasRequest := True\<rparr>))"

definition emitRetryEvent ::
  "'t bus_static \<Rightarrow> 't bus \<Rightarrow> frame \<Rightarrow> frame_type \<Rightarrow> 16 word \<Rightarrow> 16 word \<Rightarrow> 16 word \<Rightarrow> go_error \<Rightarrow> 't bus" where
  "emitRetryEvent st b request frameType attempt timeoutRetries nackRetries err =
     emitObserverEvent st b
       ((event BusEventRetry (busOutcomeFromError (Some err)))
          \<lparr>ev_FrameType := frameType, ev_Retry := busRetryReasonFromError (Some err), ev_Attempt := attempt,
           ev_TimeoutRetries := timeoutRetries, ev_NACKRetries := nackRetries, ev_Request := request,
           ev_HasRequest := True\<rparr>)"

definition emitOutcomeEvent ::
  "'t bus_static \<Rightarrow> 't bus \<Rightarrow> frame \<Rightarrow> frame_type \<Rightarrow> 16 word \<Rightarrow> go_error \<Rightarrow> 't bus" where
  "emitOutcomeEvent st b request frameType attempt err =
     (let outcome = busOutcomeFromError (Some err);
          emit = (\<lambda>kind. emitObserverEvent st b
            ((event kind outcome)\<lparr>ev_FrameType := frameType, ev_Attempt := attempt, ev_Request := request,
               ev_HasRequest := (frameType \<noteq> FrameTypeUnknown)\<rparr>)) in
      if echoMismatchAlreadyEmitted err \<and> outcome = BusOutcomeEchoMismatch then b
      else case outcome of
          BusOutcomeTimeout \<Rightarrow> emit BusEventTimeout
        | BusOutcomeNACK \<Rightarrow> emit BusEventNACK
        | BusOutcomeCRCMismatch \<Rightarrow> emit BusEventCRCMismatch
        | BusOutcomeEchoMismatch \<Rightarrow> emit BusEventEchoMismatch
        | BusOutcomeAdapterReset \<Rightarrow> emit BusEventAdapterReset
        | _ \<Rightarrow> b)"

section \<open>Emission touches nothing but the observer side\<close>

text \<open>The engine state without what an observer sees.\<close>

definition quiet_bus :: "'t bus \<Rightarrow> 't bus" where
  "quiet_bus b = b\<lparr>b_events := [], b_observerFault := b_observerFault (new_bus_state (b_world b))\<rparr>"

named_theorems emit_frame \<open>what an emission leaves alone\<close>

lemma quiet_emitObserverEvent [emit_frame, simp]: "quiet_bus (emitObserverEvent st b ev) = quiet_bus b"
  by (simp add: emitObserverEvent_def callObserver_def recordObserverFault_def quiet_bus_def Let_def
      split: option.splits observer_reply.splits prod.splits)

lemma quiet_emits [emit_frame, simp]:
  "quiet_bus (emitAttemptComplete st b rq rs ft a) = quiet_bus b"
  "quiet_bus (emitRequestComplete st b rq rs ft a tr nr e) = quiet_bus b"
  "quiet_bus (emitRetryEvent st b rq ft a tr nr err) = quiet_bus b"
  "quiet_bus (emitOutcomeEvent st b rq ft a err) = quiet_bus b"
  by (simp_all add: emitAttemptComplete_def emitRequestComplete_def emitRetryEvent_def
      emitOutcomeEvent_def Let_def split: bus_outcome.split)

lemma quiet_bus_eqD:
  assumes "quiet_bus b = quiet_bus b'"
  shows "b_world b = b_world b'" "b_wire b = b_wire b'"
    "payloadAaAutoSynAbsorbed b = payloadAaAutoSynAbsorbed b'"
    "payloadAaAutoSynRecovered b = payloadAaAutoSynRecovered b'"
    "payloadAaAutoSynDrainExhausted b = payloadAaAutoSynDrainExhausted b'"
    "activeEchoWaits b = activeEchoWaits b'" "round9AbsorbEntered b = round9AbsorbEntered b'"
  using assms by (cases b; cases b'; simp add: quiet_bus_def)+

lemma emit_fields [simp]:
  "b_world (emitObserverEvent st b ev) = b_world b" "b_wire (emitObserverEvent st b ev) = b_wire b"
  "payloadAaAutoSynAbsorbed (emitObserverEvent st b ev) = payloadAaAutoSynAbsorbed b"
  "payloadAaAutoSynRecovered (emitObserverEvent st b ev) = payloadAaAutoSynRecovered b"
  "payloadAaAutoSynDrainExhausted (emitObserverEvent st b ev) = payloadAaAutoSynDrainExhausted b"
  "activeEchoWaits (emitObserverEvent st b ev) = activeEchoWaits b"
  "round9AbsorbEntered (emitObserverEvent st b ev) = round9AbsorbEntered b"
  by (intro quiet_bus_eqD quiet_emitObserverEvent)+

lemma emit_outcome_fields [simp]:
  "b_world (emitOutcomeEvent st b rq ft a err) = b_world b" "b_wire (emitOutcomeEvent st b rq ft a err) = b_wire b"
  "activeEchoWaits (emitOutcomeEvent st b rq ft a err) = activeEchoWaits b"
  by (intro quiet_bus_eqD quiet_emits(4))+

end
