(* ===== verification/Bus_Wire.thy ===== *)
theory Bus_Wire
  imports Bus_Events
begin

text \<open>
  The byte level of the bus engine (\<open>protocol/bus.go\<close>): reading a byte, reading a logical symbol,
  and writing a byte and checking its echo, with the collision guards and the bounded absorption
  of AUTO-SYN bytes.
\<close>

section \<open>Reading\<close>

text \<open>\<open>if err != nil { handler } continue\<close> on a call that may change the state.\<close>

definition tryR :: "'s \<times> 'a result \<Rightarrow> ('s \<Rightarrow> go_error \<Rightarrow> 'r) \<Rightarrow> ('s \<Rightarrow> 'a \<Rightarrow> 'r) \<Rightarrow> 'r" where
  "tryR m handler k = (case m of (b, Inl e) \<Rightarrow> handler b e | (b, Inr v) \<Rightarrow> k b v)"

lemma tryR_simps [simp]:
  "tryR (b, Inl e) handler k = handler b e"
  "tryR (b, Inr v) handler k = k b v"
  by (simp_all add: tryR_def)

definition contextError :: "'t bus_static \<Rightarrow> 't bus \<Rightarrow> 't bus \<times> go_error option" where
  "contextError st b =
     (case env_reqErr (bs_ops st) (b_world b) of
        (w1, Some e) \<Rightarrow> (b\<lparr>b_world := w1\<rparr>, Some e)
      | (w1, None) \<Rightarrow>
          (case env_runErr (bs_ops st) w1 of
             (w2, Some _) \<Rightarrow> (b\<lparr>b_world := w2\<rparr>, Some (Sentinel ErrTransportClosed))
           | (w2, None) \<Rightarrow> (b\<lparr>b_world := w2\<rparr>, None)))"

text \<open>The tail of both reads: log the byte and tell the observer.\<close>

definition received :: "'t bus_static \<Rightarrow> 't bus \<Rightarrow> byte \<Rightarrow> bool \<Rightarrow> 't bus" where
  "received st b value wasEscaped =
     emitObserverEvent st (b\<lparr>b_wire := b_wire b @ [Got value wasEscaped]\<rparr>)
       ((event BusEventRX BusOutcomeSuccess)\<lparr>ev_Byte := value\<rparr>)"

definition readByte :: "'t bus_static \<Rightarrow> 't bus \<Rightarrow> 't bus \<times> byte result" where
  "readByte st b =
     (case contextError st b of
        (b1, Some e) \<Rightarrow> (b1, Inl e)
      | (b1, None) \<Rightarrow>
          (case op_ReadByte (bs_ops st) (b_world b1) of
             (w, Inl e) \<Rightarrow> (b1\<lparr>b_world := w\<rparr>, Inl e)
           | (w, Inr value) \<Rightarrow> (received st (b1\<lparr>b_world := w\<rparr>) value False, Inr value)))"

definition readByteWithEscape ::
  "'t bus_static \<Rightarrow> ('t \<Rightarrow> 't \<times> (byte \<times> bool) result) \<Rightarrow> 't bus \<Rightarrow> 't bus \<times> (byte \<times> bool) result" where
  "readByteWithEscape st flagged b =
     (case contextError st b of
        (b1, Some e) \<Rightarrow> (b1, Inl e)
      | (b1, None) \<Rightarrow>
          (case flagged (b_world b1) of
             (w, Inl e) \<Rightarrow> (b1\<lparr>b_world := w\<rparr>, Inl e)
           | (w, Inr (value, wasEscaped)) \<Rightarrow>
               (received st (b1\<lparr>b_world := w\<rparr>) value wasEscaped, Inr (value, wasEscaped))))"

definition hex_low :: "nat \<Rightarrow> char" where
  "hex_low n = (if n < 10 then char_of (48 + n) else char_of (87 + n))"

definition hex_up :: "nat \<Rightarrow> char" where
  "hex_up n = (if n < 10 then char_of (48 + n) else char_of (55 + n))"

definition hex02x :: "byte \<Rightarrow> string" where
  "hex02x b = [hex_low (unat b div 16), hex_low (unat b mod 16)]"

definition hex02X :: "byte \<Rightarrow> string" where
  "hex02X b = [hex_up (unat b div 16), hex_up (unat b mod 16)]"

text \<open>
  \<open>busDecoder.readSymbol\<close>; the flag is the decoder's \<open>escape\<close> field, returned updated.  The loop
  runs at most twice: it continues only after a lead byte outside a pair.
\<close>

function read_symbol_loop :: "'t bus_static \<Rightarrow> bool \<Rightarrow> 't bus \<Rightarrow> 't bus \<times> bool \<times> byte result" where
  "read_symbol_loop st esc b =
     (case readByte st b of
        (b1, Inl e) \<Rightarrow> (b1, (if errors_Is e ErrTimeout then False else esc), Inl e)
      | (b1, Inr raw) \<Rightarrow>
          if esc then
            (b1, False,
             if raw = 0x00 then Inr SymbolEscape
             else if raw = 0x01 then Inr SymbolSyn
             else Inl (Wrap (''invalid escape sequence 0x'' @ hex02x raw @ '': '') (Sentinel ErrInvalidPayload) []))
          else if raw = SymbolEscape then read_symbol_loop st True b1
          else (b1, False, Inr raw))"
  by pat_completeness auto
termination by (relation "measure (\<lambda>(_, esc, _). if esc then 0 else 1)") auto

declare read_symbol_loop.simps [simp del]

definition readSymbol :: "'t bus_static \<Rightarrow> bool \<Rightarrow> 't bus \<Rightarrow> 't bus \<times> bool \<times> byte result" where
  "readSymbol st esc b =
     (if bs_unescaped st then (case readByte st b of (b1, r) \<Rightarrow> (b1, esc, r))
      else read_symbol_loop st esc b)"

section \<open>Writing a byte and checking its echo\<close>

abbreviation collision :: "string \<Rightarrow> go_error" where
  "collision text \<equiv> Wrap text (Sentinel ErrBusCollision) []"

definition err_unexpected_syn :: go_error where
  "err_unexpected_syn = collision ''unexpected syn while waiting for echo: ''"

definition err_escaped_syn :: "byte \<Rightarrow> go_error" where
  "err_escaped_syn raw = collision (''echo expected real wire SYN (0x'' @ hex02X raw @
     '') but received escape-decoded payload 0xAA: '')"

definition err_payload_syn :: go_error where
  "err_payload_syn = collision
     ''echo for payload 0xAA expected escape-decoded WasEscaped=true but received real wire SYN: ''"

definition err_first_byte :: "byte \<Rightarrow> byte \<Rightarrow> go_error" where
  "err_first_byte raw echo = collision (''first-byte arbitration loss: wrote 0x'' @ hex02X raw @
     '', wire echo 0x'' @ hex02X echo @ '' (foreign initiator): '')"

definition err_echo_mismatch :: "byte \<Rightarrow> byte \<Rightarrow> go_error" where
  "err_echo_mismatch raw echo = EchoMismatchEmitted (collision
     (''echo mismatch (sent 0x'' @ hex02x raw @ '', got 0x'' @ hex02x echo @ ''): ''))"

text \<open>\<open>emitOutcomeEvent(Frame{}, FrameTypeUnknown, 0, err)\<close> followed by \<open>return err\<close>.\<close>

definition echo_fail :: "'t bus_static \<Rightarrow> 't bus \<Rightarrow> go_error \<Rightarrow> 't bus \<times> unit result" where
  "echo_fail st b err = (emitOutcomeEvent st b zero_frame FrameTypeUnknown 0 err, Inl err)"

definition emit_echo_mismatch :: "'t bus_static \<Rightarrow> 't bus \<Rightarrow> byte \<Rightarrow> bool \<Rightarrow> 't bus" where
  "emit_echo_mismatch st b echo wasEscaped =
     emitObserverEvent st b ((event BusEventEchoMismatch BusOutcomeEchoMismatch)
       \<lparr>ev_Byte := echo, ev_ByteKnown := True, ev_EchoWasEscaped := wasEscaped\<rparr>)"

definition maxPayloadAaAutoSynDrains :: nat where "maxPayloadAaAutoSynDrains = 3"

datatype drain_end = DrainError go_error | DrainRecovered | DrainExhausted | DrainOther byte bool

text \<open>The absorption loop; the first argument is how many drains are left.\<close>

fun drain_loop :: "nat \<Rightarrow> 't bus_static \<Rightarrow> ('t \<Rightarrow> 't \<times> (byte \<times> bool) result) \<Rightarrow> 't bus \<Rightarrow> 't bus \<times> drain_end" where
  "drain_loop 0 st flagged b = (b, DrainExhausted)"
| "drain_loop (Suc n) st flagged b =
     (case readByteWithEscape st flagged b of
        (b1, Inl e) \<Rightarrow> (b1, DrainError e)
      | (b1, Inr (nextEcho, nextWasEscaped)) \<Rightarrow>
          let b2 = b1\<lparr>payloadAaAutoSynAbsorbed := payloadAaAutoSynAbsorbed b1 + 1\<rparr> in
          if nextEcho = SymbolSyn \<and> nextWasEscaped
          then (b2\<lparr>payloadAaAutoSynRecovered := payloadAaAutoSynRecovered b2 + 1\<rparr>, DrainRecovered)
          else if nextEcho = SymbolSyn \<and> \<not> nextWasEscaped then drain_loop n st flagged b2
          else (b2, DrainOther nextEcho nextWasEscaped))"

text \<open>The last guard: the value of the echo.\<close>

definition check_echo_value ::
  "'t bus_static \<Rightarrow> 't bus \<Rightarrow> byte \<Rightarrow> bool \<Rightarrow> byte \<Rightarrow> bool \<Rightarrow> 't bus \<times> unit result" where
  "check_echo_value st b raw isFirstByteAfterArbitration echo echoWasEscaped =
     (if echo \<noteq> raw then
        if isFirstByteAfterArbitration \<and> \<not> echoWasEscaped \<and> AddressClassOf echo = AddressClassMaster
        then echo_fail st b (err_first_byte raw echo)
        else echo_fail st (emit_echo_mismatch st b echo echoWasEscaped) (err_echo_mismatch raw echo)
      else (b, Inr ()))"

definition inSendRawWithEchoActiveEchoWait :: "'t bus \<Rightarrow> bool" where
  "inSendRawWithEchoActiveEchoWait b \<longleftrightarrow> sint (activeEchoWaits b) > 0"

text \<open>The guards between a received echo and the value check.\<close>

definition check_echo ::
  "'t bus_static \<Rightarrow> 't bus \<Rightarrow> byte \<Rightarrow> bool \<Rightarrow> bool \<Rightarrow> byte \<Rightarrow> bool \<Rightarrow> 't bus \<times> unit result" where
  "check_echo st b raw expectRawSyn isFirst echo echoWasEscaped =
     (let flagged = op_ReadByteWithEscape (bs_ops st) in
      if \<not> bs_unescaped st \<and> echo = SymbolSyn \<and> raw \<noteq> SymbolSyn
      then echo_fail st (emit_echo_mismatch st b echo echoWasEscaped) err_unexpected_syn
      else case flagged of
        None \<Rightarrow> check_echo_value st b raw isFirst echo echoWasEscaped
      | Some rd \<Rightarrow>
          if echo = SymbolSyn \<and> \<not> echoWasEscaped \<and> raw \<noteq> SymbolSyn
          then echo_fail st (emit_echo_mismatch st b echo echoWasEscaped) err_unexpected_syn
          else if expectRawSyn \<and> raw = SymbolSyn \<and> echo = SymbolSyn \<and> echoWasEscaped
          then echo_fail st (emit_echo_mismatch st b echo echoWasEscaped) (err_escaped_syn raw)
          else if \<not> expectRawSyn \<and> raw = SymbolSyn \<and> echo = SymbolSyn \<and> \<not> echoWasEscaped
          then
            let b1 = (if inSendRawWithEchoActiveEchoWait b
                      then b\<lparr>round9AbsorbEntered := round9AbsorbEntered b + 1\<rparr> else b) in
            (case drain_loop maxPayloadAaAutoSynDrains st rd b1 of
               (b2, DrainError e) \<Rightarrow> echo_fail st b2 e
             | (b2, DrainRecovered) \<Rightarrow> (b2, Inr ())
             | (b2, DrainExhausted) \<Rightarrow>
                 let b3 = b2\<lparr>payloadAaAutoSynDrainExhausted := payloadAaAutoSynDrainExhausted b2 + 1\<rparr> in
                 echo_fail st (emit_echo_mismatch st b3 echo echoWasEscaped) err_payload_syn
             | (b2, DrainOther echo' esc') \<Rightarrow> check_echo_value st b2 raw isFirst echo' esc')
          else check_echo_value st b raw isFirst echo echoWasEscaped)"

text \<open>The echo read: with provenance where the transport has it.\<close>

definition read_echo :: "'t bus_static \<Rightarrow> 't bus \<Rightarrow> 't bus \<times> (byte \<times> bool) result" where
  "read_echo st b =
     (case (bs_unescaped st, op_ReadByteWithEscape (bs_ops st)) of
        (True, Some rd) \<Rightarrow> readByteWithEscape st rd b
      | _ \<Rightarrow> (case readByte st b of (b1, Inl e) \<Rightarrow> (b1, Inl e) | (b1, Inr v) \<Rightarrow> (b1, Inr (v, False))))"

definition signal_structural :: "'t bus_static \<Rightarrow> bool \<Rightarrow> 't bus \<Rightarrow> 't bus" where
  "signal_structural st expectRawSyn b =
     (if expectRawSyn then
        (case op_SignalStructuralSyn (bs_ops st) of
           Some sig \<Rightarrow> b\<lparr>b_world := sig (b_world b)\<rparr> | None \<Rightarrow> b)
      else b)"

definition sendRawWithEcho ::
  "'t bus_static \<Rightarrow> 't bus \<Rightarrow> byte \<Rightarrow> bool \<Rightarrow> bool \<Rightarrow> 't bus \<times> unit result" where
  "sendRawWithEcho st b raw expectRawSyn isFirst =
     (let b1 = signal_structural st expectRawSyn b in
      case op_Write (bs_ops st) (b_world b1) [raw] of
        (w, Inl err) \<Rightarrow>
          (emitOutcomeEvent st (b1\<lparr>b_world := w\<rparr>) zero_frame FrameTypeUnknown 0 err,
           Inl (if busOutcomeFromError (Some err) = BusOutcomeEchoMismatch then EchoMismatchEmitted err else err))
      | (w, Inr written) \<Rightarrow>
          if written \<noteq> 1 then echo_fail st (b1\<lparr>b_world := w\<rparr>) (Sentinel ErrInvalidPayload)
          else
            let b2 = emitObserverEvent st (b1\<lparr>b_world := w, b_wire := b_wire b1 @ [Wrote raw]\<rparr>)
                       ((event BusEventTX BusOutcomeSuccess)\<lparr>ev_Byte := raw\<rparr>);
                b3 = b2\<lparr>activeEchoWaits := activeEchoWaits b2 + 1\<rparr>;
                (b4, r) = tryR (read_echo st b3) (echo_fail st)
                  (\<lambda>b (echo, echoWasEscaped). check_echo st b raw expectRawSyn isFirst echo echoWasEscaped)
            in (b4\<lparr>activeEchoWaits := activeEchoWaits b4 - 1\<rparr>, r))"

definition sendSymbolWithEcho ::
  "'t bus_static \<Rightarrow> 't bus \<Rightarrow> byte \<Rightarrow> bool \<Rightarrow> bool \<Rightarrow> 't bus \<times> unit result" where
  "sendSymbolWithEcho st b symbol esc isFirst =
     (if bs_unescaped st \<or> \<not> esc \<or> (symbol \<noteq> SymbolEscape \<and> symbol \<noteq> SymbolSyn)
      then sendRawWithEcho st b symbol (\<not> esc \<and> symbol = SymbolSyn) isFirst
      else tryR (sendRawWithEcho st b SymbolEscape False isFirst) (\<lambda>b1 e. (b1, Inl e))
        (\<lambda>b1 _. sendRawWithEcho st b1 (if symbol = SymbolSyn then 0x01 else 0x00) False False))"

definition sendEndOfMessage :: "'t bus_static \<Rightarrow> 't bus \<Rightarrow> 't bus \<times> unit result" where
  "sendEndOfMessage st b = sendSymbolWithEcho st b SymbolSyn False False"

text \<open>The loop of \<open>sendInitiatorTelegram\<close> from position \<open>start\<close>; only its first byte is flagged.\<close>

fun send_symbols :: "'t bus_static \<Rightarrow> 't bus \<Rightarrow> byte list \<Rightarrow> bool \<Rightarrow> 't bus \<times> unit result" where
  "send_symbols st b [] isFirst = (b, Inr ())"
| "send_symbols st b (symbol # symbols) isFirst =
     tryR (sendSymbolWithEcho st b symbol True isFirst) (\<lambda>b1 e. (b1, Inl e))
       (\<lambda>b1 _. send_symbols st b1 symbols False)"

definition sendInitiatorTelegram ::
  "'t bus_static \<Rightarrow> 't bus \<Rightarrow> byte list \<Rightarrow> bool \<Rightarrow> 't bus \<times> unit result" where
  "sendInitiatorTelegram st b telegram includeSource =
     send_symbols st b (if includeSource then telegram else drop 1 telegram) True"

section \<open>What is on the wire after each operation\<close>

named_theorems wire_frame \<open>the wire history after an operation\<close>

lemma contextError_wire [wire_frame, simp]:
  "b_wire (fst (contextError st b)) = b_wire b"
  "activeEchoWaits (fst (contextError st b)) = activeEchoWaits b"
  by (simp_all add: contextError_def split: prod.splits option.splits)

lemma contextError_wireD:
  "contextError st b = (b1, e) \<Longrightarrow> b_wire b1 = b_wire b \<and> activeEchoWaits b1 = activeEchoWaits b"
  using contextError_wire [of st b] by (metis fst_conv)

lemma received_wire [simp]:
  "b_wire (received st b v e) = b_wire b @ [Got v e]"
  "b_world (received st b v e) = b_world b"
  "activeEchoWaits (received st b v e) = activeEchoWaits b"
  by (simp_all add: received_def)

lemma readByte_wire:
  "readByte st b = (b1, r) \<Longrightarrow> b_wire b1 = b_wire b @ (case r of Inl _ \<Rightarrow> [] | Inr v \<Rightarrow> [Got v False])"
  by (auto simp: readByte_def split: prod.splits option.splits sum.splits dest: contextError_wireD)

lemma readByteWithEscape_wire:
  "readByteWithEscape st rd b = (b1, r) \<Longrightarrow>
   b_wire b1 = b_wire b @ (case r of Inl _ \<Rightarrow> [] | Inr (v, e) \<Rightarrow> [Got v e])"
  by (auto simp: readByteWithEscape_def split: prod.splits option.splits sum.splits dest: contextError_wireD)

definition flagged_reads :: "'t bus_static \<Rightarrow> bool" where
  "flagged_reads st \<longleftrightarrow> bs_unescaped st \<and> op_ReadByteWithEscape (bs_ops st) \<noteq> None"

lemma read_echo_wire:
  assumes "read_echo st b = (b1, r)"
  shows "b_wire b1 = b_wire b @ (case r of Inl _ \<Rightarrow> [] | Inr (v, e) \<Rightarrow> [Got v e])"
    and "r = Inr (v, e) \<Longrightarrow> e \<Longrightarrow> flagged_reads st"
  using assms readByte_wire [of st b] readByteWithEscape_wire [of st _ b]
  by (auto simp: read_echo_def flagged_reads_def split: bool.splits option.splits prod.splits sum.splits)

lemma drain_loop_wire:
  assumes "drain_loop n st rd b = (b1, d)"
  shows "\<exists>k \<le> n. b_wire b1 = b_wire b @ replicate k (Got SymbolSyn False) @
    (case d of DrainRecovered \<Rightarrow> [Got SymbolSyn True] | DrainOther v e \<Rightarrow> [Got v e] | _ \<Rightarrow> []) \<and>
    (case d of DrainExhausted \<Rightarrow> k = n | DrainOther v e \<Rightarrow> k < n \<and> v \<noteq> SymbolSyn | _ \<Rightarrow> k < n)"
  using assms
proof (induction n arbitrary: b)
  case 0
  then show ?case by auto
next
  case (Suc n)
  obtain b2 r where rd: "readByteWithEscape st rd b = (b2, r)" by fastforce
  note wire = readByteWithEscape_wire [OF rd]
  show ?case
  proof (cases r)
    case (Inl e)
    then show ?thesis using Suc.prems rd wire by auto
  next
    case (Inr ve)
    obtain v e where ve: "ve = (v, e)" by fastforce
    let ?b = "b2\<lparr>payloadAaAutoSynAbsorbed := payloadAaAutoSynAbsorbed b2 + 1\<rparr>"
    show ?thesis
    proof (cases "v = SymbolSyn \<and> \<not> e")
      case True
      then have "drain_loop n st rd ?b = (b1, d)" using Suc.prems rd Inr ve by (simp add: Let_def)
      from Suc.IH [OF this] obtain k where k: "k \<le> n"
        "b_wire b1 = b_wire ?b @ replicate k (Got SymbolSyn False) @
          (case d of DrainRecovered \<Rightarrow> [Got SymbolSyn True] | DrainOther v e \<Rightarrow> [Got v e] | _ \<Rightarrow> [])"
        "case d of DrainExhausted \<Rightarrow> k = n | DrainOther v e \<Rightarrow> k < n \<and> v \<noteq> SymbolSyn | _ \<Rightarrow> k < n"
        by blast
      then show ?thesis using True wire Inr ve
        by (intro exI [of _ "Suc k"]) (auto split: drain_end.splits)
    next
      case False
      then show ?thesis using Suc.prems rd wire Inr ve by (auto simp: Let_def split: if_splits)
    qed
  qed
qed

lemma echo_fail_simps [simp]:
  "fst (echo_fail st b err) = emitOutcomeEvent st b zero_frame FrameTypeUnknown 0 err"
  "snd (echo_fail st b err) = Inl err"
  by (simp_all add: echo_fail_def)

lemma emit_echo_mismatch_wire [simp]:
  "b_wire (emit_echo_mismatch st b v e) = b_wire b"
  "activeEchoWaits (emit_echo_mismatch st b v e) = activeEchoWaits b"
  by (simp_all add: emit_echo_mismatch_def)

lemma check_echo_value_ok [simp]:
  "check_echo_value st b raw isFirst echo e = (b1, Inr ()) \<longleftrightarrow> echo = raw \<and> b1 = b"
  by (auto simp: check_echo_value_def echo_fail_def)

lemma echo_fail_ok [simp]: "echo_fail st b err \<noteq> (b1, Inr ())"
  by (simp add: echo_fail_def)

text \<open>An echo is accepted without further reads, or after draining raw SYN bytes of a payload 0xAA.\<close>

lemma check_echo_ok:
  assumes "check_echo st b raw structural isFirst echo e = (b1, Inr ())"
  shows "echo = raw \<and> (\<exists>k \<le> 3. b_wire b1 = b_wire b @
    (if op_ReadByteWithEscape (bs_ops st) \<noteq> None \<and> raw = SymbolSyn \<and> \<not> structural \<and> \<not> e
     then replicate k (Got SymbolSyn False) @ [Got SymbolSyn True] else [])) \<and>
    (op_ReadByteWithEscape (bs_ops st) \<noteq> None \<and> raw = SymbolSyn \<and> structural \<longrightarrow> \<not> e)"
proof (cases "op_ReadByteWithEscape (bs_ops st)")
  case None
  then show ?thesis
    using assms by (auto simp: check_echo_def Let_def split: if_splits)
next
  case (Some rd)
  show ?thesis
  proof (cases "raw = SymbolSyn \<and> echo = SymbolSyn \<and> \<not> structural \<and> \<not> e")
    case True
    let ?b = "if inSendRawWithEchoActiveEchoWait b then b\<lparr>round9AbsorbEntered := round9AbsorbEntered b + 1\<rparr> else b"
    obtain b2 d where d: "drain_loop 3 st rd ?b = (b2, d)" by fastforce
    have w: "b_wire ?b = b_wire b" by simp
    note wire = drain_loop_wire [OF d, unfolded w]
    from True Some assms d have "d = DrainRecovered \<and> b1 = b2 \<or> (\<exists>v e'. d = DrainOther v e' \<and> v = SymbolSyn)"
      by (auto simp: check_echo_def Let_def maxPayloadAaAutoSynDrains_def split: drain_end.splits if_splits)
    then show ?thesis using wire True Some by (auto split: drain_end.splits intro: less_imp_le)
  next
    case False
    then show ?thesis
      using assms Some by (auto simp: check_echo_def Let_def split: if_splits)
  qed
qed

lemma signal_structural_wire [simp]:
  "b_wire (signal_structural st x b) = b_wire b"
  "b_events (signal_structural st x b) = b_events b"
  "activeEchoWaits (signal_structural st x b) = activeEchoWaits b"
  by (simp_all add: signal_structural_def split: option.splits)

lemma sendRawWithEcho_ok:
  assumes "sendRawWithEcho st b raw structural isFirst = (b1, Inr ())"
  shows "\<exists>e k. k \<le> 3 \<and> b_wire b1 = b_wire b @ Wrote raw # Got raw e #
      (if op_ReadByteWithEscape (bs_ops st) \<noteq> None \<and> raw = SymbolSyn \<and> \<not> structural \<and> \<not> e
       then replicate k (Got SymbolSyn False) @ [Got SymbolSyn True] else []) \<and>
    (e \<longrightarrow> flagged_reads st) \<and>
    (op_ReadByteWithEscape (bs_ops st) \<noteq> None \<and> raw = SymbolSyn \<and> structural \<longrightarrow> \<not> e)"
proof -
  let ?b = "signal_structural st structural b"
  obtain w r where wr: "op_Write (bs_ops st) (b_world ?b) [raw] = (w, r)" by fastforce
  with assms have r: "r = Inr 1"
    by (auto simp: sendRawWithEcho_def Let_def split: sum.splits if_splits)
  let ?b2 = "emitObserverEvent st (?b\<lparr>b_world := w, b_wire := b_wire ?b @ [Wrote raw]\<rparr>)
    ((event BusEventTX BusOutcomeSuccess)\<lparr>ev_Byte := raw\<rparr>)"
  let ?b3 = "?b2\<lparr>activeEchoWaits := activeEchoWaits ?b2 + 1\<rparr>"
  obtain b4 res where echo: "read_echo st ?b3 = (b4, res)" by fastforce
  with assms wr r obtain v e b5 where v: "res = Inr (v, e)"
    "check_echo st b4 raw structural isFirst v e = (b5, Inr ())" "b_wire b1 = b_wire b5"
    by (cases res) (auto simp: sendRawWithEcho_def Let_def split: prod.splits)
  note wire = read_echo_wire [OF echo] and ok = check_echo_ok [OF v(2)]
  have "b_wire b4 = b_wire b @ [Wrote raw, Got raw e]" using wire(1) v(1) ok by simp
  moreover have "e \<longrightarrow> flagged_reads st" using wire(2) v(1) by blast
  moreover obtain k where "k \<le> 3" "b_wire b5 = b_wire b4 @
      (if op_ReadByteWithEscape (bs_ops st) \<noteq> None \<and> raw = SymbolSyn \<and> \<not> structural \<and> \<not> e
       then replicate k (Got SymbolSyn False) @ [Got SymbolSyn True] else [])"
    using ok by blast
  ultimately show ?thesis
    using ok v(3) by (intro exI [of _ e] exI [of _ k]) simp
qed

text \<open>The wire history of one symbol that was sent and echoed, seen from the transport's contract.\<close>

definition symbol_trace :: "'t bus_static \<Rightarrow> byte \<Rightarrow> bool \<Rightarrow> wire_io list \<Rightarrow> bool" where
  "symbol_trace st symbol esc tr \<longleftrightarrow>
     (if \<not> bs_unescaped st then
        tr = concat (map (\<lambda>w. [Wrote w, Got w False]) (if esc then escape_symbol symbol else [symbol]))
      else if \<not> flagged_reads st then tr = [Wrote symbol, Got symbol False]
      else if symbol \<noteq> SymbolSyn then (\<exists>e. tr = [Wrote symbol, Got symbol e])
      else if esc then (\<exists>k \<le> 4. tr = Wrote SymbolSyn # replicate k (Got SymbolSyn False) @ [Got SymbolSyn True])
      else tr = [Wrote SymbolSyn, Got SymbolSyn False])"

lemma plain_echo_trace:
  assumes "sendRawWithEcho st b raw structural isFirst = (b1, Inr ())"
    and "\<not> flagged_reads st" and "raw \<noteq> SymbolSyn \<or> structural \<or> op_ReadByteWithEscape (bs_ops st) = None"
  shows "b_wire b1 = b_wire b @ [Wrote raw, Got raw False]"
  using sendRawWithEcho_ok [OF assms(1)] assms(2,3) by (auto split: if_splits)

lemma sendSymbolWithEcho_ok:
  assumes "sendSymbolWithEcho st b symbol esc isFirst = (b1, Inr ())"
  shows "\<exists>tr. b_wire b1 = b_wire b @ tr \<and> symbol_trace st symbol esc tr"
proof (cases "bs_unescaped st")
  case True
  then have raw: "sendRawWithEcho st b symbol (\<not> esc \<and> symbol = SymbolSyn) isFirst = (b1, Inr ())"
    using assms by (simp add: sendSymbolWithEcho_def)
  obtain e k where ek: "k \<le> 3" "b_wire b1 = b_wire b @ Wrote symbol # Got symbol e #
      (if op_ReadByteWithEscape (bs_ops st) \<noteq> None \<and> symbol = SymbolSyn \<and> \<not> (\<not> esc \<and> symbol = SymbolSyn) \<and> \<not> e
       then replicate k (Got SymbolSyn False) @ [Got SymbolSyn True] else [])"
    "e \<longrightarrow> flagged_reads st"
    "op_ReadByteWithEscape (bs_ops st) \<noteq> None \<and> symbol = SymbolSyn \<and> (\<not> esc \<and> symbol = SymbolSyn) \<longrightarrow> \<not> e"
    using sendRawWithEcho_ok [OF raw] by blast
  have fl: "flagged_reads st \<longleftrightarrow> op_ReadByteWithEscape (bs_ops st) \<noteq> None" using True by (simp add: flagged_reads_def)
  consider "flagged_reads st" "symbol = SymbolSyn" "esc" "\<not> e" | "flagged_reads st" "symbol = SymbolSyn" "esc" "e"
    | "flagged_reads st" "symbol = SymbolSyn" "\<not> esc" | "flagged_reads st" "symbol \<noteq> SymbolSyn" | "\<not> flagged_reads st"
    by blast
  then show ?thesis
  proof cases
    case 1
    then show ?thesis using ek fl True
      by (intro exI [of _ "Wrote SymbolSyn # replicate (Suc k) (Got SymbolSyn False) @ [Got SymbolSyn True]"])
        (auto simp: symbol_trace_def intro!: exI [of _ "Suc k"])
  next
    case 2
    then show ?thesis using ek fl True
      by (intro exI [of _ "[Wrote SymbolSyn, Got SymbolSyn True]"]) (auto simp: symbol_trace_def intro!: exI [of _ 0])
  qed (use ek fl True in \<open>auto simp: symbol_trace_def split: if_splits\<close>)
next
  case False
  then have plain: "\<not> flagged_reads st" by (simp add: flagged_reads_def)
  show ?thesis
  proof (cases "esc \<and> (symbol = SymbolEscape \<or> symbol = SymbolSyn)")
    case True
    let ?c = "if symbol = SymbolSyn then 0x01 else 0x00 :: byte"
    from assms False True obtain b2 where pair: "sendRawWithEcho st b SymbolEscape False isFirst = (b2, Inr ())"
      "sendRawWithEcho st b2 ?c False False = (b1, Inr ())"
      by (auto simp: sendSymbolWithEcho_def tryR_def split: prod.splits sum.splits)
    have "b_wire b1 = b_wire b @ [Wrote SymbolEscape, Got SymbolEscape False, Wrote ?c, Got ?c False]"
      using plain_echo_trace [OF pair(1) plain] plain_echo_trace [OF pair(2) plain] by (simp add: symbol_defs)
    then show ?thesis using False True by (auto simp: symbol_trace_def escape_symbol_def symbol_defs)
  next
    case other: False
    then have "sendRawWithEcho st b symbol (\<not> esc \<and> symbol = SymbolSyn) isFirst = (b1, Inr ())"
      using assms by (auto simp: sendSymbolWithEcho_def)
    then have "b_wire b1 = b_wire b @ [Wrote symbol, Got symbol False]"
      using other plain by (intro plain_echo_trace) auto
    then show ?thesis using False other by (auto simp: symbol_trace_def escape_symbol_def)
  qed
qed

lemma send_symbols_ok:
  assumes "send_symbols st b symbols isFirst = (b1, Inr ())"
  shows "\<exists>trs. b_wire b1 = b_wire b @ concat trs \<and> list_all2 (\<lambda>s tr. symbol_trace st s True tr) symbols trs"
  using assms
proof (induction symbols arbitrary: b isFirst)
  case Nil
  then show ?case by (intro exI [of _ "[]"]) simp
next
  case (Cons s symbols)
  then obtain b2 where s: "sendSymbolWithEcho st b s True isFirst = (b2, Inr ())"
    "send_symbols st b2 symbols False = (b1, Inr ())"
    by (auto simp: tryR_def split: prod.splits sum.splits)
  obtain tr where tr: "b_wire b2 = b_wire b @ tr" "symbol_trace st s True tr"
    using sendSymbolWithEcho_ok [OF s(1)] by blast
  obtain trs where "b_wire b1 = b_wire b2 @ concat trs" "list_all2 (\<lambda>s tr. symbol_trace st s True tr) symbols trs"
    using Cons.IH [OF s(2)] by blast
  then show ?case using tr by (intro exI [of _ "tr # trs"]) simp
qed

section \<open>Classification of echo failures\<close>

text \<open>No collision text but the generic one contains the letter m, so none is taken for a mismatch.\<close>

lemma stringsContains_subset: "stringsContains v needle \<Longrightarrow> set needle \<subseteq> set v"
proof -
  assume "stringsContains v needle"
  then consider "v = needle" | i where "take (length needle) (drop i v) = needle"
    by (auto simp: stringsContains_def containsSubstring_def list_ex_iff simp del: upt_Suc)
  then show ?thesis
  proof cases
    case 2
    then show ?thesis by (metis in_set_dropD in_set_takeD subsetI)
  qed simp
qed

lemma stringsContains_set: "stringsContains v ''echo mismatch'' \<Longrightarrow> CHR ''m'' \<in> set v"
  by (drule stringsContains_subset) auto

lemma hex_no_m: "CHR ''m'' \<notin> set (hex02X v)"
proof -
  have "hex_up n \<noteq> CHR ''m''" if "n < 16" for n
  proof -
    have "list_all (\<lambda>n. hex_up n \<noteq> CHR ''m'') [0..<16]" by code_simp
    then show ?thesis using that by (auto simp: list_all_iff)
  qed
  moreover have "unat v div 16 < 16" "unat v mod 16 < 16" using unat_byte_less [of v] by linarith+
  ultimately show ?thesis by (metis hex02X_def list.set(1) list.set(2) empty_iff insert_iff)
qed

lemma collision_no_m:
  assumes "CHR ''m'' \<notin> set text"
  shows "busOutcomeFromError (Some (collision text)) = BusOutcomeCollision"
proof -
  have "\<not> containsEchoMismatch (Some (collision text))"
    using assms by (auto simp: containsEchoMismatch_def dest!: stringsContains_set)
  then show ?thesis by (simp add: busOutcomeFromError_def)
qed

lemma collision_outcomes:
  "busOutcomeFromError (Some err_unexpected_syn) = BusOutcomeCollision"
  "busOutcomeFromError (Some (err_escaped_syn raw)) = BusOutcomeCollision"
  "busOutcomeFromError (Some err_payload_syn) = BusOutcomeCollision"
  "busOutcomeFromError (Some (err_first_byte raw echo)) = BusOutcomeCollision"
  unfolding err_unexpected_syn_def err_escaped_syn_def err_payload_syn_def err_first_byte_def
  using hex_no_m [of raw] hex_no_m [of echo]
  by (intro collision_no_m; simp)+

lemma stringsContains_prefix: "needle \<noteq> [] \<Longrightarrow> stringsContains (needle @ rest) needle"
  by (auto simp: stringsContains_def containsSubstring_def list_ex_iff intro!: bexI [of _ 0])

lemma mismatch_outcome: "busOutcomeFromError (Some (err_echo_mismatch raw echo)) = BusOutcomeEchoMismatch"
proof -
  have "error_message (err_echo_mismatch raw echo) = ''echo mismatch'' @
      '' (sent 0x'' @ hex02x raw @ '', got 0x'' @ hex02x echo @ ''): '' @ sentinel_message ErrBusCollision"
    by (simp add: err_echo_mismatch_def)
  then have "stringsContains (error_message (err_echo_mismatch raw echo)) ''echo mismatch''"
    by (metis stringsContains_prefix list.distinct(1))
  then have "containsEchoMismatch (Some (err_echo_mismatch raw echo))"
    by (simp only: containsEchoMismatch_def option.case)
  then show ?thesis by (simp add: busOutcomeFromError_def err_echo_mismatch_def)
qed

section \<open>One event per echo mismatch\<close>

definition healthy_observer :: "'t bus_static \<Rightarrow> bool" where
  "healthy_observer st \<longleftrightarrow> (\<exists>ob. cfg_Observer (bs_config st) = Some ob \<and> (\<forall>h ev. ob h ev = ObserverNil))"

lemma healthy_emit: "healthy_observer st \<Longrightarrow> b_events (emitObserverEvent st b ev) = b_events b @ [ev]"
  by (auto simp: healthy_observer_def emitObserverEvent_def callObserver_def)

definition mismatch_events :: "'t bus \<Rightarrow> nat" where
  "mismatch_events b = length (filter (\<lambda>ev. ev_Kind ev = BusEventEchoMismatch) (b_events b))"

lemma event_kind [simp]: "ev_Kind (event k out) = k"
  by (simp add: event_def)

lemma mismatch_emit [simp]:
  assumes "healthy_observer st"
  shows "mismatch_events (emitObserverEvent st b ev) =
    mismatch_events b + (if ev_Kind ev = BusEventEchoMismatch then 1 else 0)"
  using assms by (simp add: mismatch_events_def healthy_emit)

lemma mismatch_outcome_emit:
  assumes "healthy_observer st"
  shows "mismatch_events (emitOutcomeEvent st b rq ft a err) = mismatch_events b +
    (if busOutcomeFromError (Some err) = BusOutcomeEchoMismatch \<and> \<not> echoMismatchAlreadyEmitted err then 1 else 0)"
  using assms by (auto simp: emitOutcomeEvent_def Let_def split: bus_outcome.splits)

lemma mismatch_emit_echo [simp]:
  "healthy_observer st \<Longrightarrow> mismatch_events (emit_echo_mismatch st b v e) = mismatch_events b + 1"
  by (simp add: emit_echo_mismatch_def)

lemma mismatch_same_events: "b_events b = b_events b' \<Longrightarrow> mismatch_events b = mismatch_events b'"
  by (simp add: mismatch_events_def)

lemma contextError_events: "contextError st b = (b1, e) \<Longrightarrow> b_events b1 = b_events b"
  by (auto simp: contextError_def split: prod.splits option.splits)

lemma mismatch_received [simp]:
  "healthy_observer st \<Longrightarrow> mismatch_events (received st b v e) = mismatch_events b"
  by (simp add: received_def) (simp add: mismatch_events_def)

lemma mismatch_field_updates [simp]:
  "mismatch_events (b\<lparr>b_world := w\<rparr>) = mismatch_events b"
  "mismatch_events (b\<lparr>b_wire := t\<rparr>) = mismatch_events b"
  "mismatch_events (b\<lparr>activeEchoWaits := n\<rparr>) = mismatch_events b"
  "mismatch_events (b\<lparr>payloadAaAutoSynAbsorbed := m\<rparr>) = mismatch_events b"
  "mismatch_events (b\<lparr>payloadAaAutoSynRecovered := m\<rparr>) = mismatch_events b"
  "mismatch_events (b\<lparr>payloadAaAutoSynDrainExhausted := m\<rparr>) = mismatch_events b"
  "mismatch_events (b\<lparr>round9AbsorbEntered := m\<rparr>) = mismatch_events b"
  by (simp_all add: mismatch_events_def)

lemma mismatch_readByte:
  assumes "healthy_observer st"
  shows "readByte st b = (b1, r) \<Longrightarrow> mismatch_events b1 = mismatch_events b"
    and "readByteWithEscape st rd b = (b1, r') \<Longrightarrow> mismatch_events b1 = mismatch_events b"
  using assms contextError_events [of st b]
  by (auto simp: readByte_def readByteWithEscape_def split: prod.splits option.splits sum.splits
      intro: mismatch_same_events)

lemma mismatch_read_echo:
  assumes "healthy_observer st" and "read_echo st b = (b1, r)"
  shows "mismatch_events b1 = mismatch_events b"
  using assms mismatch_readByte [OF assms(1)]
  by (auto simp: read_echo_def split: bool.splits option.splits prod.splits sum.splits)

lemma mismatch_drain:
  assumes "healthy_observer st" and "drain_loop n st rd b = (b1, d)"
  shows "mismatch_events b1 = mismatch_events b"
  using assms(2)
proof (induction n arbitrary: b)
  case (Suc n)
  obtain b2 r where rd: "readByteWithEscape st rd b = (b2, r)" by fastforce
  have "mismatch_events b2 = mismatch_events b" using mismatch_readByte(2) [OF assms(1) rd] .
  then show ?case
    using Suc.prems rd Suc.IH [of "b2\<lparr>payloadAaAutoSynAbsorbed := payloadAaAutoSynAbsorbed b2 + 1\<rparr>"]
    by (auto simp: Let_def split: sum.splits prod.splits if_splits)
qed simp

text \<open>
  The marker type is private to the package, so no error from the transport or a context carries it.
\<close>

definition foreign_errors_unmarked :: "'t bus_static \<Rightarrow> bool" where
  "foreign_errors_unmarked st \<longleftrightarrow>
     (\<forall>w w' e. op_ReadByte (bs_ops st) w = (w', Inl e) \<longrightarrow> \<not> echoMismatchAlreadyEmitted e) \<and>
     (\<forall>w w' e bs. op_Write (bs_ops st) w bs = (w', Inl e) \<longrightarrow> \<not> echoMismatchAlreadyEmitted e) \<and>
     (\<forall>rd w w' e. op_ReadByteWithEscape (bs_ops st) = Some rd \<and> rd w = (w', Inl e) \<longrightarrow>
        \<not> echoMismatchAlreadyEmitted e) \<and>
     (\<forall>w w' e. env_reqErr (bs_ops st) w = (w', Some e) \<longrightarrow> \<not> echoMismatchAlreadyEmitted e)"

lemma contextError_unmarked:
  "foreign_errors_unmarked st \<Longrightarrow> contextError st b = (b1, Some e) \<Longrightarrow> \<not> echoMismatchAlreadyEmitted e"
  by (auto simp: foreign_errors_unmarked_def contextError_def split: prod.splits option.splits)

lemma reads_unmarked:
  assumes "foreign_errors_unmarked st"
  shows "readByte st b = (b1, Inl e) \<Longrightarrow> \<not> echoMismatchAlreadyEmitted e"
    and "op_ReadByteWithEscape (bs_ops st) = Some rd \<Longrightarrow> readByteWithEscape st rd b = (b1, Inl e) \<Longrightarrow>
      \<not> echoMismatchAlreadyEmitted e"
  using assms contextError_unmarked [OF assms, of b]
  unfolding readByte_def readByteWithEscape_def foreign_errors_unmarked_def
  by (auto split: prod.splits option.splits sum.splits)

lemma read_echo_unmarked:
  "foreign_errors_unmarked st \<Longrightarrow> read_echo st b = (b1, Inl e) \<Longrightarrow> \<not> echoMismatchAlreadyEmitted e"
  using reads_unmarked [where st = st and b = b]
  by (auto simp: read_echo_def split: bool.splits option.splits prod.splits sum.splits)

lemma drain_unmarked:
  assumes "foreign_errors_unmarked st" and "op_ReadByteWithEscape (bs_ops st) = Some rd"
    and "drain_loop n st rd b = (b1, DrainError e)"
  shows "\<not> echoMismatchAlreadyEmitted e"
  using assms(3)
proof (induction n arbitrary: b)
  case (Suc n)
  show ?case
    using Suc.prems reads_unmarked(2) [OF assms(1,2), of b]
      Suc.IH [of "(fst (readByteWithEscape st rd b))\<lparr>payloadAaAutoSynAbsorbed :=
        payloadAaAutoSynAbsorbed (fst (readByteWithEscape st rd b)) + 1\<rparr>"]
    by (auto simp: Let_def split: prod.splits sum.splits if_splits)
qed simp

text \<open>The accounting of one failed or accepted echo.\<close>

definition mismatch_delta :: "unit result \<Rightarrow> nat set" where
  "mismatch_delta r =
     (case r of Inr _ \<Rightarrow> {0}
      | Inl e \<Rightarrow> if busOutcomeFromError (Some e) = BusOutcomeEchoMismatch then {1} else {0, 1})"

lemma echo_fail_delta:
  assumes "healthy_observer st" and "\<not> echoMismatchAlreadyEmitted err" and "echo_fail st b err = (b1, r)"
  shows "\<exists>d \<in> mismatch_delta r. mismatch_events b1 = mismatch_events b + d"
  using assms by (auto simp: echo_fail_def mismatch_delta_def mismatch_outcome_emit)

lemma guard_delta:
  assumes "healthy_observer st" and "busOutcomeFromError (Some err) = BusOutcomeCollision"
    and "echo_fail st (emit_echo_mismatch st b v e) err = (b1, r)"
  shows "\<exists>d \<in> mismatch_delta r. mismatch_events b1 = mismatch_events b + d"
  using assms by (auto simp: echo_fail_def mismatch_delta_def mismatch_outcome_emit)

lemma check_echo_value_delta:
  assumes "healthy_observer st" and "check_echo_value st b raw f v e = (b1, r)"
  shows "\<exists>d \<in> mismatch_delta r. mismatch_events b1 = mismatch_events b + d"
proof -
  have "echoMismatchAlreadyEmitted (err_echo_mismatch raw v)" by (simp add: err_echo_mismatch_def)
  then show ?thesis
    using assms collision_outcomes(4) [of raw v] mismatch_outcome [of raw v]
    by (auto simp: check_echo_value_def echo_fail_def mismatch_delta_def mismatch_outcome_emit split: if_splits)
qed

lemma check_echo_delta:
  assumes "healthy_observer st" and "foreign_errors_unmarked st"
    and "check_echo st b raw s f v e = (b1, r)"
  shows "\<exists>d \<in> mismatch_delta r. mismatch_events b1 = mismatch_events b + d"
proof (cases "op_ReadByteWithEscape (bs_ops st)")
  case None
  then show ?thesis
    using assms guard_delta [OF assms(1) collision_outcomes(1)] check_echo_value_delta [OF assms(1)]
    by (auto simp: check_echo_def Let_def split: if_splits)
next
  case (Some rd)
  let ?b = "if inSendRawWithEchoActiveEchoWait b then b\<lparr>round9AbsorbEntered := round9AbsorbEntered b + 1\<rparr> else b"
  obtain b2 d where d: "drain_loop maxPayloadAaAutoSynDrains st rd ?b = (b2, d)" by fastforce
  have same: "mismatch_events b2 = mismatch_events b"
    using mismatch_drain [OF assms(1) d] by (simp split: if_splits)
  let ?b3 = "b2\<lparr>payloadAaAutoSynDrainExhausted := payloadAaAutoSynDrainExhausted b2 + 1\<rparr>"
  have "\<exists>dl \<in> mismatch_delta r. mismatch_events b1 = mismatch_events b + dl"
    if "(case d of DrainError err \<Rightarrow> echo_fail st b2 err | DrainRecovered \<Rightarrow> (b2, Inr ())
       | DrainExhausted \<Rightarrow> echo_fail st (emit_echo_mismatch st ?b3 v e) err_payload_syn
       | DrainOther v' e' \<Rightarrow> check_echo_value st b2 raw f v' e') = (b1, r)"
  proof (cases d)
    case (DrainError err)
    then show ?thesis
      using that d same echo_fail_delta [OF assms(1) drain_unmarked [OF assms(2) Some]] by fastforce
  next
    case DrainRecovered
    then show ?thesis using that same by (auto simp: mismatch_delta_def)
  next
    case DrainExhausted
    then show ?thesis using that same guard_delta [OF assms(1) collision_outcomes(3), of ?b3 v e b1 r] by simp
  next
    case (DrainOther v' e')
    then show ?thesis using that same check_echo_value_delta [OF assms(1), of b2 raw f v' e' b1 r] by simp
  qed
  then show ?thesis
    using assms(3) Some d guard_delta [OF assms(1) collision_outcomes(1)]
      guard_delta [OF assms(1) collision_outcomes(2)] check_echo_value_delta [OF assms(1)]
    by (auto simp: check_echo_def Let_def split: if_splits drain_end.splits)
qed

section \<open>Properties\<close>

text \<open>
  C21: echo safety.  When the engine reports a symbol or a telegram as sent, the wire history has
  grown by exactly the symbols in order, each one followed by its own echo: stuffed on a plain
  transport, and on a transport with provenance an end-of-message SYN was confirmed by a raw
  SYN and a payload 0xAA by an escape-decoded 0xAA after at most four raw ones.
\<close>

theorem telegram_echo_safety:
  assumes "sendInitiatorTelegram st b telegram includeSource = (b1, Inr ())"
    and "sendEndOfMessage st b1 = (b2, Inr ())"
  shows "\<exists>trs tr. b_wire b2 = b_wire b @ concat trs @ tr \<and>
    list_all2 (\<lambda>s tr. symbol_trace st s True tr) (if includeSource then telegram else drop 1 telegram) trs \<and>
    symbol_trace st SymbolSyn False tr"
proof -
  obtain trs where "b_wire b1 = b_wire b @ concat trs"
    "list_all2 (\<lambda>s tr. symbol_trace st s True tr) (if includeSource then telegram else drop 1 telegram) trs"
    using send_symbols_ok assms(1) unfolding sendInitiatorTelegram_def by blast
  moreover obtain tr where "b_wire b2 = b_wire b1 @ tr" "symbol_trace st SymbolSyn False tr"
    using sendSymbolWithEcho_ok assms(2) unfolding sendEndOfMessage_def by blast
  ultimately show ?thesis by (intro exI [of _ trs] exI [of _ tr]) simp
qed

text \<open>A transport that echoes every written byte at once, with no other traffic.\<close>

definition echo_ops :: "byte list transport_ops" where
  "echo_ops = \<lparr>op_ReadByte = (\<lambda>w. case w of [] \<Rightarrow> ([], Inl (Sentinel ErrTimeout)) | v # w' \<Rightarrow> (w', Inr v)),
     op_Write = (\<lambda>w bs. (bs @ w, Inr (int (length bs)))), op_BytesAreUnescaped = None,
     op_ReadByteWithEscape = None, op_StartArbitration = None, op_ArbitrationSendsSource = None,
     op_SignalStructuralSyn = None, op_Reconnect = None, op_CollisionRecovery = None,
     env_reqErr = (\<lambda>w. (w, None)), env_runErr = (\<lambda>w. (w, None)), env_sleep = (\<lambda>w d. (w, Slept))\<rparr>"

definition echo_static :: "byte list bus_static" where
  "echo_static = \<lparr>bs_ops = echo_ops, bs_config = DefaultBusConfig, bs_unescaped = unescaped_flag echo_ops\<rparr>"

theorem telegram_echo_safety_witness:
  "\<exists>b2 trs tr. sendEndOfMessage echo_static
      (fst (sendInitiatorTelegram echo_static (new_bus_state []) [0x31, 0xAA] True)) = (b2, Inr ()) \<and>
    b_wire b2 = concat trs @ tr \<and> symbol_trace echo_static SymbolSyn False tr"
proof -
  have 1: "sendInitiatorTelegram echo_static (new_bus_state []) [0x31, 0xAA] True =
      (fst (sendInitiatorTelegram echo_static (new_bus_state []) [0x31, 0xAA] True), Inr ())"
    by code_simp
  have 2: "sendEndOfMessage echo_static (fst (sendInitiatorTelegram echo_static (new_bus_state []) [0x31, 0xAA] True)) =
      (fst (sendEndOfMessage echo_static (fst (sendInitiatorTelegram echo_static (new_bus_state []) [0x31, 0xAA] True))), Inr ())"
    by code_simp
  have "b_wire (new_bus_state []) = []" by (simp add: new_bus_state_def)
  with telegram_echo_safety [OF 1 2] 2 show ?thesis by fastforce
qed

text \<open>
  a failed echo is observed once.  With an observer that works, a byte that was accepted adds
  no echo-mismatch event, any failure adds at most one, and a failure whose error classifies as
  an echo mismatch adds exactly one.
\<close>

theorem echo_mismatch_single_event:
  assumes "healthy_observer st" and "foreign_errors_unmarked st"
    and "sendRawWithEcho st b raw structural isFirst = (b1, r)"
  shows "case r of
      Inr _ \<Rightarrow> mismatch_events b1 = mismatch_events b
    | Inl e \<Rightarrow> mismatch_events b1 \<le> mismatch_events b + 1 \<and>
        (busOutcomeFromError (Some e) = BusOutcomeEchoMismatch \<longrightarrow> mismatch_events b1 = mismatch_events b + 1)"
proof -
  let ?b = "signal_structural st structural b"
  have sig: "mismatch_events ?b = mismatch_events b" by (rule mismatch_same_events) simp
  obtain w wr where w: "op_Write (bs_ops st) (b_world ?b) [raw] = (w, wr)" by fastforce
  have "\<exists>d \<in> mismatch_delta r. mismatch_events b1 = mismatch_events b + d"
  proof (cases wr)
    case (Inl e)
    have "\<not> echoMismatchAlreadyEmitted e" using assms(2) w Inl unfolding foreign_errors_unmarked_def by blast
    moreover have "busOutcomeFromError (Some (EchoMismatchEmitted e)) = busOutcomeFromError (Some e)"
      by (simp add: busOutcomeFromError_def containsEchoMismatch_def)
    ultimately show ?thesis using assms(1,3) w Inl sig
      by (auto simp: sendRawWithEcho_def Let_def mismatch_delta_def mismatch_outcome_emit split: if_splits)
  next
    case (Inr n)
    show ?thesis
    proof (cases "n = 1")
      case False
      then show ?thesis
        using assms(3) w Inr sig echo_fail_delta [OF assms(1), of "Sentinel ErrInvalidPayload" "?b\<lparr>b_world := w\<rparr>" b1 r]
        by (auto simp: sendRawWithEcho_def Let_def)
    next
      case True
      let ?b2 = "emitObserverEvent st (?b\<lparr>b_world := w, b_wire := b_wire ?b @ [Wrote raw]\<rparr>)
        ((event BusEventTX BusOutcomeSuccess)\<lparr>ev_Byte := raw\<rparr>)"
      let ?b3 = "?b2\<lparr>activeEchoWaits := activeEchoWaits ?b2 + 1\<rparr>"
      obtain b4 er where er: "read_echo st ?b3 = (b4, er)" by fastforce
      have b4: "mismatch_events b4 = mismatch_events b"
        using mismatch_read_echo [OF assms(1) er] assms(1) sig by simp
      obtain b5 where b5: "tryR (b4, er) (echo_fail st)
          (\<lambda>b (echo, e). check_echo st b raw structural isFirst echo e) = (b5, r)"
        "mismatch_events b1 = mismatch_events b5"
        using assms(3) w Inr True er by (auto simp: sendRawWithEcho_def Let_def split: prod.splits)
      show ?thesis
      proof (cases er)
        case (Inl e)
        then have "\<exists>d \<in> mismatch_delta r. mismatch_events b5 = mismatch_events b4 + d"
          using b5(1) er by (intro echo_fail_delta [OF assms(1) read_echo_unmarked [OF assms(2)]]) auto
        then show ?thesis using b4 b5(2) by simp
      next
        case (Inr ve)
        then have "\<exists>d \<in> mismatch_delta r. mismatch_events b5 = mismatch_events b4 + d"
          using b5(1) by (cases ve) (auto intro: check_echo_delta [OF assms(1,2)])
        then show ?thesis using b4 b5(2) by simp
      qed
    qed
  qed
  then show ?thesis by (auto simp: mismatch_delta_def split: sum.splits if_splits)
qed

text \<open>A transport that swallows what is written and delivers other traffic.\<close>

definition deaf_static :: "byte list bus_static" where
  "deaf_static = \<lparr>bs_ops = echo_ops\<lparr>op_Write := (\<lambda>w bs. (w, Inr (int (length bs))))\<rparr>,
     bs_config = DefaultBusConfig\<lparr>cfg_Observer := Some (\<lambda>_ _. ObserverNil)\<rparr>, bs_unescaped = False\<rparr>"

theorem echo_mismatch_single_event_witness:
  "mismatch_events (fst (sendRawWithEcho deaf_static (new_bus_state [0x55]) 0x08 False False)) =
   mismatch_events (new_bus_state [0x55 :: byte]) + 1"
proof -
  have healthy: "healthy_observer deaf_static" by (simp add: healthy_observer_def deaf_static_def)
  have unmarked: "foreign_errors_unmarked deaf_static"
    by (auto simp: foreign_errors_unmarked_def deaf_static_def echo_ops_def split: list.splits)
  have run: "sendRawWithEcho deaf_static (new_bus_state [0x55]) 0x08 False False =
      (fst (sendRawWithEcho deaf_static (new_bus_state [0x55]) 0x08 False False), Inl (err_echo_mismatch 0x08 0x55))"
    by (simp add: prod_eq_iff) code_simp
  from echo_mismatch_single_event [OF healthy unmarked run] show ?thesis
    by (simp add: mismatch_outcome)
qed

end
