(* ===== verification/Bus_Transaction.thy ===== *)
theory Bus_Transaction
  imports Bus_Wire
begin

text \<open>
  One transaction of the bus engine, \<open>sendTransaction\<close> of \<open>protocol/bus.go\<close>: the command phase with
  its single retransmission, the response phase with its single repetition request, and the end
  of message.
\<close>

section \<open>Telegram and errors\<close>

definition initiator_telegram :: "frame \<Rightarrow> byte list" where
  "initiator_telegram frame =
     (let header = [Source frame, Target frame, Primary frame, Secondary frame, byte_of_nat (length (Data frame))];
          telegram = header @ Data frame
      in telegram @ [CRC telegram])"

text \<open>The verb \<open>%d\<close> on a length.\<close>

fun decimal :: "nat \<Rightarrow> string" where
  "decimal n = (if n < 10 then [char_of (48 + n)] else decimal (n div 10) @ [char_of (48 + n mod 10)])"

declare decimal.simps [simp del]

definition errUnknownFrameType :: go_error where
  "errUnknownFrameType = Wrap ''bus send unknown frame type: '' (Sentinel ErrInvalidPayload) []"

definition errCommandAckLoopExhausted :: go_error where
  "errCommandAckLoopExhausted = Wrap ''command ack loop exited without ack: '' (Sentinel ErrTimeout) []"

definition err_too_long :: "nat \<Rightarrow> go_error" where
  "err_too_long n = Wrap (''frame data length '' @ decimal n @ '' exceeds eBUS maximum 255: '') (Sentinel ErrInvalidPayload) []"

definition err_nack :: go_error where
  "err_nack = Wrap ''nack received: '' (Sentinel ErrNACK) []"

definition err_syn_ack :: go_error where
  "err_syn_ack = Wrap ''syn while waiting for command ack: '' (Sentinel ErrTimeout) []"

definition err_unexpected_symbol :: "byte \<Rightarrow> go_error" where
  "err_unexpected_symbol ack =
     Wrap (''unexpected symbol 0x'' @ hex02x ack @ '' while waiting for command ack: '') (Sentinel ErrTimeout) []"

definition err_syn_in :: "string \<Rightarrow> go_error" where
  "err_syn_in what = Wrap (''syn while '' @ what @ '': '') (Sentinel ErrTimeout) []"

definition err_crc :: go_error where
  "err_crc = Wrap ''crc mismatch: '' (Sentinel ErrCRCMismatch) []"

definition err_unreachable :: go_error where
  "err_unreachable = Wrap ''unreachable response loop: '' (Sentinel ErrTimeout) []"

section \<open>Phases\<close>

text \<open>First attempt: an arbitrating transport has already sent the source unless it says otherwise.\<close>

definition include_source :: "'t bus_static \<Rightarrow> bool" where
  "include_source st =
     (case op_StartArbitration (bs_ops st) of
        None \<Rightarrow> True
      | Some _ \<Rightarrow> (case op_ArbitrationSendsSource (bs_ops st) of Some s \<Rightarrow> \<not> s | None \<Rightarrow> False))"

definition request_event :: "bus_event_kind \<Rightarrow> bus_outcome \<Rightarrow> frame_type \<Rightarrow> byte \<Rightarrow> 16 word \<Rightarrow> frame \<Rightarrow> bus_event" where
  "request_event kind outcome frameType v attempt frame =
     (event kind outcome)\<lparr>ev_FrameType := frameType, ev_Byte := v, ev_Attempt := attempt,
       ev_Request := frame, ev_HasRequest := True\<rparr>"

text \<open>How the command phase ends; the flag is the decoder's escape state.\<close>

datatype command_end = CmdError go_error | CmdBroadcast | CmdAcked

fun command_loop ::
  "nat \<Rightarrow> 't bus_static \<Rightarrow> 't bus \<Rightarrow> bool \<Rightarrow> frame \<Rightarrow> frame_type \<Rightarrow> 16 word \<Rightarrow> bool \<Rightarrow> 't bus \<times> bool \<times> command_end" where
  "command_loop 0 st b esc frame frameType attempt includeSource =
     (b, esc, CmdError errCommandAckLoopExhausted)"
| "command_loop (Suc left) st b esc frame frameType attempt includeSource =
     (case sendInitiatorTelegram st b (initiator_telegram frame) includeSource of
        (b1, Inl e) \<Rightarrow> (b1, esc, CmdError e)
      | (b1, Inr _) \<Rightarrow>
          if frameType = FrameTypeBroadcast then
            (case sendEndOfMessage st b1 of
               (b2, Inl e) \<Rightarrow> (b2, esc, CmdError e)
             | (b2, Inr _) \<Rightarrow> (emitAttemptComplete st b2 frame None frameType attempt, esc, CmdBroadcast))
          else
            (case readSymbol st esc b1 of
               (b2, esc2, Inl e) \<Rightarrow> (emitOutcomeEvent st b2 frame frameType attempt e, esc2, CmdError e)
             | (b2, esc2, Inr ack) \<Rightarrow>
                 if ack = SymbolAck then
                   (emitObserverEvent st b2 (request_event BusEventACK BusOutcomeSuccess frameType SymbolAck attempt frame),
                    esc2, CmdAcked)
                 else if ack = SymbolNack then
                   let b3 = emitObserverEvent st b2
                              (request_event BusEventNACK BusOutcomeNACK frameType SymbolNack attempt frame) in
                   if left = 1 then command_loop left st b3 esc2 frame frameType attempt True
                   else let b4 = fst (sendEndOfMessage st b3) in
                     (emitOutcomeEvent st b4 frame frameType attempt err_nack, esc2, CmdError err_nack)
                 else if ack = SymbolSyn then
                   let err = (if \<not> bs_unescaped st then err_syn_ack else err_unexpected_symbol ack) in
                   (emitOutcomeEvent st b2 frame frameType attempt err, esc2, CmdError err)
                 else (emitOutcomeEvent st b2 frame frameType attempt (err_unexpected_symbol ack), esc2,
                       CmdError (err_unexpected_symbol ack))))"

text \<open>A symbol of the response; on a plain transport a SYN means the bus went idle.\<close>

definition response_symbol ::
  "'t bus_static \<Rightarrow> 't bus \<Rightarrow> bool \<Rightarrow> frame \<Rightarrow> frame_type \<Rightarrow> 16 word \<Rightarrow> string \<Rightarrow> 't bus \<times> bool \<times> byte result" where
  "response_symbol st b esc frame frameType attempt what =
     (case readSymbol st esc b of
        (b1, esc1, Inl e) \<Rightarrow> (emitOutcomeEvent st b1 frame frameType attempt e, esc1, Inl e)
      | (b1, esc1, Inr v) \<Rightarrow>
          if \<not> bs_unescaped st \<and> v = SymbolSyn
          then (emitOutcomeEvent st b1 frame frameType attempt (err_syn_in what), esc1, Inl (err_syn_in what))
          else (b1, esc1, Inr v))"

fun response_data ::
  "nat \<Rightarrow> 't bus_static \<Rightarrow> 't bus \<Rightarrow> bool \<Rightarrow> frame \<Rightarrow> frame_type \<Rightarrow> 16 word \<Rightarrow> 't bus \<times> bool \<times> byte list result" where
  "response_data 0 st b esc frame frameType attempt = (b, esc, Inr [])"
| "response_data (Suc n) st b esc frame frameType attempt =
     (case response_symbol st b esc frame frameType attempt ''reading response data'' of
        (b1, esc1, Inl e) \<Rightarrow> (b1, esc1, Inl e)
      | (b1, esc1, Inr v) \<Rightarrow>
          (case response_data n st b1 esc1 frame frameType attempt of
             (b2, esc2, Inl e) \<Rightarrow> (b2, esc2, Inl e)
           | (b2, esc2, Inr vs) \<Rightarrow> (b2, esc2, Inr (v # vs))))"

definition response_frame :: "frame \<Rightarrow> byte list \<Rightarrow> frame" where
  "response_frame frame data = \<lparr>Source = Target frame, Target = Source frame, Primary = Primary frame,
     Secondary = Secondary frame, Data = data, FrameType = FrameTypeUnknown\<rparr>"

definition response_event ::
  "bus_event_kind \<Rightarrow> bus_outcome \<Rightarrow> frame_type \<Rightarrow> byte \<Rightarrow> 16 word \<Rightarrow> frame \<Rightarrow> frame \<Rightarrow> bus_event" where
  "response_event kind outcome frameType v attempt frame response =
     (request_event kind outcome frameType v attempt frame)\<lparr>ev_Response := response, ev_HasResponse := True\<rparr>"

text \<open>The three parts of one response: length, data, CRC.\<close>

definition read_response ::
  "'t bus_static \<Rightarrow> 't bus \<Rightarrow> bool \<Rightarrow> frame \<Rightarrow> frame_type \<Rightarrow> 16 word \<Rightarrow> 't bus \<times> bool \<times> (byte \<times> byte list \<times> byte) result" where
  "read_response st b esc frame frameType attempt =
     (case response_symbol st b esc frame frameType attempt ''waiting for response length'' of
        (b1, esc1, Inl e) \<Rightarrow> (b1, esc1, Inl e)
      | (b1, esc1, Inr lengthSym) \<Rightarrow>
          (case response_data (unat lengthSym) st b1 esc1 frame frameType attempt of
             (b2, esc2, Inl e) \<Rightarrow> (b2, esc2, Inl e)
           | (b2, esc2, Inr data) \<Rightarrow>
               (case response_symbol st b2 esc2 frame frameType attempt ''waiting for response crc'' of
                  (b3, esc3, Inl e) \<Rightarrow> (b3, esc3, Inl e)
                | (b3, esc3, Inr crcValue) \<Rightarrow> (b3, esc3, Inr (lengthSym, data, crcValue)))))"

fun response_loop ::
  "nat \<Rightarrow> 't bus_static \<Rightarrow> 't bus \<Rightarrow> bool \<Rightarrow> frame \<Rightarrow> frame_type \<Rightarrow> 16 word \<Rightarrow> 't bus \<times> frame option result" where
  "response_loop 0 st b esc frame frameType attempt =
     (emitOutcomeEvent st b frame frameType attempt err_unreachable, Inl err_unreachable)"
| "response_loop (Suc left) st b esc frame frameType attempt =
     (case read_response st b esc frame frameType attempt of
        (b1, esc1, Inl e) \<Rightarrow> (b1, Inl e)
      | (b1, esc1, Inr (lengthSym, data, crcValue)) \<Rightarrow>
          let response = response_frame frame data in
          if CRC (lengthSym # data) \<noteq> crcValue then
            tryR (sendSymbolWithEcho st b1 SymbolNack True False) (\<lambda>b2 e. (b2, Inl e)) (\<lambda>b2 _.
              let b3 = emitObserverEvent st b2
                         (response_event BusEventNACK BusOutcomeCRCMismatch frameType SymbolNack attempt frame response) in
              if left = 1 then
                response_loop left st
                  (emitObserverEvent st b3 (response_event BusEventCRCMismatch BusOutcomeCRCMismatch frameType 0 attempt frame response))
                  esc1 frame frameType attempt
              else let b4 = fst (sendEndOfMessage st b3) in
                (emitOutcomeEvent st b4 frame frameType attempt err_crc, Inl err_crc))
          else
            tryR (sendSymbolWithEcho st b1 SymbolAck True False) (\<lambda>b2 e. (b2, Inl e)) (\<lambda>b2 _.
              let b3 = emitObserverEvent st b2
                         (response_event BusEventACK BusOutcomeSuccess frameType SymbolAck attempt frame response) in
              tryR (sendEndOfMessage st b3) (\<lambda>b4 e. (b4, Inl e)) (\<lambda>b4 _.
                (emitAttemptComplete st b4 frame (Some response) frameType attempt, Inr (Some response)))))"

section \<open>The transaction\<close>

definition sendTransaction :: "'t bus_static \<Rightarrow> 't bus \<Rightarrow> frame \<Rightarrow> 16 word \<Rightarrow> 't bus \<times> frame option result" where
  "sendTransaction st b frame attempt =
     (let frameType = Frame_Type frame in
      if frameType = FrameTypeUnknown then (b, Inl errUnknownFrameType)
      else if length (Data frame) > 255 then (b, Inl (err_too_long (length (Data frame))))
      else case command_loop 2 st b False frame frameType attempt (include_source st) of
          (b1, esc, CmdError e) \<Rightarrow> (b1, Inl e)
        | (b1, esc, CmdBroadcast) \<Rightarrow> (b1, Inr None)
        | (b1, esc, CmdAcked) \<Rightarrow>
            if frameType = FrameTypeInitiatorInitiator then
              tryR (sendEndOfMessage st b1) (\<lambda>b2 e. (b2, Inl e)) (\<lambda>b2 _.
                (emitAttemptComplete st b2 frame None frameType attempt, Inr None))
            else if frameType \<noteq> FrameTypeInitiatorTarget then (b1, Inl errUnknownFrameType)
            else response_loop 2 st b1 esc frame frameType attempt)"

section \<open>What was read when a symbol is returned\<close>

text \<open>The wire form of a symbol as the transport delivers it.\<close>

definition wire_form :: "'t bus_static \<Rightarrow> byte \<Rightarrow> byte list" where
  "wire_form st v = (if bs_unescaped st then [v] else escape_symbol v)"

abbreviation gots :: "byte list \<Rightarrow> wire_io list" where
  "gots ws \<equiv> map (\<lambda>w. Got w False) ws"

lemma read_symbol_loop_ok:
  assumes "read_symbol_loop st esc b = (b1, esc1, Inr v)"
  shows "esc1 = False \<and> (\<not> esc \<longrightarrow> b_wire b1 = b_wire b @ gots (escape_symbol v) \<or>
    (v = SymbolSyn \<and> b_wire b1 = b_wire b @ [Got SymbolSyn False]))"
proof -
  have pair: "esc1 = False \<and> (\<exists>c. b_wire b1 = b_wire b @ [Got c False] \<and>
      ((c = 0x00 \<and> v = SymbolEscape) \<or> (c = 0x01 \<and> v = SymbolSyn)))"
    if "read_symbol_loop st True b = (b1, esc1, Inr v)" for b
    using that readByte_wire [of st b]
    by (subst (asm) read_symbol_loop.simps) (auto split: prod.splits sum.splits if_splits)
  show ?thesis
  proof (cases esc)
    case True
    with assms have "read_symbol_loop st True b = (b1, esc1, Inr v)" by simp
    from pair [OF this] True show ?thesis by simp
  next
    case False
    obtain b2 r where r: "readByte st b = (b2, r)" by fastforce
    with assms False obtain raw where raw: "r = Inr raw" "b_wire b2 = b_wire b @ [Got raw False]"
      using readByte_wire [OF r] by (subst (asm) read_symbol_loop.simps) (cases r, auto)
    show ?thesis
    proof (cases "raw = SymbolEscape")
      case True
      then have "read_symbol_loop st True b2 = (b1, esc1, Inr v)"
        using assms False r raw by (subst (asm) read_symbol_loop.simps) simp
      then show ?thesis using pair raw True by (auto simp: escape_symbol_def symbol_defs)
    next
      case other: False
      then have "b1 = b2" "esc1 = False" "v = raw"
        using assms False r raw by (subst (asm) read_symbol_loop.simps, simp)+
      then show ?thesis using raw other by (auto simp: escape_symbol_def)
    qed
  qed
qed

lemma response_symbol_ok:
  assumes "response_symbol st b False frame ft a what = (b1, esc1, Inr v)"
  shows "esc1 = False \<and> b_wire b1 = b_wire b @ gots (wire_form st v)"
proof (cases "bs_unescaped st")
  case True
  then show ?thesis
    using assms readByte_wire [of st b]
    by (auto simp: response_symbol_def readSymbol_def wire_form_def split: prod.splits sum.splits if_splits)
next
  case False
  then have "read_symbol_loop st False b = (b1, esc1, Inr v)" "v \<noteq> SymbolSyn"
    using assms by (auto simp: response_symbol_def readSymbol_def split: prod.splits sum.splits if_splits)
  then show ?thesis using read_symbol_loop_ok [of st False b b1 esc1 v] False by (simp add: wire_form_def)
qed

lemma response_data_ok:
  assumes "response_data n st b False frame ft a = (b1, esc1, Inr vs)"
  shows "esc1 = False \<and> length vs = n \<and> b_wire b1 = b_wire b @ gots (concat (map (wire_form st) vs))"
  using assms
proof (induction n arbitrary: b vs)
  case (Suc n)
  obtain b2 esc2 r where r: "response_symbol st b False frame ft a ''reading response data'' = (b2, esc2, r)"
    using prod_cases3 by blast
  with Suc.prems obtain v where v: "r = Inr v" by (cases r) simp_all
  note sym = response_symbol_ok [OF r [unfolded v]]
  obtain b3 esc3 r' where r': "response_data n st b2 False frame ft a = (b3, esc3, r')"
    using prod_cases3 by blast
  with Suc.prems r v sym obtain vs' where "r' = Inr vs'" "vs = v # vs'" "b1 = b3" "esc1 = esc3"
    by (cases r') simp_all
  then show ?case using Suc.IH [of b2 vs'] r' sym by simp
qed simp

lemma read_response_ok:
  assumes "read_response st b False frame ft a = (b1, esc1, Inr (lengthSym, data, crcValue))"
  shows "esc1 = False \<and> lengthSym = byte_of_nat (length data) \<and> length data \<le> 255 \<and>
    b_wire b1 = b_wire b @ gots (concat (map (wire_form st) (lengthSym # data @ [crcValue])))"
proof -
  obtain b2 esc2 r where r: "response_symbol st b False frame ft a ''waiting for response length'' = (b2, esc2, r)"
    using prod_cases3 by blast
  with assms obtain l where l: "r = Inr l" by (cases r) (simp_all add: read_response_def)
  note s1 = response_symbol_ok [OF r [unfolded l]]
  obtain b3 esc3 r' where r': "response_data (unat l) st b2 False frame ft a = (b3, esc3, r')"
    using prod_cases3 by blast
  with assms r l s1 obtain d where d: "r' = Inr d" by (cases r') (simp_all add: read_response_def)
  note s2 = response_data_ok [OF r' [unfolded d]]
  obtain b4 esc4 r'' where r'': "response_symbol st b3 False frame ft a ''waiting for response crc'' = (b4, esc4, r'')"
    using prod_cases3 by blast
  with assms r l s1 r' d s2 obtain c where c: "r'' = Inr c" by (cases r'') (simp_all add: read_response_def)
  note s3 = response_symbol_ok [OF r'' [unfolded c]]
  have "(lengthSym, data, crcValue) = (l, d, c)" "b1 = b4" "esc1 = esc4"
    using assms r l s1 r' d s2 r'' c by (simp_all add: read_response_def)
  then show ?thesis using s1 s2 s3 unat_byte_le_255 [of l] by auto
qed

section \<open>What is on the wire after a finished transaction\<close>

definition response_segment :: "byte list \<Rightarrow> byte list" where
  "response_segment data = (let seg = byte_of_nat (length data) # data in seg @ [CRC seg])"

abbreviation heard :: "'t bus_static \<Rightarrow> byte list \<Rightarrow> wire_io list" where
  "heard st vs \<equiv> gots (concat (map (wire_form st) vs))"

text \<open>A telegram that was sent and echoed, symbol by symbol.\<close>

definition telegram_trace :: "'t bus_static \<Rightarrow> frame \<Rightarrow> bool \<Rightarrow> wire_io list \<Rightarrow> bool" where
  "telegram_trace st frame includeSource tr \<longleftrightarrow>
     (\<exists>trs. tr = concat trs \<and> list_all2 (\<lambda>s tr. symbol_trace st s True tr)
        (if includeSource then initiator_telegram frame else drop 1 (initiator_telegram frame)) trs)"

text \<open>At most \<open>n\<close> transmissions; all but the last were refused, and repetitions carry the source.\<close>

fun command_trace :: "nat \<Rightarrow> 't bus_static \<Rightarrow> frame \<Rightarrow> bool \<Rightarrow> wire_io list \<Rightarrow> bool" where
  "command_trace 0 st frame inc tr = False"
| "command_trace (Suc n) st frame inc tr =
     (\<exists>tel rest. tr = tel @ rest \<and> telegram_trace st frame inc tel \<and>
        (rest = [Got SymbolAck False] \<or>
         (\<exists>rest'. rest = Got SymbolNack False # rest' \<and> command_trace n st frame True rest')))"

text \<open>At most \<open>n\<close> responses; all but the last had a wrong CRC and were refused, the last is acknowledged.\<close>

fun response_trace :: "nat \<Rightarrow> 't bus_static \<Rightarrow> byte list \<Rightarrow> wire_io list \<Rightarrow> bool" where
  "response_trace 0 st data tr = False"
| "response_trace (Suc n) st data tr =
     ((\<exists>ack eom. tr = heard st (response_segment data) @ ack @ eom \<and>
        symbol_trace st SymbolAck True ack \<and> symbol_trace st SymbolSyn False eom) \<or>
      (\<exists>d c nack rest. tr = heard st (byte_of_nat (length d) # d @ [c]) @ nack @ rest \<and>
        c \<noteq> CRC (byte_of_nat (length d) # d) \<and> symbol_trace st SymbolNack True nack \<and>
        response_trace n st data rest))"

lemma tryR_ok:
  assumes "tryR m (\<lambda>b e. (b, Inl e)) k = (b1, Inr x)"
  obtains b v where "m = (b, Inr v)" "k b v = (b1, Inr x)"
  using assms by (cases m; cases "snd m") auto

lemma end_of_message_ok:
  assumes "sendEndOfMessage st b = (b1, Inr ())"
  obtains eom where "b_wire b1 = b_wire b @ eom" "symbol_trace st SymbolSyn False eom"
  using assms sendSymbolWithEcho_ok unfolding sendEndOfMessage_def by blast

lemma emitAttemptComplete_wire [simp]: "b_wire (emitAttemptComplete st b rq rs ft a) = b_wire b"
  by (simp add: emitAttemptComplete_def)

lemma telegram_ok:
  assumes "sendInitiatorTelegram st b (initiator_telegram frame) inc = (b1, Inr ())"
  obtains tel where "b_wire b1 = b_wire b @ tel" "telegram_trace st frame inc tel"
proof -
  obtain trs where "b_wire b1 = b_wire b @ concat trs" "list_all2 (\<lambda>s tr. symbol_trace st s True tr)
      (if inc then initiator_telegram frame else drop 1 (initiator_telegram frame)) trs"
    using send_symbols_ok [OF assms [unfolded sendInitiatorTelegram_def]] by metis
  then show thesis using that unfolding telegram_trace_def by blast
qed

lemma readSymbol_ok:
  assumes "readSymbol st False b = (b1, esc1, Inr v)" and "v \<noteq> SymbolSyn" and "v \<noteq> SymbolEscape"
  shows "esc1 = False \<and> b_wire b1 = b_wire b @ [Got v False]"
proof (cases "bs_unescaped st")
  case True
  then show ?thesis using assms(1) readByte_wire [of st b]
    by (auto simp: readSymbol_def split: prod.splits)
next
  case False
  then show ?thesis using assms read_symbol_loop_ok [of st False b b1 esc1 v]
    by (simp add: readSymbol_def escape_symbol_def)
qed

lemma command_loop_acked:
  assumes "command_loop n st b False frame ft a inc = (b1, esc1, CmdAcked)"
  shows "esc1 = False \<and> (\<exists>tr. b_wire b1 = b_wire b @ tr \<and> command_trace n st frame inc tr)"
  using assms
proof (induction n arbitrary: b inc)
  case (Suc n)
  obtain b2 where sent: "sendInitiatorTelegram st b (initiator_telegram frame) inc = (b2, Inr ())"
    and ft: "ft \<noteq> FrameTypeBroadcast"
    using Suc.prems by (auto split: prod.splits sum.splits if_splits)
  obtain tel where tel: "b_wire b2 = b_wire b @ tel" "telegram_trace st frame inc tel"
    using telegram_ok [OF sent] .
  obtain b3 esc3 r where r: "readSymbol st False b2 = (b3, esc3, r)" using prod_cases3 by blast
  with Suc.prems sent ft obtain v where v: "r = Inr v" by (cases r) (auto split: if_splits)
  have "v = SymbolAck \<or> v = SymbolNack" using Suc.prems sent ft r v by (auto simp: Let_def split: if_splits)
  then show ?case
  proof
    assume ack: "v = SymbolAck"
    then have "esc3 = False \<and> b_wire b3 = b_wire b2 @ [Got SymbolAck False]"
      using readSymbol_ok [of st b2 b3 esc3 v] r v by (simp add: symbol_defs)
    moreover have "esc1 = esc3" "b_wire b1 = b_wire b3" using Suc.prems sent ft r v ack by auto
    ultimately show ?thesis using tel by fastforce
  next
    assume nack: "v = SymbolNack"
    then have 3: "esc3 = False \<and> b_wire b3 = b_wire b2 @ [Got SymbolNack False]"
      using readSymbol_ok [of st b2 b3 esc3 v] r v by (simp add: symbol_defs)
    let ?b = "emitObserverEvent st b3 (request_event BusEventNACK BusOutcomeNACK ft SymbolNack a frame)"
    have "command_loop n st ?b False frame ft a True = (b1, esc1, CmdAcked)"
      using Suc.prems sent ft r v nack 3 by (auto simp: symbol_defs Let_def split: if_splits)
    from Suc.IH [OF this] obtain tr where tr: "esc1 = False" "b_wire b1 = b_wire ?b @ tr" "command_trace n st frame True tr"
      by blast
    then have "command_trace (Suc n) st frame inc (tel @ Got SymbolNack False # tr)"
      using tel by (simp only: command_trace.simps) blast
    moreover have "b_wire b1 = b_wire b @ tel @ Got SymbolNack False # tr" using tr tel 3 by simp
    ultimately show ?thesis using tr by blast
  qed
qed simp

lemma command_loop_broadcast:
  assumes "command_loop (Suc n) st b False frame FrameTypeBroadcast a inc = (b1, esc1, CmdBroadcast)"
  shows "\<exists>tel eom. b_wire b1 = b_wire b @ tel @ eom \<and> telegram_trace st frame inc tel \<and> symbol_trace st SymbolSyn False eom"
proof -
  obtain b2 b3 where sent: "sendInitiatorTelegram st b (initiator_telegram frame) inc = (b2, Inr ())"
      "sendEndOfMessage st b2 = (b3, Inr ())" "b_wire b1 = b_wire b3"
    using assms by (cases "sendInitiatorTelegram st b (initiator_telegram frame) inc"; cases "snd (sendInitiatorTelegram st b (initiator_telegram frame) inc)";
        cases "snd (sendEndOfMessage st (fst (sendInitiatorTelegram st b (initiator_telegram frame) inc)))")
      (auto split: prod.splits)
  obtain tel where "b_wire b2 = b_wire b @ tel" "telegram_trace st frame inc tel" using telegram_ok [OF sent(1)] .
  moreover obtain eom where "b_wire b3 = b_wire b2 @ eom" "symbol_trace st SymbolSyn False eom"
    using end_of_message_ok [OF sent(2)] .
  ultimately show ?thesis using sent(3) by auto
qed

lemma command_loop_not_broadcast:
  "ft \<noteq> FrameTypeBroadcast \<Longrightarrow> command_loop n st b esc frame ft a inc \<noteq> (b1, esc1, CmdBroadcast)"
proof (induction n arbitrary: b esc inc)
  case (Suc n)
  obtain b2 r where "sendInitiatorTelegram st b (initiator_telegram frame) inc = (b2, r)" by fastforce
  moreover obtain b3 esc3 r' where "readSymbol st esc b2 = (b3, esc3, r')" using prod_cases3 by blast
  ultimately show ?case
    using Suc by (subst command_loop.simps(2), cases r; cases r') (auto simp: Let_def simp del: command_loop.simps)
qed simp

lemma command_loop_not_acked:
  "command_loop n st b esc frame FrameTypeBroadcast a inc \<noteq> (b1, esc1, CmdAcked)"
  by (cases n) (auto split: prod.splits sum.splits)

lemma response_loop_ok:
  assumes "response_loop n st b False frame ft a = (b1, Inr res)"
  shows "\<exists>data tr. res = Some (response_frame frame data) \<and> length data \<le> 255 \<and>
    b_wire b1 = b_wire b @ tr \<and> response_trace n st data tr"
  using assms
proof (induction n arbitrary: b)
  case (Suc n)
  obtain b2 esc2 r where r: "read_response st b False frame ft a = (b2, esc2, r)" using prod_cases3 by blast
  with Suc.prems obtain l d c where ldc: "r = Inr (l, d, c)" by (cases r) auto
  note resp = read_response_ok [OF r [unfolded ldc]]
  then have esc2: "esc2 = False" and l: "l = byte_of_nat (length d)" by simp_all
  show ?case
  proof (cases "CRC (l # d) = c")
    case True
    from Suc.prems r ldc True obtain b3 b4 where
      ack: "sendSymbolWithEcho st b2 SymbolAck True False = (b3, Inr ())" and
      eom: "sendEndOfMessage st (emitObserverEvent st b3
        (response_event BusEventACK BusOutcomeSuccess ft SymbolAck a frame (response_frame frame d))) = (b4, Inr ())" and
      res: "res = Some (response_frame frame d)" "b_wire b1 = b_wire b4"
      by (auto simp: Let_def elim!: tryR_ok)
    obtain tr1 where tr1: "b_wire b3 = b_wire b2 @ tr1" "symbol_trace st SymbolAck True tr1"
      using sendSymbolWithEcho_ok [OF ack] by blast
    obtain tr2 where tr2: "b_wire b4 = b_wire b3 @ tr2" "symbol_trace st SymbolSyn False tr2"
      using end_of_message_ok [OF eom] by auto
    have "response_segment d = l # d @ [c]" using l True by (simp add: response_segment_def Let_def)
    then have "response_trace (Suc n) st d (heard st (l # d @ [c]) @ tr1 @ tr2)" using tr1 tr2 by auto
    moreover have "b_wire b1 = b_wire b @ heard st (l # d @ [c]) @ tr1 @ tr2" using resp tr1 tr2 res by simp
    ultimately show ?thesis using resp res by blast
  next
    case False
    from Suc.prems r ldc False esc2 obtain b3 b4 where
      nack: "sendSymbolWithEcho st b2 SymbolNack True False = (b3, Inr ())" and
      again: "response_loop n st b4 False frame ft a = (b1, Inr res)" "b_wire b4 = b_wire b3"
      by (auto simp: Let_def elim!: tryR_ok split: if_splits)
    obtain tr1 where tr1: "b_wire b3 = b_wire b2 @ tr1" "symbol_trace st SymbolNack True tr1"
      using sendSymbolWithEcho_ok [OF nack] by blast
    from Suc.IH [OF again(1)] obtain data rest where ih: "res = Some (response_frame frame data)" "length data \<le> 255"
      "b_wire b1 = b_wire b4 @ rest" "response_trace n st data rest" by blast
    then have "response_trace (Suc n) st data (heard st (l # d @ [c]) @ tr1 @ rest)"
      using tr1 False l by (simp only: response_trace.simps) metis
    moreover have "b_wire b1 = b_wire b @ heard st (l # d @ [c]) @ tr1 @ rest" using resp tr1 again(2) ih by simp
    ultimately show ?thesis using ih by blast
  qed
qed simp

text \<open>The wire history of a whole transaction, by frame type.\<close>

definition transaction_trace :: "'t bus_static \<Rightarrow> frame \<Rightarrow> frame option \<Rightarrow> wire_io list \<Rightarrow> bool" where
  "transaction_trace st frame res tr \<longleftrightarrow>
     (case Frame_Type frame of
        FrameTypeBroadcast \<Rightarrow> res = None \<and> (\<exists>tel eom. tr = tel @ eom \<and>
          telegram_trace st frame (include_source st) tel \<and> symbol_trace st SymbolSyn False eom)
      | FrameTypeInitiatorInitiator \<Rightarrow> res = None \<and> (\<exists>cmd eom. tr = cmd @ eom \<and>
          command_trace 2 st frame (include_source st) cmd \<and> symbol_trace st SymbolSyn False eom)
      | FrameTypeInitiatorTarget \<Rightarrow> (\<exists>data cmd rsp. res = Some (response_frame frame data) \<and>
          length data \<le> 255 \<and> tr = cmd @ rsp \<and>
          command_trace 2 st frame (include_source st) cmd \<and> response_trace 2 st data rsp)
      | _ \<Rightarrow> False)"

lemma transaction_history:
  assumes "sendTransaction st b frame attempt = (b1, Inr res)"
  shows "length (Data frame) \<le> 255 \<and> (\<exists>tr. b_wire b1 = b_wire b @ tr \<and> transaction_trace st frame res tr)"
proof -
  let ?t = "Frame_Type frame"
  obtain b2 esc c where cmd: "command_loop 2 st b False frame ?t attempt (include_source st) = (b2, esc, c)"
    using prod_cases3 by blast
  have valid: "?t \<noteq> FrameTypeUnknown" "length (Data frame) \<le> 255"
    using assms by (auto simp: sendTransaction_def Let_def split: if_splits)
  note run = assms [unfolded sendTransaction_def Let_def cmd, simplified valid not_less [symmetric] if_False, simplified valid]
  show ?thesis
  proof (cases c)
    case (CmdError e)
    then show ?thesis using run valid by simp
  next
    case CmdBroadcast
    then have b: "?t = FrameTypeBroadcast" using command_loop_not_broadcast cmd by blast
    then show ?thesis
      using CmdBroadcast run valid command_loop_broadcast [of 1 st b frame attempt "include_source st" b2 esc] cmd
      by (auto simp: transaction_trace_def numeral_2_eq_2 simp del: command_loop.simps)
  next
    case CmdAcked
    then obtain tr where tr: "esc = False" "b_wire b2 = b_wire b @ tr" "command_trace 2 st frame (include_source st) tr"
      using command_loop_acked cmd by blast
    have nb: "?t \<noteq> FrameTypeBroadcast" using CmdAcked command_loop_not_acked cmd by metis
    show ?thesis
    proof (cases "?t = FrameTypeInitiatorInitiator")
      case True
      then obtain b3 where "sendEndOfMessage st b2 = (b3, Inr ())" "res = None" "b_wire b1 = b_wire b3"
        using run CmdAcked valid by (auto elim!: tryR_ok)
      then show ?thesis using end_of_message_ok [of st b2 b3] tr True valid
        by (fastforce simp: transaction_trace_def simp del: command_trace.simps)
    next
      case False
      then have t: "?t = FrameTypeInitiatorTarget" using run CmdAcked valid by (simp split: if_splits)
      then have "response_loop 2 st b2 False frame ?t attempt = (b1, Inr res)"
        using run CmdAcked valid tr(1) by (simp del: response_loop.simps)
      from response_loop_ok [OF this] tr t valid show ?thesis
        by (fastforce simp: transaction_trace_def simp del: command_trace.simps response_trace.simps)
    qed
  qed
qed

section \<open>Properties\<close>

text \<open>
  C1: what the caller of a transaction is told is what was on the wire.  If \<open>sendTransaction\<close>
  returns without an error, the wire history has grown by the telegram of the frame, echoed symbol
  by symbol and repeated at most once after a NACK; a broadcast then ends with SYN, an
  initiator-to-initiator telegram with the ACK and SYN, and a request with the ACK, the response
  whose data is returned with a CRC that fits, its acknowledgement and SYN, after at most one
  response with a wrong CRC that was refused.
\<close>

theorem transaction_wire_history:
  assumes "sendTransaction st b frame attempt = (b1, Inr res)"
  shows "length (Data frame) \<le> 255 \<and> (\<exists>tr. b_wire b1 = b_wire b @ tr \<and> transaction_trace st frame res tr)"
  using transaction_history [OF assms] .

text \<open>A request on a wire where the target acknowledges and answers with one data byte.\<close>

definition wire_request :: frame where
  "wire_request = \<lparr>Source = 0x31, Target = 0x08, Primary = 0xB5, Secondary = 0x04, Data = [0x01], FrameType = FrameTypeUnknown\<rparr>"

theorem transaction_wire_history_witness:
  "\<exists>b1 tr. sendTransaction echo_static (new_bus_state (0x00 # response_segment [0x2A])) wire_request 1 =
      (b1, Inr (Some (response_frame wire_request [0x2A]))) \<and>
    b_wire b1 = tr \<and> transaction_trace echo_static wire_request (Some (response_frame wire_request [0x2A])) tr"
proof -
  have 1: "sendTransaction echo_static (new_bus_state (0x00 # response_segment [0x2A])) wire_request 1 =
      (fst (sendTransaction echo_static (new_bus_state (0x00 # response_segment [0x2A])) wire_request 1),
       Inr (Some (response_frame wire_request [0x2A])))"
    by (simp add: prod_eq_iff) code_simp
  have "b_wire (new_bus_state w) = []" for w :: "byte list" by (simp add: new_bus_state_def)
  with transaction_wire_history [OF 1] 1 show ?thesis by fastforce
qed

end
