(* ===== verification/Bus_Retry.thy ===== *)
theory Bus_Retry
  imports Bus_Transaction
begin

text \<open>
  The retry tier of the bus engine (\<open>protocol/bus.go\<close>): which failures are retried, arbitration,
  the collision back-off with its resynchronisation on SYN, transport reconnection, and
  \<open>sendWithRetries\<close>.  A loop that may run forever is a partial function: not returning is \<open>None\<close>.
\<close>

section \<open>Decisions\<close>

definition shouldRetry :: "go_error \<Rightarrow> retry_policy \<Rightarrow> int \<Rightarrow> int \<Rightarrow> bool \<Rightarrow> bool \<times> int \<times> int" where
  "shouldRetry err policy timeoutAttempts nackAttempts deadlineBoundsRetries =
     (if errors_Is err ErrAdapterHostError then (False, timeoutAttempts, nackAttempts)
      else if errors_Is err ErrBusCollision then
        (if deadlineBoundsRetries then (True, timeoutAttempts, nackAttempts)
         else if timeoutAttempts < TimeoutRetries policy then (True, timeoutAttempts + 1, nackAttempts)
         else (False, timeoutAttempts, nackAttempts))
      else if errors_Is err ErrAdapterReset then
        (if timeoutAttempts < TimeoutRetries policy then (True, timeoutAttempts + 1, nackAttempts)
         else (False, timeoutAttempts, nackAttempts))
      else if errors_Is err ErrTimeout then (False, timeoutAttempts, nackAttempts)
      else if errors_Is err ErrCRCMismatch \<and> timeoutAttempts < TimeoutRetries policy
        then (True, timeoutAttempts + 1, nackAttempts)
      else if errors_Is err ErrNACK \<and> nackAttempts < NACKRetries policy
        then (True, timeoutAttempts, nackAttempts + 1)
      else (False, timeoutAttempts, nackAttempts))"

text \<open>A request context, as far as the engine looks at it here: nil or with its optional deadline.\<close>

definition isBoundedContext :: "go_time option option \<Rightarrow> bool" where
  "isBoundedContext ctx = (case ctx of None \<Rightarrow> False | Some deadline \<Rightarrow> deadline \<noteq> None)"

definition wrapRetryError :: "go_error \<Rightarrow> go_error" where
  "wrapRetryError err =
     (if errors_Is err ErrBusCollision then Wrap ''bus send collision: '' err []
      else if errors_Is err ErrTimeout then Wrap ''bus send timeout: '' err []
      else if errors_Is err ErrNACK then Wrap ''bus send nack: '' err []
      else if errors_Is err ErrCRCMismatch then Wrap ''bus send crc mismatch: '' err []
      else if errors_Is err ErrAdapterReset then Wrap ''bus send adapter reset: '' err []
      else if errors_Is err ErrTransportClosed then Wrap ''bus transport closed: '' err []
      else Wrap ''bus send failed: '' err [])"

definition retryPolicy :: "bus_config \<Rightarrow> frame_type \<Rightarrow> retry_policy" where
  "retryPolicy cfg frameType =
     (if frameType = FrameTypeInitiatorInitiator then cfg_InitiatorInitiator cfg
      else if frameType = FrameTypeInitiatorTarget then cfg_InitiatorTarget cfg
      else \<lparr>TimeoutRetries = 0, NACKRetries = 0\<rparr>)"

definition adapterResetRetryDelay :: int where "adapterResetRetryDelay = 200 * 1000000"
definition collisionBackoffFloor :: int where "collisionBackoffFloor = 50 * 1000000"

section \<open>Arbitration and resynchronisation\<close>

definition startArbitration :: "'t bus_static \<Rightarrow> 't bus \<Rightarrow> byte \<Rightarrow> frame_type \<Rightarrow> 16 word \<Rightarrow> 't bus \<times> go_error option" where
  "startArbitration st b initiator frameType attempt =
     (let ev = (\<lambda>outcome. (event BusEventArbitration outcome)
            \<lparr>ev_FrameType := frameType, ev_Initiator := initiator, ev_Attempt := attempt\<rparr>) in
      case op_StartArbitration (bs_ops st) of
        None \<Rightarrow> (b, None)
      | Some start \<Rightarrow>
          (case start (b_world b) initiator of
             (w, Some err) \<Rightarrow> (emitObserverEvent st (b\<lparr>b_world := w\<rparr>) (ev (busOutcomeFromError (Some err))),
                               Some (Wrap ''bus arbitration failed: '' err []))
           | (w, None) \<Rightarrow> (emitObserverEvent st (b\<lparr>b_world := w\<rparr>) (ev BusOutcomeSuccess), None)))"

text \<open>Without the interface the lifecycle is nil and the token 0.\<close>

definition collisionRecoveryLifecycle :: "'t bus_static \<Rightarrow> 't bus \<Rightarrow> 't bus \<times> 64 word" where
  "collisionRecoveryLifecycle st b =
     (case op_CollisionRecovery (bs_ops st) of
        None \<Rightarrow> (b, 0)
      | Some (token, _) \<Rightarrow> (case token (b_world b) of (w, t) \<Rightarrow> (b\<lparr>b_world := w\<rparr>, t)))"

definition completeCollisionRecovery ::
  "'t bus_static \<Rightarrow> 't bus \<Rightarrow> 64 word \<Rightarrow> collision_recovery_decision \<Rightarrow> 't bus" where
  "completeCollisionRecovery st b token decision =
     (case op_CollisionRecovery (bs_ops st) of
        None \<Rightarrow> b
      | Some (_, finish) \<Rightarrow>
          if token \<noteq> 0 then b\<lparr>b_world := finish (b_world b) token decision\<rparr> else b)"

definition wait_skips :: "go_error \<Rightarrow> bool" where
  "wait_skips err \<longleftrightarrow> errors_Is err ErrTimeout \<or> errors_Is err ErrAdapterReset \<or> errors_Is err ErrInvalidPayload"

text \<open>
  The two loops of \<open>waitForSyn\<close>; \<open>left\<close> is how many SYN are still to be seen.  They read until
  then, so they return only if the transport delivers SYN, fails for good or a context ends.
\<close>

partial_function (option) wait_unescaped ::
  "'t bus_static \<Rightarrow> ('t bus \<Rightarrow> 't bus \<times> (byte \<times> bool) result) \<Rightarrow> nat \<Rightarrow> 't bus \<Rightarrow> ('t bus \<times> go_error option) option" where
  "wait_unescaped st rd left b =
     (if left = 0 then Some (b, None)
      else case contextError st b of
        (b1, Some e) \<Rightarrow> Some (b1, Some e)
      | (b1, None) \<Rightarrow>
          (case rd b1 of
             (b2, Inl e) \<Rightarrow> if wait_skips e then wait_unescaped st rd left b2 else Some (b2, Some e)
           | (b2, Inr (raw, wasEscaped)) \<Rightarrow>
               wait_unescaped st rd (if raw = SymbolSyn \<and> \<not> wasEscaped then left - 1 else left) b2))"

partial_function (option) wait_plain :: "'t bus_static \<Rightarrow> bool \<Rightarrow> nat \<Rightarrow> 't bus \<Rightarrow> ('t bus \<times> go_error option) option" where
  "wait_plain st prevWasEscape left b =
     (if left = 0 then Some (b, None)
      else case contextError st b of
        (b1, Some e) \<Rightarrow> Some (b1, Some e)
      | (b1, None) \<Rightarrow>
          (case readByte st b1 of
             (b2, Inl e) \<Rightarrow> if wait_skips e then wait_plain st False left b2 else Some (b2, Some e)
           | (b2, Inr raw) \<Rightarrow>
               if prevWasEscape then wait_plain st False left b2
               else if raw = SymbolEscape then wait_plain st True left b2
               else wait_plain st False (if raw = SymbolSyn then left - 1 else left) b2))"

definition unflagged :: "'t bus \<times> byte result \<Rightarrow> 't bus \<times> (byte \<times> bool) result" where
  "unflagged r = (case r of (b, Inl e) \<Rightarrow> (b, Inl e) | (b, Inr v) \<Rightarrow> (b, Inr (v, False)))"

definition waitForSyn :: "'t bus_static \<Rightarrow> 't bus \<Rightarrow> int \<Rightarrow> ('t bus \<times> go_error option) option" where
  "waitForSyn st b count =
     (if count \<le> 0 then Some (b, None)
      else if bs_unescaped st then
        (case op_ReadByteWithEscape (bs_ops st) of
           Some flagged \<Rightarrow> wait_unescaped st (readByteWithEscape st flagged) (nat count) b
         | None \<Rightarrow> wait_unescaped st (\<lambda>b. unflagged (readByte st b)) (nat count) b)
      else wait_plain st False (nat count) b)"

section \<open>The retry loop\<close>

text \<open>The local variables of \<open>sendWithRetries\<close>.\<close>

record retry_state =
  timeoutAttempts :: int
  nackAttempts :: int
  reconnectAttempts :: int
  attemptCount :: "16 word"

text \<open>What one iteration does: \<open>continue\<close> or \<open>return\<close>.\<close>

datatype loop_step = Continue | Return "frame option result"

definition request_complete ::
  "'t bus_static \<Rightarrow> 't bus \<Rightarrow> frame \<Rightarrow> frame option \<Rightarrow> 16 word \<Rightarrow> retry_state \<Rightarrow> go_error option \<Rightarrow> 't bus" where
  "request_complete st b frame response count rs err =
     emitRequestComplete st b frame response (Frame_Type frame) count
       (word_of_int (timeoutAttempts rs)) (word_of_int (nackAttempts rs)) err"

definition retry_event :: "'t bus_static \<Rightarrow> 't bus \<Rightarrow> frame \<Rightarrow> retry_state \<Rightarrow> go_error \<Rightarrow> 't bus" where
  "retry_event st b frame rs err =
     emitRetryEvent st b frame (Frame_Type frame) (attemptCount rs)
       (word_of_int (timeoutAttempts rs)) (word_of_int (nackAttempts rs)) err"

text \<open>The last lines of every failure: tell the observer, wrap, return.\<close>

definition give_up ::
  "'t bus_static \<Rightarrow> 't bus \<Rightarrow> frame \<Rightarrow> retry_state \<Rightarrow> go_error \<Rightarrow> 't bus \<times> loop_step" where
  "give_up st b frame rs err =
     (request_complete st b frame None (attemptCount rs) rs (Some err), Return (Inl (wrapRetryError err)))"

definition tryTransportReconnect :: "'t bus_static \<Rightarrow> 't bus \<Rightarrow> go_error \<Rightarrow> retry_state \<Rightarrow> 't bus \<times> retry_state \<times> bool" where
  "tryTransportReconnect st b err rs =
     (let cfg = bs_config st in
      if cfg_ReconnectRetries cfg \<le> 0 then (b, rs, False)
      else if \<not> errors_Is err ErrTimeout \<and> \<not> errors_Is err ErrAdapterReset \<and> \<not> errors_Is err ErrCRCMismatch
      then (b, rs, False)
      else case op_Reconnect (bs_ops st) of
        None \<Rightarrow> (b, rs, False)
      | Some reconnect \<Rightarrow>
          if reconnectAttempts rs \<ge> cfg_ReconnectRetries cfg then (b, rs, False)
          else
            let rs1 = rs\<lparr>reconnectAttempts := reconnectAttempts rs + 1\<rparr> in
            (case env_sleep (bs_ops st) (b_world b) (cfg_ReconnectDelay cfg) of
               (w, Slept) \<Rightarrow>
                 (case reconnect w of
                    (w1, Some _) \<Rightarrow> (b\<lparr>b_world := w1\<rparr>, rs1, True)
                  | (w1, None) \<Rightarrow> (b\<lparr>b_world := w1\<rparr>, rs1\<lparr>timeoutAttempts := 0, nackAttempts := 0\<rparr>, True))
             | (w, _) \<Rightarrow> (b\<lparr>b_world := w\<rparr>, rs1, False)))"

text \<open>A wait that the two contexts may cut short; \<open>None\<close> when it went through.\<close>

definition pause :: "'t bus_static \<Rightarrow> 't bus \<Rightarrow> int \<Rightarrow> 't bus \<times> go_error option" where
  "pause st b delay =
     (case env_sleep (bs_ops st) (b_world b) delay of
        (w, Slept) \<Rightarrow> (b\<lparr>b_world := w\<rparr>, None)
      | (w, SleepRunDone e) \<Rightarrow> (b\<lparr>b_world := w\<rparr>, Some e)
      | (w, SleepRequestDone e) \<Rightarrow> (b\<lparr>b_world := w\<rparr>, Some e))"

text \<open>
  After a collision that is retried: back off, wait for two SYN, and report the decision to the
  transport that owns the recovery.
\<close>

definition collision_backoff ::
  "'t bus_static \<Rightarrow> 't bus \<Rightarrow> frame \<Rightarrow> retry_state \<Rightarrow> 64 word \<Rightarrow> ('t bus \<times> loop_step) option" where
  "collision_backoff st b frame rs token =
     (case pause st b collisionBackoffFloor of
        (b1, Some e) \<Rightarrow> Some (completeCollisionRecovery st b1 token CollisionRecoveryAbandon, Return (Inl (wrapRetryError e)))
      | (b1, None) \<Rightarrow>
          (case waitForSyn st b1 2 of
             None \<Rightarrow> None
           | Some (b2, Some waitErr) \<Rightarrow>
               Some (give_up st (completeCollisionRecovery st b2 token CollisionRecoveryAbandon) frame rs waitErr)
           | Some (b2, None) \<Rightarrow>
               Some (completeCollisionRecovery st b2 token CollisionRecoveryRetry, Continue)))"

definition reset_backoff :: "'t bus_static \<Rightarrow> 't bus \<Rightarrow> go_error \<Rightarrow> 't bus \<times> loop_step" where
  "reset_backoff st b err =
     (if errors_Is err ErrAdapterReset then
        (case pause st b adapterResetRetryDelay of
           (b1, Some e) \<Rightarrow> (b1, Return (Inl (wrapRetryError e)))
         | (b1, None) \<Rightarrow> (b1, Continue))
      else (b, Continue))"

text \<open>The retry budget is used up: reconnect or give up.\<close>

definition reconnect_or_give_up ::
  "'t bus_static \<Rightarrow> 't bus \<Rightarrow> frame \<Rightarrow> retry_state \<Rightarrow> go_error \<Rightarrow> 't bus \<times> retry_state \<times> loop_step" where
  "reconnect_or_give_up st b frame rs err =
     (case tryTransportReconnect st b err rs of
        (b1, rs1, True) \<Rightarrow> (b1, rs1, Continue)
      | (b1, rs1, False) \<Rightarrow> (case give_up st b1 frame rs1 err of (b2, s) \<Rightarrow> (b2, rs1, s)))"

definition arbitration_failed ::
  "'t bus_static \<Rightarrow> 't bus \<Rightarrow> frame \<Rightarrow> retry_policy \<Rightarrow> bool \<Rightarrow> retry_state \<Rightarrow> go_error \<Rightarrow>
   ('t bus \<times> retry_state \<times> loop_step) option" where
  "arbitration_failed st b frame policy deadline rs err =
     (let (retry, t2, n2) = shouldRetry err policy (timeoutAttempts rs) (nackAttempts rs) deadline;
          rs2 = rs\<lparr>timeoutAttempts := t2, nackAttempts := n2\<rparr> in
      if errors_Is err ErrBusCollision then
        (case collisionRecoveryLifecycle st b of (b1, token) \<Rightarrow>
           if retry then
             map_option (\<lambda>(b2, s). (b2, rs2, s)) (collision_backoff st (retry_event st b1 frame rs2 err) frame rs2 token)
           else
             (case give_up st (completeCollisionRecovery st b1 token CollisionRecoveryAbandon) frame rs err of
                (b2, s) \<Rightarrow> Some (b2, rs, s)))
      else if retry then
        (case reset_backoff st (retry_event st b frame rs2 err) err of (b1, s) \<Rightarrow> Some (b1, rs2, s))
      else Some (reconnect_or_give_up st b frame rs err))"

definition transaction_failed ::
  "'t bus_static \<Rightarrow> 't bus \<Rightarrow> frame \<Rightarrow> retry_policy \<Rightarrow> bool \<Rightarrow> retry_state \<Rightarrow> go_error \<Rightarrow>
   ('t bus \<times> retry_state \<times> loop_step) option" where
  "transaction_failed st b frame policy deadline rs err =
     (let (retry, t2, n2) = shouldRetry err policy (timeoutAttempts rs) (nackAttempts rs) deadline;
          rs2 = rs\<lparr>timeoutAttempts := t2, nackAttempts := n2\<rparr> in
      if retry then
        let b1 = retry_event st b frame rs2 err in
        if errors_Is err ErrBusCollision then
          (case collisionRecoveryLifecycle st b1 of (b2, token) \<Rightarrow>
             (case collision_backoff st b2 frame rs2 token of
                None \<Rightarrow> None
              | Some (b3, Return r) \<Rightarrow> Some (b3, rs2, Return r)
              | Some (b3, Continue) \<Rightarrow> (case reset_backoff st b3 err of (b4, s) \<Rightarrow> Some (b4, rs2, s))))
        else (case reset_backoff st b1 err of (b2, s) \<Rightarrow> Some (b2, rs2, s))
      else
        let b1 = (if errors_Is err ErrBusCollision then
            (case collisionRecoveryLifecycle st b of (b1, token) \<Rightarrow>
               completeCollisionRecovery st b1 token CollisionRecoveryAbandon) else b) in
        Some (reconnect_or_give_up st b1 frame rs err))"

text \<open>One iteration.\<close>

definition retry_attempt ::
  "'t bus_static \<Rightarrow> 't bus \<Rightarrow> frame \<Rightarrow> bool \<Rightarrow> retry_state \<Rightarrow> ('t bus \<times> retry_state \<times> loop_step) option" where
  "retry_attempt st b frame deadline rs0 =
     (let frameType = Frame_Type frame; policy = retryPolicy (bs_config st) frameType;
          rs = rs0\<lparr>attemptCount := attemptCount rs0 + 1\<rparr> in
      case contextError st b of
        (b1, Some e) \<Rightarrow> Some (request_complete st b1 frame None (attemptCount rs - 1) rs (Some e), rs, Return (Inl e))
      | (b1, None) \<Rightarrow>
          (case startArbitration st b1 (Source frame) frameType (attemptCount rs) of
             (b2, Some err) \<Rightarrow> arbitration_failed st b2 frame policy deadline rs err
           | (b2, None) \<Rightarrow>
               (case sendTransaction st b2 frame (attemptCount rs) of
                  (b3, Inr response) \<Rightarrow>
                    Some (request_complete st b3 frame response (attemptCount rs) rs None, rs, Return (Inr response))
                | (b3, Inl err) \<Rightarrow> transaction_failed st b3 frame policy deadline rs err)))"

partial_function (option) retry_loop ::
  "'t bus_static \<Rightarrow> frame \<Rightarrow> bool \<Rightarrow> retry_state \<Rightarrow> 't bus \<Rightarrow> ('t bus \<times> retry_state \<times> frame option result) option" where
  "retry_loop st frame deadline rs b =
     Option.bind (retry_attempt st b frame deadline rs) (\<lambda>(b1, rs1, s).
       case s of Return r \<Rightarrow> Some (b1, rs1, r) | Continue \<Rightarrow> retry_loop st frame deadline rs1 b1)"

definition no_attempts :: retry_state where
  "no_attempts = \<lparr>timeoutAttempts = 0, nackAttempts = 0, reconnectAttempts = 0, attemptCount = 0\<rparr>"

definition sendWithRetries ::
  "'t bus_static \<Rightarrow> 't bus \<Rightarrow> frame \<Rightarrow> go_time option option \<Rightarrow> ('t bus \<times> frame option result) option" where
  "sendWithRetries st b frame ctx =
     map_option (\<lambda>(b1, rs, r). (b1, r)) (retry_loop st frame (isBoundedContext ctx) no_attempts b)"

definition handleRequest ::
  "'t bus_static \<Rightarrow> 't bus \<Rightarrow> frame \<Rightarrow> go_time option option \<Rightarrow> ('t bus \<times> frame option result) option" where
  "handleRequest st b frame ctx =
     (case contextError st b of
        (b1, Some e) \<Rightarrow> Some (b1, Inl e)
      | (b1, None) \<Rightarrow> sendWithRetries st b1 frame ctx)"

section \<open>Every iteration uses up budget\<close>

text \<open>What \<open>continue\<close> means for the counters: a retry inside the budget, or a reconnection.\<close>

definition retry_progress :: "bus_config \<Rightarrow> retry_policy \<Rightarrow> retry_state \<Rightarrow> retry_state \<Rightarrow> bool" where
  "retry_progress cfg policy rs rs' \<longleftrightarrow>
     attemptCount rs' = attemptCount rs + 1 \<and>
     (reconnectAttempts rs' = reconnectAttempts rs \<and>
       (timeoutAttempts rs < TimeoutRetries policy \<and> timeoutAttempts rs' = timeoutAttempts rs + 1 \<and>
          nackAttempts rs' = nackAttempts rs \<or>
        nackAttempts rs < NACKRetries policy \<and> nackAttempts rs' = nackAttempts rs + 1 \<and>
          timeoutAttempts rs' = timeoutAttempts rs) \<or>
      reconnectAttempts rs < cfg_ReconnectRetries cfg \<and> reconnectAttempts rs' = reconnectAttempts rs + 1 \<and>
       (timeoutAttempts rs' = timeoutAttempts rs \<and> nackAttempts rs' = nackAttempts rs \<or>
        timeoutAttempts rs' = 0 \<and> nackAttempts rs' = 0))"

lemma shouldRetry_within:
  "shouldRetry err policy t n False = (True, t2, n2) \<Longrightarrow>
   t < TimeoutRetries policy \<and> t2 = t + 1 \<and> n2 = n \<or> n < NACKRetries policy \<and> n2 = n + 1 \<and> t2 = t"
  by (auto simp: shouldRetry_def split: if_splits)

lemma reconnect_within:
  assumes "tryTransportReconnect st b err rs = (b1, rs1, True)"
  shows "attemptCount rs1 = attemptCount rs \<and> reconnectAttempts rs < cfg_ReconnectRetries (bs_config st) \<and>
    reconnectAttempts rs1 = reconnectAttempts rs + 1 \<and>
    (timeoutAttempts rs1 = timeoutAttempts rs \<and> nackAttempts rs1 = nackAttempts rs \<or>
     timeoutAttempts rs1 = 0 \<and> nackAttempts rs1 = 0)"
  using assms
  by (auto simp: tryTransportReconnect_def Let_def split: if_splits option.splits prod.splits sleep_end.splits)

lemma reconnect_step:
  assumes "reconnect_or_give_up st b frame (rs\<lparr>attemptCount := attemptCount rs + 1\<rparr>) err = (b1, rs1, Continue)"
  shows "retry_progress (bs_config st) policy rs rs1"
  using assms reconnect_within [of st b err "rs\<lparr>attemptCount := attemptCount rs + 1\<rparr>"]
  by (auto simp: reconnect_or_give_up_def give_up_def retry_progress_def split: prod.splits bool.splits)

lemma arbitration_failed_step:
  assumes "arbitration_failed st b frame policy False (rs\<lparr>attemptCount := attemptCount rs + 1\<rparr>) err = Some (b1, rs1, Continue)"
  shows "retry_progress (bs_config st) policy rs rs1"
proof -
  let ?rs = "rs\<lparr>attemptCount := attemptCount rs + 1\<rparr>"
  obtain retry t2 n2 where sr: "shouldRetry err policy (timeoutAttempts rs) (nackAttempts rs) False = (retry, t2, n2)"
    using prod_cases3 by blast
  let ?rs2 = "?rs\<lparr>timeoutAttempts := t2, nackAttempts := n2\<rparr>"
  have "retry \<and> rs1 = ?rs2 \<or> reconnect_or_give_up st b frame ?rs err = (b1, rs1, Continue)"
    using assms sr by (auto simp: arbitration_failed_def give_up_def Let_def split: prod.splits if_splits)
  then show ?thesis
  proof
    assume *: "retry \<and> rs1 = ?rs2"
    then show ?thesis using shouldRetry_within sr by (fastforce simp: retry_progress_def)
  qed (rule reconnect_step)
qed

lemma transaction_failed_step:
  assumes "transaction_failed st b frame policy False (rs\<lparr>attemptCount := attemptCount rs + 1\<rparr>) err = Some (b1, rs1, Continue)"
  shows "retry_progress (bs_config st) policy rs rs1"
proof -
  let ?rs = "rs\<lparr>attemptCount := attemptCount rs + 1\<rparr>"
  obtain retry t2 n2 where sr: "shouldRetry err policy (timeoutAttempts rs) (nackAttempts rs) False = (retry, t2, n2)"
    using prod_cases3 by blast
  let ?rs2 = "?rs\<lparr>timeoutAttempts := t2, nackAttempts := n2\<rparr>"
  have "retry \<and> rs1 = ?rs2 \<or> (\<exists>b. reconnect_or_give_up st b frame ?rs err = (b1, rs1, Continue))"
    using assms sr by (cases retry) (auto simp: transaction_failed_def Let_def
        split: prod.splits if_splits option.splits loop_step.splits)
  then show ?thesis
  proof
    assume *: "retry \<and> rs1 = ?rs2"
    then show ?thesis using shouldRetry_within sr by (fastforce simp: retry_progress_def)
  qed (auto intro: reconnect_step)
qed

lemma retry_attempt_step:
  assumes "retry_attempt st b frame False rs = Some (b1, rs1, Continue)"
  shows "retry_progress (bs_config st) (retryPolicy (bs_config st) (Frame_Type frame)) rs rs1"
  using assms
  by (auto simp: retry_attempt_def Let_def split: prod.splits option.splits sum.splits
      intro: arbitration_failed_step transaction_failed_step)

text \<open>Every iteration counts as one attempt.\<close>

lemma reconnect_count:
  "tryTransportReconnect st b err rs = (b1, rs1, r) \<Longrightarrow> attemptCount rs1 = attemptCount rs"
  by (auto simp: tryTransportReconnect_def Let_def split: if_splits option.splits prod.splits sleep_end.splits)

lemma reconnect_or_give_up_count:
  "reconnect_or_give_up st b frame rs err = (b1, rs1, s) \<Longrightarrow> attemptCount rs1 = attemptCount rs"
  by (auto simp: reconnect_or_give_up_def split: prod.splits bool.splits dest: reconnect_count)

lemma arbitration_failed_count:
  "arbitration_failed st b frame policy deadline rs err = Some (b1, rs1, s) \<Longrightarrow> attemptCount rs1 = attemptCount rs"
  by (auto simp: arbitration_failed_def Let_def split: prod.splits if_splits dest: reconnect_or_give_up_count)

lemma transaction_failed_count:
  "transaction_failed st b frame policy deadline rs err = Some (b1, rs1, s) \<Longrightarrow> attemptCount rs1 = attemptCount rs"
  by (auto simp: transaction_failed_def Let_def split: prod.splits if_splits option.splits loop_step.splits
      dest: reconnect_or_give_up_count)

lemma retry_attempt_counts:
  assumes "retry_attempt st b frame deadline rs = Some (b1, rs1, s)"
  shows "attemptCount rs1 = attemptCount rs + 1"
  using assms
  by (auto simp: retry_attempt_def Let_def split: prod.splits option.splits sum.splits
      dest: arbitration_failed_count transaction_failed_count)

text \<open>An iteration returns whenever its wait for SYN does.\<close>

lemma collision_backoff_returns:
  "(\<And>b. waitForSyn st b 2 \<noteq> None) \<Longrightarrow> collision_backoff st b frame rs token \<noteq> None"
  by (auto simp: collision_backoff_def simp del: not_None_eq split: prod.split option.split)

lemma retry_attempt_returns:
  assumes "\<And>b. waitForSyn st b 2 \<noteq> None"
  shows "\<exists>b1 rs1 s. retry_attempt st b frame deadline rs = Some (b1, rs1, s)"
proof -
  note cb = collision_backoff_returns [OF assms]
  have "arbitration_failed st b frame policy deadline rs err \<noteq> None" for b rs policy err
    using cb by (auto simp: arbitration_failed_def Let_def simp del: not_None_eq split: prod.split)
  moreover have "transaction_failed st b frame policy deadline rs err \<noteq> None" for b rs policy err
    using cb by (auto simp: transaction_failed_def Let_def simp del: not_None_eq split: prod.split option.split loop_step.split)
  ultimately have "retry_attempt st b frame deadline rs \<noteq> None"
    by (auto simp: retry_attempt_def Let_def simp del: not_None_eq split: prod.split option.split sum.split)
  then show ?thesis by (metis not_Some_eq prod_cases3)
qed

text \<open>The budget that is left; it starts at the retry bound less one.\<close>

definition budget_left :: "bus_config \<Rightarrow> retry_policy \<Rightarrow> retry_state \<Rightarrow> int" where
  "budget_left cfg policy rs =
     (let T = max 0 (TimeoutRetries policy); N = max 0 (NACKRetries policy); R = max 0 (cfg_ReconnectRetries cfg) in
      (R - reconnectAttempts rs) * (T + N + 1) + (T - timeoutAttempts rs) + (N - nackAttempts rs))"

definition budget_ok :: "bus_config \<Rightarrow> retry_policy \<Rightarrow> retry_state \<Rightarrow> bool" where
  "budget_ok cfg policy rs \<longleftrightarrow>
     0 \<le> timeoutAttempts rs \<and> timeoutAttempts rs \<le> max 0 (TimeoutRetries policy) \<and>
     0 \<le> nackAttempts rs \<and> nackAttempts rs \<le> max 0 (NACKRetries policy) \<and>
     0 \<le> reconnectAttempts rs \<and> reconnectAttempts rs \<le> max 0 (cfg_ReconnectRetries cfg)"

definition retry_bound :: "bus_config \<Rightarrow> retry_policy \<Rightarrow> int" where
  "retry_bound cfg policy =
     (max 0 (cfg_ReconnectRetries cfg) + 1) * (max 0 (TimeoutRetries policy) + max 0 (NACKRetries policy) + 1)"

lemma budget_nonneg: "budget_ok cfg policy rs \<Longrightarrow> 0 \<le> budget_left cfg policy rs"
  by (auto simp: budget_ok_def budget_left_def Let_def intro!: add_nonneg_nonneg mult_nonneg_nonneg)

lemma progress_budget:
  assumes "budget_ok cfg policy rs" and "retry_progress cfg policy rs rs'"
  shows "budget_ok cfg policy rs' \<and> budget_left cfg policy rs' < budget_left cfg policy rs"
proof -
  define S where "S = max 0 (TimeoutRetries policy) + max 0 (NACKRetries policy) + 1"
  have left: "budget_left cfg policy x = (max 0 (cfg_ReconnectRetries cfg) - reconnectAttempts x) * S +
      S - 1 - timeoutAttempts x - nackAttempts x" for x
    by (simp add: budget_left_def S_def Let_def)
  have "budget_ok cfg policy rs'" using assms by (auto simp: budget_ok_def retry_progress_def)
  moreover have "budget_left cfg policy rs' < budget_left cfg policy rs"
    using assms unfolding left budget_ok_def retry_progress_def S_def by (auto simp: algebra_simps)
  ultimately show ?thesis ..
qed

lemma retry_loop_returns:
  assumes "\<And>b. waitForSyn st b 2 \<noteq> None"
    and "budget_ok (bs_config st) (retryPolicy (bs_config st) (Frame_Type frame)) rs"
  shows "\<exists>b1 rs1 r k. retry_loop st frame False rs b = Some (b1, rs1, r) \<and>
    attemptCount rs1 = attemptCount rs + of_nat k \<and> 1 \<le> k \<and>
    int k \<le> budget_left (bs_config st) (retryPolicy (bs_config st) (Frame_Type frame)) rs + 1"
  using assms(2)
proof (induction "nat (budget_left (bs_config st) (retryPolicy (bs_config st) (Frame_Type frame)) rs)"
    arbitrary: rs b rule: less_induct)
  case less
  let ?left = "budget_left (bs_config st) (retryPolicy (bs_config st) (Frame_Type frame))"
  obtain b1 rs1 s where at: "retry_attempt st b frame False rs = Some (b1, rs1, s)"
    using retry_attempt_returns [OF assms(1)] by blast
  show ?case
  proof (cases s)
    case (Return r)
    have "attemptCount rs1 = attemptCount rs + 1" by (rule retry_attempt_counts [OF at])
    then show ?thesis using at Return budget_nonneg [OF less.prems]
      by (intro exI [of _ b1] exI [of _ rs1] exI [of _ r] exI [of _ 1]) (subst retry_loop.simps, simp)
  next
    case Continue
    have step: "retry_progress (bs_config st) (retryPolicy (bs_config st) (Frame_Type frame)) rs rs1"
      using retry_attempt_step at Continue by blast
    note ok = progress_budget [OF less.prems step]
    then have "nat (?left rs1) < nat (?left rs)" using budget_nonneg by fastforce
    from less.hyps [OF this, of b1] ok obtain b2 rs2 r k where
      "retry_loop st frame False rs1 b1 = Some (b2, rs2, r)" "attemptCount rs2 = attemptCount rs1 + of_nat k"
      "1 \<le> k" "int k \<le> ?left rs1 + 1" by blast
    moreover have "attemptCount rs1 = attemptCount rs + 1" using step by (simp add: retry_progress_def)
    ultimately show ?thesis using at Continue ok
      by (intro exI [of _ b2] exI [of _ rs2] exI [of _ r] exI [of _ "Suc k"]) (subst retry_loop.simps, simp)
  qed
qed

section \<open>The wire history only grows\<close>

definition grows :: "'t bus \<Rightarrow> 't bus \<Rightarrow> bool" where
  "grows b b' \<longleftrightarrow> (\<exists>tr. b_wire b' = b_wire b @ tr)"

named_theorems growth \<open>operations that only append to the wire history\<close>

lemma grows_same: "b_wire b' = b_wire b \<Longrightarrow> grows b b'"
  by (simp add: grows_def)

lemma grows_trans: "grows b b1 \<Longrightarrow> grows b1 b2 \<Longrightarrow> grows b b2"
  by (auto simp: grows_def)

lemma grows_refl [simp]: "grows b b"
  by (simp add: grows_def)

text \<open>Only the wire history counts, and emissions do not touch it.\<close>

lemma grows_cong: "b_wire b = b_wire c \<Longrightarrow> b_wire b' = b_wire c' \<Longrightarrow> grows b b' = grows c c'"
  by (simp add: grows_def)

lemma emit_complete_wire [simp]:
  "b_wire (emitRequestComplete st b rq rs ft a tr nr e) = b_wire b"
  "b_wire (emitRetryEvent st b rq ft a tr nr err) = b_wire b"
  by (intro quiet_bus_eqD quiet_emits)+

lemma grows_right [simp]:
  "grows b (emitObserverEvent st b' ev) = grows b b'"
  "grows b (emitOutcomeEvent st b' rq ft a err) = grows b b'"
  "grows b (emitAttemptComplete st b' rq rsp ft a) = grows b b'"
  "grows b (emitRequestComplete st b' rq rsp ft a tr nr e) = grows b b'"
  "grows b (emitRetryEvent st b' rq ft a tr nr err) = grows b b'"
  "grows b (emit_echo_mismatch st b' v f) = grows b b'"
  "grows b (b'\<lparr>b_world := w\<rparr>) = grows b b'"
  "grows b (b'\<lparr>activeEchoWaits := n\<rparr>) = grows b b'"
  "grows b (b'\<lparr>payloadAaAutoSynDrainExhausted := k\<rparr>) = grows b b'"
  by (simp_all add: grows_def)

lemma grows_left [simp]:
  "grows (emitObserverEvent st b ev) b' = grows b b'"
  "grows (emitRetryEvent st b rq ft a tr nr err) b' = grows b b'"
  "grows (emit_echo_mismatch st b v f) b' = grows b b'"
  "grows (b\<lparr>b_world := w\<rparr>) b' = grows b b'"
  "grows (b\<lparr>activeEchoWaits := n\<rparr>) b' = grows b b'"
  by (simp_all add: grows_def)

lemma contextError_grows [growth]: "contextError st b = (b1, e) \<Longrightarrow> grows b b1"
  by (simp add: grows_same contextError_wireD)

lemma contextError_fst_grows [simp]: "grows b (fst (contextError st b))"
  by (simp add: grows_def)

lemma readByte_grows [growth]:
  "readByte st b = (b1, r) \<Longrightarrow> grows b b1"
  "readByteWithEscape st rd b = (b1, r') \<Longrightarrow> grows b b1"
  by (auto simp: grows_def dest!: readByte_wire readByteWithEscape_wire)

lemma read_symbol_loop_grows: "read_symbol_loop st esc b = (b1, esc1, r) \<Longrightarrow> grows b b1"
proof (induction st esc b rule: read_symbol_loop.induct)
  case (1 st esc b)
  obtain b2 r' where rd: "readByte st b = (b2, r')" by fastforce
  have "grows b b2" using readByte_grows(1) [OF rd] .
  then show ?case using 1 rd
    by (subst (asm) (2) read_symbol_loop.simps) (auto split: sum.splits if_splits intro: grows_trans)
qed

lemma readSymbol_grows [growth]: "readSymbol st esc b = (b1, esc1, r) \<Longrightarrow> grows b b1"
  using read_symbol_loop_grows [of st esc b] readByte_grows(1) [of st b]
  by (auto simp: readSymbol_def split: if_splits prod.splits)

lemma drain_grows [growth]: "drain_loop n st rd b = (b1, d) \<Longrightarrow> grows b b1"
  using drain_loop_wire by (fastforce simp: grows_def)

lemma read_echo_grows [growth]: "read_echo st b = (b1, r) \<Longrightarrow> grows b b1"
  using read_echo_wire(1) by (fastforce simp: grows_def)

lemma echo_fail_grows [growth]: "echo_fail st b e = (b1, r) \<Longrightarrow> grows b b1"
  by (auto simp: echo_fail_def)

lemma check_echo_value_grows [growth]: "check_echo_value st b raw f v e = (b1, r) \<Longrightarrow> grows b b1"
  by (auto simp: check_echo_value_def echo_fail_def split: if_splits)

lemma check_echo_grows [growth]: "check_echo st b raw s f v e = (b1, r) \<Longrightarrow> grows b b1"
proof (cases "op_ReadByteWithEscape (bs_ops st)")
  case (Some rd)
  let ?b = "if inSendRawWithEchoActiveEchoWait b then b\<lparr>round9AbsorbEntered := round9AbsorbEntered b + 1\<rparr> else b"
  obtain b2 d where d: "drain_loop maxPayloadAaAutoSynDrains st rd ?b = (b2, d)" by fastforce
  then have "grows b b2" using drain_grows [OF d] by (auto simp: grows_def split: if_splits)
  moreover assume "check_echo st b raw s f v e = (b1, r)"
  ultimately show ?thesis using Some d
    by (auto simp: check_echo_def Let_def echo_fail_def split: if_splits drain_end.splits
        dest!: check_echo_value_grows intro: grows_trans)
qed (auto simp: check_echo_def Let_def echo_fail_def check_echo_value_def split: if_splits)

lemma sendRawWithEcho_grows [growth]:
  assumes "sendRawWithEcho st b raw s f = (b1, r)"
  shows "grows b b1"
proof -
  let ?b = "signal_structural st s b"
  obtain w wr where w: "op_Write (bs_ops st) (b_world ?b) [raw] = (w, wr)" by fastforce
  show ?thesis
  proof (cases "wr = Inr 1")
    case False
    then show ?thesis using assms w
      by (auto simp: sendRawWithEcho_def Let_def echo_fail_def grows_def split: sum.splits if_splits)
  next
    case True
    let ?b2 = "emitObserverEvent st (?b\<lparr>b_world := w, b_wire := b_wire ?b @ [Wrote raw]\<rparr>)
      ((event BusEventTX BusOutcomeSuccess)\<lparr>ev_Byte := raw\<rparr>)"
    let ?b3 = "?b2\<lparr>activeEchoWaits := activeEchoWaits ?b2 + 1\<rparr>"
    obtain b4 er where er: "read_echo st ?b3 = (b4, er)" by fastforce
    obtain b5 where b5: "tryR (b4, er) (echo_fail st)
        (\<lambda>b (echo, e). check_echo st b raw s f echo e) = (b5, r)" "b_wire b1 = b_wire b5"
      using assms w True er by (auto simp: sendRawWithEcho_def Let_def split: prod.splits)
    have "grows b4 b5" using b5(1) by (cases er) (auto dest: echo_fail_grows check_echo_grows split: prod.splits)
    moreover have "grows b ?b3" by (simp add: grows_def)
    ultimately have "grows b b5" using read_echo_grows [OF er] grows_trans by blast
    then show ?thesis using b5(2) by (simp add: grows_def)
  qed
qed

lemma sendSymbolWithEcho_grows [growth]: "sendSymbolWithEcho st b s esc f = (b1, r) \<Longrightarrow> grows b b1"
  by (auto simp: sendSymbolWithEcho_def tryR_def split: if_splits prod.splits sum.splits
      intro: grows_trans dest: sendRawWithEcho_grows)

lemma sendEndOfMessage_grows [growth]: "sendEndOfMessage st b = (b1, r) \<Longrightarrow> grows b b1"
  by (simp add: sendEndOfMessage_def sendSymbolWithEcho_grows)

lemma send_symbols_grows [growth]: "send_symbols st b ss f = (b1, r) \<Longrightarrow> grows b b1"
proof (induction ss arbitrary: b f)
  case (Cons s ss)
  obtain b2 r2 where s: "sendSymbolWithEcho st b s True f = (b2, r2)" by fastforce
  then show ?case using Cons sendSymbolWithEcho_grows [OF s] by (cases r2) (auto intro: grows_trans)
qed simp

lemma sendInitiatorTelegram_grows [growth]: "sendInitiatorTelegram st b t inc = (b1, r) \<Longrightarrow> grows b b1"
  by (auto simp: sendInitiatorTelegram_def intro: send_symbols_grows)

lemma command_loop_grows [growth]: "command_loop n st b esc frame ft a inc = (b1, esc1, c) \<Longrightarrow> grows b b1"
proof (induction n arbitrary: b esc inc)
  case (Suc n)
  obtain b2 r where s: "sendInitiatorTelegram st b (initiator_telegram frame) inc = (b2, r)" by fastforce
  obtain b3 esc3 r' where rd: "readSymbol st esc b2 = (b3, esc3, r')" using prod_cases3 by blast
  obtain b4 r4 where eom: "sendEndOfMessage st b2 = (b4, r4)" by fastforce
  let ?b = "emitObserverEvent st b3 (request_event BusEventNACK BusOutcomeNACK ft SymbolNack a frame)"
  obtain b5 r5 where eom2: "sendEndOfMessage st ?b = (b5, r5)" by fastforce
  have g: "grows b b2" "grows b b3" "grows b b4" "grows b b5"
    using sendInitiatorTelegram_grows [OF s] readSymbol_grows [OF rd] sendEndOfMessage_grows [OF eom]
      sendEndOfMessage_grows [OF eom2] by (auto intro: grows_trans)
  have "grows b b1" if "command_loop n st ?b esc3 frame ft a True = (b1, esc1, c)"
    using Suc.IH [OF that] g by (auto intro: grows_trans)
  then show ?case
    using Suc.prems s rd eom eom2 g
    by (subst (asm) command_loop.simps(2))
      (auto simp: Let_def simp del: command_loop.simps split: sum.splits if_splits)
qed simp

lemma response_symbol_grows [growth]: "response_symbol st b esc frame ft a what = (b1, esc1, r) \<Longrightarrow> grows b b1"
  by (auto simp: response_symbol_def split: prod.splits sum.splits if_splits dest: readSymbol_grows)

lemma response_data_grows [growth]: "response_data n st b esc frame ft a = (b1, esc1, r) \<Longrightarrow> grows b b1"
proof (induction n arbitrary: b esc b1 esc1 r)
  case (Suc n)
  obtain b2 esc2 r2 where s: "response_symbol st b esc frame ft a ''reading response data'' = (b2, esc2, r2)"
    using prod_cases3 by blast
  obtain b3 esc3 r3 where d: "response_data n st b2 esc2 frame ft a = (b3, esc3, r3)" using prod_cases3 by blast
  then show ?case using Suc.prems Suc.IH [OF d] s response_symbol_grows [OF s]
    by (auto split: sum.splits intro: grows_trans)
qed simp

lemma read_response_grows [growth]: "read_response st b esc frame ft a = (b1, esc1, r) \<Longrightarrow> grows b b1"
  by (auto simp: read_response_def split: prod.splits sum.splits
      dest!: response_symbol_grows response_data_grows intro: grows_trans)

lemma response_loop_grows [growth]: "response_loop n st b esc frame ft a = (b1, r) \<Longrightarrow> grows b b1"
proof (induction n arbitrary: b esc)
  case (Suc n)
  obtain b2 esc2 r2 where s: "read_response st b esc frame ft a = (b2, esc2, r2)" using prod_cases3 by blast
  have g: "grows b b2" using read_response_grows [OF s] .
  show ?case
  proof (cases r2)
    case (Inl e)
    then show ?thesis using Suc.prems s g by simp
  next
    case (Inr ldc)
    obtain l d c where ldc: "ldc = (l, d, c)" using prod_cases3 by blast
    show ?thesis
    proof (cases "CRC (l # d) = c")
      case True
      let ?e = "response_event BusEventACK BusOutcomeSuccess ft SymbolAck a frame (response_frame frame d)"
      obtain b3 r3 where k: "sendSymbolWithEcho st b2 SymbolAck True False = (b3, r3)" by fastforce
      obtain b4 r4 where eom: "sendEndOfMessage st (emitObserverEvent st b3 ?e) = (b4, r4)" by fastforce
      have "grows b b3" "grows b b4"
        using g sendSymbolWithEcho_grows [OF k] sendEndOfMessage_grows [OF eom] by (auto intro: grows_trans)
      then show ?thesis using Suc.prems s Inr ldc True k eom by (cases r3; cases r4) (auto simp: Let_def)
    next
      case False
      let ?e = "\<lambda>k v. response_event k BusOutcomeCRCMismatch ft v a frame (response_frame frame d)"
      obtain b3 r3 where k: "sendSymbolWithEcho st b2 SymbolNack True False = (b3, r3)" by fastforce
      let ?b = "emitObserverEvent st b3 (?e BusEventNACK SymbolNack)"
      obtain b4 r4 where eom: "sendEndOfMessage st ?b = (b4, r4)" by fastforce
      have g34: "grows b b3" "grows b b4"
        using g sendSymbolWithEcho_grows [OF k] sendEndOfMessage_grows [OF eom] by (auto intro: grows_trans)
      have "grows b b1" if "response_loop n st (emitObserverEvent st ?b (?e BusEventCRCMismatch 0)) esc2 frame ft a = (b1, r)"
        using Suc.IH [OF that] g34(1) by (auto intro: grows_trans)
      then show ?thesis
        using Suc.prems s Inr ldc False k eom g34 by (subst (asm) response_loop.simps(2), cases r3)
          (auto simp: Let_def simp del: response_loop.simps split: if_splits)
    qed
  qed
qed auto

lemma sendTransaction_grows [growth]: "sendTransaction st b frame a = (b1, r) \<Longrightarrow> grows b b1"
  by (auto simp: sendTransaction_def Let_def tryR_def simp del: command_loop.simps response_loop.simps
      split: if_splits prod.splits command_end.splits sum.splits
      dest!: command_loop_grows response_loop_grows sendEndOfMessage_grows intro: grows_trans)

lemma wait_plain_grows:
  assumes "wait_plain st p left b = Some y"
  shows "grows b (fst y)"
proof (rule wait_plain.raw_induct [where P = "\<lambda>st p left b y. grows b (fst y)", OF _ assms])
  fix w st p left b y
  assume ih: "\<And>st p left b y. w st p left b = Some y \<Longrightarrow> grows b (fst y)"
    and run: "(if left = 0 then Some (b, None)
      else case contextError st b of
        (b1, Some e) \<Rightarrow> Some (b1, Some e)
      | (b1, None) \<Rightarrow>
          (case readByte st b1 of
             (b2, Inl e) \<Rightarrow> if wait_skips e then w st False left b2 else Some (b2, Some e)
           | (b2, Inr raw) \<Rightarrow>
               if p then w st False left b2
               else if raw = SymbolEscape then w st True left b2
               else w st False (if raw = SymbolSyn then left - 1 else left) b2)) = Some (y :: 'a bus \<times> go_error option)"
  obtain b2 ce where c: "contextError st b = (b2, ce)" by fastforce
  obtain b3 r where rd: "readByte st b2 = (b3, r)" by fastforce
  have g: "grows b b2" "grows b b3"
    using contextError_grows [OF c] readByte_grows(1) [OF rd] by (auto intro: grows_trans)
  show "grows b (fst y)" using run c rd g
    by (auto split: if_splits option.splits sum.splits dest!: ih intro: grows_trans)
qed

lemma wait_unescaped_grows:
  assumes "wait_unescaped st rd left b = Some y" and "\<And>b b1 r. rd b = (b1, r) \<Longrightarrow> grows b b1"
  shows "grows b (fst y)"
proof (rule wait_unescaped.raw_induct [where P = "\<lambda>st rd left b y. (\<forall>b b1 r. rd b = (b1, r) \<longrightarrow> grows b b1) \<longrightarrow> grows b (fst y)",
      OF _ assms(1), THEN mp])
  fix w st rd left b y
  assume ih: "\<And>st rd left b y. w st rd left b = Some y \<Longrightarrow> (\<forall>b b1 r. rd b = (b1, r) \<longrightarrow> grows b b1) \<longrightarrow> grows b (fst y)"
    and run: "(if left = 0 then Some (b, None)
      else case contextError st b of
        (b1, Some e) \<Rightarrow> Some (b1, Some e)
      | (b1, None) \<Rightarrow>
          (case rd b1 of
             (b2, Inl e) \<Rightarrow> if wait_skips e then w st rd left b2 else Some (b2, Some e)
           | (b2, Inr (raw, wasEscaped)) \<Rightarrow>
               w st rd (if raw = SymbolSyn \<and> \<not> wasEscaped then left - 1 else left) b2)) =
      Some (y :: 'a bus \<times> go_error option)"
  obtain b2 ce where c: "contextError st b = (b2, ce)" by fastforce
  obtain b3 r where r: "rd b2 = (b3, r)" by fastforce
  show "(\<forall>b b1 r. rd b = (b1, r) \<longrightarrow> grows b b1) \<longrightarrow> grows b (fst y)"
  proof
    assume rd: "\<forall>b b1 r. rd b = (b1, r) \<longrightarrow> grows b b1"
    have g: "grows b b2" "grows b b3"
      using contextError_grows [OF c] rd r by (auto intro: grows_trans)
    show "grows b (fst y)" using run c r g rd
      by (auto split: if_splits option.splits sum.splits prod.splits dest!: ih intro: grows_trans)
  qed
qed (use assms(2) in blast)

lemma waitForSyn_grows [growth]: "waitForSyn st b n = Some (b1, e) \<Longrightarrow> grows b b1"
proof -
  have "unflagged (readByte st c) = (c1, r) \<Longrightarrow> grows c c1" for c c1 r
    by (auto simp: unflagged_def split: prod.splits sum.splits intro: readByte_grows)
  moreover assume "waitForSyn st b n = Some (b1, e)"
  ultimately show ?thesis
    using wait_plain_grows [of st False "nat n" b "(b1, e)"]
      wait_unescaped_grows [of st _ "nat n" b "(b1, e)"] readByte_grows(2)
    by (fastforce simp: waitForSyn_def split: if_splits option.splits)
qed

lemma startArbitration_grows [growth]: "startArbitration st b i ft a = (b1, e) \<Longrightarrow> grows b b1"
  by (auto simp: startArbitration_def Let_def split: option.splits prod.splits)

lemma recovery_grows [simp]:
  "grows c (completeCollisionRecovery st b t d) = grows c b"
  "grows c (fst (collisionRecoveryLifecycle st b)) = grows c b"
  "grows (completeCollisionRecovery st b t d) c = grows b c"
  by (auto simp: completeCollisionRecovery_def collisionRecoveryLifecycle_def split: option.splits prod.splits)

lemma lifecycle_grows [growth]: "collisionRecoveryLifecycle st b = (b1, t) \<Longrightarrow> grows b b1"
  by (metis fst_conv grows_refl recovery_grows(2))

lemma events_grow [simp]:
  "grows c (request_complete st b frame response count rs err) = grows c b"
  "grows c (retry_event st b frame rs err') = grows c b"
  "grows (retry_event st b frame rs err') c = grows b c"
  by (simp_all add: request_complete_def retry_event_def)

lemma give_up_grows [growth]: "give_up st b frame rs err = (b1, s) \<Longrightarrow> grows b b1"
  by (auto simp: give_up_def)

lemma pause_grows [growth]: "pause st b d = (b1, e) \<Longrightarrow> grows b b1"
  by (auto simp: pause_def split: prod.splits sleep_end.splits)

lemma collision_backoff_grows [growth]: "collision_backoff st b frame rs token = Some (b1, s) \<Longrightarrow> grows b b1"
  by (auto simp: collision_backoff_def split: prod.splits option.splits
      dest!: pause_grows waitForSyn_grows give_up_grows intro: grows_trans)

lemma reset_backoff_grows [growth]: "reset_backoff st b err = (b1, s) \<Longrightarrow> grows b b1"
  by (auto simp: reset_backoff_def split: if_splits prod.splits option.splits dest: pause_grows)

lemma reconnect_grows [growth]: "tryTransportReconnect st b err rs = (b1, rs1, r) \<Longrightarrow> grows b b1"
  by (auto simp: tryTransportReconnect_def Let_def split: if_splits option.splits prod.splits sleep_end.splits)

lemma reconnect_or_give_up_grows [growth]: "reconnect_or_give_up st b frame rs err = (b1, rs1, s) \<Longrightarrow> grows b b1"
  by (auto simp: reconnect_or_give_up_def split: prod.splits bool.splits
      dest!: reconnect_grows give_up_grows intro: grows_trans)

lemma arbitration_failed_grows [growth]:
  "arbitration_failed st b frame policy dl rs err = Some (b1, rs1, s) \<Longrightarrow> grows b b1"
  by (auto simp: arbitration_failed_def Let_def split: prod.splits if_splits
      dest!: lifecycle_grows collision_backoff_grows give_up_grows reset_backoff_grows reconnect_or_give_up_grows
      intro: grows_trans)

lemma transaction_failed_grows [growth]:
  "transaction_failed st b frame policy dl rs err = Some (b1, rs1, s) \<Longrightarrow> grows b b1"
  by (auto simp: transaction_failed_def Let_def split: prod.splits if_splits option.splits loop_step.splits
      dest!: lifecycle_grows collision_backoff_grows reset_backoff_grows reconnect_or_give_up_grows
      intro: grows_trans)

text \<open>A failed iteration never reports a frame, so a result comes from a transaction.\<close>

lemma failure_results:
  "arbitration_failed st b frame policy dl rs err = Some (b1, rs1, Return r) \<Longrightarrow> \<exists>e. r = Inl e"
  "transaction_failed st b frame policy dl rs err = Some (b1, rs1, Return r) \<Longrightarrow> \<exists>e. r = Inl e"
  by (auto simp: arbitration_failed_def transaction_failed_def Let_def give_up_def reset_backoff_def
      collision_backoff_def reconnect_or_give_up_def split: prod.splits if_splits option.splits bool.splits)

lemma retry_attempt_grows:
  assumes "retry_attempt st b frame dl rs = Some (b1, rs1, s)"
  shows "grows b b1"
  using assms
  by (auto simp: retry_attempt_def Let_def split: prod.splits option.splits sum.splits
      dest!: contextError_grows startArbitration_grows sendTransaction_grows
        arbitration_failed_grows transaction_failed_grows intro: grows_trans)

lemma retry_attempt_result:
  assumes "retry_attempt st b frame dl rs = Some (b1, rs1, Return (Inr res))"
  shows "\<exists>b2 b3 a. grows b b2 \<and> sendTransaction st b2 frame a = (b3, Inr res) \<and> b_wire b1 = b_wire b3"
proof -
  obtain b2 b3 where "contextError st b = (b2, None)"
    "startArbitration st b2 (Source frame) (Frame_Type frame) (attemptCount rs + 1) = (b3, None)"
    "\<exists>b4. sendTransaction st b3 frame (attemptCount rs + 1) = (b4, Inr res) \<and> b_wire b1 = b_wire b4"
    using assms by (auto simp: retry_attempt_def Let_def request_complete_def
        split: prod.splits option.splits sum.splits dest!: failure_results)
  then show ?thesis by (meson contextError_grows startArbitration_grows grows_trans)
qed

definition completed :: "'t bus_static \<Rightarrow> frame \<Rightarrow> 't bus \<Rightarrow> 't bus \<Rightarrow> frame option \<Rightarrow> bool" where
  "completed st frame b b1 res \<longleftrightarrow>
     (\<exists>b2 b3 a. grows b b2 \<and> sendTransaction st b2 frame a = (b3, Inr res) \<and> b_wire b1 = b_wire b3)"

lemma completed_trans: "grows b b2 \<Longrightarrow> completed st frame b2 b1 res \<Longrightarrow> completed st frame b b1 res"
  unfolding completed_def by (meson grows_trans)

lemma retry_loop_result:
  assumes "retry_loop st frame dl rs b = Some y" and "snd (snd y) = Inr res"
  shows "completed st frame b (fst y) res"
proof (rule retry_loop.raw_induct [where P = "\<lambda>st frame dl rs b y. \<forall>res. snd (snd y) = Inr res \<longrightarrow> completed st frame b (fst y) res",
      OF _ assms(1), THEN spec, THEN mp])
  fix loop st frame dl rs b y
  assume ih: "\<And>st frame dl rs b y. loop st frame dl rs b = Some y \<Longrightarrow>
      \<forall>res. snd (snd y) = Inr res \<longrightarrow> completed st frame b (fst y) res"
    and run: "Option.bind (retry_attempt st b frame dl rs) (\<lambda>(b1, rs1, s).
       case s of Return r \<Rightarrow> Some (b1, rs1, r) | Continue \<Rightarrow> loop st frame dl rs1 b1) =
       Some (y :: 'a bus \<times> retry_state \<times> frame option result)"
  obtain b2 rs2 s where at: "retry_attempt st b frame dl rs = Some (b2, rs2, s)"
    using run by (cases "retry_attempt st b frame dl rs") auto
  show "\<forall>res. snd (snd y) = Inr res \<longrightarrow> completed st frame b (fst y) res"
  proof (cases s)
    case Continue
    then have "loop st frame dl rs2 b2 = Some y" using run at by simp
    then show ?thesis using ih retry_attempt_grows [OF at] completed_trans by blast
  next
    case (Return r)
    then show ?thesis using run at retry_attempt_result by (fastforce simp: completed_def)
  qed
qed (rule assms(2))

section \<open>Properties\<close>

text \<open>
  C20: the retry loop ends.  For a request without a deadline, on a transport where waiting for SYN
  always returns, \<open>sendWithRetries\<close> returns after at most (reconnects + 1) * (timeout retries +
  NACK retries + 1) attempts, whatever the transport answers: eight with the default
  configuration.
\<close>

theorem retries_terminate:
  assumes "\<And>b. waitForSyn st b 2 \<noteq> None" and "\<not> isBoundedContext ctx"
  shows "\<exists>b1 rs r k. retry_loop st frame (isBoundedContext ctx) no_attempts b = Some (b1, rs, r) \<and>
    sendWithRetries st b frame ctx = Some (b1, r) \<and> attemptCount rs = of_nat k \<and>
    1 \<le> k \<and> int k \<le> retry_bound (bs_config st) (retryPolicy (bs_config st) (Frame_Type frame))"
proof -
  have ok: "budget_ok (bs_config st) p no_attempts" for p by (simp add: budget_ok_def no_attempts_def)
  have "budget_left (bs_config st) p no_attempts + 1 = retry_bound (bs_config st) p" for p
    by (simp add: budget_left_def retry_bound_def no_attempts_def Let_def algebra_simps)
  then show ?thesis
    using retry_loop_returns [OF assms(1) ok, where frame = frame and b = b] assms(2)
    by (auto simp: sendWithRetries_def no_attempts_def)
qed

text \<open>On a transport that reports itself closed on every read, waiting for SYN ends at once.\<close>

definition closed_static :: "unit bus_static" where
  "closed_static = \<lparr>bs_ops = \<lparr>op_ReadByte = (\<lambda>w. (w, Inl (Sentinel ErrTransportClosed))),
     op_Write = (\<lambda>w bs. (w, Inl (Wrap ''reset: '' (Sentinel ErrAdapterReset) []))), op_BytesAreUnescaped = None,
     op_ReadByteWithEscape = None, op_StartArbitration = None, op_ArbitrationSendsSource = None,
     op_SignalStructuralSyn = None, op_Reconnect = Some (\<lambda>w. (w, None)), op_CollisionRecovery = None,
     env_reqErr = (\<lambda>w. (w, None)), env_runErr = (\<lambda>w. (w, None)), env_sleep = (\<lambda>w d. (w, Slept))\<rparr>,
   bs_config = DefaultBusConfig, bs_unescaped = False\<rparr>"

theorem retries_terminate_witness:
  "\<exists>b1 r. sendWithRetries closed_static (new_bus_state ()) wire_request None = Some (b1, r) \<and>
    retry_bound DefaultBusConfig (retryPolicy DefaultBusConfig (Frame_Type wire_request)) = 8"
proof -
  have wait: "waitForSyn closed_static b 2 \<noteq> None" for b
    by (simp add: waitForSyn_def closed_static_def, subst wait_plain.simps)
      (simp add: contextError_def readByte_def wait_skips_def)
  have "\<not> isBoundedContext None" by (simp add: isBoundedContext_def)
  from retries_terminate [OF wait this, of wire_request "new_bus_state ()"]
  have "\<exists>b1 r. sendWithRetries closed_static (new_bus_state ()) wire_request None = Some (b1, r)" by blast
  moreover have "retry_bound DefaultBusConfig (retryPolicy DefaultBusConfig (Frame_Type wire_request)) = 8"
    by code_simp
  ultimately show ?thesis by blast
qed

text \<open>
  C2: end to end.  Whatever failed, was retried or reconnected before: if \<open>sendWithRetries\<close>
  reports success with a result, the wire history ends with one complete transaction of the
  frame that carries exactly this result.
\<close>

theorem reported_success_was_on_wire:
  assumes "sendWithRetries st b frame ctx = Some (b1, Inr res)"
  shows "\<exists>before tr. b_wire b1 = b_wire b @ before @ tr \<and> transaction_trace st frame res tr"
proof -
  obtain rs where "retry_loop st frame (isBoundedContext ctx) no_attempts b = Some (b1, rs, Inr res)"
    using assms by (auto simp: sendWithRetries_def)
  from retry_loop_result [OF this] obtain b2 b3 a tr where
    run: "b_wire b2 = b_wire b @ tr" "sendTransaction st b2 frame a = (b3, Inr res)" "b_wire b1 = b_wire b3"
    by (auto simp: completed_def grows_def)
  obtain tr' where "b_wire b3 = b_wire b2 @ tr'" "transaction_trace st frame res tr'"
    using transaction_history [OF run(2)] by blast
  then show ?thesis using run by (intro exI [of _ tr] exI [of _ tr']) simp
qed

text \<open>The target refuses the command twice, is asked again, and answers.\<close>

definition stubborn_peer :: "byte list" where
  "stubborn_peer = [0xFF, 0xFF, 0x00] @ response_segment [0x2A]"

lemma stubborn_peer_run:
  "sendWithRetries echo_static (new_bus_state stubborn_peer) wire_request None =
     Some (fst (the (sendWithRetries echo_static (new_bus_state stubborn_peer) wire_request None)),
       Inr (Some (response_frame wire_request [0x2A])))"
proof -
  define a1 where "a1 = retry_attempt echo_static (new_bus_state stubborn_peer) wire_request False no_attempts"
  define a2 where "a2 = retry_attempt echo_static (fst (the a1)) wire_request False (fst (snd (the a1)))"
  have "case a1 of Some (b, rs, s) \<Rightarrow> s = Continue | None \<Rightarrow> False" unfolding a1_def by code_simp
  then obtain b1 rs1 where 1: "a1 = Some (b1, rs1, Continue)" by (auto split: option.splits)
  have "case a2 of Some (b, rs, s) \<Rightarrow> s = Return (Inr (Some (response_frame wire_request [0x2A]))) | None \<Rightarrow> False"
    unfolding a2_def a1_def by code_simp
  then obtain b2 rs2 where 2: "a2 = Some (b2, rs2, Return (Inr (Some (response_frame wire_request [0x2A]))))"
    by (auto split: option.splits)
  have "retry_loop echo_static wire_request False no_attempts (new_bus_state stubborn_peer) =
      Some (b2, rs2, Inr (Some (response_frame wire_request [0x2A])))"
    using 1 2 by (subst retry_loop.simps, subst retry_loop.simps) (simp add: a1_def a2_def)
  then show ?thesis by (simp add: sendWithRetries_def isBoundedContext_def)
qed

theorem reported_success_was_on_wire_witness:
  "\<exists>b1 before tr. sendWithRetries echo_static (new_bus_state stubborn_peer) wire_request None =
      Some (b1, Inr (Some (response_frame wire_request [0x2A]))) \<and>
    b_wire b1 = before @ tr \<and> transaction_trace echo_static wire_request (Some (response_frame wire_request [0x2A])) tr"
proof -
  have "b_wire (new_bus_state stubborn_peer) = []" by (simp add: new_bus_state_def)
  with reported_success_was_on_wire [OF stubborn_peer_run] show ?thesis using stubborn_peer_run by fastforce
qed

end
