(* ===== verification/Loopback.thy ===== *)
theory Loopback
  imports Bus_Events
begin

text \<open>
  The in-memory transport \<open>transport/loopback.go\<close>: a byte queue kept as a buffer with a read
  position that is reset whenever the buffer is used up.  A read on an empty open queue waits,
  which is the value \<open>None\<close>; it refines the plain queue of unread bytes.
\<close>

record loopback =
  lb_closed :: bool
  lb_buffer :: "byte list"
  lb_readPos :: nat

definition NewLoopback :: loopback where
  "NewLoopback = \<lparr>lb_closed = False, lb_buffer = [], lb_readPos = 0\<rparr>"

definition Loopback_ReadByte :: "loopback \<Rightarrow> (loopback \<times> byte result) option" where
  "Loopback_ReadByte lb =
     (if lb_readPos lb \<ge> length (lb_buffer lb) \<and> \<not> lb_closed lb then None
      else if lb_readPos lb \<ge> length (lb_buffer lb) then Some (lb, Inl (Sentinel ErrTransportClosed))
      else let value = lb_buffer lb ! lb_readPos lb;
               lb1 = lb\<lparr>lb_readPos := lb_readPos lb + 1\<rparr>;
               lb2 = (if lb_readPos lb1 = length (lb_buffer lb1)
                      then lb1\<lparr>lb_buffer := take 0 (lb_buffer lb1), lb_readPos := 0\<rparr> else lb1)
           in Some (lb2, Inr value))"

definition Loopback_Write :: "loopback \<Rightarrow> byte list \<Rightarrow> loopback \<times> int result" where
  "Loopback_Write lb payload =
     (if lb_closed lb then (lb, Inl (Sentinel ErrTransportClosed))
      else if length payload = 0 then (lb, Inr 0)
      else (lb\<lparr>lb_buffer := lb_buffer lb @ payload\<rparr>, Inr (int (length payload))))"

definition Loopback_Close :: "loopback \<Rightarrow> loopback" where
  "Loopback_Close lb = (if lb_closed lb then lb else lb\<lparr>lb_closed := True\<rparr>)"

section \<open>Refinement of a queue\<close>

definition lb_unread :: "loopback \<Rightarrow> byte list" where
  "lb_unread lb = drop (lb_readPos lb) (lb_buffer lb)"

text \<open>The read position never passes the buffer, and a used-up buffer is empty.\<close>

definition lb_wf :: "loopback \<Rightarrow> bool" where
  "lb_wf lb \<longleftrightarrow> (if lb_buffer lb = [] then lb_readPos lb = 0 else lb_readPos lb < length (lb_buffer lb))"

lemma lb_wf_ops:
  "lb_wf NewLoopback"
  "lb_wf lb \<Longrightarrow> Loopback_ReadByte lb = Some (lb', r) \<Longrightarrow> lb_wf lb'"
  "lb_wf lb \<Longrightarrow> lb_wf (fst (Loopback_Write lb payload))"
  "lb_wf lb \<Longrightarrow> lb_wf (Loopback_Close lb)"
  by (auto simp: lb_wf_def NewLoopback_def Loopback_ReadByte_def Loopback_Write_def Loopback_Close_def Let_def
      split: if_splits)

lemma lb_read_unread:
  "Loopback_ReadByte lb =
     (case lb_unread lb of
        [] \<Rightarrow> if lb_closed lb then Some (lb, Inl (Sentinel ErrTransportClosed)) else None
      | v # _ \<Rightarrow> Some (fst (the (Loopback_ReadByte lb)), Inr v))"
  by (auto simp: Loopback_ReadByte_def lb_unread_def Let_def hd_drop_conv_nth split: list.splits
      dest: arg_cong [where f = hd])

lemma lb_read_rest:
  assumes "Loopback_ReadByte lb = Some (lb', Inr v)"
  shows "lb_unread lb = v # lb_unread lb' \<and> lb_closed lb' = lb_closed lb"
  using assms Cons_nth_drop_Suc [of "lb_readPos lb" "lb_buffer lb"]
  by (auto simp: Loopback_ReadByte_def lb_unread_def Let_def split: if_splits)

lemma lb_write_unread:
  assumes "lb_wf lb" and "\<not> lb_closed lb"
  shows "lb_unread (fst (Loopback_Write lb payload)) = lb_unread lb @ payload"
  using assms by (auto simp: Loopback_Write_def lb_unread_def lb_wf_def split: if_splits)

section \<open>As the transport of a bus\<close>

text \<open>A reader left waiting on an empty queue returns once the transport is closed.\<close>

definition loopback_ops :: "loopback transport_ops" where
  "loopback_ops = \<lparr>
     op_ReadByte = (\<lambda>lb. case Loopback_ReadByte lb of
        Some r \<Rightarrow> r | None \<Rightarrow> (Loopback_Close lb, Inl (Sentinel ErrTransportClosed))),
     op_Write = Loopback_Write, op_BytesAreUnescaped = None, op_ReadByteWithEscape = None,
     op_StartArbitration = None, op_ArbitrationSendsSource = None, op_SignalStructuralSyn = None,
     op_Reconnect = None, op_CollisionRecovery = None,
     env_reqErr = (\<lambda>w. (w, None)), env_runErr = (\<lambda>w. (w, None)), env_sleep = (\<lambda>w d. (w, Slept))\<rparr>"

definition loopback_static :: "bus_config \<Rightarrow> loopback bus_static" where
  "loopback_static cfg = \<lparr>bs_ops = loopback_ops, bs_config = cfg, bs_unescaped = unescaped_flag loopback_ops\<rparr>"

lemma loopback_wait_closes:
  "Loopback_ReadByte lb = None \<Longrightarrow>
   Loopback_ReadByte (Loopback_Close lb) = Some (Loopback_Close lb, Inl (Sentinel ErrTransportClosed))"
  by (auto simp: Loopback_ReadByte_def Loopback_Close_def Let_def split: if_splits)

end
