(* ===== verification/Bus_Progress.thy ===== *)
theory Bus_Progress
  imports Bus_Transaction Loopback
begin

text \<open>
  That transactions do get through: a wire on which every written byte is echoed and on which the
  remote side sends a known script (the contract of a plain transport while this node owns the
  bus), and the transactions of the engine on it.  The contract is a locale, interpreted on the
  loopback transport of the code and on an echo wire with a scripted peer.
\<close>

section \<open>The contract\<close>

lemma symbol_distinct: "SymbolNack \<noteq> SymbolAck"
  by (simp add: symbol_defs)

text \<open>
  \<open>script w\<close> is \<open>Some q\<close> when the wire is open, every echo has been read and the remote side is
  going to send \<open>q\<close> next.
\<close>

locale echo_wire =
  fixes st :: "'t bus_static" and script :: "'t \<Rightarrow> byte list option"
  assumes contexts_live: "env_reqErr (bs_ops st) w = (w, None)" "env_runErr (bs_ops st) w = (w, None)"
    and no_provenance: "op_ReadByteWithEscape (bs_ops st) = None"
    and no_signal: "op_SignalStructuralSyn (bs_ops st) = None"
    and echoes: "script w = Some q \<Longrightarrow>
      \<exists>w1 w2. op_Write (bs_ops st) w [v] = (w1, Inr 1) \<and> op_ReadByte (bs_ops st) w1 = (w2, Inr v) \<and> script w2 = Some q"
    and delivers: "script w = Some (v # q) \<Longrightarrow> \<exists>w1. op_ReadByte (bs_ops st) w = (w1, Inr v) \<and> script w1 = Some q"
begin

abbreviation on :: "'t bus \<Rightarrow> byte list \<Rightarrow> bool" where
  "on b q \<equiv> script (b_world b) = Some q"

lemma context_ok: "contextError st b = (b, None)"
  by (simp add: contextError_def contexts_live)

lemma read_script: "on b (v # q) \<Longrightarrow> \<exists>b1. readByte st b = (b1, Inr v) \<and> on b1 q"
  using delivers [of "b_world b" v q] by (auto simp: readByte_def context_ok)

lemma raw_echoed:
  assumes "on b q"
  shows "\<exists>b1. sendRawWithEcho st b raw structural isFirst = (b1, Inr ()) \<and> on b1 q"
proof -
  obtain w1 w2 where w: "op_Write (bs_ops st) (b_world b) [raw] = (w1, Inr 1)"
      "op_ReadByte (bs_ops st) w1 = (w2, Inr raw)" "script w2 = Some q"
    using echoes [OF assms] by blast
  have "signal_structural st structural b = b" by (simp add: signal_structural_def no_signal)
  then show ?thesis
    using w by (simp add: sendRawWithEcho_def Let_def read_echo_def no_provenance readByte_def context_ok
        check_echo_def check_echo_value_def split: bool.splits)
qed

lemma symbol_echoed:
  assumes "on b q"
  shows "\<exists>b1. sendSymbolWithEcho st b symbol esc isFirst = (b1, Inr ()) \<and> on b1 q"
proof (cases "bs_unescaped st \<or> \<not> esc \<or> (symbol \<noteq> SymbolEscape \<and> symbol \<noteq> SymbolSyn)")
  case True
  then show ?thesis using raw_echoed [OF assms] unfolding sendSymbolWithEcho_def by simp
next
  case False
  obtain b1 where "sendRawWithEcho st b SymbolEscape False isFirst = (b1, Inr ())" "on b1 q"
    using raw_echoed [OF assms] by blast
  then show ?thesis
    using False raw_echoed [of b1 q] unfolding sendSymbolWithEcho_def if_not_P [OF False] by simp
qed

lemma end_echoed: "on b q \<Longrightarrow> \<exists>b1. sendEndOfMessage st b = (b1, Inr ()) \<and> on b1 q"
  using symbol_echoed unfolding sendEndOfMessage_def by blast

lemma symbols_echoed: "on b q \<Longrightarrow> \<exists>b1. send_symbols st b symbols isFirst = (b1, Inr ()) \<and> on b1 q"
proof (induction symbols arbitrary: b isFirst)
  case (Cons s symbols)
  obtain b1 where "sendSymbolWithEcho st b s True isFirst = (b1, Inr ())" "on b1 q"
    using symbol_echoed [OF Cons.prems] by blast
  then show ?case using Cons.IH by simp
qed simp

lemma telegram_echoed: "on b q \<Longrightarrow> \<exists>b1. sendInitiatorTelegram st b telegram inc = (b1, Inr ()) \<and> on b1 q"
  using symbols_echoed unfolding sendInitiatorTelegram_def by blast

text \<open>Logical symbols of the remote side are read back, a stuffed SYN included.\<close>

lemma symbol_read:
  assumes "on b (wire_form st v @ q)"
  shows "\<exists>b1. readSymbol st False b = (b1, False, Inr v) \<and> on b1 q"
proof (cases "bs_unescaped st \<or> (v \<noteq> SymbolEscape \<and> v \<noteq> SymbolSyn)")
  case True
  then have "wire_form st v = [v]" by (auto simp: wire_form_def escape_symbol_def)
  then show ?thesis using read_script [of b v q] assms True
    by (auto simp: readSymbol_def read_symbol_loop.simps)
next
  case False
  let ?c = "if v = SymbolSyn then 0x01 else 0x00 :: byte"
  have "wire_form st v = [SymbolEscape, ?c]" using False by (auto simp: wire_form_def escape_symbol_def symbol_defs)
  then obtain b1 where 1: "readByte st b = (b1, Inr SymbolEscape)" "on b1 (?c # q)"
    using read_script [of b SymbolEscape "?c # q"] assms by auto
  obtain b2 where "readByte st b1 = (b2, Inr ?c)" "on b2 q" using read_script [OF 1(2)] by blast
  with 1 show ?thesis using False by (auto simp: readSymbol_def read_symbol_loop.simps)
qed

lemma response_symbol_read:
  assumes "on b (wire_form st v @ q)" and "bs_unescaped st \<or> v \<noteq> SymbolSyn"
  shows "\<exists>b1. response_symbol st b False frame ft a what = (b1, False, Inr v) \<and> on b1 q"
  using symbol_read [of b v q] assms by (auto simp: response_symbol_def)

lemma response_data_read:
  assumes "on b (concat (map (wire_form st) vs) @ q)" and "bs_unescaped st \<or> SymbolSyn \<notin> set vs"
  shows "\<exists>b1. response_data (length vs) st b False frame ft a = (b1, False, Inr vs) \<and> on b1 q"
  using assms
proof (induction vs arbitrary: b)
  case (Cons v vs)
  obtain b1 where "response_symbol st b False frame ft a ''reading response data'' = (b1, False, Inr v)"
    "on b1 (concat (map (wire_form st) vs) @ q)"
    using response_symbol_read [of b v "concat (map (wire_form st) vs) @ q" frame ft a "''reading response data''"]
      Cons.prems by auto
  with Cons.IH [of b1] Cons.prems(2) show ?case by auto
qed simp

lemma response_read:
  assumes "on b (concat (map (wire_form st) (byte_of_nat (length data) # data @ [c])) @ q)" and "length data \<le> 255"
    and "bs_unescaped st \<or> SymbolSyn \<notin> set (byte_of_nat (length data) # data @ [c])"
  shows "\<exists>b1. read_response st b False frame ft a = (b1, False, Inr (byte_of_nat (length data), data, c)) \<and> on b1 q"
proof -
  let ?l = "byte_of_nat (length data)"
  obtain b1 where 1: "response_symbol st b False frame ft a ''waiting for response length'' = (b1, False, Inr ?l)"
    "on b1 (concat (map (wire_form st) data) @ wire_form st c @ q)"
    using response_symbol_read [of b ?l "concat (map (wire_form st) data) @ wire_form st c @ q" frame ft a
        "''waiting for response length''"] assms by auto
  obtain b2 where 2: "response_data (length data) st b1 False frame ft a = (b2, False, Inr data)" "on b2 (wire_form st c @ q)"
    using response_data_read [OF 1(2), of frame ft a] assms(3) by auto
  obtain b3 where 3: "response_symbol st b2 False frame ft a ''waiting for response crc'' = (b3, False, Inr c)" "on b3 q"
    using response_symbol_read [OF 2(2), of frame ft a "''waiting for response crc''"] assms(3) by auto
  have "unat ?l = length data" using assms(2) by simp
  then show ?thesis using 1 2 3 by (simp add: read_response_def)
qed

text \<open>The command phase against an acknowledging peer, with at most one refusal before.\<close>

lemma ack_read:
  assumes "on b (v # q)" and "v = SymbolAck \<or> v = SymbolNack"
  shows "\<exists>b1. readSymbol st False b = (b1, False, Inr v) \<and> on b1 q"
  using symbol_read [of b v q] assms by (auto simp: wire_form_def escape_symbol_def symbol_defs)

lemma command_acked:
  assumes "on b (SymbolAck # q)" and "ft \<noteq> FrameTypeBroadcast"
  shows "\<exists>b1. command_loop (Suc n) st b False frame ft a inc = (b1, False, CmdAcked) \<and> on b1 q"
proof -
  obtain b1 where "sendInitiatorTelegram st b (initiator_telegram frame) inc = (b1, Inr ())" "on b1 (SymbolAck # q)"
    using telegram_echoed [OF assms(1)] by blast
  moreover from this obtain b2 where "readSymbol st False b1 = (b2, False, Inr SymbolAck)" "on b2 q"
    using ack_read by blast
  ultimately show ?thesis using assms(2) by simp
qed

lemma command_nacked_then_acked:
  assumes "on b (SymbolNack # SymbolAck # q)" and "ft \<noteq> FrameTypeBroadcast"
  shows "\<exists>b1. command_loop 2 st b False frame ft a inc = (b1, False, CmdAcked) \<and> on b1 q"
proof -
  obtain b1 where 1: "sendInitiatorTelegram st b (initiator_telegram frame) inc = (b1, Inr ())"
      "on b1 (SymbolNack # SymbolAck # q)"
    using telegram_echoed [OF assms(1)] by blast
  then obtain b2 where 2: "readSymbol st False b1 = (b2, False, Inr SymbolNack)" "on b2 (SymbolAck # q)"
    using ack_read by blast
  let ?b = "emitObserverEvent st b2 (request_event BusEventNACK BusOutcomeNACK ft SymbolNack a frame)"
  have "command_loop 2 st b False frame ft a inc = command_loop 1 st ?b False frame ft a True"
    unfolding numeral_2_eq_2 by (subst command_loop.simps(2))
      (use 1 2 assms(2) in \<open>simp add: symbol_distinct Let_def del: command_loop.simps\<close>)
  then show ?thesis using command_acked [of ?b q ft 0 frame a True] 2(2) assms(2)
    by (simp del: command_loop.simps)
qed

lemma command_phase:
  assumes "on b (replicate nacks SymbolNack @ SymbolAck # q)" and "nacks \<le> 1" and "ft \<noteq> FrameTypeBroadcast"
  shows "\<exists>b1. command_loop 2 st b False frame ft a inc = (b1, False, CmdAcked) \<and> on b1 q"
proof (cases nacks)
  case 0
  then show ?thesis using command_acked [of b q ft 1 frame a inc] assms by (simp add: numeral_2_eq_2)
next
  case (Suc n)
  then show ?thesis using command_nacked_then_acked [of b q ft frame a inc] assms by simp
qed

text \<open>The response phase, with at most one response whose CRC is wrong before the good one.\<close>

lemma response_accepted:
  assumes "on b (concat (map (wire_form st) (response_segment data)) @ q)" and "length data \<le> 255"
    and "bs_unescaped st \<or> SymbolSyn \<notin> set (response_segment data)"
  shows "\<exists>b1. response_loop (Suc n) st b False frame ft a = (b1, Inr (Some (response_frame frame data))) \<and> on b1 q"
proof -
  let ?l = "byte_of_nat (length data)"
  have seg: "response_segment data = ?l # data @ [CRC (?l # data)]" by (simp add: response_segment_def Let_def)
  obtain b1 where 1: "read_response st b False frame ft a = (b1, False, Inr (?l, data, CRC (?l # data)))" "on b1 q"
    using response_read [of b data "CRC (?l # data)" q frame ft a] assms unfolding seg by blast
  obtain b2 where 2: "sendSymbolWithEcho st b1 SymbolAck True False = (b2, Inr ())" "on b2 q"
    using symbol_echoed [OF 1(2)] by blast
  let ?b = "emitObserverEvent st b2 (response_event BusEventACK BusOutcomeSuccess ft SymbolAck a frame (response_frame frame data))"
  obtain b3 where "sendEndOfMessage st ?b = (b3, Inr ())" "on b3 q" using end_echoed [of ?b q] 2(2) by auto
  then show ?thesis using 1 2 by (simp add: Let_def emitAttemptComplete_def)
qed

lemma response_garbled_then_accepted:
  assumes "on b (concat (map (wire_form st) (byte_of_nat (length d) # d @ [c])) @ concat (map (wire_form st) (response_segment data)) @ q)"
    and "length d \<le> 255" and "c \<noteq> CRC (byte_of_nat (length d) # d)" and "length data \<le> 255"
    and "bs_unescaped st \<or> SymbolSyn \<notin> set (byte_of_nat (length d) # d @ [c]) \<union> set (response_segment data)"
  shows "\<exists>b1. response_loop 2 st b False frame ft a = (b1, Inr (Some (response_frame frame data))) \<and> on b1 q"
proof -
  let ?q = "concat (map (wire_form st) (response_segment data)) @ q" and ?l = "byte_of_nat (length d)"
  obtain b1 where 1: "read_response st b False frame ft a = (b1, False, Inr (?l, d, c))" "on b1 ?q"
    using response_read [OF assms(1) assms(2), of frame ft a] assms(5) by auto
  obtain b2 where 2: "sendSymbolWithEcho st b1 SymbolNack True False = (b2, Inr ())" "on b2 ?q"
    using symbol_echoed [OF 1(2)] by blast
  let ?ev = "\<lambda>k s. response_event k BusOutcomeCRCMismatch ft s a frame (response_frame frame d)"
  let ?b = "emitObserverEvent st (emitObserverEvent st b2 (?ev BusEventNACK SymbolNack)) (?ev BusEventCRCMismatch 0)"
  have "response_loop 2 st b False frame ft a = response_loop 1 st ?b False frame ft a"
    unfolding numeral_2_eq_2 by (subst response_loop.simps(2))
      (use 1 2 assms(3) in \<open>simp add: Let_def del: response_loop.simps\<close>)
  then show ?thesis using response_accepted [of ?b data q 0 frame ft a] 2(2) assms(4,5)
    by (auto simp del: response_loop.simps)
qed

text \<open>On a plain wire a stuffed 0xAA inside the response is taken for an idle bus.\<close>

lemma response_symbol_syn:
  assumes "on b (wire_form st SymbolSyn @ q)" and "\<not> bs_unescaped st"
  shows "\<exists>b1. response_symbol st b False frame ft a what = (b1, False, Inl (err_syn_in what))"
  using symbol_read [OF assms(1)] assms(2) by (auto simp: response_symbol_def)

lemma response_data_syn:
  assumes "on b (concat (map (wire_form st) vs) @ q)" and "\<not> bs_unescaped st" and "SymbolSyn \<in> set vs"
  shows "\<exists>b1. response_data (length vs) st b False frame ft a = (b1, False, Inl (err_syn_in ''reading response data''))"
  using assms
proof (induction vs arbitrary: b)
  case (Cons v vs)
  show ?case
  proof (cases "v = SymbolSyn")
    case True
    then show ?thesis
      using response_symbol_syn [of b "concat (map (wire_form st) vs) @ q" frame ft a "''reading response data''"]
        Cons.prems by auto
  next
    case False
    obtain b1 where "response_symbol st b False frame ft a ''reading response data'' = (b1, False, Inr v)"
      "on b1 (concat (map (wire_form st) vs) @ q)"
      using response_symbol_read [of b v "concat (map (wire_form st) vs) @ q" frame ft a "''reading response data''"]
        Cons.prems False by auto
    with Cons.IH [of b1] Cons.prems False show ?thesis by auto
  qed
qed simp

lemma response_syn_timeout:
  assumes "on b (concat (map (wire_form st) (response_segment data)) @ q)" and "\<not> bs_unescaped st"
    and "length data \<le> 255" and "SymbolSyn \<in> set (response_segment data)"
  shows "\<exists>b1 what. response_loop (Suc n) st b False frame ft a = (b1, Inl (err_syn_in what))"
proof -
  let ?l = "byte_of_nat (length data)" and ?c = "CRC (byte_of_nat (length data) # data)"
  have l: "unat ?l = length data" using assms(3) by simp
  have on: "on b (wire_form st ?l @ concat (map (wire_form st) data) @ wire_form st ?c @ q)"
    and syn: "?l = SymbolSyn \<or> SymbolSyn \<in> set data \<or> ?c = SymbolSyn"
    using assms(1,4) by (auto simp: response_segment_def Let_def)
  show ?thesis
  proof (cases "?l = SymbolSyn")
    case True
    then show ?thesis
      using response_symbol_syn [OF on [unfolded True] assms(2), of frame ft a "''waiting for response length''"]
      by (auto simp: read_response_def)
  next
    case False
    obtain b1 where 1: "response_symbol st b False frame ft a ''waiting for response length'' = (b1, False, Inr ?l)"
      "on b1 (concat (map (wire_form st) data) @ wire_form st ?c @ q)"
      using response_symbol_read [OF on, of frame ft a "''waiting for response length''"] False by auto
    show ?thesis
    proof (cases "SymbolSyn \<in> set data")
      case True
      then show ?thesis using response_data_syn [OF 1(2) assms(2) True, of frame ft a] 1 l
        by (auto simp: read_response_def)
    next
      case data: False
      then have c: "?c = SymbolSyn" using syn False by blast
      obtain b2 where 2: "response_data (length data) st b1 False frame ft a = (b2, False, Inr data)" "on b2 (wire_form st ?c @ q)"
        using response_data_read [OF 1(2), of frame ft a] data by auto
      then show ?thesis
        using response_symbol_syn [of b2 q frame ft a "''waiting for response crc''"] 1 l c assms(2)
        by (auto simp: read_response_def)
    qed
  qed
qed

text \<open>Whole transactions.\<close>

lemma broadcast_completes:
  assumes "on b q" and "Frame_Type frame = FrameTypeBroadcast" and "length (Data frame) \<le> 255"
  shows "\<exists>b1. sendTransaction st b frame a = (b1, Inr None) \<and> on b1 q"
proof -
  obtain b1 where 1: "sendInitiatorTelegram st b (initiator_telegram frame) (include_source st) = (b1, Inr ())" "on b1 q"
    using telegram_echoed [OF assms(1)] by blast
  obtain b2 where "sendEndOfMessage st b1 = (b2, Inr ())" "on b2 q" using end_echoed [OF 1(2)] by blast
  then show ?thesis using 1 assms by (simp add: sendTransaction_def numeral_2_eq_2 emitAttemptComplete_def)
qed

lemma request_completes:
  assumes "on b (replicate nacks SymbolNack @ SymbolAck # concat (map (wire_form st) (garbled @ response_segment data)) @ q)"
    and "nacks \<le> 1" and "Frame_Type frame = FrameTypeInitiatorTarget" and "length (Data frame) \<le> 255"
    and "length data \<le> 255" and "bs_unescaped st \<or> SymbolSyn \<notin> set (garbled @ response_segment data)"
    and "garbled = [] \<or> (\<exists>d c. garbled = byte_of_nat (length d) # d @ [c] \<and> length d \<le> 255 \<and>
      c \<noteq> CRC (byte_of_nat (length d) # d))"
  shows "\<exists>b1. sendTransaction st b frame a = (b1, Inr (Some (response_frame frame data))) \<and> on b1 q"
proof -
  obtain b1 where 1: "command_loop 2 st b False frame FrameTypeInitiatorTarget a (include_source st) = (b1, False, CmdAcked)"
    "on b1 (concat (map (wire_form st) (garbled @ response_segment data)) @ q)"
    using command_phase [OF assms(1,2)] by blast
  have "\<exists>b2. response_loop 2 st b1 False frame FrameTypeInitiatorTarget a =
      (b2, Inr (Some (response_frame frame data))) \<and> on b2 q"
    using assms(7)
  proof
    assume "garbled = []"
    then show ?thesis using response_accepted [of b1 data q 1 frame FrameTypeInitiatorTarget a] 1(2) assms(5,6)
      by (simp add: numeral_2_eq_2 del: response_loop.simps)
  next
    assume "\<exists>d c. garbled = byte_of_nat (length d) # d @ [c] \<and> length d \<le> 255 \<and> c \<noteq> CRC (byte_of_nat (length d) # d)"
    then obtain d c where "garbled = byte_of_nat (length d) # d @ [c]" "length d \<le> 255" "c \<noteq> CRC (byte_of_nat (length d) # d)"
      by blast
    then show ?thesis
      using response_garbled_then_accepted [of b1 d c data q frame FrameTypeInitiatorTarget a] 1(2) assms(5,6)
      by auto
  qed
  then show ?thesis using 1 assms(3,4) by (auto simp: sendTransaction_def simp del: command_loop.simps response_loop.simps)
qed

lemma syn_response_times_out:
  assumes "on b (SymbolAck # concat (map (wire_form st) (response_segment data)) @ q)"
    and "Frame_Type frame = FrameTypeInitiatorTarget" and "length (Data frame) \<le> 255"
    and "length data \<le> 255" and "\<not> bs_unescaped st" and "SymbolSyn \<in> set (response_segment data)"
  shows "\<exists>b1 what. sendTransaction st b frame a = (b1, Inl (err_syn_in what))"
proof -
  obtain b1 where 1: "command_loop 2 st b False frame FrameTypeInitiatorTarget a (include_source st) = (b1, False, CmdAcked)"
    "on b1 (concat (map (wire_form st) (response_segment data)) @ q)"
    using command_phase [of b 0 "concat (map (wire_form st) (response_segment data)) @ q" FrameTypeInitiatorTarget
        frame a "include_source st"] assms(1) by auto
  obtain b2 what where "response_loop 2 st b1 False frame FrameTypeInitiatorTarget a = (b2, Inl (err_syn_in what))"
    using response_syn_timeout [OF 1(2) assms(5,4,6), of 1 frame FrameTypeInitiatorTarget a]
    by (auto simp: numeral_2_eq_2 simp del: response_loop.simps)
  then show ?thesis using 1 assms(2,3) by (auto simp: sendTransaction_def simp del: command_loop.simps response_loop.simps)
qed

end

section \<open>Wires that keep the contract\<close>

text \<open>The loopback transport of the code, where nobody answers.\<close>

definition loopback_script :: "loopback \<Rightarrow> byte list option" where
  "loopback_script lb = (if lb_wf lb \<and> \<not> lb_closed lb \<and> lb_unread lb = [] then Some [] else None)"

lemma loopback_echoes:
  assumes "lb_wf lb" and "\<not> lb_closed lb" and "lb_unread lb = []"
  shows "\<exists>lb1 lb2. Loopback_Write lb [v] = (lb1, Inr 1) \<and> Loopback_ReadByte lb1 = Some (lb2, Inr v) \<and>
    lb_wf lb2 \<and> \<not> lb_closed lb2 \<and> lb_unread lb2 = []"
proof -
  have "lb_buffer lb = []" "lb_readPos lb = 0"
    using assms by (auto simp: lb_wf_def lb_unread_def split: if_splits)
  then show ?thesis using assms(2)
    by (auto simp: Loopback_Write_def Loopback_ReadByte_def lb_wf_def lb_unread_def)
qed

interpretation loopback_wire: echo_wire "loopback_static cfg" loopback_script for cfg
proof unfold_locales
  fix w :: loopback and q v
  assume "loopback_script w = Some q"
  then show "\<exists>w1 w2. op_Write (bs_ops (loopback_static cfg)) w [v] = (w1, Inr 1) \<and>
      op_ReadByte (bs_ops (loopback_static cfg)) w1 = (w2, Inr v) \<and> loopback_script w2 = Some q"
    using loopback_echoes [of w v]
    by (fastforce simp: loopback_static_def loopback_ops_def loopback_script_def split: if_splits)
qed (auto simp: loopback_static_def loopback_ops_def loopback_script_def split: if_splits)

text \<open>A wire that echoes at once, with a scripted peer: the state is what is still to be read.\<close>

definition peer_static :: "bus_config \<Rightarrow> byte list bus_static" where
  "peer_static cfg = \<lparr>bs_ops = echo_ops, bs_config = cfg, bs_unescaped = unescaped_flag echo_ops\<rparr>"

interpretation peer_wire: echo_wire "peer_static cfg" Some for cfg
  by unfold_locales (auto simp: peer_static_def echo_ops_def)

lemma peer_wire_form: "wire_form (peer_static cfg) = escape_symbol"
  by (rule ext) (simp add: wire_form_def peer_static_def unescaped_flag_def echo_ops_def)

lemma peer_plain [simp]: "\<not> bs_unescaped (peer_static cfg)"
  by (simp add: peer_static_def unescaped_flag_def echo_ops_def)

lemma EncodeSlaveResponse_segment:
  "EncodeSlaveResponse data = Inr reply \<longleftrightarrow> length data \<le> 255 \<and> reply = EscapeBytes (response_segment data)"
  by (auto simp: EncodeSlaveResponse_def response_segment_def Let_def)

section \<open>Properties\<close>



text \<open>
  C34: a response with the value 0xAA is lost on a plain wire.  The response is correctly stuffed by
  \<open>EncodeSlaveResponse\<close>, but the engine takes the unstuffed 0xAA for an idle bus and reports a
  timeout: together with the previous property, a response is received iff it has no 0xAA.
\<close>

theorem stuffed_syn_response_lost:
  assumes "Frame_Type frame = FrameTypeInitiatorTarget" and "length (Data frame) \<le> 255"
    and "EncodeSlaveResponse data = Inr reply" and "SymbolSyn \<in> set (response_segment data)"
    and "b_world b = [SymbolAck] @ reply"
  shows "\<exists>b1 e. sendTransaction (peer_static cfg) b frame attempt = (b1, Inl e) \<and> errors_Is e ErrTimeout"
  using peer_wire.syn_response_times_out [of b cfg data "[]" frame attempt] assms
  by (fastforce simp: EncodeSlaveResponse_segment peer_wire_form EscapeBytes_concat err_syn_in_def)

theorem stuffed_syn_response_lost_witness:
  "\<exists>b1 e. sendTransaction (peer_static DefaultBusConfig)
      (new_bus_state (0x00 # EscapeBytes (response_segment [0xAA])))
      \<lparr>Source = 0x31, Target = 0x08, Primary = 0xB5, Secondary = 0x04, Data = [], FrameType = FrameTypeUnknown\<rparr> 1 =
    (b1, Inl e) \<and> errors_Is e ErrTimeout"
proof -
  let ?frame = "\<lparr>Source = 0x31, Target = 0x08, Primary = 0xB5, Secondary = 0x04, Data = [], FrameType = FrameTypeUnknown\<rparr>"
  have 1: "Frame_Type ?frame = FrameTypeInitiatorTarget" by code_simp
  have 2: "EncodeSlaveResponse [0xAA] = Inr (EscapeBytes (response_segment [0xAA]))"
    by (simp add: EncodeSlaveResponse_segment)
  have 3: "SymbolSyn \<in> set (response_segment [0xAA])" by code_simp
  show ?thesis
    by (rule stuffed_syn_response_lost [OF 1 _ 2 3]) (simp_all add: new_bus_state_def symbol_defs)
qed

text \<open>
  A broadcast over the loopback transport always completes, and the buffer is empty afterwards.
\<close>

theorem loopback_broadcast_completes:
  assumes "Frame_Type frame = FrameTypeBroadcast" and "length (Data frame) \<le> 255"
  shows "\<exists>b1. sendTransaction (loopback_static cfg) (new_bus_state NewLoopback) frame attempt = (b1, Inr None) \<and>
    lb_unread (b_world b1) = [] \<and> \<not> lb_closed (b_world b1)"
proof -
  have "loopback_script (b_world (new_bus_state NewLoopback)) = Some []"
    by (simp add: loopback_script_def new_bus_state_def NewLoopback_def lb_wf_def lb_unread_def)
  from loopback_wire.broadcast_completes [OF this assms, where cfg = cfg and a = attempt] show ?thesis
    by (auto simp: loopback_script_def split: if_splits)
qed

theorem loopback_broadcast_completes_witness:
  "\<exists>b1. sendTransaction (loopback_static DefaultBusConfig) (new_bus_state NewLoopback)
      \<lparr>Source = 0x31, Target = 0xFE, Primary = 0x07, Secondary = 0x00, Data = [0xAA], FrameType = FrameTypeUnknown\<rparr> 1 =
    (b1, Inr None) \<and> lb_unread (b_world b1) = []"
proof -
  let ?frame = "\<lparr>Source = 0x31, Target = 0xFE, Primary = 0x07, Secondary = 0x00, Data = [0xAA], FrameType = FrameTypeUnknown\<rparr>"
  have 1: "Frame_Type ?frame = FrameTypeBroadcast" by code_simp
  show ?thesis using loopback_broadcast_completes [OF 1, where cfg = DefaultBusConfig and attempt = 1] by auto
qed

end
