(* ===== verification/Go_Heap.thy ===== *)
theory Go_Heap
  imports Ebus_Prelude "HOL-Library.Multiset"
begin

text \<open>
  Go's \<open>container/heap\<close> as the send queue uses it: \<open>up\<close>, \<open>down\<close>, \<open>Init\<close>, \<open>Push\<close>, \<open>Pop\<close> and \<open>Fix\<close>
  over the operations of \<open>heap.Interface\<close>, and the laws an implementation of that interface
  owes (locale \<open>heap_interface\<close>) with what the algorithms then guarantee.
\<close>

section \<open>The algorithms\<close>

function heap_up :: "('h \<Rightarrow> nat \<Rightarrow> nat \<Rightarrow> bool) \<Rightarrow> ('h \<Rightarrow> nat \<Rightarrow> nat \<Rightarrow> 'h) \<Rightarrow> 'h \<Rightarrow> nat \<Rightarrow> 'h" where
  "heap_up lt swap h j =
     (let i = (j - 1) div 2 in
      if i = j \<or> \<not> lt h j i then h else heap_up lt swap (swap h i j) i)"
  by pat_completeness auto
termination by (relation "measure (\<lambda>(_, _, _, j). j)") auto

text \<open>The loop of \<open>down\<close>; the guard against overflow of \<open>2 * i + 1\<close> needs 2^62 items and is left out.\<close>

function heap_down_loop ::
  "('h \<Rightarrow> nat \<Rightarrow> nat \<Rightarrow> bool) \<Rightarrow> ('h \<Rightarrow> nat \<Rightarrow> nat \<Rightarrow> 'h) \<Rightarrow> 'h \<Rightarrow> nat \<Rightarrow> nat \<Rightarrow> 'h \<times> nat" where
  "heap_down_loop lt swap h i n =
     (let j1 = 2 * i + 1 in
      if j1 \<ge> n then (h, i)
      else let j = (if j1 + 1 < n \<and> lt h (j1 + 1) j1 then j1 + 1 else j1) in
        if \<not> lt h j i then (h, i) else heap_down_loop lt swap (swap h i j) j n)"
  by pat_completeness auto
termination by (relation "measure (\<lambda>(_, _, _, i, n). n - i)") auto

declare heap_up.simps [simp del] heap_down_loop.simps [simp del]

definition heap_down ::
  "('h \<Rightarrow> nat \<Rightarrow> nat \<Rightarrow> bool) \<Rightarrow> ('h \<Rightarrow> nat \<Rightarrow> nat \<Rightarrow> 'h) \<Rightarrow> 'h \<Rightarrow> nat \<Rightarrow> nat \<Rightarrow> 'h \<times> bool" where
  "heap_down lt swap h i0 n = (let (h', i) = heap_down_loop lt swap h i0 n in (h', i > i0))"

definition heap_Fix ::
  "('h \<Rightarrow> nat) \<Rightarrow> ('h \<Rightarrow> nat \<Rightarrow> nat \<Rightarrow> bool) \<Rightarrow> ('h \<Rightarrow> nat \<Rightarrow> nat \<Rightarrow> 'h) \<Rightarrow> 'h \<Rightarrow> nat \<Rightarrow> 'h" where
  "heap_Fix len lt swap h i =
     (let (h', moved) = heap_down lt swap h i (len h) in
      if moved then h' else heap_up lt swap h' i)"

text \<open>\<open>Init\<close>: \<open>down\<close> from the last parent to the root.\<close>

definition heap_Init ::
  "('h \<Rightarrow> nat) \<Rightarrow> ('h \<Rightarrow> nat \<Rightarrow> nat \<Rightarrow> bool) \<Rightarrow> ('h \<Rightarrow> nat \<Rightarrow> nat \<Rightarrow> 'h) \<Rightarrow> 'h \<Rightarrow> 'h" where
  "heap_Init len lt swap h =
     foldl (\<lambda>h' i. fst (heap_down lt swap h' i (len h))) h (rev [0..<len h div 2])"

definition heap_Push ::
  "('h \<Rightarrow> nat) \<Rightarrow> ('h \<Rightarrow> nat \<Rightarrow> nat \<Rightarrow> bool) \<Rightarrow> ('h \<Rightarrow> nat \<Rightarrow> nat \<Rightarrow> 'h) \<Rightarrow> ('h \<Rightarrow> 'x \<Rightarrow> 'h) \<Rightarrow> 'h \<Rightarrow> 'x \<Rightarrow> 'h" where
  "heap_Push len lt swap push h x = (let h' = push h x in heap_up lt swap h' (len h' - 1))"

definition heap_Pop ::
  "('h \<Rightarrow> nat) \<Rightarrow> ('h \<Rightarrow> nat \<Rightarrow> nat \<Rightarrow> bool) \<Rightarrow> ('h \<Rightarrow> nat \<Rightarrow> nat \<Rightarrow> 'h) \<Rightarrow> ('h \<Rightarrow> 'h \<times> 'x) \<Rightarrow> 'h \<Rightarrow> 'h \<times> 'x" where
  "heap_Pop len lt swap pop h =
     (let n = len h - 1; h1 = swap h 0 n; (h2, _) = heap_down lt swap h1 0 n in pop h2)"

text \<open>What \<open>Swap\<close> leaves alone, the algorithms leave alone.\<close>

lemma heap_up_frame:
  assumes "\<And>h i j. f (swap h i j) = f h"
  shows "f (heap_up lt swap h j) = f h"
proof (induction j arbitrary: h rule: less_induct)
  case (less j)
  show ?case
    using less [of "(j - 1) div 2" "swap h ((j - 1) div 2) j"] assms
    by (subst heap_up.simps) (auto simp: Let_def)
qed

lemma heap_down_loop_frame:
  assumes "\<And>h i j. f (swap h i j) = f h"
  shows "f (fst (heap_down_loop lt swap h i n)) = f h"
proof (induction "n - i" arbitrary: h i rule: less_induct)
  case less
  show ?case
    using less assms by (subst heap_down_loop.simps) (auto simp: Let_def)
qed

lemma heap_Fix_frame:
  assumes "\<And>h i j. f (swap h i j) = f h"
  shows "f (heap_Fix len lt swap h i) = f h"
  using heap_down_loop_frame [of f swap lt h i "len h", OF assms] heap_up_frame [of f swap, OF assms]
  by (auto simp: heap_Fix_def heap_down_def Let_def split: prod.splits)

section \<open>Heap order on lists\<close>

definition child :: "nat \<Rightarrow> nat \<Rightarrow> bool" where
  "child p k \<longleftrightarrow> k = 2 * p + 1 \<or> k = 2 * p + 2"

definition heap_upto :: "('e \<Rightarrow> 'k :: linorder) \<Rightarrow> nat \<Rightarrow> 'e list \<Rightarrow> bool" where
  "heap_upto rank n xs \<longleftrightarrow> (\<forall>p k. child p k \<and> k < n \<longrightarrow> rank (xs ! p) \<le> rank (xs ! k))"

text \<open>Heap order everywhere but around position \<open>i\<close>, whose parent is still below its children.\<close>

definition heap_except :: "('e \<Rightarrow> 'k :: linorder) \<Rightarrow> nat \<Rightarrow> 'e list \<Rightarrow> nat \<Rightarrow> bool" where
  "heap_except rank n xs i \<longleftrightarrow>
     (\<forall>p k. child p k \<and> k < n \<and> p \<noteq> i \<and> k \<noteq> i \<longrightarrow> rank (xs ! p) \<le> rank (xs ! k)) \<and>
     (\<forall>p c. child p i \<and> child i c \<and> c < n \<longrightarrow> rank (xs ! p) \<le> rank (xs ! c))"

definition parent_edge :: "('e \<Rightarrow> 'k :: linorder) \<Rightarrow> 'e list \<Rightarrow> nat \<Rightarrow> bool" where
  "parent_edge rank xs i \<longleftrightarrow> (\<forall>p. child p i \<longrightarrow> rank (xs ! p) \<le> rank (xs ! i))"

definition child_edges :: "('e \<Rightarrow> 'k :: linorder) \<Rightarrow> nat \<Rightarrow> 'e list \<Rightarrow> nat \<Rightarrow> bool" where
  "child_edges rank n xs i \<longleftrightarrow> (\<forall>c. child i c \<and> c < n \<longrightarrow> rank (xs ! i) \<le> rank (xs ! c))"

definition exchange :: "'e list \<Rightarrow> nat \<Rightarrow> nat \<Rightarrow> 'e list" where
  "exchange xs i j = xs[i := xs ! j, j := xs ! i]"

lemma length_exchange [simp]: "length (exchange xs i j) = length xs"
  by (simp add: exchange_def)

lemma exchange_nth:
  "i < length xs \<Longrightarrow> j < length xs \<Longrightarrow>
   exchange xs i j ! k = (if k = i then xs ! j else if k = j then xs ! i else xs ! k)"
  by (auto simp: exchange_def nth_list_update)

lemma mset_exchange [simp]:
  "i < length xs \<Longrightarrow> j < length xs \<Longrightarrow> mset (exchange xs i j) = mset xs"
  unfolding exchange_def by (simp add: mset_swap list_update_swap [of i j] flip: list_update_swap)

lemma child_less: "child p k \<Longrightarrow> p < k"
  by (auto simp: child_def)

lemma child_parent: "child p k \<Longrightarrow> (k - 1) div 2 = p"
  by (auto simp: child_def)

lemma parent_child: "0 < k \<Longrightarrow> child ((k - 1) div 2) k"
proof -
  assume "0 < k"
  then have "k = 2 * ((k - 1) div 2) + 1 \<or> k = 2 * ((k - 1) div 2) + 2" by presburger
  then show ?thesis unfolding child_def .
qed

lemma child_unique: "child p k \<Longrightarrow> child q k \<Longrightarrow> p = q"
  using child_parent by blast

lemma heap_upto_intro:
  "heap_except rank n xs i \<Longrightarrow> parent_edge rank xs i \<Longrightarrow> child_edges rank n xs i \<Longrightarrow> heap_upto rank n xs"
  unfolding heap_upto_def heap_except_def parent_edge_def child_edges_def by metis

lemma heap_except_update: "heap_upto rank n xs \<Longrightarrow> heap_except rank n (xs[i := e]) i"
  unfolding heap_upto_def heap_except_def
  by (metis child_less nat_neq_iff nth_list_update_neq less_trans order_trans)

lemma heap_upto_take: "heap_upto rank n xs \<Longrightarrow> heap_upto rank n (take n xs)"
  unfolding heap_upto_def by (metis child_less less_trans nth_take)

lemma heap_upto_root:
  assumes "heap_upto rank n xs" and "k < n"
  shows "rank (xs ! 0) \<le> rank (xs ! k)"
  using assms(2)
proof (induction k rule: less_induct)
  case (less k)
  show ?case
  proof (cases "k = 0")
    case False
    then have c: "child ((k - 1) div 2) k" using parent_child by blast
    then have "rank (xs ! 0) \<le> rank (xs ! ((k - 1) div 2))"
      using less child_less by (meson less_trans)
    also have "\<dots> \<le> rank (xs ! k)" using assms(1) c less.prems by (auto simp: heap_upto_def)
    finally show ?thesis .
  qed simp
qed

lemma exchange_down:
  assumes "heap_except rank n xs i" and "child i j" and "j < n" and "n \<le> length xs"
    and "rank (xs ! j) < rank (xs ! i)"
    and "\<forall>c. child i c \<and> c < n \<longrightarrow> rank (xs ! j) \<le> rank (xs ! c)"
  shows "heap_except rank n (exchange xs i j) j \<and> parent_edge rank (exchange xs i j) j"
proof -
  have ij: "i < j" "i < length xs" "j < length xs" using assms child_less by fastforce+
  note nth = exchange_nth [OF ij(2,3)]
  have "rank (exchange xs i j ! p) \<le> rank (exchange xs i j ! k)"
    if "child p k" "k < n" "p \<noteq> j" "k \<noteq> j" for p k
    using that assms ij child_less [of p k] unfolding nth heap_except_def by auto
  moreover have "rank (exchange xs i j ! p) \<le> rank (exchange xs i j ! c)"
    if "child p j" "child j c" "c < n" for p c
  proof -
    have "p = i" using that(1) assms(2) by (rule child_unique)
    then show ?thesis using that assms ij child_less [of j c] unfolding nth heap_except_def by auto
  qed
  moreover have "rank (exchange xs i j ! p) \<le> rank (exchange xs i j ! j)" if "child p j" for p
  proof -
    have "p = i" using that assms(2) by (rule child_unique)
    then show ?thesis using assms ij unfolding nth by simp
  qed
  ultimately show ?thesis by (auto simp: heap_except_def parent_edge_def)
qed

lemma exchange_up:
  assumes "heap_except rank n xs j" and "child_edges rank n xs j" and "child i j" and "j < n"
    and "n \<le> length xs" and "rank (xs ! j) < rank (xs ! i)"
  shows "heap_except rank n (exchange xs i j) i \<and> child_edges rank n (exchange xs i j) i"
proof -
  have ij: "i < j" "i < length xs" "j < length xs" using assms child_less by fastforce+
  note nth = exchange_nth [OF ij(2,3)]
  have i_below: "rank (xs ! i) \<le> rank (xs ! k)" if "child i k" "k < n" "k \<noteq> j" for k
    using that assms ij by (auto simp: heap_except_def)
  have "rank (exchange xs i j ! p) \<le> rank (exchange xs i j ! k)"
    if "child p k" "k < n" "p \<noteq> i" "k \<noteq> i" for p k
    using that assms ij child_less [of p k] child_unique [of p k i] unfolding nth heap_except_def by auto
  moreover have "rank (exchange xs i j ! p) \<le> rank (exchange xs i j ! c)"
    if "child p i" "child i c" "c < n" for p c
  proof -
    have "rank (xs ! p) \<le> rank (xs ! i)"
      using that assms ij child_less [of p i] by (auto simp: heap_except_def)
    then show ?thesis using that assms ij i_below [of c] child_less [of p i] child_less [of i c]
      unfolding nth by (auto intro: order_trans)
  qed
  moreover have "rank (exchange xs i j ! i) \<le> rank (exchange xs i j ! c)" if "child i c" "c < n" for c
    using that assms ij i_below [of c] child_less [of i c] unfolding nth by auto
  ultimately show ?thesis by (auto simp: heap_except_def child_edges_def)
qed

section \<open>Interface: an implementation of \<open>heap.Interface\<close>\<close>

text \<open>
  The array an implementation presents (\<open>elems\<close>, everything of an item but its position), the
  key \<open>Less\<close> compares (\<open>rank\<close>), and a representation invariant \<open>wf\<close> that \<open>Swap\<close> keeps.
\<close>

locale heap_interface =
  fixes len :: "'h \<Rightarrow> nat"
    and lt :: "'h \<Rightarrow> nat \<Rightarrow> nat \<Rightarrow> bool"
    and swap :: "'h \<Rightarrow> nat \<Rightarrow> nat \<Rightarrow> 'h"
    and wf :: "'h \<Rightarrow> bool"
    and elems :: "'h \<Rightarrow> 'e list"
    and rank :: "'e \<Rightarrow> 'k :: linorder"
  assumes len_elems: "wf h \<Longrightarrow> len h = length (elems h)"
    and lt_rank: "wf h \<Longrightarrow> i < len h \<Longrightarrow> j < len h \<Longrightarrow>
      lt h i j \<longleftrightarrow> rank (elems h ! i) < rank (elems h ! j)"
    and swap_elems: "wf h \<Longrightarrow> i < len h \<Longrightarrow> j < len h \<Longrightarrow> elems (swap h i j) = exchange (elems h) i j"
    and swap_wf: "wf h \<Longrightarrow> i < len h \<Longrightarrow> j < len h \<Longrightarrow> wf (swap h i j)"
begin

lemma swap_len: "wf h \<Longrightarrow> i < len h \<Longrightarrow> j < len h \<Longrightarrow> len (swap h i j) = len h"
  by (simp add: len_elems swap_elems swap_wf)

lemma up_heap:
  assumes "wf h" and "j < len h"
    and "heap_except rank (len h) (elems h) j" and "child_edges rank (len h) (elems h) j"
  shows "wf (heap_up lt swap h j) \<and> mset (elems (heap_up lt swap h j)) = mset (elems h) \<and>
    heap_upto rank (len h) (elems (heap_up lt swap h j))"
  using assms
proof (induction j arbitrary: h rule: less_induct)
  case (less j)
  let ?i = "(j - 1) div 2"
  show ?case
  proof (cases "?i = j \<or> \<not> lt h j ?i")
    case True
    have "parent_edge rank (elems h) j"
      unfolding parent_edge_def
    proof (intro allI impI)
      fix p assume p: "child p j"
      then have "?i = p" "p < j" using child_parent child_less by blast+
      then show "rank (elems h ! p) \<le> rank (elems h ! j)"
        using True less.prems lt_rank [of h j p] by auto
    qed
    then have "heap_upto rank (len h) (elems h)" using less.prems heap_upto_intro by blast
    then show ?thesis using True less.prems by (simp add: heap_up.simps [of lt swap h j])
  next
    case False
    then have "0 < j" by (cases j) simp_all
    then have c: "child ?i j" "?i < j" using parent_child [of j] child_less by blast+
    then have lens: "?i < len h" "j < len h" using less.prems by auto
    let ?h = "swap h ?i j"
    have h: "wf ?h" "len ?h = len h" "elems ?h = exchange (elems h) ?i j"
      using less.prems lens by (simp_all add: swap_wf swap_len swap_elems)
    have "rank (elems h ! j) < rank (elems h ! ?i)" using False less.prems lens lt_rank by blast
    then have "heap_except rank (len h) (elems ?h) ?i \<and> child_edges rank (len h) (elems ?h) ?i"
      unfolding h using less.prems c by (intro exchange_up) (simp_all add: len_elems)
    with less.IH [of ?i ?h] c lens h have
      "wf (heap_up lt swap ?h ?i)" "mset (elems (heap_up lt swap ?h ?i)) = mset (elems ?h)"
      "heap_upto rank (len h) (elems (heap_up lt swap ?h ?i))" by simp_all
    moreover have "mset (elems ?h) = mset (elems h)"
      unfolding h using lens less.prems by (simp add: len_elems)
    moreover have "heap_up lt swap h j = heap_up lt swap ?h ?i"
      using False by (subst heap_up.simps) (simp add: Let_def)
    ultimately show ?thesis by simp
  qed
qed

text \<open>One iteration of \<open>down\<close>: it stops with the children in order, or exchanges with the smaller child.\<close>

lemma down_cases:
  assumes "wf h" and "n \<le> len h" and "i < n" and "heap_except rank n (elems h) i"
  obtains (stop) "heap_down_loop lt swap h i n = (h, i)" "child_edges rank n (elems h) i"
  | (move) j where "i < j" "j < n" "wf (swap h i j)" "len (swap h i j) = len h"
      "elems (swap h i j) = exchange (elems h) i j"
      "heap_down_loop lt swap h i n = heap_down_loop lt swap (swap h i j) j n"
      "heap_except rank n (elems (swap h i j)) j" "parent_edge rank (elems (swap h i j)) j"
proof (cases "2 * i + 1 \<ge> n")
  case True
  then show ?thesis
    by (intro stop) (auto simp: heap_down_loop.simps [of lt swap h i n] child_edges_def child_def)
next
  case False
  define j where "j = (if 2 * i + 1 + 1 < n \<and> lt h (2 * i + 1 + 1) (2 * i + 1) then 2 * i + 1 + 1 else 2 * i + 1)"
  have j: "child i j" "j < n" "i < j" using False by (auto simp: j_def child_def)
  have min: "rank (elems h ! j) \<le> rank (elems h ! c)" if "child i c" "c < n" for c
    using that False assms(1,2) lt_rank [OF assms(1), of "2 * i + 1 + 1" "2 * i + 1"]
    by (auto simp: j_def child_def)
  have ji: "lt h j i \<longleftrightarrow> rank (elems h ! j) < rank (elems h ! i)"
    using assms j by (intro lt_rank) auto
  have unfold: "heap_down_loop lt swap h i n =
      (if \<not> lt h j i then (h, i) else heap_down_loop lt swap (swap h i j) j n)"
    using False by (subst heap_down_loop.simps) (simp add: Let_def j_def)
  show ?thesis
  proof (cases "lt h j i")
    case True
    then have "heap_except rank n (exchange (elems h) i j) j \<and> parent_edge rank (exchange (elems h) i j) j"
      using assms j ji min by (intro exchange_down) (auto simp: len_elems)
    then show ?thesis using True unfold j assms
      by (intro move [of j]) (simp_all add: swap_wf swap_elems swap_len)
  next
    case stopped: False
    have "child_edges rank n (elems h) i"
      unfolding child_edges_def using stopped ji min by (meson not_less order_trans)
    then show ?thesis using stopped unfold by (intro stop) simp_all
  qed
qed

lemma down_frame:
  assumes "wf h" and "n \<le> len h" and "i < n" and "heap_except rank n (elems h) i"
  shows "wf (fst (heap_down_loop lt swap h i n)) \<and>
    mset (elems (fst (heap_down_loop lt swap h i n))) = mset (elems h) \<and>
    (\<forall>k \<ge> n. elems (fst (heap_down_loop lt swap h i n)) ! k = elems h ! k) \<and>
    i \<le> snd (heap_down_loop lt swap h i n) \<and>
    (i = snd (heap_down_loop lt swap h i n) \<longrightarrow>
       fst (heap_down_loop lt swap h i n) = h \<and> child_edges rank n (elems h) i) \<and>
    (i < snd (heap_down_loop lt swap h i n) \<or> parent_edge rank (elems h) i \<longrightarrow>
       heap_upto rank n (elems (fst (heap_down_loop lt swap h i n))))"
  using assms
proof (induction "n - i" arbitrary: h i rule: less_induct)
  case less
  from less.prems show ?case
  proof (cases rule: down_cases)
    case stop
    then show ?thesis using less.prems heap_upto_intro by fastforce
  next
    case (move j)
    have bounds: "i < length (elems h)" "j < length (elems h)"
      using less.prems move by (simp_all add: len_elems [symmetric])
    have "n - j < n - i" using move by linarith
    note IH = less.hyps [OF this move(3) _ move(2) move(7)]
    have "mset (elems (swap h i j)) = mset (elems h)" unfolding move(5) using bounds by simp
    moreover have "elems (swap h i j) ! k = elems h ! k" if "k \<ge> n" for k
      unfolding move(5) exchange_nth [OF bounds] using that move less.prems by auto
    ultimately show ?thesis using IH move less.prems by simp
  qed
qed

lemma Fix_heap:
  assumes "wf h" and "i < len h" and "heap_except rank (len h) (elems h) i"
  shows "wf (heap_Fix len lt swap h i) \<and> mset (elems (heap_Fix len lt swap h i)) = mset (elems h) \<and>
    heap_upto rank (len h) (elems (heap_Fix len lt swap h i))"
proof -
  obtain h' k where hk: "heap_down_loop lt swap h i (len h) = (h', k)" by fastforce
  note down = down_frame [OF assms(1) order_refl assms(2,3), unfolded hk fst_conv snd_conv]
  show ?thesis
  proof (cases "i < k")
    case True
    then show ?thesis using down hk by (simp add: heap_Fix_def heap_down_def)
  next
    case False
    then have "i = k" "h' = h" "child_edges rank (len h) (elems h) i" using down by auto
    then show ?thesis using hk up_heap [OF assms(1,2,3)] by (simp add: heap_Fix_def heap_down_def)
  qed
qed

lemma Push_heap:
  assumes "heap_upto rank (len h) (elems h)" and "wf h" and "wf (push h x)"
    and "elems (push h x) = elems h @ [e]"
  shows "wf (heap_Push len lt swap push h x) \<and>
    mset (elems (heap_Push len lt swap push h x)) = add_mset e (mset (elems h)) \<and>
    heap_upto rank (Suc (len h)) (elems (heap_Push len lt swap push h x))"
proof -
  let ?h = "push h x" and ?n = "len h"
  have n: "len ?h = Suc ?n" using assms by (simp add: len_elems)
  have order: "rank (elems ?h ! p) \<le> rank (elems ?h ! k)" if "child p k" "k < ?n" for p k
    using that assms(1,2,4) child_less [of p k] by (auto simp: heap_upto_def nth_append len_elems)
  have "heap_except rank (len ?h) (elems ?h) ?n"
    unfolding heap_except_def n
  proof (intro conjI allI impI)
    fix p k assume "child p k \<and> k < Suc ?n \<and> p \<noteq> ?n \<and> k \<noteq> ?n"
    then show "rank (elems ?h ! p) \<le> rank (elems ?h ! k)" using order by simp
  next
    fix p c assume "child p ?n \<and> child ?n c \<and> c < Suc ?n"
    then show "rank (elems ?h ! p) \<le> rank (elems ?h ! c)" using child_less [of ?n c] by auto
  qed
  moreover have "child_edges rank (len ?h) (elems ?h) ?n"
    using n child_less [of ?n] by (fastforce simp: child_edges_def)
  ultimately show ?thesis
    using up_heap [OF assms(3), of ?n] n assms(4) by (simp add: heap_Push_def Let_def)
qed

lemma Pop_heap:
  assumes "wf h" and "heap_upto rank (len h) (elems h)" and "0 < len h"
  obtains h' xs where "heap_Pop len lt swap pop h = pop h'" "wf h'"
    "elems h' = xs @ [elems h ! 0]" "mset xs = mset (elems h) - {#elems h ! 0#}"
    "heap_upto rank (len h - 1) xs"
    "h' = fst (heap_down_loop lt swap (swap h 0 (len h - 1)) 0 (len h - 1))"
proof -
  let ?n = "len h - 1"
  let ?h = "swap h 0 ?n"
  let ?d = "fst (heap_down_loop lt swap ?h 0 ?n)"
  have h: "wf ?h" "len ?h = len h" "elems ?h = exchange (elems h) 0 ?n"
    using assms by (simp_all add: swap_wf swap_len swap_elems)
  have bounds: "0 < length (elems h)" "?n < length (elems h)" using assms by (simp_all add: len_elems)
  have ex: "heap_except rank ?n (elems ?h) 0"
    unfolding heap_except_def h exchange_nth [OF bounds]
    using assms(2) by (auto simp: heap_upto_def child_def)
  have d: "wf ?d \<and> mset (elems ?d) = mset (elems ?h) \<and> (\<forall>k \<ge> ?n. elems ?d ! k = elems ?h ! k) \<and>
      heap_upto rank ?n (elems ?d)"
  proof (cases "0 < ?n")
    case True
    then show ?thesis using down_frame [OF h(1) _ _ ex] h(2) by (auto simp: parent_edge_def child_def)
  next
    case False
    then have "heap_down_loop lt swap ?h 0 ?n = (?h, 0)" by (subst heap_down_loop.simps) simp
    then show ?thesis using h(1) False by (simp add: heap_upto_def)
  qed
  have last: "elems ?d ! ?n = elems h ! 0"
    using d unfolding h(3) exchange_nth [OF bounds] by auto
  have len: "length (elems ?d) = Suc ?n"
    using d h(3) assms by (metis len_elems length_exchange size_mset Suc_diff_1)
  then have split: "elems ?d = take ?n (elems ?d) @ [elems h ! 0]"
    using last by (metis lessI order_refl take_Suc_conv_app_nth take_all)
  have "mset (elems ?d) = mset (elems h)" using d h(3) bounds by simp
  then have "mset (take ?n (elems ?d)) = mset (elems h) - {#elems h ! 0#}"
    using split by (metis add_diff_cancel_right' mset_append mset.simps)
  moreover have "heap_upto rank ?n (take ?n (elems ?d))"
    using d heap_upto_take by blast
  moreover have "heap_Pop len lt swap pop h = pop ?d"
    by (simp add: heap_Pop_def heap_down_def Let_def split: prod.splits)
  ultimately show ?thesis using d split by (intro that) auto
qed

end

end
