(* ===== verification/Priority_Queue.thy ===== *)
theory Priority_Queue
  imports Go_Heap Addressing "HOL-Library.Product_Lexorder"
begin

text \<open>
  The send queue of the bus, \<open>protocol/queue.go\<close>, on Go's binary heap: items live in a store and
  the heap array holds pointers, because \<open>pop\<close> keeps pointers to the items it promotes while
  \<open>heap.Fix\<close> moves them.  The contract (a multiset of waiting requests) is a locale; the bound on
  how long a request can wait is proved in it and carried to the heap by interpretation.
\<close>

section \<open>Data\<close>

text \<open>
  \<open>busRequest\<close> of \<open>protocol/bus.go\<close>; contexts and transport operations are values the queue
  never looks into, and a reply channel is known by a number.
\<close>

record ('ctx, 'op) bus_request =
  br_frame :: frame
  br_ctx :: 'ctx
  br_resp :: nat
  br_transportOp :: "'op option"
  br_transportOpStarted :: bool

record 'r queue_item =
  qi_request :: 'r
  qi_priority :: byte
  qi_seq :: "64 word"
  qi_age :: int
  qi_index :: int

record 'r priority_queue =
  pq_items :: "nat list"
  pq_seq :: "64 word"
  pq_store :: "nat \<rightharpoonup> 'r queue_item"
  pq_next :: nat

definition starvationThreshold :: int where "starvationThreshold = 8"
definition transportOpPriority :: byte where "transportOpPriority = 0x80"

definition deref :: "'r priority_queue \<Rightarrow> nat \<Rightarrow> 'r queue_item" where
  "deref q p = the (pq_store q p)"

definition assign :: "'r priority_queue \<Rightarrow> nat \<Rightarrow> 'r queue_item \<Rightarrow> 'r priority_queue" where
  "assign q p it = q\<lparr>pq_store := (pq_store q)(p \<mapsto> it)\<rparr>"

section \<open>The heap interface of the queue\<close>

definition pq_Len :: "'r priority_queue \<Rightarrow> nat" where
  "pq_Len q = length (pq_items q)"

definition pq_Less :: "'r priority_queue \<Rightarrow> nat \<Rightarrow> nat \<Rightarrow> bool" where
  "pq_Less q i j =
     (let a = deref q (pq_items q ! i); b = deref q (pq_items q ! j) in
      if qi_priority a = qi_priority b then qi_seq a < qi_seq b
      else qi_priority a < qi_priority b)"

definition set_index :: "'r priority_queue \<Rightarrow> nat \<Rightarrow> int \<Rightarrow> 'r priority_queue" where
  "set_index q p k = assign q p ((deref q p)\<lparr>qi_index := k\<rparr>)"

definition pq_Swap :: "'r priority_queue \<Rightarrow> nat \<Rightarrow> nat \<Rightarrow> 'r priority_queue" where
  "pq_Swap q i j =
     (let q1 = q\<lparr>pq_items := (pq_items q)[i := pq_items q ! j, j := pq_items q ! i]\<rparr>;
          q2 = set_index q1 (pq_items q1 ! i) (int i)
      in set_index q2 (pq_items q2 ! j) (int j))"

definition pq_Push :: "'r priority_queue \<Rightarrow> nat \<Rightarrow> 'r priority_queue" where
  "pq_Push q p =
     (let q1 = set_index q p (int (length (pq_items q))) in q1\<lparr>pq_items := pq_items q1 @ [p]\<rparr>)"

definition pq_Pop :: "'r priority_queue \<Rightarrow> 'r priority_queue \<times> nat" where
  "pq_Pop q =
     (let n = length (pq_items q); p = pq_items q ! (n - 1); q1 = set_index q p (-1)
      in (q1\<lparr>pq_items := take (n - 1) (pq_items q1)\<rparr>, p))"

section \<open>Operations of the queue\<close>

definition empty_priority_queue :: "'r priority_queue" where
  "empty_priority_queue = \<lparr>pq_items = [], pq_seq = 0, pq_store = Map.empty, pq_next = 0\<rparr>"

definition newPriorityQueue :: "'r priority_queue" where
  "newPriorityQueue = heap_Init pq_Len pq_Less pq_Swap empty_priority_queue"

definition request_priority :: "('ctx, 'op) bus_request \<Rightarrow> byte" where
  "request_priority request =
     (if br_transportOp request \<noteq> None then transportOpPriority else Source (br_frame request))"

definition pq_push ::
  "('ctx, 'op) bus_request priority_queue \<Rightarrow> ('ctx, 'op) bus_request \<Rightarrow> ('ctx, 'op) bus_request priority_queue" where
  "pq_push q request =
     (let item = \<lparr>qi_request = request, qi_priority = request_priority request, qi_seq = pq_seq q,
                  qi_age = 0, qi_index = 0\<rparr>;
          p = pq_next q;
          q1 = (assign q p item)\<lparr>pq_next := p + 1, pq_seq := pq_seq q + 1\<rparr>
      in heap_Push pq_Len pq_Less pq_Swap pq_Push q1 p)"

text \<open>First phase of \<open>pop\<close>: one more pop of age for every item, the starved ones collected.\<close>

definition age_item :: "'r priority_queue \<times> nat list \<Rightarrow> nat \<Rightarrow> 'r priority_queue \<times> nat list" where
  "age_item = (\<lambda>(q, promoted) p.
     let it = deref q p; q' = assign q p (it\<lparr>qi_age := qi_age it + 1\<rparr>) in
     (q', if qi_age (deref q' p) \<ge> starvationThreshold \<and> qi_priority (deref q' p) > 0
          then promoted @ [p] else promoted))"

text \<open>Second phase: the promotion of one collected pointer.\<close>

definition promote_item :: "'r priority_queue \<Rightarrow> nat \<Rightarrow> 'r priority_queue" where
  "promote_item q p =
     (let q' = assign q p ((deref q p)\<lparr>qi_priority := 0\<rparr>)
      in heap_Fix pq_Len pq_Less pq_Swap q' (nat (qi_index (deref q' p))))"

definition pq_pop :: "'r priority_queue \<Rightarrow> 'r priority_queue \<times> 'r option" where
  "pq_pop q =
     (if pq_Len q = 0 then (q, None)
      else let (q1, promoted) = foldl age_item (q, []) (pq_items q);
               q2 = foldl promote_item q1 promoted;
               (q3, p) = heap_Pop pq_Len pq_Less pq_Swap pq_Pop q2
           in (q3, Some (qi_request (deref q3 p))))"

section \<open>The contract of a send queue\<close>

text \<open>
  What a waiting request is to a client: its request, current priority, arrival number and age;
  the position in the heap array is forgotten.
\<close>

definition entry_of :: "'r queue_item \<Rightarrow> 'r queue_item" where
  "entry_of it = it\<lparr>qi_index := 0\<rparr>"

definition entry_rank :: "'r queue_item \<Rightarrow> byte \<times> 64 word" where
  "entry_rank it = (qi_priority it, qi_seq it)"

text \<open>What one pop does to every waiting request: it ages, and at age eight it becomes urgent.\<close>

definition aged_entry :: "'r queue_item \<Rightarrow> 'r queue_item" where
  "aged_entry it = it\<lparr>qi_age := qi_age it + 1,
     qi_priority := (if qi_age it + 1 \<ge> 8 then 0 else qi_priority it)\<rparr>"

datatype 'r queue_op = Enqueue 'r | Dequeue

fun queue_step :: "('q \<Rightarrow> 'r \<Rightarrow> 'q) \<Rightarrow> ('q \<Rightarrow> 'q \<times> 'r option) \<Rightarrow> 'q \<Rightarrow> 'r queue_op \<Rightarrow> 'q \<times> 'r option" where
  "queue_step push pop q (Enqueue r) = (push q r, None)"
| "queue_step push pop q Dequeue = pop q"

definition dequeues :: "'r queue_op list \<Rightarrow> nat" where
  "dequeues ops = length (filter (\<lambda>op. op = Dequeue) ops)"

definition enqueues :: "'r queue_op list \<Rightarrow> nat" where
  "enqueues ops = length (filter (\<lambda>op. op \<noteq> Dequeue) ops)"

lemma dequeues_simps [simp]:
  "dequeues [] = 0" "dequeues (Dequeue # ops) = Suc (dequeues ops)" "dequeues (Enqueue r # ops) = dequeues ops"
  by (simp_all add: dequeues_def)

lemma enqueues_simps [simp]:
  "enqueues [] = 0" "enqueues (Dequeue # ops) = enqueues ops" "enqueues (Enqueue r # ops) = Suc (enqueues ops)"
  by (simp_all add: enqueues_def)

locale aging_queue =
  fixes inv :: "'q \<Rightarrow> bool"
    and entries :: "'q \<Rightarrow> 'r queue_item multiset"
    and next_seq :: "'q \<Rightarrow> 64 word"
    and push :: "'q \<Rightarrow> 'r \<Rightarrow> 'q"
    and pop :: "'q \<Rightarrow> 'q \<times> 'r option"
    and priority :: "'r \<Rightarrow> byte"
    and new :: 'q
  assumes new_inv: "inv new"
    and new_entries: "entries new = {#} \<and> next_seq new = 0"
    and push_inv: "inv q \<Longrightarrow> inv (push q r)"
    and push_entries: "inv q \<Longrightarrow> entries (push q r) =
      add_mset \<lparr>qi_request = r, qi_priority = priority r, qi_seq = next_seq q, qi_age = 0, qi_index = 0\<rparr> (entries q)"
    and push_seq: "inv q \<Longrightarrow> next_seq (push q r) = next_seq q + 1"
    and pop_inv: "inv q \<Longrightarrow> inv (fst (pop q))"
    and pop_seq: "inv q \<Longrightarrow> next_seq (fst (pop q)) = next_seq q"
    and pop_empty: "inv q \<Longrightarrow> entries q = {#} \<Longrightarrow> pop q = (q, None)"
    and pop_min: "inv q \<Longrightarrow> entries q \<noteq> {#} \<Longrightarrow> \<exists>e \<in># image_mset aged_entry (entries q).
      snd (pop q) = Some (qi_request e) \<and>
      (\<forall>x \<in># image_mset aged_entry (entries q). entry_rank e \<le> entry_rank x) \<and>
      entries (fst (pop q)) = image_mset aged_entry (entries q) - {#e#}"
begin

text \<open>While fewer than 2^64 requests have arrived, arrival numbers identify requests.\<close>

definition numbered :: "'q \<Rightarrow> bool" where
  "numbered q \<longleftrightarrow> inv q \<and> (\<forall>x \<in># entries q. qi_seq x < next_seq q \<and> 0 \<le> qi_age x) \<and>
     (\<forall>x \<in># entries q. \<forall>y \<in># entries q. qi_seq x = qi_seq y \<longrightarrow> x = y)"

lemma numbered_new: "numbered new"
  by (simp add: numbered_def new_inv new_entries)

lemma numbered_push:
  assumes "numbered q" and "unat (next_seq q) + 1 < 2 ^ 64"
  shows "numbered (push q r) \<and> unat (next_seq (push q r)) = unat (next_seq q) + 1"
proof -
  have inv: "inv q" using assms(1) by (simp add: numbered_def)
  have u: "unat (next_seq q + 1) = unat (next_seq q) + 1"
    using assms(2) by (simp add: unat_word_ariths)
  then have "next_seq q < next_seq q + 1" by (simp add: word_less_nat_alt)
  then have "qi_seq x < next_seq q + 1" if "qi_seq x < next_seq q" for x :: "'r queue_item"
    using that by (rule less_trans [rotated])
  with \<open>next_seq q < next_seq q + 1\<close> u assms(1) show ?thesis
    unfolding numbered_def push_entries [OF inv] push_seq [OF inv]
    by (auto simp: push_inv inv)
qed

lemma numbered_pop: "numbered q \<Longrightarrow> numbered (fst (pop q))"
proof -
  assume n: "numbered q"
  then have inv: "inv q" by (simp add: numbered_def)
  show ?thesis
  proof (cases "entries q = {#}")
    case True
    then show ?thesis using n inv by (simp add: pop_empty)
  next
    case False
    then obtain e where "entries (fst (pop q)) = image_mset aged_entry (entries q) - {#e#}"
      using pop_min [OF inv] by blast
    then have "set_mset (entries (fst (pop q))) \<subseteq> aged_entry ` set_mset (entries q)"
      by (metis set_image_mset diff_subset_eq_self set_mset_mono)
    moreover have "\<forall>x \<in> aged_entry ` set_mset (entries q). qi_seq x < next_seq q \<and> 0 \<le> qi_age x"
      using n by (auto simp: numbered_def aged_entry_def)
    moreover have "\<forall>x \<in> aged_entry ` set_mset (entries q). \<forall>y \<in> aged_entry ` set_mset (entries q).
        qi_seq x = qi_seq y \<longrightarrow> x = y"
      using n by (auto simp: numbered_def aged_entry_def)
    ultimately show ?thesis
      unfolding numbered_def pop_seq [OF inv] using pop_inv [OF inv] by blast
  qed
qed

text \<open>The requests that arrived no later than number \<open>s\<close>.\<close>

definition ahead :: "64 word \<Rightarrow> 'q \<Rightarrow> nat" where
  "ahead s q = size {#x \<in># entries q. qi_seq x \<le> s#}"

lemma ahead_push: "numbered q \<Longrightarrow> x \<in># entries q \<Longrightarrow> ahead (qi_seq x) (push q r) = ahead (qi_seq x) q"
  by (auto simp: ahead_def numbered_def push_entries)

lemma size_filter_aged:
  "size {#x \<in># image_mset aged_entry M. qi_seq x \<le> s#} = size {#x \<in># M. qi_seq x \<le> s#}"
  by (induction M) (auto simp: aged_entry_def)

text \<open>One pop: the request itself leaves, or it is one older and, once starved, has one fewer ahead.\<close>

lemma pop_progress:
  assumes "numbered q" and "x \<in># entries q"
  shows "snd (pop q) = Some (qi_request x) \<or>
    (aged_entry x \<in># entries (fst (pop q)) \<and> ahead (qi_seq x) (fst (pop q)) \<le> ahead (qi_seq x) q \<and>
     (qi_age x \<ge> 7 \<longrightarrow> Suc (ahead (qi_seq x) (fst (pop q))) = ahead (qi_seq x) q))"
proof -
  let ?M = "image_mset aged_entry (entries q)" and ?x = "aged_entry x"
  have inv: "inv q" using assms(1) by (simp add: numbered_def)
  have "entries q \<noteq> {#}" using assms(2) by auto
  from pop_min [OF inv this] obtain e where e: "e \<in># ?M" "snd (pop q) = Some (qi_request e)"
    "\<forall>y \<in># ?M. entry_rank e \<le> entry_rank y" "entries (fst (pop q)) = ?M - {#e#}" by blast
  have x: "?x \<in># ?M" using assms(2) by simp
  show ?thesis
  proof (cases "e = ?x")
    case True
    then show ?thesis using e(2) by (simp add: aged_entry_def)
  next
    case False
    have left: "?x \<in># entries (fst (pop q))" unfolding e(4) using x False by (simp add: in_diff_count)
    have sub: "ahead (qi_seq x) (fst (pop q)) + (if qi_seq e \<le> qi_seq x then 1 else 0) = ahead (qi_seq x) q"
    proof -
      have "?M = add_mset e (entries (fst (pop q)))" unfolding e(4) using e(1) by simp
      then have "size {#y \<in># ?M. qi_seq y \<le> qi_seq x#} =
          ahead (qi_seq x) (fst (pop q)) + (if qi_seq e \<le> qi_seq x then 1 else 0)"
        by (simp add: ahead_def)
      then show ?thesis by (simp add: size_filter_aged ahead_def)
    qed
    have "qi_seq e \<le> qi_seq x" if "qi_age x \<ge> 7"
    proof -
      have "entry_rank ?x = (0, qi_seq x)" using that by (simp add: entry_rank_def aged_entry_def)
      moreover have "entry_rank e \<le> entry_rank ?x" using e(3) x by blast
      ultimately show ?thesis by (auto simp: entry_rank_def)
    qed
    then show ?thesis using left sub by auto
  qed
qed

lemma bounded_wait:
  assumes "numbered q" and "x \<in># entries q" and "unat (next_seq q) + enqueues ops < 2 ^ 64"
    and "(7 - nat (qi_age x)) + ahead (qi_seq x) q \<le> dequeues ops"
  shows "Some (qi_request x) \<in> set (run_out (queue_step push pop) q ops)"
  using assms
proof (induction ops arbitrary: q x)
  case Nil
  then have "{#y \<in># entries q. qi_seq y \<le> qi_seq x#} = {#}" by (simp add: ahead_def)
  with Nil.prems(2) show ?case by (auto simp: filter_mset_eq_conv dest!: multi_member_split)
next
  case (Cons op ops)
  show ?case
  proof (cases op)
    case (Enqueue r)
    have u: "numbered (push q r)" "unat (next_seq (push q r)) = unat (next_seq q) + 1"
      using numbered_push [OF Cons.prems(1), of r] Cons.prems(3) Enqueue by auto
    have "x \<in># entries (push q r)"
      using Cons.prems(1,2) by (simp add: numbered_def push_entries)
    moreover have "ahead (qi_seq x) (push q r) = ahead (qi_seq x) q"
      using Cons.prems by (intro ahead_push)
    ultimately have "Some (qi_request x) \<in> set (run_out (queue_step push pop) (push q r) ops)"
      using Cons.prems u Enqueue by (intro Cons.IH) auto
    then show ?thesis using Enqueue by simp
  next
    case Dequeue
    have inv: "inv q" using Cons.prems(1) by (simp add: numbered_def)
    consider "snd (pop q) = Some (qi_request x)"
      | "aged_entry x \<in># entries (fst (pop q))" "ahead (qi_seq x) (fst (pop q)) \<le> ahead (qi_seq x) q"
        "qi_age x \<ge> 7 \<longrightarrow> Suc (ahead (qi_seq x) (fst (pop q))) = ahead (qi_seq x) q"
      using pop_progress [OF Cons.prems(1,2)] by blast
    then show ?thesis
    proof cases
      case 1
      then show ?thesis using Dequeue by simp
    next
      case 2
      have "0 \<le> qi_age x" using Cons.prems(1,2) by (simp add: numbered_def)
      then have "(7 - nat (qi_age (aged_entry x))) + ahead (qi_seq (aged_entry x)) (fst (pop q)) \<le> dequeues ops"
        using Cons.prems(4) 2 Dequeue by (auto simp: aged_entry_def)
      then have "Some (qi_request (aged_entry x)) \<in> set (run_out (queue_step push pop) (fst (pop q)) ops)"
        using Cons.prems numbered_pop 2(1) Dequeue pop_seq [OF inv] by (intro Cons.IH) auto
      then show ?thesis using Dequeue by (simp add: aged_entry_def)
    qed
  qed
qed

lemma numbered_run:
  "numbered q \<Longrightarrow> unat (next_seq q) + enqueues ops < 2 ^ 64 \<Longrightarrow>
   numbered (run_state (queue_step push pop) q ops) \<and>
   unat (next_seq (run_state (queue_step push pop) q ops)) = unat (next_seq q) + enqueues ops"
proof (induction ops arbitrary: q)
  case (Cons op ops)
  show ?case
  proof (cases op)
    case (Enqueue r)
    then show ?thesis using Cons numbered_push [OF Cons.prems(1), of r] by auto
  next
    case Dequeue
    moreover have "inv q" using Cons.prems(1) by (simp add: numbered_def)
    ultimately show ?thesis using Cons numbered_pop pop_seq by simp
  qed
qed simp

text \<open>A request that finds \<open>m\<close> others waiting leaves within \<open>m + 8\<close> pops, whatever arrives after it.\<close>

lemma pushed_is_served:
  assumes "enqueues ops + 1 + enqueues ops' < 2 ^ 64"
    and "size (entries (run_state (queue_step push pop) new ops)) + 8 \<le> dequeues ops'"
  shows "Some r \<in> set (run_out (queue_step push pop)
    (push (run_state (queue_step push pop) new ops) r) ops')"
proof -
  let ?q = "run_state (queue_step push pop) new ops"
  let ?e = "\<lparr>qi_request = r, qi_priority = priority r, qi_seq = next_seq ?q, qi_age = 0, qi_index = 0\<rparr>"
  have q: "numbered ?q" "unat (next_seq ?q) = enqueues ops"
    using numbered_run [OF numbered_new, of ops] assms(1) new_entries by auto
  then have inv: "inv ?q" by (simp add: numbered_def)
  have p: "numbered (push ?q r)" "unat (next_seq (push ?q r)) = enqueues ops + 1"
    using numbered_push [OF q(1), of r] q(2) assms(1) by auto
  have "ahead (qi_seq ?e) (push ?q r) \<le> size (entries (push ?q r))"
    by (simp add: ahead_def size_filter_mset_lesseq)
  also have "\<dots> = Suc (size (entries ?q))" by (simp add: push_entries [OF inv])
  finally have "(7 - nat (qi_age ?e)) + ahead (qi_seq ?e) (push ?q r) \<le> dequeues ops'"
    using assms(2) by simp
  then have "Some (qi_request ?e) \<in> set (run_out (queue_step push pop) (push ?q r) ops')"
    using p assms(1) by (intro bounded_wait) (simp_all add: push_entries [OF inv])
  then show ?thesis by simp
qed

end

section \<open>The representation invariant\<close>

definition pq_wf :: "'r priority_queue \<Rightarrow> bool" where
  "pq_wf q \<longleftrightarrow> distinct (pq_items q) \<and>
     (\<forall>p \<in> set (pq_items q). p < pq_next q) \<and>
     (\<forall>i < length (pq_items q). qi_index (deref q (pq_items q ! i)) = int i)"

definition pq_elems :: "'r priority_queue \<Rightarrow> (nat \<times> 'r queue_item) list" where
  "pq_elems q = map (\<lambda>p. (p, entry_of (deref q p))) (pq_items q)"

definition elem_rank :: "nat \<times> 'r queue_item \<Rightarrow> byte \<times> 64 word" where
  "elem_rank x = entry_rank (snd x)"

definition pq_inv :: "'r priority_queue \<Rightarrow> bool" where
  "pq_inv q \<longleftrightarrow> pq_wf q \<and> heap_upto elem_rank (pq_Len q) (pq_elems q)"

definition pq_entries :: "'r priority_queue \<Rightarrow> 'r queue_item multiset" where
  "pq_entries q = image_mset snd (mset (pq_elems q))"

lemma deref_assign [simp]: "deref (assign q p it) x = (if x = p then it else deref q x)"
  by (simp add: deref_def assign_def)

lemma assign_simps [simp]:
  "pq_items (assign q p it) = pq_items q" "pq_next (assign q p it) = pq_next q"
  "pq_seq (assign q p it) = pq_seq q"
  by (simp_all add: assign_def)

lemma deref_update [simp]:
  "deref (q\<lparr>pq_items := xs\<rparr>) p = deref q p" "deref (q\<lparr>pq_next := n\<rparr>) p = deref q p"
  "deref (q\<lparr>pq_seq := s\<rparr>) p = deref q p"
  by (simp_all add: deref_def)

lemma length_pq_elems [simp]: "length (pq_elems q) = length (pq_items q)"
  by (simp add: pq_elems_def)

lemma entry_of_index [simp]: "entry_of (it\<lparr>qi_index := k\<rparr>) = entry_of it"
  by (simp add: entry_of_def)

lemma entry_of_fields [simp]:
  "qi_request (entry_of it) = qi_request it" "qi_priority (entry_of it) = qi_priority it"
  "qi_seq (entry_of it) = qi_seq it" "qi_age (entry_of it) = qi_age it"
  by (simp_all add: entry_of_def)

lemma entry_rank_entry_of [simp]: "entry_rank (entry_of it) = entry_rank it"
  by (simp add: entry_rank_def)

lemma pq_Swap_items: "pq_items (pq_Swap q i j) = exchange (pq_items q) i j"
  by (simp add: pq_Swap_def set_index_def Let_def exchange_def)

lemma pq_Swap_deref:
  assumes "i < length (pq_items q)" and "j < length (pq_items q)"
  shows "deref (pq_Swap q i j) p =
    (if p = pq_items q ! i then (deref q p)\<lparr>qi_index := int j\<rparr>
     else if p = pq_items q ! j then (deref q p)\<lparr>qi_index := int i\<rparr> else deref q p)"
  using assms by (auto simp: pq_Swap_def set_index_def Let_def nth_list_update)

lemma pq_Swap_elems:
  assumes "i < length (pq_items q)" and "j < length (pq_items q)"
  shows "pq_elems (pq_Swap q i j) = exchange (pq_elems q) i j"
  by (rule nth_equalityI)
    (use assms in \<open>auto simp: pq_elems_def pq_Swap_items pq_Swap_deref exchange_nth\<close>)

lemma pq_Swap_wf:
  assumes "pq_wf q" and "i < length (pq_items q)" and "j < length (pq_items q)"
  shows "pq_wf (pq_Swap q i j)"
proof -
  have "mset (exchange (pq_items q) i j) = mset (pq_items q)" using assms by simp
  then have items: "distinct (exchange (pq_items q) i j)" "set (exchange (pq_items q) i j) = set (pq_items q)"
    using assms(1) by (metis distinct_count_atmost_1 mset_eq_imp_distinct_iff pq_wf_def, metis mset_eq_setD)
  have "pq_next (pq_Swap q i j) = pq_next q" by (simp add: pq_Swap_def set_index_def Let_def)
  moreover have "qi_index (deref (pq_Swap q i j) (exchange (pq_items q) i j ! k)) = int k"
    if "k < length (pq_items q)" for k
    using assms that by (auto simp: pq_Swap_deref exchange_nth pq_wf_def nth_eq_iff_index_eq)
  ultimately show ?thesis using items assms(1) by (auto simp: pq_wf_def pq_Swap_items)
qed

interpretation pq_heap: heap_interface pq_Len pq_Less pq_Swap pq_wf pq_elems elem_rank
proof unfold_locales
  fix q :: "'r priority_queue" and i j
  show "pq_Len q = length (pq_elems q)" by (simp add: pq_Len_def)
  show "pq_Less q i j = (elem_rank (pq_elems q ! i) < elem_rank (pq_elems q ! j))"
    if "i < pq_Len q" "j < pq_Len q"
    using that by (auto simp: pq_Less_def pq_Len_def pq_elems_def elem_rank_def entry_rank_def Let_def)
  show "pq_elems (pq_Swap q i j) = exchange (pq_elems q) i j" if "i < pq_Len q" "j < pq_Len q"
    using that by (simp add: pq_Swap_elems pq_Len_def)
  show "pq_wf (pq_Swap q i j)" if "pq_wf q" "i < pq_Len q" "j < pq_Len q"
    using that by (simp add: pq_Swap_wf pq_Len_def)
qed

section \<open>Ageing and promotion\<close>

lemma pq_Swap_frame [simp]:
  "pq_seq (pq_Swap q i j) = pq_seq q" "pq_next (pq_Swap q i j) = pq_next q"
  by (simp_all add: pq_Swap_def set_index_def Let_def)

lemma foldl_age_item:
  assumes "distinct ps"
  shows "foldl age_item (q, promoted) ps =
    (foldl (\<lambda>q p. assign q p ((deref q p)\<lparr>qi_age := qi_age (deref q p) + 1\<rparr>)) q ps,
     promoted @ filter (\<lambda>p. qi_age (deref q p) + 1 \<ge> 8 \<and> qi_priority (deref q p) > 0) ps)"
  using assms
proof (induction ps arbitrary: q promoted)
  case (Cons p ps)
  have same: "filter (\<lambda>x. qi_age (deref (assign q p it) x) + 1 \<ge> 8 \<and> qi_priority (deref (assign q p it) x) > 0) ps
      = filter (\<lambda>x. qi_age (deref q x) + 1 \<ge> 8 \<and> qi_priority (deref q x) > 0) ps" for it
    using Cons.prems by (intro filter_cong) auto
  show ?case using Cons same by (simp add: age_item_def starvationThreshold_def Let_def)
qed simp

lemma foldl_assign_age:
  assumes "distinct ps"
  shows "let q' = foldl (\<lambda>q p. assign q p ((deref q p)\<lparr>qi_age := qi_age (deref q p) + 1\<rparr>)) q ps in
    pq_items q' = pq_items q \<and> pq_next q' = pq_next q \<and> pq_seq q' = pq_seq q \<and>
    (\<forall>x. deref q' x = (if x \<in> set ps then (deref q x)\<lparr>qi_age := qi_age (deref q x) + 1\<rparr> else deref q x))"
  using assms by (induction ps arbitrary: q) (simp_all add: Let_def)

lemma pq_elems_priority:
  assumes "pq_wf q" and "i < length (pq_items q)"
  shows "pq_elems (assign q (pq_items q ! i) ((deref q (pq_items q ! i))\<lparr>qi_priority := 0\<rparr>)) =
    (pq_elems q)[i := (pq_items q ! i, (entry_of (deref q (pq_items q ! i)))\<lparr>qi_priority := 0\<rparr>)]"
  using assms
  by (intro nth_equalityI) (auto simp: pq_elems_def pq_wf_def nth_eq_iff_index_eq nth_list_update entry_of_def)

definition urgent :: "nat set \<Rightarrow> nat \<times> 'r queue_item \<Rightarrow> nat \<times> 'r queue_item" where
  "urgent P x = (if fst x \<in> P then (fst x, (snd x)\<lparr>qi_priority := 0\<rparr>) else x)"

lemma promote_item:
  assumes "pq_inv q" and "p \<in> set (pq_items q)"
  shows "pq_inv (promote_item q p) \<and>
    mset (pq_elems (promote_item q p)) = image_mset (urgent {p}) (mset (pq_elems q)) \<and>
    pq_seq (promote_item q p) = pq_seq q \<and> pq_next (promote_item q p) = pq_next q"
proof -
  have wf: "pq_wf q" and heap: "heap_upto elem_rank (pq_Len q) (pq_elems q)"
    using assms(1) by (simp_all add: pq_inv_def)
  obtain i where i: "i < length (pq_items q)" "p = pq_items q ! i"
    using assms(2) by (metis in_set_conv_nth)
  let ?q = "assign q p ((deref q p)\<lparr>qi_priority := 0\<rparr>)"
  let ?e = "(p, (entry_of (deref q p))\<lparr>qi_priority := 0\<rparr>)"
  have elems: "pq_elems ?q = (pq_elems q)[i := ?e]" using pq_elems_priority [OF wf i(1)] i(2) by simp
  have wf': "pq_wf ?q" using wf by (auto simp: pq_wf_def)
  have idx: "nat (qi_index (deref ?q p)) = i" using wf i by (simp add: pq_wf_def)
  have len: "pq_Len ?q = pq_Len q" by (simp add: pq_Len_def)
  have fixed: "promote_item q p = heap_Fix pq_Len pq_Less pq_Swap ?q i"
    unfolding promote_item_def Let_def idx ..
  have "heap_except elem_rank (pq_Len ?q) (pq_elems ?q) i"
    unfolding elems len using heap by (rule heap_except_update)
  note res = pq_heap.Fix_heap [OF wf' _ this, folded fixed]
  have "i < pq_Len ?q" using i by (simp add: pq_Len_def)
  note res = res [OF this]
  have "(pq_elems q)[i := ?e] = map (urgent {p}) (pq_elems q)"
    using wf i by (intro nth_equalityI)
      (auto simp: pq_elems_def pq_wf_def urgent_def nth_eq_iff_index_eq nth_list_update)
  then have ms: "mset (pq_elems (promote_item q p)) = image_mset (urgent {p}) (mset (pq_elems q))"
    using res elems by simp
  then have "size (mset (pq_elems (promote_item q p))) = size (mset (pq_elems q))" by simp
  then have "pq_Len (promote_item q p) = pq_Len q" by (simp add: pq_Len_def)
  then have "pq_inv (promote_item q p)" using res len by (simp add: pq_inv_def)
  moreover have "pq_seq (promote_item q p) = pq_seq q" "pq_next (promote_item q p) = pq_next q"
    unfolding fixed by (subst heap_Fix_frame [of pq_seq]; simp) (subst heap_Fix_frame [of pq_next]; simp)
  ultimately show ?thesis using ms by blast
qed

lemma set_pq_items: "set (pq_items q) = fst ` set_mset (mset (pq_elems q))"
  by (simp add: pq_elems_def image_image)

lemma foldl_promote_item:
  assumes "pq_inv q" and "set ps \<subseteq> set (pq_items q)"
  shows "let q' = foldl promote_item q ps in
    pq_inv q' \<and> mset (pq_elems q') = image_mset (urgent (set ps)) (mset (pq_elems q)) \<and>
    pq_seq q' = pq_seq q \<and> pq_next q' = pq_next q"
  using assms
proof (induction ps arbitrary: q)
  case Nil
  have "urgent {} = (id :: nat \<times> 'a queue_item \<Rightarrow> _)" by (rule ext) (simp add: urgent_def)
  then show ?case using Nil by simp
next
  case (Cons p ps)
  let ?q = "promote_item q p"
  have p: "pq_inv ?q" "mset (pq_elems ?q) = image_mset (urgent {p}) (mset (pq_elems q))"
    "pq_seq ?q = pq_seq q" "pq_next ?q = pq_next q"
    using promote_item [OF Cons.prems(1)] Cons.prems(2) by auto
  have "fst (urgent P x) = fst x" for P and x :: "nat \<times> 'a queue_item" by (simp add: urgent_def)
  then have "set (pq_items ?q) = set (pq_items q)"
    by (simp add: set_pq_items p(2) image_image)
  moreover have "urgent (set ps) (urgent {p} x) = urgent (insert p (set ps)) x" for x :: "nat \<times> 'a queue_item"
    by (cases x) (auto simp: urgent_def)
  ultimately show ?case
    using Cons.IH [OF p(1)] Cons.prems(2) p by (simp add: Let_def multiset.map_comp comp_def)
qed

section \<open>The heap implements the contract\<close>

lemma pq_push_contract:
  assumes "pq_inv q"
  shows "pq_inv (pq_push q r) \<and> pq_seq (pq_push q r) = pq_seq q + 1 \<and>
    pq_entries (pq_push q r) = add_mset
      \<lparr>qi_request = r, qi_priority = request_priority r, qi_seq = pq_seq q, qi_age = 0, qi_index = 0\<rparr> (pq_entries q)"
proof -
  let ?it = "\<lparr>qi_request = r, qi_priority = request_priority r, qi_seq = pq_seq q, qi_age = 0, qi_index = 0\<rparr>"
  let ?p = "pq_next q"
  let ?q = "(assign q ?p ?it)\<lparr>pq_next := ?p + 1, pq_seq := pq_seq q + 1\<rparr>"
  have wf: "pq_wf q" and heap: "heap_upto elem_rank (pq_Len q) (pq_elems q)"
    using assms by (simp_all add: pq_inv_def)
  have fresh: "?p \<notin> set (pq_items q)" using wf by (auto simp: pq_wf_def)
  have old: "deref ?q x = deref q x" "deref (pq_Push ?q ?p) x = deref q x" if "x \<in> set (pq_items q)" for x
    using that fresh by (auto simp: pq_Push_def set_index_def Let_def)
  have elems: "pq_elems ?q = pq_elems q" using old by (auto simp: pq_elems_def)
  have wf1: "pq_wf ?q" using wf old(1) by (fastforce simp: pq_wf_def)
  have items: "pq_items (pq_Push ?q ?p) = pq_items q @ [?p]" "pq_next (pq_Push ?q ?p) = ?p + 1"
    "deref (pq_Push ?q ?p) ?p = ?it\<lparr>qi_index := int (length (pq_items q))\<rparr>"
    by (simp_all add: pq_Push_def set_index_def Let_def)
  have wf2: "pq_wf (pq_Push ?q ?p)"
    unfolding pq_wf_def items using wf fresh items(3) old(2)
    by (auto simp: pq_wf_def nth_append less_Suc_eq)
  have elems2: "pq_elems (pq_Push ?q ?p) = pq_elems ?q @ [(?p, entry_of ?it)]"
    unfolding elems using items(1,3) old(2) by (auto simp: pq_elems_def entry_of_def)
  have len: "pq_Len ?q = pq_Len q" by (simp add: pq_Len_def)
  have "heap_upto elem_rank (pq_Len ?q) (pq_elems ?q)" unfolding elems len by (rule heap)
  note res = pq_heap.Push_heap [where push = pq_Push, OF this wf1 wf2 elems2]
  have push: "pq_push q r = heap_Push pq_Len pq_Less pq_Swap pq_Push ?q ?p"
    by (simp add: pq_push_def Let_def)
  have ms: "mset (pq_elems (pq_push q r)) = add_mset (?p, entry_of ?it) (mset (pq_elems q))"
    using res elems push by simp
  then have "length (pq_elems (pq_push q r)) = Suc (length (pq_elems q))" by (metis size_add_mset size_mset)
  then have "pq_inv (pq_push q r)" using res push len by (simp add: pq_inv_def pq_Len_def)
  moreover have "pq_seq (pq_push q r) = pq_seq q + 1"
    unfolding push heap_Push_def Let_def
    by (subst heap_up_frame [of pq_seq]) (simp_all add: pq_Push_def set_index_def Let_def)
  ultimately show ?thesis using ms by (simp add: pq_entries_def entry_of_def)
qed

lemma age_phase:
  assumes "pq_inv q"
  obtains q1 where "foldl age_item (q, []) (pq_items q) =
      (q1, filter (\<lambda>p. qi_age (deref q p) + 1 \<ge> 8 \<and> qi_priority (deref q p) > 0) (pq_items q))"
    "pq_inv q1" "pq_items q1 = pq_items q" "pq_seq q1 = pq_seq q"
    "pq_elems q1 = map (\<lambda>(p, it). (p, it\<lparr>qi_age := qi_age it + 1\<rparr>)) (pq_elems q)"
proof -
  have dist: "distinct (pq_items q)" using assms by (simp add: pq_inv_def pq_wf_def)
  obtain q1 where q1: "foldl (\<lambda>q p. assign q p ((deref q p)\<lparr>qi_age := qi_age (deref q p) + 1\<rparr>)) q (pq_items q) = q1"
    by blast
  have q1': "pq_items q1 = pq_items q" "pq_next q1 = pq_next q" "pq_seq q1 = pq_seq q"
    "\<And>x. x \<in> set (pq_items q) \<Longrightarrow> deref q1 x = (deref q x)\<lparr>qi_age := qi_age (deref q x) + 1\<rparr>"
    using foldl_assign_age [OF dist, of q] by (simp_all add: q1 Let_def)
  have elems: "pq_elems q1 = map (\<lambda>(p, it). (p, it\<lparr>qi_age := qi_age it + 1\<rparr>)) (pq_elems q)"
    using q1' by (auto simp: pq_elems_def entry_of_def)
  have "elem_rank (pq_elems q1 ! k) = elem_rank (pq_elems q ! k)" if "k < length (pq_items q)" for k
    using that by (simp add: elems elem_rank_def entry_rank_def split: prod.splits)
  then have "heap_upto elem_rank (pq_Len q1) (pq_elems q1)"
    using assms q1'(1) unfolding pq_inv_def heap_upto_def pq_Len_def by (metis child_less less_trans)
  moreover have "pq_wf q1" using assms q1' by (auto simp: pq_inv_def pq_wf_def)
  ultimately have "pq_inv q1" by (simp add: pq_inv_def)
  then show ?thesis using that foldl_age_item [OF dist, of q "[]"] q1 q1' elems by simp
qed

lemma pq_Pop_last:
  assumes "pq_wf h" and "pq_elems h = xs @ [x]"
  shows "pq_elems (fst (pq_Pop h)) = xs \<and> pq_wf (fst (pq_Pop h)) \<and> pq_seq (fst (pq_Pop h)) = pq_seq h \<and>
    qi_request (deref (fst (pq_Pop h)) (snd (pq_Pop h))) = qi_request (snd x)"
proof -
  obtain ps p where items: "pq_items h = ps @ [p]" "xs = map (\<lambda>p. (p, entry_of (deref h p))) ps"
    "x = (p, entry_of (deref h p))"
    using assms(2) unfolding pq_elems_def by (auto simp: map_eq_append_conv)
  have "p \<notin> set ps" using assms(1) items(1) by (simp add: pq_wf_def)
  moreover have "fst (pq_Pop h) = (set_index h p (-1))\<lparr>pq_items := ps\<rparr>" "snd (pq_Pop h) = p"
    by (simp_all add: pq_Pop_def items(1) Let_def set_index_def)
  moreover have "qi_index (deref h (ps ! i)) = int i" if "i < length ps" for i
    using assms(1) that by (auto simp: pq_wf_def items(1) nth_append split: if_splits dest: spec [of _ i])
  ultimately show ?thesis
    using assms(1) items by (auto simp: pq_elems_def set_index_def pq_wf_def in_set_conv_nth)
qed

lemma pq_pop_contract:
  assumes "pq_inv q" and "pq_entries q \<noteq> {#}"
  obtains e where "e \<in># image_mset aged_entry (pq_entries q)"
    "snd (pq_pop q) = Some (qi_request e)"
    "\<forall>x \<in># image_mset aged_entry (pq_entries q). entry_rank e \<le> entry_rank x"
    "pq_entries (fst (pq_pop q)) = image_mset aged_entry (pq_entries q) - {#e#}"
    "pq_inv (fst (pq_pop q))" "pq_seq (fst (pq_pop q)) = pq_seq q"
proof -
  let ?starved = "\<lambda>p. qi_age (deref q p) + 1 \<ge> 8 \<and> qi_priority (deref q p) > 0"
  let ?ps = "filter ?starved (pq_items q)"
  from age_phase [OF assms(1)] obtain q1 where q1:
    "foldl age_item (q, []) (pq_items q) = (q1, ?ps)" "pq_inv q1" "pq_items q1 = pq_items q"
    "pq_seq q1 = pq_seq q" "pq_elems q1 = map (\<lambda>(p, it). (p, it\<lparr>qi_age := qi_age it + 1\<rparr>)) (pq_elems q)"
    by blast
  define q2 where "q2 = foldl promote_item q1 ?ps"
  have q2: "pq_inv q2" "mset (pq_elems q2) = image_mset (urgent (set ?ps)) (mset (pq_elems q1))"
    "pq_seq q2 = pq_seq q"
    using foldl_promote_item [OF q1(2), of ?ps] q1(3,4) unfolding q2_def by (auto simp: Let_def)
  have "urgent (set ?ps) (p, (entry_of (deref q p))\<lparr>qi_age := qi_age (deref q p) + 1\<rparr>)
      = (p, aged_entry (entry_of (deref q p)))" if "p \<in> set (pq_items q)" for p
    using that by (auto simp: urgent_def aged_entry_def word_gt_0)
  then have "map (urgent (set ?ps)) (pq_elems q1) = map (\<lambda>(p, it). (p, aged_entry it)) (pq_elems q)"
    unfolding q1(5) by (simp add: pq_elems_def del: set_filter)
  then have ms: "mset (pq_elems q2) = mset (map (\<lambda>(p, it). (p, aged_entry it)) (pq_elems q))"
    unfolding q2(2) mset_map [symmetric] by (rule arg_cong)
  then have aged: "image_mset snd (mset (pq_elems q2)) = image_mset aged_entry (pq_entries q)"
    by (simp add: pq_entries_def multiset.map_comp comp_def case_prod_unfold)
  have ne: "pq_Len q \<noteq> 0" using assms(2) by (auto simp: pq_entries_def pq_Len_def pq_elems_def)
  have "size (mset (pq_elems q2)) = size (mset (pq_elems q))" unfolding ms by simp
  then have len: "pq_Len q2 = pq_Len q" by (simp add: pq_Len_def)
  have wf2: "pq_wf q2" and heap2: "heap_upto elem_rank (pq_Len q2) (pq_elems q2)"
    using q2(1) by (simp_all add: pq_inv_def)
  have pos: "0 < pq_Len q2" using ne len by simp
  let ?e = "pq_elems q2 ! 0"
  obtain h xs where h: "heap_Pop pq_Len pq_Less pq_Swap pq_Pop q2 = pq_Pop h" "pq_wf h"
    "pq_elems h = xs @ [?e]" "mset xs = mset (pq_elems q2) - {#?e#}"
    "heap_upto elem_rank (pq_Len q2 - 1) xs"
    "h = fst (heap_down_loop pq_Less pq_Swap (pq_Swap q2 0 (pq_Len q2 - 1)) 0 (pq_Len q2 - 1))"
    by (rule pq_heap.Pop_heap [OF wf2 heap2 pos, of pq_Pop])
  note last = pq_Pop_last [OF h(2,3)]
  have "pq_pop q = (fst (pq_Pop h), Some (qi_request (deref (fst (pq_Pop h)) (snd (pq_Pop h)))))"
    using ne q1(1) h(1) unfolding q2_def by (simp add: pq_pop_def Let_def split: prod.splits)
  then have pop: "fst (pq_pop q) = fst (pq_Pop h)" "snd (pq_pop q) = Some (qi_request (snd ?e))"
    using last by simp_all
  have seq: "pq_seq h = pq_seq q"
    unfolding h(6) by (subst heap_down_loop_frame [of pq_seq]) (use q2(3) in simp_all)
  have mem: "?e \<in># mset (pq_elems q2)" using pos by (simp add: pq_Len_def)
  have "length xs = pq_Len q2 - 1"
    using arg_cong [OF h(4), of size] mem by (simp add: size_Diff_singleton pq_Len_def)
  then have inv: "pq_inv (fst (pq_pop q))"
    using last h(5) pop(1) unfolding pq_inv_def pq_Len_def by (metis length_pq_elems)
  have least: "elem_rank ?e \<le> elem_rank y" if "y \<in># mset (pq_elems q2)" for y
    using that heap_upto_root [OF heap2] unfolding pq_Len_def
    by (metis in_set_conv_nth length_pq_elems set_mset_mset)
  show ?thesis
  proof (rule that [of "snd ?e"])
    show "snd ?e \<in># image_mset aged_entry (pq_entries q)" unfolding aged [symmetric] using mem by simp
    show "\<forall>x \<in># image_mset aged_entry (pq_entries q). entry_rank (snd ?e) \<le> entry_rank x"
      unfolding aged [symmetric] using least by (auto simp: elem_rank_def)
    show "pq_entries (fst (pq_pop q)) = image_mset aged_entry (pq_entries q) - {#snd ?e#}"
      unfolding aged [symmetric] using last pop(1) h(4) mem
      by (simp add: pq_entries_def image_mset_Diff)
  qed (use pop last seq inv in simp_all)
qed

lemma pq_pop_empty: "pq_entries q = {#} \<Longrightarrow> pq_pop q = (q, None)"
  by (simp add: pq_entries_def pq_pop_def pq_Len_def pq_elems_def)

lemma newPriorityQueue_empty: "newPriorityQueue = empty_priority_queue"
  by (simp add: newPriorityQueue_def heap_Init_def pq_Len_def empty_priority_queue_def)

interpretation send_queue: aging_queue pq_inv pq_entries pq_seq pq_push pq_pop request_priority newPriorityQueue
proof unfold_locales
  show "pq_inv newPriorityQueue"
    by (simp add: newPriorityQueue_empty empty_priority_queue_def pq_inv_def pq_wf_def pq_Len_def heap_upto_def)
  show "pq_entries newPriorityQueue = {#} \<and> pq_seq newPriorityQueue = 0"
    by (simp add: newPriorityQueue_empty empty_priority_queue_def pq_entries_def pq_elems_def)
  fix q :: "('c, 'd) bus_request priority_queue" and r
  assume inv: "pq_inv q"
  show "pq_inv (pq_push q r)" "pq_seq (pq_push q r) = pq_seq q + 1" "pq_entries (pq_push q r) = add_mset
      \<lparr>qi_request = r, qi_priority = request_priority r, qi_seq = pq_seq q, qi_age = 0, qi_index = 0\<rparr> (pq_entries q)"
    using pq_push_contract [OF inv] by simp_all
  show "pq_inv (fst (pq_pop q))" "pq_seq (fst (pq_pop q)) = pq_seq q"
    using inv pq_pop_empty [of q] pq_pop_contract [OF inv] by (metis fst_conv)+
  show "pq_pop q = (q, None)" if "pq_entries q = {#}" using that by (rule pq_pop_empty)
  show "\<exists>e \<in># image_mset aged_entry (pq_entries q). snd (pq_pop q) = Some (qi_request e) \<and>
      (\<forall>x \<in># image_mset aged_entry (pq_entries q). entry_rank e \<le> entry_rank x) \<and>
      pq_entries (fst (pq_pop q)) = image_mset aged_entry (pq_entries q) - {#e#}" if "pq_entries q \<noteq> {#}"
    using pq_pop_contract [OF inv that] by metis
qed

section \<open>Properties\<close>


text \<open>
  C23: no starvation.  A request pushed while \<open>m\<close> others wait is returned by one of the next
  \<open>m + 8\<close> pops, whatever is pushed in between and with whatever priority, as long as fewer than
  2^64 requests were pushed in all.
\<close>

theorem queue_no_starvation:
  fixes r :: "('ctx, 'op) bus_request"
  assumes "enqueues ops + 1 + enqueues ops' < 2 ^ 64"
    and "pq_Len (run_state (queue_step pq_push pq_pop) newPriorityQueue ops) + 8 \<le> dequeues ops'"
  shows "Some r \<in> set (run_out (queue_step pq_push pq_pop)
    (pq_push (run_state (queue_step pq_push pq_pop) newPriorityQueue ops) r) ops')"
  using assms
  by (intro send_queue.pushed_is_served) (simp_all add: pq_entries_def pq_Len_def)

definition sample_request :: "byte \<Rightarrow> (unit, unit) bus_request" where
  "sample_request src = \<lparr>br_frame = \<lparr>Source = src, Target = 0x08, Primary = 0xB5, Secondary = 0x09,
     Data = [], FrameType = FrameTypeUnknown\<rparr>, br_ctx = (), br_resp = 0, br_transportOp = None,
     br_transportOpStarted = False\<rparr>"

theorem queue_no_starvation_witness:
  "Some (sample_request 0xFF) \<in> set (run_out (queue_step pq_push pq_pop)
     (pq_push newPriorityQueue (sample_request 0xFF))
     (concat (replicate 8 [Enqueue (sample_request 0x10), Dequeue])))"
proof -
  have "pq_Len newPriorityQueue = 0"
    by (simp add: newPriorityQueue_empty empty_priority_queue_def pq_Len_def)
  moreover have "replicate 8 [Enqueue (sample_request 0x10), Dequeue] =
      map (\<lambda>_. [Enqueue (sample_request 0x10), Dequeue]) [0, 1, 2, 3, 4, 5, 6, 7 :: nat]"
    by (simp add: numeral_eq_Suc)
  then have "dequeues (concat (replicate 8 [Enqueue (sample_request 0x10), Dequeue])) = 8"
    "enqueues (concat (replicate 8 [Enqueue (sample_request 0x10), Dequeue])) = 8" by simp_all
  ultimately show ?thesis
    using queue_no_starvation [of "[]" "concat (replicate 8 [Enqueue (sample_request 0x10), Dequeue])" "sample_request 0xFF"]
    by (simp only: run_machine.simps fst_conv enqueues_simps) simp
qed

end
