(* ===== verification/Bus_Queue.thy ===== *)
theory Bus_Queue
  imports Bus_Retry Priority_Queue
begin

text \<open>
  The concurrent front end of the bus (\<open>protocol/bus.go\<close>): callers of \<open>Send\<close> and \<open>RawTransportOp\<close>
  push requests under \<open>queueMu\<close>, one run loop pops them, serves them and answers on their channels, and
  on shutdown it marks the bus closed and drains the queue.  Every critical section and every
  iteration of the run loop is one step of a relation, so that callers may come in between any two
  of them.
\<close>

section \<open>State\<close>

text \<open>What is sent on a reply channel: the result of a frame, or the error of a transport operation.\<close>

datatype answer = FrameResult "frame option result" | OpResult "go_error option"

type_synonym 't transport_op = "'t \<Rightarrow> 't \<times> go_error option"
type_synonym 't request = "(go_time option option, 't transport_op) bus_request"

text \<open>Where the run loop is: in its loop, after the select chose \<open>ctx.Done()\<close>, draining, returned.\<close>

datatype run_phase = Running | Closing | Draining | Stopped

text \<open>
  \<open>fr_answers\<close> is the history of sends on reply channels; a channel is the number it got at
  admission, and \<open>fr_next\<close> is the next number.
\<close>

record 't front =
  fr_bus :: "'t bus"
  fr_queue :: "'t request priority_queue"
  fr_closed :: bool
  fr_started :: bool
  fr_phase :: run_phase
  fr_answers :: "(nat \<times> answer) list"
  fr_next :: nat
  invalidFrameAddressTotal :: "64 word"

definition defaultQueueCapacity :: int where "defaultQueueCapacity = 64"

definition queue_capacity :: "int \<Rightarrow> int" where
  "queue_capacity queueCapacity = (if queueCapacity \<le> 0 then defaultQueueCapacity else queueCapacity)"

definition NewBus :: "'t \<Rightarrow> 't front" where
  "NewBus w = \<lparr>fr_bus = new_bus_state w, fr_queue = newPriorityQueue, fr_closed = False, fr_started = False,
     fr_phase = Stopped, fr_answers = [], fr_next = 0, invalidFrameAddressTotal = 0\<rparr>"

text \<open>\<open>Run\<close> starts the loop once.\<close>

definition Run :: "'t front \<Rightarrow> 't front" where
  "Run f = (if fr_started f then f else f\<lparr>fr_started := True, fr_phase := Running\<rparr>)"

section \<open>Admission\<close>

datatype send_error = SendError go_error | SendInvalidAddress address_reject

text \<open>The critical section both callers share: closed, full, push; the result is the channel.\<close>

definition enqueue :: "int \<Rightarrow> 't front \<Rightarrow> (nat \<Rightarrow> 't request) \<Rightarrow> 't front \<times> (go_error + nat)" where
  "enqueue outCap f request =
     (if fr_closed f then (f, Inl (Sentinel ErrTransportClosed))
      else if int (pq_Len (fr_queue f)) \<ge> outCap then (f, Inl (Sentinel ErrQueueFull))
      else (f\<lparr>fr_queue := pq_push (fr_queue f) (request (fr_next f)), fr_next := fr_next f + 1\<rparr>, Inr (fr_next f)))"

text \<open>\<open>Send\<close> until it waits; \<open>ctxErr\<close> is what \<open>ctx.Err()\<close> gives on entry.\<close>

definition Send ::
  "int \<Rightarrow> 't front \<Rightarrow> go_error option \<Rightarrow> go_time option option \<Rightarrow> frame \<Rightarrow> 't front \<times> (send_error + nat)" where
  "Send outCap f ctxErr ctx frame =
     (case ctxErr of
        Some e \<Rightarrow> (f, Inl (SendError e))
      | None \<Rightarrow>
          (case Frame_Validate frame of
             Some reject \<Rightarrow> (f\<lparr>invalidFrameAddressTotal := invalidFrameAddressTotal f + 1\<rparr>, Inl (SendInvalidAddress reject))
           | None \<Rightarrow>
               (case enqueue outCap f (\<lambda>ch. \<lparr>br_frame = frame, br_ctx = ctx, br_resp = ch,
                   br_transportOp = None, br_transportOpStarted = False\<rparr>) of
                  (f1, Inl e) \<Rightarrow> (f1, Inl (SendError e))
                | (f1, Inr ch) \<Rightarrow> (f1, Inr ch))))"

definition err_nil_op :: go_error where
  "err_nil_op = Opaque ''ebus: raw transport op function is nil''"

definition RawTransportOp ::
  "int \<Rightarrow> 't front \<Rightarrow> go_error option \<Rightarrow> go_time option option \<Rightarrow> 't transport_op option \<Rightarrow> 't front \<times> (go_error + nat)" where
  "RawTransportOp outCap f ctxErr ctx fn =
     (case ctxErr of
        Some e \<Rightarrow> (f, Inl e)
      | None \<Rightarrow>
          (case fn of
             None \<Rightarrow> (f, Inl err_nil_op)
           | Some op \<Rightarrow> enqueue outCap f (\<lambda>ch. \<lparr>br_frame = zero_frame, br_ctx = ctx, br_resp = ch,
               br_transportOp = Some op, br_transportOpStarted = False\<rparr>)))"

text \<open>
  The waiting half of the two callers: the values the select may return with the channel and the
  context in a given state.  A transport operation that has started is always waited for.
\<close>

definition Send_wait :: "answer option \<Rightarrow> go_error option \<Rightarrow> frame option result list" where
  "Send_wait answered ctxErr =
     (case answered of Some (FrameResult r) \<Rightarrow> [r] | _ \<Rightarrow> []) @
     (case ctxErr of Some e \<Rightarrow> [Inl e] | None \<Rightarrow> [])"

definition RawTransportOp_wait :: "answer option \<Rightarrow> go_error option \<Rightarrow> bool \<Rightarrow> go_error option list" where
  "RawTransportOp_wait answered ctxErr started =
     (case answered of Some (OpResult e) \<Rightarrow> [e] | _ \<Rightarrow> []) @
     (case ctxErr of Some e \<Rightarrow> (if started then [] else [Some e]) | None \<Rightarrow> [])"

section \<open>The run loop\<close>

definition dequeue :: "'t front \<Rightarrow> 't front \<times> 't request option" where
  "dequeue f = (case pq_pop (fr_queue f) of (q, r) \<Rightarrow> (f\<lparr>fr_queue := q\<rparr>, r))"

definition reply :: "'t front \<Rightarrow> 't request \<Rightarrow> answer \<Rightarrow> 't front" where
  "reply f request a = f\<lparr>fr_answers := fr_answers f @ [(br_resp request, a)]\<rparr>"

text \<open>The body of the loop for a request; \<open>None\<close> when serving it never returns.\<close>

definition serve :: "'t bus_static \<Rightarrow> 't front \<Rightarrow> 't request \<Rightarrow> 't front option" where
  "serve st f request =
     (case br_transportOp request of
        Some op \<Rightarrow>
          (case contextError st (fr_bus f) of
             (b1, Some e) \<Rightarrow> Some (reply (f\<lparr>fr_bus := b1\<rparr>) request (OpResult (Some e)))
           | (b1, None) \<Rightarrow>
               (case op (b_world b1) of
                  (w, e) \<Rightarrow> Some (reply (f\<lparr>fr_bus := b1\<lparr>b_world := w\<rparr>\<rparr>) request (OpResult e))))
      | None \<Rightarrow>
          (case handleRequest st (fr_bus f) (br_frame request) (br_ctx request) of
             None \<Rightarrow> None
           | Some (b1, r) \<Rightarrow> Some (reply (f\<lparr>fr_bus := b1\<rparr>) request (FrameResult r))))"

definition markClosed :: "'t front \<Rightarrow> 't front" where
  "markClosed f = f\<lparr>fr_closed := True\<rparr>"

text \<open>One iteration of \<open>drainQueue\<close>; the flag says that the loop goes on.\<close>

definition drain_one :: "'t front \<Rightarrow> 't front \<times> bool" where
  "drain_one f =
     (case dequeue f of
        (f1, None) \<Rightarrow> (f1, False)
      | (f1, Some request) \<Rightarrow>
          (reply f1 request
             (if br_transportOp request \<noteq> None then OpResult (Some (Sentinel ErrTransportClosed))
              else FrameResult (Inl (Sentinel ErrTransportClosed))), True))"

text \<open>
  The steps.  An idle run loop waits for \<open>notify\<close> or for the end of its context; the latter takes
  it to \<open>Closing\<close>, and callers may still get in before the bus is marked closed.
\<close>

inductive front_step :: "'t bus_static \<Rightarrow> int \<Rightarrow> 't front \<Rightarrow> 't front \<Rightarrow> bool" for st outCap where
  start: "front_step st outCap f (Run f)"
| send: "front_step st outCap f (fst (Send outCap f ctxErr ctx frame))"
| raw_op: "front_step st outCap f (fst (RawTransportOp outCap f ctxErr ctx fn))"
| serve: "fr_phase f = Running \<Longrightarrow> dequeue f = (f1, Some request) \<Longrightarrow> serve st f1 request = Some f2 \<Longrightarrow>
    front_step st outCap f f2"
| idle_done: "fr_phase f = Running \<Longrightarrow> dequeue f = (f1, None) \<Longrightarrow> front_step st outCap f (f1\<lparr>fr_phase := Closing\<rparr>)"
| mark: "fr_phase f = Closing \<Longrightarrow> front_step st outCap f ((markClosed f)\<lparr>fr_phase := Draining\<rparr>)"
| drain_next: "fr_phase f = Draining \<Longrightarrow> drain_one f = (f1, True) \<Longrightarrow> front_step st outCap f f1"
| drain_end: "fr_phase f = Draining \<Longrightarrow> drain_one f = (f1, False) \<Longrightarrow> front_step st outCap f (f1\<lparr>fr_phase := Stopped\<rparr>)"

inductive reachable :: "'t bus_static \<Rightarrow> int \<Rightarrow> 't \<Rightarrow> 't front \<Rightarrow> bool" for st outCap w where
  init: "reachable st outCap w (NewBus w)"
| step: "reachable st outCap w f \<Longrightarrow> front_step st outCap f f' \<Longrightarrow> reachable st outCap w f'"

inductive_cases front_stepE: "front_step st outCap f f'"

section \<open>No request is lost and none is answered twice\<close>

abbreviation waiting :: "'t front \<Rightarrow> nat multiset" where
  "waiting f \<equiv> image_mset (\<lambda>e. br_resp (qi_request e)) (pq_entries (fr_queue f))"

abbreviation answered :: "'t front \<Rightarrow> nat multiset" where
  "answered f \<equiv> mset (map fst (fr_answers f))"

text \<open>The channels handed out so far.\<close>

definition channels :: "nat \<Rightarrow> nat multiset" where
  "channels n = mset [0..<n]"

lemma channels_simps [simp]: "channels 0 = {#}" "channels (Suc n) = add_mset n (channels n)"
  by (simp_all add: channels_def)

text \<open>Every channel handed out is in the queue or answered, once in all; the phases fit the flags.\<close>

definition front_inv :: "int \<Rightarrow> 't front \<Rightarrow> bool" where
  "front_inv outCap f \<longleftrightarrow>
     pq_inv (fr_queue f) \<and>
     waiting f + answered f = channels (fr_next f) \<and>
     int (pq_Len (fr_queue f)) \<le> max 0 outCap \<and>
     (fr_closed f \<longleftrightarrow> fr_started f \<and> fr_phase f \<in> {Draining, Stopped}) \<and>
     (fr_started f \<and> fr_phase f = Stopped \<longrightarrow> pq_entries (fr_queue f) = {#}) \<and>
     (\<not> fr_started f \<longrightarrow> fr_phase f = Stopped)"

lemma pq_Len_size: "pq_Len q = size (pq_entries q)"
  by (simp add: pq_entries_def pq_elems_def pq_Len_def)

lemma pop_ids:
  fixes q :: "('ctx, 'op) bus_request priority_queue"
  assumes "pq_inv q" and "pq_pop q = (q', r)"
  shows "pq_inv q' \<and> (case r of
      None \<Rightarrow> pq_entries q = {#} \<and> q' = q
    | Some request \<Rightarrow> image_mset (\<lambda>e. g (qi_request e)) (pq_entries q) =
        add_mset (g request) (image_mset (\<lambda>e. g (qi_request e)) (pq_entries q')) \<and>
        size (pq_entries q') < size (pq_entries q))"
proof (cases "pq_entries q = {#}")
  case True
  then show ?thesis using assms send_queue.pop_empty [OF assms(1)] by auto
next
  case False
  then obtain e where e: "e \<in># image_mset aged_entry (pq_entries q)" "r = Some (qi_request e)"
    "pq_entries q' = image_mset aged_entry (pq_entries q) - {#e#}"
    using send_queue.pop_min [OF assms(1)] assms(2) by auto
  have eq: "image_mset aged_entry (pq_entries q) = add_mset e (pq_entries q')" using e(1,3) by simp
  have "image_mset (\<lambda>e. g (qi_request e)) (image_mset aged_entry (pq_entries q)) =
      add_mset (g (qi_request e)) (image_mset (\<lambda>e. g (qi_request e)) (pq_entries q'))"
    and "size (pq_entries q) = Suc (size (pq_entries q'))"
    using arg_cong [OF eq, of "image_mset (\<lambda>e. g (qi_request e))"] arg_cong [OF eq, of size] by simp_all
  moreover have "(\<lambda>e. g (qi_request e)) \<circ> aged_entry = (\<lambda>e. g (qi_request e))"
    by (auto simp: aged_entry_def)
  ultimately show ?thesis
    using e(2) send_queue.pop_inv [OF assms(1)] assms(2) by (simp add: multiset.map_comp)
qed

lemma enqueue_inv:
  assumes "front_inv outCap f" and "\<And>ch. br_resp (request ch) = ch"
  shows "front_inv outCap (fst (enqueue outCap f request))"
  using assms send_queue.push_inv [of "fr_queue f" "request (fr_next f)"]
    send_queue.push_entries [of "fr_queue f" "request (fr_next f)"]
  by (auto simp: enqueue_def front_inv_def pq_Len_size)

lemma callers_inv:
  assumes "front_inv outCap f"
  shows "front_inv outCap (fst (Send outCap f ctxErr ctx frame))"
    and "front_inv outCap (fst (RawTransportOp outCap f ctxErr ctx fn))"
proof -
  let ?r = "\<lambda>fr op ch. \<lparr>br_frame = fr, br_ctx = ctx, br_resp = ch, br_transportOp = op, br_transportOpStarted = False\<rparr>"
  have e: "front_inv outCap (fst (enqueue outCap f (?r fr op)))" for fr op
    by (rule enqueue_inv [OF assms]) simp
  have "front_inv outCap (f\<lparr>invalidFrameAddressTotal := n\<rparr>)" for n
    using assms by (simp add: front_inv_def)
  then show "front_inv outCap (fst (Send outCap f ctxErr ctx frame))"
    using assms e [of frame None] by (auto simp: Send_def split: option.split prod.split sum.split)
  show "front_inv outCap (fst (RawTransportOp outCap f ctxErr ctx fn))"
    using assms e [of zero_frame fn] by (cases fn) (auto simp: RawTransportOp_def split: option.split)
qed

text \<open>Taking a request out of the queue and answering it keeps the count.\<close>

lemma dequeue_reply_inv:
  assumes "front_inv outCap f" and "dequeue f = (f1, Some request)" and "fr_phase f \<noteq> Stopped"
    and "fr_queue f2 = fr_queue f1" "fr_answers f2 = fr_answers f1 @ [(br_resp request, a)]" "fr_next f2 = fr_next f1"
      "fr_closed f2 = fr_closed f1" "fr_started f2 = fr_started f1" "fr_phase f2 = fr_phase f1"
  shows "front_inv outCap f2"
proof -
  obtain q where q: "pq_pop (fr_queue f) = (q, Some request)" "f1 = f\<lparr>fr_queue := q\<rparr>"
    using assms(2) by (auto simp: dequeue_def split: prod.splits)
  have "pq_inv (fr_queue f)" using assms(1) by (simp add: front_inv_def)
  from pop_ids [OF this q(1), where g = br_resp] q(2) assms(1,3-) show ?thesis
    by (auto simp: front_inv_def pq_Len_size)
qed

lemma dequeue_none:
  assumes "front_inv outCap f" and "dequeue f = (f1, None)"
  shows "f1 = f \<and> pq_entries (fr_queue f) = {#}"
proof -
  obtain q where q: "pq_pop (fr_queue f) = (q, None)" "f1 = f\<lparr>fr_queue := q\<rparr>"
    using assms(2) by (auto simp: dequeue_def split: prod.splits)
  have "pq_inv (fr_queue f)" using assms(1) by (simp add: front_inv_def)
  from pop_ids [OF this q(1)] q(2) show ?thesis by simp
qed

lemma serve_reply:
  assumes "serve st f request = Some f2"
  shows "\<exists>a. fr_queue f2 = fr_queue f \<and> fr_answers f2 = fr_answers f @ [(br_resp request, a)] \<and>
    fr_next f2 = fr_next f \<and> fr_closed f2 = fr_closed f \<and> fr_started f2 = fr_started f \<and> fr_phase f2 = fr_phase f"
  using assms by (auto simp: serve_def reply_def split: option.splits prod.splits)

lemma front_step_inv: "front_step st outCap f f' \<Longrightarrow> front_inv outCap f \<Longrightarrow> front_inv outCap f'"
proof (induction rule: front_step.induct)
  case (start f)
  then show ?case by (auto simp: Run_def front_inv_def)
next
  case (send f ctxErr ctx frame)
  then show ?case by (rule callers_inv)
next
  case (raw_op f ctxErr ctx fn)
  then show ?case by (rule callers_inv)
next
  case (serve f f1 request f2)
  then show ?case using dequeue_reply_inv [OF serve.prems serve.hyps(2)] serve_reply [OF serve.hyps(3)] by auto
next
  case (idle_done f f1)
  then show ?case using dequeue_none [OF idle_done.prems idle_done.hyps(2)] by (auto simp: front_inv_def)
next
  case (mark f)
  then show ?case by (auto simp: front_inv_def markClosed_def)
next
  case (drain_next f f1)
  obtain f0 request where r: "dequeue f = (f0, Some request)"
    using drain_next.hyps(2) by (auto simp: drain_one_def split: prod.splits option.splits)
  show ?case
    using drain_next r by (intro dequeue_reply_inv [OF drain_next.prems r]) (auto simp: drain_one_def reply_def)
next
  case (drain_end f f1)
  have "dequeue f = (f1, None)" using drain_end.hyps(2) by (auto simp: drain_one_def split: prod.splits option.splits)
  from dequeue_none [OF drain_end.prems this] drain_end show ?case by (auto simp: front_inv_def)
qed

lemma reachable_inv: "reachable st outCap w f \<Longrightarrow> front_inv outCap f"
proof (induction rule: reachable.induct)
  case init
  have "pq_inv (newPriorityQueue :: 'a request priority_queue)" "pq_entries (newPriorityQueue :: 'a request priority_queue) = {#}"
    using send_queue.new_inv send_queue.new_entries by blast+
  then show ?case by (simp add: front_inv_def NewBus_def pq_Len_size)
qed (rule front_step_inv)

section \<open>Properties\<close>


text \<open>A bus with one queued frame that is started, idle at once after serving, and shut down.\<close>

definition front_run :: "unit front" where
  "front_run = fst (Send 64 (NewBus ()) None None wire_request)"


end
