(* ===== verification/Source_Selection.thy ===== *)
theory Source_Selection
  imports Wire_Escape "HOL-Library.Multiset"
begin

text \<open>
  The source-address selector, \<open>protocol/source_address_selection.go\<close> after its table: evidence about
  addresses, passive observation with an optional inquiry, the candidate order with its hint, the
  validation of candidates and \<open>Select\<close>.  The bus it listens to and the clock are not code of the
  repository; they are operations on a world of their own.
\<close>

section \<open>Evidence\<close>

datatype occupancy =
    SourceAddressOccupancyUnknown | SourceAddressOccupancyObservedFree
  | SourceAddressOccupancyObservedOccupied | SourceAddressOccupancyStaleKnownDevice
  | SourceAddressOccupancyOther string

record known_occupancy =
  ko_Address :: byte
  ko_State :: occupancy

record known_evidence =
  CurrentObservation :: "known_occupancy list"
  Topology :: "known_occupancy list"
  Cache :: "known_occupancy list"
  StaleKnownDevices :: "byte list"
  CompanionProvenance :: "known_occupancy list"

definition mergeSourceAddressOccupancy :: "occupancy \<Rightarrow> occupancy \<Rightarrow> occupancy" where
  "mergeSourceAddressOccupancy current next =
     (case next of
        SourceAddressOccupancyObservedOccupied \<Rightarrow> SourceAddressOccupancyObservedOccupied
      | SourceAddressOccupancyStaleKnownDevice \<Rightarrow>
          if current \<noteq> SourceAddressOccupancyObservedOccupied then SourceAddressOccupancyStaleKnownDevice else current
      | SourceAddressOccupancyObservedFree \<Rightarrow>
          if current = SourceAddressOccupancyUnknown then SourceAddressOccupancyObservedFree else current
      | _ \<Rightarrow> current)"

section \<open>Observation\<close>

definition defaultSourceAddressLikelyTargetSourceMin :: int where "defaultSourceAddressLikelyTargetSourceMin = 2"
definition defaultSourceAddressLikelyTargetTargetMin :: int where "defaultSourceAddressLikelyTargetTargetMin = 2"
definition defaultSourceAddressTopTalkerCount :: nat where "defaultSourceAddressTopTalkerCount = 8"

text \<open>Counters read as 0 when absent, as Go maps do.\<close>

record observation =
  sourceCount :: "byte \<rightharpoonup> int"
  targetCount :: "byte \<rightharpoonup> int"
  observedSources :: "byte set"
  observedSourceAddresses :: "byte set"
  observedProbableTargets :: "byte set"

definition newSourceAddressObservation :: observation where
  "newSourceAddressObservation = \<lparr>sourceCount = Map.empty, targetCount = Map.empty, observedSources = {},
     observedSourceAddresses = {}, observedProbableTargets = {}\<rparr>"

definition count_at :: "(byte \<rightharpoonup> int) \<Rightarrow> byte \<Rightarrow> int" where
  "count_at m k = (case m k of Some n \<Rightarrow> n | None \<Rightarrow> 0)"

definition addFrame :: "observation \<Rightarrow> frame \<Rightarrow> observation" where
  "addFrame o0 f =
     (let src = Source f; tgt = Target f;
          o1 = o0\<lparr>sourceCount := (sourceCount o0)(src \<mapsto> count_at (sourceCount o0) src + 1),
                   targetCount := (targetCount o0)(tgt \<mapsto> count_at (targetCount o0) tgt + 1),
                   observedSources := insert src (observedSources o0)\<rparr>;
          o2 = (if IsInitiatorCapableAddress src then
                  if count_at (sourceCount o1) src \<ge> defaultSourceAddressLikelyTargetSourceMin
                  then o1\<lparr>observedSourceAddresses := insert src (observedSourceAddresses o1)\<rparr> else o1
                else o1\<lparr>observedProbableTargets := insert src (observedProbableTargets o1)\<rparr>)
      in if count_at (targetCount o2) tgt \<ge> defaultSourceAddressLikelyTargetTargetMin
         then o2\<lparr>observedProbableTargets := insert tgt (observedProbableTargets o2)\<rparr> else o2)"

definition sortedKeys :: "byte set \<Rightarrow> byte list" where
  "sortedKeys s = filter (\<lambda>b. b \<in> s) all_bytes"

text \<open>Most frequent sources first, ties by address; the sort is stable on the ascending keys.\<close>

definition topTalkers :: "observation \<Rightarrow> nat \<Rightarrow> byte list" where
  "topTalkers ob limit =
     (let keys = filter (\<lambda>b. sourceCount ob b \<noteq> None) all_bytes;
          ranked = sort_key (\<lambda>b. - count_at (sourceCount ob) b) keys
      in if limit > 0 \<and> length ranked > limit then take limit ranked else ranked)"

definition merge_records :: "byte \<Rightarrow> known_occupancy list \<Rightarrow> occupancy \<Rightarrow> occupancy" where
  "merge_records address records state =
     foldl (\<lambda>s r. if ko_Address r = address then mergeSourceAddressOccupancy s (ko_State r) else s) state records"

definition resolveKnownAddressOccupancy :: "known_evidence \<Rightarrow> byte \<Rightarrow> observation option \<Rightarrow> occupancy" where
  "resolveKnownAddressOccupancy evidence address ob =
     (let s1 = merge_records address (CurrentObservation evidence) SourceAddressOccupancyUnknown;
          s2 = merge_records address (Topology evidence) s1;
          s3 = merge_records address (Cache evidence) s2;
          s4 = foldl (\<lambda>s a. if a = address then mergeSourceAddressOccupancy s SourceAddressOccupancyStaleKnownDevice else s)
                 s3 (StaleKnownDevices evidence);
          s5 = merge_records address (CompanionProvenance evidence) s4;
          occupied = (\<lambda>s. mergeSourceAddressOccupancy s SourceAddressOccupancyObservedOccupied)
      in case ob of
           None \<Rightarrow> s5
         | Some x \<Rightarrow>
             let s6 = (if address \<in> observedSourceAddresses x then occupied s5 else s5);
                 s7 = (if count_at (sourceCount x) address \<ge> defaultSourceAddressLikelyTargetSourceMin then occupied s6 else s6)
             in if count_at (targetCount x) address \<ge> defaultSourceAddressLikelyTargetTargetMin then occupied s7 else s7)"

definition ResolveKnownAddressOccupancy :: "known_evidence \<Rightarrow> byte \<Rightarrow> occupancy" where
  "ResolveKnownAddressOccupancy evidence address = resolveKnownAddressOccupancy evidence address None"

section \<open>Configuration\<close>

text \<open>A description or priority of the configuration is a string; the empty one means any.\<close>

datatype wanted_description = AnyDescription | Described source_description | UnknownDescription string

record selection_config =
  ListenWarmup :: int
  InquiryEnabled :: bool
  InquiryCooldown :: int
  InquiryMaxAttempts :: int
  InquiryDisableOnNoNew :: bool
  SourceDescription :: wanted_description
  PriorityIndex :: "priority_index option"
  ExplicitSource :: byte
  ExplicitSourceSet :: bool
  HintCandidate :: byte
  HintCandidateSet :: bool
  Evidence :: known_evidence

definition normalizeSourceAddressSelectionConfig :: "selection_config \<Rightarrow> selection_config" where
  "normalizeSourceAddressSelectionConfig cfg =
     (let c1 = (if ListenWarmup cfg \<le> 0 then cfg\<lparr>ListenWarmup := 5 * 1000000000\<rparr> else cfg);
          c2 = (if InquiryCooldown c1 \<le> 0 then c1\<lparr>InquiryCooldown := 60 * 1000000000\<rparr> else c1)
      in if InquiryMaxAttempts c2 \<le> 0 then c2\<lparr>InquiryMaxAttempts := 3\<rparr> else c2)"

datatype selection_mode =
    SourceAddressSelectionModeDefaultPolicy | SourceAddressSelectionModeSourceDescriptionConstrainedPolicy
  | SourceAddressSelectionModePriorityFilteredDefaultPolicy | SourceAddressSelectionModeExplicitValidateOnly

definition selectionMode :: "selection_config \<Rightarrow> selection_mode" where
  "selectionMode cfg =
     (if ExplicitSourceSet cfg then SourceAddressSelectionModeExplicitValidateOnly
      else if SourceDescription cfg \<noteq> AnyDescription then SourceAddressSelectionModeSourceDescriptionConstrainedPolicy
      else if PriorityIndex cfg \<noteq> None then SourceAddressSelectionModePriorityFilteredDefaultPolicy
      else SourceAddressSelectionModeDefaultPolicy)"

definition isKnownSourceAddressPriority :: "priority_index \<Rightarrow> bool" where
  "isKnownSourceAddressPriority p = (case p of SourceAddressPriorityOther _ \<Rightarrow> False | _ \<Rightarrow> True)"

definition isKnownSourceAddressDescription :: "wanted_description \<Rightarrow> bool" where
  "isKnownSourceAddressDescription d =
     list_ex (\<lambda>row. Described (row_CanonicalDescription row) = d) sourceAddressTableV1"

text \<open>The metrics of a selection without its wall-clock duration.\<close>

record metrics =
  m_Mode :: selection_mode
  CandidatesConsidered :: "byte list"
  RejectionReasons :: "byte \<Rightarrow> string list"
  Occupancy :: "byte \<rightharpoonup> occupancy"
  m_ObservedSources :: "byte list"
  m_ObservedSourceAddresses :: "byte list"
  m_ObservedProbableTargets :: "byte list"
  TopTalkersBySource :: "byte list"
  m_HintCandidate :: byte
  m_HintCandidateSet :: bool
  HintAccepted :: bool
  HintRejectionReason :: string

text \<open>The reasons of a configuration error; their arguments are what the messages quote.\<close>

datatype config_reason =
    ExplicitWithDescription | ExplicitWithPriority | UnknownDescriptionReason wanted_description
  | UnknownPriorityReason priority_index | PolicySourceMissing byte | SelectionBusNil

datatype selection_error =
    ErrSourceAddressConfig config_reason
  | ErrSourceAddressValidation byte byte string
  | ErrNoAvailableSourceAddress metrics
  | ErrSourceAddressBusObservation string go_error
  | SelectionContextError go_error

definition validateSourceAddressSelectionConfig :: "selection_config \<Rightarrow> selection_error option" where
  "validateSourceAddressSelectionConfig cfg =
     (if ExplicitSourceSet cfg \<and> SourceDescription cfg \<noteq> AnyDescription
      then Some (ErrSourceAddressConfig ExplicitWithDescription)
      else if ExplicitSourceSet cfg \<and> PriorityIndex cfg \<noteq> None
      then Some (ErrSourceAddressConfig ExplicitWithPriority)
      else if SourceDescription cfg \<noteq> AnyDescription \<and> \<not> isKnownSourceAddressDescription (SourceDescription cfg)
      then Some (ErrSourceAddressConfig (UnknownDescriptionReason (SourceDescription cfg)))
      else case PriorityIndex cfg of
          Some p \<Rightarrow> if \<not> isKnownSourceAddressPriority p
            then Some (ErrSourceAddressConfig (UnknownPriorityReason p)) else None
        | None \<Rightarrow> None)"

section \<open>Candidates\<close>

definition applyHintBias :: "table_row list \<Rightarrow> selection_config \<Rightarrow> table_row list" where
  "applyHintBias rows cfg =
     (if \<not> HintCandidateSet cfg \<or> ExplicitSourceSet cfg then rows
      else if length rows \<le> 1 then rows
      else case find (\<lambda>i. row_Source (rows ! i) = HintCandidate cfg) [0..<length rows] of
          None \<Rightarrow> rows
        | Some hintIdx \<Rightarrow>
            if hintIdx = 0 then rows
            else [rows ! hintIdx] @ take hintIdx rows @ drop (hintIdx + 1) rows)"

definition wanted_priority :: "selection_config \<Rightarrow> table_row \<Rightarrow> bool" where
  "wanted_priority cfg row \<longleftrightarrow> (case PriorityIndex cfg of None \<Rightarrow> True | Some p \<Rightarrow> row_PriorityIndex row = p)"

text \<open>The loop over the default policy; a missing row is an error of the configuration.\<close>

fun policy_rows :: "selection_config \<Rightarrow> byte list \<Rightarrow> selection_error + table_row list" where
  "policy_rows cfg [] = Inr []"
| "policy_rows cfg (source # sources) =
     (case LookupSourceAddress source of
        None \<Rightarrow> Inl (ErrSourceAddressConfig (PolicySourceMissing source))
      | Some row \<Rightarrow>
          (case policy_rows cfg sources of
             Inl e \<Rightarrow> Inl e
           | Inr rows \<Rightarrow> Inr (if wanted_priority cfg row then row # rows else rows)))"

definition candidateRowsForSourceAddressSelection :: "selection_config \<Rightarrow> selection_error + table_row list" where
  "candidateRowsForSourceAddressSelection cfg =
     (if ExplicitSourceSet cfg then
        (case LookupSourceAddress (ExplicitSource cfg) of
           None \<Rightarrow> Inl (ErrSourceAddressValidation (ExplicitSource cfg) (CompanionAddressForSource (ExplicitSource cfg))
             ''source-not-in-standard-table'')
         | Some row \<Rightarrow> Inr [row])
      else if SourceDescription cfg \<noteq> AnyDescription then
        Inr (applyHintBias (filter (\<lambda>row. Described (row_CanonicalDescription row) = SourceDescription cfg \<and>
          wanted_priority cfg row) sourceAddressTableV1) cfg)
      else case policy_rows cfg helianthusGatewayDefaultPolicyV1 of
          Inl e \<Rightarrow> Inl e
        | Inr rows \<Rightarrow> Inr (applyHintBias rows cfg))"

definition companionRejectionReason :: "occupancy \<Rightarrow> string" where
  "companionRejectionReason state =
     (case state of
        SourceAddressOccupancyObservedOccupied \<Rightarrow> ''companion-observed-occupied''
      | SourceAddressOccupancyStaleKnownDevice \<Rightarrow> ''companion-stale-known-device''
      | SourceAddressOccupancyObservedFree \<Rightarrow> ''''
      | _ \<Rightarrow> ''companion-unknown'')"

definition recordSourceAddressOccupancy :: "metrics \<Rightarrow> byte \<Rightarrow> occupancy \<Rightarrow> metrics" where
  "recordSourceAddressOccupancy m address state = m\<lparr>Occupancy := (Occupancy m)(address \<mapsto> state)\<rparr>"

text \<open>The rejection is its reason; source and companion are those of the row.\<close>

definition validateSourceAddressCandidate ::
  "table_row \<Rightarrow> known_evidence \<Rightarrow> observation \<Rightarrow> metrics \<Rightarrow> metrics \<times> string option" where
  "validateSourceAddressCandidate row evidence ob m =
     (let sourceState = resolveKnownAddressOccupancy evidence (row_Source row) (Some ob);
          m1 = recordSourceAddressOccupancy m (row_Source row) sourceState in
      if sourceState = SourceAddressOccupancyObservedOccupied then (m1, Some ''source-observed-occupied'')
      else if sourceState = SourceAddressOccupancyStaleKnownDevice then (m1, Some ''source-stale-known-device'')
      else
        let companionState = resolveKnownAddressOccupancy evidence (row_Companion row) (Some ob);
            m2 = recordSourceAddressOccupancy m1 (row_Companion row) companionState in
        if row_Source row = 0xFF \<and> companionState \<noteq> SourceAddressOccupancyObservedFree
        then (m2, Some (companionRejectionReason companionState))
        else if companionState = SourceAddressOccupancyObservedOccupied then (m2, Some ''companion-observed-occupied'')
        else if companionState = SourceAddressOccupancyStaleKnownDevice then (m2, Some ''companion-stale-known-device'')
        else (m2, None))"

definition appendUniqueByte :: "byte list \<Rightarrow> byte \<Rightarrow> byte list" where
  "appendUniqueByte values' value = (if value \<in> set values' then values' else values' @ [value])"

section \<open>The selector\<close>

record selection =
  sel_Source :: byte
  sel_Companion :: byte
  sel_Mode :: selection_mode
  sel_Metrics :: metrics

definition hint_active :: "selection_config \<Rightarrow> bool" where
  "hint_active cfg \<longleftrightarrow> HintCandidateSet cfg \<and> \<not> ExplicitSourceSet cfg"

fun select_loop ::
  "selection_config \<Rightarrow> observation \<Rightarrow> table_row list \<Rightarrow> metrics \<Rightarrow> selection_error + selection" where
  "select_loop cfg ob [] m = Inl (ErrNoAvailableSourceAddress m)"
| "select_loop cfg ob (row # rows) m =
     (let m1 = m\<lparr>CandidatesConsidered := appendUniqueByte (CandidatesConsidered m) (row_Source row)\<rparr>;
          hint = (hint_active cfg \<and> row_Source row = HintCandidate cfg) in
      case validateSourceAddressCandidate row (Evidence cfg) ob m1 of
        (m2, Some reason) \<Rightarrow>
          let m3 = m2\<lparr>RejectionReasons := (RejectionReasons m2)(row_Source row := RejectionReasons m2 (row_Source row) @ [reason])\<rparr>;
              m4 = (if hint \<and> HintRejectionReason m3 = [] then m3\<lparr>HintRejectionReason := reason\<rparr> else m3)
          in if ExplicitSourceSet cfg then Inl (ErrSourceAddressValidation (row_Source row) (row_Companion row) reason)
             else select_loop cfg ob rows m4
      | (m2, None) \<Rightarrow>
          let m3 = (if hint then m2\<lparr>HintAccepted := True\<rparr> else m2)
          in Inr \<lparr>sel_Source = row_Source row, sel_Companion = row_Companion row, sel_Mode = m_Mode m3, sel_Metrics = m3\<rparr>)"

record selector =
  inquiryAttempts :: int
  inquiryNoNewCount :: int
  inquiryDisabled :: bool
  lastInquiryAt :: go_time

text \<open>The surroundings: listening delivers frames in order and may fail; contexts and the clock.\<close>

record 'w selection_env =
  se_BusNil :: bool
  se_Listen :: "'w \<Rightarrow> int \<Rightarrow> 'w \<times> frame list \<times> go_error option"
  se_InquiryExistence :: "'w \<Rightarrow> 'w \<times> go_error option"
  se_ctxErr :: "'w \<Rightarrow> 'w \<times> go_error option"
  se_now :: "'w \<Rightarrow> 'w \<times> go_time"

definition is_context_error :: "go_error \<Rightarrow> bool" where
  "is_context_error e \<longleftrightarrow> errors_Is_opaque e ''context canceled'' \<or> errors_Is_opaque e ''context deadline exceeded''"

definition observeWindow ::
  "'w selection_env \<Rightarrow> 'w \<Rightarrow> int \<Rightarrow> observation \<Rightarrow> 'w \<times> observation \<times> selection_error option" where
  "observeWindow env w duration ob =
     (if duration \<le> 0 then (w, ob, None)
      else if se_BusNil env then (w, ob, Some (ErrSourceAddressConfig SelectionBusNil))
      else case se_Listen env w duration of
        (w1, frames, err) \<Rightarrow>
          let ob1 = foldl addFrame ob frames in
          (case err of
             None \<Rightarrow> (w1, ob1, None)
           | Some e \<Rightarrow>
               if is_context_error e then
                 (case se_ctxErr env w1 of
                    (w2, Some ce) \<Rightarrow> (w2, ob1, Some (SelectionContextError ce))
                  | (w2, None) \<Rightarrow> (w2, ob1, None))
               else (w1, ob1, Some (ErrSourceAddressBusObservation ''listen'' e))))"

definition shouldRunInquiry :: "'w selection_env \<Rightarrow> 'w \<Rightarrow> selector \<Rightarrow> selection_config \<Rightarrow> 'w \<times> bool" where
  "shouldRunInquiry env w s cfg =
     (if \<not> InquiryEnabled cfg \<or> InquiryMaxAttempts cfg \<le> 0 then (w, False)
      else if inquiryDisabled s then (w, False)
      else if inquiryAttempts s \<ge> InquiryMaxAttempts cfg then (w, False)
      else if InquiryCooldown cfg > 0 \<and> lastInquiryAt s \<noteq> 0 then
        (case se_now env w of (w1, now) \<Rightarrow> (w1, \<not> time_sub now (lastInquiryAt s) < InquiryCooldown cfg))
      else (w, True))"

definition markInquiryAttempt :: "'w selection_env \<Rightarrow> 'w \<Rightarrow> selector \<Rightarrow> 'w \<times> selector" where
  "markInquiryAttempt env w s =
     (case se_now env w of (w1, now) \<Rightarrow> (w1, s\<lparr>inquiryAttempts := inquiryAttempts s + 1, lastInquiryAt := now\<rparr>))"

definition markInquiryResult :: "selector \<Rightarrow> selection_config \<Rightarrow> bool \<Rightarrow> selector" where
  "markInquiryResult s cfg foundNew =
     (if foundNew then s\<lparr>inquiryNoNewCount := 0\<rparr>
      else let s1 = s\<lparr>inquiryNoNewCount := inquiryNoNewCount s + 1\<rparr>
           in if InquiryDisableOnNoNew cfg \<and> inquiryNoNewCount s1 \<ge> InquiryMaxAttempts cfg
              then s1\<lparr>inquiryDisabled := True\<rparr> else s1)"

definition defaultSourceAddressInquiryFollowupWindow :: int where
  "defaultSourceAddressInquiryFollowupWindow = 1500 * 1000000"

text \<open>The optional inquiry; a failure that is not the context's is only counted.\<close>

definition run_inquiry ::
  "'w selection_env \<Rightarrow> 'w \<Rightarrow> selector \<Rightarrow> selection_config \<Rightarrow> observation \<Rightarrow> 'w \<times> selector \<times> observation \<times> selection_error option" where
  "run_inquiry env w s cfg ob =
     (case markInquiryAttempt env w s of (w1, s1) \<Rightarrow>
      (case se_InquiryExistence env w1 of
         (w2, None) \<Rightarrow>
           (case observeWindow env w2 defaultSourceAddressInquiryFollowupWindow ob of
              (w3, ob3, listenErr) \<Rightarrow>
                let found = card (observedSourceAddresses ob3) > card (observedSourceAddresses ob) in
                (case listenErr of
                   None \<Rightarrow> (w3, markInquiryResult s1 cfg found, ob3, None)
                 | Some (SelectionContextError ce) \<Rightarrow>
                     if is_context_error ce then (w3, markInquiryResult s1 cfg found, ob3, None)
                     else (w3, s1, ob3, listenErr)
                 | Some (ErrSourceAddressBusObservation op e) \<Rightarrow>
                     if is_context_error e then (w3, markInquiryResult s1 cfg found, ob3, None)
                     else (w3, s1, ob3, listenErr)
                 | Some _ \<Rightarrow> (w3, s1, ob3, listenErr)))
       | (w2, Some e) \<Rightarrow>
           if is_context_error e then (w2, s1, ob, Some (SelectionContextError e))
           else (case se_ctxErr env w2 of
                   (w3, Some ce) \<Rightarrow> (w3, s1, ob, Some (SelectionContextError ce))
                 | (w3, None) \<Rightarrow> (w3, markInquiryResult s1 cfg False, ob, None))))"

definition initial_metrics :: "selection_config \<Rightarrow> observation \<Rightarrow> metrics" where
  "initial_metrics cfg ob =
     \<lparr>m_Mode = selectionMode cfg, CandidatesConsidered = [], RejectionReasons = (\<lambda>_. []), Occupancy = Map.empty,
      m_ObservedSources = sortedKeys (observedSources ob),
      m_ObservedSourceAddresses = sortedKeys (observedSourceAddresses ob),
      m_ObservedProbableTargets = sortedKeys (observedProbableTargets ob),
      TopTalkersBySource = topTalkers ob defaultSourceAddressTopTalkerCount,
      m_HintCandidate = (if hint_active cfg then HintCandidate cfg else 0), m_HintCandidateSet = hint_active cfg,
      HintAccepted = False, HintRejectionReason = []\<rparr>"

definition Selector_Select ::
  "'w selection_env \<Rightarrow> 'w \<Rightarrow> selector \<Rightarrow> selection_config \<Rightarrow> 'w \<times> selector \<times> (selection_error + selection)" where
  "Selector_Select env w s cfg0 =
     (let cfg = normalizeSourceAddressSelectionConfig cfg0 in
      case validateSourceAddressSelectionConfig cfg of
        Some e \<Rightarrow> (w, s, Inl e)
      | None \<Rightarrow>
        (case observeWindow env w (ListenWarmup cfg) newSourceAddressObservation of
           (w1, ob1, Some e) \<Rightarrow> (w1, s, Inl e)
         | (w1, ob1, None) \<Rightarrow>
           (case shouldRunInquiry env w1 s cfg of (w2, shouldInquiry) \<Rightarrow>
            (case (if shouldInquiry then run_inquiry env w2 s cfg ob1 else (w2, s, ob1, None)) of
               (w3, s3, ob3, Some e) \<Rightarrow> (w3, s3, Inl e)
             | (w3, s3, ob3, None) \<Rightarrow>
                 (case candidateRowsForSourceAddressSelection cfg of
                    Inl e \<Rightarrow> (w3, s3, Inl e)
                  | Inr rows \<Rightarrow> (w3, s3, select_loop cfg ob3 rows (initial_metrics cfg ob3)))))))"

definition NewSourceAddressSelector :: selector where
  "NewSourceAddressSelector = \<lparr>inquiryAttempts = 0, inquiryNoNewCount = 0, inquiryDisabled = False, lastInquiryAt = 0\<rparr>"

section \<open>Occupancy is the worst evidence\<close>

text \<open>All states the evidence and the observation give for an address, in the order of the code.\<close>

definition evidence_states :: "known_evidence \<Rightarrow> byte \<Rightarrow> observation option \<Rightarrow> occupancy list" where
  "evidence_states ev a ob =
     (let states = (\<lambda>rs. map ko_State (filter (\<lambda>r. ko_Address r = a) rs)) in
      states (CurrentObservation ev) @ states (Topology ev) @ states (Cache ev) @
      map (\<lambda>_. SourceAddressOccupancyStaleKnownDevice) (filter (\<lambda>x. x = a) (StaleKnownDevices ev)) @
      states (CompanionProvenance ev) @
      (case ob of None \<Rightarrow> [] | Some x \<Rightarrow>
         if a \<in> observedSourceAddresses x \<or> count_at (sourceCount x) a \<ge> 2 \<or> count_at (targetCount x) a \<ge> 2
         then [SourceAddressOccupancyObservedOccupied] else []))"

definition worst_state :: "occupancy list \<Rightarrow> occupancy" where
  "worst_state xs =
     (if SourceAddressOccupancyObservedOccupied \<in> set xs then SourceAddressOccupancyObservedOccupied
      else if SourceAddressOccupancyStaleKnownDevice \<in> set xs then SourceAddressOccupancyStaleKnownDevice
      else if SourceAddressOccupancyObservedFree \<in> set xs then SourceAddressOccupancyObservedFree
      else SourceAddressOccupancyUnknown)"

lemma worst_snoc: "worst_state (xs @ [x]) = mergeSourceAddressOccupancy (worst_state xs) x"
  by (cases x) (auto simp: worst_state_def mergeSourceAddressOccupancy_def)

lemma foldl_worst: "foldl mergeSourceAddressOccupancy (worst_state xs) ys = worst_state (xs @ ys)"
  by (induction ys arbitrary: xs) (simp_all add: worst_snoc [symmetric])

lemma merge_records_worst:
  "merge_records a rs (worst_state xs) = worst_state (xs @ map ko_State (filter (\<lambda>r. ko_Address r = a) rs))"
  unfolding merge_records_def
  by (induction rs arbitrary: xs) (simp_all add: worst_snoc [symmetric])

lemma merge_records_start:
  "merge_records a rs SourceAddressOccupancyUnknown = worst_state (map ko_State (filter (\<lambda>r. ko_Address r = a) rs))"
  using merge_records_worst [of a rs "[]"] by (simp add: worst_state_def)

lemma stale_worst:
  "foldl (\<lambda>s x. if x = a then mergeSourceAddressOccupancy s SourceAddressOccupancyStaleKnownDevice else s)
     (worst_state xs) ys =
   worst_state (xs @ map (\<lambda>_. SourceAddressOccupancyStaleKnownDevice) (filter (\<lambda>x. x = a) ys))"
  by (induction ys arbitrary: xs) (simp_all add: worst_snoc [symmetric])

lemma occupied_idem:
  "mergeSourceAddressOccupancy s SourceAddressOccupancyObservedOccupied = SourceAddressOccupancyObservedOccupied"
  by (simp add: mergeSourceAddressOccupancy_def)

lemma resolve_worst: "resolveKnownAddressOccupancy ev a ob = worst_state (evidence_states ev a ob)"
proof -
  have "worst_state (xs @ [SourceAddressOccupancyObservedOccupied]) = SourceAddressOccupancyObservedOccupied" for xs
    by (simp add: worst_state_def)
  then show ?thesis
    unfolding resolveKnownAddressOccupancy_def Let_def evidence_states_def
    by (auto simp: merge_records_start merge_records_worst stale_worst occupied_idem defaultSourceAddressLikelyTargetSourceMin_def
        defaultSourceAddressLikelyTargetTargetMin_def simp flip: append_assoc split: option.split)
qed

section \<open>The first admissible candidate is selected\<close>

definition busy :: "occupancy \<Rightarrow> bool" where
  "busy s \<longleftrightarrow> s = SourceAddressOccupancyObservedOccupied \<or> s = SourceAddressOccupancyStaleKnownDevice"

definition admissible :: "known_evidence \<Rightarrow> observation \<Rightarrow> table_row \<Rightarrow> bool" where
  "admissible ev ob row \<longleftrightarrow>
     (let source = resolveKnownAddressOccupancy ev (row_Source row) (Some ob);
          companion = resolveKnownAddressOccupancy ev (row_Companion row) (Some ob) in
      \<not> busy source \<and> \<not> busy companion \<and>
      (row_Source row = 0xFF \<longrightarrow> companion = SourceAddressOccupancyObservedFree))"

lemma validate_admissible: "snd (validateSourceAddressCandidate row ev ob m) = None \<longleftrightarrow> admissible ev ob row"
  by (auto simp: validateSourceAddressCandidate_def admissible_def busy_def Let_def)

lemma select_loop_find:
  "case select_loop cfg ob rows m of
     Inr sel \<Rightarrow> (\<exists>row. find (admissible (Evidence cfg) ob) rows = Some row \<and>
       sel_Source sel = row_Source row \<and> sel_Companion sel = row_Companion row)
   | Inl e \<Rightarrow> if ExplicitSourceSet cfg then rows = [] \<or> \<not> admissible (Evidence cfg) ob (hd rows)
       else find (admissible (Evidence cfg) ob) rows = None \<and> (\<exists>m'. e = ErrNoAvailableSourceAddress m')"
proof (induction rows arbitrary: m)
  case (Cons row rows)
  let ?m = "m\<lparr>CandidatesConsidered := appendUniqueByte (CandidatesConsidered m) (row_Source row)\<rparr>"
  obtain m2 r where v: "validateSourceAddressCandidate row (Evidence cfg) ob ?m = (m2, r)" by fastforce
  show ?case
  proof (cases r)
    case None
    then have "admissible (Evidence cfg) ob row" using validate_admissible [of row "Evidence cfg" ob ?m] v by simp
    then show ?thesis using v None by (simp add: Let_def)
  next
    case (Some reason)
    then have "\<not> admissible (Evidence cfg) ob row" using validate_admissible [of row "Evidence cfg" ob ?m] v by simp
    moreover obtain m4 where "select_loop cfg ob (row # rows) m =
        (if ExplicitSourceSet cfg then Inl (ErrSourceAddressValidation (row_Source row) (row_Companion row) reason)
         else select_loop cfg ob rows m4)"
      using v Some by (fastforce simp: Let_def)
    ultimately show ?thesis using Cons.IH [of m4] by (simp split: sum.splits)
  qed
qed simp

lemma find_some: "find P xs = Some x \<Longrightarrow> x \<in> set xs \<and> P x"
  by (induction xs) (auto split: if_splits)

text \<open>The hint only moves one row to the front.\<close>

lemma applyHintBias_mset: "mset (applyHintBias rows cfg) = mset rows"
proof -
  have "mset ([rows ! i] @ take i rows @ drop (i + 1) rows) = mset rows" if "i < length rows" for i
    by (subst (4) id_take_nth_drop [OF that]) simp
  then show ?thesis
    by (auto simp: applyHintBias_def split: option.splits dest!: find_some)
qed

lemma applyHintBias_first:
  assumes "HintCandidateSet cfg" "\<not> ExplicitSourceSet cfg" and "row \<in> set rows" "row_Source row = HintCandidate cfg"
  shows "row_Source (hd (applyHintBias rows cfg)) = HintCandidate cfg"
proof -
  obtain i where i: "i < length rows" "row = rows ! i" using assms(3) by (auto simp: in_set_conv_nth)
  show ?thesis
  proof (cases "find (\<lambda>i. row_Source (rows ! i) = HintCandidate cfg) [0..<length rows]")
    case None
    then have "\<forall>i < length rows. row_Source (rows ! i) \<noteq> HintCandidate cfg" by (auto simp: find_None_iff)
    then show ?thesis using i assms(4) by blast
  next
    case (Some k)
    then have "k < length rows" "row_Source (rows ! k) = HintCandidate cfg" using find_some by fastforce+
    then show ?thesis using Some assms i
      by (auto simp: applyHintBias_def hd_conv_nth le_Suc_eq)
  qed
qed

lemma policy_rows_table:
  "policy_rows cfg sources = Inr rows \<Longrightarrow> row \<in> set rows \<Longrightarrow> row \<in> set sourceAddressTableV1 \<and> wanted_priority cfg row"
proof (induction sources arbitrary: rows)
  case (Cons src srcs)
  obtain r where l: "LookupSourceAddress src = Some r" using Cons.prems by (cases "LookupSourceAddress src") auto
  then have "r \<in> set sourceAddressTableV1" using find_some unfolding LookupSourceAddress_def by metis
  then show ?case using Cons l by (auto split: sum.splits if_splits)
qed auto

lemma candidates_table:
  assumes "candidateRowsForSourceAddressSelection cfg = Inr rows" and "row \<in> set rows"
  shows "row \<in> set sourceAddressTableV1 \<and>
    (ExplicitSourceSet cfg \<longrightarrow> row_Source row = ExplicitSource cfg) \<and>
    (\<not> ExplicitSourceSet cfg \<longrightarrow> wanted_priority cfg row \<and>
       (SourceDescription cfg \<noteq> AnyDescription \<longrightarrow> Described (row_CanonicalDescription row) = SourceDescription cfg))"
proof (cases "ExplicitSourceSet cfg")
  case True
  then obtain r where "LookupSourceAddress (ExplicitSource cfg) = Some r" "rows = [r]"
    using assms(1) by (auto simp: candidateRowsForSourceAddressSelection_def split: option.splits)
  then show ?thesis using True assms(2) find_some unfolding LookupSourceAddress_def by fastforce
next
  case False
  have "set (applyHintBias xs cfg) = set xs" for xs using applyHintBias_mset by (metis set_mset_mset)
  then show ?thesis
    using False assms policy_rows_table [of cfg helianthusGatewayDefaultPolicyV1]
    by (auto simp: candidateRowsForSourceAddressSelection_def split: if_splits sum.splits)
qed

lemma table_companions: "\<forall>row \<in> set sourceAddressTableV1. row_Companion row = row_Source row + 5 \<and>
    AddressClassOf (row_Source row) = AddressClassMaster"
  by code_simp

lemma normalize_fields [simp]:
  "ExplicitSourceSet (normalizeSourceAddressSelectionConfig cfg) = ExplicitSourceSet cfg"
  "ExplicitSource (normalizeSourceAddressSelectionConfig cfg) = ExplicitSource cfg"
  "SourceDescription (normalizeSourceAddressSelectionConfig cfg) = SourceDescription cfg"
  "PriorityIndex (normalizeSourceAddressSelectionConfig cfg) = PriorityIndex cfg"
  "Evidence (normalizeSourceAddressSelectionConfig cfg) = Evidence cfg"
  by (simp_all add: normalizeSourceAddressSelectionConfig_def Let_def)

section \<open>The inquiry budget\<close>

lemma run_inquiry_attempts:
  "run_inquiry env w s cfg ob = (w', s', ob', e) \<Longrightarrow> inquiryAttempts s' = inquiryAttempts s + 1"
  by (auto simp: run_inquiry_def markInquiryAttempt_def markInquiryResult_def Let_def
      split: prod.splits option.splits selection_error.splits if_splits)

lemma Selector_Select_attempts:
  assumes "Selector_Select env w s cfg = (w', s', r)"
    and "inquiryAttempts s \<le> InquiryMaxAttempts (normalizeSourceAddressSelectionConfig cfg)"
  shows "inquiryAttempts s' \<le> InquiryMaxAttempts (normalizeSourceAddressSelectionConfig cfg)"
proof -
  let ?cfg = "normalizeSourceAddressSelectionConfig cfg"
  have "inquiryAttempts s < InquiryMaxAttempts ?cfg" if "shouldRunInquiry env w1 s ?cfg = (w2, True)" for w1 w2
    using that by (auto simp: shouldRunInquiry_def split: if_splits prod.splits)
  then show ?thesis using assms
    by (auto simp: Selector_Select_def Let_def split: option.splits prod.splits sum.splits if_splits
        dest!: run_inquiry_attempts) fastforce+
qed

section \<open>Properties\<close>

text \<open>
  occupancy is the worst evidence.  The state resolved for an address is occupied if any record,
  the list of stale devices or the observation says so, else stale, else free, else unknown,
  whatever the order and the source of the records.
\<close>

theorem occupancy_is_worst_evidence:
  "resolveKnownAddressOccupancy ev a ob = worst_state (evidence_states ev a ob)"
  by (rule resolve_worst)


text \<open>A quiet bus, and one on which 0x7F talks to the companion of 0x3F.\<close>

definition quiet_evidence :: known_evidence where
  "quiet_evidence = \<lparr>CurrentObservation = [], Topology = [], Cache = [], StaleKnownDevices = [], CompanionProvenance = []\<rparr>"

definition default_selection :: selection_config where
  "default_selection = \<lparr>ListenWarmup = 0, InquiryEnabled = False, InquiryCooldown = 0, InquiryMaxAttempts = 0,
     InquiryDisableOnNoNew = False, SourceDescription = AnyDescription, PriorityIndex = None, ExplicitSource = 0,
     ExplicitSourceSet = False, HintCandidate = 0, HintCandidateSet = False, Evidence = quiet_evidence\<rparr>"

definition chatty_env :: "unit selection_env" where
  "chatty_env = \<lparr>se_BusNil = False, se_Listen = (\<lambda>w d. (w, replicate 2 \<lparr>Source = 0x7F, Target = 0x44, Primary = 0xB5,
     Secondary = 0x04, Data = [], FrameType = FrameTypeUnknown\<rparr>, None)),
     se_InquiryExistence = (\<lambda>w. (w, None)), se_ctxErr = (\<lambda>w. (w, None)), se_now = (\<lambda>w. (w, 1))\<rparr>"


end
