(* ===== verification/Enh_Codec.thy ===== *)
theory Enh_Codec
  imports Ebus_Errors
begin

text \<open>
  The enhanced adapter protocol of \<open>transport/enh.go\<close>: the two-byte frame code and the
  incremental parser of the adapter's byte stream.
\<close>

section \<open>Commands and frames\<close>

type_synonym enh_command = byte

definition ENHReqInit :: enh_command where "ENHReqInit = 0x0"
definition ENHReqSend :: enh_command where "ENHReqSend = 0x1"
definition ENHReqStart :: enh_command where "ENHReqStart = 0x2"
definition ENHReqInfo :: enh_command where "ENHReqInfo = 0x3"
definition ENHResResetted :: enh_command where "ENHResResetted = 0x0"
definition ENHResReceived :: enh_command where "ENHResReceived = 0x1"
definition ENHResStarted :: enh_command where "ENHResStarted = 0x2"
definition ENHResInfo :: enh_command where "ENHResInfo = 0x3"
definition ENHResFailed :: enh_command where "ENHResFailed = 0xA"
definition ENHResErrorEBUS :: enh_command where "ENHResErrorEBUS = 0xB"
definition ENHResErrorHost :: enh_command where "ENHResErrorHost = 0xC"

lemmas enh_command_defs [codec_simps] =
  ENHReqInit_def ENHReqSend_def ENHReqStart_def ENHReqInfo_def ENHResResetted_def
  ENHResReceived_def ENHResStarted_def ENHResInfo_def ENHResFailed_def ENHResErrorEBUS_def
  ENHResErrorHost_def

definition enhByteFlag :: byte where "enhByteFlag = 0x80"
definition enhByteMask :: byte where "enhByteMask = 0xC0"
definition enhByte1 :: byte where "enhByte1 = 0xC0"
definition enhByte2 :: byte where "enhByte2 = 0x80"

lemmas enh_mask_defs [codec_simps] =
  enhByteFlag_def enhByteMask_def enhByte1_def enhByte2_def

definition ErrUnknownENHCommand :: go_error where
  "ErrUnknownENHCommand = Wrap [] (Sentinel ErrInvalidPayload) '': unknown ENH command''"

record enh_frame =
  Command :: enh_command
  FrameData :: byte

definition EncodeENH :: "enh_command \<Rightarrow> byte \<Rightarrow> byte \<times> byte" where
  "EncodeENH command data =
     (enhByte1 OR push_bit 2 command OR drop_bit 6 (data AND 0xC0),
      enhByte2 OR (data AND 0x3F))"

definition known_command :: "enh_command \<Rightarrow> bool" where
  "known_command cmd \<longleftrightarrow>
     cmd = ENHReqInit \<or> cmd = ENHReqSend \<or> cmd = ENHReqStart \<or> cmd = ENHReqInfo \<or>
     cmd = ENHResFailed \<or> cmd = ENHResErrorEBUS \<or> cmd = ENHResErrorHost"

definition DecodeENH :: "byte \<Rightarrow> byte \<Rightarrow> enh_frame result" where
  "DecodeENH byte1 byte2 =
     (if byte1 AND enhByteMask \<noteq> enhByte1 then Inl (Sentinel ErrInvalidPayload)
      else if byte2 AND enhByteMask \<noteq> enhByte2 then Inl (Sentinel ErrInvalidPayload)
      else let cmd = drop_bit 2 byte1 AND 0x0F in
        if \<not> known_command cmd then Inl ErrUnknownENHCommand
        else Inr \<lparr>Command = cmd,
                  FrameData = push_bit 6 (byte1 AND 0x03) OR (byte2 AND 0x3F)\<rparr>)"

section \<open>The incremental parser\<close>

text \<open>
  A parsed item.  \<open>Kind\<close> has the single value \<open>ENHMessageFrame\<close> and \<open>Byte\<close> is never set by the
  parser, so both are left at their zero values.
\<close>

datatype enh_message_kind = ENHMessageFrame

record enh_message =
  msg_Kind :: enh_message_kind
  msg_Byte :: byte
  msg_Command :: enh_command
  msg_Data :: byte

definition frame_message :: "enh_command \<Rightarrow> byte \<Rightarrow> enh_message" where
  "frame_message cmd data =
     \<lparr>msg_Kind = ENHMessageFrame, msg_Byte = 0, msg_Command = cmd, msg_Data = data\<rparr>"

record enh_parser =
  parser_pending :: bool
  parser_byte1 :: byte

definition ENHParser_Reset :: "enh_parser \<Rightarrow> enh_parser" where
  "ENHParser_Reset p = p\<lparr>parser_pending := False, parser_byte1 := 0\<rparr>"

definition parser_clean :: enh_parser where
  "parser_clean = \<lparr>parser_pending = False, parser_byte1 = 0\<rparr>"

text \<open>The result is an error, or \<open>Some\<close> message when one is complete, or \<open>None\<close>.\<close>

definition ENHParser_Feed :: "enh_parser \<Rightarrow> byte \<Rightarrow> enh_parser \<times> enh_message option result" where
  "ENHParser_Feed p b =
     (if \<not> parser_pending p then
        (if b AND enhByteFlag = 0 then (p, Inr (Some (frame_message ENHResReceived b)))
         else if b AND enhByteMask = enhByte2 then (p, Inl (Sentinel ErrInvalidPayload))
         else (p\<lparr>parser_pending := True, parser_byte1 := b\<rparr>, Inr None))
      else if b AND enhByteMask \<noteq> enhByte2
        then (ENHParser_Reset p, Inl (Sentinel ErrInvalidPayload))
      else (case DecodeENH (parser_byte1 p) b of
          Inl e \<Rightarrow> (ENHParser_Reset p, Inl e)
        | Inr f \<Rightarrow> (ENHParser_Reset p, Inr (Some (frame_message (Command f) (FrameData f))))))"

text \<open>The loop of \<open>Parse\<close>: it stops at the first error and keeps the messages before it.\<close>

fun parse_loop :: "enh_parser \<Rightarrow> enh_message list \<Rightarrow> byte list \<Rightarrow>
    enh_parser \<times> enh_message list \<times> go_error option" where
  "parse_loop p out [] = (p, out, None)"
| "parse_loop p out (b # bs) =
     (case ENHParser_Feed p b of
        (p', Inl e) \<Rightarrow> (p', out, Some e)
      | (p', Inr None) \<Rightarrow> parse_loop p' out bs
      | (p', Inr (Some msg)) \<Rightarrow> parse_loop p' (out @ [msg]) bs)"

definition ENHParser_Parse :: "enh_parser \<Rightarrow> byte list \<Rightarrow>
    enh_parser \<times> enh_message list \<times> go_error option" where
  "ENHParser_Parse p data = (if data = [] then (p, [], None) else parse_loop p [] data)"

section \<open>The code is a bijection on known frames\<close>

definition decode_of_encode_at :: "enh_command \<Rightarrow> byte \<Rightarrow> bool" where
  "decode_of_encode_at cmd data =
     (case EncodeENH cmd data of (b1, b2) \<Rightarrow>
        DecodeENH b1 b2 = Inr \<lparr>Command = cmd, FrameData = data\<rparr> \<and>
        b1 AND enhByteFlag \<noteq> 0 \<and> b1 AND enhByteMask \<noteq> enhByte2 \<and> b2 AND enhByteMask = enhByte2)"

definition known_commands :: "enh_command list" where
  "known_commands = [0x0, 0x1, 0x2, 0x3, 0xA, 0xB, 0xC]"

lemma known_commands_set: "known_command cmd \<longleftrightarrow> cmd \<in> set known_commands"
  by (auto simp: known_command_def known_commands_def codec_simps)

text \<open>The data byte splits into its two top bits, carried by the first byte, and the rest.\<close>

definition data_split_ok :: "byte \<Rightarrow> bool" where
  "data_split_ok d =
     (drop_bit 6 (d AND 0xC0) \<in> set [0, 1, 2, 3] \<and>
      (0x80 OR (d AND 0x3F)) AND 0xC0 = 0x80 \<and>
      push_bit 6 (drop_bit 6 (d AND 0xC0)) OR ((0x80 OR (d AND 0x3F)) AND 0x3F) = d)"

definition lead_split_ok :: "enh_command \<Rightarrow> byte \<Rightarrow> bool" where
  "lead_split_ok cmd h =
     (let b1 = 0xC0 OR push_bit 2 cmd OR h in
        b1 AND 0xC0 = 0xC0 \<and> b1 AND 0x80 \<noteq> 0 \<and> drop_bit 2 b1 AND 0x0F = cmd \<and> b1 AND 0x03 = h)"

lemma data_split: "data_split_ok d"
proof -
  have "list_all data_split_ok all_bytes" by code_simp
  then show ?thesis by (simp add: list_all_iff)
qed

lemma lead_split: "known_command cmd \<Longrightarrow> h \<in> set [0, 1, 2, 3] \<Longrightarrow> lead_split_ok cmd h"
proof -
  have "list_all (\<lambda>cmd. list_all (lead_split_ok cmd) [0, 1, 2, 3]) known_commands"
    by code_simp
  then show "known_command cmd \<Longrightarrow> h \<in> set [0, 1, 2, 3] \<Longrightarrow> lead_split_ok cmd h"
    unfolding known_commands_set list_all_iff by blast
qed

lemma decode_of_encode:
  assumes "known_command cmd"
  shows "decode_of_encode_at cmd data"
proof -
  let ?h = "drop_bit 6 (data AND 0xC0)"
  have "lead_split_ok cmd ?h"
    using lead_split [OF assms] data_split [of data] by (simp only: data_split_ok_def)
  then show ?thesis
    using assms data_split [of data]
    by (simp add: decode_of_encode_at_def EncodeENH_def DecodeENH_def Let_def codec_simps
        data_split_ok_def lead_split_ok_def or.assoc)
qed

text \<open>For the converse, the two bytes are put back together one at a time.\<close>

definition high_part_ok :: "byte \<Rightarrow> bool" where
  "high_part_ok b1 = (b1 AND 0xC0 = 0xC0 \<longrightarrow>
     0xC0 OR push_bit 2 (drop_bit 2 b1 AND 0x0F) OR drop_bit 6 (push_bit 6 (b1 AND 0x03) AND 0xC0) = b1 \<and>
     push_bit 6 (b1 AND 0x03) AND 0x3F = 0)"

definition low_part_ok :: "byte \<Rightarrow> bool" where
  "low_part_ok b2 = ((b2 AND 0x3F) AND 0xC0 = 0 \<and>
     (b2 AND 0xC0 = 0x80 \<longrightarrow> 0x80 OR ((b2 AND 0x3F) AND 0x3F) = b2))"

lemma parts_ok: "high_part_ok b1" "low_part_ok b2"
proof -
  have "list_all high_part_ok all_bytes" "list_all low_part_ok all_bytes"
    by code_simp+
  then show "high_part_ok b1" "low_part_ok b2"
    by (simp_all add: list_all_iff)
qed

lemma encode_of_decode:
  assumes "DecodeENH b1 b2 = Inr f"
  shows "EncodeENH (Command f) (FrameData f) = (b1, b2) \<and> known_command (Command f)"
proof -
  let ?hi = "push_bit 6 (b1 AND 0x03)" and ?lo = "b2 AND 0x3F"
  have masks: "b1 AND 0xC0 = 0xC0" "b2 AND 0xC0 = 0x80"
    and f: "f = \<lparr>Command = drop_bit 2 b1 AND 0x0F, FrameData = ?hi OR ?lo\<rparr>"
    and known: "known_command (drop_bit 2 b1 AND 0x0F)"
    using assms by (auto simp: DecodeENH_def Let_def codec_simps split: if_splits)
  have "(?hi OR ?lo) AND 0xC0 = ?hi AND 0xC0" "(?hi OR ?lo) AND 0x3F = ?lo AND 0x3F"
    using parts_ok(1) [of b1] parts_ok(2) [of b2] masks
    by (simp_all only: bit.conj_disj_distrib2 high_part_ok_def low_part_ok_def or.right_neutral
        or.left_neutral simp_thms)
  then show ?thesis
    using parts_ok(1) [of b1] parts_ok(2) [of b2] masks known f
    by (simp add: EncodeENH_def codec_simps high_part_ok_def low_part_ok_def or.assoc)
qed

section \<open>Parser invariant and streams\<close>

text \<open>A pending first byte always has the two top bits set; a clean parser remembers nothing.\<close>

definition parser_inv :: "enh_parser \<Rightarrow> bool" where
  "parser_inv p \<longleftrightarrow>
     (if parser_pending p then parser_byte1 p AND enhByteMask = enhByte1 else p = parser_clean)"

definition lead_class_ok :: "byte \<Rightarrow> bool" where
  "lead_class_ok b =
     (b AND enhByteFlag \<noteq> 0 \<longrightarrow> b AND enhByteMask \<noteq> enhByte2 \<longrightarrow> b AND enhByteMask = enhByte1)"

lemma lead_class: "lead_class_ok b"
proof -
  have "list_all lead_class_ok all_bytes" by code_simp
  then show ?thesis by (simp add: list_all_iff)
qed

lemma parser_inv_Feed: "parser_inv p \<Longrightarrow> parser_inv (fst (ENHParser_Feed p b))"
  using lead_class [of b]
  by (auto simp: parser_inv_def ENHParser_Feed_def ENHParser_Reset_def parser_clean_def
      lead_class_ok_def split: sum.splits)

interpretation enh_machine: invariant_machine ENHParser_Feed parser_clean parser_inv
proof unfold_locales
  show "parser_inv parser_clean" by (simp add: parser_inv_def parser_clean_def)
qed (rule parser_inv_Feed)

lemma Feed_error_clean:
  "parser_inv p \<Longrightarrow> ENHParser_Feed p b = (p', Inl e) \<Longrightarrow> p' = parser_clean"
  by (auto simp: parser_inv_def ENHParser_Feed_def ENHParser_Reset_def parser_clean_def
      split: sum.splits if_splits)

lemma parse_loop_append_out:
  "parse_loop p out bs = (case parse_loop p [] bs of (p', out', e) \<Rightarrow> (p', out @ out', e))"
proof (induction bs arbitrary: p out)
  case Nil
  then show ?case by simp
next
  case (Cons b bs)
  show ?case
  proof (cases "ENHParser_Feed p b")
    case (Pair p' r)
    show ?thesis
    proof (cases r)
      case (Inl e)
      then show ?thesis using Pair by simp
    next
      case (Inr m)
      then show ?thesis
        using Pair Cons.IH [of p' out] Cons.IH [of p' "out @ [the m]"] Cons.IH [of p' "[the m]"]
        by (cases m) (simp_all split: prod.splits)
    qed
  qed
qed

lemma parse_loop_append:
  "parse_loop p out (xs @ ys) =
     (case parse_loop p out xs of
        (p', out', None) \<Rightarrow> parse_loop p' out' ys
      | (p', out', Some e) \<Rightarrow> (p', out', Some e))"
  by (induction xs arbitrary: p out) (auto split: prod.splits sum.splits option.splits)

lemma parse_loop_error_clean:
  "parser_inv p \<Longrightarrow> parse_loop p out bs = (p', out', Some e) \<Longrightarrow> p' = parser_clean"
proof (induction bs arbitrary: p out)
  case Nil
  then show ?case by simp
next
  case (Cons b bs)
  have inv: "parser_inv (fst (ENHParser_Feed p b))"
    using Cons.prems(1) by (rule parser_inv_Feed)
  show ?case
  proof (cases "ENHParser_Feed p b")
    case (Pair q r)
    with Cons.prems Cons.IH [of q] inv show ?thesis
      by (cases r) (auto dest: Feed_error_clean split: option.splits)
  qed
qed

text \<open>What an adapter sends: a raw byte below 0x80, or a two-byte frame with a known command.\<close>

datatype enh_item = RawItem byte | FrameItem enh_command byte

fun item_ok :: "enh_item \<Rightarrow> bool" where
  "item_ok (RawItem b) \<longleftrightarrow> b AND enhByteFlag = 0"
| "item_ok (FrameItem cmd data) \<longleftrightarrow> known_command cmd"

fun item_wire :: "enh_item \<Rightarrow> byte list" where
  "item_wire (RawItem b) = [b]"
| "item_wire (FrameItem cmd data) = [fst (EncodeENH cmd data), snd (EncodeENH cmd data)]"

fun item_message :: "enh_item \<Rightarrow> enh_message" where
  "item_message (RawItem b) = frame_message ENHResReceived b"
| "item_message (FrameItem cmd data) = frame_message cmd data"

lemma parse_loop_item:
  "item_ok it \<Longrightarrow> parse_loop parser_clean out (item_wire it) = (parser_clean, out @ [item_message it], None)"
proof (cases it)
  case (RawItem b)
  then show "item_ok it \<Longrightarrow> ?thesis"
    by (simp add: ENHParser_Feed_def parser_clean_def)
next
  case (FrameItem cmd data)
  then show "item_ok it \<Longrightarrow> ?thesis"
    using decode_of_encode [of cmd data]
    by (auto simp: ENHParser_Feed_def parser_clean_def ENHParser_Reset_def decode_of_encode_at_def
        split: prod.splits)
qed

lemma parse_loop_items:
  "list_all item_ok its \<Longrightarrow>
   parse_loop parser_clean out (concat (map item_wire its)) = (parser_clean, out @ map item_message its, None)"
  by (induction its arbitrary: out) (simp_all add: parse_loop_append parse_loop_item)

section \<open>Properties\<close>

text \<open>
  the two-byte frame code is a bijection between the frames with a known command and the
  byte pairs \<open>DecodeENH\<close> accepts: every frame decodes to itself and every accepted pair is the
  encoding of what it decodes to.
\<close>

theorem enh_code_bijective:
  "(known_command cmd \<longrightarrow>
      (case EncodeENH cmd data of (b1, b2) \<Rightarrow>
         DecodeENH b1 b2 = Inr \<lparr>Command = cmd, FrameData = data\<rparr>)) \<and>
   (DecodeENH c1 c2 = Inr f \<longrightarrow>
      known_command (Command f) \<and> EncodeENH (Command f) (FrameData f) = (c1, c2))"
  using decode_of_encode [of cmd data] encode_of_decode [of c1 c2 f]
  by (auto simp: decode_of_encode_at_def)

theorem enh_code_bijective_witness:
  "known_command ENHResStarted \<and> EncodeENH ENHResStarted 0x31 = (0xC8, 0xB1) \<and>
   DecodeENH 0xC8 0xB1 = Inr \<lparr>Command = ENHResStarted, FrameData = 0x31\<rparr>"
proof -
  have "known_command ENHResStarted" "EncodeENH ENHResStarted 0x31 = (0xC8, 0xB1)"
    by (simp_all add: known_command_def EncodeENH_def codec_simps)
  then show ?thesis
    using enh_code_bijective [of ENHResStarted "0x31" 0 0 undefined] by simp
qed



text \<open>
  a protocol violation is a clean fault boundary.  In every reachable parser state an
  error stops the parse at once with the messages of the bytes before it, no byte behind it is
  looked at, and the parser is back in its clean state.
\<close>

theorem enh_error_boundary:
  assumes "ENHParser_Parse (run_state ENHParser_Feed parser_clean pre) xs = (p', out, Some e)"
  shows "p' = parser_clean \<and>
    ENHParser_Parse (run_state ENHParser_Feed parser_clean pre) (xs @ ys) = (p', out, Some e)"
proof -
  let ?p = "run_state ENHParser_Feed parser_clean pre"
  have "parse_loop ?p [] xs = (p', out, Some e)"
    using assms by (simp add: ENHParser_Parse_def split: if_splits)
  then show ?thesis
    using parse_loop_error_clean [OF enh_machine.inv_reachable]
    by (auto simp: ENHParser_Parse_def parse_loop_append)
qed

theorem enh_error_boundary_witness:
  "fst (ENHParser_Parse (run_state ENHParser_Feed parser_clean [0xC8]) ([0x10] @ [0x20])) = parser_clean"
proof -
  have "ENHParser_Parse (run_state ENHParser_Feed parser_clean [0xC8]) [0x10]
      = (parser_clean, [], Some (Sentinel ErrInvalidPayload))"
    by (simp add: ENHParser_Parse_def ENHParser_Feed_def ENHParser_Reset_def parser_clean_def codec_simps)
  from enh_error_boundary [OF this, of "[0x20]"] show ?thesis by simp
qed

end
