(* ===== verification/Go_Loop.thy ===== *)
theory Go_Loop
  imports Main
begin

text \<open>
  The unconditional \<open>for\<close> loop of Go.  A round of the body either continues with a new state
  (\<open>Inl\<close>), or returns a result (\<open>Inr\<close>), or does not end (\<open>None\<close>); a loop that never returns is
  \<open>None\<close> too.
\<close>

partial_function (option) go_loop :: "('s \<Rightarrow> ('s + 'r) option) \<Rightarrow> 's \<Rightarrow> 'r option" where
  "go_loop body s =
     Option.bind (body s) (\<lambda>x. case x of Inl s' \<Rightarrow> go_loop body s' | Inr r \<Rightarrow> Some r)"

lemma go_loop_return: "body s = Some (Inr r) \<Longrightarrow> go_loop body s = Some r"
  by (subst go_loop.simps) simp

lemma go_loop_continue: "body s = Some (Inl s') \<Longrightarrow> go_loop body s = go_loop body s'"
  by (subst go_loop.simps) simp

text \<open>What holds of the state in every round and of the result of the last one.\<close>

lemma go_loop_invariant:
  fixes body :: "'s \<Rightarrow> ('s + 'r) option"
  assumes "go_loop body s = Some r" and "I s"
    and continue: "\<And>s s'. I s \<Longrightarrow> body s = Some (Inl s') \<Longrightarrow> I s'"
    and return: "\<And>s r. I s \<Longrightarrow> body s = Some (Inr r) \<Longrightarrow> Q r"
  shows "Q r"
proof -
  have "\<forall>I Q. I s \<and> (\<forall>s s'. I s \<longrightarrow> body s = Some (Inl s') \<longrightarrow> I s') \<and>
      (\<forall>s r. I s \<longrightarrow> body s = Some (Inr r) \<longrightarrow> Q r) \<longrightarrow> Q r"
  proof (rule go_loop.raw_induct [where P = "\<lambda>body s r. \<forall>I Q. I s \<and>
      (\<forall>s s'. I s \<longrightarrow> body s = Some (Inl s') \<longrightarrow> I s') \<and> (\<forall>s r. I s \<longrightarrow> body s = Some (Inr r) \<longrightarrow> Q r) \<longrightarrow> Q r",
      OF _ assms(1)])
    fix f :: "('s \<Rightarrow> ('s + 'r) option) \<Rightarrow> 's \<Rightarrow> 'r option" and body :: "'s \<Rightarrow> ('s + 'r) option" and s r
    assume IH: "\<And>body s r. f body s = Some r \<Longrightarrow> \<forall>I Q. I s \<and>
        (\<forall>s s'. I s \<longrightarrow> body s = Some (Inl s') \<longrightarrow> I s') \<and> (\<forall>s r. I s \<longrightarrow> body s = Some (Inr r) \<longrightarrow> Q r) \<longrightarrow> Q r"
      and step: "Option.bind (body s) (\<lambda>x. case x of Inl s' \<Rightarrow> f body s' | Inr r \<Rightarrow> Some r) = Some r"
    consider (cont) s' where "body s = Some (Inl s')" "f body s' = Some r" | (ret) "body s = Some (Inr r)"
      using step by (cases "body s") (auto split: sum.splits)
    then show "\<forall>I Q. I s \<and> (\<forall>s s'. I s \<longrightarrow> body s = Some (Inl s') \<longrightarrow> I s') \<and>
        (\<forall>s r. I s \<longrightarrow> body s = Some (Inr r) \<longrightarrow> Q r) \<longrightarrow> Q r"
    proof cases
      case cont
      then show ?thesis using IH [of body s' r] by blast
    next
      case ret
      then show ?thesis by blast
    qed
  qed
  then show ?thesis using assms(2) continue return by blast
qed

text \<open>A loop returns when every round ends and something gets smaller whenever it continues.\<close>

lemma go_loop_returns:
  assumes "I s"
    and ends: "\<And>s. I s \<Longrightarrow> body s \<noteq> None"
    and continue: "\<And>s s'. I s \<Longrightarrow> body s = Some (Inl s') \<Longrightarrow> I s' \<and> m s' < (m s :: nat)"
  shows "\<exists>r. go_loop body s = Some r"
  using assms(1)
proof (induction "m s" arbitrary: s rule: less_induct)
  case less
  obtain x where x: "body s = Some x" using ends [OF less.prems] by blast
  show ?case
  proof (cases x)
    case (Inl s')
    then show ?thesis using less x continue [OF less.prems] by (simp add: go_loop_continue)
  next
    case (Inr r)
    then show ?thesis using x by (simp add: go_loop_return)
  qed
qed

end
