(* ===== verification/Enh_Transport.thy ===== *)
theory Enh_Transport
  imports Bus_Transaction Enh_Codec Go_Loop
begin

text \<open>
  The ENH transport, \<open>transport/enh_transport.go\<close>: the client side of the enhanced adapter protocol
  with its queue of pending events, the escape decoder on the received symbols, arbitration in its
  blocking and asynchronous forms, INFO queries, initialisation and reconnection.  A method runs to its
  end before the next one starts, except that \<open>Close\<close> may run while \<open>dialFunc\<close> blocks; what a
  method asks of a \<open>net.Conn\<close>, a dialler and the clock are operations on a world of their own.
  A loop that waits for the adapter is a \<^const>\<open>go_loop\<close> over its round.
\<close>

section \<open>Connections\<close>

text \<open>Errors of the \<open>net\<close> package as the classification below sees them, with their text.\<close>

datatype net_kind =
    NetTimeout | NetEOF | NetErrClosed | NetClosedPipe | NetOsClosed | NetConnReset | NetConnAborted | NetOther

datatype net_error = NetError net_kind string | NetOpError string net_error

fun net_text :: "net_error \<Rightarrow> string" where
  "net_text (NetError k text) = text"
| "net_text (NetOpError op e) = op @ '': '' @ net_text e"

fun isTimeout :: "net_error \<Rightarrow> bool" where
  "isTimeout (NetError k text) \<longleftrightarrow> k = NetTimeout"
| "isTimeout (NetOpError op e) \<longleftrightarrow> isTimeout e"

fun isClosed :: "net_error \<Rightarrow> bool" where
  "isClosed (NetError k text) \<longleftrightarrow> k \<in> {NetEOF, NetErrClosed, NetClosedPipe, NetOsClosed, NetConnReset, NetConnAborted}"
| "isClosed (NetOpError op e) \<longleftrightarrow> isClosed e"

text \<open>
  Connections are numbers.  A read delivers at most the 256 bytes of the buffer; an error comes without
  bytes because the callers drop them.  \<open>UnixNano\<close> and \<open>time.Time\<close> share one scale here.
  A dialler also says whether \<open>Close\<close> ran while it was blocked.
\<close>

record 'w net_ops =
  net_Read :: "'w \<Rightarrow> nat \<Rightarrow> 'w \<times> (net_error + byte list)"
  net_Write :: "'w \<Rightarrow> nat \<Rightarrow> byte list \<Rightarrow> 'w \<times> nat \<times> net_error option"
  net_SetReadDeadline :: "'w \<Rightarrow> nat \<Rightarrow> go_time \<Rightarrow> 'w \<times> net_error option"
  net_SetWriteDeadline :: "'w \<Rightarrow> nat \<Rightarrow> go_time \<Rightarrow> 'w \<times> net_error option"
  net_Close :: "'w \<Rightarrow> nat \<Rightarrow> 'w \<times> net_error option"
  net_dial :: "('w \<Rightarrow> 'w \<times> bool \<times> (net_error + nat)) option"
  net_now :: "'w \<Rightarrow> 'w \<times> go_time"

definition has_dial :: "'w net_ops \<Rightarrow> bool" where
  "has_dial ops = (case net_dial ops of None \<Rightarrow> False | Some _ \<Rightarrow> True)"

section \<open>State\<close>

datatype stream_event_kind =
    StreamEventNone | StreamEventByte | StreamEventReset | StreamEventStarted | StreamEventFailed
  | StreamEventWireSyn | StreamEventRawSymbol

record stream_event =
  sev_Kind :: stream_event_kind
  sev_Byte :: byte
  sev_Data :: byte
  sev_WasEscaped :: bool

definition zero_event :: stream_event where
  "zero_event = \<lparr>sev_Kind = StreamEventNone, sev_Byte = 0, sev_Data = 0, sev_WasEscaped = False\<rparr>"

definition byte_event :: "byte \<Rightarrow> bool \<Rightarrow> stream_event" where
  "byte_event b e = zero_event\<lparr>sev_Kind := StreamEventByte, sev_Byte := b, sev_WasEscaped := e\<rparr>"

definition wire_syn_event :: stream_event where
  "wire_syn_event = zero_event\<lparr>sev_Kind := StreamEventWireSyn, sev_Byte := 0xAA\<rparr>"

definition control_event :: "stream_event_kind \<Rightarrow> byte \<Rightarrow> stream_event" where
  "control_event k d = zero_event\<lparr>sev_Kind := k, sev_Data := d\<rparr>"

definition maxPendingEvents :: nat where "maxPendingEvents = 256"
definition rawSymbolCompletesNext :: byte where "rawSymbolCompletesNext = 1"
definition arbitrationWindowTimeout :: int where "arbitrationWindowTimeout = 500 * 1000000"
definition postGrantPreEchoTimeout :: int where "postGrantPreEchoTimeout = 50 * 1000000"

record 'w enh =
  e_w :: 'w
  e_conn :: nat
  e_readTimeout :: int
  e_writeTimeout :: int
  e_closed :: bool
  e_parser :: enh_parser
  pendingEvents :: "stream_event list"
  deferredErr :: "go_error option"
  resets :: int
  awaitingStart :: bool
  awaitingStartInitiator :: "32 word"
  arbitrationDeadline :: go_time
  postGrantPreEcho :: bool
  postGrantPreEchoDeadline :: go_time
  postGrantWindowExpiredCount :: "64 word"
  escDecoder :: escape_decoder
  rawSymbolItems :: bool
  escapeResetPending :: bool
  decodeFaultTotal :: "64 word"
  escapePendingTimeoutTotal :: "64 word"
  escapeRecoveryTotal :: "64 word"
  escapeBudgetExhaustedTotal :: "64 word"
  escapeAaAbsorbedTotal :: "64 word"
  receivedSymbolsTotal :: "64 word"
  enhFramingErrorsTotal :: "64 word"
  enhParserResetsTotal :: "64 word"
  adapterResetResponsesTotal :: "64 word"

definition NewENHTransport :: "'w \<Rightarrow> nat \<Rightarrow> int \<Rightarrow> int \<Rightarrow> 'w enh" where
  "NewENHTransport w conn rt wt = \<lparr>e_w = w, e_conn = conn, e_readTimeout = rt, e_writeTimeout = wt,
     e_closed = False, e_parser = parser_clean, pendingEvents = [], deferredErr = None, resets = 0,
     awaitingStart = False, awaitingStartInitiator = 0, arbitrationDeadline = 0,
     postGrantPreEcho = False, postGrantPreEchoDeadline = 0, postGrantWindowExpiredCount = 0,
     escDecoder = escape_normal, rawSymbolItems = False, escapeResetPending = False, decodeFaultTotal = 0,
     escapePendingTimeoutTotal = 0, escapeRecoveryTotal = 0, escapeBudgetExhaustedTotal = 0,
     escapeAaAbsorbedTotal = 0, receivedSymbolsTotal = 0, enhFramingErrorsTotal = 0,
     enhParserResetsTotal = 0, adapterResetResponsesTotal = 0\<rparr>"

abbreviation closed_error :: "string \<Rightarrow> go_error" where
  "closed_error text \<equiv> Wrap text (Sentinel ErrTransportClosed) []"

definition err_enh_closed :: go_error where
  "err_enh_closed = closed_error ''enh transport closed: ''"

definition mapReadError :: "net_error \<Rightarrow> go_error" where
  "mapReadError err =
     (if isTimeout err then Wrap ''enh transport read timeout: '' (Sentinel ErrTimeout) []
      else if isClosed err then closed_error ''enh transport read closed: ''
      else closed_error (''enh transport read failed: '' @ net_text err @ '': ''))"

definition mapWriteError :: "net_error \<Rightarrow> go_error" where
  "mapWriteError err =
     (if isTimeout err then Wrap ''enh transport write timeout: '' (Sentinel ErrTimeout) []
      else if isClosed err then closed_error ''enh transport write closed: ''
      else closed_error (''enh transport write failed: '' @ net_text err @ '': ''))"

text \<open>A call that only touches the world.\<close>

definition in_world :: "('w \<Rightarrow> 'w \<times> 'r) \<Rightarrow> 'w enh \<Rightarrow> 'w enh \<times> 'r" where
  "in_world f t = (case f (e_w t) of (w, r) \<Rightarrow> (t\<lparr>e_w := w\<rparr>, r))"

definition now :: "'w net_ops \<Rightarrow> 'w enh \<Rightarrow> 'w enh \<times> go_time" where
  "now ops t = in_world (net_now ops) t"

definition setReadDeadline :: "'w net_ops \<Rightarrow> 'w enh \<Rightarrow> 'w enh \<times> net_error option" where
  "setReadDeadline ops t =
     (if e_readTimeout t \<le> 0 then in_world (\<lambda>w. net_SetReadDeadline ops w (e_conn t) 0) t
      else case now ops t of (t1, n) \<Rightarrow> in_world (\<lambda>w. net_SetReadDeadline ops w (e_conn t) (n + e_readTimeout t)) t1)"

definition setWriteDeadline :: "'w net_ops \<Rightarrow> 'w enh \<Rightarrow> 'w enh \<times> net_error option" where
  "setWriteDeadline ops t =
     (if e_writeTimeout t \<le> 0 then in_world (\<lambda>w. net_SetWriteDeadline ops w (e_conn t) 0) t
      else case now ops t of (t1, n) \<Rightarrow> in_world (\<lambda>w. net_SetWriteDeadline ops w (e_conn t) (n + e_writeTimeout t)) t1)"

section \<open>Parser, decoder, windows\<close>

definition resetENHParserLocked :: "'w enh \<Rightarrow> 'w enh" where
  "resetENHParserLocked t =
     t\<lparr>e_parser := ENHParser_Reset (e_parser t), enhParserResetsTotal := enhParserResetsTotal t + 1\<rparr>"

definition count_message :: "'w enh \<Rightarrow> enh_message \<Rightarrow> 'w enh" where
  "count_message t msg =
     (if msg_Command msg = ENHResReceived then t\<lparr>receivedSymbolsTotal := receivedSymbolsTotal t + 1\<rparr>
      else if msg_Command msg = ENHResResetted then t\<lparr>adapterResetResponsesTotal := adapterResetResponsesTotal t + 1\<rparr>
      else t)"

definition parseObservedLocked :: "'w enh \<Rightarrow> byte list \<Rightarrow> 'w enh \<times> enh_message list \<times> go_error option" where
  "parseObservedLocked t data =
     (case ENHParser_Parse (e_parser t) data of (p, msgs, err) \<Rightarrow>
        let t1 = foldl count_message (t\<lparr>e_parser := p\<rparr>) msgs;
            t2 = (if err \<noteq> None then t1\<lparr>enhFramingErrorsTotal := enhFramingErrorsTotal t1 + 1\<rparr> else t1)
        in (t2, msgs, err))"

definition reset_escape :: "'w enh \<Rightarrow> 'w enh" where
  "reset_escape t = t\<lparr>escDecoder := escape_Reset (escDecoder t)\<rparr>"

definition resetPendingEscapeBeforeEmissionLocked :: "'w enh \<Rightarrow> 'w enh" where
  "resetPendingEscapeBeforeEmissionLocked t =
     (let t1 = t\<lparr>escapeResetPending := False\<rparr> in if escapeResetPending t then reset_escape t1 else t1)"

text \<open>The counters an admin event bumps, and whether its byte is dropped.\<close>

definition applyEscapeAdminEvent :: "'w enh \<Rightarrow> admin_event \<Rightarrow> 'w enh \<times> bool" where
  "applyEscapeAdminEvent t admin =
     (case ae_Kind admin of
        AdminEventEscapePendingTimeout \<Rightarrow>
          (t\<lparr>escapePendingTimeoutTotal := escapePendingTimeoutTotal t + 1\<rparr>, False)
      | AdminEventEscapeRecovery \<Rightarrow>
          (t\<lparr>escapeRecoveryTotal := escapeRecoveryTotal t + 1, decodeFaultTotal := decodeFaultTotal t + 1\<rparr>, True)
      | AdminEventEscapeBudgetExhausted \<Rightarrow>
          (t\<lparr>escapeBudgetExhaustedTotal := escapeBudgetExhaustedTotal t + 1, decodeFaultTotal := decodeFaultTotal t + 1\<rparr>, True)
      | AdminEventNone \<Rightarrow> (t, False))"

definition feedEscapeDecoderLocked :: "'w net_ops \<Rightarrow> 'w enh \<Rightarrow> byte \<Rightarrow> 'w enh \<times> byte \<times> bool \<times> bool" where
  "feedEscapeDecoderLocked ops t raw =
     (case now ops t of (t1, n) \<Rightarrow>
      case Feed (escDecoder t1) (raw, n) of (d, decoded, ok, wasEscaped, admin) \<Rightarrow>
        let delta = AbsorbedCount d - AbsorbedCount (escDecoder t1);
            t2 = t1\<lparr>escDecoder := d\<rparr>;
            t3 = (if delta > 0 then t2\<lparr>escapeAaAbsorbedTotal := escapeAaAbsorbedTotal t2 + word_of_int delta\<rparr> else t2)
        in case applyEscapeAdminEvent t3 admin of
             (t4, True) \<Rightarrow> (t4, 0, False, False)
           | (t4, False) \<Rightarrow> (t4, decoded, ok, wasEscaped))"

definition arbitrationWindowExpired :: "'w net_ops \<Rightarrow> 'w enh \<Rightarrow> 'w enh \<times> bool" where
  "arbitrationWindowExpired ops t =
     (if arbitrationDeadline t = 0 then (t, False)
      else case now ops t of (t1, n) \<Rightarrow> (t1, n \<ge> arbitrationDeadline t))"

definition openPostGrantPreEchoWindow :: "'w net_ops \<Rightarrow> 'w enh \<Rightarrow> 'w enh" where
  "openPostGrantPreEchoWindow ops t =
     (case now ops t of (t1, n) \<Rightarrow>
        t1\<lparr>postGrantPreEchoDeadline := n + postGrantPreEchoTimeout, postGrantPreEcho := True\<rparr>)"

definition closePostGrantPreEchoWindow :: "'w enh \<Rightarrow> 'w enh" where
  "closePostGrantPreEchoWindow t = t\<lparr>postGrantPreEcho := False, postGrantPreEchoDeadline := 0\<rparr>"

definition postGrantPreEchoExpired :: "'w net_ops \<Rightarrow> 'w enh \<Rightarrow> 'w enh \<times> bool" where
  "postGrantPreEchoExpired ops t =
     (if postGrantPreEchoDeadline t = 0 then (t, False)
      else case now ops t of (t1, n) \<Rightarrow> (t1, n \<ge> postGrantPreEchoDeadline t))"

definition resetStateLocked :: "'w enh \<Rightarrow> 'w enh" where
  "resetStateLocked t =
     reset_escape ((closePostGrantPreEchoWindow ((resetENHParserLocked t)
       \<lparr>pendingEvents := [], deferredErr := None, awaitingStart := False, arbitrationDeadline := 0\<rparr>))
       \<lparr>escapeResetPending := False\<rparr>)"

definition surfaceResetLocked :: "'w enh \<Rightarrow> 'w enh" where
  "surfaceResetLocked t = (let t1 = resetStateLocked t in t1\<lparr>resets := resets t1 + 1\<rparr>)"

section \<open>The event queue\<close>

definition pendingCapLocked :: "'w enh \<Rightarrow> nat" where
  "pendingCapLocked t = (if rawSymbolItems t then 2 * maxPendingEvents else maxPendingEvents)"

definition appendDecodedByteLocked :: "'w enh \<Rightarrow> byte \<Rightarrow> bool \<Rightarrow> 'w enh" where
  "appendDecodedByteLocked t decoded wasEscaped =
     (if length (pendingEvents t) < maxPendingEvents
      then t\<lparr>pendingEvents := pendingEvents t @ [byte_event decoded wasEscaped]\<rparr> else t)"

definition appendWireSynLocked :: "'w enh \<Rightarrow> 'w enh" where
  "appendWireSynLocked t =
     (if length (pendingEvents t) < maxPendingEvents
      then t\<lparr>pendingEvents := pendingEvents t @ [wire_syn_event]\<rparr> else t)"

definition raw_symbol_event :: "byte \<Rightarrow> bool \<Rightarrow> stream_event" where
  "raw_symbol_event symbol hasLogical =
     zero_event\<lparr>sev_Kind := StreamEventRawSymbol, sev_Byte := symbol,
       sev_Data := (if hasLogical then rawSymbolCompletesNext else 0)\<rparr>"

text \<open>A symbol and the logical event it completed, if any.\<close>

definition queueObservedSymbolLocked :: "'w enh \<Rightarrow> byte \<Rightarrow> stream_event option \<Rightarrow> 'w enh" where
  "queueObservedSymbolLocked t symbol logical =
     (if \<not> rawSymbolItems t then
        (case logical of
           None \<Rightarrow> t
         | Some ev \<Rightarrow>
             if sev_Kind ev = StreamEventWireSyn then appendWireSynLocked t
             else appendDecodedByteLocked t (sev_Byte ev) (sev_WasEscaped ev))
      else
        let need = (case logical of Some _ \<Rightarrow> 2 | None \<Rightarrow> 3) in
        if length (pendingEvents t) + need > pendingCapLocked t then t
        else t\<lparr>pendingEvents := pendingEvents t @ [raw_symbol_event symbol (logical \<noteq> None)] @
               (case logical of Some ev \<Rightarrow> [ev] | None \<Rightarrow> [])\<rparr>)"

definition evictable :: "stream_event \<Rightarrow> bool" where
  "evictable ev \<longleftrightarrow> sev_Kind ev \<in> {StreamEventByte, StreamEventWireSyn, StreamEventRawSymbol}"

text \<open>Drop the oldest data event, a raw symbol together with the event it completes.\<close>

fun evict_data :: "stream_event list \<Rightarrow> stream_event list option" where
  "evict_data [] = None"
| "evict_data (ev # evs) =
     (if evictable ev then
        Some (if sev_Kind ev = StreamEventRawSymbol \<and> sev_Data ev = rawSymbolCompletesNext \<and> evs \<noteq> []
              then tl evs else evs)
      else map_option (\<lambda>rest. ev # rest) (evict_data evs))"

definition appendControlEventLocked :: "'w enh \<Rightarrow> stream_event \<Rightarrow> 'w enh" where
  "appendControlEventLocked t ev =
     (let t1 = (if length (pendingEvents t) \<ge> pendingCapLocked t then
          (case evict_data (pendingEvents t) of
             Some rest \<Rightarrow> t\<lparr>pendingEvents := rest\<rparr>
           | None \<Rightarrow> t\<lparr>pendingEvents := tl (pendingEvents t)\<rparr>) else t)
      in t1\<lparr>pendingEvents := pendingEvents t1 @ [ev]\<rparr>)"

section \<open>Messages that fill the queue\<close>

text \<open>A RECEIVED symbol, the same code in \<open>fillPendingLocked\<close> and \<open>RequestInfo\<close>.\<close>

definition emit_received :: "'w net_ops \<Rightarrow> 'w enh \<Rightarrow> byte \<Rightarrow> 'w enh" where
  "emit_received ops t symbol =
     (case feedEscapeDecoderLocked ops (resetPendingEscapeBeforeEmissionLocked t) symbol of
        (t1, decoded, ok, wasEscaped) \<Rightarrow>
          if \<not> ok then queueObservedSymbolLocked t1 symbol None
          else if postGrantPreEcho t1 then
            (case postGrantPreEchoExpired ops t1 of
               (t2, True) \<Rightarrow>
                 let t3 = closePostGrantPreEchoWindow t2 in
                 queueObservedSymbolLocked (t3\<lparr>postGrantWindowExpiredCount := postGrantWindowExpiredCount t3 + 1\<rparr>)
                   symbol (Some (byte_event decoded wasEscaped))
             | (t2, False) \<Rightarrow>
                 if decoded = 0xAA \<and> \<not> wasEscaped then t2
                 else queueObservedSymbolLocked (closePostGrantPreEchoWindow t2) symbol (Some (byte_event decoded wasEscaped)))
          else queueObservedSymbolLocked t1 symbol (Some (byte_event decoded wasEscaped)))"

definition on_received :: "'w net_ops \<Rightarrow> 'w enh \<Rightarrow> byte \<Rightarrow> 'w enh" where
  "on_received ops t symbol =
     (if awaitingStart t then
        (case arbitrationWindowExpired ops t of
           (t1, True) \<Rightarrow> emit_received ops ((reset_escape t1)\<lparr>awaitingStart := False, arbitrationDeadline := 0\<rparr>) symbol
         | (t1, False) \<Rightarrow>
             (case feedEscapeDecoderLocked ops t1 symbol of
                (t2, decoded, ok, wasEscaped) \<Rightarrow>
                  if ok \<and> decoded = 0xAA \<and> \<not> wasEscaped
                  then queueObservedSymbolLocked t2 symbol (Some wire_syn_event) else t2))
      else emit_received ops t symbol)"

definition on_started :: "'w net_ops \<Rightarrow> 'w enh \<Rightarrow> byte \<Rightarrow> 'w enh" where
  "on_started ops t data =
     (if awaitingStart t \<and> ucast (awaitingStartInitiator t) \<noteq> data
      then appendControlEventLocked t (control_event StreamEventStarted data)
      else appendControlEventLocked
        (openPostGrantPreEchoWindow ops (reset_escape (t\<lparr>awaitingStart := False, arbitrationDeadline := 0\<rparr>)))
        (control_event StreamEventStarted data))"

definition on_failed :: "'w enh \<Rightarrow> byte \<Rightarrow> 'w enh" where
  "on_failed t data =
     appendControlEventLocked
       (reset_escape (closePostGrantPreEchoWindow (t\<lparr>awaitingStart := False, arbitrationDeadline := 0\<rparr>)))
       (control_event StreamEventFailed data)"

section \<open>Writing\<close>

text \<open>The loop every request shares; the result counts the bytes handed over.\<close>

function write_loop :: "'w net_ops \<Rightarrow> byte list \<Rightarrow> nat \<Rightarrow> 'w enh \<Rightarrow> 'w enh \<times> nat \<times> go_error option" where
  "write_loop ops seq written t =
     (if written < length seq then
        (case setWriteDeadline ops t of
           (t1, Some err) \<Rightarrow> (t1, written, Some (mapWriteError err))
         | (t1, None) \<Rightarrow>
             (case in_world (\<lambda>w. net_Write ops w (e_conn t1) (drop written seq)) t1 of
                (t2, n, Some err) \<Rightarrow> (t2, written + n, Some (mapWriteError err))
              | (t2, n, None) \<Rightarrow>
                  if n = 0 then (t2, written, None) else write_loop ops seq (written + n) t2))
      else (t, written, None))"
  by auto
termination
  by (relation "measure (\<lambda>(ops, seq, written, t). length seq - written)") auto

declare write_loop.simps [simp del]

definition frame_bytes :: "enh_command \<Rightarrow> byte \<Rightarrow> byte list" where
  "frame_bytes cmd data = (case EncodeENH cmd data of (b1, b2) \<Rightarrow> [b1, b2])"

definition encode_payload :: "byte list \<Rightarrow> byte list" where
  "encode_payload payload = foldl (\<lambda>encoded b. encoded @ frame_bytes ENHReqSend b) [] payload"

text \<open>A request frame is sent in full or the error says why not.\<close>

definition send_frame :: "'w net_ops \<Rightarrow> enh_command \<Rightarrow> byte \<Rightarrow> go_error \<Rightarrow> 'w enh \<Rightarrow> 'w enh \<times> go_error option" where
  "send_frame ops cmd data short t =
     (let seq = frame_bytes cmd data in
      case write_loop ops seq 0 t of
        (t1, written, Some err) \<Rightarrow> (t1, Some err)
      | (t1, written, None) \<Rightarrow> (t1, if written \<noteq> length seq then Some short else None))"

definition ENH_Write :: "'w net_ops \<Rightarrow> byte list \<Rightarrow> 'w enh \<Rightarrow> 'w enh \<times> nat \<times> go_error option" where
  "ENH_Write ops payload t =
     (if e_closed t then (t, 0, Some err_enh_closed)
      else if payload = [] then (t, 0, None)
      else let encoded = encode_payload payload in
        case write_loop ops encoded 0 t of
          (t1, written, Some err) \<Rightarrow> (t1, written div 2, Some err)
        | (t1, written, None) \<Rightarrow>
            if written \<noteq> length encoded then (t1, written div 2, Some (Sentinel ErrInvalidPayload))
            else (t1, length payload, None))"

definition SendResponderBytes :: "'w net_ops \<Rightarrow> byte list \<Rightarrow> 'w enh \<Rightarrow> 'w enh \<times> nat \<times> go_error option" where
  "SendResponderBytes ops payload t = ENH_Write ops payload t"

section \<open>INIT and reconnection\<close>

record init_result =
  Features :: byte
  Confirmed :: bool

definition unconfirmed :: init_result where
  "unconfirmed = \<lparr>Features = 0, Confirmed = False\<rparr>"

definition initSendLocked :: "'w net_ops \<Rightarrow> byte \<Rightarrow> 'w enh \<Rightarrow> 'w enh \<times> go_error option" where
  "initSendLocked ops features t = send_frame ops ENHReqInit features (Sentinel ErrInvalidPayload) t"

text \<open>The messages of one read, until one of them settles the handshake.\<close>

fun init_messages :: "'w net_ops \<Rightarrow> 'w enh \<Rightarrow> enh_message list \<Rightarrow> 'w enh \<times> init_result result option" where
  "init_messages ops t [] = (t, None)"
| "init_messages ops t (msg # msgs) =
     (if msg_Command msg = ENHResReceived then
        (case feedEscapeDecoderLocked ops t (msg_Data msg) of
           (t1, decoded, ok, wasEscaped) \<Rightarrow>
             init_messages ops (queueObservedSymbolLocked t1 (msg_Data msg)
               (if ok then Some (byte_event decoded wasEscaped) else None)) msgs)
      else if msg_Command msg = ENHResResetted then
        (resetStateLocked t, Some (Inr \<lparr>Features = msg_Data msg, Confirmed = True\<rparr>))
      else if msg_Command msg = ENHResErrorEBUS then
        (t, Some (Inl (Wrap (''enh init ebus error 0x'' @ hex02x (msg_Data msg) @ '': '') (Sentinel ErrInvalidPayload) [])))
      else if msg_Command msg = ENHResErrorHost then
        (t, Some (Inl (Wrap (''enh init host error 0x'' @ hex02x (msg_Data msg) @ '': '') (Sentinel ErrAdapterHostError) [])))
      else init_messages ops t msgs)"

definition init_timeout :: "'w enh \<Rightarrow> 'w enh \<times> init_result result" where
  "init_timeout t = ((resetENHParserLocked t)\<lparr>deferredErr := None, awaitingStart := False\<rparr>, Inr unconfirmed)"

definition init_read_deadline :: "'w net_ops \<Rightarrow> int \<Rightarrow> 'w enh \<Rightarrow> 'w enh \<times> net_error option" where
  "init_read_deadline ops remaining t =
     (if e_readTimeout t \<le> 0 \<or> remaining < e_readTimeout t
      then (case now ops t of (t1, n) \<Rightarrow>
              in_world (\<lambda>w. net_SetReadDeadline ops w (e_conn t1) (n + remaining)) t1)
      else setReadDeadline ops t)"

definition init_data :: "'w net_ops \<Rightarrow> 'w enh \<Rightarrow> byte list \<Rightarrow> 'w enh + ('w enh \<times> init_result result)" where
  "init_data ops t data =
     (if data = [] then Inl t
      else case parseObservedLocked t data of (t1, msgs, parseErr) \<Rightarrow>
        (case init_messages ops t1 msgs of
           (t2, Some r) \<Rightarrow> Inr (t2, r)
         | (t2, None) \<Rightarrow>
             (case parseErr of
                Some e \<Rightarrow> Inr (reset_escape (resetENHParserLocked t2), Inl e)
              | None \<Rightarrow> Inl t2)))"

definition init_round :: "'w net_ops \<Rightarrow> int \<Rightarrow> go_time \<Rightarrow> 'w enh \<Rightarrow> ('w enh + ('w enh \<times> init_result result)) option" where
  "init_round ops maxWait start t =
     (case now ops t of (t1, n) \<Rightarrow>
      let remaining = maxWait - time_sub n start in
      if remaining \<le> 0 then Some (Inr (init_timeout t1))
      else case init_read_deadline ops remaining t1 of
          (t2, Some err) \<Rightarrow> Some (Inr (t2, Inl (mapReadError err)))
        | (t2, None) \<Rightarrow>
            (case in_world (\<lambda>w. net_Read ops w (e_conn t2)) t2 of
               (t3, Inl err) \<Rightarrow> Some (Inr (if isTimeout err then init_timeout t3 else (t3, Inl (mapReadError err))))
             | (t3, Inr data) \<Rightarrow> Some (init_data ops t3 data)))"

definition initRecvResultLocked :: "'w net_ops \<Rightarrow> 'w enh \<Rightarrow> ('w enh \<times> init_result result) option" where
  "initRecvResultLocked ops t =
     (case now ops t of (t1, start) \<Rightarrow>
        go_loop (init_round ops (if e_readTimeout t \<le> 0 then 2 * 1000000000 else e_readTimeout t) start) t1)"

definition initWithResultLocked :: "'w net_ops \<Rightarrow> byte \<Rightarrow> 'w enh \<Rightarrow> ('w enh \<times> init_result result) option" where
  "initWithResultLocked ops features t =
     (case initSendLocked ops features t of
        (t1, Some err) \<Rightarrow> Some (t1, Inl err)
      | (t1, None) \<Rightarrow> initRecvResultLocked ops t1)"

definition InitWithResult :: "'w net_ops \<Rightarrow> byte \<Rightarrow> 'w enh \<Rightarrow> ('w enh \<times> init_result result) option" where
  "InitWithResult ops features t =
     (if e_closed t then Some (t, Inl err_enh_closed) else initWithResultLocked ops features t)"

text \<open>\<open>initLocked\<close> makes the same two calls and keeps the features byte only.\<close>

definition Init :: "'w net_ops \<Rightarrow> byte \<Rightarrow> 'w enh \<Rightarrow> ('w enh \<times> byte result) option" where
  "Init ops features t =
     (if e_closed t then Some (t, Inl err_enh_closed)
      else map_option (map_prod id (map_sum id Features)) (initWithResultLocked ops features t))"

definition Close_flags :: "'w enh \<Rightarrow> 'w enh" where
  "Close_flags t = closePostGrantPreEchoWindow (t\<lparr>e_closed := True, awaitingStart := False, arbitrationDeadline := 0\<rparr>)"

definition ENH_Close :: "'w net_ops \<Rightarrow> 'w enh \<Rightarrow> 'w enh \<times> net_error option" where
  "ENH_Close ops t = (let t1 = Close_flags t in in_world (\<lambda>w. net_Close ops w (e_conn t1)) t1)"

text \<open>The check of \<open>closed\<close> after the dial is made twice in the code, the second time under the locks.\<close>

definition reconnectLocked :: "'w net_ops \<Rightarrow> 'w enh \<Rightarrow> ('w enh \<times> go_error option) option" where
  "reconnectLocked ops t =
     (if e_closed t then Some (t, Some err_enh_closed)
      else case net_dial ops of
        None \<Rightarrow> Some (resetStateLocked t, None)
      | Some dial \<Rightarrow>
         (case in_world dial t of
            (t1, closing, Inl err) \<Rightarrow>
              Some (if closing then Close_flags t1 else t1,
                    Some (closed_error (''enh reconnect dial: '' @ net_text err @ '': '')))
          | (t1, closing, Inr newConn) \<Rightarrow>
              if closing then
                Some (fst (in_world (\<lambda>w. net_Close ops w newConn) (Close_flags t1)),
                      Some (closed_error ''enh transport closed during reconnect: ''))
              else
                let t2 = fst (in_world (\<lambda>w. net_Close ops w (e_conn t1)) (t1\<lparr>e_conn := newConn\<rparr>)) in
                (case initSendLocked ops 0x01 (resetStateLocked t2) of
                   (t3, Some sendErr) \<Rightarrow>
                     Some (fst (in_world (\<lambda>w. net_Close ops w (e_conn t3)) t3),
                           Some (closed_error (''enh reconnect init send: '' @ error_message sendErr @ '': '')))
                 | (t3, None) \<Rightarrow>
                     map_option (\<lambda>(t4, r). (t4,
                       case r of Inl err \<Rightarrow> Some (Wrap ''enh reconnect init recv: '' err []) | Inr _ \<Rightarrow> None))
                       (initRecvResultLocked ops t3))))"

definition Reconnect :: "'w net_ops \<Rightarrow> 'w enh \<Rightarrow> ('w enh \<times> go_error option) option" where
  "Reconnect ops t =
     (if e_closed t then Some (t, Some err_enh_closed)
      else if \<not> has_dial ops
        then Some (t, Some (closed_error ''enh transport reconnect: no dial function configured: ''))
      else reconnectLocked ops t)"

section \<open>Reading\<close>

definition err_reset_read :: go_error where
  "err_reset_read = closed_error ''enh adapter reset during read, reconnect failed: ''"

text \<open>
  The messages of one read.  \<open>Some\<close> in the second component is an early return of
  \<open>fillPendingLocked\<close> with that error.
\<close>

fun fill_messages :: "'w net_ops \<Rightarrow> 'w enh \<Rightarrow> enh_message list \<Rightarrow> ('w enh \<times> go_error option option) option" where
  "fill_messages ops t [] = Some (t, None)"
| "fill_messages ops t (msg # msgs) =
     (if msg_Command msg = ENHResReceived then fill_messages ops (on_received ops t (msg_Data msg)) msgs
      else if msg_Command msg = ENHResStarted then fill_messages ops (on_started ops t (msg_Data msg)) msgs
      else if msg_Command msg = ENHResFailed then fill_messages ops (on_failed t (msg_Data msg)) msgs
      else if msg_Command msg = ENHResResetted then
        (if has_dial ops then
           map_option (\<lambda>(t1, err). case err of
               Some _ \<Rightarrow> (t1, Some (Some err_reset_read))
             | None \<Rightarrow> (t1\<lparr>resets := resets t1 + 1\<rparr>, Some None)) (reconnectLocked ops t)
         else fill_messages ops
           (appendControlEventLocked (reset_escape (closePostGrantPreEchoWindow t))
             (control_event StreamEventReset (msg_Data msg))) msgs)
      else fill_messages ops t msgs)"

definition after_parse_error :: "'w enh \<Rightarrow> enh_message list \<Rightarrow> go_error \<Rightarrow> 'w enh \<times> go_error option" where
  "after_parse_error t msgs parseErr =
     (if errors_Is parseErr ErrInvalidPayload then
        let t1 = (reset_escape (resetENHParserLocked t))\<lparr>awaitingStart := False\<rparr> in
        if awaitingStart t then (t1, Some parseErr)
        else if msgs \<noteq> [] then (t1\<lparr>deferredErr := Some parseErr\<rparr>, None)
        else (t1, Some parseErr)
      else (t, Some parseErr))"

definition fillPendingLocked :: "'w net_ops \<Rightarrow> 'w enh \<Rightarrow> ('w enh \<times> go_error option) option" where
  "fillPendingLocked ops t =
     (case setReadDeadline ops t of
        (t1, Some err) \<Rightarrow> Some (t1, Some (mapReadError err))
      | (t1, None) \<Rightarrow>
         (case in_world (\<lambda>w. net_Read ops w (e_conn t1)) t1 of
            (t2, Inl err) \<Rightarrow>
              Some (if isTimeout err then
                      let t3 = resetENHParserLocked t2 in
                      (if awaitingStart t3 then reset_escape t3 else t3)\<lparr>awaitingStart := False\<rparr>
                    else t2, Some (mapReadError err))
          | (t2, Inr data) \<Rightarrow>
              if data = [] then Some (t2, None)
              else case parseObservedLocked t2 data of (t3, msgs, parseErr) \<Rightarrow>
                Option.bind (fill_messages ops t3 msgs) (\<lambda>(t4, early).
                  case early of
                    Some err \<Rightarrow> Some (t4, err)
                  | None \<Rightarrow>
                      Some (case parseErr of None \<Rightarrow> (t4, None) | Some e \<Rightarrow> after_parse_error t4 msgs e))))"

text \<open>Skip to the first byte event; the events before it are dropped.\<close>

fun next_byte :: "stream_event list \<Rightarrow> stream_event option \<times> stream_event list" where
  "next_byte [] = (None, [])"
| "next_byte (ev # evs) = (if sev_Kind ev = StreamEventByte then (Some ev, evs) else next_byte evs)"

text \<open>The end of a round with nothing to deliver: a deferred error, or the next read.\<close>

definition surface_or_fill :: "'w net_ops \<Rightarrow> 'w enh \<Rightarrow> ('w enh + ('w enh \<times> 'r result)) option" where
  "surface_or_fill ops t =
     (case deferredErr t of
        Some err \<Rightarrow> Some (Inr (t\<lparr>deferredErr := None\<rparr>, Inl err))
      | None \<Rightarrow>
          map_option (\<lambda>(t1, err). case err of Some e \<Rightarrow> Inr (t1, Inl e) | None \<Rightarrow> Inl t1) (fillPendingLocked ops t))"

definition read_byte_round :: "'w net_ops \<Rightarrow> 'w enh \<Rightarrow> ('w enh + ('w enh \<times> (byte \<times> bool) result)) option" where
  "read_byte_round ops t =
     (if resets t > 0 then Some (Inr (t\<lparr>resets := resets t - 1\<rparr>, Inl (Sentinel ErrAdapterReset)))
      else case next_byte (pendingEvents t) of
        (Some ev, rest) \<Rightarrow> Some (Inr (t\<lparr>pendingEvents := rest\<rparr>, Inr (sev_Byte ev, sev_WasEscaped ev)))
      | (None, rest) \<Rightarrow> surface_or_fill ops (t\<lparr>pendingEvents := rest\<rparr>))"

definition readByteAndFlag :: "'w net_ops \<Rightarrow> 'w enh \<Rightarrow> ('w enh \<times> (byte \<times> bool) result) option" where
  "readByteAndFlag ops t = (if e_closed t then Some (t, Inl err_enh_closed) else go_loop (read_byte_round ops) t)"

definition ENH_ReadByte :: "'w net_ops \<Rightarrow> 'w enh \<Rightarrow> ('w enh \<times> byte result) option" where
  "ENH_ReadByte ops t = map_option (map_prod id (map_sum id fst)) (readByteAndFlag ops t)"

definition ReadByteWithEscape :: "'w net_ops \<Rightarrow> 'w enh \<Rightarrow> ('w enh \<times> (byte \<times> bool) result) option" where
  "ReadByteWithEscape ops t = readByteAndFlag ops t"

fun next_logical :: "stream_event list \<Rightarrow> stream_event option \<times> stream_event list" where
  "next_logical [] = (None, [])"
| "next_logical (ev # evs) = (if sev_Kind ev = StreamEventRawSymbol then next_logical evs else (Some ev, evs))"

definition read_event_round :: "'w net_ops \<Rightarrow> 'w enh \<Rightarrow> ('w enh + ('w enh \<times> stream_event result)) option" where
  "read_event_round ops t =
     (if resets t > 0 then Some (Inr (t\<lparr>resets := resets t - 1\<rparr>, Inr (control_event StreamEventReset 0)))
      else case next_logical (pendingEvents t) of
        (Some ev, rest) \<Rightarrow> Some (Inr (t\<lparr>pendingEvents := rest\<rparr>, Inr ev))
      | (None, rest) \<Rightarrow> surface_or_fill ops (t\<lparr>pendingEvents := rest\<rparr>))"

definition ReadEvent :: "'w net_ops \<Rightarrow> 'w enh \<Rightarrow> ('w enh \<times> stream_event result) option" where
  "ReadEvent ops t = (if e_closed t then Some (t, Inl err_enh_closed) else go_loop (read_event_round ops) t)"

text \<open>An event with the raw symbol that completed it, if the item has one.\<close>

definition read_raw_round ::
  "'w net_ops \<Rightarrow> 'w enh \<Rightarrow> ('w enh + ('w enh \<times> (stream_event \<times> byte \<times> bool) result)) option" where
  "read_raw_round ops t =
     (if resets t > 0
      then Some (Inr (t\<lparr>resets := resets t - 1\<rparr>, Inr (control_event StreamEventReset 0, 0, False)))
      else case pendingEvents t of
        ev # rest \<Rightarrow>
          Some (Inr (if sev_Kind ev \<noteq> StreamEventRawSymbol then (t\<lparr>pendingEvents := rest\<rparr>, Inr (ev, 0, False))
            else if sev_Data ev = rawSymbolCompletesNext \<and> rest \<noteq> []
              then (t\<lparr>pendingEvents := tl rest\<rparr>, Inr (hd rest, sev_Byte ev, True))
            else (t\<lparr>pendingEvents := rest\<rparr>, Inr (zero_event, sev_Byte ev, True))))
      | [] \<Rightarrow> surface_or_fill ops t)"

definition ReadEventWithRawSymbol ::
  "'w net_ops \<Rightarrow> 'w enh \<Rightarrow> ('w enh \<times> (stream_event \<times> byte \<times> bool) result) option" where
  "ReadEventWithRawSymbol ops t =
     (if e_closed t then Some (t, Inl err_enh_closed) else go_loop (read_raw_round ops) (t\<lparr>rawSymbolItems := True\<rparr>))"

section \<open>Arbitration\<close>

definition err_arb_failed :: "byte \<Rightarrow> byte \<Rightarrow> go_error" where
  "err_arb_failed initiator winner =
     Wrap (''enh arbitration failed (initiator 0x'' @ hex02x initiator @ '', winner 0x'' @ hex02x winner @ ''): '')
       (Sentinel ErrBusCollision) []"

definition err_arb_wrong :: "byte \<Rightarrow> byte \<Rightarrow> nat \<Rightarrow> go_error" where
  "err_arb_wrong got initiator n =
     Wrap (''enh arbitration started with wrong address 0x'' @ hex02x got @ '' (expected 0x'' @ hex02x initiator @
       '', '' @ decimal n @ '' mismatches): '') (Sentinel ErrInvalidPayload) []"

text \<open>What the messages of one read say of the arbitration: mismatches, whether it is done, its error.\<close>

type_synonym arb_state = "nat \<times> bool \<times> go_error option"

fun arb_messages :: "'w net_ops \<Rightarrow> byte \<Rightarrow> 'w enh \<Rightarrow> arb_state \<Rightarrow> enh_message list \<Rightarrow> ('w enh \<times> arb_state) option" where
  "arb_messages ops initiator t s [] = Some (t, s)"
| "arb_messages ops initiator t (mismatches, fin, err) (msg # msgs) =
     (let data = msg_Data msg in
      if msg_Command msg = ENHResReceived then
        arb_messages ops initiator (fst (feedEscapeDecoderLocked ops t data)) (mismatches, fin, err) msgs
      else if msg_Command msg = ENHResResetted then
        Option.bind (reconnectLocked ops t) (\<lambda>(t1, reconnErr).
          arb_messages ops initiator t1 (mismatches, True, Some (case reconnErr of
              Some _ \<Rightarrow> closed_error ''enh adapter reset during arbitration, reconnect failed: ''
            | None \<Rightarrow> Wrap (''enh adapter reset during arbitration (features 0x'' @ hex02x data @ ''): '')
                (Sentinel ErrAdapterReset) [])) msgs)
      else if msg_Command msg = ENHResStarted then
        (if data = initiator then arb_messages ops initiator t (mismatches, True, err) msgs
         else if mismatches + 1 \<ge> 3
           then arb_messages ops initiator t
             (mismatches + 1, True, Some (err_arb_wrong data initiator (mismatches + 1))) msgs
         else arb_messages ops initiator t (mismatches + 1, fin, err) msgs)
      else if msg_Command msg = ENHResFailed then
        arb_messages ops initiator t (mismatches, True, Some (err_arb_failed initiator data)) msgs
      else if msg_Command msg = ENHResErrorEBUS then
        arb_messages ops initiator t (mismatches, True,
          Some (Wrap (''enh arbitration ebus error 0x'' @ hex02x data @ '': '') (Sentinel ErrBusCollision) [])) msgs
      else if msg_Command msg = ENHResErrorHost then
        arb_messages ops initiator t (mismatches, True,
          Some (Wrap (''enh arbitration host error 0x'' @ hex02x data @ '': '') (Sentinel ErrAdapterHostError) [])) msgs
      else arb_messages ops initiator t (mismatches, fin, err) msgs)"

definition arb_finish :: "'w net_ops \<Rightarrow> 'w enh \<Rightarrow> go_error option \<Rightarrow> 'w enh \<times> go_error option" where
  "arb_finish ops t err =
     (let t1 = reset_escape ((resetENHParserLocked t)
                 \<lparr>pendingEvents := [], deferredErr := None, awaitingStart := False\<rparr>)
      in (case err of None \<Rightarrow> openPostGrantPreEchoWindow ops t1 | Some _ \<Rightarrow> closePostGrantPreEchoWindow t1, err))"

definition arb_abort :: "'w enh \<Rightarrow> 'w enh" where
  "arb_abort t = reset_escape ((resetENHParserLocked t)\<lparr>deferredErr := None, awaitingStart := False\<rparr>)"

text \<open>The state of the loop is the number of mismatches and the transport.\<close>

definition arb_data :: "'w net_ops \<Rightarrow> byte \<Rightarrow> nat \<Rightarrow> 'w enh \<Rightarrow> byte list \<Rightarrow>
    ((nat \<times> 'w enh) + ('w enh \<times> go_error option)) option" where
  "arb_data ops initiator mismatches t data =
     (if data = [] then Some (Inl (mismatches, t))
      else case parseObservedLocked t data of (t1, msgs, parseErr) \<Rightarrow>
        map_option (\<lambda>(t2, mismatches', fin, err).
            if fin then Inr (arb_finish ops t2 err)
            else case parseErr of
              Some e \<Rightarrow> Inr (arb_abort t2, Some e)
            | None \<Rightarrow> Inl (mismatches', t2))
          (arb_messages ops initiator t1 (mismatches, False, None) msgs))"

definition arb_round :: "'w net_ops \<Rightarrow> byte \<Rightarrow> nat \<times> 'w enh \<Rightarrow> ((nat \<times> 'w enh) + ('w enh \<times> go_error option)) option" where
  "arb_round ops initiator s =
     (case s of (mismatches, t) \<Rightarrow>
      case setReadDeadline ops t of
        (t1, Some err) \<Rightarrow> Some (Inr (t1, Some (mapReadError err)))
      | (t1, None) \<Rightarrow>
         (case in_world (\<lambda>w. net_Read ops w (e_conn t1)) t1 of
            (t2, Inl err) \<Rightarrow> Some (Inr (if isTimeout err then arb_abort t2 else t2, Some (mapReadError err)))
          | (t2, Inr data) \<Rightarrow> arb_data ops initiator mismatches t2 data))"

definition StartArbitration :: "'w net_ops \<Rightarrow> byte \<Rightarrow> 'w enh \<Rightarrow> ('w enh \<times> go_error option) option" where
  "StartArbitration ops initiator t =
     (if e_closed t then Some (t, Some err_enh_closed)
      else case send_frame ops ENHReqStart initiator (Sentinel ErrInvalidPayload) t of
        (t1, Some err) \<Rightarrow> Some (t1, Some err)
      | (t1, None) \<Rightarrow> go_loop (arb_round ops initiator) (0, t1))"

definition roll_back_start :: "'w enh \<Rightarrow> 'w enh" where
  "roll_back_start t = t\<lparr>escapeResetPending := True, awaitingStart := False, arbitrationDeadline := 0\<rparr>"

definition RequestStart :: "'w net_ops \<Rightarrow> byte \<Rightarrow> 'w enh \<Rightarrow> 'w enh \<times> go_error option" where
  "RequestStart ops initiator t =
     (if e_closed t then (t, Some err_enh_closed)
      else let seq = frame_bytes ENHReqStart initiator in
      case setWriteDeadline ops t of
        (t1, Some err) \<Rightarrow> (t1, Some (mapWriteError err))
      | (t1, None) \<Rightarrow>
         (case now ops t1 of (t2, n) \<Rightarrow>
          let t3 = t2\<lparr>arbitrationDeadline := n + arbitrationWindowTimeout,
                      awaitingStartInitiator := ucast initiator, awaitingStart := True\<rparr> in
          case in_world (\<lambda>w. net_Write ops w (e_conn t3) seq) t3 of
            (t4, k, Some err) \<Rightarrow> (roll_back_start t4, Some (mapWriteError err))
          | (t4, k, None) \<Rightarrow>
              if k \<noteq> length seq then
                (roll_back_start t4, Some (Wrap (''enh request start short write ('' @ decimal k @ ''/'' @
                   decimal (length seq) @ ''): '') (Sentinel ErrInvalidPayload) []))
              else (t4, None)))"

section \<open>INFO queries\<close>

definition requestInfoFail :: "'w enh \<Rightarrow> go_error \<Rightarrow> 'w enh \<times> go_error" where
  "requestInfoFail t err =
     (let t1 = closePostGrantPreEchoWindow ((resetENHParserLocked t)
                 \<lparr>deferredErr := None, awaitingStart := False, arbitrationDeadline := 0\<rparr>);
          t2 = (if \<not> errors_Is err ErrTimeout \<or> awaitingStart t then reset_escape t1 else t1);
          t3 = (if errors_Is err ErrTransportClosed \<or> errors_Is err ErrAdapterReset
                then t2\<lparr>pendingEvents := []\<rparr> else t2)
      in (t3, err))"

text \<open>The answer so far: its length once known, its bytes, and whether a reset came before the end.\<close>

record info_state =
  payloadLen :: "nat option"
  info_payload :: "byte list"
  payloadComplete :: bool
  resetBeforeCompletion :: bool

definition on_info :: "info_state \<Rightarrow> byte \<Rightarrow> info_state" where
  "on_info s data =
     (case payloadLen s of
        None \<Rightarrow>
          let s1 = s\<lparr>payloadLen := Some (unat data), info_payload := []\<rparr> in
          if data = 0 then s1\<lparr>payloadComplete := True\<rparr> else s1
      | Some n \<Rightarrow>
          if length (info_payload s) < n then
            let s1 = s\<lparr>info_payload := info_payload s @ [data]\<rparr> in
            if length (info_payload s1) \<ge> n then s1\<lparr>payloadComplete := True\<rparr> else s1
          else s)"

fun info_messages :: "'w net_ops \<Rightarrow> 'w enh \<Rightarrow> info_state \<Rightarrow> enh_message list \<Rightarrow> 'w enh \<times> info_state result" where
  "info_messages ops t s [] = (t, Inr s)"
| "info_messages ops t s (msg # msgs) =
     (let data = msg_Data msg in
      if msg_Command msg = ENHResInfo then info_messages ops t (on_info s data) msgs
      else if msg_Command msg = ENHResReceived then info_messages ops (on_received ops t data) s msgs
      else if msg_Command msg = ENHResStarted then info_messages ops (on_started ops t data) s msgs
      else if msg_Command msg = ENHResFailed then info_messages ops (on_failed t data) s msgs
      else if msg_Command msg = ENHResResetted then
        info_messages ops (surfaceResetLocked t)
          (if payloadComplete s then s else s\<lparr>resetBeforeCompletion := True\<rparr>) msgs
      else if msg_Command msg = ENHResErrorEBUS then
        map_prod id Inl (requestInfoFail t
          (Wrap (''enh info ebus error 0x'' @ hex02x data @ '': '') (Sentinel ErrInvalidPayload) []))
      else if msg_Command msg = ENHResErrorHost then
        map_prod id Inl (requestInfoFail t
          (Wrap (''enh info host error 0x'' @ hex02x data @ '': '') (Sentinel ErrAdapterHostError) []))
      else info_messages ops t s msgs)"

definition info_fail :: "'w enh \<Rightarrow> go_error \<Rightarrow> 'w enh \<times> byte list result" where
  "info_fail t err = map_prod id Inl (requestInfoFail t err)"

definition info_data :: "'w net_ops \<Rightarrow> info_state \<Rightarrow> 'w enh \<Rightarrow> byte list \<Rightarrow>
    (info_state \<times> 'w enh) + ('w enh \<times> byte list result)" where
  "info_data ops s t data =
     (if data = [] then Inl (s, t)
      else case parseObservedLocked t data of (t1, msgs, parseErr) \<Rightarrow>
        (case info_messages ops t1 s msgs of
           (t2, Inl err) \<Rightarrow> Inr (t2, Inl err)
         | (t2, Inr s1) \<Rightarrow>
             if resetBeforeCompletion s1
               then Inr (info_fail t2 (Wrap ''enh adapter resetted during info request: '' (Sentinel ErrAdapterReset) []))
             else if payloadComplete s1 then Inr (t2, Inr (info_payload s1))
             else case parseErr of Some e \<Rightarrow> Inr (info_fail t2 e) | None \<Rightarrow> Inl (s1, t2)))"

definition info_round :: "'w net_ops \<Rightarrow> go_time \<Rightarrow> info_state \<times> 'w enh \<Rightarrow>
    ((info_state \<times> 'w enh) + ('w enh \<times> byte list result)) option" where
  "info_round ops readDeadline st =
     (case st of (s, t) \<Rightarrow>
      case now ops t of (t0, n) \<Rightarrow>
      if n > readDeadline
        then Some (Inr (info_fail t0 (Wrap ''enh info exchange deadline exceeded: '' (Sentinel ErrTimeout) [])))
      else case in_world (\<lambda>w. net_SetReadDeadline ops w (e_conn t0) readDeadline) t0 of
        (t1, Some err) \<Rightarrow> Some (Inr (info_fail t1 (mapReadError err)))
      | (t1, None) \<Rightarrow>
         (case in_world (\<lambda>w. net_Read ops w (e_conn t1)) t1 of
            (t2, Inl err) \<Rightarrow> Some (Inr (info_fail t2 (mapReadError err)))
          | (t2, Inr data) \<Rightarrow> Some (info_data ops s t2 data)))"

definition info_start :: info_state where
  "info_start = \<lparr>payloadLen = None, info_payload = [], payloadComplete = False, resetBeforeCompletion = False\<rparr>"

definition RequestInfo :: "'w net_ops \<Rightarrow> byte \<Rightarrow> 'w enh \<Rightarrow> ('w enh \<times> byte list result) option" where
  "RequestInfo ops info_id t =
     (if e_closed t then Some (t, Inl err_enh_closed)
      else case send_frame ops ENHReqInfo info_id
                (Wrap ''enh info request write incomplete: '' (Sentinel ErrInvalidPayload) []) t of
        (t1, Some err) \<Rightarrow> Some (info_fail t1 err)
      | (t1, None) \<Rightarrow>
         (case now ops t1 of (t2, n) \<Rightarrow>
            go_loop (info_round ops (n + (if e_readTimeout t \<le> 0 then 2 * 1000000000 else e_readTimeout t)))
              (info_start, t2)))"

section \<open>Observability\<close>

record baud_snapshot =
  ConfiguredBaud :: "64 word"
  ConfiguredBaudKnown :: bool
  ReceivedSymbolsTotal :: "64 word"
  ENHFramingErrorsTotal :: "64 word"
  ENHParserResetsTotal :: "64 word"
  AdapterResetResponsesTotal :: "64 word"
  EscapeDecodeFaultsTotal :: "64 word"
  EscapeRecoveriesTotal :: "64 word"
  EscapeBudgetExhaustedTotal :: "64 word"
  EscapePendingTimeoutsTotal :: "64 word"

definition BaudObservabilitySnapshot :: "'w enh \<Rightarrow> baud_snapshot" where
  "BaudObservabilitySnapshot t =
     \<lparr>ConfiguredBaud = 0, ConfiguredBaudKnown = False,
      ReceivedSymbolsTotal = receivedSymbolsTotal t, ENHFramingErrorsTotal = enhFramingErrorsTotal t,
      ENHParserResetsTotal = enhParserResetsTotal t, AdapterResetResponsesTotal = adapterResetResponsesTotal t,
      EscapeDecodeFaultsTotal = decodeFaultTotal t, EscapeRecoveriesTotal = escapeRecoveryTotal t,
      EscapeBudgetExhaustedTotal = escapeBudgetExhaustedTotal t,
      EscapePendingTimeoutsTotal = escapePendingTimeoutTotal t\<rparr>"

end
