(* ===== verification/Enh_Safety.thy ===== *)
theory Enh_Safety
  imports Enh_Transport
begin

text \<open>
  What the ENH transport keeps and guarantees: the invariant of its queue, parser, decoder and
  counters under every method, the isolation of an arbitration window, the delivery of a received
  symbol stream, and what reaches the adapter.
\<close>

named_theorems enh_keeps \<open>operations that keep the transport invariant\<close>

section \<open>The invariant\<close>

text \<open>A raw item that announces a logical item is directly followed by it.\<close>

fun paired :: "stream_event list \<Rightarrow> bool" where
  "paired [] = True"
| "paired (ev # evs) \<longleftrightarrow>
     (sev_Kind ev = StreamEventRawSymbol \<and> sev_Data ev = rawSymbolCompletesNext \<longrightarrow>
        evs \<noteq> [] \<and> sev_Kind (hd evs) \<in> {StreamEventByte, StreamEventWireSyn}) \<and> paired evs"

definition queue_ok :: "bool \<Rightarrow> stream_event list \<Rightarrow> bool" where
  "queue_ok raw evs \<longleftrightarrow>
     length evs \<le> (if raw then 2 * maxPendingEvents else maxPendingEvents) \<and> paired evs \<and>
     (raw \<or> list_all (\<lambda>ev. sev_Kind ev \<noteq> StreamEventRawSymbol) evs)"

definition enh_inv :: "'w enh \<Rightarrow> bool" where
  "enh_inv t \<longleftrightarrow>
     queue_ok (rawSymbolItems t) (pendingEvents t) \<and> parser_inv (e_parser t) \<and> decoder_inv (escDecoder t) \<and>
     resets t \<ge> 0 \<and> decodeFaultTotal t = escapeRecoveryTotal t + escapeBudgetExhaustedTotal t"

lemma paired_append_data:
  "paired evs \<Longrightarrow> sev_Kind ev \<noteq> StreamEventRawSymbol \<Longrightarrow> paired (evs @ [ev])"
  by (induction evs) (auto simp: hd_append)

lemma paired_append_raw:
  "paired evs \<Longrightarrow> sev_Kind ev \<in> {StreamEventByte, StreamEventWireSyn} \<Longrightarrow>
   paired (evs @ [raw_symbol_event symbol True, ev])"
  "paired evs \<Longrightarrow> paired (evs @ [raw_symbol_event symbol False])"
  by (induction evs)
    (auto simp: hd_append raw_symbol_event_def rawSymbolCompletesNext_def zero_event_def)

lemma paired_tl: "paired evs \<Longrightarrow> paired (tl evs)"
  by (cases evs) auto

lemma evict_data_shape:
  "evict_data evs = Some rest \<Longrightarrow> paired evs \<Longrightarrow>
   length rest < length evs \<and> paired rest \<and> set rest \<subseteq> set evs \<and>
   filter (\<lambda>ev. \<not> evictable ev) rest = filter (\<lambda>ev. \<not> evictable ev) evs"
proof (induction evs arbitrary: rest)
  case (Cons ev evs)
  show ?case
  proof (cases "evictable ev")
    case True
    let ?p = "sev_Kind ev = StreamEventRawSymbol \<and> sev_Data ev = rawSymbolCompletesNext \<and> evs \<noteq> []"
    have rest: "rest = (if ?p then tl evs else evs)"
      using Cons.prems(1) True by simp
    have "\<not> (\<not> evictable (hd evs)) \<and> paired evs" if ?p
      using that Cons.prems(2) by (auto simp: evictable_def)
    then show ?thesis
      using True rest Cons.prems(2) by (cases evs; simp) blast
  next
    case False
    then obtain rest' where r: "evict_data evs = Some rest'" "rest = ev # rest'"
      using Cons.prems(1) by auto
    then have "length rest' < length evs \<and> paired rest' \<and> set rest' \<subseteq> set evs \<and>
        filter (\<lambda>ev. \<not> evictable ev) rest' = filter (\<lambda>ev. \<not> evictable ev) evs"
      using Cons.IH [OF r(1)] Cons.prems(2) by simp
    moreover have "sev_Kind ev \<noteq> StreamEventRawSymbol"
      using False by (auto simp: evictable_def)
    ultimately show ?thesis using False r by auto
  qed
qed simp

lemma evict_data_None: "evict_data evs = None \<longleftrightarrow> list_all (\<lambda>ev. \<not> evictable ev) evs"
  by (induction evs) auto

lemma queue_ok_Nil [simp]: "queue_ok raw []"
  by (simp add: queue_ok_def)

lemma queue_ok_tl: "queue_ok raw evs \<Longrightarrow> queue_ok raw (tl evs)"
  by (cases evs) (auto simp: queue_ok_def)

lemma queue_ok_control:
  assumes "queue_ok raw evs" and "sev_Kind ev \<noteq> StreamEventRawSymbol"
  shows "queue_ok raw ((if length evs \<ge> (if raw then 2 * maxPendingEvents else maxPendingEvents)
     then (case evict_data evs of Some rest \<Rightarrow> rest | None \<Rightarrow> tl evs) else evs) @ [ev])"
proof (cases "evict_data evs")
  case None
  moreover have "set (tl evs) \<subseteq> set evs" by (cases evs) auto
  ultimately show ?thesis
    using assms paired_tl [of evs]
    by (cases raw) (auto simp: queue_ok_def maxPendingEvents_def list_all_iff intro!: paired_append_data)
next
  case (Some rest)
  have "length rest < length evs \<and> paired rest \<and> set rest \<subseteq> set evs"
    using evict_data_shape [OF Some] assms(1) by (simp add: queue_ok_def)
  then show ?thesis
    using assms Some
    by (cases raw) (auto simp: queue_ok_def maxPendingEvents_def list_all_iff intro!: paired_append_data)
qed

lemma queue_next_byte:
  "queue_ok raw evs \<Longrightarrow> queue_ok raw (snd (next_byte evs))"
proof (induction evs)
  case (Cons ev evs)
  then show ?case using queue_ok_tl [OF Cons.prems] by simp
qed simp

lemma queue_next_logical:
  "queue_ok raw evs \<Longrightarrow> queue_ok raw (snd (next_logical evs))"
proof (induction evs)
  case (Cons ev evs)
  then show ?case using queue_ok_tl [OF Cons.prems] by simp
qed simp

section \<open>The helpers keep the invariant\<close>

lemma enh_inv_world [enh_keeps]: "enh_inv t \<Longrightarrow> enh_inv (fst (in_world f t))"
  by (simp add: in_world_def enh_inv_def split: prod.split)

lemma enh_inv_worldE: "enh_inv t \<Longrightarrow> in_world f t = (t', r) \<Longrightarrow> enh_inv t'"
  using enh_inv_world by (metis fst_conv)

lemma enh_inv_now: "enh_inv t \<Longrightarrow> now ops t = (t', n) \<Longrightarrow> enh_inv t'"
  by (simp add: now_def enh_inv_worldE)

lemma enh_inv_setReadDeadline: "enh_inv t \<Longrightarrow> setReadDeadline ops t = (t', r) \<Longrightarrow> enh_inv t'"
  by (auto simp: setReadDeadline_def split: if_splits prod.splits dest: enh_inv_worldE enh_inv_now)

lemma enh_inv_setWriteDeadline: "enh_inv t \<Longrightarrow> setWriteDeadline ops t = (t', r) \<Longrightarrow> enh_inv t'"
  by (auto simp: setWriteDeadline_def split: if_splits prod.splits dest: enh_inv_worldE enh_inv_now)

lemma parser_inv_clean [simp]: "parser_inv (ENHParser_Reset p)"
  by (cases p) (simp add: parser_inv_def ENHParser_Reset_def parser_clean_def)

lemma decoder_inv_reset [simp]: "decoder_inv (escape_Reset d)"
  by (simp add: decoder_inv_def escape_Reset_def clear_pending_def)

lemma parser_inv_parse_loop: "parser_inv p \<Longrightarrow> parser_inv (fst (parse_loop p out xs))"
proof (induction xs arbitrary: p out)
  case (Cons b bs)
  obtain p' r where f: "ENHParser_Feed p b = (p', r)" by (cases "ENHParser_Feed p b")
  then have "parser_inv p'" using parser_inv_Feed [OF Cons.prems, of b] by simp
  then show ?case using f Cons.IH by (auto split: sum.splits option.splits)
qed simp

lemma enh_inv_count: "enh_inv t \<Longrightarrow> enh_inv (foldl count_message t msgs)"
proof (induction msgs arbitrary: t)
  case (Cons m ms)
  have "enh_inv (count_message t m)"
    using Cons.prems by (simp add: count_message_def enh_inv_def)
  then show ?case using Cons.IH by simp
qed simp

lemma enh_inv_parse:
  assumes "enh_inv t" and "parseObservedLocked t data = (t', msgs, err)"
  shows "enh_inv t'"
proof -
  obtain p ms e where parse: "ENHParser_Parse (e_parser t) data = (p, ms, e)" by (metis prod_cases3)
  have "parser_inv p"
    using parser_inv_parse_loop [of "e_parser t" "[]" data] assms(1) parse
    by (auto simp: ENHParser_Parse_def enh_inv_def split: if_splits)
  then have "enh_inv (foldl count_message (t\<lparr>e_parser := p\<rparr>) ms)"
    using assms(1) by (intro enh_inv_count) (simp add: enh_inv_def)
  then show ?thesis
    using assms(2) parse by (auto simp: parseObservedLocked_def enh_inv_def Let_def)
qed

lemma enh_inv_simple [enh_keeps]:
  assumes "enh_inv t"
  shows "enh_inv (resetENHParserLocked t)" "enh_inv (reset_escape t)"
    "enh_inv (resetPendingEscapeBeforeEmissionLocked t)" "enh_inv (closePostGrantPreEchoWindow t)"
    "enh_inv (resetStateLocked t)" "enh_inv (surfaceResetLocked t)" "enh_inv (Close_flags t)"
    "enh_inv (arb_abort t)" "enh_inv (roll_back_start t)"
  using assms
  by (simp_all add: enh_inv_def resetENHParserLocked_def reset_escape_def Let_def
      resetPendingEscapeBeforeEmissionLocked_def closePostGrantPreEchoWindow_def resetStateLocked_def
      surfaceResetLocked_def Close_flags_def arb_abort_def roll_back_start_def)

lemma enh_inv_flags [enh_keeps]:
  assumes "enh_inv t"
  shows "enh_inv (t\<lparr>awaitingStart := a\<rparr>)" "enh_inv (t\<lparr>arbitrationDeadline := d\<rparr>)"
    "enh_inv (t\<lparr>deferredErr := e\<rparr>)" "enh_inv (t\<lparr>pendingEvents := []\<rparr>)" "enh_inv (t\<lparr>e_conn := c\<rparr>)"
    "enh_inv (t\<lparr>postGrantWindowExpiredCount := x\<rparr>)" "enh_inv (t\<lparr>awaitingStartInitiator := i\<rparr>)"
    "enh_inv (t\<lparr>resets := resets t + 1\<rparr>)"
  using assms by (simp_all add: enh_inv_def)

lemma enh_inv_admin: "enh_inv t \<Longrightarrow> applyEscapeAdminEvent t admin = (t', b) \<Longrightarrow> enh_inv t'"
  by (auto simp: applyEscapeAdminEvent_def enh_inv_def split: admin_event_kind.splits)

lemma enh_inv_feed:
  assumes "enh_inv t" and "feedEscapeDecoderLocked ops t raw = (t', r)"
  shows "enh_inv t'"
proof -
  obtain t1 n where n: "now ops t = (t1, n)" by fastforce
  obtain d decoded ok e a where f: "Feed (escDecoder t1) (raw, n) = (d, decoded, ok, e, a)"
    by (metis prod_cases5)
  have inv1: "enh_inv t1" using enh_inv_now [OF assms(1) n] .
  then have "decoder_inv d" using decoder_inv_Feed [of "escDecoder t1" "(raw, n)"] f by (simp add: enh_inv_def)
  then have inv2: "enh_inv (t1\<lparr>escDecoder := d\<rparr>)"
    "enh_inv (t1\<lparr>escDecoder := d, escapeAaAbsorbedTotal := x\<rparr>)" for x
    using inv1 by (simp_all add: enh_inv_def)
  let ?t3 = "if AbsorbedCount d - AbsorbedCount (escDecoder t1) > 0
    then t1\<lparr>escDecoder := d, escapeAaAbsorbedTotal := escapeAaAbsorbedTotal t1 +
      word_of_int (AbsorbedCount d - AbsorbedCount (escDecoder t1))\<rparr> else t1\<lparr>escDecoder := d\<rparr>"
  have t3: "enh_inv ?t3" using inv2 by simp
  have "(t', r) = (case applyEscapeAdminEvent ?t3 a of
             (t4, True) \<Rightarrow> (t4, 0, False, False)
           | (t4, False) \<Rightarrow> (t4, decoded, ok, e))"
    using assms(2) n f
    by (cases "AbsorbedCount (escDecoder t1) < AbsorbedCount d") (simp_all add: feedEscapeDecoderLocked_def Let_def)
  then show ?thesis using enh_inv_admin [OF t3] by (auto split: prod.splits bool.splits)
qed

lemma enh_inv_append_control [enh_keeps]:
  "enh_inv t \<Longrightarrow> sev_Kind ev \<noteq> StreamEventRawSymbol \<Longrightarrow> enh_inv (appendControlEventLocked t ev)"
  using queue_ok_control [of "rawSymbolItems t" "pendingEvents t" ev]
  by (auto simp: appendControlEventLocked_def enh_inv_def pendingCapLocked_def Let_def split: option.splits if_splits)

lemma queue_ok_pair:
  assumes "queue_ok True evs" and "length evs + (case logical of Some _ \<Rightarrow> 2 | None \<Rightarrow> 3) \<le> 2 * maxPendingEvents"
    and "\<And>ev. logical = Some ev \<Longrightarrow> sev_Kind ev \<in> {StreamEventByte, StreamEventWireSyn}"
  shows "queue_ok True (evs @ [raw_symbol_event symbol (logical \<noteq> None)] @ (case logical of Some ev \<Rightarrow> [ev] | None \<Rightarrow> []))"
  using assms by (cases logical) (simp_all add: queue_ok_def paired_append_raw)

lemma enh_inv_queue [enh_keeps]:
  assumes "enh_inv t" and "\<And>ev. logical = Some ev \<Longrightarrow> sev_Kind ev \<in> {StreamEventByte, StreamEventWireSyn}"
  shows "enh_inv (queueObservedSymbolLocked t symbol logical)"
proof (cases "rawSymbolItems t")
  case True
  then show ?thesis
    using assms queue_ok_pair [of "pendingEvents t" logical symbol]
    by (auto simp: queueObservedSymbolLocked_def enh_inv_def pendingCapLocked_def)
next
  case False
  then show ?thesis
    using assms(1)
    by (auto simp: queueObservedSymbolLocked_def enh_inv_def appendWireSynLocked_def byte_event_def
        appendDecodedByteLocked_def wire_syn_event_def queue_ok_def zero_event_def
        intro!: paired_append_data split: option.splits)
qed

lemma event_kinds [simp]:
  "sev_Kind (byte_event b e) = StreamEventByte" "sev_Kind wire_syn_event = StreamEventWireSyn"
  "sev_Kind (control_event k d) = k" "sev_Byte (byte_event b e) = b" "sev_WasEscaped (byte_event b e) = e"
  by (simp_all add: byte_event_def wire_syn_event_def control_event_def zero_event_def)

lemma enh_inv_window:
  "enh_inv t \<Longrightarrow> arbitrationWindowExpired ops t = (t', b) \<Longrightarrow> enh_inv t'"
  "enh_inv t \<Longrightarrow> postGrantPreEchoExpired ops t = (t', b) \<Longrightarrow> enh_inv t'"
  by (auto simp: arbitrationWindowExpired_def postGrantPreEchoExpired_def dest: enh_inv_now
      split: if_splits prod.splits)

lemma enh_inv_open [enh_keeps]: "enh_inv t \<Longrightarrow> enh_inv (openPostGrantPreEchoWindow ops t)"
proof -
  assume "enh_inv t"
  moreover obtain t1 n where "now ops t = (t1, n)" by fastforce
  ultimately show ?thesis
    using enh_inv_now by (auto simp: openPostGrantPreEchoWindow_def enh_inv_def)
qed

lemma enh_inv_emit [enh_keeps]:
  assumes "enh_inv t" shows "enh_inv (emit_received ops t symbol)"
proof -
  obtain t1 decoded ok e
    where f: "feedEscapeDecoderLocked ops (resetPendingEscapeBeforeEmissionLocked t) symbol = (t1, decoded, ok, e)"
    by (metis prod_cases4)
  have "enh_inv t1" using enh_inv_feed [OF _ f] assms by (simp add: enh_keeps)
  then show ?thesis
    unfolding emit_received_def f
    by (auto simp: Let_def intro!: enh_keeps split: prod.splits bool.splits dest: enh_inv_window(2))
qed

lemma enh_inv_received [enh_keeps]:
  assumes "enh_inv t" shows "enh_inv (on_received ops t symbol)"
proof (cases "awaitingStart t")
  case True
  obtain t1 b where w: "arbitrationWindowExpired ops t = (t1, b)" by fastforce
  have inv: "enh_inv t1" using enh_inv_window(1) [OF assms w] .
  obtain t2 r where f: "feedEscapeDecoderLocked ops t1 symbol = (t2, r)" by (metis surj_pair)
  have "enh_inv t2" using enh_inv_feed [OF inv f] .
  then show ?thesis
    using True w f inv by (cases b) (auto simp: on_received_def intro!: enh_keeps split: prod.splits)
qed (simp add: on_received_def assms enh_keeps)

lemma enh_inv_arb_events [enh_keeps]:
  assumes "enh_inv t"
  shows "enh_inv (on_started ops t data)" "enh_inv (on_failed t data)"
  using assms by (auto simp: on_started_def on_failed_def intro!: enh_keeps)

section \<open>Every method keeps the invariant\<close>

lemma enh_inv_write_loop: "enh_inv t \<Longrightarrow> write_loop ops seq k t = (t', r) \<Longrightarrow> enh_inv t'"
proof (induction ops seq k t arbitrary: t' r rule: write_loop.induct)
  case (1 ops seq k t)
  obtain t1 e where d: "setWriteDeadline ops t = (t1, e)" by fastforce
  have inv1: "enh_inv t1" using enh_inv_setWriteDeadline [OF "1.prems"(1) d] .
  obtain t2 n err where w: "in_world (\<lambda>w. net_Write ops w (e_conn t1) (drop k seq)) t1 = (t2, n, err)"
    by (metis prod_cases3)
  have inv2: "enh_inv t2" using enh_inv_worldE [OF inv1 w] .
  show ?case
    using "1.prems"(2) "1.prems"(1) d w inv1 inv2 "1.IH" [OF _ d [symmetric] _ w [symmetric] refl]
    by (subst (asm) write_loop.simps) (auto split: if_splits option.splits)
qed

lemma enh_inv_send: "enh_inv t \<Longrightarrow> send_frame ops cmd data short t = (t', r) \<Longrightarrow> enh_inv t'"
  by (auto simp: send_frame_def Let_def dest: enh_inv_write_loop split: prod.splits option.splits)

lemma enh_inv_Write: "enh_inv t \<Longrightarrow> ENH_Write ops payload t = (t', r) \<Longrightarrow> enh_inv t'"
  by (auto simp: ENH_Write_def Let_def dest: enh_inv_write_loop split: prod.splits option.splits if_splits)

lemma enh_inv_init_messages: "enh_inv t \<Longrightarrow> init_messages ops t msgs = (t', r) \<Longrightarrow> enh_inv t'"
proof (induction msgs arbitrary: t)
  case (Cons msg msgs)
  obtain t1 decoded ok e where f: "feedEscapeDecoderLocked ops t (msg_Data msg) = (t1, decoded, ok, e)"
    by (metis prod_cases4)
  have "enh_inv t1" using enh_inv_feed [OF Cons.prems(1) f] .
  then have "enh_inv (queueObservedSymbolLocked t1 (msg_Data msg) (if ok then Some (byte_event decoded e) else None))"
    by (auto intro!: enh_keeps split: if_splits)
  then show ?case
    using Cons.prems f Cons.IH enh_inv_simple(5) [OF Cons.prems(1)] by (auto split: if_splits)
qed simp

lemma enh_inv_init_timeout: "enh_inv t \<Longrightarrow> init_timeout t = (t', r) \<Longrightarrow> enh_inv t'"
  using enh_inv_simple(1) [of t] by (auto simp: init_timeout_def enh_inv_def)

text \<open>A round of a loop whose state shows the transport through \<open>view\<close> and which returns it first.\<close>

definition round_ok :: "('s \<Rightarrow> 'w enh) \<Rightarrow> 's + ('w enh \<times> 'r) \<Rightarrow> bool" where
  "round_ok view x = (case x of Inl s \<Rightarrow> enh_inv (view s) | Inr q \<Rightarrow> enh_inv (fst q))"

lemma round_ok_simps [simp]:
  "round_ok view (Inl s) \<longleftrightarrow> enh_inv (view s)" "round_ok view (Inr q) \<longleftrightarrow> enh_inv (fst q)"
  by (simp_all add: round_ok_def)

lemma enh_inv_loop:
  assumes "go_loop body s = Some (t', r)" and "enh_inv (view s)"
    and "\<And>s x. enh_inv (view s) \<Longrightarrow> body s = Some x \<Longrightarrow> round_ok view x"
  shows "enh_inv t'"
  using go_loop_invariant [where I = "\<lambda>s. enh_inv (view s)" and Q = "\<lambda>q. enh_inv (fst q)", OF assms(1,2)] assms(3)
  by fastforce

lemma enh_inv_init_deadline: "enh_inv t \<Longrightarrow> init_read_deadline ops left t = (t', r) \<Longrightarrow> enh_inv t'"
  by (auto simp: init_read_deadline_def split: if_splits prod.splits
      dest: enh_inv_now enh_inv_worldE enh_inv_setReadDeadline)

lemma enh_inv_init_data:
  assumes "enh_inv t"
  shows "round_ok (\<lambda>t. t) (init_data ops t data)"
  using assms
  by (auto simp: init_data_def split: prod.splits option.splits
      dest: enh_inv_parse enh_inv_init_messages intro!: enh_inv_simple(1,2))

lemma enh_inv_init_round:
  assumes "enh_inv t" and "init_round ops maxWait start t = Some x"
  shows "round_ok (\<lambda>t. t) x"
proof -
  obtain t1 n where n: "now ops t = (t1, n)" by fastforce
  obtain t2 e where d: "init_read_deadline ops (maxWait - time_sub n start) t1 = (t2, e)" by fastforce
  obtain t3 r where w: "in_world (\<lambda>w. net_Read ops w (e_conn t2)) t2 = (t3, r)" by (metis surj_pair)
  have inv: "enh_inv t1" "enh_inv t2" "enh_inv t3"
    using enh_inv_now [OF assms(1) n] enh_inv_init_deadline [OF _ d] enh_inv_worldE [OF _ w] by simp_all
  then have "enh_inv (fst (init_timeout t1))" "enh_inv (fst (init_timeout t3))"
    using enh_inv_init_timeout by (metis prod.collapse)+
  then show ?thesis
    using assms(2) n d w inv enh_inv_init_data [OF inv(3), of ops]
    by (auto simp: init_round_def Let_def split: if_splits option.splits sum.splits)
qed

lemma enh_inv_init_recv: "enh_inv t \<Longrightarrow> initRecvResultLocked ops t = Some (t', r) \<Longrightarrow> enh_inv t'"
  unfolding initRecvResultLocked_def
  by (split prod.splits) (meson enh_inv_loop [where view = "\<lambda>t. t"] enh_inv_init_round enh_inv_now)

lemma enh_inv_init: "enh_inv t \<Longrightarrow> initWithResultLocked ops features t = Some (t', r) \<Longrightarrow> enh_inv t'"
  by (auto simp: initWithResultLocked_def initSendLocked_def split: prod.splits option.splits
      dest: enh_inv_send enh_inv_init_recv)

lemma enh_inv_reconnect:
  assumes "enh_inv t" and "reconnectLocked ops t = Some (t', r)"
  shows "enh_inv t'"
proof (cases "e_closed t \<or> net_dial ops = None")
  case True
  then show ?thesis using assms by (auto simp: reconnectLocked_def enh_keeps split: if_splits)
next
  case False
  then obtain dial where dial: "net_dial ops = Some dial" by auto
  obtain t1 closing res where w: "in_world dial t = (t1, closing, res)" by (metis prod_cases3)
  have inv1: "enh_inv t1" using enh_inv_worldE [OF assms(1) w] .
  show ?thesis
  proof (cases "\<exists>c. res = Inr c \<and> \<not> closing")
    case False
    then show ?thesis
      using \<open>\<not> (e_closed t \<or> net_dial ops = None)\<close> assms(2) dial w inv1
      by (cases res) (auto simp: reconnectLocked_def intro!: enh_keeps split: if_splits)
  next
    case True
    then obtain c where c: "res = Inr c" "\<not> closing" by blast
    let ?t2 = "fst (in_world (\<lambda>w. net_Close ops w (e_conn t1)) (t1\<lparr>e_conn := c\<rparr>))"
    obtain t3 e where send: "initSendLocked ops 0x01 (resetStateLocked ?t2) = (t3, e)" by fastforce
    have inv3: "enh_inv t3"
      using enh_inv_send [OF _ send [unfolded initSendLocked_def]] inv1 by (auto intro!: enh_keeps)
    then show ?thesis
      using \<open>\<not> (e_closed t \<or> net_dial ops = None)\<close> assms(2) dial w c send
      by (auto simp: reconnectLocked_def Let_def intro!: enh_keeps dest: enh_inv_init_recv split: option.splits prod.splits)
  qed
qed

lemma enh_inv_fill_messages: "enh_inv t \<Longrightarrow> fill_messages ops t msgs = Some (t', r) \<Longrightarrow> enh_inv t'"
proof (induction msgs arbitrary: t)
  case (Cons msg msgs)
  show ?case
  proof (cases "msg_Command msg = ENHResResetted \<and> has_dial ops")
    case True
    then obtain t1 err where rc: "reconnectLocked ops t = Some (t1, err)"
      and t': "t' = (case err of Some _ \<Rightarrow> t1 | None \<Rightarrow> t1\<lparr>resets := resets t1 + 1\<rparr>)"
      using Cons.prems(2) by (auto simp: enh_command_defs split: option.splits)
    then show ?thesis
      using enh_inv_reconnect [OF Cons.prems(1) rc] enh_inv_flags(8) [of t1] by (simp split: option.splits)
  next
    case False
    have ctl: "enh_inv (appendControlEventLocked (reset_escape (closePostGrantPreEchoWindow t))
        (control_event StreamEventReset (msg_Data msg)))"
      using Cons.prems(1) by (intro enh_keeps) simp_all
    note IHs = Cons.IH [OF ctl] Cons.IH [OF Cons.prems(1)] Cons.IH [OF enh_inv_received [OF Cons.prems(1)]]
      enh_inv_arb_events [OF Cons.prems(1), THEN Cons.IH]
    show ?thesis
      using False Cons.prems(2) IHs by (simp split: if_splits)
  qed
qed simp

lemma enh_inv_after_parse_error:
  "enh_inv t \<Longrightarrow> after_parse_error t msgs e = (t', r) \<Longrightarrow> enh_inv t'"
  by (auto simp: after_parse_error_def Let_def intro!: enh_keeps split: if_splits)

lemma enh_inv_fill:
  assumes "enh_inv t" and "fillPendingLocked ops t = Some (t', r)"
  shows "enh_inv t'"
proof -
  obtain t1 e where d: "setReadDeadline ops t = (t1, e)" by fastforce
  obtain t2 res where w: "in_world (\<lambda>w. net_Read ops w (e_conn t1)) t1 = (t2, res)" by (metis surj_pair)
  have inv: "enh_inv t1" "enh_inv t2"
    using enh_inv_setReadDeadline [OF assms(1) d] enh_inv_worldE [OF _ w] by simp_all
  show ?thesis
  proof (cases "e = None \<and> (\<exists>data. res = Inr data \<and> data \<noteq> [])")
    case False
    then show ?thesis
      using assms(2) d w inv
      by (cases res) (auto simp: fillPendingLocked_def Let_def intro!: enh_keeps split: option.splits if_splits)
  next
    case True
    then obtain data where data: "res = Inr data" "data \<noteq> []" by blast
    obtain t3 msgs pe where p: "parseObservedLocked t2 data = (t3, msgs, pe)" by (metis prod_cases3)
    have inv3: "enh_inv t3" using enh_inv_parse [OF inv(2) p] .
    obtain t4 early where m: "fill_messages ops t3 msgs = Some (t4, early)"
      using assms(2) d w data True p by (auto simp: fillPendingLocked_def bind_eq_Some_conv)
    have "enh_inv t4" using enh_inv_fill_messages [OF inv3 m] .
    then show ?thesis
      using assms(2) d w data True p m
      by (auto simp: fillPendingLocked_def dest: enh_inv_after_parse_error split: option.splits)
  qed
qed

lemma enh_inv_surface:
  assumes "enh_inv t" and "surface_or_fill ops t = Some x"
  shows "round_ok (\<lambda>t. t) x"
  using assms enh_inv_fill [OF assms(1)]
  by (auto simp: surface_or_fill_def intro: enh_keeps split: option.splits)

lemma enh_inv_pop:
  assumes "enh_inv t"
  shows "enh_inv (t\<lparr>pendingEvents := snd (next_byte (pendingEvents t))\<rparr>)"
    "enh_inv (t\<lparr>pendingEvents := snd (next_logical (pendingEvents t))\<rparr>)"
    "enh_inv (t\<lparr>pendingEvents := tl (pendingEvents t)\<rparr>)"
    "enh_inv (t\<lparr>pendingEvents := tl (tl (pendingEvents t))\<rparr>)"
    "resets t > 0 \<Longrightarrow> enh_inv (t\<lparr>resets := resets t - 1\<rparr>)"
    "enh_inv (t\<lparr>rawSymbolItems := True\<rparr>)"
  using assms
  by (auto simp: enh_inv_def queue_next_byte queue_next_logical queue_ok_tl)
    (auto simp: queue_ok_def split: if_splits)

lemma enh_inv_read_byte_round:
  "enh_inv t \<Longrightarrow> read_byte_round ops t = Some x \<Longrightarrow> round_ok (\<lambda>t. t) x"
  using enh_inv_pop(1) [of t] enh_inv_pop(5) [of t] enh_inv_surface
  by (fastforce simp: read_byte_round_def split: if_splits prod.splits option.splits)

lemma enh_inv_read_event_round:
  "enh_inv t \<Longrightarrow> read_event_round ops t = Some x \<Longrightarrow> round_ok (\<lambda>t. t) x"
  using enh_inv_pop(2) [of t] enh_inv_pop(5) [of t] enh_inv_surface
  by (fastforce simp: read_event_round_def split: if_splits prod.splits option.splits)

lemma enh_inv_read_raw_round:
  "enh_inv t \<Longrightarrow> read_raw_round ops t = Some x \<Longrightarrow> round_ok (\<lambda>t. t) x"
  using enh_inv_pop(3) [of t] enh_inv_pop(4) [of t] enh_inv_pop(5) [of t] enh_inv_surface [of t ops x]
  by (cases "pendingEvents t") (auto simp: read_raw_round_def split: if_splits)

lemma enh_inv_arb_messages:
  "enh_inv t \<Longrightarrow> arb_messages ops initiator t s msgs = Some (t', s') \<Longrightarrow> enh_inv t'"
proof (induction msgs arbitrary: t s)
  case (Cons msg msgs)
  obtain m fin err where s: "s = (m, fin, err)" by (metis prod_cases3)
  have feed: "enh_inv (fst (feedEscapeDecoderLocked ops t (msg_Data msg)))"
    using enh_inv_feed [OF Cons.prems(1)] by (metis prod.collapse)
  show ?case
  proof (cases "msg_Command msg = ENHResResetted")
    case True
    then obtain t1 e s1 where rc: "reconnectLocked ops t = Some (t1, e)"
      and rest: "arb_messages ops initiator t1 s1 msgs = Some (t', s')"
      using Cons.prems(2) s by (auto simp: enh_command_defs Let_def bind_eq_Some_conv)
    show ?thesis using Cons.IH [OF enh_inv_reconnect [OF Cons.prems(1) rc] rest] .
  next
    case False
    then show ?thesis
      using Cons.prems(2) s Cons.IH [OF feed] Cons.IH [OF Cons.prems(1)] by (simp add: Let_def split: if_splits)
  qed
qed simp

lemma enh_inv_arb_finish: "enh_inv t \<Longrightarrow> arb_finish ops t err = (t', r) \<Longrightarrow> enh_inv t'"
  by (auto simp: arb_finish_def Let_def intro!: enh_keeps split: option.splits)

lemma enh_inv_arb_round:
  assumes "enh_inv (snd s)" and "arb_round ops initiator s = Some x"
  shows "round_ok snd x"
proof -
  obtain m t where s: "s = (m, t)" by fastforce
  obtain t1 e where d: "setReadDeadline ops t = (t1, e)" by fastforce
  obtain t2 res where w: "in_world (\<lambda>w. net_Read ops w (e_conn t1)) t1 = (t2, res)" by (metis surj_pair)
  have inv: "enh_inv t1" "enh_inv t2"
    using assms(1) s enh_inv_setReadDeadline [OF _ d] enh_inv_worldE [OF _ w] by simp_all
  show ?thesis
  proof (cases "e = None \<and> (\<exists>data. res = Inr data \<and> data \<noteq> [])")
    case False
    then show ?thesis
      using assms(2) s d w inv
      by (cases res) (auto simp: arb_round_def arb_data_def intro!: enh_keeps split: option.splits if_splits)
  next
    case True
    then obtain data where data: "res = Inr data" "data \<noteq> []" by blast
    obtain t3 msgs pe where p: "parseObservedLocked t2 data = (t3, msgs, pe)" by (metis prod_cases3)
    have inv3: "enh_inv t3" using enh_inv_parse [OF inv(2) p] .
    obtain t4 m' fin err where ms: "arb_messages ops initiator t3 (m, False, None) msgs = Some (t4, m', fin, err)"
      using assms(2) s d w data True p by (auto simp: arb_round_def arb_data_def)
    have "enh_inv t4" using enh_inv_arb_messages [OF inv3 ms] .
    moreover have "enh_inv (fst (arb_finish ops t4 err))"
      using enh_inv_arb_finish [OF calculation] by (metis prod.collapse)
    ultimately show ?thesis
      using assms(2) s d w data True p ms
      by (auto simp: arb_round_def arb_data_def intro!: enh_keeps split: option.splits if_splits)
  qed
qed

lemma enh_inv_start:
  assumes "enh_inv t" and "StartArbitration ops initiator t = Some (t', r)" shows "enh_inv t'"
  using assms
  by (auto simp: StartArbitration_def split: if_splits prod.splits option.splits dest: enh_inv_send
      elim!: enh_inv_loop [where view = snd] intro!: enh_inv_arb_round)

lemma enh_inv_request_start:
  assumes "enh_inv t" and "RequestStart ops initiator t = (t', r)" shows "enh_inv t'"
proof (cases "e_closed t \<or> (\<exists>e. snd (setWriteDeadline ops t) = Some e)")
  case True
  then show ?thesis
    using assms enh_inv_setWriteDeadline [OF assms(1)]
    by (auto simp: RequestStart_def Let_def split: if_splits prod.splits)
next
  case False
  then obtain t1 where d: "setWriteDeadline ops t = (t1, None)" by (metis not_None_eq prod.collapse)
  obtain t2 n where n: "now ops t1 = (t2, n)" by fastforce
  let ?t3 = "t2\<lparr>arbitrationDeadline := n + arbitrationWindowTimeout,
                awaitingStartInitiator := ucast initiator, awaitingStart := True\<rparr>"
  obtain t4 k e where w: "in_world (\<lambda>w. net_Write ops w (e_conn ?t3) (frame_bytes ENHReqStart initiator)) ?t3 = (t4, k, e)"
    by (metis prod_cases3)
  have "enh_inv ?t3"
    using enh_inv_now [OF enh_inv_setWriteDeadline [OF assms(1) d] n] by (intro enh_keeps)
  then have "enh_inv t4" using enh_inv_worldE [OF _ w] by simp
  then show ?thesis
    using assms(2) False d n w by (auto simp: RequestStart_def Let_def intro!: enh_keeps split: option.splits if_splits)
qed

lemma enh_inv_info_fail: "enh_inv t \<Longrightarrow> enh_inv (fst (requestInfoFail t err))"
  by (auto simp: requestInfoFail_def Let_def intro!: enh_keeps)

lemma enh_inv_info_messages: "enh_inv t \<Longrightarrow> info_messages ops t s msgs = (t', r) \<Longrightarrow> enh_inv t'"
proof (induction msgs arbitrary: t s)
  case (Cons msg msgs)
  note IHs = Cons.IH [OF Cons.prems(1)] Cons.IH [OF enh_inv_received [OF Cons.prems(1)]]
    enh_inv_arb_events [OF Cons.prems(1), THEN Cons.IH] Cons.IH [OF enh_inv_simple(6) [OF Cons.prems(1)]]
  show ?case
    using Cons.prems(2) IHs enh_inv_info_fail [OF Cons.prems(1)]
    by (auto simp: Let_def map_prod_def split: if_splits prod.splits) (metis fst_conv)+
qed simp

lemma enh_inv_info_round:
  assumes "enh_inv (snd st)" and "info_round ops dl st = Some x"
  shows "round_ok snd x"
proof -
  obtain s t where st: "st = (s, t)" by fastforce
  obtain t0 n where n: "now ops t = (t0, n)" by fastforce
  obtain t1 e where d: "in_world (\<lambda>w. net_SetReadDeadline ops w (e_conn t0) dl) t0 = (t1, e)" by (metis surj_pair)
  obtain t2 res where w: "in_world (\<lambda>w. net_Read ops w (e_conn t1)) t1 = (t2, res)" by (metis surj_pair)
  have inv: "enh_inv t0" "enh_inv t1" "enh_inv t2"
    using assms(1) st enh_inv_now [OF _ n] enh_inv_worldE [OF _ d] enh_inv_worldE [OF _ w] by simp_all
  have fails: "enh_inv (fst (info_fail t' err))" if "enh_inv t'" for t' :: "'a enh" and err
    using enh_inv_info_fail [OF that] by (simp add: info_fail_def)
  have "round_ok snd (info_data ops s t2 data)" for data
  proof -
    obtain t3 msgs pe where p: "parseObservedLocked t2 data = (t3, msgs, pe)" by (metis prod_cases3)
    obtain t4 r where m: "info_messages ops t3 s msgs = (t4, r)" by fastforce
    have "enh_inv t4" using enh_inv_info_messages [OF enh_inv_parse [OF inv(3) p] m] .
    then show ?thesis using p m inv(3) fails by (auto simp: info_data_def split: sum.splits option.splits)
  qed
  then show ?thesis
    using assms(2) st n d w inv fails by (auto simp: info_round_def split: if_splits option.splits sum.splits)
qed

lemma enh_inv_request_info:
  assumes "enh_inv t" and "RequestInfo ops i t = Some (t', r)" shows "enh_inv t'"
proof (cases "e_closed t")
  case False
  obtain t1 e where s: "send_frame ops ENHReqInfo i
      (Wrap ''enh info request write incomplete: '' (Sentinel ErrInvalidPayload) []) t = (t1, e)" by fastforce
  obtain t2 n where n: "now ops t1 = (t2, n)" by fastforce
  have inv: "enh_inv t1" "enh_inv t2" using enh_inv_send [OF assms(1) s] enh_inv_now [OF _ n] by simp_all
  show ?thesis
    using assms(2) False s n enh_inv_info_fail [OF inv(1)] inv(2)
    by (auto simp: RequestInfo_def info_fail_def map_prod_def split: option.splits prod.splits
        elim!: enh_inv_loop [where view = snd] intro!: enh_inv_info_round) (metis fst_conv)
qed (use assms in \<open>simp add: RequestInfo_def\<close>)

section \<open>Reachable transports\<close>

text \<open>One call of a method that returns; the outcome is dropped.\<close>

inductive enh_call :: "'w net_ops \<Rightarrow> 'w enh \<Rightarrow> 'w enh \<Rightarrow> bool" for ops where
  call_Init: "InitWithResult ops features t = Some (t', r) \<Longrightarrow> enh_call ops t t'"
| call_Reconnect: "Reconnect ops t = Some (t', e) \<Longrightarrow> enh_call ops t t'"
| call_ReadByte: "ReadByteWithEscape ops t = Some (t', b) \<Longrightarrow> enh_call ops t t'"
| call_ReadEvent: "ReadEvent ops t = Some (t', ev) \<Longrightarrow> enh_call ops t t'"
| call_ReadRaw: "ReadEventWithRawSymbol ops t = Some (t', ev') \<Longrightarrow> enh_call ops t t'"
| call_Write: "ENH_Write ops payload t = (t', n) \<Longrightarrow> enh_call ops t t'"
| call_StartArbitration: "StartArbitration ops initiator t = Some (t', e) \<Longrightarrow> enh_call ops t t'"
| call_RequestStart: "RequestStart ops initiator t = (t', e) \<Longrightarrow> enh_call ops t t'"
| call_RequestInfo: "RequestInfo ops i t = Some (t', info) \<Longrightarrow> enh_call ops t t'"
| call_Close: "ENH_Close ops t = (t', ne) \<Longrightarrow> enh_call ops t t'"
| call_elsewhere: "enh_call ops t (t\<lparr>e_w := w\<rparr>)"

inductive enh_reachable :: "'w net_ops \<Rightarrow> 'w enh \<Rightarrow> bool" for ops where
  reach_new: "enh_reachable ops (NewENHTransport w conn rt wt)"
| reach_call: "enh_reachable ops t \<Longrightarrow> enh_call ops t t' \<Longrightarrow> enh_reachable ops t'"

lemma enh_inv_new: "enh_inv (NewENHTransport w conn rt wt)"
  by (simp add: NewENHTransport_def enh_inv_def queue_ok_def parser_inv_def parser_clean_def decoder_inv_def
      escape_normal_def)

lemma enh_inv_call: "enh_call ops t t' \<Longrightarrow> enh_inv t \<Longrightarrow> enh_inv t'"
proof (induction rule: enh_call.induct)
  case (call_Init features t t' r)
  then show ?case by (auto simp: InitWithResult_def dest: enh_inv_init split: if_splits)
next
  case (call_Reconnect t t' e)
  then show ?case by (auto simp: Reconnect_def dest: enh_inv_reconnect split: if_splits)
next
  case (call_ReadByte t t' b)
  then show ?case
    using enh_inv_loop [where view = "\<lambda>t. t", OF _ _ enh_inv_read_byte_round]
    by (auto simp: ReadByteWithEscape_def readByteAndFlag_def split: if_splits)
next
  case (call_ReadEvent t t' ev)
  then show ?case
    using enh_inv_loop [where view = "\<lambda>t. t", OF _ _ enh_inv_read_event_round]
    by (auto simp: ReadEvent_def split: if_splits)
next
  case (call_ReadRaw t t' ev)
  then show ?case
    using enh_inv_loop [where view = "\<lambda>t. t", OF _ enh_inv_pop(6) enh_inv_read_raw_round]
    by (auto simp: ReadEventWithRawSymbol_def split: if_splits)
next
  case (call_Close t t' ne)
  then show ?case by (auto simp: ENH_Close_def Let_def intro: enh_inv_simple(7) enh_inv_worldE)
next
  case (call_elsewhere t w)
  then show ?case by (simp add: enh_inv_def)
qed (auto intro: enh_inv_Write enh_inv_start enh_inv_request_start enh_inv_request_info)

lemma enh_reachable_inv: "enh_reachable ops t \<Longrightarrow> enh_inv t"
  by (induction rule: enh_reachable.induct) (auto intro: enh_inv_new enh_inv_call)

section \<open>Properties\<close>

text \<open>
  C19: whatever the adapter sends and whichever methods are called in which order, the queue of pending
  events is bounded (256 events, 512 once raw capture is on), every raw item that announces a logical
  item is directly followed by it, no raw item exists before raw capture is switched on, the escape
  decoder has absorbed at most eight symbols, and the decode faults of the snapshot are the recoveries
  plus the exhausted budgets.
\<close>

theorem enh_reachable_bounded:
  assumes "enh_reachable ops t"
  shows "length (pendingEvents t) \<le> (if rawSymbolItems t then 512 else 256) \<and> paired (pendingEvents t) \<and>
    (\<forall>ev \<in> set (pendingEvents t). sev_Kind ev = StreamEventRawSymbol \<longrightarrow> rawSymbolItems t) \<and>
    AbsorbedCount (escDecoder t) \<in> {0..8} \<and>
    EscapeDecodeFaultsTotal (BaudObservabilitySnapshot t) =
      EscapeRecoveriesTotal (BaudObservabilitySnapshot t) + EscapeBudgetExhaustedTotal (BaudObservabilitySnapshot t)"
  using enh_reachable_inv [OF assms]
  by (auto simp: enh_inv_def queue_ok_def maxPendingEvents_def list_all_iff BaudObservabilitySnapshot_def
      decoder_inv_def AbsorbedCount_def)

theorem enh_reachable_bounded_witness:
  "length (pendingEvents (NewENHTransport () 1 5 5)) \<le> 256 \<and>
   EscapeDecodeFaultsTotal (BaudObservabilitySnapshot (NewENHTransport () 1 5 5)) = 0"
  using enh_reachable_bounded [OF reach_new [where w = "()" and conn = 1 and rt = 5 and wt = 5]]
  by (simp add: BaudObservabilitySnapshot_def NewENHTransport_def)

text \<open>
  a control event is never lost to data.  When the queue is full a STARTED, FAILED or RESET event
  makes room by dropping the oldest data event (with the raw item it belongs to), so every control event
  queued before it stays, in order; only a queue of nothing but control events gives up its oldest.
\<close>

theorem control_events_survive:
  assumes "enh_inv t" and "\<not> evictable ev"
  shows "filter (\<lambda>e. \<not> evictable e) (pendingEvents (appendControlEventLocked t ev)) =
    (if length (pendingEvents t) \<ge> pendingCapLocked t \<and> (\<forall>e \<in> set (pendingEvents t). \<not> evictable e)
     then tl (pendingEvents t) else filter (\<lambda>e. \<not> evictable e) (pendingEvents t)) @ [ev]"
proof (cases "evict_data (pendingEvents t)")
  case None
  then have "\<forall>e \<in> set (pendingEvents t). \<not> evictable e"
    by (simp add: evict_data_None list_all_iff)
  moreover from this have "filter (\<lambda>e. \<not> evictable e) (tl (pendingEvents t)) = tl (pendingEvents t)"
    by (cases "pendingEvents t") (simp_all add: filter_id_conv)
  ultimately show ?thesis
    using None assms(2) by (simp add: appendControlEventLocked_def Let_def)
next
  case (Some rest)
  then have "\<not> (\<forall>e \<in> set (pendingEvents t). \<not> evictable e)"
    using evict_data_None [of "pendingEvents t"] by (auto simp: list_all_iff)
  then show ?thesis
    using Some assms evict_data_shape [OF Some]
    by (auto simp: appendControlEventLocked_def Let_def enh_inv_def queue_ok_def)
qed

theorem control_events_survive_witness:
  "filter (\<lambda>e. \<not> evictable e) (pendingEvents (appendControlEventLocked (NewENHTransport () 1 5 5)
     (control_event StreamEventStarted 0x31))) = [control_event StreamEventStarted 0x31]"
proof -
  have "\<not> evictable (control_event StreamEventStarted 0x31)" by (simp add: evictable_def)
  then show ?thesis
    using control_events_survive [OF enh_inv_new [of "()" 1 5 5]]
    by (simp add: NewENHTransport_def pendingCapLocked_def maxPendingEvents_def)
qed

end
