(* ===== verification/Enh_Delivery.thy ===== *)
theory Enh_Delivery
  imports Enh_Safety "HOL-Library.Sublist"
begin

text \<open>
  What crosses the ENH transport: the logical bytes a reader gets from a received symbol stream,
  what an arbitration window lets through, what a granted arbitration leaves behind, and which frames
  reach the adapter.
\<close>

section \<open>Batches of received symbols\<close>

text \<open>Reading the clock tells the instant \<open>n\<close> and changes nothing, as while one read is handled.\<close>

definition instant :: "'w net_ops \<Rightarrow> 'w enh \<Rightarrow> go_time \<Rightarrow> bool" where
  "instant ops t n \<longleftrightarrow> net_now ops (e_w t) = (e_w t, n)"

lemma instant_now [simp]: "instant ops t n \<Longrightarrow> now ops t = (t, n)"
  by (simp add: instant_def now_def in_world_def)

lemma instant_cong: "e_w t' = e_w t \<Longrightarrow> instant ops t' n \<longleftrightarrow> instant ops t n"
  by (simp add: instant_def)

text \<open>A transport that only listens.\<close>

definition listening :: "'w enh \<Rightarrow> bool" where
  "listening t \<longleftrightarrow> \<not> e_closed t \<and> resets t = 0 \<and> deferredErr t = None \<and> e_parser t = parser_clean \<and>
     \<not> awaitingStart t \<and> \<not> postGrantPreEcho t \<and> \<not> rawSymbolItems t \<and> \<not> escapeResetPending t"

definition rx_messages :: "byte list \<Rightarrow> enh_message list" where
  "rx_messages syms = map (frame_message ENHResReceived) syms"

definition byte_events :: "(byte \<times> bool) list \<Rightarrow> stream_event list" where
  "byte_events bs = map (\<lambda>(b, e). byte_event b e) bs"

definition at_time :: "go_time \<Rightarrow> byte list \<Rightarrow> (byte \<times> go_time) list" where
  "at_time n syms = map (\<lambda>s. (s, n)) syms"

lemma quiet_feed:
  assumes "instant ops t n" and "Feed (escDecoder t) (raw, n) = (d, decoded, ok, e, a)" and "ae_Kind a = AdminEventNone"
  shows "\<exists>x. feedEscapeDecoderLocked ops t raw = (t\<lparr>escDecoder := d, escapeAaAbsorbedTotal := x\<rparr>, decoded, ok, e)"
  using assms
  by (intro exI [of _ "if AbsorbedCount d - AbsorbedCount (escDecoder t) > 0
      then escapeAaAbsorbedTotal t + word_of_int (AbsorbedCount d - AbsorbedCount (escDecoder t))
      else escapeAaAbsorbedTotal t"])
    (simp add: feedEscapeDecoderLocked_def applyEscapeAdminEvent_def Let_def)

lemma listening_symbol:
  assumes "instant ops t n" and "listening t" and "Feed (escDecoder t) (raw, n) = (d, decoded, ok, e, a)"
    and "ae_Kind a = AdminEventNone" and "length (pendingEvents t) < 256"
  shows "\<exists>x. on_received ops t raw = t\<lparr>escDecoder := d, escapeAaAbsorbedTotal := x,
    pendingEvents := pendingEvents t @ (if ok then [byte_event decoded e] else [])\<rparr>"
proof -
  obtain x where x: "feedEscapeDecoderLocked ops t raw = (t\<lparr>escDecoder := d, escapeAaAbsorbedTotal := x\<rparr>, decoded, ok, e)"
    using quiet_feed [OF assms(1,3,4)] by blast
  have "resetPendingEscapeBeforeEmissionLocked t = t"
    using assms(2) by (simp add: resetPendingEscapeBeforeEmissionLocked_def listening_def)
  then show ?thesis
    using assms(2,5) x
    by (auto simp: on_received_def emit_received_def listening_def queueObservedSymbolLocked_def
        appendDecodedByteLocked_def maxPendingEvents_def)
qed

lemma listening_batch:
  assumes "instant ops t n" and "listening t" and "length (pendingEvents t) + length syms \<le> 256"
    and "quiet (run_out Feed (escDecoder t) (at_time n syms))"
  shows "\<exists>t'. fill_messages ops t (rx_messages syms) = Some (t', None) \<and> listening t' \<and> e_w t' = e_w t \<and>
    e_conn t' = e_conn t \<and> escDecoder t' = run_state Feed (escDecoder t) (at_time n syms) \<and>
    pendingEvents t' = pendingEvents t @ byte_events (emitted (run_out Feed (escDecoder t) (at_time n syms)))"
  using assms
proof (induction syms arbitrary: t)
  case Nil
  then show ?case by (simp add: rx_messages_def at_time_def byte_events_def)
next
  case (Cons raw syms)
  obtain d decoded ok e a where f: "Feed (escDecoder t) (raw, n) = (d, decoded, ok, e, a)"
    by (metis prod_cases5)
  have q: "ae_Kind a = AdminEventNone" "quiet (run_out Feed d (at_time n syms))"
    using Cons.prems(4) f by (simp_all add: at_time_def)
  obtain x where x: "on_received ops t raw = t\<lparr>escDecoder := d, escapeAaAbsorbedTotal := x,
      pendingEvents := pendingEvents t @ (if ok then [byte_event decoded e] else [])\<rparr>" (is "_ = ?t1")
    using listening_symbol [OF Cons.prems(1,2) f q(1)] Cons.prems(3) by auto
  have pre: "instant ops ?t1 n" "listening ?t1" "length (pendingEvents ?t1) + length syms \<le> 256"
    "quiet (run_out Feed (escDecoder ?t1) (at_time n syms))"
    using Cons.prems q(2) by (simp_all add: listening_def instant_def)
  obtain t' where t': "fill_messages ops ?t1 (rx_messages syms) = Some (t', None)" "listening t'"
      "e_w t' = e_w t" "e_conn t' = e_conn t" "escDecoder t' = run_state Feed d (at_time n syms)"
      "pendingEvents t' = pendingEvents ?t1 @ byte_events (emitted (run_out Feed d (at_time n syms)))"
    using Cons.IH [OF pre] by auto
  have "fill_messages ops t (rx_messages (raw # syms)) = Some (t', None)"
    using t'(1) x by (simp add: rx_messages_def frame_message_def)
  then show ?case using t' f by (auto simp: at_time_def byte_events_def)
qed

section \<open>A scripted adapter\<close>

text \<open>
  A connection that delivers chunks of ENH items at given times and then times out, and keeps what is
  written to it.  The clock stands still between arrivals.
\<close>

record tape =
  tape_now :: go_time
  tape_in :: "(go_time \<times> enh_item list) list"
  tape_out :: "byte list"

definition tape_Read :: "tape \<Rightarrow> nat \<Rightarrow> tape \<times> (net_error + byte list)" where
  "tape_Read w c =
     (case tape_in w of
        [] \<Rightarrow> (w, Inl (NetError NetTimeout ''i/o timeout''))
      | (tm, its) # rest \<Rightarrow> (w\<lparr>tape_now := tm, tape_in := rest\<rparr>, Inr (concat (map item_wire its))))"

definition tape_ops :: "tape net_ops" where
  "tape_ops = \<lparr>net_Read = tape_Read,
     net_Write = (\<lambda>w c bs. (w\<lparr>tape_out := tape_out w @ bs\<rparr>, length bs, None)),
     net_SetReadDeadline = (\<lambda>w c d. (w, None)), net_SetWriteDeadline = (\<lambda>w c d. (w, None)),
     net_Close = (\<lambda>w c. (w, None)), net_dial = None, net_now = (\<lambda>w. (w, tape_now w))\<rparr>"

text \<open>Items that each carry one received symbol, raw or framed.\<close>

fun item_symbol :: "enh_item \<Rightarrow> byte" where
  "item_symbol (RawItem b) = b"
| "item_symbol (FrameItem cmd data) = data"

definition symbol_items :: "enh_item list \<Rightarrow> bool" where
  "symbol_items its = list_all (\<lambda>it. item_ok it \<and> (case it of RawItem b \<Rightarrow> True | FrameItem cmd d \<Rightarrow> cmd = ENHResReceived)) its"

text \<open>The symbols on the tape with the times they are read at.\<close>

definition tape_symbols :: "(go_time \<times> enh_item list) list \<Rightarrow> (byte \<times> go_time) list" where
  "tape_symbols cs = concat (map (\<lambda>(tm, its). at_time tm (map item_symbol its)) cs)"

lemma symbol_items_messages:
  "symbol_items its \<Longrightarrow> map item_message its = rx_messages (map item_symbol its) \<and> list_all item_ok its"
  by (induction its) (auto simp: symbol_items_def rx_messages_def split: enh_item.splits)

lemma parse_symbols:
  assumes "listening t" and "symbol_items its" and "its \<noteq> []"
  shows "\<exists>t'. parseObservedLocked t (concat (map item_wire its)) = (t', rx_messages (map item_symbol its), None) \<and>
    listening t' \<and> e_w t' = e_w t \<and> e_conn t' = e_conn t \<and> escDecoder t' = escDecoder t \<and>
    pendingEvents t' = pendingEvents t"
proof -
  have keeps: "listening (foldl count_message t ms) = listening t \<and> e_w (foldl count_message t ms) = e_w t \<and>
      e_conn (foldl count_message t ms) = e_conn t \<and> escDecoder (foldl count_message t ms) = escDecoder t \<and>
      pendingEvents (foldl count_message t ms) = pendingEvents t" for t :: "'a enh" and ms
    by (induction ms arbitrary: t) (simp_all add: count_message_def listening_def)
  have ms: "map item_message its = rx_messages (map item_symbol its)" "list_all item_ok its"
    using symbol_items_messages [OF assms(2)] by simp_all
  have "concat (map item_wire its) \<noteq> []"
    using assms(3) by (cases its; cases "hd its") auto
  then have "ENHParser_Parse (e_parser t) (concat (map item_wire its)) =
      (parser_clean, rx_messages (map item_symbol its), None)"
    using assms(1) parse_loop_items [OF ms(2), of "[]"] ms(1) by (auto simp: ENHParser_Parse_def listening_def)
  then show ?thesis
    using keeps [of "t\<lparr>e_parser := parser_clean\<rparr>"] assms(1)
    by (auto simp: parseObservedLocked_def listening_def)
qed

lemma tape_fill:
  assumes "listening t" and "tape_in (e_w t) = (tm, its) # cs" and "symbol_items its" and "pendingEvents t = []"
    and "length its \<le> 256" and "quiet (run_out Feed (escDecoder t) (at_time tm (map item_symbol its)))"
  shows "\<exists>t'. fillPendingLocked tape_ops t = Some (t', None) \<and> listening t' \<and> tape_in (e_w t') = cs \<and>
    escDecoder t' = run_state Feed (escDecoder t) (at_time tm (map item_symbol its)) \<and>
    pendingEvents t' = byte_events (emitted (run_out Feed (escDecoder t) (at_time tm (map item_symbol its))))"
proof -
  let ?t2 = "t\<lparr>e_w := (e_w t)\<lparr>tape_now := tm, tape_in := cs\<rparr>\<rparr>"
  have dl: "setReadDeadline tape_ops t = (t, None)"
    by (simp add: setReadDeadline_def tape_ops_def in_world_def now_def)
  have rd: "in_world (\<lambda>w. net_Read tape_ops w (e_conn t)) t = (?t2, Inr (concat (map item_wire its)))"
    using assms(2) by (simp add: in_world_def tape_ops_def tape_Read_def)
  show ?thesis
  proof (cases "its = []")
    case True
    then show ?thesis using dl rd assms(1,4)
      by (simp add: fillPendingLocked_def listening_def at_time_def byte_events_def)
  next
    case False
    have "listening ?t2" using assms(1) by (simp add: listening_def)
    then obtain t3 where t3: "parseObservedLocked ?t2 (concat (map item_wire its)) = (t3, rx_messages (map item_symbol its), None)"
        "listening t3" "e_w t3 = e_w ?t2" "escDecoder t3 = escDecoder t" "pendingEvents t3 = []"
      using parse_symbols [OF _ assms(3) False, of ?t2] assms(4) by auto
    have "instant tape_ops t3 tm" using t3(3) by (simp add: instant_def tape_ops_def)
    then obtain t4 where "fill_messages tape_ops t3 (rx_messages (map item_symbol its)) = Some (t4, None)"
        "listening t4" "e_w t4 = e_w t3"
        "escDecoder t4 = run_state Feed (escDecoder t) (at_time tm (map item_symbol its))"
        "pendingEvents t4 = byte_events (emitted (run_out Feed (escDecoder t) (at_time tm (map item_symbol its))))"
      using listening_batch [of tape_ops t3 tm "map item_symbol its"] t3 assms(5,6) by auto
    moreover have "concat (map item_wire its) \<noteq> []"
      using False by (cases its; cases "hd its") auto
    ultimately show ?thesis
      using dl rd t3 by (auto simp: fillPendingLocked_def)
  qed
qed

section \<open>Reading a stream\<close>

fun read_many :: "'w net_ops \<Rightarrow> nat \<Rightarrow> 'w enh \<Rightarrow> ('w enh \<times> (byte \<times> bool) result list) option" where
  "read_many ops 0 t = Some (t, [])"
| "read_many ops (Suc n) t =
     Option.bind (ReadByteWithEscape ops t) (\<lambda>(t1, r).
       map_option (\<lambda>(t2, rs). (t2, r # rs)) (read_many ops n t1))"

lemma read_queued:
  "listening t \<Longrightarrow> pendingEvents t = byte_events (p # ps) \<Longrightarrow>
   ReadByteWithEscape ops t = Some (t\<lparr>pendingEvents := byte_events ps\<rparr>, Inr p)"
  by (cases p) (auto simp: ReadByteWithEscape_def readByteAndFlag_def listening_def byte_events_def
      read_byte_round_def intro!: go_loop_return)

lemma read_refill:
  assumes "listening t" and "pendingEvents t = []" and "fillPendingLocked ops t = Some (t', None)" and "listening t'"
  shows "ReadByteWithEscape ops t = ReadByteWithEscape ops t'"
proof -
  have same: "t\<lparr>pendingEvents := []\<rparr> = t" using assms(2) by simp
  have "read_byte_round ops t = Some (Inl t')"
    using assms unfolding read_byte_round_def surface_or_fill_def
    by (simp add: listening_def same)
  then show ?thesis
    using assms(1,4) by (simp add: ReadByteWithEscape_def readByteAndFlag_def listening_def go_loop_continue)
qed

lemma read_many_queued:
  "listening t \<Longrightarrow> pendingEvents t = byte_events ps \<Longrightarrow>
   read_many ops (length ps + n) t =
     map_option (\<lambda>(t2, rs). (t2, map Inr ps @ rs)) (read_many ops n (t\<lparr>pendingEvents := []\<rparr>))"
proof (induction ps arbitrary: t)
  case Nil
  then have "t\<lparr>pendingEvents := []\<rparr> = t" by (simp add: byte_events_def)
  then show ?case by (simp add: option.map_ident case_prod_unfold)
next
  case (Cons p ps)
  have "listening (t\<lparr>pendingEvents := byte_events ps\<rparr>)" using Cons.prems(1) by (simp add: listening_def)
  then show ?case
    using read_queued [OF Cons.prems] Cons.IH [of "t\<lparr>pendingEvents := byte_events ps\<rparr>"]
    by (simp add: option.map_comp comp_def case_prod_unfold)
qed

lemma listening_pending [simp]: "listening (t\<lparr>pendingEvents := evs\<rparr>) = listening t"
  by (simp add: listening_def)

lemma read_many_refill:
  assumes "listening t" and "pendingEvents t = []" and "fillPendingLocked ops t = Some (t', None)" and "listening t'"
    and "n > 0"
  shows "read_many ops n t = read_many ops n t'"
  using read_refill [OF assms(1-4)] assms(5) by (cases n) simp_all

lemma tape_stream:
  assumes "listening t" and "pendingEvents t = []" and "list_all (\<lambda>(tm, its). symbol_items its \<and> length its \<le> 256) (tape_in (e_w t))"
    and "quiet (run_out Feed (escDecoder t) (tape_symbols (tape_in (e_w t))))"
    and "emitted (run_out Feed (escDecoder t) (tape_symbols (tape_in (e_w t)))) = ys"
  shows "\<exists>t'. read_many tape_ops (length ys) t = Some (t', map Inr ys) \<and> listening t' \<and> pendingEvents t' = []"
  using assms
proof (induction "tape_in (e_w t)" arbitrary: t ys)
  case Nil
  then show ?case by (auto simp: tape_symbols_def)
next
  case (Cons c cs)
  obtain tm its where c: "c = (tm, its)" by fastforce
  let ?ws = "at_time tm (map item_symbol its)"
  have tape: "tape_in (e_w t) = (tm, its) # cs" using Cons.hyps(2) c by simp
  have sym: "tape_symbols ((tm, its) # cs) = ?ws @ tape_symbols cs" by (simp add: tape_symbols_def)
  have pre: "symbol_items its" "length its \<le> 256" "quiet (run_out Feed (escDecoder t) ?ws)"
    using Cons.prems(3,4) tape sym by simp_all
  obtain t1 where t1: "fillPendingLocked tape_ops t = Some (t1, None)" "listening t1" "tape_in (e_w t1) = cs"
      "escDecoder t1 = run_state Feed (escDecoder t) ?ws"
      "pendingEvents t1 = byte_events (emitted (run_out Feed (escDecoder t) ?ws))"
    using tape_fill [OF Cons.prems(1) tape pre(1) Cons.prems(2) pre(2,3)] by auto
  let ?t2 = "t1\<lparr>pendingEvents := []\<rparr>"
  define ps where "ps = emitted (run_out Feed (escDecoder t) ?ws)"
  define rest where "rest = emitted (run_out Feed (escDecoder t1) (tape_symbols cs))"
  have ys: "ys = ps @ rest"
    using Cons.prems(5) tape sym t1(4) by (simp add: ps_def rest_def)
  obtain t' where t': "read_many tape_ops (length rest) ?t2 = Some (t', map Inr rest)" "listening t'" "pendingEvents t' = []"
    using Cons.hyps(1) [of ?t2 rest] t1 Cons.prems(3,4) tape sym by (auto simp: rest_def)
  show ?case
  proof (cases "ys = []")
    case True
    then show ?thesis using Cons.prems(1,2) by auto
  next
    case False
    then have "read_many tape_ops (length ys) t = read_many tape_ops (length ps + length rest) t1"
      using read_many_refill [OF Cons.prems(1,2) t1(1,2)] ys by simp
    also have "\<dots> = Some (t', map Inr ys)"
      using read_many_queued [OF t1(2), of ps tape_ops "length rest"] t1(5) t'(1) ys by (simp add: ps_def)
    finally show ?thesis using t'(2,3) by blast
  qed
qed

section \<open>An arbitration window\<close>

definition is_byte :: "stream_event \<Rightarrow> bool" where
  "is_byte ev \<longleftrightarrow> sev_Kind ev = StreamEventByte"

text \<open>The fields a window depends on; feeding the decoder leaves them alone.\<close>

definition window_view :: "'w enh \<Rightarrow> 'w \<times> bool \<times> 32 word \<times> go_time \<times> bool \<times> go_time \<times> bool \<times> stream_event list" where
  "window_view t = (e_w t, awaitingStart t, awaitingStartInitiator t, arbitrationDeadline t, postGrantPreEcho t,
     postGrantPreEchoDeadline t, rawSymbolItems t, pendingEvents t)"

lemma feed_window_view:
  assumes "instant ops t n" and "feedEscapeDecoderLocked ops t raw = (t', r)"
  shows "window_view t' = window_view t"
proof -
  obtain d decoded ok e a where f: "Feed (escDecoder t) (raw, n) = (d, decoded, ok, e, a)"
    by (metis prod_cases5)
  have admin: "window_view (fst (applyEscapeAdminEvent u a)) = window_view u" for u :: "'a enh"
    by (simp add: applyEscapeAdminEvent_def window_view_def split: admin_event_kind.splits)
  let ?u = "if AbsorbedCount d - AbsorbedCount (escDecoder t) > 0
    then t\<lparr>escDecoder := d, escapeAaAbsorbedTotal := escapeAaAbsorbedTotal t +
      word_of_int (AbsorbedCount d - AbsorbedCount (escDecoder t))\<rparr> else t\<lparr>escDecoder := d\<rparr>"
  have "t' = fst (applyEscapeAdminEvent ?u a)"
    using assms f by (cases "AbsorbedCount (escDecoder t) < AbsorbedCount d")
      (simp_all add: feedEscapeDecoderLocked_def Let_def split: prod.splits bool.splits)
  moreover have "window_view ?u = window_view t" by (simp add: window_view_def)
  ultimately show ?thesis using admin [of ?u] by simp
qed

text \<open>Before the grant: the window stays open and no byte event is queued.\<close>

definition window_open :: "'w net_ops \<Rightarrow> go_time \<Rightarrow> byte \<Rightarrow> nat \<Rightarrow> stream_event list \<Rightarrow> 'w enh \<Rightarrow> bool" where
  "window_open ops n i room bs t \<longleftrightarrow>
     instant ops t n \<and> awaitingStart t \<and> awaitingStartInitiator t = ucast i \<and>
     (arbitrationDeadline t = 0 \<or> n < arbitrationDeadline t) \<and> \<not> rawSymbolItems t \<and>
     length (pendingEvents t) + room \<le> 256 \<and> filter is_byte (pendingEvents t) = bs"

definition pre_grant :: "byte \<Rightarrow> enh_message \<Rightarrow> bool" where
  "pre_grant i msg \<longleftrightarrow>
     msg_Command msg = ENHResReceived \<or> (msg_Command msg = ENHResStarted \<and> msg_Data msg \<noteq> i)"

lemma byte_through_word: "ucast (ucast (i :: byte) :: 32 word) = i"
  by (rule bit_word_eqI) (auto simp: bit_simps)

lemma window_open_view:
  "window_view t' = window_view t \<Longrightarrow> window_open ops n i room bs t' = window_open ops n i room bs t"
  by (simp add: window_view_def window_open_def instant_def)

lemma append_within_cap:
  "length (pendingEvents t) < 256 \<Longrightarrow> \<not> rawSymbolItems t \<Longrightarrow>
   appendControlEventLocked t ev = t\<lparr>pendingEvents := pendingEvents t @ [ev]\<rparr>"
  by (simp add: appendControlEventLocked_def pendingCapLocked_def maxPendingEvents_def Let_def)

lemma window_open_step:
  assumes "window_open ops n i (Suc room) bs t" and "pre_grant i msg"
  shows "\<exists>t'. (\<forall>msgs. fill_messages ops t (msg # msgs) = fill_messages ops t' msgs) \<and> window_open ops n i room bs t'"
proof (cases "msg_Command msg = ENHResReceived")
  case True
  have w: "arbitrationWindowExpired ops t = (t, False)"
    using assms(1) by (auto simp: window_open_def arbitrationWindowExpired_def)
  obtain t2 decoded ok e where f: "feedEscapeDecoderLocked ops t (msg_Data msg) = (t2, decoded, ok, e)"
    by (metis prod_cases4)
  have "instant ops t n" using assms(1) by (simp add: window_open_def)
  then have o2: "window_open ops n i (Suc room) bs t2"
    using window_open_view [OF feed_window_view [OF _ f], of n ops n i "Suc room" bs] assms(1) by simp
  let ?t' = "if ok \<and> decoded = 0xAA \<and> \<not> e then queueObservedSymbolLocked t2 (msg_Data msg) (Some wire_syn_event) else t2"
  have "on_received ops t (msg_Data msg) = ?t'"
    using assms(1) w f by (simp add: on_received_def window_open_def)
  moreover have "window_open ops n i room bs ?t'"
    using o2 by (auto simp: window_open_def queueObservedSymbolLocked_def appendWireSynLocked_def
        instant_def is_byte_def maxPendingEvents_def)
  ultimately show ?thesis using True by auto
next
  case False
  then have msg: "msg_Command msg = ENHResStarted" "msg_Data msg \<noteq> i" using assms(2) by (auto simp: pre_grant_def)
  have i: "ucast (awaitingStartInitiator t) = i"
    using assms(1) by (simp add: window_open_def byte_through_word)
  have "on_started ops t (msg_Data msg) =
      t\<lparr>pendingEvents := pendingEvents t @ [control_event StreamEventStarted (msg_Data msg)]\<rparr>" (is "_ = ?t'")
    using assms(1) i msg(2) append_within_cap [of t] by (auto simp: on_started_def window_open_def)
  moreover have "window_open ops n i room bs ?t'"
    using assms(1) by (simp add: window_open_def instant_def is_byte_def)
  ultimately show ?thesis using msg False by auto
qed

lemma window_open_run:
  "window_open ops n i (length pre + room) bs t \<Longrightarrow> list_all (pre_grant i) pre \<Longrightarrow>
   \<exists>t'. (\<forall>msgs. fill_messages ops t (pre @ msgs) = fill_messages ops t' msgs) \<and> window_open ops n i room bs t'"
proof (induction pre arbitrary: t)
  case (Cons msg pre)
  obtain t1 where t1: "\<And>msgs. fill_messages ops t (msg # msgs) = fill_messages ops t1 msgs"
      "window_open ops n i (length pre + room) bs t1"
    using window_open_step [of ops n i "length pre + room" bs t msg] Cons.prems by auto
  moreover obtain t' where "\<And>msgs. fill_messages ops t1 (pre @ msgs) = fill_messages ops t' msgs"
      "window_open ops n i room bs t'"
    using Cons.IH [OF t1(2)] Cons.prems(2) by auto
  ultimately show ?case by auto
qed auto

text \<open>After the grant: idle SYNs are held back until the first other symbol.\<close>

definition echo_window :: "'w net_ops \<Rightarrow> go_time \<Rightarrow> nat \<Rightarrow> stream_event list \<Rightarrow> 'w enh \<Rightarrow> bool" where
  "echo_window ops n room bs t \<longleftrightarrow>
     instant ops t n \<and> \<not> awaitingStart t \<and> postGrantPreEcho t \<and> postGrantPreEchoDeadline t = n + postGrantPreEchoTimeout \<and>
     escDecoder t = escape_normal \<and> \<not> rawSymbolItems t \<and>
     length (pendingEvents t) + room \<le> 256 \<and> filter is_byte (pendingEvents t) = bs"

lemma escape_Reset_normal [simp]: "escape_Reset d = escape_normal"
  by (cases d) (simp add: escape_Reset_def clear_pending_def escape_normal_def)

lemma window_granted:
  assumes "window_open ops n i (Suc room) bs t"
  shows "echo_window ops n room bs (on_started ops t i)"
proof -
  let ?u = "reset_escape (t\<lparr>awaitingStart := False, arbitrationDeadline := 0\<rparr>)"
  have u: "instant ops ?u n" "length (pendingEvents ?u) < 256" "\<not> rawSymbolItems ?u"
    using assms by (simp_all add: window_open_def instant_def reset_escape_def)
  have "on_started ops t i = appendControlEventLocked
      (?u\<lparr>postGrantPreEchoDeadline := n + postGrantPreEchoTimeout, postGrantPreEcho := True\<rparr>) (control_event StreamEventStarted i)"
    using assms u(1) by (simp add: on_started_def window_open_def openPostGrantPreEchoWindow_def byte_through_word)
  then show ?thesis
    using assms u by (simp add: echo_window_def append_within_cap window_open_def reset_escape_def instant_def is_byte_def)
qed

lemma echo_window_emit:
  assumes "echo_window ops n room bs t" and "b \<noteq> 0xA9"
  shows "\<exists>x. on_received ops t b =
    (let t1 = t\<lparr>escapeResetPending := False, escapeAaAbsorbedTotal := x\<rparr> in
     if b = 0xAA then t1
     else queueObservedSymbolLocked (closePostGrantPreEchoWindow t1) b (Some (byte_event b False)))"
proof -
  let ?u = "t\<lparr>escapeResetPending := False\<rparr>"
  have reset: "resetPendingEscapeBeforeEmissionLocked t = ?u"
    using assms(1) by (cases "escapeResetPending t")
      (simp_all add: resetPendingEscapeBeforeEmissionLocked_def reset_escape_def echo_window_def Let_def)
  have now: "instant ops ?u n" using assms(1) by (simp add: echo_window_def instant_def)
  have feed: "Feed (escDecoder ?u) (b, n) = (escape_normal, b, True, False, no_admin)"
    using assms by (simp add: echo_window_def Feed_plain)
  obtain x where x: "feedEscapeDecoderLocked ops ?u b =
      (?u\<lparr>escDecoder := escape_normal, escapeAaAbsorbedTotal := x\<rparr>, b, True, False)"
    using quiet_feed [OF now feed] by (auto simp: no_admin_def)
  have same: "?u\<lparr>escDecoder := escape_normal, escapeAaAbsorbedTotal := x\<rparr> = ?u\<lparr>escapeAaAbsorbedTotal := x\<rparr>"
    using assms(1) by (simp add: echo_window_def)
  have "instant ops (?u\<lparr>escapeAaAbsorbedTotal := x\<rparr>) n" using now by (simp add: instant_def)
  then have "postGrantPreEchoExpired ops (?u\<lparr>escapeAaAbsorbedTotal := x\<rparr>) = (?u\<lparr>escapeAaAbsorbedTotal := x\<rparr>, False)"
    using assms(1) by (simp add: postGrantPreEchoExpired_def echo_window_def postGrantPreEchoTimeout_def)
  then show ?thesis
    using assms(1) x reset
    by (intro exI [of _ x]) (simp add: on_received_def emit_received_def echo_window_def same [simplified] Let_def)
qed

lemma echo_window_syn:
  assumes "echo_window ops n room bs t" shows "echo_window ops n room bs (on_received ops t 0xAA)"
  using echo_window_emit [OF assms, of "0xAA"] assms by (auto simp: echo_window_def instant_def Let_def)

lemma echo_window_syns:
  "echo_window ops n room bs t \<Longrightarrow>
   \<exists>t'. (\<forall>msgs. fill_messages ops t (rx_messages (replicate k 0xAA) @ msgs) = fill_messages ops t' msgs) \<and> echo_window ops n room bs t'"
proof (induction k arbitrary: t)
  case (Suc k)
  then show ?case
    using echo_window_syn [OF Suc.prems] Suc.IH by (fastforce simp: rx_messages_def frame_message_def)
qed (auto simp: rx_messages_def)

section \<open>Properties\<close>

text \<open>
  C6: the transport delivers the eBUS byte stream.  When the adapter reports the symbols of the wire image
  of \<open>xs\<close> (byte-stuffed, with up to eight injected SYNs per escape pair, each pair within 32 ms), as raw
  bytes or as RECEIVED frames and in chunks of at most 256 items cut anywhere between items, a new
  transport's reads return exactly \<open>xs\<close>, and flag exactly the bytes that were stuffed.
\<close>

theorem enh_delivers_stream:
  assumes "noisy_wire xs (tape_symbols cs)"
    and "list_all (\<lambda>(tm, its). symbol_items its \<and> length its \<le> 256) cs"
  shows "\<exists>t'. read_many tape_ops (length xs)
      (NewENHTransport \<lparr>tape_now = n, tape_in = cs, tape_out = []\<rparr> conn rt wt) =
    Some (t', map (\<lambda>b. Inr (b, b = 0xA9 \<or> b = 0xAA)) xs)"
proof -
  let ?t = "NewENHTransport \<lparr>tape_now = n, tape_in = cs, tape_out = []\<rparr> conn rt wt"
  have t: "listening ?t" "pendingEvents ?t = []" "tape_in (e_w ?t) = cs" "escDecoder ?t = escape_normal"
    by (simp_all add: listening_def NewENHTransport_def)
  show ?thesis
    using tape_stream [OF t(1,2), of "map (\<lambda>b. (b, b = 0xA9 \<or> b = 0xAA)) xs"] noisy_decode [OF assms(1)] assms(2) t(3,4)
    by (auto simp: comp_def)
qed

theorem enh_delivers_stream_witness:
  "\<exists>t'. read_many tape_ops 2
      (NewENHTransport \<lparr>tape_now = 0, tape_in = [(5, [RawItem 0x10, FrameItem ENHResReceived 0xA9]),
         (9, [FrameItem ENHResReceived 0xAA, RawItem 0x01])], tape_out = []\<rparr> 1 0 0) =
    Some (t', [Inr (0x10, False), Inr (0xAA, True)])"
proof -
  have "noisy_wire [0xAA] [(0xA9, 5), (0xAA, 9), (0x01, 9)]"
    using noisy_pair [OF noisy_Nil, of "0xAA" "[9]" 5 9]
    by (simp add: completion_def in_time_def time_sub_def EscapePendingTimeout_def)
  then have noisy: "noisy_wire [0x10, 0xAA] (tape_symbols [(5, [RawItem 0x10, FrameItem ENHResReceived 0xA9]),
         (9, [FrameItem ENHResReceived 0xAA, RawItem 0x01])])"
    by (auto simp: tape_symbols_def at_time_def intro!: noisy_plain)
  have "list_all (\<lambda>(tm, its). symbol_items its \<and> length its \<le> 256)
      [(5 :: go_time, [RawItem 0x10, FrameItem ENHResReceived 0xA9]), (9, [FrameItem ENHResReceived 0xAA, RawItem 0x01])]"
    by (simp add: symbol_items_def known_command_def codec_simps)
  moreover have "length [0x10, 0xAA :: byte] = 2"
    "map (\<lambda>b. Inr (b, b = 0xA9 \<or> b = 0xAA)) [0x10, 0xAA :: byte] =
      ([Inr (0x10, False), Inr (0xAA, True)] :: (byte \<times> bool) result list)" by simp_all
  ultimately show ?thesis using enh_delivers_stream [OF noisy, of 0 1 0 0] by (simp only:)
qed


text \<open>A transport on an empty tape that has just asked for the bus.\<close>

definition asking :: "tape enh" where
  "asking = fst (RequestStart tape_ops 0x31 (NewENHTransport \<lparr>tape_now = 7, tape_in = [], tape_out = []\<rparr> 1 0 0))"


text \<open>A granted arbitration: the messages of the last read and what they do to the verdict.\<close>

definition arb_denies :: "enh_message \<Rightarrow> bool" where
  "arb_denies msg \<longleftrightarrow> msg_Command msg \<in> {ENHResResetted, ENHResFailed, ENHResErrorEBUS, ENHResErrorHost}"

lemma arb_messages_error_stays:
  "arb_messages ops i t (m, True, Some e) msgs = Some (t', m', fin, err) \<Longrightarrow> fin \<and> err \<noteq> None"
proof (induction msgs arbitrary: t m e)
  case (Cons msg msgs)
  then show ?case by (auto simp: Let_def bind_eq_Some_conv split: if_splits)
qed auto

lemma arb_messages_granted:
  "arb_messages ops i t (m, fin0, None) msgs = Some (t', m', fin, None) \<Longrightarrow>
   list_all (\<lambda>msg. \<not> arb_denies msg) msgs \<and> (fin \<longrightarrow> fin0 \<or> (\<exists>msg \<in> set msgs. msg_Command msg = ENHResStarted \<and> msg_Data msg = i))"
proof (induction msgs arbitrary: t m fin0)
  case (Cons msg msgs)
  have stay: "\<not> arb_messages ops i u (k, True, Some e) msgs = Some (t', m', fin, None)" for u k e
    using arb_messages_error_stays [of ops i u k e msgs t' m' fin None] by auto
  show ?case
    using Cons.prems Cons.IH stay
    by (auto simp: Let_def bind_eq_Some_conv arb_denies_def enh_command_defs split: if_splits)
qed simp

definition arb_clean :: "'w enh \<Rightarrow> bool" where
  "arb_clean t \<longleftrightarrow> pendingEvents t = [] \<and> deferredErr t = None \<and> \<not> awaitingStart t \<and> e_parser t = parser_clean \<and>
     escDecoder t = escape_normal \<and> postGrantPreEcho t"

lemma parser_Reset_clean [simp]: "ENHParser_Reset p = parser_clean"
  by (cases p) (simp add: ENHParser_Reset_def parser_clean_def)

lemma arb_finish_clean: "arb_finish ops t None = (t', r) \<Longrightarrow> arb_clean t'"
  by (auto simp: arb_finish_def Let_def openPostGrantPreEchoWindow_def now_def in_world_def arb_clean_def
      reset_escape_def resetENHParserLocked_def split: prod.splits)

definition granted_by :: "byte \<Rightarrow> enh_message list \<Rightarrow> bool" where
  "granted_by i msgs \<longleftrightarrow> (\<exists>msg \<in> set msgs. msg_Command msg = ENHResStarted \<and> msg_Data msg = i) \<and>
     (\<forall>msg \<in> set msgs. \<not> arb_denies msg)"

lemma arb_data_granted:
  assumes "arb_data ops i m t data = Some (Inr (t', None))"
  shows "arb_clean t' \<and> (\<exists>t2 msgs err. parseObservedLocked t data = (t2, msgs, err) \<and> granted_by i msgs)"
proof -
  obtain t1 msgs pe where p: "parseObservedLocked t data = (t1, msgs, pe)" by (metis prod_cases3)
  obtain t2 m' fin err where ms: "arb_messages ops i t1 (m, False, None) msgs = Some (t2, m', fin, err)"
    using assms p by (auto simp: arb_data_def split: if_splits)
  have fin: "fin" "arb_finish ops t2 err = (t', None)"
    using assms p ms by (auto simp: arb_data_def split: if_splits option.splits)
  have "err = None" using fin(2) by (simp add: arb_finish_def Let_def)
  then show ?thesis
    using arb_messages_granted [of ops i t1 m False msgs t2 m' fin] ms fin arb_finish_clean [of ops t2 t' None] p
    by (auto simp: granted_by_def list_all_iff)
qed

lemma arb_round_granted:
  fixes ops :: "'w net_ops"
  assumes "arb_round ops i s = Some (Inr (t', None))"
  shows "arb_clean t' \<and> (\<exists>t1 data t2 msgs err. parseObservedLocked (t1 :: 'w enh) data = (t2, msgs, err) \<and> granted_by i msgs)"
proof -
  obtain m t1 data where "arb_data ops i m t1 data = Some (Inr (t', None))"
    using assms by (auto simp: arb_round_def split: prod.splits option.splits sum.splits)
  from arb_data_granted [OF this] show ?thesis by blast
qed

text \<open>A tape on which the adapter first grants another initiator and then this one.\<close>

definition granting :: "tape enh" where
  "granting = NewENHTransport \<lparr>tape_now = 7, tape_in = [(8, [FrameItem ENHResStarted 0x03]),
     (9, [RawItem 0x10, FrameItem ENHResStarted 0x31])], tape_out = []\<rparr> 1 0 0"

definition granting_run :: bool where
  "granting_run =
     (case send_frame tape_ops ENHReqStart 0x31 (Sentinel ErrInvalidPayload) granting of
        (t1, Some _) \<Rightarrow> False
      | (t1, None) \<Rightarrow>
         (case arb_round tape_ops 0x31 (0, t1) of
            Some (Inl s) \<Rightarrow>
              (case arb_round tape_ops 0x31 s of
                 Some (Inr r) \<Rightarrow> Option.is_none (snd r)
               | Some (Inl _) \<Rightarrow> False
               | None \<Rightarrow> False)
          | Some (Inr _) \<Rightarrow> False
          | None \<Rightarrow> False))"

lemma granting_run: granting_run
  by code_simp



section \<open>Writing\<close>

text \<open>What a connection must keep of the writes: the bytes it has taken, in order.\<close>

definition takes_bytes :: "'w net_ops \<Rightarrow> ('w \<Rightarrow> byte list) \<Rightarrow> bool" where
  "takes_bytes ops taken \<longleftrightarrow>
     (\<forall>w c bs. case net_Write ops w c bs of (w', n, err) \<Rightarrow> n \<le> length bs \<and> taken w' = taken w @ take n bs) \<and>
     (\<forall>w c d. taken (fst (net_SetWriteDeadline ops w c d)) = taken w) \<and>
     (\<forall>w. taken (fst (net_now ops w)) = taken w)"

lemma taken_deadline:
  assumes "takes_bytes ops taken" and "setWriteDeadline ops t = (t', e)"
  shows "taken (e_w t') = taken (e_w t) \<and> e_conn t' = e_conn t"
  using assms
  by (auto simp: takes_bytes_def setWriteDeadline_def now_def in_world_def split: if_splits prod.splits)
    (metis fst_conv)+

lemma write_loop_taken:
  assumes "takes_bytes ops taken" and "k \<le> length seq" and "write_loop ops seq k t = (t', k', err)"
  shows "k \<le> k' \<and> k' \<le> length seq \<and> taken (e_w t') = taken (e_w t) @ take (k' - k) (drop k seq)"
  using assms(2,3)
proof (induction "length seq - k" arbitrary: k t rule: less_induct)
  case less
  show ?case
  proof (cases "k < length seq")
    case False
    then show ?thesis using less.prems by (subst (asm) write_loop.simps) simp
  next
    case True
    obtain t1 e where d: "setWriteDeadline ops t = (t1, e)" by fastforce
    have t1: "taken (e_w t1) = taken (e_w t)" using taken_deadline [OF assms(1) d] by simp
    obtain t2 n err' where w: "in_world (\<lambda>w. net_Write ops w (e_conn t1) (drop k seq)) t1 = (t2, n, err')"
      by (metis prod_cases3)
    obtain w2 where nw: "net_Write ops (e_w t1) (e_conn t1) (drop k seq) = (w2, n, err')" "e_w t2 = w2"
      using w by (auto simp: in_world_def split: prod.splits)
    have n: "n \<le> length seq - k" "taken (e_w t2) = taken (e_w t) @ take n (drop k seq)"
      using assms(1) nw t1 unfolding takes_bytes_def by (force split: prod.splits)+
    show ?thesis
    proof (cases "e = None \<and> err' = None \<and> n \<noteq> 0")
      case False
      then show ?thesis
        using less.prems(2) True d w n t1
        by (subst (asm) write_loop.simps) (auto split: option.splits if_splits)
    next
      case cont: True
      have rest: "write_loop ops seq (k + n) t2 = (t', k', err)"
        using less.prems(2) True d w cont by (subst (asm) write_loop.simps) simp
      have "k + n \<le> k' \<and> k' \<le> length seq \<and> taken (e_w t') = taken (e_w t2) @ take (k' - (k + n)) (drop (k + n) seq)"
        using less.hyps [OF _ _ rest] n(1) cont True by auto
      moreover have "take n (drop k seq) @ take (k' - (k + n)) (drop (k + n) seq) = take (k' - k) (drop k seq)"
        if "k + n \<le> k'"
        using take_add [of n "k' - (k + n)" "drop k seq"] that by (simp add: add.commute)
      ultimately show ?thesis using n(2) by simp
    qed
  qed
qed

lemma encode_payload_items:
  "encode_payload payload = concat (map (\<lambda>b. item_wire (FrameItem ENHReqSend b)) payload)"
proof -
  have "foldl (\<lambda>encoded b. encoded @ frame_bytes ENHReqSend b) acc payload =
      acc @ concat (map (\<lambda>b. item_wire (FrameItem ENHReqSend b)) payload)" for acc
    by (induction payload arbitrary: acc) (simp_all add: frame_bytes_def split: prod.splits)
  then show ?thesis by (simp add: encode_payload_def)
qed

lemma length_encode_payload: "length (encode_payload payload) = 2 * length payload"
  by (simp add: encode_payload_items length_concat comp_def sum_list_triv)

text \<open>
  a write puts SEND frames on the connection and says how far it got.  However the connection splits
  or refuses the bytes, what it has taken is a prefix of the encoded payload; the count returned is the
  number of whole frames in it; without an error it is the whole payload, and an adapter that decodes
  the bytes gets exactly the payload bytes as SEND requests.
\<close>

theorem enh_write_frames:
  assumes "takes_bytes ops taken" and "\<not> e_closed t" and "ENH_Write ops payload t = (t', n, err)"
  shows "\<exists>k \<le> length (encode_payload payload).
    taken (e_w t') = taken (e_w t) @ take k (encode_payload payload) \<and> n = k div 2 \<and>
    (err = None \<longrightarrow> n = length payload \<and> k = length (encode_payload payload)) \<and>
    (payload \<noteq> [] \<longrightarrow> ENHParser_Parse parser_clean (encode_payload payload) =
      (parser_clean, map (frame_message ENHReqSend) payload, None))"
proof (cases "payload = []")
  case True
  then show ?thesis using assms by (auto simp: ENH_Write_def encode_payload_def)
next
  case False
  obtain t1 k e where w: "write_loop ops (encode_payload payload) 0 t = (t1, k, e)" by (metis prod_cases3)
  have k: "k \<le> length (encode_payload payload)" "taken (e_w t1) = taken (e_w t) @ take k (encode_payload payload)"
    using write_loop_taken [OF assms(1) _ w] by simp_all
  have "parse_loop parser_clean [] (encode_payload payload) = (parser_clean, map (frame_message ENHReqSend) payload, None)"
    using parse_loop_items [of "map (FrameItem ENHReqSend) payload" "[]"]
    by (simp add: encode_payload_items comp_def list_all_iff known_command_def)
  moreover have "encode_payload payload \<noteq> []"
    using length_encode_payload [of payload] False by (metis length_0_conv mult_eq_0_iff zero_neq_numeral)
  ultimately have "ENHParser_Parse parser_clean (encode_payload payload) =
      (parser_clean, map (frame_message ENHReqSend) payload, None)"
    by (simp add: ENHParser_Parse_def)
  then show ?thesis
    using assms(2,3) False w k length_encode_payload [of payload]
    by (intro exI [of _ k]) (auto simp: ENH_Write_def Let_def split: option.splits if_splits)
qed

theorem enh_write_frames_witness:
  "\<exists>k \<le> length (encode_payload [0x08, 0xAA]).
    tape_out (e_w (fst (ENH_Write tape_ops [0x08, 0xAA] granting))) = take k (encode_payload [0x08, 0xAA])"
proof -
  have "takes_bytes tape_ops tape_out" by (simp add: takes_bytes_def tape_ops_def)
  moreover have "\<not> e_closed granting" "tape_out (e_w granting) = []" by (simp_all add: granting_def NewENHTransport_def)
  ultimately show ?thesis
    using enh_write_frames [of tape_ops tape_out granting "[0x08, 0xAA]"] by (metis append_Nil prod.collapse)
qed

end
