(* ===== verification/Collision_Monitor.thy ===== *)
theory Collision_Monitor
  imports Addressing Wire_Escape
begin

text \<open>
  The collision monitor, \<open>protocol/collision_monitor.go\<close>: a history of own transmissions against which
  frames from our own source address are matched, listen-only mode, the grace time of an address change,
  and the block on transmissions while a collision is active.  Every method is one step under the mutex
  and takes the time its clock reads.
\<close>

section \<open>State and operations\<close>

definition defaultCollisionEchoWindow :: int where "defaultCollisionEchoWindow = 200 * 1000000"
definition defaultCollisionHistoryCapacity :: int where "defaultCollisionHistoryCapacity = 128"
definition defaultCollisionGraceWindow :: int where "defaultCollisionGraceWindow = 750 * 1000000"

datatype collision_reason = CollisionReasonForeignSameSource | CollisionReasonObservedWhileMuted

record collision_event =
  ev_Initiator :: byte
  ev_Frame :: frame
  ev_Timestamp :: go_time
  ev_Reason :: collision_reason

record monitor_config =
  EchoWindow :: int
  HistoryCapacity :: int
  SourceAddressChangeGrace :: int

record tx_record =
  tx_frame :: frame
  tx_timestamp :: go_time

record monitor =
  m_cfg :: monitor_config
  m_initiator :: byte
  m_muted :: bool
  oldInitiator :: byte
  oldInitiatorValid :: bool
  oldInitiatorGraceEnd :: go_time
  m_history :: "tx_record list"
  collisionActive :: bool
  lastEvent :: "collision_event option"

text \<open>
  \<open>ErrArbitrationFailed\<close> unwraps to the collision sentinel, whose text is not part of its message; the
  chain is what callers look at.
\<close>

definition ErrArbitrationFailed :: go_error where
  "ErrArbitrationFailed = Wrap ''ebus: arbitration failed (address_collision): '' (Sentinel ErrBusCollision) []"

definition normalizeCollisionMonitorConfig :: "monitor_config \<Rightarrow> monitor_config" where
  "normalizeCollisionMonitorConfig cfg =
     \<lparr>EchoWindow = (if EchoWindow cfg \<le> 0 then defaultCollisionEchoWindow else EchoWindow cfg),
      HistoryCapacity = (if HistoryCapacity cfg \<le> 0 then defaultCollisionHistoryCapacity else HistoryCapacity cfg),
      SourceAddressChangeGrace = (if SourceAddressChangeGrace cfg \<le> 0 then defaultCollisionGraceWindow
        else SourceAddressChangeGrace cfg)\<rparr>"

definition NewCollisionMonitor :: "monitor_config \<Rightarrow> monitor" where
  "NewCollisionMonitor cfg =
     \<lparr>m_cfg = normalizeCollisionMonitorConfig cfg, m_initiator = 0, m_muted = False, oldInitiator = 0,
      oldInitiatorValid = False, oldInitiatorGraceEnd = 0, m_history = [], collisionActive = False, lastEvent = None\<rparr>"

definition SetInitiator :: "go_time \<Rightarrow> byte \<Rightarrow> monitor \<Rightarrow> monitor" where
  "SetInitiator now initiator m =
     (let m1 = (if m_initiator m \<noteq> 0 \<and> m_initiator m \<noteq> initiator
                then m\<lparr>oldInitiator := m_initiator m, oldInitiatorValid := True,
                       oldInitiatorGraceEnd := now + SourceAddressChangeGrace (m_cfg m),
                       collisionActive := False, lastEvent := None\<rparr>
                else m)
      in m1\<lparr>m_initiator := initiator\<rparr>)"

definition SetMuted :: "bool \<Rightarrow> monitor \<Rightarrow> monitor" where
  "SetMuted muted m = m\<lparr>m_muted := muted\<rparr>"

text \<open>The last \<open>HistoryCapacity\<close> records are kept.\<close>

definition appendHistory :: "tx_record \<Rightarrow> monitor \<Rightarrow> monitor" where
  "appendHistory r m =
     (let h = m_history m @ [r] in
      if int (length h) \<le> HistoryCapacity (m_cfg m) then m\<lparr>m_history := h\<rparr>
      else m\<lparr>m_history := drop (nat (int (length h) - HistoryCapacity (m_cfg m))) h\<rparr>)"

definition RecordTX :: "go_time \<Rightarrow> frame \<Rightarrow> monitor \<Rightarrow> monitor \<times> go_error option" where
  "RecordTX now f m =
     (if collisionActive m then (m, Some ErrArbitrationFailed)
      else (appendHistory \<lparr>tx_frame = f, tx_timestamp = now\<rparr> m, None))"

text \<open>The frame type is not compared.\<close>

definition framesEqual :: "frame \<Rightarrow> frame \<Rightarrow> bool" where
  "framesEqual l r \<longleftrightarrow> Source l = Source r \<and> Target l = Target r \<and> Primary l = Primary r \<and>
     Secondary l = Secondary r \<and> Data l = Data r"

definition matchesRecentTX :: "monitor \<Rightarrow> frame \<Rightarrow> go_time \<Rightarrow> bool" where
  "matchesRecentTX m f now \<longleftrightarrow>
     list_ex (\<lambda>r. \<not> (time_sub now (tx_timestamp r) > EchoWindow (m_cfg m)) \<and> framesEqual (tx_frame r) f) (rev (m_history m))"

definition activateCollision :: "go_time \<Rightarrow> frame \<Rightarrow> collision_reason \<Rightarrow> monitor \<Rightarrow> monitor \<times> collision_event option" where
  "activateCollision now f reason m =
     (let ev = \<lparr>ev_Initiator = m_initiator m, ev_Frame = f, ev_Timestamp = now, ev_Reason = reason\<rparr>
      in (m\<lparr>collisionActive := True, lastEvent := Some ev\<rparr>, Some ev))"

definition ObserveRX :: "go_time \<Rightarrow> frame \<Rightarrow> monitor \<Rightarrow> monitor \<times> collision_event option" where
  "ObserveRX now f m =
     (let m1 = (if oldInitiatorValid m \<and> now > oldInitiatorGraceEnd m then m\<lparr>oldInitiatorValid := False\<rparr> else m) in
      if oldInitiatorValid m1 \<and> Source f = oldInitiator m1 then (m1, None)
      else if m_initiator m1 = 0 \<or> Source f \<noteq> m_initiator m1 then (m1, None)
      else if m_muted m1 then activateCollision now f CollisionReasonObservedWhileMuted m1
      else if matchesRecentTX m1 f now then (m1, None)
      else activateCollision now f CollisionReasonForeignSameSource m1)"

definition CollisionActive :: "monitor \<Rightarrow> bool" where "CollisionActive m = collisionActive m"
definition LastEvent :: "monitor \<Rightarrow> collision_event option" where "LastEvent m = lastEvent m"

section \<open>Runs\<close>

datatype monitor_call =
    CallSetInitiator go_time byte | CallSetMuted bool | CallRecordTX go_time frame | CallObserveRX go_time frame

fun monitor_do :: "monitor \<Rightarrow> monitor_call \<Rightarrow> monitor" where
  "monitor_do m (CallSetInitiator now i) = SetInitiator now i m"
| "monitor_do m (CallSetMuted b) = SetMuted b m"
| "monitor_do m (CallRecordTX now f) = fst (RecordTX now f m)"
| "monitor_do m (CallObserveRX now f) = fst (ObserveRX now f m)"

definition monitor_run :: "monitor \<Rightarrow> monitor_call list \<Rightarrow> monitor" where
  "monitor_run m cs = foldl monitor_do m cs"

fun address_change :: "byte \<Rightarrow> monitor_call \<Rightarrow> bool" where
  "address_change i (CallSetInitiator now j) \<longleftrightarrow> j \<noteq> i"
| "address_change i c \<longleftrightarrow> False"

lemma cfg_kept [simp]: "m_cfg (monitor_do m c) = m_cfg m"
  by (cases c) (auto simp: SetInitiator_def SetMuted_def RecordTX_def appendHistory_def ObserveRX_def
      activateCollision_def Let_def)

lemma history_bounded:
  "HistoryCapacity (m_cfg m) > 0 \<Longrightarrow> int (length (m_history m)) \<le> HistoryCapacity (m_cfg m) \<Longrightarrow>
   int (length (m_history (monitor_do m c))) \<le> HistoryCapacity (m_cfg m)"
  by (cases c) (auto simp: SetInitiator_def SetMuted_def RecordTX_def appendHistory_def ObserveRX_def
      activateCollision_def Let_def)

lemma blocked_step:
  assumes "collisionActive m" and "\<not> address_change (m_initiator m) c"
  shows "collisionActive (monitor_do m c) \<and> m_initiator (monitor_do m c) = m_initiator m \<and>
    m_history (monitor_do m c) = m_history m"
  using assms
  by (cases c) (auto simp: SetInitiator_def SetMuted_def RecordTX_def ObserveRX_def activateCollision_def Let_def)

lemma blocked_run:
  "collisionActive m \<Longrightarrow> list_all (\<lambda>c. \<not> address_change (m_initiator m) c) cs \<Longrightarrow>
   collisionActive (monitor_run m cs) \<and> m_initiator (monitor_run m cs) = m_initiator m"
  unfolding monitor_run_def
proof (induction cs arbitrary: m)
  case (Cons c cs)
  then show ?case using blocked_step [of m c] by auto
qed simp

text \<open>A transmission stays in the history until \<open>HistoryCapacity\<close> later ones have pushed it out.\<close>

definition recorded :: "tx_record \<Rightarrow> nat \<Rightarrow> monitor \<Rightarrow> bool" where
  "recorded r k m \<longleftrightarrow> \<not> collisionActive m \<and> \<not> m_muted m \<and> (\<exists>pre post. m_history m = pre @ r # post \<and> length post = k)"

lemma recorded_first:
  assumes "\<not> collisionActive m" and "\<not> m_muted m" and "HistoryCapacity (m_cfg m) > 0"
  shows "recorded \<lparr>tx_frame = f, tx_timestamp = now\<rparr> 0 (fst (RecordTX now f m))"
  using assms by (auto simp: recorded_def RecordTX_def appendHistory_def Let_def nat_le_iff)

lemma recorded_step:
  assumes "recorded r k m" and "int k + 1 < HistoryCapacity (m_cfg m)"
  shows "recorded r (Suc k) (monitor_do m (CallRecordTX now f))"
proof -
  obtain pre post where h: "m_history m = pre @ r # post" "length post = k" using assms(1) by (auto simp: recorded_def)
  let ?new = "\<lparr>tx_frame = f, tx_timestamp = now\<rparr>"
  let ?n = "nat (int (length (m_history m)) + 1 - HistoryCapacity (m_cfg m))"
  have "m_history (monitor_do m (CallRecordTX now f)) = drop ?n (m_history m @ [?new])"
    using assms(1) by (auto simp: recorded_def RecordTX_def appendHistory_def Let_def add.commute)
  moreover have "?n \<le> length pre" using assms(2) h by simp
  ultimately have "m_history (monitor_do m (CallRecordTX now f)) = drop ?n pre @ r # (post @ [?new])"
    using h(1) by simp
  moreover have "\<not> collisionActive (monitor_do m (CallRecordTX now f))" "\<not> m_muted (monitor_do m (CallRecordTX now f))"
    using assms(1) by (auto simp: recorded_def RecordTX_def appendHistory_def Let_def)
  moreover have "length (post @ [?new]) = Suc k" using h(2) by simp
  ultimately show ?thesis unfolding recorded_def by blast
qed

lemma recorded_run:
  "recorded r k m \<Longrightarrow> int k + int (length cs) < HistoryCapacity (m_cfg m) \<Longrightarrow>
   list_all (\<lambda>c. \<exists>tm g. c = CallRecordTX tm g) cs \<Longrightarrow>
   recorded r (k + length cs) (monitor_run m cs) \<and> m_cfg (monitor_run m cs) = m_cfg m"
  unfolding monitor_run_def
proof (induction cs arbitrary: m k)
  case (Cons c cs)
  obtain tm g where c: "c = CallRecordTX tm g" using Cons.prems(3) by auto
  then have "recorded r (Suc k) (monitor_do m c)"
    using recorded_step [OF Cons.prems(1)] Cons.prems(2) by simp
  then show ?case using Cons.IH [of "Suc k" "monitor_do m c"] Cons.prems(2,3) by simp
qed simp

lemma recorded_matches:
  assumes "recorded r k m" and "time_sub now (tx_timestamp r) \<le> EchoWindow (m_cfg m)" and "framesEqual (tx_frame r) g"
  shows "snd (ObserveRX now g m) = None"
proof -
  have "r \<in> set (m_history m)" using assms(1) by (auto simp: recorded_def)
  then have "matchesRecentTX (m\<lparr>oldInitiatorValid := b\<rparr>) g now" "matchesRecentTX m g now" for b
    using assms(2,3) by (auto simp: matchesRecentTX_def list_ex_iff intro!: bexI [of _ r])
  then show ?thesis using assms(1) by (auto simp: ObserveRX_def Let_def recorded_def)
qed

section \<open>Properties\<close>



text \<open>
  the monitor never blocks on the echo of an own transmission.  A recorded frame that comes back within
  the echo window is accepted silently, however many transmissions, fewer than the history holds, were
  recorded after it.
\<close>

theorem own_echo_accepted:
  assumes "\<not> collisionActive m" and "\<not> m_muted m"
    and "int (length later) < HistoryCapacity (m_cfg m)" and "list_all (\<lambda>c. \<exists>tm g. c = CallRecordTX tm g) later"
    and "time_sub now' now \<le> EchoWindow (m_cfg m)" and "framesEqual f g"
  shows "snd (ObserveRX now' g (monitor_run (fst (RecordTX now f m)) later)) = None"
proof -
  let ?r = "\<lparr>tx_frame = f, tx_timestamp = now\<rparr>"
  have "m_cfg (fst (RecordTX now f m)) = m_cfg m" using cfg_kept [of m "CallRecordTX now f"] by simp
  then have "recorded ?r (length later) (monitor_run (fst (RecordTX now f m)) later)"
      "m_cfg (monitor_run (fst (RecordTX now f m)) later) = m_cfg m"
    using recorded_run [OF recorded_first [OF assms(1,2), of f now], of later] assms(3,4) by simp_all
  then show ?thesis using recorded_matches [of ?r _ _ now' g] assms(5,6) by simp
qed

theorem own_echo_accepted_witness:
  "let m = SetInitiator 5 0x31 (NewCollisionMonitor \<lparr>EchoWindow = 100, HistoryCapacity = 2, SourceAddressChangeGrace = 0\<rparr>);
       f = \<lparr>Source = 0x31, Target = 0x08, Primary = 0xB5, Secondary = 0x09, Data = [0x24], FrameType = FrameTypeInitiatorTarget\<rparr>
   in snd (ObserveRX 90 f (monitor_run (fst (RecordTX 7 f m)) [CallRecordTX 8 (f\<lparr>Data := []\<rparr>)])) = None"
  unfolding Let_def
  by (rule own_echo_accepted)
    (simp_all add: SetInitiator_def NewCollisionMonitor_def normalizeCollisionMonitorConfig_def framesEqual_def time_sub_def)

text \<open>
  The zero address stands for \<open>no initiator\<close>, although 0x00 is a source address of the standard table and
  the last candidate of the default policy: a monitor for it never reports a collision.
\<close>

lemma zero_initiator_is_blind:
  "m_initiator m = 0 \<Longrightarrow> snd (ObserveRX now f m) = None \<and> collisionActive (fst (ObserveRX now f m)) = collisionActive m"
  by (auto simp: ObserveRX_def Let_def)

end
