(* ===== verification/Determinism.thy ===== *)
theory Determinism
  imports Ebus_Errors Wire_Escape "HOL-Library.AList"
begin

text \<open>
  Deterministic replay helpers, \<open>determinism/retry.go\<close> and \<open>determinism/idempotency.go\<close>: retry schedules with
  64-bit durations and the idempotency store with its lazily purged entries.
\<close>

section \<open>Retry schedules\<close>

type_synonym duration = int

definition max_duration :: duration where "max_duration = 2 ^ 63 - 1"

text \<open>Multiplication of two 64-bit integers wraps around.\<close>

definition wrap64 :: "int \<Rightarrow> int" where
  "wrap64 x = (x + 2 ^ 63) mod 2 ^ 64 - 2 ^ 63"

definition ErrInvalidRetryCount :: go_error where
  "ErrInvalidRetryCount = Opaque ''determinism: retry count must be >= 0''"
definition ErrInvalidRetryDelay :: go_error where
  "ErrInvalidRetryDelay = Opaque ''determinism: retry delay must be >= 0''"
definition ErrInvalidRetryFactor :: go_error where
  "ErrInvalidRetryFactor = Opaque ''determinism: retry factor must be >= 1''"

record retry_schedule =
  delays :: "duration list"

definition NewRetrySchedule :: "duration list \<Rightarrow> retry_schedule result" where
  "NewRetrySchedule ds =
     (if list_ex (\<lambda>d. d < 0) ds then Inl ErrInvalidRetryDelay else Inr \<lparr>delays = ds\<rparr>)"

definition FixedRetrySchedule :: "int \<Rightarrow> duration \<Rightarrow> retry_schedule result" where
  "FixedRetrySchedule retries delay =
     (if retries < 0 then Inl ErrInvalidRetryCount
      else if delay < 0 then Inl ErrInvalidRetryDelay
      else Inr \<lparr>delays = replicate (nat retries) delay\<rparr>)"

definition capped :: "duration \<Rightarrow> duration \<Rightarrow> duration" where
  "capped maxDelay current = (if maxDelay > 0 \<and> current > maxDelay then maxDelay else current)"

definition grow :: "int \<Rightarrow> duration \<Rightarrow> duration" where
  "grow factor current =
     (if factor = 1 then current
      else if current > 0 \<and> current > max_duration div factor then max_duration
      else wrap64 (current * factor))"

fun exponential_delays :: "nat \<Rightarrow> duration \<Rightarrow> int \<Rightarrow> duration \<Rightarrow> duration list" where
  "exponential_delays 0 current factor maxDelay = []"
| "exponential_delays (Suc n) current factor maxDelay =
     capped maxDelay current # exponential_delays n (grow factor current) factor maxDelay"

definition ExponentialRetrySchedule :: "int \<Rightarrow> duration \<Rightarrow> int \<Rightarrow> duration \<Rightarrow> retry_schedule result" where
  "ExponentialRetrySchedule retries baseDelay factor maxDelay =
     (if retries < 0 then Inl ErrInvalidRetryCount
      else if baseDelay < 0 \<or> maxDelay < 0 then Inl ErrInvalidRetryDelay
      else if factor < 1 then Inl ErrInvalidRetryFactor
      else Inr \<lparr>delays = exponential_delays (nat retries) baseDelay factor maxDelay\<rparr>)"

definition Retries :: "retry_schedule \<Rightarrow> int" where
  "Retries s = int (length (delays s))"

definition Delays :: "retry_schedule \<Rightarrow> duration list" where
  "Delays s = delays s"

definition Delay :: "retry_schedule \<Rightarrow> int \<Rightarrow> duration option" where
  "Delay s retryIndex =
     (if retryIndex < 0 \<or> retryIndex \<ge> int (length (delays s)) then None else Some (delays s ! nat retryIndex))"

definition NextRetry :: "retry_schedule \<Rightarrow> go_error option \<Rightarrow> int \<Rightarrow> duration option" where
  "NextRetry s err retryIndex =
     (if \<not> em_retriable (NormalizeErrorMapping err []) then None else Delay s retryIndex)"

section \<open>The idempotency store\<close>

definition ErrIdempotencyConflict :: go_error where
  "ErrIdempotencyConflict = Opaque ''determinism: idempotency key reused with different fingerprint''"
definition ErrInvalidKey :: go_error where
  "ErrInvalidKey = Opaque ''determinism: idempotency key must not be empty''"
definition ErrInvalidFingerprint :: go_error where
  "ErrInvalidFingerprint = Opaque ''determinism: idempotency fingerprint must not be empty''"

definition DefaultIdempotencyTTL :: duration where "DefaultIdempotencyTTL = 30 * 1000000000"

record idem_entry =
  fingerprint :: string
  idem_value :: "byte list"
  expiresAt :: go_time

text \<open>A Go map without its iteration order: keys are distinct.\<close>

record idem_store =
  ttl :: duration
  entries :: "(string \<times> idem_entry) list"

definition NewIdempotencyStore :: "duration \<Rightarrow> idem_store" where
  "NewIdempotencyStore t = \<lparr>ttl = (if t \<le> 0 then DefaultIdempotencyTTL else t), entries = []\<rparr>"

definition normalizeLookupInputs :: "string \<Rightarrow> string \<Rightarrow> (string \<times> string) result" where
  "normalizeLookupInputs key fp =
     (if trim_space key = [] then Inl ErrInvalidKey
      else if trim_space fp = [] then Inl ErrInvalidFingerprint
      else Inr (trim_space key, trim_space fp))"

definition purgeExpiredLocked :: "go_time \<Rightarrow> idem_store \<Rightarrow> idem_store" where
  "purgeExpiredLocked now s = s\<lparr>entries := filter (\<lambda>(k, e). \<not> now > expiresAt e) (entries s)\<rparr>"

text \<open>\<open>None\<close> is a miss.\<close>

definition Lookup :: "go_time \<Rightarrow> string \<Rightarrow> string \<Rightarrow> idem_store \<Rightarrow> idem_store \<times> byte list option result" where
  "Lookup now key fp s =
     (case normalizeLookupInputs key fp of
        Inl e \<Rightarrow> (s, Inl e)
      | Inr (k, f) \<Rightarrow>
          let s1 = purgeExpiredLocked now s in
          (s1, case map_of (entries s1) k of
                 None \<Rightarrow> Inr None
               | Some e \<Rightarrow> if fingerprint e \<noteq> f then Inl ErrIdempotencyConflict else Inr (Some (idem_value e))))"

definition Store :: "go_time \<Rightarrow> string \<Rightarrow> string \<Rightarrow> byte list \<Rightarrow> idem_store \<Rightarrow> idem_store \<times> go_error option" where
  "Store now key fp val s =
     (case normalizeLookupInputs key fp of
        Inl e \<Rightarrow> (s, Some e)
      | Inr (k, f) \<Rightarrow>
          let s1 = purgeExpiredLocked now s in
          (s1\<lparr>entries := AList.update k \<lparr>fingerprint = f, idem_value = val, expiresAt = now + ttl s1\<rparr> (entries s1)\<rparr>, None))"

definition Delete :: "string \<Rightarrow> idem_store \<Rightarrow> idem_store" where
  "Delete key s =
     (if trim_space key = [] then s else s\<lparr>entries := AList.delete (trim_space key) (entries s)\<rparr>)"

definition Len :: "go_time \<Rightarrow> idem_store \<Rightarrow> idem_store \<times> int" where
  "Len now s = (let s1 = purgeExpiredLocked now s in (s1, int (length (entries s1))))"

section \<open>Lemmas\<close>

lemma wrap64_id: "0 \<le> x \<Longrightarrow> x \<le> max_duration \<Longrightarrow> wrap64 x = x"
  by (simp add: wrap64_def max_duration_def)

lemma grow_saturates:
  assumes "factor \<ge> 1" and "b \<ge> 0"
  shows "grow factor (min max_duration b) = min max_duration (b * factor)"
proof (cases "factor = 1")
  case False
  then have f: "factor \<ge> 2" using assms(1) by simp
  let ?c = "min max_duration b"
  have c: "0 \<le> ?c" "?c \<le> max_duration" "?c \<le> b" using assms(2) by (auto simp: max_duration_def)
  show ?thesis
  proof (cases "?c > max_duration div factor")
    case True
    have "max_duration div factor \<ge> 0"
      using f by (simp add: pos_imp_zdiv_nonneg_iff max_duration_def)
    moreover have "max_duration < (max_duration div factor + 1) * factor"
      using f div_mult_mod_eq [of max_duration factor] pos_mod_bound [of factor max_duration]
      unfolding distrib_right mult_1 by linarith
    moreover have "(max_duration div factor + 1) * factor \<le> ?c * factor"
      using True f by (intro mult_right_mono) simp_all
    ultimately have "?c > 0" "?c * factor > max_duration" using True by linarith+
    moreover have "b * factor \<ge> ?c * factor" using c(3) f by (simp add: mult_right_mono)
    ultimately show ?thesis using True False by (simp add: grow_def)
  next
    case small: False
    then have "?c * factor \<le> max_duration div factor * factor"
      using f by (intro mult_right_mono) linarith+
    then have le: "?c * factor \<le> max_duration"
      using f div_mult_mod_eq [of max_duration factor] pos_mod_sign [of factor max_duration] by linarith
    have "max_duration div factor < max_duration"
      using f by (intro int_div_less_self) (simp_all add: max_duration_def)
    then have "?c = b" using small by auto
    then show ?thesis
      using small le False c(1) f by (simp add: grow_def wrap64_id)
  qed
qed (simp add: grow_def)

lemma exponential_delays_closed:
  assumes "factor \<ge> 1"
  shows "b \<ge> 0 \<Longrightarrow> exponential_delays n (min max_duration b) factor maxDelay =
    map (\<lambda>i. capped maxDelay (min max_duration (b * factor ^ i))) [0..<n]"
proof (induction n arbitrary: b)
  case (Suc n)
  have "exponential_delays n (min max_duration (b * factor)) factor maxDelay =
      map (\<lambda>i. capped maxDelay (min max_duration (b * factor * factor ^ i))) [0..<n]"
    using Suc.IH [of "b * factor"] Suc.prems assms by simp
  then show ?case
    using grow_saturates [OF assms Suc.prems]
    by (simp add: map_upt_Suc mult.assoc del: upt_Suc)
qed simp

lemma map_of_purge:
  "distinct (map fst (entries s)) \<Longrightarrow>
   map_of (entries (purgeExpiredLocked now s)) k =
     (case map_of (entries s) k of Some e \<Rightarrow> if now > expiresAt e then None else Some e | None \<Rightarrow> None)"
proof -
  have "distinct (map fst es) \<Longrightarrow> map_of (filter (\<lambda>(k, e). \<not> now > expiresAt e) es) k =
      (case map_of es k of Some e \<Rightarrow> if now > expiresAt e then None else Some e | None \<Rightarrow> None)" for es
  proof (induction es)
    case (Cons x es)
    obtain k' e where x: "x = (k', e)" by fastforce
    have "map_of es k' = None" using Cons.prems x by (simp add: map_of_eq_None_iff)
    then show ?case using Cons x by auto
  qed simp
  then show "distinct (map fst (entries s)) \<Longrightarrow> ?thesis" by (simp add: purgeExpiredLocked_def)
qed

lemma purge_twice: "now \<le> now' \<Longrightarrow> purgeExpiredLocked now' (purgeExpiredLocked now s) = purgeExpiredLocked now' s"
proof -
  assume "now \<le> now'"
  then have "filter (\<lambda>(k, e). \<not> now' > expiresAt e) (filter (\<lambda>(k, e). \<not> now > expiresAt e) es) =
      filter (\<lambda>(k, e). \<not> now' > expiresAt e) es" for es :: "(string \<times> idem_entry) list"
    by (induction es) auto
  then show ?thesis by (simp add: purgeExpiredLocked_def del: filter_filter)
qed

lemma distinct_purge: "distinct (map fst (entries s)) \<Longrightarrow> distinct (map fst (entries (purgeExpiredLocked now s)))"
  by (simp add: purgeExpiredLocked_def distinct_map_filter)

text \<open>The keys of every reachable store are distinct.\<close>

lemma store_keys_distinct:
  assumes "distinct (map fst (entries s))"
  shows "distinct (map fst (entries (fst (Store now key fp val s))))"
    "distinct (map fst (entries (fst (Lookup now key fp s))))"
    "distinct (map fst (entries (Delete key s)))" "distinct (map fst (entries (fst (Len now s))))"
    "distinct (map fst (entries (NewIdempotencyStore t)))"
  using assms distinct_purge [OF assms]
  by (auto simp: Store_def Lookup_def Delete_def Len_def NewIdempotencyStore_def Let_def distinct_update distinct_delete
      split: sum.splits)

section \<open>Properties\<close>

text \<open>
  an exponential schedule never overflows: whatever the 64-bit arguments, its \<open>i\<close>-th delay is
  \<open>base * factor ^ i\<close>, saturated at the largest duration and cut at the maximum delay if there is one.
\<close>

theorem exponential_schedule_closed_form:
  assumes "baseDelay \<le> max_duration"
  shows "ExponentialRetrySchedule retries baseDelay factor maxDelay =
    (if retries < 0 then Inl ErrInvalidRetryCount
     else if baseDelay < 0 \<or> maxDelay < 0 then Inl ErrInvalidRetryDelay
     else if factor < 1 then Inl ErrInvalidRetryFactor
     else Inr \<lparr>delays = map (\<lambda>i. let d = min max_duration (baseDelay * factor ^ i) in if maxDelay > 0 then min maxDelay d else d)
       [0..<nat retries]\<rparr>)"
proof -
  have "capped maxDelay d = (if maxDelay > 0 then min maxDelay d else d)" for d
    by (auto simp: capped_def)
  then show ?thesis
    using exponential_delays_closed [of factor baseDelay "nat retries" maxDelay] assms
    by (auto simp: ExponentialRetrySchedule_def Let_def min_absorb2)
qed

theorem exponential_schedule_closed_form_witness:
  "ExponentialRetrySchedule 4 (2 ^ 61) 2 0 = Inr \<lparr>delays = [2 ^ 61, 2 ^ 62, 2 ^ 63 - 1, 2 ^ 63 - 1]\<rparr>"
  by (subst exponential_schedule_closed_form) (simp_all add: max_duration_def upt_rec numeral_eq_Suc)

text \<open>
  a stored result is found again under its key and fingerprint exactly until its time to live is over,
  surrounding spaces of both notwithstanding; another fingerprint is a conflict while it lives; other keys
  are not affected.
\<close>

theorem idempotency_store_lookup:
  assumes "distinct (map fst (entries s))" and "Store now key fp val s = (s', None)"
    and "now \<le> now'" and "normalizeLookupInputs key' fp' = Inr (k', f')"
  shows "snd (Lookup now' key' fp' s') =
    (if k' = trim_space key then
       (if now' > now + ttl s then Inr None
        else if f' = trim_space fp then Inr (Some val) else Inl ErrIdempotencyConflict)
     else snd (Lookup now' key' fp' s))"
proof -
  let ?e = "\<lparr>fingerprint = trim_space fp, idem_value = val, expiresAt = now + ttl s\<rparr>"
  let ?s1 = "purgeExpiredLocked now s"
  have s': "s' = ?s1\<lparr>entries := AList.update (trim_space key) ?e (entries ?s1)\<rparr>"
    using assms(2) by (auto simp: Store_def normalizeLookupInputs_def Let_def purgeExpiredLocked_def split: if_splits)
  have d: "distinct (map fst (entries ?s1))" using distinct_purge [OF assms(1)] .
  then have d': "distinct (map fst (entries s'))" by (simp add: s' distinct_update)
  have upd: "map_of (entries s') k' = (if k' = trim_space key then Some ?e else map_of (entries ?s1) k')"
    by (simp add: s' update_conv')
  have "map_of (entries (purgeExpiredLocked now' s)) k' = map_of (entries (purgeExpiredLocked now' ?s1)) k'"
    using purge_twice [OF assms(3), of s] by simp
  then show ?thesis
    using assms(4) upd map_of_purge [OF d', of now' k'] map_of_purge [OF d, of now' k']
    by (auto simp: Lookup_def Let_def split: option.splits)
qed

theorem idempotency_store_lookup_witness:
  "snd (Lookup 8 ''k1 '' ''fp'' (fst (Store 5 ''k1'' '' fp'' [0x01] (NewIdempotencyStore 10)))) = Inr (Some [0x01])"
proof -
  have "Store 5 ''k1'' '' fp'' [0x01] (NewIdempotencyStore 10) =
      (fst (Store 5 ''k1'' '' fp'' [0x01] (NewIdempotencyStore 10)), None)"
    and "normalizeLookupInputs ''k1 '' ''fp'' = Inr (''k1'', ''fp'')"
    by (simp_all add: Store_def normalizeLookupInputs_def trim_space_def is_ascii_space_def Let_def)
  from idempotency_store_lookup [OF _ this(1) _ this(2), of 8] show ?thesis
    by (simp add: NewIdempotencyStore_def trim_space_def is_ascii_space_def)
qed

end
