(* ===== verification/Emulation.thy ===== *)
theory Emulation
  imports Bus_Transaction Determinism
begin

text \<open>
  Target emulation, \<open>emulation/*.go\<close>: rules that match a request and plan a response, the timing constraints,
  the deterministic harness, and the identify-only, VR90 and VR92 targets built from profiles.  Strings are
  byte strings; trimming is on ASCII spaces.
\<close>

section \<open>Rules and targets\<close>

datatype emu_sentinel = ErrNoMatchingRule | ErrTimingConstraint | ErrInvalidConfiguration | ErrRequestTargetMismatch

text \<open>Errors by the place that builds them, with the values they print.\<close>

datatype emu_error =
    NegativeConstraint | MinExceedsMax | NegativeDelay | DelayBelowMin duration duration | DelayAboveMax duration duration
  | MissingTarget | TargetMismatch byte byte | MissingMatcher string | MissingBuilder string | MissingBuildFunc
  | NoRule byte byte | UnsupportedSelector byte
  | NegativeEnvelope | EnvelopeMinExceedsMax | ResponseBelowMin nat | ResponseAboveMax nat
  | MissingHarnessTarget | NegativeAdvance nat | StepFailed nat emu_error
  | EmptyAddress | EmptyManufacturer | EmptyDeviceID | BothMatchers nat | EmptyResponse nat | EmptyScanID

fun emu_Is :: "emu_error \<Rightarrow> emu_sentinel \<Rightarrow> bool" where
  "emu_Is NegativeDelay s \<longleftrightarrow> s = ErrTimingConstraint"
| "emu_Is (DelayBelowMin d m) s \<longleftrightarrow> s = ErrTimingConstraint"
| "emu_Is (DelayAboveMax d m) s \<longleftrightarrow> s = ErrTimingConstraint"
| "emu_Is (ResponseBelowMin i) s \<longleftrightarrow> s = ErrTimingConstraint"
| "emu_Is (ResponseAboveMax i) s \<longleftrightarrow> s = ErrTimingConstraint"
| "emu_Is (TargetMismatch a b) s \<longleftrightarrow> s = ErrRequestTargetMismatch"
| "emu_Is (NoRule p q) s \<longleftrightarrow> s = ErrNoMatchingRule"
| "emu_Is (UnsupportedSelector b) s \<longleftrightarrow> s = ErrNoMatchingRule"
| "emu_Is (StepFailed i e) s \<longleftrightarrow> emu_Is e s"
| "emu_Is _ s \<longleftrightarrow> s = ErrInvalidConfiguration"

record response_plan =
  plan_Delay :: duration
  plan_Data :: "byte list"

record timing =
  MinResponseDelay :: duration
  MaxResponseDelay :: duration

definition timing_validate :: "timing \<Rightarrow> duration \<Rightarrow> emu_error option" where
  "timing_validate c delay =
     (if MinResponseDelay c < 0 \<or> MaxResponseDelay c < 0 then Some NegativeConstraint
      else if MaxResponseDelay c > 0 \<and> MinResponseDelay c > MaxResponseDelay c then Some MinExceedsMax
      else if delay < 0 then Some NegativeDelay
      else if delay < MinResponseDelay c then Some (DelayBelowMin delay (MinResponseDelay c))
      else if MaxResponseDelay c > 0 \<and> delay > MaxResponseDelay c then Some (DelayAboveMax delay (MaxResponseDelay c))
      else None)"

definition timing_active :: "timing \<Rightarrow> bool" where
  "timing_active c \<longleftrightarrow> MinResponseDelay c \<noteq> 0 \<or> MaxResponseDelay c \<noteq> 0"

text \<open>A matcher or builder interface that is nil is \<open>None\<close>.  A nil function inside one has its own behaviour.\<close>

definition MatchFunc_Match :: "(frame \<Rightarrow> bool) option \<Rightarrow> frame \<Rightarrow> bool" where
  "MatchFunc_Match fn f = (case fn of None \<Rightarrow> False | Some g \<Rightarrow> g f)"

definition BuildFunc_Build :: "(frame \<Rightarrow> emu_error + response_plan) option \<Rightarrow> frame \<Rightarrow> emu_error + response_plan" where
  "BuildFunc_Build fn f = (case fn of None \<Rightarrow> Inl MissingBuildFunc | Some g \<Rightarrow> g f)"

record rule =
  rule_Name :: string
  Matcher :: "(frame \<Rightarrow> bool) option"
  Builder :: "(frame \<Rightarrow> emu_error + response_plan) option"
  rule_Timing :: timing

record emu_request_event =
  At :: duration
  req_Frame :: frame

record emulated_response =
  resp_Rule :: string
  Requested :: duration
  RespondAt :: duration
  resp_Frame :: frame

record target =
  target_Name :: string
  Address :: byte
  DefaultTiming :: timing
  Rules :: "rule list"

definition answer_with :: "target \<Rightarrow> emu_request_event \<Rightarrow> rule \<Rightarrow> (frame \<Rightarrow> emu_error + response_plan) \<Rightarrow> emu_error + emulated_response" where
  "answer_with t ev r build =
     (case build (req_Frame ev) of
        Inl e \<Rightarrow> Inl e
      | Inr plan \<Rightarrow>
          (case timing_validate (if timing_active (rule_Timing r) then rule_Timing r else DefaultTiming t) (plan_Delay plan) of
             Some e \<Rightarrow> Inl e
           | None \<Rightarrow>
               Inr \<lparr>resp_Rule = rule_Name r, Requested = At ev, RespondAt = wrap64 (At ev + plan_Delay plan),
                    resp_Frame = \<lparr>Source = Address t, Target = Source (req_Frame ev), Primary = Primary (req_Frame ev),
                      Secondary = Secondary (req_Frame ev), Data = plan_Data plan, FrameType = FrameTypeUnknown\<rparr>\<rparr>))"

fun try_rules :: "target \<Rightarrow> emu_request_event \<Rightarrow> rule list \<Rightarrow> emu_error + emulated_response" where
  "try_rules t ev [] = Inl (NoRule (Primary (req_Frame ev)) (Secondary (req_Frame ev)))"
| "try_rules t ev (r # rs) =
     (case Matcher r of
        None \<Rightarrow> Inl (MissingMatcher (rule_Name r))
      | Some m \<Rightarrow>
          if \<not> m (req_Frame ev) then try_rules t ev rs
          else case Builder r of
            None \<Rightarrow> Inl (MissingBuilder (rule_Name r))
          | Some build \<Rightarrow> answer_with t ev r build)"

text \<open>A nil target is \<open>None\<close>.\<close>

definition Emulate :: "target option \<Rightarrow> emu_request_event \<Rightarrow> emu_error + emulated_response" where
  "Emulate target ev =
     (case target of
        None \<Rightarrow> Inl MissingTarget
      | Some t \<Rightarrow>
          if Target (req_Frame ev) \<noteq> Address t then Inl (TargetMismatch (Target (req_Frame ev)) (Address t))
          else try_rules t ev (Rules t))"

definition MatchPrimarySecondary :: "byte \<Rightarrow> byte \<Rightarrow> frame \<Rightarrow> bool" where
  "MatchPrimarySecondary p s f \<longleftrightarrow> Primary f = p \<and> Secondary f = s"

definition MatchPrimarySecondaryWithPrefix :: "byte \<Rightarrow> byte \<Rightarrow> byte list \<Rightarrow> frame \<Rightarrow> bool" where
  "MatchPrimarySecondaryWithPrefix p s pre f \<longleftrightarrow>
     Primary f = p \<and> Secondary f = s \<and>
     (pre = [] \<or> (\<not> length (Data f) < length pre \<and> list_all (\<lambda>i. Data f ! i = pre ! i) [0..<length pre]))"

section \<open>The harness\<close>

record envelope =
  env_MinDelay :: duration
  env_MaxDelay :: duration

definition envelope_validate :: "envelope \<Rightarrow> emu_error option" where
  "envelope_validate e =
     (if env_MinDelay e < 0 \<or> env_MaxDelay e < 0 then Some NegativeEnvelope
      else if env_MaxDelay e > 0 \<and> env_MinDelay e > env_MaxDelay e then Some EnvelopeMinExceedsMax
      else None)"

fun check_responses :: "envelope \<Rightarrow> nat \<Rightarrow> emulated_response list \<Rightarrow> emu_error option" where
  "check_responses e i [] = None"
| "check_responses e i (r # rs) =
     (let delay = wrap64 (RespondAt r - Requested r) in
      if delay < env_MinDelay e then Some (ResponseBelowMin i)
      else if env_MaxDelay e > 0 \<and> delay > env_MaxDelay e then Some (ResponseAboveMax i)
      else check_responses e (i + 1) rs)"

definition ValidateResponseEnvelope :: "emulated_response list \<Rightarrow> envelope \<Rightarrow> emu_error option" where
  "ValidateResponseEnvelope rs e =
     (case envelope_validate e of Some err \<Rightarrow> Some err | None \<Rightarrow> check_responses e 0 rs)"

record query_step =
  step_Advance :: duration
  step_Frame :: frame

record harness =
  h_target :: "target option"
  h_now :: duration
  h_history :: "emulated_response list"

definition NewHarness :: "target option \<Rightarrow> harness" where
  "NewHarness t = \<lparr>h_target = t, h_now = 0, h_history = []\<rparr>"

definition Advance :: "duration \<Rightarrow> harness \<Rightarrow> harness" where
  "Advance delta h = (if delta \<le> 0 then h else h\<lparr>h_now := wrap64 (h_now h + delta)\<rparr>)"

definition Query :: "frame \<Rightarrow> harness \<Rightarrow> harness \<times> (emu_error + emulated_response)" where
  "Query f h =
     (case h_target h of
        None \<Rightarrow> (h, Inl MissingHarnessTarget)
      | Some t \<Rightarrow>
          (case Emulate (Some t) \<lparr>At = h_now h, req_Frame = f\<rparr> of
             Inl e \<Rightarrow> (h, Inl e)
           | Inr r \<Rightarrow> (h\<lparr>h_history := h_history h @ [r]\<rparr>, Inr r)))"

fun run_steps :: "nat \<Rightarrow> query_step list \<Rightarrow> harness \<Rightarrow> emulated_response list \<Rightarrow> harness \<times> (emu_error + emulated_response list)" where
  "run_steps i [] h out = (h, Inr out)"
| "run_steps i (s # ss) h out =
     (if step_Advance s < 0 then (h, Inl (NegativeAdvance i))
      else case Query (step_Frame s) (Advance (step_Advance s) h) of
        (h1, Inl e) \<Rightarrow> (h1, Inl (StepFailed i e))
      | (h1, Inr r) \<Rightarrow> run_steps (i + 1) ss h1 (out @ [r]))"

definition RunSequence :: "query_step list \<Rightarrow> harness \<Rightarrow> harness \<times> (emu_error + emulated_response list)" where
  "RunSequence steps h =
     (case h_target h of None \<Rightarrow> (h, Inl MissingHarnessTarget) | Some _ \<Rightarrow> run_steps 0 steps h [])"

definition History :: "harness \<Rightarrow> emulated_response list" where "History h = h_history h"

section \<open>Profiles\<close>

definition identifyOnlyDeviceIDLength :: nat where "identifyOnlyDeviceIDLength = 5"

definition text_bytes :: "string \<Rightarrow> byte list" where
  "text_bytes s = map (\<lambda>c. word_of_nat (of_char c)) s"

definition default_timing :: timing where
  "default_timing = \<lparr>MinResponseDelay = 5 * 1000000, MaxResponseDelay = 30 * 1000000\<rparr>"

definition no_timing :: timing where "no_timing = \<lparr>MinResponseDelay = 0, MaxResponseDelay = 0\<rparr>"
definition default_response_delay :: duration where "default_response_delay = 8 * 1000000"

record identity =
  prof_Address :: byte
  Manufacturer :: byte
  DeviceID :: string
  Software :: "16 word"
  Hardware :: "16 word"
  ResponseDelay :: duration
  Timing :: timing

record identify_profile = identity +
  prof_Name :: string

definition truncate_id :: "string \<Rightarrow> string" where
  "truncate_id s = (let t = trim_space s in if length t > identifyOnlyDeviceIDLength then take identifyOnlyDeviceIDLength t else t)"

definition normalizeIdentifyOnlyProfile :: "identify_profile \<Rightarrow> emu_error + identify_profile" where
  "normalizeIdentifyOnlyProfile p0 =
     (let p1 = p0\<lparr>prof_Name := (if trim_space (prof_Name p0) = [] then ''identify-only-0x'' @ hex02x (prof_Address p0)
                                else trim_space (prof_Name p0))\<rparr> in
      if prof_Address p1 = 0 then Inl EmptyAddress
      else if Manufacturer p1 = 0 then Inl EmptyManufacturer
      else if trim_space (DeviceID p1) = [] then Inl EmptyDeviceID
      else
        let p2 = p1\<lparr>DeviceID := truncate_id (DeviceID p1),
                    ResponseDelay := (if ResponseDelay p1 \<le> 0 then default_response_delay else ResponseDelay p1),
                    Timing := (if timing_active (Timing p1) then Timing p1 else default_timing)\<rparr> in
        case timing_validate (Timing p2) (ResponseDelay p2) of Some e \<Rightarrow> Inl e | None \<Rightarrow> Inr p2)"

definition identificationPayload :: "identify_profile \<Rightarrow> byte list" where
  "identificationPayload p =
     (let deviceID = text_bytes (DeviceID p @ replicate (identifyOnlyDeviceIDLength - length (DeviceID p)) (CHR '' '')) in
      [Manufacturer p, deviceID ! 0, deviceID ! 1, deviceID ! 2, deviceID ! 3, deviceID ! 4,
       ucast (drop_bit 8 (Software p)), ucast (Software p AND 0xFF),
       ucast (drop_bit 8 (Hardware p)), ucast (Hardware p AND 0xFF)])"

definition identify_rule :: "identify_profile \<Rightarrow> rule" where
  "identify_rule p =
     \<lparr>rule_Name = ''identify'', Matcher = Some (MatchFunc_Match (Some (MatchPrimarySecondary 0x07 0x04))),
      Builder = Some (BuildFunc_Build (Some (\<lambda>_. Inr \<lparr>plan_Delay = ResponseDelay p, plan_Data = identificationPayload p\<rparr>))),
      rule_Timing = no_timing\<rparr>"

definition NewIdentifyOnlyTarget :: "identify_profile \<Rightarrow> emu_error + target" where
  "NewIdentifyOnlyTarget p =
     (case normalizeIdentifyOnlyProfile p of
        Inl e \<Rightarrow> Inl e
      | Inr n \<Rightarrow> Inr \<lparr>target_Name = prof_Name n, Address = prof_Address n, DefaultTiming = Timing n,
                     Rules = [identify_rule n]\<rparr>)"

text \<open>\<open>PayloadExact\<close> and \<open>PayloadPrefix\<close> distinguish nil from empty.\<close>

record mapped_command =
  mc_Name :: string
  mc_Primary :: byte
  mc_Secondary :: byte
  PayloadExact :: "byte list option"
  PayloadPrefix :: "byte list option"
  ResponseData :: "byte list"

record vr90_profile = identity +
  EnableB509Discovery :: bool
  ScanID :: string
  MappedCommands :: "mapped_command list"

definition DefaultVR90DeviceID :: string where "DefaultVR90DeviceID = ''B7V00''"
definition DefaultVR90ScanID :: string where "DefaultVR90ScanID = ''21231600202609140953035469N6''"
definition vr90B509ScanIDLength :: nat where "vr90B509ScanIDLength = 32"

definition normalizeVR90ScanID :: "string \<Rightarrow> string" where
  "normalizeVR90ScanID scanID =
     (let t1 = trim_space scanID;
          t2 = (if t1 = [] then DefaultVR90ScanID else t1);
          t3 = (if length t2 > vr90B509ScanIDLength then take vr90B509ScanIDLength t2 else t2)
      in if length t3 = vr90B509ScanIDLength then t3
         else t3 @ replicate (vr90B509ScanIDLength - length t3) (CHR '' ''))"

definition isVR90B509ScanIDSelector :: "byte \<Rightarrow> bool" where
  "isVR90B509ScanIDSelector b \<longleftrightarrow> 0x24 \<le> b \<and> b \<le> 0x27"

definition vr90B509ScanIDChunk :: "string \<Rightarrow> byte \<Rightarrow> byte list option" where
  "vr90B509ScanIDChunk scanID selector =
     (if \<not> isVR90B509ScanIDSelector selector then None
      else let offset = unat (selector - 0x24) * 8
           in Some (0x00 # text_bytes (take 8 (drop offset (normalizeVR90ScanID scanID)))))"

fun normalize_commands :: "nat \<Rightarrow> mapped_command list \<Rightarrow> emu_error + mapped_command list" where
  "normalize_commands idx [] = Inr []"
| "normalize_commands idx (c # cs) =
     (let name = trim_space (mc_Name c);
          c1 = c\<lparr>mc_Name := (if name = [] then ''mapped-pb-0x'' @ hex02x (mc_Primary c) @ ''-sb-0x'' @
                  hex02x (mc_Secondary c) @ ''-'' @ decimal idx else name)\<rparr> in
      if PayloadExact c1 \<noteq> None \<and> PayloadPrefix c1 \<noteq> None then Inl (BothMatchers idx)
      else if ResponseData c1 = [] then Inl (EmptyResponse idx)
      else case normalize_commands (idx + 1) cs of Inl e \<Rightarrow> Inl e | Inr cs' \<Rightarrow> Inr (c1 # cs'))"

definition normalizeVR90MappedCommands :: "mapped_command list \<Rightarrow> emu_error + mapped_command list" where
  "normalizeVR90MappedCommands cs = normalize_commands 0 cs"

text \<open>The defaults a profile without any identity of its own gets.\<close>

definition with_defaults :: "byte \<Rightarrow> string \<Rightarrow> 16 word \<Rightarrow> 16 word \<Rightarrow> vr90_profile \<Rightarrow> vr90_profile" where
  "with_defaults man dev sw hw p =
     (let overrides = Manufacturer p \<noteq> 0 \<or> trim_space (DeviceID p) \<noteq> [] \<or> Software p \<noteq> 0 \<or> Hardware p \<noteq> 0;
          p1 = p\<lparr>Manufacturer := (if Manufacturer p = 0 then man else Manufacturer p),
                 DeviceID := (if trim_space (DeviceID p) = [] then dev else DeviceID p)\<rparr>;
          p2 = (if overrides then p1 else p1\<lparr>Software := sw, Hardware := hw\<rparr>)
      in p2\<lparr>ResponseDelay := (if ResponseDelay p2 \<le> 0 then default_response_delay else ResponseDelay p2),
            Timing := (if timing_active (Timing p2) then Timing p2 else default_timing)\<rparr>)"

definition normalizeVR90Profile :: "vr90_profile \<Rightarrow> emu_error + vr90_profile" where
  "normalizeVR90Profile p =
     (if prof_Address p = 0 then Inl EmptyAddress
      else let p1 = with_defaults 0xB5 DefaultVR90DeviceID 0x0422 0x5503 p;
               p2 = p1\<lparr>ScanID := normalizeVR90ScanID (ScanID p1)\<rparr> in
      case timing_validate (Timing p2) (ResponseDelay p2) of
        Some e \<Rightarrow> Inl e
      | None \<Rightarrow>
          if trim_space (DeviceID p2) = [] then Inl EmptyDeviceID
          else (case normalizeVR90MappedCommands (MappedCommands p2) of
                  Inl e \<Rightarrow> Inl e
                | Inr cs \<Rightarrow> Inr (p2\<lparr>DeviceID := truncate_id (DeviceID p2), MappedCommands := cs\<rparr>)))"

definition vr90MappedCommandMatcher :: "mapped_command \<Rightarrow> frame \<Rightarrow> bool" where
  "vr90MappedCommandMatcher c f =
     (case PayloadExact c of
        Some payload \<Rightarrow> Primary f = mc_Primary c \<and> Secondary f = mc_Secondary c \<and> Data f = payload
      | None \<Rightarrow>
          (case PayloadPrefix c of
             Some pre \<Rightarrow> MatchPrimarySecondaryWithPrefix (mc_Primary c) (mc_Secondary c) pre f
           | None \<Rightarrow> MatchPrimarySecondary (mc_Primary c) (mc_Secondary c) f))"

definition vr90MappedRule :: "duration \<Rightarrow> mapped_command \<Rightarrow> rule" where
  "vr90MappedRule delay c =
     \<lparr>rule_Name = mc_Name c, Matcher = Some (MatchFunc_Match (Some (vr90MappedCommandMatcher c))),
      Builder = Some (BuildFunc_Build (Some (\<lambda>_. Inr \<lparr>plan_Delay = delay, plan_Data = ResponseData c\<rparr>))),
      rule_Timing = no_timing\<rparr>"

definition scan_match :: "frame \<Rightarrow> bool" where
  "scan_match f \<longleftrightarrow> Primary f = 0xB5 \<and> Secondary f = 0x09 \<and> length (Data f) = 1 \<and> isVR90B509ScanIDSelector (Data f ! 0)"

definition scan_build :: "string \<Rightarrow> duration \<Rightarrow> frame \<Rightarrow> emu_error + response_plan" where
  "scan_build scanID delay f =
     (case vr90B509ScanIDChunk scanID (Data f ! 0) of
        None \<Rightarrow> Inl (UnsupportedSelector (Data f ! 0))
      | Some chunk \<Rightarrow> Inr \<lparr>plan_Delay = delay, plan_Data = chunk\<rparr>)"

definition scan_rule :: "string \<Rightarrow> duration \<Rightarrow> rule" where
  "scan_rule scanID delay =
     \<lparr>rule_Name = ''vaillant-b509-scanid'', Matcher = Some (MatchFunc_Match (Some scan_match)),
      Builder = Some (BuildFunc_Build (Some (scan_build scanID delay))), rule_Timing = no_timing\<rparr>"

definition vr90_identity :: "vr90_profile \<Rightarrow> identify_profile" where
  "vr90_identity n =
     \<lparr>prof_Address = prof_Address n, Manufacturer = Manufacturer n, DeviceID = DeviceID n, Software = Software n,
      Hardware = Hardware n, ResponseDelay = ResponseDelay n, Timing = Timing n,
      prof_Name = ''vr90-minimal-0x'' @ hex02x (prof_Address n)\<rparr>"

definition NewVR90Target :: "vr90_profile \<Rightarrow> emu_error + target" where
  "NewVR90Target p =
     (case normalizeVR90Profile p of
        Inl e \<Rightarrow> Inl e
      | Inr n \<Rightarrow>
          (case NewIdentifyOnlyTarget (vr90_identity n) of
             Inl e \<Rightarrow> Inl e
           | Inr t \<Rightarrow>
               Inr (t\<lparr>Rules := Rules t @ (if EnableB509Discovery n then [scan_rule (ScanID n) (ResponseDelay n)] else []) @
                      map (vr90MappedRule (ResponseDelay n)) (MappedCommands n)\<rparr>)))"

definition DefaultVR92DeviceID :: string where "DefaultVR92DeviceID = ''VR_92''"

definition normalizeVR92Profile :: "vr90_profile \<Rightarrow> emu_error + vr90_profile" where
  "normalizeVR92Profile p =
     (if prof_Address p = 0 then Inl EmptyAddress
      else let p1 = with_defaults 0xB5 DefaultVR92DeviceID 0x0514 0x1204 p in
      case timing_validate (Timing p1) (ResponseDelay p1) of
        Some e \<Rightarrow> Inl e
      | None \<Rightarrow>
          if trim_space (DeviceID p1) = [] then Inl EmptyDeviceID
          else if EnableB509Discovery p1 \<and> trim_space (ScanID p1) = [] then Inl EmptyScanID
          else (case normalizeVR90MappedCommands (MappedCommands p1) of
                  Inl e \<Rightarrow> Inl e
                | Inr cs \<Rightarrow> Inr (p1\<lparr>DeviceID := truncate_id (DeviceID p1), MappedCommands := cs\<rparr>)))"

definition NewVR92Target :: "vr90_profile \<Rightarrow> emu_error + target" where
  "NewVR92Target p = (case normalizeVR92Profile p of Inl e \<Rightarrow> Inl e | Inr n \<Rightarrow> NewVR90Target n)"

text \<open>The shipped profiles.  A profile of a mapped device leaves the address to the installation.\<close>

definition preset_profile :: "string \<Rightarrow> byte \<Rightarrow> string \<Rightarrow> 16 word \<Rightarrow> 16 word \<Rightarrow> identify_profile" where
  "preset_profile device addr dev sw hw =
     \<lparr>prof_Address = addr, Manufacturer = 0xB5, DeviceID = dev, Software = sw, Hardware = hw,
      ResponseDelay = default_response_delay, Timing = default_timing,
      prof_Name = device @ ''-minimal-0x'' @ hex02x addr\<rparr>"

definition PresetVR90IdentifyOnlyProfile :: identify_profile where
  "PresetVR90IdentifyOnlyProfile = preset_profile ''vr90'' 0x15 DefaultVR90DeviceID 0x0422 0x5503"

definition PresetVR92IdentifyOnlyProfile :: identify_profile where
  "PresetVR92IdentifyOnlyProfile = preset_profile ''vr92'' 0x30 DefaultVR92DeviceID 0x0514 0x1204"

definition PresetVR71IdentifyOnlyProfile :: identify_profile where
  "PresetVR71IdentifyOnlyProfile = preset_profile ''vr71'' 0x26 ''VR_71'' 0x0100 0x5904"

definition default_profile :: "string \<Rightarrow> 16 word \<Rightarrow> 16 word \<Rightarrow> string \<Rightarrow> vr90_profile" where
  "default_profile dev sw hw scan =
     \<lparr>prof_Address = 0, Manufacturer = 0xB5, DeviceID = dev, Software = sw, Hardware = hw,
      ResponseDelay = default_response_delay, Timing = default_timing,
      EnableB509Discovery = False, ScanID = scan, MappedCommands = []\<rparr>"

definition DefaultVR90Profile :: vr90_profile where
  "DefaultVR90Profile = default_profile DefaultVR90DeviceID 0x0422 0x5503 DefaultVR90ScanID"

definition DefaultVR92Profile :: vr90_profile where
  "DefaultVR92Profile = default_profile DefaultVR92DeviceID 0x0514 0x1204 []"

section \<open>Lemmas\<close>

text \<open>A default profile needs an address, and every address but zero makes it a target; the presets are complete.\<close>

lemma default_profiles_need_address:
  "(\<exists>t. NewVR90Target (DefaultVR90Profile\<lparr>prof_Address := a\<rparr>) = Inr t) \<longleftrightarrow> a \<noteq> 0"
  "(\<exists>t. NewVR92Target (DefaultVR92Profile\<lparr>prof_Address := a\<rparr>) = Inr t) \<longleftrightarrow> a \<noteq> 0"
proof -
  note defs = NewVR90Target_def NewVR92Target_def normalizeVR90Profile_def normalizeVR92Profile_def
    DefaultVR90Profile_def DefaultVR92Profile_def default_profile_def with_defaults_def
    NewIdentifyOnlyTarget_def normalizeIdentifyOnlyProfile_def vr90_identity_def truncate_id_def
    normalizeVR90MappedCommands_def timing_active_def timing_validate_def default_timing_def default_response_delay_def
    identifyOnlyDeviceIDLength_def
  have ids: "trim_space DefaultVR90DeviceID = DefaultVR90DeviceID" "trim_space DefaultVR92DeviceID = DefaultVR92DeviceID"
    "length DefaultVR90DeviceID = 5" "length DefaultVR92DeviceID = 5"
    "DefaultVR90DeviceID \<noteq> []" "DefaultVR92DeviceID \<noteq> []"
    by (simp_all add: DefaultVR90DeviceID_def DefaultVR92DeviceID_def trim_space_def is_ascii_space_def)
  show "(\<exists>t. NewVR90Target (DefaultVR90Profile\<lparr>prof_Address := a\<rparr>) = Inr t) \<longleftrightarrow> a \<noteq> 0"
    by (simp add: defs ids Let_def)
  show "(\<exists>t. NewVR92Target (DefaultVR92Profile\<lparr>prof_Address := a\<rparr>) = Inr t) \<longleftrightarrow> a \<noteq> 0"
    by (simp add: defs ids Let_def)
qed

lemma presets_build:
  "list_all (\<lambda>p. case NewIdentifyOnlyTarget p of Inl _ \<Rightarrow> False
                 | Inr t \<Rightarrow> target_Name t = prof_Name p \<and> Address t = prof_Address p)
     [PresetVR90IdentifyOnlyProfile, PresetVR92IdentifyOnlyProfile, PresetVR71IdentifyOnlyProfile]"
  by code_simp

lemma wrap64_range: "- (2 ^ 63) \<le> wrap64 x" "wrap64 x < 2 ^ 63"
  by (simp_all add: wrap64_def)

lemma wrap64_diff: "- (2 ^ 63) \<le> d \<Longrightarrow> d < 2 ^ 63 \<Longrightarrow> wrap64 (wrap64 (a + d) - a) = d"
proof -
  assume d: "- (2 ^ 63) \<le> d" "d < 2 ^ 63"
  have "(wrap64 (a + d) - a + 2 ^ 63) mod 2 ^ 64 = ((a + d + 2 ^ 63) mod 2 ^ 64 - a) mod 2 ^ 64"
    by (simp add: wrap64_def)
  also have "\<dots> = (d + 2 ^ 63) mod 2 ^ 64"
    by (simp add: mod_simps algebra_simps)
  also have "\<dots> = d + 2 ^ 63" using d by simp
  finally show ?thesis by (simp add: wrap64_def)
qed

lemma timing_validate_None:
  "timing_validate c d = None \<longleftrightarrow>
     0 \<le> MinResponseDelay c \<and> 0 \<le> MaxResponseDelay c \<and> MinResponseDelay c \<le> d \<and> 0 \<le> d \<and>
     (MaxResponseDelay c > 0 \<longrightarrow> d \<le> MaxResponseDelay c)"
  by (auto simp: timing_validate_def)

text \<open>What a response says of the request, the rule and the timing.\<close>

definition answers :: "target \<Rightarrow> frame \<Rightarrow> emulated_response \<Rightarrow> bool" where
  "answers t f r \<longleftrightarrow>
     Source (resp_Frame r) = Address t \<and> Target (resp_Frame r) = Source f \<and>
     Primary (resp_Frame r) = Primary f \<and> Secondary (resp_Frame r) = Secondary f \<and>
     (\<exists>pre ru post m build plan. Rules t = pre @ ru # post \<and>
        list_all (\<lambda>q. \<exists>mq. Matcher q = Some mq \<and> \<not> mq f) pre \<and>
        Matcher ru = Some m \<and> m f \<and> Builder ru = Some build \<and> build f = Inr plan \<and>
        Data (resp_Frame r) = plan_Data plan \<and> resp_Rule r = rule_Name ru \<and>
        RespondAt r = wrap64 (Requested r + plan_Delay plan) \<and>
        timing_validate (if timing_active (rule_Timing ru) then rule_Timing ru else DefaultTiming t) (plan_Delay plan) = None)"

lemma try_rules_answers:
  assumes "Rules t = pre @ rs" and "list_all (\<lambda>q. \<exists>mq. Matcher q = Some mq \<and> \<not> mq (req_Frame ev)) pre"
    and "try_rules t ev rs = Inr r"
  shows "answers t (req_Frame ev) r \<and> Requested r = At ev"
  using assms
proof (induction rs arbitrary: pre)
  case (Cons ru rs)
  obtain m where m: "Matcher ru = Some m" using Cons.prems(3) by (auto split: option.splits)
  show ?case
  proof (cases "m (req_Frame ev)")
    case False
    then show ?thesis using Cons.IH [of "pre @ [ru]"] Cons.prems m by simp
  next
    case True
    then obtain build plan where b: "Builder ru = Some build" "build (req_Frame ev) = Inr plan"
        "timing_validate (if timing_active (rule_Timing ru) then rule_Timing ru else DefaultTiming t) (plan_Delay plan) = None"
        "r = \<lparr>resp_Rule = rule_Name ru, Requested = At ev, RespondAt = wrap64 (At ev + plan_Delay plan),
             resp_Frame = \<lparr>Source = Address t, Target = Source (req_Frame ev), Primary = Primary (req_Frame ev),
               Secondary = Secondary (req_Frame ev), Data = plan_Data plan, FrameType = FrameTypeUnknown\<rparr>\<rparr>"
      using Cons.prems(3) m by (auto simp: answer_with_def split: option.splits sum.splits)
    then show ?thesis
      using Cons.prems(1,2) m True unfolding answers_def
      by (intro conjI exI [of _ pre] exI [of _ ru] exI [of _ rs] exI [of _ m] exI [of _ build] exI [of _ plan]) simp_all
  qed
qed simp

lemma Emulate_answers:
  "Emulate (Some t) ev = Inr r \<Longrightarrow>
   answers t (req_Frame ev) r \<and> Requested r = At ev \<and> Target (req_Frame ev) = Address t"
  using try_rules_answers [of t "[]" "Rules t" ev r] by (auto simp: Emulate_def split: if_splits)

lemma run_steps_answers:
  assumes "h_target h = Some t" and "run_steps i steps h out = (h', Inr rs)"
  shows "\<exists>new. rs = out @ new \<and> h_history h' = h_history h @ new \<and> h_target h' = Some t \<and>
    list_all2 (\<lambda>s r. answers t (step_Frame s) r) steps new"
  using assms
proof (induction i steps h out rule: run_steps.induct)
  case (2 i s ss h out)
  let ?h0 = "Advance (step_Advance s) h"
  have t0: "h_target ?h0 = Some t" "h_history ?h0 = h_history h" using "2.prems"(1) by (simp_all add: Advance_def)
  obtain r where e: "Emulate (Some t) \<lparr>At = h_now ?h0, req_Frame = step_Frame s\<rparr> = Inr r" and adv: "\<not> step_Advance s < 0"
    using "2.prems"(2) t0 by (auto simp: Query_def split: if_splits sum.splits)
  let ?h1 = "?h0\<lparr>h_history := h_history h @ [r]\<rparr>"
  have q: "Query (step_Frame s) ?h0 = (?h1, Inr r)" using e t0 by (simp add: Query_def)
  have "run_steps (i + 1) ss ?h1 (out @ [r]) = (h', Inr rs)" using "2.prems"(2) q adv by simp
  moreover have "h_target ?h1 = Some t" using t0 by simp
  ultimately obtain new where "rs = (out @ [r]) @ new" "h_history h' = h_history ?h1 @ new" "h_target h' = Some t"
      "list_all2 (\<lambda>s r. answers t (step_Frame s) r) ss new"
    using "2.IH" [OF adv q [symmetric] refl] by blast
  then show ?case
    using Emulate_answers [OF e] by (intro exI [of _ "r # new"]) simp
qed simp

lemma answers_delay:
  assumes "answers t f r" and "\<And>f build plan ru. ru \<in> set (Rules t) \<Longrightarrow> Builder ru = Some build \<Longrightarrow> build f = Inr plan \<Longrightarrow> plan_Delay plan < 2 ^ 63"
  shows "\<exists>ru \<in> set (Rules t). timing_validate (if timing_active (rule_Timing ru) then rule_Timing ru else DefaultTiming t)
      (wrap64 (RespondAt r - Requested r)) = None"
proof -
  obtain ru build plan where ru: "ru \<in> set (Rules t)" "Builder ru = Some build" "build f = Inr plan"
      "RespondAt r = wrap64 (Requested r + plan_Delay plan)"
      "timing_validate (if timing_active (rule_Timing ru) then rule_Timing ru else DefaultTiming t) (plan_Delay plan) = None"
    using assms(1) unfolding answers_def by (metis in_set_conv_decomp)
  have "wrap64 (RespondAt r - Requested r) = plan_Delay plan"
    using wrap64_diff [of "plan_Delay plan" "Requested r"] assms(2) [OF ru(1-3)] ru(4,5)
    by (simp add: timing_validate_None)
  then show ?thesis using ru(1,5) by (intro bexI [of _ ru]) simp_all
qed

text \<open>What a target built from a profile looks like.\<close>

definition uniform :: "duration \<Rightarrow> target \<Rightarrow> bool" where
  "uniform d t \<longleftrightarrow> timing_validate (DefaultTiming t) d = None \<and>
     (\<forall>ru \<in> set (Rules t). rule_Timing ru = no_timing \<and>
        (\<forall>f build plan. Builder ru = Some build \<longrightarrow> build f = Inr plan \<longrightarrow> plan_Delay plan = d))"

lemma identify_target:
  assumes "NewIdentifyOnlyTarget q = Inr t" and "ResponseDelay q > 0" and "timing_active (Timing q)"
  shows "uniform (ResponseDelay q) t \<and> Address t = prof_Address q \<and> DefaultTiming t = Timing q \<and>
    (\<exists>n. Rules t = [identify_rule n])"
proof -
  obtain n where n: "normalizeIdentifyOnlyProfile q = Inr n" and
    t: "t = \<lparr>target_Name = prof_Name n, Address = prof_Address n, DefaultTiming = Timing n, Rules = [identify_rule n]\<rparr>"
    using assms(1) by (auto simp: NewIdentifyOnlyTarget_def split: sum.splits)
  have "ResponseDelay n = ResponseDelay q \<and> Timing n = Timing q \<and> prof_Address n = prof_Address q \<and>
      timing_validate (Timing q) (ResponseDelay q) = None"
    using n assms(2,3) by (auto simp: normalizeIdentifyOnlyProfile_def Let_def split: if_splits option.splits)
  moreover from this have "uniform (ResponseDelay q) t"
    using t by (auto simp: uniform_def identify_rule_def BuildFunc_Build_def)
  moreover have "Rules t = [identify_rule n]" using t by simp
  ultimately show ?thesis using t by auto
qed

lemma check_responses_None:
  "list_all (\<lambda>r. env_MinDelay e \<le> wrap64 (RespondAt r - Requested r) \<and>
     (env_MaxDelay e > 0 \<longrightarrow> wrap64 (RespondAt r - Requested r) \<le> env_MaxDelay e)) rs \<Longrightarrow> check_responses e i rs = None"
  by (induction rs arbitrary: i) (auto simp: Let_def)

lemma vr90_normalized:
  assumes "normalizeVR90Profile p = Inr n"
  shows "ResponseDelay n = (if ResponseDelay p \<le> 0 then default_response_delay else ResponseDelay p) \<and>
    Timing n = (if timing_active (Timing p) then Timing p else default_timing) \<and>
    ScanID n = normalizeVR90ScanID (ScanID p) \<and> EnableB509Discovery n = EnableB509Discovery p \<and>
    prof_Address n = prof_Address p"
  using assms
  by (auto simp: normalizeVR90Profile_def with_defaults_def Let_def split: if_splits sum.splits option.splits)

lemma vr90_target:
  assumes "NewVR90Target p = Inr t"
  shows "uniform (if ResponseDelay p \<le> 0 then default_response_delay else ResponseDelay p) t \<and> Address t = prof_Address p \<and>
    (\<exists>q rest. Rules t = identify_rule q #
      (if EnableB509Discovery p then [scan_rule (normalizeVR90ScanID (ScanID p))
         (if ResponseDelay p \<le> 0 then default_response_delay else ResponseDelay p)] else []) @ rest)"
proof -
  obtain n where n: "normalizeVR90Profile p = Inr n" using assms by (auto simp: NewVR90Target_def split: sum.splits)
  note facts = vr90_normalized [OF n]
  obtain t0 where t0: "NewIdentifyOnlyTarget (vr90_identity n) = Inr t0" and
    t: "t = t0\<lparr>Rules := Rules t0 @ (if EnableB509Discovery n then [scan_rule (ScanID n) (ResponseDelay n)] else []) @
                      map (vr90MappedRule (ResponseDelay n)) (MappedCommands n)\<rparr>"
    using assms n by (auto simp: NewVR90Target_def split: sum.splits)
  have "ResponseDelay (vr90_identity n) > 0" "timing_active (Timing (vr90_identity n))"
    using facts by (auto simp: vr90_identity_def default_response_delay_def timing_active_def default_timing_def)
  note t0_facts = identify_target [OF t0 this]
  then have "uniform (ResponseDelay n) t"
    by (auto simp: t uniform_def scan_rule_def scan_build_def vr90MappedRule_def BuildFunc_Build_def vr90_identity_def
        split: if_splits option.splits)
  then show ?thesis using t0_facts t facts by (auto simp: vr90_identity_def)
qed

section \<open>Properties\<close>

text \<open>
  a scripted run of an emulated VR90 keeps the target's contract.  When a sequence of queries succeeds,
  every query is answered, in order, by the first rule that matches it, to the requester and with its
  command bytes; the history grows by exactly these answers; and every answer stays within the timing the
  target was built with.
\<close>

theorem emulated_run_keeps_contract:
  assumes "NewVR90Target p = Inr t" and "ResponseDelay p < 2 ^ 63" and "h_target h = Some t"
    and "RunSequence steps h = (h', Inr rs)"
  shows "list_all2 (\<lambda>s r. answers t (step_Frame s) r) steps rs \<and> h_history h' = h_history h @ rs \<and>
    ValidateResponseEnvelope rs
      \<lparr>env_MinDelay = MinResponseDelay (DefaultTiming t), env_MaxDelay = MaxResponseDelay (DefaultTiming t)\<rparr> = None"
proof -
  let ?d = "if ResponseDelay p \<le> 0 then default_response_delay else ResponseDelay p"
  let ?e = "\<lparr>env_MinDelay = MinResponseDelay (DefaultTiming t), env_MaxDelay = MaxResponseDelay (DefaultTiming t)\<rparr>"
  have u: "uniform ?d t" using vr90_target [OF assms(1)] by simp
  have ans: "list_all2 (\<lambda>s r. answers t (step_Frame s) r) steps rs" "h_history h' = h_history h @ rs"
    using run_steps_answers [OF assms(3), of 0 steps "[]" h' rs] assms(3,4) by (auto simp: RunSequence_def)
  have d: "?d < 2 ^ 63" using assms(2) by (simp add: default_response_delay_def)
  have small: "plan_Delay plan < 2 ^ 63" if "ru \<in> set (Rules t)" "Builder ru = Some build" "build f = Inr plan" for ru build f plan
  proof -
    have "plan_Delay plan = ?d" using u that unfolding uniform_def by blast
    then show ?thesis using d by (simp only:)
  qed
  have delay: "timing_validate (DefaultTiming t) (wrap64 (RespondAt r - Requested r)) = None" if mem: "r \<in> set rs" for r
  proof -
    obtain j where "j < length rs" "rs ! j = r" using mem by (auto simp: in_set_conv_nth)
    then have "answers t (step_Frame (steps ! j)) r" using list_all2_nthD2 [OF ans(1), of j] by simp
    then have "\<exists>ru \<in> set (Rules t). timing_validate (if timing_active (rule_Timing ru) then rule_Timing ru else DefaultTiming t)
        (wrap64 (RespondAt r - Requested r)) = None"
      using small by (rule answers_delay)
    then obtain ru where "ru \<in> set (Rules t)"
        "timing_validate (if timing_active (rule_Timing ru) then rule_Timing ru else DefaultTiming t)
          (wrap64 (RespondAt r - Requested r)) = None" by blast
    moreover from this(1) have "\<not> timing_active (rule_Timing ru)"
      using u by (simp add: uniform_def timing_active_def no_timing_def)
    ultimately show ?thesis by simp
  qed
  then have "check_responses ?e 0 rs = None"
    by (intro check_responses_None) (simp add: list_all_iff timing_validate_None)
  moreover have "envelope_validate ?e = None"
    using u by (auto simp: uniform_def timing_validate_None envelope_validate_def)
  ultimately show ?thesis using ans by (simp add: ValidateResponseEnvelope_def)
qed

definition demo_profile :: vr90_profile where
  "demo_profile = \<lparr>prof_Address = 0x15, Manufacturer = 0, DeviceID = [], Software = 0, Hardware = 0, ResponseDelay = 0,
     Timing = no_timing, EnableB509Discovery = True, ScanID = '' 21 '', MappedCommands = []\<rparr>"

definition demo_target :: target where
  "demo_target = (case NewVR90Target demo_profile of Inr t \<Rightarrow> t | Inl _ \<Rightarrow> \<lparr>target_Name = [], Address = 0, DefaultTiming = no_timing, Rules = []\<rparr>)"

definition demo_steps :: "query_step list" where
  "demo_steps = [\<lparr>step_Advance = 10, step_Frame = \<lparr>Source = 0x31, Target = 0x15, Primary = 0x07, Secondary = 0x04, Data = [],
     FrameType = FrameTypeUnknown\<rparr>\<rparr>]"

lemma demo_target: "NewVR90Target demo_profile = Inr demo_target"
proof -
  have "\<not> (case NewVR90Target demo_profile of Inr t \<Rightarrow> False | Inl _ \<Rightarrow> True)" by code_simp
  then show ?thesis by (auto simp: demo_target_def split: sum.splits)
qed

theorem emulated_run_keeps_contract_witness:
  "\<exists>h' rs. RunSequence demo_steps (NewHarness (Some demo_target)) = (h', Inr rs) \<and> length rs = 1 \<and> h_history h' = rs"
proof -
  have "\<not> (case snd (RunSequence demo_steps (NewHarness (Some demo_target))) of Inr t \<Rightarrow> False | Inl _ \<Rightarrow> True)"
    by code_simp
  then obtain h' rs where run: "RunSequence demo_steps (NewHarness (Some demo_target)) = (h', Inr rs)"
    by (cases "RunSequence demo_steps (NewHarness (Some demo_target))") (auto split: sum.splits)
  then show ?thesis
    using emulated_run_keeps_contract [OF demo_target _ _ run]
    by (auto simp: NewHarness_def demo_profile_def demo_steps_def dest: list_all2_lengthD)
qed

text \<open>
  the scan identity of an emulated VR90 can be read back: its answers to the four selectors are the
  status byte followed by eight characters each, and put together they are the 32 characters of the
  normalised identity.
\<close>

theorem vr90_scan_id_readable:
  assumes "NewVR90Target p = Inr t" and "EnableB509Discovery p" and "ResponseDelay p < 2 ^ 63"
  shows "\<exists>rs. map (\<lambda>sel. Emulate (Some t) \<lparr>At = tm, req_Frame = \<lparr>Source = src, Target = prof_Address p, Primary = 0xB5,
      Secondary = 0x09, Data = [sel], FrameType = ft\<rparr>\<rparr>) [0x24, 0x25, 0x26, 0x27] = map Inr rs \<and>
    list_all (\<lambda>r. length (Data (resp_Frame r)) = 9 \<and> hd (Data (resp_Frame r)) = 0) rs \<and>
    concat (map (\<lambda>r. tl (Data (resp_Frame r))) rs) = text_bytes (normalizeVR90ScanID (normalizeVR90ScanID (ScanID p)))"
proof -
  let ?d = "if ResponseDelay p \<le> 0 then default_response_delay else ResponseDelay p"
  let ?id = "normalizeVR90ScanID (normalizeVR90ScanID (ScanID p))"
  obtain q rest where rules: "Rules t = identify_rule q # scan_rule (normalizeVR90ScanID (ScanID p)) ?d # rest"
    using vr90_target [OF assms(1)] assms(2) by auto
  have u: "uniform ?d t" "Address t = prof_Address p" using vr90_target [OF assms(1)] by simp_all
  have len: "length ?id = 32" by (simp add: normalizeVR90ScanID_def Let_def vr90B509ScanIDLength_def)
  define resp where "resp k = \<lparr>resp_Rule = ''vaillant-b509-scanid'', Requested = tm, RespondAt = wrap64 (tm + ?d),
      resp_Frame = \<lparr>Source = prof_Address p, Target = src, Primary = 0xB5, Secondary = 0x09,
        Data = 0x00 # text_bytes (take 8 (drop (k * 8) ?id)), FrameType = FrameTypeUnknown\<rparr>\<rparr>" for k
  have ok: "timing_validate (DefaultTiming t) ?d = None" using u(1) by (simp add: uniform_def)
  have ask: "Emulate (Some t) \<lparr>At = tm, req_Frame = \<lparr>Source = src, Target = prof_Address p, Primary = 0xB5,
      Secondary = 0x09, Data = [sel], FrameType = ft\<rparr>\<rparr> = Inr (resp (unat (sel - 0x24)))"
    if "isVR90B509ScanIDSelector sel" for sel
    using that ok u(2)
    by (simp add: Emulate_def rules identify_rule_def scan_rule_def MatchFunc_Match_def MatchPrimarySecondary_def
        scan_match_def answer_with_def BuildFunc_Build_def scan_build_def vr90B509ScanIDChunk_def timing_active_def
        no_timing_def resp_def Let_def)
  have "map (\<lambda>sel. Emulate (Some t) \<lparr>At = tm, req_Frame = \<lparr>Source = src, Target = prof_Address p, Primary = 0xB5,
      Secondary = 0x09, Data = [sel], FrameType = ft\<rparr>\<rparr>) [0x24, 0x25, 0x26, 0x27] = map Inr (map resp [0, 1, 2, 3])"
    by (simp add: ask isVR90B509ScanIDSelector_def)
  moreover have "list_all (\<lambda>r. length (Data (resp_Frame r)) = 9 \<and> hd (Data (resp_Frame r)) = 0) (map resp [0, 1, 2, 3])"
    using len by (simp add: resp_def text_bytes_def)
  moreover have "concat (map (\<lambda>r. tl (Data (resp_Frame r))) (map resp [0, 1, 2, 3])) = text_bytes ?id"
  proof -
    have "?id = take 8 ?id @ take 8 (drop 8 ?id) @ take 8 (drop 16 ?id) @ take 8 (drop 24 ?id)"
      using len append_take_drop_id [of 8 ?id] append_take_drop_id [of 8 "drop 8 ?id"]
        append_take_drop_id [of 8 "drop 16 ?id"] take_all [of "drop 24 ?id" 8]
      by (simp add: add.commute)
    then have "text_bytes ?id = text_bytes (take 8 ?id @ take 8 (drop 8 ?id) @ take 8 (drop 16 ?id) @ take 8 (drop 24 ?id))"
      by simp
    then show ?thesis by (simp add: resp_def text_bytes_def)
  qed
  ultimately show ?thesis by blast
qed

theorem vr90_scan_id_readable_witness:
  "\<exists>rs. map (\<lambda>sel. Emulate (Some demo_target) \<lparr>At = 3, req_Frame = \<lparr>Source = 0x31, Target = prof_Address demo_profile,
      Primary = 0xB5, Secondary = 0x09, Data = [sel], FrameType = FrameTypeUnknown\<rparr>\<rparr>) [0x24, 0x25, 0x26, 0x27] = map Inr rs \<and>
    take 3 (concat (map (\<lambda>r. tl (Data (resp_Frame r))) rs)) = [0x32, 0x31, 0x20]"
proof -
  have "take 3 (text_bytes (normalizeVR90ScanID (normalizeVR90ScanID (ScanID demo_profile)))) = [0x32, 0x31, 0x20]"
    by code_simp
  moreover have "EnableB509Discovery demo_profile" "ResponseDelay demo_profile < 2 ^ 63" by (simp_all add: demo_profile_def)
  ultimately show ?thesis using vr90_scan_id_readable [OF demo_target, of 3 "0x31" FrameTypeUnknown] by fastforce
qed

end
