(* ===== verification/Driver_Runtime.thy ===== *)
theory Driver_Runtime
  imports Ebus_Prelude "HOL-Library.Word"
begin

text \<open>
  The driver runtime, \<open>transport/driver_runtime.go\<close>: construction, admission, retirement and replacement of
  transport generations under concurrent calls.  Every section under \<open>r.mu\<close>, a lease's mutex or
  \<open>operationMu\<close> is one atomic step; a call of Start, Stop or Replace is a thread with a program point, and
  steps of all threads, leases, contexts and adapter workers interleave freely.  Objects are numbered by the
  order of their creation.  Factory, adapter worker, callers' contexts and timers are the environment: a
  factory returns what it likes, a timer may expire whenever a call waits on it.
\<close>

section \<open>State\<close>

datatype driver_error =
    ErrDriverUnavailable | ErrStaleDriverGeneration | ErrDriverSafetyQuarantined | ErrDriverStopTimeout
  | FactoryError nat | CallerContextError | ContextCanceled

datatype construction_state = Provisional | CancelRequested | Admitted | Finished

text \<open>A managed transport: whether all its parts are non-nil, the close requests its worker took, and \<open>Closed\<close>.\<close>

record managed =
  t_complete :: bool
  t_requests :: nat
  t_closed :: bool

record generation_obj =
  gn_transport :: nat
  gn_construction :: nat
  gn_accepting :: bool
  gn_inFlight :: int
  gn_activeCallbacks :: int
  gn_drained :: bool

text \<open>A construction with its two contexts: the caller's and the runtime's own, which \<open>runtimeCancel\<close> ends.\<close>

record construction =
  releaseRetiring :: bool
  con_state :: construction_state
  con_done :: bool
  callerDone :: bool
  runtimeDone :: bool

text \<open>The point an invocation of a lease has reached, and a pending call of \<open>releaseGeneration\<close>.\<close>

datatype invoke_point = NotInvoked | Claiming | InCallback | CallbackReturned | InvokeEnding | InvokeOver

record lease =
  ls_generation :: nat
  ls_id :: "64 word"
  ls_invoked :: bool
  ls_invoking :: bool
  ls_released :: bool
  ls_releasePending :: bool
  ls_point :: invoke_point
  ls_returning :: bool

text \<open>
  Why a transport is being retired: a factory failed and returned one all the same, a construction was not
  admitted, or a generation is stopped, with or without a drain timeout, for a replacement or not.
\<close>

datatype retire_for = ForFactoryError nat nat | ForRefused nat | ForStop nat bool bool

datatype point =
    Idle
  | Starting nat | Building nat | Rejecting nat "nat option" | Admitting nat nat | Rechecking nat
  | Finishing nat "driver_error + 64 word"
  | RetireStart nat retire_for | RetireRequest nat retire_for | RetireConfirm nat retire_for | RetireFailed nat retire_for
  | CancelWait "nat list" bool | CancelExpired | Locking bool | Withdrawing bool | Draining nat bool | DrainExpired nat bool
  | StopQuarantining nat bool | Stopped bool bool | ReplaceFailed driver_error | ReplaceReleasing driver_error
  | Reserving | Reserved nat | Unlocking "driver_error + 64 word"
  | Returned "driver_error + 64 word"

record driver =
  factoryNil :: bool
  d_generation :: "64 word"
  d_revision :: "64 word"
  d_current :: "nat option"
  d_quarantined :: bool
  d_retiring :: bool
  constructionSeq :: nat
  constructions :: "nat list"
  operationMu :: "nat option"
  gens :: "nat \<Rightarrow> generation_obj"
  n_gens :: nat
  cons_of :: "nat \<Rightarrow> construction"
  leases :: "nat \<Rightarrow> lease"
  n_leases :: nat
  transports :: "nat \<Rightarrow> managed"
  n_transports :: nat
  calls :: "nat \<Rightarrow> point"
  panicked :: bool

section \<open>Sections of the methods\<close>

definition goto :: "nat \<Rightarrow> point \<Rightarrow> driver \<Rightarrow> driver" where
  "goto p pt s = s\<lparr>calls := (calls s)(p := pt)\<rparr>"

definition upd_con :: "nat \<Rightarrow> (construction \<Rightarrow> construction) \<Rightarrow> driver \<Rightarrow> driver" where
  "upd_con c f s = s\<lparr>cons_of := (cons_of s)(c := f (cons_of s c))\<rparr>"

definition upd_gen :: "nat \<Rightarrow> (generation_obj \<Rightarrow> generation_obj) \<Rightarrow> driver \<Rightarrow> driver" where
  "upd_gen g f s = s\<lparr>gens := (gens s)(g := f (gens s g))\<rparr>"

definition upd_lease :: "nat \<Rightarrow> (lease \<Rightarrow> lease) \<Rightarrow> driver \<Rightarrow> driver" where
  "upd_lease l f s = s\<lparr>leases := (leases s)(l := f (leases s l))\<rparr>"

definition upd_transport :: "nat \<Rightarrow> (managed \<Rightarrow> managed) \<Rightarrow> driver \<Rightarrow> driver" where
  "upd_transport t f s = s\<lparr>transports := (transports s)(t := f (transports s t))\<rparr>"

definition runtimeCancel :: "nat \<Rightarrow> driver \<Rightarrow> driver" where
  "runtimeCancel c = upd_con c (\<lambda>x. x\<lparr>runtimeDone := True\<rparr>)"

text \<open>Closing a channel that is closed already panics.\<close>

definition close_done :: "nat \<Rightarrow> driver \<Rightarrow> driver" where
  "close_done c s = (if con_done (cons_of s c) then s\<lparr>panicked := True\<rparr> else upd_con c (\<lambda>x. x\<lparr>con_done := True\<rparr>) s)"

definition close_drained :: "nat \<Rightarrow> driver \<Rightarrow> driver" where
  "close_drained g s =
     (if gn_drained (gens s g) then s\<lparr>panicked := True\<rparr> else upd_gen g (\<lambda>x. x\<lparr>gn_drained := True\<rparr>) s)"

definition NewDriverRuntime :: "bool \<Rightarrow> driver" where
  "NewDriverRuntime nil =
     \<lparr>factoryNil = nil, d_generation = 0, d_revision = 1, d_current = None, d_quarantined = False, d_retiring = False,
      constructionSeq = 0, constructions = [], operationMu = None,
      gens = (\<lambda>_. \<lparr>gn_transport = 0, gn_construction = 0, gn_accepting = False, gn_inFlight = 0, gn_activeCallbacks = 0,
        gn_drained = False\<rparr>), n_gens = 0,
      cons_of = (\<lambda>_. \<lparr>releaseRetiring = False, con_state = Finished, con_done = False, callerDone = False, runtimeDone = False\<rparr>),
      leases = (\<lambda>_. \<lparr>ls_generation = 0, ls_id = 0, ls_invoked = False, ls_invoking = False, ls_released = False,
        ls_releasePending = False, ls_point = NotInvoked, ls_returning = False\<rparr>), n_leases = 0,
      transports = (\<lambda>_. \<lparr>t_complete = False, t_requests = 0, t_closed = False\<rparr>), n_transports = 0,
      calls = (\<lambda>_. Idle), panicked = False\<rparr>"

definition driver_quarantine :: "driver \<Rightarrow> driver" where
  "driver_quarantine s =
     (if \<not> d_quarantined s then s\<lparr>d_quarantined := True, d_revision := d_revision s + 1\<rparr> else s)"

definition validManagedTransport :: "managed option \<Rightarrow> bool" where
  "validManagedTransport m = (case m of None \<Rightarrow> False | Some t \<Rightarrow> t_complete t \<and> \<not> t_closed t)"

datatype registration = Registered nat | ExistingGeneration "64 word" | RegistrationRefused driver_error

definition registerConstruction :: "bool \<Rightarrow> bool \<Rightarrow> driver \<Rightarrow> driver \<times> registration" where
  "registerConstruction allowRetiring release s =
     (if d_quarantined s then (s, RegistrationRefused ErrDriverSafetyQuarantined)
      else if d_retiring s \<and> \<not> allowRetiring then (s, RegistrationRefused ErrDriverUnavailable)
      else if allowRetiring \<and> \<not> d_retiring s then (s, RegistrationRefused ErrDriverUnavailable)
      else if d_current s \<noteq> None then (s, ExistingGeneration (d_generation s))
      else if constructions s \<noteq> [] then (s, RegistrationRefused ErrDriverUnavailable)
      else let c = constructionSeq s + 1 in
        (s\<lparr>constructionSeq := c, constructions := constructions s @ [c],
           cons_of := (cons_of s)(c := \<lparr>releaseRetiring = release, con_state = Provisional, con_done = False,
             callerDone = False, runtimeDone = False\<rparr>)\<rparr>, Registered c))"

definition finishConstruction :: "nat \<Rightarrow> driver \<Rightarrow> driver" where
  "finishConstruction c s =
     (if con_state (cons_of s c) \<noteq> Admitted then
        let s1 = close_done c ((upd_con c (\<lambda>x. x\<lparr>con_state := Finished\<rparr>) s)\<lparr>constructions := removeAll c (constructions s)\<rparr>)
        in if releaseRetiring (cons_of s1 c) \<and> \<not> d_quarantined s1 then s1\<lparr>d_retiring := False\<rparr> else s1
      else s)"

text \<open>The section of \<open>requestConstructionCancel\<close>, and for one construction that of \<open>cancelConstructions\<close>.\<close>

definition cancel_provisional :: "nat \<Rightarrow> driver \<Rightarrow> driver" where
  "cancel_provisional c s =
     (if con_state (cons_of s c) = Provisional
      then runtimeCancel c (upd_con c (\<lambda>x. x\<lparr>con_state := CancelRequested\<rparr>) s) else s)"

definition requestConstructionCancel :: "nat \<Rightarrow> driver \<Rightarrow> driver" where
  "requestConstructionCancel c s = (if c \<in> set (constructions s) then cancel_provisional c s else s)"

text \<open>The locked part of \<open>cancelConstructions\<close> with the constructions whose \<open>done\<close> it will wait for.\<close>

definition cancel_snapshot :: "driver \<Rightarrow> driver \<times> nat list" where
  "cancel_snapshot s =
     (let s1 = foldl (\<lambda>s c. cancel_provisional c s) s (constructions s)
      in (s1, filter (\<lambda>c. con_state (cons_of s1 c) = CancelRequested) (constructions s)))"

definition admitConstruction :: "nat \<Rightarrow> nat \<Rightarrow> driver \<Rightarrow> driver \<times> (64 word) option" where
  "admitConstruction c t s =
     (let con = cons_of s c in
      if con_state con \<noteq> Provisional \<or> callerDone con \<or> runtimeDone con \<or> d_quarantined s then (s, None)
      else let g = n_gens s;
               s1 = upd_con c (\<lambda>x. x\<lparr>con_state := Admitted\<rparr>) s;
               s2 = s1\<lparr>constructions := removeAll c (constructions s1),
                       d_generation := d_generation s1 + 1, d_revision := d_revision s1 + 1,
                       gens := (gens s1)(g := \<lparr>gn_transport = t, gn_construction = c, gn_accepting = True, gn_inFlight = 0,
                         gn_activeCallbacks = 0, gn_drained = False\<rparr>),
                       n_gens := g + 1, d_current := Some g\<rparr>;
               s3 = (if releaseRetiring con then s2\<lparr>d_retiring := False\<rparr> else s2)
           in (s3, Some (d_generation s3)))"

definition cancellationError :: "construction \<Rightarrow> driver_error" where
  "cancellationError con = (if callerDone con then CallerContextError else ContextCanceled)"

text \<open>
  The first section of \<open>stopLocked\<close>: nothing to stop, or the withdrawn generation.
\<close>

datatype withdrawal = StopOver "driver_error option" | Withdrawn nat

definition stop_withdraw :: "bool \<Rightarrow> driver \<Rightarrow> driver \<times> withdrawal" where
  "stop_withdraw keepRetiring s =
     (if d_quarantined s then (s, StopOver (Some ErrDriverSafetyQuarantined))
      else case d_current s of
        None \<Rightarrow> (s\<lparr>d_retiring := keepRetiring\<rparr>, StopOver None)
      | Some g \<Rightarrow>
          let s1 = (upd_gen g (\<lambda>x. x\<lparr>gn_accepting := False\<rparr>) s)\<lparr>d_retiring := True, d_current := None,
                     d_revision := d_revision s + 1\<rparr>;
              s2 = (if gn_inFlight (gens s1 g) = 0 then close_drained g s1 else s1)
          in (runtimeCancel (gn_construction (gens s2 g)) s2, Withdrawn g))"

text \<open>The first section of \<open>startLocked\<close>: an answer at once, or the factory is called.\<close>

definition start_check :: "nat \<Rightarrow> driver \<Rightarrow> (driver_error + 64 word) option" where
  "start_check c s =
     (if d_quarantined s then Some (Inl ErrDriverSafetyQuarantined)
      else if d_retiring s \<and> \<not> releaseRetiring (cons_of s c) then Some (Inl ErrDriverUnavailable)
      else if d_current s \<noteq> None then Some (Inr (d_generation s))
      else if factoryNil s then Some (Inl ErrDriverUnavailable)
      else None)"

section \<open>Leases\<close>

definition Admit :: "driver \<Rightarrow> driver \<times> (driver_error + nat)" where
  "Admit s =
     (if d_quarantined s then (s, Inl ErrDriverSafetyQuarantined)
      else case d_current s of
        None \<Rightarrow> (s, Inl ErrDriverUnavailable)
      | Some g \<Rightarrow>
          if \<not> gn_accepting (gens s g) then (s, Inl ErrDriverUnavailable)
          else let l = n_leases s in
            ((upd_gen g (\<lambda>x. x\<lparr>gn_inFlight := gn_inFlight x + 1\<rparr>) s)
               \<lparr>leases := (leases s)(l := \<lparr>ls_generation = g, ls_id = d_generation s, ls_invoked = False, ls_invoking = False,
                  ls_released = False, ls_releasePending = False, ls_point = NotInvoked, ls_returning = False\<rparr>),
                n_leases := l + 1\<rparr>, Inr l))"

text \<open>\<open>Invoke\<close> in its sections: the flags, the claim, the end of the callback, and the end of the invocation.\<close>

definition invoke_begin :: "nat \<Rightarrow> driver \<Rightarrow> driver \<times> driver_error option" where
  "invoke_begin l s =
     (if ls_invoked (leases s l) \<or> ls_released (leases s l) then (s, Some ErrStaleDriverGeneration)
      else (upd_lease l (\<lambda>x. x\<lparr>ls_invoked := True, ls_invoking := True, ls_point := Claiming\<rparr>) s, None))"

definition invoke_claim :: "nat \<Rightarrow> driver \<Rightarrow> driver" where
  "invoke_claim l s =
     (let g = ls_generation (leases s l) in
      if \<not> d_quarantined s \<and> d_current s = Some g \<and> gn_accepting (gens s g)
      then upd_lease l (\<lambda>x. x\<lparr>ls_point := InCallback\<rparr>) (upd_gen g (\<lambda>x. x\<lparr>gn_activeCallbacks := gn_activeCallbacks x + 1\<rparr>) s)
      else upd_lease l (\<lambda>x. x\<lparr>ls_point := InvokeEnding\<rparr>) s)"

definition finish_active :: "nat \<Rightarrow> driver \<Rightarrow> driver" where
  "finish_active l s =
     upd_lease l (\<lambda>x. x\<lparr>ls_point := InvokeEnding\<rparr>)
       (upd_gen (ls_generation (leases s l)) (\<lambda>x. x\<lparr>gn_activeCallbacks := gn_activeCallbacks x - 1\<rparr>) s)"

definition finish_flags :: "nat \<Rightarrow> driver \<Rightarrow> driver" where
  "finish_flags l s =
     upd_lease l (\<lambda>x. let releaseNow = ls_releasePending x \<and> \<not> ls_released x in
       x\<lparr>ls_invoking := False, ls_released := ls_released x \<or> releaseNow, ls_returning := ls_returning x \<or> releaseNow,
         ls_point := InvokeOver\<rparr>) s"

definition Release :: "nat \<Rightarrow> driver \<Rightarrow> driver" where
  "Release l s =
     (if ls_released (leases s l) then s
      else if ls_invoking (leases s l) then upd_lease l (\<lambda>x. x\<lparr>ls_releasePending := True\<rparr>) s
      else upd_lease l (\<lambda>x. x\<lparr>ls_released := True, ls_returning := True\<rparr>) s)"

definition releaseGeneration :: "nat \<Rightarrow> driver \<Rightarrow> driver" where
  "releaseGeneration l s =
     (let g = ls_generation (leases s l); s0 = upd_lease l (\<lambda>x. x\<lparr>ls_returning := False\<rparr>) s in
      if gn_inFlight (gens s0 g) > 0 then
        let s1 = upd_gen g (\<lambda>x. x\<lparr>gn_inFlight := gn_inFlight x - 1\<rparr>) s0 in
        if gn_inFlight (gens s1 g) = 0 \<and> \<not> gn_accepting (gens s1 g) then close_drained g s1 else s1
      else s0)"

section \<open>Calls\<close>

text \<open>What a factory may return: an error, with or without a transport, or a transport; the latter may be nil,
  incomplete or closed already.\<close>

datatype factory_result = FactoryFails nat "(bool \<times> bool) option" | FactoryMakes "(bool \<times> bool) option"

definition hand_over :: "(bool \<times> bool) option \<Rightarrow> driver \<Rightarrow> driver \<times> nat option" where
  "hand_over m s =
     (case m of
        None \<Rightarrow> (s, None)
      | Some (complete, closed) \<Rightarrow>
          (s\<lparr>transports := (transports s)(n_transports s := \<lparr>t_complete = complete, t_requests = 0, t_closed = closed\<rparr>),
             n_transports := n_transports s + 1\<rparr>, Some (n_transports s)))"

definition managed_of :: "driver \<Rightarrow> nat option \<Rightarrow> managed option" where
  "managed_of s t = map_option (transports s) t"

text \<open>The factory returns, with the checks \<open>startLocked\<close> does on its result before the next section.\<close>

definition factory_returns :: "nat \<Rightarrow> nat \<Rightarrow> factory_result \<Rightarrow> driver \<Rightarrow> driver" where
  "factory_returns p c r s =
     (case r of
        FactoryFails e m \<Rightarrow>
          (case hand_over m s of
             (s1, None) \<Rightarrow> goto p (Finishing c (Inl (FactoryError e))) (runtimeCancel c s1)
           | (s1, Some t) \<Rightarrow> goto p (RetireStart t (ForFactoryError c e)) s1)
      | FactoryMakes m \<Rightarrow>
          (case hand_over m s of
             (s1, t) \<Rightarrow>
               if validManagedTransport (managed_of s1 t)
               then goto p (case t of Some t' \<Rightarrow> Admitting c t' | None \<Rightarrow> Rejecting c None) s1
               else goto p (Rejecting c t) (runtimeCancel c s1)))"

text \<open>Where a retirement that was confirmed, or that failed, leads.\<close>

fun retired :: "retire_for \<Rightarrow> point" where
  "retired (ForFactoryError c e) = Finishing c (Inl (FactoryError e))"
| "retired (ForRefused c) = Rechecking c"
| "retired (ForStop g timedOut replace) = Stopped timedOut replace"

fun retire_cancel :: "retire_for \<Rightarrow> driver \<Rightarrow> driver" where
  "retire_cancel (ForFactoryError c e) s = runtimeCancel c s"
| "retire_cancel (ForRefused c) s = runtimeCancel c s"
| "retire_cancel (ForStop g timedOut replace) s = runtimeCancel (gn_construction (gens s g)) s"

fun not_retired :: "retire_for \<Rightarrow> point" where
  "not_retired (ForFactoryError c e) = Finishing c (Inl ErrDriverSafetyQuarantined)"
| "not_retired (ForRefused c) = Finishing c (Inl ErrDriverSafetyQuarantined)"
| "not_retired (ForStop g timedOut replace) =
     (if replace then ReplaceFailed ErrDriverSafetyQuarantined else Unlocking (Inl ErrDriverSafetyQuarantined))"

definition stop_result :: "bool \<Rightarrow> driver_error option \<Rightarrow> point" where
  "stop_result replace e =
     (case e of
        Some err \<Rightarrow> (if replace then ReplaceFailed err else Unlocking (Inl err))
      | None \<Rightarrow> (if replace then Reserving else Unlocking (Inr 0)))"

text \<open>One step of a call from its program point; \<open>None\<close> where it waits for something else.\<close>

definition call_step :: "nat \<Rightarrow> driver \<Rightarrow> driver option" where
  "call_step p s =
     (case calls s p of
        Starting c \<Rightarrow>
          Some (case start_check c s of
                  Some r \<Rightarrow> goto p (Finishing c r) (runtimeCancel c s)
                | None \<Rightarrow> goto p (Building c) s)
      | Rejecting c t \<Rightarrow> Some (goto p (Finishing c (Inl ErrDriverSafetyQuarantined)) (driver_quarantine s))
      | Admitting c t \<Rightarrow>
          Some (case admitConstruction c t s of
                  (s1, Some gen) \<Rightarrow> goto p (Finishing c (Inr gen)) s1
                | (s1, None) \<Rightarrow> goto p (RetireStart t (ForRefused c)) s1)
      | Rechecking c \<Rightarrow>
          Some (goto p (Finishing c (Inl (if d_quarantined s then ErrDriverSafetyQuarantined
                                          else cancellationError (cons_of s c)))) s)
      | Finishing c r \<Rightarrow> Some (goto p (Returned r) (finishConstruction c s))
      | RetireStart t w \<Rightarrow>
          let s1 = retire_cancel w s in
          Some (goto p (if validManagedTransport (Some (transports s1 t)) then RetireRequest t w else RetireFailed t w) s1)
      | RetireRequest t w \<Rightarrow> Some (goto p (RetireConfirm t w) (upd_transport t (\<lambda>x. x\<lparr>t_requests := t_requests x + 1\<rparr>) s))
      | RetireConfirm t w \<Rightarrow> (if t_closed (transports s t) then Some (goto p (retired w) s) else None)
      | RetireFailed t w \<Rightarrow> Some (goto p (not_retired w) (driver_quarantine s))
      | CancelWait cs replace \<Rightarrow>
          (case cs of
             [] \<Rightarrow> Some (goto p (Locking replace) s)
           | c # cs' \<Rightarrow> if con_done (cons_of s c) then Some (goto p (CancelWait cs' replace) s) else None)
      | CancelExpired \<Rightarrow> Some (goto p (Returned (Inl ErrDriverSafetyQuarantined)) (driver_quarantine s))
      | Locking replace \<Rightarrow>
          (if operationMu s = None then Some (goto p (Withdrawing replace) (s\<lparr>operationMu := Some p\<rparr>)) else None)
      | Withdrawing replace \<Rightarrow>
          Some (case stop_withdraw replace s of
                  (s1, StopOver e) \<Rightarrow> goto p (stop_result replace e) s1
                | (s1, Withdrawn g) \<Rightarrow> goto p (Draining g replace) s1)
      | Draining g replace \<Rightarrow>
          (if gn_drained (gens s g) then Some (goto p (RetireStart (gn_transport (gens s g)) (ForStop g False replace)) s) else None)
      | DrainExpired g replace \<Rightarrow>
          Some (if gn_activeCallbacks (gens s g) > 0 then goto p (StopQuarantining g replace) s
                else goto p (RetireStart (gn_transport (gens s g)) (ForStop g True replace)) s)
      | StopQuarantining g replace \<Rightarrow> Some (goto p (stop_result replace (Some ErrDriverSafetyQuarantined)) (driver_quarantine s))
      | Stopped timedOut replace \<Rightarrow>
          Some (goto p (stop_result replace (if timedOut then Some ErrDriverStopTimeout else None))
                 (if replace then s else s\<lparr>d_retiring := False\<rparr>))
      | ReplaceFailed e \<Rightarrow> Some (goto p (if d_quarantined s then Unlocking (Inl e) else ReplaceReleasing e) s)
      | ReplaceReleasing e \<Rightarrow> Some (goto p (Unlocking (Inl e)) (s\<lparr>d_retiring := False\<rparr>))
      | Reserving \<Rightarrow>
          Some (case registerConstruction True True s of
                  (s1, Registered c) \<Rightarrow> goto p (Reserved c) s1
                | (s1, ExistingGeneration g) \<Rightarrow> goto p (Unlocking (Inr g)) s1
                | (s1, RegistrationRefused e) \<Rightarrow> goto p (Unlocking (Inl e)) s1)
      | Reserved c \<Rightarrow> Some (goto p (Starting c) (s\<lparr>operationMu := None\<rparr>))
      | Unlocking r \<Rightarrow> Some (goto p (Returned r) (s\<lparr>operationMu := None\<rparr>))
      | _ \<Rightarrow> None)"

text \<open>
  The timer of a waiting call expires; a close request that nobody takes expires as well, and one sent on a
  closed channel panics and is recovered to the same failure.
\<close>

definition call_expire :: "nat \<Rightarrow> driver \<Rightarrow> driver option" where
  "call_expire p s =
     (case calls s p of
        CancelWait (c # cs) replace \<Rightarrow> Some (goto p CancelExpired s)
      | Draining g replace \<Rightarrow> Some (goto p (DrainExpired g replace) s)
      | RetireRequest t w \<Rightarrow> Some (goto p (RetireFailed t w) s)
      | RetireConfirm t w \<Rightarrow> Some (goto p (RetireFailed t w) s)
      | _ \<Rightarrow> None)"

definition Start :: "nat \<Rightarrow> driver \<Rightarrow> driver" where
  "Start p s =
     (case registerConstruction False False s of
        (s1, Registered c) \<Rightarrow> goto p (Starting c) s1
      | (s1, ExistingGeneration g) \<Rightarrow> goto p (Returned (Inr g)) s1
      | (s1, RegistrationRefused e) \<Rightarrow> goto p (Returned (Inl e)) s1)"

definition stop_or_replace :: "bool \<Rightarrow> nat \<Rightarrow> driver \<Rightarrow> driver" where
  "stop_or_replace replace p s = (case cancel_snapshot s of (s1, waits) \<Rightarrow> goto p (CancelWait waits replace) s1)"

definition driver_Stop :: "nat \<Rightarrow> driver \<Rightarrow> driver" where "driver_Stop = stop_or_replace False"
definition Replace :: "nat \<Rightarrow> driver \<Rightarrow> driver" where "Replace = stop_or_replace True"

section \<open>Interleaved runs\<close>

datatype driver_event =
    CallStart nat | CallStop nat | CallReplace nat | CallStep nat | CallExpires nat | FactoryReturns nat factory_result
  | CallerCancels nat | ForwardCancel nat | AdapterCloses nat
  | EvAdmit | EvInvoke nat | EvClaim nat | EvCallbackReturns nat | EvFinishActive nat | EvFinishFlags nat
  | EvRelease nat | EvReleaseGeneration nat

fun resting :: "point \<Rightarrow> bool" where
  "resting Idle = True" | "resting (Returned r) = True" | "resting _ = False"

definition guarded :: "bool \<Rightarrow> driver \<Rightarrow> driver option" where
  "guarded b s = (if b then Some s else None)"

fun driver_do :: "driver_event \<Rightarrow> driver \<Rightarrow> driver option" where
  "driver_do (CallStart p) s = guarded (resting (calls s p)) (Start p s)"
| "driver_do (CallStop p) s = guarded (resting (calls s p)) (driver_Stop p s)"
| "driver_do (CallReplace p) s = guarded (resting (calls s p)) (Replace p s)"
| "driver_do (CallStep p) s = call_step p s"
| "driver_do (CallExpires p) s = call_expire p s"
| "driver_do (FactoryReturns p r) s = (case calls s p of Building c \<Rightarrow> Some (factory_returns p c r s) | _ \<Rightarrow> None)"
| "driver_do (CallerCancels c) s = Some (upd_con c (\<lambda>x. x\<lparr>callerDone := True\<rparr>) s)"
| "driver_do (ForwardCancel c) s = guarded (callerDone (cons_of s c)) (requestConstructionCancel c s)"
| "driver_do (AdapterCloses t) s = guarded (t < n_transports s) (upd_transport t (\<lambda>x. x\<lparr>t_closed := True\<rparr>) s)"
| "driver_do EvAdmit s = Some (fst (Admit s))"
| "driver_do (EvInvoke l) s = guarded (l < n_leases s) (fst (invoke_begin l s))"
| "driver_do (EvClaim l) s = guarded (l < n_leases s \<and> ls_point (leases s l) = Claiming) (invoke_claim l s)"
| "driver_do (EvCallbackReturns l) s =
     guarded (l < n_leases s \<and> ls_point (leases s l) = InCallback) (upd_lease l (\<lambda>x. x\<lparr>ls_point := CallbackReturned\<rparr>) s)"
| "driver_do (EvFinishActive l) s = guarded (l < n_leases s \<and> ls_point (leases s l) = CallbackReturned) (finish_active l s)"
| "driver_do (EvFinishFlags l) s = guarded (l < n_leases s \<and> ls_point (leases s l) = InvokeEnding) (finish_flags l s)"
| "driver_do (EvRelease l) s = guarded (l < n_leases s) (Release l s)"
| "driver_do (EvReleaseGeneration l) s = guarded (l < n_leases s \<and> ls_returning (leases s l)) (releaseGeneration l s)"

inductive driver_reachable :: "driver \<Rightarrow> bool" where
  driver_new: "driver_reachable (NewDriverRuntime nil)"
| driver_event: "driver_reachable s \<Longrightarrow> driver_do e s = Some s' \<Longrightarrow> driver_reachable s'"

end
