(* ===== verification/Driver_Safety.thy ===== *)
theory Driver_Safety
  imports Driver_Runtime
begin

text \<open>
  Safety of the driver runtime under every interleaving: there is never a second transport that has not been
  proven closed, no callback runs on a transport whose close has been requested, no channel is closed twice, and
  every call returns after a bounded number of its own steps without ever waiting for a factory of another call.
\<close>

section \<open>Who owns the transport\<close>

text \<open>The construction a call builds, the generation it stops, the transport it carries, and the holders of \<open>operationMu\<close>.\<close>

fun retire_builds :: "retire_for \<Rightarrow> nat option" where
  "retire_builds (ForFactoryError c e) = Some c"
| "retire_builds (ForRefused c) = Some c"
| "retire_builds (ForStop g timedOut replace) = None"

fun retire_stops :: "retire_for \<Rightarrow> nat option" where
  "retire_stops (ForStop g timedOut replace) = Some g"
| "retire_stops _ = None"

fun builds :: "point \<Rightarrow> nat option" where
  "builds (Starting c) = Some c" | "builds (Building c) = Some c" | "builds (Rejecting c t) = Some c"
| "builds (Admitting c t) = Some c" | "builds (Rechecking c) = Some c" | "builds (Finishing c r) = Some c"
| "builds (Reserved c) = Some c"
| "builds (RetireStart t w) = retire_builds w" | "builds (RetireRequest t w) = retire_builds w"
| "builds (RetireConfirm t w) = retire_builds w" | "builds (RetireFailed t w) = retire_builds w"
| "builds _ = None"

fun stops :: "point \<Rightarrow> nat option" where
  "stops (Draining g replace) = Some g" | "stops (DrainExpired g replace) = Some g"
| "stops (StopQuarantining g replace) = Some g"
| "stops (RetireStart t w) = retire_stops w" | "stops (RetireRequest t w) = retire_stops w"
| "stops (RetireConfirm t w) = retire_stops w" | "stops (RetireFailed t w) = retire_stops w"
| "stops _ = None"

fun carries :: "point \<Rightarrow> nat option" where
  "carries (Rejecting c t) = t" | "carries (Admitting c t) = Some t"
| "carries (RetireStart t w) = Some t" | "carries (RetireRequest t w) = Some t"
| "carries (RetireConfirm t w) = Some t" | "carries (RetireFailed t w) = Some t"
| "carries _ = None"

fun holds :: "point \<Rightarrow> bool" where
  "holds (Withdrawing replace) = True" | "holds (Draining g replace) = True" | "holds (DrainExpired g replace) = True"
| "holds (StopQuarantining g replace) = True" | "holds (Stopped timedOut replace) = True"
| "holds (ReplaceFailed e) = True" | "holds (ReplaceReleasing e) = True"
| "holds Reserving = True" | "holds (Reserved c) = True" | "holds (Unlocking r) = True"
| "holds (RetireStart t w) = (retire_stops w \<noteq> None)" | "holds (RetireRequest t w) = (retire_stops w \<noteq> None)"
| "holds (RetireConfirm t w) = (retire_stops w \<noteq> None)" | "holds (RetireFailed t w) = (retire_stops w \<noteq> None)"
| "holds _ = False"

lemma stops_holds: "stops pt = Some g \<Longrightarrow> holds pt"
  by (cases pt rule: stops.cases) auto

lemma retired_simps [simp]:
  "builds (retired w) = retire_builds w" "stops (retired w) = None" "carries (retired w) = None"
  "holds (retired w) = (retire_stops w \<noteq> None)"
  by (cases w; simp)+

lemma not_retired_simps [simp]:
  "builds (not_retired w) = retire_builds w" "stops (not_retired w) = None" "carries (not_retired w) = None"
  "holds (not_retired w) = (retire_stops w \<noteq> None)"
  by (cases w; simp)+

lemma stop_result_simps [simp]:
  "builds (stop_result b e) = None" "stops (stop_result b e) = None" "carries (stop_result b e) = None"
  "holds (stop_result b e)"
  by (auto simp: stop_result_def split: option.splits)

definition open_transports :: "driver \<Rightarrow> nat set" where
  "open_transports s = {t. t < n_transports s \<and> \<not> t_closed (transports s t)}"

definition pending :: "construction_state \<Rightarrow> bool" where
  "pending x \<longleftrightarrow> x = Provisional \<or> x = CancelRequested"

text \<open>A call that neither builds nor stops, or whose construction was admitted before.\<close>

definition bystander :: "driver \<Rightarrow> nat \<Rightarrow> bool" where
  "bystander s q \<longleftrightarrow> stops (calls s q) = None \<and>
     (\<forall>c. builds (calls s q) = Some c \<longrightarrow> (\<exists>r. calls s q = Finishing c r) \<and> con_state (cons_of s c) = Admitted)"

text \<open>At every moment the runtime is quiet, or one call builds, or one generation is live, or one call stops one.\<close>

datatype mode = Quiet | Build nat nat | Live nat | Stopping nat nat

fun mode_ok :: "mode \<Rightarrow> driver \<Rightarrow> bool" where
  "mode_ok Quiet s \<longleftrightarrow> d_current s = None \<and> constructions s = [] \<and> (\<forall>q. bystander s q) \<and>
     (open_transports s = {} \<or> d_quarantined s \<and> (\<exists>t. open_transports s \<subseteq> {t}))"
| "mode_ok (Build p c) s \<longleftrightarrow> d_current s = None \<and> constructions s = [c] \<and> (\<forall>q. q \<noteq> p \<longrightarrow> bystander s q) \<and>
     builds (calls s p) = Some c \<and> pending (con_state (cons_of s c)) \<and> \<not> con_done (cons_of s c) \<and>
     (open_transports s \<subseteq> set_option (carries (calls s p)) \<or>
      d_quarantined s \<and> (\<exists>r. calls s p = Finishing c r) \<and> (\<exists>t. open_transports s \<subseteq> {t}))"
| "mode_ok (Live g) s \<longleftrightarrow> d_current s = Some g \<and> constructions s = [] \<and> (\<forall>q. bystander s q) \<and>
     open_transports s \<subseteq> {gn_transport (gens s g)}"
| "mode_ok (Stopping p g) s \<longleftrightarrow> d_current s = None \<and> constructions s = [] \<and> (\<forall>q. q \<noteq> p \<longrightarrow> bystander s q) \<and>
     d_retiring s \<and> stops (calls s p) = Some g \<and> set_option (carries (calls s p)) \<subseteq> {gn_transport (gens s g)} \<and>
     open_transports s \<subseteq> {gn_transport (gens s g)}"

definition mu_ok :: "driver \<Rightarrow> bool" where
  "mu_ok s \<longleftrightarrow> (\<forall>q. holds (calls s q) \<longleftrightarrow> operationMu s = Some q)"

definition seq_ok :: "driver \<Rightarrow> bool" where
  "seq_ok s \<longleftrightarrow> (\<forall>q c. builds (calls s q) = Some c \<longrightarrow> c \<le> constructionSeq s)"

lemmas upd_defs = goto_def upd_con_def upd_gen_def upd_lease_def upd_transport_def runtimeCancel_def

lemma quarantine_fields [simp]:
  "d_quarantined (driver_quarantine s)" "calls (driver_quarantine s) = calls s"
  "transports (driver_quarantine s) = transports s" "n_transports (driver_quarantine s) = n_transports s"
  "d_current (driver_quarantine s) = d_current s" "constructions (driver_quarantine s) = constructions s"
  "cons_of (driver_quarantine s) = cons_of s" "gens (driver_quarantine s) = gens s" "n_gens (driver_quarantine s) = n_gens s"
  "operationMu (driver_quarantine s) = operationMu s" "constructionSeq (driver_quarantine s) = constructionSeq s"
  "leases (driver_quarantine s) = leases s" "n_leases (driver_quarantine s) = n_leases s"
  "d_retiring (driver_quarantine s) = d_retiring s" "panicked (driver_quarantine s) = panicked s"
  by (simp_all add: driver_quarantine_def)

text \<open>Moving a call on, and cancelling a context, change nothing the other calls look at.\<close>

lemma bystander_goto [simp]: "q \<noteq> p \<Longrightarrow> bystander (goto p pt s) q = bystander s q"
  by (simp add: bystander_def goto_def)

lemma bystander_cong:
  "calls s' q = calls s q \<Longrightarrow> (\<And>c. con_state (cons_of s c) = Admitted \<Longrightarrow> con_state (cons_of s' c) = Admitted) \<Longrightarrow>
   bystander s q \<Longrightarrow> bystander s' q"
  by (auto simp: bystander_def)

text \<open>What a step may change without touching the mode.\<close>

definition core :: "driver \<Rightarrow> driver \<Rightarrow> bool" where
  "core s s' \<longleftrightarrow> d_current s' = d_current s \<and> constructions s' = constructions s \<and>
     (\<forall>c. con_state (cons_of s c) = Admitted \<longrightarrow> con_state (cons_of s' c) = Admitted) \<and>
     (\<forall>c. pending (con_state (cons_of s c)) \<longrightarrow>
          pending (con_state (cons_of s' c)) \<and> con_done (cons_of s' c) = con_done (cons_of s c)) \<and>
     (\<forall>g. gn_transport (gens s' g) = gn_transport (gens s g)) \<and>
     open_transports s' \<subseteq> open_transports s \<and> (d_quarantined s \<longrightarrow> d_quarantined s')"

fun involved :: "mode \<Rightarrow> nat \<Rightarrow> bool" where
  "involved (Build q c) p \<longleftrightarrow> q = p"
| "involved (Stopping q g) p \<longleftrightarrow> q = p"
| "involved m p \<longleftrightarrow> False"

lemma builds_stops: "builds pt = Some c \<Longrightarrow> stops pt = None"
proof -
  have "retire_builds w = Some c \<Longrightarrow> retire_stops w = None" for w by (cases w) auto
  then show "builds pt = Some c \<Longrightarrow> stops pt = None" by (cases pt) auto
qed

lemma uninvolved_bystander: "mode_ok m s \<Longrightarrow> \<not> involved m p \<Longrightarrow> bystander s p"
  by (cases m) simp_all

lemma not_involved:
  assumes "mode_ok m s" and "stops (calls s p) = None" and "builds (calls s p) = None"
  shows "\<not> involved m p"
  using assms by (cases m) auto

text \<open>The mode survives a step that keeps the core, the involved call and the bystanders.\<close>

lemma core_mode:
  assumes "mode_ok m s" and "core s s'" and bs: "\<And>q. \<not> involved m q \<Longrightarrow> bystander s q \<Longrightarrow> bystander s' q"
    and inv: "\<And>q. involved m q \<Longrightarrow> calls s' q = calls s q" and ret: "\<And>q g. m = Stopping q g \<Longrightarrow> d_retiring s'"
  shows "mode_ok m s'"
proof -
  have cur: "d_current s' = d_current s" "constructions s' = constructions s"
    and tr: "\<And>g. gn_transport (gens s' g) = gn_transport (gens s g)"
    and op: "open_transports s' \<subseteq> open_transports s" and qu: "d_quarantined s \<Longrightarrow> d_quarantined s'"
    and st: "\<And>c. pending (con_state (cons_of s c)) \<Longrightarrow>
      pending (con_state (cons_of s' c)) \<and> con_done (cons_of s' c) = con_done (cons_of s c)"
    using assms(2) by (simp_all add: core_def)
  show ?thesis
  proof (cases m)
    case Quiet
    then have "\<forall>q. bystander s' q" using assms(1) bs by simp
    then show ?thesis using assms(1) Quiet cur op qu by simp blast
  next
    case (Build p c)
    then have "\<forall>q. q \<noteq> p \<longrightarrow> bystander s' q" using assms(1) bs by simp
    then show ?thesis using assms(1) Build cur op qu inv [of p] st [of c] by simp blast
  next
    case (Live g)
    then have "\<forall>q. bystander s' q" using assms(1) bs by simp
    then show ?thesis using assms(1) Live cur op tr by simp blast
  next
    case (Stopping p g)
    then have "\<forall>q. q \<noteq> p \<longrightarrow> bystander s' q" using assms(1) bs by simp
    then show ?thesis using assms(1) Stopping cur op tr inv [of p] ret by simp blast
  qed
qed

lemma keep_mode:
  assumes "mode_ok m s" and "core s s'" and "\<forall>q. q \<noteq> p \<longrightarrow> calls s' q = calls s q"
    and "\<not> involved m p" and "stops (calls s' p) = None" and "builds (calls s' p) = None"
    and "\<And>q g. m = Stopping q g \<Longrightarrow> d_retiring s'"
  shows "mode_ok m s'"
proof (rule core_mode [OF assms(1,2)])
  show "bystander s' q" if "\<not> involved m q" "bystander s q" for q
  proof (cases "q = p")
    case True
    then show ?thesis using assms(5,6) by (simp add: bystander_def)
  next
    case False
    then show ?thesis using that(2) assms(2,3) by (simp add: bystander_def core_def)
  qed
  show "calls s' q = calls s q" if "involved m q" for q using that assms(3,4) by metis
qed (use assms(7) in blast)

text \<open>A step that moves no call.\<close>

lemma unmoved_mode:
  assumes "mode_ok m s" and "core s s'" and "calls s' = calls s" and "d_retiring s' = d_retiring s"
  shows "mode_ok m s'"
  using assms by (intro core_mode [OF assms(1,2)]) (auto simp: bystander_def core_def)

lemma stops_mode: "mode_ok m s \<Longrightarrow> stops (calls s p) = Some g \<Longrightarrow> m = Stopping p g"
proof -
  assume m: "mode_ok m s" "stops (calls s p) = Some g"
  then have "involved m p" using uninvolved_bystander [OF m(1), of p] by (auto simp: bystander_def)
  then show ?thesis using m by (cases m) (auto dest: builds_stops)
qed

lemma builds_mode:
  assumes "mode_ok m s" and "builds (calls s p) = Some c"
  shows "m = Build p c \<or> (\<exists>r. calls s p = Finishing c r) \<and> con_state (cons_of s c) = Admitted \<and> \<not> involved m p"
proof (cases "involved m p")
  case True
  then show ?thesis using assms by (cases m) (auto dest: builds_stops)
next
  case False
  then show ?thesis using uninvolved_bystander [OF assms(1) False] assms(2) by (auto simp: bystander_def)
qed

lemma holder_mode:
  assumes "mode_ok m s" and "mu_ok s" and "holds (calls s p)" and "stops (calls s p) = None"
  shows "m \<noteq> Stopping q g"
proof
  assume "m = Stopping q g"
  then have "stops (calls s q) = Some g" using assms(1) by simp
  then have "operationMu s = Some q" using assms(2) stops_holds by (auto simp: mu_ok_def)
  then have "q = p" using assms(2,3) by (auto simp: mu_ok_def)
  then show False using \<open>stops (calls s q) = Some g\<close> assms(4) by simp
qed

lemma build_step:
  assumes "mode_ok (Build p c) s" and "core s s'" and "\<forall>q. q \<noteq> p \<longrightarrow> calls s' q = calls s q"
    and "builds (calls s' p) = Some c"
    and "open_transports s' \<subseteq> set_option (carries (calls s' p)) \<or>
      d_quarantined s' \<and> (\<exists>r. calls s' p = Finishing c r) \<and> (\<exists>t. open_transports s' \<subseteq> {t})"
  shows "mode_ok (Build p c) s'"
proof -
  have "bystander s q \<Longrightarrow> q \<noteq> p \<Longrightarrow> bystander s' q" for q
    using assms(2,3) by (auto simp: bystander_def core_def)
  then show ?thesis using assms by (auto simp: core_def)
qed


section \<open>Every step keeps the mode\<close>

lemma core_simps:
  "core s (goto p pt s') = core s s'" "core s (s'\<lparr>d_retiring := b\<rparr>) = core s s'"
  "core s (s'\<lparr>operationMu := mu\<rparr>) = core s s'"
  by (simp_all add: core_def goto_def open_transports_def)

lemma core_refl [simp]: "core s s" by (simp add: core_def)

lemma core_cancel: "core s s' \<Longrightarrow> core s (runtimeCancel c s')"
  by (simp add: core_def upd_defs open_transports_def)

lemma core_quarantine: "core s s' \<Longrightarrow> core s (driver_quarantine s')"
  by (simp add: core_def open_transports_def)

lemma core_requests: "core s s' \<Longrightarrow> core s (upd_transport t (\<lambda>x. x\<lparr>t_requests := f x\<rparr>) s')"
  by (auto simp: core_def upd_defs open_transports_def split: if_splits)

lemma goto_fields [simp]:
  "calls (goto p pt s) = (calls s)(p := pt)" "d_retiring (goto p pt s) = d_retiring s"
  "open_transports (goto p pt s) = open_transports s" "d_quarantined (goto p pt s) = d_quarantined s"
  "operationMu (goto p pt s) = operationMu s" "constructionSeq (goto p pt s) = constructionSeq s"
  by (simp_all add: goto_def open_transports_def)

lemma cancel_fields [simp]:
  "calls (runtimeCancel c s) = calls s" "d_retiring (runtimeCancel c s) = d_retiring s"
  "open_transports (runtimeCancel c s) = open_transports s" "d_quarantined (runtimeCancel c s) = d_quarantined s"
  "operationMu (runtimeCancel c s) = operationMu s" "constructionSeq (runtimeCancel c s) = constructionSeq s"
  "gens (runtimeCancel c s) = gens s" "transports (runtimeCancel c s) = transports s"
  by (simp_all add: upd_defs open_transports_def)

lemma transport_fields [simp]:
  "calls (upd_transport t f s) = calls s" "d_retiring (upd_transport t f s) = d_retiring s"
  "operationMu (upd_transport t f s) = operationMu s" "constructionSeq (upd_transport t f s) = constructionSeq s"
  by (simp_all add: upd_defs)

lemma open_quarantine [simp]: "open_transports (driver_quarantine s) = open_transports s"
  by (simp add: open_transports_def)

lemma open_requests [simp]: "open_transports (upd_transport t (\<lambda>x. x\<lparr>t_requests := f x\<rparr>) s) = open_transports s"
  by (auto simp: open_transports_def upd_defs)

lemmas core_rules = core_simps core_cancel core_quarantine core_requests


text \<open>The three kinds of call: one that takes no part, the builder, and the one that stops.\<close>

lemma bystander_step:
  assumes "mode_ok m s" and "stops (calls s p) = None" and "builds (calls s p) = None"
    and "core s s'" and "calls s' = (calls s)(p := pt)" and "stops pt = None" and "builds pt = None"
    and "d_retiring s' = d_retiring s \<or> mu_ok s \<and> holds (calls s p)"
  shows "\<exists>m. mode_ok m s'"
proof -
  have "mode_ok m s'"
  proof (rule keep_mode [OF assms(1,4), of p])
    show "d_retiring s'" if "m = Stopping q g" for q g
      using assms(8) holder_mode [OF assms(1) _ _ assms(2), of q g] that assms(1) by auto
  qed (use assms not_involved [OF assms(1-3)] in auto)
  then show ?thesis ..
qed

lemma builder_step:
  assumes "mode_ok m s" and "builds (calls s p) = Some c" and "\<And>r. calls s p \<noteq> Finishing c r"
    and "core s s'" and "calls s' = (calls s)(p := pt)" and "builds pt = Some c"
    and "open_transports s \<subseteq> set_option (carries (calls s p)) \<Longrightarrow>
      open_transports s' \<subseteq> set_option (carries pt) \<or> d_quarantined s' \<and> (\<exists>r. pt = Finishing c r)"
  shows "\<exists>m. mode_ok m s'"
proof -
  have m: "m = Build p c" using builds_mode [OF assms(1,2)] assms(3) by auto
  then have op: "open_transports s \<subseteq> set_option (carries (calls s p))" using assms(1,3) by auto
  moreover have "open_transports s' \<subseteq> open_transports s" using assms(4) by (simp add: core_def)
  ultimately have "\<exists>t. open_transports s' \<subseteq> {t}" by (cases "carries (calls s p)") auto
  then have "mode_ok (Build p c) s'"
    using assms(1,4-6) assms(7) [OF op] m by (intro build_step [of p c s s']) auto
  then show ?thesis ..
qed

lemma stopper_step:
  assumes "mode_ok m s" and "stops (calls s p) = Some g"
    and "core s s'" and "calls s' = (calls s)(p := pt)" and "d_retiring s' = d_retiring s"
    and "stops pt = Some g \<and> set_option (carries pt) \<subseteq> {gn_transport (gens s g)} \<or>
      stops pt = None \<and> builds pt = None \<and> (open_transports s' = {} \<or> d_quarantined s')"
  shows "\<exists>m. mode_ok m s'"
proof -
  have m: "m = Stopping p g" using stops_mode [OF assms(1,2)] .
  have bs: "bystander s' q" if "q \<noteq> p" for q
    using assms(1,3,4) m that by (auto simp: bystander_def core_def)
  have "mode_ok (if stops pt = Some g then Stopping p g else Quiet) s'"
  proof (cases "stops pt = Some g")
    case True
    then show ?thesis using assms m bs by (auto simp: core_def)
  next
    case False
    then have "bystander s' p" using assms(4,6) by (simp add: bystander_def)
    then have "\<forall>q. bystander s' q" using bs by metis
    moreover have "open_transports s' \<subseteq> {gn_transport (gens s g)}" using assms(1,3) m by (auto simp: core_def)
    ultimately show ?thesis using assms m False by (auto simp: core_def)
  qed
  then show ?thesis by blast
qed


text \<open>The steps that change the core: registration, admission, the end of a construction, and withdrawal.\<close>

lemma register_mode:
  assumes "mode_ok m s" and "seq_ok s" and "stops (calls s p) = None" and "builds (calls s p) = None"
    and "\<not> allow \<or> (\<forall>q g. m \<noteq> Stopping q g)"
    and "registerConstruction allow rel s = (s1, Registered c)" and "builds pt = Some c" and "carries pt = None"
  shows "\<exists>m. mode_ok m (goto p pt (s1\<lparr>operationMu := mu\<rparr>))"
proof -
  have c: "c = constructionSeq s + 1" and reg: "\<not> d_quarantined s" "d_current s = None" "constructions s = []"
    and ret: "d_retiring s \<longleftrightarrow> allow"
    and s1: "s1 = s\<lparr>constructionSeq := c, constructions := [c],
       cons_of := (cons_of s)(c := \<lparr>releaseRetiring = rel, con_state = Provisional, con_done = False,
             callerDone = False, runtimeDone = False\<rparr>)\<rparr>"
    using assms(6) by (auto simp: registerConstruction_def Let_def split: if_splits)
  have m: "m = Quiet" using assms(1,5) reg ret by (cases m) auto
  have "builds (calls s q) \<noteq> Some c" for q using assms(2) c by (fastforce simp: seq_ok_def)
  then have "bystander (goto p pt (s1\<lparr>operationMu := mu\<rparr>)) q" if "q \<noteq> p" for q
    using uninvolved_bystander [OF assms(1), of q] m that by (auto simp: s1 bystander_def goto_def)
  then have "mode_ok (Build p c) (goto p pt (s1\<lparr>operationMu := mu\<rparr>))"
    using assms(1,7,8) m reg by (auto simp: s1 goto_def pending_def open_transports_def)
  then show ?thesis ..
qed

lemma admit_mode:
  assumes "mode_ok m s" and "calls s p = Admitting c t" and "admitConstruction c t s = (s1, Some gen)"
  shows "\<exists>m. mode_ok m (goto p (Finishing c (Inr gen)) s1)"
proof -
  have m: "m = Build p c" using builds_mode [OF assms(1), of p c] assms(2) by auto
  then have cs: "constructions s = [c]" "open_transports s \<subseteq> {t}" using assms(1,2) by auto
  let ?s = "goto p (Finishing c (Inr gen)) s1"
  have st: "calls s1 = calls s" "cons_of s1 = (cons_of s)(c := (cons_of s c)\<lparr>con_state := Admitted\<rparr>)"
      "d_current s1 = Some (n_gens s)" "constructions s1 = []" "gn_transport (gens s1 (n_gens s)) = t"
      "open_transports s1 = open_transports s"
    using assms(3) cs by (auto simp: admitConstruction_def Let_def upd_defs open_transports_def split: if_splits)
  have "bystander ?s q" for q
    using uninvolved_bystander [OF assms(1), of q] m by (cases "q = p") (auto simp: bystander_def st goto_def)
  then have "\<forall>q. bystander ?s q" by blast
  moreover have "d_current ?s = Some (n_gens s)" "constructions ?s = []" "gn_transport (gens ?s (n_gens s)) = t"
    by (simp_all add: goto_def st)
  ultimately have "mode_ok (Live (n_gens s)) ?s" using cs st(6) by simp
  then show ?thesis ..
qed

lemma finish_mode:
  assumes "mode_ok m s" and "calls s p = Finishing c r"
  shows "\<exists>m. mode_ok m (goto p (Returned r) (finishConstruction c s))"
proof (cases "con_state (cons_of s c) = Admitted")
  case True
  then have "\<not> involved m p" using builds_mode [OF assms(1), of p c] assms by (auto simp: pending_def)
  then have "mode_ok m (goto p (Returned r) s)"
    using assms(1) True by (intro keep_mode [OF assms(1), of _ p]) (auto simp: core_simps)
  then show ?thesis using True by (auto simp: finishConstruction_def)
next
  case False
  let ?s = "goto p (Returned r) (finishConstruction c s)"
  have m: "m = Build p c" using builds_mode [OF assms(1), of p c] assms(2) False by auto
  then have fin: "calls ?s = (calls s)(p := Returned r)" "d_current ?s = None" "constructions ?s = []"
      "d_quarantined ?s = d_quarantined s" "open_transports ?s = open_transports s"
      "\<And>c'. c' \<noteq> c \<Longrightarrow> cons_of ?s c' = cons_of s c'"
    using assms(1) False by (auto simp: finishConstruction_def close_done_def Let_def upd_defs open_transports_def)
  have adm: "con_state (cons_of ?s c') = Admitted" if "con_state (cons_of s c') = Admitted" for c'
    using that False fin(6) [of c'] by (cases "c' = c") simp_all
  have "bystander ?s q" for q
  proof (cases "q = p")
    case False
    then show ?thesis using assms(1) m adm by (intro bystander_cong [of ?s q s]) (simp_all add: fin(1) del: goto_fields)
  qed (simp add: bystander_def)
  then have "mode_ok Quiet ?s" using assms m fin by auto
  then show ?thesis ..
qed

lemma withdraw_mode:
  assumes "mode_ok m s" and "calls s p = Withdrawing replace" and "mu_ok s" and "stop_withdraw replace s = (s1, Withdrawn g)"
  shows "\<exists>m. mode_ok m (goto p (Draining g replace) s1)"
proof -
  have cur: "d_current s = Some g" using assms(4) by (auto simp: stop_withdraw_def Let_def split: if_splits option.splits)
  then have m: "m = Live g" using assms(1) by (cases m) auto
  let ?s = "goto p (Draining g replace) s1"
  have st: "calls ?s = (calls s)(p := Draining g replace)" "d_current ?s = None" "constructions ?s = []" "d_retiring ?s"
      "\<And>c. con_state (cons_of ?s c) = con_state (cons_of s c)"
      "gn_transport (gens ?s g) = gn_transport (gens s g)" "open_transports ?s = open_transports s"
    using assms(1,4) m cur
    by (auto simp: stop_withdraw_def close_drained_def Let_def upd_defs open_transports_def split: if_splits)
  have "bystander ?s q" if "q \<noteq> p" for q
    using uninvolved_bystander [OF assms(1), of q] m that by (auto simp: bystander_def st simp del: goto_fields)
  then have "mode_ok (Stopping p g) ?s" using assms(1) m by (auto simp: st simp del: goto_fields)
  then show ?thesis ..
qed


lemma core_retire_cancel [simp]: "core s (retire_cancel w s)"
  by (cases w) (simp_all add: core_cancel)

lemma retire_cancel_fields [simp]:
  "calls (retire_cancel w s) = calls s" "d_retiring (retire_cancel w s) = d_retiring s"
  "open_transports (retire_cancel w s) = open_transports s" "transports (retire_cancel w s) = transports s"
  "gens (retire_cancel w s) = gens s"
  by (cases w; simp)+

text \<open>A step of a retirement, whatever it is for.\<close>

lemma retire_step:
  assumes "mode_ok m s" and "builds (calls s p) = retire_builds w" and "stops (calls s p) = retire_stops w"
    and "\<And>c r. calls s p \<noteq> Finishing c r"
    and "core s s'" and "calls s' = (calls s)(p := pt)" and "d_retiring s' = d_retiring s"
    and "builds pt = retire_builds w" and "carries (calls s p) = Some t"
    and "stops pt = retire_stops w \<and> carries pt = Some t \<or>
         stops pt = None \<and> (t \<notin> open_transports s' \<or>
           d_quarantined s' \<and> (\<forall>c. retire_builds w = Some c \<longrightarrow> (\<exists>r. pt = Finishing c r)))"
  shows "\<exists>m. mode_ok m s'"
proof (cases "retire_stops w")
  case None
  then obtain c where c: "retire_builds w = Some c" by (cases w) auto
  have op: "open_transports s' \<subseteq> open_transports s" using assms(5) by (simp add: core_def)
  have "open_transports s' = {}" if "t \<notin> open_transports s'" "open_transports s \<subseteq> {t}" using op that by blast
  then show ?thesis
    using assms c None op by (intro builder_step [OF assms(1), of p c s' pt]) auto
next
  case (Some g)
  then have w: "retire_builds w = None" by (cases w) auto
  have g: "m = Stopping p g" using stops_mode [OF assms(1)] assms(3) Some by simp
  then have t: "t = gn_transport (gens s g)" "open_transports s \<subseteq> {t}" using assms(1,9) by auto
  have "open_transports s' \<subseteq> {t}" using assms(5) t(2) by (auto simp: core_def)
  then have "open_transports s' = {}" if "t \<notin> open_transports s'" using that by blast
  then show ?thesis
    using assms Some w t by (intro stopper_step [OF assms(1), of p g s' pt]) auto
qed

lemma closed_not_open: "t_closed (transports s t) \<Longrightarrow> t \<notin> open_transports s"
  by (auto simp: open_transports_def)

lemma not_retired_Finishing: "retire_builds w = Some c \<Longrightarrow> \<exists>r. not_retired w = Finishing c r"
  by (cases w) auto

lemma bystander_goto_step:
  assumes "mode_ok m s" and "stops (calls s p) = None" and "builds (calls s p) = None"
    and "core s s'" and "calls s' = calls s" and "stops pt = None" and "builds pt = None"
    and "d_retiring s' = d_retiring s \<or> mu_ok s \<and> holds (calls s p)"
  shows "\<exists>m. mode_ok m (goto p pt s')"
  using assms by (intro bystander_step [OF assms(1-3), of _ pt]) (simp_all add: core_simps)

lemma call_step_mode:
  assumes "mode_ok m s" and "mu_ok s" and "seq_ok s" and "call_step p s = Some s'"
  shows "\<exists>m. mode_ok m s'"
proof (cases "calls s p")
  case (Starting c)
  then show ?thesis using assms(4)
    by (intro builder_step [OF assms(1), of p c s' "case start_check c s of Some r \<Rightarrow> Finishing c r | None \<Rightarrow> Building c"])
      (auto simp: call_step_def core_rules split: option.splits)
next
  case (Rejecting c t)
  then show ?thesis using assms(4)
    by (intro builder_step [OF assms(1), of p c s' "Finishing c (Inl ErrDriverSafetyQuarantined)"])
      (cases t; auto simp: call_step_def core_rules)+
next
  case (Admitting c t)
  show ?thesis
  proof (cases "snd (admitConstruction c t s)")
    case None
    then have "admitConstruction c t s = (s, None)" by (auto simp: admitConstruction_def Let_def split: if_splits)
    then show ?thesis using assms(4) Admitting
      by (intro builder_step [OF assms(1), of p c s' "RetireStart t (ForRefused c)"]) (auto simp: call_step_def core_rules)
  next
    case (Some gen)
    then obtain s1 where "admitConstruction c t s = (s1, Some gen)" by (metis prod.collapse)
    then show ?thesis using assms(4) Admitting admit_mode [OF assms(1) Admitting, of s1 gen] by (auto simp: call_step_def)
  qed
next
  case (Rechecking c)
  then show ?thesis using assms(4)
    by (intro builder_step [OF assms(1), of p c s' "calls s' p"]) (auto simp: call_step_def core_rules)
next
  case (Finishing c r)
  then show ?thesis using assms(4) finish_mode [OF assms(1) Finishing] by (auto simp: call_step_def)
next
  case (RetireStart t w)
  then show ?thesis using assms(4)
    by (intro retire_step [OF assms(1), of p w s' "calls s' p" t])
      (cases "validManagedTransport (Some (transports s t))"; auto simp: call_step_def core_rules Let_def)+
next
  case (RetireRequest t w)
  then show ?thesis using assms(4)
    by (intro retire_step [OF assms(1), of p w s' "calls s' p" t]) (auto simp: call_step_def core_rules)
next
  case (RetireConfirm t w)
  then show ?thesis using assms(4) closed_not_open [of s t]
    by (intro retire_step [OF assms(1), of p w s' "calls s' p" t]) (auto simp: call_step_def core_rules split: if_splits)
next
  case (RetireFailed t w)
  then show ?thesis using assms(4) not_retired_Finishing [of w]
    by (intro retire_step [OF assms(1), of p w s' "calls s' p" t]) (auto simp: call_step_def core_rules)
next
  case (Withdrawing replace)
  show ?thesis
  proof (cases "snd (stop_withdraw replace s)")
    case (Withdrawn g)
    then obtain s1 where "stop_withdraw replace s = (s1, Withdrawn g)" by (metis prod.collapse)
    then show ?thesis using assms(4) Withdrawing withdraw_mode [OF assms(1) Withdrawing assms(2)] by (auto simp: call_step_def)
  next
    case (StopOver e)
    then show ?thesis using assms(2,4) Withdrawing
      by (intro bystander_step [OF assms(1), of p s' "stop_result replace e"])
        (auto simp: call_step_def stop_withdraw_def core_rules Let_def split: if_splits option.splits)
  qed
next
  case (Draining g replace)
  then show ?thesis using assms(4)
    by (intro stopper_step [OF assms(1), of p g s' "calls s' p"]) (auto simp: call_step_def core_rules split: if_splits)
next
  case (DrainExpired g replace)
  then show ?thesis using assms(4)
    by (intro stopper_step [OF assms(1), of p g s' "calls s' p"]) (auto simp: call_step_def core_rules split: if_splits)
next
  case (StopQuarantining g replace)
  then show ?thesis using assms(4)
    by (intro stopper_step [OF assms(1), of p g s' "calls s' p"]) (auto simp: call_step_def core_rules)
next
  case Reserving
  then have hold: "m \<noteq> Stopping q g" for q g using holder_mode [OF assms(1,2), of p] by simp
  show ?thesis
  proof (cases "snd (registerConstruction True True s)")
    case (Registered c)
    then obtain s1 where r: "registerConstruction True True s = (s1, Registered c)" by (metis prod.collapse)
    have "s1\<lparr>operationMu := operationMu s1\<rparr> = s1" by simp
    then show ?thesis
      using assms(4) Reserving hold r register_mode [OF assms(1,3), of p True True s1 c "Reserved c" "operationMu s1"]
      by (auto simp: call_step_def)
  next
    case (ExistingGeneration g)
    then show ?thesis using assms(4) Reserving
      by (intro bystander_step [OF assms(1), of p s' "Unlocking (Inr g)"])
        (auto simp: call_step_def registerConstruction_def core_rules Let_def split: if_splits)
  next
    case (RegistrationRefused e)
    then show ?thesis using assms(4) Reserving
      by (intro bystander_step [OF assms(1), of p s' "Unlocking (Inl e)"])
        (auto simp: call_step_def registerConstruction_def core_rules Let_def split: if_splits)
  qed
next
  case (Reserved c)
  then show ?thesis using assms(4)
    by (intro builder_step [OF assms(1), of p c s' "Starting c"]) (auto simp: call_step_def core_def open_transports_def goto_def)
qed (use assms(2,4) in \<open>auto intro!: bystander_goto_step [OF assms(1)]
       simp: call_step_def core_rules split: if_splits list.splits\<close>)


section \<open>Events\<close>

lemma start_mode:
  assumes "mode_ok m s" and "seq_ok s" and "resting (calls s p)"
  shows "\<exists>m. mode_ok m (Start p s)"
proof -
  have rest: "stops (calls s p) = None" "builds (calls s p) = None" using assms(3) by (cases "calls s p"; simp)+
  show ?thesis
  proof (cases "snd (registerConstruction False False s)")
    case (Registered c)
    then obtain s1 where r: "registerConstruction False False s = (s1, Registered c)" by (metis prod.collapse)
    have "s1\<lparr>operationMu := operationMu s1\<rparr> = s1" by simp
    then show ?thesis
      using rest r register_mode [OF assms(1,2), of p False False s1 c "Starting c" "operationMu s1"] by (auto simp: Start_def)
  next
    case (ExistingGeneration g)
    then show ?thesis using rest
      by (intro bystander_step [OF assms(1), of p _ "Returned (Inr g)"])
        (auto simp: Start_def registerConstruction_def core_rules Let_def split: if_splits)
  next
    case (RegistrationRefused e)
    then show ?thesis using rest
      by (intro bystander_step [OF assms(1), of p _ "Returned (Inl e)"])
        (auto simp: Start_def registerConstruction_def core_rules Let_def split: if_splits)
  qed
qed

lemma core_cancel_provisional: "core s s' \<Longrightarrow> core s (cancel_provisional c s')"
  by (auto simp: core_def cancel_provisional_def upd_defs open_transports_def pending_def)

lemma cancel_provisional_fields [simp]:
  "calls (cancel_provisional c s) = calls s" "d_retiring (cancel_provisional c s) = d_retiring s"
  "operationMu (cancel_provisional c s) = operationMu s" "constructionSeq (cancel_provisional c s) = constructionSeq s"
  "constructions (cancel_provisional c s) = constructions s"
  "gens (cancel_provisional c s) = gens s" "n_gens (cancel_provisional c s) = n_gens s"
  "leases (cancel_provisional c s) = leases s" "n_leases (cancel_provisional c s) = n_leases s"
  "transports (cancel_provisional c s) = transports s" "n_transports (cancel_provisional c s) = n_transports s"
  "d_current (cancel_provisional c s) = d_current s" "panicked (cancel_provisional c s) = panicked s"
  by (simp_all add: cancel_provisional_def upd_defs)

lemma snapshot_fold:
  "core s s' \<Longrightarrow> core s (foldl (\<lambda>s c. cancel_provisional c s) s' cs) \<and>
     (let r = foldl (\<lambda>s c. cancel_provisional c s) s' cs in
      calls r = calls s' \<and> d_retiring r = d_retiring s' \<and> operationMu r = operationMu s' \<and> constructionSeq r = constructionSeq s' \<and>
      gens r = gens s' \<and> n_gens r = n_gens s' \<and> leases r = leases s' \<and> n_leases r = n_leases s' \<and>
      transports r = transports s' \<and> n_transports r = n_transports s' \<and> d_current r = d_current s' \<and> panicked r = panicked s')"
  by (induction cs arbitrary: s') (auto simp: core_cancel_provisional Let_def)

lemma snapshot:
  obtains s1 ws where "cancel_snapshot s = (s1, ws)" "core s s1" "calls s1 = calls s" "d_retiring s1 = d_retiring s"
    "operationMu s1 = operationMu s" "constructionSeq s1 = constructionSeq s" "gens s1 = gens s" "n_gens s1 = n_gens s"
    "leases s1 = leases s" "n_leases s1 = n_leases s" "transports s1 = transports s" "n_transports s1 = n_transports s"
    "d_current s1 = d_current s" "panicked s1 = panicked s" "length ws \<le> length (constructions s)"
  using snapshot_fold [OF core_refl, of s "constructions s"] that by (auto simp: cancel_snapshot_def Let_def)

lemma factory_mode:
  assumes "mode_ok m s" and "calls s p = Building c"
  shows "\<exists>m. mode_ok m (factory_returns p c r s)"
proof -
  have m: "m = Build p c" using builds_mode [OF assms(1), of p c] assms(2) by auto
  then have op: "open_transports s = {}" using assms by auto
  have ho: "open_transports s1 \<subseteq> set_option t" "calls s1 = calls s" "d_current s1 = d_current s" "constructions s1 = constructions s"
     "cons_of s1 = cons_of s" if "hand_over x s = (s1, t)" for x s1 t
    using that op by (auto simp: hand_over_def open_transports_def split: option.splits if_splits)
  show ?thesis
  proof (cases r)
    case (FactoryFails e x)
    obtain s1 t where h: "hand_over x s = (s1, t)" by fastforce
    have "mode_ok (Build p c) (factory_returns p c r s)"
      using assms(1) m ho [OF h] by (cases t) (auto simp: factory_returns_def FactoryFails h bystander_def upd_defs open_transports_def)
    then show ?thesis ..
  next
    case (FactoryMakes x)
    obtain s1 t where h: "hand_over x s = (s1, t)" by fastforce
    have "mode_ok (Build p c) (factory_returns p c r s)"
      using assms(1) m ho [OF h] by (cases t) (auto simp: factory_returns_def FactoryMakes h bystander_def upd_defs open_transports_def)
    then show ?thesis ..
  qed
qed


lemma expire_mode:
  assumes "mode_ok m s" and "call_expire p s = Some s'"
  shows "\<exists>m. mode_ok m s'"
proof (cases "calls s p")
  case (RetireRequest t w)
  then show ?thesis using assms(2)
    by (intro retire_step [OF assms(1), of p w s' "calls s' p" t]) (auto simp: call_expire_def core_rules)
next
  case (RetireConfirm t w)
  then show ?thesis using assms(2)
    by (intro retire_step [OF assms(1), of p w s' "calls s' p" t]) (auto simp: call_expire_def core_rules)
next
  case (Draining g replace)
  then show ?thesis using assms(2)
    by (intro stopper_step [OF assms(1), of p g s' "calls s' p"]) (auto simp: call_expire_def core_rules)
next
  case (CancelWait cs replace)
  then show ?thesis using assms(2)
    by (intro bystander_step [OF assms(1), of p s' "CancelExpired"]) (auto simp: call_expire_def core_rules split: list.splits)
qed (use assms(2) in \<open>auto simp: call_expire_def\<close>)

lemma stop_or_replace_mode:
  assumes "mode_ok m s" and "resting (calls s p)"
  shows "\<exists>m. mode_ok m (stop_or_replace b p s)"
proof -
  have rest: "stops (calls s p) = None" "builds (calls s p) = None" using assms(2) by (cases "calls s p"; simp)+
  obtain s1 ws where sn: "cancel_snapshot s = (s1, ws)" "core s s1" "calls s1 = calls s" "d_retiring s1 = d_retiring s"
    by (rule snapshot [of s])
  then show ?thesis
    by (intro bystander_step [OF assms(1) rest, of _ "CancelWait ws b"]) (auto simp: stop_or_replace_def core_rules)
qed

text \<open>Every other event moves no call and keeps the core.\<close>

fun moves_call :: "driver_event \<Rightarrow> bool" where
  "moves_call (CallStart p) = True" | "moves_call (CallStop p) = True" | "moves_call (CallReplace p) = True"
| "moves_call (CallStep p) = True" | "moves_call (CallExpires p) = True" | "moves_call (FactoryReturns p r) = True"
| "moves_call _ = False"

lemmas lease_defs = Admit_def invoke_begin_def invoke_claim_def finish_active_def finish_flags_def Release_def
  releaseGeneration_def close_drained_def requestConstructionCancel_def cancel_provisional_def guarded_def

lemma other_events:
  assumes "\<not> moves_call e" and "driver_do e s = Some s'"
  shows "core s s'" "calls s' = calls s" "d_retiring s' = d_retiring s" "operationMu s' = operationMu s"
    "constructionSeq s' = constructionSeq s" "n_transports s' = n_transports s"
  using assms
  by (cases e; auto simp: lease_defs upd_defs core_def open_transports_def pending_def Let_def
      split: if_splits option.splits)+

lemma event_mode:
  assumes "mode_ok m s" and "mu_ok s" and "seq_ok s" and "driver_do e s = Some s'"
  shows "\<exists>m. mode_ok m s'"
proof (cases "moves_call e")
  case False
  then show ?thesis using unmoved_mode [OF assms(1)] other_events(1-3) [OF False assms(4)] by blast
next
  case True
  then show ?thesis using assms(4)
    by (cases e)
      (auto simp: guarded_def driver_Stop_def Replace_def split: if_splits point.splits
        intro: start_mode [OF assms(1,3)] stop_or_replace_mode [OF assms(1)] call_step_mode [OF assms(1-3)]
          expire_mode [OF assms(1)] factory_mode [OF assms(1)])
qed

section \<open>The operation mutex and the numbering\<close>

text \<open>What a call may do to the shared facts: only its own point moves, and \<open>operationMu\<close> is taken or given back.\<close>

lemma register_fields:
  "registerConstruction allow rel s = (s1, r) \<Longrightarrow>
     calls s1 = calls s \<and> operationMu s1 = operationMu s \<and> constructionSeq s \<le> constructionSeq s1 \<and>
     (\<forall>c. r = Registered c \<longrightarrow> c \<le> constructionSeq s1)"
  by (auto simp: registerConstruction_def Let_def split: if_splits)

lemma finish_fields [simp]:
  "calls (finishConstruction c s) = calls s" "operationMu (finishConstruction c s) = operationMu s"
  "constructionSeq (finishConstruction c s) = constructionSeq s"
  by (auto simp: finishConstruction_def close_done_def upd_defs Let_def)

lemma admit_fields:
  "admitConstruction c t s = (s1, r) \<Longrightarrow> calls s1 = calls s \<and> operationMu s1 = operationMu s \<and> constructionSeq s1 = constructionSeq s"
  by (auto simp: admitConstruction_def upd_defs Let_def split: if_splits)

lemma withdraw_fields:
  "stop_withdraw keep s = (s1, r) \<Longrightarrow> calls s1 = calls s \<and> operationMu s1 = operationMu s \<and> constructionSeq s1 = constructionSeq s"
  by (auto simp: stop_withdraw_def close_drained_def upd_defs Let_def split: if_splits option.splits)

lemma retire_cancel_fields2 [simp]:
  "operationMu (retire_cancel w s) = operationMu s" "constructionSeq (retire_cancel w s) = constructionSeq s"
  by (cases w; simp)+

lemma factory_fields:
  "\<exists>pt. calls (factory_returns p c r s) = (calls s)(p := pt) \<and> builds pt = Some c \<and> \<not> holds pt \<and>
     operationMu (factory_returns p c r s) = operationMu s \<and> constructionSeq (factory_returns p c r s) = constructionSeq s"
  by (cases r) (auto simp: factory_returns_def hand_over_def upd_defs split: option.splits prod.splits)


definition moved :: "nat \<Rightarrow> driver \<Rightarrow> driver \<Rightarrow> bool" where
  "moved p s s' \<longleftrightarrow> (\<exists>pt. calls s' = (calls s)(p := pt) \<and>
     (operationMu s' = operationMu s \<and> (holds pt \<longleftrightarrow> holds (calls s p)) \<or>
      operationMu s = None \<and> operationMu s' = Some p \<and> holds pt \<or>
      operationMu s' = None \<and> holds (calls s p) \<and> \<not> holds pt) \<and>
     constructionSeq s \<le> constructionSeq s' \<and>
     (\<forall>c. builds pt = Some c \<longrightarrow> builds (calls s p) = Some c \<or> c \<le> constructionSeq s'))"

lemma moved_goto:
  assumes "calls s1 = calls s" and "constructionSeq s \<le> constructionSeq s1"
    and "operationMu s1 = operationMu s \<and> (holds pt \<longleftrightarrow> holds (calls s p)) \<or>
      operationMu s = None \<and> operationMu s1 = Some p \<and> holds pt \<or> operationMu s1 = None \<and> holds (calls s p) \<and> \<not> holds pt"
    and "\<And>c. builds pt = Some c \<Longrightarrow> builds (calls s p) = Some c \<or> c \<le> constructionSeq s1"
  shows "moved p s (goto p pt s1)"
  using assms by (auto simp: moved_def)

lemma call_step_moved: "call_step p s = Some s' \<Longrightarrow> moved p s s'"
proof (cases "calls s p")
  case (Admitting c t)
  assume "call_step p s = Some s'"
  then show ?thesis using admit_fields [of c t s] Admitting
    by (auto simp: call_step_def split: prod.splits option.splits intro!: moved_goto)
next
  case (Withdrawing replace)
  assume "call_step p s = Some s'"
  then show ?thesis using withdraw_fields [of replace s] Withdrawing
    by (auto simp: call_step_def split: prod.splits withdrawal.splits intro!: moved_goto)
next
  case Reserving
  assume "call_step p s = Some s'"
  then show ?thesis using register_fields [of True True s] Reserving
    by (auto simp: call_step_def split: prod.splits registration.splits intro!: moved_goto)
qed (auto simp: call_step_def Let_def split: option.splits if_splits list.splits intro!: moved_goto)

lemma resting_holds: "resting pt \<Longrightarrow> \<not> holds pt"
  by (cases pt) simp_all

lemma snapshot_moved:
  assumes "resting (calls s p)"
  shows "moved p s (stop_or_replace b p s)"
proof -
  obtain s1 ws where "cancel_snapshot s = (s1, ws)" "calls s1 = calls s" "operationMu s1 = operationMu s"
    "constructionSeq s1 = constructionSeq s" by (rule snapshot [of s])
  then show ?thesis using resting_holds [OF assms] by (auto simp: stop_or_replace_def intro!: moved_goto)
qed

fun mover :: "driver_event \<Rightarrow> nat" where
  "mover (CallStart p) = p" | "mover (CallStop p) = p" | "mover (CallReplace p) = p"
| "mover (CallStep p) = p" | "mover (CallExpires p) = p" | "mover (FactoryReturns p r) = p" | "mover _ = 0"

lemma event_moved: "driver_do e s = Some s' \<Longrightarrow> moves_call e \<Longrightarrow> moved (mover e) s s'"
proof (cases e)
  case (CallStart p)
  assume "driver_do e s = Some s'"
  then show ?thesis using register_fields [of False False s] CallStart resting_holds [of "calls s p"]
    by (auto simp: guarded_def Start_def split: if_splits prod.splits registration.splits intro!: moved_goto)
next
  case (CallStop p)
  assume "driver_do e s = Some s'"
  then show ?thesis using CallStop snapshot_moved [of s p] by (auto simp: guarded_def driver_Stop_def split: if_splits)
next
  case (CallReplace p)
  assume "driver_do e s = Some s'"
  then show ?thesis using CallReplace snapshot_moved [of s p] by (auto simp: guarded_def Replace_def split: if_splits)
next
  case (CallStep p)
  assume "driver_do e s = Some s'"
  then show ?thesis using CallStep call_step_moved by auto
next
  case (CallExpires p)
  assume "driver_do e s = Some s'"
  then show ?thesis using CallExpires
    by (auto simp: call_expire_def split: point.splits list.splits intro!: moved_goto)
next
  case (FactoryReturns p r)
  assume "driver_do e s = Some s'"
  then obtain c where c: "calls s p = Building c" "s' = factory_returns p c r s"
    using FactoryReturns by (auto split: point.splits)
  obtain pt where "calls s' = (calls s)(p := pt)" "builds pt = Some c" "\<not> holds pt"
     "operationMu s' = operationMu s" "constructionSeq s' = constructionSeq s"
    using factory_fields [of p c r s] c(2) by blast
  then have "moved p s s'" using c(1) unfolding moved_def by (intro exI [of _ pt]) simp
  then show ?thesis using FactoryReturns by simp
qed auto

lemma event_shared:
  assumes "mu_ok s" and "seq_ok s" and "driver_do e s = Some s'"
  shows "mu_ok s' \<and> seq_ok s'"
proof (cases "moves_call e")
  case False
  then show ?thesis using assms other_events [OF False assms(3)] by (simp add: mu_ok_def seq_ok_def)
next
  case True
  define p where "p = mover e"
  have "moved p s s'" using event_moved [OF assms(3) True] by (simp add: p_def)
  then obtain pt where pt: "calls s' = (calls s)(p := pt)"
    "operationMu s' = operationMu s \<and> (holds pt \<longleftrightarrow> holds (calls s p)) \<or>
      operationMu s = None \<and> operationMu s' = Some p \<and> holds pt \<or> operationMu s' = None \<and> holds (calls s p) \<and> \<not> holds pt"
    "constructionSeq s \<le> constructionSeq s'"
    "\<forall>c. builds pt = Some c \<longrightarrow> builds (calls s p) = Some c \<or> c \<le> constructionSeq s'"
    by (auto simp: moved_def)
  have "holds (calls s' q) \<longleftrightarrow> operationMu s' = Some q" for q
  proof -
    have "holds (calls s q) \<longleftrightarrow> operationMu s = Some q" "holds (calls s p) \<longleftrightarrow> operationMu s = Some p"
      using assms(1) by (simp_all add: mu_ok_def)
    then show ?thesis using pt(1,2) by (cases "q = p") auto
  qed
  moreover have "c \<le> constructionSeq s'" if "builds (calls s' q) = Some c" for q c
  proof -
    have "builds (calls s q) = Some c \<or> c \<le> constructionSeq s'" using pt(1,4) that by (cases "q = p") auto
    then show ?thesis using assms(2) pt(3) by (auto simp: seq_ok_def intro: order_trans)
  qed
  ultimately show ?thesis by (auto simp: mu_ok_def seq_ok_def)
qed

lemma new_fields: "d_current (NewDriverRuntime nil) = None" "constructions (NewDriverRuntime nil) = []"
  by (simp_all add: NewDriverRuntime_def)

lemma reachable_mode:
  "driver_reachable s \<Longrightarrow> mu_ok s \<and> seq_ok s \<and> (\<exists>m. mode_ok m s)"
proof (induction rule: driver_reachable.induct)
  case (driver_new nil)
  have "bystander (NewDriverRuntime nil) q" for q by (simp add: NewDriverRuntime_def bystander_def)
  then have "\<forall>q. bystander (NewDriverRuntime nil) q" by blast
  moreover have "open_transports (NewDriverRuntime nil) = {}" by (simp add: NewDriverRuntime_def open_transports_def)
  ultimately have "mode_ok Quiet (NewDriverRuntime nil)" using new_fields by simp
  moreover have "mu_ok (NewDriverRuntime nil)" "seq_ok (NewDriverRuntime nil)"
    by (simp_all add: mu_ok_def seq_ok_def NewDriverRuntime_def)
  ultimately show ?case by blast
next
  case (driver_event s e s')
  then show ?case using event_mode [of _ s e s'] event_shared [of s e s'] by blast
qed

text \<open>
  C9: Under every interleaving of Start, Stop, Replace, their timers, cancellations, leases and adapter
  workers, at most one transport a factory has handed over is not proven closed, and while a factory runs there
  is none: the runtime never creates a second owner of the bus.
\<close>

theorem single_live_transport:
  assumes "driver_reachable s"
  shows "(\<forall>t t'. t \<in> open_transports s \<and> t' \<in> open_transports s \<longrightarrow> t = t') \<and>
    (\<forall>p c. calls s p = Building c \<longrightarrow> open_transports s = {})"
proof -
  obtain m where m: "mode_ok m s" using reachable_mode [OF assms] by blast
  have "\<exists>t. open_transports s \<subseteq> {t}"
  proof (cases m)
    case (Build p c)
    then show ?thesis using m by (cases "carries (calls s p)") auto
  qed (use m in auto)
  moreover have "open_transports s = {}" if "calls s p = Building c" for p c
    using builds_mode [OF m, of p c] that m by auto
  ultimately show ?thesis by blast
qed


text \<open>A run that starts a generation, takes a lease, and stops it while the callback is still running.\<close>

definition run_driver :: "driver_event list \<Rightarrow> driver \<Rightarrow> driver option" where
  "run_driver es s = foldl (\<lambda>s e. Option.bind s (driver_do e)) (Some s) es"

lemma run_driver_reachable:
  assumes "driver_reachable s" and "run_driver es s = Some s'"
  shows "driver_reachable s'"
  using assms
proof (induction es arbitrary: s)
  case Nil
  then show ?case by (simp add: run_driver_def)
next
  case (Cons e es)
  have none: "foldl (\<lambda>s e. Option.bind s (driver_do e)) None es = None" by (induction es) auto
  obtain s1 where "driver_do e s = Some s1" "run_driver es s1 = Some s'"
    using Cons.prems(2) none by (cases "driver_do e s") (auto simp: run_driver_def)
  then show ?case using Cons driver_reachable.driver_event by blast
qed

definition demo_events :: "driver_event list" where
  "demo_events = [CallStart 0, CallStep 0, FactoryReturns 0 (FactoryMakes (Some (True, False))), CallStep 0, CallStep 0,
     EvAdmit, EvInvoke 0, EvClaim 0, CallStop 1, CallStep 1, CallStep 1, CallStep 1, CallExpires 1]"

lemma demo_run:
  "case run_driver demo_events (NewDriverRuntime False) of None \<Rightarrow> False
   | Some s \<Rightarrow> ls_point (leases s 0) = InCallback \<and> n_leases s = 1 \<and> calls s 1 = DrainExpired 0 False \<and> calls s 0 = Returned (Inr 1) \<and>
       open_transports s = {0}"
  unfolding demo_events_def run_driver_def
  by (simp add: NewDriverRuntime_def Start_def registerConstruction_def guarded_def call_step_def start_check_def factory_returns_def
      hand_over_def managed_of_def validManagedTransport_def admitConstruction_def finishConstruction_def Admit_def invoke_begin_def
      invoke_claim_def driver_Stop_def stop_or_replace_def cancel_snapshot_def stop_withdraw_def call_expire_def upd_defs
      open_transports_def)

theorem single_live_transport_witness:
  "\<exists>s. run_driver demo_events (NewDriverRuntime False) = Some s \<and> 0 \<in> open_transports s \<and>
     (\<forall>t. t \<in> open_transports s \<longrightarrow> t = 0)"
proof -
  obtain s where s: "run_driver demo_events (NewDriverRuntime False) = Some s" "open_transports s = {0}"
    using demo_run by (cases "run_driver demo_events (NewDriverRuntime False)") auto
  have "driver_reachable s" using run_driver_reachable [OF driver_new s(1)] .
  then show ?thesis using single_live_transport [of s] s by blast
qed



section \<open>Every call returns\<close>

definition stop_rank :: "retire_for \<Rightarrow> nat" where
  "stop_rank w = (if retire_stops w = None then 0 else 10)"

text \<open>An upper bound on the steps a call still has to make from a point.\<close>

fun rank :: "point \<Rightarrow> nat" where
  "rank Idle = 0" | "rank (Returned r) = 0" | "rank (Finishing c r) = 1" | "rank (Unlocking r) = 1" | "rank CancelExpired = 1"
| "rank (Rechecking c) = 2" | "rank (Rejecting c t) = 2" | "rank (ReplaceReleasing e) = 2" | "rank (ReplaceFailed e) = 3"
| "rank (RetireFailed t w) = 2 + stop_rank w" | "rank (RetireConfirm t w) = 3 + stop_rank w"
| "rank (RetireRequest t w) = 4 + stop_rank w" | "rank (RetireStart t w) = 5 + stop_rank w"
| "rank (Admitting c t) = 6" | "rank (Building c) = 7" | "rank (Starting c) = 8" | "rank (Reserved c) = 9"
| "rank Reserving = 10" | "rank (Stopped timedOut replace) = 11" | "rank (StopQuarantining g b) = 15"
| "rank (DrainExpired g b) = 16" | "rank (Draining g b) = 17" | "rank (Withdrawing b) = 18" | "rank (Locking b) = 19"
| "rank (CancelWait cs b) = 20 + length cs"

lemma rank_simps [simp]:
  "rank (retired w) \<le> 2 + (if retire_stops w = None then 0 else 9)" "rank (not_retired w) \<le> (if retire_stops w = None then 1 else 3)"
  "rank (stop_result b e) \<le> 10"
  by (cases w; auto simp: stop_result_def split: option.splits)+

lemma stop_result_rank: "10 < n \<Longrightarrow> rank (stop_result b e) < n"
  by (rule le_less_trans [OF rank_simps(3)])

text \<open>The events of a call itself.\<close>

fun own :: "nat \<Rightarrow> driver_event \<Rightarrow> bool" where
  "own p (CallStep q) \<longleftrightarrow> q = p" | "own p (CallExpires q) \<longleftrightarrow> q = p" | "own p (FactoryReturns q r) \<longleftrightarrow> q = p"
| "own p _ \<longleftrightarrow> False"

lemma call_step_rank: "call_step p s = Some s' \<Longrightarrow> rank (calls s' p) < rank (calls s p)"
proof (cases "calls s p")
  case (RetireConfirm t w)
  assume "call_step p s = Some s'"
  then show ?thesis using RetireConfirm rank_simps(1) [of w]
    by (auto simp: call_step_def stop_rank_def split: if_splits intro: le_less_trans)
next
  case (RetireFailed t w)
  assume "call_step p s = Some s'"
  then show ?thesis using RetireFailed le_less_trans [OF rank_simps(2) [of w]]
    by (auto simp: call_step_def stop_rank_def split: if_splits)
next
  case (Withdrawing b)
  assume "call_step p s = Some s'"
  then show ?thesis using Withdrawing
    by (auto simp: call_step_def stop_result_rank split: prod.splits withdrawal.splits)
next
  case (Stopped b b')
  assume "call_step p s = Some s'"
  then show ?thesis using Stopped by (auto simp: call_step_def stop_result_rank)
next
  case (StopQuarantining g b)
  assume "call_step p s = Some s'"
  then show ?thesis using StopQuarantining by (auto simp: call_step_def stop_result_rank)
qed (auto simp: call_step_def stop_rank_def Let_def split: option.splits prod.splits if_splits list.splits registration.splits)

lemma own_rank: "own p e \<Longrightarrow> driver_do e s = Some s' \<Longrightarrow> rank (calls s' p) < rank (calls s p)"
  by (cases e)
    (auto simp: call_step_rank call_expire_def factory_returns_def stop_rank_def
      split: point.splits list.splits factory_result.splits prod.splits option.splits if_splits)

lemma unowned:
  assumes "\<not> own p e" and "driver_do e s = Some s'" and "\<not> resting (calls s p)"
  shows "calls s' p = calls s p"
proof (cases "moves_call e")
  case False
  then show ?thesis using other_events(2) [OF False assms(2)] by simp
next
  case True
  have "mover e \<noteq> p" using assms True by (cases e) (auto simp: guarded_def split: if_splits)
  then show ?thesis using event_moved [OF assms(2) True] by (auto simp: moved_def)
qed


lemma rank_bound: "driver_reachable s \<Longrightarrow> rank (calls s p) \<le> 21"
proof (induction arbitrary: p rule: driver_reachable.induct)
  case (driver_new nil)
  then show ?case by (simp add: NewDriverRuntime_def)
next
  case (driver_event s e s')
  show ?case
  proof (cases "resting (calls s p) \<and> mover e = p \<and> moves_call e")
    case True
    obtain m where m: "mode_ok m s" using reachable_mode [OF driver_event.hyps(1)] by blast
    have len: "length (constructions s) \<le> 1" using m by (cases m) auto
    obtain s1 ws where "cancel_snapshot s = (s1, ws)" "length ws \<le> length (constructions s)" by (rule snapshot [of s])
    then have "rank (calls (stop_or_replace b p s) p) \<le> 21" for b using len by (simp add: stop_or_replace_def)
    moreover have "rank (calls (Start p s) p) \<le> 21"
      by (auto simp: Start_def split: prod.splits registration.splits)
    ultimately show ?thesis
      using True driver_event.hyps(2) own_rank [of p e s s'] driver_event.IH [of p]
      by (cases e) (auto simp: guarded_def driver_Stop_def Replace_def split: if_splits)
  next
    case False
    show ?thesis
    proof (cases "own p e")
      case True
      then show ?thesis using own_rank [OF True driver_event.hyps(2)] driver_event.IH [of p] by simp
    next
      case noto: False
      have "calls s' p = calls s p"
      proof (cases "resting (calls s p)")
        case True
        then show ?thesis using False other_events(2) [of e s s'] event_moved [of e s s'] driver_event.hyps(2)
          by (cases "moves_call e") (auto simp: moved_def)
      next
        case False
        then show ?thesis using unowned [OF noto driver_event.hyps(2)] by simp
      qed
      then show ?thesis using driver_event.IH [of p] by simp
    qed
  qed
qed

definition can_move :: "nat \<Rightarrow> driver \<Rightarrow> bool" where
  "can_move p s \<longleftrightarrow> call_step p s \<noteq> None \<or> call_expire p s \<noteq> None"

lemma not_stuck:
  "\<not> resting (calls s p) \<Longrightarrow> can_move p s \<or> (\<exists>c. calls s p = Building c) \<or> (\<exists>b. calls s p = Locking b \<and> operationMu s \<noteq> None)"
  by (cases "calls s p") (auto simp: can_move_def call_step_def call_expire_def Let_def split: list.splits option.splits)

text \<open>
  C11: Start, Stop and Replace return after at most 21 of their own steps, which no other call can undo.
  A call that has not returned can always make a step, except while its own factory runs or while it waits for
  \<open>operationMu\<close>, whose holder can make a step itself and is not inside a factory: no call ever waits for the
  factory of another beyond its timer.
\<close>

theorem driver_calls_return:
  assumes "driver_reachable s"
  shows "rank (calls s p) \<le> 21 \<and>
    (\<forall>e s'. driver_do e s = Some s' \<and> own p e \<longrightarrow> rank (calls s' p) < rank (calls s p)) \<and>
    (\<forall>e s'. driver_do e s = Some s' \<and> \<not> own p e \<and> \<not> resting (calls s p) \<longrightarrow> calls s' p = calls s p) \<and>
    (\<not> resting (calls s p) \<longrightarrow> can_move p s \<or> (\<exists>c. calls s p = Building c) \<or>
       (\<exists>b q. calls s p = Locking b \<and> operationMu s = Some q \<and> can_move q s \<and> (\<forall>c. calls s q \<noteq> Building c)))"
proof -
  have mu: "mu_ok s" using reachable_mode [OF assms] by blast
  have "\<exists>b q. calls s p = Locking b \<and> operationMu s = Some q \<and> can_move q s \<and> (\<forall>c. calls s q \<noteq> Building c)"
    if w: "calls s p = Locking b" "operationMu s \<noteq> None" for b
  proof -
    obtain q where q: "operationMu s = Some q" using w(2) by auto
    then have h: "holds (calls s q)" using mu by (simp add: mu_ok_def)
    then have "\<not> resting (calls s q)" using resting_holds by blast
    then have "can_move q s" using not_stuck [of s q] h by auto
    then show ?thesis using w(1) q h by auto
  qed
  then show ?thesis using rank_bound [OF assms, of p] own_rank unowned not_stuck [of s p] by blast
qed

theorem driver_calls_return_witness:
  "\<exists>s. run_driver demo_events (NewDriverRuntime False) = Some s \<and> \<not> resting (calls s 1) \<and> rank (calls s 1) \<le> 21 \<and> can_move 1 s"
proof -
  obtain s where s: "run_driver demo_events (NewDriverRuntime False) = Some s" "calls s 1 = DrainExpired 0 False"
    using demo_run by (cases "run_driver demo_events (NewDriverRuntime False)") auto
  have "driver_reachable s" using run_driver_reachable [OF driver_new s(1)] .
  then show ?thesis using driver_calls_return [of s 1] s by auto
qed


text \<open>
  A worker that has closed its transport before the runtime asks leaves no way to retire it cleanly: the proof of
  closing is there, yet the runtime is quarantined.
\<close>

lemma closed_transport_quarantines:
  assumes "calls s p = RetireStart t w" and "t_closed (transports s t)"
  shows "\<exists>s1 s2. call_step p s = Some s1 \<and> call_step p s1 = Some s2 \<and> d_quarantined s2 \<and> calls s2 p = not_retired w"
  using assms by (auto simp: call_step_def validManagedTransport_def Let_def)

end
