(* ===== verification/Driver_Leases.thy ===== *)
theory Driver_Leases
  imports Driver_Safety
begin

text \<open>
  Leases of the driver runtime: the counters of a generation count its leases, a drained generation has none,
  no channel is closed twice, each transport is asked to close at most once, and never under a running callback.
\<close>

section \<open>Counting\<close>

definition tally :: "('a \<Rightarrow> bool) \<Rightarrow> (nat \<Rightarrow> 'a) \<Rightarrow> nat \<Rightarrow> int" where
  "tally P f n = (\<Sum>i<n. if P (f i) then 1 else 0)"

lemma tally_0 [simp]: "tally P f 0 = 0" by (simp add: tally_def)

lemma tally_new: "tally P (f(n := x)) (Suc n) = tally P f n + (if P x then 1 else 0)"
proof -
  have "(\<Sum>i<n. if P ((f(n := x)) i) then 1 else (0::int)) = (\<Sum>i<n. if P (f i) then 1 else 0)" by (rule sum.cong) auto
  then show ?thesis by (simp add: tally_def)
qed

lemma tally_upd:
  assumes "l < n"
  shows "tally P (f(l := x)) n = tally P f n - (if P (f l) then 1 else 0) + (if P x then 1 else 0)"
proof -
  have split: "(\<Sum>i<n. h i) = h l + (\<Sum>i\<in>{..<n} - {l}. h i)" for h :: "nat \<Rightarrow> int"
    using assms by (simp add: sum.remove)
  have "(\<Sum>i\<in>{..<n} - {l}. if P ((f(l := x)) i) then 1 else (0::int)) = (\<Sum>i\<in>{..<n} - {l}. if P (f i) then 1 else 0)"
    by (rule sum.cong) auto
  then show ?thesis
    unfolding tally_def split [of "\<lambda>i. if P ((f(l := x)) i) then 1 else 0"] split [of "\<lambda>i. if P (f i) then 1 else 0"] by simp
qed

lemma tally_nonneg: "0 \<le> tally P f n" unfolding tally_def by (rule sum_nonneg) auto

lemma tally_zero: "tally P f n = 0 \<longleftrightarrow> (\<forall>i<n. \<not> P (f i))"
  unfolding tally_def by (subst sum_nonneg_eq_0_iff) auto

section \<open>The invariant of leases and generations\<close>

definition outstanding :: "nat \<Rightarrow> lease \<Rightarrow> bool" where
  "outstanding g l \<longleftrightarrow> ls_generation l = g \<and> (\<not> ls_released l \<or> ls_returning l)"

definition in_callback :: "nat \<Rightarrow> lease \<Rightarrow> bool" where
  "in_callback g l \<longleftrightarrow> ls_generation l = g \<and> ls_point l \<in> {InCallback, CallbackReturned}"

definition flags_ok :: "lease \<Rightarrow> bool" where
  "flags_ok l \<longleftrightarrow> (ls_invoking l \<longleftrightarrow> ls_point l \<in> {Claiming, InCallback, CallbackReturned, InvokeEnding}) \<and>
     (ls_released l \<longrightarrow> \<not> ls_invoking l) \<and> (ls_returning l \<longrightarrow> ls_released l) \<and> (\<not> ls_invoked l \<longrightarrow> ls_point l = NotInvoked)"

definition gen_ok :: "driver \<Rightarrow> nat \<Rightarrow> bool" where
  "gen_ok s g \<longleftrightarrow>
     gn_inFlight (gens s g) = tally (outstanding g) (leases s) (n_leases s) \<and>
     gn_activeCallbacks (gens s g) = tally (in_callback g) (leases s) (n_leases s) \<and>
     (gn_accepting (gens s g) \<longleftrightarrow> d_current s = Some g) \<and>
     (gn_drained (gens s g) \<longleftrightarrow> \<not> gn_accepting (gens s g) \<and> gn_inFlight (gens s g) = 0)"

definition lease_ok :: "driver \<Rightarrow> nat \<Rightarrow> bool" where
  "lease_ok s l \<longleftrightarrow> ls_generation (leases s l) < n_gens s \<and> flags_ok (leases s l)"

definition lease_inv :: "driver \<Rightarrow> bool" where
  "lease_inv s \<longleftrightarrow> (\<forall>g<n_gens s. gen_ok s g) \<and> (\<forall>l<n_leases s. lease_ok s l) \<and>
     (\<forall>g. d_current s = Some g \<longrightarrow> g < n_gens s) \<and> \<not> panicked s"

lemma in_callback_outstanding: "flags_ok l \<Longrightarrow> in_callback g l \<Longrightarrow> outstanding g l"
  by (auto simp: flags_ok_def in_callback_def outstanding_def)

lemma drained_no_callback:
  assumes "lease_inv s" and "g < n_gens s" and "gn_drained (gens s g)"
  shows "gn_activeCallbacks (gens s g) = 0"
proof -
  have g: "tally (outstanding g) (leases s) (n_leases s) = 0"
    "gn_activeCallbacks (gens s g) = tally (in_callback g) (leases s) (n_leases s)"
    using assms by (simp_all add: lease_inv_def gen_ok_def)
  have "\<not> in_callback g (leases s l)" if "l < n_leases s" for l
    using g(1) that assms(1) in_callback_outstanding [of "leases s l" g]
    by (auto simp: tally_zero lease_inv_def lease_ok_def)
  then show ?thesis using g(2) by (simp add: tally_zero)
qed

text \<open>A step on one lease and its generation: the counters must follow the lease.\<close>

lemma lease_step:
  assumes inv: "lease_inv s" and l: "l < n_leases s" and g: "g = ls_generation (leases s l)"
    and "ls_generation x = g" and "flags_ok x"
    and "gn_accepting y = gn_accepting (gens s g)"
    and "gn_inFlight y = gn_inFlight (gens s g) - (if outstanding g (leases s l) then 1 else 0) + (if outstanding g x then 1 else 0)"
    and "gn_activeCallbacks y = gn_activeCallbacks (gens s g) - (if in_callback g (leases s l) then 1 else 0) + (if in_callback g x then 1 else 0)"
    and "gn_drained y \<longleftrightarrow> \<not> gn_accepting y \<and> gn_inFlight y = 0"
  shows "lease_inv (s\<lparr>leases := (leases s)(l := x), gens := (gens s)(g := y)\<rparr>)"
proof -
  let ?s = "s\<lparr>leases := (leases s)(l := x), gens := (gens s)(g := y)\<rparr>"
  have "gen_ok ?s h" if h: "h < n_gens s" for h
  proof (cases "h = g")
    case True
    have "gen_ok s g" using inv h True by (simp add: lease_inv_def)
    then show ?thesis using assms True by (simp add: gen_ok_def tally_upd)
  next
    case False
    have "\<not> outstanding h x" "\<not> in_callback h x" "\<not> outstanding h (leases s l)" "\<not> in_callback h (leases s l)"
      using False assms(3,4) by (auto simp: outstanding_def in_callback_def)
    moreover have "gen_ok s h" using inv h by (simp add: lease_inv_def)
    ultimately show ?thesis using False l by (simp add: gen_ok_def tally_upd)
  qed
  moreover have "lease_ok ?s k" if "k < n_leases s" for k
    using inv that l g assms(4,5) by (cases "k = l") (auto simp: lease_inv_def lease_ok_def)
  ultimately show ?thesis using inv by (simp add: lease_inv_def)
qed


lemma gens_leases: "(s::driver)\<lparr>gens := b, leases := a\<rparr> = s\<lparr>leases := a, gens := b\<rparr>"
  by simp

text \<open>A step on a lease alone.\<close>

lemma lease_step_only:
  assumes inv: "lease_inv s" and l: "l < n_leases s"
    and "ls_generation x = ls_generation (leases s l)" and "flags_ok x"
    and "outstanding (ls_generation x) x = outstanding (ls_generation x) (leases s l)"
    and "in_callback (ls_generation x) x = in_callback (ls_generation x) (leases s l)"
  shows "lease_inv (s\<lparr>leases := (leases s)(l := x)\<rparr>)"
proof -
  let ?g = "ls_generation (leases s l)"
  have "gen_ok s ?g" using inv l by (simp add: lease_inv_def lease_ok_def)
  then have "lease_inv (s\<lparr>leases := (leases s)(l := x), gens := (gens s)(?g := gens s ?g)\<rparr>)"
    using assms by (intro lease_step [OF inv l]) (simp_all add: gen_ok_def)
  then show ?thesis by simp
qed

lemma lease_inv_same:
  assumes "lease_inv s" and "leases s' = leases s" and "n_leases s' = n_leases s" and "gens s' = gens s" and "n_gens s' = n_gens s"
    and "d_current s' = d_current s" and "panicked s' = panicked s"
  shows "lease_inv s'"
  using assms by (simp add: lease_inv_def gen_ok_def lease_ok_def)

lemma admit_lease:
  assumes "lease_inv s"
  shows "lease_inv (fst (Admit s))"
proof (cases "fst (Admit s) = s")
  case False
  then obtain g where g: "d_current s = Some g" "gn_accepting (gens s g)"
    by (auto simp: Admit_def split: if_splits option.splits)
  let ?x = "\<lparr>ls_generation = g, ls_id = d_generation s, ls_invoked = False, ls_invoking = False,
    ls_released = False, ls_releasePending = False, ls_point = NotInvoked, ls_returning = False\<rparr>"
  have s': "fst (Admit s) = s\<lparr>gens := (gens s)(g := (gens s g)\<lparr>gn_inFlight := gn_inFlight (gens s g) + 1\<rparr>),
      leases := (leases s)(n_leases s := ?x), n_leases := Suc (n_leases s)\<rparr>" (is "_ = ?s")
    using False g by (auto simp: Admit_def upd_defs Let_def split: if_splits)
  have "gen_ok ?s h" if "h < n_gens s" for h
    using assms that g tally_nonneg [of "outstanding g" "leases s" "n_leases s"]
    by (cases "h = g") (auto simp: lease_inv_def gen_ok_def tally_new outstanding_def in_callback_def)
  moreover have "flags_ok ?x" by (simp add: flags_ok_def)
  then have "lease_ok ?s k" if "k < Suc (n_leases s)" for k
    using assms that g by (cases "k = n_leases s") (auto simp: lease_inv_def lease_ok_def)
  ultimately show ?thesis using assms by (simp add: s' lease_inv_def)
qed (use assms in simp)

lemma releaseGeneration_lease:
  assumes "lease_inv s" and l: "l < n_leases s" and ret: "ls_returning (leases s l)"
  shows "lease_inv (releaseGeneration l s)"
proof -
  let ?g = "ls_generation (leases s l)" and ?x = "(leases s l)\<lparr>ls_returning := False\<rparr>"
  let ?y1 = "(gens s ?g)\<lparr>gn_inFlight := gn_inFlight (gens s ?g) - 1\<rparr>"
  let ?y = "if gn_inFlight (gens s ?g) = 1 \<and> \<not> gn_accepting (gens s ?g) then ?y1\<lparr>gn_drained := True\<rparr> else ?y1"
  have g: "gen_ok s ?g" "flags_ok (leases s l)" using assms by (simp_all add: lease_inv_def lease_ok_def)
  have "outstanding ?g (leases s l)" using ret by (simp add: outstanding_def)
  then have "tally (outstanding ?g) (leases s) (n_leases s) \<noteq> 0" using l by (auto simp: tally_zero)
  then have pos: "gn_inFlight (gens s ?g) > 0" and nd: "\<not> gn_drained (gens s ?g)"
    using g(1) tally_nonneg [of "outstanding ?g" "leases s" "n_leases s"] by (auto simp: gen_ok_def)
  have "releaseGeneration l s = s\<lparr>leases := (leases s)(l := ?x), gens := (gens s)(?g := ?y)\<rparr>"
    using pos nd by (auto simp: releaseGeneration_def close_drained_def upd_defs Let_def)
  moreover have "lease_inv (s\<lparr>leases := (leases s)(l := ?x), gens := (gens s)(?g := ?y)\<rparr>)"
    using g ret pos nd by (intro lease_step [OF assms(1) l]) (auto simp: flags_ok_def outstanding_def in_callback_def gen_ok_def)
  ultimately show ?thesis by simp
qed

lemma claim_lease:
  assumes "lease_inv s" and l: "l < n_leases s" and pt: "ls_point (leases s l) = Claiming"
  shows "lease_inv (invoke_claim l s)"
proof -
  let ?g = "ls_generation (leases s l)"
  have g: "gen_ok s ?g" "flags_ok (leases s l)" using assms by (simp_all add: lease_inv_def lease_ok_def)
  have "lease_inv (s\<lparr>leases := (leases s)(l := (leases s l)\<lparr>ls_point := InCallback\<rparr>),
      gens := (gens s)(?g := (gens s ?g)\<lparr>gn_activeCallbacks := gn_activeCallbacks (gens s ?g) + 1\<rparr>)\<rparr>)"
    using g pt by (intro lease_step [OF assms(1) l]) (auto simp: flags_ok_def outstanding_def in_callback_def gen_ok_def)
  moreover have "lease_inv (s\<lparr>leases := (leases s)(l := (leases s l)\<lparr>ls_point := InvokeEnding\<rparr>)\<rparr>)"
    using g pt by (intro lease_step_only [OF assms(1) l]) (auto simp: flags_ok_def outstanding_def in_callback_def)
  ultimately show ?thesis by (simp add: invoke_claim_def upd_defs Let_def gens_leases)
qed

lemma finish_active_lease:
  assumes "lease_inv s" and l: "l < n_leases s" and pt: "ls_point (leases s l) = CallbackReturned"
  shows "lease_inv (finish_active l s)"
proof -
  let ?g = "ls_generation (leases s l)"
  have g: "gen_ok s ?g" "flags_ok (leases s l)" using assms by (simp_all add: lease_inv_def lease_ok_def)
  have "lease_inv (s\<lparr>leases := (leases s)(l := (leases s l)\<lparr>ls_point := InvokeEnding\<rparr>),
      gens := (gens s)(?g := (gens s ?g)\<lparr>gn_activeCallbacks := gn_activeCallbacks (gens s ?g) - 1\<rparr>)\<rparr>)"
    using g pt by (intro lease_step [OF assms(1) l]) (auto simp: flags_ok_def outstanding_def in_callback_def gen_ok_def)
  then show ?thesis by (simp add: finish_active_def upd_defs gens_leases)
qed

lemma other_events_lease:
  assumes "\<not> moves_call e" and "driver_do e s = Some s'" and inv: "lease_inv s"
  shows "lease_inv s'"
proof -
  have fl: "flags_ok (leases s l)" if "l < n_leases s" for l using inv that by (simp add: lease_inv_def lease_ok_def)
  have upd: "lease_inv (s\<lparr>leases := (leases s)(l := f (leases s l))\<rparr>)"
    if "l < n_leases s" and "ls_generation (f (leases s l)) = ls_generation (leases s l)" "flags_ok (f (leases s l))"
      "ls_released (f (leases s l)) \<and> \<not> ls_returning (f (leases s l)) \<longleftrightarrow> ls_released (leases s l) \<and> \<not> ls_returning (leases s l)"
      "ls_point (f (leases s l)) \<in> {InCallback, CallbackReturned} \<longleftrightarrow> ls_point (leases s l) \<in> {InCallback, CallbackReturned}" for f l
    using that by (intro lease_step_only [OF inv]) (auto simp: outstanding_def in_callback_def)
  show ?thesis
proof (cases e)
  case (EvInvoke l)
  then show ?thesis using assms(2) inv fl [of l]
    by (auto simp: guarded_def invoke_begin_def upd_lease_def flags_ok_def split: if_splits intro!: upd)
next
  case (EvCallbackReturns l)
  then show ?thesis using assms(2) inv fl [of l]
    by (auto simp: guarded_def upd_lease_def flags_ok_def split: if_splits intro!: upd)
next
  case (EvFinishFlags l)
  then show ?thesis using assms(2) inv fl [of l]
    by (auto simp: guarded_def finish_flags_def upd_lease_def flags_ok_def Let_def split: if_splits intro!: upd)
next
  case (EvRelease l)
  then show ?thesis using assms(2) inv fl [of l]
    by (auto simp: guarded_def Release_def upd_lease_def flags_ok_def split: if_splits intro!: upd)
next
  case (EvReleaseGeneration l)
  then show ?thesis using assms(2) releaseGeneration_lease [OF inv] by (auto simp: guarded_def split: if_splits)
next
  case (EvClaim l)
  then show ?thesis using assms(2) claim_lease [OF inv] by (auto simp: guarded_def split: if_splits)
next
  case (EvFinishActive l)
  then show ?thesis using assms(2) finish_active_lease [OF inv] by (auto simp: guarded_def split: if_splits)
next
  case EvAdmit
  then show ?thesis using assms(2) admit_lease [OF inv] by auto
qed (use assms in \<open>auto simp: guarded_def requestConstructionCancel_def cancel_provisional_def upd_defs split: if_splits intro!: lease_inv_same [OF inv]\<close>)
qed


section \<open>Calls keep the invariant\<close>

definition same_leases :: "driver \<Rightarrow> driver \<Rightarrow> bool" where
  "same_leases s s' \<longleftrightarrow> leases s' = leases s \<and> n_leases s' = n_leases s \<and> gens s' = gens s \<and> n_gens s' = n_gens s \<and>
     d_current s' = d_current s \<and> panicked s' = panicked s"

lemma same_leases_simps [simp]:
  "same_leases s s" "same_leases s (goto p pt s') = same_leases s s'" "same_leases s (runtimeCancel c s') = same_leases s s'"
  "same_leases s (driver_quarantine s') = same_leases s s'" "same_leases s (s'\<lparr>d_retiring := b\<rparr>) = same_leases s s'"
  "same_leases s (s'\<lparr>operationMu := mu\<rparr>) = same_leases s s'" "same_leases s (upd_transport t f s') = same_leases s s'"
  "same_leases s (retire_cancel w s') = same_leases s s'"
  by (auto simp: same_leases_def upd_defs) (cases w; auto simp: upd_defs)+

lemma register_same: "registerConstruction a b s = (s1, r) \<Longrightarrow> same_leases s s1"
  by (auto simp: registerConstruction_def same_leases_def Let_def split: if_splits)

lemma finish_same:
  assumes "mode_ok m s" and "calls s p = Finishing c r"
  shows "same_leases s (finishConstruction c s)"
  using builds_mode [OF assms(1), of p c] assms
  by (auto simp: finishConstruction_def close_done_def same_leases_def upd_defs Let_def)

lemma step_same:
  assumes "mode_ok m s" and "call_step p s = Some s'"
    and "\<And>c t. calls s p \<noteq> Admitting c t" and "\<And>b. calls s p \<noteq> Withdrawing b"
  shows "same_leases s s'"
proof (cases "calls s p")
  case (Finishing c r)
  then show ?thesis using assms(2) finish_same [OF assms(1) Finishing] by (auto simp: call_step_def)
next
  case Reserving
  then show ?thesis using assms(2) register_same [of True True s]
    by (auto simp: call_step_def split: prod.splits registration.splits)
qed (use assms in \<open>auto simp: call_step_def Let_def split: option.splits if_splits list.splits\<close>)

lemma admitConstruction_lease:
  assumes "lease_inv s" and "mode_ok m s" and "calls s p = Admitting c t" and "admitConstruction c t s = (s1, r)"
  shows "lease_inv s1"
proof (cases r)
  case None
  then show ?thesis using assms(1,4) by (auto simp: admitConstruction_def Let_def split: if_splits)
next
  case (Some gen)
  have cur: "d_current s = None" using builds_mode [OF assms(2), of p c] assms(2,3) by auto
  have none: "tally (outstanding (n_gens s)) (leases s) (n_leases s) = 0" "tally (in_callback (n_gens s)) (leases s) (n_leases s) = 0"
    using assms(1) by (auto simp: tally_zero lease_inv_def lease_ok_def outstanding_def in_callback_def)
  have s1: "leases s1 = leases s" "n_leases s1 = n_leases s" "n_gens s1 = Suc (n_gens s)" "d_current s1 = Some (n_gens s)"
    "gens s1 = (gens s)(n_gens s := \<lparr>gn_transport = t, gn_construction = c, gn_accepting = True, gn_inFlight = 0,
                         gn_activeCallbacks = 0, gn_drained = False\<rparr>)" "panicked s1 = panicked s"
    using assms(4) Some by (auto simp: admitConstruction_def upd_defs Let_def split: if_splits)
  have "gen_ok s1 g" if "g < Suc (n_gens s)" for g
    using that assms(1) none cur by (cases "g = n_gens s") (auto simp: lease_inv_def gen_ok_def s1)
  then show ?thesis using assms(1) by (auto simp: lease_inv_def lease_ok_def s1)
qed

lemma withdraw_lease:
  assumes "lease_inv s" and "stop_withdraw keep s = (s1, r)"
  shows "lease_inv s1"
proof (cases r)
  case (StopOver e)
  then show ?thesis using assms
    by (intro lease_inv_same [OF assms(1)]) (auto simp: stop_withdraw_def Let_def split: if_splits option.splits)
next
  case (Withdrawn g)
  then have cur: "d_current s = Some g" using assms(2) by (auto simp: stop_withdraw_def Let_def split: if_splits option.splits)
  then have g: "g < n_gens s" "gen_ok s g" using assms(1) by (auto simp: lease_inv_def)
  then have nd: "\<not> gn_drained (gens s g)" using cur by (simp add: gen_ok_def)
  have s1: "leases s1 = leases s" "n_leases s1 = n_leases s" "n_gens s1 = n_gens s" "d_current s1 = None" "panicked s1 = panicked s"
    "gens s1 = (gens s)(g := (gens s g)\<lparr>gn_accepting := False, gn_drained := (gn_inFlight (gens s g) = 0)\<rparr>)"
    using assms(2) Withdrawn cur nd
    by (auto simp: stop_withdraw_def close_drained_def upd_defs Let_def fun_eq_iff split: if_splits)
  have "gen_ok s1 h" if "h < n_gens s" for h
    using that assms(1) g cur by (cases "h = g") (auto simp: lease_inv_def gen_ok_def s1)
  then show ?thesis using assms(1) by (auto simp: lease_inv_def lease_ok_def s1)
qed

lemma same_lease_inv: "same_leases s s' \<Longrightarrow> lease_inv s \<Longrightarrow> lease_inv s'"
  unfolding same_leases_def using lease_inv_same by blast

lemma factory_same: "same_leases s (factory_returns p c r s)"
  by (cases r) (auto simp: factory_returns_def hand_over_def same_leases_def upd_defs split: option.splits prod.splits)

lemma snapshot_same: "same_leases s (stop_or_replace b p s)"
proof -
  obtain s1 ws where "cancel_snapshot s = (s1, ws)" "gens s1 = gens s" "n_gens s1 = n_gens s"
    "leases s1 = leases s" "n_leases s1 = n_leases s" "d_current s1 = d_current s" "panicked s1 = panicked s"
    by (rule snapshot [of s])
  then show ?thesis by (simp add: stop_or_replace_def) (simp add: same_leases_def)
qed

lemma call_events_lease:
  assumes "moves_call e" and "driver_do e s = Some s'" and inv: "lease_inv s" and m: "mode_ok m s"
  shows "lease_inv s'"
proof (cases "\<exists>p. e = CallStep p \<and> ((\<exists>c t. calls s p = Admitting c t) \<or> (\<exists>b. calls s p = Withdrawing b))")
  case True
  then obtain p where e: "e = CallStep p" "(\<exists>c t. calls s p = Admitting c t) \<or> (\<exists>b. calls s p = Withdrawing b)" by blast
  have gt: "lease_inv (goto q pt s1) = lease_inv s1" for q pt s1
    by (simp add: lease_inv_def gen_ok_def lease_ok_def goto_def)
  show ?thesis using e assms(2) admitConstruction_lease [OF inv m, of p] withdraw_lease [OF inv]
    by (auto simp: call_step_def gt split: prod.splits option.splits withdrawal.splits)
next
  case False
  have "same_leases s s'"
    using assms(1,2) False factory_same snapshot_same register_same [of False False s] step_same [OF m]
    by (cases e) (auto simp: guarded_def driver_Stop_def Replace_def Start_def call_expire_def
        split: if_splits point.splits list.splits prod.splits registration.splits)
  then show ?thesis using inv by (rule same_lease_inv)
qed

lemma reachable_lease: "driver_reachable s \<Longrightarrow> lease_inv s"
proof (induction rule: driver_reachable.induct)
  case (driver_new nil)
  then show ?case by (simp add: lease_inv_def NewDriverRuntime_def)
next
  case (driver_event s e s')
  obtain m where "mode_ok m s" using reachable_mode [OF driver_event.hyps(1)] by blast
  then show ?case using driver_event other_events_lease call_events_lease by blast
qed


section \<open>Close requests\<close>

text \<open>A call that drains a generation, one that closes it, and one that may still ask a transport to close.\<close>

fun draining :: "point \<Rightarrow> nat option" where
  "draining (Draining g b) = Some g" | "draining (DrainExpired g b) = Some g" | "draining (StopQuarantining g b) = Some g"
| "draining _ = None"

fun closing :: "point \<Rightarrow> nat option" where
  "closing (RetireStart t w) = retire_stops w" | "closing (RetireRequest t w) = retire_stops w"
| "closing (RetireConfirm t w) = retire_stops w" | "closing _ = None"

fun asks :: "point \<Rightarrow> nat option" where
  "asks (Admitting c t) = Some t" | "asks (RetireStart t w) = Some t" | "asks (RetireRequest t w) = Some t" | "asks _ = None"

lemma point_kinds:
  "draining pt = Some g \<Longrightarrow> stops pt = Some g" "closing pt = Some g \<Longrightarrow> stops pt = Some g" "asks pt = Some t \<Longrightarrow> carries pt = Some t"
  "asks pt = Some t \<Longrightarrow> builds pt \<noteq> None \<or> stops pt \<noteq> None"
proof -
  have w: "retire_builds w = None \<Longrightarrow> retire_stops w \<noteq> None" for w by (cases w) auto
  show "draining pt = Some g \<Longrightarrow> stops pt = Some g" "closing pt = Some g \<Longrightarrow> stops pt = Some g"
    "asks pt = Some t \<Longrightarrow> carries pt = Some t" "asks pt = Some t \<Longrightarrow> builds pt \<noteq> None \<or> stops pt \<noteq> None"
    using w by (cases pt; auto)+
qed

lemma other_kinds [simp]:
  "draining (retired w) = None" "closing (retired w) = None" "asks (retired w) = None"
  "draining (not_retired w) = None" "closing (not_retired w) = None" "asks (not_retired w) = None"
  "draining (stop_result b e) = None" "closing (stop_result b e) = None" "asks (stop_result b e) = None"
  by (cases w; auto simp: stop_result_def split: option.splits)+

definition idle_gen :: "driver \<Rightarrow> nat \<Rightarrow> bool" where
  "idle_gen s g \<longleftrightarrow> \<not> gn_accepting (gens s g) \<and> gn_activeCallbacks (gens s g) = 0"

definition requests :: "driver \<Rightarrow> nat \<Rightarrow> nat" where
  "requests s t = t_requests (transports s t)"

definition gens_inv :: "driver \<Rightarrow> bool" where
  "gens_inv s \<longleftrightarrow> (\<forall>g<n_gens s. gn_transport (gens s g) < n_transports s) \<and>
     inj_on (\<lambda>g. gn_transport (gens s g)) {..<n_gens s} \<and>
     (\<forall>g<n_gens s. requests s (gn_transport (gens s g)) > 0 \<longrightarrow> idle_gen s g) \<and> (\<forall>t. requests s t \<le> 1)"

definition point_inv :: "driver \<Rightarrow> point \<Rightarrow> bool" where
  "point_inv s pt \<longleftrightarrow>
     (builds pt \<noteq> None \<longrightarrow> (\<forall>t. carries pt = Some t \<longrightarrow> t < n_transports s \<and> (\<forall>g<n_gens s. gn_transport (gens s g) \<noteq> t))) \<and>
     (\<forall>g. closing pt = Some g \<longrightarrow> g < n_gens s \<and> idle_gen s g) \<and>
     (\<forall>t. asks pt = Some t \<longrightarrow> requests s t = 0) \<and>
     (\<forall>g. draining pt = Some g \<longrightarrow> g < n_gens s \<and> \<not> gn_accepting (gens s g) \<and> requests s (gn_transport (gens s g)) = 0)"

definition close_inv :: "driver \<Rightarrow> bool" where
  "close_inv s \<longleftrightarrow> gens_inv s \<and> (\<forall>p. point_inv s (calls s p))"

lemma bystander_point: "bystander s q \<Longrightarrow> point_inv s' (calls s q)"
proof -
  assume b: "bystander s q"
  then have "stops (calls s q) = None" by (simp add: bystander_def)
  moreover have "builds (calls s q) = None \<or> (\<exists>c r. calls s q = Finishing c r)" using b by (auto simp: bystander_def)
  ultimately show ?thesis
    using point_kinds(1,2) [of "calls s q"] point_kinds(4) [of "calls s q"] by (auto simp: point_inv_def)
qed

text \<open>Steps that leave transports and generations as they are.\<close>

lemma same_close_inv:
  assumes "close_inv s" and "n_gens s' = n_gens s" and "n_transports s' = n_transports s"
    and "\<And>g. g < n_gens s \<Longrightarrow> gn_transport (gens s' g) = gn_transport (gens s g) \<and>
      gn_accepting (gens s' g) = gn_accepting (gens s g) \<and> (idle_gen s g \<longrightarrow> idle_gen s' g)"
    and "\<And>t. requests s' t = requests s t"
  shows "gens_inv s'" and "point_inv s pt \<Longrightarrow> point_inv s' pt"
proof -
  have "inj_on (\<lambda>g. gn_transport (gens s' g)) {..<n_gens s} = inj_on (\<lambda>g. gn_transport (gens s g)) {..<n_gens s}"
    using assms(4) by (intro inj_on_cong) simp
  then show "gens_inv s'" using assms by (auto simp: close_inv_def gens_inv_def)
  show "point_inv s pt \<Longrightarrow> point_inv s' pt" using assms(2-5) by (auto simp: point_inv_def)
qed

lemma plain_step:
  assumes "close_inv s" and "same_leases s s'" and "n_transports s' = n_transports s" and "\<And>t. requests s' t = requests s t"
    and "calls s' = (calls s)(p := pt)" and "point_inv s pt"
  shows "close_inv s'"
proof -
  note same = same_close_inv [OF assms(1), of s', OF _ assms(3) _ assms(4)]
  have g: "n_gens s' = n_gens s" "gens s' = gens s" using assms(2) by (simp_all add: same_leases_def)
  have "point_inv s' (calls s' q)" for q
    using same(2) [of "calls s' q"] g assms(1,5,6) by (cases "q = p") (auto simp: close_inv_def idle_gen_def)
  then show ?thesis using same(1) g by (simp add: close_inv_def idle_gen_def)
qed


lemma other_events_close:
  assumes "\<not> moves_call e" and "driver_do e s = Some s'" and "lease_inv s" and "close_inv s"
  shows "close_inv s'"
proof -
  have n: "n_gens s' = n_gens s" "n_transports s' = n_transports s" "calls s' = calls s" "\<And>t. requests s' t = requests s t"
    using assms(1,2)
    by (cases e; auto simp: lease_defs upd_defs Let_def requests_def split: if_splits option.splits)+
  have g: "gn_transport (gens s' g) = gn_transport (gens s g) \<and> gn_accepting (gens s' g) = gn_accepting (gens s g)" for g
    using assms(1,2) by (cases e; auto simp: lease_defs upd_defs Let_def split: if_splits option.splits)
  have idle: "idle_gen s' g" if gi: "g < n_gens s" "idle_gen s g" for g
  proof (cases "\<exists>l. e = EvFinishActive l")
    case True
    then obtain l where l: "l < n_leases s" "ls_point (leases s l) = CallbackReturned" "s' = finish_active l s"
      using assms(2) by (auto simp: guarded_def split: if_splits)
    have "tally (in_callback g) (leases s) (n_leases s) = 0"
      using gi assms(3) by (auto simp: lease_inv_def gen_ok_def idle_gen_def)
    then have "ls_generation (leases s l) \<noteq> g" using l(1,2) by (auto simp: tally_zero in_callback_def)
    then show ?thesis using gi(2) by (simp add: l(3) finish_active_def upd_defs idle_gen_def)
  next
    case False
    then show ?thesis using assms(1,2) gi(2)
      by (cases e; auto simp: lease_defs upd_defs Let_def idle_gen_def split: if_splits option.splits)
  qed
  have "gens_inv s'" "\<And>pt. point_inv s pt \<Longrightarrow> point_inv s' pt"
    using same_close_inv [OF assms(4) n(1,2), OF _ n(4)] g idle by blast+
  then show ?thesis using assms(4) n(3) by (simp add: close_inv_def)
qed

text \<open>The call that owns the transport is alone: every other point satisfies its invariant anyway.\<close>

lemma others_point: "mode_ok m s \<Longrightarrow> involved m p \<Longrightarrow> q \<noteq> p \<Longrightarrow> point_inv s' (calls s q)"
  using uninvolved_bystander [of m s q] bystander_point [of s q s'] by (cases m) auto

lemma retire_involved:
  "mode_ok m s \<Longrightarrow> builds (calls s p) = retire_builds w \<Longrightarrow> stops (calls s p) = retire_stops w \<Longrightarrow>
   (\<And>c r. calls s p \<noteq> Finishing c r) \<Longrightarrow> involved m p"
proof -
  assume m: "mode_ok m s" "builds (calls s p) = retire_builds w" "stops (calls s p) = retire_stops w"
    "\<And>c r. calls s p \<noteq> Finishing c r"
  show ?thesis
  proof (cases "retire_stops w")
    case None
    then obtain c where "retire_builds w = Some c" by (cases w) auto
    then show ?thesis using builds_mode [OF m(1), of p c] m(2,4) by auto
  next
    case (Some g)
    then show ?thesis using stops_mode [OF m(1), of p g] m(3) by simp
  qed
qed

lemma request_close:
  assumes "close_inv s" and m: "mode_ok m s" and pt: "calls s p = RetireRequest t w"
  shows "close_inv (goto p (RetireConfirm t w) (upd_transport t (\<lambda>x. x\<lparr>t_requests := t_requests x + 1\<rparr>) s))"
proof -
  define z where "z = goto p (RetireConfirm t w) (upd_transport t (\<lambda>x. x\<lparr>t_requests := t_requests x + 1\<rparr>) s)"
  have inv: "point_inv s (RetireRequest t w)" "gens_inv s" using assms(1) pt by (auto simp: close_inv_def dest: spec [of _ p])
  have req: "requests z x = (if x = t then 1 else requests s x)" for x
    using inv(1) by (simp add: z_def requests_def upd_defs point_inv_def)
  have same: "n_gens z = n_gens s" "gens z = gens s" "n_transports z = n_transports s" "idle_gen z = idle_gen s"
    by (simp_all add: z_def upd_defs idle_gen_def fun_eq_iff)
  have "idle_gen s g" if g: "g < n_gens s" "gn_transport (gens s g) = t" for g
  proof (cases "retire_stops w")
    case None
    then obtain c where "retire_builds w = Some c" by (cases w) auto
    then show ?thesis using inv(1) g by (auto simp: point_inv_def)
  next
    case (Some h)
    then have "m = Stopping p h" using stops_mode [OF m, of p h] pt by simp
    then have "t = gn_transport (gens s h)" using m pt by simp
    then have "g = h" using inv Some g by (auto simp: gens_inv_def point_inv_def inj_on_def)
    then show ?thesis using inv(1) Some by (simp add: point_inv_def)
  qed
  then have "gens_inv z" using inv(2) by (auto simp: gens_inv_def same req split: if_splits)
  moreover have "point_inv z (RetireConfirm t w)" using inv(1) by (simp add: point_inv_def same)
  moreover have "point_inv z (calls s q)" if "q \<noteq> p" for q
    using others_point [OF m retire_involved [OF m, of p w] that] pt by simp
  moreover have "calls z = (calls s)(p := RetireConfirm t w)" by (simp add: z_def)
  ultimately have "close_inv z" by (simp add: close_inv_def)
  then show ?thesis by (simp add: z_def)
qed

lemma admit_close:
  assumes "close_inv s" and m: "mode_ok m s" and pt: "calls s p = Admitting c t" and adm: "admitConstruction c t s = (s1, Some gen)"
  shows "close_inv (goto p (Finishing c (Inr gen)) s1)" (is "close_inv ?s")
proof -
  have inv: "point_inv s (Admitting c t)" "gens_inv s" using assms(1) pt by (auto simp: close_inv_def dest: spec [of _ p])
  have s1: "n_gens ?s = Suc (n_gens s)" "n_transports ?s = n_transports s" "transports ?s = transports s" "calls s1 = calls s"
    "gens ?s = (gens s)(n_gens s := \<lparr>gn_transport = t, gn_construction = c, gn_accepting = True, gn_inFlight = 0,
                         gn_activeCallbacks = 0, gn_drained = False\<rparr>)"
    using adm by (auto simp: admitConstruction_def upd_defs Let_def split: if_splits)
  have t: "t < n_transports s" "requests s t = 0" "\<forall>g<n_gens s. gn_transport (gens s g) \<noteq> t"
    using inv(1) by (auto simp: point_inv_def)
  have "inj_on (\<lambda>g. gn_transport (gens ?s g)) {..<Suc (n_gens s)}"
    using inv(2) t(3) unfolding s1(5) by (auto simp: gens_inv_def inj_on_def less_Suc_eq)
  then have "gens_inv ?s"
    using inv(2) t(1,2) unfolding gens_inv_def s1(1,2) requests_def s1(3) idle_gen_def s1(5) by (auto simp: less_Suc_eq)
  moreover have "involved m p" using builds_mode [OF m, of p c] pt by auto
  then have "point_inv ?s (calls s q)" if "q \<noteq> p" for q using others_point [OF m _ that] by blast
  moreover have "point_inv ?s (Finishing c (Inr gen))" by (simp add: point_inv_def)
  ultimately show ?thesis by (simp add: close_inv_def s1(4))
qed

lemma withdraw_close:
  assumes "close_inv s" and "lease_inv s" and m: "mode_ok m s" and w: "stop_withdraw b s = (s1, Withdrawn g)"
  shows "close_inv (goto p (Draining g b) s1)" (is "close_inv ?s")
proof -
  have inv: "gens_inv s" using assms(1) by (simp add: close_inv_def)
  have cur: "d_current s = Some g" using w by (auto simp: stop_withdraw_def Let_def split: if_splits option.splits)
  then have g: "g < n_gens s" "gn_accepting (gens s g)" using assms(2) by (auto simp: lease_inv_def gen_ok_def)
  have s1: "n_gens ?s = n_gens s" "n_transports ?s = n_transports s" "transports ?s = transports s" "calls s1 = calls s"
    "\<And>h. gn_transport (gens ?s h) = gn_transport (gens s h) \<and> gn_activeCallbacks (gens ?s h) = gn_activeCallbacks (gens s h) \<and>
       gn_accepting (gens ?s h) = (gn_accepting (gens s h) \<and> h \<noteq> g)"
    using w cur g(2) by (auto simp: stop_withdraw_def close_drained_def upd_defs Let_def split: if_splits)
  have "requests s (gn_transport (gens s g)) = 0" using inv g by (auto simp: gens_inv_def idle_gen_def)
  then have "point_inv ?s (Draining g b)" using g s1 by (simp add: point_inv_def requests_def)
  moreover have "gens_inv ?s" using inv s1 by (simp add: gens_inv_def requests_def idle_gen_def)
  moreover have "m = Live g" using m cur by (cases m) auto
  then have "point_inv ?s (calls s q)" for q
    using uninvolved_bystander [OF m, of q] bystander_point [of s q ?s] by simp
  ultimately show ?thesis by (simp add: close_inv_def s1(4))
qed

lemma factory_close:
  assumes "close_inv s" and m: "mode_ok m s" and pt: "calls s p = Building c"
  shows "close_inv (factory_returns p c r s)"
proof -
  have inv: "gens_inv s" using assms(1) by (simp add: close_inv_def)
  have "involved m p" using builds_mode [OF m, of p c] pt by auto
  then have others: "\<And>q s'. q \<noteq> p \<Longrightarrow> point_inv s' (calls s q)" using others_point [OF m] by blast
  have ho: "gens_inv s1" "calls s1 = calls s"
    "\<And>t'. t = Some t' \<Longrightarrow> t' < n_transports s1 \<and> requests s1 t' = 0 \<and> (\<forall>g<n_gens s1. gn_transport (gens s1 g) \<noteq> t')"
    if "hand_over x s = (s1, t)" for x s1 t
    using that inv by (auto simp: hand_over_def gens_inv_def requests_def idle_gen_def split: option.splits)
  have up: "gens_inv (runtimeCancel c' s1) = gens_inv s1" "gens_inv (goto p pt s1) = gens_inv s1"
    "point_inv (runtimeCancel c' s1) = point_inv s1" "point_inv (goto p pt s1) = point_inv s1" for pt c' s1
    by (auto simp: gens_inv_def point_inv_def requests_def idle_gen_def upd_defs fun_eq_iff)
  obtain x where x: "r = FactoryMakes x \<or> (\<exists>e. r = FactoryFails e x)" by (cases r) auto
  obtain s1 t where h: "hand_over x s = (s1, t)" by fastforce
  have "point_inv s1 (Admitting c t')" "point_inv s1 (RetireStart t' (ForFactoryError c e))" "point_inv s1 (Rejecting c t)"
      "point_inv s1 (Finishing c y)" if "t = Some t'" for t' e y
    using ho(3) [OF h that] that by (simp_all add: point_inv_def)
  moreover have "point_inv s1 (Rejecting c None)" "point_inv s1 (Finishing c y)" for y by (simp_all add: point_inv_def)
  ultimately have fresh: "t = Some t' \<Longrightarrow> point_inv s1 (Admitting c t')" "t = Some t' \<Longrightarrow> point_inv s1 (RetireStart t' (ForFactoryError c e))"
      "point_inv s1 (Rejecting c t)" "point_inv s1 (Finishing c y)" for t' e y
    by (cases t; simp)+
  have "point_inv (factory_returns p c r s) (calls (factory_returns p c r s) p) \<and> gens_inv (factory_returns p c r s) \<and>
     (\<forall>q. q \<noteq> p \<longrightarrow> calls (factory_returns p c r s) q = calls s q)"
    using x ho(1,2) [OF h] fresh by (cases t) (auto simp: factory_returns_def h up)
  then have "gens_inv (factory_returns p c r s)" "\<And>q. point_inv (factory_returns p c r s) (calls (factory_returns p c r s) q)"
    using others by metis+
  then show ?thesis by (simp add: close_inv_def)
qed


lemma cancel_transports [simp]: "n_transports (runtimeCancel c s) = n_transports s" by (simp add: upd_defs)

lemma plain_goto:
  assumes "close_inv s" and "same_leases s s'" and "calls s' = calls s" and "n_transports s' = n_transports s"
    and "transports s' = transports s" and "point_inv s pt"
  shows "close_inv (goto p pt s')"
  using assms by (intro plain_step [OF assms(1), of _ p pt]) (simp_all add: requests_def, simp_all add: goto_def)

lemma point_kept: "close_inv s \<Longrightarrow> point_inv s (calls s p)" by (simp add: close_inv_def)

lemma point_trivial: "builds pt = None \<or> carries pt = None \<Longrightarrow> closing pt = None \<Longrightarrow> asks pt = None \<Longrightarrow> draining pt = None \<Longrightarrow> point_inv s pt"
  by (auto simp: point_inv_def)

lemma step_close:
  assumes "close_inv s" and "lease_inv s" and m: "mode_ok m s" and "call_step p s = Some s'"
  shows "close_inv s'"
proof -
  note pt = point_kept [OF assms(1), of p]
  show ?thesis
  proof (cases "calls s p")
    case (Admitting c t)
    show ?thesis
    proof (cases "snd (admitConstruction c t s)")
      case None
      then have "admitConstruction c t s = (s, None)" by (auto simp: admitConstruction_def Let_def split: if_splits)
      then show ?thesis using assms(4) pt Admitting
        by (auto simp: call_step_def point_inv_def intro!: plain_goto [OF assms(1)])
    next
      case (Some gen)
      then obtain s1 where "admitConstruction c t s = (s1, Some gen)" by (metis prod.collapse)
      then show ?thesis using assms(4) Admitting admit_close [OF assms(1) m Admitting, of s1 gen] by (auto simp: call_step_def)
    qed
  next
    case (Withdrawing b)
    show ?thesis
    proof (cases "snd (stop_withdraw b s)")
      case (Withdrawn g)
      then obtain s1 where "stop_withdraw b s = (s1, Withdrawn g)" by (metis prod.collapse)
      then show ?thesis using assms(4) Withdrawing withdraw_close [OF assms(1-3), of b s1 g p] by (auto simp: call_step_def)
    next
      case (StopOver e)
      then show ?thesis using assms(4) Withdrawing
        by (auto simp: call_step_def stop_withdraw_def Let_def split: if_splits option.splits
            intro!: plain_goto [OF assms(1)] point_trivial)
    qed
  next
    case (RetireRequest t w)
    then show ?thesis using assms(4) request_close [OF assms(1) m RetireRequest] by (auto simp: call_step_def)
  next
    case (Draining g b)
    then show ?thesis using assms(4) pt drained_no_callback [OF assms(2), of g]
      by (auto simp: call_step_def point_inv_def idle_gen_def split: if_splits intro!: plain_goto [OF assms(1)])
  next
    case (DrainExpired g b)
    then have "g < n_gens s" using pt by (simp add: point_inv_def)
    then have "gn_activeCallbacks (gens s g) \<ge> 0"
      using assms(2) tally_nonneg by (simp add: lease_inv_def gen_ok_def)
    then show ?thesis using assms(4) pt DrainExpired
      by (auto simp: call_step_def point_inv_def idle_gen_def split: if_splits intro!: plain_goto [OF assms(1)])
  next
    case (RetireStart t w)
    then show ?thesis using assms(4) pt
      by (cases w) (auto simp: call_step_def point_inv_def Let_def intro!: plain_goto [OF assms(1)])
  next
    case (Finishing c r)
    have "n_transports (finishConstruction c s) = n_transports s" "transports (finishConstruction c s) = transports s"
      by (auto simp: finishConstruction_def close_done_def upd_defs Let_def)
    then show ?thesis using assms(4) Finishing finish_same [OF m Finishing]
      by (auto simp: call_step_def intro!: plain_goto [OF assms(1)] point_trivial)
  next
    case Reserving
    have reg: "n_transports s1 = n_transports s \<and> transports s1 = transports s \<and> calls s1 = calls s"
      if "registerConstruction True True s = (s1, r)" for s1 r
      using that by (auto simp: registerConstruction_def Let_def split: if_splits)
    show ?thesis using assms(4) Reserving reg register_same [of True True s]
      by (auto simp: call_step_def split: prod.splits registration.splits intro!: plain_goto [OF assms(1)] point_trivial)
  qed (use assms(4) in \<open>auto simp: call_step_def split: option.splits if_splits list.splits intro!: plain_goto [OF assms(1)] point_trivial\<close>)
qed


lemma event_close:
  assumes "close_inv s" and "lease_inv s" and m: "mode_ok m s" and "driver_do e s = Some s'"
  shows "close_inv s'"
proof (cases e)
  case (CallStart p)
  have reg: "n_transports s1 = n_transports s \<and> transports s1 = transports s \<and> calls s1 = calls s"
    if "registerConstruction False False s = (s1, r)" for s1 r
    using that by (auto simp: registerConstruction_def Let_def split: if_splits)
  show ?thesis using assms(4) CallStart reg register_same [of False False s]
    by (auto simp: guarded_def Start_def split: if_splits prod.splits registration.splits intro!: plain_goto [OF assms(1)] point_trivial)
next
  case (CallStop p)
  obtain s1 ws where "cancel_snapshot s = (s1, ws)" "n_transports s1 = n_transports s" "transports s1 = transports s"
    "calls s1 = calls s" by (rule snapshot [of s])
  then show ?thesis using assms(4) CallStop snapshot_same [of s False p]
    by (auto simp: guarded_def driver_Stop_def stop_or_replace_def split: if_splits intro!: plain_goto [OF assms(1)] point_trivial)
next
  case (CallReplace p)
  obtain s1 ws where "cancel_snapshot s = (s1, ws)" "n_transports s1 = n_transports s" "transports s1 = transports s"
    "calls s1 = calls s" by (rule snapshot [of s])
  then show ?thesis using assms(4) CallReplace snapshot_same [of s True p]
    by (auto simp: guarded_def Replace_def stop_or_replace_def split: if_splits intro!: plain_goto [OF assms(1)] point_trivial)
next
  case (CallStep p)
  then show ?thesis using assms step_close by auto
next
  case (CallExpires p)
  then show ?thesis using assms(4) point_kept [OF assms(1), of p]
    by (auto simp: call_expire_def point_inv_def split: point.splits list.splits intro!: plain_goto [OF assms(1)])
next
  case (FactoryReturns p r)
  then show ?thesis using assms(4) factory_close [OF assms(1) m] by (auto split: point.splits)
qed (use other_events_close [OF _ assms(4,2,1)] in simp_all)

lemma reachable_close: "driver_reachable s \<Longrightarrow> close_inv s"
proof (induction rule: driver_reachable.induct)
  case (driver_new nil)
  then show ?case by (simp add: close_inv_def gens_inv_def requests_def point_inv_def NewDriverRuntime_def)
next
  case (driver_event s e s')
  obtain m where "mode_ok m s" using reachable_mode [OF driver_event.hyps(1)] by blast
  then show ?case using driver_event event_close reachable_lease by blast
qed

text \<open>
  C10: While a callback of a lease runs, the runtime has not asked the transport it works on to close; the
  transport is asked at most once in its life, and no channel of the runtime is ever closed twice.
\<close>

theorem callback_before_close:
  assumes "driver_reachable s"
  shows "(l < n_leases s \<and> ls_point (leases s l) = InCallback \<longrightarrow>
      t_requests (transports s (gn_transport (gens s (ls_generation (leases s l))))) = 0) \<and>
    (\<forall>t. t_requests (transports s t) \<le> 1) \<and> \<not> panicked s"
proof -
  have inv: "lease_inv s" "close_inv s" using reachable_lease reachable_close assms by blast+
  have "requests s (gn_transport (gens s (ls_generation (leases s l)))) = 0"
    if l: "l < n_leases s" "ls_point (leases s l) = InCallback"
  proof -
    let ?g = "ls_generation (leases s l)"
    have g: "?g < n_gens s" using inv(1) l(1) by (simp add: lease_inv_def lease_ok_def)
    have "tally (in_callback ?g) (leases s) (n_leases s) \<noteq> 0" using l by (auto simp: tally_zero in_callback_def)
    then have "\<not> idle_gen s ?g" using inv(1) g by (auto simp: idle_gen_def lease_inv_def gen_ok_def)
    then show ?thesis using inv(2) g by (auto simp: close_inv_def gens_inv_def)
  qed
  then show ?thesis using inv by (auto simp: requests_def close_inv_def gens_inv_def lease_inv_def)
qed

theorem callback_before_close_witness:
  "\<exists>s. run_driver demo_events (NewDriverRuntime False) = Some s \<and> ls_point (leases s 0) = InCallback \<and>
     t_requests (transports s (gn_transport (gens s (ls_generation (leases s 0))))) = 0 \<and> \<not> panicked s"
proof -
  obtain s where s: "run_driver demo_events (NewDriverRuntime False) = Some s" "ls_point (leases s 0) = InCallback" "n_leases s = 1"
    using demo_run by (cases "run_driver demo_events (NewDriverRuntime False)") auto
  have "driver_reachable s" using run_driver_reachable [OF driver_new s(1)] .
  then show ?thesis using callback_before_close [of s 0] s by auto
qed

end
