(* ===== verification/Plan_Codec.thy ===== *)
theory Plan_Codec
  imports Wire_Escape
begin

text \<open>
  The byte level of the worker plans, \<open>localworker/aa23_plans.go\<close>: address patterns, the bitwise CRC, the
  encoder of a prepared target response and the check a candidate's wire bytes must pass.  The worker has its own
  copy of these routines; they are proved to agree with those of the protocol engine.
\<close>

section \<open>Sentinels\<close>

datatype aa23_error =
    ErrAA23InvalidLimits | ErrAA23InvalidIdentity | ErrAA23InvalidAddress | ErrAA23DuplicateAddress
  | ErrAA23RegistrationConflict | ErrAA23RegistrationRetiring | ErrAA23NotRegistered | ErrAA23StaleEpoch
  | ErrAA23UnknownSubscriber | ErrAA23Capacity | ErrAA23PhysicalConflict | ErrAA23MasterConflict | ErrAA23ClockClosed
  | ErrAA23Expired | ErrAA23LeaseTooLong | ErrAA23InvalidPlan | ErrAA23AmbiguousPlan | ErrAA23Oversize
  | ErrAA23Unsupported | ErrAA23PoolExhausted | ErrAA23StaleGeneration | ErrAA23CounterExhausted
  | ErrAA23IdentityMismatch | ErrAA23SlotState | ErrAA23SlotPinned | ErrAA23NoWorker | ErrAA23NoPlan | ErrAA23NoMatch
  | ErrAA23Revoked | ErrAA23PinBusy | ErrAA23PinReleased | ErrAA23StaleTransaction | ErrAA23Phase

section \<open>Addresses\<close>

definition aa23IsInitiatorNibble :: "byte \<Rightarrow> bool" where
  "aa23IsInitiatorNibble n \<longleftrightarrow> n \<in> {0x0, 0x1, 0x3, 0x7, 0xF}"

definition aa23IsInitiatorAddress :: "byte \<Rightarrow> bool" where
  "aa23IsInitiatorAddress a \<longleftrightarrow> aa23IsInitiatorNibble (drop_bit 4 a) \<and> aa23IsInitiatorNibble (a AND 0x0F)"

definition aa23IsTargetAddress :: "byte \<Rightarrow> bool" where
  "aa23IsTargetAddress a \<longleftrightarrow> a \<notin> {0xFE, SymbolEscape, SymbolSyn} \<and> \<not> aa23IsInitiatorAddress a"

section \<open>CRC and escaping\<close>

definition crc_bit :: "byte \<Rightarrow> byte" where
  "crc_bit crc = (if crc AND 0x80 \<noteq> 0 then push_bit 1 crc XOR 0x9B else push_bit 1 crc)"

definition aa23CRCStep :: "byte \<Rightarrow> byte \<Rightarrow> byte" where
  "aa23CRCStep crc v = (crc_bit ^^ 8) crc XOR v"

definition aa23CRCUpdate :: "byte \<Rightarrow> byte \<Rightarrow> byte" where
  "aa23CRCUpdate crc v =
     (if v = SymbolEscape then aa23CRCStep (aa23CRCStep crc SymbolEscape) 0x00
      else if v = SymbolSyn then aa23CRCStep (aa23CRCStep crc SymbolEscape) 0x01
      else aa23CRCStep crc v)"

definition aa23AppendEscaped :: "byte list \<Rightarrow> byte \<Rightarrow> byte list" where
  "aa23AppendEscaped dst v =
     (if v = SymbolEscape then dst @ [SymbolEscape, 0x00]
      else if v = SymbolSyn then dst @ [SymbolEscape, 0x01]
      else dst @ [v])"

definition aa23MaxNativeLength :: nat where "aa23MaxNativeLength = 255"

fun encode_data :: "byte \<Rightarrow> byte list \<Rightarrow> byte list \<Rightarrow> byte \<times> byte list" where
  "encode_data crc dst [] = (crc, dst)"
| "encode_data crc dst (v # vs) = encode_data (aa23CRCUpdate crc v) (aa23AppendEscaped dst v) vs"

definition AA23EncodeResponse :: "byte list \<Rightarrow> byte list \<Rightarrow> byte list \<times> aa23_error option" where
  "AA23EncodeResponse dst data =
     (if length data > aa23MaxNativeLength then (dst, Some ErrAA23Oversize)
      else let len = byte_of_nat (length data);
               (crc, dst1) = encode_data (aa23CRCUpdate 0 len) (aa23AppendEscaped dst len) data
           in (aa23AppendEscaped dst1 crc, None))"

text \<open>
  The scan of \<open>aa23ValidateEncodedResponse\<close>: running CRC, decoded bytes so far, declared length (-1 before the
  first byte) and received CRC (-1 until it is seen).
\<close>

type_synonym scan = "byte \<times> int \<times> int \<times> int"

definition scan_value :: "scan \<Rightarrow> byte \<Rightarrow> scan" where
  "scan_value = (\<lambda>(crc, decoded, declared, received) v.
     let declared1 = (if decoded = 0 then uint v else declared) in
     if decoded = declared1 + 1 then (crc, decoded + 1, declared1, uint v)
     else (aa23CRCUpdate crc v, decoded + 1, declared1, received))"

fun validate_loop :: "byte list \<Rightarrow> scan \<Rightarrow> scan option" where
  "validate_loop [] st = Some st"
| "validate_loop (w # ws) st =
     (if w = SymbolSyn then None
      else if w = SymbolEscape then
        (case ws of
           [] \<Rightarrow> None
         | x # rest \<Rightarrow>
             if x = 0x00 then validate_loop rest (scan_value st SymbolEscape)
             else if x = 0x01 then validate_loop rest (scan_value st SymbolSyn)
             else None)
      else validate_loop ws (scan_value st w))"

definition aa23ValidateEncodedResponse :: "byte list \<Rightarrow> aa23_error option" where
  "aa23ValidateEncodedResponse wire =
     (case validate_loop wire (0, 0, -1, -1) of
        None \<Rightarrow> Some ErrAA23InvalidPlan
      | Some (crc, decoded, declared, received) \<Rightarrow>
          if declared < 0 \<or> decoded \<noteq> declared + 2 \<or> received \<noteq> uint crc then Some ErrAA23InvalidPlan else None)"

section \<open>Agreement with the protocol engine\<close>

lemma crc_bit_shift_reg: "crc_bit = shift_reg"
proof -
  have "\<forall>c :: byte. (c AND 0x80 \<noteq> 0) = bit c 7" unfolding byte_exhaustive by code_simp
  then show ?thesis by (simp add: fun_eq_iff crc_bit_def shift_reg_def)
qed

lemma aa23CRCStep_Update: "aa23CRCStep = Update"
  by (simp add: fun_eq_iff aa23CRCStep_def crc_bit_shift_reg Update_def table_at_eq)

lemma aa23CRCUpdate_symbol: "aa23CRCUpdate = crc_symbol"
  by (simp add: fun_eq_iff aa23CRCUpdate_def crc_symbol_def aa23CRCStep_Update)

lemma aa23AppendEscaped_symbol: "aa23AppendEscaped dst v = dst @ escape_symbol v"
  by (simp add: aa23AppendEscaped_def escape_symbol_def)

lemma encode_data_fold: "encode_data crc dst data = (foldl crc_symbol crc data, dst @ EscapeBytes data)"
  by (induction data arbitrary: crc dst) (simp_all add: aa23CRCUpdate_symbol aa23AppendEscaped_symbol)

lemma encode_response_segment:
  "length data \<le> 255 \<Longrightarrow>
   AA23EncodeResponse dst data = (dst @ EscapeBytes (byte_of_nat (length data) # data @ [CRC (byte_of_nat (length data) # data)]), None)"
  by (simp add: AA23EncodeResponse_def aa23MaxNativeLength_def encode_data_fold aa23CRCUpdate_symbol aa23AppendEscaped_symbol
      CRC_def EscapeBytes_concat Let_def)


section \<open>What the check accepts\<close>

lemma escape_symbol_cases:
  "escape_symbol b = (if b = SymbolEscape then [SymbolEscape, 0x00] else if b = SymbolSyn then [SymbolEscape, 0x01] else [b])"
  by (simp add: escape_symbol_def)

lemma validate_loop_escaped: "validate_loop (EscapeBytes bs @ ws) st = validate_loop ws (foldl scan_value st bs)"
  by (induction bs arbitrary: st) (auto simp: escape_symbol_cases SymbolEscape_def SymbolSyn_def)

lemma validate_loop_Some:
  "validate_loop ws st = Some st' \<Longrightarrow> \<exists>bs. ws = EscapeBytes bs \<and> st' = foldl scan_value st bs"
proof (induction ws st rule: validate_loop.induct)
  case (1 st)
  then show ?case by (intro exI [of _ "[]"]) simp
next
  case (2 w ws st)
  consider (plain) "w \<noteq> SymbolSyn" "w \<noteq> SymbolEscape"
    | (esc) rest where "w = SymbolEscape" "ws = 0x00 # rest"
    | (syn) rest where "w = SymbolEscape" "ws = 0x01 # rest"
    using 2(4) by (auto split: if_splits list.splits)
  then show ?case
  proof cases
    case plain
    then obtain bs where "ws = EscapeBytes bs" "st' = foldl scan_value (scan_value st w) bs" using 2 by auto
    then show ?thesis using plain by (intro exI [of _ "w # bs"]) (simp add: escape_symbol_cases)
  next
    case esc
    have ne: "SymbolEscape \<noteq> SymbolSyn" by (simp add: SymbolEscape_def SymbolSyn_def)
    then obtain bs where "rest = EscapeBytes bs" "st' = foldl scan_value (scan_value st SymbolEscape) bs" using 2 esc by auto
    then show ?thesis using esc by (intro exI [of _ "SymbolEscape # bs"]) (simp add: escape_symbol_cases)
  next
    case syn
    have ne: "SymbolEscape \<noteq> SymbolSyn" by (simp add: SymbolEscape_def SymbolSyn_def)
    then obtain bs where "rest = EscapeBytes bs" "st' = foldl scan_value (scan_value st SymbolSyn) bs" using 2 syn by auto
    then show ?thesis using syn ne by (intro exI [of _ "SymbolSyn # bs"]) (simp add: escape_symbol_cases)
  qed
qed

text \<open>The scan of the bytes behind the length byte, before and after the CRC.\<close>

lemma scan_body:
  "1 \<le> n \<Longrightarrow> n + int (length bs) \<le> d + 1 \<Longrightarrow>
   foldl scan_value (crc, n, d, r) bs = (foldl crc_symbol crc bs, n + int (length bs), d, r)"
  by (induction bs arbitrary: crc n) (simp_all add: scan_value_def aa23CRCUpdate_symbol)

lemma scan_count: "\<exists>crc r. foldl scan_value (c, n, d, x) bs = (crc, n + int (length bs), if n = 0 \<and> bs \<noteq> [] then uint (hd bs) else d, r)"
  if "0 \<le> n" for n
  using that
proof (induction bs arbitrary: c n d x)
  case Nil
  then show ?case by simp
next
  case (Cons b bs)
  define d' where "d' = (if n = 0 then uint b else d)"
  have "\<exists>c' x'. scan_value (c, n, d, x) b = (c', n + 1, d', x')" by (simp add: scan_value_def d'_def Let_def)
  then obtain c' x' where st: "scan_value (c, n, d, x) b = (c', n + 1, d', x')" by blast
  show ?case using Cons.IH [of "n + 1" c' d' x'] Cons.prems st by (auto simp: d'_def)
qed

lemma scan_complete:
  assumes "length data = unat len"
  shows "foldl scan_value (0, 0, -1, -1) (len # data @ [c]) = (CRC (len # data), uint len + 2, uint len, uint c)"
proof -
  have len: "int (length data) = uint len" unfolding assms by (rule uint_nat [symmetric])
  have "uint len + 1 \<noteq> 0" using uint_nonnegative [of len] by linarith
  then have "scan_value (0, 0, -1, -1) len = (crc_symbol 0 len, 1, uint len, -1)"
    by (simp add: scan_value_def aa23CRCUpdate_symbol Let_def)
  then have "foldl scan_value (0, 0, -1, -1) (len # data) = (CRC (len # data), 1 + uint len, uint len, -1)"
    using scan_body [of 1 data "uint len" "crc_symbol 0 len" "-1"] len by (simp add: CRC_def)
  then have "foldl scan_value (0, 0, -1, -1) (len # data @ [c]) = scan_value (CRC (len # data), 1 + uint len, uint len, -1) c"
    by (metis append_Cons foldl_Cons foldl_Nil foldl_append)
  also have "\<dots> = (CRC (len # data), uint len + 2, uint len, uint c)"
    using \<open>uint len + 1 \<noteq> 0\<close> by (simp add: scan_value_def Let_def add.commute)
  finally show ?thesis .
qed

lemma encoded_valid:
  "aa23ValidateEncodedResponse wire = None \<longleftrightarrow>
     (\<exists>data. EncodeSlaveResponse data = Inr wire \<and> AA23EncodeResponse [] data = (wire, None))"
proof
  assume valid: "aa23ValidateEncodedResponse wire = None"
  then obtain crc decoded declared received where
    st: "validate_loop wire (0, 0, -1, -1) = Some (crc, decoded, declared, received)"
      "declared \<ge> 0" "decoded = declared + 2" "received = uint crc"
    by (auto simp: aa23ValidateEncodedResponse_def split: option.splits if_splits)
  obtain bs where bs: "wire = EscapeBytes bs" "(crc, decoded, declared, received) = foldl scan_value (0, 0, -1, -1) bs"
    using validate_loop_Some [OF st(1)] by blast
  obtain len rest where cons: "bs = len # rest" using bs(2) st(2) by (cases bs) auto
  have "decoded = int (length bs)" "declared = uint len"
    using scan_count [of 0 0 "-1" "-1" bs] bs(2) cons by auto
  then have "int (length rest) = int (unat len + 1)" using st(3) cons by simp
  then have n: "length rest = unat len + 1" by (simp only: of_nat_eq_iff)
  then obtain data c where data: "rest = data @ [c]" "length data = unat len" by (cases rest rule: rev_cases) auto
  then have "crc = CRC (len # data)" "received = uint c"
    using bs(2) cons scan_complete [OF data(2), of c] by simp_all
  then have "c = CRC (len # data)" using st(4) by (simp add: word_uint_eq_iff)
  moreover have "byte_of_nat (length data) = len" unfolding data(2) by simp
  moreover have "length data \<le> 255" unfolding data(2) by (rule unat_byte_le_255)
  ultimately have "EncodeSlaveResponse data = Inr wire" "AA23EncodeResponse [] data = (wire, None)"
    using bs(1) cons data(1) by (simp_all add: EncodeSlaveResponse_def encode_response_segment Let_def)
  then show "\<exists>data. EncodeSlaveResponse data = Inr wire \<and> AA23EncodeResponse [] data = (wire, None)" by blast
next
  assume "\<exists>data. EncodeSlaveResponse data = Inr wire \<and> AA23EncodeResponse [] data = (wire, None)"
  then obtain data where enc: "EncodeSlaveResponse data = Inr wire" by blast
  then have data: "length data \<le> 255"
      "wire = EscapeBytes (byte_of_nat (length data) # data @ [CRC (byte_of_nat (length data) # data)])"
    by (auto simp: EncodeSlaveResponse_def Let_def split: if_splits)
  then have "unat (byte_of_nat (length data)) = length data" by simp
  then have "validate_loop wire (0, 0, -1, -1) =
      Some (CRC (byte_of_nat (length data) # data), uint (byte_of_nat (length data)) + 2, uint (byte_of_nat (length data)),
        uint (CRC (byte_of_nat (length data) # data)))"
    using validate_loop_escaped [of "byte_of_nat (length data) # data @ [CRC (byte_of_nat (length data) # data)]" "[]"]
      scan_complete [of data "byte_of_nat (length data)"] by (simp add: data(2))
  then show "aa23ValidateEncodedResponse wire = None" by (simp add: aa23ValidateEncodedResponse_def)
qed

text \<open>
  The check of prepared wire bytes accepts exactly the images the encoder produces, and both agree with the
  response encoder of the protocol engine: a plan can only hold well formed target responses.
\<close>

theorem encoded_response_valid_iff:
  "aa23ValidateEncodedResponse wire = None \<longleftrightarrow>
     (\<exists>data. EncodeSlaveResponse data = Inr wire \<and> AA23EncodeResponse [] data = (wire, None))"
  by (rule encoded_valid)

end
