(* ===== verification/Plan_Overlap.thy ===== *)
theory Plan_Overlap
  imports Plan_Codec Go_Heap "HOL-Library.Product_Lexorder" "HOL-Library.List_Lexorder"
begin

text \<open>
  Plan entries and the ambiguity check of a candidate plan, \<open>localworker/aa23_plans.go\<close>.  \<open>aa23PlanOverlaps\<close>
  sorts the entry indices in a scratch array by heapsort and compares neighbours; it is proved to find a conflict
  exactly when some request selects two entries.
\<close>

section \<open>Entries\<close>

datatype AA23Operation = AA23OperationUnspecified | AA23OperationRead | AA23OperationStateful

datatype AA23Phase =
  AA23PhaseNone | AA23PhaseRequest | AA23PhaseTargetACK | AA23PhaseResponse | AA23PhaseInitiatorACK | AA23PhaseEnded

record AA23SourceConstraint =
  sc_Any :: bool
  sc_Source :: byte

record AA23PlanEntry =
  pe_Source :: AA23SourceConstraint
  pe_Destination :: byte
  pe_PB :: byte
  pe_SB :: byte
  pe_RequestLength :: "32 word"
  pe_Request :: "byte list"
  pe_Operation :: AA23Operation
  pe_AllowedPhase :: AA23Phase
  pe_MaxEncodedBytes :: "32 word"
  pe_EncodedResponse :: "byte list"

section \<open>The order of the entries\<close>

text \<open>\<open>bytes.Compare\<close> of the standard library: lexicographic, a proper prefix first.\<close>

fun bytes_Compare :: "byte list \<Rightarrow> byte list \<Rightarrow> int" where
  "bytes_Compare [] [] = 0"
| "bytes_Compare [] (_ # _) = -1"
| "bytes_Compare (_ # _) [] = 1"
| "bytes_Compare (x # xs) (y # ys) = (if x = y then bytes_Compare xs ys else if x < y then -1 else 1)"

definition aa23OverlapLess :: "AA23PlanEntry \<Rightarrow> AA23PlanEntry \<Rightarrow> bool" where
  "aa23OverlapLess a b =
     (if pe_PB a \<noteq> pe_PB b then pe_PB a < pe_PB b
      else if pe_SB a \<noteq> pe_SB b then pe_SB a < pe_SB b
      else if bytes_Compare (pe_Request a) (pe_Request b) \<noteq> 0 then bytes_Compare (pe_Request a) (pe_Request b) < 0
      else if sc_Any (pe_Source a) \<noteq> sc_Any (pe_Source b) then sc_Any (pe_Source a)
      else sc_Source (pe_Source a) < sc_Source (pe_Source b))"

section \<open>Heapsort of the index scratch\<close>

function aa23SiftDown :: "AA23PlanEntry list \<Rightarrow> nat list \<Rightarrow> nat \<Rightarrow> nat \<Rightarrow> nat list" where
  "aa23SiftDown entries order root end' =
     (let child0 = 2 * root + 1 in
      if child0 \<ge> end' then order
      else let child = (if child0 + 1 < end' \<and> aa23OverlapLess (entries ! (order ! child0)) (entries ! (order ! (child0 + 1)))
                        then child0 + 1 else child0) in
        if \<not> aa23OverlapLess (entries ! (order ! root)) (entries ! (order ! child)) then order
        else aa23SiftDown entries (exchange order root child) child end')"
  by pat_completeness auto
termination by (relation "measure (\<lambda>(_, _, root, end'). end' - root)") auto

declare aa23SiftDown.simps [simp del]

text \<open>The two loops of the sort: \<open>heapify_loop\<close> handles the parents below its argument, \<open>sort_loop\<close> the last \<open>n\<close> places.\<close>

fun heapify_loop :: "AA23PlanEntry list \<Rightarrow> nat list \<Rightarrow> nat \<Rightarrow> nat list" where
  "heapify_loop entries order 0 = order"
| "heapify_loop entries order (Suc start) =
     heapify_loop entries (aa23SiftDown entries order start (length order)) start"

fun sort_loop :: "AA23PlanEntry list \<Rightarrow> nat list \<Rightarrow> nat \<Rightarrow> nat list" where
  "sort_loop entries order 0 = order"
| "sort_loop entries order (Suc n) =
     sort_loop entries (aa23SiftDown entries (exchange order 0 (Suc n)) 0 (Suc n)) n"

definition neighbours_clash :: "AA23PlanEntry \<Rightarrow> AA23PlanEntry \<Rightarrow> bool" where
  "neighbours_clash prior next \<longleftrightarrow>
     \<not> (pe_PB prior \<noteq> pe_PB next \<or> pe_SB prior \<noteq> pe_SB next \<or> pe_Request prior \<noteq> pe_Request next) \<and>
     (sc_Any (pe_Source prior) \<or> sc_Source (pe_Source prior) = sc_Source (pe_Source next))"

fun neighbour_scan :: "AA23PlanEntry list \<Rightarrow> nat list \<Rightarrow> bool" where
  "neighbour_scan entries (i # j # order) \<longleftrightarrow>
     neighbours_clash (entries ! i) (entries ! j) \<or> neighbour_scan entries (j # order)"
| "neighbour_scan entries _ \<longleftrightarrow> False"

text \<open>
  \<open>None\<close> is the panic of slicing a scratch that is shorter than the entries.  The scratch is overwritten before
  it is read, so its contents are not part of the result.
\<close>

definition sorted_order :: "AA23PlanEntry list \<Rightarrow> nat list" where
  "sorted_order entries =
     (let order = [0..<length entries];
          heap = heapify_loop entries order (length order div 2)
      in sort_loop entries heap (length order - 1))"

definition aa23PlanOverlaps :: "AA23PlanEntry list \<Rightarrow> nat list \<Rightarrow> bool option" where
  "aa23PlanOverlaps entries scratch =
     (if length scratch < length entries then None else Some (neighbour_scan entries (sorted_order entries)))"

definition aa23EntriesOverlap :: "AA23PlanEntry \<Rightarrow> AA23PlanEntry \<Rightarrow> bool" where
  "aa23EntriesOverlap a b \<longleftrightarrow>
     (if pe_PB a \<noteq> pe_PB b \<or> pe_SB a \<noteq> pe_SB b then False
      else if pe_Request a \<noteq> pe_Request b then False
      else sc_Any (pe_Source a) \<or> sc_Any (pe_Source b) \<or> sc_Source (pe_Source a) = sc_Source (pe_Source b))"

section \<open>The order is a linear order on keys\<close>

definition entry_key :: "AA23PlanEntry \<Rightarrow> byte \<times> byte \<times> byte list \<times> bool \<times> byte" where
  "entry_key e = (pe_PB e, pe_SB e, pe_Request e, \<not> sc_Any (pe_Source e), sc_Source (pe_Source e))"

lemma bytes_Compare_spec:
  "bytes_Compare xs ys = (if xs = ys then 0 else if xs < ys then -1 else 1)"
  by (induction xs ys rule: bytes_Compare.induct) auto

lemma OverlapLess_key: "aa23OverlapLess a b \<longleftrightarrow> entry_key a < entry_key b"
  by (auto simp: aa23OverlapLess_def entry_key_def bytes_Compare_spec less_prod_def' split: if_splits)

section \<open>Sifting down\<close>

definition ordered_from :: "(nat \<Rightarrow> 'k :: linorder) \<Rightarrow> nat \<Rightarrow> nat \<Rightarrow> nat list \<Rightarrow> bool" where
  "ordered_from f s n xs \<longleftrightarrow> (\<forall>p k. s \<le> p \<and> child p k \<and> k < n \<longrightarrow> f (xs ! k) \<le> f (xs ! p))"

text \<open>Heap order from \<open>s\<close> on but below position \<open>i\<close>, whose parent dominates its children.\<close>

definition ordered_except :: "(nat \<Rightarrow> 'k :: linorder) \<Rightarrow> nat \<Rightarrow> nat \<Rightarrow> nat list \<Rightarrow> nat \<Rightarrow> bool" where
  "ordered_except f s n xs i \<longleftrightarrow>
     (\<forall>p k. s \<le> p \<and> child p k \<and> k < n \<and> p \<noteq> i \<longrightarrow> f (xs ! k) \<le> f (xs ! p)) \<and>
     (\<forall>p c. s \<le> p \<and> child p i \<and> child i c \<and> c < n \<longrightarrow> f (xs ! c) \<le> f (xs ! p))"

lemma ordered_exchange:
  assumes ex: "ordered_except f s n xs i" and "child i j" and "j < n" and "n \<le> length xs"
    and up: "f (xs ! i) \<le> f (xs ! j)" and top: "\<forall>c. child i c \<and> c < n \<longrightarrow> f (xs ! c) \<le> f (xs ! j)"
  shows "ordered_except f s n (exchange xs i j) j"
proof -
  have ij: "i < j" "i < length xs" "j < length xs" using assms child_less by fastforce+
  note nth = exchange_nth [OF ij(2,3)]
  have "f (exchange xs i j ! k) \<le> f (exchange xs i j ! p)" if "s \<le> p" "child p k" "k < n" "p \<noteq> j" for p k
  proof (cases "p = i")
    case True
    then show ?thesis using that up top ij child_less [of p k] unfolding nth by auto
  next
    case False
    moreover have "k \<noteq> j" using False that(2) \<open>child i j\<close> child_unique by blast
    ultimately show ?thesis
    proof (cases "k = i")
      case True
      then show ?thesis using that ex \<open>child i j\<close> \<open>j < n\<close> ij False unfolding nth ordered_except_def by auto
    next
      case False
      then show ?thesis using that \<open>p \<noteq> i\<close> \<open>k \<noteq> j\<close> ex unfolding nth ordered_except_def by auto
    qed
  qed
  moreover have "f (exchange xs i j ! c) \<le> f (exchange xs i j ! p)"
    if "s \<le> p" "child p j" "child j c" "c < n" for p c
  proof -
    have "p = i" using that(2) \<open>child i j\<close> by (rule child_unique)
    then show ?thesis using that ex ij child_less [of j c] unfolding nth ordered_except_def by auto
  qed
  ultimately show ?thesis by (auto simp: ordered_except_def)
qed

text \<open>One turn of the loop.\<close>

lemma SiftDown_cases:
  fixes es :: "AA23PlanEntry list"
  defines "f \<equiv> \<lambda>i. entry_key (es ! i)"
  assumes "n \<le> length xs" and "i < n" and ex: "ordered_except f s n xs i"
  obtains (stop) "aa23SiftDown es xs i n = xs" "ordered_from f s n xs"
  | (move) j where "i < j" "j < n" "aa23SiftDown es xs i n = aa23SiftDown es (exchange xs i j) j n"
      "ordered_except f s n (exchange xs i j) j"
proof (cases "2 * i + 1 \<ge> n")
  case True
  then have "ordered_from f s n xs" using ex unfolding ordered_from_def ordered_except_def child_def by fastforce
  then show ?thesis using True by (intro stop) (simp_all add: aa23SiftDown.simps [of es xs i n])
next
  case False
  define j where "j = (if 2 * i + 1 + 1 < n \<and> f (xs ! (2 * i + 1)) < f (xs ! (2 * i + 1 + 1)) then 2 * i + 1 + 1 else 2 * i + 1)"
  have j: "child i j" "j < n" "i < j" using False by (auto simp: j_def child_def)
  have top: "\<forall>c. child i c \<and> c < n \<longrightarrow> f (xs ! c) \<le> f (xs ! j)" using False by (auto simp: j_def child_def)
  have unfold: "aa23SiftDown es xs i n = (if \<not> f (xs ! i) < f (xs ! j) then xs else aa23SiftDown es (exchange xs i j) j n)"
    using False by (subst aa23SiftDown.simps) (simp add: Let_def j_def f_def OverlapLess_key)
  show ?thesis
  proof (cases "f (xs ! i) < f (xs ! j)")
    case True
    then show ?thesis using unfold j assms top by (intro move [of j] ordered_exchange) auto
  next
    case stopped: False
    have "f (xs ! k) \<le> f (xs ! p)" if "s \<le> p" "child p k" "k < n" for p k
    proof (cases "p = i")
      case True
      then show ?thesis using that top stopped by (meson linorder_not_less order_trans)
    next
      case False
      then show ?thesis using that ex by (simp add: ordered_except_def)
    qed
    then have "ordered_from f s n xs" by (simp add: ordered_from_def)
    then show ?thesis using stopped unfold by (intro stop) simp_all
  qed
qed

lemma SiftDown_spec:
  assumes "n \<le> length xs" and "i < n" and "ordered_except (\<lambda>i. entry_key (es ! i)) s n xs i"
  shows "ordered_from (\<lambda>i. entry_key (es ! i)) s n (aa23SiftDown es xs i n) \<and>
    mset (aa23SiftDown es xs i n) = mset xs \<and> (\<forall>k \<ge> n. aa23SiftDown es xs i n ! k = xs ! k)"
  using assms
proof (induction "n - i" arbitrary: xs i rule: less_induct)
  case less
  from less.prems show ?case
  proof (cases rule: SiftDown_cases)
    case stop
    then show ?thesis by simp
  next
    case (move j)
    have "n - j < n - i" using move less.prems by linarith
    note IH = less.hyps [OF this _ move(2,4)]
    show ?thesis using IH move less.prems by (simp add: exchange_nth)
  qed
qed

lemma length_SiftDown:
  assumes "n \<le> length xs" and "i < n" and "ordered_except (\<lambda>i. entry_key (es ! i)) s n xs i"
  shows "length (aa23SiftDown es xs i n) = length xs"
  using SiftDown_spec [OF assms] by (metis size_mset)

section \<open>The sort\<close>

lemma ordered_from_except: "ordered_from f (Suc s) n xs \<Longrightarrow> ordered_except f s n xs s"
  unfolding ordered_from_def ordered_except_def using child_less by (fastforce simp: Suc_le_eq)

lemma heapify_spec:
  assumes "ordered_from (\<lambda>i. entry_key (es ! i)) s (length xs) xs" and "s \<le> length xs"
  shows "ordered_from (\<lambda>i. entry_key (es ! i)) 0 (length xs) (heapify_loop es xs s) \<and> mset (heapify_loop es xs s) = mset xs"
  using assms
proof (induction s arbitrary: xs)
  case (Suc s)
  have ex: "ordered_except (\<lambda>i. entry_key (es ! i)) s (length xs) xs s" using Suc.prems by (simp add: ordered_from_except)
  have "s < length xs" using Suc.prems by simp
  note sift = SiftDown_spec [OF order_refl this ex] length_SiftDown [OF order_refl this ex]
  show ?case using Suc.IH [of "aa23SiftDown es xs s (length xs)"] Suc.prems sift by simp
qed simp

text \<open>Partly sorted: the places from \<open>n\<close> on ascend and dominate the heap below them.\<close>

definition sorted_above :: "(nat \<Rightarrow> 'k :: linorder) \<Rightarrow> nat \<Rightarrow> nat list \<Rightarrow> bool" where
  "sorted_above f n xs \<longleftrightarrow> (\<forall>i j. i < j \<and> j < length xs \<and> n \<le> j \<longrightarrow> f (xs ! i) \<le> f (xs ! j))"

lemma ordered_from_root:
  assumes "ordered_from f 0 n xs" and "k < n"
  shows "f (xs ! k) \<le> f (xs ! 0)"
  using assms(2)
proof (induction k rule: less_induct)
  case (less k)
  show ?case
  proof (cases "k = 0")
    case False
    then have c: "child ((k - 1) div 2) k" "(k - 1) div 2 < k" using parent_child by auto
    then have "f (xs ! k) \<le> f (xs ! ((k - 1) div 2))" using assms(1) less.prems by (auto simp: ordered_from_def)
    also have "\<dots> \<le> f (xs ! 0)" using less c by simp
    finally show ?thesis .
  qed simp
qed

lemma sorted_above_perm:
  assumes "sorted_above f n xs" and "mset ys = mset xs" and "\<forall>k \<ge> n. ys ! k = xs ! k"
  shows "sorted_above f n ys"
proof -
  have len: "length ys = length xs" using assms(2) by (metis size_mset)
  have drop: "drop n ys = drop n xs" using assms(3) len by (intro nth_equalityI) simp_all
  then have "mset (take n ys) = mset (take n xs)"
    using assms(2) by (metis add_right_cancel append_take_drop_id mset_append)
  then have low: "set (take n ys) = set (take n xs)" by (metis set_mset_mset)
  have "f (ys ! i) \<le> f (ys ! j)" if "i < j" "j < length ys" "n \<le> j" for i j
  proof (cases "i < n")
    case True
    then have "ys ! i \<in> set (take n xs)" using that low by (metis in_set_conv_nth length_take min_less_iff_conj nth_take less_trans)
    then obtain k where k: "k < n" "k < length xs" "ys ! i = xs ! k" by (auto simp: in_set_conv_nth)
    then have "f (xs ! k) \<le> f (xs ! j)" using assms(1) that len by (simp add: sorted_above_def)
    then show ?thesis using k assms(3) that by simp
  next
    case False
    then show ?thesis using assms that len by (simp add: sorted_above_def)
  qed
  then show ?thesis by (simp add: sorted_above_def)
qed

lemma sorted_above_exchange:
  assumes "sorted_above f (Suc n) xs" and heap: "ordered_from f 0 (Suc n) xs" and "n < length xs"
  shows "sorted_above f n (exchange xs 0 n)"
proof -
  have z: "0 < length xs" using assms(3) by (cases xs) simp_all
  note nth = exchange_nth [OF z assms(3)]
  have "f (exchange xs 0 n ! i) \<le> f (exchange xs 0 n ! j)" if "i < j" "j < length xs" "n \<le> j" for i j
  proof (cases "j = n")
    case True
    then show ?thesis using that ordered_from_root [OF heap] unfolding nth by auto
  next
    case False
    then show ?thesis using that assms(1,3) unfolding nth by (auto simp: sorted_above_def)
  qed
  then show ?thesis by (simp add: sorted_above_def)
qed

lemma sort_spec:
  assumes "ordered_from (\<lambda>i. entry_key (es ! i)) 0 (Suc n) xs" and "sorted_above (\<lambda>i. entry_key (es ! i)) (Suc n) xs"
    and "n < length xs"
  shows "sorted_above (\<lambda>i. entry_key (es ! i)) 0 (sort_loop es xs n) \<and> mset (sort_loop es xs n) = mset xs"
  using assms
proof (induction n arbitrary: xs)
  case 0
  then show ?case by (auto simp: sorted_above_def)
next
  case (Suc n)
  let ?f = "\<lambda>i. entry_key (es ! i)" and ?x = "exchange xs 0 (Suc n)"
  let ?y = "aa23SiftDown es ?x 0 (Suc n)"
  have z: "0 < length xs" using Suc.prems(3) by (cases xs) simp_all
  have "ordered_except ?f 0 (Suc n) ?x 0"
    using Suc.prems(1,3) unfolding ordered_except_def ordered_from_def exchange_nth [OF z Suc.prems(3)]
    by (auto simp: child_def)
  moreover have "Suc n \<le> length ?x" "0 < Suc n" using Suc.prems(3) by simp_all
  ultimately have y: "ordered_from ?f 0 (Suc n) ?y" "mset ?y = mset ?x" "\<forall>k \<ge> Suc n. ?y ! k = ?x ! k" "length ?y = length ?x"
    using SiftDown_spec length_SiftDown by blast+
  have "mset ?y = mset xs" using y(2) mset_exchange [OF z Suc.prems(3)] by (rule trans)
  moreover have "sorted_above ?f (Suc n) ?y"
    using sorted_above_exchange [OF Suc.prems(2,1,3)] y(2,3) by (rule sorted_above_perm)
  moreover have "n < length ?y" using y(4) Suc.prems(3) by simp
  ultimately show ?case using Suc.IH [OF y(1)] unfolding sort_loop.simps by metis
qed

lemma sorted_order_spec:
  "sorted (map (\<lambda>i. entry_key (es ! i)) (sorted_order es)) \<and> mset (sorted_order es) = mset [0..<length es]"
proof (cases "es = []")
  case True
  then show ?thesis by (simp add: sorted_order_def)
next
  case False
  let ?f = "\<lambda>i. entry_key (es ! i)" and ?n = "length es"
  let ?h = "heapify_loop es [0..<?n] (?n div 2)"
  have "ordered_from ?f (?n div 2) ?n [0..<?n]" by (auto simp: ordered_from_def child_def)
  then have h: "ordered_from ?f 0 ?n ?h" "mset ?h = mset [0..<?n]"
    using heapify_spec [of es "?n div 2" "[0..<?n]"] by auto
  have len: "length ?h = ?n" using h(2) by (metis size_mset length_upt minus_nat.diff_0)
  have "sorted_above ?f 0 (sort_loop es ?h (?n - 1)) \<and> mset (sort_loop es ?h (?n - 1)) = mset ?h"
    using False h len by (intro sort_spec) (auto simp: sorted_above_def)
  then show ?thesis using h
    by (auto simp: sorted_order_def Let_def sorted_above_def sorted_iff_nth_mono_less)
qed

section \<open>Which plans are ambiguous\<close>

text \<open>A request \<open>(source, pb, sb, data)\<close> selects an entry.\<close>

definition entry_selects :: "AA23PlanEntry \<Rightarrow> byte \<Rightarrow> byte \<Rightarrow> byte \<Rightarrow> byte list \<Rightarrow> bool" where
  "entry_selects e src pb sb data \<longleftrightarrow>
     (sc_Any (pe_Source e) \<or> sc_Source (pe_Source e) = src) \<and> pe_PB e = pb \<and> pe_SB e = sb \<and> pe_Request e = data"

lemma EntriesOverlap_selects:
  "aa23EntriesOverlap a b \<longleftrightarrow> (\<exists>src pb sb data. entry_selects a src pb sb data \<and> entry_selects b src pb sb data)"
  by (auto simp: aa23EntriesOverlap_def entry_selects_def)

lemma EntriesOverlap_commute: "aa23EntriesOverlap a b \<longleftrightarrow> aa23EntriesOverlap b a"
  unfolding EntriesOverlap_selects by auto

lemma neighbours_clash_overlap: "neighbours_clash a b \<Longrightarrow> aa23EntriesOverlap a b"
  by (auto simp: neighbours_clash_def aa23EntriesOverlap_def)

text \<open>In key order, an entry that overlaps a later one clashes with every entry between them.\<close>

lemma overlap_between:
  assumes "aa23EntriesOverlap a c" and "entry_key a \<le> entry_key b" and "entry_key b \<le> entry_key c"
  shows "neighbours_clash a b"
  using assms
  by (auto simp: aa23EntriesOverlap_def neighbours_clash_def entry_key_def split: if_splits)

lemma tail_pairs:
  "(\<exists>a b. 0 < a \<and> a < b \<and> b < length (x # xs) \<and> P ((x # xs) ! a) ((x # xs) ! b)) \<longleftrightarrow>
   (\<exists>a b. a < b \<and> b < length xs \<and> P (xs ! a) (xs ! b))"
proof
  assume "\<exists>a b. 0 < a \<and> a < b \<and> b < length (x # xs) \<and> P ((x # xs) ! a) ((x # xs) ! b)"
  then obtain a b where "0 < a" "a < b" "b < length (x # xs)" "P ((x # xs) ! a) ((x # xs) ! b)" by blast
  then show "\<exists>a b. a < b \<and> b < length xs \<and> P (xs ! a) (xs ! b)"
    by (intro exI [of _ "a - 1"] exI [of _ "b - 1"]) (auto simp: nth_Cons')
next
  assume "\<exists>a b. a < b \<and> b < length xs \<and> P (xs ! a) (xs ! b)"
  then obtain a b where "a < b" "b < length xs" "P (xs ! a) (xs ! b)" by blast
  then show "\<exists>a b. 0 < a \<and> a < b \<and> b < length (x # xs) \<and> P ((x # xs) ! a) ((x # xs) ! b)"
    by (intro exI [of _ "Suc a"] exI [of _ "Suc b"]) simp
qed

lemma neighbour_scan_sorted:
  assumes "sorted (map (\<lambda>i. entry_key (es ! i)) order)"
  shows "neighbour_scan es order \<longleftrightarrow>
    (\<exists>a b. a < b \<and> b < length order \<and> aa23EntriesOverlap (es ! (order ! a)) (es ! (order ! b)))"
  using assms
proof (induction es order rule: neighbour_scan.induct)
  case (1 es i j order)
  let ?o = "\<lambda>a b. aa23EntriesOverlap (es ! ((i # j # order) ! a)) (es ! ((i # j # order) ! b))"
  have first: "neighbours_clash (es ! i) (es ! j) \<longleftrightarrow> (\<exists>b. 0 < b \<and> b < length (i # j # order) \<and> ?o 0 b)"
  proof
    assume "neighbours_clash (es ! i) (es ! j)"
    then show "\<exists>b. 0 < b \<and> b < length (i # j # order) \<and> ?o 0 b"
      by (intro exI [of _ 1]) (simp add: neighbours_clash_overlap)
  next
    assume "\<exists>b. 0 < b \<and> b < length (i # j # order) \<and> ?o 0 b"
    then obtain b where b: "0 < b" "b < length (i # j # order)" "?o 0 b" by blast
    then have "(i # j # order) ! b \<in> set (j # order)" by (auto simp: nth_Cons')
    then have "entry_key (es ! i) \<le> entry_key (es ! j)" "entry_key (es ! j) \<le> entry_key (es ! ((i # j # order) ! b))"
      using "1.prems" by auto
    then show "neighbours_clash (es ! i) (es ! j)" using overlap_between b(3) by simp
  qed
  have "neighbour_scan es (j # order) \<longleftrightarrow>
      (\<exists>a b. a < b \<and> b < length (j # order) \<and> aa23EntriesOverlap (es ! ((j # order) ! a)) (es ! ((j # order) ! b)))"
    using 1 by simp
  also have "\<dots> \<longleftrightarrow> (\<exists>a b. 0 < a \<and> a < b \<and> b < length (i # j # order) \<and> ?o a b)"
    by (rule tail_pairs [symmetric])
  finally show ?case using first by (metis gr0I neighbour_scan.simps(1))
qed auto

lemma overlaps_iff:
  assumes "length entries \<le> length scratch"
  shows "aa23PlanOverlaps entries scratch = Some (\<exists>i j src pb sb data. i < j \<and> j < length entries \<and>
    entry_selects (entries ! i) src pb sb data \<and> entry_selects (entries ! j) src pb sb data)"
proof -
  let ?ord = "sorted_order entries" and ?o = "\<lambda>i j. aa23EntriesOverlap (entries ! i) (entries ! j)"
  have s: "sorted (map (\<lambda>i. entry_key (entries ! i)) ?ord)" and m: "mset ?ord = mset [0..<length entries]"
    using sorted_order_spec by blast+
  have d: "distinct ?ord" "set ?ord = {0..<length entries}"
    using mset_eq_imp_distinct_iff [OF m] mset_eq_setD [OF m] by simp_all
  have "(\<exists>a b. a < b \<and> b < length ?ord \<and> ?o (?ord ! a) (?ord ! b)) \<longleftrightarrow> (\<exists>i j. i < j \<and> j < length entries \<and> ?o i j)"
  proof
    assume "\<exists>a b. a < b \<and> b < length ?ord \<and> ?o (?ord ! a) (?ord ! b)"
    then obtain a b where ab: "a < b" "b < length ?ord" "?o (?ord ! a) (?ord ! b)" by blast
    have "?ord ! a \<noteq> ?ord ! b" "?ord ! a < length entries" "?ord ! b < length entries"
      using ab d nth_mem [of a ?ord] nth_mem [of b ?ord] by (auto simp: nth_eq_iff_index_eq)
    then show "\<exists>i j. i < j \<and> j < length entries \<and> ?o i j"
      using ab(3) EntriesOverlap_commute by (metis linorder_neqE_nat)
  next
    assume "\<exists>i j. i < j \<and> j < length entries \<and> ?o i j"
    then obtain i j where ij: "i < j" "j < length entries" "?o i j" by blast
    then have "i \<in> set ?ord" "j \<in> set ?ord" using d(2) by auto
    then obtain a b where ab: "a < length ?ord" "b < length ?ord" "?ord ! a = i" "?ord ! b = j"
      by (metis in_set_conv_nth)
    then have "a \<noteq> b" using ij by auto
    then show "\<exists>a b. a < b \<and> b < length ?ord \<and> ?o (?ord ! a) (?ord ! b)"
      using ab ij EntriesOverlap_commute by (metis linorder_neqE_nat)
  qed
  then show ?thesis
    using assms neighbour_scan_sorted [OF s] by (simp add: aa23PlanOverlaps_def EntriesOverlap_selects)
qed

text \<open>
  C27: The heapsort check reports an ambiguity exactly when two different entries of the plan can be selected by the
  same request, for every plan the scratch has room for.
\<close>

theorem PlanOverlaps_iff_ambiguous:
  assumes "length entries \<le> length scratch"
  shows "aa23PlanOverlaps entries scratch = Some (\<exists>i j src pb sb data. i < j \<and> j < length entries \<and>
    entry_selects (entries ! i) src pb sb data \<and> entry_selects (entries ! j) src pb sb data)"
  using assms by (rule overlaps_iff)

definition sample_entry :: "bool \<Rightarrow> byte \<Rightarrow> byte \<Rightarrow> AA23PlanEntry" where
  "sample_entry any src sb = \<lparr>pe_Source = \<lparr>sc_Any = any, sc_Source = src\<rparr>, pe_Destination = 0x08, pe_PB = 0x07, pe_SB = sb,
     pe_RequestLength = 1, pe_Request = [0x01], pe_Operation = AA23OperationRead, pe_AllowedPhase = AA23PhaseResponse,
     pe_MaxEncodedBytes = 3, pe_EncodedResponse = fst (AA23EncodeResponse [] [0x2A])\<rparr>"

theorem PlanOverlaps_iff_ambiguous_witness:
  "aa23PlanOverlaps [sample_entry False 0x10 0x04, sample_entry False 0x10 0x05, sample_entry True 0 0x04] [0, 0, 0, 0] = Some True"
proof -
  let ?es = "[sample_entry False 0x10 0x04, sample_entry False 0x10 0x05, sample_entry True 0 0x04]"
  have "0 < (2::nat) \<and> 2 < length ?es \<and> entry_selects (?es ! 0) 0x10 0x07 0x04 [0x01] \<and> entry_selects (?es ! 2) 0x10 0x07 0x04 [0x01]"
    by (simp add: entry_selects_def sample_entry_def)
  then have "\<exists>i j src pb sb data. i < j \<and> j < length ?es \<and> entry_selects (?es ! i) src pb sb data \<and> entry_selects (?es ! j) src pb sb data"
    by blast
  then show ?thesis using PlanOverlaps_iff_ambiguous [of ?es "[0, 0, 0, 0]"] by simp
qed

end
