(* ===== verification/Plan_Registry.thy ===== *)
theory Plan_Registry
  imports Plan_Overlap
begin

text \<open>
  The host side of the worker plans, \<open>localworker/aa23_plans.go\<close>: identities, limits, the clock guard, the slot pool
  and every operation of \<open>AA23Registry\<close>.  Identities, generations and ticks are 64 bit words, counters 32 bit
  words.  An index or length is a natural number: each is bounded by the length of a slice the registry allocated
  from a \<open>uint32\<close> limit, so that no conversion of one can truncate.  A pointer into a table is the index of the row.
\<close>

section \<open>Identities and limits\<close>

type_synonym id64 = "64 word"
type_synonym tick = "64 word"

abbreviation MaxUint64 :: "64 word" where "MaxUint64 \<equiv> - 1"

record AA23ClockReading =
  cr_Domain :: id64
  cr_Tick :: tick

record AA23Limits =
  lim_MaxSubscribers :: "32 word"
  lim_MaxRegistrations :: "32 word"
  lim_MaxMasters :: "32 word"
  lim_MaxPlanSlots :: "32 word"
  lim_MaxEntriesPerPlan :: "32 word"
  lim_MaxRequestBytes :: "32 word"
  lim_MaxEncodedResponseBytes :: "32 word"
  lim_MaxPlanBytes :: "32 word"
  lim_MaxLeaseTicks :: tick

definition aa23PoolByteCeiling :: "64 word" where "aa23PoolByteCeiling = 0x4000000"
definition aa23EntryAccountingBytes :: "64 word" where "aa23EntryAccountingBytes = 64"
definition aa23AddressSpace :: "32 word" where "aa23AddressSpace = 256"
definition aa23MaxEncodedResponse :: "32 word" where "aa23MaxEncodedResponse = 2 * (1 + 255 + 1)"

definition limits_Validate :: "AA23Limits \<Rightarrow> aa23_error option" where
  "limits_Validate l =
     (let entryBytes = ucast (lim_MaxEntriesPerPlan l) * aa23EntryAccountingBytes;
          slotBytes = ucast (lim_MaxPlanBytes l) + entryBytes :: 64 word
      in
      if lim_MaxSubscribers l = 0 \<or> lim_MaxRegistrations l = 0 \<or> lim_MaxMasters l = 0 \<or> lim_MaxPlanSlots l = 0
         \<or> lim_MaxEntriesPerPlan l = 0 \<or> lim_MaxRequestBytes l = 0 \<or> lim_MaxEncodedResponseBytes l = 0
         \<or> lim_MaxPlanBytes l = 0 \<or> lim_MaxLeaseTicks l = 0 then Some ErrAA23InvalidLimits
      else if lim_MaxRegistrations l > aa23AddressSpace \<or> lim_MaxMasters l > aa23AddressSpace
         \<or> lim_MaxSubscribers l > aa23AddressSpace then Some ErrAA23InvalidLimits
      else if lim_MaxRequestBytes l > 255 \<or> lim_MaxEncodedResponseBytes l > aa23MaxEncodedResponse
        then Some ErrAA23InvalidLimits
      else if (ucast (lim_MaxPlanBytes l) :: 64 word) < ucast (lim_MaxRequestBytes l) + ucast (lim_MaxEncodedResponseBytes l)
        then Some ErrAA23InvalidLimits
      else if slotBytes < entryBytes \<or> slotBytes > aa23PoolByteCeiling
         \<or> ucast (lim_MaxPlanSlots l) > aa23PoolByteCeiling div slotBytes then Some ErrAA23InvalidLimits
      else None)"

record AA23RegistrationKey =
  rk_Subscriber :: id64
  rk_Address :: byte
  rk_Epoch :: id64

definition key_Matches :: "AA23RegistrationKey \<Rightarrow> AA23RegistrationKey \<Rightarrow> bool" where
  "key_Matches k other =
     (if rk_Subscriber k \<noteq> rk_Subscriber other then False
      else if rk_Address k \<noteq> rk_Address other then False
      else rk_Epoch k = rk_Epoch other)"

datatype AA23FailureAction = AA23FailureUnspecified | AA23FailureSilence | AA23FailureNACK

record AA23FailurePolicy =
  fp_Unavailable :: AA23FailureAction
  fp_Malformed :: AA23FailureAction
  fp_Timeout :: AA23FailureAction

definition policy_Validate :: "AA23FailurePolicy \<Rightarrow> aa23_error option" where
  "policy_Validate p =
     (if list_ex (\<lambda>action. action \<noteq> AA23FailureSilence) [fp_Unavailable p, fp_Malformed p, fp_Timeout p]
      then Some ErrAA23Unsupported else None)"

record AA23Registration =
  rg_Key :: AA23RegistrationKey
  rg_LeaseExpiry :: tick
  rg_Source :: id64
  rg_SourceLeaseExpiry :: tick
  rg_Failure :: AA23FailurePolicy

datatype AA23RegistrationState = AA23RegistrationAbsent | AA23RegistrationActive | AA23RegistrationRetiring

record AA23RegistrationView =
  rv_Registered :: AA23Registration
  rv_State :: AA23RegistrationState
  rv_LeaseExpiry :: tick
  rv_Source :: id64
  rv_SourceLeaseExpiry :: tick

record AA23PlanIdentity =
  pi_Registration :: AA23RegistrationKey
  pi_Worker :: id64
  pi_Stream :: id64
  pi_Plan :: id64
  pi_Source :: id64

definition identity_Matches :: "AA23PlanIdentity \<Rightarrow> AA23PlanIdentity \<Rightarrow> bool" where
  "identity_Matches i other =
     (if \<not> key_Matches (pi_Registration i) (pi_Registration other) then False
      else if pi_Worker i \<noteq> pi_Worker other then False
      else if pi_Stream i \<noteq> pi_Stream other then False
      else if pi_Plan i \<noteq> pi_Plan other then False
      else pi_Source i = pi_Source other)"

record AA23PlanCandidate =
  pc_Identity :: AA23PlanIdentity
  pc_PlanExpiry :: tick
  pc_Failure :: AA23FailurePolicy
  pc_Entries :: "AA23PlanEntry list"

record AA23PlanValidity =
  va_Domain :: id64
  va_PlanExpiry :: tick
  va_RegistrationExpiry :: tick
  va_SourceLeaseExpiry :: tick

definition validity_Check :: "AA23PlanValidity \<Rightarrow> AA23ClockReading \<Rightarrow> aa23_error option" where
  "validity_Check v now =
     (if cr_Domain now \<noteq> va_Domain v then Some ErrAA23ClockClosed
      else if cr_Tick now \<ge> va_PlanExpiry v then Some ErrAA23Expired
      else if cr_Tick now \<ge> va_RegistrationExpiry v then Some ErrAA23Expired
      else if cr_Tick now \<ge> va_SourceLeaseExpiry v then Some ErrAA23Expired
      else None)"

text \<open>Zero values of the Go types.\<close>

definition zero_key :: AA23RegistrationKey where
  "zero_key = \<lparr>rk_Subscriber = 0, rk_Address = 0, rk_Epoch = 0\<rparr>"
definition zero_policy :: AA23FailurePolicy where
  "zero_policy = \<lparr>fp_Unavailable = AA23FailureUnspecified, fp_Malformed = AA23FailureUnspecified, fp_Timeout = AA23FailureUnspecified\<rparr>"
definition zero_registration :: AA23Registration where
  "zero_registration = \<lparr>rg_Key = zero_key, rg_LeaseExpiry = 0, rg_Source = 0, rg_SourceLeaseExpiry = 0, rg_Failure = zero_policy\<rparr>"
definition zero_view :: AA23RegistrationView where
  "zero_view = \<lparr>rv_Registered = zero_registration, rv_State = AA23RegistrationAbsent, rv_LeaseExpiry = 0, rv_Source = 0, rv_SourceLeaseExpiry = 0\<rparr>"
definition zero_identity :: AA23PlanIdentity where
  "zero_identity = \<lparr>pi_Registration = zero_key, pi_Worker = 0, pi_Stream = 0, pi_Plan = 0, pi_Source = 0\<rparr>"
definition zero_validity :: AA23PlanValidity where
  "zero_validity = \<lparr>va_Domain = 0, va_PlanExpiry = 0, va_RegistrationExpiry = 0, va_SourceLeaseExpiry = 0\<rparr>"

section \<open>Slots\<close>

datatype AA23SlotState =
  AA23SlotInvalid | AA23SlotFree | AA23SlotWriting | AA23SlotPublished | AA23SlotRetained | AA23SlotReclaimable

record AA23SlotRef =
  sr_Index :: nat
  sr_Incarnation :: id64

definition zero_ref :: AA23SlotRef where "zero_ref = \<lparr>sr_Index = 0, sr_Incarnation = 0\<rparr>"

datatype AA23RetireReason = AA23RetireNone | AA23RetireSuperseded | AA23RetireExpired | AA23RetireRevoked

primrec reason_rank :: "AA23RetireReason \<Rightarrow> nat" where
  "reason_rank AA23RetireNone = 0"
| "reason_rank AA23RetireSuperseded = 1"
| "reason_rank AA23RetireExpired = 2"
| "reason_rank AA23RetireRevoked = 3"

lemma reason_rank_inj: "reason_rank a = reason_rank b \<Longrightarrow> a = b"
  by (cases a; cases b) simp_all

instantiation AA23RetireReason :: linorder
begin

definition less_eq_AA23RetireReason :: "AA23RetireReason \<Rightarrow> AA23RetireReason \<Rightarrow> bool" where
  "less_eq_AA23RetireReason a b \<longleftrightarrow> reason_rank a \<le> reason_rank b"

definition less_AA23RetireReason :: "AA23RetireReason \<Rightarrow> AA23RetireReason \<Rightarrow> bool" where
  "less_AA23RetireReason a b \<longleftrightarrow> reason_rank a < reason_rank b"

instance
  by standard (auto simp: less_eq_AA23RetireReason_def less_AA23RetireReason_def intro: reason_rank_inj)

end

record AA23PublishNotice =
  pn_Slot :: AA23SlotRef
  pn_Identity :: AA23PlanIdentity

record AA23RevocationNotice =
  rn_Slot :: AA23SlotRef
  rn_Identity :: AA23PlanIdentity
  rn_Reason :: AA23RetireReason

record AA23Acknowledgement =
  ak_Slot :: AA23SlotRef
  ak_Identity :: AA23PlanIdentity

record aa23EntryRecord =
  er_SourceAny :: bool
  er_Source :: byte
  er_PB :: byte
  er_SB :: byte
  er_Phase :: AA23Phase
  er_RequestStart :: nat
  er_RequestLen :: nat
  er_ReplyStart :: nat
  er_ReplyLen :: nat

record aa23Slot =
  sl_State :: AA23SlotState
  sl_Incarnation :: id64
  sl_Identity :: AA23PlanIdentity
  sl_Validity :: AA23PlanValidity
  sl_Reason :: AA23RetireReason
  sl_Pinned :: bool
  sl_EntryCount :: nat
  sl_Entries :: "aa23EntryRecord list"
  sl_Bytes :: "byte list"

type_synonym AA23Pool = "aa23Slot list"

definition zero_entry :: aa23EntryRecord where
  "zero_entry = \<lparr>er_SourceAny = False, er_Source = 0, er_PB = 0, er_SB = 0, er_Phase = AA23PhaseNone,
     er_RequestStart = 0, er_RequestLen = 0, er_ReplyStart = 0, er_ReplyLen = 0\<rparr>"

definition new_slot :: "AA23Limits \<Rightarrow> aa23Slot" where
  "new_slot l = \<lparr>sl_State = AA23SlotFree, sl_Incarnation = 1, sl_Identity = zero_identity, sl_Validity = zero_validity,
     sl_Reason = AA23RetireNone, sl_Pinned = False, sl_EntryCount = 0,
     sl_Entries = replicate (unat (lim_MaxEntriesPerPlan l)) zero_entry, sl_Bytes = replicate (unat (lim_MaxPlanBytes l)) 0\<rparr>"

definition aa23NewPool :: "AA23Limits \<Rightarrow> AA23Pool" where
  "aa23NewPool l = replicate (unat (lim_MaxPlanSlots l)) (new_slot l)"

definition aa23Resolve :: "AA23Pool \<Rightarrow> AA23SlotRef \<Rightarrow> aa23_error + nat" where
  "aa23Resolve pool ref =
     (if sr_Index ref \<ge> length pool then Inl ErrAA23SlotState
      else if sl_Incarnation (pool ! sr_Index ref) \<noteq> sr_Incarnation ref then Inl ErrAA23SlotState
      else Inr (sr_Index ref))"

definition pool_SlotState :: "AA23Pool \<Rightarrow> nat \<Rightarrow> AA23SlotState" where
  "pool_SlotState pool i = (if i \<ge> length pool then AA23SlotInvalid else sl_State (pool ! i))"

record AA23SlotCounts =
  ct_Free :: nat
  ct_Writing :: nat
  ct_Published :: nat
  ct_Retained :: nat
  ct_Reclaimable :: nat

fun counts_loop :: "AA23SlotCounts \<Rightarrow> AA23Pool \<Rightarrow> AA23SlotCounts" where
  "counts_loop c [] = c"
| "counts_loop c (s # pool) = counts_loop
     (case sl_State s of
        AA23SlotFree \<Rightarrow> c\<lparr>ct_Free := ct_Free c + 1\<rparr>
      | AA23SlotWriting \<Rightarrow> c\<lparr>ct_Writing := ct_Writing c + 1\<rparr>
      | AA23SlotPublished \<Rightarrow> c\<lparr>ct_Published := ct_Published c + 1\<rparr>
      | AA23SlotRetained \<Rightarrow> c\<lparr>ct_Retained := ct_Retained c + 1\<rparr>
      | AA23SlotReclaimable \<Rightarrow> c\<lparr>ct_Reclaimable := ct_Reclaimable c + 1\<rparr>
      | AA23SlotInvalid \<Rightarrow> c) pool"

definition AA23Counts :: "AA23Pool \<Rightarrow> AA23SlotCounts" where
  "AA23Counts pool = counts_loop \<lparr>ct_Free = 0, ct_Writing = 0, ct_Published = 0, ct_Retained = 0, ct_Reclaimable = 0\<rparr> pool"

definition aa23Release :: "aa23Slot \<Rightarrow> aa23Slot \<times> aa23_error option" where
  "aa23Release s =
     (if sl_Incarnation s = MaxUint64 then (s, Some ErrAA23CounterExhausted)
      else (s\<lparr>sl_Incarnation := sl_Incarnation s + 1, sl_State := AA23SlotFree, sl_Identity := zero_identity,
              sl_Validity := zero_validity, sl_Reason := AA23RetireNone, sl_EntryCount := 0\<rparr>, None))"

text \<open>The idiom around a slot the worker never saw: release it, or take it out of service when it cannot advance.\<close>

definition release_or_park :: "aa23Slot \<Rightarrow> aa23Slot" where
  "release_or_park s = (case aa23Release s of (s', None) \<Rightarrow> s' | (s', Some _) \<Rightarrow> s'\<lparr>sl_State := AA23SlotReclaimable\<rparr>)"

definition AA23Reclaim :: "AA23Pool \<Rightarrow> AA23SlotRef \<Rightarrow> AA23Pool \<times> aa23_error option" where
  "AA23Reclaim pool ref =
     (case aa23Resolve pool ref of
        Inl e \<Rightarrow> (pool, Some e)
      | Inr i \<Rightarrow>
          if sl_State (pool ! i) \<noteq> AA23SlotReclaimable then (pool, Some ErrAA23SlotState)
          else let (s, e) = aa23Release (pool ! i) in (pool[i := s], e))"

definition slot_Ref :: "aa23Slot \<Rightarrow> nat \<Rightarrow> AA23SlotRef" where
  "slot_Ref s i = \<lparr>sr_Index = i, sr_Incarnation = sl_Incarnation s\<rparr>"

text \<open>The two bounded listings: append to a slice of length and capacity \<open>dst\<close>, \<open>cap\<close> until it is full.\<close>

fun list_pending :: "(nat \<Rightarrow> 'a option) \<Rightarrow> nat \<Rightarrow> nat list \<Rightarrow> 'a list \<Rightarrow> 'a list" where
  "list_pending item cap [] dst = dst"
| "list_pending item cap (i # is) dst =
     (if length dst = cap then dst
      else list_pending item cap is (case item i of None \<Rightarrow> dst | Some a \<Rightarrow> dst @ [a]))"

definition AA23PendingReclaims :: "AA23Pool \<Rightarrow> AA23SlotRef list \<Rightarrow> nat \<Rightarrow> AA23SlotRef list" where
  "AA23PendingReclaims pool dst cap =
     list_pending (\<lambda>i. if sl_State (pool ! i) = AA23SlotReclaimable then Some (slot_Ref (pool ! i) i) else None)
       cap [0..<length pool] dst"

section \<open>The clock guard\<close>

record aa23ClockGuard =
  cg_Started :: bool
  cg_Closed :: bool
  cg_Domain :: id64
  cg_Last :: tick

definition zero_guard :: aa23ClockGuard where
  "zero_guard = \<lparr>cg_Started = False, cg_Closed = False, cg_Domain = 0, cg_Last = 0\<rparr>"

definition aa23Observe :: "aa23ClockGuard \<Rightarrow> AA23ClockReading \<Rightarrow> aa23ClockGuard \<times> aa23_error option" where
  "aa23Observe g now =
     (if cg_Closed g then (g, Some ErrAA23ClockClosed)
      else if cr_Domain now = 0 then (g\<lparr>cg_Closed := True\<rparr>, Some ErrAA23ClockClosed)
      else if \<not> cg_Started g then (g\<lparr>cg_Started := True, cg_Domain := cr_Domain now, cg_Last := cr_Tick now\<rparr>, None)
      else if cr_Domain now \<noteq> cg_Domain g \<or> cr_Tick now < cg_Last g then (g\<lparr>cg_Closed := True\<rparr>, Some ErrAA23ClockClosed)
      else (g\<lparr>cg_Last := cr_Tick now\<rparr>, None))"

section \<open>Registry state\<close>

record aa23RegistrationRecord =
  rr_Used :: bool
  rr_State :: AA23RegistrationState
  rr_Registered :: AA23Registration
  rr_LeaseExpiry :: tick
  rr_Source :: id64
  rr_SourceLease :: tick
  rr_Published :: int
  rr_PublishTop :: id64

definition zero_record :: aa23RegistrationRecord where
  "zero_record = \<lparr>rr_Used = False, rr_State = AA23RegistrationAbsent, rr_Registered = zero_registration,
     rr_LeaseExpiry = 0, rr_Source = 0, rr_SourceLease = 0, rr_Published = 0, rr_PublishTop = 0\<rparr>"

record aa23SubscriberRecord =
  su_ID :: id64
  su_Open :: bool
  su_EpochHigh :: id64
  su_Registrations :: "32 word"

definition zero_subscriber :: aa23SubscriberRecord where
  "zero_subscriber = \<lparr>su_ID = 0, su_Open = False, su_EpochHigh = 0, su_Registrations = 0\<rparr>"

text \<open>\<open>re_ByAddress\<close> keeps the code's encoding: 0 is no record, \<open>i + 1\<close> is record \<open>i\<close>.\<close>

record AA23Registry =
  re_Limits :: AA23Limits
  re_Pool :: AA23Pool
  re_Clock :: aa23ClockGuard
  re_SubscriberTop :: id64
  re_Subscribers :: "aa23SubscriberRecord list"
  re_Records :: "aa23RegistrationRecord list"
  re_ByAddress :: "byte \<Rightarrow> nat"
  re_Masters :: "byte \<Rightarrow> id64"
  re_MasterCount :: "32 word"
  re_Conflicts :: "byte \<Rightarrow> bool"
  re_WorkerBound :: bool
  re_Worker :: id64
  re_Stream :: id64
  re_WorkerTop :: id64
  re_PlanTop :: id64
  re_OverlapScratch :: "nat list"

definition AA23NewRegistry :: "AA23Limits \<Rightarrow> id64 \<Rightarrow> aa23_error + AA23Registry" where
  "AA23NewRegistry l floor =
     (case limits_Validate l of
        Some e \<Rightarrow> Inl e
      | None \<Rightarrow> Inr \<lparr>re_Limits = l, re_Pool = aa23NewPool l, re_Clock = zero_guard, re_SubscriberTop = floor,
          re_Subscribers = replicate (unat (lim_MaxSubscribers l)) zero_subscriber,
          re_Records = replicate (unat (lim_MaxRegistrations l)) zero_record,
          re_ByAddress = (\<lambda>_. 0), re_Masters = (\<lambda>_. 0), re_MasterCount = 0, re_Conflicts = (\<lambda>_. False),
          re_WorkerBound = False, re_Worker = 0, re_Stream = 0, re_WorkerTop = 0, re_PlanTop = 0,
          re_OverlapScratch = replicate (unat (lim_MaxEntriesPerPlan l)) 0\<rparr>)"

fun first_index :: "('a \<Rightarrow> bool) \<Rightarrow> 'a list \<Rightarrow> nat option" where
  "first_index P [] = None"
| "first_index P (x # xs) = (if P x then Some 0 else map_option Suc (first_index P xs))"

definition aa23FindExact :: "AA23Registry \<Rightarrow> AA23RegistrationKey \<Rightarrow> nat option" where
  "aa23FindExact r k =
     (let i = re_ByAddress r (rk_Address k) in
      if i = 0 then None
      else if \<not> key_Matches (rg_Key (rr_Registered (re_Records r ! (i - 1)))) k then None
      else Some (i - 1))"

definition aa23FindSubscriber :: "AA23Registry \<Rightarrow> id64 \<Rightarrow> nat option" where
  "aa23FindSubscriber r i = (if i = 0 then None else first_index (\<lambda>s. su_ID s = i) (re_Subscribers r))"

text \<open>Writes through a row pointer.\<close>

definition upd_slot :: "nat \<Rightarrow> (aa23Slot \<Rightarrow> aa23Slot) \<Rightarrow> AA23Registry \<Rightarrow> AA23Registry" where
  "upd_slot i f r = r\<lparr>re_Pool := (re_Pool r)[i := f (re_Pool r ! i)]\<rparr>"

definition upd_record :: "nat \<Rightarrow> (aa23RegistrationRecord \<Rightarrow> aa23RegistrationRecord) \<Rightarrow> AA23Registry \<Rightarrow> AA23Registry" where
  "upd_record i f r = r\<lparr>re_Records := (re_Records r)[i := f (re_Records r ! i)]\<rparr>"

definition upd_subscriber :: "nat \<Rightarrow> (aa23SubscriberRecord \<Rightarrow> aa23SubscriberRecord) \<Rightarrow> AA23Registry \<Rightarrow> AA23Registry" where
  "upd_subscriber i f r = r\<lparr>re_Subscribers := (re_Subscribers r)[i := f (re_Subscribers r ! i)]\<rparr>"

section \<open>Retiring slots and registrations\<close>

definition clear_published :: "AA23RegistrationKey \<Rightarrow> AA23Registry \<Rightarrow> AA23Registry" where
  "clear_published k r =
     (case aa23FindExact r k of None \<Rightarrow> r | Some i \<Rightarrow> upd_record i (\<lambda>rec. rec\<lparr>rr_Published := -1\<rparr>) r)"

definition aa23RetireSlot :: "AA23RetireReason \<Rightarrow> nat \<Rightarrow> AA23Registry \<Rightarrow> AA23Registry" where
  "aa23RetireSlot reason i r =
     (case sl_State (re_Pool r ! i) of
        AA23SlotWriting \<Rightarrow> upd_slot i release_or_park r
      | AA23SlotPublished \<Rightarrow>
          clear_published (pi_Registration (sl_Identity (re_Pool r ! i)))
            (upd_slot i (\<lambda>s. s\<lparr>sl_State := AA23SlotRetained, sl_Reason := reason\<rparr>) r)
      | AA23SlotRetained \<Rightarrow>
          if reason > sl_Reason (re_Pool r ! i) then upd_slot i (\<lambda>s. s\<lparr>sl_Reason := reason\<rparr>) r else r
      | _ \<Rightarrow> r)"

fun retire_loop :: "AA23RetireReason \<Rightarrow> (aa23Slot \<Rightarrow> bool) \<Rightarrow> nat list \<Rightarrow> AA23Registry \<Rightarrow> AA23Registry" where
  "retire_loop reason selected [] r = r"
| "retire_loop reason selected (i # is) r = retire_loop reason selected is
     (if sl_State (re_Pool r ! i) \<in> {AA23SlotFree, AA23SlotReclaimable} then r
      else if selected (re_Pool r ! i) then aa23RetireSlot reason i r else r)"

definition aa23RetireWhere :: "AA23RetireReason \<Rightarrow> (aa23Slot \<Rightarrow> bool) \<Rightarrow> AA23Registry \<Rightarrow> AA23Registry" where
  "aa23RetireWhere reason selected r = retire_loop reason selected [0..<length (re_Pool r)] r"

definition aa23ObserveClock :: "AA23ClockReading \<Rightarrow> AA23Registry \<Rightarrow> AA23Registry \<times> aa23_error option" where
  "aa23ObserveClock now r =
     (let wasClosed = cg_Closed (re_Clock r);
          (g, err) = aa23Observe (re_Clock r) now;
          r1 = r\<lparr>re_Clock := g\<rparr>
      in (if err \<noteq> None \<and> \<not> wasClosed then aa23RetireWhere AA23RetireRevoked (\<lambda>_. True) r1 else r1, err))"

definition of_key :: "AA23RegistrationKey \<Rightarrow> aa23Slot \<Rightarrow> bool" where
  "of_key k s \<longleftrightarrow> key_Matches (pi_Registration (sl_Identity s)) k"

definition aa23ForgetClosedSubscriber :: "nat \<Rightarrow> AA23Registry \<Rightarrow> AA23Registry" where
  "aa23ForgetClosedSubscriber i r =
     (if su_Open (re_Subscribers r ! i) \<or> su_Registrations (re_Subscribers r ! i) \<noteq> 0 then r
      else upd_subscriber i (\<lambda>_. zero_subscriber) r)"

definition aa23Settle :: "AA23RegistrationKey \<Rightarrow> AA23Registry \<Rightarrow> AA23Registry" where
  "aa23Settle k r =
     (case aa23FindExact r k of
        None \<Rightarrow> r
      | Some i \<Rightarrow>
          if rr_State (re_Records r ! i) \<noteq> AA23RegistrationRetiring then r
          else if list_ex (\<lambda>s. sl_State s \<in> {AA23SlotPublished, AA23SlotRetained} \<and> of_key k s) (re_Pool r) then r
          else let r1 = upd_record i (\<lambda>_. zero_record) (r\<lparr>re_ByAddress := (re_ByAddress r)(rk_Address k := 0)\<rparr>) in
            case aa23FindSubscriber r1 (rk_Subscriber k) of
              None \<Rightarrow> r1
            | Some j \<Rightarrow> aa23ForgetClosedSubscriber j
                (upd_subscriber j (\<lambda>s. s\<lparr>su_Registrations := su_Registrations s - 1\<rparr>) r1))"

definition aa23Retire :: "AA23RetireReason \<Rightarrow> nat \<Rightarrow> AA23Registry \<Rightarrow> AA23Registry" where
  "aa23Retire reason i r =
     (let k = rg_Key (rr_Registered (re_Records r ! i)) in
      aa23Settle k (aa23RetireWhere reason (of_key k)
        (upd_record i (\<lambda>rec. rec\<lparr>rr_State := AA23RegistrationRetiring\<rparr>) r)))"

section \<open>Subscribers and registrations\<close>

definition AA23OpenSubscriber :: "AA23Registry \<Rightarrow> AA23Registry \<times> (aa23_error + id64)" where
  "AA23OpenSubscriber r =
     (if re_SubscriberTop r = MaxUint64 then (r, Inl ErrAA23CounterExhausted)
      else case first_index (\<lambda>s. su_ID s = 0) (re_Subscribers r) of
        None \<Rightarrow> (r, Inl ErrAA23Capacity)
      | Some i \<Rightarrow>
          let top = re_SubscriberTop r + 1 in
          (upd_subscriber i (\<lambda>_. \<lparr>su_ID = top, su_Open = True, su_EpochHigh = 0, su_Registrations = 0\<rparr>)
             (r\<lparr>re_SubscriberTop := top\<rparr>), Inr top))"

definition aa23CheckLease :: "AA23Registry \<Rightarrow> tick \<Rightarrow> AA23ClockReading \<Rightarrow> aa23_error option" where
  "aa23CheckLease r expiry now =
     (if cr_Tick now \<ge> expiry then Some ErrAA23Expired
      else if expiry - cr_Tick now > lim_MaxLeaseTicks (re_Limits r) then Some ErrAA23LeaseTooLong
      else None)"

definition record_View :: "aa23RegistrationRecord \<Rightarrow> AA23RegistrationView" where
  "record_View rec = \<lparr>rv_Registered = rr_Registered rec, rv_State = rr_State rec, rv_LeaseExpiry = rr_LeaseExpiry rec,
     rv_Source = rr_Source rec, rv_SourceLeaseExpiry = rr_SourceLease rec\<rparr>"

definition new_record :: "AA23Registration \<Rightarrow> aa23RegistrationRecord" where
  "new_record c = \<lparr>rr_Used = True, rr_State = AA23RegistrationActive, rr_Registered = c, rr_LeaseExpiry = rg_LeaseExpiry c,
     rr_Source = rg_Source c, rr_SourceLease = rg_SourceLeaseExpiry c, rr_Published = -1, rr_PublishTop = 0\<rparr>"

text \<open>\<open>AA23Register\<close> after its clock check: the refusals in order, then the insertion.\<close>

definition register_refusal :: "AA23Registration \<Rightarrow> AA23ClockReading \<Rightarrow> AA23Registry \<Rightarrow> aa23_error option" where
  "register_refusal c now r =
     (let k = rg_Key c in
      case aa23FindSubscriber r (rk_Subscriber k) of
        None \<Rightarrow> Some ErrAA23UnknownSubscriber
      | Some j \<Rightarrow>
          if \<not> su_Open (re_Subscribers r ! j) then Some ErrAA23UnknownSubscriber
          else if re_Conflicts r (rk_Address k) then Some ErrAA23PhysicalConflict
          else if su_EpochHigh (re_Subscribers r ! j) = MaxUint64 then Some ErrAA23CounterExhausted
          else if rk_Epoch k \<le> su_EpochHigh (re_Subscribers r ! j) then Some ErrAA23StaleEpoch
          else case policy_Validate (rg_Failure c) of
            Some e \<Rightarrow> Some e
          | None \<Rightarrow> (case aa23CheckLease r (rg_LeaseExpiry c) now of
              Some e \<Rightarrow> Some e
            | None \<Rightarrow> aa23CheckLease r (rg_SourceLeaseExpiry c) now))"

definition register_insert :: "AA23Registration \<Rightarrow> AA23Registry \<Rightarrow> AA23Registry \<times> (aa23_error + AA23RegistrationView)" where
  "register_insert c r =
     (let k = rg_Key c in
      case first_index (\<lambda>rec. \<not> rr_Used rec) (re_Records r) of
        None \<Rightarrow> (r, Inl ErrAA23Capacity)
      | Some i \<Rightarrow>
          (upd_subscriber (the (aa23FindSubscriber r (rk_Subscriber k)))
             (\<lambda>s. s\<lparr>su_EpochHigh := rk_Epoch k, su_Registrations := su_Registrations s + 1\<rparr>)
             (upd_record i (\<lambda>_. new_record c) (r\<lparr>re_ByAddress := (re_ByAddress r)(rk_Address k := i + 1)\<rparr>)),
           Inr (record_View (new_record c))))"

definition AA23Register ::
  "AA23Registration \<Rightarrow> AA23ClockReading \<Rightarrow> AA23Registry \<Rightarrow> AA23Registry \<times> (aa23_error + AA23RegistrationView)" where
  "AA23Register c now r0 =
     (let (r, err) = aa23ObserveClock now r0; k = rg_Key c in
      case err of
        Some e \<Rightarrow> (r, Inl e)
      | None \<Rightarrow>
          if rk_Subscriber k = 0 \<or> rk_Epoch k = 0 \<or> rg_Source c = 0 then (r, Inl ErrAA23InvalidIdentity)
          else if \<not> aa23IsTargetAddress (rk_Address k) then (r, Inl ErrAA23InvalidAddress)
          else if re_ByAddress r (rk_Address k) \<noteq> 0 then
            (let rec = re_Records r ! (re_ByAddress r (rk_Address k) - 1) in
             if \<not> key_Matches (rg_Key (rr_Registered rec)) k then (r, Inl ErrAA23DuplicateAddress)
             else if rr_Registered rec \<noteq> c then (r, Inl ErrAA23RegistrationConflict)
             else if rr_State rec \<noteq> AA23RegistrationActive then (r, Inl ErrAA23RegistrationRetiring)
             else (r, Inr (record_View rec)))
          else case register_refusal c now r of
            Some e \<Rightarrow> (r, Inl e)
          | None \<Rightarrow> register_insert c r)"

definition registration_view :: "AA23RegistrationKey \<Rightarrow> AA23Registry \<Rightarrow> AA23RegistrationView" where
  "registration_view k r = (case aa23FindExact r k of None \<Rightarrow> zero_view | Some i \<Rightarrow> record_View (re_Records r ! i))"

definition AA23Unregister :: "AA23RegistrationKey \<Rightarrow> AA23Registry \<Rightarrow> AA23Registry \<times> AA23RegistrationState" where
  "AA23Unregister k r =
     (case aa23FindExact r k of
        None \<Rightarrow> (r, AA23RegistrationAbsent)
      | Some i \<Rightarrow>
          let r1 = (if rr_State (re_Records r ! i) = AA23RegistrationActive then aa23Retire AA23RetireRevoked i r else r)
          in (r1, rv_State (registration_view k r1)))"

fun release_masters_loop :: "id64 \<Rightarrow> byte list \<Rightarrow> AA23Registry \<Rightarrow> AA23Registry" where
  "release_masters_loop sid [] r = r"
| "release_masters_loop sid (a # as) r = release_masters_loop sid as
     (if re_Masters r a \<noteq> 0 \<and> (sid = 0 \<or> re_Masters r a = sid)
      then r\<lparr>re_Masters := (re_Masters r)(a := 0), re_MasterCount := re_MasterCount r - 1\<rparr> else r)"

definition aa23ReleaseMastersWhere :: "id64 \<Rightarrow> AA23Registry \<Rightarrow> AA23Registry" where
  "aa23ReleaseMastersWhere sid r = release_masters_loop sid all_bytes r"

text \<open>The loops that retire active registrations row by row.\<close>

fun retire_records :: "AA23RetireReason \<Rightarrow> (aa23RegistrationRecord \<Rightarrow> bool) \<Rightarrow> nat list \<Rightarrow> AA23Registry \<Rightarrow> AA23Registry" where
  "retire_records reason selected [] r = r"
| "retire_records reason selected (i # is) r = retire_records reason selected is
     (if rr_Used (re_Records r ! i) \<and> rr_State (re_Records r ! i) = AA23RegistrationActive \<and> selected (re_Records r ! i)
      then aa23Retire reason i r else r)"

definition AA23DisconnectSubscriber :: "id64 \<Rightarrow> AA23Registry \<Rightarrow> AA23Registry" where
  "AA23DisconnectSubscriber sid r =
     (case aa23FindSubscriber r sid of
        None \<Rightarrow> r
      | Some j \<Rightarrow>
          let r1 = aa23ReleaseMastersWhere sid (upd_subscriber j (\<lambda>s. s\<lparr>su_Open := False\<rparr>) r);
              r2 = retire_records AA23RetireRevoked (\<lambda>rec. rk_Subscriber (rg_Key (rr_Registered rec)) = sid)
                     [0..<length (re_Records r1)] r1
          in case aa23FindSubscriber r2 sid of None \<Rightarrow> r2 | Some j2 \<Rightarrow> aa23ForgetClosedSubscriber j2 r2)"

definition AA23Reset :: "AA23Registry \<Rightarrow> AA23Registry" where
  "AA23Reset r =
     (let r1 = aa23ReleaseMastersWhere 0 r in
      retire_records AA23RetireRevoked (\<lambda>_. True) [0..<length (re_Records r1)] r1)"

section \<open>Initiator identities and known conflicts\<close>

definition AA23BindMaster :: "id64 \<Rightarrow> byte \<Rightarrow> AA23Registry \<Rightarrow> AA23Registry \<times> aa23_error option" where
  "AA23BindMaster sid a r =
     (if (case aa23FindSubscriber r sid of None \<Rightarrow> True | Some j \<Rightarrow> \<not> su_Open (re_Subscribers r ! j))
        then (r, Some ErrAA23UnknownSubscriber)
      else if \<not> aa23IsInitiatorAddress a then (r, Some ErrAA23InvalidAddress)
      else if re_Conflicts r a then (r, Some ErrAA23PhysicalConflict)
      else if re_Masters r a = sid then (r, None)
      else if re_Masters r a \<noteq> 0 then (r, Some ErrAA23MasterConflict)
      else if re_MasterCount r \<ge> lim_MaxMasters (re_Limits r) then (r, Some ErrAA23Capacity)
      else (r\<lparr>re_Masters := (re_Masters r)(a := sid), re_MasterCount := re_MasterCount r + 1\<rparr>, None))"

definition AA23ReleaseMaster :: "id64 \<Rightarrow> byte \<Rightarrow> AA23Registry \<Rightarrow> AA23Registry" where
  "AA23ReleaseMaster sid a r =
     (if sid \<noteq> 0 \<and> re_Masters r a = sid
      then r\<lparr>re_Masters := (re_Masters r)(a := 0), re_MasterCount := re_MasterCount r - 1\<rparr> else r)"

definition AA23MasterOwner :: "AA23Registry \<Rightarrow> byte \<Rightarrow> id64" where
  "AA23MasterOwner r a = re_Masters r a"

definition AA23MarkPhysicalConflict :: "byte \<Rightarrow> AA23Registry \<Rightarrow> AA23Registry" where
  "AA23MarkPhysicalConflict a r =
     aa23RetireWhere AA23RetireRevoked (\<lambda>s. rk_Address (pi_Registration (sl_Identity s)) = a)
       (r\<lparr>re_Conflicts := (re_Conflicts r)(a := True)\<rparr>)"

definition AA23ClearPhysicalConflict :: "byte \<Rightarrow> AA23Registry \<Rightarrow> AA23Registry" where
  "AA23ClearPhysicalConflict a r = r\<lparr>re_Conflicts := (re_Conflicts r)(a := False)\<rparr>"

definition AA23PhysicalConflict :: "AA23Registry \<Rightarrow> byte \<Rightarrow> bool" where
  "AA23PhysicalConflict r a = re_Conflicts r a"

section \<open>Leases, sources and expiry\<close>

definition active_record :: "AA23RegistrationKey \<Rightarrow> AA23Registry \<Rightarrow> nat option" where
  "active_record k r =
     (case aa23FindExact r k of
        None \<Rightarrow> None
      | Some i \<Rightarrow> if rr_State (re_Records r ! i) \<noteq> AA23RegistrationActive then None else Some i)"

definition AA23RenewRegistration ::
  "AA23RegistrationKey \<Rightarrow> tick \<Rightarrow> AA23ClockReading \<Rightarrow> AA23Registry \<Rightarrow> AA23Registry \<times> aa23_error option" where
  "AA23RenewRegistration k expiry now r0 =
     (let (r, err) = aa23ObserveClock now r0 in
      case err of
        Some e \<Rightarrow> (r, Some e)
      | None \<Rightarrow> (case active_record k r of
          None \<Rightarrow> (r, Some ErrAA23NotRegistered)
        | Some i \<Rightarrow>
            if cr_Tick now \<ge> rr_LeaseExpiry (re_Records r ! i) then (r, Some ErrAA23Expired)
            else if expiry < rr_LeaseExpiry (re_Records r ! i) then (r, Some ErrAA23StaleGeneration)
            else case aa23CheckLease r expiry now of
              Some e \<Rightarrow> (r, Some e)
            | None \<Rightarrow> (upd_record i (\<lambda>rec. rec\<lparr>rr_LeaseExpiry := expiry\<rparr>) r, None)))"

definition AA23AdvanceSource ::
  "AA23RegistrationKey \<Rightarrow> id64 \<Rightarrow> tick \<Rightarrow> AA23ClockReading \<Rightarrow> AA23Registry \<Rightarrow> AA23Registry \<times> aa23_error option" where
  "AA23AdvanceSource k source expiry now r0 =
     (let (r, err) = aa23ObserveClock now r0 in
      case err of
        Some e \<Rightarrow> (r, Some e)
      | None \<Rightarrow> (case active_record k r of
          None \<Rightarrow> (r, Some ErrAA23NotRegistered)
        | Some i \<Rightarrow>
            if source \<le> rr_Source (re_Records r ! i) then (r, Some ErrAA23StaleGeneration)
            else case aa23CheckLease r expiry now of
              Some e \<Rightarrow> (r, Some e)
            | None \<Rightarrow> (aa23RetireWhere AA23RetireRevoked (of_key k)
                (upd_record i (\<lambda>rec. rec\<lparr>rr_Source := source, rr_SourceLease := expiry\<rparr>) r), None)))"

definition AA23ExpireDue :: "AA23ClockReading \<Rightarrow> AA23Registry \<Rightarrow> AA23Registry \<times> aa23_error option" where
  "AA23ExpireDue now r0 =
     (let (r, err) = aa23ObserveClock now r0 in
      case err of
        Some e \<Rightarrow> (r, Some e)
      | None \<Rightarrow>
          let r1 = aa23RetireWhere AA23RetireExpired
                (\<lambda>s. sl_State s = AA23SlotPublished \<and> validity_Check (sl_Validity s) now \<noteq> None) r
          in (retire_records AA23RetireExpired (\<lambda>rec. cr_Tick now \<ge> rr_LeaseExpiry rec) [0..<length (re_Records r1)] r1, None))"

section \<open>Worker incarnations\<close>

definition AA23BindWorker :: "id64 \<Rightarrow> id64 \<Rightarrow> AA23Registry \<Rightarrow> AA23Registry \<times> aa23_error option" where
  "AA23BindWorker worker stream r =
     (if worker = 0 \<or> stream = 0 then (r, Some ErrAA23InvalidIdentity)
      else let newWorker = (worker > re_WorkerTop r);
               newStream = (worker = re_WorkerTop r \<and> re_WorkerBound r \<and> stream > re_Stream r)
        in if \<not> newWorker \<and> \<not> newStream then (r, Some ErrAA23StaleGeneration)
        else let r1 = aa23RetireWhere AA23RetireRevoked (\<lambda>_. True) r;
                 r2 = (if newWorker then r1\<lparr>re_PlanTop := 0, re_Records := map (\<lambda>rec. rec\<lparr>rr_PublishTop := 0\<rparr>) (re_Records r1)\<rparr> else r1)
          in (r2\<lparr>re_WorkerBound := True, re_Worker := worker, re_WorkerTop := worker, re_Stream := stream\<rparr>, None))"

fun terminate_loop :: "id64 \<Rightarrow> nat list \<Rightarrow> AA23Registry \<Rightarrow> AA23Registry" where
  "terminate_loop worker [] r = r"
| "terminate_loop worker (i # is) r = terminate_loop worker is
     (if sl_State (re_Pool r ! i) \<notin> {AA23SlotPublished, AA23SlotRetained} then r
      else if pi_Worker (sl_Identity (re_Pool r ! i)) \<noteq> worker then r
      else let k = pi_Registration (sl_Identity (re_Pool r ! i)) in
        aa23Settle k (upd_slot i (\<lambda>s. s\<lparr>sl_Pinned := False, sl_State := AA23SlotReclaimable\<rparr>)
          (aa23RetireSlot AA23RetireRevoked i r)))"

definition AA23ObserveWorkerTerminated :: "id64 \<Rightarrow> AA23Registry \<Rightarrow> AA23Registry \<times> aa23_error option" where
  "AA23ObserveWorkerTerminated worker r =
     (if worker = 0 \<or> worker > re_WorkerTop r then (r, Some ErrAA23InvalidIdentity)
      else let r1 = (if re_WorkerBound r \<and> re_Worker r = worker
                     then aa23RetireWhere AA23RetireRevoked (\<lambda>s. sl_State s = AA23SlotWriting) (r\<lparr>re_WorkerBound := False\<rparr>)
                     else r)
        in (terminate_loop worker [0..<length (re_Pool r1)] r1, None))"

section \<open>Preparing and publishing plans\<close>

definition aa23ValidateEntry :: "AA23Limits \<Rightarrow> AA23PlanEntry \<Rightarrow> byte \<Rightarrow> aa23_error option" where
  "aa23ValidateEntry l e address =
     (if pe_Operation e \<noteq> AA23OperationRead then Some ErrAA23Unsupported
      else if pe_AllowedPhase e \<noteq> AA23PhaseResponse then Some ErrAA23Unsupported
      else if pe_Destination e \<noteq> address then Some ErrAA23InvalidPlan
      else if sc_Any (pe_Source e) \<and> sc_Source (pe_Source e) \<noteq> 0 then Some ErrAA23InvalidPlan
      else if \<not> sc_Any (pe_Source e) \<and> \<not> aa23IsInitiatorAddress (sc_Source (pe_Source e)) then Some ErrAA23InvalidPlan
      else if unat (pe_RequestLength e) \<noteq> length (pe_Request e) then Some ErrAA23InvalidPlan
      else if length (pe_Request e) > unat (lim_MaxRequestBytes l) then Some ErrAA23Oversize
      else if pe_MaxEncodedBytes e = 0 then Some ErrAA23InvalidPlan
      else if pe_MaxEncodedBytes e > lim_MaxEncodedResponseBytes l
        \<or> length (pe_EncodedResponse e) > unat (pe_MaxEncodedBytes e) then Some ErrAA23Oversize
      else aa23ValidateEncodedResponse (pe_EncodedResponse e))"

fun validate_entries :: "AA23Limits \<Rightarrow> byte \<Rightarrow> nat \<Rightarrow> AA23PlanEntry list \<Rightarrow> aa23_error option" where
  "validate_entries l address acc [] = None"
| "validate_entries l address acc (e # es) =
     (case aa23ValidateEntry l e address of
        Some err \<Rightarrow> Some err
      | None \<Rightarrow>
          let acc1 = acc + (length (pe_Request e) + length (pe_EncodedResponse e)) in
          if acc1 > unat (lim_MaxPlanBytes l) then Some ErrAA23Oversize
          else validate_entries l address acc1 es)"

text \<open>
  A scratch shorter than the entries would be a panic; the size check before it rules that out, see
  \<open>validate_no_panic\<close>.
\<close>

definition aa23ValidateCandidate :: "AA23Registry \<Rightarrow> AA23PlanCandidate \<Rightarrow> aa23_error option" where
  "aa23ValidateCandidate r c =
     (let l = re_Limits r; i = pc_Identity c in
      if pi_Plan i = 0 \<or> pi_Source i = 0 \<or> pi_Worker i = 0 \<or> pi_Stream i = 0 then Some ErrAA23InvalidIdentity
      else case policy_Validate (pc_Failure c) of
        Some e \<Rightarrow> Some e
      | None \<Rightarrow>
          if pc_Entries c = [] then Some ErrAA23InvalidPlan
          else if length (pc_Entries c) > unat (lim_MaxEntriesPerPlan l) then Some ErrAA23Oversize
          else case validate_entries l (rk_Address (pi_Registration i)) 0 (pc_Entries c) of
            Some e \<Rightarrow> Some e
          | None \<Rightarrow> if aa23PlanOverlaps (pc_Entries c) (re_OverlapScratch r) \<noteq> Some False
              then Some ErrAA23AmbiguousPlan else None)"

definition plan_validity :: "AA23Registry \<Rightarrow> tick \<Rightarrow> aa23RegistrationRecord \<Rightarrow> AA23PlanValidity" where
  "plan_validity r expiry rec = \<lparr>va_Domain = cg_Domain (re_Clock r), va_PlanExpiry = expiry,
     va_RegistrationExpiry = rr_LeaseExpiry rec, va_SourceLeaseExpiry = rr_SourceLease rec\<rparr>"

definition aa23CheckPublishable ::
  "AA23Registry \<Rightarrow> AA23PlanIdentity \<Rightarrow> tick \<Rightarrow> AA23ClockReading \<Rightarrow> aa23_error + nat" where
  "aa23CheckPublishable r i expiry now =
     (if \<not> re_WorkerBound r then Inl ErrAA23NoWorker
      else if pi_Worker i \<noteq> re_Worker r then Inl ErrAA23IdentityMismatch
      else if pi_Stream i \<noteq> re_Stream r then Inl ErrAA23IdentityMismatch
      else case active_record (pi_Registration i) r of
        None \<Rightarrow> Inl ErrAA23NotRegistered
      | Some j \<Rightarrow>
          if pi_Source i \<noteq> rr_Source (re_Records r ! j) then Inl ErrAA23IdentityMismatch
          else if re_Conflicts r (rk_Address (pi_Registration i)) then Inl ErrAA23PhysicalConflict
          else case validity_Check (plan_validity r expiry (re_Records r ! j)) now of
            Some e \<Rightarrow> Inl e
          | None \<Rightarrow> Inr j)"

text \<open>\<open>copy(dst[off:], src)\<close>: the written array and the number of bytes copied.\<close>

definition go_copy :: "byte list \<Rightarrow> nat \<Rightarrow> byte list \<Rightarrow> byte list \<times> nat" where
  "go_copy dst off src =
     (let n = min (length dst - off) (length src) in (take off dst @ take n src @ drop (off + n) dst, n))"

fun copy_loop :: "nat \<Rightarrow> nat \<Rightarrow> AA23PlanEntry list \<Rightarrow> aa23Slot \<Rightarrow> aa23Slot" where
  "copy_loop index cursor [] s = s"
| "copy_loop index cursor (e # es) s =
     (let (bytes1, requestLen) = go_copy (sl_Bytes s) cursor (pe_Request e);
          replyStart = cursor + requestLen;
          (bytes2, replyLen) = go_copy bytes1 replyStart (pe_EncodedResponse e)
      in copy_loop (index + 1) (replyStart + replyLen) es
           (s\<lparr>sl_Bytes := bytes2,
              sl_Entries := (sl_Entries s)[index := \<lparr>er_SourceAny = sc_Any (pe_Source e), er_Source = sc_Source (pe_Source e),
                er_PB = pe_PB e, er_SB = pe_SB e, er_Phase = pe_AllowedPhase e, er_RequestStart = cursor,
                er_RequestLen = requestLen, er_ReplyStart = replyStart, er_ReplyLen = replyLen\<rparr>]\<rparr>))"

definition aa23Copy :: "AA23PlanEntry list \<Rightarrow> aa23Slot \<Rightarrow> aa23Slot" where
  "aa23Copy es s = (copy_loop 0 0 es s)\<lparr>sl_EntryCount := length es\<rparr>"

definition AA23PreparePlan ::
  "AA23PlanCandidate \<Rightarrow> AA23ClockReading \<Rightarrow> AA23Registry \<Rightarrow> AA23Registry \<times> (aa23_error + AA23SlotRef)" where
  "AA23PreparePlan c now r0 =
     (let (r, err) = aa23ObserveClock now r0 in
      case err of
        Some e \<Rightarrow> (r, Inl e)
      | None \<Rightarrow> (case aa23ValidateCandidate r c of
          Some e \<Rightarrow> (r, Inl e)
        | None \<Rightarrow> (case aa23CheckPublishable r (pc_Identity c) (pc_PlanExpiry c) now of
            Inl e \<Rightarrow> (r, Inl e)
          | Inr j \<Rightarrow> (case aa23CheckLease r (pc_PlanExpiry c) now of
              Some e \<Rightarrow> (r, Inl e)
            | None \<Rightarrow>
                if re_PlanTop r = MaxUint64 then (r, Inl ErrAA23CounterExhausted)
                else if pi_Plan (pc_Identity c) \<le> re_PlanTop r then (r, Inl ErrAA23StaleGeneration)
                else case first_index (\<lambda>s. sl_State s = AA23SlotFree) (re_Pool r) of
                  None \<Rightarrow> (r, Inl ErrAA23PoolExhausted)
                | Some i \<Rightarrow>
                    (upd_slot i (\<lambda>s. aa23Copy (pc_Entries c) (s\<lparr>sl_State := AA23SlotWriting, sl_Identity := pc_Identity c,
                         sl_Validity := plan_validity r (pc_PlanExpiry c) (re_Records r ! j)\<rparr>))
                       (r\<lparr>re_PlanTop := pi_Plan (pc_Identity c)\<rparr>),
                     Inr (slot_Ref (re_Pool r ! i) i))))))"

definition AA23AbortPrepared :: "AA23SlotRef \<Rightarrow> AA23Registry \<Rightarrow> AA23Registry \<times> aa23_error option" where
  "AA23AbortPrepared ref r =
     (case aa23Resolve (re_Pool r) ref of
        Inl e \<Rightarrow> (r, Some e)
      | Inr i \<Rightarrow>
          if sl_State (re_Pool r ! i) \<noteq> AA23SlotWriting then (r, Some ErrAA23SlotState)
          else (upd_slot i (\<lambda>s. fst (aa23Release s)) r, snd (aa23Release (re_Pool r ! i))))"

definition publish_slot :: "AA23SlotRef \<Rightarrow> nat \<Rightarrow> AA23Registry \<Rightarrow> AA23Registry \<times> (aa23_error + AA23PublishNotice)" where
  "publish_slot ref j r =
     (let i = sr_Index ref; ident = sl_Identity (re_Pool r ! i) in
      (upd_record j (\<lambda>rec. rec\<lparr>rr_Published := int i, rr_PublishTop := pi_Plan ident\<rparr>)
         (upd_slot i (\<lambda>s. s\<lparr>sl_State := AA23SlotPublished\<rparr>) r),
       Inr \<lparr>pn_Slot = ref, pn_Identity = ident\<rparr>))"

definition AA23PublishPrepared ::
  "AA23SlotRef \<Rightarrow> AA23ClockReading \<Rightarrow> AA23Registry \<Rightarrow> AA23Registry \<times> (aa23_error + AA23PublishNotice)" where
  "AA23PublishPrepared ref now r0 =
     (let (r, err) = aa23ObserveClock now r0 in
      case err of
        Some e \<Rightarrow> (r, Inl e)
      | None \<Rightarrow> (case aa23Resolve (re_Pool r) ref of
          Inl e \<Rightarrow> (r, Inl e)
        | Inr i \<Rightarrow>
            let s = re_Pool r ! i in
            if sl_State s \<noteq> AA23SlotWriting then (r, Inl ErrAA23SlotState)
            else case aa23CheckPublishable r (sl_Identity s) (va_PlanExpiry (sl_Validity s)) now of
              Inl e \<Rightarrow> (upd_slot i release_or_park r, Inl e)
            | Inr j \<Rightarrow> (case validity_Check (sl_Validity s) now of
                Some e \<Rightarrow> (upd_slot i release_or_park r, Inl e)
              | None \<Rightarrow>
                  if pi_Plan (sl_Identity s) \<le> rr_PublishTop (re_Records r ! j)
                    then (upd_slot i release_or_park r, Inl ErrAA23StaleGeneration)
                  else if rr_Published (re_Records r ! j) \<ge> 0 then
                    (let p = nat (rr_Published (re_Records r ! j)) in
                     if pi_Plan (sl_Identity s) \<le> pi_Plan (sl_Identity (re_Pool r ! p))
                       then (upd_slot i release_or_park r, Inl ErrAA23StaleGeneration)
                     else publish_slot ref j (aa23RetireSlot AA23RetireSuperseded p r))
                  else publish_slot ref j r)))"

definition AA23PendingRevocations :: "AA23Registry \<Rightarrow> AA23RevocationNotice list \<Rightarrow> nat \<Rightarrow> AA23RevocationNotice list" where
  "AA23PendingRevocations r dst cap =
     list_pending (\<lambda>i. if sl_State (re_Pool r ! i) = AA23SlotRetained
         then Some \<lparr>rn_Slot = slot_Ref (re_Pool r ! i) i, rn_Identity = sl_Identity (re_Pool r ! i), rn_Reason = sl_Reason (re_Pool r ! i)\<rparr>
         else None)
       cap [0..<length (re_Pool r)] dst"

definition AA23ObserveAcknowledgement :: "AA23Acknowledgement \<Rightarrow> AA23Registry \<Rightarrow> AA23Registry \<times> aa23_error option" where
  "AA23ObserveAcknowledgement ack r =
     (case aa23Resolve (re_Pool r) (ak_Slot ack) of
        Inl e \<Rightarrow> (r, Some e)
      | Inr i \<Rightarrow>
          if sl_State (re_Pool r ! i) \<noteq> AA23SlotRetained then (r, Some ErrAA23SlotState)
          else if \<not> identity_Matches (sl_Identity (re_Pool r ! i)) (ak_Identity ack) then (r, Some ErrAA23IdentityMismatch)
          else if sl_Pinned (re_Pool r ! i) then (r, Some ErrAA23SlotPinned)
          else (aa23Settle (pi_Registration (sl_Identity (re_Pool r ! i)))
                  (upd_slot i (\<lambda>s. s\<lparr>sl_State := AA23SlotReclaimable\<rparr>) r), None))"

end
