(* ===== verification/Plan_Worker.thy ===== *)
theory Plan_Worker
  imports Plan_Registry
begin

text \<open>
  The worker side of the plans, \<open>localworker/aa23_plans.go\<close>: \<open>AA23WorkerView\<close>, the plan pin and its checked
  accessors.  An operation takes the view and, where it reads or writes slots, the shared pool.  A pair
  \<open>(acknowledgement, true)\<close> of the code is \<open>Some\<close> acknowledgement, \<open>(_, false)\<close> is \<open>None\<close>.
\<close>

record AA23WireKey =
  wk_Identity :: AA23PlanIdentity
  wk_Transaction :: id64

definition zero_wire_key :: AA23WireKey where
  "zero_wire_key = \<lparr>wk_Identity = zero_identity, wk_Transaction = 0\<rparr>"

record aa23WorkerSlotRecord =
  ws_Incarnation :: id64
  ws_Superseded :: bool
  ws_Revoked :: bool

definition fresh_slot_record :: "id64 \<Rightarrow> aa23WorkerSlotRecord" where
  "fresh_slot_record inc = \<lparr>ws_Incarnation = inc, ws_Superseded = False, ws_Revoked = False\<rparr>"

record AA23WorkerView =
  wv_Worker :: id64
  wv_Stream :: id64
  wv_Clock :: aa23ClockGuard
  wv_PlanTop :: "byte \<Rightarrow> id64"
  wv_TransactionTop :: id64
  wv_Current :: "byte \<Rightarrow> AA23SlotRef"
  wv_Records :: "aa23WorkerSlotRecord list"
  wv_PinActive :: bool
  wv_PinKey :: AA23WireKey
  wv_PinSlot :: AA23SlotRef

text \<open>The pool argument is \<open>None\<close> for a nil pointer.\<close>

definition AA23NewWorkerView :: "AA23Pool option \<Rightarrow> id64 \<Rightarrow> id64 \<Rightarrow> aa23_error + AA23WorkerView" where
  "AA23NewWorkerView pool worker stream =
     (if pool = None \<or> worker = 0 \<or> stream = 0 then Inl ErrAA23InvalidIdentity
      else Inr \<lparr>wv_Worker = worker, wv_Stream = stream, wv_Clock = zero_guard, wv_PlanTop = (\<lambda>_. 0), wv_TransactionTop = 0,
        wv_Current = (\<lambda>_. zero_ref), wv_Records = replicate (length (the pool)) (fresh_slot_record 0),
        wv_PinActive = False, wv_PinKey = zero_wire_key, wv_PinSlot = zero_ref\<rparr>)"

text \<open>\<open>aa23Record\<close>: the row of a slot, started afresh when it belongs to another incarnation.\<close>

definition view_Record :: "AA23SlotRef \<Rightarrow> AA23WorkerView \<Rightarrow> AA23WorkerView" where
  "view_Record ref v =
     (if ws_Incarnation (wv_Records v ! sr_Index ref) \<noteq> sr_Incarnation ref
      then v\<lparr>wv_Records := (wv_Records v)[sr_Index ref := fresh_slot_record (sr_Incarnation ref)]\<rparr> else v)"

definition upd_view_record :: "nat \<Rightarrow> (aa23WorkerSlotRecord \<Rightarrow> aa23WorkerSlotRecord) \<Rightarrow> AA23WorkerView \<Rightarrow> AA23WorkerView" where
  "upd_view_record i f v = v\<lparr>wv_Records := (wv_Records v)[i := f (wv_Records v ! i)]\<rparr>"

definition aa23HoldsPin :: "AA23WorkerView \<Rightarrow> AA23SlotRef \<Rightarrow> bool" where
  "aa23HoldsPin v ref \<longleftrightarrow> wv_PinActive v \<and> wv_PinSlot v = ref"

definition aa23Acknowledge :: "AA23WorkerView \<Rightarrow> AA23SlotRef \<Rightarrow> AA23PlanIdentity \<Rightarrow> AA23Acknowledgement option" where
  "aa23Acknowledge v ref i = (if aa23HoldsPin v ref then None else Some \<lparr>ak_Slot = ref, ak_Identity = i\<rparr>)"

text \<open>The refusals of \<open>AA23AdoptPlan\<close> after the clock check, in order.\<close>

definition adopt_refusal :: "AA23PublishNotice \<Rightarrow> AA23ClockReading \<Rightarrow> AA23Pool \<Rightarrow> AA23WorkerView \<Rightarrow> aa23_error option" where
  "adopt_refusal n now pool v =
     (case aa23Resolve pool (pn_Slot n) of
        Inl e \<Rightarrow> Some e
      | Inr i \<Rightarrow>
          let ident = pn_Identity n in
          if sl_State (pool ! i) \<noteq> AA23SlotPublished then Some ErrAA23SlotState
          else if \<not> identity_Matches (sl_Identity (pool ! i)) ident then Some ErrAA23IdentityMismatch
          else if pi_Worker ident \<noteq> wv_Worker v then Some ErrAA23IdentityMismatch
          else if pi_Stream ident \<noteq> wv_Stream v then Some ErrAA23IdentityMismatch
          else if pi_Plan ident \<le> wv_PlanTop v (rk_Address (pi_Registration ident)) then Some ErrAA23StaleGeneration
          else validity_Check (sl_Validity (pool ! i)) now)"

definition AA23AdoptPlan ::
  "AA23PublishNotice \<Rightarrow> AA23ClockReading \<Rightarrow> AA23Pool \<Rightarrow> AA23WorkerView \<Rightarrow>
   AA23WorkerView \<times> (aa23_error + AA23Acknowledgement option)" where
  "AA23AdoptPlan n now pool v0 =
     (let (g, err) = aa23Observe (wv_Clock v0) now; v = v0\<lparr>wv_Clock := g\<rparr> in
      case err of
        Some e \<Rightarrow> (v, Inl e)
      | None \<Rightarrow> (case adopt_refusal n now pool v of
          Some e \<Rightarrow> (v, Inl e)
        | None \<Rightarrow>
            let a = rk_Address (pi_Registration (pn_Identity n));
                previous = wv_Current v a;
                v1 = v\<lparr>wv_PlanTop := (wv_PlanTop v)(a := pi_Plan (pn_Identity n)), wv_Current := (wv_Current v)(a := pn_Slot n)\<rparr>
            in if sr_Incarnation previous = 0 then (v1, Inr None)
               else case aa23Resolve pool previous of
                 Inl _ \<Rightarrow> (v1, Inr None)
               | Inr old \<Rightarrow>
                   let v2 = upd_view_record (sr_Index previous) (\<lambda>rec. rec\<lparr>ws_Superseded := True\<rparr>) (view_Record previous v1)
                   in (v2, Inr (aa23Acknowledge v2 previous (sl_Identity (pool ! old))))))"

definition AA23ObserveRevocation ::
  "AA23RevocationNotice \<Rightarrow> AA23Pool \<Rightarrow> AA23WorkerView \<Rightarrow> AA23WorkerView \<times> (aa23_error + AA23Acknowledgement option)" where
  "AA23ObserveRevocation n pool v =
     (case aa23Resolve pool (rn_Slot n) of
        Inl e \<Rightarrow> (v, Inl e)
      | Inr i \<Rightarrow>
          if sl_State (pool ! i) \<noteq> AA23SlotRetained then (v, Inl ErrAA23SlotState)
          else if \<not> identity_Matches (sl_Identity (pool ! i)) (rn_Identity n) then (v, Inl ErrAA23IdentityMismatch)
          else if pi_Worker (rn_Identity n) \<noteq> wv_Worker v then (v, Inl ErrAA23IdentityMismatch)
          else if pi_Stream (rn_Identity n) > wv_Stream v then (v, Inl ErrAA23IdentityMismatch)
          else let v1 = upd_view_record (sr_Index (rn_Slot n))
                     (\<lambda>rec. if rn_Reason n = AA23RetireSuperseded then rec\<lparr>ws_Superseded := True\<rparr> else rec\<lparr>ws_Revoked := True\<rparr>)
                     (view_Record (rn_Slot n) v);
                   a = rk_Address (pi_Registration (rn_Identity n));
                   v2 = (if wv_Current v1 a = rn_Slot n then v1\<lparr>wv_Current := (wv_Current v1)(a := zero_ref)\<rparr> else v1)
               in (v2, Inr (aa23Acknowledge v2 (rn_Slot n) (rn_Identity n))))"

definition aa23DropPin :: "AA23Pool \<Rightarrow> AA23WorkerView \<Rightarrow> AA23Pool \<times> AA23WorkerView" where
  "aa23DropPin pool v =
     (let i = sr_Index (wv_PinSlot v) in
      (if sl_Incarnation (pool ! i) = sr_Incarnation (wv_PinSlot v)
         then pool[i := (pool ! i)\<lparr>sl_Pinned := False\<rparr>] else pool,
       v\<lparr>wv_PinActive := False, wv_PinKey := zero_wire_key, wv_PinSlot := zero_ref\<rparr>))"

definition AA23AdvanceStream :: "id64 \<Rightarrow> AA23Pool \<Rightarrow> AA23WorkerView \<Rightarrow> AA23Pool \<times> AA23WorkerView \<times> aa23_error option" where
  "AA23AdvanceStream stream pool v =
     (if stream \<le> wv_Stream v then (pool, v, Some ErrAA23StaleGeneration)
      else let (pool1, v1) = (if wv_PinActive v then aa23DropPin pool v else (pool, v))
        in (pool1, v1\<lparr>wv_Stream := stream, wv_TransactionTop := 0, wv_Current := (\<lambda>_. zero_ref)\<rparr>, None))"

text \<open>A pin points to the view that issued it; \<open>pin_View\<close> is false for the zero pin.\<close>

record AA23PlanPin =
  pin_View :: bool
  pin_Key :: AA23WireKey

definition AA23SelectProvisional ::
  "byte \<Rightarrow> id64 \<Rightarrow> AA23ClockReading \<Rightarrow> AA23Pool \<Rightarrow> AA23WorkerView \<Rightarrow>
   AA23Pool \<times> AA23WorkerView \<times> (aa23_error + AA23PlanPin)" where
  "AA23SelectProvisional a transaction now pool v0 =
     (let (g, err) = aa23Observe (wv_Clock v0) now; v = v0\<lparr>wv_Clock := g\<rparr> in
      case err of
        Some e \<Rightarrow> (pool, v, Inl e)
      | None \<Rightarrow>
          if transaction = 0 then (pool, v, Inl ErrAA23InvalidIdentity)
          else if transaction \<le> wv_TransactionTop v then (pool, v, Inl ErrAA23StaleTransaction)
          else let v1 = v\<lparr>wv_TransactionTop := transaction\<rparr>; ref = wv_Current v1 a in
            if wv_PinActive v1 then (pool, v1, Inl ErrAA23PinBusy)
            else if sr_Incarnation ref = 0 then (pool, v1, Inl ErrAA23NoPlan)
            else case aa23Resolve pool ref of
              Inl e \<Rightarrow> (pool, v1, Inl e)
            | Inr i \<Rightarrow>
                if sl_State (pool ! i) \<notin> {AA23SlotPublished, AA23SlotRetained} then (pool, v1, Inl ErrAA23SlotState)
                else case validity_Check (sl_Validity (pool ! i)) now of
                  Some e \<Rightarrow> (pool, v1, Inl e)
                | None \<Rightarrow>
                    let k = \<lparr>wk_Identity = sl_Identity (pool ! i), wk_Transaction = transaction\<rparr> in
                    (pool[i := (pool ! i)\<lparr>sl_Pinned := True\<rparr>],
                     v1\<lparr>wv_PinActive := True, wv_PinKey := k, wv_PinSlot := ref\<rparr>,
                     Inr \<lparr>pin_View = True, pin_Key = k\<rparr>))"

definition aa23Live ::
  "AA23PlanPin \<Rightarrow> AA23WireKey \<Rightarrow> AA23ClockReading \<Rightarrow> AA23Pool \<Rightarrow> AA23WorkerView \<Rightarrow> AA23WorkerView \<times> (aa23_error + nat)" where
  "aa23Live pin expected now pool v0 =
     (if \<not> pin_View pin then (v0, Inl ErrAA23PinReleased)
      else let (g, err) = aa23Observe (wv_Clock v0) now; v = v0\<lparr>wv_Clock := g\<rparr> in
        case err of
          Some e \<Rightarrow> (v, Inl e)
        | None \<Rightarrow>
            if \<not> wv_PinActive v \<or> wv_PinKey v \<noteq> pin_Key pin then (v, Inl ErrAA23PinReleased)
            else if \<not> identity_Matches (wk_Identity expected) (wk_Identity (pin_Key pin)) then (v, Inl ErrAA23IdentityMismatch)
            else if wk_Transaction expected \<noteq> wk_Transaction (pin_Key pin) then (v, Inl ErrAA23IdentityMismatch)
            else case aa23Resolve pool (wv_PinSlot v) of
              Inl e \<Rightarrow> (v, Inl e)
            | Inr i \<Rightarrow>
                if sl_State (pool ! i) \<notin> {AA23SlotPublished, AA23SlotRetained} then (v, Inl ErrAA23SlotState)
                else let v1 = view_Record (wv_PinSlot v) v in
                  if ws_Revoked (wv_Records v1 ! sr_Index (wv_PinSlot v)) then (v1, Inl ErrAA23Revoked)
                  else case validity_Check (sl_Validity (pool ! i)) now of
                    Some e \<Rightarrow> (v1, Inl e)
                  | None \<Rightarrow> (v1, Inr i))"

definition AA23Validate ::
  "AA23PlanPin \<Rightarrow> AA23WireKey \<Rightarrow> AA23ClockReading \<Rightarrow> AA23Pool \<Rightarrow> AA23WorkerView \<Rightarrow> AA23WorkerView \<times> aa23_error option" where
  "AA23Validate pin expected now pool v =
     (let (v1, res) = aa23Live pin expected now pool v in (v1, case res of Inl e \<Rightarrow> Some e | Inr _ \<Rightarrow> None))"

record AA23RequestQuery =
  rq_Source :: byte
  rq_Destination :: byte
  rq_PB :: byte
  rq_SB :: byte
  rq_Data :: "byte list"

definition entry_matches :: "aa23Slot \<Rightarrow> AA23RequestQuery \<Rightarrow> aa23EntryRecord \<Rightarrow> bool" where
  "entry_matches s q e =
     (if \<not> er_SourceAny e \<and> er_Source e \<noteq> rq_Source q then False
      else if er_PB e \<noteq> rq_PB q \<or> er_SB e \<noteq> rq_SB q then False
      else if er_RequestLen e \<noteq> length (rq_Data q) then False
      else take (er_RequestLen e) (drop (er_RequestStart e) (sl_Bytes s)) = rq_Data q)"

definition AA23Match ::
  "AA23PlanPin \<Rightarrow> AA23WireKey \<Rightarrow> AA23RequestQuery \<Rightarrow> AA23ClockReading \<Rightarrow> AA23Pool \<Rightarrow> AA23WorkerView \<Rightarrow>
   AA23WorkerView \<times> (aa23_error + nat)" where
  "AA23Match pin expected q now pool v =
     (let (v1, res) = aa23Live pin expected now pool v in
      case res of
        Inl e \<Rightarrow> (v1, Inl e)
      | Inr i \<Rightarrow>
          let s = pool ! i in
          if rq_Destination q \<noteq> rk_Address (pi_Registration (sl_Identity s)) then (v1, Inl ErrAA23NoMatch)
          else if \<not> aa23IsInitiatorAddress (rq_Source q) then (v1, Inl ErrAA23NoMatch)
          else case first_index (entry_matches s q) (take (sl_EntryCount s) (sl_Entries s)) of
            None \<Rightarrow> (v1, Inl ErrAA23NoMatch)
          | Some n \<Rightarrow> (v1, Inr n))"

definition AA23ResponseLength ::
  "AA23PlanPin \<Rightarrow> AA23WireKey \<Rightarrow> nat \<Rightarrow> AA23ClockReading \<Rightarrow> AA23Pool \<Rightarrow> AA23WorkerView \<Rightarrow>
   AA23WorkerView \<times> (aa23_error + nat)" where
  "AA23ResponseLength pin expected n now pool v =
     (let (v1, res) = aa23Live pin expected now pool v in
      case res of
        Inl e \<Rightarrow> (v1, Inl e)
      | Inr i \<Rightarrow>
          if n \<ge> sl_EntryCount (pool ! i) then (v1, Inl ErrAA23NoMatch)
          else (v1, Inr (er_ReplyLen (sl_Entries (pool ! i) ! n))))"

definition AA23ResponseSymbol ::
  "AA23PlanPin \<Rightarrow> AA23WireKey \<Rightarrow> nat \<Rightarrow> nat \<Rightarrow> AA23Phase \<Rightarrow> AA23ClockReading \<Rightarrow> AA23Pool \<Rightarrow> AA23WorkerView \<Rightarrow>
   AA23WorkerView \<times> (aa23_error + byte)" where
  "AA23ResponseSymbol pin expected n offset phase now pool v =
     (let (v1, res) = aa23Live pin expected now pool v in
      case res of
        Inl e \<Rightarrow> (v1, Inl e)
      | Inr i \<Rightarrow>
          let e = sl_Entries (pool ! i) ! n in
          if n \<ge> sl_EntryCount (pool ! i) then (v1, Inl ErrAA23NoMatch)
          else if phase \<noteq> er_Phase e then (v1, Inl ErrAA23Phase)
          else if offset \<ge> er_ReplyLen e then (v1, Inl ErrAA23Oversize)
          else (v1, Inr (sl_Bytes (pool ! i) ! (er_ReplyStart e + offset))))"

definition pin_Release ::
  "AA23PlanPin \<Rightarrow> AA23Pool \<Rightarrow> AA23WorkerView \<Rightarrow> AA23Pool \<times> AA23WorkerView \<times> (aa23_error + AA23Acknowledgement option)" where
  "pin_Release pin pool v =
     (if \<not> pin_View pin \<or> \<not> wv_PinActive v \<or> wv_PinKey v \<noteq> pin_Key pin then (pool, v, Inl ErrAA23PinReleased)
      else let ref = wv_PinSlot v;
               v1 = view_Record ref v;
               rec = wv_Records v1 ! sr_Index ref;
               retired = (ws_Superseded rec \<or> ws_Revoked rec);
               (pool1, v2) = aa23DropPin pool v1
        in if \<not> retired then (pool1, v2, Inr None)
           else (pool1, v2, Inr (aa23Acknowledge v2 ref (wk_Identity (pin_Key pin)))))"

end
