(* ===== verification/Plan_Invariant.thy ===== *)
theory Plan_Invariant
  imports Plan_Worker
begin

text \<open>
  The invariant of the plan registry: the address table, the published generations, the hold a plan with wire
  authority keeps on its registration, and the binding of prepared plans to the current worker.  Every operation of
  \<open>Plan_Registry\<close> keeps it, and keeps or retires each slot only in the ways the pool's ownership rules allow.
\<close>

section \<open>Matching is equality\<close>

lemma key_Matches_eq [simp]: "key_Matches k k' \<longleftrightarrow> k = k'"
  by (cases k; cases k') (auto simp: key_Matches_def)

lemma identity_Matches_eq [simp]: "identity_Matches i i' \<longleftrightarrow> i = i'"
  by (cases i; cases i') (auto simp: identity_Matches_def)

lemma of_key_iff [simp]: "of_key k s \<longleftrightarrow> pi_Registration (sl_Identity s) = k"
  by (simp add: of_key_def)

lemma first_index_Some:
  "first_index P xs = Some i \<longleftrightarrow> i < length xs \<and> P (xs ! i) \<and> (\<forall>j<i. \<not> P (xs ! j))"
proof (induction xs arbitrary: i)
  case (Cons x xs)
  then show ?case by (cases i) (auto simp: All_less_Suc2)
qed simp

lemma first_index_None: "first_index P xs = None \<longleftrightarrow> (\<forall>i<length xs. \<not> P (xs ! i))"
  by (induction xs) (auto simp: All_less_Suc2)

lemma Resolve_iff:
  "aa23Resolve pool ref = Inr i \<longleftrightarrow>
     i = sr_Index ref \<and> i < length pool \<and> sl_Incarnation (pool ! i) = sr_Incarnation ref"
  by (auto simp: aa23Resolve_def)

lemmas upd_defs = upd_slot_def upd_record_def upd_subscriber_def

section \<open>Slots\<close>

definition live :: "aa23Slot \<Rightarrow> bool" where
  "live s \<longleftrightarrow> sl_State s \<in> {AA23SlotPublished, AA23SlotRetained}"

definition busy :: "aa23Slot \<Rightarrow> bool" where
  "busy s \<longleftrightarrow> sl_State s \<in> {AA23SlotWriting, AA23SlotPublished, AA23SlotRetained}"

text \<open>What of a slot must not change while it is in use; the pin aside.\<close>

definition content :: "aa23Slot \<Rightarrow> id64 \<times> AA23PlanIdentity \<times> AA23PlanValidity \<times> nat \<times> aa23EntryRecord list \<times> byte list" where
  "content s = (sl_Incarnation s, sl_Identity s, sl_Validity s, sl_EntryCount s, sl_Entries s, sl_Bytes s)"

text \<open>How a host operation may change a slot: no plan or pin appears, no incarnation goes back.\<close>

definition evolves :: "aa23Slot \<Rightarrow> aa23Slot \<Rightarrow> bool" where
  "evolves s s' \<longleftrightarrow> (busy s' \<longrightarrow> busy s \<and> content s' = content s) \<and> (sl_Pinned s' \<longrightarrow> sl_Pinned s) \<and>
     sl_Incarnation s \<le> sl_Incarnation s'"

text \<open>What it owes a plan the worker may use.\<close>

definition keeps :: "aa23Slot \<Rightarrow> aa23Slot \<Rightarrow> bool" where
  "keeps s s' \<longleftrightarrow> live s \<longrightarrow> live s' \<and> content s' = content s \<and> sl_Pinned s' = sl_Pinned s"

lemma evolves_refl [simp]: "evolves s s" by (auto simp: evolves_def)

lemma evolves_trans: "evolves s s' \<Longrightarrow> evolves s' s'' \<Longrightarrow> evolves s s''" by (auto simp: evolves_def)

lemma live_busy: "live s \<Longrightarrow> busy s" by (auto simp: live_def busy_def)

lemma keeps_refl [simp]: "keeps s s" by (simp add: keeps_def)

lemma keeps_trans: "keeps s s' \<Longrightarrow> keeps s' s'' \<Longrightarrow> keeps s s''" by (auto simp: keeps_def)

lemma word_inc_le: "w \<noteq> (- 1 :: 'a :: len word) \<Longrightarrow> w \<le> w + 1"
proof -
  assume "w \<noteq> - 1"
  then have "1 + w \<noteq> 0" by (metis add.commute add_eq_0_iff2)
  then show "w \<le> w + 1" by (simp add: word_le_nat_alt unatSuc add.commute)
qed

lemma release_or_park_state: "sl_State (release_or_park s) \<in> {AA23SlotFree, AA23SlotReclaimable}"
  by (auto simp: release_or_park_def aa23Release_def)

lemma word_inc_nonzero: "w \<noteq> (- 1 :: 'a :: len word) \<Longrightarrow> w + 1 \<noteq> 0"
  by (metis add_eq_0_iff2)

lemma release_or_park_nonzero: "sl_Incarnation s \<noteq> 0 \<Longrightarrow> sl_Incarnation (release_or_park s) \<noteq> 0"
  by (auto simp: release_or_park_def aa23Release_def word_inc_nonzero)

lemma release_or_park_frame [simp]:
  "sl_Incarnation s \<le> sl_Incarnation (release_or_park s)" "sl_Entries (release_or_park s) = sl_Entries s"
  "sl_Bytes (release_or_park s) = sl_Bytes s" "sl_Pinned (release_or_park s) = sl_Pinned s"
  by (auto simp: release_or_park_def aa23Release_def word_inc_le)

definition retire_one :: "AA23RetireReason \<Rightarrow> (aa23Slot \<Rightarrow> bool) \<Rightarrow> aa23Slot \<Rightarrow> aa23Slot" where
  "retire_one reason selected s =
     (if sl_State s \<in> {AA23SlotFree, AA23SlotReclaimable} \<or> \<not> selected s then s
      else case sl_State s of
        AA23SlotWriting \<Rightarrow> release_or_park s
      | AA23SlotPublished \<Rightarrow> s\<lparr>sl_State := AA23SlotRetained, sl_Reason := reason\<rparr>
      | AA23SlotRetained \<Rightarrow> if reason > sl_Reason s then s\<lparr>sl_Reason := reason\<rparr> else s
      | _ \<Rightarrow> s)"

lemma retire_one_evolves [simp]: "evolves s (retire_one reason P s)"
  using release_or_park_state [of s]
  by (auto simp: retire_one_def evolves_def busy_def content_def split: AA23SlotState.split)

lemma retire_one_keeps [simp]: "keeps s (retire_one reason P s)"
  by (auto simp: retire_one_def keeps_def live_def content_def split: AA23SlotState.split)

lemma retire_one_state:
  "sl_State (retire_one reason P s) = AA23SlotPublished \<longleftrightarrow> sl_State s = AA23SlotPublished \<and> \<not> P s"
  "sl_State (retire_one reason P s) = AA23SlotWriting \<longleftrightarrow> sl_State s = AA23SlotWriting \<and> \<not> P s"
  using release_or_park_state [of s] by (auto simp: retire_one_def split: AA23SlotState.splits)

lemma retire_one_live: "live (retire_one reason P s) \<longleftrightarrow> live s"
  using release_or_park_state [of s] by (auto simp: retire_one_def live_def split: AA23SlotState.splits)

lemma retire_one_identity: "live s \<Longrightarrow> sl_Identity (retire_one reason P s) = sl_Identity s"
  using retire_one_keeps [of s reason P] by (simp add: keeps_def content_def)

lemma clear_published_frame [simp]:
  "re_Pool (clear_published k r) = re_Pool r" "re_ByAddress (clear_published k r) = re_ByAddress r"
  "length (re_Records (clear_published k r)) = length (re_Records r)"
  by (auto simp: clear_published_def upd_defs split: option.split)

lemma RetireSlot_pool:
  "re_Pool (aa23RetireSlot reason i r) = (re_Pool r)[i := retire_one reason (\<lambda>_. True) (re_Pool r ! i)]"
  by (auto simp: aa23RetireSlot_def retire_one_def upd_defs split: AA23SlotState.split)

lemma retire_loop_pool:
  assumes "distinct is" and "\<forall>i \<in> set is. i < length (re_Pool r)"
  shows "length (re_Pool (retire_loop reason P is r)) = length (re_Pool r) \<and>
    (\<forall>i. re_Pool (retire_loop reason P is r) ! i = (if i \<in> set is then retire_one reason P (re_Pool r ! i) else re_Pool r ! i))"
  using assms
proof (induction "is" arbitrary: r)
  case (Cons i "is")
  define r1 where "r1 = (if sl_State (re_Pool r ! i) \<in> {AA23SlotFree, AA23SlotReclaimable} then r
      else if P (re_Pool r ! i) then aa23RetireSlot reason i r else r)"
  have pool: "re_Pool r1 = (re_Pool r)[i := retire_one reason P (re_Pool r ! i)]"
    by (auto simp: r1_def RetireSlot_pool retire_one_def)
  have "retire_loop reason P (i # is) r = retire_loop reason P is r1" by (simp add: r1_def)
  then show ?case using Cons.IH [of r1] Cons.prems pool by (auto simp: nth_list_update)
qed simp

lemma RetireWhere_pool: "re_Pool (aa23RetireWhere reason P r) = map (retire_one reason P) (re_Pool r)"
  using retire_loop_pool [of "[0..<length (re_Pool r)]" r reason P]
  by (auto simp: aa23RetireWhere_def intro!: nth_equalityI)

section \<open>The invariant\<close>

text \<open>The address table and the used rows of the record table point at each other.\<close>

definition addr_inv :: "AA23Registry \<Rightarrow> bool" where
  "addr_inv r \<longleftrightarrow>
     (\<forall>a j. re_ByAddress r a = Suc j \<longrightarrow>
        j < length (re_Records r) \<and> rr_Used (re_Records r ! j) \<and> rk_Address (rg_Key (rr_Registered (re_Records r ! j))) = a) \<and>
     (\<forall>j < length (re_Records r). rr_Used (re_Records r ! j) \<longrightarrow>
        re_ByAddress r (rk_Address (rg_Key (rr_Registered (re_Records r ! j)))) = Suc j)"

text \<open>A record's published index names exactly the published slot of its key.\<close>

definition pub_inv :: "AA23Registry \<Rightarrow> bool" where
  "pub_inv r \<longleftrightarrow> (\<forall>j < length (re_Records r). rr_Used (re_Records r ! j) \<longrightarrow>
     rr_Published (re_Records r ! j) < int (length (re_Pool r)) \<and>
     (\<forall>i < length (re_Pool r). rr_Published (re_Records r ! j) = int i \<longleftrightarrow>
        sl_State (re_Pool r ! i) = AA23SlotPublished \<and>
        pi_Registration (sl_Identity (re_Pool r ! i)) = rg_Key (rr_Registered (re_Records r ! j))))"

text \<open>A plan the worker may still use keeps the record of its key.\<close>

definition hold_inv :: "AA23Registry \<Rightarrow> bool" where
  "hold_inv r \<longleftrightarrow> (\<forall>i < length (re_Pool r). live (re_Pool r ! i) \<longrightarrow>
     (\<exists>j < length (re_Records r). rr_Used (re_Records r ! j) \<and>
        rg_Key (rr_Registered (re_Records r ! j)) = pi_Registration (sl_Identity (re_Pool r ! i))))"

text \<open>Plans being written or published belong to the bound worker and stream; generations are below the marks.\<close>

definition slot_bound :: "AA23Registry \<Rightarrow> aa23Slot \<Rightarrow> bool" where
  "slot_bound r s \<longleftrightarrow>
     (sl_State s \<in> {AA23SlotWriting, AA23SlotPublished} \<longrightarrow>
        pi_Worker (sl_Identity s) = re_WorkerTop r \<and> (re_WorkerBound r \<longrightarrow> pi_Stream (sl_Identity s) = re_Stream r)) \<and>
     (sl_State s = AA23SlotWriting \<longrightarrow> re_WorkerBound r) \<and>
     (busy s \<longrightarrow> pi_Worker (sl_Identity s) \<le> re_WorkerTop r \<and>
        (pi_Worker (sl_Identity s) = re_WorkerTop r \<longrightarrow> pi_Plan (sl_Identity s) \<le> re_PlanTop r))"

definition bound_inv :: "AA23Registry \<Rightarrow> bool" where
  "bound_inv r \<longleftrightarrow> (re_WorkerBound r \<longrightarrow> re_Worker r = re_WorkerTop r) \<and> (\<forall>s \<in> set (re_Pool r). slot_bound r s)"

definition slot_shape :: "AA23Limits \<Rightarrow> aa23Slot \<Rightarrow> bool" where
  "slot_shape l s \<longleftrightarrow> length (sl_Entries s) = unat (lim_MaxEntriesPerPlan l) \<and>
     length (sl_Bytes s) = unat (lim_MaxPlanBytes l) \<and> sl_Incarnation s \<noteq> 0"

definition shape_inv :: "AA23Registry \<Rightarrow> bool" where
  "shape_inv r \<longleftrightarrow> length (re_OverlapScratch r) = unat (lim_MaxEntriesPerPlan (re_Limits r)) \<and>
     (\<forall>s \<in> set (re_Pool r). slot_shape (re_Limits r) s)"

definition reg_inv :: "AA23Registry \<Rightarrow> bool" where
  "reg_inv r \<longleftrightarrow> addr_inv r \<and> pub_inv r \<and> hold_inv r \<and> bound_inv r \<and> shape_inv r"

lemmas inv_defs = addr_inv_def pub_inv_def hold_inv_def bound_inv_def slot_bound_def shape_inv_def

text \<open>Fields no part of the invariant reads.\<close>

lemma reg_inv_frame [simp]:
  "reg_inv (r\<lparr>re_Clock := g\<rparr>) = reg_inv r" "reg_inv (r\<lparr>re_Subscribers := ss\<rparr>) = reg_inv r"
  "reg_inv (r\<lparr>re_SubscriberTop := t\<rparr>) = reg_inv r" "reg_inv (r\<lparr>re_Masters := ms\<rparr>) = reg_inv r"
  "reg_inv (r\<lparr>re_MasterCount := n\<rparr>) = reg_inv r" "reg_inv (r\<lparr>re_Conflicts := cs\<rparr>) = reg_inv r"
  by (simp_all add: reg_inv_def inv_defs)

lemma FindExact_iff:
  assumes "addr_inv r"
  shows "aa23FindExact r k = Some j \<longleftrightarrow>
    j < length (re_Records r) \<and> rr_Used (re_Records r ! j) \<and> rg_Key (rr_Registered (re_Records r ! j)) = k"
proof (cases "re_ByAddress r (rk_Address k)")
  case 0
  have "\<not> (j < length (re_Records r) \<and> rr_Used (re_Records r ! j) \<and> rg_Key (rr_Registered (re_Records r ! j)) = k)"
    using assms 0 unfolding addr_inv_def by force
  then show ?thesis using 0 by (simp add: aa23FindExact_def)
next
  case (Suc j')
  then have j': "j' < length (re_Records r)" "rr_Used (re_Records r ! j')" using assms unfolding addr_inv_def by blast+
  have "j = j'" if "j < length (re_Records r)" "rr_Used (re_Records r ! j)" "rg_Key (rr_Registered (re_Records r ! j)) = k"
    using that assms Suc unfolding addr_inv_def by (metis Suc_inject)
  then show ?thesis using Suc j' by (auto simp: aa23FindExact_def Let_def)
qed

section \<open>Changing one slot\<close>

lemma all_update: "\<forall>x \<in> set xs. P x \<Longrightarrow> P y \<Longrightarrow> \<forall>x \<in> set (xs[i := y]). P x"
  using set_update_subset_insert [of xs i y] by blast

lemma addr_inv_cong:
  assumes "addr_inv r" and "re_ByAddress r' = re_ByAddress r" and "length (re_Records r') = length (re_Records r)"
    and "\<And>j. j < length (re_Records r) \<Longrightarrow> rr_Used (re_Records r' ! j) = rr_Used (re_Records r ! j) \<and>
      rg_Key (rr_Registered (re_Records r' ! j)) = rg_Key (rr_Registered (re_Records r ! j))"
  shows "addr_inv r'"
  using assms(1,4) unfolding addr_inv_def assms(2,3) by (metis (no_types))

lemma pub_inv_at:
  assumes "pub_inv r" and "j < length (re_Records r)" and "rr_Used (re_Records r ! j)"
  shows "rr_Published (re_Records r ! j) < int (length (re_Pool r))"
    and "i < length (re_Pool r) \<Longrightarrow> rr_Published (re_Records r ! j) = int i \<longleftrightarrow>
      sl_State (re_Pool r ! i) = AA23SlotPublished \<and>
      pi_Registration (sl_Identity (re_Pool r ! i)) = rg_Key (rr_Registered (re_Records r ! j))"
  using assms by (simp_all add: pub_inv_def)

lemma addr_inv_unique:
  "addr_inv r \<Longrightarrow> j < length (re_Records r) \<Longrightarrow> rr_Used (re_Records r ! j) \<Longrightarrow> m < length (re_Records r) \<Longrightarrow>
   rr_Used (re_Records r ! m) \<Longrightarrow>
   rk_Address (rg_Key (rr_Registered (re_Records r ! m))) = rk_Address (rg_Key (rr_Registered (re_Records r ! j))) \<Longrightarrow> m = j"
  unfolding addr_inv_def by (metis Suc_inject)

lemma hold_invI:
  assumes "hold_inv r" and "length (re_Pool r') = length (re_Pool r)"
    and "\<And>i. i < length (re_Pool r) \<Longrightarrow> live (re_Pool r' ! i) \<Longrightarrow> live (re_Pool r ! i) \<and>
      pi_Registration (sl_Identity (re_Pool r' ! i)) = pi_Registration (sl_Identity (re_Pool r ! i))"
    and "\<And>i j. i < length (re_Pool r) \<Longrightarrow> live (re_Pool r' ! i) \<Longrightarrow> j < length (re_Records r) \<Longrightarrow> rr_Used (re_Records r ! j) \<Longrightarrow>
      rg_Key (rr_Registered (re_Records r ! j)) = pi_Registration (sl_Identity (re_Pool r ! i)) \<Longrightarrow>
      j < length (re_Records r') \<and> rr_Used (re_Records r' ! j) \<and>
      rg_Key (rr_Registered (re_Records r' ! j)) = rg_Key (rr_Registered (re_Records r ! j))"
  shows "hold_inv r'"
  unfolding hold_inv_def
proof (intro allI impI)
  fix i assume i: "i < length (re_Pool r')" "live (re_Pool r' ! i)"
  then obtain j where "j < length (re_Records r)" "rr_Used (re_Records r ! j)"
      "rg_Key (rr_Registered (re_Records r ! j)) = pi_Registration (sl_Identity (re_Pool r ! i))"
    using assms(1,2,3) unfolding hold_inv_def by metis
  then show "\<exists>j<length (re_Records r'). rr_Used (re_Records r' ! j) \<and>
      rg_Key (rr_Registered (re_Records r' ! j)) = pi_Registration (sl_Identity (re_Pool r' ! i))"
    using assms(2,3,4) i by metis
qed

text \<open>A slot that neither was nor becomes published may drop its authority, or change what the invariant does not read.\<close>

definition slot_change :: "aa23Slot \<Rightarrow> aa23Slot \<Rightarrow> bool" where
  "slot_change s s' \<longleftrightarrow>
     (busy s' \<longrightarrow> busy s \<and> sl_Identity s' = sl_Identity s \<and> (sl_State s' = AA23SlotWriting \<longrightarrow> sl_State s = AA23SlotWriting)) \<and>
     (live s' \<longrightarrow> live s) \<and> length (sl_Entries s') = length (sl_Entries s) \<and> length (sl_Bytes s') = length (sl_Bytes s) \<and>
     (sl_Incarnation s \<noteq> 0 \<longrightarrow> sl_Incarnation s' \<noteq> 0)"

lemma slot_bound_change:
  "slot_change s s' \<Longrightarrow> sl_State s' \<noteq> AA23SlotPublished \<Longrightarrow> slot_bound r s \<Longrightarrow> slot_bound r s'"
  by (cases "sl_State s'") (auto simp: slot_change_def slot_bound_def busy_def)

lemma reg_inv_upd_slot:
  assumes inv: "reg_inv r" and i: "i < length (re_Pool r)" and ch: "slot_change (re_Pool r ! i) (f (re_Pool r ! i))"
    and np: "sl_State (re_Pool r ! i) \<noteq> AA23SlotPublished" "sl_State (f (re_Pool r ! i)) \<noteq> AA23SlotPublished"
  shows "reg_inv (upd_slot i f r)"
proof -
  let ?s = "re_Pool r ! i" and ?r = "upd_slot i f r"
  have nth: "re_Pool ?r ! k = (if k = i then f ?s else re_Pool r ! k)" if "k < length (re_Pool r)" for k
    using that by (simp add: upd_defs nth_list_update)
  have frame: "re_Records ?r = re_Records r" "length (re_Pool ?r) = length (re_Pool r)" by (simp_all add: upd_defs)
  have "addr_inv ?r" using inv by (simp add: reg_inv_def addr_inv_def upd_defs)
  moreover have "pub_inv ?r"
    using inv np unfolding reg_inv_def pub_inv_def frame by (auto simp: nth)
  moreover have "hold_inv ?r"
  proof (rule hold_invI [of r])
    show "hold_inv r" using inv by (simp add: reg_inv_def)
  qed (use ch frame in \<open>auto simp: nth slot_change_def live_busy split: if_splits\<close>)
  moreover have "bound_inv ?r"
  proof -
    have old: "slot_bound r ?s" "bound_inv r" using inv i by (simp_all add: reg_inv_def bound_inv_def)
    have "slot_bound r (f ?s)"
      using ch np(2) old(1) by (rule slot_bound_change)
    then have "\<forall>s \<in> set ((re_Pool r)[i := f ?s]). slot_bound r s" using old(2) by (intro all_update) (simp_all add: bound_inv_def)
    then show ?thesis using old(2) by (simp add: bound_inv_def upd_defs slot_bound_def)
  qed
  moreover have "shape_inv ?r"
  proof -
    have old: "slot_shape (re_Limits r) ?s" "shape_inv r" using inv i by (simp_all add: reg_inv_def shape_inv_def)
    then have "slot_shape (re_Limits r) (f ?s)" using ch by (simp add: slot_shape_def slot_change_def)
    then show ?thesis using old(2) all_update [of "re_Pool r" "slot_shape (re_Limits r)" "f ?s" i]
      by (simp add: shape_inv_def upd_defs)
  qed
  ultimately show ?thesis by (simp add: reg_inv_def)
qed

lemma release_or_park_change: "slot_change s (release_or_park s)"
  using release_or_park_state [of s] release_or_park_nonzero [of s]
  by (auto simp: slot_change_def busy_def live_def)

text \<open>Retiring a published slot clears the index of its record.\<close>

lemma reg_inv_unpublish:
  assumes inv: "reg_inv r" and i: "i < length (re_Pool r)" and pub: "sl_State (re_Pool r ! i) = AA23SlotPublished"
  shows "reg_inv (clear_published (pi_Registration (sl_Identity (re_Pool r ! i)))
    (upd_slot i (\<lambda>s. s\<lparr>sl_State := AA23SlotRetained, sl_Reason := reason\<rparr>) r))"
proof -
  let ?s = "re_Pool r ! i" and ?k = "pi_Registration (sl_Identity (re_Pool r ! i))"
  let ?r1 = "upd_slot i (\<lambda>s. s\<lparr>sl_State := AA23SlotRetained, sl_Reason := reason\<rparr>) r"
  have parts: "addr_inv r" "pub_inv r" "hold_inv r" "bound_inv r" "shape_inv r" using inv by (simp_all add: reg_inv_def)
  obtain j where j: "j < length (re_Records r)" "rr_Used (re_Records r ! j)" "rg_Key (rr_Registered (re_Records r ! j)) = ?k"
    using parts(3) i pub unfolding hold_inv_def live_def by auto
  have addr1: "addr_inv ?r1" using parts(1) by (simp add: addr_inv_def upd_defs)
  then have found: "aa23FindExact ?r1 ?k = Some j" using j by (subst FindExact_iff) (simp_all add: upd_defs)
  let ?r = "upd_record j (\<lambda>rec. rec\<lparr>rr_Published := -1\<rparr>) ?r1"
  have pool: "re_Pool ?r ! k = (if k = i then ?s\<lparr>sl_State := AA23SlotRetained, sl_Reason := reason\<rparr> else re_Pool r ! k)"
    if "k < length (re_Pool r)" for k using that by (simp add: upd_defs nth_list_update)
  have recs: "re_Records ?r ! k = (if k = j then (re_Records r ! j)\<lparr>rr_Published := -1\<rparr> else re_Records r ! k)"
    if "k < length (re_Records r)" for k using that by (simp add: upd_defs nth_list_update)
  have len: "length (re_Pool ?r) = length (re_Pool r)" "length (re_Records ?r) = length (re_Records r)" by (simp_all add: upd_defs)
  have unique: "m = i" if "m < length (re_Pool r)" "sl_State (re_Pool r ! m) = AA23SlotPublished"
      "pi_Registration (sl_Identity (re_Pool r ! m)) = ?k" for m
    using pub_inv_at(2) [OF parts(2) j(1,2) that(1)] pub_inv_at(2) [OF parts(2) j(1,2) i] pub that j(3) by simp
  have rows: "m = j" if "m < length (re_Records r)" "rr_Used (re_Records r ! m)" "rg_Key (rr_Registered (re_Records r ! m)) = ?k" for m
    using addr_inv_unique [OF parts(1) j(1,2) that(1,2)] that(3) j(3) by simp
  have "addr_inv ?r" by (rule addr_inv_cong [OF parts(1)]) (simp add: upd_defs, simp add: len, simp add: recs)
  moreover have "pub_inv ?r"
    unfolding pub_inv_def len
  proof (intro allI impI conjI)
    fix m assume m: "m < length (re_Records r)" "rr_Used (re_Records ?r ! m)"
    then show "rr_Published (re_Records ?r ! m) < int (length (re_Pool r))"
      using pub_inv_at(1) [OF parts(2) m(1)] by (simp add: recs split: if_splits)
  next
    fix m n assume m: "m < length (re_Records r)" "rr_Used (re_Records ?r ! m)" and n: "n < length (re_Pool r)"
    show "(rr_Published (re_Records ?r ! m) = int n) \<longleftrightarrow> (sl_State (re_Pool ?r ! n) = AA23SlotPublished \<and>
        pi_Registration (sl_Identity (re_Pool ?r ! n)) = rg_Key (rr_Registered (re_Records ?r ! m)))"
    proof (cases "m = j")
      case True
      then show ?thesis using m n unique j(3) by (auto simp: recs pool)
    next
      case False
      then have "rg_Key (rr_Registered (re_Records r ! m)) \<noteq> ?k" using rows m by (auto simp: recs)
      then show ?thesis using False m n pub_inv_at(2) [OF parts(2) m(1) _ n] by (simp add: recs pool)
    qed
  qed
  moreover have "hold_inv ?r"
  proof (rule hold_invI [OF parts(3) len(1)])
    show "live (re_Pool r ! m) \<and> pi_Registration (sl_Identity (re_Pool ?r ! m)) = pi_Registration (sl_Identity (re_Pool r ! m))"
      if "m < length (re_Pool r)" "live (re_Pool ?r ! m)" for m
      using that pub by (simp add: pool live_def split: if_splits)
    show "n < length (re_Records ?r) \<and> rr_Used (re_Records ?r ! n) \<and>
        rg_Key (rr_Registered (re_Records ?r ! n)) = rg_Key (rr_Registered (re_Records r ! n))"
      if "n < length (re_Records r)" "rr_Used (re_Records r ! n)" for n
      using that by (cases "n = j") (simp_all add: recs len(2))
  qed
  moreover have "bound_inv ?r"
  proof -
    let ?s' = "?s\<lparr>sl_State := AA23SlotRetained, sl_Reason := reason\<rparr>"
    have "slot_bound r ?s" using parts(4) i by (simp add: bound_inv_def)
    then have "slot_bound r ?s'" using pub by (simp add: slot_bound_def busy_def)
    then have "\<forall>s \<in> set ((re_Pool r)[i := ?s']). slot_bound r s"
      using parts(4) by (intro all_update) (simp_all add: bound_inv_def)
    then show ?thesis using parts(4) by (simp add: bound_inv_def upd_defs slot_bound_def)
  qed
  moreover have "shape_inv ?r"
  proof -
    have "slot_shape (re_Limits r) ?s" using parts(5) i by (simp add: shape_inv_def)
    then have "slot_shape (re_Limits r) (?s\<lparr>sl_State := AA23SlotRetained, sl_Reason := reason\<rparr>)" by (simp add: slot_shape_def)
    then show ?thesis using parts(5) all_update [of "re_Pool r" "slot_shape (re_Limits r)" _ i]
      by (simp add: shape_inv_def upd_defs)
  qed
  ultimately show ?thesis using found by (simp add: clear_published_def reg_inv_def)
qed

lemma RetireSlot_inv:
  assumes "reg_inv r" and "i < length (re_Pool r)"
  shows "reg_inv (aa23RetireSlot reason i r)"
proof -
  have "reg_inv (upd_slot i release_or_park r)" if "sl_State (re_Pool r ! i) = AA23SlotWriting"
    using assms that release_or_park_state [of "re_Pool r ! i"]
    by (intro reg_inv_upd_slot release_or_park_change) auto
  moreover have "reg_inv (upd_slot i (\<lambda>s. s\<lparr>sl_Reason := reason\<rparr>) r)" if "sl_State (re_Pool r ! i) = AA23SlotRetained"
    using assms that by (intro reg_inv_upd_slot) (auto simp: slot_change_def live_def busy_def)
  ultimately show ?thesis
    using assms reg_inv_unpublish by (auto simp: aa23RetireSlot_def split: AA23SlotState.split)
qed

lemma RetireWhere_inv: "reg_inv r \<Longrightarrow> reg_inv (aa23RetireWhere reason P r)"
proof -
  have "reg_inv (retire_loop reason P is r)" if "\<forall>i \<in> set is. i < length (re_Pool r)" "reg_inv r" for "is"
    using that
  proof (induction "is" arbitrary: r)
    case (Cons i "is")
    then show ?case using RetireSlot_inv [of r i reason] by (simp add: RetireSlot_pool)
  qed simp
  then show "reg_inv r \<Longrightarrow> reg_inv (aa23RetireWhere reason P r)" by (simp add: aa23RetireWhere_def)
qed

section \<open>Changing records\<close>

lemma reg_inv_records:
  assumes inv: "reg_inv r" and len: "length recs = length (re_Records r)"
    and same: "\<And>j. j < length (re_Records r) \<Longrightarrow> rr_Used (recs ! j) = rr_Used (re_Records r ! j) \<and>
      rg_Key (rr_Registered (recs ! j)) = rg_Key (rr_Registered (re_Records r ! j)) \<and>
      rr_Published (recs ! j) = rr_Published (re_Records r ! j)"
  shows "reg_inv (r\<lparr>re_Records := recs\<rparr>)"
proof -
  let ?r = "r\<lparr>re_Records := recs\<rparr>"
  have parts: "addr_inv r" "pub_inv r" "hold_inv r" "bound_inv r" "shape_inv r" using inv by (simp_all add: reg_inv_def)
  have "addr_inv ?r" by (rule addr_inv_cong [OF parts(1)]) (simp_all add: len same)
  moreover have "pub_inv ?r" using parts(2) by (simp add: pub_inv_def len same)
  moreover have "hold_inv ?r" by (rule hold_invI [OF parts(3)]) (simp_all add: len same)
  moreover have "bound_inv ?r" "shape_inv ?r" using parts(4,5) by (simp_all add: bound_inv_def slot_bound_def shape_inv_def)
  ultimately show ?thesis by (simp add: reg_inv_def)
qed

lemma reg_inv_upd_record:
  assumes "reg_inv r" and "\<And>rec. rr_Used (f rec) = rr_Used rec" and "\<And>rec. rg_Key (rr_Registered (f rec)) = rg_Key (rr_Registered rec)"
    and "\<And>rec. rr_Published (f rec) = rr_Published rec"
  shows "reg_inv (upd_record j f r)"
proof -
  have nth: "(re_Records r)[j := f (re_Records r ! j)] ! m = (if m = j then f (re_Records r ! j) else re_Records r ! m)"
    if "m < length (re_Records r)" for m using that by auto
  show ?thesis unfolding upd_record_def using assms by (intro reg_inv_records) (simp_all add: nth)
qed

lemma reg_inv_subscriber [simp]: "reg_inv (upd_subscriber j f r) = reg_inv r"
  by (simp add: upd_subscriber_def)

lemma Forget_inv [simp]: "reg_inv (aa23ForgetClosedSubscriber j r) = reg_inv r"
  by (simp add: aa23ForgetClosedSubscriber_def)

text \<open>Clearing the record of a key no usable plan refers to.\<close>

lemma reg_inv_clear:
  assumes inv: "reg_inv r" and found: "aa23FindExact r k = Some j"
    and none: "\<forall>s \<in> set (re_Pool r). live s \<longrightarrow> pi_Registration (sl_Identity s) \<noteq> k"
  shows "reg_inv (upd_record j (\<lambda>_. zero_record) (r\<lparr>re_ByAddress := (re_ByAddress r)(rk_Address k := 0)\<rparr>))"
proof -
  let ?r = "upd_record j (\<lambda>_. zero_record) (r\<lparr>re_ByAddress := (re_ByAddress r)(rk_Address k := 0)\<rparr>)"
  have parts: "addr_inv r" "pub_inv r" "hold_inv r" "bound_inv r" "shape_inv r" using inv by (simp_all add: reg_inv_def)
  have j: "j < length (re_Records r)" "rr_Used (re_Records r ! j)" "rg_Key (rr_Registered (re_Records r ! j)) = k"
    using found FindExact_iff [OF parts(1)] by auto
  have recs: "re_Records ?r ! m = (if m = j then zero_record else re_Records r ! m)" if "m < length (re_Records r)" for m
    using that by (simp add: upd_defs nth_list_update)
  have frame: "length (re_Records ?r) = length (re_Records r)" "re_Pool ?r = re_Pool r"
      "re_ByAddress ?r = (re_ByAddress r)(rk_Address k := 0)" by (simp_all add: upd_defs)
  have unused: "\<not> rr_Used zero_record" by (simp add: zero_record_def)
  have by_j: "re_ByAddress r (rk_Address k) = Suc j" using parts(1) j unfolding addr_inv_def by metis
  have other: "rk_Address (rg_Key (rr_Registered (re_Records r ! m))) \<noteq> rk_Address k"
    if "m < length (re_Records r)" "rr_Used (re_Records r ! m)" "m \<noteq> j" for m
    using addr_inv_unique [OF parts(1) j(1,2) that(1,2)] that(3) j(3) by auto
  have "addr_inv ?r"
    unfolding addr_inv_def frame
  proof (intro conjI allI impI)
    fix a m assume a: "((re_ByAddress r)(rk_Address k := 0)) a = Suc m"
    then have "a \<noteq> rk_Address k" "re_ByAddress r a = Suc m" by (auto split: if_splits)
    then show "m < length (re_Records r)" "rr_Used (re_Records ?r ! m)" "rk_Address (rg_Key (rr_Registered (re_Records ?r ! m))) = a"
      using parts(1) j(3) recs [of m] unfolding addr_inv_def by metis+
  next
    fix m assume m: "m < length (re_Records r)" "rr_Used (re_Records ?r ! m)"
    then have "m \<noteq> j" "rr_Used (re_Records r ! m)" using recs [of m] unused by (auto split: if_splits)
    then show "((re_ByAddress r)(rk_Address k := 0)) (rk_Address (rg_Key (rr_Registered (re_Records ?r ! m)))) = Suc m"
      using parts(1) other [of m] m recs [of m] unfolding addr_inv_def by simp
  qed
  moreover have "pub_inv ?r"
    using parts(2) unused unfolding pub_inv_def frame by (simp add: recs)
  moreover have "hold_inv ?r"
  proof (rule hold_invI [OF parts(3)])
    show "m < length (re_Records ?r) \<and> rr_Used (re_Records ?r ! m) \<and>
        rg_Key (rr_Registered (re_Records ?r ! m)) = rg_Key (rr_Registered (re_Records r ! m))"
      if "i < length (re_Pool r)" "live (re_Pool ?r ! i)" "m < length (re_Records r)" "rr_Used (re_Records r ! m)"
        "rg_Key (rr_Registered (re_Records r ! m)) = pi_Registration (sl_Identity (re_Pool r ! i))" for i m
    proof -
      have "m \<noteq> j" using that none j(3) frame(2) nth_mem [of i "re_Pool r"] by auto
      then show ?thesis using that frame recs by simp
    qed
  qed (simp_all add: frame)
  moreover have "bound_inv ?r" "shape_inv ?r"
    using parts(4,5) by (simp_all add: bound_inv_def slot_bound_def shape_inv_def upd_defs)
  ultimately show ?thesis by (simp add: reg_inv_def)
qed

lemma Settle_inv:
  assumes "reg_inv r"
  shows "reg_inv (aa23Settle k r)"
proof (cases "aa23FindExact r k")
  case None
  then show ?thesis using assms by (simp add: aa23Settle_def)
next
  case (Some j)
  have "\<forall>s \<in> set (re_Pool r). live s \<longrightarrow> pi_Registration (sl_Identity s) \<noteq> k"
    if "\<not> list_ex (\<lambda>s. sl_State s \<in> {AA23SlotPublished, AA23SlotRetained} \<and> of_key k s) (re_Pool r)"
    using that by (auto simp: list_ex_iff live_def)
  then show ?thesis using assms Some reg_inv_clear [OF assms Some]
    by (auto simp: aa23Settle_def Let_def split: option.split)
qed

lemma Settle_pool [simp]: "re_Pool (aa23Settle k r) = re_Pool r"
  by (auto simp: aa23Settle_def Let_def upd_defs aa23ForgetClosedSubscriber_def split: option.split)

lemma Retire_inv: "reg_inv r \<Longrightarrow> reg_inv (aa23Retire reason i r)"
  by (simp add: aa23Retire_def Let_def Settle_inv RetireWhere_inv reg_inv_upd_record)

lemma Retire_pool:
  "re_Pool (aa23Retire reason i r) = map (retire_one reason (of_key (rg_Key (rr_Registered (re_Records r ! i))))) (re_Pool r)"
  by (simp add: aa23Retire_def Let_def RetireWhere_pool upd_defs)

lemma retire_records_inv: "reg_inv r \<Longrightarrow> reg_inv (retire_records reason P is r)"
  by (induction "is" arbitrary: r) (simp_all add: Retire_inv)

lemma ObserveClock_inv: "reg_inv r \<Longrightarrow> reg_inv (fst (aa23ObserveClock now r))"
  by (simp add: aa23ObserveClock_def Let_def RetireWhere_inv split: prod.split)

section \<open>Registering, preparing and publishing\<close>

lemma register_insert_inv:
  assumes inv: "reg_inv r" and free: "re_ByAddress r (rk_Address (rg_Key c)) = 0"
  shows "reg_inv (fst (register_insert c r))"
proof (cases "first_index (\<lambda>rec. \<not> rr_Used rec) (re_Records r)")
  case None
  then show ?thesis using inv by (simp add: register_insert_def)
next
  case (Some i)
  let ?k = "rg_Key c"
  let ?r = "upd_record i (\<lambda>_. new_record c) (r\<lparr>re_ByAddress := (re_ByAddress r)(rk_Address ?k := Suc i)\<rparr>)"
  have parts: "addr_inv r" "pub_inv r" "hold_inv r" "bound_inv r" "shape_inv r" using inv by (simp_all add: reg_inv_def)
  have i: "i < length (re_Records r)" "\<not> rr_Used (re_Records r ! i)" using Some by (auto simp: first_index_Some)
  have recs: "re_Records ?r ! m = (if m = i then new_record c else re_Records r ! m)" if "m < length (re_Records r)" for m
    using that by (simp add: upd_defs nth_list_update)
  have frame: "length (re_Records ?r) = length (re_Records r)" "re_Pool ?r = re_Pool r"
      "re_ByAddress ?r = (re_ByAddress r)(rk_Address ?k := Suc i)" by (simp_all add: upd_defs)
  have new: "rr_Used (new_record c)" "rg_Key (rr_Registered (new_record c)) = ?k" "rr_Published (new_record c) = -1"
    by (simp_all add: new_record_def)
  have other: "rk_Address (rg_Key (rr_Registered (re_Records r ! m))) \<noteq> rk_Address ?k"
    if "m < length (re_Records r)" "rr_Used (re_Records r ! m)" for m
    using parts(1) free that unfolding addr_inv_def by (metis nat.distinct(1))
  have "addr_inv ?r"
    unfolding addr_inv_def frame
  proof (intro conjI allI impI)
    fix a m assume a: "((re_ByAddress r)(rk_Address ?k := Suc i)) a = Suc m"
    show "m < length (re_Records r)" "rr_Used (re_Records ?r ! m)" "rk_Address (rg_Key (rr_Registered (re_Records ?r ! m))) = a"
    proof -
      consider "a = rk_Address ?k" "m = i" | "a \<noteq> rk_Address ?k" "re_ByAddress r a = Suc m" using a by (auto split: if_splits)
      then have "m < length (re_Records r) \<and> rr_Used (re_Records ?r ! m) \<and> rk_Address (rg_Key (rr_Registered (re_Records ?r ! m))) = a"
      proof cases
        case 1
        then show ?thesis using i new recs [of m] by simp
      next
        case 2
        then have "m < length (re_Records r)" "rr_Used (re_Records r ! m)" "rk_Address (rg_Key (rr_Registered (re_Records r ! m))) = a"
          using parts(1) unfolding addr_inv_def by blast+
        then show ?thesis using i recs [of m] by auto
      qed
      then show "m < length (re_Records r)" "rr_Used (re_Records ?r ! m)" "rk_Address (rg_Key (rr_Registered (re_Records ?r ! m))) = a"
        by simp_all
    qed
  next
    fix m assume m: "m < length (re_Records r)" "rr_Used (re_Records ?r ! m)"
    then show "((re_ByAddress r)(rk_Address ?k := Suc i)) (rk_Address (rg_Key (rr_Registered (re_Records ?r ! m)))) = Suc m"
      using parts(1) other [of m] recs [of m] new unfolding addr_inv_def by (simp split: if_splits)
  qed
  moreover have "pub_inv ?r"
    unfolding pub_inv_def frame
  proof (intro allI impI conjI)
    fix m assume m: "m < length (re_Records r)" "rr_Used (re_Records ?r ! m)"
    then show "rr_Published (re_Records ?r ! m) < int (length (re_Pool r))"
      using pub_inv_at(1) [OF parts(2) m(1)] recs [of m] new by (simp split: if_splits)
  next
    fix m n assume m: "m < length (re_Records r)" "rr_Used (re_Records ?r ! m)" and n: "n < length (re_Pool r)"
    show "(rr_Published (re_Records ?r ! m) = int n) \<longleftrightarrow> (sl_State (re_Pool r ! n) = AA23SlotPublished \<and>
        pi_Registration (sl_Identity (re_Pool r ! n)) = rg_Key (rr_Registered (re_Records ?r ! m)))"
    proof (cases "m = i")
      case True
      have "\<not> (live (re_Pool r ! n) \<and> pi_Registration (sl_Identity (re_Pool r ! n)) = ?k)"
        using parts(3) n other unfolding hold_inv_def by metis
      then show ?thesis using True m recs [of m] new by (auto simp: live_def)
    next
      case False
      then show ?thesis using m n pub_inv_at(2) [OF parts(2) m(1) _ n] recs [of m] by simp
    qed
  qed
  moreover have "hold_inv ?r"
  proof (rule hold_invI [OF parts(3)])
    show "m < length (re_Records ?r) \<and> rr_Used (re_Records ?r ! m) \<and>
        rg_Key (rr_Registered (re_Records ?r ! m)) = rg_Key (rr_Registered (re_Records r ! m))"
      if "m < length (re_Records r)" "rr_Used (re_Records r ! m)" for m
      using that i frame recs [of m] by auto
  qed (simp_all add: frame)
  moreover have "bound_inv ?r" "shape_inv ?r"
    using parts(4,5) by (simp_all add: bound_inv_def slot_bound_def shape_inv_def upd_defs)
  ultimately have "reg_inv ?r" by (simp add: reg_inv_def)
  then show ?thesis using Some by (simp add: register_insert_def Let_def)
qed

lemma Register_cases:
  obtains "fst (AA23Register c now r) = fst (aa23ObserveClock now r)"
  | "re_ByAddress (fst (aa23ObserveClock now r)) (rk_Address (rg_Key c)) = 0"
    "fst (AA23Register c now r) = fst (register_insert c (fst (aa23ObserveClock now r)))"
proof -
  obtain r1 err where "aa23ObserveClock now r = (r1, err)" by fastforce
  then have "fst (AA23Register c now r) = r1 \<or>
      re_ByAddress r1 (rk_Address (rg_Key c)) = 0 \<and> fst (AA23Register c now r) = fst (register_insert c r1)"
    by (cases err) (simp_all add: AA23Register_def Let_def split: option.split)
  then show ?thesis using that \<open>aa23ObserveClock now r = (r1, err)\<close> by auto
qed

lemma Register_inv: "reg_inv r \<Longrightarrow> reg_inv (fst (AA23Register c now r))"
  using ObserveClock_inv [of r now] register_insert_inv [of "fst (aa23ObserveClock now r)" c]
  by (cases rule: Register_cases [of c now r]) simp_all

lemma length_go_copy [simp]: "length (fst (go_copy dst off src)) = length dst"
  by (simp add: go_copy_def Let_def)

lemma copy_loop_frame:
  "sl_State (copy_loop n c es s) = sl_State s \<and> sl_Incarnation (copy_loop n c es s) = sl_Incarnation s \<and>
   sl_Identity (copy_loop n c es s) = sl_Identity s \<and> sl_Validity (copy_loop n c es s) = sl_Validity s \<and>
   sl_Pinned (copy_loop n c es s) = sl_Pinned s \<and> length (sl_Entries (copy_loop n c es s)) = length (sl_Entries s) \<and>
   length (sl_Bytes (copy_loop n c es s)) = length (sl_Bytes s)"
proof (induction es arbitrary: n c s)
  case (Cons e es)
  obtain b1 l1 where c1: "go_copy (sl_Bytes s) c (pe_Request e) = (b1, l1)" by fastforce
  obtain b2 l2 where c2: "go_copy b1 (c + l1) (pe_EncodedResponse e) = (b2, l2)" by fastforce
  have "length b2 = length (sl_Bytes s)"
    using length_go_copy [of "sl_Bytes s" c "pe_Request e"] length_go_copy [of b1 "c + l1" "pe_EncodedResponse e"] c1 c2 by simp
  then show ?case using Cons c1 c2 by (simp add: Let_def)
qed simp

lemma Copy_frame [simp]:
  "sl_State (aa23Copy es s) = sl_State s" "sl_Incarnation (aa23Copy es s) = sl_Incarnation s"
  "sl_Identity (aa23Copy es s) = sl_Identity s" "sl_Validity (aa23Copy es s) = sl_Validity s"
  "sl_Pinned (aa23Copy es s) = sl_Pinned s" "length (sl_Entries (aa23Copy es s)) = length (sl_Entries s)"
  "length (sl_Bytes (aa23Copy es s)) = length (sl_Bytes s)" "sl_EntryCount (aa23Copy es s) = length es"
  by (simp_all add: aa23Copy_def copy_loop_frame)

text \<open>A prepared plan enters a slot nobody uses and carries a fresh generation of the bound worker.\<close>

lemma reg_inv_prepare:
  assumes inv: "reg_inv r" and i: "i < length (re_Pool r)" "sl_State (re_Pool r ! i) = AA23SlotFree"
    and who: "re_WorkerBound r" "pi_Worker ident = re_Worker r" "pi_Stream ident = re_Stream r"
    and fresh: "re_PlanTop r < pi_Plan ident"
    and f: "\<And>s. sl_State (f s) = AA23SlotWriting \<and> sl_Identity (f s) = ident \<and> sl_Incarnation (f s) = sl_Incarnation s \<and>
      length (sl_Entries (f s)) = length (sl_Entries s) \<and> length (sl_Bytes (f s)) = length (sl_Bytes s)"
  shows "reg_inv (upd_slot i f (r\<lparr>re_PlanTop := pi_Plan ident\<rparr>))"
proof -
  let ?r = "upd_slot i f (r\<lparr>re_PlanTop := pi_Plan ident\<rparr>)"
  have parts: "addr_inv r" "pub_inv r" "hold_inv r" "bound_inv r" "shape_inv r" using inv by (simp_all add: reg_inv_def)
  have nth: "re_Pool ?r ! k = (if k = i then f (re_Pool r ! i) else re_Pool r ! k)" if "k < length (re_Pool r)" for k
    using that by (simp add: upd_defs nth_list_update)
  have frame: "re_Records ?r = re_Records r" "length (re_Pool ?r) = length (re_Pool r)" by (simp_all add: upd_defs)
  have "addr_inv ?r" using parts(1) by (simp add: addr_inv_def upd_defs)
  moreover have "pub_inv ?r"
    using parts(2) i(2) f [of "re_Pool r ! i"] unfolding pub_inv_def frame by (simp add: nth)
  moreover have "hold_inv ?r"
  proof (rule hold_invI [OF parts(3)])
    show "live (re_Pool r ! k) \<and> pi_Registration (sl_Identity (re_Pool ?r ! k)) = pi_Registration (sl_Identity (re_Pool r ! k))"
      if "k < length (re_Pool r)" "live (re_Pool ?r ! k)" for k
      using that f [of "re_Pool r ! i"] nth by (simp add: live_def split: if_splits)
  qed (simp_all add: frame)
  moreover have "bound_inv ?r"
  proof -
    have top: "re_Worker r = re_WorkerTop r" using parts(4) who(1) by (simp add: bound_inv_def)
    have old: "slot_bound ?r s" if "slot_bound r s" for s
      using that fresh by (auto simp: slot_bound_def upd_defs)
    have "slot_bound ?r (f (re_Pool r ! i))"
      using f [of "re_Pool r ! i"] who top by (simp add: slot_bound_def upd_defs)
    then have "\<forall>s \<in> set ((re_Pool r)[i := f (re_Pool r ! i)]). slot_bound ?r s"
      using parts(4) old by (intro all_update) (simp_all add: bound_inv_def)
    then show ?thesis using top by (simp add: bound_inv_def upd_defs)
  qed
  moreover have "shape_inv ?r"
  proof -
    have "slot_shape (re_Limits r) (re_Pool r ! i)" using parts(5) i by (simp add: shape_inv_def)
    then have "slot_shape (re_Limits r) (f (re_Pool r ! i))" using f [of "re_Pool r ! i"] by (simp add: slot_shape_def)
    then show ?thesis using parts(5) all_update [of "re_Pool r" "slot_shape (re_Limits r)" _ i] by (simp add: shape_inv_def upd_defs)
  qed
  ultimately show ?thesis by (simp add: reg_inv_def)
qed

lemma CheckPublishable_ok:
  assumes "addr_inv r" and "aa23CheckPublishable r ident expiry now = Inr j"
  shows "re_WorkerBound r" and "pi_Worker ident = re_Worker r" and "pi_Stream ident = re_Stream r"
    and "j < length (re_Records r)" and "rr_Used (re_Records r ! j)" and "rr_State (re_Records r ! j) = AA23RegistrationActive"
    and "rg_Key (rr_Registered (re_Records r ! j)) = pi_Registration ident" and "pi_Source ident = rr_Source (re_Records r ! j)"
    and "validity_Check (plan_validity r expiry (re_Records r ! j)) now = None"
    and "\<not> re_Conflicts r (rk_Address (pi_Registration ident))"
  using assms(2) FindExact_iff [OF assms(1), of "pi_Registration ident" j]
  by (auto simp: aa23CheckPublishable_def active_record_def split: if_splits option.splits)

text \<open>What an accepted preparation does.\<close>

lemma PreparePlan_cases:
  obtains (refused) e where "AA23PreparePlan c now r = (fst (aa23ObserveClock now r), Inl e)"
  | (prepared) r1 i j where "aa23ObserveClock now r = (r1, None)" "aa23ValidateCandidate r1 c = None"
      "aa23CheckPublishable r1 (pc_Identity c) (pc_PlanExpiry c) now = Inr j" "re_PlanTop r1 < pi_Plan (pc_Identity c)"
      "i < length (re_Pool r1)" "sl_State (re_Pool r1 ! i) = AA23SlotFree"
      "AA23PreparePlan c now r =
        (upd_slot i (\<lambda>s. aa23Copy (pc_Entries c) (s\<lparr>sl_State := AA23SlotWriting, sl_Identity := pc_Identity c,
             sl_Validity := plan_validity r1 (pc_PlanExpiry c) (re_Records r1 ! j)\<rparr>))
           (r1\<lparr>re_PlanTop := pi_Plan (pc_Identity c)\<rparr>), Inr (slot_Ref (re_Pool r1 ! i) i))"
proof -
  obtain r1 err where clock: "aa23ObserveClock now r = (r1, err)" by fastforce
  show ?thesis
  proof (cases "\<exists>e. AA23PreparePlan c now r = (r1, Inl e)")
    case True
    then show ?thesis using clock refused by auto
  next
    case False
    then have err: "err = None" and ok: "aa23ValidateCandidate r1 c = None"
      using clock by (auto simp: AA23PreparePlan_def split: option.splits)
    from False obtain j where pub: "aa23CheckPublishable r1 (pc_Identity c) (pc_PlanExpiry c) now = Inr j"
      using clock err ok by (auto simp: AA23PreparePlan_def split: sum.splits)
    from False have lease: "aa23CheckLease r1 (pc_PlanExpiry c) now = None" "re_PlanTop r1 \<noteq> MaxUint64"
        "\<not> pi_Plan (pc_Identity c) \<le> re_PlanTop r1"
      using clock err ok pub by (auto simp: AA23PreparePlan_def split: option.splits if_splits)
    from False obtain i where i: "first_index (\<lambda>s. sl_State s = AA23SlotFree) (re_Pool r1) = Some i"
      using clock err ok pub lease by (auto simp: AA23PreparePlan_def split: option.splits)
    show ?thesis
    proof (rule prepared [of r1 j i])
      show "i < length (re_Pool r1)" "sl_State (re_Pool r1 ! i) = AA23SlotFree" using i by (auto simp: first_index_Some)
    qed (use clock err ok pub lease i in \<open>simp_all add: AA23PreparePlan_def not_le\<close>)
  qed
qed

lemma PreparePlan_inv:
  assumes "reg_inv r"
  shows "reg_inv (fst (AA23PreparePlan c now r))"
proof (cases rule: PreparePlan_cases [of c now r])
  case (refused e)
  then show ?thesis using ObserveClock_inv [OF assms] by simp
next
  case (prepared r1 i j)
  have r1: "reg_inv r1" using ObserveClock_inv [OF assms, of now] prepared(1) by simp
  then have "addr_inv r1" by (simp add: reg_inv_def)
  note pub = CheckPublishable_ok [OF this prepared(3)]
  show ?thesis unfolding prepared(7) fst_conv
    using r1 prepared(4-6) pub by (intro reg_inv_prepare) simp_all
qed

text \<open>A slot becomes published when no plan of its key is.\<close>

lemma reg_inv_publish:
  assumes inv: "reg_inv r" and i: "i < length (re_Pool r)" "sl_State (re_Pool r ! i) = AA23SlotWriting"
    and j: "j < length (re_Records r)" "rr_Used (re_Records r ! j)"
      "rg_Key (rr_Registered (re_Records r ! j)) = pi_Registration (sl_Identity (re_Pool r ! i))"
    and none: "\<And>n. n < length (re_Pool r) \<Longrightarrow> sl_State (re_Pool r ! n) = AA23SlotPublished \<Longrightarrow>
      pi_Registration (sl_Identity (re_Pool r ! n)) \<noteq> pi_Registration (sl_Identity (re_Pool r ! i))"
  shows "reg_inv (fst (publish_slot \<lparr>sr_Index = i, sr_Incarnation = inc\<rparr> j r))"
proof -
  let ?s = "re_Pool r ! i"
  let ?r = "upd_record j (\<lambda>rec. rec\<lparr>rr_Published := int i, rr_PublishTop := pi_Plan (sl_Identity ?s)\<rparr>)
      (upd_slot i (\<lambda>s. s\<lparr>sl_State := AA23SlotPublished\<rparr>) r)"
  have parts: "addr_inv r" "pub_inv r" "hold_inv r" "bound_inv r" "shape_inv r" using inv by (simp_all add: reg_inv_def)
  have pool: "re_Pool ?r ! k = (if k = i then ?s\<lparr>sl_State := AA23SlotPublished\<rparr> else re_Pool r ! k)" if "k < length (re_Pool r)" for k
    using that by (simp add: upd_defs nth_list_update)
  have recs: "re_Records ?r ! m = (if m = j then (re_Records r ! j)\<lparr>rr_Published := int i, rr_PublishTop := pi_Plan (sl_Identity ?s)\<rparr>
      else re_Records r ! m)" if "m < length (re_Records r)" for m
    using that by (simp add: upd_defs nth_list_update)
  have len: "length (re_Pool ?r) = length (re_Pool r)" "length (re_Records ?r) = length (re_Records r)" by (simp_all add: upd_defs)
  have rows: "m = j" if "m < length (re_Records r)" "rr_Used (re_Records r ! m)"
      "rg_Key (rr_Registered (re_Records r ! m)) = pi_Registration (sl_Identity ?s)" for m
    using addr_inv_unique [OF parts(1) j(1,2) that(1,2)] that(3) j(3) by simp
  have "addr_inv ?r" by (rule addr_inv_cong [OF parts(1)]) (simp add: upd_defs, simp add: len, simp add: recs)
  moreover have "pub_inv ?r"
    unfolding pub_inv_def len
  proof (intro allI impI conjI)
    fix m assume m: "m < length (re_Records r)" "rr_Used (re_Records ?r ! m)"
    then show "rr_Published (re_Records ?r ! m) < int (length (re_Pool r))"
      using pub_inv_at(1) [OF parts(2) m(1)] i(1) by (simp add: recs split: if_splits)
  next
    fix m n assume m: "m < length (re_Records r)" "rr_Used (re_Records ?r ! m)" and n: "n < length (re_Pool r)"
    show "(rr_Published (re_Records ?r ! m) = int n) \<longleftrightarrow> (sl_State (re_Pool ?r ! n) = AA23SlotPublished \<and>
        pi_Registration (sl_Identity (re_Pool ?r ! n)) = rg_Key (rr_Registered (re_Records ?r ! m)))"
    proof (cases "m = j")
      case True
      then show ?thesis using m n none [OF n] j(3) by (auto simp: recs pool)
    next
      case False
      then have "rr_Used (re_Records r ! m)" using m recs by simp
      moreover have "rg_Key (rr_Registered (re_Records r ! m)) \<noteq> pi_Registration (sl_Identity ?s)"
        using False rows m(1) calculation by blast
      ultimately show ?thesis using False m n i(2) pub_inv_at(2) [OF parts(2) m(1) _ n] by (auto simp: recs pool)
    qed
  qed
  moreover have "hold_inv ?r"
    unfolding hold_inv_def len
  proof (intro allI impI)
    fix k assume k: "k < length (re_Pool r)" "live (re_Pool ?r ! k)"
    obtain m where "m < length (re_Records r)" "rr_Used (re_Records r ! m)"
        "rg_Key (rr_Registered (re_Records r ! m)) = pi_Registration (sl_Identity (re_Pool ?r ! k))"
      using k parts(3) j pool [of k] unfolding hold_inv_def by (cases "k = i") auto
    then show "\<exists>m<length (re_Records r). rr_Used (re_Records ?r ! m) \<and>
        rg_Key (rr_Registered (re_Records ?r ! m)) = pi_Registration (sl_Identity (re_Pool ?r ! k))"
      using recs [of m] j(2) by (intro exI [of _ m]) auto
  qed
  moreover have "bound_inv ?r"
  proof -
    have "slot_bound r ?s" using parts(4) i by (simp add: bound_inv_def)
    then have "slot_bound r (?s\<lparr>sl_State := AA23SlotPublished\<rparr>)" using i(2) by (simp add: slot_bound_def busy_def)
    then have "\<forall>s \<in> set ((re_Pool r)[i := ?s\<lparr>sl_State := AA23SlotPublished\<rparr>]). slot_bound r s"
      using parts(4) by (intro all_update) (simp_all add: bound_inv_def)
    then show ?thesis using parts(4) by (simp add: bound_inv_def upd_defs slot_bound_def)
  qed
  moreover have "shape_inv ?r"
  proof -
    have "slot_shape (re_Limits r) ?s" using parts(5) i by (simp add: shape_inv_def)
    then have "slot_shape (re_Limits r) (?s\<lparr>sl_State := AA23SlotPublished\<rparr>)" by (simp add: slot_shape_def)
    then show ?thesis using parts(5) all_update [of "re_Pool r" "slot_shape (re_Limits r)" _ i] by (simp add: shape_inv_def upd_defs)
  qed
  ultimately show ?thesis by (simp add: reg_inv_def publish_slot_def Let_def)
qed

text \<open>The registry a publication starts from: the superseded generation of the key, if any, is retired.\<close>

definition supersede :: "nat \<Rightarrow> AA23Registry \<Rightarrow> AA23Registry" where
  "supersede j r =
     (if rr_Published (re_Records r ! j) \<ge> 0 then aa23RetireSlot AA23RetireSuperseded (nat (rr_Published (re_Records r ! j))) r else r)"

lemma PublishPrepared_cases:
  obtains (refused) e where "AA23PublishPrepared ref now r = (fst (aa23ObserveClock now r), Inl e)"
  | (dropped) r1 e where "aa23ObserveClock now r = (r1, None)" "aa23Resolve (re_Pool r1) ref = Inr (sr_Index ref)"
      "sl_State (re_Pool r1 ! sr_Index ref) = AA23SlotWriting"
      "AA23PublishPrepared ref now r = (upd_slot (sr_Index ref) release_or_park r1, Inl e)"
  | (published) r1 j where "aa23ObserveClock now r = (r1, None)" "aa23Resolve (re_Pool r1) ref = Inr (sr_Index ref)"
      "sl_State (re_Pool r1 ! sr_Index ref) = AA23SlotWriting"
      "aa23CheckPublishable r1 (sl_Identity (re_Pool r1 ! sr_Index ref)) (va_PlanExpiry (sl_Validity (re_Pool r1 ! sr_Index ref))) now = Inr j"
      "validity_Check (sl_Validity (re_Pool r1 ! sr_Index ref)) now = None"
      "rr_PublishTop (re_Records r1 ! j) < pi_Plan (sl_Identity (re_Pool r1 ! sr_Index ref))"
      "AA23PublishPrepared ref now r = publish_slot ref j (supersede j r1)"
proof -
  obtain r1 err where clock: "aa23ObserveClock now r = (r1, err)" by fastforce
  show ?thesis
  proof (cases "(\<exists>e. AA23PublishPrepared ref now r = (r1, Inl e))")
    case True
    then show ?thesis using clock refused by auto
  next
    case go: False
    then have err: "err = None" using clock by (cases err) (simp_all add: AA23PublishPrepared_def)
    from go obtain i where "aa23Resolve (re_Pool r1) ref = Inr i"
      using clock err by (cases "aa23Resolve (re_Pool r1) ref") (auto simp: AA23PublishPrepared_def)
    then have res: "aa23Resolve (re_Pool r1) ref = Inr (sr_Index ref)" unfolding Resolve_iff by blast
    from go have wr: "sl_State (re_Pool r1 ! sr_Index ref) = AA23SlotWriting"
      using clock err res by (auto simp: AA23PublishPrepared_def Let_def split: if_splits)
    note start = clock [unfolded err] res wr
    show ?thesis
    proof (cases "\<exists>e. AA23PublishPrepared ref now r = (upd_slot (sr_Index ref) release_or_park r1, Inl e)")
      case True
      then show ?thesis using start dropped by blast
    next
      case False
      have unfold: "AA23PublishPrepared ref now r =
          (case aa23CheckPublishable r1 (sl_Identity (re_Pool r1 ! sr_Index ref)) (va_PlanExpiry (sl_Validity (re_Pool r1 ! sr_Index ref))) now of
            Inl e \<Rightarrow> (upd_slot (sr_Index ref) release_or_park r1, Inl e)
          | Inr j \<Rightarrow> (case validity_Check (sl_Validity (re_Pool r1 ! sr_Index ref)) now of
              Some e \<Rightarrow> (upd_slot (sr_Index ref) release_or_park r1, Inl e)
            | None \<Rightarrow>
                if pi_Plan (sl_Identity (re_Pool r1 ! sr_Index ref)) \<le> rr_PublishTop (re_Records r1 ! j)
                  then (upd_slot (sr_Index ref) release_or_park r1, Inl ErrAA23StaleGeneration)
                else if rr_Published (re_Records r1 ! j) \<ge> 0 \<and> pi_Plan (sl_Identity (re_Pool r1 ! sr_Index ref)) \<le>
                    pi_Plan (sl_Identity (re_Pool r1 ! nat (rr_Published (re_Records r1 ! j))))
                  then (upd_slot (sr_Index ref) release_or_park r1, Inl ErrAA23StaleGeneration)
                else publish_slot ref j (supersede j r1)))"
        using start by (simp add: AA23PublishPrepared_def Let_def supersede_def split: sum.split option.split)
      show ?thesis
        using False start unfold by (auto simp: not_le intro: published split: sum.splits option.splits if_splits)
    qed
  qed
qed

lemma clear_published_row:
  "m < length (re_Records r) \<Longrightarrow>
   rr_Used (re_Records (clear_published k r) ! m) = rr_Used (re_Records r ! m) \<and>
   rr_Registered (re_Records (clear_published k r) ! m) = rr_Registered (re_Records r ! m)"
proof -
  assume "m < length (re_Records r)"
  then have "(re_Records r)[i := f (re_Records r ! i)] ! m = (if m = i then f (re_Records r ! m) else re_Records r ! m)" for i f by auto
  then show ?thesis by (auto simp: clear_published_def upd_defs split: option.split)
qed

lemma RetireSlot_row:
  "m < length (re_Records r) \<Longrightarrow>
   rr_Used (re_Records (aa23RetireSlot reason i r) ! m) = rr_Used (re_Records r ! m) \<and>
   rr_Registered (re_Records (aa23RetireSlot reason i r) ! m) = rr_Registered (re_Records r ! m)"
  using clear_published_row [of m "upd_slot i (\<lambda>s. s\<lparr>sl_State := AA23SlotRetained, sl_Reason := reason\<rparr>) r"]
  by (auto simp: aa23RetireSlot_def upd_slot_def split: AA23SlotState.split)

lemma RetireSlot_length: "length (re_Records (aa23RetireSlot reason i r)) = length (re_Records r)"
  by (auto simp: aa23RetireSlot_def upd_defs split: AA23SlotState.split)

lemma supersede_spec:
  assumes inv: "reg_inv r" and j: "j < length (re_Records r)" "rr_Used (re_Records r ! j)"
  shows "reg_inv (supersede j r)" and "length (re_Pool (supersede j r)) = length (re_Pool r)"
    and "\<And>n. n < length (re_Pool r) \<Longrightarrow> sl_State (re_Pool (supersede j r) ! n) = AA23SlotPublished \<Longrightarrow>
      pi_Registration (sl_Identity (re_Pool (supersede j r) ! n)) \<noteq> rg_Key (rr_Registered (re_Records r ! j))"
    and "\<And>n. sl_State (re_Pool r ! n) = AA23SlotWriting \<Longrightarrow> n < length (re_Pool r) \<Longrightarrow> re_Pool (supersede j r) ! n = re_Pool r ! n"
    and "length (re_Records (supersede j r)) = length (re_Records r)"
    and "rr_Used (re_Records (supersede j r) ! j)"
    and "rr_Registered (re_Records (supersede j r) ! j) = rr_Registered (re_Records r ! j)"
proof -
  have pub: "pub_inv r" using inv by (simp add: reg_inv_def)
  note at = pub_inv_at [OF pub j]
  let ?p = "nat (rr_Published (re_Records r ! j))"
  have p: "?p < length (re_Pool r)" "sl_State (re_Pool r ! ?p) = AA23SlotPublished" if "rr_Published (re_Records r ! j) \<ge> 0"
    using that at(1) at(2) [of ?p] by auto
  show "reg_inv (supersede j r)" using inv p RetireSlot_inv by (simp add: supersede_def)
  show "length (re_Pool (supersede j r)) = length (re_Pool r)" by (simp add: supersede_def RetireSlot_pool)
  show "pi_Registration (sl_Identity (re_Pool (supersede j r) ! n)) \<noteq> rg_Key (rr_Registered (re_Records r ! j))"
    if "n < length (re_Pool r)" "sl_State (re_Pool (supersede j r) ! n) = AA23SlotPublished" for n
  proof (cases "rr_Published (re_Records r ! j) \<ge> 0")
    case True
    have "n \<noteq> ?p" using that True p by (auto simp: supersede_def RetireSlot_pool retire_one_state)
    then have "re_Pool (supersede j r) ! n = re_Pool r ! n" using True by (simp add: supersede_def RetireSlot_pool)
    then show ?thesis using that at(2) [OF that(1)] \<open>n \<noteq> ?p\<close> True by auto
  next
    case False
    then show ?thesis using that at(2) [OF that(1)] by (auto simp: supersede_def)
  qed
  show "re_Pool (supersede j r) ! n = re_Pool r ! n" if "sl_State (re_Pool r ! n) = AA23SlotWriting" "n < length (re_Pool r)" for n
    using that p by (cases "n = ?p") (auto simp: supersede_def RetireSlot_pool)
  show "length (re_Records (supersede j r)) = length (re_Records r)" by (simp add: supersede_def RetireSlot_length)
  show "rr_Used (re_Records (supersede j r) ! j)" "rr_Registered (re_Records (supersede j r) ! j) = rr_Registered (re_Records r ! j)"
    using RetireSlot_row [OF j(1)] j(2) by (simp_all add: supersede_def)
qed

lemma PublishPrepared_inv:
  assumes "reg_inv r"
  shows "reg_inv (fst (AA23PublishPrepared ref now r))"
proof (cases rule: PublishPrepared_cases [of ref now r])
  case (refused e)
  then show ?thesis using ObserveClock_inv [OF assms] by simp
next
  case (dropped r1 e)
  have "reg_inv r1" using ObserveClock_inv [OF assms, of now] dropped(1) by simp
  then show ?thesis
    using dropped release_or_park_state [of "re_Pool r1 ! sr_Index ref"]
    by (auto simp: Resolve_iff intro!: reg_inv_upd_slot release_or_park_change)
next
  case (published r1 j)
  have r1: "reg_inv r1" using ObserveClock_inv [OF assms, of now] published(1) by simp
  then have "addr_inv r1" by (simp add: reg_inv_def)
  note ok = CheckPublishable_ok [OF this published(4)]
  note sup = supersede_spec [OF r1 ok(4,5)]
  have i: "sr_Index ref < length (re_Pool r1)" using published(2) by (simp add: Resolve_iff)
  have same: "re_Pool (supersede j r1) ! sr_Index ref = re_Pool r1 ! sr_Index ref" using sup(4) published(3) i by blast
  have "reg_inv (fst (publish_slot \<lparr>sr_Index = sr_Index ref, sr_Incarnation = sr_Incarnation ref\<rparr> j (supersede j r1)))"
    using published(3) i same sup ok by (intro reg_inv_publish) simp_all
  then show ?thesis unfolding published(7) by (cases ref) simp
qed

end
