(* ===== verification/Plan_Host.thy ===== *)
theory Plan_Host
  imports Plan_Invariant
begin

text \<open>
  Every operation of the plan registry as a step of the host: each keeps the registry invariant, lets slots evolve
  only forward, and, acknowledgement and worker termination apart, keeps every plan a worker may still use.
\<close>

section \<open>Host steps\<close>

datatype host_op =
    HOpen
  | HRegister AA23Registration AA23ClockReading
  | HUnregister AA23RegistrationKey
  | HDisconnect id64
  | HReset
  | HBindMaster id64 byte
  | HReleaseMaster id64 byte
  | HMarkConflict byte
  | HClearConflict byte
  | HRenew AA23RegistrationKey tick AA23ClockReading
  | HAdvanceSource AA23RegistrationKey id64 tick AA23ClockReading
  | HExpireDue AA23ClockReading
  | HBindWorker id64 id64
  | HTerminated id64
  | HPrepare AA23PlanCandidate AA23ClockReading
  | HAbort AA23SlotRef
  | HPublish AA23SlotRef AA23ClockReading
  | HAcknowledge AA23Acknowledgement
  | HReclaim AA23SlotRef

fun host_step :: "host_op \<Rightarrow> AA23Registry \<Rightarrow> AA23Registry" where
  "host_step HOpen r = fst (AA23OpenSubscriber r)"
| "host_step (HRegister c now) r = fst (AA23Register c now r)"
| "host_step (HUnregister k) r = fst (AA23Unregister k r)"
| "host_step (HDisconnect sid) r = AA23DisconnectSubscriber sid r"
| "host_step HReset r = AA23Reset r"
| "host_step (HBindMaster sid a) r = fst (AA23BindMaster sid a r)"
| "host_step (HReleaseMaster sid a) r = AA23ReleaseMaster sid a r"
| "host_step (HMarkConflict a) r = AA23MarkPhysicalConflict a r"
| "host_step (HClearConflict a) r = AA23ClearPhysicalConflict a r"
| "host_step (HRenew k t now) r = fst (AA23RenewRegistration k t now r)"
| "host_step (HAdvanceSource k g t now) r = fst (AA23AdvanceSource k g t now r)"
| "host_step (HExpireDue now) r = fst (AA23ExpireDue now r)"
| "host_step (HBindWorker w s) r = fst (AA23BindWorker w s r)"
| "host_step (HTerminated w) r = fst (AA23ObserveWorkerTerminated w r)"
| "host_step (HPrepare c now) r = fst (AA23PreparePlan c now r)"
| "host_step (HAbort ref) r = fst (AA23AbortPrepared ref r)"
| "host_step (HPublish ref now) r = fst (AA23PublishPrepared ref now r)"
| "host_step (HAcknowledge ack) r = fst (AA23ObserveAcknowledgement ack r)"
| "host_step (HReclaim ref) r = r\<lparr>re_Pool := fst (AA23Reclaim (re_Pool r) ref)\<rparr>"

section \<open>The invariant holds initially and is kept\<close>

lemma NewRegistry_inv: "AA23NewRegistry l floor = Inr r \<Longrightarrow> reg_inv r"
  by (auto simp: AA23NewRegistry_def reg_inv_def inv_defs slot_shape_def aa23NewPool_def new_slot_def zero_record_def live_def busy_def
      split: option.splits)

lemma release_change: "slot_change s (fst (aa23Release s))"
  by (auto simp: aa23Release_def slot_change_def busy_def live_def word_inc_nonzero)

lemma release_state: "sl_State (fst (aa23Release s)) = AA23SlotPublished \<Longrightarrow> sl_State s = AA23SlotPublished"
  by (auto simp: aa23Release_def split: if_splits)

lemma AbortPrepared_inv: "reg_inv r \<Longrightarrow> reg_inv (fst (AA23AbortPrepared ref r))"
  using release_state by (auto simp: AA23AbortPrepared_def Resolve_iff intro!: reg_inv_upd_slot release_change split: sum.split)

lemma Reclaim_as_slot:
  "r\<lparr>re_Pool := fst (AA23Reclaim (re_Pool r) ref)\<rparr> = r \<or>
   (\<exists>i. i < length (re_Pool r) \<and> sl_State (re_Pool r ! i) = AA23SlotReclaimable \<and>
      r\<lparr>re_Pool := fst (AA23Reclaim (re_Pool r) ref)\<rparr> = upd_slot i (\<lambda>s. fst (aa23Release s)) r)"
  by (auto simp: AA23Reclaim_def Resolve_iff upd_slot_def split: sum.split prod.split)

lemma Reclaim_inv: "reg_inv r \<Longrightarrow> reg_inv (r\<lparr>re_Pool := fst (AA23Reclaim (re_Pool r) ref)\<rparr>)"
  using Reclaim_as_slot [of r ref] release_state
  by (auto intro!: reg_inv_upd_slot release_change)

lemma Ack_cases:
  obtains (refused) e where "AA23ObserveAcknowledgement ack r = (r, Some e)"
  | (accepted) i where "i = sr_Index (ak_Slot ack)" "i < length (re_Pool r)" "sl_State (re_Pool r ! i) = AA23SlotRetained"
      "sl_Incarnation (re_Pool r ! i) = sr_Incarnation (ak_Slot ack)" "sl_Identity (re_Pool r ! i) = ak_Identity ack"
      "\<not> sl_Pinned (re_Pool r ! i)"
      "AA23ObserveAcknowledgement ack r = (aa23Settle (pi_Registration (ak_Identity ack))
        (upd_slot i (\<lambda>s. s\<lparr>sl_State := AA23SlotReclaimable\<rparr>) r), None)"
proof (cases "\<exists>e. AA23ObserveAcknowledgement ack r = (r, Some e)")
  case True
  then show ?thesis using refused by blast
next
  case False
  then obtain i where res: "aa23Resolve (re_Pool r) (ak_Slot ack) = Inr i"
    by (cases "aa23Resolve (re_Pool r) (ak_Slot ack)") (auto simp: AA23ObserveAcknowledgement_def)
  then have unfold: "AA23ObserveAcknowledgement ack r =
      (if sl_State (re_Pool r ! i) \<noteq> AA23SlotRetained then (r, Some ErrAA23SlotState)
       else if sl_Identity (re_Pool r ! i) \<noteq> ak_Identity ack then (r, Some ErrAA23IdentityMismatch)
       else if sl_Pinned (re_Pool r ! i) then (r, Some ErrAA23SlotPinned)
       else (aa23Settle (pi_Registration (sl_Identity (re_Pool r ! i))) (upd_slot i (\<lambda>s. s\<lparr>sl_State := AA23SlotReclaimable\<rparr>) r), None))"
    by (simp add: AA23ObserveAcknowledgement_def)
  have i: "i = sr_Index (ak_Slot ack)" "i < length (re_Pool r)" "sl_Incarnation (re_Pool r ! i) = sr_Incarnation (ak_Slot ack)"
    using res unfolding Resolve_iff by blast+
  show ?thesis using False unfold i accepted [of i] by (auto split: if_splits)
qed

lemma Ack_inv:
  assumes "reg_inv r"
  shows "reg_inv (fst (AA23ObserveAcknowledgement ack r))"
proof (cases rule: Ack_cases [of ack r])
  case (accepted i)
  have "reg_inv (upd_slot i (\<lambda>s. s\<lparr>sl_State := AA23SlotReclaimable\<rparr>) r)"
    using assms accepted(2,3) by (intro reg_inv_upd_slot) (simp_all add: slot_change_def busy_def live_def)
  then show ?thesis using accepted by (simp add: Settle_inv)
qed (use assms in simp)

lemma RetireWhere_frame [simp]:
  "re_WorkerBound (aa23RetireWhere reason P r) = re_WorkerBound r" "re_Worker (aa23RetireWhere reason P r) = re_Worker r"
  "re_Stream (aa23RetireWhere reason P r) = re_Stream r" "re_WorkerTop (aa23RetireWhere reason P r) = re_WorkerTop r"
  "re_PlanTop (aa23RetireWhere reason P r) = re_PlanTop r" "re_Clock (aa23RetireWhere reason P r) = re_Clock r"
  "re_Limits (aa23RetireWhere reason P r) = re_Limits r"
proof -
  have slot: "re_WorkerBound (aa23RetireSlot reason i r) = re_WorkerBound r \<and> re_Worker (aa23RetireSlot reason i r) = re_Worker r \<and>
      re_Stream (aa23RetireSlot reason i r) = re_Stream r \<and> re_WorkerTop (aa23RetireSlot reason i r) = re_WorkerTop r \<and>
      re_PlanTop (aa23RetireSlot reason i r) = re_PlanTop r \<and> re_Clock (aa23RetireSlot reason i r) = re_Clock r \<and>
      re_Limits (aa23RetireSlot reason i r) = re_Limits r" for i r
    by (auto simp: aa23RetireSlot_def clear_published_def upd_defs split: AA23SlotState.split option.split)
  have "re_WorkerBound (retire_loop reason P is r) = re_WorkerBound r \<and> re_Worker (retire_loop reason P is r) = re_Worker r \<and>
      re_Stream (retire_loop reason P is r) = re_Stream r \<and> re_WorkerTop (retire_loop reason P is r) = re_WorkerTop r \<and>
      re_PlanTop (retire_loop reason P is r) = re_PlanTop r \<and> re_Clock (retire_loop reason P is r) = re_Clock r \<and>
      re_Limits (retire_loop reason P is r) = re_Limits r" for "is"
    by (induction "is" arbitrary: r) (simp_all add: slot)
  then show "re_WorkerBound (aa23RetireWhere reason P r) = re_WorkerBound r" "re_Worker (aa23RetireWhere reason P r) = re_Worker r"
    "re_Stream (aa23RetireWhere reason P r) = re_Stream r" "re_WorkerTop (aa23RetireWhere reason P r) = re_WorkerTop r"
    "re_PlanTop (aa23RetireWhere reason P r) = re_PlanTop r" "re_Clock (aa23RetireWhere reason P r) = re_Clock r"
    "re_Limits (aa23RetireWhere reason P r) = re_Limits r"
    by (simp_all add: aa23RetireWhere_def)
qed

text \<open>Retiring every plan leaves no plan that is written or published.\<close>

lemma RetireWhere_all:
  "s \<in> set (re_Pool (aa23RetireWhere reason (\<lambda>_. True) r)) \<Longrightarrow> sl_State s \<notin> {AA23SlotWriting, AA23SlotPublished}"
  by (auto simp: RetireWhere_pool retire_one_state)

lemma BindWorker_inv:
  assumes "reg_inv r"
  shows "reg_inv (fst (AA23BindWorker worker stream r))"
proof (cases "worker \<noteq> 0 \<and> stream \<noteq> 0 \<and> (worker > re_WorkerTop r \<or>
    worker = re_WorkerTop r \<and> re_WorkerBound r \<and> stream > re_Stream r)")
  case False
  then have "fst (AA23BindWorker worker stream r) = r" by (auto simp: AA23BindWorker_def Let_def)
  then show ?thesis using assms by simp
next
  case True
  define r1 where "r1 = aa23RetireWhere AA23RetireRevoked (\<lambda>_. True) r"
  define recs where "recs = (if worker > re_WorkerTop r then map (\<lambda>rec. rec\<lparr>rr_PublishTop := 0\<rparr>) (re_Records r1) else re_Records r1)"
  define top where "top = (if worker > re_WorkerTop r then 0 else re_PlanTop r)"
  have r1: "reg_inv r1" using assms by (simp add: r1_def RetireWhere_inv)
  have "reg_inv (r1\<lparr>re_Records := recs\<rparr>)" by (rule reg_inv_records [OF r1]) (simp_all add: recs_def)
  then have parts: "addr_inv (r1\<lparr>re_Records := recs\<rparr>)" "pub_inv (r1\<lparr>re_Records := recs\<rparr>)" "hold_inv (r1\<lparr>re_Records := recs\<rparr>)"
      "shape_inv (r1\<lparr>re_Records := recs\<rparr>)"
    by (simp_all add: reg_inv_def)
  let ?r = "r1\<lparr>re_PlanTop := top, re_Records := recs, re_WorkerBound := True, re_Worker := worker, re_WorkerTop := worker, re_Stream := stream\<rparr>"
  have "slot_bound ?r s" if s: "s \<in> set (re_Pool r1)" for s
  proof -
    have old: "slot_bound r1 s" using r1 s by (simp add: reg_inv_def bound_inv_def)
    have "sl_State s \<notin> {AA23SlotWriting, AA23SlotPublished}" using s RetireWhere_all unfolding r1_def by blast
    then show ?thesis using old True by (auto simp: slot_bound_def top_def r1_def)
  qed
  then have "reg_inv ?r" using parts by (simp add: reg_inv_def inv_defs(1-4) shape_inv_def)
  moreover have "fst (AA23BindWorker worker stream r) = ?r"
    using True by (auto simp: AA23BindWorker_def Let_def r1_def recs_def top_def)
  ultimately show ?thesis by simp
qed

text \<open>Worker termination.\<close>

definition terminate_one :: "id64 \<Rightarrow> aa23Slot \<Rightarrow> aa23Slot" where
  "terminate_one worker s =
     (if live s \<and> pi_Worker (sl_Identity s) = worker
      then (retire_one AA23RetireRevoked (\<lambda>_. True) s)\<lparr>sl_Pinned := False, sl_State := AA23SlotReclaimable\<rparr> else s)"

lemma terminate_body_inv:
  assumes "reg_inv r" and "i < length (re_Pool r)" and "live (re_Pool r ! i)"
  shows "reg_inv (upd_slot i (\<lambda>s. s\<lparr>sl_Pinned := False, sl_State := AA23SlotReclaimable\<rparr>) (aa23RetireSlot AA23RetireRevoked i r))"
proof -
  let ?r = "aa23RetireSlot AA23RetireRevoked i r"
  have "reg_inv ?r" using assms by (simp add: RetireSlot_inv)
  moreover have "re_Pool ?r ! i = retire_one AA23RetireRevoked (\<lambda>_. True) (re_Pool r ! i)" "i < length (re_Pool ?r)"
    using assms(2) by (simp_all add: RetireSlot_pool)
  moreover have "live (re_Pool ?r ! i)" "sl_State (re_Pool ?r ! i) \<noteq> AA23SlotPublished"
    using assms(3) calculation(2) by (simp_all add: retire_one_live retire_one_state)
  ultimately show ?thesis by (intro reg_inv_upd_slot) (simp_all add: slot_change_def busy_def live_def)
qed

lemma terminate_loop_spec:
  assumes "distinct is" and "\<forall>i \<in> set is. i < length (re_Pool r)"
  shows "length (re_Pool (terminate_loop w is r)) = length (re_Pool r) \<and>
    (\<forall>i. re_Pool (terminate_loop w is r) ! i = (if i \<in> set is then terminate_one w (re_Pool r ! i) else re_Pool r ! i)) \<and>
    (reg_inv r \<longrightarrow> reg_inv (terminate_loop w is r))"
  using assms
proof (induction "is" arbitrary: r)
  case (Cons i "is")
  define r1 where "r1 = (if sl_State (re_Pool r ! i) \<notin> {AA23SlotPublished, AA23SlotRetained} then r
      else if pi_Worker (sl_Identity (re_Pool r ! i)) \<noteq> w then r
      else let k = pi_Registration (sl_Identity (re_Pool r ! i)) in
        aa23Settle k (upd_slot i (\<lambda>s. s\<lparr>sl_Pinned := False, sl_State := AA23SlotReclaimable\<rparr>) (aa23RetireSlot AA23RetireRevoked i r)))"
  have i: "i < length (re_Pool r)" using Cons.prems by simp
  have pool: "re_Pool r1 = (re_Pool r)[i := terminate_one w (re_Pool r ! i)]"
    using i by (simp add: r1_def Let_def upd_slot_def RetireSlot_pool terminate_one_def live_def)
  have inv: "reg_inv r \<longrightarrow> reg_inv r1"
    using i terminate_body_inv [of r i] by (simp add: r1_def Let_def live_def Settle_inv)
  have "terminate_loop w (i # is) r = terminate_loop w is r1" by (simp only: terminate_loop.simps r1_def)
  then show ?case using Cons.IH [of r1] Cons.prems pool inv by (auto simp: nth_list_update)
qed simp

lemma RetireSlot_bound_commute:
  "aa23RetireSlot reason i (r\<lparr>re_WorkerBound := b\<rparr>) = (aa23RetireSlot reason i r)\<lparr>re_WorkerBound := b\<rparr>"
  by (auto simp: aa23RetireSlot_def clear_published_def aa23FindExact_def Let_def upd_defs split: AA23SlotState.split)

lemma RetireWhere_bound_commute:
  "aa23RetireWhere reason P (r\<lparr>re_WorkerBound := b\<rparr>) = (aa23RetireWhere reason P r)\<lparr>re_WorkerBound := b\<rparr>"
proof -
  have "retire_loop reason P is (r\<lparr>re_WorkerBound := b\<rparr>) = (retire_loop reason P is r)\<lparr>re_WorkerBound := b\<rparr>" for "is"
    by (induction "is" arbitrary: r) (simp_all add: RetireSlot_bound_commute)
  then show ?thesis by (simp add: aa23RetireWhere_def)
qed

definition unbind :: "id64 \<Rightarrow> AA23Registry \<Rightarrow> AA23Registry" where
  "unbind w r = (if re_WorkerBound r \<and> re_Worker r = w
     then aa23RetireWhere AA23RetireRevoked (\<lambda>s. sl_State s = AA23SlotWriting) (r\<lparr>re_WorkerBound := False\<rparr>) else r)"

lemma unbind_inv:
  assumes "reg_inv r"
  shows "reg_inv (unbind w r)"
proof -
  let ?r = "aa23RetireWhere AA23RetireRevoked (\<lambda>s. sl_State s = AA23SlotWriting) r"
  have inv: "reg_inv ?r" using assms by (rule RetireWhere_inv)
  have "slot_bound (?r\<lparr>re_WorkerBound := False\<rparr>) s" if "s \<in> set (re_Pool ?r)" for s
  proof -
    have "slot_bound ?r s" using inv that by (simp add: reg_inv_def bound_inv_def)
    moreover have "sl_State s \<noteq> AA23SlotWriting" using that by (auto simp: RetireWhere_pool retire_one_state)
    ultimately show ?thesis by (simp add: slot_bound_def)
  qed
  then have "reg_inv (?r\<lparr>re_WorkerBound := False\<rparr>)" using inv by (simp add: reg_inv_def inv_defs(1-4) shape_inv_def)
  then show ?thesis using assms by (simp add: unbind_def RetireWhere_bound_commute)
qed

lemma Terminated_eq:
  "fst (AA23ObserveWorkerTerminated w r) =
     (if w = 0 \<or> w > re_WorkerTop r then r else terminate_loop w [0..<length (re_Pool (unbind w r))] (unbind w r))"
  by (simp add: AA23ObserveWorkerTerminated_def unbind_def Let_def)

lemma Terminated_inv: "reg_inv r \<Longrightarrow> reg_inv (fst (AA23ObserveWorkerTerminated w r))"
  using terminate_loop_spec [of "[0..<length (re_Pool (unbind w r))]" "unbind w r" w] unbind_inv
  by (simp add: Terminated_eq)

lemma Terminated_pool:
  assumes "w \<noteq> 0" and "w \<le> re_WorkerTop r"
  shows "re_Pool (fst (AA23ObserveWorkerTerminated w r)) = map (terminate_one w) (re_Pool (unbind w r))"
  using terminate_loop_spec [of "[0..<length (re_Pool (unbind w r))]" "unbind w r" w] assms
  by (auto simp: Terminated_eq intro: nth_equalityI)

lemma release_masters_inv [simp]: "reg_inv (release_masters_loop sid as r) = reg_inv r"
  by (induction as arbitrary: r) simp_all

lemma release_masters_frame [simp]:
  "re_Pool (release_masters_loop sid as r) = re_Pool r" "re_Records (release_masters_loop sid as r) = re_Records r"
  by (induction as arbitrary: r) simp_all

text \<open>Every host operation keeps the invariant.\<close>

lemma host_step_inv:
  assumes "reg_inv r"
  shows "reg_inv (host_step op r)"
proof -
  have clock: "reg_inv r1" if "aa23ObserveClock now r = (r1, e)" for now r1 e
    using ObserveClock_inv [OF assms, of now] that by simp
  show ?thesis
  proof (cases op)
    case (HUnregister k)
    then show ?thesis using assms by (auto simp: AA23Unregister_def Let_def Retire_inv split: option.split)
  next
    case (HDisconnect sid)
    then show ?thesis using assms
      by (auto simp: AA23DisconnectSubscriber_def aa23ReleaseMastersWhere_def Let_def retire_records_inv split: option.split)
  next
    case (HRenew k t now)
    then show ?thesis using assms clock
      by (auto simp: AA23RenewRegistration_def intro!: reg_inv_upd_record split: prod.split option.split)
  next
    case (HAdvanceSource k g t now)
    then show ?thesis using assms clock
      by (auto simp: AA23AdvanceSource_def intro!: RetireWhere_inv reg_inv_upd_record split: prod.split option.split)
  next
    case (HExpireDue now)
    then show ?thesis using clock
      by (auto simp: AA23ExpireDue_def Let_def intro!: retire_records_inv RetireWhere_inv split: prod.split option.split)
  next
    case HOpen
    then show ?thesis using assms by (auto simp: AA23OpenSubscriber_def Let_def split: option.split)
  qed (use assms in \<open>simp_all add: Register_inv AA23Reset_def aa23ReleaseMastersWhere_def Let_def retire_records_inv
      AA23BindMaster_def AA23ReleaseMaster_def AA23MarkPhysicalConflict_def AA23ClearPhysicalConflict_def RetireWhere_inv
      BindWorker_inv Terminated_inv PreparePlan_inv AbortPrepared_inv PublishPrepared_inv Ack_inv Reclaim_inv\<close>)
qed

section \<open>How slots change\<close>

text \<open>
  A relation between the old and the new contents of a slot that survives retirement, release and publication
  survives every host operation but preparation, acknowledgement and worker termination.
\<close>

locale slot_relation =
  fixes R :: "aa23Slot \<Rightarrow> aa23Slot \<Rightarrow> bool"
  assumes refl: "R s s"
    and trans: "R s s' \<Longrightarrow> R s' s'' \<Longrightarrow> R s s''"
    and retire: "R s (retire_one reason P s)"
    and release: "sl_State s \<in> {AA23SlotWriting, AA23SlotReclaimable} \<Longrightarrow> R s (fst (aa23Release s))"
    and park: "sl_State s = AA23SlotWriting \<Longrightarrow> R s (release_or_park s)"
    and publish: "sl_State s = AA23SlotWriting \<Longrightarrow> R s (s\<lparr>sl_State := AA23SlotPublished\<rparr>)"
begin

lemma all_refl: "list_all2 R xs xs" by (simp add: list.rel_refl refl)

lemma all_trans: "list_all2 R xs ys \<Longrightarrow> list_all2 R ys zs \<Longrightarrow> list_all2 R xs zs"
  by (rule list_all2_trans [of R R R]) (auto intro: trans)

lemma all_retire: "list_all2 R xs (map (retire_one reason P) xs)"
  by (simp add: list_all2_map2 list.rel_refl retire)

lemma all_update_one: "(i < length xs \<Longrightarrow> R (xs ! i) s) \<Longrightarrow> list_all2 R xs (xs[i := s])"
  by (cases "i < length xs") (auto simp: list_all2_conv_all_nth nth_list_update refl)

lemma rel_clock: "aa23ObserveClock now r = (r1, e) \<Longrightarrow> list_all2 R (re_Pool r) (re_Pool r1)"
  by (auto simp: aa23ObserveClock_def Let_def RetireWhere_pool all_refl all_retire split: prod.splits if_splits)

lemma rel_records: "list_all2 R (re_Pool r) (re_Pool (retire_records reason P is r))"
proof (induction "is" arbitrary: r)
  case (Cons i "is")
  show ?case using Cons [of r] Cons [of "aa23Retire reason i r"]
      all_trans [OF all_retire, of _ _ "re_Pool r" "re_Pool (retire_records reason P is (aa23Retire reason i r))"]
    by (simp add: Retire_pool)
qed (simp add: all_refl)

lemma rel_publish: "reg_inv r \<Longrightarrow> list_all2 R (re_Pool r) (re_Pool (fst (AA23PublishPrepared ref now r)))"
proof (cases rule: PublishPrepared_cases [of ref now r])
  case (refused e)
  then show ?thesis using rel_clock [of now r] by (cases "aa23ObserveClock now r") simp
next
  case (dropped r1 e)
  then show ?thesis using all_trans [OF rel_clock [OF dropped(1)]] by (simp add: upd_slot_def all_update_one park)
next
  case (published r1 j)
  assume "reg_inv r"
  then have r1: "reg_inv r1" using ObserveClock_inv [of r now] published(1) by simp
  then have "addr_inv r1" by (simp add: reg_inv_def)
  note ok = CheckPublishable_ok [OF this published(4)]
  note sup = supersede_spec [OF r1 ok(4,5)]
  have i: "sr_Index ref < length (re_Pool r1)" using published(2) unfolding Resolve_iff by blast
  have "list_all2 R (re_Pool r1) (re_Pool (supersede j r1))"
    by (simp add: supersede_def RetireSlot_pool all_refl all_update_one retire)
  moreover have "list_all2 R (re_Pool (supersede j r1)) (re_Pool (fst (publish_slot ref j (supersede j r1))))"
    using published(3) sup(4) [OF published(3) i] by (simp add: publish_slot_def Let_def upd_defs all_update_one publish)
  ultimately show ?thesis using all_trans rel_clock [OF published(1)] unfolding published(7) by blast
qed

lemma rel_step:
  assumes "reg_inv r"
    and "\<And>c now. op \<noteq> HPrepare c now" and "\<And>ack. op \<noteq> HAcknowledge ack" and "\<And>w. op \<noteq> HTerminated w"
  shows "list_all2 R (re_Pool r) (re_Pool (host_step op r))"
proof (cases op)
  case (HRegister c now)
  obtain r1 e where r1: "aa23ObserveClock now r = (r1, e)" by fastforce
  have "re_Pool (fst (register_insert c r1)) = re_Pool r1"
    by (simp add: register_insert_def Let_def upd_defs split: option.split)
  then show ?thesis using HRegister rel_clock [OF r1] r1 by (cases rule: Register_cases [of c now r]) simp_all
next
  case (HUnregister k)
  then show ?thesis by (auto simp: AA23Unregister_def Let_def Retire_pool all_refl all_retire split: option.split)
next
  case (HDisconnect sid)
  show ?thesis
  proof (cases "aa23FindSubscriber r sid")
    case None
    then show ?thesis using HDisconnect by (simp add: AA23DisconnectSubscriber_def all_refl)
  next
    case (Some j)
    let ?r = "aa23ReleaseMastersWhere sid (upd_subscriber j (\<lambda>s. s\<lparr>su_Open := False\<rparr>) r)"
    have "re_Pool ?r = re_Pool r" by (simp add: aa23ReleaseMastersWhere_def upd_defs)
    then show ?thesis using HDisconnect Some rel_records [of ?r AA23RetireRevoked]
      by (simp add: AA23DisconnectSubscriber_def Let_def aa23ForgetClosedSubscriber_def upd_subscriber_def split: option.split)
  qed
next
  case HReset
  then show ?thesis using rel_records [of "aa23ReleaseMastersWhere 0 r"]
    by (simp add: AA23Reset_def Let_def aa23ReleaseMastersWhere_def)
next
  case (HRenew k t now)
  then show ?thesis using rel_clock [of now r]
    by (auto simp: AA23RenewRegistration_def upd_defs split: prod.split option.split)
next
  case (HAdvanceSource k g t now)
  then show ?thesis using rel_clock [of now r] all_trans all_retire
    by (auto simp: AA23AdvanceSource_def RetireWhere_pool upd_defs split: prod.split option.split)
next
  case (HExpireDue now)
  obtain r1 e where r1: "aa23ObserveClock now r = (r1, e)" by fastforce
  let ?r = "aa23RetireWhere AA23RetireExpired (\<lambda>s. sl_State s = AA23SlotPublished \<and> validity_Check (sl_Validity s) now \<noteq> None) r1"
  have "list_all2 R (re_Pool r) (re_Pool ?r)" using all_trans [OF rel_clock [OF r1] all_retire] by (simp add: RetireWhere_pool)
  then show ?thesis using HExpireDue r1 rel_clock [OF r1] all_trans [OF _ rel_records]
    by (simp add: AA23ExpireDue_def Let_def split: option.split)
next
  case (HBindWorker w s)
  then show ?thesis by (simp add: AA23BindWorker_def Let_def RetireWhere_pool all_refl all_retire)
next
  case (HAbort ref)
  then show ?thesis by (auto simp: AA23AbortPrepared_def upd_slot_def all_refl all_update_one release split: sum.split)
next
  case (HReclaim ref)
  have "host_step op r = r \<or> (\<exists>i. i < length (re_Pool r) \<and> sl_State (re_Pool r ! i) = AA23SlotReclaimable \<and>
      host_step op r = upd_slot i (\<lambda>s. fst (aa23Release s)) r)"
    unfolding HReclaim host_step.simps by (rule Reclaim_as_slot)
  then show ?thesis by (auto simp: upd_slot_def all_refl all_update_one release)
next
  case HOpen
  then show ?thesis by (simp add: AA23OpenSubscriber_def Let_def upd_defs all_refl split: option.split)
qed (use assms in \<open>simp_all add: all_refl all_retire AA23BindMaster_def AA23ReleaseMaster_def AA23MarkPhysicalConflict_def
    AA23ClearPhysicalConflict_def RetireWhere_pool rel_publish\<close>)

end

interpretation evolve: slot_relation evolves
proof
  show "evolves s (release_or_park s)" if "sl_State s = AA23SlotWriting" for s
    using release_or_park_state [of s] by (auto simp: evolves_def busy_def)
  show "evolves s (fst (aa23Release s))" for s
    by (auto simp: evolves_def aa23Release_def busy_def word_inc_le)
  show "evolves s (s\<lparr>sl_State := AA23SlotPublished\<rparr>)" if "sl_State s = AA23SlotWriting" for s
    using that by (simp add: evolves_def busy_def content_def)
qed (auto intro: evolves_trans)

lemma keeps_dead: "\<not> live s \<Longrightarrow> keeps s s'" by (simp add: keeps_def)

interpretation keep: slot_relation keeps
  by unfold_locales (auto intro: keeps_trans keeps_dead simp: live_def)

end
