(* ===== verification/Plan_Store.thy ===== *)
theory Plan_Store
  imports Plan_Invariant
begin

text \<open>
  What a slot stores: the flat copy \<open>aa23Copy\<close> makes of a candidate holds every entry, so that matching a request
  and reading a response symbol from the slot are matching and reading in the candidate.
\<close>

section \<open>Slots that store a candidate\<close>

definition segment :: "byte list \<Rightarrow> nat \<Rightarrow> nat \<Rightarrow> byte list" where
  "segment bytes start len = take len (drop start bytes)"

definition stores_entry :: "byte list \<Rightarrow> aa23EntryRecord \<Rightarrow> AA23PlanEntry \<Rightarrow> bool" where
  "stores_entry bytes rec e \<longleftrightarrow>
     er_SourceAny rec = sc_Any (pe_Source e) \<and> er_Source rec = sc_Source (pe_Source e) \<and> er_PB rec = pe_PB e \<and> er_SB rec = pe_SB e \<and>
     er_Phase rec = pe_AllowedPhase e \<and>
     er_RequestLen rec = length (pe_Request e) \<and> segment bytes (er_RequestStart rec) (er_RequestLen rec) = pe_Request e \<and>
     er_ReplyLen rec = length (pe_EncodedResponse e) \<and> segment bytes (er_ReplyStart rec) (er_ReplyLen rec) = pe_EncodedResponse e"

definition stored :: "aa23Slot \<Rightarrow> AA23PlanCandidate \<Rightarrow> bool" where
  "stored s c \<longleftrightarrow> sl_Identity s = pc_Identity c \<and> sl_EntryCount s = length (pc_Entries c) \<and>
     length (pc_Entries c) \<le> length (sl_Entries s) \<and>
     (\<forall>n < length (pc_Entries c). stores_entry (sl_Bytes s) (sl_Entries s ! n) (pc_Entries c ! n))"

definition plan_bytes :: "AA23PlanEntry list \<Rightarrow> nat" where
  "plan_bytes es = (\<Sum>e\<leftarrow>es. length (pe_Request e) + length (pe_EncodedResponse e))"

lemma plan_bytes_Cons [simp]:
  "plan_bytes (e # es) = length (pe_Request e) + length (pe_EncodedResponse e) + plan_bytes es"
  by (simp add: plan_bytes_def)

section \<open>The copy\<close>

lemma go_copy_room:
  assumes "off + length src \<le> length dst"
  shows "go_copy dst off src = (take off dst @ src @ drop (off + length src) dst, length src)"
  using assms by (auto simp: go_copy_def Let_def min_def)

lemma segment_low:
  "take k xs = take k ys \<Longrightarrow> start + len \<le> k \<Longrightarrow> segment xs start len = segment ys start len"
  by (metis (no_types, lifting) add.commute drop_take min_absorb1 segment_def take_drop take_take)

lemma segment_written: "off \<le> length dst \<Longrightarrow> segment (take off dst @ src @ rest) off (length src) = src"
  by (simp add: segment_def)

text \<open>
  The loop writes from \<open>index\<close> and \<open>cursor\<close> on: what lies below stays, and the entries are stored one after the other.
\<close>

lemma copy_loop_spec:
  assumes "cursor + plan_bytes es \<le> length (sl_Bytes s)" and "index + length es \<le> length (sl_Entries s)"
  shows "take cursor (sl_Bytes (copy_loop index cursor es s)) = take cursor (sl_Bytes s) \<and>
    (\<forall>k < index. sl_Entries (copy_loop index cursor es s) ! k = sl_Entries s ! k) \<and>
    length (sl_Entries (copy_loop index cursor es s)) = length (sl_Entries s) \<and>
    (\<forall>n < length es. stores_entry (sl_Bytes (copy_loop index cursor es s)) (sl_Entries (copy_loop index cursor es s) ! (index + n)) (es ! n))"
  using assms
proof (induction es arbitrary: index cursor s)
  case (Cons e es)
  let ?q = "length (pe_Request e)" and ?p = "length (pe_EncodedResponse e)"
  define b1 where "b1 = take cursor (sl_Bytes s) @ pe_Request e @ drop (cursor + ?q) (sl_Bytes s)"
  define b2 where "b2 = take (cursor + ?q) b1 @ pe_EncodedResponse e @ drop (cursor + ?q + ?p) b1"
  define rec where "rec = \<lparr>er_SourceAny = sc_Any (pe_Source e), er_Source = sc_Source (pe_Source e),
      er_PB = pe_PB e, er_SB = pe_SB e, er_Phase = pe_AllowedPhase e, er_RequestStart = cursor,
      er_RequestLen = ?q, er_ReplyStart = cursor + ?q, er_ReplyLen = ?p\<rparr>"
  define s1 where "s1 = s\<lparr>sl_Bytes := b2, sl_Entries := (sl_Entries s)[index := rec]\<rparr>"
  have room: "cursor + ?q + ?p \<le> length (sl_Bytes s)" using Cons.prems by simp
  have len1: "length b1 = length (sl_Bytes s)" using room by (simp add: b1_def)
  have len2: "length b2 = length (sl_Bytes s)" using room len1 by (simp add: b2_def)
  have c1: "go_copy (sl_Bytes s) cursor (pe_Request e) = (b1, ?q)"
    unfolding b1_def using room by (intro go_copy_room) simp
  have c2: "go_copy b1 (cursor + ?q) (pe_EncodedResponse e) = (b2, ?p)"
    unfolding b2_def using room len1 by (intro go_copy_room) simp
  have step: "copy_loop index cursor (e # es) s = copy_loop (Suc index) (cursor + ?q + ?p) es s1"
    using c1 c2 by (simp add: Let_def s1_def rec_def)
  let ?s = "copy_loop (Suc index) (cursor + ?q + ?p) es s1"
  have IH: "take (cursor + ?q + ?p) (sl_Bytes ?s) = take (cursor + ?q + ?p) b2" "\<forall>k < Suc index. sl_Entries ?s ! k = sl_Entries s1 ! k"
      "length (sl_Entries ?s) = length (sl_Entries s)"
      "\<forall>n < length es. stores_entry (sl_Bytes ?s) (sl_Entries ?s ! (Suc index + n)) (es ! n)"
    using Cons.IH [of "cursor + ?q + ?p" s1 "Suc index"] Cons.prems len2 by (simp_all add: s1_def)
  have b1_low: "take cursor b1 = take cursor (sl_Bytes s)" using room by (simp add: b1_def)
  have b2_low: "take (cursor + ?q) b2 = take (cursor + ?q) b1" using room len1 by (simp add: b2_def)
  have low: "take cursor (sl_Bytes ?s) = take cursor (sl_Bytes s)"
  proof -
    have "take cursor (sl_Bytes ?s) = take cursor (take (cursor + ?q + ?p) (sl_Bytes ?s))" by simp
    also have "\<dots> = take cursor (take (cursor + ?q) b2)" using IH(1) by simp
    also have "\<dots> = take cursor b1" using b2_low by simp
    finally show ?thesis using b1_low by simp
  qed
  have "segment (sl_Bytes ?s) (cursor + ?q) ?p = segment b2 (cursor + ?q) ?p" using IH(1) by (rule segment_low) simp
  also have "\<dots> = pe_EncodedResponse e" unfolding b2_def using room len1 by (intro segment_written) simp
  finally have reply: "segment (sl_Bytes ?s) (cursor + ?q) ?p = pe_EncodedResponse e" .
  have "segment (sl_Bytes ?s) cursor ?q = segment b2 cursor ?q" using IH(1) by (rule segment_low) simp
  also have "\<dots> = segment b1 cursor ?q" using b2_low by (rule segment_low) simp
  also have "\<dots> = pe_Request e" unfolding b1_def using room by (intro segment_written) simp
  finally have request: "segment (sl_Bytes ?s) cursor ?q = pe_Request e" .
  have entry: "sl_Entries ?s ! index = rec" using IH(2) Cons.prems by (simp add: s1_def)
  have "stores_entry (sl_Bytes ?s) (sl_Entries ?s ! (index + n)) ((e # es) ! n)" if "n < length (e # es)" for n
  proof (cases n)
    case 0
    then show ?thesis using entry request reply by (simp add: stores_entry_def rec_def)
  next
    case (Suc m)
    then show ?thesis using IH(4) that by simp
  qed
  moreover have "\<forall>k < index. sl_Entries ?s ! k = sl_Entries s ! k" using IH(2) by (simp add: s1_def)
  ultimately show ?case unfolding step using low IH(3) by blast
qed simp

lemma Copy_stored:
  assumes "plan_bytes (pc_Entries c) \<le> length (sl_Bytes s)" and "length (pc_Entries c) \<le> length (sl_Entries s)"
    and "sl_Identity s = pc_Identity c"
  shows "stored (aa23Copy (pc_Entries c) s) c"
  using copy_loop_spec [of 0 "pc_Entries c" s 0] copy_loop_frame [of 0 0 "pc_Entries c" s] assms
  by (simp add: stored_def aa23Copy_def)

section \<open>Valid candidates\<close>

definition valid_plan :: "AA23Limits \<Rightarrow> AA23PlanCandidate \<Rightarrow> bool" where
  "valid_plan l c \<longleftrightarrow> pc_Entries c \<noteq> [] \<and> length (pc_Entries c) \<le> unat (lim_MaxEntriesPerPlan l) \<and>
     plan_bytes (pc_Entries c) \<le> unat (lim_MaxPlanBytes l) \<and>
     (\<forall>e \<in> set (pc_Entries c). aa23ValidateEntry l e (rk_Address (pi_Registration (pc_Identity c))) = None) \<and>
     (\<forall>i j src pb sb data. i < j \<and> j < length (pc_Entries c) \<longrightarrow>
        \<not> (entry_selects (pc_Entries c ! i) src pb sb data \<and> entry_selects (pc_Entries c ! j) src pb sb data))"

lemma validate_entries_ok:
  assumes "validate_entries l a acc es = None"
  shows "(\<forall>e \<in> set es. aa23ValidateEntry l e a = None) \<and> (es \<noteq> [] \<longrightarrow> acc + plan_bytes es \<le> unat (lim_MaxPlanBytes l))"
  using assms
proof (induction es arbitrary: acc)
  case (Cons e es)
  let ?n = "length (pe_Request e) + length (pe_EncodedResponse e)"
  have ok: "aa23ValidateEntry l e a = None" "acc + ?n \<le> unat (lim_MaxPlanBytes l)" "validate_entries l a (acc + ?n) es = None"
    using Cons.prems by (auto simp: Let_def split: option.splits if_splits)
  show ?case using Cons.IH [OF ok(3)] ok(1,2) by (cases "es = []") (auto simp: plan_bytes_def add.assoc)
qed simp

lemma ValidateCandidate_valid:
  assumes "aa23ValidateCandidate r c = None" and "length (re_OverlapScratch r) = unat (lim_MaxEntriesPerPlan (re_Limits r))"
  shows "valid_plan (re_Limits r) c"
proof -
  let ?l = "re_Limits r" and ?es = "pc_Entries c"
  have ok: "?es \<noteq> []" "length ?es \<le> unat (lim_MaxEntriesPerPlan ?l)"
      "validate_entries ?l (rk_Address (pi_Registration (pc_Identity c))) 0 ?es = None"
      "aa23PlanOverlaps ?es (re_OverlapScratch r) = Some False"
    using assms(1) by (auto simp: aa23ValidateCandidate_def Let_def split: if_splits option.splits)
  have "\<not> (\<exists>i j src pb sb data. i < j \<and> j < length ?es \<and> entry_selects (?es ! i) src pb sb data \<and> entry_selects (?es ! j) src pb sb data)"
    using overlaps_iff [of ?es "re_OverlapScratch r"] ok(2,4) assms(2) by simp
  then show ?thesis using ok validate_entries_ok [OF ok(3)] by (auto simp: valid_plan_def)
qed

section \<open>Matching and reading\<close>

text \<open>The slot's scan is the candidate's: an entry matches in the slot when the query selects it.\<close>

lemma entry_matches_stored:
  assumes "stored s c" and "n < length (pc_Entries c)"
  shows "entry_matches s q (sl_Entries s ! n) \<longleftrightarrow>
    entry_selects (pc_Entries c ! n) (rq_Source q) (rq_PB q) (rq_SB q) (rq_Data q)"
  using assms by (auto simp: stored_def stores_entry_def entry_matches_def entry_selects_def segment_def)

lemma scan_stored:
  assumes "stored s c"
  shows "first_index (entry_matches s q) (take (sl_EntryCount s) (sl_Entries s)) =
    first_index (\<lambda>e. entry_selects e (rq_Source q) (rq_PB q) (rq_SB q) (rq_Data q)) (pc_Entries c)"
proof -
  have len: "length (take (sl_EntryCount s) (sl_Entries s)) = length (pc_Entries c)" using assms by (simp add: stored_def)
  have same: "entry_matches s q (take (sl_EntryCount s) (sl_Entries s) ! n) \<longleftrightarrow>
      entry_selects (pc_Entries c ! n) (rq_Source q) (rq_PB q) (rq_SB q) (rq_Data q)" if "n < length (pc_Entries c)" for n
    using entry_matches_stored [OF assms that] that assms by (simp add: stored_def)
  show ?thesis
  proof (cases "first_index (\<lambda>e. entry_selects e (rq_Source q) (rq_PB q) (rq_SB q) (rq_Data q)) (pc_Entries c)")
    case None
    then have "first_index (entry_matches s q) (take (sl_EntryCount s) (sl_Entries s)) = None"
      using same unfolding first_index_None len by simp
    then show ?thesis using None by simp
  next
    case (Some n)
    then have "first_index (entry_matches s q) (take (sl_EntryCount s) (sl_Entries s)) = Some n"
      using same unfolding first_index_Some len by auto
    then show ?thesis using Some by simp
  qed
qed

lemma symbol_stored:
  assumes "stored s c" and "n < length (pc_Entries c)" and "k < er_ReplyLen (sl_Entries s ! n)"
  shows "sl_Bytes s ! (er_ReplyStart (sl_Entries s ! n) + k) = pe_EncodedResponse (pc_Entries c ! n) ! k"
    and "er_ReplyLen (sl_Entries s ! n) = length (pe_EncodedResponse (pc_Entries c ! n))"
proof -
  let ?rec = "sl_Entries s ! n"
  have "stores_entry (sl_Bytes s) ?rec (pc_Entries c ! n)" using assms(1,2) by (simp add: stored_def)
  then have seg: "segment (sl_Bytes s) (er_ReplyStart ?rec) (er_ReplyLen ?rec) = pe_EncodedResponse (pc_Entries c ! n)"
    and len: "er_ReplyLen ?rec = length (pe_EncodedResponse (pc_Entries c ! n))"
    unfolding stores_entry_def by blast+
  show "er_ReplyLen ?rec = length (pe_EncodedResponse (pc_Entries c ! n))" by (rule len)
  have "length (segment (sl_Bytes s) (er_ReplyStart ?rec) (er_ReplyLen ?rec)) = er_ReplyLen ?rec" using seg len by simp
  then have "er_ReplyStart ?rec \<le> length (sl_Bytes s)" using assms(3) by (simp add: segment_def)
  then show "sl_Bytes s ! (er_ReplyStart ?rec + k) = pe_EncodedResponse (pc_Entries c ! n) ! k"
    using assms(3) unfolding seg [symmetric] segment_def by (simp add: add.commute)
qed

text \<open>At most one entry of a valid plan is selected, so the first match is the only one.\<close>

lemma first_match_unique:
  assumes "valid_plan l c" and "first_index (\<lambda>e. entry_selects e src pb sb data) (pc_Entries c) = Some n"
    and "m < length (pc_Entries c)" and "entry_selects (pc_Entries c ! m) src pb sb data"
  shows "m = n"
  using assms unfolding valid_plan_def first_index_Some by (metis linorder_neqE_nat)

end
