(* ===== verification/Plan_Safety.thy ===== *)
theory Plan_Safety
  imports Plan_Host Plan_Store
begin

text \<open>
  The registry and its workers as one system: host operations, worker operations and worker creation interleave in
  any order.  A ghost table records which candidate was prepared under a worker and generation; the code has no such
  table.  A worker incarnation whose termination the host has recorded takes no more steps, which is what
  \<open>AA23ObserveWorkerTerminated\<close> demands of its caller.
\<close>

section \<open>Worker steps\<close>

datatype view_op =
    VAdopt AA23PublishNotice AA23ClockReading
  | VRevocation AA23RevocationNotice
  | VAdvance id64
  | VSelect byte id64 AA23ClockReading
  | VCheck AA23PlanPin AA23WireKey AA23ClockReading
  | VRelease AA23PlanPin

text \<open>Validation, matching and both response accessors change the view as the admission check does.\<close>

fun view_step :: "view_op \<Rightarrow> AA23Pool \<Rightarrow> AA23WorkerView \<Rightarrow> AA23Pool \<times> AA23WorkerView" where
  "view_step (VAdopt n now) pool v = (pool, fst (AA23AdoptPlan n now pool v))"
| "view_step (VRevocation n) pool v = (pool, fst (AA23ObserveRevocation n pool v))"
| "view_step (VAdvance s) pool v = (let (pool', v', _) = AA23AdvanceStream s pool v in (pool', v'))"
| "view_step (VSelect a t now) pool v = (let (pool', v', _) = AA23SelectProvisional a t now pool v in (pool', v'))"
| "view_step (VCheck pin k now) pool v = (pool, fst (aa23Live pin k now pool v))"
| "view_step (VRelease pin) pool v = (let (pool', v', _) = pin_Release pin pool v in (pool', v'))"

lemma checked_accessors_step:
  "fst (AA23Validate pin k now pool v) = fst (aa23Live pin k now pool v)"
  "fst (AA23Match pin k q now pool v) = fst (aa23Live pin k now pool v)"
  "fst (AA23ResponseLength pin k n now pool v) = fst (aa23Live pin k now pool v)"
  "fst (AA23ResponseSymbol pin k n off ph now pool v) = fst (aa23Live pin k now pool v)"
  by (simp_all add: AA23Validate_def AA23Match_def AA23ResponseLength_def AA23ResponseSymbol_def Let_def split: prod.split sum.split option.split)

section \<open>The system\<close>

record plan_world =
  pw_reg :: AA23Registry
  pw_views :: "id64 \<Rightarrow> AA23WorkerView option"
  pw_dead :: "id64 set"
  pw_plans :: "id64 \<Rightarrow> id64 \<Rightarrow> (AA23PlanCandidate \<times> AA23PlanValidity) option"

abbreviation world_pool :: "plan_world \<Rightarrow> AA23Pool" where "world_pool W \<equiv> re_Pool (pw_reg W)"

definition record_plan ::
  "AA23PlanCandidate \<Rightarrow> AA23PlanValidity \<Rightarrow> (id64 \<Rightarrow> id64 \<Rightarrow> (AA23PlanCandidate \<times> AA23PlanValidity) option) \<Rightarrow>
   id64 \<Rightarrow> id64 \<Rightarrow> (AA23PlanCandidate \<times> AA23PlanValidity) option" where
  "record_plan c val plans w p =
     (if w = pi_Worker (pc_Identity c) \<and> p = pi_Plan (pc_Identity c) then Some (c, val) else plans w p)"

inductive world_step :: "plan_world \<Rightarrow> plan_world \<Rightarrow> bool" where
  host: "\<lbrakk>\<And>c now. op \<noteq> HPrepare c now; \<And>w. op \<noteq> HTerminated w\<rbrakk> \<Longrightarrow>
    world_step W (W\<lparr>pw_reg := host_step op (pw_reg W)\<rparr>)"
| prepare_refused: "AA23PreparePlan c now (pw_reg W) = (r, Inl e) \<Longrightarrow> world_step W (W\<lparr>pw_reg := r\<rparr>)"
| prepare: "AA23PreparePlan c now (pw_reg W) = (r, Inr ref) \<Longrightarrow>
    world_step W (W\<lparr>pw_reg := r, pw_plans := record_plan c (sl_Validity (re_Pool r ! sr_Index ref)) (pw_plans W)\<rparr>)"
| terminate_refused: "AA23ObserveWorkerTerminated w (pw_reg W) = (r, Some e) \<Longrightarrow> world_step W (W\<lparr>pw_reg := r\<rparr>)"
| terminated: "AA23ObserveWorkerTerminated w (pw_reg W) = (r, None) \<Longrightarrow>
    world_step W (W\<lparr>pw_reg := r, pw_views := (pw_views W)(w := None), pw_dead := insert w (pw_dead W)\<rparr>)"
| start: "\<lbrakk>AA23NewWorkerView (Some (world_pool W)) w stream = Inr v; pw_views W w = None; w \<notin> pw_dead W\<rbrakk> \<Longrightarrow>
    world_step W (W\<lparr>pw_views := (pw_views W)(w := Some v)\<rparr>)"
| work: "\<lbrakk>pw_views W w = Some v; view_step op (world_pool W) v = (pool, v')\<rbrakk> \<Longrightarrow>
    world_step W (W\<lparr>pw_reg := (pw_reg W)\<lparr>re_Pool := pool\<rparr>, pw_views := (pw_views W)(w := Some v')\<rparr>)"

inductive reachable :: "plan_world \<Rightarrow> bool" where
  init: "AA23NewRegistry l floor = Inr r \<Longrightarrow>
    reachable \<lparr>pw_reg = r, pw_views = (\<lambda>_. None), pw_dead = {}, pw_plans = (\<lambda>_ _. None)\<rparr>"
| step: "reachable W \<Longrightarrow> world_step W W' \<Longrightarrow> reachable W'"

section \<open>Incarnations\<close>

text \<open>Once an incarnation of a slot has been published it is never free or written again.\<close>

definition spent :: "aa23Slot \<Rightarrow> bool" where
  "spent s \<longleftrightarrow> sl_State s \<in> {AA23SlotPublished, AA23SlotRetained, AA23SlotReclaimable}"

definition ages :: "aa23Slot \<Rightarrow> aa23Slot \<Rightarrow> bool" where
  "ages s s' \<longleftrightarrow> sl_Incarnation s \<le> sl_Incarnation s' \<and> (sl_Incarnation s' = sl_Incarnation s \<and> spent s \<longrightarrow> spent s')"

lemma live_spent: "live s \<Longrightarrow> spent s" by (auto simp: live_def spent_def)

lemma spent_busy: "spent s \<Longrightarrow> busy s \<Longrightarrow> live s" by (auto simp: live_def spent_def busy_def)

lemma retire_one_spent: "spent s \<Longrightarrow> spent (retire_one reason P s)"
  by (auto simp: spent_def retire_one_def split: AA23SlotState.split)

interpretation age: slot_relation ages
proof
  show "ages s (retire_one reason P s)" for s reason P
    using retire_one_evolves [of s reason P] retire_one_spent by (simp add: ages_def evolves_def)
  show "ages s (fst (aa23Release s))" for s
    by (auto simp: ages_def aa23Release_def word_inc_le)
  show "ages s (release_or_park s)" if "sl_State s = AA23SlotWriting" for s
    using that by (simp add: ages_def spent_def)
  show "ages s (s\<lparr>sl_State := AA23SlotPublished\<rparr>)" if "sl_State s = AA23SlotWriting" for s
    using that by (simp add: ages_def spent_def)
qed (auto simp: ages_def)

text \<open>How a step may change the slots when the plans and pins of the workers in \<open>Q\<close> must survive.\<close>

definition slots_step :: "(id64 \<Rightarrow> bool) \<Rightarrow> AA23Pool \<Rightarrow> AA23Pool \<Rightarrow> bool" where
  "slots_step Q pool pool' \<longleftrightarrow> length pool' = length pool \<and>
     (\<forall>i < length pool. evolves (pool ! i) (pool' ! i) \<and> ages (pool ! i) (pool' ! i) \<and>
        (sl_Pinned (pool ! i) \<and> Q (pi_Worker (sl_Identity (pool ! i))) \<longrightarrow> keeps (pool ! i) (pool' ! i)) \<and>
        (sl_Pinned (pool' ! i) \<longrightarrow> Q (pi_Worker (sl_Identity (pool ! i)))))"

lemma slots_stepI:
  assumes "list_all2 evolves pool pool'" and "list_all2 ages pool pool'" and "list_all2 keeps pool pool'"
  shows "slots_step (\<lambda>_. True) pool pool'"
  using assms by (auto simp: slots_step_def list_all2_conv_all_nth)

lemma host_slots_step:
  assumes "reg_inv r" and "\<And>c now. op \<noteq> HPrepare c now" and "\<And>w. op \<noteq> HTerminated w"
  shows "slots_step (\<lambda>_. True) (re_Pool r) (re_Pool (host_step op r))"
proof (cases "\<exists>ack. op = HAcknowledge ack")
  case False
  then show ?thesis using assms evolve.rel_step age.rel_step keep.rel_step by (intro slots_stepI) blast+
next
  case True
  then obtain ack where op: "op = HAcknowledge ack" by blast
  show ?thesis
  proof (cases rule: Ack_cases [of ack r])
    case (refused e)
    then show ?thesis using op by (simp add: slots_step_def ages_def)
  next
    case (accepted i)
    have pool: "re_Pool (host_step op r) = (re_Pool r)[i := (re_Pool r ! i)\<lparr>sl_State := AA23SlotReclaimable\<rparr>]"
      using op accepted(7) by (simp add: upd_slot_def)
    show ?thesis unfolding slots_step_def pool
      using accepted(2,3,6) by (auto simp: nth_list_update evolves_def ages_def busy_def spent_def)
  qed
qed

lemma terminate_one_step:
  "evolves s (terminate_one w s)" "ages s (terminate_one w s)" "pi_Worker (sl_Identity s) \<noteq> w \<Longrightarrow> terminate_one w s = s"
  "sl_Pinned (terminate_one w s) \<Longrightarrow> sl_Pinned s \<and> (live s \<longrightarrow> pi_Worker (sl_Identity s) \<noteq> w)"
proof -
  have inc: "sl_Incarnation s \<le> sl_Incarnation (retire_one AA23RetireRevoked (\<lambda>_. True) s)"
    using retire_one_evolves by (simp add: evolves_def)
  show "evolves s (terminate_one w s)" "ages s (terminate_one w s)"
    using inc by (simp_all add: terminate_one_def evolves_def ages_def spent_def busy_def)
  show "terminate_one w s = s" if "pi_Worker (sl_Identity s) \<noteq> w" using that by (simp add: terminate_one_def)
  show "sl_Pinned s \<and> (live s \<longrightarrow> pi_Worker (sl_Identity s) \<noteq> w)" if "sl_Pinned (terminate_one w s)"
    using that by (simp add: terminate_one_def split: if_splits)
qed

lemma unbind_pool:
  "list_all2 evolves (re_Pool r) (re_Pool (unbind w r))" "list_all2 ages (re_Pool r) (re_Pool (unbind w r))"
  "list_all2 keeps (re_Pool r) (re_Pool (unbind w r))"
  by (simp_all add: unbind_def RetireWhere_pool evolve.all_refl evolve.all_retire age.all_refl age.all_retire keep.all_refl keep.all_retire)

lemma terminated_slots_step:
  assumes "AA23ObserveWorkerTerminated w r = (r', None)" and pinned: "\<And>s. s \<in> set (re_Pool r) \<Longrightarrow> sl_Pinned s \<Longrightarrow> live s"
  shows "slots_step (\<lambda>x. x \<noteq> w) (re_Pool r) (re_Pool r')"
proof -
  have w: "w \<noteq> 0" "w \<le> re_WorkerTop r"
    using assms by (auto simp: AA23ObserveWorkerTerminated_def split: if_splits)
  let ?p = "re_Pool r" and ?p1 = "re_Pool (unbind w r)"
  have p': "re_Pool r' = map (terminate_one w) ?p1" using Terminated_pool [OF w] assms by simp
  have len: "length ?p1 = length ?p" using unbind_pool(1) [of r w] by (metis list_all2_lengthD)
  have rel: "evolves (?p ! i) (?p1 ! i)" "ages (?p ! i) (?p1 ! i)" "keeps (?p ! i) (?p1 ! i)" if "i < length ?p" for i
    using that unbind_pool [of r w] by (auto simp: list_all2_conv_all_nth)
  have ident: "pi_Worker (sl_Identity (?p1 ! i)) = pi_Worker (sl_Identity (?p ! i)) \<and> live (?p1 ! i)"
    if "i < length ?p" "sl_Pinned (?p ! i)" for i
    using that pinned rel(3) [OF that(1)] by (auto simp: keeps_def content_def)
  show ?thesis
    unfolding slots_step_def
  proof (intro conjI allI impI)
    show "length (re_Pool r') = length ?p" using p' len by simp
  next
    fix i assume i: "i < length ?p"
    then have nth: "re_Pool r' ! i = terminate_one w (?p1 ! i)" using p' len by simp
    show "evolves (?p ! i) (re_Pool r' ! i)" "ages (?p ! i) (re_Pool r' ! i)"
      unfolding nth
      by (rule evolve.trans [OF rel(1) [OF i] terminate_one_step(1)], rule age.trans [OF rel(2) [OF i] terminate_one_step(2)])
    show "keeps (?p ! i) (re_Pool r' ! i)" if "sl_Pinned (?p ! i) \<and> pi_Worker (sl_Identity (?p ! i)) \<noteq> w"
      using that ident [OF i] terminate_one_step(3) nth rel(3) [OF i] by simp
    show "pi_Worker (sl_Identity (?p ! i)) \<noteq> w" if "sl_Pinned (re_Pool r' ! i)"
    proof -
      have "sl_Pinned (?p1 ! i)" "live (?p1 ! i) \<Longrightarrow> pi_Worker (sl_Identity (?p1 ! i)) \<noteq> w"
        using that terminate_one_step(4) nth by auto
      moreover have "sl_Pinned (?p ! i)" using calculation(1) rel(1) [OF i] by (simp add: evolves_def)
      ultimately show ?thesis using ident [OF i] by simp
    qed
  qed
qed

section \<open>The invariant of the system\<close>

definition pin_ok :: "id64 \<Rightarrow> AA23Pool \<Rightarrow> AA23WorkerView \<Rightarrow> bool" where
  "pin_ok w pool v \<longleftrightarrow> wv_PinActive v \<longrightarrow>
     sr_Index (wv_PinSlot v) < length pool \<and>
     sl_Incarnation (pool ! sr_Index (wv_PinSlot v)) = sr_Incarnation (wv_PinSlot v) \<and>
     live (pool ! sr_Index (wv_PinSlot v)) \<and> sl_Pinned (pool ! sr_Index (wv_PinSlot v)) \<and>
     sl_Identity (pool ! sr_Index (wv_PinSlot v)) = wk_Identity (wv_PinKey v) \<and> pi_Worker (wk_Identity (wv_PinKey v)) = w"

text \<open>A reference a worker adopted: stale, or to a plan of this worker and address.\<close>

definition current_ok :: "id64 \<Rightarrow> AA23Pool \<Rightarrow> byte \<Rightarrow> AA23SlotRef \<Rightarrow> bool" where
  "current_ok w pool a ref \<longleftrightarrow> sr_Incarnation ref \<noteq> 0 \<longrightarrow>
     sr_Index ref < length pool \<and> sr_Incarnation ref \<le> sl_Incarnation (pool ! sr_Index ref) \<and>
     (sl_Incarnation (pool ! sr_Index ref) = sr_Incarnation ref \<longrightarrow> spent (pool ! sr_Index ref) \<and>
        (live (pool ! sr_Index ref) \<longrightarrow> pi_Worker (sl_Identity (pool ! sr_Index ref)) = w \<and>
           rk_Address (pi_Registration (sl_Identity (pool ! sr_Index ref))) = a))"

definition view_ok :: "id64 \<Rightarrow> AA23Pool \<Rightarrow> AA23WorkerView \<Rightarrow> bool" where
  "view_ok w pool v \<longleftrightarrow> wv_Worker v = w \<and> length (wv_Records v) = length pool \<and> pin_ok w pool v \<and>
     (\<forall>a. current_ok w pool a (wv_Current v a))"

text \<open>A pinned slot is pinned by the worker of its plan.\<close>

definition pin_owned :: "(id64 \<Rightarrow> AA23WorkerView option) \<Rightarrow> nat \<Rightarrow> aa23Slot \<Rightarrow> bool" where
  "pin_owned views i s \<longleftrightarrow> sl_Pinned s \<longrightarrow> live s \<and>
     (\<exists>v. views (pi_Worker (sl_Identity s)) = Some v \<and> wv_PinActive v \<and> wv_PinSlot v = slot_Ref s i)"

text \<open>A slot in use stores the candidate prepared under its worker and generation.\<close>

definition slot_plan :: "(id64 \<Rightarrow> id64 \<Rightarrow> (AA23PlanCandidate \<times> AA23PlanValidity) option) \<Rightarrow> aa23Slot \<Rightarrow> bool" where
  "slot_plan plans s \<longleftrightarrow> busy s \<longrightarrow>
     (\<exists>c. plans (pi_Worker (sl_Identity s)) (pi_Plan (sl_Identity s)) = Some (c, sl_Validity s) \<and> stored s c)"

definition plan_ok :: "AA23Registry \<Rightarrow> id64 \<Rightarrow> id64 \<Rightarrow> AA23PlanCandidate \<Rightarrow> AA23PlanValidity \<Rightarrow> bool" where
  "plan_ok r w p c val \<longleftrightarrow> valid_plan (re_Limits r) c \<and> pi_Worker (pc_Identity c) = w \<and> pi_Plan (pc_Identity c) = p \<and>
     va_PlanExpiry val = pc_PlanExpiry c \<and> w \<le> re_WorkerTop r \<and> (w = re_WorkerTop r \<longrightarrow> p \<le> re_PlanTop r)"

definition slots_inv :: "AA23Pool \<Rightarrow> (id64 \<Rightarrow> AA23WorkerView option) \<Rightarrow>
    (id64 \<Rightarrow> id64 \<Rightarrow> (AA23PlanCandidate \<times> AA23PlanValidity) option) \<Rightarrow> bool" where
  "slots_inv pool views plans \<longleftrightarrow> (\<forall>w v. views w = Some v \<longrightarrow> view_ok w pool v) \<and>
     (\<forall>i < length pool. pin_owned views i (pool ! i) \<and> slot_plan plans (pool ! i))"

definition world_inv :: "plan_world \<Rightarrow> bool" where
  "world_inv W \<longleftrightarrow> reg_inv (pw_reg W) \<and> (\<forall>w \<in> pw_dead W. pw_views W w = None) \<and>
     slots_inv (world_pool W) (pw_views W) (pw_plans W) \<and>
     (\<forall>w p c val. pw_plans W w p = Some (c, val) \<longrightarrow> plan_ok (pw_reg W) w p c val)"

lemma stored_content: "content s' = content s \<Longrightarrow> stored s' c = stored s c"
  by (simp add: stored_def content_def)

text \<open>A host step keeps what the workers and the ghost table rely on.\<close>

lemma slots_inv_step:
  assumes inv: "slots_inv pool views plans" and st: "slots_step Q pool pool'"
    and views: "\<And>w. views' w = (if Q w then views w else None)"
  shows "slots_inv pool' views' plans"
proof -
  have len: "length pool' = length pool" using st by (simp add: slots_step_def)
  have rel: "evolves (pool ! i) (pool' ! i)" "ages (pool ! i) (pool' ! i)"
      "sl_Pinned (pool ! i) \<Longrightarrow> Q (pi_Worker (sl_Identity (pool ! i))) \<Longrightarrow> keeps (pool ! i) (pool' ! i)"
      "sl_Pinned (pool' ! i) \<Longrightarrow> Q (pi_Worker (sl_Identity (pool ! i)))" if "i < length pool" for i
    using st that by (simp_all add: slots_step_def)
  have cur: "current_ok w pool' a ref" if "current_ok w pool a ref" for w a ref
  proof (cases "sr_Incarnation ref = 0")
    case False
    let ?i = "sr_Index ref"
    have i: "?i < length pool" "sr_Incarnation ref \<le> sl_Incarnation (pool ! ?i)" using that False by (simp_all add: current_ok_def)
    have le: "sl_Incarnation (pool ! ?i) \<le> sl_Incarnation (pool' ! ?i)" using rel(2) [OF i(1)] by (simp add: ages_def)
    have "spent (pool' ! ?i) \<and> (live (pool' ! ?i) \<longrightarrow> pi_Worker (sl_Identity (pool' ! ?i)) = w \<and>
        rk_Address (pi_Registration (sl_Identity (pool' ! ?i))) = a)" if eq: "sl_Incarnation (pool' ! ?i) = sr_Incarnation ref"
    proof -
      have same: "sl_Incarnation (pool ! ?i) = sr_Incarnation ref" using i(2) le eq by simp
      then have sp: "spent (pool ! ?i)" using \<open>current_ok w pool a ref\<close> False by (simp add: current_ok_def)
      have "content (pool' ! ?i) = content (pool ! ?i)" "live (pool ! ?i)" if "live (pool' ! ?i)"
        using rel(1) [OF i(1)] live_busy [OF that] spent_busy [OF sp] by (simp_all add: evolves_def)
      moreover have "spent (pool' ! ?i)" using rel(2) [OF i(1)] sp same eq by (simp add: ages_def)
      ultimately show ?thesis using \<open>current_ok w pool a ref\<close> False same by (auto simp: current_ok_def content_def)
    qed
    then show ?thesis using i le len by (auto simp: current_ok_def)
  qed (simp add: current_ok_def)
  have "view_ok w pool' v" if "views' w = Some v" for w v
  proof -
    have old: "view_ok w pool v" "Q w" using that views inv by (auto simp: slots_inv_def split: if_splits)
    have "pin_ok w pool' v"
    proof (cases "wv_PinActive v")
      case True
      let ?i = "sr_Index (wv_PinSlot v)"
      have p: "?i < length pool" "live (pool ! ?i)" "sl_Pinned (pool ! ?i)" "pi_Worker (sl_Identity (pool ! ?i)) = w"
        using old(1) True by (simp_all add: view_ok_def pin_ok_def)
      have "keeps (pool ! ?i) (pool' ! ?i)" using rel(3) [OF p(1,3)] p(4) old(2) by simp
      then have "live (pool' ! ?i)" "content (pool' ! ?i) = content (pool ! ?i)" "sl_Pinned (pool' ! ?i)"
        using p by (simp_all add: keeps_def)
      then show ?thesis using old(1) True len by (simp add: view_ok_def pin_ok_def content_def)
    qed (simp add: pin_ok_def)
    then show ?thesis using old(1) cur len by (simp add: view_ok_def)
  qed
  moreover have "pin_owned views' i (pool' ! i) \<and> slot_plan plans (pool' ! i)" if i: "i < length pool'" for i
  proof -
    have i': "i < length pool" using i len by simp
    have old: "pin_owned views i (pool ! i)" "slot_plan plans (pool ! i)" using inv i' by (simp_all add: slots_inv_def)
    have "pin_owned views' i (pool' ! i)"
    proof (cases "sl_Pinned (pool' ! i)")
      case True
      have s: "sl_Pinned (pool ! i)" using True rel(1) [OF i'] by (simp add: evolves_def)
      note q = rel(4) [OF i' True]
      have "live (pool ! i)" using old(1) s by (simp add: pin_owned_def)
      then have "live (pool' ! i)" "content (pool' ! i) = content (pool ! i)" using rel(3) [OF i' s q] by (simp_all add: keeps_def)
      then show ?thesis using old(1) s q views by (simp add: pin_owned_def slot_Ref_def content_def)
    qed (simp add: pin_owned_def)
    moreover have "slot_plan plans (pool' ! i)"
    proof (cases "busy (pool' ! i)")
      case True
      then have c: "busy (pool ! i)" "content (pool' ! i) = content (pool ! i)" using rel(1) [OF i'] by (simp_all add: evolves_def)
      then show ?thesis using old(2) stored_content [OF c(2)] by (simp add: slot_plan_def content_def)
    qed (simp add: slot_plan_def)
    ultimately show ?thesis by simp
  qed
  ultimately show ?thesis by (simp add: slots_inv_def)
qed

section \<open>Limits and generation marks\<close>

definition meta :: "AA23Registry \<Rightarrow> AA23Limits \<times> id64 \<times> id64" where
  "meta r = (re_Limits r, re_WorkerTop r, re_PlanTop r)"

lemma meta_upd [simp]:
  "meta (upd_slot i f r) = meta r" "meta (upd_record j g r) = meta r" "meta (upd_subscriber k h r) = meta r"
  "meta (r\<lparr>re_Clock := c\<rparr>) = meta r" "meta (r\<lparr>re_ByAddress := b\<rparr>) = meta r" "meta (r\<lparr>re_Masters := m\<rparr>) = meta r"
  "meta (r\<lparr>re_MasterCount := n\<rparr>) = meta r" "meta (r\<lparr>re_Conflicts := cs\<rparr>) = meta r" "meta (r\<lparr>re_SubscriberTop := t\<rparr>) = meta r"
  "meta (r\<lparr>re_Pool := p\<rparr>) = meta r" "meta (r\<lparr>re_WorkerBound := wb\<rparr>) = meta r"
  by (simp_all add: meta_def upd_defs)

lemma meta_RetireSlot [simp]: "meta (aa23RetireSlot reason i r) = meta r"
  by (simp add: aa23RetireSlot_def clear_published_def split: AA23SlotState.split option.split)

lemma meta_RetireWhere [simp]: "meta (aa23RetireWhere reason P r) = meta r"
  by (simp add: meta_def)

lemma meta_Settle [simp]: "meta (aa23Settle k r) = meta r"
  by (simp add: aa23Settle_def Let_def aa23ForgetClosedSubscriber_def split: option.split)

lemma meta_records [simp]: "meta (retire_records reason P is r) = meta r"
  by (induction "is" arbitrary: r) (simp_all add: aa23Retire_def Let_def)

lemma meta_masters [simp]: "meta (release_masters_loop sid as r) = meta r"
  by (induction as arbitrary: r) simp_all

lemma meta_terminate [simp]: "meta (terminate_loop w is r) = meta r"
  by (induction "is" arbitrary: r) (simp_all add: Let_def)

lemma meta_clock: "aa23ObserveClock now r = (r1, e) \<Longrightarrow> meta r1 = meta r"
  by (auto simp: aa23ObserveClock_def Let_def split: prod.splits if_splits)

lemma meta_host:
  assumes "\<And>c now. op \<noteq> HPrepare c now" and "\<And>w s. op \<noteq> HBindWorker w s"
  shows "meta (host_step op r) = meta r"
proof (cases op)
  case (HRegister c now)
  obtain r1 e where "aa23ObserveClock now r = (r1, e)" by fastforce
  then show ?thesis using HRegister meta_clock [of now r]
    by (cases rule: Register_cases [of c now r]) (simp_all add: register_insert_def Let_def split: option.split)
next
  case (HPublish ref now)
  obtain r1 e where r1: "aa23ObserveClock now r = (r1, e)" by fastforce
  show ?thesis using HPublish r1 meta_clock [of now r]
    by (cases rule: PublishPrepared_cases [of ref now r]) (simp_all add: publish_slot_def Let_def supersede_def)
next
  case (HAcknowledge ack)
  then show ?thesis by (cases rule: Ack_cases [of ack r]) simp_all
next
  case (HTerminated w)
  then show ?thesis by (simp add: Terminated_eq unbind_def)
next
  case (HDisconnect sid)
  then show ?thesis by (simp add: AA23DisconnectSubscriber_def aa23ReleaseMastersWhere_def Let_def aa23ForgetClosedSubscriber_def split: option.split)
next
  case (HRenew k t now)
  then show ?thesis using meta_clock [of now r] by (auto simp: AA23RenewRegistration_def split: prod.split option.split)
next
  case (HAdvanceSource k g t now)
  then show ?thesis using meta_clock [of now r] by (auto simp: AA23AdvanceSource_def split: prod.split option.split)
next
  case (HExpireDue now)
  then show ?thesis using meta_clock [of now r] by (auto simp: AA23ExpireDue_def Let_def split: prod.split option.split)
qed (use assms in \<open>simp_all add: AA23OpenSubscriber_def AA23Unregister_def aa23Retire_def AA23Reset_def aa23ReleaseMastersWhere_def
    AA23BindMaster_def AA23ReleaseMaster_def AA23MarkPhysicalConflict_def AA23ClearPhysicalConflict_def AA23AbortPrepared_def
    Let_def split: option.split sum.split\<close>)

text \<open>No step takes a recorded generation above its marks or changes the limits.\<close>

lemma plan_ok_meta: "meta r' = meta r \<Longrightarrow> plan_ok r' w p c val = plan_ok r w p c val"
  by (simp add: plan_ok_def meta_def)

lemma plan_ok_bind: "plan_ok r w p c val \<Longrightarrow> plan_ok (fst (AA23BindWorker x s r)) w p c val"
  by (auto simp: plan_ok_def AA23BindWorker_def Let_def)

lemma plan_ok_host:
  assumes "plan_ok r w p c val" and "\<And>c now. op \<noteq> HPrepare c now"
  shows "plan_ok (host_step op r) w p c val"
  using assms plan_ok_bind plan_ok_meta [OF meta_host [of op r]] by (cases op) simp_all

section \<open>Steps keep the invariant\<close>

lemma world_inv_init:
  assumes "AA23NewRegistry l floor = Inr r"
  shows "world_inv \<lparr>pw_reg = r, pw_views = (\<lambda>_. None), pw_dead = {}, pw_plans = (\<lambda>_ _. None)\<rparr>"
proof -
  have "re_Pool r ! i = new_slot l" if "i < length (re_Pool r)" for i
    using assms that by (auto simp: AA23NewRegistry_def aa23NewPool_def split: option.splits)
  then have "slots_inv (re_Pool r) (\<lambda>_. None) (\<lambda>_ _. None)"
    by (simp add: slots_inv_def pin_owned_def slot_plan_def new_slot_def busy_def)
  then show ?thesis using NewRegistry_inv [OF assms] by (simp add: world_inv_def)
qed

lemma world_inv_host:
  assumes inv: "world_inv W" and op: "\<And>c now. op \<noteq> HPrepare c now" "\<And>w. op \<noteq> HTerminated w"
  shows "world_inv (W\<lparr>pw_reg := host_step op (pw_reg W)\<rparr>)"
proof -
  have r: "reg_inv (pw_reg W)" using inv by (simp add: world_inv_def)
  have s: "slots_inv (world_pool W) (pw_views W) (pw_plans W)" using inv by (simp add: world_inv_def)
  have "slots_inv (re_Pool (host_step op (pw_reg W))) (pw_views W) (pw_plans W)"
    by (rule slots_inv_step [OF s host_slots_step [OF r op]]) simp_all
  then show ?thesis using inv host_step_inv [OF r] plan_ok_host [OF _ op(1)] by (simp add: world_inv_def)
qed

lemma world_inv_clock:
  assumes inv: "world_inv W" and clock: "aa23ObserveClock now (pw_reg W) = (r1, e)"
  shows "world_inv (W\<lparr>pw_reg := r1\<rparr>)"
proof -
  have s: "slots_inv (world_pool W) (pw_views W) (pw_plans W)" using inv by (simp add: world_inv_def)
  have "slots_inv (re_Pool r1) (pw_views W) (pw_plans W)"
    by (rule slots_inv_step [OF s slots_stepI [OF evolve.rel_clock [OF clock] age.rel_clock [OF clock] keep.rel_clock [OF clock]]]) simp
  moreover have "reg_inv r1" using ObserveClock_inv [of "pw_reg W" now] inv clock by (simp add: world_inv_def)
  ultimately show ?thesis using inv plan_ok_meta [OF meta_clock [OF clock]] by (simp add: world_inv_def)
qed

lemma world_inv_terminated:
  assumes inv: "world_inv W" and t: "AA23ObserveWorkerTerminated w (pw_reg W) = (r, None)"
  shows "world_inv (W\<lparr>pw_reg := r, pw_views := (pw_views W)(w := None), pw_dead := insert w (pw_dead W)\<rparr>)"
proof -
  have s: "slots_inv (world_pool W) (pw_views W) (pw_plans W)" using inv by (simp add: world_inv_def)
  have "live s" if "s \<in> set (world_pool W)" "sl_Pinned s" for s
    using that \<open>slots_inv _ _ _\<close> by (auto simp: slots_inv_def pin_owned_def in_set_conv_nth)
  then have "slots_inv (re_Pool r) ((pw_views W)(w := None)) (pw_plans W)"
    using slots_inv_step [OF s terminated_slots_step [OF t]] by simp
  moreover have "reg_inv r" using Terminated_inv [of "pw_reg W" w] inv t by (simp add: world_inv_def)
  moreover have m: "meta r = meta (pw_reg W)" using meta_host [of "HTerminated w" "pw_reg W"] t by simp
  ultimately show ?thesis using inv plan_ok_meta [OF m] by (simp add: world_inv_def)
qed

lemma world_inv_start:
  assumes inv: "world_inv W" and new: "AA23NewWorkerView (Some (world_pool W)) w stream = Inr v"
    and "pw_views W w = None" and "w \<notin> pw_dead W"
  shows "world_inv (W\<lparr>pw_views := (pw_views W)(w := Some v)\<rparr>)"
proof -
  have "wv_Worker v = w" "length (wv_Records v) = length (world_pool W)" "\<not> wv_PinActive v" "\<forall>a. wv_Current v a = zero_ref"
    using new by (auto simp: AA23NewWorkerView_def split: if_splits)
  then have "view_ok w (world_pool W) v" by (simp add: view_ok_def pin_ok_def current_ok_def zero_ref_def)
  moreover have "pin_owned ((pw_views W)(w := Some v)) i s" if "pin_owned (pw_views W) i s" for i s
    using that assms(3) by (auto simp: pin_owned_def)
  ultimately show ?thesis using inv assms(4) by (auto simp: world_inv_def slots_inv_def)
qed

text \<open>Preparing a plan fills a slot nobody refers to and records a generation nobody used.\<close>

lemma world_inv_fill:
  assumes inv: "world_inv W" and r1: "pw_reg W = r1" and i: "i < length (re_Pool r1)" "sl_State (re_Pool r1 ! i) = AA23SlotFree"
    and s': "sl_State s' = AA23SlotWriting" "sl_Identity s' = pc_Identity c" "sl_Incarnation s' = sl_Incarnation (re_Pool r1 ! i)"
      "sl_Pinned s' = sl_Pinned (re_Pool r1 ! i)" "stored s' c"
    and ident: "pi_Worker (pc_Identity c) = re_WorkerTop r1" "re_PlanTop r1 < pi_Plan (pc_Identity c)"
  shows "slots_inv ((re_Pool r1)[i := s']) (pw_views W) (record_plan c (sl_Validity s') (pw_plans W))"
proof -
  let ?p = "re_Pool r1" and ?q = "(re_Pool r1)[i := s']"
  have sl: "slots_inv ?p (pw_views W) (pw_plans W)" and rinv: "reg_inv r1" using inv r1 by (simp_all add: world_inv_def)
  have nth: "?q ! k = (if k = i then s' else ?p ! k)" if "k < length ?p" for k using that by (simp add: nth_list_update)
  have dead: "\<not> live (?p ! i)" "\<not> spent (?p ! i)" using i(2) by (simp_all add: live_def spent_def)
  have cur: "current_ok w ?q a ref" if "current_ok w ?p a ref" for w a ref
    using that dead s'(3) nth [of "sr_Index ref"] by (cases "sr_Index ref = i") (auto simp: current_ok_def)
  have "view_ok w ?q v" if "pw_views W w = Some v" for w v
  proof -
    have old: "view_ok w ?p v" using that sl by (simp add: slots_inv_def)
    have "pin_ok w ?q v"
    proof (cases "wv_PinActive v")
      case True
      then have "sr_Index (wv_PinSlot v) \<noteq> i" using old dead by (auto simp: view_ok_def pin_ok_def)
      then show ?thesis using old by (simp add: view_ok_def pin_ok_def)
    qed (simp add: pin_ok_def)
    then show ?thesis using old cur by (simp add: view_ok_def)
  qed
  moreover have "pin_owned (pw_views W) k (?q ! k)" if k: "k < length ?p" for k
    using sl dead s'(4) nth [OF k] k i(1) by (cases "k = i") (auto simp: slots_inv_def pin_owned_def)
  moreover have "slot_plan (record_plan c (sl_Validity s') (pw_plans W)) (?q ! k)" if k: "k < length ?p" for k
  proof (cases "k = i")
    case True
    then show ?thesis using nth [OF k] s'(2,5) by (simp add: slot_plan_def record_plan_def)
  next
    case False
    have "slot_bound r1 (?p ! k)" using rinv k by (simp add: reg_inv_def bound_inv_def)
    then have "\<not> (pi_Worker (sl_Identity (?p ! k)) = pi_Worker (pc_Identity c) \<and> pi_Plan (sl_Identity (?p ! k)) = pi_Plan (pc_Identity c))"
      if "busy (?p ! k)" using that ident by (auto simp: slot_bound_def)
    moreover have "slot_plan (pw_plans W) (?p ! k)" using sl k by (simp add: slots_inv_def)
    ultimately show ?thesis using False nth [OF k] by (auto simp: slot_plan_def record_plan_def)
  qed
  ultimately show ?thesis by (simp add: slots_inv_def)
qed

lemma world_inv_prepare:
  assumes inv: "world_inv W" and prep: "AA23PreparePlan c now (pw_reg W) = (r, Inr ref)"
  shows "world_inv (W\<lparr>pw_reg := r, pw_plans := record_plan c (sl_Validity (re_Pool r ! sr_Index ref)) (pw_plans W)\<rparr>)"
proof (cases rule: PreparePlan_cases [of c now "pw_reg W"])
  case (refused e)
  then show ?thesis using prep by simp
next
  case (prepared r1 i j)
  define s1 where "s1 = (re_Pool r1 ! i)\<lparr>sl_State := AA23SlotWriting, sl_Identity := pc_Identity c,
      sl_Validity := plan_validity r1 (pc_PlanExpiry c) (re_Records r1 ! j)\<rparr>"
  define s' where "s' = aa23Copy (pc_Entries c) s1"
  have W1: "world_inv (W\<lparr>pw_reg := r1\<rparr>)" using world_inv_clock [OF inv prepared(1)] .
  have rinv: "reg_inv r1" using W1 by (simp add: world_inv_def)
  have shape: "slot_shape (re_Limits r1) (re_Pool r1 ! i)" "length (re_OverlapScratch r1) = unat (lim_MaxEntriesPerPlan (re_Limits r1))"
    using rinv prepared(5) by (simp_all add: reg_inv_def shape_inv_def)
  have "addr_inv r1" using rinv by (simp add: reg_inv_def)
  note pub = CheckPublishable_ok [OF this prepared(3)]
  have top: "pi_Worker (pc_Identity c) = re_WorkerTop r1" using pub(1,2) rinv by (simp add: reg_inv_def bound_inv_def)
  have valid: "valid_plan (re_Limits r1) c" using prepared(2) shape(2) by (rule ValidateCandidate_valid)
  have st: "stored s' c" unfolding s'_def
    using valid shape(1) by (intro Copy_stored) (simp_all add: s1_def valid_plan_def slot_shape_def)
  have r: "re_Pool r = (re_Pool r1)[i := s']" "sr_Index ref = i" "re_Limits r = re_Limits r1" "re_WorkerTop r = re_WorkerTop r1"
      "re_PlanTop r = pi_Plan (pc_Identity c)"
    using prep prepared(7) by (auto simp: upd_slot_def s'_def s1_def slot_Ref_def)
  have validity: "sl_Validity (re_Pool r ! sr_Index ref) = sl_Validity s'" using r(1,2) prepared(5) by simp
  have "slots_inv (re_Pool r) (pw_views W) (record_plan c (sl_Validity s') (pw_plans W))"
    unfolding r(1) using world_inv_fill [OF W1, of r1 i s' c] prepared(4-6) st top by (simp add: s'_def s1_def)
  moreover have "plan_ok r w p d val" if "record_plan c (sl_Validity s') (pw_plans W) w p = Some (d, val)" for w p d val
  proof (cases "w = pi_Worker (pc_Identity c) \<and> p = pi_Plan (pc_Identity c)")
    case True
    then show ?thesis using that valid top r(3-5) by (auto simp: record_plan_def plan_ok_def s'_def s1_def plan_validity_def)
  next
    case False
    then have "plan_ok r1 w p d val" using that W1 by (auto simp: record_plan_def world_inv_def)
    then show ?thesis using r prepared(4) by (auto simp: plan_ok_def)
  qed
  moreover have "reg_inv r" using PreparePlan_inv [of "pw_reg W" c now] inv prep by (simp add: world_inv_def)
  ultimately show ?thesis using inv unfolding validity by (simp add: world_inv_def)
qed

section \<open>Worker steps keep the invariant\<close>

text \<open>What one operation of worker \<open>w\<close> does to the pool and to its own pin.\<close>

definition set_pin :: "bool \<Rightarrow> nat \<Rightarrow> AA23Pool \<Rightarrow> AA23Pool" where
  "set_pin b i pool = pool[i := (pool ! i)\<lparr>sl_Pinned := b\<rparr>]"

definition same_pin :: "AA23WorkerView \<Rightarrow> AA23WorkerView \<Rightarrow> bool" where
  "same_pin v v' \<longleftrightarrow> wv_PinActive v' = wv_PinActive v \<and> wv_PinKey v' = wv_PinKey v \<and> wv_PinSlot v' = wv_PinSlot v"

definition pin_effect :: "id64 \<Rightarrow> AA23Pool \<Rightarrow> AA23WorkerView \<Rightarrow> AA23Pool \<Rightarrow> AA23WorkerView \<Rightarrow> bool" where
  "pin_effect w pool v pool' v' \<longleftrightarrow>
     pool' = pool \<and> same_pin v v' \<or>
     (\<exists>i. \<not> wv_PinActive v \<and> i < length pool \<and> live (pool ! i) \<and> pi_Worker (sl_Identity (pool ! i)) = w \<and> pool' = set_pin True i pool \<and>
        wv_PinActive v' \<and> wv_PinSlot v' = slot_Ref (pool ! i) i \<and> wk_Identity (wv_PinKey v') = sl_Identity (pool ! i)) \<or>
     wv_PinActive v \<and> \<not> wv_PinActive v' \<and> pool' = set_pin False (sr_Index (wv_PinSlot v)) pool"

definition view_effect :: "id64 \<Rightarrow> AA23Pool \<Rightarrow> AA23WorkerView \<Rightarrow> AA23Pool \<Rightarrow> AA23WorkerView \<Rightarrow> bool" where
  "view_effect w pool v pool' v' \<longleftrightarrow> wv_Worker v' = wv_Worker v \<and> length (wv_Records v') = length (wv_Records v) \<and>
     (\<forall>a. current_ok w pool a (wv_Current v' a)) \<and> pin_effect w pool v pool' v'"

lemma current_ok_zero [simp]: "current_ok w pool a zero_ref" by (simp add: current_ok_def zero_ref_def)

lemma view_Record_frame [simp]:
  "wv_Worker (view_Record ref v) = wv_Worker v" "length (wv_Records (view_Record ref v)) = length (wv_Records v)"
  "wv_Current (view_Record ref v) = wv_Current v" "wv_PinActive (view_Record ref v) = wv_PinActive v"
  "wv_PinKey (view_Record ref v) = wv_PinKey v" "wv_PinSlot (view_Record ref v) = wv_PinSlot v"
  "wv_Clock (view_Record ref v) = wv_Clock v"
  by (simp_all add: view_Record_def)

lemma upd_view_record_frame [simp]:
  "wv_Worker (upd_view_record i f v) = wv_Worker v" "length (wv_Records (upd_view_record i f v)) = length (wv_Records v)"
  "wv_Current (upd_view_record i f v) = wv_Current v" "wv_PinActive (upd_view_record i f v) = wv_PinActive v"
  "wv_PinKey (upd_view_record i f v) = wv_PinKey v" "wv_PinSlot (upd_view_record i f v) = wv_PinSlot v"
  by (simp_all add: upd_view_record_def)

lemma adopt_current:
  assumes "adopt_refusal n now pool v = None" and "wv_Worker v = w"
  shows "current_ok w pool (rk_Address (pi_Registration (pn_Identity n))) (pn_Slot n)"
proof -
  obtain i where i: "aa23Resolve pool (pn_Slot n) = Inr i"
    using assms(1) by (cases "aa23Resolve pool (pn_Slot n)") (auto simp: adopt_refusal_def)
  then have "sl_State (pool ! i) = AA23SlotPublished" "sl_Identity (pool ! i) = pn_Identity n" "pi_Worker (pn_Identity n) = wv_Worker v"
    using assms(1) by (auto simp: adopt_refusal_def Let_def split: if_splits)
  then show ?thesis using i assms(2) by (auto simp: current_ok_def Resolve_iff spent_def)
qed

lemma AdoptPlan_effect:
  assumes "view_ok w pool v"
  shows "view_effect w pool v pool (fst (AA23AdoptPlan n now pool v))"
proof -
  obtain g err where g: "aa23Observe (wv_Clock v) now = (g, err)" by fastforce
  let ?v = "v\<lparr>wv_Clock := g\<rparr>" and ?a = "rk_Address (pi_Registration (pn_Identity n))"
  have ok: "wv_Worker v = w" "\<And>a. current_ok w pool a (wv_Current v a)" using assms by (simp_all add: view_ok_def)
  show ?thesis
  proof (cases "err = None \<and> adopt_refusal n now pool ?v = None")
    case False
    then have "fst (AA23AdoptPlan n now pool v) = ?v" using g by (auto simp: AA23AdoptPlan_def Let_def split: option.splits)
    then show ?thesis using ok by (simp add: view_effect_def pin_effect_def same_pin_def)
  next
    case True
    let ?v' = "fst (AA23AdoptPlan n now pool v)"
    have "current_ok w pool ?a (pn_Slot n)" using adopt_current [of n now pool ?v w] True ok by simp
    moreover have "wv_Current ?v' = (wv_Current v)(?a := pn_Slot n)" "wv_Worker ?v' = wv_Worker v" "same_pin v ?v'"
        "length (wv_Records ?v') = length (wv_Records v)"
      using True g by (auto simp: AA23AdoptPlan_def Let_def same_pin_def split: sum.split)
    ultimately show ?thesis using ok by (simp add: view_effect_def pin_effect_def)
  qed
qed

lemma Revocation_effect:
  assumes "view_ok w pool v"
  shows "view_effect w pool v pool (fst (AA23ObserveRevocation n pool v))"
proof -
  let ?v = "fst (AA23ObserveRevocation n pool v)"
  have ok: "\<And>a. current_ok w pool a (wv_Current v a)" using assms by (simp add: view_ok_def)
  have "wv_Worker ?v = wv_Worker v" "same_pin v ?v" "length (wv_Records ?v) = length (wv_Records v)"
      "wv_Current ?v a = wv_Current v a \<or> wv_Current ?v a = zero_ref" for a
    by (auto simp: AA23ObserveRevocation_def Let_def same_pin_def split: sum.split)
  then show ?thesis using ok unfolding view_effect_def pin_effect_def by (metis current_ok_zero)
qed

lemma Live_effect:
  assumes "view_ok w pool v"
  shows "view_effect w pool v pool (fst (aa23Live pin k now pool v))"
proof -
  let ?v = "fst (aa23Live pin k now pool v)"
  have "wv_Worker ?v = wv_Worker v \<and> same_pin v ?v \<and> length (wv_Records ?v) = length (wv_Records v) \<and> wv_Current ?v = wv_Current v"
    by (auto simp: aa23Live_def Let_def same_pin_def split: prod.split option.split sum.split)
  then show ?thesis using assms by (simp add: view_effect_def pin_effect_def view_ok_def)
qed

lemma DropPin_active:
  assumes "view_ok w pool v" and "wv_PinActive v"
  shows "fst (aa23DropPin pool v) = set_pin False (sr_Index (wv_PinSlot v)) pool"
    and "snd (aa23DropPin pool v) = v\<lparr>wv_PinActive := False, wv_PinKey := zero_wire_key, wv_PinSlot := zero_ref\<rparr>"
  using assms by (simp_all add: aa23DropPin_def Let_def view_ok_def pin_ok_def set_pin_def)

lemma Advance_effect:
  assumes "view_ok w pool v" and "view_step (VAdvance s) pool v = (pool', v')"
  shows "view_effect w pool v pool' v'"
proof (cases "s \<le> wv_Stream v")
  case True
  then show ?thesis using assms by (simp add: AA23AdvanceStream_def view_effect_def pin_effect_def same_pin_def view_ok_def)
next
  case False
  show ?thesis
  proof (cases "wv_PinActive v")
    case True
    then have "pool' = set_pin False (sr_Index (wv_PinSlot v)) pool" "wv_Worker v' = wv_Worker v" "\<not> wv_PinActive v'"
        "length (wv_Records v') = length (wv_Records v)" "wv_Current v' = (\<lambda>_. zero_ref)"
      using assms(2) False DropPin_active [OF assms(1) True] by (auto simp: AA23AdvanceStream_def Let_def split: prod.splits)
    then show ?thesis using True by (simp add: view_effect_def pin_effect_def)
  next
    case inactive: False
    then show ?thesis using assms(2) False by (auto simp: AA23AdvanceStream_def Let_def view_effect_def pin_effect_def same_pin_def)
  qed
qed

lemma Release_effect:
  assumes "view_ok w pool v" and "view_step (VRelease pin) pool v = (pool', v')"
  shows "view_effect w pool v pool' v'"
proof (cases "\<not> pin_View pin \<or> \<not> wv_PinActive v \<or> wv_PinKey v \<noteq> pin_Key pin")
  case True
  then show ?thesis using assms by (auto simp: pin_Release_def view_effect_def pin_effect_def same_pin_def view_ok_def)
next
  case False
  let ?v1 = "view_Record (wv_PinSlot v) v"
  have v1: "view_ok w pool ?v1" "wv_PinActive ?v1" using assms(1) False by (simp_all add: view_ok_def pin_ok_def)
  have drop: "aa23DropPin pool ?v1 = (set_pin False (sr_Index (wv_PinSlot v)) pool,
      ?v1\<lparr>wv_PinActive := False, wv_PinKey := zero_wire_key, wv_PinSlot := zero_ref\<rparr>)"
    using DropPin_active [OF v1] by (simp add: prod_eq_iff)
  have "pool' = set_pin False (sr_Index (wv_PinSlot v)) pool" "v' = ?v1\<lparr>wv_PinActive := False, wv_PinKey := zero_wire_key, wv_PinSlot := zero_ref\<rparr>"
    using assms(2) False drop by (auto simp: pin_Release_def Let_def split: if_splits)
  then show ?thesis using False assms(1) by (simp add: view_effect_def pin_effect_def view_ok_def)
qed

lemma Select_cases:
  obtains (refused) v' e where "AA23SelectProvisional a t now pool v = (pool, v', Inl e)" "same_pin v v'" "wv_Current v' = wv_Current v"
      "wv_Worker v' = wv_Worker v" "wv_Records v' = wv_Records v"
  | (selected) v' i where "\<not> wv_PinActive v" "aa23Resolve pool (wv_Current v a) = Inr i" "sr_Incarnation (wv_Current v a) \<noteq> 0"
      "live (pool ! i)" "validity_Check (sl_Validity (pool ! i)) now = None"
      "AA23SelectProvisional a t now pool v = (set_pin True i pool, v',
         Inr \<lparr>pin_View = True, pin_Key = \<lparr>wk_Identity = sl_Identity (pool ! i), wk_Transaction = t\<rparr>\<rparr>)"
      "wv_PinActive v'" "wv_PinSlot v' = wv_Current v a" "wv_PinKey v' = \<lparr>wk_Identity = sl_Identity (pool ! i), wk_Transaction = t\<rparr>"
      "wv_Current v' = wv_Current v" "wv_Worker v' = wv_Worker v" "wv_Records v' = wv_Records v"
proof -
  obtain g err where g: "aa23Observe (wv_Clock v) now = (g, err)" by fastforce
  define v1 where "v1 = v\<lparr>wv_Clock := g, wv_TransactionTop := t\<rparr>"
  show ?thesis
  proof (cases "\<exists>v' e. AA23SelectProvisional a t now pool v = (pool, v', Inl e) \<and> (v' = v\<lparr>wv_Clock := g\<rparr> \<or> v' = v1)")
    case True
    then show ?thesis using refused by (auto simp: same_pin_def v1_def)
  next
    case False
    then have go: "err = None" "t \<noteq> 0" "\<not> t \<le> wv_TransactionTop v" "\<not> wv_PinActive v" "sr_Incarnation (wv_Current v a) \<noteq> 0"
      using g by (auto simp: AA23SelectProvisional_def Let_def v1_def split: option.splits if_splits)
    from False obtain i where i: "aa23Resolve pool (wv_Current v a) = Inr i"
      using g go by (cases "aa23Resolve pool (wv_Current v a)") (auto simp: AA23SelectProvisional_def Let_def v1_def)
    from False have ok: "live (pool ! i)" "validity_Check (sl_Validity (pool ! i)) now = None"
      using g go i by (auto simp: AA23SelectProvisional_def Let_def v1_def live_def split: option.splits if_splits)
    let ?k = "\<lparr>wk_Identity = sl_Identity (pool ! i), wk_Transaction = t\<rparr>"
    let ?v = "v1\<lparr>wv_PinActive := True, wv_PinKey := ?k, wv_PinSlot := wv_Current v a\<rparr>"
    have "AA23SelectProvisional a t now pool v = (set_pin True i pool, ?v, Inr \<lparr>pin_View = True, pin_Key = ?k\<rparr>)"
      using g go i ok by (auto simp: AA23SelectProvisional_def Let_def v1_def live_def set_pin_def)
    then show ?thesis using go i ok by (intro selected [of i ?v]) (simp_all add: v1_def)
  qed
qed

lemma Select_effect:
  assumes "view_ok w pool v" and "view_step (VSelect a t now) pool v = (pool', v')"
  shows "view_effect w pool v pool' v'"
proof (cases rule: Select_cases [of a t now pool v])
  case (refused v1 e)
  then show ?thesis using assms by (auto simp: view_effect_def pin_effect_def view_ok_def)
next
  case (selected v1 i)
  have i: "i < length pool" "sr_Index (wv_Current v a) = i" "sl_Incarnation (pool ! i) = sr_Incarnation (wv_Current v a)"
    using selected(2) by (auto simp: Resolve_iff)
  have "current_ok w pool a (wv_Current v a)" using assms(1) by (simp add: view_ok_def)
  then have "pi_Worker (sl_Identity (pool ! i)) = w" using selected(3,4) i by (simp add: current_ok_def)
  moreover have "wv_Current v a = slot_Ref (pool ! i) i" using i by (cases "wv_Current v a") (simp add: slot_Ref_def)
  moreover have "pool' = set_pin True i pool" "v' = v1" using assms(2) selected(6) by auto
  ultimately show ?thesis using assms(1) selected i(1) unfolding view_effect_def pin_effect_def
    by (auto simp: view_ok_def)
qed

lemma view_step_effect:
  assumes "view_ok w pool v" and "view_step op pool v = (pool', v')"
  shows "view_effect w pool v pool' v'"
  using assms AdoptPlan_effect Revocation_effect Live_effect Advance_effect Select_effect Release_effect
  by (cases op) (auto simp del: view_step.simps(3,4,6))

text \<open>Pins are invisible to the registry invariant.\<close>

lemma set_pin_nth: "k < length pool \<Longrightarrow> set_pin b i pool ! k = (if k = i then (pool ! i)\<lparr>sl_Pinned := b\<rparr> else pool ! k)"
  by (auto simp: set_pin_def nth_list_update)

lemma length_set_pin [simp]: "length (set_pin b i pool) = length pool" by (simp add: set_pin_def)

lemma set_pin_same:
  assumes "k < length pool"
  shows "sl_State (set_pin b i pool ! k) = sl_State (pool ! k)" "sl_Identity (set_pin b i pool ! k) = sl_Identity (pool ! k)"
    "content (set_pin b i pool ! k) = content (pool ! k)" "live (set_pin b i pool ! k) = live (pool ! k)"
    "busy (set_pin b i pool ! k) = busy (pool ! k)" "spent (set_pin b i pool ! k) = spent (pool ! k)"
    "sl_Incarnation (set_pin b i pool ! k) = sl_Incarnation (pool ! k)" "sl_Validity (set_pin b i pool ! k) = sl_Validity (pool ! k)"
  using assms by (simp_all add: set_pin_nth content_def live_def busy_def spent_def)

lemma reg_inv_set_pin:
  assumes "reg_inv r"
  shows "reg_inv (r\<lparr>re_Pool := set_pin b i (re_Pool r)\<rparr>)"
proof -
  let ?r = "r\<lparr>re_Pool := set_pin b i (re_Pool r)\<rparr>"
  have parts: "addr_inv r" "pub_inv r" "hold_inv r" "bound_inv r" "shape_inv r" using assms by (simp_all add: reg_inv_def)
  have "addr_inv ?r" using parts(1) by (simp add: addr_inv_def)
  moreover have "pub_inv ?r" using parts(2) by (simp add: pub_inv_def set_pin_same)
  moreover have "hold_inv ?r" using parts(3) by (simp add: hold_inv_def set_pin_same)
  moreover have "slot_bound ?r s \<and> slot_shape (re_Limits r) s" if mem: "s \<in> set (set_pin b i (re_Pool r))" for s
  proof -
    obtain k where k: "k < length (re_Pool r)" "s = set_pin b i (re_Pool r) ! k"
      using mem by (auto simp: in_set_conv_nth)
    have "slot_bound r (re_Pool r ! k)" "slot_shape (re_Limits r) (re_Pool r ! k)"
      using parts(4,5) k(1) by (simp_all add: bound_inv_def shape_inv_def)
    then show ?thesis using k set_pin_same(3) [OF k(1), of b i]
      by (simp add: slot_bound_def slot_shape_def set_pin_same content_def)
  qed
  then have "bound_inv ?r" "shape_inv ?r" using parts(4,5) by (simp_all add: bound_inv_def shape_inv_def)
  ultimately show ?thesis by (simp add: reg_inv_def)
qed

lemma current_ok_set_pin: "current_ok w (set_pin b i pool) a ref = current_ok w pool a ref"
  by (auto simp: current_ok_def set_pin_same)

lemma pin_effect_slots:
  assumes inv: "slots_inv pool views plans" and w: "views w = Some v" and eff: "view_effect w pool v pool' v'"
  shows "slots_inv pool' (views(w := Some v')) plans"
proof -
  have old: "view_ok w pool v" using inv w by (simp add: slots_inv_def)
  have head: "wv_Worker v' = w" "length (wv_Records v') = length pool" "\<And>a. current_ok w pool a (wv_Current v' a)"
    using eff old by (simp_all add: view_effect_def view_ok_def)
  have others: "pin_ok x pool u" "view_ok x pool u" if "views x = Some u" for x u
    using that inv by (simp_all add: slots_inv_def view_ok_def)
  have plans: "slot_plan plans (pool ! i)" "pin_owned views i (pool ! i)" if "i < length pool" for i
    using that inv by (simp_all add: slots_inv_def)
  consider (same) "pool' = pool" "same_pin v v'"
    | (pin) i where "\<not> wv_PinActive v" "i < length pool" "live (pool ! i)" "pi_Worker (sl_Identity (pool ! i)) = w" "pool' = set_pin True i pool"
        "wv_PinActive v'" "wv_PinSlot v' = slot_Ref (pool ! i) i" "wk_Identity (wv_PinKey v') = sl_Identity (pool ! i)"
    | (drop) "wv_PinActive v" "\<not> wv_PinActive v'" "pool' = set_pin False (sr_Index (wv_PinSlot v)) pool"
    using eff by (auto simp: view_effect_def pin_effect_def)
  then show ?thesis
  proof cases
    case same
    have "pin_ok w pool v'" using old same(2) by (simp add: view_ok_def pin_ok_def same_pin_def)
    moreover have "pin_owned (views(w := Some v')) i (pool ! i)" if "i < length pool" for i
      using plans(2) [OF that] same(2) w by (auto simp: pin_owned_def same_pin_def)
    ultimately show ?thesis using head others plans(1) unfolding same(1) by (auto simp: slots_inv_def view_ok_def)
  next
    case (pin i)
    have mine: "pin_ok w pool' v'" unfolding pin(5)
      using pin set_pin_same [OF pin(2), of True i] by (simp add: pin_ok_def slot_Ref_def set_pin_nth live_def)
    have theirs: "pin_ok x pool' u" if "views x = Some u" for x u
      using others(1) [OF that] unfolding pin(5) by (auto simp: pin_ok_def set_pin_same set_pin_nth live_def)
    have "pin_owned (views(w := Some v')) k (pool' ! k)" if k: "k < length pool" for k
    proof (cases "k = i")
      case True
      then show ?thesis unfolding pin(5) using pin k by (simp add: pin_owned_def set_pin_nth live_def slot_Ref_def)
    next
      case False
      then show ?thesis unfolding pin(5) using plans(2) [OF k] w pin(1) k by (auto simp: pin_owned_def set_pin_nth)
    qed
    moreover have "slot_plan plans (pool' ! k)" if k: "k < length pool" for k
      unfolding pin(5) using plans(1) [OF k] stored_content [OF set_pin_same(3) [OF k]] by (simp add: slot_plan_def set_pin_same k)
    ultimately show ?thesis using head mine theirs others(2) unfolding pin(5)
      by (auto simp: slots_inv_def view_ok_def current_ok_set_pin)
  next
    case drop
    let ?i = "sr_Index (wv_PinSlot v)"
    have own: "?i < length pool" "pi_Worker (sl_Identity (pool ! ?i)) = w" using old drop(1) by (simp_all add: view_ok_def pin_ok_def)
    have theirs: "pin_ok x pool' u" if "views x = Some u" "x \<noteq> w" for x u
    proof (cases "wv_PinActive u")
      case True
      then have "sr_Index (wv_PinSlot u) \<noteq> ?i" using others(1) [OF that(1)] that(2) own(2) by (auto simp: pin_ok_def)
      then show ?thesis using others(1) [OF that(1)] unfolding drop(3) by (auto simp: pin_ok_def set_pin_nth)
    qed (simp add: pin_ok_def)
    have "pin_owned (views(w := Some v')) k (pool' ! k)" if k: "k < length pool" for k
    proof (cases "k = ?i")
      case True
      then show ?thesis unfolding drop(3) using k by (simp add: pin_owned_def set_pin_nth)
    next
      case False
      have "pi_Worker (sl_Identity (pool ! k)) \<noteq> w" if "sl_Pinned (pool ! k)"
        using plans(2) [OF k] that w False by (auto simp: pin_owned_def slot_Ref_def)
      then show ?thesis unfolding drop(3) using False plans(2) [OF k] k by (auto simp: pin_owned_def set_pin_nth)
    qed
    moreover have "slot_plan plans (pool' ! k)" if k: "k < length pool" for k
      unfolding drop(3) using plans(1) [OF k] stored_content [OF set_pin_same(3) [OF k]] by (simp add: slot_plan_def set_pin_same k)
    moreover have "pin_ok w pool' v'" using drop(2) by (simp add: pin_ok_def)
    ultimately show ?thesis using head theirs others(2) unfolding drop(3)
      by (auto simp: slots_inv_def view_ok_def current_ok_set_pin)
  qed
qed

lemma world_inv_work:
  assumes inv: "world_inv W" and w: "pw_views W w = Some v" and st: "view_step op (world_pool W) v = (pool, v')"
  shows "world_inv (W\<lparr>pw_reg := (pw_reg W)\<lparr>re_Pool := pool\<rparr>, pw_views := (pw_views W)(w := Some v')\<rparr>)"
proof -
  have s: "slots_inv (world_pool W) (pw_views W) (pw_plans W)" "reg_inv (pw_reg W)" using inv by (simp_all add: world_inv_def)
  then have "view_ok w (world_pool W) v" using w by (simp add: slots_inv_def)
  note eff = view_step_effect [OF this st]
  have "pool = world_pool W \<or> (\<exists>b i. pool = set_pin b i (world_pool W))"
    using eff by (auto simp: view_effect_def pin_effect_def)
  then have "reg_inv ((pw_reg W)\<lparr>re_Pool := pool\<rparr>)" using s(2) reg_inv_set_pin by auto
  moreover have "w \<notin> pw_dead W" using inv w by (auto simp: world_inv_def)
  moreover have "plan_ok ((pw_reg W)\<lparr>re_Pool := pool\<rparr>) x p c val = plan_ok (pw_reg W) x p c val" for x p c val
    by (rule plan_ok_meta) simp
  ultimately show ?thesis using inv pin_effect_slots [OF s(1) w eff] by (auto simp: world_inv_def)
qed

lemma world_step_inv: "world_step W W' \<Longrightarrow> world_inv W \<Longrightarrow> world_inv W'"
proof (induction rule: world_step.induct)
  case (host op W)
  then show ?case by (intro world_inv_host)
next
  case (prepare_refused c now W r e)
  obtain r1 err where r1: "aa23ObserveClock now (pw_reg W) = (r1, err)" by fastforce
  have "r = r1" using prepare_refused.hyps r1 by (cases rule: PreparePlan_cases [of c now "pw_reg W"]) simp_all
  then show ?case using world_inv_clock [OF prepare_refused.prems r1] by simp
next
  case (terminate_refused w W r e)
  then have "r = pw_reg W" by (auto simp: AA23ObserveWorkerTerminated_def Let_def split: if_splits)
  then show ?case using terminate_refused.prems by simp
qed (auto intro: world_inv_prepare world_inv_terminated world_inv_start world_inv_work)

lemma plan_reachable_inv: "reachable W \<Longrightarrow> world_inv W"
  by (induction rule: reachable.induct) (auto intro: world_inv_init world_step_inv)

end
