(* ===== verification/Plan_Guarantees.thy ===== *)
theory Plan_Guarantees
  imports Plan_Safety
begin

text \<open>
  What the worker plans guarantee of every interleaving of the host and the workers: the bytes a worker may send are
  those of a prepared candidate before all of its deadlines, an address has one authority at a time, storage in use is
  not touched, and retired storage comes back.
\<close>

section \<open>The admission check\<close>

lemma Live_ok:
  assumes "aa23Live pin k now pool v = (v', Inr i)"
  shows "wv_PinActive v" and "wv_PinKey v = pin_Key pin" and "wk_Identity k = wk_Identity (pin_Key pin)"
    and "aa23Resolve pool (wv_PinSlot v) = Inr i" and "live (pool ! i)" and "validity_Check (sl_Validity (pool ! i)) now = None"
proof -
  obtain g err where g: "aa23Observe (wv_Clock v) now = (g, err)" by fastforce
  let ?v = "v\<lparr>wv_Clock := g\<rparr>"
  have a: "pin_View pin" "err = None" "wv_PinActive v" "wv_PinKey v = pin_Key pin" "wk_Identity k = wk_Identity (pin_Key pin)"
    using assms g by (auto simp: aa23Live_def Let_def split: if_splits option.splits)
  have unfold: "aa23Live pin k now pool v =
      (if wk_Transaction k \<noteq> wk_Transaction (pin_Key pin) then (?v, Inl ErrAA23IdentityMismatch)
       else case aa23Resolve pool (wv_PinSlot v) of
         Inl e \<Rightarrow> (?v, Inl e)
       | Inr i \<Rightarrow>
           if sl_State (pool ! i) \<notin> {AA23SlotPublished, AA23SlotRetained} then (?v, Inl ErrAA23SlotState)
           else let v1 = view_Record (wv_PinSlot v) ?v in
             if ws_Revoked (wv_Records v1 ! sr_Index (wv_PinSlot v)) then (v1, Inl ErrAA23Revoked)
             else case validity_Check (sl_Validity (pool ! i)) now of Some e \<Rightarrow> (v1, Inl e) | None \<Rightarrow> (v1, Inr i))"
    using g a by (simp add: aa23Live_def Let_def split: sum.split)
  obtain j where j: "aa23Resolve pool (wv_PinSlot v) = Inr j"
    using assms unfold by (auto split: if_splits sum.splits)
  have "j = i" "live (pool ! i)" "validity_Check (sl_Validity (pool ! i)) now = None"
    using assms unfold j by (auto simp: Let_def live_def split: if_splits option.splits)
  then show "wv_PinActive v" "wv_PinKey v = pin_Key pin" "wk_Identity k = wk_Identity (pin_Key pin)"
      "aa23Resolve pool (wv_PinSlot v) = Inr i" "live (pool ! i)" "validity_Check (sl_Validity (pool ! i)) now = None"
    using a j by simp_all
qed

text \<open>In a reachable state the slot of an admitted pin stores the candidate of the key.\<close>

lemma live_plan:
  assumes "reachable W" and w: "pw_views W w = Some v" and ok: "aa23Live pin k now (world_pool W) v = (v', Inr i)"
  obtains c val where "pw_plans W w (pi_Plan (wk_Identity k)) = Some (c, val)" "pc_Identity c = wk_Identity k"
    "stored (world_pool W ! i) c" "val = sl_Validity (world_pool W ! i)" "valid_plan (re_Limits (pw_reg W)) c"
    "va_PlanExpiry val = pc_PlanExpiry c" "validity_Check val now = None"
proof -
  note live = Live_ok [OF ok]
  have inv: "world_inv W" using assms(1) by (rule plan_reachable_inv)
  then have pin: "pin_ok w (world_pool W) v" and plans: "\<And>j. j < length (world_pool W) \<Longrightarrow> slot_plan (pw_plans W) (world_pool W ! j)"
    using w by (simp_all add: world_inv_def slots_inv_def view_ok_def)
  have i: "i = sr_Index (wv_PinSlot v)" "i < length (world_pool W)" using live(4) unfolding Resolve_iff by auto
  have ident: "sl_Identity (world_pool W ! i) = wk_Identity k" "pi_Worker (wk_Identity k) = w"
    using pin live(1-3) i(1) by (simp_all add: pin_ok_def)
  obtain c where c: "pw_plans W w (pi_Plan (wk_Identity k)) = Some (c, sl_Validity (world_pool W ! i))" "stored (world_pool W ! i) c"
    using plans [OF i(2)] live_busy [OF live(5)] ident by (auto simp: slot_plan_def)
  have ok: "plan_ok (pw_reg W) w (pi_Plan (wk_Identity k)) c (sl_Validity (world_pool W ! i))"
    using inv c(1) by (simp add: world_inv_def)
  show ?thesis
    by (rule that [OF c(1) _ c(2) HOL.refl]) (use ok c(2) ident live(6) in \<open>simp_all add: plan_ok_def stored_def\<close>)
qed

lemma validity_Check_None:
  "validity_Check val now = None \<longleftrightarrow> cr_Domain now = va_Domain val \<and> cr_Tick now < va_PlanExpiry val \<and>
     cr_Tick now < va_RegistrationExpiry val \<and> cr_Tick now < va_SourceLeaseExpiry val"
  by (auto simp: validity_Check_def not_le)

text \<open>
  C12: Every response symbol a worker can obtain is a byte of a response some accepted candidate prepared for exactly the
  plan identity the transaction presents: the response is a well formed target answer, the phase is the response
  phase, and the reading lies strictly before the plan, registration and source deadlines frozen at preparation.
\<close>

theorem response_bytes_authentic:
  assumes "reachable W" and "pw_views W w = Some v"
    and "AA23ResponseSymbol pin k n offset phase now (world_pool W) v = (v', Inr b)"
  shows "\<exists>c val data response. pw_plans W w (pi_Plan (wk_Identity k)) = Some (c, val) \<and> pc_Identity c = wk_Identity k \<and>
    n < length (pc_Entries c) \<and> response = pe_EncodedResponse (pc_Entries c ! n) \<and> EncodeSlaveResponse data = Inr response \<and>
    offset < length response \<and> b = response ! offset \<and> phase = AA23PhaseResponse \<and> cr_Domain now = va_Domain val \<and>
    cr_Tick now < pc_PlanExpiry c \<and> cr_Tick now < va_RegistrationExpiry val \<and> cr_Tick now < va_SourceLeaseExpiry val"
proof -
  obtain v1 res where l: "aa23Live pin k now (world_pool W) v = (v1, res)" by fastforce
  obtain i where res: "res = Inr i" using assms(3) l by (cases res) (auto simp: AA23ResponseSymbol_def)
  obtain c val where c: "pw_plans W w (pi_Plan (wk_Identity k)) = Some (c, val)" "pc_Identity c = wk_Identity k"
      "stored (world_pool W ! i) c" "valid_plan (re_Limits (pw_reg W)) c" "va_PlanExpiry val = pc_PlanExpiry c" "validity_Check val now = None"
    using live_plan [OF assms(1,2) l [unfolded res]] by metis
  let ?s = "world_pool W ! i" and ?e = "pc_Entries c ! n"
  have sym: "n < sl_EntryCount ?s" "phase = er_Phase (sl_Entries ?s ! n)" "offset < er_ReplyLen (sl_Entries ?s ! n)"
      "b = sl_Bytes ?s ! (er_ReplyStart (sl_Entries ?s ! n) + offset)"
    using assms(3) l res by (auto simp: AA23ResponseSymbol_def Let_def not_le split: if_splits)
  have n: "n < length (pc_Entries c)" using sym(1) c(3) by (simp add: stored_def)
  have entry: "stores_entry (sl_Bytes ?s) (sl_Entries ?s ! n) ?e" using c(3) n by (simp add: stored_def)
  have valid: "aa23ValidateEntry (re_Limits (pw_reg W)) ?e (rk_Address (pi_Registration (pc_Identity c))) = None"
    using c(4) n by (simp add: valid_plan_def)
  then have "pe_AllowedPhase ?e = AA23PhaseResponse" "aa23ValidateEncodedResponse (pe_EncodedResponse ?e) = None"
    by (auto simp: aa23ValidateEntry_def split: if_splits)
  moreover have "phase = pe_AllowedPhase ?e" using sym(2) entry by (simp add: stores_entry_def)
  moreover have "offset < length (pe_EncodedResponse ?e)" "b = pe_EncodedResponse ?e ! offset"
    using symbol_stored [OF c(3) n sym(3)] sym(3,4) by simp_all
  ultimately show ?thesis using c n unfolding encoded_valid validity_Check_None by auto
qed

text \<open>
  C26: For an admitted pin, matching a request returns an entry exactly when the request is addressed to the plan's
  address by an initiator and selects that entry, and no other entry of the plan is selected by it.
\<close>

theorem match_exact:
  assumes "reachable W" and "pw_views W w = Some v" and "aa23Live pin k now (world_pool W) v = (v', Inr i)"
  shows "\<exists>c val. pw_plans W w (pi_Plan (wk_Identity k)) = Some (c, val) \<and> pc_Identity c = wk_Identity k \<and>
    (\<forall>n. snd (AA23Match pin k q now (world_pool W) v) = Inr n \<longleftrightarrow>
       rq_Destination q = rk_Address (pi_Registration (wk_Identity k)) \<and> aa23IsInitiatorAddress (rq_Source q) \<and>
       n < length (pc_Entries c) \<and> entry_selects (pc_Entries c ! n) (rq_Source q) (rq_PB q) (rq_SB q) (rq_Data q))"
proof -
  obtain c val where c: "pw_plans W w (pi_Plan (wk_Identity k)) = Some (c, val)" "pc_Identity c = wk_Identity k"
      "stored (world_pool W ! i) c" "valid_plan (re_Limits (pw_reg W)) c"
    using live_plan [OF assms] by metis
  let ?s = "world_pool W ! i" and ?sel = "\<lambda>e. entry_selects e (rq_Source q) (rq_PB q) (rq_SB q) (rq_Data q)"
  have unfold: "snd (AA23Match pin k q now (world_pool W) v) =
      (if rq_Destination q \<noteq> rk_Address (pi_Registration (wk_Identity k)) then Inl ErrAA23NoMatch
       else if \<not> aa23IsInitiatorAddress (rq_Source q) then Inl ErrAA23NoMatch
       else case first_index ?sel (pc_Entries c) of None \<Rightarrow> Inl ErrAA23NoMatch | Some n \<Rightarrow> Inr n)"
    using assms(3) c(2,3) scan_stored [OF c(3), of q] by (simp add: AA23Match_def Let_def stored_def split: option.split)
  have "(first_index ?sel (pc_Entries c) = Some n) \<longleftrightarrow> n < length (pc_Entries c) \<and> ?sel (pc_Entries c ! n)" for n
  proof
    assume n: "n < length (pc_Entries c) \<and> ?sel (pc_Entries c ! n)"
    then obtain m where "first_index ?sel (pc_Entries c) = Some m"
      using first_index_None [of ?sel "pc_Entries c"] by (cases "first_index ?sel (pc_Entries c)") auto
    then show "first_index ?sel (pc_Entries c) = Some n" using first_match_unique [OF c(4)] n by blast
  qed (simp add: first_index_Some)
  then have "snd (AA23Match pin k q now (world_pool W) v) = Inr n \<longleftrightarrow>
      rq_Destination q = rk_Address (pi_Registration (wk_Identity k)) \<and> aa23IsInitiatorAddress (rq_Source q) \<and>
      n < length (pc_Entries c) \<and> ?sel (pc_Entries c ! n)" for n
    unfolding unfold by (cases "first_index ?sel (pc_Entries c)") simp_all
  then show ?thesis using c(1,2) by blast
qed

text \<open>
  C13: An address has one authority: two plans of the same address that workers may still use belong to the same
  registration of the same subscriber, and at most one of them is published.
\<close>

theorem one_authority_per_address:
  assumes "reachable W" and "i < length (world_pool W)" and "j < length (world_pool W)"
    and "live (world_pool W ! i)" and "live (world_pool W ! j)"
    and "rk_Address (pi_Registration (sl_Identity (world_pool W ! i))) = rk_Address (pi_Registration (sl_Identity (world_pool W ! j)))"
  shows "pi_Registration (sl_Identity (world_pool W ! i)) = pi_Registration (sl_Identity (world_pool W ! j)) \<and>
    (sl_State (world_pool W ! i) = AA23SlotPublished \<and> sl_State (world_pool W ! j) = AA23SlotPublished \<longrightarrow> i = j)"
proof -
  let ?r = "pw_reg W"
  have parts: "addr_inv ?r" "pub_inv ?r" "hold_inv ?r" using plan_reachable_inv [OF assms(1)] by (simp_all add: world_inv_def reg_inv_def)
  obtain m where m: "m < length (re_Records ?r)" "rr_Used (re_Records ?r ! m)"
      "rg_Key (rr_Registered (re_Records ?r ! m)) = pi_Registration (sl_Identity (world_pool W ! i))"
    using parts(3) assms(2,4) unfolding hold_inv_def by blast
  obtain n where n: "n < length (re_Records ?r)" "rr_Used (re_Records ?r ! n)"
      "rg_Key (rr_Registered (re_Records ?r ! n)) = pi_Registration (sl_Identity (world_pool W ! j))"
    using parts(3) assms(3,5) unfolding hold_inv_def by blast
  have "n = m" using addr_inv_unique [OF parts(1) m(1,2) n(1,2)] m(3) n(3) assms(6) by simp
  then have same: "pi_Registration (sl_Identity (world_pool W ! i)) = pi_Registration (sl_Identity (world_pool W ! j))" using m n by simp
  then show ?thesis using pub_inv_at(2) [OF parts(2) m(1,2) assms(2)] pub_inv_at(2) [OF parts(2) m(1,2) assms(3)] m(3) by auto
qed

section \<open>Storage\<close>

text \<open>What one step of the system does to a slot.\<close>

lemma world_step_slot:
  assumes st: "world_step W W'" and inv: "world_inv W" and i: "i < length (world_pool W)"
  shows "length (world_pool W') = length (world_pool W)"
    and "sl_Incarnation (world_pool W ! i) \<le> sl_Incarnation (world_pool W' ! i)"
    and "sl_Pinned (world_pool W ! i) \<Longrightarrow> pw_views W' (pi_Worker (sl_Identity (world_pool W ! i))) \<noteq> None \<Longrightarrow>
      content (world_pool W' ! i) = content (world_pool W ! i)"
proof -
  have r: "reg_inv (pw_reg W)" and sl: "slots_inv (world_pool W) (pw_views W) (pw_plans W)" using inv by (simp_all add: world_inv_def)
  have pinned: "live s" if "s \<in> set (world_pool W)" "sl_Pinned s" for s
    using that sl by (auto simp: slots_inv_def pin_owned_def in_set_conv_nth)
  have from_step: "length pool' = length (world_pool W) \<and> sl_Incarnation (world_pool W ! i) \<le> sl_Incarnation (pool' ! i) \<and>
      (sl_Pinned (world_pool W ! i) \<and> Q (pi_Worker (sl_Identity (world_pool W ! i))) \<longrightarrow> content (pool' ! i) = content (world_pool W ! i))"
    if "slots_step Q (world_pool W) pool'" for Q pool'
  proof -
    have "length pool' = length (world_pool W)" "evolves (world_pool W ! i) (pool' ! i)" using that i by (simp_all add: slots_step_def)
    moreover have "content (pool' ! i) = content (world_pool W ! i)"
      if p: "sl_Pinned (world_pool W ! i)" and q: "Q (pi_Worker (sl_Identity (world_pool W ! i)))"
    proof -
      have "keeps (world_pool W ! i) (pool' ! i)" using p q \<open>slots_step Q (world_pool W) pool'\<close> i by (simp add: slots_step_def)
      then show ?thesis using pinned [OF nth_mem [OF i] p] by (simp add: keeps_def)
    qed
    ultimately show ?thesis by (simp add: evolves_def)
  qed
  have "length (world_pool W') = length (world_pool W) \<and> sl_Incarnation (world_pool W ! i) \<le> sl_Incarnation (world_pool W' ! i) \<and>
      (sl_Pinned (world_pool W ! i) \<and> pw_views W' (pi_Worker (sl_Identity (world_pool W ! i))) \<noteq> None \<longrightarrow>
        content (world_pool W' ! i) = content (world_pool W ! i))"
    using st
  proof cases
    case (host op)
    then show ?thesis using from_step [OF host_slots_step [OF r]] by simp
  next
    case (prepare_refused c now r' e)
    obtain r1 err where r1: "aa23ObserveClock now (pw_reg W) = (r1, err)" by fastforce
    have "r' = r1" using prepare_refused r1 by (cases rule: PreparePlan_cases [of c now "pw_reg W"]) simp_all
    then show ?thesis
      using prepare_refused from_step [OF slots_stepI [OF evolve.rel_clock [OF r1] age.rel_clock [OF r1] keep.rel_clock [OF r1]]] by simp
  next
    case (prepare c now r' ref)
    show ?thesis
    proof (cases rule: PreparePlan_cases [of c now "pw_reg W"])
      case (refused e)
      then show ?thesis using prepare by simp
    next
      case (prepared r1 k j)
      note one = from_step [OF slots_stepI [OF evolve.rel_clock [OF prepared(1)] age.rel_clock [OF prepared(1)] keep.rel_clock [OF prepared(1)]]]
      have "live (re_Pool r1 ! i)" if "sl_Pinned (world_pool W ! i)"
        using keep.rel_clock [OF prepared(1)] i that pinned by (auto simp: list_all2_conv_all_nth keeps_def)
      then have "k \<noteq> i" if "sl_Pinned (world_pool W ! i)" using that prepared(6) by (auto simp: live_def)
      moreover have "world_pool W' ! i = (if i = k then aa23Copy (pc_Entries c) ((re_Pool r1 ! k)\<lparr>sl_State := AA23SlotWriting, sl_Identity := pc_Identity c,
             sl_Validity := plan_validity r1 (pc_PlanExpiry c) (re_Records r1 ! j)\<rparr>) else re_Pool r1 ! i)"
        "length (world_pool W') = length (re_Pool r1)"
        using prepare prepared(5,7) one i by (auto simp: upd_slot_def)
      ultimately show ?thesis using one by auto
    qed
  next
    case (terminate_refused w r' e)
    then have "r' = pw_reg W" by (auto simp: AA23ObserveWorkerTerminated_def Let_def split: if_splits)
    then show ?thesis using terminate_refused by simp
  next
    case (terminated w r')
    then show ?thesis using from_step [OF terminated_slots_step [OF terminated(2) pinned]] by auto
  next
    case (start w stream v)
    then show ?thesis by simp
  next
    case (work w v op pool v')
    have "view_ok w (world_pool W) v" using inv work(2) by (simp add: world_inv_def slots_inv_def)
    then have "pool = world_pool W \<or> (\<exists>b k. pool = set_pin b k (world_pool W))"
      using view_step_effect work(3) by (fastforce simp: view_effect_def pin_effect_def)
    then show ?thesis using work(1) i by (auto simp: set_pin_same)
  qed
  then show "length (world_pool W') = length (world_pool W)"
    and "sl_Incarnation (world_pool W ! i) \<le> sl_Incarnation (world_pool W' ! i)"
    and "sl_Pinned (world_pool W ! i) \<Longrightarrow> pw_views W' (pi_Worker (sl_Identity (world_pool W ! i))) \<noteq> None \<Longrightarrow>
      content (world_pool W' ! i) = content (world_pool W ! i)"
    by simp_all
qed

text \<open>
  C14: While a transaction holds its pin, no step of the host or of any worker changes the plan it reads: identity,
  deadlines, entries and bytes of the slot stay as they are and the slot stays usable.  Only the recorded termination
  of the worker itself ends this.
\<close>

theorem pinned_plan_untouched:
  assumes "reachable W" and "world_step W W'" and "pw_views W w = Some v" and "wv_PinActive v"
    and "pw_views W' w = Some v'" and "wv_PinActive v'" and "wv_PinSlot v' = wv_PinSlot v"
  shows "content (world_pool W' ! sr_Index (wv_PinSlot v)) = content (world_pool W ! sr_Index (wv_PinSlot v)) \<and>
    live (world_pool W' ! sr_Index (wv_PinSlot v)) \<and> aa23Resolve (world_pool W') (wv_PinSlot v) = Inr (sr_Index (wv_PinSlot v))"
proof -
  let ?i = "sr_Index (wv_PinSlot v)"
  have inv: "world_inv W" "world_inv W'" using assms(1,2) plan_reachable_inv reachable.step by blast+
  have pin: "pin_ok w (world_pool W) v" "pin_ok w (world_pool W') v'"
    using inv assms(3,5) by (simp_all add: world_inv_def slots_inv_def view_ok_def)
  have i: "?i < length (world_pool W)" "sl_Pinned (world_pool W ! ?i)" "pi_Worker (sl_Identity (world_pool W ! ?i)) = w"
    using pin(1) assms(4) by (simp_all add: pin_ok_def)
  have "content (world_pool W' ! ?i) = content (world_pool W ! ?i)"
    using world_step_slot(3) [OF assms(2) inv(1) i(1,2)] i(3) assms(5) by simp
  then show ?thesis using pin(2) assms(6,7) by (simp add: pin_ok_def Resolve_iff)
qed

text \<open>
  A reference to an earlier incarnation of a slot never becomes valid again, however the system runs on.
\<close>

theorem stale_reference_stays_dead:
  assumes "reachable W" and "world_step\<^sup>*\<^sup>* W W'" and "sr_Index ref < length (world_pool W)"
    and "sr_Incarnation ref < sl_Incarnation (world_pool W ! sr_Index ref)"
  shows "aa23Resolve (world_pool W') ref = Inl ErrAA23SlotState"
proof -
  have "reachable W' \<and> sr_Index ref < length (world_pool W') \<and> sr_Incarnation ref < sl_Incarnation (world_pool W' ! sr_Index ref)"
    using assms(2)
  proof (induction rule: rtranclp_induct)
    case base
    then show ?case using assms by simp
  next
    case (step Y Z)
    then show ?case using world_step_slot(1,2) [OF step.hyps(2) plan_reachable_inv] reachable.step
      by (metis order_less_le_trans)
  qed
  then show ?thesis by (auto simp: aa23Resolve_def)
qed

text \<open>
  A generation is used once: whenever a candidate is accepted, no candidate was accepted before under its worker and
  generation, so its number can not stand for different bytes.
\<close>

theorem generation_fresh:
  assumes "reachable W" and "AA23PreparePlan c now (pw_reg W) = (r, Inr ref)"
  shows "pw_plans W (pi_Worker (pc_Identity c)) (pi_Plan (pc_Identity c)) = None"
proof (rule ccontr)
  assume "pw_plans W (pi_Worker (pc_Identity c)) (pi_Plan (pc_Identity c)) \<noteq> None"
  then obtain d val where d: "pw_plans W (pi_Worker (pc_Identity c)) (pi_Plan (pc_Identity c)) = Some (d, val)" by auto
  have inv: "world_inv W" using assms(1) by (rule plan_reachable_inv)
  show False
  proof (cases rule: PreparePlan_cases [of c now "pw_reg W"])
    case (refused e)
    then show ?thesis using assms(2) by simp
  next
    case (prepared r1 i j)
    have W1: "world_inv (W\<lparr>pw_reg := r1\<rparr>)" using inv prepared(1) by (rule world_inv_clock)
    then have "plan_ok r1 (pi_Worker (pc_Identity c)) (pi_Plan (pc_Identity c)) d val" "reg_inv r1" using d by (simp_all add: world_inv_def)
    moreover have "pi_Worker (pc_Identity c) = re_WorkerTop r1"
      using CheckPublishable_ok(1,2) [OF _ prepared(3)] calculation(2) by (simp add: reg_inv_def bound_inv_def)
    ultimately show ?thesis using prepared(4) by (auto simp: plan_ok_def dest: leD)
  qed
qed

section \<open>Reclaiming\<close>

lemma list_pending_room:
  "length dst + length is \<le> cap \<Longrightarrow> list_pending item cap is dst = dst @ List.map_filter item is"
  by (induction "is" arbitrary: dst) (auto simp: List.map_filter_def split: option.split)

definition pending_notice :: "AA23Registry \<Rightarrow> nat \<Rightarrow> AA23RevocationNotice" where
  "pending_notice r i = \<lparr>rn_Slot = slot_Ref (re_Pool r ! i) i, rn_Identity = sl_Identity (re_Pool r ! i), rn_Reason = sl_Reason (re_Pool r ! i)\<rparr>"

lemma pending_notice_listed:
  assumes "i < length (re_Pool r)" and "sl_State (re_Pool r ! i) = AA23SlotRetained" and "length (re_Pool r) \<le> cap"
  shows "pending_notice r i \<in> set (AA23PendingRevocations r [] cap)"
proof -
  have "AA23PendingRevocations r [] cap =
      List.map_filter (\<lambda>i. if sl_State (re_Pool r ! i) = AA23SlotRetained then Some (pending_notice r i) else None) [0..<length (re_Pool r)]"
    using assms(3) by (simp add: AA23PendingRevocations_def list_pending_room pending_notice_def cong: if_cong)
  then show ?thesis using assms(1,2) by (force simp: List.map_filter_def)
qed


text \<open>
  Once a worker has observed a revocation of the plan it holds, other than that a newer generation superseded it,
  every later use of the pin is refused for as long as this incarnation of the slot is held.
\<close>

theorem observed_revocation_closes_pin:
  assumes "reachable W" and "pw_views W w = Some v" and "AA23ObserveRevocation n (world_pool W) v = (v1, Inr a)" and "rn_Reason n \<noteq> AA23RetireSuperseded"
    and "wv_PinSlot v1 = rn_Slot n"
  shows "\<exists>e. snd (aa23Live pin k now pool' v1) = Inl e"
proof -
  let ?ref = "rn_Slot n" and ?pool = "world_pool W"
  have ok: "length (wv_Records v) = length ?pool"
    using plan_reachable_inv [OF assms(1)] assms(2) by (simp add: world_inv_def slots_inv_def view_ok_def)
  obtain i where i: "aa23Resolve ?pool ?ref = Inr i"
    using assms(3) by (cases "aa23Resolve ?pool ?ref") (auto simp: AA23ObserveRevocation_def)
  have idx: "sr_Index ?ref < length (wv_Records v)" using i ok unfolding Resolve_iff by auto
  let ?u = "upd_view_record (sr_Index ?ref) (\<lambda>rec. rec\<lparr>ws_Revoked := True\<rparr>) (view_Record ?ref v)"
  have "wv_Records v1 = wv_Records ?u"
    using assms(3,4) i by (auto simp: AA23ObserveRevocation_def Let_def split: if_splits)
  moreover have "ws_Incarnation (wv_Records ?u ! sr_Index ?ref) = sr_Incarnation ?ref \<and> ws_Revoked (wv_Records ?u ! sr_Index ?ref)"
    using idx by (simp add: upd_view_record_def view_Record_def fresh_slot_record_def)
  ultimately have rec: "ws_Incarnation (wv_Records v1 ! sr_Index (wv_PinSlot v1)) = sr_Incarnation (wv_PinSlot v1)"
      "ws_Revoked (wv_Records v1 ! sr_Index (wv_PinSlot v1))" using assms(5) by simp_all
  obtain g err where g: "aa23Observe (wv_Clock v1) now = (g, err)" by fastforce
  have "view_Record (wv_PinSlot v1) (v1\<lparr>wv_Clock := g\<rparr>) = v1\<lparr>wv_Clock := g\<rparr>" using rec(1) by (simp add: view_Record_def)
  then show ?thesis using g rec(2) by (auto simp: aa23Live_def Let_def split: option.split sum.split)
qed

section \<open>Bounds and refusals\<close>

text \<open>
  C28: Limits are accepted only when all slots together, with 64 accounted bytes per entry, fit in 64 MiB; the 64 bit
  arithmetic of the check does not wrap.
\<close>

theorem limits_bound_pool:
  assumes "limits_Validate l = None"
  shows "unat (lim_MaxPlanSlots l) * (unat (lim_MaxPlanBytes l) + 64 * unat (lim_MaxEntriesPerPlan l)) \<le> 2 ^ 26"
proof -
  let ?e = "ucast (lim_MaxEntriesPerPlan l) * 64 :: 64 word" and ?b = "ucast (lim_MaxPlanBytes l) :: 64 word"
  have small: "unat (x :: 32 word) < 2 ^ 32" for x using unsigned_less [of x, where ?'a = nat] by simp
  have up: "unat (ucast (x :: 32 word) :: 64 word) = unat x" for x by (simp add: unsigned_ucast_eq take_bit_nat_eq_self small less_trans [OF small])
  have e: "unat ?e = 64 * unat (lim_MaxEntriesPerPlan l)"
    using small [of "lim_MaxEntriesPerPlan l"] by (subst unat_word_ariths) (simp add: up)
  have s: "unat (?b + ?e) = unat (lim_MaxPlanBytes l) + 64 * unat (lim_MaxEntriesPerPlan l)"
    using small [of "lim_MaxEntriesPerPlan l"] small [of "lim_MaxPlanBytes l"] by (subst unat_word_ariths) (simp add: up e)
  have "ucast (lim_MaxPlanSlots l) \<le> (0x4000000 :: 64 word) div (?b + ?e)"
    using assms by (auto simp: limits_Validate_def Let_def aa23EntryAccountingBytes_def aa23PoolByteCeiling_def not_less split: if_splits)
  then have "unat (lim_MaxPlanSlots l) \<le> 0x4000000 div unat (?b + ?e)"
    unfolding word_le_nat_alt by (simp add: up unat_div)
  then have "unat (lim_MaxPlanSlots l) * unat (?b + ?e) \<le> 0x4000000 div unat (?b + ?e) * unat (?b + ?e)" by (rule mult_le_mono1)
  also have "\<dots> \<le> 0x4000000" by simp
  finally show ?thesis by (simp add: s)
qed

text \<open>
  A registration that is refused, the clock being sound, changes nothing of the registry but the clock guard: the
  incumbent of the address, the subscribers, the plans and the tables stay as they were.
\<close>

theorem refused_registration_changes_nothing:
  assumes "AA23Register c now r = (r', Inl e)" and "snd (aa23Observe (re_Clock r) now) = None"
  shows "r' = r\<lparr>re_Clock := fst (aa23Observe (re_Clock r) now)\<rparr>"
proof -
  obtain g where g: "aa23Observe (re_Clock r) now = (g, None)" using assms(2) by (metis prod.collapse)
  then have clock: "aa23ObserveClock now r = (r\<lparr>re_Clock := g\<rparr>, None)" by (simp add: aa23ObserveClock_def)
  have "r1 = r'" if "register_insert c r1 = (r', Inl e)" for r1
    using that by (auto simp: register_insert_def Let_def split: option.splits)
  then have "r' = r\<lparr>re_Clock := g\<rparr>" using assms(1) clock
    by (auto simp: AA23Register_def Let_def split: if_splits option.splits)
  then show ?thesis using g by simp
qed

section \<open>A run\<close>

text \<open>One subscriber registers an address, one worker adopts its plan and pins it; then a second generation supersedes it.\<close>

definition demo_limits :: AA23Limits where
  "demo_limits = \<lparr>lim_MaxSubscribers = 1, lim_MaxRegistrations = 1, lim_MaxMasters = 1, lim_MaxPlanSlots = 2, lim_MaxEntriesPerPlan = 1,
     lim_MaxRequestBytes = 1, lim_MaxEncodedResponseBytes = 4, lim_MaxPlanBytes = 5, lim_MaxLeaseTicks = 100\<rparr>"

definition demo_clock :: "tick \<Rightarrow> AA23ClockReading" where
  "demo_clock t = \<lparr>cr_Domain = 1, cr_Tick = t\<rparr>"

definition demo_silence :: AA23FailurePolicy where
  "demo_silence = \<lparr>fp_Unavailable = AA23FailureSilence, fp_Malformed = AA23FailureSilence, fp_Timeout = AA23FailureSilence\<rparr>"

definition demo_key :: AA23RegistrationKey where
  "demo_key = \<lparr>rk_Subscriber = 1, rk_Address = 0x08, rk_Epoch = 1\<rparr>"

definition demo_registration :: AA23Registration where
  "demo_registration = \<lparr>rg_Key = demo_key, rg_LeaseExpiry = 50, rg_Source = 1, rg_SourceLeaseExpiry = 60, rg_Failure = demo_silence\<rparr>"

definition demo_plan :: "id64 \<Rightarrow> AA23PlanCandidate" where
  "demo_plan g = \<lparr>pc_Identity = \<lparr>pi_Registration = demo_key, pi_Worker = 1, pi_Stream = 1, pi_Plan = g, pi_Source = 1\<rparr>,
     pc_PlanExpiry = 40, pc_Failure = demo_silence, pc_Entries = [sample_entry True 0 0x04]\<rparr>"

definition host_world :: "host_op \<Rightarrow> plan_world \<Rightarrow> plan_world" where
  "host_world op W = W\<lparr>pw_reg := host_step op (pw_reg W)\<rparr>"

definition prepare_world :: "AA23PlanCandidate \<Rightarrow> AA23ClockReading \<Rightarrow> plan_world \<Rightarrow> plan_world" where
  "prepare_world c now W = (let (r, res) = AA23PreparePlan c now (pw_reg W) in
     W\<lparr>pw_reg := r, pw_plans := record_plan c (sl_Validity (re_Pool r ! sr_Index (projr res))) (pw_plans W)\<rparr>)"

definition work_world :: "id64 \<Rightarrow> view_op \<Rightarrow> plan_world \<Rightarrow> plan_world" where
  "work_world w op W = (let (pool, v) = view_step op (world_pool W) (the (pw_views W w)) in
     W\<lparr>pw_reg := (pw_reg W)\<lparr>re_Pool := pool\<rparr>, pw_views := (pw_views W)(w := Some v)\<rparr>)"

definition demo_bound :: plan_world where
  "demo_bound = host_world (HBindWorker 1 1) (host_world (HRegister demo_registration (demo_clock 1)) (host_world HOpen
     \<lparr>pw_reg = projr (AA23NewRegistry demo_limits 0), pw_views = (\<lambda>_. None), pw_dead = {}, pw_plans = (\<lambda>_ _. None)\<rparr>))"

definition demo_ref :: "nat \<Rightarrow> AA23SlotRef" where "demo_ref i = \<lparr>sr_Index = i, sr_Incarnation = 1\<rparr>"

definition demo_started :: plan_world where
  "demo_started = (let W = host_world (HPublish (demo_ref 0) (demo_clock 3)) (prepare_world (demo_plan 1) (demo_clock 2) demo_bound) in
     W\<lparr>pw_views := (pw_views W)(1 := Some (projr (AA23NewWorkerView (Some (world_pool W)) 1 1)))\<rparr>)"

definition demo_pinned :: plan_world where
  "demo_pinned = work_world 1 (VSelect 0x08 1 (demo_clock 5))
     (work_world 1 (VAdopt \<lparr>pn_Slot = demo_ref 0, pn_Identity = pc_Identity (demo_plan 1)\<rparr> (demo_clock 4)) demo_started)"

definition demo_wire_key :: AA23WireKey where
  "demo_wire_key = \<lparr>wk_Identity = pc_Identity (demo_plan 1), wk_Transaction = 1\<rparr>"

definition demo_pin :: AA23PlanPin where
  "demo_pin = \<lparr>pin_View = True, pin_Key = demo_wire_key\<rparr>"

definition demo_view :: AA23WorkerView where "demo_view = the (pw_views demo_pinned 1)"

definition supersede_in :: "plan_world \<Rightarrow> plan_world" where
  "supersede_in W = host_world (HPublish (demo_ref 1) (demo_clock 7)) (prepare_world (demo_plan 2) (demo_clock 6) W)"

definition demo_superseded :: plan_world where
  "demo_superseded = supersede_in demo_pinned"

definition release_in :: "plan_world \<Rightarrow> plan_world" where
  "release_in W = work_world 1 (VRelease demo_pin) W"

definition demo_released :: plan_world where
  "demo_released = release_in demo_superseded"

definition demo_revoked :: plan_world where
  "demo_revoked = host_world (HMarkConflict 0x08) demo_pinned"

text \<open>What the run reaches, evaluated once.\<close>

definition demo_facts :: "plan_world \<Rightarrow> AA23WorkerView \<Rightarrow> bool" where
  "demo_facts P v \<longleftrightarrow> wv_PinActive v \<and> sr_Index (wv_PinSlot v) = 0 \<and> 0 < length (world_pool P) \<and> 0 < sl_Incarnation (world_pool P ! 0) \<and>
     snd (AA23PreparePlan (demo_plan 2) (demo_clock 6) (pw_reg P)) = Inr (demo_ref 1)"

definition superseded_facts :: "AA23Pool \<Rightarrow> AA23WorkerView \<Rightarrow> bool" where
  "superseded_facts pool v \<longleftrightarrow>
     snd (AA23ResponseSymbol demo_pin demo_wire_key 0 1 AA23PhaseResponse (demo_clock 9) pool v) = Inr 0x2A \<and>
     snd (aa23Live demo_pin demo_wire_key (demo_clock 9) pool v) = Inr 0 \<and>
     0 < length pool \<and> 1 < length pool \<and> live (pool ! 0) \<and> live (pool ! 1) \<and>
     rk_Address (pi_Registration (sl_Identity (pool ! 0))) = rk_Address (pi_Registration (sl_Identity (pool ! 1)))"

definition released_facts :: "AA23Pool \<Rightarrow> AA23WorkerView \<Rightarrow> bool" where
  "released_facts pool v \<longleftrightarrow> 0 < length pool \<and> sl_State (pool ! 0) = AA23SlotRetained \<and> pi_Worker (sl_Identity (pool ! 0)) = 1 \<and>
     pi_Stream (sl_Identity (pool ! 0)) \<le> wv_Stream v \<and> \<not> aa23HoldsPin v (slot_Ref (pool ! 0) 0)"

definition revoked_facts :: "AA23Registry \<Rightarrow> AA23WorkerView \<Rightarrow> bool" where
  "revoked_facts r v \<longleftrightarrow> (let n = pending_notice r 0; res = AA23ObserveRevocation n (re_Pool r) v in
     snd res = Inr None \<and> rn_Reason n \<noteq> AA23RetireSuperseded \<and> wv_PinSlot (fst res) = rn_Slot n)"

definition run_facts :: "plan_world \<Rightarrow> bool" where
  "run_facts P = (let v = the (pw_views P 1); S = supersede_in P; R = release_in S; V = host_world (HMarkConflict 0x08) P in
     demo_facts P v \<and> superseded_facts (world_pool S) v \<and> released_facts (world_pool R) (the (pw_views R 1)) \<and>
     revoked_facts (pw_reg V) v)"

lemma plan_demo_run: "run_facts demo_pinned" by code_simp

lemma demo_run_facts:
  "demo_facts demo_pinned demo_view" "superseded_facts (world_pool demo_superseded) demo_view"
  "released_facts (world_pool demo_released) (the (pw_views demo_released 1))" "revoked_facts (pw_reg demo_revoked) demo_view"
  using plan_demo_run by (simp_all add: run_facts_def Let_def demo_view_def demo_superseded_def demo_released_def demo_revoked_def)

lemma reachable_host:
  "reachable W \<Longrightarrow> (\<And>c now. op \<noteq> HPrepare c now) \<Longrightarrow> (\<And>w. op \<noteq> HTerminated w) \<Longrightarrow> reachable (host_world op W)"
  unfolding host_world_def by (rule reachable.step) (auto intro: world_step.host)

lemma reachable_prepare:
  assumes "reachable W" and "snd (AA23PreparePlan c now (pw_reg W)) = Inr ref"
  shows "reachable (prepare_world c now W)"
proof -
  obtain r where "AA23PreparePlan c now (pw_reg W) = (r, Inr ref)" using assms(2) by (metis prod.collapse)
  then show ?thesis using reachable.step [OF assms(1) world_step.prepare] by (simp add: prepare_world_def)
qed

lemma work_world_step:
  assumes "pw_views W w \<noteq> None"
  shows "world_step W (work_world w op W)"
proof -
  obtain v where v: "pw_views W w = Some v" using assms by auto
  obtain pool v' where "view_step op (world_pool W) v = (pool, v')" by fastforce
  then show ?thesis using v world_step.work [of W w v op pool v'] by (simp add: work_world_def)
qed

lemma reachable_work: "reachable W \<Longrightarrow> pw_views W w \<noteq> None \<Longrightarrow> reachable (work_world w op W)"
  using reachable.step work_world_step by blast

lemma demo_bound_reachable: "reachable demo_bound"
proof -
  have "isl (AA23NewRegistry demo_limits 0) = False" by code_simp
  then have "AA23NewRegistry demo_limits 0 = Inr (projr (AA23NewRegistry demo_limits 0))" by (cases "AA23NewRegistry demo_limits 0") auto
  then show ?thesis unfolding demo_bound_def by (intro reachable_host reachable.init) auto
qed

lemma demo_prepared: "snd (AA23PreparePlan (demo_plan 1) (demo_clock 2) (pw_reg demo_bound)) = Inr (demo_ref 0)"
  by code_simp

lemma demo_started_reachable: "reachable demo_started"
proof -
  let ?W = "host_world (HPublish (demo_ref 0) (demo_clock 3)) (prepare_world (demo_plan 1) (demo_clock 2) demo_bound)"
  have "reachable ?W" using reachable_prepare [OF demo_bound_reachable demo_prepared] by (intro reachable_host) auto
  moreover have "AA23NewWorkerView (Some (world_pool ?W)) 1 1 = Inr (projr (AA23NewWorkerView (Some (world_pool ?W)) 1 1))"
    by (simp add: AA23NewWorkerView_def)
  moreover have "pw_views ?W = (\<lambda>_. None)" "pw_dead ?W = {}"
    by (simp_all add: host_world_def prepare_world_def demo_bound_def Let_def split: prod.split)
  ultimately show ?thesis unfolding demo_started_def Let_def
    by (intro reachable.step [OF _ world_step.start]) simp_all
qed

lemma work_world_views [simp]: "pw_views (work_world w op W) w \<noteq> None"
  by (simp add: work_world_def split: prod.split)

lemma demo_pinned_reachable: "reachable demo_pinned"
proof -
  have "pw_views demo_started 1 \<noteq> None" by (simp add: demo_started_def Let_def)
  then show ?thesis unfolding demo_pinned_def by (intro reachable_work demo_started_reachable) simp_all
qed

lemma demo_view: "pw_views demo_pinned 1 = Some demo_view"
  using work_world_views [of 1] by (simp add: demo_view_def demo_pinned_def del: work_world_views)

lemma demo_second: "snd (AA23PreparePlan (demo_plan 2) (demo_clock 6) (pw_reg demo_pinned)) = Inr (demo_ref 1)"
  using demo_run_facts(1) by (simp add: demo_facts_def)

lemma demo_superseded_reachable: "reachable demo_superseded"
  unfolding demo_superseded_def supersede_in_def using reachable_prepare [OF demo_pinned_reachable demo_second] by (intro reachable_host) auto

lemma demo_superseded_view: "pw_views demo_superseded 1 = Some demo_view"
  using demo_view by (simp add: demo_superseded_def supersede_in_def host_world_def prepare_world_def Let_def split: prod.split)

lemma demo_symbol:
  "snd (AA23ResponseSymbol demo_pin demo_wire_key 0 1 AA23PhaseResponse (demo_clock 9) (world_pool demo_superseded) demo_view) = Inr 0x2A"
  using demo_run_facts(2) by (simp add: superseded_facts_def)

theorem response_bytes_authentic_witness:
  "\<exists>c val data response. pw_plans demo_superseded 1 1 = Some (c, val) \<and> EncodeSlaveResponse data = Inr response \<and>
    0x2A = response ! 1 \<and> 9 < pc_PlanExpiry c"
proof -
  obtain v' where "AA23ResponseSymbol demo_pin demo_wire_key 0 1 AA23PhaseResponse (demo_clock 9) (world_pool demo_superseded) demo_view = (v', Inr 0x2A)"
    using demo_symbol by (metis prod.collapse)
  from response_bytes_authentic [OF demo_superseded_reachable demo_superseded_view this] show ?thesis
    by (auto simp: demo_wire_key_def demo_plan_def demo_clock_def)
qed

definition demo_query :: AA23RequestQuery where
  "demo_query = \<lparr>rq_Source = 0x10, rq_Destination = 0x08, rq_PB = 0x07, rq_SB = 0x04, rq_Data = [0x01]\<rparr>"

theorem match_exact_witness:
  "\<exists>c val. pw_plans demo_superseded 1 1 = Some (c, val) \<and>
    (\<forall>n. snd (AA23Match demo_pin demo_wire_key demo_query (demo_clock 9) (world_pool demo_superseded) demo_view) = Inr n \<longleftrightarrow>
       n < length (pc_Entries c) \<and> entry_selects (pc_Entries c ! n) 0x10 0x07 0x04 [0x01])"
proof -
  have "snd (aa23Live demo_pin demo_wire_key (demo_clock 9) (world_pool demo_superseded) demo_view) = Inr 0"
    using demo_run_facts(2) by (simp add: superseded_facts_def)
  then obtain v' where v': "aa23Live demo_pin demo_wire_key (demo_clock 9) (world_pool demo_superseded) demo_view = (v', Inr 0)"
    by (metis prod.collapse)
  have "aa23IsInitiatorAddress 0x10" by code_simp
  with match_exact [OF demo_superseded_reachable demo_superseded_view v', of demo_query] show ?thesis
    by (auto simp: demo_query_def demo_wire_key_def demo_plan_def demo_key_def)
qed

theorem one_authority_per_address_witness:
  "pi_Registration (sl_Identity (world_pool demo_superseded ! 0)) = pi_Registration (sl_Identity (world_pool demo_superseded ! 1))"
proof -
  have "0 < length (world_pool demo_superseded) \<and> 1 < length (world_pool demo_superseded) \<and> live (world_pool demo_superseded ! 0) \<and>
      live (world_pool demo_superseded ! 1) \<and>
      rk_Address (pi_Registration (sl_Identity (world_pool demo_superseded ! 0))) = rk_Address (pi_Registration (sl_Identity (world_pool demo_superseded ! 1)))"
    using demo_run_facts(2) by (simp add: superseded_facts_def)
  then show ?thesis using one_authority_per_address [OF demo_superseded_reachable, of 0 1] by simp
qed

theorem pinned_plan_untouched_witness:
  "content (world_pool (host_world (HMarkConflict 0x08) demo_pinned) ! 0) = content (world_pool demo_pinned ! 0)"
proof -
  have st: "world_step demo_pinned (host_world (HMarkConflict 0x08) demo_pinned)"
    unfolding host_world_def by (rule world_step.host) auto
  have pin: "wv_PinActive demo_view" "sr_Index (wv_PinSlot demo_view) = 0"
    using demo_run_facts(1) by (simp_all add: demo_facts_def)
  have "pw_views (host_world (HMarkConflict 0x08) demo_pinned) 1 = Some demo_view" using demo_view by (simp add: host_world_def)
  from pinned_plan_untouched [OF demo_pinned_reachable st demo_view pin(1) this pin(1) HOL.refl] pin(2) show ?thesis by simp
qed

theorem stale_reference_stays_dead_witness:
  "aa23Resolve (world_pool (host_world HReset demo_pinned)) \<lparr>sr_Index = 0, sr_Incarnation = 0\<rparr> = Inl ErrAA23SlotState"
proof -
  have "world_step demo_pinned (host_world HReset demo_pinned)" unfolding host_world_def by (rule world_step.host) auto
  moreover have "0 < length (world_pool demo_pinned) \<and> 0 < sl_Incarnation (world_pool demo_pinned ! 0)"
    using demo_run_facts(1) by (simp add: demo_facts_def)
  ultimately show ?thesis
    using stale_reference_stays_dead [OF demo_pinned_reachable r_into_rtranclp, of _ "\<lparr>sr_Index = 0, sr_Incarnation = 0\<rparr>"] by simp
qed

theorem generation_fresh_witness: "pw_plans demo_pinned 1 2 = None"
proof -
  obtain r where "AA23PreparePlan (demo_plan 2) (demo_clock 6) (pw_reg demo_pinned) = (r, Inr (demo_ref 1))"
    using demo_second by (metis prod.collapse)
  from generation_fresh [OF demo_pinned_reachable this] show ?thesis by (simp add: demo_plan_def)
qed

theorem limits_bound_pool_witness:
  "unat (lim_MaxPlanSlots demo_limits) * (unat (lim_MaxPlanBytes demo_limits) + 64 * unat (lim_MaxEntriesPerPlan demo_limits)) \<le> 2 ^ 26"
proof -
  have "limits_Validate demo_limits = None" by code_simp
  then show ?thesis by (rule limits_bound_pool)
qed

theorem refused_registration_changes_nothing_witness:
  "fst (AA23Register demo_registration (demo_clock 90) (pw_reg (host_world (HMarkConflict 0x08) (host_world (HUnregister demo_key) demo_bound)))) =
   (pw_reg (host_world (HMarkConflict 0x08) (host_world (HUnregister demo_key) demo_bound)))\<lparr>re_Clock :=
     fst (aa23Observe (re_Clock (pw_reg (host_world (HMarkConflict 0x08) (host_world (HUnregister demo_key) demo_bound)))) (demo_clock 90))\<rparr>"
proof -
  let ?r = "pw_reg (host_world (HMarkConflict 0x08) (host_world (HUnregister demo_key) demo_bound))"
  have "isl (snd (AA23Register demo_registration (demo_clock 90) ?r)) \<and> snd (aa23Observe (re_Clock ?r) (demo_clock 90)) = None"
    by code_simp
  then obtain e where "AA23Register demo_registration (demo_clock 90) ?r = (fst (AA23Register demo_registration (demo_clock 90) ?r), Inl e)"
      "snd (aa23Observe (re_Clock ?r) (demo_clock 90)) = None"
    by (metis isl_def prod.collapse)
  then show ?thesis by (rule refused_registration_changes_nothing)
qed


theorem observed_revocation_closes_pin_witness:
  "\<exists>e. snd (aa23Live demo_pin demo_wire_key (demo_clock 9) (world_pool demo_revoked)
     (fst (AA23ObserveRevocation (pending_notice (pw_reg demo_revoked) 0) (world_pool demo_revoked) demo_view))) = Inl e"
proof -
  let ?n = "pending_notice (pw_reg demo_revoked) 0"
  let ?res = "AA23ObserveRevocation ?n (world_pool demo_revoked) demo_view"
  have W: "reachable demo_revoked" unfolding demo_revoked_def by (rule reachable_host [OF demo_pinned_reachable]) auto
  have v: "pw_views demo_revoked 1 = Some demo_view" using demo_view by (simp add: demo_revoked_def host_world_def)
  have "snd ?res = Inr None \<and> rn_Reason ?n \<noteq> AA23RetireSuperseded \<and> wv_PinSlot (fst ?res) = rn_Slot ?n"
    using demo_run_facts(4) by (simp add: revoked_facts_def Let_def)
  moreover have "?res = (fst ?res, snd ?res)" by simp
  ultimately show ?thesis using observed_revocation_closes_pin [OF W v] by metis
qed

end
