(* ===== verification/Sample_Engine.thy ===== *)
theory Sample_Engine
  imports Wire_Escape
begin

text \<open>
  The bit-level engine of the local worker (\<open>localworker/aa25_engine.go\<close>): it samples the receive line ten
  times per bit, assembles characters and request frames, and drives a prepared response edge by edge, checking
  its own echo.  The level, edge, tick and event ports are functions on a world of the caller.  Every call of a
  port is recorded in \<open>trace\<close>, newest first, which is not a field of the Go struct.
\<close>

section \<open>Constants, configuration and events\<close>

type_synonym u64 = "64 word"

abbreviation AA25NominalBaud :: u64 where "AA25NominalBaud \<equiv> 2400"
abbreviation AA25NominalSampleRate :: u64 where "AA25NominalSampleRate \<equiv> 24000"
abbreviation aa25SamplesPerBit :: u64 where "aa25SamplesPerBit \<equiv> 10"
abbreviation aa25BitsPerCharacter :: u64 where "aa25BitsPerCharacter \<equiv> 10"
abbreviation aa25CentralFirst :: u64 where "aa25CentralFirst \<equiv> 4"
abbreviation aa25CentralLast :: u64 where "aa25CentralLast \<equiv> 6"
abbreviation aa25FinalOffset :: u64 where "aa25FinalOffset \<equiv> 99"
abbreviation aa25ResyncIdleSamples :: u64 where "aa25ResyncIdleSamples \<equiv> 100"
abbreviation aa25MaxPreparedPayload :: nat where "aa25MaxPreparedPayload \<equiv> 16"
abbreviation aa25MaxPreparedWire :: nat where "aa25MaxPreparedWire \<equiv> 37"
abbreviation aa25ControlCapacity :: nat where "aa25ControlCapacity \<equiv> 4"
abbreviation aa25MaxRequestNN :: byte where "aa25MaxRequestNN \<equiv> 16"
abbreviation aa25SymbolEscape :: byte where "aa25SymbolEscape \<equiv> 0xA9"
abbreviation aa25SymbolSyn :: byte where "aa25SymbolSyn \<equiv> 0xAA"
abbreviation aa25AddressBroadcast :: byte where "aa25AddressBroadcast \<equiv> 0xFE"
abbreviation aa25EscapedEscape :: byte where "aa25EscapedEscape \<equiv> 0x00"
abbreviation aa25EscapedSyn :: byte where "aa25EscapedSyn \<equiv> 0x01"
abbreviation aa25SymbolAck :: byte where "aa25SymbolAck \<equiv> 0x00"
abbreviation aa25SymbolNack :: byte where "aa25SymbolNack \<equiv> 0xFF"
abbreviation aa25CRCPolynomial :: byte where "aa25CRCPolynomial \<equiv> 0x9B"

datatype AA25Level = AA25LevelLow | AA25LevelHigh

record AA25Config =
  AA25TickHz :: u64
  AA25ResponderAddress :: byte
  AA25TurnaroundTicks :: u64
  AA25TXLateToleranceTicks :: u64
  AA25EchoAllowanceTicks :: u64

datatype AA25EventKind = AA25EventRawSymbol | AA25EventLogicalByte | AA25EventGap | AA25EventFault
  | AA25EventProvisional | AA25EventFrameValid | AA25EventAdmitted | AA25EventTXIntent | AA25EventTXRelease
  | AA25EventTXComplete | AA25EventLoss

datatype AA25Fault = AA25FaultNone | AA25FaultFalseStart | AA25FaultBadStop | AA25FaultEscapeInvalid
  | AA25FaultSynInFrame | AA25FaultAddressInvalid | AA25FaultBadCRC | AA25FaultTickRegression
  | AA25FaultStaleGeneration | AA25FaultRXBeforeResponse | AA25FaultEchoMismatch | AA25FaultEchoMissing
  | AA25FaultEchoUnsolicited | AA25FaultTXLate | AA25FaultLengthInvalid | AA25FaultNackExhausted

record AA25Event =
  AA25Kind :: AA25EventKind
  AA25EventFaultCode :: AA25Fault
  AA25Tick :: u64
  AA25SampleIndex :: u64
  AA25StartTick :: u64
  AA25Deadline :: u64
  AA25Missed :: u64
  AA25EventGeneration :: u64
  AA25Raw :: byte
  AA25Logical :: byte
  AA25WasEscaped :: bool
  AA25Echo :: bool
  AA25EventLevel :: AA25Level
  AA25Dissent :: byte
  AA25EdgePhase :: "byte list"

text \<open>A composite literal \<open>AA25Event{AA25Kind: k, AA25Tick: now}\<close> leaves the other fields zero.\<close>

definition event_literal :: "AA25EventKind \<Rightarrow> u64 \<Rightarrow> AA25Event" where
  "event_literal k now = \<lparr>AA25Kind = k, AA25EventFaultCode = AA25FaultNone, AA25Tick = now, AA25SampleIndex = 0,
     AA25StartTick = 0, AA25Deadline = 0, AA25Missed = 0, AA25EventGeneration = 0, AA25Raw = 0, AA25Logical = 0,
     AA25WasEscaped = False, AA25Echo = False, AA25EventLevel = AA25LevelLow, AA25Dissent = 0,
     AA25EdgePhase = replicate 10 0\<rparr>"

record AA25Stats =
  AA25Observations :: u64
  AA25MissedSamples :: u64
  AA25MaxObservationLate :: u64
  AA25TXEdges :: u64
  AA25EchoedSymbols :: u64
  AA25EventsDropped :: u64
  AA25ControlsApplied :: u64
  AA25Withdrawals :: u64

record AA25Prepared =
  AA25Generation :: u64
  AA25MatchPB :: byte
  AA25MatchSB :: byte
  AA25MatchNN :: byte
  aa25Wire :: "byte list"
  aa25WireLen :: byte

datatype AA25Err = AA25ErrInvalidConfig | AA25ErrMissingPort | AA25ErrInvalidResponse

section \<open>Prepared responses\<close>

text \<open>An array of 37 bytes with its fill level; the writes are shown to stay inside it.\<close>

definition aa25AppendRaw :: "byte \<Rightarrow> AA25Prepared \<Rightarrow> AA25Prepared" where
  "aa25AppendRaw symbol p =
     p\<lparr>aa25Wire := (aa25Wire p)[unat (aa25WireLen p) := symbol], aa25WireLen := aa25WireLen p + 1\<rparr>"

fun aa25CRCUpdate_loop :: "nat \<Rightarrow> byte \<Rightarrow> byte" where
  "aa25CRCUpdate_loop 0 crc = crc"
| "aa25CRCUpdate_loop (Suc n) crc = aa25CRCUpdate_loop n
     (if crc AND 0x80 \<noteq> 0 then push_bit 1 crc XOR aa25CRCPolynomial else push_bit 1 crc)"

definition aa25CRCUpdate :: "byte \<Rightarrow> byte \<Rightarrow> byte" where
  "aa25CRCUpdate crc symbol = aa25CRCUpdate_loop 8 crc XOR symbol"

definition aa25AppendLogical :: "byte \<Rightarrow> byte \<Rightarrow> AA25Prepared \<Rightarrow> AA25Prepared \<times> byte" where
  "aa25AppendLogical v crc p =
     (if v = aa25SymbolEscape then
        (aa25AppendRaw aa25EscapedEscape (aa25AppendRaw aa25SymbolEscape p),
         aa25CRCUpdate (aa25CRCUpdate crc aa25SymbolEscape) aa25EscapedEscape)
      else if v = aa25SymbolSyn then
        (aa25AppendRaw aa25EscapedSyn (aa25AppendRaw aa25SymbolEscape p),
         aa25CRCUpdate (aa25CRCUpdate crc aa25SymbolEscape) aa25EscapedSyn)
      else (aa25AppendRaw v p, aa25CRCUpdate crc v))"

definition prepared_zero :: AA25Prepared where
  "prepared_zero = \<lparr>AA25Generation = 0, AA25MatchPB = 0, AA25MatchSB = 0, AA25MatchNN = 0,
     aa25Wire = replicate aa25MaxPreparedWire 0, aa25WireLen = 0\<rparr>"

definition AA25PrepareResponse :: "u64 \<Rightarrow> byte \<Rightarrow> byte \<Rightarrow> byte \<Rightarrow> byte list \<Rightarrow> AA25Err + AA25Prepared" where
  "AA25PrepareResponse generation pb sb nn payload =
     (if generation = 0 \<or> length payload > aa25MaxPreparedPayload then Inl AA25ErrInvalidResponse
      else let p = prepared_zero\<lparr>AA25Generation := generation, AA25MatchPB := pb, AA25MatchSB := sb,
                     AA25MatchNN := nn\<rparr>;
               p = aa25AppendRaw aa25SymbolAck p;
               (p, crc) = aa25AppendLogical (byte_of_nat (length payload)) 0 p;
               (p, crc) = foldl (\<lambda>(p, crc) v. aa25AppendLogical v crc p) (p, crc) payload
           in Inr (fst (aa25AppendLogical crc crc p)))"

section \<open>Exact schedule arithmetic\<close>

text \<open>\<open>bits.Mul64\<close> gives the 128-bit product, \<open>bits.Div64\<close> its quotient and remainder; a quotient that does not
  fit is saturated first.\<close>

definition aa25RationalAt :: "u64 \<Rightarrow> u64 \<Rightarrow> u64 \<Rightarrow> u64 \<times> u64" where
  "aa25RationalAt i num den =
     (let product = uint i * uint num; hi = product div 2 ^ 64 in
      if uint den \<le> hi then (- 1, 0)
      else (word_of_int (product div uint den), word_of_int (product mod uint den)))"

definition aa25RationalDeadline :: "u64 \<Rightarrow> u64 \<Rightarrow> u64 \<Rightarrow> u64 \<Rightarrow> u64" where
  "aa25RationalDeadline anchor i num den =
     (let (whole, remainder) = aa25RationalAt i num den;
          whole = (if remainder \<noteq> 0 then whole + 1 else whole)
      in anchor + whole)"

definition Add64 :: "u64 \<Rightarrow> u64 \<Rightarrow> u64 \<times> bool" where
  "Add64 a b = (a + b, 2 ^ 64 \<le> uint a + uint b)"

definition aa25ScheduleReserve :: "AA25Config \<Rightarrow> u64 \<times> bool" where
  "aa25ScheduleReserve c =
     (let horizon = aa25RationalDeadline 0 ((1 + 37) * aa25BitsPerCharacter) (AA25TickHz c) AA25NominalBaud;
          (s, carryTurnaround) = Add64 horizon (AA25TurnaroundTicks c);
          (s, carryEcho) = Add64 s (AA25EchoAllowanceTicks c);
          (s, carryLate) = Add64 s (AA25TXLateToleranceTicks c)
      in (s, \<not> (carryTurnaround \<or> carryEcho \<or> carryLate)))"

definition aa25ScheduleFits :: "u64 \<Rightarrow> u64 \<Rightarrow> bool" where
  "aa25ScheduleFits reserve anchor \<longleftrightarrow> anchor \<le> - 1 - reserve"

definition aa25InitiatorNibble :: "byte \<Rightarrow> bool" where
  "aa25InitiatorNibble n \<longleftrightarrow> n = 0x0 \<or> n = 0x1 \<or> n = 0x3 \<or> n = 0x7 \<or> n = 0xF"

definition aa25InitiatorAddress :: "byte \<Rightarrow> bool" where
  "aa25InitiatorAddress a \<longleftrightarrow> aa25InitiatorNibble (a AND 0x0F) \<and> aa25InitiatorNibble (drop_bit 4 a)"

section \<open>The engine\<close>

datatype aa25RXState = aa25RXResync | aa25RXHunt | aa25RXCharacter | aa25RXStopTail

datatype aa25FramePhase = aa25PhaseUnsynced | aa25PhaseSource | aa25PhaseTarget | aa25PhasePB | aa25PhaseSB
  | aa25PhaseNN | aa25PhaseData | aa25PhaseCRC | aa25PhaseTrailing

datatype aa25TXState = aa25TXIdle | aa25TXWaiting | aa25TXActive | aa25TXAwaitAck

text \<open>\<open>aa25ControlZero\<close> is the zero value of an array entry that was never written.\<close>

datatype aa25Control = aa25ControlZero | aa25ControlOffer AA25Prepared | aa25ControlWithdraw

text \<open>What the ports are asked and, for the sink, whether it took the event.\<close>

datatype port_call = Sampled AA25Level | WroteEdge AA25Level | Published AA25Event bool

record 'w AA25Ports =
  AA25Levels :: "('w \<Rightarrow> AA25Level \<times> 'w) option"
  AA25Edges :: "(AA25Level \<Rightarrow> 'w \<Rightarrow> 'w) option"
  AA25Ticks :: "('w \<Rightarrow> u64 \<times> 'w) option"
  AA25Sink :: "(AA25Event \<Rightarrow> 'w \<Rightarrow> bool \<times> 'w) option"

record 'w AA25Engine =
  aa25Config :: AA25Config
  aa25Ports :: "'w AA25Ports"
  aa25Stats :: AA25Stats
  aa25ReserveTicks :: u64
  aa25SampleAnchor :: u64
  aa25NextSample :: u64
  aa25NextDeadline :: u64
  aa25LastNow :: u64
  aa25TickRegressing :: bool
  aa25RXState :: aa25RXState
  aa25PreviousLevel :: AA25Level
  aa25IdleRun :: u64
  aa25CharStartIndex :: u64
  aa25CharStartTick :: u64
  aa25CharEcho :: bool
  aa25CharLevel :: AA25Level
  aa25CharHighVotes :: byte
  aa25CharDissent :: byte
  aa25CharShift :: byte
  aa25CharEdgePhase :: "byte list"
  aa25FinalComplete :: bool
  aa25FramePhase :: aa25FramePhase
  aa25EscapePending :: bool
  aa25FrameCRC :: byte
  aa25FrameSource :: byte
  aa25FramePB :: byte
  aa25FrameSB :: byte
  aa25FrameNN :: byte
  aa25FrameLeft :: byte
  aa25Slot :: AA25Prepared
  aa25SlotValid :: bool
  aa25Pinned :: AA25Prepared
  aa25PinnedValid :: bool
  aa25LastGeneration :: u64
  aa25TXState :: aa25TXState
  aa25TXAnchor :: u64
  aa25TXBit :: u64
  aa25TXBase :: u64
  aa25TXRetried :: bool
  aa25RetryCancel :: bool
  aa25AckSince :: u64
  aa25TXLevel :: AA25Level
  aa25EchoIndex :: u64
  aa25LossPending :: bool
  aa25LossApplied :: bool
  aa25Controls :: "aa25Control list"
  aa25ControlHead :: byte
  aa25ControlCount :: byte
  world :: 'w
  trace :: "port_call list"

subsection \<open>Ports\<close>

definition call_sample :: "'w AA25Engine \<Rightarrow> AA25Level \<times> 'w AA25Engine" where
  "call_sample e = (let (level, w) = the (AA25Levels (aa25Ports e)) (world e)
     in (level, e\<lparr>world := w, trace := Sampled level # trace e\<rparr>))"

definition call_edge :: "AA25Level \<Rightarrow> 'w AA25Engine \<Rightarrow> 'w AA25Engine" where
  "call_edge level e = e\<lparr>world := the (AA25Edges (aa25Ports e)) level (world e), trace := WroteEdge level # trace e\<rparr>"

definition call_ticks :: "'w AA25Engine \<Rightarrow> u64 \<times> 'w AA25Engine" where
  "call_ticks e = (let (now, w) = the (AA25Ticks (aa25Ports e)) (world e) in (now, e\<lparr>world := w\<rparr>))"

definition call_publish :: "AA25Event \<Rightarrow> 'w AA25Engine \<Rightarrow> bool \<times> 'w AA25Engine" where
  "call_publish ev e = (let (taken, w) = the (AA25Sink (aa25Ports e)) ev (world e)
     in (taken, e\<lparr>world := w, trace := Published ev taken # trace e\<rparr>))"

definition aa25Publish :: "AA25Event \<Rightarrow> 'w AA25Engine \<Rightarrow> 'w AA25Engine" where
  "aa25Publish ev e = (let (taken, e) = call_publish ev e in
     if taken then e
     else e\<lparr>aa25Stats := (aa25Stats e)\<lparr>AA25EventsDropped := AA25EventsDropped (aa25Stats e) + 1\<rparr>,
            aa25LossPending := True\<rparr>)"

definition aa25PublishFault :: "AA25Fault \<Rightarrow> u64 \<Rightarrow> 'w AA25Engine \<Rightarrow> 'w AA25Engine" where
  "aa25PublishFault fault now = aa25Publish ((event_literal AA25EventFault now)\<lparr>AA25EventFaultCode := fault\<rparr>)"

subsection \<open>Construction and control queue\<close>

definition stats_zero :: AA25Stats where
  "stats_zero = \<lparr>AA25Observations = 0, AA25MissedSamples = 0, AA25MaxObservationLate = 0, AA25TXEdges = 0,
     AA25EchoedSymbols = 0, AA25EventsDropped = 0, AA25ControlsApplied = 0, AA25Withdrawals = 0\<rparr>"

definition engine_at :: "AA25Config \<Rightarrow> 'w AA25Ports \<Rightarrow> u64 \<Rightarrow> u64 \<Rightarrow> 'w \<Rightarrow> 'w AA25Engine" where
  "engine_at config ports reserve now w = \<lparr>aa25Config = config, aa25Ports = ports, aa25Stats = stats_zero,
     aa25ReserveTicks = reserve, aa25SampleAnchor = now, aa25NextSample = 0, aa25NextDeadline = now,
     aa25LastNow = now, aa25TickRegressing = False, aa25RXState = aa25RXResync,
     aa25PreviousLevel = AA25LevelHigh, aa25IdleRun = 0, aa25CharStartIndex = 0, aa25CharStartTick = 0,
     aa25CharEcho = False, aa25CharLevel = AA25LevelHigh, aa25CharHighVotes = 0, aa25CharDissent = 0,
     aa25CharShift = 0, aa25CharEdgePhase = replicate 10 0, aa25FinalComplete = False,
     aa25FramePhase = aa25PhaseUnsynced, aa25EscapePending = False, aa25FrameCRC = 0, aa25FrameSource = 0,
     aa25FramePB = 0, aa25FrameSB = 0, aa25FrameNN = 0, aa25FrameLeft = 0, aa25Slot = prepared_zero,
     aa25SlotValid = False, aa25Pinned = prepared_zero, aa25PinnedValid = False, aa25LastGeneration = 0,
     aa25TXState = aa25TXIdle, aa25TXAnchor = 0, aa25TXBit = 0, aa25TXBase = 0, aa25TXRetried = False,
     aa25RetryCancel = False, aa25AckSince = 0, aa25TXLevel = AA25LevelHigh, aa25EchoIndex = 0,
     aa25LossPending = False, aa25LossApplied = False,
     aa25Controls = replicate aa25ControlCapacity aa25ControlZero, aa25ControlHead = 0, aa25ControlCount = 0,
     world = w, trace = []\<rparr>"

definition AA25NewEngine :: "AA25Config \<Rightarrow> 'w AA25Ports \<Rightarrow> 'w \<Rightarrow> AA25Err + 'w AA25Engine" where
  "AA25NewEngine c ports w =
     (if AA25Levels ports = None \<or> AA25Edges ports = None \<or> AA25Ticks ports = None \<or> AA25Sink ports = None
      then Inl AA25ErrMissingPort
      else if AA25TickHz c < AA25NominalSampleRate \<or> AA25ResponderAddress c = aa25SymbolEscape \<or>
              AA25ResponderAddress c = aa25SymbolSyn \<or> AA25ResponderAddress c = aa25AddressBroadcast \<or>
              aa25InitiatorAddress (AA25ResponderAddress c) \<or> AA25TickHz c < AA25TurnaroundTicks c
      then Inl AA25ErrInvalidConfig
      else let bitWhole = fst (aa25RationalAt 1 (AA25TickHz c) AA25NominalBaud);
               charWhole = fst (aa25RationalAt aa25BitsPerCharacter (AA25TickHz c) AA25NominalBaud)
           in if bitWhole \<le> AA25TXLateToleranceTicks c \<or> charWhole \<le> AA25EchoAllowanceTicks c
              then Inl AA25ErrInvalidConfig
              else let (reserve, representable) = aa25ScheduleReserve c;
                       (now, w) = the (AA25Ticks ports) w
                   in if \<not> representable \<or> \<not> aa25ScheduleFits reserve now then Inl AA25ErrInvalidConfig
                      else Inr (engine_at c ports reserve now w))"

definition aa25PushControl :: "aa25Control \<Rightarrow> 'w AA25Engine \<Rightarrow> bool \<times> 'w AA25Engine" where
  "aa25PushControl item e =
     (if aa25ControlCount e = 4 then (False, e)
      else let slot = (aa25ControlHead e + aa25ControlCount e) mod 4
           in (True, e\<lparr>aa25Controls := (aa25Controls e)[unat slot := item],
                 aa25ControlCount := aa25ControlCount e + 1\<rparr>))"

definition AA25OfferPrepared :: "AA25Prepared \<Rightarrow> 'w AA25Engine \<Rightarrow> bool \<times> 'w AA25Engine" where
  "AA25OfferPrepared p e =
     (if AA25Generation p = 0 \<or> aa25WireLen p = 0 then (False, e) else aa25PushControl (aa25ControlOffer p) e)"

definition AA25OfferWithdraw :: "'w AA25Engine \<Rightarrow> bool \<times> 'w AA25Engine" where
  "AA25OfferWithdraw e = aa25PushControl aa25ControlWithdraw e"

subsection \<open>Deadlines\<close>

definition aa25SampleDeadline :: "u64 \<Rightarrow> 'w AA25Engine \<Rightarrow> u64" where
  "aa25SampleDeadline i e =
     aa25RationalDeadline (aa25SampleAnchor e) i (AA25TickHz (aa25Config e)) AA25NominalSampleRate"

definition aa25TXDeadline :: "u64 \<Rightarrow> 'w AA25Engine \<Rightarrow> u64" where
  "aa25TXDeadline n e = aa25RationalDeadline (aa25TXAnchor e + AA25TurnaroundTicks (aa25Config e))
     (aa25BitsPerCharacter + n - aa25TXBase e) (AA25TickHz (aa25Config e)) AA25NominalBaud"

definition aa25EchoDeadline :: "'w AA25Engine \<Rightarrow> u64" where
  "aa25EchoDeadline e =
     aa25TXDeadline ((aa25EchoIndex e + 1) * aa25BitsPerCharacter) e + AA25EchoAllowanceTicks (aa25Config e)"

definition aa25AckDeadline :: "'w AA25Engine \<Rightarrow> u64" where
  "aa25AckDeadline e = (let allowance = AA25TickHz (aa25Config e) div 5 in
     if - 1 - allowance < aa25AckSince e then - 1 else aa25AckSince e + allowance)"

definition pinned_len :: "'w AA25Engine \<Rightarrow> u64" where
  "pinned_len e = ucast (aa25WireLen (aa25Pinned e))"

definition AA25NextDeadlineTick :: "'w AA25Engine \<Rightarrow> u64" where
  "AA25NextDeadlineTick e =
     (let next = aa25NextDeadline e in
      if aa25TXState e = aa25TXIdle then next
      else if aa25TXState e = aa25TXAwaitAck then
        (if aa25AckDeadline e < next then aa25AckDeadline e else next)
      else
        let len = pinned_len e;
            next = (if aa25TXBit e < len * aa25BitsPerCharacter \<or> aa25EchoIndex e = len then
                      (let candidate = aa25TXDeadline (aa25TXBit e) e in if candidate < next then candidate else next)
                    else next);
            next = (if aa25TXState e = aa25TXActive \<and> aa25EchoIndex e < len then
                      (let candidate = aa25EchoDeadline e in if candidate < next then candidate else next)
                    else next)
        in next)"

subsection \<open>Ending a response\<close>

definition aa25AbortTX :: "u64 \<Rightarrow> 'w AA25Engine \<Rightarrow> 'w AA25Engine" where
  "aa25AbortTX now e =
     (if aa25TXState e = aa25TXIdle then e
      else let e = e\<lparr>aa25TXState := aa25TXIdle, aa25PinnedValid := False\<rparr>
           in if aa25TXLevel e = AA25LevelLow then
                let e = call_edge AA25LevelHigh e;
                    e = e\<lparr>aa25TXLevel := AA25LevelHigh,
                          aa25Stats := (aa25Stats e)\<lparr>AA25TXEdges := AA25TXEdges (aa25Stats e) + 1\<rparr>\<rparr>
                in aa25Publish ((event_literal AA25EventTXRelease now)\<lparr>AA25EventLevel := AA25LevelHigh\<rparr>) e
              else e)"

definition aa25DropFrame :: "'w AA25Engine \<Rightarrow> 'w AA25Engine" where
  "aa25DropFrame e = e\<lparr>aa25FramePhase := aa25PhaseUnsynced, aa25EscapePending := False,
     aa25PinnedValid := aa25TXState e \<noteq> aa25TXIdle\<rparr>"

definition aa25StartFrame :: "'w AA25Engine \<Rightarrow> 'w AA25Engine" where
  "aa25StartFrame e = e\<lparr>aa25FramePhase := aa25PhaseSource, aa25EscapePending := False, aa25FrameCRC := 0,
     aa25PinnedValid := aa25TXState e \<noteq> aa25TXIdle\<rparr>"

definition aa25InvalidateReception :: "u64 \<Rightarrow> 'w AA25Engine \<Rightarrow> 'w AA25Engine" where
  "aa25InvalidateReception now e =
     (aa25DropFrame (aa25AbortTX now e))\<lparr>aa25RXState := aa25RXResync, aa25IdleRun := 0, aa25FinalComplete := False\<rparr>"

definition aa25WithdrawAdmission :: "'w AA25Engine \<Rightarrow> 'w AA25Engine" where
  "aa25WithdrawAdmission e = e\<lparr>aa25SlotValid := False, aa25PinnedValid := False,
     aa25Stats := (aa25Stats e)\<lparr>AA25Withdrawals := AA25Withdrawals (aa25Stats e) + 1\<rparr>\<rparr>"

definition aa25FailResponse :: "AA25Fault \<Rightarrow> u64 \<Rightarrow> 'w AA25Engine \<Rightarrow> 'w AA25Engine" where
  "aa25FailResponse fault now e =
     aa25WithdrawAdmission (aa25InvalidateReception now (aa25PublishFault fault now e))"

definition aa25CompleteTX :: "u64 \<Rightarrow> 'w AA25Engine \<Rightarrow> 'w AA25Engine" where
  "aa25CompleteTX now e =
     (aa25Publish ((event_literal AA25EventTXComplete now)
        \<lparr>AA25EventGeneration := AA25Generation (aa25Pinned e)\<rparr>) e)
     \<lparr>aa25TXState := aa25TXAwaitAck, aa25AckSince := now\<rparr>"

subsection \<open>Frames\<close>

definition aa25AdmitResponse :: "u64 \<Rightarrow> 'w AA25Engine \<Rightarrow> 'w AA25Engine" where
  "aa25AdmitResponse now e =
     (if \<not> aa25PinnedValid e then e
      else if aa25FramePB e \<noteq> AA25MatchPB (aa25Pinned e) \<or> aa25FrameSB e \<noteq> AA25MatchSB (aa25Pinned e) \<or>
              aa25FrameNN e \<noteq> AA25MatchNN (aa25Pinned e) then e\<lparr>aa25PinnedValid := False\<rparr>
      else if \<not> aa25ScheduleFits (aa25ReserveTicks e) (aa25CharStartTick e) then
        aa25PublishFault AA25FaultTXLate now (e\<lparr>aa25PinnedValid := False\<rparr>)
      else let e = e\<lparr>aa25TXState := aa25TXWaiting, aa25TXAnchor := aa25CharStartTick e, aa25TXBit := 0,
                     aa25TXBase := 0, aa25TXRetried := False, aa25RetryCancel := False, aa25EchoIndex := 0\<rparr>
           in aa25Publish ((event_literal AA25EventAdmitted now)\<lparr>AA25Deadline := aa25TXDeadline 0 e,
                AA25EventGeneration := AA25Generation (aa25Pinned e)\<rparr>) e)"

definition aa25DeliverLogical :: "byte \<Rightarrow> bool \<Rightarrow> u64 \<Rightarrow> 'w AA25Engine \<Rightarrow> 'w AA25Engine" where
  "aa25DeliverLogical b wasEscaped now e0 =
     (let e = aa25Publish ((event_literal AA25EventLogicalByte now)\<lparr>AA25SampleIndex := aa25CharStartIndex e0,
                AA25StartTick := aa25CharStartTick e0, AA25Logical := b, AA25WasEscaped := wasEscaped,
                AA25Echo := aa25CharEcho e0\<rparr>) e0
      in case aa25FramePhase e of
        aa25PhaseSource \<Rightarrow>
          if wasEscaped then aa25DropFrame (aa25PublishFault AA25FaultAddressInvalid now e)
          else e\<lparr>aa25FrameSource := b, aa25FramePhase := aa25PhaseTarget\<rparr>
      | aa25PhaseTarget \<Rightarrow>
          if wasEscaped then aa25DropFrame (aa25PublishFault AA25FaultAddressInvalid now e)
          else let e = e\<lparr>aa25FramePhase := aa25PhasePB\<rparr> in
            if b = AA25ResponderAddress (aa25Config e) \<and> \<not> aa25InitiatorAddress (aa25FrameSource e)
            then aa25DropFrame (aa25PublishFault AA25FaultAddressInvalid now e)
            else if b = AA25ResponderAddress (aa25Config e) \<and> aa25SlotValid e
            then let e = e\<lparr>aa25Pinned := aa25Slot e, aa25PinnedValid := True\<rparr>
                 in aa25Publish ((event_literal AA25EventProvisional now)
                      \<lparr>AA25EventGeneration := AA25Generation (aa25Pinned e)\<rparr>) e
            else e
      | aa25PhasePB \<Rightarrow> e\<lparr>aa25FramePB := b, aa25FramePhase := aa25PhaseSB\<rparr>
      | aa25PhaseSB \<Rightarrow> e\<lparr>aa25FrameSB := b, aa25FramePhase := aa25PhaseNN\<rparr>
      | aa25PhaseNN \<Rightarrow>
          if aa25MaxRequestNN < b then aa25DropFrame (aa25PublishFault AA25FaultLengthInvalid now e)
          else e\<lparr>aa25FrameNN := b, aa25FrameLeft := b,
                 aa25FramePhase := (if b = 0 then aa25PhaseCRC else aa25PhaseData)\<rparr>
      | aa25PhaseData \<Rightarrow>
          let e = e\<lparr>aa25FrameLeft := aa25FrameLeft e - 1\<rparr>
          in if aa25FrameLeft e = 0 then e\<lparr>aa25FramePhase := aa25PhaseCRC\<rparr> else e
      | aa25PhaseCRC \<Rightarrow>
          let e = e\<lparr>aa25FramePhase := aa25PhaseTrailing\<rparr>
          in if b \<noteq> aa25FrameCRC e
             then (aa25PublishFault AA25FaultBadCRC now e)\<lparr>aa25PinnedValid := False\<rparr>
             else aa25AdmitResponse now (aa25Publish (event_literal AA25EventFrameValid now) e)
      | aa25PhaseUnsynced \<Rightarrow> e
      | aa25PhaseTrailing \<Rightarrow> e)"

definition crc_feed :: "byte \<Rightarrow> 'w AA25Engine \<Rightarrow> 'w AA25Engine" where
  "crc_feed symbol e = (if aa25FramePhase e \<noteq> aa25PhaseCRC
     then e\<lparr>aa25FrameCRC := aa25CRCUpdate (aa25FrameCRC e) symbol\<rparr> else e)"

definition aa25FeedFrame :: "byte \<Rightarrow> u64 \<Rightarrow> 'w AA25Engine \<Rightarrow> 'w AA25Engine" where
  "aa25FeedFrame symbol now e =
     (let phase = aa25FramePhase e in
      if phase = aa25PhaseUnsynced then (if symbol = aa25SymbolSyn then aa25StartFrame e else e)
      else if aa25EscapePending e then
        let e = e\<lparr>aa25EscapePending := False\<rparr> in
        if symbol = aa25EscapedEscape then aa25DeliverLogical aa25SymbolEscape True now (crc_feed symbol e)
        else if symbol = aa25EscapedSyn then aa25DeliverLogical aa25SymbolSyn True now (crc_feed symbol e)
        else let e = aa25DropFrame (aa25AbortTX now (aa25PublishFault AA25FaultEscapeInvalid now e))
             in if symbol = aa25SymbolSyn then aa25StartFrame e else e
      else if symbol = aa25SymbolSyn then
        aa25StartFrame (if phase \<noteq> aa25PhaseSource \<and> phase \<noteq> aa25PhaseTrailing
                        then aa25PublishFault AA25FaultSynInFrame now e else e)
      else if symbol = aa25SymbolEscape then crc_feed symbol (e\<lparr>aa25EscapePending := True\<rparr>)
      else aa25DeliverLogical symbol False now (crc_feed symbol e))"

definition aa25HandleFinalAck :: "byte \<Rightarrow> u64 \<Rightarrow> 'w AA25Engine \<Rightarrow> 'w AA25Engine" where
  "aa25HandleFinalAck symbol now e =
     (let expired = aa25AckDeadline e \<le> now;
          e = e\<lparr>aa25TXState := aa25TXIdle, aa25PinnedValid := False\<rparr>
      in if symbol \<noteq> aa25SymbolNack \<or> expired then e
         else if aa25RetryCancel e then e
         else if aa25TXRetried e then aa25PublishFault AA25FaultNackExhausted now e
         else if \<not> aa25ScheduleFits (aa25ReserveTicks e) (aa25CharStartTick e)
         then aa25PublishFault AA25FaultTXLate now e
         else e\<lparr>aa25TXRetried := True, aa25PinnedValid := True, aa25TXState := aa25TXWaiting,
                aa25TXAnchor := aa25CharStartTick e, aa25TXBase := aa25BitsPerCharacter,
                aa25TXBit := aa25BitsPerCharacter, aa25EchoIndex := 1\<rparr>)"

definition aa25CompleteSymbol :: "u64 \<Rightarrow> u64 \<Rightarrow> 'w AA25Engine \<Rightarrow> 'w AA25Engine" where
  "aa25CompleteSymbol i now e =
     (let symbol = aa25CharShift e; echo = aa25CharEcho e;
          e = (if echo \<and> aa25TXState e = aa25TXActive then
                 e\<lparr>aa25EchoIndex := aa25EchoIndex e + 1,
                   aa25Stats := (aa25Stats e)\<lparr>AA25EchoedSymbols := AA25EchoedSymbols (aa25Stats e) + 1\<rparr>\<rparr>
               else e);
          e = aa25Publish ((event_literal AA25EventRawSymbol now)\<lparr>AA25SampleIndex := i,
                AA25StartTick := aa25CharStartTick e, AA25Raw := symbol, AA25Echo := echo,
                AA25Dissent := aa25CharDissent e, AA25EdgePhase := aa25CharEdgePhase e\<rparr>) e;
          e = (if aa25TXState e = aa25TXAwaitAck then aa25HandleFinalAck symbol now e else e)
      in aa25FeedFrame symbol now e)"

subsection \<open>Characters\<close>

definition aa25FailCharacter :: "AA25Fault \<Rightarrow> u64 \<Rightarrow> 'w AA25Engine \<Rightarrow> 'w AA25Engine" where
  "aa25FailCharacter fault now e =
     (let e = aa25PublishFault fault now e in
      if aa25CharEcho e \<and> aa25TXState e = aa25TXActive then aa25FailResponse AA25FaultEchoMismatch now e
      else aa25DropFrame (aa25AbortTX now e))"

definition aa25BeginCharacter :: "u64 \<Rightarrow> u64 \<Rightarrow> 'w AA25Engine \<Rightarrow> 'w AA25Engine" where
  "aa25BeginCharacter i now e =
     (let e = e\<lparr>aa25RXState := aa25RXCharacter, aa25CharStartIndex := i, aa25CharStartTick := now,
                aa25CharLevel := AA25LevelLow, aa25CharHighVotes := 0, aa25CharDissent := 0, aa25CharShift := 0,
                aa25CharEdgePhase := replicate 10 0, aa25FinalComplete := False\<rparr>;
          e = (if aa25TXState e = aa25TXActive \<and> aa25TXBit e = pinned_len e * aa25BitsPerCharacter \<and>
                  aa25EchoIndex e = pinned_len e \<and> aa25TXDeadline (aa25TXBit e) e \<le> now
               then aa25CompleteTX now e else e);
          e = e\<lparr>aa25CharEcho := aa25TXState e = aa25TXActive\<rparr>
      in case aa25TXState e of
           aa25TXWaiting \<Rightarrow>
             aa25WithdrawAdmission (aa25DropFrame (aa25AbortTX now (aa25PublishFault AA25FaultRXBeforeResponse now e)))
         | aa25TXActive \<Rightarrow>
             if (aa25TXBit e + aa25BitsPerCharacter - 1) div aa25BitsPerCharacter \<le> aa25EchoIndex e
             then aa25FailResponse AA25FaultEchoUnsolicited now e else e
         | aa25TXIdle \<Rightarrow> e
         | aa25TXAwaitAck \<Rightarrow> e)"

definition wire_bit :: "byte \<Rightarrow> u64 \<Rightarrow> bool" where
  "wire_bit symbol n \<longleftrightarrow> drop_bit (unat n) symbol AND 1 = 1"

definition aa25ObserveCharacter :: "AA25Level \<Rightarrow> u64 \<Rightarrow> u64 \<Rightarrow> 'w AA25Engine \<Rightarrow> 'w AA25Engine" where
  "aa25ObserveCharacter level i now e =
     (let offset = i - aa25CharStartIndex e;
          position = offset mod aa25SamplesPerBit;
          e = (if level \<noteq> aa25CharLevel e then
                 e\<lparr>aa25CharLevel := level,
                   aa25CharEdgePhase := (let phases = aa25CharEdgePhase e; k = unat position in
                     if phases ! k \<noteq> 255 then phases[k := phases ! k + 1] else phases)\<rparr>
               else e)
      in if position < aa25CentralFirst \<or> aa25CentralLast < position then e
         else let e = (if level = AA25LevelHigh then e\<lparr>aa25CharHighVotes := aa25CharHighVotes e + 1\<rparr> else e)
         in if position \<noteq> aa25CentralLast then e
         else let votes = aa25CharHighVotes e;
                  high = (2 \<le> votes);
                  e = e\<lparr>aa25CharHighVotes := 0,
                        aa25CharDissent := aa25CharDissent e + (if high then 3 - votes else votes)\<rparr>;
                  n = offset div aa25SamplesPerBit
         in if n = 0 then
              (if high then aa25FailCharacter AA25FaultFalseStart now (e\<lparr>aa25RXState := aa25RXHunt\<rparr>) else e)
            else if n < aa25BitsPerCharacter - 1 then
              let e = (if high then e\<lparr>aa25CharShift := aa25CharShift e OR push_bit (unat (n - 1)) 1\<rparr> else e)
              in if aa25CharEcho e \<and> aa25TXState e = aa25TXActive then
                   (if wire_bit (aa25Wire (aa25Pinned e) ! unat (aa25EchoIndex e)) (n - 1) \<noteq> high
                    then aa25FailResponse AA25FaultEchoMismatch now e else e)
                 else e
            else if \<not> high then
              aa25FailCharacter AA25FaultBadStop now (e\<lparr>aa25RXState := aa25RXResync, aa25IdleRun := 0\<rparr>)
            else aa25CompleteSymbol i now (e\<lparr>aa25RXState := aa25RXStopTail\<rparr>))"

definition aa25Observe :: "AA25Level \<Rightarrow> u64 \<Rightarrow> u64 \<Rightarrow> 'w AA25Engine \<Rightarrow> 'w AA25Engine" where
  "aa25Observe level i now e =
     (case aa25RXState e of
        aa25RXResync \<Rightarrow>
          if level = AA25LevelHigh then
            let e = e\<lparr>aa25IdleRun := aa25IdleRun e + 1\<rparr>
            in if aa25ResyncIdleSamples \<le> aa25IdleRun e then e\<lparr>aa25RXState := aa25RXHunt\<rparr> else e
          else e\<lparr>aa25IdleRun := 0\<rparr>
      | aa25RXHunt \<Rightarrow>
          if level = AA25LevelLow \<and> aa25PreviousLevel e = AA25LevelHigh then aa25BeginCharacter i now e else e
      | aa25RXCharacter \<Rightarrow> aa25ObserveCharacter level i now e
      | aa25RXStopTail \<Rightarrow>
          if level = AA25LevelLow then aa25BeginCharacter i now e
          else if aa25FinalOffset \<le> i - aa25CharStartIndex e
          then e\<lparr>aa25FinalComplete := True, aa25RXState := aa25RXHunt\<rparr> else e)
     \<lparr>aa25PreviousLevel := level\<rparr>"

subsection \<open>One pass\<close>

definition aa25StepRX :: "u64 \<Rightarrow> 'w AA25Engine \<Rightarrow> 'w AA25Engine" where
  "aa25StepRX now e =
     (if now < aa25NextDeadline e then e
      else let i = fst (aa25RationalAt (now - aa25SampleAnchor e) AA25NominalSampleRate (AA25TickHz (aa25Config e)));
               missed = i - aa25NextSample e;
               e = (if 0 < missed then
                      let e = e\<lparr>aa25Stats := (aa25Stats e)\<lparr>AA25MissedSamples := AA25MissedSamples (aa25Stats e) + missed\<rparr>\<rparr>
                      in aa25WithdrawAdmission (aa25InvalidateReception now (aa25Publish
                           ((event_literal AA25EventGap now)\<lparr>AA25SampleIndex := aa25NextSample e,
                              AA25Missed := missed\<rparr>) e))
                    else e);
               (level, e) = call_sample e;
               late = now - aa25SampleDeadline i e;
               e = e\<lparr>aa25Stats := (aa25Stats e)\<lparr>AA25Observations := AA25Observations (aa25Stats e) + 1,
                      AA25MaxObservationLate := (if AA25MaxObservationLate (aa25Stats e) < late then late
                        else AA25MaxObservationLate (aa25Stats e))\<rparr>,
                     aa25NextSample := i + 1,
                     aa25NextDeadline := aa25SampleDeadline (i + 1) e\<rparr>
           in aa25Observe level i now e)"

definition aa25TXBitLevel :: "u64 \<Rightarrow> 'w AA25Engine \<Rightarrow> AA25Level" where
  "aa25TXBitLevel n e =
     (let position = n mod aa25BitsPerCharacter in
      if position = 0 then AA25LevelLow
      else if position = aa25BitsPerCharacter - 1 then AA25LevelHigh
      else if wire_bit (aa25Wire (aa25Pinned e) ! unat (n div aa25BitsPerCharacter)) (position - 1)
      then AA25LevelHigh else AA25LevelLow)"

definition aa25DriveEdge :: "AA25Level \<Rightarrow> u64 \<Rightarrow> u64 \<Rightarrow> 'w AA25Engine \<Rightarrow> 'w AA25Engine" where
  "aa25DriveEdge level deadline now e =
     (let e = call_edge level e;
          e = e\<lparr>aa25TXLevel := level, aa25Stats := (aa25Stats e)\<lparr>AA25TXEdges := AA25TXEdges (aa25Stats e) + 1\<rparr>\<rparr>
      in aa25Publish ((event_literal AA25EventTXIntent now)\<lparr>AA25Deadline := deadline, AA25EventLevel := level,
           AA25EventGeneration := AA25Generation (aa25Pinned e)\<rparr>) e)"

definition transmit :: "u64 \<Rightarrow> 'w AA25Engine \<Rightarrow> 'w AA25Engine" where
  "transmit now e =
     (let len = pinned_len e; count = len * aa25BitsPerCharacter in
      if aa25EchoIndex e < len \<and> aa25EchoDeadline e \<le> now then aa25FailResponse AA25FaultEchoMissing now e
      else if aa25TXBit e < count then
        let deadline = aa25TXDeadline (aa25TXBit e) e in
        if now < deadline then e
        else let level = aa25TXBitLevel (aa25TXBit e) e in
          if level \<noteq> aa25TXLevel e then
            (if deadline + AA25TXLateToleranceTicks (aa25Config e) < now then aa25FailResponse AA25FaultTXLate now e
             else let e = aa25DriveEdge level deadline now e in e\<lparr>aa25TXBit := aa25TXBit e + 1\<rparr>)
          else e\<lparr>aa25TXBit := aa25TXBit e + 1\<rparr>
      else if aa25EchoIndex e = len \<and> aa25TXDeadline count e \<le> now then aa25CompleteTX now e
      else e)"

definition aa25StepTX :: "u64 \<Rightarrow> 'w AA25Engine \<Rightarrow> 'w AA25Engine" where
  "aa25StepTX now e =
     (case aa25TXState e of
        aa25TXIdle \<Rightarrow> e
      | aa25TXAwaitAck \<Rightarrow> if aa25AckDeadline e \<le> now then aa25AbortTX now e else e
      | aa25TXWaiting \<Rightarrow>
          if \<not> aa25FinalComplete e \<or> now < aa25TXDeadline (aa25TXBase e) e then e
          else transmit now (e\<lparr>aa25TXState := aa25TXActive\<rparr>)
      | aa25TXActive \<Rightarrow> transmit now e)"

definition aa25StepHousekeeping :: "u64 \<Rightarrow> 'w AA25Engine \<Rightarrow> 'w AA25Engine" where
  "aa25StepHousekeeping now e =
     (if aa25ControlCount e = 0 then e
      else let item = aa25Controls e ! unat (aa25ControlHead e);
               e = e\<lparr>aa25ControlHead := (aa25ControlHead e + 1) mod 4, aa25ControlCount := aa25ControlCount e - 1,
                     aa25Stats := (aa25Stats e)\<lparr>AA25ControlsApplied := AA25ControlsApplied (aa25Stats e) + 1\<rparr>\<rparr>
           in case item of
                aa25ControlZero \<Rightarrow> e
              | aa25ControlOffer p \<Rightarrow>
                  if aa25LossPending e then e
                  else if AA25Generation p \<le> aa25LastGeneration e
                  then aa25PublishFault AA25FaultStaleGeneration now e
                  else e\<lparr>aa25LastGeneration := AA25Generation p, aa25Slot := p, aa25SlotValid := True\<rparr>
              | aa25ControlWithdraw \<Rightarrow>
                  let e = e\<lparr>aa25SlotValid := False,
                            aa25Stats := (aa25Stats e)\<lparr>AA25Withdrawals := AA25Withdrawals (aa25Stats e) + 1\<rparr>\<rparr>;
                      e = (if aa25TXState e = aa25TXWaiting \<or> aa25TXState e = aa25TXAwaitAck
                           then aa25AbortTX now e else e);
                      e = e\<lparr>aa25RetryCancel := True\<rparr>
                  in if aa25TXState e = aa25TXIdle then e\<lparr>aa25PinnedValid := False\<rparr> else e)"

definition aa25ApplyLoss :: "u64 \<Rightarrow> 'w AA25Engine \<Rightarrow> 'w AA25Engine" where
  "aa25ApplyLoss now e =
     (if \<not> aa25LossPending e then e
      else let e = (if \<not> aa25LossApplied e
                    then aa25WithdrawAdmission (aa25InvalidateReception now (e\<lparr>aa25LossApplied := True\<rparr>)) else e);
               (taken, e) = call_publish ((event_literal AA25EventLoss now)
                  \<lparr>AA25Missed := AA25EventsDropped (aa25Stats e)\<rparr>) e
           in if taken then e\<lparr>aa25LossPending := False, aa25LossApplied := False\<rparr> else e)"

definition AA25Step :: "'w AA25Engine \<Rightarrow> 'w AA25Engine" where
  "AA25Step e =
     (let (now, e) = call_ticks e in
      if now < aa25LastNow e then
        let e = (if \<not> aa25TickRegressing e
                 then aa25WithdrawAdmission (aa25InvalidateReception now
                        (aa25PublishFault AA25FaultTickRegression now (e\<lparr>aa25TickRegressing := True\<rparr>)))
                 else e)
        in aa25ApplyLoss now e
      else let e = e\<lparr>aa25TickRegressing := False, aa25LastNow := now\<rparr>;
               e = aa25StepRX now e;
               e = aa25ApplyLoss now e;
               e = aa25StepTX now e;
               e = aa25ApplyLoss now e
           in aa25StepHousekeeping now e)"

end
