(* ===== verification/Sample_Frame.thy ===== *)
theory Sample_Frame
  imports Sample_Engine
begin

text \<open>
  What the helper operations of the sampling engine leave alone.  Publishing an event, writing an edge and
  aborting a response are called from everywhere, so the fields they keep are simplification rules.
\<close>

section \<open>Fields kept\<close>

lemma call_edge_frame [simp]:
  "aa25Config (call_edge level e) = aa25Config e"
  "aa25Ports (call_edge level e) = aa25Ports e"
  "aa25Stats (call_edge level e) = aa25Stats e"
  "aa25ReserveTicks (call_edge level e) = aa25ReserveTicks e"
  "aa25SampleAnchor (call_edge level e) = aa25SampleAnchor e"
  "aa25NextSample (call_edge level e) = aa25NextSample e"
  "aa25NextDeadline (call_edge level e) = aa25NextDeadline e"
  "aa25LastNow (call_edge level e) = aa25LastNow e"
  "aa25TickRegressing (call_edge level e) = aa25TickRegressing e"
  "aa25RXState (call_edge level e) = aa25RXState e"
  "aa25PreviousLevel (call_edge level e) = aa25PreviousLevel e"
  "aa25IdleRun (call_edge level e) = aa25IdleRun e"
  "aa25CharStartIndex (call_edge level e) = aa25CharStartIndex e"
  "aa25CharStartTick (call_edge level e) = aa25CharStartTick e"
  "aa25CharEcho (call_edge level e) = aa25CharEcho e"
  "aa25CharLevel (call_edge level e) = aa25CharLevel e"
  "aa25CharHighVotes (call_edge level e) = aa25CharHighVotes e"
  "aa25CharDissent (call_edge level e) = aa25CharDissent e"
  "aa25CharShift (call_edge level e) = aa25CharShift e"
  "aa25CharEdgePhase (call_edge level e) = aa25CharEdgePhase e"
  "aa25FinalComplete (call_edge level e) = aa25FinalComplete e"
  "aa25FramePhase (call_edge level e) = aa25FramePhase e"
  "aa25EscapePending (call_edge level e) = aa25EscapePending e"
  "aa25FrameCRC (call_edge level e) = aa25FrameCRC e"
  "aa25FrameSource (call_edge level e) = aa25FrameSource e"
  "aa25FramePB (call_edge level e) = aa25FramePB e"
  "aa25FrameSB (call_edge level e) = aa25FrameSB e"
  "aa25FrameNN (call_edge level e) = aa25FrameNN e"
  "aa25FrameLeft (call_edge level e) = aa25FrameLeft e"
  "aa25Slot (call_edge level e) = aa25Slot e"
  "aa25SlotValid (call_edge level e) = aa25SlotValid e"
  "aa25Pinned (call_edge level e) = aa25Pinned e"
  "aa25PinnedValid (call_edge level e) = aa25PinnedValid e"
  "aa25LastGeneration (call_edge level e) = aa25LastGeneration e"
  "aa25TXState (call_edge level e) = aa25TXState e"
  "aa25TXAnchor (call_edge level e) = aa25TXAnchor e"
  "aa25TXBit (call_edge level e) = aa25TXBit e"
  "aa25TXBase (call_edge level e) = aa25TXBase e"
  "aa25TXRetried (call_edge level e) = aa25TXRetried e"
  "aa25RetryCancel (call_edge level e) = aa25RetryCancel e"
  "aa25AckSince (call_edge level e) = aa25AckSince e"
  "aa25TXLevel (call_edge level e) = aa25TXLevel e"
  "aa25EchoIndex (call_edge level e) = aa25EchoIndex e"
  "aa25LossPending (call_edge level e) = aa25LossPending e"
  "aa25LossApplied (call_edge level e) = aa25LossApplied e"
  "aa25Controls (call_edge level e) = aa25Controls e"
  "aa25ControlHead (call_edge level e) = aa25ControlHead e"
  "aa25ControlCount (call_edge level e) = aa25ControlCount e"
  by (simp_all add: call_edge_def)

lemma call_publish_frame [simp]:
  "aa25Config (snd (call_publish ev e)) = aa25Config e"
  "aa25Ports (snd (call_publish ev e)) = aa25Ports e"
  "aa25Stats (snd (call_publish ev e)) = aa25Stats e"
  "aa25ReserveTicks (snd (call_publish ev e)) = aa25ReserveTicks e"
  "aa25SampleAnchor (snd (call_publish ev e)) = aa25SampleAnchor e"
  "aa25NextSample (snd (call_publish ev e)) = aa25NextSample e"
  "aa25NextDeadline (snd (call_publish ev e)) = aa25NextDeadline e"
  "aa25LastNow (snd (call_publish ev e)) = aa25LastNow e"
  "aa25TickRegressing (snd (call_publish ev e)) = aa25TickRegressing e"
  "aa25RXState (snd (call_publish ev e)) = aa25RXState e"
  "aa25PreviousLevel (snd (call_publish ev e)) = aa25PreviousLevel e"
  "aa25IdleRun (snd (call_publish ev e)) = aa25IdleRun e"
  "aa25CharStartIndex (snd (call_publish ev e)) = aa25CharStartIndex e"
  "aa25CharStartTick (snd (call_publish ev e)) = aa25CharStartTick e"
  "aa25CharEcho (snd (call_publish ev e)) = aa25CharEcho e"
  "aa25CharLevel (snd (call_publish ev e)) = aa25CharLevel e"
  "aa25CharHighVotes (snd (call_publish ev e)) = aa25CharHighVotes e"
  "aa25CharDissent (snd (call_publish ev e)) = aa25CharDissent e"
  "aa25CharShift (snd (call_publish ev e)) = aa25CharShift e"
  "aa25CharEdgePhase (snd (call_publish ev e)) = aa25CharEdgePhase e"
  "aa25FinalComplete (snd (call_publish ev e)) = aa25FinalComplete e"
  "aa25FramePhase (snd (call_publish ev e)) = aa25FramePhase e"
  "aa25EscapePending (snd (call_publish ev e)) = aa25EscapePending e"
  "aa25FrameCRC (snd (call_publish ev e)) = aa25FrameCRC e"
  "aa25FrameSource (snd (call_publish ev e)) = aa25FrameSource e"
  "aa25FramePB (snd (call_publish ev e)) = aa25FramePB e"
  "aa25FrameSB (snd (call_publish ev e)) = aa25FrameSB e"
  "aa25FrameNN (snd (call_publish ev e)) = aa25FrameNN e"
  "aa25FrameLeft (snd (call_publish ev e)) = aa25FrameLeft e"
  "aa25Slot (snd (call_publish ev e)) = aa25Slot e"
  "aa25SlotValid (snd (call_publish ev e)) = aa25SlotValid e"
  "aa25Pinned (snd (call_publish ev e)) = aa25Pinned e"
  "aa25PinnedValid (snd (call_publish ev e)) = aa25PinnedValid e"
  "aa25LastGeneration (snd (call_publish ev e)) = aa25LastGeneration e"
  "aa25TXState (snd (call_publish ev e)) = aa25TXState e"
  "aa25TXAnchor (snd (call_publish ev e)) = aa25TXAnchor e"
  "aa25TXBit (snd (call_publish ev e)) = aa25TXBit e"
  "aa25TXBase (snd (call_publish ev e)) = aa25TXBase e"
  "aa25TXRetried (snd (call_publish ev e)) = aa25TXRetried e"
  "aa25RetryCancel (snd (call_publish ev e)) = aa25RetryCancel e"
  "aa25AckSince (snd (call_publish ev e)) = aa25AckSince e"
  "aa25TXLevel (snd (call_publish ev e)) = aa25TXLevel e"
  "aa25EchoIndex (snd (call_publish ev e)) = aa25EchoIndex e"
  "aa25LossPending (snd (call_publish ev e)) = aa25LossPending e"
  "aa25LossApplied (snd (call_publish ev e)) = aa25LossApplied e"
  "aa25Controls (snd (call_publish ev e)) = aa25Controls e"
  "aa25ControlHead (snd (call_publish ev e)) = aa25ControlHead e"
  "aa25ControlCount (snd (call_publish ev e)) = aa25ControlCount e"
  by (simp_all add: call_publish_def split_beta Let_def)

lemma call_sample_frame [simp]:
  "aa25Config (snd (call_sample e)) = aa25Config e"
  "aa25Ports (snd (call_sample e)) = aa25Ports e"
  "aa25Stats (snd (call_sample e)) = aa25Stats e"
  "aa25ReserveTicks (snd (call_sample e)) = aa25ReserveTicks e"
  "aa25SampleAnchor (snd (call_sample e)) = aa25SampleAnchor e"
  "aa25NextSample (snd (call_sample e)) = aa25NextSample e"
  "aa25NextDeadline (snd (call_sample e)) = aa25NextDeadline e"
  "aa25LastNow (snd (call_sample e)) = aa25LastNow e"
  "aa25TickRegressing (snd (call_sample e)) = aa25TickRegressing e"
  "aa25RXState (snd (call_sample e)) = aa25RXState e"
  "aa25PreviousLevel (snd (call_sample e)) = aa25PreviousLevel e"
  "aa25IdleRun (snd (call_sample e)) = aa25IdleRun e"
  "aa25CharStartIndex (snd (call_sample e)) = aa25CharStartIndex e"
  "aa25CharStartTick (snd (call_sample e)) = aa25CharStartTick e"
  "aa25CharEcho (snd (call_sample e)) = aa25CharEcho e"
  "aa25CharLevel (snd (call_sample e)) = aa25CharLevel e"
  "aa25CharHighVotes (snd (call_sample e)) = aa25CharHighVotes e"
  "aa25CharDissent (snd (call_sample e)) = aa25CharDissent e"
  "aa25CharShift (snd (call_sample e)) = aa25CharShift e"
  "aa25CharEdgePhase (snd (call_sample e)) = aa25CharEdgePhase e"
  "aa25FinalComplete (snd (call_sample e)) = aa25FinalComplete e"
  "aa25FramePhase (snd (call_sample e)) = aa25FramePhase e"
  "aa25EscapePending (snd (call_sample e)) = aa25EscapePending e"
  "aa25FrameCRC (snd (call_sample e)) = aa25FrameCRC e"
  "aa25FrameSource (snd (call_sample e)) = aa25FrameSource e"
  "aa25FramePB (snd (call_sample e)) = aa25FramePB e"
  "aa25FrameSB (snd (call_sample e)) = aa25FrameSB e"
  "aa25FrameNN (snd (call_sample e)) = aa25FrameNN e"
  "aa25FrameLeft (snd (call_sample e)) = aa25FrameLeft e"
  "aa25Slot (snd (call_sample e)) = aa25Slot e"
  "aa25SlotValid (snd (call_sample e)) = aa25SlotValid e"
  "aa25Pinned (snd (call_sample e)) = aa25Pinned e"
  "aa25PinnedValid (snd (call_sample e)) = aa25PinnedValid e"
  "aa25LastGeneration (snd (call_sample e)) = aa25LastGeneration e"
  "aa25TXState (snd (call_sample e)) = aa25TXState e"
  "aa25TXAnchor (snd (call_sample e)) = aa25TXAnchor e"
  "aa25TXBit (snd (call_sample e)) = aa25TXBit e"
  "aa25TXBase (snd (call_sample e)) = aa25TXBase e"
  "aa25TXRetried (snd (call_sample e)) = aa25TXRetried e"
  "aa25RetryCancel (snd (call_sample e)) = aa25RetryCancel e"
  "aa25AckSince (snd (call_sample e)) = aa25AckSince e"
  "aa25TXLevel (snd (call_sample e)) = aa25TXLevel e"
  "aa25EchoIndex (snd (call_sample e)) = aa25EchoIndex e"
  "aa25LossPending (snd (call_sample e)) = aa25LossPending e"
  "aa25LossApplied (snd (call_sample e)) = aa25LossApplied e"
  "aa25Controls (snd (call_sample e)) = aa25Controls e"
  "aa25ControlHead (snd (call_sample e)) = aa25ControlHead e"
  "aa25ControlCount (snd (call_sample e)) = aa25ControlCount e"
  by (simp_all add: call_sample_def split_beta Let_def)

lemma call_ticks_frame [simp]:
  "aa25Config (snd (call_ticks e)) = aa25Config e"
  "aa25Ports (snd (call_ticks e)) = aa25Ports e"
  "aa25Stats (snd (call_ticks e)) = aa25Stats e"
  "aa25ReserveTicks (snd (call_ticks e)) = aa25ReserveTicks e"
  "aa25SampleAnchor (snd (call_ticks e)) = aa25SampleAnchor e"
  "aa25NextSample (snd (call_ticks e)) = aa25NextSample e"
  "aa25NextDeadline (snd (call_ticks e)) = aa25NextDeadline e"
  "aa25LastNow (snd (call_ticks e)) = aa25LastNow e"
  "aa25TickRegressing (snd (call_ticks e)) = aa25TickRegressing e"
  "aa25RXState (snd (call_ticks e)) = aa25RXState e"
  "aa25PreviousLevel (snd (call_ticks e)) = aa25PreviousLevel e"
  "aa25IdleRun (snd (call_ticks e)) = aa25IdleRun e"
  "aa25CharStartIndex (snd (call_ticks e)) = aa25CharStartIndex e"
  "aa25CharStartTick (snd (call_ticks e)) = aa25CharStartTick e"
  "aa25CharEcho (snd (call_ticks e)) = aa25CharEcho e"
  "aa25CharLevel (snd (call_ticks e)) = aa25CharLevel e"
  "aa25CharHighVotes (snd (call_ticks e)) = aa25CharHighVotes e"
  "aa25CharDissent (snd (call_ticks e)) = aa25CharDissent e"
  "aa25CharShift (snd (call_ticks e)) = aa25CharShift e"
  "aa25CharEdgePhase (snd (call_ticks e)) = aa25CharEdgePhase e"
  "aa25FinalComplete (snd (call_ticks e)) = aa25FinalComplete e"
  "aa25FramePhase (snd (call_ticks e)) = aa25FramePhase e"
  "aa25EscapePending (snd (call_ticks e)) = aa25EscapePending e"
  "aa25FrameCRC (snd (call_ticks e)) = aa25FrameCRC e"
  "aa25FrameSource (snd (call_ticks e)) = aa25FrameSource e"
  "aa25FramePB (snd (call_ticks e)) = aa25FramePB e"
  "aa25FrameSB (snd (call_ticks e)) = aa25FrameSB e"
  "aa25FrameNN (snd (call_ticks e)) = aa25FrameNN e"
  "aa25FrameLeft (snd (call_ticks e)) = aa25FrameLeft e"
  "aa25Slot (snd (call_ticks e)) = aa25Slot e"
  "aa25SlotValid (snd (call_ticks e)) = aa25SlotValid e"
  "aa25Pinned (snd (call_ticks e)) = aa25Pinned e"
  "aa25PinnedValid (snd (call_ticks e)) = aa25PinnedValid e"
  "aa25LastGeneration (snd (call_ticks e)) = aa25LastGeneration e"
  "aa25TXState (snd (call_ticks e)) = aa25TXState e"
  "aa25TXAnchor (snd (call_ticks e)) = aa25TXAnchor e"
  "aa25TXBit (snd (call_ticks e)) = aa25TXBit e"
  "aa25TXBase (snd (call_ticks e)) = aa25TXBase e"
  "aa25TXRetried (snd (call_ticks e)) = aa25TXRetried e"
  "aa25RetryCancel (snd (call_ticks e)) = aa25RetryCancel e"
  "aa25AckSince (snd (call_ticks e)) = aa25AckSince e"
  "aa25TXLevel (snd (call_ticks e)) = aa25TXLevel e"
  "aa25EchoIndex (snd (call_ticks e)) = aa25EchoIndex e"
  "aa25LossPending (snd (call_ticks e)) = aa25LossPending e"
  "aa25LossApplied (snd (call_ticks e)) = aa25LossApplied e"
  "aa25Controls (snd (call_ticks e)) = aa25Controls e"
  "aa25ControlHead (snd (call_ticks e)) = aa25ControlHead e"
  "aa25ControlCount (snd (call_ticks e)) = aa25ControlCount e"
  "trace (snd (call_ticks e)) = trace e"
  by (simp_all add: call_ticks_def split_beta Let_def)

lemma aa25Publish_frame [simp]:
  "aa25Config (aa25Publish ev e) = aa25Config e"
  "aa25Ports (aa25Publish ev e) = aa25Ports e"
  "aa25ReserveTicks (aa25Publish ev e) = aa25ReserveTicks e"
  "aa25SampleAnchor (aa25Publish ev e) = aa25SampleAnchor e"
  "aa25NextSample (aa25Publish ev e) = aa25NextSample e"
  "aa25NextDeadline (aa25Publish ev e) = aa25NextDeadline e"
  "aa25LastNow (aa25Publish ev e) = aa25LastNow e"
  "aa25TickRegressing (aa25Publish ev e) = aa25TickRegressing e"
  "aa25RXState (aa25Publish ev e) = aa25RXState e"
  "aa25PreviousLevel (aa25Publish ev e) = aa25PreviousLevel e"
  "aa25IdleRun (aa25Publish ev e) = aa25IdleRun e"
  "aa25CharStartIndex (aa25Publish ev e) = aa25CharStartIndex e"
  "aa25CharStartTick (aa25Publish ev e) = aa25CharStartTick e"
  "aa25CharEcho (aa25Publish ev e) = aa25CharEcho e"
  "aa25CharLevel (aa25Publish ev e) = aa25CharLevel e"
  "aa25CharHighVotes (aa25Publish ev e) = aa25CharHighVotes e"
  "aa25CharDissent (aa25Publish ev e) = aa25CharDissent e"
  "aa25CharShift (aa25Publish ev e) = aa25CharShift e"
  "aa25CharEdgePhase (aa25Publish ev e) = aa25CharEdgePhase e"
  "aa25FinalComplete (aa25Publish ev e) = aa25FinalComplete e"
  "aa25FramePhase (aa25Publish ev e) = aa25FramePhase e"
  "aa25EscapePending (aa25Publish ev e) = aa25EscapePending e"
  "aa25FrameCRC (aa25Publish ev e) = aa25FrameCRC e"
  "aa25FrameSource (aa25Publish ev e) = aa25FrameSource e"
  "aa25FramePB (aa25Publish ev e) = aa25FramePB e"
  "aa25FrameSB (aa25Publish ev e) = aa25FrameSB e"
  "aa25FrameNN (aa25Publish ev e) = aa25FrameNN e"
  "aa25FrameLeft (aa25Publish ev e) = aa25FrameLeft e"
  "aa25Slot (aa25Publish ev e) = aa25Slot e"
  "aa25SlotValid (aa25Publish ev e) = aa25SlotValid e"
  "aa25Pinned (aa25Publish ev e) = aa25Pinned e"
  "aa25PinnedValid (aa25Publish ev e) = aa25PinnedValid e"
  "aa25LastGeneration (aa25Publish ev e) = aa25LastGeneration e"
  "aa25TXState (aa25Publish ev e) = aa25TXState e"
  "aa25TXAnchor (aa25Publish ev e) = aa25TXAnchor e"
  "aa25TXBit (aa25Publish ev e) = aa25TXBit e"
  "aa25TXBase (aa25Publish ev e) = aa25TXBase e"
  "aa25TXRetried (aa25Publish ev e) = aa25TXRetried e"
  "aa25RetryCancel (aa25Publish ev e) = aa25RetryCancel e"
  "aa25AckSince (aa25Publish ev e) = aa25AckSince e"
  "aa25TXLevel (aa25Publish ev e) = aa25TXLevel e"
  "aa25EchoIndex (aa25Publish ev e) = aa25EchoIndex e"
  "aa25LossApplied (aa25Publish ev e) = aa25LossApplied e"
  "aa25Controls (aa25Publish ev e) = aa25Controls e"
  "aa25ControlHead (aa25Publish ev e) = aa25ControlHead e"
  "aa25ControlCount (aa25Publish ev e) = aa25ControlCount e"
  by (simp_all add: aa25Publish_def split_beta Let_def)

lemma aa25PublishFault_frame [simp]:
  "aa25Config (aa25PublishFault fault now e) = aa25Config e"
  "aa25Ports (aa25PublishFault fault now e) = aa25Ports e"
  "aa25ReserveTicks (aa25PublishFault fault now e) = aa25ReserveTicks e"
  "aa25SampleAnchor (aa25PublishFault fault now e) = aa25SampleAnchor e"
  "aa25NextSample (aa25PublishFault fault now e) = aa25NextSample e"
  "aa25NextDeadline (aa25PublishFault fault now e) = aa25NextDeadline e"
  "aa25LastNow (aa25PublishFault fault now e) = aa25LastNow e"
  "aa25TickRegressing (aa25PublishFault fault now e) = aa25TickRegressing e"
  "aa25RXState (aa25PublishFault fault now e) = aa25RXState e"
  "aa25PreviousLevel (aa25PublishFault fault now e) = aa25PreviousLevel e"
  "aa25IdleRun (aa25PublishFault fault now e) = aa25IdleRun e"
  "aa25CharStartIndex (aa25PublishFault fault now e) = aa25CharStartIndex e"
  "aa25CharStartTick (aa25PublishFault fault now e) = aa25CharStartTick e"
  "aa25CharEcho (aa25PublishFault fault now e) = aa25CharEcho e"
  "aa25CharLevel (aa25PublishFault fault now e) = aa25CharLevel e"
  "aa25CharHighVotes (aa25PublishFault fault now e) = aa25CharHighVotes e"
  "aa25CharDissent (aa25PublishFault fault now e) = aa25CharDissent e"
  "aa25CharShift (aa25PublishFault fault now e) = aa25CharShift e"
  "aa25CharEdgePhase (aa25PublishFault fault now e) = aa25CharEdgePhase e"
  "aa25FinalComplete (aa25PublishFault fault now e) = aa25FinalComplete e"
  "aa25FramePhase (aa25PublishFault fault now e) = aa25FramePhase e"
  "aa25EscapePending (aa25PublishFault fault now e) = aa25EscapePending e"
  "aa25FrameCRC (aa25PublishFault fault now e) = aa25FrameCRC e"
  "aa25FrameSource (aa25PublishFault fault now e) = aa25FrameSource e"
  "aa25FramePB (aa25PublishFault fault now e) = aa25FramePB e"
  "aa25FrameSB (aa25PublishFault fault now e) = aa25FrameSB e"
  "aa25FrameNN (aa25PublishFault fault now e) = aa25FrameNN e"
  "aa25FrameLeft (aa25PublishFault fault now e) = aa25FrameLeft e"
  "aa25Slot (aa25PublishFault fault now e) = aa25Slot e"
  "aa25SlotValid (aa25PublishFault fault now e) = aa25SlotValid e"
  "aa25Pinned (aa25PublishFault fault now e) = aa25Pinned e"
  "aa25PinnedValid (aa25PublishFault fault now e) = aa25PinnedValid e"
  "aa25LastGeneration (aa25PublishFault fault now e) = aa25LastGeneration e"
  "aa25TXState (aa25PublishFault fault now e) = aa25TXState e"
  "aa25TXAnchor (aa25PublishFault fault now e) = aa25TXAnchor e"
  "aa25TXBit (aa25PublishFault fault now e) = aa25TXBit e"
  "aa25TXBase (aa25PublishFault fault now e) = aa25TXBase e"
  "aa25TXRetried (aa25PublishFault fault now e) = aa25TXRetried e"
  "aa25RetryCancel (aa25PublishFault fault now e) = aa25RetryCancel e"
  "aa25AckSince (aa25PublishFault fault now e) = aa25AckSince e"
  "aa25TXLevel (aa25PublishFault fault now e) = aa25TXLevel e"
  "aa25EchoIndex (aa25PublishFault fault now e) = aa25EchoIndex e"
  "aa25LossApplied (aa25PublishFault fault now e) = aa25LossApplied e"
  "aa25Controls (aa25PublishFault fault now e) = aa25Controls e"
  "aa25ControlHead (aa25PublishFault fault now e) = aa25ControlHead e"
  "aa25ControlCount (aa25PublishFault fault now e) = aa25ControlCount e"
  by (simp_all add: aa25PublishFault_def)

lemma aa25AbortTX_frame [simp]:
  "aa25Config (aa25AbortTX now e) = aa25Config e"
  "aa25Ports (aa25AbortTX now e) = aa25Ports e"
  "aa25ReserveTicks (aa25AbortTX now e) = aa25ReserveTicks e"
  "aa25SampleAnchor (aa25AbortTX now e) = aa25SampleAnchor e"
  "aa25NextSample (aa25AbortTX now e) = aa25NextSample e"
  "aa25NextDeadline (aa25AbortTX now e) = aa25NextDeadline e"
  "aa25LastNow (aa25AbortTX now e) = aa25LastNow e"
  "aa25TickRegressing (aa25AbortTX now e) = aa25TickRegressing e"
  "aa25RXState (aa25AbortTX now e) = aa25RXState e"
  "aa25PreviousLevel (aa25AbortTX now e) = aa25PreviousLevel e"
  "aa25IdleRun (aa25AbortTX now e) = aa25IdleRun e"
  "aa25CharStartIndex (aa25AbortTX now e) = aa25CharStartIndex e"
  "aa25CharStartTick (aa25AbortTX now e) = aa25CharStartTick e"
  "aa25CharEcho (aa25AbortTX now e) = aa25CharEcho e"
  "aa25CharLevel (aa25AbortTX now e) = aa25CharLevel e"
  "aa25CharHighVotes (aa25AbortTX now e) = aa25CharHighVotes e"
  "aa25CharDissent (aa25AbortTX now e) = aa25CharDissent e"
  "aa25CharShift (aa25AbortTX now e) = aa25CharShift e"
  "aa25CharEdgePhase (aa25AbortTX now e) = aa25CharEdgePhase e"
  "aa25FinalComplete (aa25AbortTX now e) = aa25FinalComplete e"
  "aa25FramePhase (aa25AbortTX now e) = aa25FramePhase e"
  "aa25EscapePending (aa25AbortTX now e) = aa25EscapePending e"
  "aa25FrameCRC (aa25AbortTX now e) = aa25FrameCRC e"
  "aa25FrameSource (aa25AbortTX now e) = aa25FrameSource e"
  "aa25FramePB (aa25AbortTX now e) = aa25FramePB e"
  "aa25FrameSB (aa25AbortTX now e) = aa25FrameSB e"
  "aa25FrameNN (aa25AbortTX now e) = aa25FrameNN e"
  "aa25FrameLeft (aa25AbortTX now e) = aa25FrameLeft e"
  "aa25Slot (aa25AbortTX now e) = aa25Slot e"
  "aa25SlotValid (aa25AbortTX now e) = aa25SlotValid e"
  "aa25Pinned (aa25AbortTX now e) = aa25Pinned e"
  "aa25LastGeneration (aa25AbortTX now e) = aa25LastGeneration e"
  "aa25TXAnchor (aa25AbortTX now e) = aa25TXAnchor e"
  "aa25TXBit (aa25AbortTX now e) = aa25TXBit e"
  "aa25TXBase (aa25AbortTX now e) = aa25TXBase e"
  "aa25TXRetried (aa25AbortTX now e) = aa25TXRetried e"
  "aa25RetryCancel (aa25AbortTX now e) = aa25RetryCancel e"
  "aa25AckSince (aa25AbortTX now e) = aa25AckSince e"
  "aa25EchoIndex (aa25AbortTX now e) = aa25EchoIndex e"
  "aa25LossApplied (aa25AbortTX now e) = aa25LossApplied e"
  "aa25Controls (aa25AbortTX now e) = aa25Controls e"
  "aa25ControlHead (aa25AbortTX now e) = aa25ControlHead e"
  "aa25ControlCount (aa25AbortTX now e) = aa25ControlCount e"
  by (simp_all add: aa25AbortTX_def Let_def)

lemma aa25AbortTX_tx [simp]:
  "aa25TXState (aa25AbortTX now e) = aa25TXIdle"
  "aa25PinnedValid (aa25AbortTX now e) \<longleftrightarrow> aa25PinnedValid e \<and> aa25TXState e = aa25TXIdle"
  "aa25TXLevel (aa25AbortTX now e) = (if aa25TXState e = aa25TXIdle then aa25TXLevel e else AA25LevelHigh)"
  by (auto simp: aa25AbortTX_def Let_def intro: AA25Level.exhaust)

end
