(* ===== verification/Sample_Safety.thy ===== *)
theory Sample_Safety
  imports Sample_Frame
begin

text \<open>
  The invariant of the sampling engine: what the transmitter, the receiver and the recorded edges have to do
  with each other in every state between two observations.
\<close>

section \<open>The invariant\<close>

text \<open>What \<open>AA25PrepareResponse\<close> produces: at least an acknowledgement and one more symbol, inside the array, and
  never a raw SYN.\<close>

definition wf_prepared :: "AA25Prepared \<Rightarrow> bool" where
  "wf_prepared p \<longleftrightarrow> length (aa25Wire p) = aa25MaxPreparedWire \<and> 2 \<le> unat (aa25WireLen p) \<and>
     unat (aa25WireLen p) \<le> aa25MaxPreparedWire \<and> aa25SymbolSyn \<notin> set (take (unat (aa25WireLen p)) (aa25Wire p))"

text \<open>The level of bit \<open>n\<close> of a prepared response: start bit, eight data bits, stop bit per symbol.\<close>

definition bit_level :: "AA25Prepared \<Rightarrow> nat \<Rightarrow> AA25Level" where
  "bit_level p n = (if n mod 10 = 0 then AA25LevelLow else if n mod 10 = 9 then AA25LevelHigh
     else if bit (aa25Wire p ! (n div 10)) (n mod 10 - 1) then AA25LevelHigh else AA25LevelLow)"

definition drive_ok :: "'w AA25Engine \<Rightarrow> bool" where
  "drive_ok e \<longleftrightarrow> aa25TXBase e \<in> {0, 10} \<and> unat (aa25TXBase e) \<le> unat (aa25TXBit e) \<and>
     unat (aa25TXBit e) \<le> 10 * unat (aa25WireLen (aa25Pinned e)) \<and>
     10 * unat (aa25EchoIndex e) < unat (aa25TXBit e) + 10 \<and>
     aa25TXLevel e = (if aa25TXBit e = aa25TXBase e then AA25LevelHigh
       else bit_level (aa25Pinned e) (unat (aa25TXBit e) - 1))"

definition tx_ok :: "'w AA25Engine \<Rightarrow> bool" where
  "tx_ok e \<longleftrightarrow>
     (aa25SlotValid e \<longrightarrow> wf_prepared (aa25Slot e)) \<and> (aa25PinnedValid e \<longrightarrow> wf_prepared (aa25Pinned e)) \<and>
     (aa25TXState e \<noteq> aa25TXIdle \<longrightarrow> aa25PinnedValid e \<and> aa25FramePhase e = aa25PhaseTrailing) \<and>
     (aa25TXState e \<noteq> aa25TXActive \<longrightarrow> aa25TXLevel e = AA25LevelHigh) \<and>
     (aa25TXState e = aa25TXWaiting \<longrightarrow> aa25TXBase e \<in> {0, 10} \<and> aa25TXBit e = aa25TXBase e \<and>
        10 * unat (aa25EchoIndex e) = unat (aa25TXBase e)) \<and>
     (aa25TXState e = aa25TXActive \<longrightarrow> drive_ok e)"

text \<open>Data bits decided before the sample at offset \<open>k\<close> of a character: bit \<open>b\<close> is decided at offset
  \<open>10 b + 6\<close>.\<close>

definition bits_done :: "nat \<Rightarrow> nat" where
  "bits_done k = (k - 7) div 10"

text \<open>\<open>i\<close> is the index of the next sample.  A character in progress is read without a gap, is our own echo when
  a response is on the wire, and agrees with the symbol expected there so far.\<close>

definition echo_ok :: "'w AA25Engine \<Rightarrow> nat \<Rightarrow> bool" where
  "echo_ok e k \<longleftrightarrow> aa25CharEcho e \<and> 10 * unat (aa25EchoIndex e) < unat (aa25TXBit e) \<and>
     aa25CharShift e = take_bit (bits_done k) (aa25Wire (aa25Pinned e) ! unat (aa25EchoIndex e))"

definition char_ok :: "'w AA25Engine \<Rightarrow> u64 \<Rightarrow> bool" where
  "char_ok e i \<longleftrightarrow> length (aa25CharEdgePhase e) = 10 \<and>
     (aa25RXState e = aa25RXCharacter \<longrightarrow> \<not> aa25FinalComplete e \<and> aa25TXState e \<noteq> aa25TXWaiting \<and>
        1 \<le> unat (i - aa25CharStartIndex e) \<and> unat (i - aa25CharStartIndex e) \<le> 96 \<and>
        (aa25TXState e = aa25TXActive \<longrightarrow> echo_ok e (unat (i - aa25CharStartIndex e))))"

definition control_ok :: "'w AA25Engine \<Rightarrow> bool" where
  "control_ok e \<longleftrightarrow> length (aa25Controls e) = aa25ControlCapacity \<and> aa25ControlHead e < 4 \<and>
     aa25ControlCount e \<le> 4 \<and> (\<forall>p. aa25ControlOffer p \<in> set (aa25Controls e) \<longrightarrow> wf_prepared p)"

text \<open>The edges written so far, newest first, and the level they leave on the line.\<close>

fun edges :: "port_call list \<Rightarrow> AA25Level list" where
  "edges [] = []"
| "edges (WroteEdge l # t) = l # edges t"
| "edges (_ # t) = edges t"

definition line_level :: "AA25Level list \<Rightarrow> AA25Level" where
  "line_level es = (case es of [] \<Rightarrow> AA25LevelHigh | l # _ \<Rightarrow> l)"

fun alternating :: "AA25Level list \<Rightarrow> bool" where
  "alternating [] \<longleftrightarrow> True"
| "alternating (l # es) \<longleftrightarrow> l \<noteq> line_level es \<and> alternating es"

definition line_ok :: "'w AA25Engine \<Rightarrow> bool" where
  "line_ok e \<longleftrightarrow> line_level (edges (trace e)) = aa25TXLevel e \<and> alternating (edges (trace e))"

section \<open>Small facts\<close>

lemma level_cases [simp]: "l \<noteq> AA25LevelLow \<longleftrightarrow> l = AA25LevelHigh" "l \<noteq> AA25LevelHigh \<longleftrightarrow> l = AA25LevelLow"
  by (cases l; simp)+

lemma line_level_simps [simp]: "line_level [] = AA25LevelHigh" "line_level (l # es) = l"
  by (simp_all add: line_level_def)

lemma edges_ports [simp]:
  "edges (trace (call_edge level e)) = level # edges (trace e)"
  "edges (trace (snd (call_publish ev e))) = edges (trace e)"
  "edges (trace (snd (call_sample e))) = edges (trace e)"
  "trace (snd (call_ticks e)) = trace e"
  by (simp_all add: call_edge_def call_publish_def call_sample_def call_ticks_def split_beta Let_def)

lemma edges_publish [simp]:
  "edges (trace (aa25Publish ev e)) = edges (trace e)"
  "edges (trace (aa25PublishFault fault now e)) = edges (trace e)"
  by (simp_all add: aa25PublishFault_def aa25Publish_def split_beta Let_def)

lemma edges_AbortTX [simp]:
  "edges (trace (aa25AbortTX now e)) = (if aa25TXState e \<noteq> aa25TXIdle \<and> aa25TXLevel e = AA25LevelLow
     then [AA25LevelHigh] else []) @ edges (trace e)"
  by (simp add: aa25AbortTX_def Let_def)

lemma wire_bit_iff: "wire_bit symbol n \<longleftrightarrow> bit symbol (unat n)"
  by (simp add: wire_bit_def bit_iff_odd_drop_bit and_one_eq odd_iff_mod_2_eq_one)

lemma unat_small_ops:
  fixes x :: u64
  assumes "unat x < 2 ^ 32"
  shows "unat (x * 10) = 10 * unat x" "unat (x + 1) = unat x + 1" "unat (x + 10 - 1) = unat x + 9"
    "unat ((x + 10 - 1) div 10) = (unat x + 9) div 10"
proof -
  show "unat (x * 10) = 10 * unat x" "unat (x + 1) = unat x + 1"
    using assms by (simp_all add: unat_word_ariths)
  have "unat (9 + x) = 9 + unat x"
    using assms by (simp add: unat_word_ariths)
  then show "unat (x + 10 - 1) = unat x + 9"
    by simp
  then show "unat ((x + 10 - 1) div 10) = (unat x + 9) div 10"
    by (simp only: unat_div) simp
qed

lemma unat_pinned_len: "unat (pinned_len e) = unat (aa25WireLen (aa25Pinned e))"
proof -
  have "unat (aa25WireLen (aa25Pinned e)) < 2 ^ 64"
    by (rule less_trans [OF unat_byte_less]) simp
  then show ?thesis
    by (simp add: pinned_len_def unsigned_ucast_eq take_bit_nat_eq_self)
qed

lemma pinned_bits: "unat (pinned_len e * 10) = 10 * unat (aa25WireLen (aa25Pinned e))"
  by (subst unat_small_ops) (simp_all add: unat_pinned_len less_trans [OF unat_byte_less])

lemma word_eq_unat: "(x :: u64) = y \<longleftrightarrow> unat x = unat y"
  by (auto dest: injD [OF inj_unsigned [where ?'a = nat]])

lemma aa25TXBitLevel_bit_level: "aa25TXBitLevel n e = bit_level (aa25Pinned e) (unat n)"
proof -
  have p: "unat (n mod 10) = unat n mod 10" "unat (n div 10) = unat n div 10"
    by (simp_all add: unat_mod unat_div)
  then have z: "n mod 10 = 0 \<longleftrightarrow> unat n mod 10 = 0" "n mod 10 = 9 \<longleftrightarrow> unat n mod 10 = 9"
    by (simp_all add: word_eq_unat)
  have m: "unat (n mod 10 - 1) = unat n mod 10 - 1" if "n mod 10 \<noteq> 0"
    using that p(1) by (metis unat_minus_one)
  show ?thesis
    by (simp add: aa25TXBitLevel_def bit_level_def Let_def wire_bit_iff p m z flip: z)
qed

section \<open>Operations that keep the invariant\<close>

lemmas ok_defs = tx_ok_def drive_ok_def char_ok_def echo_ok_def control_ok_def line_ok_def

lemmas stop_defs = aa25FailResponse_def aa25InvalidateReception_def aa25DropFrame_def aa25WithdrawAdmission_def

definition engine_ok :: "'w AA25Engine \<Rightarrow> u64 \<Rightarrow> bool" where
  "engine_ok e i \<longleftrightarrow> tx_ok e \<and> char_ok e i \<and> control_ok e \<and> line_ok e"

lemma engine_ok_publish [simp]:
  "engine_ok (aa25Publish ev e) i = engine_ok e i"
  "engine_ok (aa25PublishFault fault now e) i = engine_ok e i"
  by (simp_all add: engine_ok_def ok_defs)

lemma engine_ok_AbortTX: "engine_ok e i \<Longrightarrow> engine_ok (aa25AbortTX now e) i"
  by (auto simp: engine_ok_def ok_defs)

text \<open>Everything that ends a response goes through an abort; afterwards nothing is pending.\<close>

lemma engine_ok_Invalidate: "engine_ok e i \<Longrightarrow> engine_ok (aa25InvalidateReception now e) j"
  by (auto simp: engine_ok_def ok_defs stop_defs)

lemma engine_ok_Withdraw:
  "engine_ok e i \<Longrightarrow> aa25TXState e = aa25TXIdle \<Longrightarrow> engine_ok (aa25WithdrawAdmission e) i"
  by (auto simp: engine_ok_def ok_defs stop_defs)

lemma Invalidate_state [simp]:
  "aa25TXState (aa25InvalidateReception now e) = aa25TXIdle"
  "aa25RXState (aa25InvalidateReception now e) = aa25RXResync"
  "aa25SlotValid (aa25InvalidateReception now e) = aa25SlotValid e"
  "\<not> aa25PinnedValid (aa25InvalidateReception now e)"
  by (simp_all add: stop_defs)

lemma engine_ok_Fail: "engine_ok e i \<Longrightarrow> engine_ok (aa25FailResponse fault now e) j"
  unfolding aa25FailResponse_def
  by (rule engine_ok_Withdraw) (simp_all add: engine_ok_Invalidate)

lemma engine_ok_Drop:
  "engine_ok e i \<Longrightarrow> aa25TXState e = aa25TXIdle \<Longrightarrow> engine_ok (aa25DropFrame e) i"
  "engine_ok e i \<Longrightarrow> aa25TXState e = aa25TXIdle \<Longrightarrow> engine_ok (aa25StartFrame e) i"
  by (auto simp: engine_ok_def ok_defs stop_defs aa25StartFrame_def)

lemma engine_ok_AbortDrop: "engine_ok e i \<Longrightarrow> engine_ok (aa25DropFrame (aa25AbortTX now e)) i"
  by (rule engine_ok_Drop) (simp_all add: engine_ok_AbortTX)

subsection \<open>Frames\<close>

text \<open>With no response under way and no character in progress only these conditions are left.\<close>

definition idle_ok :: "'w AA25Engine \<Rightarrow> bool" where
  "idle_ok e \<longleftrightarrow> (aa25SlotValid e \<longrightarrow> wf_prepared (aa25Slot e)) \<and> (aa25PinnedValid e \<longrightarrow> wf_prepared (aa25Pinned e)) \<and>
     aa25TXLevel e = AA25LevelHigh \<and> length (aa25CharEdgePhase e) = 10 \<and> control_ok e \<and> line_ok e"

lemma engine_ok_idle:
  assumes "aa25TXState e = aa25TXIdle" "aa25RXState e \<noteq> aa25RXCharacter"
  shows "engine_ok e i \<longleftrightarrow> idle_ok e"
  using assms by (auto simp: engine_ok_def tx_ok_def char_ok_def idle_ok_def)

lemma engine_ok_Admit:
  assumes "engine_ok e i" "aa25TXState e = aa25TXIdle" "aa25FramePhase e = aa25PhaseTrailing"
    "aa25RXState e \<noteq> aa25RXCharacter"
  shows "engine_ok (aa25AdmitResponse now e) i"
  using assms by (auto simp: aa25AdmitResponse_def Let_def engine_ok_def ok_defs)

lemma engine_ok_Deliver:
  assumes ok: "engine_ok e i" and idle: "aa25TXState e = aa25TXIdle" and rx: "aa25RXState e \<noteq> aa25RXCharacter"
  shows "engine_ok (aa25DeliverLogical b esc now e) i"
proof (cases "aa25FramePhase e = aa25PhaseCRC")
  case True
  have "idle_ok e"
    using ok idle rx by (simp add: engine_ok_idle)
  with True idle rx show ?thesis
    by (auto simp: aa25DeliverLogical_def Let_def engine_ok_idle idle_ok_def control_ok_def line_ok_def
        intro!: engine_ok_Admit)
next
  case False
  have "idle_ok e"
    using ok idle rx by (simp add: engine_ok_idle)
  then have "idle_ok (aa25DeliverLogical b esc now e)" "aa25TXState (aa25DeliverLogical b esc now e) = aa25TXIdle"
      "aa25RXState (aa25DeliverLogical b esc now e) \<noteq> aa25RXCharacter"
    using False idle rx
    by (simp_all add: aa25DeliverLogical_def Let_def idle_ok_def control_ok_def line_ok_def aa25DropFrame_def
        split: aa25FramePhase.split)
  then show ?thesis
    by (simp add: engine_ok_idle)
qed

lemma crc_feed_frame [simp]:
  "aa25TXState (crc_feed s e) = aa25TXState e" "aa25RXState (crc_feed s e) = aa25RXState e"
  "aa25FramePhase (crc_feed s e) = aa25FramePhase e"
  "engine_ok (crc_feed s e) i = engine_ok e i" "engine_ok (e\<lparr>aa25EscapePending := x\<rparr>) i = engine_ok e i"
  by (simp_all add: crc_feed_def engine_ok_def ok_defs)

lemma Deliver_Trailing: "aa25FramePhase e = aa25PhaseTrailing \<Longrightarrow> \<exists>ev. aa25DeliverLogical b esc now e = aa25Publish ev e"
  by (auto simp: aa25DeliverLogical_def Let_def)

lemma engine_ok_Deliver_any:
  assumes "engine_ok e i" "aa25RXState e \<noteq> aa25RXCharacter"
  shows "engine_ok (aa25DeliverLogical b esc now e) i"
proof (cases "aa25TXState e = aa25TXIdle")
  case False
  with assms(1) obtain ev where "aa25DeliverLogical b esc now e = aa25Publish ev e"
    using Deliver_Trailing unfolding engine_ok_def tx_ok_def by blast
  with assms show ?thesis
    by simp
qed (use assms in \<open>simp add: engine_ok_Deliver\<close>)

lemma engine_ok_Feed:
  assumes "engine_ok e i" "aa25RXState e \<noteq> aa25RXCharacter" "aa25TXState e = aa25TXIdle \<or> symbol \<noteq> aa25SymbolSyn"
  shows "engine_ok (aa25FeedFrame symbol now e) i"
  using assms by (auto simp: aa25FeedFrame_def Let_def aa25DropFrame_def [THEN arg_cong [where f = aa25TXState]]
      intro!: engine_ok_Deliver_any engine_ok_AbortDrop engine_ok_Drop)

lemma engine_ok_FinalAck:
  assumes "engine_ok e i" "aa25TXState e = aa25TXAwaitAck" "aa25RXState e \<noteq> aa25RXCharacter"
  shows "engine_ok (aa25HandleFinalAck symbol now e) i"
proof -
  have idle: "engine_ok (e\<lparr>aa25TXState := aa25TXIdle, aa25PinnedValid := False\<rparr>) i"
    using assms by (auto simp: engine_ok_def ok_defs)
  moreover have "engine_ok (e\<lparr>aa25TXRetried := True, aa25PinnedValid := True, aa25TXState := aa25TXWaiting,
      aa25TXAnchor := a, aa25TXBase := 10, aa25TXBit := 10, aa25EchoIndex := 1\<rparr>) i" for a
    using assms by (auto simp: engine_ok_def ok_defs)
  ultimately show ?thesis
    by (simp add: aa25HandleFinalAck_def Let_def)
qed

lemma FinalAck_state:
  "aa25RXState (aa25HandleFinalAck symbol now e) = aa25RXState e"
  "aa25TXState (aa25HandleFinalAck aa25SymbolSyn now e) = aa25TXIdle"
  by (simp_all add: aa25HandleFinalAck_def Let_def)

lemma wf_wire_no_syn:
  assumes "wf_prepared p" "n < unat (aa25WireLen p)"
  shows "aa25Wire p ! n \<noteq> aa25SymbolSyn"
  using assms by (auto simp: wf_prepared_def in_set_conv_nth)

lemma engine_ok_Symbol:
  assumes ok: "engine_ok e i" and rx: "aa25RXState e \<noteq> aa25RXCharacter"
    and wait: "aa25TXState e \<noteq> aa25TXWaiting"
    and echo: "aa25TXState e = aa25TXActive \<Longrightarrow> aa25CharEcho e \<and> 10 * unat (aa25EchoIndex e) < unat (aa25TXBit e) \<and>
      aa25CharShift e = aa25Wire (aa25Pinned e) ! unat (aa25EchoIndex e)"
  shows "engine_ok (aa25CompleteSymbol j now e) i"
proof (cases "aa25TXState e = aa25TXActive")
  case True
  let ?e = "e\<lparr>aa25EchoIndex := aa25EchoIndex e + 1,
    aa25Stats := (aa25Stats e)\<lparr>AA25EchoedSymbols := AA25EchoedSymbols (aa25Stats e) + 1\<rparr>\<rparr>"
  have tx: "tx_ok e" "drive_ok e" "wf_prepared (aa25Pinned e)"
    using ok True by (auto simp: engine_ok_def tx_ok_def)
  then have n: "unat (aa25EchoIndex e) < unat (aa25WireLen (aa25Pinned e))"
    using echo [OF True] by (simp add: drive_ok_def)
  moreover have "unat (aa25EchoIndex e + 1) = unat (aa25EchoIndex e) + 1"
    using n less_trans [OF n less_trans [OF unat_byte_less]] by (intro unat_small_ops) simp
  ultimately have "engine_ok ?e i"
    using ok echo True rx by (auto simp: engine_ok_def ok_defs)
  moreover have "aa25CharShift e \<noteq> aa25SymbolSyn"
    using echo [OF True] wf_wire_no_syn [OF tx(3) n] by simp
  ultimately show ?thesis
    using True echo [OF True] rx by (simp add: aa25CompleteSymbol_def Let_def engine_ok_Feed)
next
  case False
  then show ?thesis
    using ok rx wait
    by (cases "aa25TXState e")
      (auto simp: aa25CompleteSymbol_def Let_def FinalAck_state intro!: engine_ok_Feed engine_ok_FinalAck)
qed

subsection \<open>Characters\<close>

lemma bit_level_stop: "0 < n \<Longrightarrow> bit_level p (10 * n - 1) = AA25LevelHigh"
proof -
  assume "0 < n"
  then have "(10 * n - 1) mod 10 = (9 :: nat)"
    by (cases n) simp_all
  then show ?thesis
    by (simp add: bit_level_def)
qed

text \<open>Past its last bit a response has released the line.\<close>

lemma tx_ok_Complete:
  assumes "tx_ok e" "aa25TXState e = aa25TXActive"
    "unat (aa25TXBit e) = 10 * unat (aa25WireLen (aa25Pinned e))"
  shows "tx_ok (aa25CompleteTX now e)"
proof -
  have d: "drive_ok e" "wf_prepared (aa25Pinned e)"
    using assms by (auto simp: tx_ok_def)
  then have "2 \<le> unat (aa25WireLen (aa25Pinned e))"
    by (simp add: wf_prepared_def)
  then have "aa25TXBit e \<noteq> aa25TXBase e"
    using d assms(3) by (auto simp: drive_ok_def word_eq_unat)
  with d assms(3) have "aa25TXLevel e = AA25LevelHigh"
    using bit_level_stop [of "unat (aa25WireLen (aa25Pinned e))" "aa25Pinned e"] \<open>2 \<le> _\<close>
    by (simp add: drive_ok_def)
  with assms show ?thesis
    by (simp add: tx_ok_def aa25CompleteTX_def)
qed

lemma CompleteTX_rest [simp]:
  "aa25TXState (aa25CompleteTX now e) = aa25TXAwaitAck" "aa25RXState (aa25CompleteTX now e) = aa25RXState e"
  "aa25CharStartIndex (aa25CompleteTX now e) = aa25CharStartIndex e"
  "aa25CharEdgePhase (aa25CompleteTX now e) = aa25CharEdgePhase e"
  "aa25FinalComplete (aa25CompleteTX now e) = aa25FinalComplete e"
  "control_ok (aa25CompleteTX now e) = control_ok e" "line_ok (aa25CompleteTX now e) = line_ok e"
  by (simp_all add: aa25CompleteTX_def control_ok_def line_ok_def)

lemma engine_ok_Complete:
  assumes "engine_ok e i" "aa25TXState e = aa25TXActive" "aa25TXBit e = pinned_len e * 10"
  shows "engine_ok (aa25CompleteTX now e) i"
  using assms tx_ok_Complete [of e] pinned_bits [of e] by (simp add: engine_ok_def char_ok_def)

definition char_start :: "u64 \<Rightarrow> u64 \<Rightarrow> 'w AA25Engine \<Rightarrow> 'w AA25Engine" where
  "char_start i now e = e\<lparr>aa25RXState := aa25RXCharacter, aa25CharStartIndex := i, aa25CharStartTick := now,
     aa25CharLevel := AA25LevelLow, aa25CharHighVotes := 0, aa25CharDissent := 0, aa25CharShift := 0,
     aa25CharEdgePhase := replicate 10 0, aa25FinalComplete := False\<rparr>"

definition opened :: "u64 \<Rightarrow> 'w AA25Engine \<Rightarrow> bool" where
  "opened i e \<longleftrightarrow> tx_ok e \<and> control_ok e \<and> line_ok e \<and> aa25RXState e = aa25RXCharacter \<and> aa25CharStartIndex e = i \<and>
     aa25CharShift e = 0 \<and> length (aa25CharEdgePhase e) = 10 \<and> \<not> aa25FinalComplete e"

lemma opened_start: "engine_ok e i \<Longrightarrow> opened i (char_start i now e)"
  by (auto simp: opened_def char_start_def engine_ok_def ok_defs)

lemma opened_Complete:
  "opened i e \<Longrightarrow> aa25TXState e = aa25TXActive \<Longrightarrow> aa25TXBit e = pinned_len e * 10 \<Longrightarrow> opened i (aa25CompleteTX now e)"
  using tx_ok_Complete [of e] pinned_bits [of e] by (simp add: opened_def) (simp add: aa25CompleteTX_def)

lemma ceil_echo:
  assumes "drive_ok e" "\<not> (aa25TXBit e + 10 - 1) div 10 \<le> aa25EchoIndex e"
  shows "10 * unat (aa25EchoIndex e) < unat (aa25TXBit e)"
proof -
  have "unat (aa25TXBit e) \<le> 10 * unat (aa25WireLen (aa25Pinned e))"
    using assms(1) by (simp add: drive_ok_def)
  also have "\<dots> \<le> 10 * 255"
    by (rule mult_le_mono2) (rule unat_byte_le_255)
  finally have "unat (aa25TXBit e) < 2 ^ 32"
    by simp
  then have "unat ((aa25TXBit e + 10 - 1) div 10) = (unat (aa25TXBit e) + 9) div 10"
    by (rule unat_small_ops)
  then have "unat (aa25EchoIndex e) < (unat (aa25TXBit e) + 9) div 10"
    using assms(2) by (simp only: word_le_nat_alt not_le)
  then show ?thesis
    by linarith
qed

lemma engine_ok_Begin:
  assumes ok: "engine_ok e i"
  shows "engine_ok (aa25BeginCharacter i now e) (i + 1)"
proof -
  define e1 where "e1 = char_start i now e"
  define e2 where "e2 = (if aa25TXState e1 = aa25TXActive \<and> aa25TXBit e1 = pinned_len e1 * 10 \<and>
    aa25EchoIndex e1 = pinned_len e1 \<and> aa25TXDeadline (aa25TXBit e1) e1 \<le> now then aa25CompleteTX now e1 else e1)"
  define e3 where "e3 = e2\<lparr>aa25CharEcho := aa25TXState e2 = aa25TXActive\<rparr>"
  have eq: "aa25BeginCharacter i now e = (case aa25TXState e3 of
      aa25TXWaiting \<Rightarrow> aa25WithdrawAdmission (aa25DropFrame (aa25AbortTX now (aa25PublishFault AA25FaultRXBeforeResponse now e3)))
    | aa25TXActive \<Rightarrow> if (aa25TXBit e3 + 10 - 1) div 10 \<le> aa25EchoIndex e3
        then aa25FailResponse AA25FaultEchoUnsolicited now e3 else e3
    | aa25TXIdle \<Rightarrow> e3 | aa25TXAwaitAck \<Rightarrow> e3)"
    unfolding aa25BeginCharacter_def Let_def e3_def e2_def e1_def char_start_def ..
  have "opened i e2"
    using opened_start [OF ok] opened_Complete by (auto simp: e2_def e1_def)
  then have o: "opened i e3" "aa25CharEcho e3 = (aa25TXState e3 = aa25TXActive)"
    by (auto simp: e3_def opened_def ok_defs)
  have idx: "unat (i + 1 - i) = 1"
    by simp
  show ?thesis
  proof (cases "aa25TXState e3")
    case aa25TXActive
    have d: "drive_ok e3"
      using o aa25TXActive by (simp add: opened_def tx_ok_def)
    have "engine_ok e3 (i + 1)" if "\<not> (aa25TXBit e3 + 10 - 1) div 10 \<le> aa25EchoIndex e3"
      using o aa25TXActive ceil_echo [OF d that]
      by (simp add: engine_ok_def opened_def char_ok_def echo_ok_def bits_done_def)
    moreover have "engine_ok (aa25FailResponse AA25FaultEchoUnsolicited now e3) (i + 1)"
      using o(1) unfolding opened_def
      by (auto simp: engine_ok_def tx_ok_def char_ok_def control_ok_def line_ok_def stop_defs)
    ultimately show ?thesis
      using aa25TXActive by (auto simp: eq simp del: diff_add_cancel)
  next
    case aa25TXWaiting
    then show ?thesis
      using o(1) unfolding opened_def
      by (auto simp: eq engine_ok_def tx_ok_def char_ok_def control_ok_def line_ok_def stop_defs)
  qed (use o(1) in \<open>auto simp: eq engine_ok_def opened_def char_ok_def\<close>)
qed

lemma engine_ok_free [simp]:
  "engine_ok (e\<lparr>aa25CharHighVotes := v\<rparr>) i = engine_ok e i"
  "engine_ok (e\<lparr>aa25CharHighVotes := v, aa25CharDissent := d\<rparr>) i = engine_ok e i"
  "engine_ok (e\<lparr>aa25PreviousLevel := l\<rparr>) i = engine_ok e i"
  "engine_ok (e\<lparr>aa25IdleRun := n\<rparr>) i = engine_ok e i"
  "length ph = length (aa25CharEdgePhase e) \<Longrightarrow>
     engine_ok (e\<lparr>aa25CharLevel := l, aa25CharEdgePhase := ph\<rparr>) i = engine_ok e i"
  by (simp_all add: engine_ok_def ok_defs)

lemma engine_ok_leave: "engine_ok e i \<Longrightarrow> rx \<noteq> aa25RXCharacter \<Longrightarrow> engine_ok (e\<lparr>aa25RXState := rx\<rparr>) j"
  by (auto simp: engine_ok_def ok_defs)

lemma engine_ok_index: "engine_ok e i \<Longrightarrow> aa25RXState e \<noteq> aa25RXCharacter \<Longrightarrow> engine_ok e j"
  by (auto simp: engine_ok_def char_ok_def)

lemma engine_ok_FailCharacter:
  "engine_ok e i \<Longrightarrow> engine_ok (aa25FailCharacter fault now e) i"
  by (simp add: aa25FailCharacter_def Let_def engine_ok_Fail engine_ok_AbortDrop)

text \<open>The next sample of a character: no bit is decided, or the bit decided extends the agreement.\<close>

lemma sample_offset:
  assumes "unat (i - s) \<le> 96"
  shows "unat (i + 1 - (s :: u64)) = unat (i - s) + 1"
proof -
  have "i + 1 - s = (i - s) + 1"
    by simp
  moreover have "unat (i - s) < 2 ^ 32"
    using assms by simp
  ultimately show ?thesis
    using unat_small_ops(2) by metis
qed

lemma engine_ok_advance:
  assumes "engine_ok e i" "aa25RXState e = aa25RXCharacter" "unat (i - aa25CharStartIndex e) < 96"
    "aa25TXState e = aa25TXActive \<Longrightarrow> shift = take_bit (bits_done (unat (i - aa25CharStartIndex e) + 1))
       (aa25Wire (aa25Pinned e) ! unat (aa25EchoIndex e))"
  shows "engine_ok (e\<lparr>aa25CharShift := shift\<rparr>) (i + 1)"
  using assms sample_offset [of i "aa25CharStartIndex e"]
  by (auto simp: engine_ok_def tx_ok_def drive_ok_def char_ok_def echo_ok_def control_ok_def line_ok_def)

lemma engine_ok_skip:
  assumes "engine_ok e i" "aa25RXState e = aa25RXCharacter" "unat (i - aa25CharStartIndex e) < 96"
    "bits_done (unat (i - aa25CharStartIndex e) + 1) = bits_done (unat (i - aa25CharStartIndex e))"
  shows "engine_ok e (i + 1)"
proof -
  have "engine_ok (e\<lparr>aa25CharShift := aa25CharShift e\<rparr>) (i + 1)"
    by (rule engine_ok_advance [OF assms(1-3)]) (use assms in \<open>simp add: engine_ok_def char_ok_def echo_ok_def\<close>)
  then show ?thesis
    by simp
qed

lemma take_bit_next: "take_bit (Suc n) w = take_bit n w OR (if bit w n then push_bit n 1 else 0)" for w :: byte
  by (rule bit_word_eqI) (auto simp: bit_simps less_Suc_eq)

lemma bits_done_table: "list_all (\<lambda>k. if k mod 10 \<noteq> 6 \<or> k < 16 then bits_done (k + 1) = bits_done k
    else bits_done k = k div 10 - 1 \<and> bits_done (k + 1) = k div 10) [0..<97]"
  by code_simp

lemma bits_done_same: "k \<le> 96 \<Longrightarrow> k mod 10 \<noteq> 6 \<or> k < 16 \<Longrightarrow> bits_done (k + 1) = bits_done k"
  using bits_done_table unfolding list_all_iff by (auto dest!: bspec [where x = k])

lemma bits_done_next:
  "k \<le> 96 \<Longrightarrow> k mod 10 = 6 \<Longrightarrow> 16 \<le> k \<Longrightarrow> bits_done k = k div 10 - 1 \<and> bits_done (k + 1) = k div 10"
  using bits_done_table unfolding list_all_iff by (auto dest!: bspec [where x = k])

lemma engine_ok_bit:
  assumes ok: "engine_ok e i" and rx: "aa25RXState e = aa25RXCharacter"
    and k: "unat (i - aa25CharStartIndex e) = k" "k mod 10 = 6" "16 \<le> k" "k < 96"
    and agree: "aa25TXState e = aa25TXActive \<Longrightarrow>
      high = bit (aa25Wire (aa25Pinned e) ! unat (aa25EchoIndex e)) (k div 10 - 1)"
  shows "engine_ok (e\<lparr>aa25CharShift := aa25CharShift e OR (if high then push_bit (k div 10 - 1) 1 else 0)\<rparr>) (i + 1)"
proof (rule engine_ok_advance [OF ok rx])
  show "unat (i - aa25CharStartIndex e) < 96"
    using k by simp
  assume a: "aa25TXState e = aa25TXActive"
  then have "aa25CharShift e = take_bit (k div 10 - 1) (aa25Wire (aa25Pinned e) ! unat (aa25EchoIndex e))"
    using ok rx k bits_done_next [of k] by (simp add: engine_ok_def char_ok_def echo_ok_def)
  moreover have "bits_done (k + 1) = Suc (k div 10 - 1)"
    using bits_done_next [of k] k by simp
  ultimately show "aa25CharShift e OR (if high then push_bit (k div 10 - 1) 1 else 0) =
      take_bit (bits_done (unat (i - aa25CharStartIndex e) + 1)) (aa25Wire (aa25Pinned e) ! unat (aa25EchoIndex e))"
    using agree [OF a] take_bit_next by (simp add: k(1))
qed

text \<open>\<open>aa25ObserveCharacter\<close> in three parts: note the edge, count the vote, decide the bit.\<close>

definition note_edge :: "AA25Level \<Rightarrow> u64 \<Rightarrow> 'w AA25Engine \<Rightarrow> 'w AA25Engine" where
  "note_edge level position e = (if level \<noteq> aa25CharLevel e then
     e\<lparr>aa25CharLevel := level,
       aa25CharEdgePhase := (let phases = aa25CharEdgePhase e; k = unat position in
         if phases ! k \<noteq> 255 then phases[k := phases ! k + 1] else phases)\<rparr> else e)"

definition note_vote :: "AA25Level \<Rightarrow> 'w AA25Engine \<Rightarrow> 'w AA25Engine" where
  "note_vote level e = (if level = AA25LevelHigh then e\<lparr>aa25CharHighVotes := aa25CharHighVotes e + 1\<rparr> else e)"

definition clear_votes :: "bool \<Rightarrow> 'w AA25Engine \<Rightarrow> 'w AA25Engine" where
  "clear_votes high e = e\<lparr>aa25CharHighVotes := 0,
     aa25CharDissent := aa25CharDissent e + (if high then 3 - aa25CharHighVotes e else aa25CharHighVotes e)\<rparr>"

definition decide_bit :: "bool \<Rightarrow> u64 \<Rightarrow> u64 \<Rightarrow> u64 \<Rightarrow> 'w AA25Engine \<Rightarrow> 'w AA25Engine" where
  "decide_bit high n i now e =
     (if n = 0 then
        (if high then aa25FailCharacter AA25FaultFalseStart now (e\<lparr>aa25RXState := aa25RXHunt\<rparr>) else e)
      else if n < 10 - 1 then
        let e = (if high then e\<lparr>aa25CharShift := aa25CharShift e OR push_bit (unat (n - 1)) 1\<rparr> else e)
        in if aa25CharEcho e \<and> aa25TXState e = aa25TXActive then
             (if wire_bit (aa25Wire (aa25Pinned e) ! unat (aa25EchoIndex e)) (n - 1) \<noteq> high
              then aa25FailResponse AA25FaultEchoMismatch now e else e)
           else e
      else if \<not> high then
        aa25FailCharacter AA25FaultBadStop now (e\<lparr>aa25RXState := aa25RXResync, aa25IdleRun := 0\<rparr>)
      else aa25CompleteSymbol i now (e\<lparr>aa25RXState := aa25RXStopTail\<rparr>))"

lemma ObserveCharacter_parts:
  "aa25ObserveCharacter level i now e =
     (let offset = i - aa25CharStartIndex e; position = offset mod 10; e = note_edge level position e in
      if position < 4 \<or> 6 < position then e
      else let e = note_vote level e in
        if position \<noteq> 6 then e
        else let high = 2 \<le> aa25CharHighVotes e in decide_bit high (offset div 10) i now (clear_votes high e))"
  unfolding aa25ObserveCharacter_def note_edge_def note_vote_def clear_votes_def decide_bit_def Let_def ..

lemma note_frame [simp]:
  "engine_ok (note_edge level position e) j = engine_ok e j"
  "engine_ok (note_vote level e) j = engine_ok e j"
  "engine_ok (clear_votes high e) j = engine_ok e j"
  "aa25RXState (note_edge level position e) = aa25RXState e"
  "aa25RXState (note_vote level e) = aa25RXState e"
  "aa25RXState (clear_votes high e) = aa25RXState e"
  "aa25CharStartIndex (note_edge level position e) = aa25CharStartIndex e"
  "aa25CharStartIndex (note_vote level e) = aa25CharStartIndex e"
  "aa25CharStartIndex (clear_votes high e) = aa25CharStartIndex e"
  by (simp_all add: note_edge_def note_vote_def clear_votes_def Let_def)

lemma engine_ok_decide:
  assumes ok: "engine_ok e i" and rx: "aa25RXState e = aa25RXCharacter"
    and k: "unat (i - aa25CharStartIndex e) = k" "k mod 10 = 6"
  shows "engine_ok (decide_bit high ((i - aa25CharStartIndex e) div 10) i now e) (i + 1)"
proof -
  define n where "n = (i - aa25CharStartIndex e) div 10"
  have n: "unat n = k div 10"
    by (simp add: n_def unat_div k)
  have k96: "k \<le> 96"
    using ok rx k by (simp add: engine_ok_def char_ok_def)
  consider (start) "k div 10 = 0" | (data) "16 \<le> k" "k < 96" | (stop) "k = 96"
    using k96 k(2) div_mult_mod_eq [of k 10] by atomize_elim linarith
  then have "engine_ok (decide_bit high n i now e) (i + 1)"
  proof cases
    case start
    then have "n = 0" "k = 6"
      using n k(2) k96 by (simp_all add: word_eq_unat)
    then show ?thesis
      using ok rx k(1) bits_done_same [of 6] engine_ok_leave [OF ok, of aa25RXHunt "i + 1"]
      by (simp add: decide_bit_def engine_ok_FailCharacter engine_ok_skip)
  next
    case data
    have "k div 10 < 9"
      using data(2) k(2) div_mult_mod_eq [of k 10] by linarith
    then have nz: "n \<noteq> 0" "n < 9" "unat (n - 1) = k div 10 - 1"
      using n data unat_minus_one [of n] by (auto simp: word_eq_unat word_less_nat_alt)
    show ?thesis
    proof (cases "aa25TXState e = aa25TXActive")
      case True
      then have ce: "aa25CharEcho e"
        using ok rx by (simp add: engine_ok_def char_ok_def echo_ok_def)
      show ?thesis
      proof (cases "bit (aa25Wire (aa25Pinned e) ! unat (aa25EchoIndex e)) (k div 10 - 1) = high")
        case True
        then show ?thesis
          using engine_ok_bit [OF ok rx k data, of high] nz ce
          by (cases high) (simp_all add: decide_bit_def Let_def wire_bit_iff)
      next
        case False
        have "engine_ok (aa25FailResponse f now (e\<lparr>aa25CharShift := x\<rparr>)) (i + 1)" for f x
          using ok by (auto simp: engine_ok_def ok_defs stop_defs)
        with False show ?thesis
          using engine_ok_Fail [OF ok] nz ce \<open>aa25TXState e = aa25TXActive\<close>
          by (cases high) (simp_all add: decide_bit_def Let_def wire_bit_iff)
      qed
    next
      case False
      then show ?thesis
        using engine_ok_bit [OF ok rx k data, of high] nz
        by (cases high) (simp_all add: decide_bit_def Let_def)
    qed
  next
    case stop
    then have nz: "n \<noteq> 0" "\<not> n < 9"
      using n by (auto simp: word_eq_unat word_less_nat_alt)
    have "take_bit 8 (w :: byte) = w" for w
      by (simp add: take_bit_word_eq_self)
    then have "aa25TXState e = aa25TXActive \<Longrightarrow> aa25CharEcho e \<and> 10 * unat (aa25EchoIndex e) < unat (aa25TXBit e) \<and>
        aa25CharShift e = aa25Wire (aa25Pinned e) ! unat (aa25EchoIndex e)" "aa25TXState e \<noteq> aa25TXWaiting"
      using ok rx k(1) stop by (simp_all add: engine_ok_def char_ok_def echo_ok_def bits_done_def)
    then have "engine_ok (aa25CompleteSymbol i now (e\<lparr>aa25RXState := aa25RXStopTail\<rparr>)) (i + 1)"
      using engine_ok_leave [OF ok] by (intro engine_ok_Symbol) auto
    moreover have "engine_ok (e\<lparr>aa25RXState := aa25RXResync, aa25IdleRun := 0\<rparr>) (i + 1)"
      using engine_ok_leave [OF ok, of aa25RXResync "i + 1"] by (simp add: engine_ok_def ok_defs)
    ultimately show ?thesis
      using nz by (simp add: decide_bit_def engine_ok_FailCharacter)
  qed
  then show ?thesis
    by (simp add: n_def)
qed

lemma engine_ok_ObserveCharacter:
  assumes ok: "engine_ok e i" and rx: "aa25RXState e = aa25RXCharacter"
  shows "engine_ok (aa25ObserveCharacter level i now e) (i + 1)"
proof -
  define k where "k = unat (i - aa25CharStartIndex e)"
  define p where "p = (i - aa25CharStartIndex e) mod 10"
  have p: "unat p = k mod 10"
    by (simp add: p_def k_def unat_mod)
  then have p6: "p = 6 \<longleftrightarrow> k mod 10 = 6"
    by (simp add: word_eq_unat)
  have k96: "k \<le> 96"
    using ok rx by (simp add: engine_ok_def char_ok_def k_def)
  let ?e = "note_vote level (note_edge level p e)"
  have skip: "engine_ok e (i + 1)" if "p \<noteq> 6"
  proof (rule engine_ok_skip [OF ok rx])
    have "k mod 10 \<noteq> 6" "k \<noteq> 96"
      using that p6 by auto
    then show "unat (i - aa25CharStartIndex e) < 96" "bits_done (unat (i - aa25CharStartIndex e) + 1) = bits_done (unat (i - aa25CharStartIndex e))"
      using k96 bits_done_same [of k] by (simp_all add: k_def)
  qed
  moreover have "engine_ok (decide_bit high ((i - aa25CharStartIndex e) div 10) i now (clear_votes high ?e)) (i + 1)"
    if "p = 6" for high
    using engine_ok_decide [of "clear_votes high ?e" i k high now] that ok rx p6 by (simp add: k_def)
  ultimately show ?thesis
    unfolding ObserveCharacter_parts Let_def p_def [symmetric] by (cases "p = 6") auto
qed

lemma engine_ok_Observe:
  assumes ok: "engine_ok e i"
  shows "engine_ok (aa25Observe level i now e) (i + 1)"
proof (cases "aa25RXState e")
  case aa25RXCharacter
  then show ?thesis
    using engine_ok_ObserveCharacter [OF ok] by (simp add: aa25Observe_def)
next
  case aa25RXResync
  then show ?thesis
    using ok engine_ok_index [OF ok, of "i + 1"] engine_ok_leave [OF ok, of aa25RXHunt "i + 1"]
    by (auto simp: aa25Observe_def Let_def) (auto simp: engine_ok_def ok_defs)
next
  case aa25RXHunt
  then show ?thesis
    using engine_ok_index [OF ok, of "i + 1"] engine_ok_Begin [OF ok] by (simp add: aa25Observe_def)
next
  case aa25RXStopTail
  then show ?thesis
    using engine_ok_index [OF ok, of "i + 1"] engine_ok_Begin [OF ok]
    by (auto simp: aa25Observe_def) (auto simp: engine_ok_def ok_defs)
qed

end
