(* ===== verification/Sample_Prepared.thy ===== *)
theory Sample_Prepared
  imports Sample_Safety
begin

text \<open>
  Prepared responses of the sampling engine: the bytes \<open>AA25PrepareResponse\<close> lays down are an acknowledgement
  followed by what \<open>protocol.EncodeSlaveResponse\<close> makes of the payload, and they fit the array.
\<close>

section \<open>The same CRC\<close>

lemma and_0x80_iff: "(b AND 0x80 \<noteq> 0) = bit b 7" for b :: byte
  using and_exp_eq_0_iff_not_bit [of b 7] by simp

lemma crc_loop: "aa25CRCUpdate_loop n c = (shift_reg ^^ n) c"
proof (induction n arbitrary: c)
  case (Suc n)
  have "(if c AND 0x80 \<noteq> 0 then push_bit 1 c XOR 0x9B else push_bit 1 c) = shift_reg c"
    using and_0x80_iff [of c] by (simp only: shift_reg_def)
  then show ?case
    using Suc [of "shift_reg c"] by (simp only: aa25CRCUpdate_loop.simps funpow_Suc_right o_apply)
qed simp

lemma aa25CRCUpdate_eq: "aa25CRCUpdate c s = Update c s"
  by (simp add: aa25CRCUpdate_def crc_loop table_at_eq Update_def)

section \<open>Filling the array\<close>

definition filled :: "AA25Prepared \<Rightarrow> byte list \<Rightarrow> bool" where
  "filled p ws \<longleftrightarrow> length (aa25Wire p) = aa25MaxPreparedWire \<and> unat (aa25WireLen p) = length ws \<and>
     take (length ws) (aa25Wire p) = ws"

lemma filled_Raw:
  assumes "filled p ws" "length ws < aa25MaxPreparedWire"
  shows "filled (aa25AppendRaw s p) (ws @ [s])"
proof -
  have "unat (aa25WireLen p + 1) = length ws + 1"
    using assms by (simp add: filled_def unat_word_ariths)
  with assms show ?thesis
    by (simp add: filled_def aa25AppendRaw_def take_Suc_nth take_update_swap)
qed

lemma AppendRaw_keeps [simp]:
  "AA25Generation (aa25AppendRaw s p) = AA25Generation p" "AA25MatchPB (aa25AppendRaw s p) = AA25MatchPB p"
  "AA25MatchSB (aa25AppendRaw s p) = AA25MatchSB p" "AA25MatchNN (aa25AppendRaw s p) = AA25MatchNN p"
  by (simp_all add: aa25AppendRaw_def)

definition shape :: "AA25Prepared \<Rightarrow> u64 \<times> byte \<times> byte \<times> byte" where
  "shape p = (AA25Generation p, AA25MatchPB p, AA25MatchSB p, AA25MatchNN p)"

lemma length_escape_symbol: "length (escape_symbol v) \<le> 2"
  by (simp add: escape_symbol_def)

lemma filled_Logical:
  assumes "filled p ws" "length ws + 2 \<le> aa25MaxPreparedWire" "aa25AppendLogical v crc p = (q, crc')"
  shows "filled q (ws @ escape_symbol v)" "crc' = crc_symbol crc v" "shape q = shape p"
proof -
  have "filled (aa25AppendRaw t (aa25AppendRaw s p)) (ws @ [s, t])" for s t
    using filled_Raw [OF filled_Raw [OF assms(1)], of s t] assms(2) by simp
  then show "filled q (ws @ escape_symbol v)"
    using assms filled_Raw [OF assms(1), of v]
    by (auto simp: aa25AppendLogical_def escape_symbol_def SymbolEscape_def SymbolSyn_def split: if_splits)
  show "crc' = crc_symbol crc v" "shape q = shape p"
    using assms(3)
    by (auto simp: aa25AppendLogical_def crc_symbol_def aa25CRCUpdate_eq shape_def SymbolEscape_def SymbolSyn_def split: if_splits)
qed

lemma length_EscapeBytes_le: "length (EscapeBytes bs) \<le> 2 * length bs"
proof (induction bs)
  case (Cons b bs)
  then show ?case
    using length_escape_symbol [of b] by simp
qed simp

lemma filled_payload:
  assumes "filled p ws" "length ws + 2 * length payload \<le> aa25MaxPreparedWire"
    "foldl (\<lambda>(p, crc) v. aa25AppendLogical v crc p) (p, crc) payload = (q, crc')"
  shows "filled q (ws @ EscapeBytes payload) \<and> crc' = foldl crc_symbol crc payload \<and> shape q = shape p"
  using assms
proof (induction payload arbitrary: p ws crc)
  case (Cons v payload)
  obtain r c where r: "aa25AppendLogical v crc p = (r, c)"
    by fastforce
  have f: "filled r (ws @ escape_symbol v)" "c = crc_symbol crc v" "shape r = shape p"
    using filled_Logical [OF Cons.prems(1) _ r] Cons.prems(2) by simp_all
  have "filled q ((ws @ escape_symbol v) @ EscapeBytes payload) \<and> crc' = foldl crc_symbol c payload \<and> shape q = shape r"
    using Cons.prems(2,3) length_escape_symbol [of v] r by (intro Cons.IH f(1)) simp_all
  with f show ?case
    by simp
qed simp

lemma prepared_filled:
  assumes "AA25PrepareResponse g pb sb nn payload = Inr p"
  shows "g \<noteq> 0 \<and> length payload \<le> 16 \<and> shape p = (g, pb, sb, nn) \<and>
    (\<exists>w. EncodeSlaveResponse payload = Inr w \<and> filled p (aa25SymbolAck # w))"
proof -
  let ?p0 = "prepared_zero\<lparr>AA25Generation := g, AA25MatchPB := pb, AA25MatchSB := sb, AA25MatchNN := nn\<rparr>"
  let ?seg = "byte_of_nat (length payload) # payload"
  have g: "g \<noteq> 0" "length payload \<le> 16"
    using assms by (auto simp: AA25PrepareResponse_def split: if_splits)
  have f0: "filled (aa25AppendRaw aa25SymbolAck ?p0) [aa25SymbolAck]"
    using filled_Raw [of ?p0 "[]"] by (simp add: filled_def prepared_zero_def)
  obtain p1 c1 where 1: "aa25AppendLogical (byte_of_nat (length payload)) 0 (aa25AppendRaw aa25SymbolAck ?p0) = (p1, c1)"
    by fastforce
  obtain p2 c2 where 2: "foldl (\<lambda>(p, crc) v. aa25AppendLogical v crc p) (p1, c1) payload = (p2, c2)"
    by fastforce
  obtain p3 c3 where 3: "aa25AppendLogical c2 c2 p2 = (p3, c3)"
    by fastforce
  have p: "p = p3"
    using assms g by (simp add: AA25PrepareResponse_def Let_def 1 2 3)
  have f1: "filled p1 ([aa25SymbolAck] @ escape_symbol (byte_of_nat (length payload)))"
      "c1 = crc_symbol 0 (byte_of_nat (length payload))" "shape p1 = (g, pb, sb, nn)"
    using filled_Logical [OF f0 _ 1] by (simp_all add: shape_def)
  have f2: "filled p2 ([aa25SymbolAck] @ EscapeBytes ?seg)" "c2 = CRC ?seg" "shape p2 = (g, pb, sb, nn)"
    using filled_payload [OF f1(1) _ 2] g(2) length_escape_symbol [of "byte_of_nat (length payload)"] f1(2,3)
    by (simp_all add: CRC_def)
  have "filled p3 (([aa25SymbolAck] @ EscapeBytes ?seg) @ escape_symbol c2)" "shape p3 = shape p2"
    using filled_Logical [OF f2(1) _ 3] length_EscapeBytes_le [of ?seg] g(2) by simp_all
  moreover have "EncodeSlaveResponse payload = Inr (EscapeBytes ?seg @ escape_symbol (CRC ?seg))"
    using g(2) by (simp add: EncodeSlaveResponse_def Let_def)
  ultimately show ?thesis
    using g f2 p by simp
qed

lemma EscapeBytes_no_syn: "aa25SymbolSyn \<notin> set (EscapeBytes bs)"
  by (induction bs) (auto simp: escape_symbol_def SymbolEscape_def SymbolSyn_def)

lemma wf_PrepareResponse:
  assumes "AA25PrepareResponse g pb sb nn payload = Inr p"
  shows "wf_prepared p"
proof -
  obtain w where w: "EncodeSlaveResponse payload = Inr w" "filled p (aa25SymbolAck # w)"
    using prepared_filled [OF assms] by blast
  then obtain seg where "w = EscapeBytes (byte_of_nat (length payload) # seg)"
    by (auto simp: EncodeSlaveResponse_def Let_def simp del: EscapeBytes_simps split: if_splits)
  then have "aa25SymbolSyn \<notin> set w" "w \<noteq> []"
    using EscapeBytes_no_syn by (auto simp: escape_symbol_def SymbolEscape_def SymbolSyn_def)
  moreover have "length (aa25SymbolAck # w) \<le> aa25MaxPreparedWire"
    using w(2) by (metis filled_def length_take min.cobounded1)
  ultimately show ?thesis
    using w(2) by (cases w) (auto simp: wf_prepared_def filled_def)
qed

text \<open>
  C40: a prepared response is refused exactly for generation 0 or more than 16 payload bytes.  Otherwise its wire
  image is the acknowledgement followed by what the protocol encoder \<open>EncodeSlaveResponse\<close> makes of the same
  payload, though the engine computes the CRC bit by bit and escapes in place.
\<close>

theorem prepared_wire_is_encoded_response:
  "case AA25PrepareResponse g pb sb nn payload of
     Inl err \<Rightarrow> err = AA25ErrInvalidResponse \<and> (g = 0 \<or> 16 < length payload)
   | Inr p \<Rightarrow> g \<noteq> 0 \<and> length payload \<le> 16 \<and>
       (AA25Generation p, AA25MatchPB p, AA25MatchSB p, AA25MatchNN p) = (g, pb, sb, nn) \<and>
       Inr (tl (take (unat (aa25WireLen p)) (aa25Wire p))) = EncodeSlaveResponse payload \<and>
       aa25Wire p ! 0 = aa25SymbolAck"
proof (cases "AA25PrepareResponse g pb sb nn payload")
  case (Inl err)
  then show ?thesis
    by (auto simp: AA25PrepareResponse_def Let_def split_beta split: if_splits)
next
  case (Inr p)
  obtain w where w: "EncodeSlaveResponse payload = Inr w" "filled p (aa25SymbolAck # w)"
    using prepared_filled [OF Inr] by blast
  then have "aa25Wire p ! 0 = aa25SymbolAck"
    by (cases "aa25Wire p") (simp_all add: filled_def)
  moreover have "take (unat (aa25WireLen p)) (aa25Wire p) = aa25SymbolAck # w"
    using w(2) by (simp add: filled_def)
  ultimately show ?thesis
    using Inr prepared_filled [OF Inr] w(1) by (simp add: shape_def)
qed

end
