(* ===== verification/Sample_Runs.thy ===== *)
theory Sample_Runs
  imports Sample_Prepared
begin

text \<open>
  The passes of the sampling engine and all their sequences: the invariant over every interleaving of passes,
  offers and withdrawals, whatever the ports do.
\<close>

section \<open>Receiving\<close>

text \<open>A pass observes sample \<open>i\<close> and expects \<open>i + 1\<close> next; missed samples end everything first.\<close>

definition report_gap :: "u64 \<Rightarrow> u64 \<Rightarrow> 'w AA25Engine \<Rightarrow> 'w AA25Engine" where
  "report_gap now missed e = (if 0 < missed then
     let e = e\<lparr>aa25Stats := (aa25Stats e)\<lparr>AA25MissedSamples := AA25MissedSamples (aa25Stats e) + missed\<rparr>\<rparr>
     in aa25WithdrawAdmission (aa25InvalidateReception now (aa25Publish
          ((event_literal AA25EventGap now)\<lparr>AA25SampleIndex := aa25NextSample e, AA25Missed := missed\<rparr>) e))
   else e)"

definition book_sample :: "u64 \<Rightarrow> u64 \<Rightarrow> 'w AA25Engine \<Rightarrow> 'w AA25Engine" where
  "book_sample i now e = (let late = now - aa25SampleDeadline i e in
     e\<lparr>aa25Stats := (aa25Stats e)\<lparr>AA25Observations := AA25Observations (aa25Stats e) + 1,
         AA25MaxObservationLate := (if AA25MaxObservationLate (aa25Stats e) < late then late
           else AA25MaxObservationLate (aa25Stats e))\<rparr>,
       aa25NextSample := i + 1, aa25NextDeadline := aa25SampleDeadline (i + 1) e\<rparr>)"

definition sample_index :: "u64 \<Rightarrow> 'w AA25Engine \<Rightarrow> u64" where
  "sample_index now e = fst (aa25RationalAt (now - aa25SampleAnchor e) AA25NominalSampleRate (AA25TickHz (aa25Config e)))"

lemma StepRX_parts:
  "aa25StepRX now e =
     (if now < aa25NextDeadline e then e
      else let i = sample_index now e; (level, e) = call_sample (report_gap now (i - aa25NextSample e) e)
           in aa25Observe level i now (book_sample i now e))"
  unfolding aa25StepRX_def report_gap_def book_sample_def sample_index_def Let_def ..

lemma engine_ok_ports [simp]:
  "engine_ok (snd (call_sample e)) i = engine_ok e i"
  "engine_ok (snd (call_publish ev e)) i = engine_ok e i"
  "engine_ok (snd (call_ticks e)) i = engine_ok e i"
  by (simp_all add: engine_ok_def ok_defs)

lemma engine_ok_book [simp]:
  "engine_ok (book_sample j now e) i = engine_ok e i"
  "engine_ok (e\<lparr>aa25Stats := st\<rparr>) i = engine_ok e i"
  "engine_ok (e\<lparr>aa25TickRegressing := b\<rparr>) i = engine_ok e i"
  "engine_ok (e\<lparr>aa25TickRegressing := b, aa25LastNow := t\<rparr>) i = engine_ok e i"
  "engine_ok (e\<lparr>aa25LossApplied := b\<rparr>) i = engine_ok e i"
  "engine_ok (e\<lparr>aa25LossPending := b, aa25LossApplied := c\<rparr>) i = engine_ok e i"
  "engine_ok (e\<lparr>aa25LossPending := b\<rparr>) i = engine_ok e i"
  "aa25NextSample (book_sample j now e) = j + 1"
  by (simp_all add: book_sample_def Let_def engine_ok_def ok_defs)

lemma engine_ok_reset:
  "engine_ok e i \<Longrightarrow> engine_ok (aa25WithdrawAdmission (aa25InvalidateReception now e)) j"
  by (rule engine_ok_Withdraw) (simp_all add: engine_ok_Invalidate)

lemma engine_ok_gap:
  assumes "engine_ok e (aa25NextSample e)"
  shows "engine_ok (report_gap now (i - aa25NextSample e) e) i"
  using assms by (auto simp: report_gap_def Let_def word_gt_0 intro!: engine_ok_reset)

text \<open>Nothing below an observation touches the sampling grid.\<close>

definition grid :: "'w AA25Engine \<Rightarrow> AA25Config \<times> u64 \<times> u64 \<times> u64 \<times> u64" where
  "grid e = (aa25Config e, aa25SampleAnchor e, aa25NextSample e, aa25NextDeadline e, aa25LastNow e)"

lemma grid_stop [simp]:
  "grid (aa25Publish ev e) = grid e" "grid (aa25PublishFault fault now e) = grid e" "grid (aa25AbortTX now e) = grid e"
  "grid (aa25InvalidateReception now e) = grid e" "grid (aa25WithdrawAdmission e) = grid e"
  "grid (aa25DropFrame e) = grid e" "grid (aa25StartFrame e) = grid e" "grid (aa25CompleteTX now e) = grid e"
  "grid (aa25FailResponse fault now e) = grid e" "grid (aa25FailCharacter fault now e) = grid e"
  by (simp_all add: grid_def stop_defs aa25StartFrame_def aa25CompleteTX_def aa25FailCharacter_def Let_def)

lemma grid_Deliver [simp]: "grid (aa25DeliverLogical b esc now e) = grid e"
  by (simp add: grid_def aa25DeliverLogical_def aa25AdmitResponse_def aa25DropFrame_def Let_def
      split: aa25FramePhase.split)

lemma grid_Feed [simp]: "grid (aa25FeedFrame symbol now e) = grid e"
proof -
  have "grid (crc_feed s e) = grid e" "grid (e\<lparr>aa25EscapePending := b\<rparr>) = grid e" for s b and e :: "'a AA25Engine"
    by (simp_all add: grid_def crc_feed_def)
  then show ?thesis
    by (simp add: aa25FeedFrame_def Let_def)
qed

lemma grid_Symbol [simp]: "grid (aa25CompleteSymbol i now e) = grid e"
  unfolding aa25CompleteSymbol_def Let_def grid_Feed by (simp add: grid_def aa25HandleFinalAck_def Let_def)

lemma grid_Begin [simp]: "grid (aa25BeginCharacter i now e) = grid e"
  by (simp add: grid_def aa25BeginCharacter_def Let_def stop_defs aa25CompleteTX_def split: aa25TXState.split)

lemma grid_decide: "grid (decide_bit high n i now e) = grid e"
proof -
  have "grid (e\<lparr>aa25RXState := rx\<rparr>) = grid e" "grid (e\<lparr>aa25CharShift := x\<rparr>) = grid e"
      "grid (e\<lparr>aa25RXState := rx, aa25IdleRun := 0\<rparr>) = grid e" for rx x
    by (simp_all add: grid_def)
  then show ?thesis
    by (simp add: decide_bit_def Let_def)
qed

lemma grid_Observe [simp]: "grid (aa25Observe level i now e) = grid e"
proof -
  have n: "grid (note_edge l p e) = grid e" "grid (note_vote l e) = grid e" "grid (clear_votes h e) = grid e"
    for l p h and e :: "'a AA25Engine"
    by (simp_all add: grid_def note_edge_def note_vote_def clear_votes_def Let_def)
  have "grid (aa25ObserveCharacter level i now e) = grid e"
    by (simp add: ObserveCharacter_parts Let_def grid_decide n)
  then show ?thesis
    using grid_Begin [of i now e]
    by (auto simp: aa25Observe_def Let_def grid_def split: aa25RXState.split)
qed

lemma Observe_NextSample [simp]: "aa25NextSample (aa25Observe level i now e) = aa25NextSample e"
  using grid_Observe [of level i now e] by (simp add: grid_def)

lemma Stop_NextSample [simp]: "aa25NextSample (aa25WithdrawAdmission (aa25InvalidateReception now e)) = aa25NextSample e"
  by (simp add: stop_defs)

definition safe :: "'w AA25Engine \<Rightarrow> bool" where
  "safe e \<longleftrightarrow> engine_ok e (aa25NextSample e)"

lemma safe_StepRX: "safe e \<Longrightarrow> safe (aa25StepRX now e)"
proof -
  assume ok: "safe e"
  define i where "i = sample_index now e"
  define e1 where "e1 = report_gap now (i - aa25NextSample e) e"
  have "engine_ok e1 i"
    using ok engine_ok_gap by (simp add: safe_def e1_def)
  then have "engine_ok (book_sample i now (snd (call_sample e1))) i"
    by simp
  then have "engine_ok (aa25Observe level i now (book_sample i now (snd (call_sample e1)))) (i + 1)" for level
    by (rule engine_ok_Observe)
  with ok show ?thesis
    by (simp add: StepRX_parts Let_def split_beta safe_def i_def [symmetric] e1_def [symmetric])
qed

section \<open>Transmitting\<close>

lemma engine_ok_next_bit:
  assumes ok: "engine_ok e i" and act: "aa25TXState e = aa25TXActive"
    and n: "unat (aa25TXBit e) < 10 * unat (aa25WireLen (aa25Pinned e))"
    and level: "aa25TXLevel e' = bit_level (aa25Pinned e) (unat (aa25TXBit e))"
    and e': "e' = e\<lparr>aa25TXLevel := aa25TXLevel e', aa25Stats := aa25Stats e', aa25LossPending := aa25LossPending e',
      world := world e', trace := trace e'\<rparr>" "line_ok e'"
  shows "engine_ok (e'\<lparr>aa25TXBit := aa25TXBit e' + 1\<rparr>) i"
proof -
  have "unat (aa25TXBit e) < 10 * 255"
    by (rule less_le_trans [OF n mult_le_mono2 [OF unat_byte_le_255]])
  then have "unat (aa25TXBit e) < 2 ^ 32"
    by simp
  then have s: "unat (aa25TXBit e + 1) = unat (aa25TXBit e) + 1"
    by (rule unat_small_ops)
  have d: "drive_ok e" "char_ok e i" "control_ok e" "tx_ok e"
    using ok act by (simp_all add: engine_ok_def tx_ok_def)
  obtain l st lp w t where eq: "e' = e\<lparr>aa25TXLevel := l, aa25Stats := st, aa25LossPending := lp, world := w, trace := t\<rparr>"
    using e'(1) by blast
  have "aa25TXBit e + 1 \<noteq> aa25TXBase e"
    using d(1) s by (auto simp: drive_ok_def word_eq_unat)
  with d act n level e'(2) s show ?thesis
    by (auto simp: eq engine_ok_def tx_ok_def drive_ok_def char_ok_def echo_ok_def control_ok_def line_ok_def)
qed

lemma DriveEdge_form:
  "\<exists>st lp w t. aa25DriveEdge level deadline now e =
     e\<lparr>aa25TXLevel := level, aa25Stats := st, aa25LossPending := lp, world := w, trace := t\<rparr> \<and>
     edges t = level # edges (trace e)"
proof -
  let ?d = "aa25DriveEdge level deadline now e"
  have "?d = e\<lparr>aa25TXLevel := level, aa25Stats := aa25Stats ?d, aa25LossPending := aa25LossPending ?d,
      world := world ?d, trace := trace ?d\<rparr>"
    by (simp add: aa25DriveEdge_def Let_def aa25Publish_def call_publish_def call_edge_def split_beta)
  moreover have "edges (trace ?d) = level # edges (trace e)"
    by (simp add: aa25DriveEdge_def Let_def)
  ultimately show ?thesis
    by blast
qed

lemma engine_ok_transmit:
  assumes ok: "engine_ok e i" and act: "aa25TXState e = aa25TXActive"
  shows "engine_ok (transmit now e) i"
proof (cases "aa25EchoIndex e < pinned_len e \<and> aa25EchoDeadline e \<le> now")
  case True
  then show ?thesis
    using engine_ok_Fail [OF ok] by (simp add: transmit_def Let_def)
next
  case noecho: False
  have le: "unat (aa25TXBit e) \<le> unat (pinned_len e * 10)"
    using ok act by (simp add: engine_ok_def tx_ok_def drive_ok_def pinned_bits)
  show ?thesis
  proof (cases "aa25TXBit e < pinned_len e * 10")
    case True
    then have n: "unat (aa25TXBit e) < 10 * unat (aa25WireLen (aa25Pinned e))"
      by (simp add: word_less_nat_alt pinned_bits)
    have same: "engine_ok (e\<lparr>aa25TXBit := aa25TXBit e + 1\<rparr>) i"
      if "aa25TXLevel e = bit_level (aa25Pinned e) (unat (aa25TXBit e))"
      using ok act n that by (intro engine_ok_next_bit) (auto simp: engine_ok_def)
    have "engine_ok ((aa25DriveEdge l dl now e)\<lparr>aa25TXBit := aa25TXBit (aa25DriveEdge l dl now e) + 1\<rparr>) i"
      if "l \<noteq> aa25TXLevel e" "l = bit_level (aa25Pinned e) (unat (aa25TXBit e))" for l dl
    proof -
      obtain st lp w t where d: "aa25DriveEdge l dl now e =
          e\<lparr>aa25TXLevel := l, aa25Stats := st, aa25LossPending := lp, world := w, trace := t\<rparr>"
          "edges t = l # edges (trace e)"
        using DriveEdge_form [of l dl now e] by blast
      show ?thesis
        using ok act n that d by (intro engine_ok_next_bit) (auto simp: engine_ok_def line_ok_def)
    qed
    then show ?thesis
      using noecho True ok engine_ok_Fail [OF ok] same
      by (auto simp: transmit_def Let_def aa25TXBitLevel_bit_level simp del: level_cases)
  next
    case False
    then have "aa25TXBit e = pinned_len e * 10"
      using le by (simp add: word_le_nat_alt word_eq_unat not_less)
    then show ?thesis
      using noecho False ok engine_ok_Complete [OF ok act] by (auto simp: transmit_def Let_def)
  qed
qed

lemma engine_ok_StepTX:
  assumes ok: "engine_ok e i"
  shows "engine_ok (aa25StepTX now e) i"
proof (cases "aa25TXState e")
  case aa25TXWaiting
  have "engine_ok (e\<lparr>aa25TXState := aa25TXActive\<rparr>) i" if "aa25FinalComplete e"
    using ok aa25TXWaiting that by (auto simp: engine_ok_def ok_defs wf_prepared_def)
  then show ?thesis
    using ok aa25TXWaiting by (simp add: aa25StepTX_def engine_ok_transmit)
qed (use ok in \<open>simp_all add: aa25StepTX_def engine_ok_transmit engine_ok_AbortTX\<close>)

section \<open>Losses, controls and whole passes\<close>

lemma engine_ok_ApplyLoss: "engine_ok e i \<Longrightarrow> engine_ok (aa25ApplyLoss now e) i"
  by (auto simp: aa25ApplyLoss_def Let_def split_beta intro: engine_ok_reset)

lemma engine_ok_Housekeeping:
  assumes ok: "engine_ok e i"
  shows "engine_ok (aa25StepHousekeeping now e) i"
proof (cases "aa25ControlCount e = 0")
  case False
  define e1 where "e1 = e\<lparr>aa25ControlHead := (aa25ControlHead e + 1) mod 4, aa25ControlCount := aa25ControlCount e - 1,
    aa25Stats := (aa25Stats e)\<lparr>AA25ControlsApplied := AA25ControlsApplied (aa25Stats e) + 1\<rparr>\<rparr>"
  have "unat (aa25ControlCount e - 1) \<le> 4"
    using ok False unat_minus_one [of "aa25ControlCount e"]
    by (auto simp: engine_ok_def control_ok_def word_le_nat_alt)
  moreover have "(aa25ControlHead e + 1) mod 4 < 4"
    by (simp add: word_less_nat_alt unat_mod)
  ultimately have e1: "engine_ok e1 i"
    using ok by (simp add: e1_def engine_ok_def ok_defs word_le_nat_alt)
  have c: "length (aa25Controls e) = 4" "aa25ControlHead e < 4" "\<And>p. aa25ControlOffer p \<in> set (aa25Controls e) \<Longrightarrow> wf_prepared p"
    using ok by (simp_all add: engine_ok_def control_ok_def)
  have offered: "wf_prepared p" if "aa25Controls e ! unat (aa25ControlHead e) = aa25ControlOffer p" for p
    using c that nth_mem [of "unat (aa25ControlHead e)" "aa25Controls e"] by (simp add: word_less_nat_alt)
  have "engine_ok (e1\<lparr>aa25LastGeneration := g, aa25Slot := p, aa25SlotValid := True\<rparr>) i" if "wf_prepared p" for g p
    using e1 that by (auto simp: engine_ok_def ok_defs)
  moreover have w: "engine_ok (e1\<lparr>aa25SlotValid := False, aa25Stats := st\<rparr>) i" for st
    using e1 by (auto simp: engine_ok_def ok_defs)
  moreover have "engine_ok (e2\<lparr>aa25RetryCancel := True\<rparr>) i"
    "aa25TXState e2 = aa25TXIdle \<Longrightarrow> engine_ok (e2\<lparr>aa25RetryCancel := True, aa25PinnedValid := False\<rparr>) i"
    if "engine_ok e2 i" for e2 :: "'a AA25Engine"
    using that by (auto simp: engine_ok_def ok_defs)
  ultimately show ?thesis
    using False e1 offered engine_ok_AbortTX [OF w]
    unfolding aa25StepHousekeeping_def Let_def e1_def [symmetric]
    by (auto split: aa25Control.split)
qed (use ok in \<open>simp add: aa25StepHousekeeping_def\<close>)

lemma grid_flags [simp]:
  "grid (e\<lparr>aa25TXBit := n\<rparr>) = grid e" "grid (e\<lparr>aa25TXState := st\<rparr>) = grid e"
  "grid (aa25DriveEdge l dl now e) = grid e" "grid (snd (call_publish ev e)) = grid e" "grid (snd (call_sample e)) = grid e"
  "grid (e\<lparr>aa25LossPending := b\<rparr>) = grid e" "grid (e\<lparr>aa25LossPending := b, aa25LossApplied := c\<rparr>) = grid e"
  "grid (e\<lparr>aa25LossApplied := b\<rparr>) = grid e" "grid (e\<lparr>aa25TickRegressing := b\<rparr>) = grid e"
  "grid (e\<lparr>aa25RetryCancel := b\<rparr>) = grid e" "grid (e\<lparr>aa25PinnedValid := b, aa25RetryCancel := c\<rparr>) = grid e"
  "grid (e\<lparr>aa25RetryCancel := b, aa25PinnedValid := c\<rparr>) = grid e"
  "grid (e\<lparr>aa25Stats := s\<rparr>) = grid e" "grid (e\<lparr>aa25SlotValid := b, aa25Stats := s\<rparr>) = grid e"
  "grid (e\<lparr>aa25LastGeneration := g, aa25Slot := p, aa25SlotValid := b\<rparr>) = grid e"
  "grid (e\<lparr>aa25ControlHead := h, aa25ControlCount := k\<rparr>) = grid e"
  "grid (e\<lparr>aa25ControlHead := h, aa25ControlCount := k, aa25Stats := s\<rparr>) = grid e"
  by (simp_all add: grid_def aa25DriveEdge_def Let_def)

lemma grid_TX:
  "grid (aa25StepTX now e) = grid e" "grid (aa25ApplyLoss now e) = grid e" "grid (aa25StepHousekeeping now e) = grid e"
proof -
  have "grid (transmit now e) = grid e" for e :: "'a AA25Engine"
    by (simp add: transmit_def Let_def)
  then show "grid (aa25StepTX now e) = grid e"
    by (simp add: aa25StepTX_def split: aa25TXState.split)
  show "grid (aa25ApplyLoss now e) = grid e"
    by (simp add: aa25ApplyLoss_def Let_def split_beta)
  show "grid (aa25StepHousekeeping now e) = grid e"
    by (auto simp: aa25StepHousekeeping_def Let_def split: aa25Control.split) (simp_all add: grid_def)
qed

lemma NextSample_TX [simp]:
  "aa25NextSample (aa25StepTX now e) = aa25NextSample e"
  "aa25NextSample (aa25ApplyLoss now e) = aa25NextSample e"
  "aa25NextSample (aa25StepHousekeeping now e) = aa25NextSample e"
  using grid_TX [of now e] by (simp_all add: grid_def)

lemma safe_pass: "safe e \<Longrightarrow> safe (aa25StepTX now e)" "safe e \<Longrightarrow> safe (aa25ApplyLoss now e)"
  "safe e \<Longrightarrow> safe (aa25StepHousekeeping now e)"
  by (simp_all add: safe_def engine_ok_StepTX engine_ok_ApplyLoss engine_ok_Housekeeping)

theorem safe_Step: "safe e \<Longrightarrow> safe (AA25Step e)"
  by (auto simp: AA25Step_def Let_def split_beta intro!: safe_pass safe_StepRX)
    (auto simp: safe_def intro!: engine_ok_reset)

lemma safe_PushControl:
  assumes "safe e" "\<And>p. item = aa25ControlOffer p \<Longrightarrow> wf_prepared p"
  shows "safe (snd (aa25PushControl item e))"
proof (cases "aa25ControlCount e = 4")
  case False
  have c: "aa25ControlCount e \<le> 4" "control_ok e"
    using assms(1) by (simp_all add: safe_def engine_ok_def control_ok_def)
  then have "aa25ControlCount e < 4"
    using False by (metis le_neq_trans)
  then have "unat (aa25ControlCount e) < 4"
    by (simp add: word_less_nat_alt)
  then have "unat (aa25ControlCount e + 1) \<le> 4"
    by (simp add: unat_word_ariths)
  then show ?thesis
    using assms False c
    by (auto simp: safe_def engine_ok_def ok_defs aa25PushControl_def Let_def word_le_nat_alt
        dest!: subsetD [OF set_update_subset_insert])
qed (use assms in \<open>simp add: aa25PushControl_def\<close>)

section \<open>All runs\<close>

text \<open>What \<open>AA25PrepareResponse\<close> returns is well formed: it is the only source of offered values, since the wire
  bytes are private to the package.\<close>

inductive sample_step :: "'w AA25Engine \<Rightarrow> 'w AA25Engine \<Rightarrow> bool" where
  pass: "sample_step e (AA25Step e)"
| offer: "AA25PrepareResponse g pb sb nn payload = Inr p \<Longrightarrow> sample_step e (snd (AA25OfferPrepared p e))"
| withdraw: "sample_step e (snd (AA25OfferWithdraw e))"
| elsewhere: "sample_step e (e\<lparr>world := w\<rparr>)"

inductive sample_reachable :: "'w AA25Engine \<Rightarrow> bool" where
  new: "AA25NewEngine c ports w = Inr e \<Longrightarrow> sample_reachable e"
| step: "sample_reachable e \<Longrightarrow> sample_step e e' \<Longrightarrow> sample_reachable e'"

lemma safe_new: "AA25NewEngine c ports w = Inr e \<Longrightarrow> safe e"
  by (auto simp: AA25NewEngine_def Let_def split_beta safe_def engine_ok_def ok_defs engine_at_def split: if_splits)

lemma safe_step: "sample_step e e' \<Longrightarrow> safe e \<Longrightarrow> safe e'"
proof (induction rule: sample_step.induct)
  case (offer g pb sb nn payload p e)
  then show ?case
    using safe_PushControl [of e "aa25ControlOffer p"] wf_PrepareResponse
    by (simp add: AA25OfferPrepared_def)
next
  case (withdraw e)
  then show ?case
    using safe_PushControl [of e aa25ControlWithdraw] by (simp add: AA25OfferWithdraw_def)
next
  case (elsewhere e w)
  then show ?case
    by (simp add: safe_def engine_ok_def ok_defs)
qed (rule safe_Step)

lemma reachable_safe: "sample_reachable e \<Longrightarrow> safe e"
  by (induction rule: sample_reachable.induct) (auto intro: safe_new safe_step)

end
