(* ===== verification/Sample_Demo.thy ===== *)
theory Sample_Demo
  imports Sample_Runs
begin

text \<open>
  A concrete engine for the examples: 24000 ticks per second, address 0x08, an idle line, a clock that counts on
  with every reading, and a sink that takes an event when the second part of the world says so.
\<close>

type_synonym demo_world = "u64 \<times> bool"

definition demo_ports :: "demo_world AA25Ports" where
  "demo_ports = \<lparr>AA25Levels = Some (\<lambda>w. (AA25LevelHigh, w)), AA25Edges = Some (\<lambda>l w. w),
     AA25Ticks = Some (\<lambda>w. (fst w, (fst w + 1, snd w))), AA25Sink = Some (\<lambda>ev w. (snd w, w))\<rparr>"

definition demo_config :: AA25Config where
  "demo_config = \<lparr>AA25TickHz = 24000, AA25ResponderAddress = 0x08, AA25TurnaroundTicks = 5,
     AA25TXLateToleranceTicks = 0, AA25EchoAllowanceTicks = 20\<rparr>"

definition demo_new :: "AA25Err + demo_world AA25Engine" where
  "demo_new = AA25NewEngine demo_config demo_ports (0, True)"

definition demo_engine :: "demo_world AA25Engine" where
  "demo_engine = projr demo_new"

definition demo_response :: "AA25Err + AA25Prepared" where
  "demo_response = AA25PrepareResponse 1 0x07 0x04 0 [0x55, 0xAA]"

text \<open>The engine after the first offer has been taken up, and one that ran late while its sink was full.\<close>

definition demo_offered :: "demo_world AA25Engine" where
  "demo_offered = AA25Step (snd (AA25OfferPrepared (projr demo_response) demo_engine))"

definition demo_refused :: "demo_world AA25Engine" where
  "demo_refused = AA25Step (demo_engine\<lparr>world := (5, False)\<rparr>)"

lemma demo_new_ok: "demo_new = Inr demo_engine"
proof -
  have "\<not> isl demo_new"
    by code_simp
  then show ?thesis
    by (simp add: demo_engine_def sum.collapse(2))
qed

lemma demo_response_ok: "demo_response = Inr (projr demo_response)"
  by (simp add: demo_response_def AA25PrepareResponse_def Let_def split_beta)

lemma demo_reachable: "sample_reachable demo_engine" "sample_reachable demo_offered" "sample_reachable demo_refused"
proof -
  show e: "sample_reachable demo_engine"
    using demo_new_ok unfolding demo_new_def by (rule sample_reachable.new)
  have "AA25PrepareResponse 1 0x07 0x04 0 [0x55, 0xAA] = Inr (projr demo_response)"
    using demo_response_ok by (simp only: demo_response_def)
  from sample_reachable.step [OF sample_reachable.step [OF e offer [OF this]] pass]
  show "sample_reachable demo_offered"
    by (simp only: demo_offered_def)
  show "sample_reachable demo_refused"
    unfolding demo_refused_def by (rule sample_reachable.step [OF sample_reachable.step [OF e elsewhere] pass])
qed

lemma demo_refused_state: "aa25LossPending demo_refused \<and> aa25TXState demo_refused = aa25TXIdle"
  by code_simp

text \<open>An engine that waits for requests with command 0x07 0x04 and no data.\<close>

definition demo_ready :: "demo_world AA25Engine" where
  "demo_ready = (engine_at demo_config demo_ports 4000 0 (1, True))\<lparr>aa25SlotValid := True,
     aa25Slot := prepared_zero\<lparr>AA25Generation := 1, AA25MatchPB := 0x07, AA25MatchSB := 0x04\<rparr>\<rparr>"

end
