(* ===== verification/Sample_Guarantees.thy ===== *)
theory Sample_Guarantees
  imports Sample_Demo
begin

text \<open>
  What the sampling engine guarantees on the line: which levels it drives, how many edges a pass writes, that it
  stays silent without an offer, and that a refused event silences it until the loss is reported.
\<close>

section \<open>Edges and the end of a response\<close>

text \<open>Writing an edge and leaving the line low are counted together: an abort trades one for the other, so only
  a scheduled edge can add to the sum.\<close>

definition drive :: "'w AA25Engine \<Rightarrow> nat" where
  "drive e = length (edges (trace e)) + (if aa25TXLevel e = AA25LevelLow then 1 else 0)"

definition kept :: "'w AA25Engine \<Rightarrow> 'w AA25Engine \<Rightarrow> bool" where
  "kept e e' \<longleftrightarrow> drive e' = drive e \<and> (aa25TXState e' \<noteq> aa25TXIdle \<longrightarrow> edges (trace e') = edges (trace e))"

lemma drive_simps [simp]:
  "drive (aa25Publish ev e) = drive e" "drive (aa25PublishFault fault now e) = drive e"
  "drive (snd (call_publish ev e)) = drive e" "drive (snd (call_sample e)) = drive e"
  "drive (snd (call_ticks e)) = drive e" "drive (aa25AbortTX now e) = drive e"
  by (simp_all add: drive_def)

lemma kept_stop [simp]:
  "drive (aa25InvalidateReception now e) = drive e" "drive (aa25WithdrawAdmission e) = drive e"
  "drive (aa25DropFrame e) = drive e" "drive (aa25StartFrame e) = drive e"
  "drive (aa25CompleteTX now e) = drive e" "drive (aa25FailResponse fault now e) = drive e"
  using drive_simps(6) [of now e] drive_simps(6) [of now "aa25PublishFault fault now e"]
  by (simp_all add: stop_defs aa25StartFrame_def aa25CompleteTX_def drive_def)

lemma stop_tx [simp]:
  "aa25TXState (aa25FailResponse fault now e) = aa25TXIdle"
  "aa25TXState (aa25DropFrame e) = aa25TXState e" "aa25TXState (aa25StartFrame e) = aa25TXState e"
  "aa25TXState (aa25WithdrawAdmission e) = aa25TXState e"
  "edges (trace (aa25DropFrame e)) = edges (trace e)" "edges (trace (aa25StartFrame e)) = edges (trace e)"
  "edges (trace (aa25WithdrawAdmission e)) = edges (trace e)"
  "edges (trace (aa25CompleteTX now e)) = edges (trace e)"
  by (simp_all add: stop_defs aa25StartFrame_def aa25CompleteTX_def)

lemma kept_FailCharacter: "kept e (aa25FailCharacter fault now e)"
  by (simp add: kept_def aa25FailCharacter_def Let_def)

lemma Deliver_edges [simp]:
  "edges (trace (aa25DeliverLogical b esc now e)) = edges (trace e)"
  "aa25TXLevel (aa25DeliverLogical b esc now e) = aa25TXLevel e"
  by (simp_all add: aa25DeliverLogical_def aa25AdmitResponse_def aa25DropFrame_def Let_def split: aa25FramePhase.split)

lemma crc_feed_edges [simp]: "edges (trace (crc_feed s e)) = edges (trace e)" "aa25TXLevel (crc_feed s e) = aa25TXLevel e"
  by (simp_all add: crc_feed_def)

lemma kept_Feed: "kept e (aa25FeedFrame symbol now e)"
  by (simp add: kept_def aa25FeedFrame_def Let_def) (simp add: drive_def)

lemma kept_from:
  "kept e1 e2 \<Longrightarrow> edges (trace e1) = edges (trace e) \<Longrightarrow> aa25TXLevel e1 = aa25TXLevel e \<Longrightarrow> kept e e2"
  by (simp add: kept_def drive_def)

lemma kept_Symbol: "kept e (aa25CompleteSymbol i now e)"
proof -
  have ack: "edges (trace (aa25HandleFinalAck s now e)) = edges (trace e)"
    "aa25TXLevel (aa25HandleFinalAck s now e) = aa25TXLevel e" for s and e :: "'a AA25Engine"
    by (simp_all add: aa25HandleFinalAck_def Let_def)
  show ?thesis
    unfolding aa25CompleteSymbol_def Let_def
    by (rule kept_from [OF kept_Feed]) (simp_all add: ack)
qed

lemma kept_refl: "edges (trace e') = edges (trace e) \<Longrightarrow> aa25TXLevel e' = aa25TXLevel e \<Longrightarrow> kept e e'"
  by (simp add: kept_def drive_def)

text \<open>\<open>aa25BeginCharacter\<close> in three parts: reset the character, complete a response that has been echoed in full,
  judge the start bit by the state of the transmitter.\<close>

definition settle_response :: "u64 \<Rightarrow> 'w AA25Engine \<Rightarrow> 'w AA25Engine" where
  "settle_response now e = (if aa25TXState e = aa25TXActive \<and> aa25TXBit e = pinned_len e * 10 \<and>
     aa25EchoIndex e = pinned_len e \<and> aa25TXDeadline (aa25TXBit e) e \<le> now then aa25CompleteTX now e else e)"

definition judge_start :: "u64 \<Rightarrow> 'w AA25Engine \<Rightarrow> 'w AA25Engine" where
  "judge_start now e = (let e = e\<lparr>aa25CharEcho := aa25TXState e = aa25TXActive\<rparr> in
     case aa25TXState e of
       aa25TXWaiting \<Rightarrow> aa25WithdrawAdmission (aa25DropFrame (aa25AbortTX now (aa25PublishFault AA25FaultRXBeforeResponse now e)))
     | aa25TXActive \<Rightarrow> if (aa25TXBit e + 10 - 1) div 10 \<le> aa25EchoIndex e
         then aa25FailResponse AA25FaultEchoUnsolicited now e else e
     | aa25TXIdle \<Rightarrow> e | aa25TXAwaitAck \<Rightarrow> e)"

lemma Begin_parts: "aa25BeginCharacter i now e = judge_start now (settle_response now (char_start i now e))"
  unfolding aa25BeginCharacter_def judge_start_def settle_response_def char_start_def Let_def ..

lemma settle_edges [simp]:
  "edges (trace (settle_response now e)) = edges (trace e)" "aa25TXLevel (settle_response now e) = aa25TXLevel e"
  "edges (trace (char_start i now e)) = edges (trace e)" "aa25TXLevel (char_start i now e) = aa25TXLevel e"
  by (simp_all add: settle_response_def char_start_def) (simp add: aa25CompleteTX_def)

lemma kept_judge: "kept e (judge_start now e)"
proof -
  define e1 where "e1 = e\<lparr>aa25CharEcho := aa25TXState e = aa25TXActive\<rparr>"
  have "kept e1 (judge_start now e)"
    unfolding judge_start_def Let_def e1_def [symmetric] by (simp add: kept_def split: aa25TXState.split)
  then show ?thesis
    by (rule kept_from) (simp_all add: e1_def)
qed

lemma kept_Begin: "kept e (aa25BeginCharacter i now e)"
  unfolding Begin_parts by (rule kept_from [OF kept_judge]) simp_all

lemma kept_ObserveCharacter: "kept e (aa25ObserveCharacter level i now e)"
proof -
  have d: "kept e (decide_bit high n i now e)" for high n and e :: "'a AA25Engine"
  proof -
    have "kept e (aa25FailResponse f now (e\<lparr>aa25CharShift := x\<rparr>))" "kept e (aa25FailResponse f now e)" for f x
      by (simp_all add: kept_def) (simp add: drive_def)
    moreover have "kept e (aa25FailCharacter f now (e\<lparr>aa25RXState := rx\<rparr>))"
        "kept e (aa25FailCharacter f now (e\<lparr>aa25RXState := rx, aa25IdleRun := 0\<rparr>))"
        "kept e (aa25CompleteSymbol i now (e\<lparr>aa25RXState := rx\<rparr>))" for f rx
      by (rule kept_from [OF kept_FailCharacter] kept_from [OF kept_Symbol]; simp)+
    ultimately show ?thesis
      by (auto simp: decide_bit_def Let_def intro: kept_refl)
  qed
  show ?thesis
    unfolding ObserveCharacter_parts Let_def
    by (auto intro!: kept_refl kept_from [OF d] simp: note_edge_def note_vote_def clear_votes_def Let_def)
qed

lemma kept_Observe: "kept e (aa25Observe level i now e)"
proof -
  have p: "kept e (e'\<lparr>aa25PreviousLevel := l\<rparr>) = kept e e'" for e' :: "'a AA25Engine" and l
    by (simp add: kept_def drive_def)
  show ?thesis
    using kept_ObserveCharacter kept_Begin
    by (auto simp: aa25Observe_def Let_def p intro: kept_refl split: aa25RXState.split)
qed

lemma Observe_resync:
  "aa25RXState e = aa25RXResync \<Longrightarrow> aa25TXState (aa25Observe level i now e) = aa25TXState e"
  by (simp add: aa25Observe_def Let_def)

lemma kept_StepRX: "kept e (aa25StepRX now e)"
proof (cases "now < aa25NextDeadline e")
  case False
  define i where "i = sample_index now e"
  define e1 where "e1 = report_gap now (i - aa25NextSample e) e"
  let ?e = "book_sample i now (snd (call_sample e1))"
  have step: "aa25StepRX now e = aa25Observe (fst (call_sample e1)) i now ?e"
    using False by (simp add: StepRX_parts Let_def split_beta i_def [symmetric] e1_def [symmetric])
  have k: "kept ?e (aa25Observe l i now ?e)" for l
    by (rule kept_Observe)
  have b: "edges (trace ?e) = edges (trace e1)" "aa25TXLevel ?e = aa25TXLevel e1"
      "aa25TXState ?e = aa25TXState e1" "aa25RXState ?e = aa25RXState e1"
    by (simp_all add: book_sample_def Let_def)
  show ?thesis
  proof (cases "0 < i - aa25NextSample e")
    case True
    then have "aa25TXState e1 = aa25TXIdle" "aa25RXState e1 = aa25RXResync" "drive e1 = drive e"
      by (simp_all add: e1_def report_gap_def Let_def aa25WithdrawAdmission_def)
        (simp_all add: drive_def aa25InvalidateReception_def aa25DropFrame_def)
    with k b show ?thesis
      by (simp add: step kept_def Observe_resync) (simp add: drive_def b)
  next
    case False
    then have "e1 = e"
      by (simp add: e1_def report_gap_def)
    then show ?thesis
      using k b by (auto simp: step intro: kept_from)
  qed
qed (simp add: kept_def aa25StepRX_def)

lemma ApplyLoss_tx: "aa25TXState (aa25ApplyLoss now e) = aa25TXState e \<or> aa25TXState (aa25ApplyLoss now e) = aa25TXIdle"
  by (simp add: aa25ApplyLoss_def Let_def split_beta)

lemma drive_flags [simp]:
  "drive (e\<lparr>aa25LossApplied := b\<rparr>) = drive e" "drive (e\<lparr>aa25LossPending := b\<rparr>) = drive e"
  "drive (e\<lparr>aa25LossPending := b, aa25LossApplied := c\<rparr>) = drive e"
  "drive (e\<lparr>aa25TickRegressing := b\<rparr>) = drive e" "drive (e\<lparr>aa25TickRegressing := b, aa25LastNow := t\<rparr>) = drive e"
  by (simp_all add: drive_def)

lemma kept_ApplyLoss: "kept e (aa25ApplyLoss now e)"
  by (auto simp: kept_def aa25ApplyLoss_def Let_def split_beta)

lemma drive_Housekeeping: "drive (aa25StepHousekeeping now e) = drive e"
proof -
  have f: "drive (e2\<lparr>aa25RetryCancel := x\<rparr>) = drive e2" "drive (e2\<lparr>aa25RetryCancel := x, aa25PinnedValid := y\<rparr>) = drive e2"
    "drive (e2\<lparr>aa25SlotValid := x, aa25Stats := st\<rparr>) = drive e2"
    "drive (e2\<lparr>aa25LastGeneration := g, aa25Slot := p, aa25SlotValid := y\<rparr>) = drive e2"
    "drive (e2\<lparr>aa25ControlHead := h, aa25ControlCount := n, aa25Stats := st\<rparr>) = drive e2"
    "drive (e2\<lparr>aa25ControlHead := h, aa25ControlCount := n\<rparr>) = drive e2"
    for e2 :: "'a AA25Engine" and x y p g h n st
    by (simp_all add: drive_def)
  show ?thesis
    by (auto simp: aa25StepHousekeeping_def Let_def f split: aa25Control.split)
qed

section \<open>At most two edges per pass\<close>

lemma transmit_drive: "drive (transmit now e) = drive e \<or> drive (transmit now e) \<le> length (edges (trace e)) + 2"
proof -
  have "drive ((aa25DriveEdge l dl now e)\<lparr>aa25TXBit := n\<rparr>) \<le> length (edges (trace e)) + 2" for l dl n
  proof -
    obtain st lp w t where "aa25DriveEdge l dl now e =
        e\<lparr>aa25TXLevel := l, aa25Stats := st, aa25LossPending := lp, world := w, trace := t\<rparr>"
        "edges t = l # edges (trace e)"
      using DriveEdge_form [of l dl now e] by blast
    then show ?thesis
      by (simp add: drive_def)
  qed
  moreover have "drive (e\<lparr>aa25TXBit := n\<rparr>) = drive e" for n
    by (simp add: drive_def)
  ultimately show ?thesis
    by (auto simp: transmit_def Let_def)
qed

lemma StepTX_drive:
  "drive (aa25StepTX now e) = drive e \<or> drive (aa25StepTX now e) \<le> length (edges (trace e)) + 2"
  "aa25TXState e = aa25TXIdle \<Longrightarrow> drive (aa25StepTX now e) = drive e"
  using transmit_drive [of now e] transmit_drive [of now "e\<lparr>aa25TXState := aa25TXActive\<rparr>"]
  by (auto simp: aa25StepTX_def split: aa25TXState.split) (auto simp: drive_def)

lemma drive_bounds: "length (edges (trace e)) \<le> drive e" "drive e \<le> length (edges (trace e)) + 1"
  by (simp_all add: drive_def)

text \<open>
  One pass writes at most two edges.  The comment on the engine promises one; the second is the
  release that follows when the event of a falling edge is refused.
\<close>

theorem at_most_two_edges: "length (edges (trace (AA25Step e))) \<le> length (edges (trace e)) + 2"
proof -
  obtain now e0 where t: "call_ticks e = (now, e0)"
    by fastforce
  have e0: "edges (trace e0) = edges (trace e)" "aa25TXLevel e0 = aa25TXLevel e" "drive e0 = drive e"
    using t edges_ports(4) [of e] call_ticks_frame [of e] drive_simps(5) [of e] by simp_all
  define e1 where "e1 = aa25ApplyLoss now (aa25StepRX now (e0\<lparr>aa25TickRegressing := False, aa25LastNow := now\<rparr>))"
  define e2 where "e2 = aa25StepHousekeeping now (aa25ApplyLoss now (aa25StepTX now e1))"
  have k1: "kept (e0\<lparr>aa25TickRegressing := False, aa25LastNow := now\<rparr>) (aa25StepRX now (e0\<lparr>aa25TickRegressing := False, aa25LastNow := now\<rparr>))"
    by (rule kept_StepRX)
  then have d1: "drive e1 = drive e"
    using kept_ApplyLoss [of "aa25StepRX now (e0\<lparr>aa25TickRegressing := False, aa25LastNow := now\<rparr>)" now] e0
    by (simp add: kept_def e1_def)
  have same: "edges (trace e1) = edges (trace e)" if "aa25TXState e1 \<noteq> aa25TXIdle"
    using that k1 kept_ApplyLoss [of "aa25StepRX now (e0\<lparr>aa25TickRegressing := False, aa25LastNow := now\<rparr>)" now]
      ApplyLoss_tx [of now "aa25StepRX now (e0\<lparr>aa25TickRegressing := False, aa25LastNow := now\<rparr>)"] e0
    by (auto simp: kept_def e1_def)
  have "drive e2 = drive (aa25StepTX now e1)"
    using kept_ApplyLoss [of "aa25StepTX now e1" now] by (simp add: e2_def drive_Housekeeping kept_def)
  then have "drive e2 \<le> length (edges (trace e)) + 2"
    using StepTX_drive [where e = e1 and now = now] same d1 drive_bounds(2) [of e] by fastforce
  then have pass: "length (edges (trace e2)) \<le> length (edges (trace e)) + 2"
    using drive_bounds(1) [of e2] by linarith
  define r where "r = (if \<not> aa25TickRegressing e0
                 then aa25WithdrawAdmission (aa25InvalidateReception now
                        (aa25PublishFault AA25FaultTickRegression now (e0\<lparr>aa25TickRegressing := True\<rparr>)))
                 else e0)"
  have "drive (aa25ApplyLoss now r) = drive e"
    using kept_ApplyLoss [of r now] e0(3) by (simp add: kept_def r_def)
  then have "length (edges (trace (aa25ApplyLoss now r))) \<le> length (edges (trace e)) + 2"
    using drive_bounds(1) [of "aa25ApplyLoss now r"] drive_bounds(2) [of e] by linarith
  with pass show ?thesis
    by (simp add: AA25Step_def t Let_def e1_def [symmetric] e2_def [symmetric] r_def [symmetric])
qed

section \<open>Silence\<close>

text \<open>A muted engine has nothing to send and cannot come to have it by receiving.\<close>

definition muted :: "'w AA25Engine \<Rightarrow> bool" where
  "muted e \<longleftrightarrow> \<not> aa25SlotValid e \<and> \<not> aa25PinnedValid e \<and> aa25TXState e = aa25TXIdle \<and> aa25TXLevel e = AA25LevelHigh"

definition mute_step :: "'w AA25Engine \<Rightarrow> 'w AA25Engine \<Rightarrow> bool" where
  "mute_step e e' \<longleftrightarrow> muted e' \<and> edges (trace e') = edges (trace e) \<and> aa25LossApplied e' = aa25LossApplied e \<and>
     aa25Controls e' = aa25Controls e \<and> aa25ControlHead e' = aa25ControlHead e \<and>
     (aa25LossPending e \<longrightarrow> aa25LossPending e')"

lemma loss_mono [simp]:
  "aa25LossPending e \<Longrightarrow> aa25LossPending (aa25Publish ev e)"
  "aa25LossPending e \<Longrightarrow> aa25LossPending (aa25PublishFault fault now e)"
  by (simp_all add: aa25PublishFault_def aa25Publish_def call_publish_def split_beta Let_def)

lemma loss_ports [simp]:
  "aa25LossPending (snd (call_publish ev e)) = aa25LossPending e" "aa25LossPending (snd (call_sample e)) = aa25LossPending e"
  by simp_all

lemma mute_idle: "aa25TXState e = aa25TXIdle \<Longrightarrow> aa25AbortTX now e = e"
  by (simp add: aa25AbortTX_def)

lemmas mute_defs = mute_step_def muted_def mute_idle stop_defs aa25StartFrame_def Let_def

lemma mute_Deliver: "muted e \<Longrightarrow> mute_step e (aa25DeliverLogical b esc now e)"
  by (simp add: aa25DeliverLogical_def aa25AdmitResponse_def mute_defs split: aa25FramePhase.split)

lemma mute_from:
  "mute_step e1 e2 \<Longrightarrow> edges (trace e1) = edges (trace e) \<Longrightarrow> aa25LossApplied e1 = aa25LossApplied e \<Longrightarrow>
   aa25Controls e1 = aa25Controls e \<Longrightarrow> aa25ControlHead e1 = aa25ControlHead e \<Longrightarrow>
   (aa25LossPending e \<Longrightarrow> aa25LossPending e1) \<Longrightarrow> mute_step e e2"
  by (simp add: mute_step_def)

lemma muted_fields [simp]:
  "muted (aa25Publish ev e) = muted e" "muted (aa25PublishFault fault now e) = muted e"
  "muted (crc_feed s e) = muted e" "muted (e\<lparr>aa25EscapePending := x\<rparr>) = muted e"
  by (simp_all add: muted_def crc_feed_def)

lemma crc_feed_loss [simp]:
  "aa25LossApplied (crc_feed s e) = aa25LossApplied e" "aa25LossPending (crc_feed s e) = aa25LossPending e"
  "aa25Controls (crc_feed s e) = aa25Controls e" "aa25ControlHead (crc_feed s e) = aa25ControlHead e"
  by (simp_all add: crc_feed_def)

lemma mute_Feed:
  assumes "muted e"
  shows "mute_step e (aa25FeedFrame symbol now e)"
proof -
  have "mute_step e (aa25DeliverLogical b x now (crc_feed s e))"
      "mute_step e (aa25DeliverLogical b x now (crc_feed s (e\<lparr>aa25EscapePending := y\<rparr>)))" for b s x y
    by (rule mute_from [OF mute_Deliver]; use assms in simp)+
  moreover have "mute_step e (crc_feed s (e\<lparr>aa25EscapePending := y\<rparr>))" "mute_step e e" for s y
    using assms by (simp_all add: mute_step_def)
  ultimately show ?thesis
    using assms by (auto simp: aa25FeedFrame_def Let_def) (auto simp: mute_defs)
qed

lemma mute_Symbol: "muted e \<Longrightarrow> mute_step e (aa25CompleteSymbol i now e)"
  unfolding aa25CompleteSymbol_def Let_def
  by (rule mute_from [OF mute_Feed]) (simp_all add: muted_def)

lemma mute_Begin: "muted e \<Longrightarrow> mute_step e (aa25BeginCharacter i now e)"
  by (simp add: Begin_parts judge_start_def settle_response_def char_start_def mute_defs)

lemma mute_FailCharacter: "muted e \<Longrightarrow> mute_step e (aa25FailCharacter fault now e)"
  by (simp add: aa25FailCharacter_def mute_defs)

lemma note_mute [simp]:
  "muted (note_edge level position e) = muted e" "muted (note_vote level e) = muted e" "muted (clear_votes high e) = muted e"
  "edges (trace (note_edge level position e)) = edges (trace e)" "edges (trace (note_vote level e)) = edges (trace e)"
  "edges (trace (clear_votes high e)) = edges (trace e)"
  "aa25LossApplied (note_edge level position e) = aa25LossApplied e" "aa25LossApplied (note_vote level e) = aa25LossApplied e"
  "aa25LossApplied (clear_votes high e) = aa25LossApplied e"
  "aa25LossPending (note_edge level position e) = aa25LossPending e" "aa25LossPending (note_vote level e) = aa25LossPending e"
  "aa25LossPending (clear_votes high e) = aa25LossPending e"
  "aa25Controls (note_edge level position e) = aa25Controls e" "aa25Controls (note_vote level e) = aa25Controls e"
  "aa25Controls (clear_votes high e) = aa25Controls e"
  "aa25ControlHead (note_edge level position e) = aa25ControlHead e" "aa25ControlHead (note_vote level e) = aa25ControlHead e"
  "aa25ControlHead (clear_votes high e) = aa25ControlHead e"
  by (simp_all add: note_edge_def note_vote_def clear_votes_def Let_def muted_def)

lemma mute_same:
  "muted e' \<Longrightarrow> edges (trace e') = edges (trace e) \<Longrightarrow> aa25LossApplied e' = aa25LossApplied e \<Longrightarrow>
   aa25Controls e' = aa25Controls e \<Longrightarrow> aa25ControlHead e' = aa25ControlHead e \<Longrightarrow>
   aa25LossPending e' = aa25LossPending e \<Longrightarrow> mute_step e e'"
  by (simp add: mute_step_def)

lemma mute_ObserveCharacter:
  assumes "muted e"
  shows "mute_step e (aa25ObserveCharacter level i now e)"
proof -
  have d: "mute_step e (decide_bit high n i now e)" if "muted e" for high n and e :: "'a AA25Engine"
  proof -
    have "mute_step e (aa25FailCharacter f now (e\<lparr>aa25RXState := rx\<rparr>))"
        "mute_step e (aa25FailCharacter f now (e\<lparr>aa25RXState := rx, aa25IdleRun := 0\<rparr>))"
        "mute_step e (aa25CompleteSymbol i now (e\<lparr>aa25RXState := rx\<rparr>))" for f rx
      by (rule mute_from [OF mute_FailCharacter] mute_from [OF mute_Symbol]; use that in \<open>simp add: muted_def\<close>)+
    then show ?thesis
      using that by (auto simp: decide_bit_def Let_def mute_step_def muted_def)
  qed
  have "mute_step e (decide_bit h n i now (clear_votes h (note_vote level (note_edge level k e))))" for h n k
    by (rule mute_from [OF d]) (use assms in simp_all)
  moreover have "mute_step e (note_edge level k e)" "mute_step e (note_vote level (note_edge level k e))" for k
    using assms by (simp_all add: mute_same)
  ultimately show ?thesis
    unfolding ObserveCharacter_parts Let_def by simp
qed

lemma mute_Observe:
  assumes "muted e"
  shows "mute_step e (aa25Observe level i now e)"
proof -
  have p: "mute_step e (e'\<lparr>aa25PreviousLevel := l\<rparr>) = mute_step e e'" for e' :: "'a AA25Engine" and l
    by (simp add: mute_step_def muted_def)
  show ?thesis
    using assms mute_ObserveCharacter [OF assms] mute_Begin [OF assms]
    by (auto simp: aa25Observe_def Let_def p split: aa25RXState.split) (auto simp: mute_step_def muted_def)
qed

lemma mute_StepRX:
  assumes "muted e"
  shows "mute_step e (aa25StepRX now e)"
proof (cases "now < aa25NextDeadline e")
  case False
  have gap: "mute_step e (report_gap now n e)" for n
    using assms by (simp add: report_gap_def mute_defs)
  have "mute_step e (aa25Observe l i now (book_sample i now (snd (call_sample (report_gap now n e)))))" for l i n
    by (rule mute_from [OF mute_Observe]) (use gap in \<open>simp_all add: mute_step_def muted_def book_sample_def Let_def\<close>)
  with False show ?thesis
    by (simp add: StepRX_parts Let_def split_beta)
qed (use assms in \<open>simp add: aa25StepRX_def mute_step_def\<close>)

lemma StepTX_muted: "muted e \<Longrightarrow> aa25StepTX now e = e"
  by (simp add: muted_def aa25StepTX_def)

lemma ApplyLoss_muted:
  "muted e \<Longrightarrow> muted (aa25ApplyLoss now e) \<and> edges (trace (aa25ApplyLoss now e)) = edges (trace e) \<and>
     aa25Controls (aa25ApplyLoss now e) = aa25Controls e \<and> aa25ControlHead (aa25ApplyLoss now e) = aa25ControlHead e"
  by (simp add: aa25ApplyLoss_def split_beta mute_defs)

subsection \<open>No response without an offer\<close>

inductive unoffered :: "'w AA25Engine \<Rightarrow> bool" where
  new: "AA25NewEngine c ports w = Inr e \<Longrightarrow> unoffered e"
| pass: "unoffered e \<Longrightarrow> unoffered (AA25Step e)"
| withdraw: "unoffered e \<Longrightarrow> unoffered (snd (AA25OfferWithdraw e))"
| elsewhere: "unoffered e \<Longrightarrow> unoffered (e\<lparr>world := w\<rparr>)"

definition no_offer :: "'w AA25Engine \<Rightarrow> bool" where
  "no_offer e \<longleftrightarrow> length (aa25Controls e) = 4 \<and> aa25ControlHead e < 4 \<and> (\<forall>p. aa25ControlOffer p \<notin> set (aa25Controls e))"

lemma muted_Housekeeping:
  assumes "muted e" "no_offer e \<or> aa25LossPending e"
  shows "muted (aa25StepHousekeeping now e) \<and> edges (trace (aa25StepHousekeeping now e)) = edges (trace e)"
proof -
  have "aa25Controls e ! unat (aa25ControlHead e) \<noteq> aa25ControlOffer p" if n: "no_offer e" for p
  proof -
    have "aa25Controls e ! unat (aa25ControlHead e) \<in> set (aa25Controls e)"
      using n by (simp add: no_offer_def word_less_nat_alt)
    with n show ?thesis
      unfolding no_offer_def by metis
  qed
  with assms show ?thesis
    by (auto simp: aa25StepHousekeeping_def mute_defs split: aa25Control.split)
qed

lemma no_offer_Housekeeping: "no_offer e \<Longrightarrow> no_offer (aa25StepHousekeeping now e)"
  by (auto simp: aa25StepHousekeeping_def Let_def no_offer_def word_less_nat_alt unat_mod split: aa25Control.split)

lemma muted_Step:
  assumes m: "muted e" and n: "no_offer e"
  shows "muted (AA25Step e) \<and> no_offer (AA25Step e) \<and> edges (trace (AA25Step e)) = edges (trace e)"
proof -
  obtain now e0 where t: "call_ticks e = (now, e0)"
    by fastforce
  have e0: "muted e0" "no_offer e0" "edges (trace e0) = edges (trace e)"
    using m n t call_ticks_frame [of e] edges_ports(4) [of e] by (simp_all add: muted_def no_offer_def)
  define a where "a = aa25StepRX now (e0\<lparr>aa25TickRegressing := False, aa25LastNow := now\<rparr>)"
  have "muted (e0\<lparr>aa25TickRegressing := False, aa25LastNow := now\<rparr>)"
    using e0 by (simp add: muted_def)
  from mute_StepRX [OF this, of now] have a: "muted a" "no_offer a" "edges (trace a) = edges (trace e)"
    using e0 by (simp_all add: a_def mute_step_def no_offer_def)
  define c where "c = aa25ApplyLoss now (aa25StepTX now (aa25ApplyLoss now a))"
  have "muted c" "no_offer c" "edges (trace c) = edges (trace e)"
    using a ApplyLoss_muted [of a now] ApplyLoss_muted [of "aa25ApplyLoss now a" now]
    by (simp_all add: c_def StepTX_muted no_offer_def)
  then have pass: "muted (aa25StepHousekeeping now c)" "no_offer (aa25StepHousekeeping now c)"
      "edges (trace (aa25StepHousekeeping now c)) = edges (trace e)"
    using muted_Housekeeping [of c now] no_offer_Housekeeping [of c now] by simp_all
  define r where "r = (if \<not> aa25TickRegressing e0
     then aa25WithdrawAdmission (aa25InvalidateReception now
            (aa25PublishFault AA25FaultTickRegression now (e0\<lparr>aa25TickRegressing := True\<rparr>))) else e0)"
  have "muted r" "no_offer r" "edges (trace r) = edges (trace e)"
    using e0 by (simp_all add: r_def mute_defs no_offer_def)
  then have "muted (aa25ApplyLoss now r)" "no_offer (aa25ApplyLoss now r)" "edges (trace (aa25ApplyLoss now r)) = edges (trace e)"
    using ApplyLoss_muted [of r now] by (simp_all add: no_offer_def)
  with pass show ?thesis
    by (simp add: AA25Step_def t Let_def r_def [symmetric] a_def [symmetric] c_def [symmetric])
qed

lemma unoffered_muted: "unoffered e \<Longrightarrow> muted e \<and> no_offer e \<and> edges (trace e) = []"
proof (induction rule: unoffered.induct)
  case (new c ports w e)
  then show ?case
    by (auto simp: AA25NewEngine_def Let_def split_beta engine_at_def muted_def no_offer_def split: if_splits)
next
  case (pass e)
  then show ?case
    using muted_Step [of e] by simp
next
  case (withdraw e)
  then show ?case
    by (auto simp: AA25OfferWithdraw_def aa25PushControl_def Let_def muted_def no_offer_def
        dest!: subsetD [OF set_update_subset_insert])
next
  case (elsewhere e w)
  then show ?case
    by (simp add: muted_def no_offer_def)
qed

subsection \<open>No response while a loss is unreported\<close>

definition loss_ok :: "'w AA25Engine \<Rightarrow> bool" where
  "loss_ok e \<longleftrightarrow> (aa25LossApplied e \<longrightarrow> aa25LossPending e \<and> muted e)"

text \<open>Applying a loss mutes the engine, whether or not the marker is taken.\<close>

lemma muted_reset:
  "engine_ok e i \<Longrightarrow> muted (aa25WithdrawAdmission (aa25InvalidateReception now e))"
  by (auto simp: mute_defs engine_ok_def tx_ok_def)

lemma ApplyLoss_mutes:
  assumes "engine_ok e i" "aa25LossPending e" "aa25LossApplied e \<Longrightarrow> muted e"
  shows "muted (aa25ApplyLoss now e)" "aa25LossApplied (aa25ApplyLoss now e) = aa25LossPending (aa25ApplyLoss now e)"
proof -
  have "engine_ok (e\<lparr>aa25LossApplied := True\<rparr>) i"
    using assms(1) by simp
  from muted_reset [OF this] show "muted (aa25ApplyLoss now e)"
    using assms(2,3) by (auto simp: aa25ApplyLoss_def Let_def split_beta) (auto simp: muted_def)
  show "aa25LossApplied (aa25ApplyLoss now e) = aa25LossPending (aa25ApplyLoss now e)"
    using assms(2) by (simp add: aa25ApplyLoss_def Let_def split_beta) (simp add: stop_defs aa25AbortTX_def Let_def)
qed

text \<open>Outside \<open>aa25ApplyLoss\<close> a loss is only ever raised.\<close>

definition raised :: "'w AA25Engine \<Rightarrow> 'w AA25Engine \<Rightarrow> bool" where
  "raised e e' \<longleftrightarrow> aa25LossApplied e' = aa25LossApplied e \<and> (aa25LossPending e \<longrightarrow> aa25LossPending e')"

lemma raised_refl [simp]: "raised e e"
  by (simp add: raised_def)

lemma raised_trans: "raised e e1 \<Longrightarrow> raised e1 e2 \<Longrightarrow> raised e e2"
  by (simp add: raised_def)

lemma loss_Abort [simp]: "aa25LossPending e \<Longrightarrow> aa25LossPending (aa25AbortTX now e)"
  by (simp add: aa25AbortTX_def Let_def)

lemma raised_stop [simp]:
  "raised e (aa25WithdrawAdmission e)" "raised e (aa25DropFrame e)" "raised e (aa25StartFrame e)"
  "raised e (aa25InvalidateReception now e)" "raised e (aa25CompleteTX now e)" "raised e (aa25FailResponse fault now e)"
  "raised e (aa25AdmitResponse now e)" "raised e (aa25HandleFinalAck s now e)" "raised e (crc_feed s e)"
  "raised e (aa25FailCharacter fault now e)" "raised e (aa25DeliverLogical b esc now e)" "raised e (settle_response now e)"
  "raised e (char_start i now e)" "raised e (report_gap now n e)" "raised e (book_sample i now e)"
  "raised e (snd (call_sample e))" "raised e (aa25AbortTX now e)"
  by (simp_all add: raised_def stop_defs aa25StartFrame_def aa25CompleteTX_def aa25AdmitResponse_def
      aa25HandleFinalAck_def crc_feed_def aa25FailCharacter_def settle_response_def char_start_def report_gap_def
      book_sample_def aa25DeliverLogical_def Let_def split: aa25FramePhase.split)

lemma raised_Feed: "raised e (aa25FeedFrame symbol now e)"
proof -
  have "raised e (aa25DeliverLogical b x now (crc_feed s e))"
      "raised e (aa25DeliverLogical b x now (crc_feed s (e\<lparr>aa25EscapePending := y\<rparr>)))" for b s x y
    by (rule raised_trans [OF _ raised_stop(11)]; simp add: raised_def)+
  then show ?thesis
    by (simp add: aa25FeedFrame_def Let_def) (simp add: raised_def aa25DropFrame_def aa25StartFrame_def)
qed

lemma raised_Symbol: "raised e (aa25CompleteSymbol i now e)"
  unfolding aa25CompleteSymbol_def Let_def
  by (rule raised_trans [OF _ raised_Feed]) (simp add: raised_def aa25HandleFinalAck_def Let_def)

lemma raised_Begin: "raised e (aa25BeginCharacter i now e)"
proof -
  have "raised e (judge_start now e)" for e :: "'a AA25Engine"
    by (simp add: judge_start_def raised_def stop_defs Let_def split: aa25TXState.split)
  then show ?thesis
    unfolding Begin_parts by (rule raised_trans [OF raised_trans [OF raised_stop(13) raised_stop(12)]])
qed

lemma raised_Observe: "raised e (aa25Observe level i now e)"
proof -
  have d: "raised e (decide_bit h n i now e)" for h n and e :: "'a AA25Engine"
  proof -
    have "raised e (aa25CompleteSymbol i now (e\<lparr>aa25RXState := rx\<rparr>))" for rx
      by (rule raised_trans [OF _ raised_Symbol]) (simp add: raised_def)
    then show ?thesis
      by (simp add: decide_bit_def Let_def)
        (simp add: raised_def aa25FailCharacter_def stop_defs Let_def)
  qed
  have "raised e (decide_bit h n i now (clear_votes h (note_vote level (note_edge level k e))))" for h n k
    by (rule raised_trans [OF _ d]) (simp add: raised_def)
  then have "raised e (aa25ObserveCharacter level i now e)"
    unfolding ObserveCharacter_parts Let_def by (simp add: raised_def)
  then show ?thesis
    using raised_Begin [of e i now]
    by (auto simp: aa25Observe_def Let_def raised_def split: aa25RXState.split)
qed

lemma raised_StepRX: "raised e (aa25StepRX now e)"
proof -
  have "raised e (aa25Observe l i now (book_sample i now (snd (call_sample (report_gap now n e)))))" for l i n
    by (rule raised_trans [OF raised_trans [OF raised_trans [OF raised_stop(14) raised_stop(16)] raised_stop(15)] raised_Observe])
  then show ?thesis
    by (simp add: StepRX_parts Let_def split_beta)
qed

lemma raised_StepTX: "raised e (aa25StepTX now e)"
proof -
  have "raised e (transmit now e)" for e :: "'a AA25Engine"
    by (simp add: transmit_def Let_def raised_def aa25DriveEdge_def stop_defs aa25CompleteTX_def)
  then show ?thesis
    by (simp add: aa25StepTX_def split: aa25TXState.split) (simp add: raised_def)
qed

lemma loss_ok_ApplyLoss:
  assumes "safe e" "loss_ok e"
  shows "loss_ok (aa25ApplyLoss now e)"
proof (cases "aa25LossPending e")
  case True
  with assms ApplyLoss_mutes [of e "aa25NextSample e" now] show ?thesis
    by (simp add: loss_ok_def safe_def)
qed (use assms in \<open>simp add: aa25ApplyLoss_def\<close>)

lemma loss_ok_raised: "loss_ok e \<Longrightarrow> raised e e' \<Longrightarrow> (muted e \<Longrightarrow> muted e') \<Longrightarrow> loss_ok e'"
  by (auto simp: loss_ok_def raised_def)

lemma loss_ok_Housekeeping: "loss_ok e \<Longrightarrow> loss_ok (aa25StepHousekeeping now e)"
proof -
  assume l: "loss_ok e"
  have r: "raised e (aa25StepHousekeeping now e)"
    by (simp add: raised_def aa25StepHousekeeping_def Let_def split: aa25Control.split)
  then show ?thesis
    using l muted_Housekeeping [of e now] by (auto simp: loss_ok_def raised_def)
qed

text \<open>The two halves of a pass, with the invariants carried along.\<close>

lemma pass_halves:
  assumes "safe e" "loss_ok e"
  shows "safe (aa25ApplyLoss now (aa25StepRX now e)) \<and> loss_ok (aa25ApplyLoss now (aa25StepRX now e))"
    "safe (aa25ApplyLoss now (aa25StepTX now e)) \<and> loss_ok (aa25ApplyLoss now (aa25StepTX now e))"
proof -
  have "loss_ok (aa25StepRX now e)"
    using assms(2) raised_StepRX by (rule loss_ok_raised) (use mute_StepRX in \<open>auto simp: mute_step_def\<close>)
  moreover have "loss_ok (aa25StepTX now e)"
    using assms(2) raised_StepTX by (rule loss_ok_raised) (simp add: StepTX_muted)
  ultimately show "safe (aa25ApplyLoss now (aa25StepRX now e)) \<and> loss_ok (aa25ApplyLoss now (aa25StepRX now e))"
    "safe (aa25ApplyLoss now (aa25StepTX now e)) \<and> loss_ok (aa25ApplyLoss now (aa25StepTX now e))"
    using assms(1) loss_ok_ApplyLoss safe_pass safe_StepRX by blast+
qed

definition regressed :: "u64 \<Rightarrow> 'w AA25Engine \<Rightarrow> 'w AA25Engine" where
  "regressed now e = (if \<not> aa25TickRegressing e
     then aa25WithdrawAdmission (aa25InvalidateReception now
            (aa25PublishFault AA25FaultTickRegression now (e\<lparr>aa25TickRegressing := True\<rparr>))) else e)"

lemma Step_parts:
  "AA25Step e = (let (now, e) = call_ticks e in
     if now < aa25LastNow e then aa25ApplyLoss now (regressed now e)
     else aa25StepHousekeeping now (aa25ApplyLoss now (aa25StepTX now (aa25ApplyLoss now
            (aa25StepRX now (e\<lparr>aa25TickRegressing := False, aa25LastNow := now\<rparr>))))))"
  unfolding AA25Step_def regressed_def Let_def ..

lemma loss_ok_regressed:
  assumes "safe e" "loss_ok e"
  shows "safe (regressed now e)" "loss_ok (regressed now e)" "raised e (regressed now e)"
proof -
  have "engine_ok (aa25PublishFault AA25FaultTickRegression now (e\<lparr>aa25TickRegressing := True\<rparr>)) (aa25NextSample e)"
    using assms(1) by (simp add: safe_def)
  note m = muted_reset [OF this] engine_ok_reset [OF this]
  show "safe (regressed now e)"
    using assms(1) m(2) by (simp add: regressed_def safe_def)
  show r: "raised e (regressed now e)"
    by (simp add: regressed_def raised_def stop_defs)
  show "loss_ok (regressed now e)"
    using loss_ok_raised [OF assms(2) r] m(1) by (simp add: regressed_def)
qed

lemma loss_ok_Step:
  assumes "safe e" "loss_ok e"
  shows "loss_ok (AA25Step e)"
proof -
  obtain now e0 where t: "call_ticks e = (now, e0)"
    by fastforce
  have e0: "safe e0" "loss_ok e0"
    using assms t call_ticks_frame [of e] engine_ok_ports(3) [of e] by (simp_all add: safe_def loss_ok_def muted_def)
  define e1 where "e1 = e0\<lparr>aa25TickRegressing := False, aa25LastNow := now\<rparr>"
  have "safe e1" "loss_ok e1"
    using e0 by (simp_all add: e1_def safe_def loss_ok_def muted_def)
  then have "loss_ok (aa25ApplyLoss now (aa25StepTX now (aa25ApplyLoss now (aa25StepRX now e1))))"
    using pass_halves(1) [of e1 now] pass_halves(2) [of "aa25ApplyLoss now (aa25StepRX now e1)" now] by simp
  then show ?thesis
    using loss_ok_ApplyLoss [OF loss_ok_regressed(1,2) [OF e0]]
    by (simp add: Step_parts t Let_def e1_def [symmetric] loss_ok_Housekeeping)
qed

lemma reachable_loss: "sample_reachable e \<Longrightarrow> loss_ok e"
proof (induction rule: sample_reachable.induct)
  case (new c ports w e)
  then show ?case
    by (auto simp: AA25NewEngine_def Let_def split_beta engine_at_def loss_ok_def split: if_splits)
next
  case (step e e')
  from step.hyps(2) show ?case
  proof (cases rule: sample_step.cases)
    case pass
    then show ?thesis
      using loss_ok_Step [OF reachable_safe [OF step.hyps(1)] step.IH] by simp
  qed (use step.IH in \<open>auto simp: AA25OfferPrepared_def AA25OfferWithdraw_def aa25PushControl_def Let_def loss_ok_def muted_def\<close>)
qed

lemma Housekeeping_idle:
  "aa25TXState e = aa25TXIdle \<Longrightarrow> aa25TXLevel e = AA25LevelHigh \<Longrightarrow>
   aa25TXState (aa25StepHousekeeping now e) = aa25TXIdle \<and> aa25TXLevel (aa25StepHousekeeping now e) = AA25LevelHigh"
  by (simp add: aa25StepHousekeeping_def Let_def split: aa25Control.split)

lemma pending_loss_silences:
  assumes "safe e" "loss_ok e" "aa25LossPending e"
  shows "aa25TXState (AA25Step e) = aa25TXIdle \<and> aa25TXLevel (AA25Step e) = AA25LevelHigh"
proof -
  obtain now e0 where t: "call_ticks e = (now, e0)"
    by fastforce
  have e0: "safe e0" "loss_ok e0" "aa25LossPending e0"
    using assms t call_ticks_frame [of e] engine_ok_ports(3) [of e]
    by (simp_all add: safe_def loss_ok_def muted_def)
  have mute: "muted (aa25ApplyLoss now x)" if "safe x" "loss_ok x" "aa25LossPending x" for x :: "'a AA25Engine"
    using ApplyLoss_mutes(1) [of x "aa25NextSample x" now] that by (simp add: safe_def loss_ok_def)
  define e1 where "e1 = e0\<lparr>aa25TickRegressing := False, aa25LastNow := now\<rparr>"
  have e1: "safe e1" "loss_ok e1" "aa25LossPending e1"
    using e0 by (simp_all add: e1_def safe_def loss_ok_def muted_def)
  have "loss_ok (aa25StepRX now e1)"
    using e1(2) raised_StepRX by (rule loss_ok_raised) (use mute_StepRX in \<open>auto simp: mute_step_def\<close>)
  then have m: "muted (aa25ApplyLoss now (aa25StepRX now e1))"
    using e1 raised_StepRX [of e1 now] by (intro mute) (simp_all add: safe_StepRX raised_def)
  then have "muted (aa25ApplyLoss now (aa25StepTX now (aa25ApplyLoss now (aa25StepRX now e1))))"
    using ApplyLoss_muted [OF m] by (simp add: StepTX_muted)
  then have pass: "aa25TXState (aa25StepHousekeeping now (aa25ApplyLoss now (aa25StepTX now (aa25ApplyLoss now (aa25StepRX now e1))))) = aa25TXIdle"
      "aa25TXLevel (aa25StepHousekeeping now (aa25ApplyLoss now (aa25StepTX now (aa25ApplyLoss now (aa25StepRX now e1))))) = AA25LevelHigh"
    using Housekeeping_idle by (auto simp: muted_def)
  have "muted (aa25ApplyLoss now (regressed now e0))"
    using loss_ok_regressed [OF e0(1,2), of now] e0(3) by (intro mute) (simp_all add: raised_def)
  with pass show ?thesis
    by (simp add: Step_parts t Let_def e1_def [symmetric] muted_def)
qed

section \<open>Guarantees\<close>

text \<open>The line as the edges written so far leave it.\<close>

definition line :: "'w AA25Engine \<Rightarrow> AA25Level" where
  "line e = line_level (edges (trace e))"

lemma line_TXLevel: "safe e \<Longrightarrow> line e = aa25TXLevel e"
  by (simp add: line_def safe_def engine_ok_def line_ok_def)



text \<open>
  C37: as long as no prepared response is offered the engine never writes an edge, whatever it receives and
  whatever its ports answer.
\<close>

theorem silent_without_offer:
  assumes "unoffered e"
  shows "edges (trace e) = [] \<and> aa25TXState e = aa25TXIdle"
  using unoffered_muted [OF assms] by (simp add: muted_def)

theorem silent_without_offer_witness:
  "unoffered (AA25Step demo_engine) \<and> edges (trace (AA25Step demo_engine)) = [] \<and>
    aa25TXState (AA25Step demo_engine) = aa25TXIdle"
proof -
  have "unoffered (AA25Step demo_engine)"
    using demo_new_ok unfolding demo_new_def by (intro unoffered.pass unoffered.new)
  then show ?thesis
    using silent_without_offer by blast
qed

text \<open>
  C38: when an event has been refused, the next pass ends with no response under way and the line released, so
  nothing is transmitted before the loss has been dealt with.
\<close>

theorem refused_event_silences:
  assumes "sample_reachable e" "aa25LossPending e"
  shows "aa25TXState (AA25Step e) = aa25TXIdle \<and> line (AA25Step e) = AA25LevelHigh"
  using pending_loss_silences [OF reachable_safe [OF assms(1)] reachable_loss [OF assms(1)] assms(2)]
    line_TXLevel [OF safe_Step [OF reachable_safe [OF assms(1)]]] by simp

theorem refused_event_silences_witness:
  "sample_reachable demo_refused \<and> aa25LossPending demo_refused \<and> aa25TXState (AA25Step demo_refused) = aa25TXIdle \<and>
    line (AA25Step demo_refused) = AA25LevelHigh"
  using refused_event_silences [OF demo_reachable(3)] demo_reachable(3) demo_refused_state by blast

text \<open>A response that starts while the sink is full: the falling edge and its release fall into one pass.\<close>

definition demo_starting :: "demo_world AA25Engine" where
  "demo_starting = demo_ready\<lparr>aa25Pinned := prepared_zero\<lparr>aa25WireLen := 3\<rparr>, aa25PinnedValid := True,
     aa25FramePhase := aa25PhaseTrailing, aa25TXState := aa25TXActive, aa25NextDeadline := 200, aa25LastNow := 104,
     world := (105, False)\<rparr>"

lemma second_edge_in_one_pass: "edges (trace (AA25Step demo_starting)) = [AA25LevelHigh, AA25LevelLow]"
  by code_simp

end
