(* ===== verification/Sample_Clock.thy ===== *)
theory Sample_Clock
  imports Sample_Demo
begin

text \<open>
  The exact schedule of the sampling engine.  Deadlines are ceilings of rational instants, so they do not drift,
  and a pass takes the latest sample that is due.
\<close>

section \<open>Rational instants\<close>

definition ceil_ratio :: "int \<Rightarrow> int \<Rightarrow> int" where
  "ceil_ratio p den = (p + den - 1) div den"

lemma ceil_ratio_split:
  assumes d: "0 < den"
  shows "ceil_ratio p den = p div den + (if p mod den = 0 then 0 else 1)"
proof -
  define q r where "q = p div den" and "r = p mod den"
  have p: "p = r + q * den" and r: "0 \<le> r" "r < den"
    using d by (simp_all add: q_def r_def)
  have "(p + den - 1) div den = q + (if r = 0 then 0 else 1)"
  proof (cases "r = 0")
    case True
    have "(p + den - 1) div den = ((den - 1) + q * den) div den"
      using True by (simp add: p algebra_simps)
    also have "\<dots> = q"
      using d by simp
    finally show ?thesis
      using True by simp
  next
    case False
    have "(p + den - 1) div den = ((r - 1) + (q + 1) * den) div den"
      by (simp add: p algebra_simps)
    also have "\<dots> = q + 1"
      using False d r by (subst div_mult_self1) (simp_all add: div_pos_pos_trivial)
    finally show ?thesis
      using False by simp
  qed
  then show ?thesis
    by (simp add: ceil_ratio_def q_def r_def)
qed

lemma ceil_ratio_le:
  assumes d: "0 < den"
  shows "ceil_ratio p den \<le> t \<longleftrightarrow> p \<le> t * den"
proof -
  define q r where "q = p div den" and "r = p mod den"
  have p: "p = q * den + r" and r: "0 \<le> r" "r < den"
    using d by (simp_all add: q_def r_def)
  have le: "a * den \<le> b * den \<longleftrightarrow> a \<le> b" for a b
    using d by simp
  have "q + (if r = 0 then 0 else 1) \<le> t \<longleftrightarrow> q * den + r \<le> t * den"
  proof (cases "t \<le> q")
    case True
    then have "t * den \<le> q * den"
      using le by blast
    then have "r \<noteq> 0 \<Longrightarrow> \<not> q * den + r \<le> t * den"
      using r by linarith
    then show ?thesis
      using True le [of q t] by auto
  next
    case False
    then have "(q + 1) * den \<le> t * den"
      using le by simp
    then show ?thesis
      using False r by (simp add: algebra_simps)
  qed
  moreover have "ceil_ratio p den = q + (if r = 0 then 0 else 1)"
    by (simp only: ceil_ratio_split [OF d] q_def r_def)
  ultimately show ?thesis
    using p by simp
qed

lemma floor_ratio_le:
  fixes p :: int
  assumes d: "0 < den"
  shows "t \<le> p div den \<longleftrightarrow> t * den \<le> p"
proof -
  define q r where "q = p div den" and "r = p mod den"
  have p: "p = q * den + r" and r: "0 \<le> r" "r < den"
    using d by (simp_all add: q_def r_def)
  have le: "a * den \<le> b * den \<longleftrightarrow> a \<le> b" for a b
    using d by simp
  have "t \<le> q \<longleftrightarrow> t * den \<le> q * den + r"
  proof (cases "t \<le> q")
    case True
    then show ?thesis
      using r le [of t q] by linarith
  next
    case False
    then have "(q + 1) * den \<le> t * den"
      using le by simp
    then show ?thesis
      using False r by (simp add: algebra_simps)
  qed
  then show ?thesis
    unfolding p [symmetric] by (simp only: q_def)
qed

text \<open>While the quotient fits, \<open>aa25RationalAt\<close> is exact division; 64-bit words are read as integers.\<close>

lemma RationalAt_exact:
  assumes "0 < uint den" "uint i * uint num < uint den * 2 ^ 64"
  shows "uint (fst (aa25RationalAt i num den)) = uint i * uint num div uint den"
    "snd (aa25RationalAt i num den) = 0 \<longleftrightarrow> uint i * uint num mod uint den = 0"
proof -
  let ?p = "uint i * uint num"
  have p: "0 \<le> ?p"
    by simp
  have hi: "\<not> uint den \<le> ?p div 2 ^ 64"
    using floor_ratio_le [of "2 ^ 64" "uint den" ?p] assms(2) by simp
  have q: "0 \<le> ?p div uint den" "?p div uint den < 2 ^ 64"
    using p assms floor_ratio_le [of "uint den" "2 ^ 64" ?p] by (simp_all add: pos_imp_zdiv_nonneg_iff mult.commute)
  have r: "0 \<le> ?p mod uint den" "?p mod uint den < 2 ^ 64"
  proof -
    show "0 \<le> ?p mod uint den"
      using assms(1) by simp
    have "?p mod uint den < uint den"
      using assms(1) by simp
    also have "uint den < 2 ^ 64"
      using uint_lt2p [of den] by simp
    finally show "?p mod uint den < 2 ^ 64" .
  qed
  show "uint (fst (aa25RationalAt i num den)) = ?p div uint den"
    using hi q by (simp add: aa25RationalAt_def Let_def uint_word_of_int)
  show "snd (aa25RationalAt i num den) = 0 \<longleftrightarrow> ?p mod uint den = 0"
    using hi r zdvd_imp_le [of "2 ^ 64" "?p mod uint den"]
    by (auto simp: aa25RationalAt_def Let_def word_of_int_eq_0_iff)
qed

lemma RationalDeadline_exact:
  assumes d: "0 < uint den" and fits: "uint anchor + ceil_ratio (uint i * uint num) (uint den) < 2 ^ 64"
  shows "uint (aa25RationalDeadline anchor i num den) = uint anchor + ceil_ratio (uint i * uint num) (uint den)"
proof -
  let ?p = "uint i * uint num"
  obtain w r where wr: "aa25RationalAt i num den = (w, r)"
    by fastforce
  have "ceil_ratio ?p (uint den) \<le> 2 ^ 64 - 1"
    using fits uint_ge_0 [of anchor] by linarith
  then have "?p \<le> (2 ^ 64 - 1) * uint den"
    using ceil_ratio_le [OF d] by blast
  then have small: "?p < uint den * 2 ^ 64"
    using d by (simp add: algebra_simps)
  have w: "uint w = ?p div uint den" and r: "r = 0 \<longleftrightarrow> ?p mod uint den = 0"
    using RationalAt_exact [OF d small] wr by simp_all
  have c: "ceil_ratio ?p (uint den) = uint w + (if r = 0 then 0 else 1)"
    using ceil_ratio_split [OF d, of ?p] w r by simp
  have "uint (w + 1) = uint w + 1" if "r \<noteq> 0"
  proof -
    have "ceil_ratio ?p (uint den) = uint w + 1"
      using c that by simp
    then have "uint w + 1 < 2 ^ 64"
      using fits uint_ge_0 [of anchor] by linarith
    then show ?thesis
      using uint_add_lem [of w 1] by simp
  qed
  then have "uint (if r \<noteq> 0 then w + 1 else w) = ceil_ratio ?p (uint den)"
    using c by simp
  then show ?thesis
    using fits uint_add_lem [of anchor "if r \<noteq> 0 then w + 1 else w"]
    by (simp add: aa25RationalDeadline_def wr)
qed

lemma first_tick:
  assumes "0 < den" and "uint anchor * uint den + uint i * uint num \<le> (2 ^ 64 - 1) * uint den"
  shows "aa25RationalDeadline anchor i num den \<le> t \<longleftrightarrow>
    uint anchor * uint den + uint i * uint num \<le> uint t * uint den"
proof -
  have d: "0 < uint den"
    using assms(1) by (simp add: word_less_def)
  have "ceil_ratio (uint i * uint num) (uint den) \<le> 2 ^ 64 - 1 - uint anchor"
    using assms(2) by (subst ceil_ratio_le [OF d]) (simp add: algebra_simps)
  then have "uint (aa25RationalDeadline anchor i num den) = uint anchor + ceil_ratio (uint i * uint num) (uint den)"
    using RationalDeadline_exact [OF d] by simp
  then have "aa25RationalDeadline anchor i num den \<le> t \<longleftrightarrow> ceil_ratio (uint i * uint num) (uint den) \<le> uint t - uint anchor"
    by (simp add: word_le_def algebra_simps)
  then show ?thesis
    unfolding ceil_ratio_le [OF d] by (simp add: algebra_simps)
qed

text \<open>
  A deadline of the engine is the first tick at or after the exact rational instant: as long as it fits the
  counter, a tick has reached it exactly when it has reached \<open>anchor + index * num / den\<close>.  Nothing is rounded
  twice, so the schedule never drifts.
\<close>

theorem deadline_is_first_tick:
  assumes "0 < den" and "uint anchor * uint den + uint i * uint num \<le> (2 ^ 64 - 1) * uint den"
  shows "aa25RationalDeadline anchor i num den \<le> t \<longleftrightarrow>
    uint anchor * uint den + uint i * uint num \<le> uint t * uint den"
  by (rule first_tick [OF assms])

theorem deadline_is_first_tick_witness:
  "(0 :: u64) < 24000 \<and> (aa25RationalDeadline 5 1 1000000 24000 \<le> 47 \<longleftrightarrow>
     uint (5 :: u64) * uint (24000 :: u64) + uint (1 :: u64) * uint (1000000 :: u64) \<le> uint (47 :: u64) * uint (24000 :: u64))"
  using deadline_is_first_tick [of 24000 5 1 1000000 47] by simp

section \<open>The sampling grid\<close>

text \<open>\<open>NextDeadline\<close> is the deadline of \<open>NextSample\<close>, and the sample before that was due by the last pass.\<close>

definition grid_ok :: "'w AA25Engine \<Rightarrow> bool" where
  "grid_ok e \<longleftrightarrow> AA25NominalSampleRate \<le> AA25TickHz (aa25Config e) \<and> aa25SampleAnchor e \<le> aa25LastNow e \<and>
     aa25NextDeadline e = aa25SampleDeadline (aa25NextSample e) e \<and>
     (aa25NextSample e = 0 \<or> (uint (aa25NextSample e) - 1) * uint (AA25TickHz (aa25Config e)) \<le>
        24000 * (uint (aa25LastNow e) - uint (aa25SampleAnchor e)))"

lemma grid_ok_cong: "grid e = grid e' \<Longrightarrow> grid_ok e = grid_ok e'"
  by (simp add: grid_def grid_ok_def aa25SampleDeadline_def)

lemma uint_rate: "uint AA25NominalSampleRate = 24000" "0 < AA25NominalSampleRate"
  by simp_all

lemma uint_diff: "a \<le> b \<Longrightarrow> uint (b - a) = uint b - uint (a :: u64)"
  using uint_minus_simple_alt by blast

lemma sample_index_exact:
  assumes "AA25NominalSampleRate \<le> AA25TickHz (aa25Config e)" "aa25SampleAnchor e \<le> now"
  shows "uint (sample_index now e) = (uint now - uint (aa25SampleAnchor e)) * 24000 div uint (AA25TickHz (aa25Config e))"
proof -
  have hz: "24000 \<le> uint (AA25TickHz (aa25Config e))"
    using assms(1) by (simp add: word_le_def)
  have "uint (now - aa25SampleAnchor e) < 2 ^ 64"
    using uint_lt2p [of "now - aa25SampleAnchor e"] by simp
  then have "uint (now - aa25SampleAnchor e) * 24000 < 2 ^ 64 * 24000"
    by simp
  also have "\<dots> \<le> uint (AA25TickHz (aa25Config e)) * 2 ^ 64"
    using hz by simp
  finally show ?thesis
    using hz RationalAt_exact(1) [of "AA25TickHz (aa25Config e)" "now - aa25SampleAnchor e" AA25NominalSampleRate]
    by (simp add: sample_index_def uint_diff [OF assms(2)])
qed

lemma index_due:
  assumes "AA25NominalSampleRate \<le> AA25TickHz (aa25Config e)" "aa25SampleAnchor e \<le> now"
  shows "n \<le> uint (sample_index now e) \<longleftrightarrow> n * uint (AA25TickHz (aa25Config e)) \<le> 24000 * (uint now - uint (aa25SampleAnchor e))"
proof -
  have "0 < uint (AA25TickHz (aa25Config e))"
    using assms(1) by (simp add: word_le_def)
  then show ?thesis
    unfolding sample_index_exact [OF assms] by (simp add: floor_ratio_le mult.commute)
qed

lemma grid_ok_book:
  assumes "grid_ok e" "aa25LastNow e = now"
  shows "grid_ok (book_sample (sample_index now e) now e)"
proof -
  have g: "AA25NominalSampleRate \<le> AA25TickHz (aa25Config e)" "aa25SampleAnchor e \<le> now"
    using assms by (simp_all add: grid_ok_def)
  have "uint (sample_index now e) * uint (AA25TickHz (aa25Config e)) \<le> 24000 * (uint now - uint (aa25SampleAnchor e))"
    using index_due [OF g, of "uint (sample_index now e)"] by simp
  moreover have "sample_index now e + 1 = 0 \<or> uint (sample_index now e + 1) - 1 = uint (sample_index now e)"
    using uint_plus_if' [of "sample_index now e" 1] uint_lt2p [of "sample_index now e"]
    by (auto simp: word_uint_eq_iff split: if_splits)
  ultimately show ?thesis
    using g assms(2) by (auto simp: grid_ok_def book_sample_def Let_def aa25SampleDeadline_def)
qed

lemma grid_gap: "grid (snd (call_sample (report_gap now n e))) = grid e"
  by (simp add: report_gap_def Let_def)

lemma grid_StepRX:
  assumes "\<not> now < aa25NextDeadline e"
  shows "grid (aa25StepRX now e) = (aa25Config e, aa25SampleAnchor e, sample_index now e + 1,
    aa25SampleDeadline (sample_index now e + 1) e, aa25LastNow e)"
proof -
  have "grid (book_sample i now e') = (aa25Config e', aa25SampleAnchor e', i + 1, aa25SampleDeadline (i + 1) e', aa25LastNow e')"
    for i and e' :: "'a AA25Engine"
    by (simp add: grid_def book_sample_def Let_def)
  moreover have "aa25Config e' = aa25Config e \<and> aa25SampleAnchor e' = aa25SampleAnchor e \<and> aa25LastNow e' = aa25LastNow e"
    if "grid e' = grid e" for e' :: "'a AA25Engine"
    using that by (simp add: grid_def)
  note this [OF grid_gap [of now "sample_index now e - aa25NextSample e" e]]
  ultimately show ?thesis
    using assms by (simp add: StepRX_parts Let_def split_beta aa25SampleDeadline_def)
qed

lemma grid_ok_StepRX: "grid_ok e \<Longrightarrow> aa25LastNow e = now \<Longrightarrow> grid_ok (aa25StepRX now e)"
proof (cases "now < aa25NextDeadline e")
  case False
  assume g: "grid_ok e" "aa25LastNow e = now"
  have "grid (aa25StepRX now e) = grid (book_sample (sample_index now e) now e)"
    using grid_StepRX [OF False] by (simp add: grid_def book_sample_def Let_def)
  from grid_ok_cong [OF this] show ?thesis
    using grid_ok_book [OF g] by simp
qed (simp add: aa25StepRX_def)

lemma grid_ok_later: "grid_ok e \<Longrightarrow> aa25LastNow e \<le> now \<Longrightarrow> grid_ok (e\<lparr>aa25TickRegressing := b, aa25LastNow := now\<rparr>)"
proof -
  assume g: "grid_ok e" "aa25LastNow e \<le> now"
  then have "uint (aa25LastNow e) \<le> uint now"
    by (simp add: word_le_def)
  with g show ?thesis
    by (auto simp: grid_ok_def aa25SampleDeadline_def)
qed

lemma grid_ok_Step:
  assumes "grid_ok e"
  shows "grid_ok (AA25Step e)"
proof -
  obtain now e0 where t: "call_ticks e = (now, e0)"
    by fastforce
  have "grid e0 = grid e"
    using t call_ticks_frame [of e] by (simp add: grid_def)
  from grid_ok_cong [OF this] have e0: "grid_ok e0"
    using assms by simp
  define r where "r = (if \<not> aa25TickRegressing e0
     then aa25WithdrawAdmission (aa25InvalidateReception now
            (aa25PublishFault AA25FaultTickRegression now (e0\<lparr>aa25TickRegressing := True\<rparr>))) else e0)"
  have "grid r = grid e0"
    by (simp add: r_def)
  then have "grid (aa25ApplyLoss now r) = grid e0"
    by (simp add: grid_TX)
  from grid_ok_cong [OF this] have r: "grid_ok (aa25ApplyLoss now r)"
    using e0 by simp
  define e1 where "e1 = e0\<lparr>aa25TickRegressing := False, aa25LastNow := now\<rparr>"
  have "grid_ok (aa25StepHousekeeping now (aa25ApplyLoss now (aa25StepTX now (aa25ApplyLoss now (aa25StepRX now e1)))))"
    if "\<not> now < aa25LastNow e0"
  proof -
    have "grid_ok (aa25StepRX now e1)"
      using that grid_ok_later [OF e0, of now False] by (intro grid_ok_StepRX) (simp_all add: e1_def)
    moreover have "grid (aa25StepHousekeeping now (aa25ApplyLoss now (aa25StepTX now (aa25ApplyLoss now (aa25StepRX now e1))))) =
        grid (aa25StepRX now e1)"
      by (simp add: grid_TX)
    note grid_ok_cong [OF this]
    ultimately show ?thesis
      by simp
  qed
  with r show ?thesis
    by (simp add: AA25Step_def t Let_def r_def [symmetric] e1_def [symmetric])
qed

lemma reachable_grid: "sample_reachable e \<Longrightarrow> grid_ok e"
proof (induction rule: sample_reachable.induct)
  case (new c ports w e)
  then show ?case
    by (auto simp: AA25NewEngine_def Let_def split_beta engine_at_def grid_ok_def aa25SampleDeadline_def
        aa25RationalDeadline_def aa25RationalAt_def not_less split: if_splits)
next
  case (step e e')
  from step.hyps(2) show ?case
  proof (cases rule: sample_step.cases)
    case pass
    then show ?thesis
      using grid_ok_Step [OF step.IH] by simp
  qed (use step.IH in \<open>auto simp: AA25OfferPrepared_def AA25OfferWithdraw_def aa25PushControl_def Let_def grid_ok_def
      aa25SampleDeadline_def\<close>)
qed

text \<open>With one second of ticks left, the sample after the latest due one has a deadline that fits the counter.\<close>

lemma sample_due:
  assumes rate: "AA25NominalSampleRate \<le> AA25TickHz (aa25Config e)"
    and left: "uint now + uint (AA25TickHz (aa25Config e)) < 2 ^ 64"
    and n: "(uint n - 1) * uint (AA25TickHz (aa25Config e)) \<le> 24000 * (uint now - uint (aa25SampleAnchor e))"
  shows "aa25SampleDeadline n e \<le> t \<longleftrightarrow>
    uint n * uint (AA25TickHz (aa25Config e)) \<le> 24000 * (uint t - uint (aa25SampleAnchor e))"
proof -
  let ?hz = "uint (AA25TickHz (aa25Config e))" and ?a = "uint (aa25SampleAnchor e)"
  have hz: "24000 \<le> ?hz"
    using rate by (simp add: word_le_def)
  have "uint n * ?hz \<le> 24000 * (uint now - ?a) + ?hz"
    using n by (simp add: algebra_simps)
  then have "?a * 24000 + uint n * ?hz \<le> (2 ^ 64 - 1) * 24000"
    using left hz by (simp add: algebra_simps)
  then show ?thesis
    using first_tick [OF uint_rate(2), of "aa25SampleAnchor e" n "AA25TickHz (aa25Config e)" t, unfolded uint_rate(1)]
    by (simp add: aa25SampleDeadline_def algebra_simps)
qed

lemma sample_index_next:
  assumes rate: "AA25NominalSampleRate \<le> AA25TickHz (aa25Config e)" and an: "aa25SampleAnchor e \<le> now"
    and left: "uint now + uint (AA25TickHz (aa25Config e)) < 2 ^ 64"
  shows "uint (sample_index now e + 1) = uint (sample_index now e) + 1"
proof -
  let ?i = "sample_index now e" and ?hz = "uint (AA25TickHz (aa25Config e))"
  have hz: "24000 \<le> ?hz"
    using rate by (simp add: word_le_def)
  then have "uint ?i * 24000 \<le> uint ?i * ?hz"
    by (intro mult_left_mono) simp_all
  also have "\<dots> \<le> 24000 * (uint now - uint (aa25SampleAnchor e))"
    using index_due [OF rate an, of "uint ?i"] by simp
  finally have "uint ?i \<le> uint now - uint (aa25SampleAnchor e)"
    by simp
  then have "uint ?i + 1 < 2 ^ 64"
    using left hz uint_ge_0 [of "aa25SampleAnchor e"] by linarith
  then show ?thesis
    using uint_add_lem [of ?i 1] by simp
qed

lemma grid_not_ahead:
  assumes g: "grid_ok e" and now: "aa25LastNow e \<le> now" "aa25NextDeadline e \<le> now"
    and left: "uint now + uint (AA25TickHz (aa25Config e)) < 2 ^ 64"
  shows "aa25NextSample e \<le> sample_index now e"
proof (cases "aa25NextSample e = 0")
  case False
  let ?hz = "uint (AA25TickHz (aa25Config e))" and ?a = "uint (aa25SampleAnchor e)"
  have r: "AA25NominalSampleRate \<le> AA25TickHz (aa25Config e)" "aa25SampleAnchor e \<le> now"
    using g now(1) by (auto simp: grid_ok_def)
  have "(uint (aa25NextSample e) - 1) * ?hz \<le> 24000 * (uint (aa25LastNow e) - ?a)"
    using g False by (simp add: grid_ok_def)
  also have "\<dots> \<le> 24000 * (uint now - ?a)"
    using now(1) by (simp add: word_le_def)
  finally have "uint (aa25NextSample e) * ?hz \<le> 24000 * (uint now - ?a)"
    using sample_due [OF r(1) left] now(2) g by (simp add: grid_ok_def)
  then show ?thesis
    using index_due [OF r] by (simp add: word_le_def)
qed simp

text \<open>
  C39: in every reachable state a pass at a tick at or after the next deadline takes the latest sample that is due:
  the index never falls behind the one expected, so the number of missed samples is counted without wrap-around,
  and the tick lies between the deadline of the sample taken and the next one.  The counter must have one second
  of ticks left.
\<close>

theorem latest_due_sample_taken:
  assumes "sample_reachable e" "aa25LastNow e \<le> now" "aa25NextDeadline e \<le> now"
    and "uint now + uint (AA25TickHz (aa25Config e)) < 2 ^ 64"
  shows "aa25NextSample e \<le> sample_index now e \<and> aa25NextSample (aa25StepRX now e) = sample_index now e + 1 \<and>
    aa25SampleDeadline (sample_index now e) e \<le> now \<and> now < aa25NextDeadline (aa25StepRX now e)"
proof -
  let ?hz = "uint (AA25TickHz (aa25Config e))" and ?i = "sample_index now e" and ?a = "uint (aa25SampleAnchor e)"
  have g: "grid_ok e"
    by (rule reachable_grid [OF assms(1)])
  then have r: "AA25NominalSampleRate \<le> AA25TickHz (aa25Config e)" "aa25SampleAnchor e \<le> now"
    using assms(2) by (auto simp: grid_ok_def)
  have i: "uint ?i * ?hz \<le> 24000 * (uint now - ?a)" "\<not> (uint ?i + 1) * ?hz \<le> 24000 * (uint now - ?a)"
    using index_due [OF r, of "uint ?i"] index_due [OF r, of "uint ?i + 1"] by simp_all
  have "(uint ?i - 1) * ?hz \<le> uint ?i * ?hz"
    by (intro mult_right_mono) simp_all
  from order_trans [OF this i(1)] have "(uint ?i - 1) * ?hz \<le> 24000 * (uint now - ?a)" .
  then have "aa25SampleDeadline ?i e \<le> now"
    using sample_due [OF r(1) assms(4), of ?i now] i(1) by simp
  moreover have "now < aa25SampleDeadline (?i + 1) e"
    using sample_due [OF r(1) assms(4), of "?i + 1" now] sample_index_next [OF r assms(4)] i by (simp add: not_le [symmetric])
  ultimately show ?thesis
    using grid_StepRX [of now e] grid_not_ahead [OF g assms(2-4)] assms(3) by (simp add: grid_def not_less)
qed

theorem latest_due_sample_taken_witness:
  "sample_reachable demo_engine \<and> aa25NextSample demo_engine \<le> sample_index 3 demo_engine \<and>
    aa25NextSample (aa25StepRX 3 demo_engine) = sample_index 3 demo_engine + 1 \<and>
    aa25SampleDeadline (sample_index 3 demo_engine) demo_engine \<le> 3 \<and> 3 < aa25NextDeadline (aa25StepRX 3 demo_engine)"
proof -
  have "aa25LastNow demo_engine \<le> 3 \<and> aa25NextDeadline demo_engine \<le> 3"
    by code_simp
  moreover have "uint (3 :: u64) + uint (AA25TickHz (aa25Config demo_engine)) < 2 ^ 64"
    by code_simp
  ultimately show ?thesis
    using latest_due_sample_taken [OF demo_reachable(1), of 3] demo_reachable(1) by simp
qed

end
