(* ===== verification/Sample_Frames.thy ===== *)
theory Sample_Frames
  imports Sample_Demo
begin

text \<open>
  Which symbols make the sampling engine answer.  The symbols after a SYN are followed byte by byte; the response
  is admitted exactly when they are the escaped form of one valid request for this responder that matches the
  prepared response.
\<close>

section \<open>A request, symbol by symbol\<close>

text \<open>A received symbol with the tick of its start bit and the tick of the observation.\<close>

type_synonym received_symbol = "byte \<times> u64 \<times> u64"

definition receive :: "received_symbol \<Rightarrow> 'w AA25Engine \<Rightarrow> 'w AA25Engine" where
  "receive r e = (case r of (s, start, now) \<Rightarrow> aa25FeedFrame s now (e\<lparr>aa25CharStartTick := start\<rparr>))"

definition receive_all :: "received_symbol list \<Rightarrow> 'w AA25Engine \<Rightarrow> 'w AA25Engine" where
  "receive_all rs e = foldl (\<lambda>e r. receive r e) e rs"

lemma receive_all_simps [simp]:
  "receive_all [] e = e" "receive_all (rs @ [r]) e = receive r (receive_all rs e)"
  "receive_all (r # rs) e = receive_all rs (receive r e)"
  by (simp_all add: receive_all_def)

definition plain :: "byte \<Rightarrow> bool" where
  "plain b \<longleftrightarrow> b \<noteq> aa25SymbolEscape \<and> b \<noteq> aa25SymbolSyn"

text \<open>What the address bytes decide: the pin is taken exactly for our address with a prepared response.\<close>

definition pinned_for :: "'w AA25Engine \<Rightarrow> byte \<Rightarrow> byte \<Rightarrow> 'w AA25Engine \<Rightarrow> bool" where
  "pinned_for e0 src dst e \<longleftrightarrow> plain src \<and> plain dst \<and>
     (dst = AA25ResponderAddress (aa25Config e0) \<longrightarrow> aa25InitiatorAddress src) \<and>
     aa25PinnedValid e = (dst = AA25ResponderAddress (aa25Config e0) \<and> aa25SlotValid e0) \<and>
     (aa25PinnedValid e \<longrightarrow> aa25Pinned e = aa25Slot e0)"

definition progress :: "'w AA25Engine \<Rightarrow> byte list \<Rightarrow> 'w AA25Engine \<Rightarrow> bool" where
  "progress e0 bs e \<longleftrightarrow> (case aa25FramePhase e of
      aa25PhaseUnsynced \<Rightarrow> True
    | aa25PhaseTrailing \<Rightarrow> True
    | aa25PhaseSource \<Rightarrow> bs = [] \<and> \<not> aa25PinnedValid e
    | aa25PhaseTarget \<Rightarrow> bs = [aa25FrameSource e] \<and> plain (aa25FrameSource e) \<and> \<not> aa25PinnedValid e
    | aa25PhasePB \<Rightarrow> \<exists>d. bs = [aa25FrameSource e, d] \<and> pinned_for e0 (aa25FrameSource e) d e
    | aa25PhaseSB \<Rightarrow> \<exists>d. bs = [aa25FrameSource e, d, aa25FramePB e] \<and> pinned_for e0 (aa25FrameSource e) d e
    | aa25PhaseNN \<Rightarrow> \<exists>d. bs = [aa25FrameSource e, d, aa25FramePB e, aa25FrameSB e] \<and>
        pinned_for e0 (aa25FrameSource e) d e
    | aa25PhaseData \<Rightarrow> \<exists>d xs. bs = [aa25FrameSource e, d, aa25FramePB e, aa25FrameSB e, aa25FrameNN e] @ xs \<and>
        pinned_for e0 (aa25FrameSource e) d e \<and> unat (aa25FrameNN e) \<le> 16 \<and> 0 < unat (aa25FrameLeft e) \<and>
        length xs + unat (aa25FrameLeft e) = unat (aa25FrameNN e)
    | aa25PhaseCRC \<Rightarrow> \<exists>d xs. bs = [aa25FrameSource e, d, aa25FramePB e, aa25FrameSB e, aa25FrameNN e] @ xs \<and>
        pinned_for e0 (aa25FrameSource e) d e \<and> unat (aa25FrameNN e) \<le> 16 \<and> length xs = unat (aa25FrameNN e))"

definition pending_tail :: "'w AA25Engine \<Rightarrow> byte list" where
  "pending_tail e = (if aa25EscapePending e then [aa25SymbolEscape] else [])"

text \<open>After the symbols \<open>ws\<close> the frame is lost or over, or the logical bytes \<open>bs\<close> have been taken.\<close>

definition follows :: "'w AA25Engine \<Rightarrow> byte list \<Rightarrow> 'w AA25Engine \<Rightarrow> bool" where
  "follows e0 ws e \<longleftrightarrow> aa25FramePhase e \<in> {aa25PhaseUnsynced, aa25PhaseTrailing} \<or>
     (\<exists>bs. ws = EscapeBytes bs @ pending_tail e \<and> progress e0 bs e \<and>
        aa25FrameCRC e = foldl Update 0 (if aa25FramePhase e = aa25PhaseCRC then EscapeBytes bs else ws))"

text \<open>What does not change while nothing is under way.\<close>

definition stable :: "'w AA25Engine \<Rightarrow> 'w AA25Engine \<Rightarrow> bool" where
  "stable e0 e \<longleftrightarrow> aa25Config e = aa25Config e0 \<and> aa25Slot e = aa25Slot e0 \<and> aa25SlotValid e = aa25SlotValid e0 \<and>
     aa25ReserveTicks e = aa25ReserveTicks e0"

lemma Deliver_keeps [simp]:
  "aa25Config (aa25DeliverLogical b esc now e) = aa25Config e" "aa25Slot (aa25DeliverLogical b esc now e) = aa25Slot e"
  "aa25SlotValid (aa25DeliverLogical b esc now e) = aa25SlotValid e"
  "aa25ReserveTicks (aa25DeliverLogical b esc now e) = aa25ReserveTicks e"
  by (simp_all add: aa25DeliverLogical_def aa25AdmitResponse_def aa25DropFrame_def Let_def split: aa25FramePhase.split)

lemma stable_Deliver: "stable e0 (aa25DeliverLogical b esc now e) = stable e0 e"
  by (simp add: stable_def)

lemma stable_receive: "stable e0 (receive r e) = stable e0 e"
proof -
  have "stable e0 (crc_feed s e) = stable e0 e" "stable e0 (aa25DropFrame e) = stable e0 e" "stable e0 (aa25StartFrame e) = stable e0 e"
    "stable e0 (aa25AbortTX now e) = stable e0 e" "stable e0 (aa25PublishFault f now e) = stable e0 e"
    "stable e0 (e\<lparr>aa25EscapePending := b\<rparr>) = stable e0 e" "stable e0 (e\<lparr>aa25CharStartTick := t\<rparr>) = stable e0 e"
    "stable e0 (e\<lparr>aa25CharStartTick := t, aa25EscapePending := b\<rparr>) = stable e0 e"
    for s now f b t and e :: "'a AA25Engine"
    by (simp_all add: stable_def crc_feed_def aa25DropFrame_def aa25StartFrame_def)
  then show ?thesis
    by (simp add: receive_def aa25FeedFrame_def Let_def stable_Deliver split: prod.split)
qed

text \<open>One logical byte in a state with nothing under way.\<close>

lemma Deliver_progress:
  assumes p: "progress e0 bs e" and idle: "aa25TXState e = aa25TXIdle" and st: "stable e0 e"
    and esc: "esc = (\<not> plain b)" and ph: "aa25FramePhase e \<noteq> aa25PhaseCRC" "aa25FramePhase e \<noteq> aa25PhaseUnsynced"
  shows "progress e0 (bs @ [b]) (aa25DeliverLogical b esc now e) \<and> aa25TXState (aa25DeliverLogical b esc now e) = aa25TXIdle \<and>
    (aa25FramePhase (aa25DeliverLogical b esc now e) \<noteq> aa25PhaseUnsynced \<longrightarrow>
       aa25EscapePending (aa25DeliverLogical b esc now e) = aa25EscapePending e) \<and>
    aa25FrameCRC (aa25DeliverLogical b esc now e) = aa25FrameCRC e"
proof (cases "aa25FramePhase e")
  case aa25PhaseData
  then obtain d xs where bs: "bs = [aa25FrameSource e, d, aa25FramePB e, aa25FrameSB e, aa25FrameNN e] @ xs"
      "pinned_for e0 (aa25FrameSource e) d e" "unat (aa25FrameNN e) \<le> 16" "0 < unat (aa25FrameLeft e)"
      "length xs + unat (aa25FrameLeft e) = unat (aa25FrameNN e)"
    using p by (auto simp: progress_def)
  have l: "unat (aa25FrameLeft e - 1) = unat (aa25FrameLeft e) - 1"
    using bs(4) by (intro unat_minus_one) auto
  have z: "aa25FrameLeft e - 1 = 0 \<longleftrightarrow> unat (aa25FrameLeft e) - 1 = 0"
    using l by (metis unat_0 unat_eq_zero)
  show ?thesis
    using bs aa25PhaseData idle l z
    by (auto simp: aa25DeliverLogical_def Let_def progress_def pinned_for_def)
next
  case aa25PhaseTarget
  then show ?thesis
    using p idle st esc
    by (auto simp: aa25DeliverLogical_def Let_def progress_def pinned_for_def aa25DropFrame_def stable_def)
next
  case aa25PhaseNN
  then show ?thesis
    using p idle st esc
    by (auto simp: aa25DeliverLogical_def Let_def progress_def pinned_for_def aa25DropFrame_def stable_def
        word_le_nat_alt word_less_nat_alt unat_gt_0)
qed (use p idle st esc ph in \<open>auto simp: aa25DeliverLogical_def Let_def progress_def pinned_for_def aa25DropFrame_def\<close>)

lemma Deliver_follows:
  assumes "progress e0 bs e" "aa25TXState e = aa25TXIdle" "stable e0 e" "esc = (\<not> plain b)" "\<not> aa25EscapePending e"
    "aa25FramePhase e \<notin> {aa25PhaseCRC, aa25PhaseUnsynced, aa25PhaseTrailing}"
    "aa25FrameCRC e = foldl Update 0 (EscapeBytes (bs @ [b]))"
  shows "follows e0 (EscapeBytes (bs @ [b])) (aa25DeliverLogical b esc now e) \<and>
    aa25TXState (aa25DeliverLogical b esc now e) = aa25TXIdle"
  using Deliver_progress [OF assms(1-4), of now] assms(5-7)
  by (auto simp: follows_def pending_tail_def simp del: EscapeBytes_simps)

text \<open>The CRC byte decides: an answer needs the right CRC, a pin that matches and room on the clock.\<close>

lemma Deliver_CRC:
  assumes "aa25FramePhase e = aa25PhaseCRC" "aa25TXState e = aa25TXIdle"
  shows "aa25FramePhase (aa25DeliverLogical b esc now e) = aa25PhaseTrailing"
    "aa25TXState (aa25DeliverLogical b esc now e) =
       (if b = aa25FrameCRC e \<and> aa25PinnedValid e \<and> aa25FramePB e = AA25MatchPB (aa25Pinned e) \<and>
           aa25FrameSB e = AA25MatchSB (aa25Pinned e) \<and> aa25FrameNN e = AA25MatchNN (aa25Pinned e) \<and>
           aa25ScheduleFits (aa25ReserveTicks e) (aa25CharStartTick e)
        then aa25TXWaiting else aa25TXIdle)"
    "aa25Pinned (aa25DeliverLogical b esc now e) = aa25Pinned e"
  using assms by (auto simp: aa25DeliverLogical_def aa25AdmitResponse_def Let_def)

lemma CRC_wire: "foldl Update c (EscapeBytes bs) = foldl crc_symbol c bs"
  by (induction bs arbitrary: c) (simp_all add: crc_symbol_foldl)

text \<open>The request that earns an answer.\<close>

definition request_for :: "'w AA25Engine \<Rightarrow> byte \<Rightarrow> byte list \<Rightarrow> byte list" where
  "request_for e src xs = [src, AA25ResponderAddress (aa25Config e), AA25MatchPB (aa25Slot e), AA25MatchSB (aa25Slot e),
     AA25MatchNN (aa25Slot e)] @ xs"

definition answerable :: "'w AA25Engine \<Rightarrow> byte list \<Rightarrow> bool" where
  "answerable e ws \<longleftrightarrow> aa25SlotValid e \<and> (\<exists>src xs. plain src \<and> aa25InitiatorAddress src \<and>
     plain (AA25ResponderAddress (aa25Config e)) \<and> length xs = unat (AA25MatchNN (aa25Slot e)) \<and> length xs \<le> 16 \<and>
     ws = EscapeBytes (request_for e src xs @ [CRC (request_for e src xs)]))"

lemma CRC_phase_answer:
  assumes pr: "progress e0 bs e" and st: "stable e0 e" and ph: "aa25FramePhase e = aa25PhaseCRC"
    and crc: "aa25FrameCRC e = foldl Update 0 (EscapeBytes bs)" and idle: "aa25TXState e = aa25TXIdle"
    and tx: "aa25TXState (aa25DeliverLogical b esc now e) \<noteq> aa25TXIdle"
  shows "answerable e0 (EscapeBytes (bs @ [b])) \<and> aa25Pinned (aa25DeliverLogical b esc now e) = aa25Slot e0"
proof -
  obtain d xs where bs: "bs = [aa25FrameSource e, d, aa25FramePB e, aa25FrameSB e, aa25FrameNN e] @ xs"
      "pinned_for e0 (aa25FrameSource e) d e" "unat (aa25FrameNN e) \<le> 16" "length xs = unat (aa25FrameNN e)"
    using pr ph by (auto simp: progress_def)
  have c: "b = aa25FrameCRC e" "aa25PinnedValid e" "aa25FramePB e = AA25MatchPB (aa25Pinned e)"
      "aa25FrameSB e = AA25MatchSB (aa25Pinned e)" "aa25FrameNN e = AA25MatchNN (aa25Pinned e)"
    using tx Deliver_CRC(2) [OF ph idle] by (auto split: if_splits)
  have p: "aa25Pinned e = aa25Slot e0" "d = AA25ResponderAddress (aa25Config e0)" "aa25SlotValid e0"
      "plain d" "plain (aa25FrameSource e)" "aa25InitiatorAddress (aa25FrameSource e)"
    using bs(2) c(2) by (auto simp: pinned_for_def)
  have "bs = request_for e0 (aa25FrameSource e) xs"
    using bs(1) c p by (simp add: request_for_def)
  moreover have "b = CRC bs"
    using c(1) crc by (simp add: CRC_def CRC_wire)
  ultimately have "EscapeBytes (bs @ [b]) = EscapeBytes (request_for e0 (aa25FrameSource e) xs @
      [CRC (request_for e0 (aa25FrameSource e) xs)])"
    by simp
  then have "answerable e0 (EscapeBytes (bs @ [b]))"
    unfolding answerable_def using bs(3,4) c p by metis
  then show ?thesis
    using p(1) Deliver_CRC(3) [OF ph idle] by simp
qed

lemma plain_escape: "plain b \<Longrightarrow> escape_symbol b = [b]" "escape_symbol aa25SymbolEscape = [aa25SymbolEscape, 0]"
  "escape_symbol aa25SymbolSyn = [aa25SymbolEscape, 1]"
  by (auto simp: plain_def escape_symbol_def symbol_defs)

lemma progress_fields [simp]:
  "progress e0 bs (e\<lparr>aa25CharStartTick := t\<rparr>) = progress e0 bs e"
  "progress e0 bs (e\<lparr>aa25EscapePending := x\<rparr>) = progress e0 bs e"
  "progress e0 bs (e\<lparr>aa25CharStartTick := t, aa25EscapePending := x\<rparr>) = progress e0 bs e"
  "progress e0 bs (e\<lparr>aa25CharStartTick := t, aa25EscapePending := x, aa25FrameCRC := c\<rparr>) = progress e0 bs e"
  "progress e0 bs (crc_feed s e) = progress e0 bs e"
  by (cases "aa25FramePhase e"; simp add: progress_def pinned_for_def crc_feed_def)+

text \<open>One logical byte that the symbol \<open>s\<close> completes: \<open>e\<close> is the state before its CRC update.\<close>

lemma complete_byte:
  assumes pr: "progress e0 bs e" and st: "stable e0 e" and idle: "aa25TXState e = aa25TXIdle"
    and ph: "aa25FramePhase e \<notin> {aa25PhaseUnsynced, aa25PhaseTrailing}" and pend: "\<not> aa25EscapePending e"
    and ws: "ws @ [s] = EscapeBytes (bs @ [b])" and esc: "esc = (\<not> plain b)"
    and crc: "aa25FrameCRC e = foldl Update 0 (if aa25FramePhase e = aa25PhaseCRC then EscapeBytes bs else ws)"
    and e': "e' = aa25DeliverLogical b esc now (crc_feed s e)"
  shows "if aa25TXState e' = aa25TXIdle then follows e0 (ws @ [s]) e'
    else answerable e0 (ws @ [s]) \<and> aa25Pinned e' = aa25Slot e0"
proof (cases "aa25FramePhase e = aa25PhaseCRC")
  case True
  have c: "crc_feed s e = e"
    using True by (simp add: crc_feed_def)
  have "answerable e0 (EscapeBytes (bs @ [b])) \<and> aa25Pinned e' = aa25Slot e0" if "aa25TXState e' \<noteq> aa25TXIdle"
    using CRC_phase_answer [OF pr st True] crc True idle that by (simp add: e' c)
  moreover have "aa25FramePhase e' = aa25PhaseTrailing"
    using Deliver_CRC(1) [OF True idle] by (simp add: e' c)
  ultimately show ?thesis
    by (simp add: ws follows_def del: EscapeBytes_simps)
next
  case False
  have "aa25FrameCRC (crc_feed s e) = foldl Update 0 (EscapeBytes (bs @ [b]))"
    using False crc by (simp add: crc_feed_def aa25CRCUpdate_eq ws [symmetric] del: EscapeBytes_simps)
  moreover have "stable e0 (crc_feed s e)" "\<not> aa25EscapePending (crc_feed s e)"
    using st pend by (simp_all add: stable_def crc_feed_def)
  ultimately show ?thesis
    using Deliver_follows [of e0 bs "crc_feed s e" esc b now] pr idle esc ph False
    by (simp add: e' ws del: EscapeBytes_simps)
qed

lemma receive_follows:
  assumes f: "follows e0 ws e" and st: "stable e0 e" and idle: "aa25TXState e = aa25TXIdle" and s: "s \<noteq> aa25SymbolSyn"
  shows "if aa25TXState (receive (s, start, now) e) = aa25TXIdle then follows e0 (ws @ [s]) (receive (s, start, now) e)
    else answerable e0 (ws @ [s]) \<and> aa25Pinned (receive (s, start, now) e) = aa25Slot e0"
proof -
  define e1 where "e1 = e\<lparr>aa25CharStartTick := start\<rparr>"
  define e2 where "e2 = e1\<lparr>aa25EscapePending := False\<rparr>"
  have r: "receive (s, start, now) e = aa25FeedFrame s now e1"
    by (simp add: receive_def e1_def)
  consider (lost) "aa25FramePhase e = aa25PhaseUnsynced" | (over) "aa25FramePhase e = aa25PhaseTrailing"
    | (going) bs where "aa25FramePhase e \<notin> {aa25PhaseUnsynced, aa25PhaseTrailing}"
        "ws = EscapeBytes bs @ pending_tail e" "progress e0 bs e"
        "aa25FrameCRC e = foldl Update 0 (if aa25FramePhase e = aa25PhaseCRC then EscapeBytes bs else ws)"
    using f by (auto simp: follows_def)
  then show ?thesis
  proof cases
    case lost
    then show ?thesis
      using s idle by (simp add: r aa25FeedFrame_def e1_def follows_def)
  next
    case over
    then have "aa25TXState (aa25FeedFrame s now e1) = aa25TXIdle \<and>
        aa25FramePhase (aa25FeedFrame s now e1) \<in> {aa25PhaseUnsynced, aa25PhaseTrailing}"
      using s idle by (auto simp: aa25FeedFrame_def e1_def aa25DeliverLogical_def aa25DropFrame_def Let_def)
    then show ?thesis
      by (simp add: r follows_def)
  next
    case (going bs)
    have st2: "stable e0 e2" "stable e0 e1" and c: "aa25FrameCRC e2 = aa25FrameCRC e" "aa25FrameCRC e1 = aa25FrameCRC e"
        "aa25FramePhase e2 = aa25FramePhase e" "aa25FramePhase e1 = aa25FramePhase e" "progress e0 bs e2" "progress e0 bs e1"
        "aa25TXState e1 = aa25TXIdle" "aa25TXState e2 = aa25TXIdle" "\<not> aa25EscapePending e2"
      using st going(3) idle by (simp_all add: e2_def e1_def stable_def)
    show ?thesis
    proof (cases "aa25EscapePending e")
      case True
      then have w: "ws @ [0] = EscapeBytes (bs @ [aa25SymbolEscape])" "ws @ [1] = EscapeBytes (bs @ [aa25SymbolSyn])"
        using going(2) by (simp_all add: pending_tail_def plain_escape)
      consider "s = 0" | "s = 1" | "s \<noteq> 0" "s \<noteq> 1"
        by blast
      then show ?thesis
      proof cases
        case 1
        have eq: "receive (0, start, now) e = aa25DeliverLogical aa25SymbolEscape True now (crc_feed 0 e2)"
          using True going(1) by (simp add: r aa25FeedFrame_def Let_def e1_def e2_def receive_def)
        show ?thesis
          unfolding 1 by (rule complete_byte [OF c(5) st2(1) c(8) _ c(9) w(1) _ _ eq])
            (use going(1,4) c in \<open>simp_all add: plain_def\<close>)
      next
        case 2
        have eq: "receive (1, start, now) e = aa25DeliverLogical aa25SymbolSyn True now (crc_feed 1 e2)"
          using True going(1) by (simp add: r aa25FeedFrame_def Let_def e1_def e2_def receive_def)
        show ?thesis
          unfolding 2 by (rule complete_byte [OF c(5) st2(1) c(8) _ c(9) w(2) _ _ eq])
            (use going(1,4) c in \<open>simp_all add: plain_def\<close>)
      next
        case 3
        then show ?thesis
          using True going(1) s by (simp add: r aa25FeedFrame_def Let_def e1_def aa25DropFrame_def follows_def)
      qed
    next
      case False
      show ?thesis
      proof (cases "s = aa25SymbolEscape")
        case True
        have "follows e0 (ws @ [s]) (crc_feed s (e1\<lparr>aa25EscapePending := True\<rparr>))"
          using going False True c(6)
          by (auto simp: follows_def pending_tail_def crc_feed_def e1_def aa25CRCUpdate_eq intro!: exI [of _ bs])
        then show ?thesis
          using True going(1) False idle by (simp add: receive_def aa25FeedFrame_def Let_def e1_def)
      next
        case plainly: False
        then have w: "ws @ [s] = EscapeBytes (bs @ [s])" "plain s"
          using going(2) False s by (simp_all add: pending_tail_def plain_def plain_escape)
        have eq: "receive (s, start, now) e = aa25DeliverLogical s False now (crc_feed s e1)"
          using False going(1) s plainly by (simp add: r aa25FeedFrame_def Let_def e1_def receive_def)
        show ?thesis
          by (rule complete_byte [OF c(6) st2(2) c(7) _ _ w(1) _ _ eq])
            (use going(1,4) c w(2) False in \<open>simp_all add: e1_def\<close>)
      qed
    qed
  qed
qed

section \<open>Only a matching request is answered\<close>

lemma receive_syn:
  assumes "aa25TXState e = aa25TXIdle"
  shows "aa25TXState (receive (aa25SymbolSyn, t, n) e) = aa25TXIdle" "stable e (receive (aa25SymbolSyn, t, n) e)"
    "follows e [] (receive (aa25SymbolSyn, t, n) e)" "aa25FramePhase (receive (aa25SymbolSyn, t, n) e) = aa25PhaseSource"
    "\<not> aa25EscapePending (receive (aa25SymbolSyn, t, n) e)" "aa25FrameCRC (receive (aa25SymbolSyn, t, n) e) = 0"
proof -
  have "stable e (receive (aa25SymbolSyn, t, n) e) = stable e e"
    by (rule stable_receive)
  then show "stable e (receive (aa25SymbolSyn, t, n) e)"
    by (simp add: stable_def)
  show f: "aa25TXState (receive (aa25SymbolSyn, t, n) e) = aa25TXIdle"
    "aa25FramePhase (receive (aa25SymbolSyn, t, n) e) = aa25PhaseSource"
    "\<not> aa25EscapePending (receive (aa25SymbolSyn, t, n) e)" "aa25FrameCRC (receive (aa25SymbolSyn, t, n) e) = 0"
    using assms by (simp_all add: receive_def aa25FeedFrame_def aa25StartFrame_def aa25DropFrame_def Let_def)
  have "\<not> aa25PinnedValid (receive (aa25SymbolSyn, t, n) e)"
    using assms by (simp add: receive_def aa25FeedFrame_def aa25StartFrame_def aa25DropFrame_def Let_def)
  with f show "follows e [] (receive (aa25SymbolSyn, t, n) e)"
    by (auto simp: follows_def pending_tail_def progress_def intro: exI [of _ "[]"])
qed

lemma receive_all_follows:
  assumes "follows e0 ws e" "stable e0 e" "aa25TXState e = aa25TXIdle"
    and "\<And>rs1 rs2. rs = rs1 @ rs2 \<Longrightarrow> aa25TXState (receive_all rs1 e) = aa25TXIdle"
    and "aa25SymbolSyn \<notin> fst ` set rs"
  shows "follows e0 (ws @ map fst rs) (receive_all rs e) \<and> stable e0 (receive_all rs e)"
  using assms
proof (induction rs arbitrary: ws e)
  case (Cons r rs)
  obtain s start now where r: "r = (s, start, now)"
    by (cases r) auto
  have idle: "aa25TXState (receive r e) = aa25TXIdle"
    using Cons.prems(4) [of "[r]" rs] by simp
  have "follows e0 (ws @ [s]) (receive r e)"
    using receive_follows [OF Cons.prems(1-3), of s start now] Cons.prems(5) idle by (auto simp: r)
  then have "follows e0 ((ws @ [s]) @ map fst rs) (receive_all rs (receive r e)) \<and> stable e0 (receive_all rs (receive r e))"
  proof (rule Cons.IH)
    show "stable e0 (receive r e)"
      using Cons.prems(2) by (simp add: stable_receive)
    show "aa25TXState (receive_all rs1 (receive r e)) = aa25TXIdle" if "rs = rs1 @ rs2" for rs1 rs2
      using Cons.prems(4) [of "r # rs1" rs2] that by simp
  qed (use idle Cons.prems(5) in auto)
  then show ?case
    by (simp add: r)
qed simp

text \<open>
  C16: an engine with nothing under way takes a response into transmission only for the symbols of one valid
  request: after a SYN, exactly the escaped form of initiator, own address, the command and length the prepared
  response is for, that many data bytes and their CRC.  What it then transmits is the prepared response.
\<close>

theorem answers_only_matching_request:
  assumes "aa25TXState e0 = aa25TXIdle" "aa25SymbolSyn \<notin> fst ` set (rs @ [r])"
    and "list_all (\<lambda>k. aa25TXState (receive_all (take k rs) (receive (aa25SymbolSyn, t, n) e0)) = aa25TXIdle) [0..<Suc (length rs)]"
    and "aa25TXState (receive_all (rs @ [r]) (receive (aa25SymbolSyn, t, n) e0)) \<noteq> aa25TXIdle"
  shows "answerable e0 (map fst (rs @ [r])) \<and>
    aa25Pinned (receive_all (rs @ [r]) (receive (aa25SymbolSyn, t, n) e0)) = aa25Slot e0"
proof -
  let ?e = "receive_all rs (receive (aa25SymbolSyn, t, n) e0)"
  note syn = receive_syn [OF assms(1), of t n]
  obtain s start now where r: "r = (s, start, now)"
    by (cases r) auto
  have idle: "aa25TXState (receive_all rs1 (receive (aa25SymbolSyn, t, n) e0)) = aa25TXIdle" if "rs = rs1 @ rs2" for rs1 rs2
    using assms(3) that unfolding list_all_upt by (auto dest!: spec [of _ "length rs1"])
  have "follows e0 (map fst rs) ?e" "stable e0 ?e"
    using receive_all_follows [OF syn(3,2,1) idle] assms(2) by auto
  moreover have "aa25TXState ?e = aa25TXIdle"
    using idle [of rs "[]"] by simp
  ultimately show ?thesis
    using receive_follows [of e0 "map fst rs" ?e s start now] assms(2,4) by (auto simp: r)
qed

section \<open>Every matching request is answered\<close>

text \<open>The symbols of one byte deliver it once, with the CRC advanced over them unless it is the CRC itself.\<close>

definition fed :: "byte \<Rightarrow> u64 \<Rightarrow> 'w AA25Engine \<Rightarrow> 'w AA25Engine" where
  "fed b start e = e\<lparr>aa25CharStartTick := start, aa25EscapePending := False,
     aa25FrameCRC := (if aa25FramePhase e = aa25PhaseCRC then aa25FrameCRC e
       else foldl Update (aa25FrameCRC e) (escape_symbol b))\<rparr>"

lemma receive_byte:
  assumes "aa25FramePhase e \<noteq> aa25PhaseUnsynced" "\<not> aa25EscapePending e" "map fst rs = escape_symbol b"
  shows "\<exists>now. receive_all rs e = aa25DeliverLogical b (\<not> plain b) now (fed b (fst (snd (last rs))) e)"
proof (cases "plain b")
  case True
  then obtain start now where rs: "rs = [(b, start, now)]"
    using assms(3) by (auto simp: plain_escape)
  have "receive (b, start, now) e = aa25DeliverLogical b False now (fed b start e)"
    using assms True by (auto simp: receive_def aa25FeedFrame_def Let_def crc_feed_def fed_def plain_escape plain_def
        aa25CRCUpdate_eq intro!: arg_cong [where f = "aa25DeliverLogical b False now"])
  then show ?thesis
    using True rs by auto
next
  case False
  then obtain c start1 now1 start now where rs: "rs = [(aa25SymbolEscape, start1, now1), (c, start, now)]"
      and c: "escape_symbol b = [aa25SymbolEscape, c]" "b = aa25SymbolEscape \<and> c = 0 \<or> b = aa25SymbolSyn \<and> c = 1"
    using assms(3) by (auto simp: plain_def plain_escape)
  have "receive (c, start, now) (receive (aa25SymbolEscape, start1, now1) e) =
      aa25DeliverLogical b True now (fed b start e)"
    using assms(1,2) c by (auto simp: receive_def aa25FeedFrame_def Let_def crc_feed_def fed_def aa25CRCUpdate_eq
        intro!: arg_cong [where f = "aa25DeliverLogical b True now"])
  then show ?thesis
    using False rs by auto
qed

definition on_track :: "'w AA25Engine \<Rightarrow> byte list \<Rightarrow> 'w AA25Engine \<Rightarrow> bool" where
  "on_track e0 bs e \<longleftrightarrow> progress e0 bs e \<and> aa25TXState e = aa25TXIdle \<and> stable e0 e \<and> \<not> aa25EscapePending e \<and>
     aa25FramePhase e \<notin> {aa25PhaseUnsynced, aa25PhaseTrailing} \<and> aa25FrameCRC e = foldl Update 0 (EscapeBytes bs)"

definition good_request :: "'w AA25Engine \<Rightarrow> byte \<Rightarrow> byte list \<Rightarrow> bool" where
  "good_request e src xs \<longleftrightarrow> plain src \<and> aa25InitiatorAddress src \<and> plain (AA25ResponderAddress (aa25Config e)) \<and>
     length xs = unat (AA25MatchNN (aa25Slot e)) \<and> length xs \<le> 16"

lemma Deliver_stays:
  assumes t: "progress e0 bs e" "stable e0 e" "aa25FramePhase e \<notin> {aa25PhaseUnsynced, aa25PhaseTrailing}" and g: "good_request e0 src xs" and req: "request_for e0 src xs = bs @ b # zs"
  shows "aa25FramePhase e \<noteq> aa25PhaseCRC \<and>
    aa25FramePhase (aa25DeliverLogical b (\<not> plain b) now e) \<notin> {aa25PhaseUnsynced, aa25PhaseTrailing}"
proof -
  have len: "length bs < 5 + length xs"
    using arg_cong [OF req, of length] by (simp add: request_for_def)
  show ?thesis
  proof (cases "aa25FramePhase e")
    case aa25PhaseCRC
    then obtain d ys where "bs = [aa25FrameSource e, d, aa25FramePB e, aa25FrameSB e, aa25FrameNN e] @ ys"
        "length ys = unat (aa25FrameNN e)"
      using t by (auto simp: progress_def)
    with req g len have False
      by (auto simp: request_for_def good_request_def)
    then show ?thesis ..
  next
    case aa25PhaseNN
    have "b \<le> 16"
      using t aa25PhaseNN req g by (auto simp: progress_def request_for_def good_request_def word_le_nat_alt)
    then show ?thesis
      using aa25PhaseNN by (auto simp: aa25DeliverLogical_def Let_def not_less [symmetric])
  qed (use t g req in \<open>auto simp: progress_def request_for_def good_request_def aa25DeliverLogical_def Let_def
      stable_def\<close>)
qed

lemma fed_frame [simp]:
  "aa25FramePhase (fed b t e) = aa25FramePhase e" "aa25TXState (fed b t e) = aa25TXState e" "\<not> aa25EscapePending (fed b t e)"
  "progress e0 bs (fed b t e) = progress e0 bs e" "stable e0 (fed b t e) = stable e0 e"
  "aa25CharStartTick (fed b t e) = t"
  by (simp_all add: fed_def stable_def)

lemma track_byte:
  assumes t: "on_track e0 bs e" and g: "good_request e0 src xs" and req: "request_for e0 src xs = bs @ b # zs"
    and rs: "map fst rs = escape_symbol b"
  shows "on_track e0 (bs @ [b]) (receive_all rs e)"
proof -
  have t': "progress e0 bs e" "stable e0 e" "aa25FramePhase e \<notin> {aa25PhaseUnsynced, aa25PhaseTrailing}"
    using t by (simp_all add: on_track_def)
  have ph: "aa25FramePhase e \<noteq> aa25PhaseCRC"
    using Deliver_stays [OF t' g req] by blast
  obtain now start where eq: "receive_all rs e = aa25DeliverLogical b (\<not> plain b) now (fed b start e)"
    using receive_byte [of e rs b] t rs by (auto simp: on_track_def)
  let ?e = "fed b start e"
  have "progress e0 (bs @ [b]) (aa25DeliverLogical b (\<not> plain b) now ?e) \<and>
      aa25TXState (aa25DeliverLogical b (\<not> plain b) now ?e) = aa25TXIdle \<and>
      (aa25FramePhase (aa25DeliverLogical b (\<not> plain b) now ?e) \<noteq> aa25PhaseUnsynced \<longrightarrow>
         aa25EscapePending (aa25DeliverLogical b (\<not> plain b) now ?e) = aa25EscapePending ?e) \<and>
      aa25FrameCRC (aa25DeliverLogical b (\<not> plain b) now ?e) = aa25FrameCRC ?e"
    by (rule Deliver_progress) (use t ph in \<open>auto simp: on_track_def\<close>)
  moreover have "aa25FramePhase (aa25DeliverLogical b (\<not> plain b) now ?e) \<notin> {aa25PhaseUnsynced, aa25PhaseTrailing}"
    using Deliver_stays [of e0 bs ?e, OF _ _ _ g req] t' by simp
  moreover have "aa25FrameCRC ?e = foldl Update 0 (EscapeBytes (bs @ [b]))"
    using t ph by (simp add: fed_def on_track_def)
  ultimately show ?thesis
    using t by (simp add: on_track_def eq stable_Deliver del: EscapeBytes_simps)
qed

lemma receive_all_append: "receive_all (rs @ rs') e = receive_all rs' (receive_all rs e)"
  by (simp add: receive_all_def)

lemma track_all:
  assumes "on_track e0 bs e" "good_request e0 src xs" "request_for e0 src xs = bs @ zs" "map fst rs = EscapeBytes zs"
  shows "on_track e0 (bs @ zs) (receive_all rs e)"
  using assms
proof (induction zs arbitrary: bs rs e)
  case (Cons b zs)
  define rs1 rs2 where "rs1 = take (length (escape_symbol b)) rs" and "rs2 = drop (length (escape_symbol b)) rs"
  have rs: "rs = rs1 @ rs2" "map fst rs1 = escape_symbol b" "map fst rs2 = EscapeBytes zs"
    using Cons.prems(4) by (simp_all add: rs1_def rs2_def take_map [symmetric] drop_map [symmetric])
  have "on_track e0 (bs @ [b]) (receive_all rs1 e)"
    by (rule track_byte [OF Cons.prems(1-3) rs(2)])
  then have "on_track e0 ((bs @ [b]) @ zs) (receive_all rs2 (receive_all rs1 e))"
    by (rule Cons.IH) (use Cons.prems rs in simp_all)
  then show ?case
    by (simp add: rs(1) receive_all_append)
qed simp

lemma track_request:
  assumes t: "on_track e0 (request_for e0 src xs) e" and g: "good_request e0 src xs" and sl: "aa25SlotValid e0"
  shows "aa25FramePhase e = aa25PhaseCRC \<and> aa25PinnedValid e \<and> aa25Pinned e = aa25Slot e0 \<and>
    aa25FramePB e = AA25MatchPB (aa25Slot e0) \<and> aa25FrameSB e = AA25MatchSB (aa25Slot e0) \<and>
    aa25FrameNN e = AA25MatchNN (aa25Slot e0)"
  using assms
  by (cases "aa25FramePhase e")
    (auto simp: on_track_def progress_def request_for_def good_request_def pinned_for_def)

text \<open>
  C17: every such request is answered: from any state with nothing under way, a SYN followed by the symbols of a
  request that matches the prepared response puts that response into transmission, provided the schedule of a
  whole response still fits the tick counter.
\<close>

theorem answers_every_matching_request:
  assumes "aa25TXState e0 = aa25TXIdle" "answerable e0 (map fst rs)"
    and "aa25ScheduleFits (aa25ReserveTicks e0) (fst (snd (last rs)))"
  shows "aa25TXState (receive_all rs (receive (aa25SymbolSyn, t, n) e0)) = aa25TXWaiting \<and>
    aa25Pinned (receive_all rs (receive (aa25SymbolSyn, t, n) e0)) = aa25Slot e0"
proof -
  obtain src xs where g: "good_request e0 src xs" and sl: "aa25SlotValid e0"
      and ws: "map fst rs = EscapeBytes (request_for e0 src xs @ [CRC (request_for e0 src xs)])"
    using assms(2) unfolding answerable_def good_request_def by blast
  let ?req = "request_for e0 src xs" and ?e1 = "receive (aa25SymbolSyn, t, n) e0"
  define rs1 rs2 where "rs1 = take (length (EscapeBytes ?req)) rs" and "rs2 = drop (length (EscapeBytes ?req)) rs"
  have rs: "rs = rs1 @ rs2" "map fst rs1 = EscapeBytes ?req" "map fst rs2 = escape_symbol (CRC ?req)"
    using ws by (simp_all add: rs1_def rs2_def take_map [symmetric] drop_map [symmetric])
  have ne: "rs2 \<noteq> []"
    using rs(3) by (auto simp: escape_symbol_def split: if_splits)
  note syn = receive_syn [OF assms(1), of t n]
  have "on_track e0 [] ?e1"
    using syn by (auto simp: on_track_def follows_def progress_def)
  from track_all [OF this g _ rs(2)] have t: "on_track e0 ?req (receive_all rs1 ?e1)"
    by simp
  note r = track_request [OF t g sl]
  let ?e2 = "receive_all rs1 ?e1"
  have p: "aa25FramePhase ?e2 \<noteq> aa25PhaseUnsynced" "\<not> aa25EscapePending ?e2" "aa25TXState ?e2 = aa25TXIdle"
      "aa25FrameCRC ?e2 = CRC ?req" "aa25ReserveTicks ?e2 = aa25ReserveTicks e0"
    using t r by (simp_all add: on_track_def CRC_wire CRC_def stable_def)
  obtain now where now: "receive_all rs2 ?e2 =
      aa25DeliverLogical (CRC ?req) (\<not> plain (CRC ?req)) now (fed (CRC ?req) (fst (snd (last rs2))) ?e2)"
    using receive_byte [OF p(1,2) rs(3)] by blast
  have f: "aa25FrameCRC (fed b st ?e2) = aa25FrameCRC ?e2" "aa25Pinned (fed b st ?e2) = aa25Pinned ?e2"
      "aa25PinnedValid (fed b st ?e2) = aa25PinnedValid ?e2" "aa25FramePB (fed b st ?e2) = aa25FramePB ?e2"
      "aa25FrameSB (fed b st ?e2) = aa25FrameSB ?e2" "aa25FrameNN (fed b st ?e2) = aa25FrameNN ?e2"
      "aa25ReserveTicks (fed b st ?e2) = aa25ReserveTicks ?e2" for b st
    using r by (simp_all add: fed_def)
  have "last rs = last rs2"
    using ne rs(1) by simp
  then have "aa25TXState (receive_all rs2 ?e2) = aa25TXWaiting \<and> aa25Pinned (receive_all rs2 ?e2) = aa25Slot e0"
    using Deliver_CRC(2,3) [of "fed (CRC ?req) (fst (snd (last rs2))) ?e2" "CRC ?req"] r p assms(3)
    by (simp add: now f)
  then show ?thesis
    by (simp add: rs(1) receive_all_append)
qed

text \<open>Initiator 0x10 asks for command 0x07 0x04 without data; the symbols arrive one character apart.\<close>

definition demo_request :: "received_symbol list" where
  "demo_request = [(0x10, 100, 196), (0x08, 200, 296), (0x07, 300, 396), (0x04, 400, 496), (0x00, 500, 596)]"

lemma demo_answerable: "answerable demo_ready (map fst (demo_request @ [(0x17, 600, 696)]))"
proof -
  let ?req = "request_for demo_ready 0x10 []"
  have "map fst (demo_request @ [(0x17, 600, 696)]) = EscapeBytes (?req @ [CRC ?req])"
    by code_simp
  moreover have "aa25SlotValid demo_ready \<and> plain 0x10 \<and> aa25InitiatorAddress 0x10 \<and>
      plain (AA25ResponderAddress (aa25Config demo_ready)) \<and> length ([] :: byte list) = unat (AA25MatchNN (aa25Slot demo_ready))"
    by code_simp
  ultimately show ?thesis
    unfolding answerable_def by (metis le0 list.size(3))
qed

theorem answers_every_matching_request_witness:
  "answerable demo_ready (map fst (demo_request @ [(0x17, 600, 696)])) \<and>
   aa25TXState (receive_all (demo_request @ [(0x17, 600, 696)]) (receive (aa25SymbolSyn, 0, 96) demo_ready)) = aa25TXWaiting \<and>
   aa25Pinned (receive_all (demo_request @ [(0x17, 600, 696)]) (receive (aa25SymbolSyn, 0, 96) demo_ready)) = aa25Slot demo_ready"
proof -
  have "aa25TXState demo_ready = aa25TXIdle \<and> aa25ScheduleFits (aa25ReserveTicks demo_ready) 600"
    by code_simp
  then show ?thesis
    using answers_every_matching_request [of demo_ready "demo_request @ [(0x17, 600, 696)]" 0 96] demo_answerable by simp
qed

theorem answers_only_matching_request_witness:
  "aa25TXState (receive_all (demo_request @ [(0x17, 600, 696)]) (receive (aa25SymbolSyn, 0, 96) demo_ready)) \<noteq> aa25TXIdle \<and>
   answerable demo_ready (map fst (demo_request @ [(0x17, 600, 696)])) \<and>
   aa25Pinned (receive_all (demo_request @ [(0x17, 600, 696)]) (receive (aa25SymbolSyn, 0, 96) demo_ready)) = aa25Slot demo_ready"
proof -
  have "aa25TXState demo_ready = aa25TXIdle"
    by code_simp
  moreover have "aa25SymbolSyn \<notin> fst ` set (demo_request @ [(0x17, 600, 696)])"
    by (simp add: demo_request_def)
  moreover have "list_all (\<lambda>k. aa25TXState (receive_all (take k demo_request) (receive (aa25SymbolSyn, 0, 96) demo_ready)) = aa25TXIdle)
      [0..<Suc (length demo_request)]"
    by code_simp
  moreover have "aa25TXState (receive_all (demo_request @ [(0x17, 600, 696)]) (receive (aa25SymbolSyn, 0, 96) demo_ready)) \<noteq> aa25TXIdle"
    by code_simp
  ultimately show ?thesis
    using answers_only_matching_request [of demo_ready demo_request "(0x17, 600, 696)" 0 96] by blast
qed

end
