(* ===== verification/Spec2Isabelle.thy ===== *)
theory Spec2Isabelle
  imports Telegram_Fsm Responder Data_Types L7_Types Bus_Retry Bus_Progress Bus_Queue Source_Selection
    Enh_Delivery Collision_Monitor Emulation Driver_Leases Plan_Guarantees
    Sample_Guarantees Sample_Clock Sample_Frames
begin

text \<open>
  Verification of helianthus-ebusgo, a protocol stack for the eBUS heating bus in Go.

  \<^bold>\<open>The program.\<close>  An application gives frames to a \<open>Bus\<close> (\<open>protocol/bus.go\<close>).  They wait in an ageing
  priority queue, and one loop takes them in turn: it wins the bus arbitration, writes the telegram symbol by
  symbol, compares each symbol with its echo, reads acknowledgement and response, and repeats what failed.  The
  symbols pass through a transport, most often the ENH transport (\<open>transport/enh_transport.go\<close>), which
  speaks a two-byte protocol to an adapter, undoes the byte stuffing of the bus and turns the adapter's messages
  into a bounded queue of events.  Beside this path stand a passive telegram follower, a responder for
  telegrams addressed to us, the choice of our own address, a collision monitor, codecs for payload values,
  emulated devices for tests, retry schedules, and a runtime that owns the life of transports.  A local worker
  (\<open>localworker\<close>) answers requests without the application: the host publishes plans of prepared responses
  to it, and an engine samples the line bit by bit and drives a response edge by edge.

  \<^bold>\<open>Theories and sources\<close> (paths below \<open>src/\<close>).
  \<^item> \<open>Ebus_Prelude\<close>: named theorem collections, types and lemmas every theory shares.
    \<open>Ebus_Errors\<close>: \<open>errors/errors.go\<close>, Go error chains as a datatype with \<open>errors.Is\<close>.
  \<^item> \<open>Crc8\<close>: \<open>internal/crc\<close>.  \<open>Addressing\<close>: frames, address classes, companions, the address table and frame
    validation of \<open>protocol\<close>.  \<open>Wire_Escape\<close>: \<open>protocol/slave_encode.go\<close> and the stateful decoder
    \<open>transport/ebus_escape.go\<close>.
  \<^item> \<open>Enh_Codec\<close>: \<open>transport/enh.go\<close>.  \<open>Go_Loop\<close>: Go's endless \<open>for\<close> as a partial function.
    \<open>Enh_Transport\<close>: every method of the ENH transport; \<open>Enh_Safety\<close>: its invariant over all call sequences;
    \<open>Enh_Delivery\<close>: what reads, writes and arbitrations deliver.
  \<^item> \<open>Go_Heap\<close>: \<open>container/heap\<close> as an interface.  \<open>Priority_Queue\<close>: \<open>protocol/queue.go\<close> on pointers,
    interpreted in it.
  \<^item> \<open>Bus_Events\<close>, \<open>Bus_Wire\<close>, \<open>Bus_Transaction\<close>, \<open>Bus_Retry\<close>, \<open>Bus_Queue\<close>: \<open>protocol/bus.go\<close> bottom up,
    with observer events, the echo check, one transaction, the retry tier, and the request loop with the queue.
    \<open>Loopback\<close>: the loopback transport.  \<open>Bus_Progress\<close>: the engine against a cooperative target.
  \<^item> \<open>Telegram_Fsm\<close>: \<open>protocol/telegram_fsm\<close>.  \<open>Responder\<close>: \<open>protocol/responder\<close>.  \<open>Source_Selection\<close>:
    \<open>protocol/source_address_selection.go\<close>.  \<open>Collision_Monitor\<close>: \<open>protocol/collision_monitor.go\<close>.
  \<^item> \<open>Go_Values\<close>: dynamic values and floating point bounds.  \<open>Data_Types\<close>: \<open>types\<close>.  \<open>L7_Types\<close>:
    \<open>protocol/ebus_standard/types\<close>.
  \<^item> \<open>Determinism\<close>: \<open>determinism/retry.go\<close> and \<open>idempotency.go\<close>.  \<open>Emulation\<close>: \<open>emulation\<close>.
  \<^item> \<open>Driver_Runtime\<close>: \<open>transport/driver_runtime.go\<close> in its critical sections; \<open>Driver_Safety\<close> and
    \<open>Driver_Leases\<close>: what holds under every interleaving.
  \<^item> \<open>localworker/aa23_plans.go\<close>: \<open>Plan_Codec\<close> (response bytes), \<open>Plan_Overlap\<close> (ambiguity of a plan),
    \<open>Plan_Registry\<close> (the host), \<open>Plan_Worker\<close> (the worker's view and pins).  \<open>Plan_Invariant\<close>, \<open>Plan_Host\<close>,
    \<open>Plan_Store\<close> and \<open>Plan_Safety\<close> carry the invariant through every interleaving of host and workers;
    \<open>Plan_Guarantees\<close> draws the conclusions.
  \<^item> \<open>localworker/aa25_engine.go\<close>: \<open>Sample_Engine\<close> (all operations), \<open>Sample_Frame\<close> (fields kept),
    \<open>Sample_Prepared\<close> (prepared responses), \<open>Sample_Safety\<close> and \<open>Sample_Runs\<close> (the invariant through one pass
    and all runs), \<open>Sample_Guarantees\<close> (the line), \<open>Sample_Clock\<close> (the schedule), \<open>Sample_Frames\<close> (which requests
    are answered), \<open>Sample_Demo\<close> (a concrete engine for the examples).
  \<^bold>\<open>How the code is modelled.\<close>  Structs are records, enumerations datatypes, bytes and counters words of their
  width, times and durations integers of nanoseconds with the wrap-around written out where it matters.  Methods
  that hold a mutex throughout are one step; where a method releases it, as in the driver runtime, each section
  is a step of its own and steps interleave.  A Go error is a value with its chain.  Connections, adapters,
  clocks, contexts and observers are parameters: functions on an explicit world which every theorem quantifies
  over.  Channels with one answer are modelled by the recorded answers.

  \<^bold>\<open>What the lemmas show.\<close>  For the engine: a reported success was on the wire, symbol for symbol; retries end;
  against a cooperative target the data arrive; every accepted request is answered once and none starves.  For
  the ENH transport: what the adapter sends is delivered however it is chunked, queues stay bounded, control
  events survive, arbitration does not leak foreign bytes.  For the codecs: equivalence with polynomial division,
  round trips, exact acceptance and error classes.  For the state machines: invariants over all inputs, bounds on
  every phase and retry.  For the driver runtime: one owner of the bus, no callback on a closing transport, every
  call returns.  For worker plans: authentic response bytes, one authority per address, pinned plans untouched,
  slots that come back.  For the sampling engine: the line follows the pinned response, exactly the matching
  requests are answered, silence without an offer or after a lost event, a schedule that does not drift.

  \<^bold>\<open>Bounds and loops.\<close>  Loops over data are structural recursion.  Retry loops and \<open>for {}\<close> loops are partial
  functions whose value is \<open>None\<close> when they do not return, and their return is proved where the code
  guarantees it; inner loops with a constant bound carry it as a natural number (two attempts for command and
  response, the drain limit of the echo check, eight absorbed SYN bytes per escape pair).

  \<^bold>\<open>Not modelled.\<close>  \<open>determinism/canonical.go\<close> (calls of the JSON and hash libraries), test hooks, string forms
  of values used only for logging, sockets and GPIO lines themselves (\<open>transport/aa29_local_gpio_linux_arm64.go\<close>), and the command line programs under
  \<open>cmd\<close>.  Of the local worker the control lane \<open>aa24_ipc.go\<close>
  and the responder on top of it, \<open>aa26_responder.go\<close>, are left out, as are the ebusd and plain socket transports
  (network calls), adapter descriptions and the B503 payload layouts.
\<close>

end
